(* ===== verification/Portal_Prelude.thy ===== *)
theory Portal_Prelude
  imports Main "HOL-Library.Char_ord" "HOL-Library.List_Lexorder"
begin

text \<open>
  Shared vocabulary of the development: instants and the text columns that hold them, JavaScript
  numbers and strings as far as the program inspects them, results that may throw, and SQL tables
  as lists of rows with the handful of statements the program issues. The lemmas here are the ones
  every component needs about selecting and updating rows by key.
\<close>

named_theorems table_simps \<open>how the SQL table operations act on keyed rows\<close>
named_theorems text_simps \<open>stored texts that read back as the value they were written from\<close>

subsection \<open>Instants and the columns that hold them\<close>

text \<open>
  An instant is a number of milliseconds since the epoch, as \<^verbatim>\<open>Date.parse\<close> returns it. A text
  column that should hold a UTC timestamp is either the canonical rendering of an instant
  (\<^verbatim>\<open>new Date(t).toISOString()\<close>, which sorts as the instant does) or some other text.
\<close>

type_synonym instant = int

datatype stamp = Canon instant | Odd string

fun canonical_stamp :: "stamp \<Rightarrow> bool" where
  "canonical_stamp (Canon t) = True"
| "canonical_stamp (Odd s) = False"

fun stamp_instant :: "stamp \<Rightarrow> instant option" where
  "stamp_instant (Canon t) = Some t"
| "stamp_instant (Odd s) = None"

lemma canonical_stamp_iff: "canonical_stamp s \<longleftrightarrow> (\<exists>t. s = Canon t)"
  by (cases s) auto

lemma stamp_instant_eq_Some [simp]: "stamp_instant s = Some t \<longleftrightarrow> s = Canon t"
  by (cases s) auto

subsection \<open>JavaScript numbers\<close>

text \<open>
  A number is an integer or something else (a fraction, an infinity, \<^verbatim>\<open>NaN\<close>). The program only
  asks whether a number is an integer or a safe integer before it computes with it.
\<close>

datatype js_number = JInt int | JOther

definition max_safe_integer :: int where
  "max_safe_integer = 9007199254740991"

fun is_safe_integer :: "js_number \<Rightarrow> bool" where
  "is_safe_integer (JInt n) = (\<bar>n\<bar> \<le> max_safe_integer)"
| "is_safe_integer JOther = False"

subsection \<open>JavaScript strings\<close>

text \<open>
  A \<open>char\<close> is a UTF-16 code unit below 256. On these, \<^verbatim>\<open>trim\<close> removes exactly the white space and line
  terminators listed here, and \<^verbatim>\<open>toLowerCase\<close> adds 32 to the ASCII and Latin-1 capitals.
\<close>

definition js_space :: "char \<Rightarrow> bool" where
  "js_space c \<longleftrightarrow> of_char c \<in> {9, 10, 11, 12, 13, 32, 160 :: nat}"

definition js_trim :: "string \<Rightarrow> string" where
  "js_trim s = rev (dropWhile js_space (rev (dropWhile js_space s)))"

definition js_blank :: "string \<Rightarrow> bool" where
  "js_blank s \<longleftrightarrow> list_all js_space s"

definition lower_char :: "char \<Rightarrow> char" where
  "lower_char c =
     (let n = (of_char c :: nat)
      in if 65 \<le> n \<and> n \<le> 90 \<or> 192 \<le> n \<and> n \<le> 222 \<and> n \<noteq> 215 then char_of (n + 32) else c)"

definition js_lower :: "string \<Rightarrow> string" where
  "js_lower s = map lower_char s"

text \<open>An optional string is truthy when it is present and not empty.\<close>

fun truthy :: "string option \<Rightarrow> bool" where
  "truthy None = False"
| "truthy (Some s) = (s \<noteq> [])"

fun nat_digits :: "nat \<Rightarrow> string" where
  "nat_digits n = (if n < 10 then [char_of (48 + n)] else nat_digits (n div 10) @ [char_of (48 + n mod 10)])"

declare nat_digits.simps [simp del]

definition int_text :: "int \<Rightarrow> string" where
  "int_text k = (if k < 0 then CHR ''-'' # nat_digits (nat (- k)) else nat_digits (nat k))"

definition hex64 :: "string \<Rightarrow> bool" where
  "hex64 s \<longleftrightarrow> length s = 64 \<and>
     list_all (\<lambda>c. CHR ''0'' \<le> c \<and> c \<le> CHR ''9'' \<or> CHR ''a'' \<le> c \<and> c \<le> CHR ''f'') s"

lemma of_lower_char:
  "of_char (lower_char c) =
     (let n = (of_char c :: nat)
      in if 65 \<le> n \<and> n \<le> 90 \<or> 192 \<le> n \<and> n \<le> 222 \<and> n \<noteq> 215 then n + 32 else n)"
  by (auto simp: lower_char_def Let_def)

lemma lower_char_idem [simp]: "lower_char (lower_char c) = lower_char c"
  by (auto simp: lower_char_def [of "lower_char c"] of_lower_char Let_def)

lemma js_space_lower_char [simp]: "js_space (lower_char c) = js_space c"
  by (auto simp: js_space_def of_lower_char Let_def)

lemma js_lower_idem [simp]: "js_lower (js_lower s) = js_lower s"
  by (simp add: js_lower_def comp_def)

lemma js_lower_append [simp]: "js_lower (s @ t) = js_lower s @ js_lower t"
  by (simp add: js_lower_def)

lemma dropWhile_js_lower: "dropWhile js_space (js_lower s) = js_lower (dropWhile js_space s)"
  by (simp add: js_lower_def dropWhile_map comp_def)

lemma js_trim_lower: "js_trim (js_lower s) = js_lower (js_trim s)"
proof -
  have "rev (js_lower t) = js_lower (rev t)" for t
    by (simp add: js_lower_def rev_map)
  then show ?thesis by (simp add: js_trim_def dropWhile_js_lower)
qed

text \<open>Trimming is idempotent: what is left neither starts nor ends with white space.\<close>

lemma dropWhile_fixed: "dropWhile P xs = xs \<longleftrightarrow> xs = [] \<or> \<not> P (hd xs)"
proof (cases xs)
  case (Cons y ys)
  have "length (dropWhile P ys) \<le> length ys" by (rule length_dropWhile_le)
  then have "dropWhile P ys \<noteq> y # ys" by (metis impossible_Cons)
  with Cons show ?thesis by auto
qed simp

lemma js_trim_fixed: "js_trim s = s" if "s = [] \<or> \<not> js_space (hd s) \<and> \<not> js_space (last s)"
proof -
  from that have "dropWhile js_space s = s" and "dropWhile js_space (rev s) = rev s"
    by (auto simp: dropWhile_fixed hd_rev)
  then show ?thesis by (simp add: js_trim_def)
qed

lemma js_trim_ends: "js_trim s = [] \<or> \<not> js_space (hd (js_trim s)) \<and> \<not> js_space (last (js_trim s))"
proof (cases "js_trim s = []")
  case False
  define t where "t = dropWhile js_space s"
  define u where "u = dropWhile js_space (rev t)"
  have u: "u \<noteq> []" and trim: "js_trim s = rev u"
    using False by (auto simp: js_trim_def t_def u_def)
  have "\<not> js_space (hd u)" using u unfolding u_def by (rule hd_dropWhile)
  moreover have "\<not> js_space (last u)"
  proof -
    obtain p where p: "rev t = p @ u" unfolding u_def by (metis takeWhile_dropWhile_id)
    have "t = rev u @ rev p" using arg_cong [OF p, of rev] by simp
    with u have "t \<noteq> []" and "hd t = last u" by (simp_all add: hd_rev)
    then show ?thesis unfolding t_def by (metis hd_dropWhile)
  qed
  ultimately show ?thesis using u trim by (simp add: hd_rev last_rev)
qed simp

lemma js_trim_idem [simp]: "js_trim (js_trim s) = js_trim s"
  by (rule js_trim_fixed) (rule js_trim_ends)

lemma js_trim_Nil_iff: "js_trim s = [] \<longleftrightarrow> js_blank s"
proof (cases "dropWhile js_space s")
  case Nil
  then show ?thesis by (auto simp: js_trim_def js_blank_def list_all_iff dest: set_dropWhileD)
next
  case (Cons c t)
  then have c: "\<not> js_space c" by (metis hd_dropWhile list.distinct(1) list.sel(1))
  with Cons have "js_trim s \<noteq> []" by (simp add: js_trim_def dropWhile_eq_Nil_conv)
  moreover have "c \<in> set s" using Cons by (metis list.set_intros(1) set_dropWhileD)
  ultimately show ?thesis using c by (auto simp: js_blank_def list_all_iff)
qed

subsection \<open>Results that may throw\<close>

text \<open>\<open>Inl e\<close> is a thrown error, \<open>Inr x\<close> a value. A transaction that throws leaves its state as it was.\<close>

fun bind_result :: "'e + 'a \<Rightarrow> ('a \<Rightarrow> 'e + 'b) \<Rightarrow> 'e + 'b" where
  "bind_result (Inl e) f = Inl e"
| "bind_result (Inr x) f = f x"

definition guard_result :: "bool \<Rightarrow> 'e \<Rightarrow> 'e + unit" where
  "guard_result b e = (if b then Inr () else Inl e)"

lemma bind_result_Inr: "bind_result r f = Inr y \<longleftrightarrow> (\<exists>x. r = Inr x \<and> f x = Inr y)"
  by (cases r) auto

lemma guard_result_Inr [simp]: "guard_result b e = Inr u \<longleftrightarrow> b"
  by (simp add: guard_result_def)

text \<open>\<^verbatim>\<open>array.map\<close> with a function that may throw: the first error wins.\<close>

fun map_result :: "('a \<Rightarrow> 'e + 'b) \<Rightarrow> 'a list \<Rightarrow> 'e + 'b list" where
  "map_result f [] = Inr []"
| "map_result f (x # xs) =
     bind_result (f x) (\<lambda>y. bind_result (map_result f xs) (\<lambda>ys. Inr (y # ys)))"

lemma map_result_all:
  "(\<And>x. x \<in> set xs \<Longrightarrow> f x = Inr (g x)) \<Longrightarrow> map_result f xs = Inr (map g xs)"
  by (induction xs) auto

lemma map_result_length: "map_result f xs = Inr ys \<Longrightarrow> length ys = length xs"
  by (induction xs arbitrary: ys) (auto simp: bind_result_Inr)

subsection \<open>SQL tables\<close>

text \<open>
  A table is a list of rows in insertion order. \<open>find\<close> is \<^verbatim>\<open>SELECT ... WHERE ... LIMIT 1\<close>, \<open>filter\<close> is
  \<^verbatim>\<open>SELECT ... WHERE\<close>, and \<open>update_where\<close> is \<^verbatim>\<open>UPDATE ... SET ... WHERE\<close>.
\<close>

definition update_where :: "('r \<Rightarrow> bool) \<Rightarrow> ('r \<Rightarrow> 'r) \<Rightarrow> 'r list \<Rightarrow> 'r list" where
  "update_where P f rs = map (\<lambda>r. if P r then f r else r) rs"

definition count_where :: "('r \<Rightarrow> bool) \<Rightarrow> 'r list \<Rightarrow> nat" where
  "count_where P rs = length (filter P rs)"

lemma update_where_Nil [simp]: "update_where P f [] = []"
  by (simp add: update_where_def)

lemma update_where_Cons [simp]:
  "update_where P f (r # rs) = (if P r then f r else r) # update_where P f rs"
  by (simp add: update_where_def)

lemma length_update_where [simp]: "length (update_where P f rs) = length rs"
  by (simp add: update_where_def)

lemma set_update_where:
  "set (update_where P f rs) = (\<lambda>r. if P r then f r else r) ` set rs"
  by (simp add: update_where_def)

lemma update_where_none: "(\<And>r. r \<in> set rs \<Longrightarrow> \<not> P r) \<Longrightarrow> update_where P f rs = rs"
  by (induction rs) auto

lemma update_where_twice:
  "(\<And>r. P r \<Longrightarrow> P (f r)) \<Longrightarrow>
     update_where P g (update_where P f rs) = update_where P (\<lambda>r. g (f r)) rs"
  by (induction rs) auto

text \<open>An update that keeps the key column: looking a key up afterwards.\<close>

lemma find_update_where [table_simps]:
  "(\<And>r. P r \<Longrightarrow> key (f r) = key r) \<Longrightarrow>
     find (\<lambda>r. key r = k) (update_where P f rs) =
       map_option (\<lambda>r. if P r then f r else r) (find (\<lambda>r. key r = k) rs)"
  by (induction rs) auto

lemma keys_update_where [table_simps]:
  "(\<And>r. P r \<Longrightarrow> key (f r) = key r) \<Longrightarrow> map key (update_where P f rs) = map key rs"
  by (induction rs) auto

lemma filter_update_where [table_simps]:
  "(\<And>r. P r \<Longrightarrow> Q (f r) = Q r) \<Longrightarrow>
     filter Q (update_where P f rs) = update_where P f (filter Q rs)"
  by (induction rs) auto

lemma find_append [table_simps]:
  "find P (xs @ ys) = (case find P xs of None \<Rightarrow> find P ys | Some x \<Rightarrow> Some x)"
  by (induction xs) auto

lemma find_key_Some: "find (\<lambda>r. key r = k) rs = Some r \<Longrightarrow> key r = k \<and> r \<in> set rs"
  by (induction rs) (auto split: if_splits)

lemma find_key_None: "find (\<lambda>r. key r = k) rs = None \<longleftrightarrow> k \<notin> key ` set rs"
  by (auto simp: find_None_iff)

lemma find_key_distinct:
  "distinct (map key rs) \<Longrightarrow> r \<in> set rs \<Longrightarrow> find (\<lambda>r'. key r' = key r) rs = Some r"
  by (induction rs) (auto simp: rev_image_eqI)

lemma count_where_update_le:
  "(\<And>r. P r \<Longrightarrow> Q (f r) \<Longrightarrow> Q r) \<Longrightarrow> count_where Q (update_where P f rs) \<le> count_where Q rs"
  by (induction rs) (auto simp: count_where_def)

end
