(* ===== verification/Mail_Address.thy ===== *)
theory Mail_Address
  imports Portal_Prelude
begin

text \<open>
  \<^verbatim>\<open>workers/lib/mail-address.ts\<close>: the one normal form of a mailbox address, and the test that its
  domain is one of the brand's configured mail domains. The lemmas show that normal forms are fixed
  points, so an address that was normalised once can be compared as text everywhere else.
\<close>

definition index_of :: "char \<Rightarrow> string \<Rightarrow> int" where
  "index_of c s = (let p = takeWhile (\<lambda>d. d \<noteq> c) s in if length p = length s then - 1 else int (length p))"

definition last_index_of :: "char \<Rightarrow> string \<Rightarrow> int" where
  "last_index_of c s =
     (let p = takeWhile (\<lambda>d. d \<noteq> c) (rev s)
      in if length p = length s then - 1 else int (length s) - 1 - int (length p))"

definition normalizeMailAddress :: "string \<Rightarrow> string option" where
  "normalizeMailAddress value =
     (let address = js_lower (js_trim value);
          at = index_of (CHR ''@'') address
      in if at \<le> 0 \<or> at \<noteq> last_index_of (CHR ''@'') address
            \<or> at = int (length address) - 1 \<or> (\<exists>c \<in> set address. js_space c)
         then None else Some address)"

fun split_on :: "char \<Rightarrow> string \<Rightarrow> string list" where
  "split_on c [] = [[]]"
| "split_on c (d # s) =
     (if d = c then [] # split_on c s
      else case split_on c s of [] \<Rightarrow> [[d]] | p # ps \<Rightarrow> (d # p) # ps)"

definition isAddressInConfiguredMailDomains :: "string \<Rightarrow> string option \<Rightarrow> bool" where
  "isAddressInConfiguredMailDomains value domainsVar =
     (case normalizeMailAddress value of
        None \<Rightarrow> False
      | Some address \<Rightarrow>
          (let domain = drop (nat (last_index_of (CHR ''@'') address + 1)) address
           in domain \<in> set (filter (\<lambda>d. d \<noteq> [])
                (map (\<lambda>d. js_lower (js_trim d))
                  (split_on (CHR '','') (case domainsVar of None \<Rightarrow> [] | Some v \<Rightarrow> v))))))"

lemma index_of_nonneg: "0 \<le> index_of c s \<Longrightarrow> c \<in> set s"
proof (rule ccontr)
  assume "0 \<le> index_of c s" and c: "c \<notin> set s"
  have "takeWhile (\<lambda>d. d \<noteq> c) s = s" using c by (auto simp: takeWhile_eq_all_conv)
  then have "index_of c s = - 1" by (simp add: index_of_def del: takeWhile_eq_all_conv)
  with \<open>0 \<le> index_of c s\<close> show False by simp
qed

lemma normalizeMailAddress_Some:
  assumes "normalizeMailAddress v = Some a"
  shows "a = js_lower (js_trim v) \<and> CHR ''@'' \<in> set a \<and> (\<forall>c \<in> set a. \<not> js_space c)"
proof -
  from assms have a: "a = js_lower (js_trim v)" and "\<not> index_of (CHR ''@'') a \<le> 0"
    and "\<forall>c \<in> set a. \<not> js_space c"
    unfolding normalizeMailAddress_def Let_def by (simp_all split: if_splits)
  then show ?thesis using index_of_nonneg [of "CHR ''@''" a] by simp
qed

lemma normalizeMailAddress_fixed:
  assumes "normalizeMailAddress v = Some a"
  shows "normalizeMailAddress a = Some a"
proof -
  from assms have a: "a = js_lower (js_trim v)" and space: "\<forall>c \<in> set a. \<not> js_space c"
    by (blast dest: normalizeMailAddress_Some)+
  have "js_trim a = a"
    using space by (intro js_trim_fixed) (auto dest: hd_in_set last_in_set)
  moreover have "js_lower a = a" by (simp add: a)
  ultimately show ?thesis using assms by (simp add: normalizeMailAddress_def Let_def a)
qed

lemma normalizeMailAddress_nonempty [simp]: "normalizeMailAddress v \<noteq> Some []"
  by (auto dest: normalizeMailAddress_Some)

end
