(* ===== verification/Outbound_Contract.thy ===== *)
theory Outbound_Contract
  imports Portal_Prelude
begin

text \<open>
  The vocabulary and the invariants every sender shares:
  \<^verbatim>\<open>workers/lib/outbound-delivery-contract.ts\<close> (statuses, the transition table, availability, the
  classification of what the provider answered), \<^verbatim>\<open>workers/lib/outbound-dispatch-policy.ts\<close> (send
  quotas, pacing, cancellation plans), \<^verbatim>\<open>shared/outbound-schedule.ts\<close> and the folder constants of
  \<^verbatim>\<open>shared/folders.ts\<close>.
\<close>

subsection \<open>Statuses, kinds, sources and actors\<close>

datatype delivery_status =
  Queued | Sending | Retrying | Sent | Bounced | Failed | Unknown | Cancelled

datatype delivery_kind = Compose | Reply | Forward | Bulk

datatype delivery_source = SrcUi | SrcApi | SrcMcp | SrcAgent | SrcRule | SrcBulk

datatype actor_kind = ActUser | ActMcp | ActAgent | ActRule | ActSystem

record delivery_actor =
  ac_kind :: actor_kind
  ac_id :: "string option"

datatype disposition = Attachment | Inline

record byte_identity =
  bi_id :: string
  bi_byteLength :: int
  bi_sha256 :: string
  bi_filename :: string
  bi_mimetype :: string
  bi_disposition :: disposition
  bi_contentId :: "string option"

record message_snapshot =
  sn_mailboxId :: string
  sn_draftId :: "string option"
  sn_draftVersion :: "int option"
  sn_kind :: delivery_kind
  sn_to :: "string list"
  sn_cc :: "string list"
  sn_bcc :: "string list"
  sn_from :: string
  sn_subject :: string
  sn_html :: "string option"
  sn_text :: "string option"
  sn_inReplyTo :: "string option"
  sn_references :: "string list option"
  sn_threadId :: string
  sn_attachmentIds :: "string list"
  sn_attachmentByteIdentities :: "byte_identity list option"
  sn_sourceDraftAttachmentIds :: "string list option"

record enqueue_command =
  cm_idempotencyKey :: string
  cm_commandFingerprint :: string
  cm_source :: delivery_source
  cm_actor :: delivery_actor
  cm_snapshot :: message_snapshot
  cm_requestedAt :: instant
  cm_undoUntil :: instant
  cm_scheduledFor :: "instant option"

subsection \<open>The transition table\<close>

datatype delivery_transition =
  Start_sending | Provider_accepted | Provider_bounced | Schedule_retry | Retry_ready
| Exhaust_retries | Definitive_failure | Ambiguous_outcome | Lease_expired | Cancel
| Retry_failed | Force_retry_unknown

primrec TRANSITIONS :: "delivery_status \<Rightarrow> delivery_transition \<Rightarrow> delivery_status option" where
  "TRANSITIONS Queued t =
     (case t of Start_sending \<Rightarrow> Some Sending | Definitive_failure \<Rightarrow> Some Failed
      | Cancel \<Rightarrow> Some Cancelled | _ \<Rightarrow> None)"
| "TRANSITIONS Sending t =
     (case t of Provider_accepted \<Rightarrow> Some Sent | Schedule_retry \<Rightarrow> Some Retrying
      | Exhaust_retries \<Rightarrow> Some Failed | Definitive_failure \<Rightarrow> Some Failed
      | Ambiguous_outcome \<Rightarrow> Some Unknown | Lease_expired \<Rightarrow> Some Unknown | _ \<Rightarrow> None)"
| "TRANSITIONS Retrying t =
     (case t of Retry_ready \<Rightarrow> Some Queued | Definitive_failure \<Rightarrow> Some Failed
      | Cancel \<Rightarrow> Some Cancelled | _ \<Rightarrow> None)"
| "TRANSITIONS Failed t = (case t of Retry_failed \<Rightarrow> Some Queued | _ \<Rightarrow> None)"
| "TRANSITIONS Unknown t =
     (case t of Force_retry_unknown \<Rightarrow> Some Queued | Provider_bounced \<Rightarrow> Some Bounced | _ \<Rightarrow> None)"
| "TRANSITIONS Sent t = (case t of Provider_bounced \<Rightarrow> Some Bounced | _ \<Rightarrow> None)"
| "TRANSITIONS Bounced t = None"
| "TRANSITIONS Cancelled t = None"

text \<open>Why an outbox operation throws.\<close>

datatype replay_conflict = Command_mismatch | Legacy_idempotency_unverifiable

datatype draft_conflict = Draft_not_found | Draft_not_draft | Draft_version_conflict int

datatype outbox_error =
  InvalidDeliveryTransition delivery_status delivery_transition
| DeliveryLease string
| OutboundDeliveryNotFound string
| OutboundDeliveryIntegrity string
| OutboundDeliveryNotRetryable string
| DuplicateRiskAcknowledgementRequired string
| OutboundRetryCapacity
| OutboundIdempotencyConflict replay_conflict
| SourceDraftConflict string draft_conflict
| PlainError string

definition transitionDelivery ::
  "delivery_status \<Rightarrow> delivery_transition \<Rightarrow> outbox_error + delivery_status" where
  "transitionDelivery status transition =
     (case TRANSITIONS status transition of
        None \<Rightarrow> Inl (InvalidDeliveryTransition status transition)
      | Some next \<Rightarrow> Inr next)"

definition computeAvailableAt :: "instant \<Rightarrow> instant option \<Rightarrow> instant" where
  "computeAvailableAt undoUntil scheduledFor =
     (case scheduledFor of
        None \<Rightarrow> undoUntil
      | Some at \<Rightarrow> if at > undoUntil then at else undoUntil)"

definition canCancelDelivery :: "delivery_status \<Rightarrow> bool" where
  "canCancelDelivery status \<longleftrightarrow> status = Queued \<or> status = Retrying"

definition NON_RETRYABLE_LOCAL_FAILURE_CODES :: "string list" where
  "NON_RETRYABLE_LOCAL_FAILURE_CODES =
     [''attachment_integrity_unverifiable'', ''attachment_metadata_mismatch'',
      ''attachment_size_mismatch'', ''attachment_content_mismatch'', ''attachment_missing'',
      ''snapshot_missing'', ''outbound_snapshot_invalid'', ''outbound_dispatch_metadata_invalid'']"

definition canRetryFailedDelivery :: "string option \<Rightarrow> bool" where
  "canRetryFailedDelivery errorCode \<longleftrightarrow>
     \<not> truthy errorCode \<or> the errorCode \<notin> set NON_RETRYABLE_LOCAL_FAILURE_CODES"

definition shouldRetainSourceDraft :: "delivery_status \<Rightarrow> bool" where
  "shouldRetainSourceDraft status \<longleftrightarrow> status \<noteq> Sent \<and> status \<noteq> Bounced"

subsection \<open>What the provider answered\<close>

datatype ses_observed =
  Ses_accepted string
| Ses_http_error int
| Ses_not_dispatched
| Ses_transport_ambiguous
| Ses_invalid_success_response

datatype ses_classified =
  Class_sent string
| Class_definitive_failure bool string
| Class_unknown string

fun automaticRetry :: "ses_classified \<Rightarrow> bool" where
  "automaticRetry (Class_sent _) = False"
| "automaticRetry (Class_definitive_failure r _) = r"
| "automaticRetry (Class_unknown _) = False"

fun classifySesOutcome :: "ses_observed \<Rightarrow> ses_classified" where
  "classifySesOutcome (Ses_accepted messageId) = Class_sent messageId"
| "classifySesOutcome Ses_not_dispatched = Class_definitive_failure True ''not_dispatched''"
| "classifySesOutcome Ses_transport_ambiguous = Class_unknown ''transport_ambiguous''"
| "classifySesOutcome Ses_invalid_success_response = Class_unknown ''invalid_success_response''"
| "classifySesOutcome (Ses_http_error status) =
     (if status = 408 \<or> 500 \<le> status \<and> status \<le> 599
      then Class_unknown (''ses_http_'' @ int_text status @ ''_acceptance_unknown'')
      else Class_definitive_failure (status = 429) (''ses_http_'' @ int_text status))"

subsection \<open>Send quotas and pacing\<close>

definition MAILBOX_HOURLY_SEND_LIMIT :: int where "MAILBOX_HOURLY_SEND_LIMIT = 20"
definition MAILBOX_DAILY_SEND_LIMIT :: int where "MAILBOX_DAILY_SEND_LIMIT = 100"

record quota_snapshot =
  sentLastHour :: int
  sentLastDay :: int
  activeReservations :: int
  oldestSentInHour :: "instant option"
  oldestSentInDay :: "instant option"
  quota_now :: instant

datatype quota_limit = Mailbox_hourly_send_limit | Mailbox_daily_send_limit

datatype quota_plan = Quota_allowed | Quota_wait quota_limit instant

definition retryAfterWindow :: "instant option \<Rightarrow> int \<Rightarrow> instant \<Rightarrow> instant" where
  "retryAfterWindow oldestSentAt windowMs now =
     (let candidate = (case oldestSentAt of Some oldest \<Rightarrow> oldest + windowMs + 1000
                                          | None \<Rightarrow> now + 60000)
      in max candidate (now + 1000))"

definition planDispatchQuota :: "quota_snapshot \<Rightarrow> quota_plan" where
  "planDispatchQuota q =
     (if sentLastHour q + activeReservations q > MAILBOX_HOURLY_SEND_LIMIT
      then Quota_wait Mailbox_hourly_send_limit
             (retryAfterWindow (oldestSentInHour q) (60 * 60000) (quota_now q))
      else if sentLastDay q + activeReservations q > MAILBOX_DAILY_SEND_LIMIT
      then Quota_wait Mailbox_daily_send_limit
             (retryAfterWindow (oldestSentInDay q) (24 * 60 * 60000) (quota_now q))
      else Quota_allowed)"

subsection \<open>Folders and cancellation plans\<close>

definition INBOX :: string where "INBOX = ''inbox''"
definition SENT :: string where "SENT = ''sent''"
definition DRAFT :: string where "DRAFT = ''draft''"
definition OUTBOX :: string where "OUTBOX = ''outbox''"
definition SNOOZED :: string where "SNOOZED = ''snoozed''"
definition ARCHIVE :: string where "ARCHIVE = ''archive''"
definition TRASH :: string where "TRASH = ''trash''"
definition SPAM :: string where "SPAM = ''spam''"
definition RETIRED_OUTBOUND :: string where "RETIRED_OUTBOUND = ''_cancelled_outbound''"

definition isInternalFolderId :: "string option \<Rightarrow> bool" where
  "isInternalFolderId folderId \<longleftrightarrow> folderId = Some RETIRED_OUTBOUND"

definition cancellationRecoveryPending :: "delivery_status \<Rightarrow> string option \<Rightarrow> bool" where
  "cancellationRecoveryPending status snapshotFolderId \<longleftrightarrow>
     status = Cancelled \<and> snapshotFolderId \<noteq> Some RETIRED_OUTBOUND"

record cancel_plan =
  cp_folderId :: string
  cp_createRecoveredDraft :: bool
  cp_deleteSnapshotAttachments :: bool

definition planCancelledOutboundRecovery :: "bool \<Rightarrow> cancel_plan" where
  "planCancelledOutboundRecovery sourceDraftEquivalent =
     (if sourceDraftEquivalent
      then \<lparr>cp_folderId = RETIRED_OUTBOUND, cp_createRecoveredDraft = False,
            cp_deleteSnapshotAttachments = True\<rparr>
      else \<lparr>cp_folderId = RETIRED_OUTBOUND, cp_createRecoveredDraft = True,
            cp_deleteSnapshotAttachments = False\<rparr>)"

subsection \<open>Send Later\<close>

definition MIN_SCHEDULE_LEAD_MS :: int where "MIN_SCHEDULE_LEAD_MS = 60000"
definition SEND_UNDO_WINDOW_MS :: int where "SEND_UNDO_WINDOW_MS = 10000"

record schedule_timing =
  tm_requestedAt :: instant
  tm_undoUntil :: instant
  tm_scheduledFor :: "instant option"

datatype schedule_error = Schedule_too_soon | Schedule_beyond_horizon

text \<open>
  The requested text is \<^verbatim>\<open>None\<close> when absent or empty; otherwise \<open>Some p\<close> with what \<^verbatim>\<open>Date\<close> makes of
  it (\<open>None\<close> is an invalid date). \<open>horizon\<close> stands for \<^verbatim>\<open>outboundScheduleHorizon\<close>, the calendar
  year after \<open>now\<close>, which the standard library's \<^verbatim>\<open>setUTCFullYear\<close> computes.
\<close>

definition validateOutboundSchedule ::
  "(instant \<Rightarrow> instant) \<Rightarrow> instant option option \<Rightarrow> instant \<Rightarrow> schedule_error + schedule_timing" where
  "validateOutboundSchedule horizon scheduledFor now =
     (case scheduledFor of
        None \<Rightarrow> Inr \<lparr>tm_requestedAt = now, tm_undoUntil = now + SEND_UNDO_WINDOW_MS,
                    tm_scheduledFor = None\<rparr>
      | Some None \<Rightarrow> Inl Schedule_too_soon
      | Some (Some scheduled) \<Rightarrow>
          if scheduled - now < MIN_SCHEDULE_LEAD_MS then Inl Schedule_too_soon
          else if scheduled > horizon now then Inl Schedule_beyond_horizon
          else Inr \<lparr>tm_requestedAt = now, tm_undoUntil = now, tm_scheduledFor = Some scheduled\<rparr>)"

subsection \<open>Facts about the contract\<close>

lemma transitionDelivery_Inr [simp]:
  "transitionDelivery s t = Inr s' \<longleftrightarrow> TRANSITIONS s t = Some s'"
  by (simp add: transitionDelivery_def split: option.splits)

lemma TRANSITIONS_into:
  "TRANSITIONS s t = Some Sent \<longleftrightarrow> s = Sending \<and> t = Provider_accepted"
  "TRANSITIONS s t = Some Sending \<longleftrightarrow> s = Queued \<and> t = Start_sending"
  "TRANSITIONS s t = Some Cancelled \<longleftrightarrow> canCancelDelivery s \<and> t = Cancel"
  by (cases s; cases t; simp add: canCancelDelivery_def)+

lemma TRANSITIONS_cancel: "TRANSITIONS s Cancel \<noteq> None \<longleftrightarrow> canCancelDelivery s"
  by (cases s) (simp_all add: canCancelDelivery_def)

lemma computeAvailableAt_max:
  "computeAvailableAt u s = (case s of None \<Rightarrow> u | Some t \<Rightarrow> max u t)"
  by (simp add: computeAvailableAt_def max_def split: option.splits)

lemma retryAfterWindow_later: "now < retryAfterWindow oldest w now"
  by (simp add: retryAfterWindow_def Let_def)

lemma validateOutboundSchedule_window:
  "validateOutboundSchedule h s now = Inr tm \<Longrightarrow>
     tm_requestedAt tm = now \<and>
     now + min MIN_SCHEDULE_LEAD_MS SEND_UNDO_WINDOW_MS
       \<le> computeAvailableAt (tm_undoUntil tm) (tm_scheduledFor tm)"
  by (auto simp: validateOutboundSchedule_def computeAvailableAt_max MIN_SCHEDULE_LEAD_MS_def
      SEND_UNDO_WINDOW_MS_def split: option.splits if_splits)

end
