(* ===== verification/Bulk_Pacing.thy ===== *)
theory Bulk_Pacing
  imports Complex_Main Outbound_Contract
begin

text \<open>
  The pacing of bulk sends in \<^verbatim>\<open>workers/lib/outbound-dispatch-policy.ts\<close>. It stands alone because it
  is the one place that computes with a fraction (the value of \<^verbatim>\<open>Math.random()\<close>, a rational here).
\<close>

definition nextBulkEnqueueAt :: "instant \<Rightarrow> rat \<Rightarrow> instant" where
  "nextBulkEnqueueAt nowMs randomFraction =
     (let boundedFraction = max 0 (min (999999 / 1000000) randomFraction)
      in nowMs + 1500 + \<lfloor>boundedFraction * 1000\<rfloor>)"

text \<open>Whatever the fraction is, the next message waits between 1.5 and 2.5 seconds.\<close>

lemma nextBulkEnqueueAt_bounds:
  "nowMs + 1500 \<le> nextBulkEnqueueAt nowMs f \<and> nextBulkEnqueueAt nowMs f < nowMs + 2500"
proof -
  define b where "b = max 0 (min (999999 / 1000000) f)"
  have "0 \<le> b" and "b < 1" by (auto simp: b_def)
  then have "0 \<le> \<lfloor>b * 1000\<rfloor>" and "\<lfloor>b * 1000\<rfloor> < 1000"
    by (simp_all add: floor_less_iff)
  then show ?thesis by (simp add: nextBulkEnqueueAt_def b_def [symmetric])
qed

end
