(* ===== verification/Outbound_Snapshot.thy ===== *)
theory Outbound_Snapshot
  imports Outbound_Contract Mail_Address "HOL-Library.Monad_Syntax"
begin

text \<open>
  The immutable message snapshot as it is stored: the JSON envelope that
  \<^verbatim>\<open>workers/durableObject/outbound-storage.ts\<close> writes into \<^verbatim>\<open>emails.raw_headers\<close>, the reader that accepts
  nothing it cannot fully validate, and the check that ties uploaded attachments to the snapshot's
  byte manifest. The main facts are that a valid snapshot reads back as it was written and that the
  reader yields valid snapshots only.
\<close>

subsection \<open>JSON values\<close>

datatype json =
  JNull | JBool bool | JNum js_number | JStr string | JArr "json list" | JObj "(string \<times> json) list"

text \<open>A stored text that \<^verbatim>\<open>JSON.parse\<close> reads as a value, or one that it rejects.\<close>

datatype raw_text = Json_text json | Not_json string

fun jget :: "string \<Rightarrow> json \<Rightarrow> json option" where
  "jget k (JObj fs) = map_of fs k"
| "jget k _ = None"

fun jstr :: "json \<Rightarrow> string option" where
  "jstr (JStr s) = Some s"
| "jstr _ = None"

fun jint :: "json \<Rightarrow> int option" where
  "jint (JNum (JInt n)) = Some n"
| "jint _ = None"

fun jarr :: "json \<Rightarrow> json list option" where
  "jarr (JArr xs) = Some xs"
| "jarr _ = None"

definition ensure :: "bool \<Rightarrow> unit option" where
  "ensure b = (if b then Some () else None)"

lemma ensure_eq_Some [simp]: "ensure b = Some u \<longleftrightarrow> b"
  by (simp add: ensure_def)

text \<open>An optional field: absent is fine, present must be readable.\<close>

definition optional_field :: "(json \<Rightarrow> 'a option) \<Rightarrow> json option \<Rightarrow> 'a option option" where
  "optional_field f v = (case v of None \<Rightarrow> Some None | Some j \<Rightarrow> map_option Some (f j))"

fun read_all :: "('a \<Rightarrow> 'b option) \<Rightarrow> 'a list \<Rightarrow> 'b list option" where
  "read_all f [] = Some []"
| "read_all f (x # xs) = do { y \<leftarrow> f x; ys \<leftarrow> read_all f xs; Some (y # ys) }"

lemma read_all_map: "(\<And>x. x \<in> set xs \<Longrightarrow> f (g x) = Some x) \<Longrightarrow> read_all f (map g xs) = Some xs"
  by (induction xs) auto

lemma read_all_elem: "read_all f js = Some xs \<Longrightarrow> x \<in> set xs \<Longrightarrow> \<exists>j. f j = Some x"
  by (induction js arbitrary: xs) (auto simp: bind_eq_Some_conv)

subsection \<open>Field texts\<close>

primrec kind_text :: "delivery_kind \<Rightarrow> string" where
  "kind_text Compose = ''compose''"
| "kind_text Reply = ''reply''"
| "kind_text Forward = ''forward''"
| "kind_text Bulk = ''bulk''"

definition read_kind :: "string \<Rightarrow> delivery_kind option" where
  "read_kind s = find (\<lambda>k. kind_text k = s) [Compose, Reply, Forward, Bulk]"

primrec disposition_text :: "disposition \<Rightarrow> string" where
  "disposition_text Attachment = ''attachment''"
| "disposition_text Inline = ''inline''"

definition read_disposition :: "string \<Rightarrow> disposition option" where
  "read_disposition s = find (\<lambda>d. disposition_text d = s) [Attachment, Inline]"

lemma read_kind_text [text_simps]: "read_kind (kind_text k) = Some k"
  by (cases k) (simp_all add: read_kind_def)

lemma read_disposition_text [text_simps]: "read_disposition (disposition_text d) = Some d"
  by (cases d) (simp_all add: read_disposition_def)

lemma disposition_text_eq [simp]: "disposition_text d = disposition_text e \<longleftrightarrow> d = e"
  by (cases d; cases e) simp_all

subsection \<open>The byte manifest\<close>

definition isAttachmentByteIdentity :: "byte_identity \<Rightarrow> bool" where
  "isAttachmentByteIdentity i \<longleftrightarrow>
     bi_id i \<noteq> [] \<and> 0 \<le> bi_byteLength i \<and> hex64 (bi_sha256 i) \<and>
     bi_filename i \<noteq> [] \<and> bi_mimetype i \<noteq> [] \<and> bi_contentId i \<noteq> Some [] \<and>
     (bi_disposition i = Inline \<or> bi_contentId i = None)"

definition byte_identity_of_json :: "json \<Rightarrow> byte_identity option" where
  "byte_identity_of_json j = do {
     i \<leftarrow> jget ''id'' j \<bind> jstr;
     n \<leftarrow> jget ''byteLength'' j \<bind> jint;
     h \<leftarrow> jget ''sha256'' j \<bind> jstr;
     f \<leftarrow> jget ''filename'' j \<bind> jstr;
     m \<leftarrow> jget ''mimetype'' j \<bind> jstr;
     d \<leftarrow> jget ''disposition'' j \<bind> jstr \<bind> read_disposition;
     c \<leftarrow> optional_field jstr (jget ''contentId'' j);
     let bi = \<lparr>bi_id = i, bi_byteLength = n, bi_sha256 = h, bi_filename = f, bi_mimetype = m,
               bi_disposition = d, bi_contentId = c\<rparr>;
     ensure (isAttachmentByteIdentity bi);
     Some bi }"

definition hasExactAttachmentByteManifest :: "string list \<Rightarrow> byte_identity list option \<Rightarrow> bool" where
  "hasExactAttachmentByteManifest attachmentIds value =
     (case value of
        None \<Rightarrow> False
      | Some bis \<Rightarrow>
          list_all isAttachmentByteIdentity bis \<and>
          (let manifestIds = map bi_id bis
           in distinct manifestIds \<and> length manifestIds = length attachmentIds \<and>
              list_all2 (=) (sort manifestIds) (sort attachmentIds)))"

lemma hasExactAttachmentByteManifest_iff:
  "hasExactAttachmentByteManifest ids (Some bis) \<longleftrightarrow>
     (\<forall>b \<in> set bis. isAttachmentByteIdentity b) \<and> distinct (map bi_id bis) \<and>
     distinct ids \<and> bi_id ` set bis = set ids"
proof -
  have "distinct (map bi_id bis) \<and> length bis = length ids \<and> sort (map bi_id bis) = sort ids
      \<longleftrightarrow> distinct (map bi_id bis) \<and> distinct ids \<and> set (map bi_id bis) = set ids"
    (is "?l \<longleftrightarrow> ?r")
  proof
    assume ?l
    then have "set (map bi_id bis) = set ids" by (metis set_sort)
    moreover have "distinct ids" using \<open>?l\<close> by (metis distinct_sort)
    ultimately show ?r using \<open>?l\<close> by simp
  next
    assume r: ?r
    then have "sort (map bi_id bis) = sort ids"
      by (metis sorted_list_of_set_sort_remdups distinct_remdups_id)
    moreover from r have "length bis = length ids"
      by (metis distinct_card length_map)
    ultimately show ?l using r by simp
  qed
  then show ?thesis
    by (auto simp: hasExactAttachmentByteManifest_def Let_def list_all_iff list.rel_eq)
qed

subsection \<open>Writing a snapshot\<close>

definition opt_entry :: "string \<Rightarrow> ('a \<Rightarrow> json) \<Rightarrow> 'a option \<Rightarrow> (string \<times> json) list" where
  "opt_entry k f v = (case v of None \<Rightarrow> [] | Some x \<Rightarrow> [(k, f x)])"

definition jstrings :: "string list \<Rightarrow> json" where
  "jstrings xs = JArr (map JStr xs)"

definition json_of_byte_identity :: "byte_identity \<Rightarrow> json" where
  "json_of_byte_identity b = JObj
     ([(''id'', JStr (bi_id b)), (''byteLength'', JNum (JInt (bi_byteLength b))),
       (''sha256'', JStr (bi_sha256 b)), (''filename'', JStr (bi_filename b)),
       (''mimetype'', JStr (bi_mimetype b)),
       (''disposition'', JStr (disposition_text (bi_disposition b)))]
      @ opt_entry ''contentId'' JStr (bi_contentId b))"

definition json_of_snapshot :: "message_snapshot \<Rightarrow> json" where
  "json_of_snapshot s = JObj
     ([(''mailboxId'', JStr (sn_mailboxId s))]
      @ opt_entry ''draftId'' JStr (sn_draftId s)
      @ opt_entry ''draftVersion'' (\<lambda>n. JNum (JInt n)) (sn_draftVersion s)
      @ [(''kind'', JStr (kind_text (sn_kind s))), (''to'', jstrings (sn_to s)),
         (''cc'', jstrings (sn_cc s)), (''bcc'', jstrings (sn_bcc s)),
         (''from'', JStr (sn_from s)), (''subject'', JStr (sn_subject s))]
      @ opt_entry ''html'' JStr (sn_html s)
      @ opt_entry ''text'' JStr (sn_text s)
      @ opt_entry ''inReplyTo'' JStr (sn_inReplyTo s)
      @ opt_entry ''references'' jstrings (sn_references s)
      @ [(''threadId'', JStr (sn_threadId s)), (''attachmentIds'', jstrings (sn_attachmentIds s))]
      @ opt_entry ''attachmentByteIdentities'' (\<lambda>bs. JArr (map json_of_byte_identity bs))
          (sn_attachmentByteIdentities s)
      @ opt_entry ''sourceDraftAttachmentIds'' jstrings (sn_sourceDraftAttachmentIds s))"

definition SNAPSHOT_ENVELOPE_KIND :: string where
  "SNAPSHOT_ENVELOPE_KIND = ''mail-portal/outbound-snapshot''"

definition SNAPSHOT_ENVELOPE_VERSION :: int where "SNAPSHOT_ENVELOPE_VERSION = 2"

definition serializeOutboundSnapshot :: "message_snapshot \<Rightarrow> outbox_error + raw_text" where
  "serializeOutboundSnapshot s =
     (if \<not> hasExactAttachmentByteManifest (sn_attachmentIds s) (sn_attachmentByteIdentities s)
      then Inl (PlainError ''Outbound snapshot requires an exact attachment byte manifest'')
      else Inr (Json_text (JObj
        [(''kind'', JStr SNAPSHOT_ENVELOPE_KIND),
         (''version'', JNum (JInt SNAPSHOT_ENVELOPE_VERSION)),
         (''snapshot'', json_of_snapshot s)])))"

subsection \<open>Reading a snapshot\<close>

definition isStringArray :: "bool \<Rightarrow> bool \<Rightarrow> json \<Rightarrow> string list option" where
  "isStringArray unique allowEmpty j = do {
     js \<leftarrow> jarr j;
     xs \<leftarrow> read_all jstr js;
     ensure (list_all (\<lambda>x. allowEmpty \<or> x \<noteq> []) xs \<and> (unique \<longrightarrow> distinct xs));
     Some xs }"

definition isAddressArray :: "json \<Rightarrow> string list option" where
  "isAddressArray j = do {
     js \<leftarrow> jarr j;
     xs \<leftarrow> read_all jstr js;
     ensure (list_all (\<lambda>x. normalizeMailAddress x = Some x) xs);
     Some xs }"

definition hasValidSourceDraftReference :: "json \<Rightarrow> (string option \<times> int option) option" where
  "hasValidSourceDraftReference j =
     (case (jget ''draftId'' j, jget ''draftVersion'' j) of
        (None, None) \<Rightarrow> Some (None, None)
      | (Some di, Some dv) \<Rightarrow> do {
          i \<leftarrow> jstr di;
          v \<leftarrow> jint dv;
          ensure (i \<noteq> [] \<and> 1 \<le> v);
          Some (Some i, Some v) }
      | _ \<Rightarrow> None)"

definition snapshot_of_json :: "int \<Rightarrow> json \<Rightarrow> message_snapshot option" where
  "snapshot_of_json version j = do {
     m \<leftarrow> jget ''mailboxId'' j \<bind> jstr;
     ensure (normalizeMailAddress m = Some m);
     (draftId, draftVersion) \<leftarrow> hasValidSourceDraftReference j;
     k \<leftarrow> jget ''kind'' j \<bind> jstr \<bind> read_kind;
     to \<leftarrow> jget ''to'' j \<bind> isAddressArray;
     cc \<leftarrow> jget ''cc'' j \<bind> isAddressArray;
     bcc \<leftarrow> jget ''bcc'' j \<bind> isAddressArray;
     ensure (length to + length cc + length bcc \<noteq> 0);
     from \<leftarrow> jget ''from'' j \<bind> jstr;
     ensure (normalizeMailAddress from = Some m);
     subject \<leftarrow> jget ''subject'' j \<bind> jstr;
     html \<leftarrow> optional_field jstr (jget ''html'' j);
     text \<leftarrow> optional_field jstr (jget ''text'' j);
     inReplyTo \<leftarrow> optional_field jstr (jget ''inReplyTo'' j);
     ensure (inReplyTo \<noteq> Some []);
     references \<leftarrow> optional_field (isStringArray False (version = 1)) (jget ''references'' j);
     threadId \<leftarrow> jget ''threadId'' j \<bind> jstr;
     ensure (threadId \<noteq> []);
     attachmentIds \<leftarrow> jget ''attachmentIds'' j \<bind> isStringArray True False;
     sourceIds \<leftarrow> optional_field (isStringArray True False) (jget ''sourceDraftAttachmentIds'' j);
     manifest \<leftarrow> (if version = SNAPSHOT_ENVELOPE_VERSION
                  then do {
                    bs \<leftarrow> jget ''attachmentByteIdentities'' j \<bind> jarr \<bind> read_all byte_identity_of_json;
                    ensure (hasExactAttachmentByteManifest attachmentIds (Some bs));
                    Some (Some bs) }
                  else Some None);
     Some \<lparr>sn_mailboxId = m, sn_draftId = draftId, sn_draftVersion = draftVersion, sn_kind = k,
           sn_to = to, sn_cc = cc, sn_bcc = bcc, sn_from = from, sn_subject = subject,
           sn_html = html, sn_text = text, sn_inReplyTo = inReplyTo, sn_references = references,
           sn_threadId = threadId, sn_attachmentIds = attachmentIds,
           sn_attachmentByteIdentities = manifest, sn_sourceDraftAttachmentIds = sourceIds\<rparr> }"

definition deserializeOutboundSnapshot :: "raw_text option \<Rightarrow> message_snapshot option" where
  "deserializeOutboundSnapshot rawHeaders =
     (case rawHeaders of
        Some (Json_text value) \<Rightarrow> do {
          k \<leftarrow> jget ''kind'' value \<bind> jstr;
          ensure (k = SNAPSHOT_ENVELOPE_KIND);
          version \<leftarrow> jget ''version'' value \<bind> jint;
          ensure (version = 1 \<or> version = SNAPSHOT_ENVELOPE_VERSION);
          snapshot \<leftarrow> jget ''snapshot'' value;
          snapshot_of_json version snapshot }
      | _ \<Rightarrow> None)"

subsection \<open>What was written reads back\<close>

definition valid_draft_reference :: "string option \<Rightarrow> int option \<Rightarrow> bool" where
  "valid_draft_reference i v \<longleftrightarrow>
     (case (i, v) of (None, None) \<Rightarrow> True | (Some i', Some v') \<Rightarrow> i' \<noteq> [] \<and> 1 \<le> v' | _ \<Rightarrow> False)"

definition valid_snapshot :: "message_snapshot \<Rightarrow> bool" where
  "valid_snapshot s \<longleftrightarrow>
     normalizeMailAddress (sn_mailboxId s) = Some (sn_mailboxId s) \<and>
     valid_draft_reference (sn_draftId s) (sn_draftVersion s) \<and>
     (\<forall>a \<in> set (sn_to s) \<union> set (sn_cc s) \<union> set (sn_bcc s). normalizeMailAddress a = Some a) \<and>
     length (sn_to s) + length (sn_cc s) + length (sn_bcc s) \<noteq> 0 \<and>
     normalizeMailAddress (sn_from s) = Some (sn_mailboxId s) \<and>
     sn_inReplyTo s \<noteq> Some [] \<and>
     (\<forall>rs. sn_references s = Some rs \<longrightarrow> [] \<notin> set rs) \<and>
     sn_threadId s \<noteq> [] \<and>
     distinct (sn_attachmentIds s) \<and> [] \<notin> set (sn_attachmentIds s) \<and>
     (\<forall>ds. sn_sourceDraftAttachmentIds s = Some ds \<longrightarrow> distinct ds \<and> [] \<notin> set ds) \<and>
     hasExactAttachmentByteManifest (sn_attachmentIds s) (sn_attachmentByteIdentities s)"

lemma map_of_opt_entry [simp]: "map_of (opt_entry k f v) k' = (if k' = k then map_option f v else None)"
  by (simp add: opt_entry_def split: option.splits)

lemma jget_append: "jget k (JObj (xs @ ys)) =
    (case jget k (JObj xs) of None \<Rightarrow> jget k (JObj ys) | Some v \<Rightarrow> Some v)"
  by (simp add: map_add_def split: option.splits)

lemma read_all_jstr [simp]: "read_all jstr (map JStr xs) = Some xs"
  by (simp add: read_all_map)

lemma byte_identity_roundtrip:
  assumes "isAttachmentByteIdentity b"
  shows "byte_identity_of_json (json_of_byte_identity b) = Some b"
proof -
  have "optional_field jstr (map_option JStr v) = Some v" for v
    by (cases v) (simp_all add: optional_field_def)
  with assms show ?thesis
    by (cases b) (simp add: byte_identity_of_json_def json_of_byte_identity_def map_add_def
        read_disposition_text ensure_def Let_def)
qed

lemma read_manifest:
  "hasExactAttachmentByteManifest ids (Some bs) \<Longrightarrow>
     read_all byte_identity_of_json (map json_of_byte_identity bs) = Some bs"
  by (simp add: hasExactAttachmentByteManifest_iff read_all_map byte_identity_roundtrip)

lemma isStringArray_jstrings:
  "isStringArray u e (jstrings xs) =
     (if list_all (\<lambda>x. e \<or> x \<noteq> []) xs \<and> (u \<longrightarrow> distinct xs) then Some xs else None)"
  by (simp add: isStringArray_def jstrings_def ensure_def)

lemma isAddressArray_jstrings:
  "(\<And>x. x \<in> set xs \<Longrightarrow> normalizeMailAddress x = Some x) \<Longrightarrow> isAddressArray (jstrings xs) = Some xs"
  by (simp add: isAddressArray_def jstrings_def ensure_def list_all_iff)

lemma optional_jstr: "optional_field jstr (map_option JStr v) = Some v"
  by (cases v) (simp_all add: optional_field_def)

lemma optional_jstrings:
  "(\<And>xs. v = Some xs \<Longrightarrow> (\<forall>x \<in> set xs. e \<or> x \<noteq> []) \<and> (u \<longrightarrow> distinct xs)) \<Longrightarrow>
     optional_field (isStringArray u e) (map_option jstrings v) = Some v"
  by (cases v) (simp_all add: optional_field_def isStringArray_jstrings list_all_iff)

text \<open>Where each field of the written object is found.\<close>

lemma jget_json_of_snapshot:
  "jget ''mailboxId'' (json_of_snapshot s) = Some (JStr (sn_mailboxId s))"
  "jget ''draftId'' (json_of_snapshot s) = map_option JStr (sn_draftId s)"
  "jget ''draftVersion'' (json_of_snapshot s) = map_option (\<lambda>n. JNum (JInt n)) (sn_draftVersion s)"
  "jget ''kind'' (json_of_snapshot s) = Some (JStr (kind_text (sn_kind s)))"
  "jget ''to'' (json_of_snapshot s) = Some (jstrings (sn_to s))"
  "jget ''cc'' (json_of_snapshot s) = Some (jstrings (sn_cc s))"
  "jget ''bcc'' (json_of_snapshot s) = Some (jstrings (sn_bcc s))"
  "jget ''from'' (json_of_snapshot s) = Some (JStr (sn_from s))"
  "jget ''subject'' (json_of_snapshot s) = Some (JStr (sn_subject s))"
  "jget ''html'' (json_of_snapshot s) = map_option JStr (sn_html s)"
  "jget ''text'' (json_of_snapshot s) = map_option JStr (sn_text s)"
  "jget ''inReplyTo'' (json_of_snapshot s) = map_option JStr (sn_inReplyTo s)"
  "jget ''references'' (json_of_snapshot s) = map_option jstrings (sn_references s)"
  "jget ''threadId'' (json_of_snapshot s) = Some (JStr (sn_threadId s))"
  "jget ''attachmentIds'' (json_of_snapshot s) = Some (jstrings (sn_attachmentIds s))"
  "jget ''attachmentByteIdentities'' (json_of_snapshot s) =
     map_option (\<lambda>bs. JArr (map json_of_byte_identity bs)) (sn_attachmentByteIdentities s)"
  "jget ''sourceDraftAttachmentIds'' (json_of_snapshot s) =
     map_option jstrings (sn_sourceDraftAttachmentIds s)"
  by (simp_all add: json_of_snapshot_def map_add_def split: option.splits)

lemma draft_reference_roundtrip:
  "valid_draft_reference (sn_draftId s) (sn_draftVersion s) \<Longrightarrow>
     hasValidSourceDraftReference (json_of_snapshot s) = Some (sn_draftId s, sn_draftVersion s)"
  by (auto simp: valid_draft_reference_def hasValidSourceDraftReference_def jget_json_of_snapshot
      ensure_def split: option.splits)

lemma snapshot_json_roundtrip:
  assumes "valid_snapshot s"
  shows "snapshot_of_json SNAPSHOT_ENVELOPE_VERSION (json_of_snapshot s) = Some s"
proof -
  from assms obtain bs where bs: "sn_attachmentByteIdentities s = Some bs"
    and exact: "hasExactAttachmentByteManifest (sn_attachmentIds s) (Some bs)"
    by (auto simp: valid_snapshot_def hasExactAttachmentByteManifest_def split: option.splits)
  have manifest: "read_all byte_identity_of_json (map json_of_byte_identity bs) = Some bs"
    using exact by (rule read_manifest)
  have refs: "optional_field (isStringArray False False) (map_option jstrings (sn_references s))
      = Some (sn_references s)"
    using assms by (intro optional_jstrings) (auto simp: valid_snapshot_def)
  have srcs: "optional_field (isStringArray True False)
      (map_option jstrings (sn_sourceDraftAttachmentIds s)) = Some (sn_sourceDraftAttachmentIds s)"
    using assms by (intro optional_jstrings) (auto simp: valid_snapshot_def)
  from assms show ?thesis
    by (simp add: snapshot_of_json_def jget_json_of_snapshot draft_reference_roundtrip
        valid_snapshot_def read_kind_text isAddressArray_jstrings isStringArray_jstrings
        optional_jstr refs srcs bs exact manifest ensure_def list_all_iff
        SNAPSHOT_ENVELOPE_VERSION_def)
qed

lemma deserialize_serialize:
  "valid_snapshot s \<Longrightarrow> serializeOutboundSnapshot s = Inr t \<Longrightarrow>
     deserializeOutboundSnapshot (Some t) = Some s"
  by (auto simp: serializeOutboundSnapshot_def deserializeOutboundSnapshot_def
      snapshot_json_roundtrip ensure_def split: if_splits)

lemma serialize_valid: "valid_snapshot s \<Longrightarrow> \<exists>t. serializeOutboundSnapshot s = Inr t"
  by (simp add: valid_snapshot_def serializeOutboundSnapshot_def)

text \<open>Everything the reader accepts is addressed, owned by its mailbox and fully identified.\<close>

lemma isAddressArray_normal: "isAddressArray j = Some xs \<Longrightarrow> x \<in> set xs \<Longrightarrow> normalizeMailAddress x = Some x"
  by (auto simp: isAddressArray_def bind_eq_Some_conv list_all_iff)

lemma isStringArray_props:
  "isStringArray u e j = Some xs \<Longrightarrow> (u \<longrightarrow> distinct xs) \<and> (\<not> e \<longrightarrow> [] \<notin> set xs)"
  by (auto simp: isStringArray_def bind_eq_Some_conv list_all_iff)

lemma hasValidSourceDraftReference_valid:
  "hasValidSourceDraftReference j = Some (i, v) \<Longrightarrow> valid_draft_reference i v"
  by (auto simp: hasValidSourceDraftReference_def valid_draft_reference_def bind_eq_Some_conv
      split: option.splits)

lemma optional_isStringArray:
  "optional_field (isStringArray u e) j = Some (Some xs) \<Longrightarrow>
     (u \<longrightarrow> distinct xs) \<and> (\<not> e \<longrightarrow> [] \<notin> set xs)"
  by (auto simp: optional_field_def dest: isStringArray_props split: option.splits)

lemma snapshot_of_json_valid:
  assumes "snapshot_of_json SNAPSHOT_ENVELOPE_VERSION j = Some s"
  shows "valid_snapshot s"
  using assms
  by (auto simp: snapshot_of_json_def bind_eq_Some_conv valid_snapshot_def SNAPSHOT_ENVELOPE_VERSION_def
      dest: isAddressArray_normal isStringArray_props hasValidSourceDraftReference_valid
        optional_isStringArray)

subsection \<open>Attachments of a snapshot\<close>

record pending_attachment =
  pa_id :: string
  pa_email_id :: "string option"
  pa_filename :: string
  pa_mimetype :: string
  pa_size :: int
  pa_contentId :: "string option"
  pa_content_id :: "string option"
  pa_disposition :: "string option"
  pa_content_sha256 :: "string option"

record attachment_row =
  xr_id :: string
  xr_email_id :: string
  xr_filename :: string
  xr_mimetype :: string
  xr_size :: int
  xr_content_id :: "string option"
  xr_disposition :: string

definition contentIdForDisposition :: "string \<Rightarrow> string option \<Rightarrow> string option" where
  "contentIdForDisposition dispo contentId = (if dispo = ''inline'' then contentId else None)"

text \<open>The first loop: collect the pending metadata by id, rejecting strangers and duplicates.\<close>

fun pending_by_id ::
  "string \<Rightarrow> message_snapshot \<Rightarrow> pending_attachment list \<Rightarrow> (string \<rightharpoonup> pending_attachment)
     \<Rightarrow> outbox_error + (string \<rightharpoonup> pending_attachment)" where
  "pending_by_id emailId snapshot [] byId = Inr byId"
| "pending_by_id emailId snapshot (a # as) byId =
     (if byId (pa_id a) \<noteq> None
      then Inl (PlainError (''Duplicate pending attachment metadata: '' @ pa_id a))
      else if pa_id a \<notin> set (sn_attachmentIds snapshot)
      then Inl (PlainError (''Pending attachment '' @ pa_id a @
             '' is not part of the immutable snapshot''))
      else if truthy (pa_email_id a) \<and> pa_email_id a \<noteq> Some emailId
      then Inl (PlainError (''Pending attachment '' @ pa_id a @
             '' belongs to a different email snapshot''))
      else pending_by_id emailId snapshot as (byId(pa_id a \<mapsto> a)))"

text \<open>The second loop: one row per attachment id, in the snapshot's order.\<close>

definition attachment_to_row ::
  "string \<Rightarrow> message_snapshot \<Rightarrow> (string \<rightharpoonup> pending_attachment) \<Rightarrow> string
     \<Rightarrow> outbox_error + attachment_row" where
  "attachment_to_row emailId snapshot byId i =
     (case byId i of
        None \<Rightarrow> Inl (PlainError (''Missing pending attachment metadata for '' @ i))
      | Some a \<Rightarrow>
          (let dispo = (case pa_disposition a of None \<Rightarrow> ''attachment'' | Some d \<Rightarrow> d);
               contentId = contentIdForDisposition dispo
                 (case pa_contentId a of None \<Rightarrow> pa_content_id a | Some c \<Rightarrow> Some c);
               identity = (case sn_attachmentByteIdentities snapshot of
                   None \<Rightarrow> None | Some bs \<Rightarrow> find (\<lambda>b. bi_id b = i) bs)
           in case identity of
                None \<Rightarrow> Inl (PlainError (''Pending attachment '' @ i @
                          '' does not match the immutable manifest''))
              | Some b \<Rightarrow>
                  if bi_byteLength b \<noteq> pa_size a \<or> Some (bi_sha256 b) \<noteq> pa_content_sha256 a
                     \<or> bi_filename b \<noteq> pa_filename a \<or> bi_mimetype b \<noteq> pa_mimetype a
                     \<or> disposition_text (bi_disposition b) \<noteq> dispo \<or> bi_contentId b \<noteq> contentId
                  then Inl (PlainError (''Pending attachment '' @ i @
                          '' does not match the immutable manifest''))
                  else Inr \<lparr>xr_id = i, xr_email_id = emailId, xr_filename = pa_filename a,
                           xr_mimetype = pa_mimetype a, xr_size = pa_size a,
                           xr_content_id = contentId, xr_disposition = dispo\<rparr>))"

definition pendingAttachmentsToRows ::
  "string \<Rightarrow> message_snapshot \<Rightarrow> pending_attachment list \<Rightarrow> outbox_error + attachment_row list" where
  "pendingAttachmentsToRows emailId snapshot pending =
     (if \<not> distinct (sn_attachmentIds snapshot)
      then Inl (PlainError ''Immutable snapshot contains duplicate attachment IDs'')
      else bind_result (pending_by_id emailId snapshot pending Map.empty)
             (\<lambda>byId. map_result (attachment_to_row emailId snapshot byId) (sn_attachmentIds snapshot)))"

definition row_matches_identity :: "attachment_row \<Rightarrow> byte_identity \<Rightarrow> bool" where
  "row_matches_identity r b \<longleftrightarrow>
     xr_id r = bi_id b \<and> xr_filename r = bi_filename b \<and> xr_mimetype r = bi_mimetype b \<and>
     xr_size r = bi_byteLength b \<and> xr_disposition r = disposition_text (bi_disposition b) \<and>
     xr_content_id r = bi_contentId b"

lemma attachment_to_row_matches:
  assumes "attachment_to_row e s byId i = Inr r"
  shows "xr_id r = i \<and> xr_email_id r = e \<and>
     (\<exists>bs b. sn_attachmentByteIdentities s = Some bs \<and> b \<in> set bs \<and> row_matches_identity r b)"
  using assms
  by (fastforce simp: attachment_to_row_def Let_def row_matches_identity_def
      dest: find_key_Some split: option.splits if_splits)

lemma map_result_elem: "map_result f xs = Inr ys \<Longrightarrow> y \<in> set ys \<Longrightarrow> \<exists>x \<in> set xs. f x = Inr y"
  by (induction xs arbitrary: ys) (auto simp: bind_result_Inr)

lemma map_result_keys: "map_result f xs = Inr ys \<Longrightarrow> (\<And>x y. f x = Inr y \<Longrightarrow> key y = x) \<Longrightarrow> map key ys = xs"
  by (induction xs arbitrary: ys) (auto simp: bind_result_Inr)

lemma pendingAttachmentsToRows_exact:
  assumes "pendingAttachmentsToRows e s pending = Inr rows"
  shows "map xr_id rows = sn_attachmentIds s \<and> distinct (map xr_id rows) \<and>
    (\<forall>r \<in> set rows. xr_email_id r = e \<and>
       (\<exists>bs b. sn_attachmentByteIdentities s = Some bs \<and> b \<in> set bs \<and> row_matches_identity r b))"
proof -
  from assms obtain byId where d: "distinct (sn_attachmentIds s)"
    and m: "map_result (attachment_to_row e s byId) (sn_attachmentIds s) = Inr rows"
    by (auto simp: pendingAttachmentsToRows_def bind_result_Inr split: if_splits)
  from m have "map xr_id rows = sn_attachmentIds s"
    by (rule map_result_keys) (auto dest: attachment_to_row_matches)
  with d m show ?thesis by (auto dest!: map_result_elem attachment_to_row_matches)
qed

end
