(* ===== verification/Outbound_Records.thy ===== *)
theory Outbound_Records
  imports Outbound_Contract
begin

text \<open>
  The records the outbox service works on: \<^verbatim>\<open>OutboundDeliveryRecord\<close> of
  \<^verbatim>\<open>workers/lib/outbound-delivery-contract.ts\<close>, \<^verbatim>\<open>StoredOutboundDelivery\<close> and
  \<^verbatim>\<open>OutboundDeliveryAttempt\<close> of \<^verbatim>\<open>workers/lib/outbound-delivery-service.ts\<close>, with the pure
  functions on them. Times are instants: a delivery only reaches this form after the storage adapter
  has checked every timestamp column.
\<close>

datatype dispatch_phase = Preflight | Provider

datatype retry_origin = Origin_failed | Origin_unknown

datatype recovery_integrity =
  Outbound_dispatch_phase_invalid | Outbound_sending_lease_invalid | Outbound_delivery_record_invalid

primrec recovery_integrity_text :: "recovery_integrity \<Rightarrow> string" where
  "recovery_integrity_text Outbound_dispatch_phase_invalid = ''outbound_dispatch_phase_invalid''"
| "recovery_integrity_text Outbound_sending_lease_invalid = ''outbound_sending_lease_invalid''"
| "recovery_integrity_text Outbound_delivery_record_invalid = ''outbound_delivery_record_invalid''"

record stored_delivery =
  dl_id :: string
  dl_emailId :: string
  dl_draftId :: "string option"
  dl_draftVersion :: "int option"
  dl_mailboxId :: string
  dl_kind :: delivery_kind
  dl_status :: delivery_status
  dl_idempotencyKey :: string
  dl_commandFingerprint :: "string option"
  dl_source :: delivery_source
  dl_actor :: delivery_actor
  dl_createdAt :: instant
  dl_updatedAt :: instant
  dl_availableAt :: instant
  dl_undoUntil :: instant
  dl_scheduledFor :: "instant option"
  dl_nextAttemptAt :: "instant option"
  dl_attemptCount :: int
  dl_maxAttempts :: int
  dl_preflightDeferralCount :: int
  dl_cancellationRecoveryAttemptCount :: int
  dl_retryOriginStatus :: "retry_origin option"
  dl_dispatchPhase :: "dispatch_phase option"
  dl_activeAttemptId :: "string option"
  dl_acceptedAttemptCount :: int
  dl_duplicateAcceptanceAt :: "instant option"
  dl_leaseToken :: "string option"
  dl_leaseExpiresAt :: "instant option"
  dl_sesMessageId :: "string option"
  dl_lastErrorCode :: "string option"
  dl_lastErrorMessage :: "string option"
  dl_sentAt :: "instant option"
  dl_failedAt :: "instant option"
  dl_unknownAt :: "instant option"
  dl_cancelledAt :: "instant option"
  dl_cancelRecoveryPending :: "bool option"
  dl_recoveryIntegrityCode :: "recovery_integrity option"
  dl_storageIntegrityInvalid :: bool

text \<open>
  \<open>dl_storageIntegrityInvalid\<close> and \<open>at_storageIntegrityInvalid\<close> say that the optional one-valued
  \<^verbatim>\<open>storageIntegrityCode\<close> is present. Attempt rows keep malformed columns as they are stored, so the
  attempt's times and numbers are raw column values.
\<close>

datatype attempt_status =
  Att_sending | Att_accepted | Att_rejected_retryable | Att_rejected_permanent | Att_unknown

datatype provider_state =
  Prov_none | Prov_delivered | Prov_bounced | Prov_complained | Prov_bounce_scope_unknown

record delivery_attempt =
  at_id :: string
  at_deliveryId :: string
  at_attemptNumber :: js_number
  at_status :: attempt_status
  at_leaseToken :: string
  at_startedAt :: stamp
  at_finishedAt :: "stamp option"
  at_sesMessageId :: "string option"
  at_httpStatus :: "js_number option"
  at_errorCode :: "string option"
  at_errorMessage :: "string option"
  at_providerState :: provider_state
  at_providerEventAt :: "stamp option"
  at_providerEventId :: "string option"
  at_storageIntegrityInvalid :: bool

subsection \<open>Column texts\<close>

primrec status_text :: "delivery_status \<Rightarrow> string" where
  "status_text Queued = ''queued''"
| "status_text Sending = ''sending''"
| "status_text Retrying = ''retrying''"
| "status_text Sent = ''sent''"
| "status_text Bounced = ''bounced''"
| "status_text Failed = ''failed''"
| "status_text Unknown = ''unknown''"
| "status_text Cancelled = ''cancelled''"

definition read_status :: "string \<Rightarrow> delivery_status option" where
  "read_status s =
     find (\<lambda>x. status_text x = s) [Queued, Sending, Retrying, Sent, Bounced, Failed, Unknown, Cancelled]"

primrec source_text :: "delivery_source \<Rightarrow> string" where
  "source_text SrcUi = ''ui''"
| "source_text SrcApi = ''api''"
| "source_text SrcMcp = ''mcp''"
| "source_text SrcAgent = ''agent''"
| "source_text SrcRule = ''rule''"
| "source_text SrcBulk = ''bulk''"

definition read_source :: "string \<Rightarrow> delivery_source option" where
  "read_source s = find (\<lambda>x. source_text x = s) [SrcUi, SrcApi, SrcMcp, SrcAgent, SrcRule, SrcBulk]"

primrec actor_kind_text :: "actor_kind \<Rightarrow> string" where
  "actor_kind_text ActUser = ''user''"
| "actor_kind_text ActMcp = ''mcp''"
| "actor_kind_text ActAgent = ''agent''"
| "actor_kind_text ActRule = ''rule''"
| "actor_kind_text ActSystem = ''system''"

definition read_actor_kind :: "string \<Rightarrow> actor_kind option" where
  "read_actor_kind s =
     find (\<lambda>x. actor_kind_text x = s) [ActUser, ActMcp, ActAgent, ActRule, ActSystem]"

primrec phase_text :: "dispatch_phase \<Rightarrow> string" where
  "phase_text Preflight = ''preflight''"
| "phase_text Provider = ''provider''"

definition read_phase :: "string \<Rightarrow> dispatch_phase option" where
  "read_phase s = find (\<lambda>x. phase_text x = s) [Preflight, Provider]"

primrec origin_text :: "retry_origin \<Rightarrow> string" where
  "origin_text Origin_failed = ''failed''"
| "origin_text Origin_unknown = ''unknown''"

definition read_origin :: "string \<Rightarrow> retry_origin option" where
  "read_origin s = find (\<lambda>x. origin_text x = s) [Origin_failed, Origin_unknown]"

primrec attempt_status_text :: "attempt_status \<Rightarrow> string" where
  "attempt_status_text Att_sending = ''sending''"
| "attempt_status_text Att_accepted = ''accepted''"
| "attempt_status_text Att_rejected_retryable = ''rejected_retryable''"
| "attempt_status_text Att_rejected_permanent = ''rejected_permanent''"
| "attempt_status_text Att_unknown = ''unknown''"

definition read_attempt_status :: "string \<Rightarrow> attempt_status option" where
  "read_attempt_status s = find (\<lambda>x. attempt_status_text x = s)
     [Att_sending, Att_accepted, Att_rejected_retryable, Att_rejected_permanent, Att_unknown]"

primrec provider_state_text :: "provider_state \<Rightarrow> string" where
  "provider_state_text Prov_none = ''none''"
| "provider_state_text Prov_delivered = ''delivered''"
| "provider_state_text Prov_bounced = ''bounced''"
| "provider_state_text Prov_complained = ''complained''"
| "provider_state_text Prov_bounce_scope_unknown = ''bounce_scope_unknown''"

definition read_provider_state :: "string \<Rightarrow> provider_state option" where
  "read_provider_state s = find (\<lambda>x. provider_state_text x = s)
     [Prov_none, Prov_delivered, Prov_bounced, Prov_complained, Prov_bounce_scope_unknown]"

lemma read_status_text [text_simps]: "read_status (status_text s) = Some s"
  by (cases s) (simp_all add: read_status_def)

lemma read_source_text [text_simps]: "read_source (source_text c) = Some c"
  by (cases c) (simp_all add: read_source_def)

lemma read_actor_kind_text [text_simps]: "read_actor_kind (actor_kind_text k) = Some k"
  by (cases k) (simp_all add: read_actor_kind_def)

lemma read_phase_text [text_simps]: "read_phase (phase_text p) = Some p"
  by (cases p) (simp_all add: read_phase_def)

lemma read_origin_text [text_simps]: "read_origin (origin_text r) = Some r"
  by (cases r) (simp_all add: read_origin_def)

lemma read_attempt_status_text [text_simps]: "read_attempt_status (attempt_status_text a) = Some a"
  by (cases a) (simp_all add: read_attempt_status_def)

lemma read_provider_state_text [text_simps]: "read_provider_state (provider_state_text v) = Some v"
  by (cases v) (simp_all add: read_provider_state_def)

lemma text_inject [simp]:
  "status_text s = status_text s' \<longleftrightarrow> s = s'"
  "attempt_status_text a = attempt_status_text a' \<longleftrightarrow> a = a'"
  by (metis option.inject read_status_text) (metis option.inject read_attempt_status_text)

subsection \<open>Pure functions on stored deliveries\<close>

datatype provider_truth = Truth_sent | Truth_bounced | Truth_unknown

definition aggregateAcceptedAttemptProviderTruth :: "string list \<Rightarrow> provider_truth" where
  "aggregateAcceptedAttemptProviderTruth states =
     (if states = [] \<or> (\<exists>s \<in> set states. read_provider_state s = None) then Truth_unknown
      else if \<exists>s \<in> set states. s = ''none'' \<or> s = ''delivered'' \<or> s = ''complained'' then Truth_sent
      else if \<exists>s \<in> set states. s = ''bounce_scope_unknown'' then Truth_unknown
      else Truth_bounced)"

definition canReconcileConcurrentProviderTerminal :: "delivery_status option \<Rightarrow> bool" where
  "canReconcileConcurrentProviderTerminal status \<longleftrightarrow>
     status = Some Sent \<or> status = Some Bounced \<or> status = Some Unknown"

datatype enqueue_outcome = Enqueued | Active_replay | Terminal_replay

definition outboundEnqueueOutcome :: "delivery_status \<Rightarrow> bool \<Rightarrow> enqueue_outcome" where
  "outboundEnqueueOutcome status replayed =
     (if \<not> replayed then Enqueued
      else if status = Queued \<or> status = Sending \<or> status = Retrying then Active_replay
      else Terminal_replay)"

datatype replay_resolution =
  Replay_none | Replay_exact stored_delivery | Replay_conflict replay_conflict stored_delivery

definition assertOutboundCommandFingerprint :: "string \<Rightarrow> outbox_error + unit" where
  "assertOutboundCommandFingerprint fp =
     guard_result (hex64 fp) (PlainError ''Outbound command fingerprint is invalid'')"

definition classifyOutboundReplay :: "stored_delivery option \<Rightarrow> string \<Rightarrow> replay_resolution" where
  "classifyOutboundReplay delivery fingerprint =
     (case delivery of
        None \<Rightarrow> Replay_none
      | Some d \<Rightarrow>
          if \<not> truthy (dl_commandFingerprint d)
          then Replay_conflict Legacy_idempotency_unverifiable d
          else if dl_commandFingerprint d \<noteq> Some fingerprint then Replay_conflict Command_mismatch d
          else Replay_exact d)"

definition assertReplayFingerprint :: "stored_delivery \<Rightarrow> enqueue_command \<Rightarrow> outbox_error + unit" where
  "assertReplayFingerprint delivery command =
     (case classifyOutboundReplay (Some delivery) (cm_commandFingerprint command) of
        Replay_conflict reason _ \<Rightarrow> Inl (OutboundIdempotencyConflict reason)
      | _ \<Rightarrow> Inr ())"

definition assertDeliveryStorageIntegrity :: "stored_delivery \<Rightarrow> outbox_error + unit" where
  "assertDeliveryStorageIntegrity d =
     guard_result (\<not> dl_storageIntegrityInvalid d) (OutboundDeliveryIntegrity (dl_id d))"

definition validateSourceDraftReference ::
  "message_snapshot \<Rightarrow> outbox_error + (string option \<times> int option)" where
  "validateSourceDraftReference s =
     (case (sn_draftId s, sn_draftVersion s) of
        (None, None) \<Rightarrow> Inr (None, None)
      | (Some i, Some v) \<Rightarrow>
          if js_trim i = [] \<or> v < 1 then Inl (PlainError ''Source draft reference is invalid'')
          else Inr (Some i, Some v)
      | _ \<Rightarrow> Inl (PlainError ''Source draft ID and version must be provided together''))"

datatype draft_action = Draft_retain | Draft_consume | Draft_none

definition sourceDraftAction :: "stored_delivery \<Rightarrow> draft_action \<Rightarrow> draft_action" where
  "sourceDraftAction d whenLinked = (if dl_draftId d = None then Draft_none else whenLinked)"

text \<open>
  \<^verbatim>\<open>planBulkEnqueueReconciliation\<close> of \<^verbatim>\<open>workers/lib/outbound-enqueue-recovery.ts\<close>: what the ledger says
  about an enqueue whose answer was lost, and whether the bytes uploaded for it may be deleted.
\<close>

datatype bulk_reconciliation =
  Bulk_committed bool | Bulk_conflict replay_conflict bool | Bulk_not_committed

definition planBulkEnqueueReconciliation ::
  "stored_delivery option \<Rightarrow> string \<Rightarrow> string \<Rightarrow> bulk_reconciliation" where
  "planBulkEnqueueReconciliation delivery attemptedEmailId fingerprint =
     (case delivery of
        None \<Rightarrow> Bulk_not_committed
      | Some d \<Rightarrow>
          if \<not> truthy (dl_commandFingerprint d)
          then Bulk_conflict Legacy_idempotency_unverifiable (dl_emailId d \<noteq> attemptedEmailId)
          else if dl_commandFingerprint d \<noteq> Some fingerprint
          then Bulk_conflict Command_mismatch (dl_emailId d \<noteq> attemptedEmailId)
          else Bulk_committed (dl_emailId d \<noteq> attemptedEmailId))"

primrec deleteAttemptedBytes :: "bulk_reconciliation \<Rightarrow> bool" where
  "deleteAttemptedBytes (Bulk_committed b) = b"
| "deleteAttemptedBytes (Bulk_conflict r b) = b"
| "deleteAttemptedBytes Bulk_not_committed = True"

text \<open>Bytes the ledger's own delivery refers to are never released.\<close>

lemma deleteAttemptedBytes_safe:
  "deleteAttemptedBytes (planBulkEnqueueReconciliation (Some d) (dl_emailId d) fp) = False"
  by (simp add: planBulkEnqueueReconciliation_def)

lemma planBulk_committed_iff:
  "(\<exists>b. planBulkEnqueueReconciliation d e fp = Bulk_committed b) \<longleftrightarrow>
     (\<exists>x. classifyOutboundReplay d fp = Replay_exact x)"
  by (auto simp: planBulkEnqueueReconciliation_def classifyOutboundReplay_def split: option.splits)

lemma assertReplayFingerprint_Inr:
  "assertReplayFingerprint d c = Inr u \<Longrightarrow> dl_commandFingerprint d = Some (cm_commandFingerprint c)"
  by (auto simp: assertReplayFingerprint_def classifyOutboundReplay_def split: if_splits)

lemma validateSourceDraftReference_Inr:
  assumes "validateSourceDraftReference s = Inr (i, v)"
  shows "i = sn_draftId s \<and> v = sn_draftVersion s \<and>
     (i = None \<and> v = None \<or> (\<exists>i' v'. i = Some i' \<and> v = Some v' \<and> i' \<noteq> [] \<and> 1 \<le> v'))"
proof (cases "sn_draftId s")
  case None
  with assms show ?thesis
    by (cases "sn_draftVersion s") (auto simp: validateSourceDraftReference_def)
next
  case (Some d)
  with assms obtain v' where v': "sn_draftVersion s = Some v'"
    by (cases "sn_draftVersion s") (auto simp: validateSourceDraftReference_def)
  with assms Some have "i = Some d" and "v = Some v'" and "js_trim d \<noteq> []" and "1 \<le> v'"
    by (simp_all add: validateSourceDraftReference_def split: if_splits)
  with Some v' show ?thesis by (auto simp: js_trim_def)
qed

end
