(* ===== verification/Iso_Date.thy ===== *)
theory Iso_Date
  imports Portal_Prelude
begin

text \<open>
  \<^verbatim>\<open>Date.prototype.toISOString\<close> for the years 0 to 9999: the proleptic Gregorian date of an instant and its
  24-character text. The program uses the text to order columns that are compared as text and to cut
  the month key of the AI ledger out of it.
\<close>

definition civil_of_days :: "int \<Rightarrow> int \<times> int \<times> int" where
  "civil_of_days days =
     (let z = days + 719468;
          era = z div 146097;
          doe = z - era * 146097;
          yoe = (doe - doe div 1460 + doe div 36524 - doe div 146096) div 365;
          doy = doe - (365 * yoe + yoe div 4 - yoe div 100);
          mp = (5 * doy + 2) div 153;
          d = doy - (153 * mp + 2) div 5 + 1;
          m = (if mp < 10 then mp + 3 else mp - 9);
          y = yoe + era * 400 + (if m \<le> 2 then 1 else 0)
      in (y, m, d))"

definition pad_digits :: "nat \<Rightarrow> int \<Rightarrow> string" where
  "pad_digits w n = (let s = int_text n in replicate (w - length s) (CHR ''0'') @ s)"

definition iso_text :: "instant \<Rightarrow> string" where
  "iso_text t =
     (let (y, m, d) = civil_of_days (t div 86400000);
          ms = t mod 86400000
      in pad_digits 4 y @ ''-'' @ pad_digits 2 m @ ''-'' @ pad_digits 2 d @ ''T'' @
         pad_digits 2 (ms div 3600000) @ '':'' @ pad_digits 2 (ms div 60000 mod 60) @ '':'' @
         pad_digits 2 (ms div 1000 mod 60) @ ''.'' @ pad_digits 3 (ms mod 1000) @ ''Z'')"

fun stamp_text :: "stamp \<Rightarrow> string" where
  "stamp_text (Canon t) = iso_text t"
| "stamp_text (Odd s) = s"

text \<open>Two known instants, one of them a leap day.\<close>

lemma iso_text_examples:
  "iso_text 0 = ''1970-01-01T00:00:00.000Z''"
  "iso_text 1709210096123 = ''2024-02-29T12:34:56.123Z''"
  by code_simp+

end
