(* ===== verification/Outbound_Storage.thy ===== *)
theory Outbound_Storage
  imports Outbound_Snapshot Outbound_Records Iso_Date "HOL-Library.Product_Lexorder"
begin

text \<open>
  \<^verbatim>\<open>workers/durableObject/outbound-storage.ts\<close>: the SQL tables of the outbox and the transaction object
  the service works through. Rows keep every column as it is stored, malformed ones included, and
  each operation says what it does with them. The main facts are that an integral delivery reads back
  as it was written, that an update touches no other delivery, and that a record that fails its checks
  is never handed out as sendable.
\<close>

subsection \<open>Tables\<close>

record delivery_row =
  dr_id :: string
  dr_email_id :: string
  dr_source_draft_id :: "string option"
  dr_source_draft_version :: "js_number option"
  dr_idempotency_key :: string
  dr_command_fingerprint :: "string option"
  dr_kind :: string
  dr_source :: string
  dr_actor_kind :: string
  dr_actor_id :: "string option"
  dr_status :: string
  dr_available_at :: stamp
  dr_undo_until :: stamp
  dr_scheduled_for :: "stamp option"
  dr_next_attempt_at :: "stamp option"
  dr_attempt_count :: js_number
  dr_max_attempts :: js_number
  dr_preflight_deferral_count :: js_number
  dr_cancellation_recovery_attempt_count :: js_number
  dr_retry_origin_status :: "string option"
  dr_dispatch_phase :: "string option"
  dr_active_attempt_id :: "string option"
  dr_lease_token :: "string option"
  dr_lease_expires_at :: "stamp option"
  dr_ses_message_id :: "string option"
  dr_last_error_code :: "string option"
  dr_last_error_message :: "string option"
  dr_created_at :: stamp
  dr_updated_at :: stamp
  dr_sent_at :: "stamp option"
  dr_failed_at :: "stamp option"
  dr_unknown_at :: "stamp option"
  dr_cancelled_at :: "stamp option"
  dr_accepted_attempt_count :: js_number
  dr_duplicate_acceptance_at :: "stamp option"

record attempt_row =
  ar_id :: string
  ar_delivery_id :: string
  ar_attempt_number :: js_number
  ar_status :: string
  ar_lease_token :: string
  ar_started_at :: stamp
  ar_finished_at :: "stamp option"
  ar_ses_message_id :: "string option"
  ar_http_status :: "js_number option"
  ar_error_code :: "string option"
  ar_error_message :: "string option"
  ar_provider_state :: string
  ar_provider_event_at :: "stamp option"
  ar_provider_event_id :: "string option"

record email_row =
  em_id :: string
  em_folder_id :: string
  em_subject :: "string option"
  em_sender :: "string option"
  em_recipient :: "string option"
  em_cc :: "string option"
  em_bcc :: "string option"
  em_date :: "stamp option"
  em_read :: int
  em_starred :: int
  em_body :: "string option"
  em_in_reply_to :: "string option"
  em_email_references :: "raw_text option"
  em_thread_id :: "string option"
  em_message_id :: "string option"
  em_raw_headers :: "raw_text option"
  em_draft_version :: int

record recovery_row =
  rc_delivery_id :: string
  rc_email_id :: string
  rc_attempt_id :: "string option"
  rc_ses_message_id :: "string option"
  rc_accepted_at :: "stamp option"
  rc_source_draft_id :: "string option"
  rc_source_draft_version :: "js_number option"
  rc_actor_kind :: string
  rc_actor_id :: "string option"
  rc_state :: string
  rc_generation :: int
  rc_attempt_count :: int
  rc_next_attempt_at :: "stamp option"
  rc_message_projected_at :: "stamp option"
  rc_draft_consumed_at :: "stamp option"
  rc_last_error_code :: "string option"
  rc_created_at :: stamp
  rc_updated_at :: stamp
  rc_completed_at :: "stamp option"

record outbox_db =
  db_deliveries :: "delivery_row list"
  db_attempts :: "attempt_row list"
  db_emails :: "email_row list"
  db_attachments :: "attachment_row list"
  db_recovery :: "recovery_row list"

subsection \<open>Column checks\<close>

fun int_at_least :: "int \<Rightarrow> js_number \<Rightarrow> bool" where
  "int_at_least k (JInt n) = (k \<le> n)"
| "int_at_least k JOther = False"

fun int_value :: "js_number \<Rightarrow> int" where
  "int_value (JInt n) = n"
| "int_value JOther = 0"

definition stamp_value :: "stamp \<Rightarrow> instant" where
  "stamp_value s = (case s of Canon t \<Rightarrow> t | Odd _ \<Rightarrow> 0)"

definition optional_stamp :: "stamp option \<Rightarrow> instant option" where
  "optional_stamp v = Option.bind v stamp_instant"

definition isCanonicalUtcTimestamp :: "stamp option \<Rightarrow> bool" where
  "isCanonicalUtcTimestamp v = (case v of None \<Rightarrow> False | Some s \<Rightarrow> canonical_stamp s)"

definition requiredEnum :: "(string \<Rightarrow> 'a option) \<Rightarrow> string \<Rightarrow> string \<Rightarrow> outbox_error + 'a" where
  "requiredEnum reader value field =
     (case reader value of
        None \<Rightarrow> Inl (PlainError (''Invalid '' @ field @ '' in truthful outbox storage: '' @ value))
      | Some x \<Rightarrow> Inr x)"

definition sourceDraftFromStorage ::
  "string option \<Rightarrow> js_number option \<Rightarrow> outbox_error + (string option \<times> int option)" where
  "sourceDraftFromStorage draftId draftVersion =
     (if draftId = None \<and> draftVersion = None then Inr (None, None)
      else case draftVersion of
        Some v \<Rightarrow> if truthy draftId \<and> int_at_least 1 v then Inr (draftId, Some (int_value v))
                 else Inl (PlainError ''Source draft ID and version must both be valid in truthful outbox storage'')
      | None \<Rightarrow> Inl (PlainError ''Source draft ID and version must both be valid in truthful outbox storage''))"

subsection \<open>From rows to records\<close>

definition stored_actor :: "actor_kind \<Rightarrow> string option \<Rightarrow> delivery_actor" where
  "stored_actor k i = \<lparr>ac_kind = k, ac_id = (if truthy i then i else None)\<rparr>"

definition phase_integrity :: "string option \<Rightarrow> recovery_integrity option" where
  "phase_integrity column =
     (if column \<noteq> None \<and> Option.bind column read_phase = None
      then Some Outbound_dispatch_phase_invalid else None)"

definition core_fields_invalid :: "delivery_row \<Rightarrow> bool" where
  "core_fields_invalid row \<longleftrightarrow>
     (let retryOriginStatus = Option.bind (dr_retry_origin_status row) read_origin;
          requiredTimes = [dr_created_at row, dr_updated_at row, dr_available_at row, dr_undo_until row];
          optionalTimes = [dr_scheduled_for row, dr_next_attempt_at row, dr_lease_expires_at row,
            dr_duplicate_acceptance_at row, dr_sent_at row, dr_failed_at row, dr_unknown_at row,
            dr_cancelled_at row]
      in list_ex (\<lambda>v. \<not> isCanonicalUtcTimestamp (Some v)) requiredTimes \<or>
         list_ex (\<lambda>v. v \<noteq> None \<and> \<not> isCanonicalUtcTimestamp v) optionalTimes \<or>
         \<not> int_at_least 0 (dr_attempt_count row) \<or>
         \<not> int_at_least 1 (dr_max_attempts row) \<or>
         \<not> int_at_least 0 (dr_preflight_deferral_count row) \<or>
         \<not> int_at_least 0 (dr_cancellation_recovery_attempt_count row) \<or>
         dr_retry_origin_status row \<noteq> None \<and> retryOriginStatus = None \<or>
         retryOriginStatus \<noteq> None \<and> dr_status row \<notin> {''queued'', ''retrying'', ''sending''} \<or>
         \<not> int_at_least 0 (dr_accepted_attempt_count row) \<or>
         dr_status row = ''sent'' \<and>
           ((case dr_ses_message_id row of None \<Rightarrow> True | Some m \<Rightarrow> js_trim m = []) \<or>
            \<not> isCanonicalUtcTimestamp (dr_sent_at row)))"

definition deliveryRowToStored :: "delivery_row \<Rightarrow> string \<Rightarrow> outbox_error + stored_delivery" where
  "deliveryRowToStored row mailboxId =
     (if core_fields_invalid row
      then Inl (PlainError ''Invalid core fields in truthful outbox storage'')
      else
        (let dispatchPhase = Option.bind (dr_dispatch_phase row) read_phase in
         bind_result (sourceDraftFromStorage (dr_source_draft_id row) (dr_source_draft_version row)) (\<lambda>sd.
         bind_result (requiredEnum read_kind (dr_kind row) ''delivery kind'') (\<lambda>kind.
         bind_result (requiredEnum read_status (dr_status row) ''delivery status'') (\<lambda>status.
         bind_result (requiredEnum read_source (dr_source row) ''delivery source'') (\<lambda>source.
         bind_result (requiredEnum read_actor_kind (dr_actor_kind row) ''actor kind'') (\<lambda>actor.
         Inr \<lparr>dl_id = dr_id row, dl_emailId = dr_email_id row,
              dl_draftId = fst sd, dl_draftVersion = snd sd, dl_mailboxId = mailboxId,
              dl_kind = kind, dl_status = status, dl_idempotencyKey = dr_idempotency_key row,
              dl_commandFingerprint = dr_command_fingerprint row, dl_source = source,
              dl_actor = stored_actor actor (dr_actor_id row),
              dl_createdAt = stamp_value (dr_created_at row),
              dl_updatedAt = stamp_value (dr_updated_at row),
              dl_availableAt = stamp_value (dr_available_at row),
              dl_undoUntil = stamp_value (dr_undo_until row),
              dl_scheduledFor = optional_stamp (dr_scheduled_for row),
              dl_nextAttemptAt = optional_stamp (dr_next_attempt_at row),
              dl_attemptCount = int_value (dr_attempt_count row),
              dl_maxAttempts = int_value (dr_max_attempts row),
              dl_preflightDeferralCount = int_value (dr_preflight_deferral_count row),
              dl_cancellationRecoveryAttemptCount =
                int_value (dr_cancellation_recovery_attempt_count row),
              dl_retryOriginStatus = Option.bind (dr_retry_origin_status row) read_origin,
              dl_dispatchPhase = dispatchPhase,
              dl_activeAttemptId = dr_active_attempt_id row,
              dl_acceptedAttemptCount = int_value (dr_accepted_attempt_count row),
              dl_duplicateAcceptanceAt = optional_stamp (dr_duplicate_acceptance_at row),
              dl_leaseToken = dr_lease_token row,
              dl_leaseExpiresAt = optional_stamp (dr_lease_expires_at row),
              dl_sesMessageId = dr_ses_message_id row,
              dl_lastErrorCode = dr_last_error_code row,
              dl_lastErrorMessage = dr_last_error_message row,
              dl_sentAt = optional_stamp (dr_sent_at row),
              dl_failedAt = optional_stamp (dr_failed_at row),
              dl_unknownAt = optional_stamp (dr_unknown_at row),
              dl_cancelledAt = optional_stamp (dr_cancelled_at row),
              dl_cancelRecoveryPending = None,
              dl_recoveryIntegrityCode = phase_integrity (dr_dispatch_phase row),
              dl_storageIntegrityInvalid = False\<rparr>)))))))"

definition attemptRowToStored :: "attempt_row \<Rightarrow> delivery_attempt" where
  "attemptRowToStored row =
     (let status = (case read_attempt_status (ar_status row) of Some s \<Rightarrow> s | None \<Rightarrow> Att_unknown);
          providerState = (case read_provider_state (ar_provider_state row) of Some p \<Rightarrow> p | None \<Rightarrow> Prov_none);
          providerEventPairValid =
            (ar_provider_event_at row = None \<and> ar_provider_event_id row = None \<or>
             isCanonicalUtcTimestamp (ar_provider_event_at row) \<and> truthy (ar_provider_event_id row));
          stateShapeInvalid =
            (ar_status row = ''sending'' \<and>
               (ar_finished_at row \<noteq> None \<or> ar_ses_message_id row \<noteq> None \<or>
                ar_http_status row \<noteq> None \<or> ar_error_code row \<noteq> None \<or>
                ar_error_message row \<noteq> None \<or> ar_provider_state row \<noteq> ''none'' \<or>
                ar_provider_event_at row \<noteq> None \<or> ar_provider_event_id row \<noteq> None) \<or>
             ar_status row \<noteq> ''sending'' \<and> \<not> isCanonicalUtcTimestamp (ar_finished_at row) \<or>
             ar_status row = ''accepted'' \<and>
               (case ar_ses_message_id row of None \<Rightarrow> True | Some m \<Rightarrow> js_trim m = []) \<or>
             ar_status row \<noteq> ''accepted'' \<and> ar_provider_state row \<noteq> ''none'' \<or>
             ar_provider_state row \<noteq> ''none'' \<and> \<not> providerEventPairValid \<or>
             ar_provider_state row = ''none'' \<and> \<not> providerEventPairValid \<or>
             (case ar_http_status row of None \<Rightarrow> False
              | Some h \<Rightarrow> \<not> int_at_least 100 h \<or> int_value h > 599));
          integrityInvalid =
            (ar_id row = [] \<or> ar_delivery_id row = [] \<or> \<not> int_at_least 1 (ar_attempt_number row) \<or>
             ar_lease_token row = [] \<or> stateShapeInvalid \<or>
             \<not> isCanonicalUtcTimestamp (Some (ar_started_at row)) \<or>
             ar_finished_at row \<noteq> None \<and> \<not> isCanonicalUtcTimestamp (ar_finished_at row) \<or>
             ar_provider_event_at row \<noteq> None \<and> \<not> isCanonicalUtcTimestamp (ar_provider_event_at row) \<or>
             read_attempt_status (ar_status row) = None \<or>
             read_provider_state (ar_provider_state row) = None)
      in \<lparr>at_id = ar_id row, at_deliveryId = ar_delivery_id row,
          at_attemptNumber = ar_attempt_number row, at_status = status,
          at_leaseToken = ar_lease_token row, at_startedAt = ar_started_at row,
          at_finishedAt = ar_finished_at row, at_sesMessageId = ar_ses_message_id row,
          at_httpStatus = ar_http_status row, at_errorCode = ar_error_code row,
          at_errorMessage = ar_error_message row, at_providerState = providerState,
          at_providerEventAt = ar_provider_event_at row,
          at_providerEventId = ar_provider_event_id row,
          at_storageIntegrityInvalid = integrityInvalid\<rparr>)"

subsection \<open>Reading the tables\<close>

definition find_delivery_row :: "outbox_db \<Rightarrow> string \<Rightarrow> delivery_row option" where
  "find_delivery_row db i = find (\<lambda>r. dr_id r = i) (db_deliveries db)"

definition find_email_row :: "outbox_db \<Rightarrow> string \<Rightarrow> email_row option" where
  "find_email_row db i = find (\<lambda>e. em_id e = i) (db_emails db)"

definition tx_getSnapshot :: "outbox_db \<Rightarrow> string \<Rightarrow> message_snapshot option" where
  "tx_getSnapshot db emailId =
     deserializeOutboundSnapshot (Option.bind (find_email_row db emailId) em_raw_headers)"

definition row_mailbox :: "outbox_db \<Rightarrow> delivery_row \<Rightarrow> string option" where
  "row_mailbox db row =
     (case tx_getSnapshot db (dr_email_id row) of
        Some s \<Rightarrow> Some (sn_mailboxId s)
      | None \<Rightarrow> normalizeMailAddress
          (case Option.bind (find_email_row db (dr_email_id row)) em_sender of
             None \<Rightarrow> [] | Some a \<Rightarrow> a))"

definition or_epoch :: "stamp \<Rightarrow> instant" where
  "or_epoch s = (case s of Canon t \<Rightarrow> t | Odd _ \<Rightarrow> 0)"

definition or_count :: "int \<Rightarrow> int \<Rightarrow> js_number \<Rightarrow> int" where
  "or_count k fallback n = (if int_at_least k n then int_value n else fallback)"

text \<open>What a row that fails its checks is shown as: unknown, owned by nobody, never sendable.\<close>

definition unreadable_delivery :: "delivery_row \<Rightarrow> string option \<Rightarrow> stored_delivery" where
  "unreadable_delivery row mailboxId =
     \<lparr>dl_id = dr_id row, dl_emailId = dr_email_id row, dl_draftId = None, dl_draftVersion = None,
      dl_mailboxId = (case mailboxId of None \<Rightarrow> [] | Some m \<Rightarrow> m),
      dl_kind = (case read_kind (dr_kind row) of Some k \<Rightarrow> k | None \<Rightarrow> Compose),
      dl_status = Unknown, dl_idempotencyKey = dr_idempotency_key row,
      dl_commandFingerprint = dr_command_fingerprint row,
      dl_source = (case read_source (dr_source row) of Some c \<Rightarrow> c | None \<Rightarrow> SrcApi),
      dl_actor = \<lparr>ac_kind = ActSystem, ac_id = None\<rparr>,
      dl_createdAt = or_epoch (dr_created_at row), dl_updatedAt = or_epoch (dr_updated_at row),
      dl_availableAt = or_epoch (dr_available_at row), dl_undoUntil = or_epoch (dr_undo_until row),
      dl_scheduledFor = None, dl_nextAttemptAt = None,
      dl_attemptCount = or_count 0 0 (dr_attempt_count row),
      dl_maxAttempts = or_count 1 1 (dr_max_attempts row),
      dl_preflightDeferralCount = or_count 0 0 (dr_preflight_deferral_count row),
      dl_cancellationRecoveryAttemptCount =
        or_count 0 0 (dr_cancellation_recovery_attempt_count row),
      dl_retryOriginStatus = None, dl_dispatchPhase = None, dl_activeAttemptId = None,
      dl_acceptedAttemptCount = or_count 0 0 (dr_accepted_attempt_count row),
      dl_duplicateAcceptanceAt = None, dl_leaseToken = None, dl_leaseExpiresAt = None,
      dl_sesMessageId = None,
      dl_lastErrorCode = Some ''outbound_delivery_record_invalid'',
      dl_lastErrorMessage =
        Some ''The local outbound record is inconsistent and requires audited repair.'',
      dl_sentAt = None, dl_failedAt = None, dl_unknownAt = Some (or_epoch (dr_updated_at row)),
      dl_cancelledAt = None, dl_cancelRecoveryPending = None, dl_recoveryIntegrityCode = None,
      dl_storageIntegrityInvalid = True\<rparr>"

definition with_cancel_recovery :: "string option \<Rightarrow> stored_delivery \<Rightarrow> stored_delivery" where
  "with_cancel_recovery folder d =
     (if dl_status d = Cancelled
      then d\<lparr>dl_cancelRecoveryPending := Some (cancellationRecoveryPending (dl_status d) folder)\<rparr>
      else d)"

definition hydrateDelivery :: "outbox_db \<Rightarrow> delivery_row \<Rightarrow> stored_delivery" where
  "hydrateDelivery db row =
     (let mailboxId = row_mailbox db row;
          delivery = (case mailboxId of
              None \<Rightarrow> unreadable_delivery row mailboxId
            | Some m \<Rightarrow> (case deliveryRowToStored row m of
                Inl _ \<Rightarrow> unreadable_delivery row mailboxId | Inr d \<Rightarrow> d))
      in with_cancel_recovery
           (map_option em_folder_id (find_email_row db (dr_email_id row))) delivery)"

definition tx_getDelivery :: "outbox_db \<Rightarrow> string \<Rightarrow> stored_delivery option" where
  "tx_getDelivery db i = map_option (hydrateDelivery db) (find_delivery_row db i)"

definition tx_findDeliveryByIdempotencyKey :: "outbox_db \<Rightarrow> string \<Rightarrow> stored_delivery option" where
  "tx_findDeliveryByIdempotencyKey db key =
     map_option (hydrateDelivery db) (find (\<lambda>r. dr_idempotency_key r = key) (db_deliveries db))"

definition tx_findDeliveryBySourceDraft :: "outbox_db \<Rightarrow> string \<Rightarrow> int \<Rightarrow> stored_delivery option" where
  "tx_findDeliveryBySourceDraft db i version =
     map_option (hydrateDelivery db)
       (find (\<lambda>r. dr_source_draft_id r = Some i \<and> dr_source_draft_version r = Some (JInt version))
         (db_deliveries db))"

definition tx_findDeliveryBySesMessageId :: "outbox_db \<Rightarrow> string \<Rightarrow> stored_delivery option" where
  "tx_findDeliveryBySesMessageId db m =
     map_option (hydrateDelivery db) (find (\<lambda>r. dr_ses_message_id r = Some m) (db_deliveries db))"

datatype draft_assertion = Draft_valid | Draft_invalid draft_conflict

definition tx_assertSourceDraftVersion :: "outbox_db \<Rightarrow> string \<Rightarrow> int \<Rightarrow> draft_assertion" where
  "tx_assertSourceDraftVersion db i version =
     (case find_email_row db i of
        None \<Rightarrow> Draft_invalid Draft_not_found
      | Some draft \<Rightarrow>
          if em_folder_id draft \<noteq> DRAFT then Draft_invalid Draft_not_draft
          else if em_draft_version draft = version then Draft_valid
          else Draft_invalid (Draft_version_conflict (em_draft_version draft)))"

definition PUBLIC_DELIVERY_HISTORY_LIMIT :: nat where "PUBLIC_DELIVERY_HISTORY_LIMIT = 200"

text \<open>\<^verbatim>\<open>ORDER BY key DESC\<close>; rows with equal keys keep their order.\<close>

definition sort_desc :: "('r \<Rightarrow> 'k::linorder) \<Rightarrow> 'r list \<Rightarrow> 'r list" where
  "sort_desc key rs = rev (sort_key key (rev rs))"

definition tx_listDeliveries :: "outbox_db \<Rightarrow> stored_delivery list" where
  "tx_listDeliveries db =
     map (hydrateDelivery db)
       (take PUBLIC_DELIVERY_HISTORY_LIMIT
         (sort_desc (\<lambda>r. stamp_text (dr_created_at r)) (db_deliveries db)))"

definition tx_listDeliveriesByStatuses :: "outbox_db \<Rightarrow> delivery_status list \<Rightarrow> stored_delivery list" where
  "tx_listDeliveriesByStatuses db statuses =
     (if statuses = [] then []
      else map (hydrateDelivery db)
        (take PUBLIC_DELIVERY_HISTORY_LIMIT
          (sort_desc (\<lambda>r. stamp_text (dr_created_at r))
            (filter (\<lambda>r. dr_status r \<in> status_text ` set statuses) (db_deliveries db)))))"

text \<open>A number column sorts by value; a value that is not an integer sorts after every integer.\<close>

fun number_order :: "js_number \<Rightarrow> nat \<times> int" where
  "number_order (JInt n) = (0, n)"
| "number_order JOther = (1, 0)"

definition tx_listAttemptsByDelivery :: "outbox_db \<Rightarrow> string \<Rightarrow> delivery_attempt list" where
  "tx_listAttemptsByDelivery db deliveryId =
     map attemptRowToStored
       (sort_desc (\<lambda>r. number_order (ar_attempt_number r))
         (filter (\<lambda>r. ar_delivery_id r = deliveryId) (db_attempts db)))"

subsection \<open>Writing the tables\<close>

text \<open>Foreign keys and unique indexes make an insert throw.\<close>

definition constraint_failed :: outbox_error where
  "constraint_failed = PlainError ''SQLITE_CONSTRAINT''"

definition delivery_to_row :: "stored_delivery \<Rightarrow> delivery_row" where
  "delivery_to_row d =
     \<lparr>dr_id = dl_id d, dr_email_id = dl_emailId d,
      dr_source_draft_id = dl_draftId d,
      dr_source_draft_version = map_option JInt (dl_draftVersion d),
      dr_idempotency_key = dl_idempotencyKey d,
      dr_command_fingerprint = dl_commandFingerprint d,
      dr_kind = kind_text (dl_kind d), dr_source = source_text (dl_source d),
      dr_actor_kind = actor_kind_text (ac_kind (dl_actor d)), dr_actor_id = ac_id (dl_actor d),
      dr_status = status_text (dl_status d),
      dr_available_at = Canon (dl_availableAt d), dr_undo_until = Canon (dl_undoUntil d),
      dr_scheduled_for = map_option Canon (dl_scheduledFor d),
      dr_next_attempt_at = map_option Canon (dl_nextAttemptAt d),
      dr_attempt_count = JInt (dl_attemptCount d), dr_max_attempts = JInt (dl_maxAttempts d),
      dr_preflight_deferral_count = JInt (dl_preflightDeferralCount d),
      dr_cancellation_recovery_attempt_count = JInt (dl_cancellationRecoveryAttemptCount d),
      dr_retry_origin_status = map_option origin_text (dl_retryOriginStatus d),
      dr_dispatch_phase = map_option phase_text (dl_dispatchPhase d),
      dr_active_attempt_id = dl_activeAttemptId d,
      dr_lease_token = dl_leaseToken d,
      dr_lease_expires_at = map_option Canon (dl_leaseExpiresAt d),
      dr_ses_message_id = dl_sesMessageId d,
      dr_last_error_code = dl_lastErrorCode d, dr_last_error_message = dl_lastErrorMessage d,
      dr_created_at = Canon (dl_createdAt d), dr_updated_at = Canon (dl_updatedAt d),
      dr_sent_at = map_option Canon (dl_sentAt d), dr_failed_at = map_option Canon (dl_failedAt d),
      dr_unknown_at = map_option Canon (dl_unknownAt d),
      dr_cancelled_at = map_option Canon (dl_cancelledAt d),
      dr_accepted_attempt_count = JInt (dl_acceptedAttemptCount d),
      dr_duplicate_acceptance_at = map_option Canon (dl_duplicateAcceptanceAt d)\<rparr>"

definition tx_insertDelivery :: "outbox_db \<Rightarrow> stored_delivery \<Rightarrow> outbox_error + outbox_db" where
  "tx_insertDelivery db d =
     (if (\<exists>r \<in> set (db_deliveries db).
            dr_id r = dl_id d \<or> dr_email_id r = dl_emailId d \<or>
            dr_idempotency_key r = dl_idempotencyKey d)
         \<or> find_email_row db (dl_emailId d) = None
      then Inl constraint_failed
      else Inr (db\<lparr>db_deliveries := db_deliveries db @ [delivery_to_row d],
             db_emails := update_where (\<lambda>e. em_id e = dl_emailId d)
               (\<lambda>e. e\<lparr>em_date := Some (Canon (dl_createdAt d))\<rparr>) (db_emails db)\<rparr>))"

text \<open>The columns an update writes; linkage, source and idempotency columns stay as they were inserted.\<close>

definition write_delivery :: "stored_delivery \<Rightarrow> delivery_row \<Rightarrow> delivery_row" where
  "write_delivery d row = row
     \<lparr>dr_actor_kind := actor_kind_text (ac_kind (dl_actor d)), dr_actor_id := ac_id (dl_actor d),
      dr_status := status_text (dl_status d),
      dr_available_at := Canon (dl_availableAt d),
      dr_scheduled_for := map_option Canon (dl_scheduledFor d),
      dr_next_attempt_at := map_option Canon (dl_nextAttemptAt d),
      dr_attempt_count := JInt (dl_attemptCount d), dr_max_attempts := JInt (dl_maxAttempts d),
      dr_preflight_deferral_count := JInt (dl_preflightDeferralCount d),
      dr_cancellation_recovery_attempt_count := JInt (dl_cancellationRecoveryAttemptCount d),
      dr_retry_origin_status := map_option origin_text (dl_retryOriginStatus d),
      dr_dispatch_phase := map_option phase_text (dl_dispatchPhase d),
      dr_active_attempt_id := dl_activeAttemptId d,
      dr_lease_token := dl_leaseToken d,
      dr_lease_expires_at := map_option Canon (dl_leaseExpiresAt d),
      dr_ses_message_id := dl_sesMessageId d,
      dr_last_error_code := dl_lastErrorCode d, dr_last_error_message := dl_lastErrorMessage d,
      dr_updated_at := Canon (dl_updatedAt d),
      dr_sent_at := map_option Canon (dl_sentAt d),
      dr_failed_at := map_option Canon (dl_failedAt d),
      dr_unknown_at := map_option Canon (dl_unknownAt d),
      dr_cancelled_at := map_option Canon (dl_cancelledAt d),
      dr_accepted_attempt_count := JInt (dl_acceptedAttemptCount d),
      dr_duplicate_acceptance_at := map_option Canon (dl_duplicateAcceptanceAt d)\<rparr>"

definition tx_updateDelivery :: "outbox_db \<Rightarrow> stored_delivery \<Rightarrow> outbox_db" where
  "tx_updateDelivery db d =
     db\<lparr>db_deliveries := update_where (\<lambda>r. dr_id r = dl_id d) (write_delivery d) (db_deliveries db)\<rparr>"

definition comma_join :: "string list \<Rightarrow> string" where
  "comma_join xs = (case xs of [] \<Rightarrow> [] | y # ys \<Rightarrow> y @ concat (map (\<lambda>x. '', '' @ x) ys))"

definition none_if_empty :: "string \<Rightarrow> string option" where
  "none_if_empty s = (if s = [] then None else Some s)"

definition snapshot_email_row :: "string \<Rightarrow> message_snapshot \<Rightarrow> raw_text \<Rightarrow> email_row" where
  "snapshot_email_row emailId s raw =
     \<lparr>em_id = emailId, em_folder_id = OUTBOX, em_subject = Some (sn_subject s),
      em_sender = Some (sn_from s), em_recipient = Some (comma_join (sn_to s)),
      em_cc = none_if_empty (comma_join (sn_cc s)), em_bcc = none_if_empty (comma_join (sn_bcc s)),
      em_date = None, em_read = 1, em_starred = 0,
      em_body = Some (case sn_html s of Some h \<Rightarrow> h
                      | None \<Rightarrow> (case sn_text s of Some t \<Rightarrow> t | None \<Rightarrow> [])),
      em_in_reply_to = sn_inReplyTo s,
      em_email_references = map_option (\<lambda>rs. Json_text (jstrings rs)) (sn_references s),
      em_thread_id = Some (sn_threadId s), em_message_id = None, em_raw_headers = Some raw,
      em_draft_version = (case sn_draftVersion s of Some v \<Rightarrow> v | None \<Rightarrow> 1)\<rparr>"

definition tx_insertSnapshot ::
  "outbox_db \<Rightarrow> string \<Rightarrow> message_snapshot \<Rightarrow> pending_attachment list \<Rightarrow> outbox_error + outbox_db" where
  "tx_insertSnapshot db emailId s pending =
     bind_result (pendingAttachmentsToRows emailId s pending) (\<lambda>rows.
     bind_result (serializeOutboundSnapshot s) (\<lambda>raw.
       if (\<exists>e \<in> set (db_emails db). em_id e = emailId) \<or>
          (\<exists>x \<in> set (db_attachments db). xr_id x \<in> xr_id ` set rows)
       then Inl constraint_failed
       else Inr (db\<lparr>db_emails := db_emails db @ [snapshot_email_row emailId s raw],
                   db_attachments := db_attachments db @ rows\<rparr>)))"

definition attempt_to_row :: "delivery_attempt \<Rightarrow> attempt_row" where
  "attempt_to_row a =
     \<lparr>ar_id = at_id a, ar_delivery_id = at_deliveryId a, ar_attempt_number = at_attemptNumber a,
      ar_status = attempt_status_text (at_status a), ar_lease_token = at_leaseToken a,
      ar_started_at = at_startedAt a, ar_finished_at = at_finishedAt a,
      ar_ses_message_id = at_sesMessageId a, ar_http_status = at_httpStatus a,
      ar_error_code = at_errorCode a, ar_error_message = at_errorMessage a,
      ar_provider_state = provider_state_text (at_providerState a),
      ar_provider_event_at = at_providerEventAt a, ar_provider_event_id = at_providerEventId a\<rparr>"

definition tx_insertAttempt :: "outbox_db \<Rightarrow> delivery_attempt \<Rightarrow> outbox_error + outbox_db" where
  "tx_insertAttempt db a =
     (if (\<exists>r \<in> set (db_attempts db). ar_id r = at_id a \<or>
            ar_delivery_id r = at_deliveryId a \<and> ar_attempt_number r = at_attemptNumber a)
         \<or> find_delivery_row db (at_deliveryId a) = None
      then Inl constraint_failed
      else Inr (db\<lparr>db_attempts := db_attempts db @ [attempt_to_row a]\<rparr>))"

definition write_attempt :: "delivery_attempt \<Rightarrow> attempt_row \<Rightarrow> attempt_row" where
  "write_attempt a row = row
     \<lparr>ar_status := attempt_status_text (at_status a), ar_finished_at := at_finishedAt a,
      ar_ses_message_id := at_sesMessageId a, ar_http_status := at_httpStatus a,
      ar_error_code := at_errorCode a, ar_error_message := at_errorMessage a,
      ar_provider_state := provider_state_text (at_providerState a),
      ar_provider_event_at := at_providerEventAt a, ar_provider_event_id := at_providerEventId a\<rparr>"

definition tx_updateAttempt :: "outbox_db \<Rightarrow> delivery_attempt \<Rightarrow> outbox_db" where
  "tx_updateAttempt db a =
     db\<lparr>db_attempts := update_where (\<lambda>r. ar_id r = at_id a) (write_attempt a) (db_attempts db)\<rparr>"

text \<open>The recovery table has one row per delivery: an existing row makes the insert do nothing.\<close>

definition tx_recordAcceptedRecovery ::
  "outbox_db \<Rightarrow> stored_delivery \<Rightarrow> delivery_attempt \<Rightarrow> outbox_error + outbox_db" where
  "tx_recordAcceptedRecovery db d a =
     (case at_finishedAt a of
        None \<Rightarrow> Inl (PlainError ''Accepted recovery requires immutable provider identity'')
      | Some finished \<Rightarrow>
        if \<not> truthy (at_sesMessageId a)
        then Inl (PlainError ''Accepted recovery requires immutable provider identity'')
        else if \<exists>r \<in> set (db_recovery db). rc_delivery_id r = dl_id d then Inr db
        else Inr (db\<lparr>db_recovery := db_recovery db @
          [\<lparr>rc_delivery_id = dl_id d, rc_email_id = dl_emailId d, rc_attempt_id = Some (at_id a),
            rc_ses_message_id = at_sesMessageId a, rc_accepted_at = Some finished,
            rc_source_draft_id = dl_draftId d, rc_source_draft_version = map_option JInt (dl_draftVersion d),
            rc_actor_kind = actor_kind_text (ac_kind (dl_actor d)), rc_actor_id = ac_id (dl_actor d),
            rc_state = ''pending'', rc_generation = 0, rc_attempt_count = 0,
            rc_next_attempt_at = Some finished, rc_message_projected_at = None, rc_draft_consumed_at = None,
            rc_last_error_code = None, rc_created_at = finished, rc_updated_at = finished,
            rc_completed_at = None\<rparr>]\<rparr>))"

subsection \<open>What is due\<close>

definition epoch :: stamp where "epoch = Canon 0"

text \<open>A time column that has passed, or that cannot be trusted to say otherwise.\<close>

fun due_or_odd :: "instant \<Rightarrow> stamp option \<Rightarrow> bool" where
  "due_or_odd now None = False"
| "due_or_odd now (Some (Canon t)) = (t \<le> now)"
| "due_or_odd now (Some (Odd s)) = True"

definition row_dispatchable :: "instant \<Rightarrow> delivery_row \<Rightarrow> bool" where
  "row_dispatchable now row \<longleftrightarrow>
     dr_status row = ''queued'' \<and> due_or_odd now (Some (dr_available_at row)) \<or>
     dr_status row = ''retrying'' \<and>
       (dr_next_attempt_at row = None \<or> due_or_odd now (dr_next_attempt_at row))"

definition dispatch_order :: "delivery_row \<Rightarrow> instant" where
  "dispatch_order row =
     (if dr_status row = ''retrying'' \<and> isCanonicalUtcTimestamp (dr_next_attempt_at row)
      then stamp_value (the (dr_next_attempt_at row))
      else if dr_status row = ''queued'' \<and> isCanonicalUtcTimestamp (Some (dr_available_at row))
      then stamp_value (dr_available_at row) else 0)"

definition findNextDispatchableRow :: "outbox_db \<Rightarrow> instant \<Rightarrow> delivery_row option" where
  "findNextDispatchableRow db now =
     (case sort_key (\<lambda>r. (dispatch_order r, stamp_text (dr_created_at r), dr_id r))
             (filter (row_dispatchable now) (db_deliveries db)) of
        [] \<Rightarrow> None | r # _ \<Rightarrow> Some r)"

text \<open>
  A candidate is ready, or the row's dispatch columns are inconsistent. The outcome of a repair is
  \<open>Unknown\<close> whenever an earlier provider dispatch cannot be excluded.
\<close>

datatype dispatch_candidate =
  Cand_ready stored_delivery
| Cand_integrity_failure string string delivery_status

definition preserveUnknownRetryOrigin :: "delivery_row \<Rightarrow> delivery_status \<Rightarrow> delivery_status" where
  "preserveUnknownRetryOrigin row outcome =
     (if dr_retry_origin_status row \<noteq> None \<and> dr_retry_origin_status row \<noteq> Some ''failed''
      then Unknown else outcome)"

definition classify_dispatchable :: "outbox_db \<Rightarrow> delivery_row \<Rightarrow> dispatch_candidate" where
  "classify_dispatchable db row =
     (if dr_dispatch_phase row \<noteq> None \<or> dr_active_attempt_id row \<noteq> None \<or>
         dr_lease_token row \<noteq> None \<or> dr_lease_expires_at row \<noteq> None
      then
        (let providerDispatchCannotBeExcluded =
               (dr_dispatch_phase row = Some ''provider'' \<or> dr_active_attempt_id row \<noteq> None \<or>
                dr_dispatch_phase row = None \<and>
                  (dr_lease_token row \<noteq> None \<or> dr_lease_expires_at row \<noteq> None))
         in Cand_integrity_failure (dr_id row) (dr_status row)
              (preserveUnknownRetryOrigin row
                (if providerDispatchCannotBeExcluded then Unknown else Failed)))
      else
        (let dispatchAt = (if dr_status row = ''queued'' then Some (dr_available_at row)
                           else dr_next_attempt_at row);
             delivery = hydrateDelivery db row
         in if \<not> isCanonicalUtcTimestamp dispatchAt \<or> dl_storageIntegrityInvalid delivery
            then Cand_integrity_failure (dr_id row) (dr_status row)
                   (preserveUnknownRetryOrigin row Failed)
            else Cand_ready delivery))"

definition tx_findNextDispatchableCandidate :: "outbox_db \<Rightarrow> instant \<Rightarrow> dispatch_candidate option" where
  "tx_findNextDispatchableCandidate db now =
     map_option (classify_dispatchable db) (findNextDispatchableRow db now)"

definition repair_dispatch_row :: "delivery_status \<Rightarrow> instant \<Rightarrow> delivery_row \<Rightarrow> delivery_row" where
  "repair_dispatch_row outcome now row = row
     \<lparr>dr_status := status_text outcome, dr_retry_origin_status := None, dr_next_attempt_at := None,
      dr_dispatch_phase := None, dr_active_attempt_id := None, dr_lease_token := None,
      dr_lease_expires_at := None,
      dr_failed_at := (if outcome = Failed then Some (Canon now) else None),
      dr_unknown_at := (if outcome = Unknown then Some (Canon now) else None),
      dr_updated_at := Canon now,
      dr_last_error_code := Some ''outbound_dispatch_metadata_invalid'',
      dr_last_error_message := Some
        (if outcome = Unknown
         then ''A prior provider dispatch cannot be excluded. Retry only with duplicate-risk acknowledgement.''
         else ''The local dispatch record is inconsistent and cannot be sent safely.'')\<rparr>"

definition tx_failDispatchableIntegrity ::
  "outbox_db \<Rightarrow> string \<Rightarrow> string \<Rightarrow> delivery_status \<Rightarrow> instant \<Rightarrow> outbox_error + outbox_db" where
  "tx_failDispatchableIntegrity db deliveryId status outcome now =
     (let db' = db\<lparr>db_deliveries := update_where
            (\<lambda>r. dr_id r = deliveryId \<and> dr_status r = status)
            (repair_dispatch_row outcome now) (db_deliveries db)\<rparr>
      in if map_option dr_status (find_delivery_row db' deliveryId) \<noteq> Some (status_text outcome)
         then Inl (PlainError (''Dispatch integrity repair lost ownership for '' @ deliveryId))
         else Inr db')"

subsection \<open>Expired leases\<close>

definition lease_expired_or_odd :: "instant \<Rightarrow> delivery_row \<Rightarrow> bool" where
  "lease_expired_or_odd now row \<longleftrightarrow>
     dr_lease_expires_at row = None \<or> due_or_odd now (dr_lease_expires_at row) \<or>
     dr_lease_token row = None \<or> list_all (\<lambda>c. c = CHR '' '') (the (dr_lease_token row))"

definition phaseMetadataValid :: "delivery_row \<Rightarrow> bool" where
  "phaseMetadataValid row \<longleftrightarrow>
     dr_dispatch_phase row = None \<and> dr_active_attempt_id row = None \<or>
     dr_dispatch_phase row = Some ''preflight'' \<and> dr_active_attempt_id row = None \<or>
     dr_dispatch_phase row = Some ''provider'' \<and> dr_active_attempt_id row \<noteq> None"

definition leaseMetadataValid :: "delivery_row \<Rightarrow> bool" where
  "leaseMetadataValid row \<longleftrightarrow>
     (case dr_lease_token row of None \<Rightarrow> False | Some t \<Rightarrow> js_trim t \<noteq> []) \<and>
     isCanonicalUtcTimestamp (dr_lease_expires_at row)"

definition hydrateExpiredDelivery :: "outbox_db \<Rightarrow> delivery_row \<Rightarrow> stored_delivery" where
  "hydrateExpiredDelivery db row =
     (let hydrated = hydrateDelivery db row
      in if dl_storageIntegrityInvalid hydrated
         then hydrated\<lparr>dl_recoveryIntegrityCode := Some Outbound_delivery_record_invalid\<rparr>
         else if phaseMetadataValid row \<and> leaseMetadataValid row then hydrated
         else if phaseMetadataValid row
         then hydrated\<lparr>dl_recoveryIntegrityCode := Some Outbound_sending_lease_invalid\<rparr>
         else hydrated\<lparr>dl_dispatchPhase := None, dl_activeAttemptId := None,
                       dl_recoveryIntegrityCode := Some Outbound_dispatch_phase_invalid\<rparr>)"

definition tx_listExpiredSending :: "outbox_db \<Rightarrow> instant \<Rightarrow> stored_delivery list" where
  "tx_listExpiredSending db now =
     map (hydrateExpiredDelivery db)
       (filter (\<lambda>r. dr_status r = ''sending'' \<and> lease_expired_or_odd now r) (db_deliveries db))"

subsection \<open>Reconciling accepted and cancelled mail\<close>

definition source_draft_exists :: "outbox_db \<Rightarrow> delivery_row \<Rightarrow> bool" where
  "source_draft_exists db row \<longleftrightarrow>
     (\<exists>e \<in> set (db_emails db). dr_source_draft_id row = Some (em_id e) \<and>
        em_folder_id e = DRAFT \<and> dr_source_draft_version row = Some (JInt (em_draft_version e)))"

definition email_in_outbox :: "outbox_db \<Rightarrow> delivery_row \<Rightarrow> bool" where
  "email_in_outbox db row \<longleftrightarrow>
     (\<exists>e \<in> set (db_emails db). em_id e = dr_email_id row \<and> em_folder_id e = OUTBOX)"

definition in_recovery :: "outbox_db \<Rightarrow> delivery_row \<Rightarrow> bool" where
  "in_recovery db row \<longleftrightarrow> (\<exists>c \<in> set (db_recovery db). rc_delivery_id c = dr_id row)"

definition retry_due :: "instant \<Rightarrow> delivery_row \<Rightarrow> bool" where
  "retry_due now row \<longleftrightarrow> dr_next_attempt_at row = None \<or> due_or_odd now (dr_next_attempt_at row)"

definition row_unreconciled :: "outbox_db \<Rightarrow> instant \<Rightarrow> delivery_row \<Rightarrow> bool" where
  "row_unreconciled db now row \<longleftrightarrow>
     dr_status row = ''sent'' \<and> find_email_row db (dr_email_id row) \<noteq> None \<and>
     \<not> in_recovery db row \<and> retry_due now row \<and>
     (email_in_outbox db row \<or> source_draft_exists db row)"

definition clamp_limit :: "int \<Rightarrow> nat" where
  "clamp_limit limit = nat (max 1 (min limit 25))"

definition tx_deferAcceptedReconciliation ::
  "outbox_db \<Rightarrow> string \<Rightarrow> instant \<Rightarrow> string \<Rightarrow> string \<Rightarrow> outbox_db" where
  "tx_deferAcceptedReconciliation db deliveryId retryAt code message =
     db\<lparr>db_deliveries := update_where (\<lambda>r. dr_id r = deliveryId \<and> dr_status r = ''sent'')
         (\<lambda>r. r\<lparr>dr_next_attempt_at := Some (Canon retryAt), dr_last_error_code := Some code,
              dr_last_error_message := Some message\<rparr>) (db_deliveries db)\<rparr>"

fun reconcile_rows ::
  "instant \<Rightarrow> delivery_row list \<Rightarrow> outbox_db \<Rightarrow> stored_delivery list \<times> outbox_db" where
  "reconcile_rows now [] db = ([], db)"
| "reconcile_rows now (row # rows) db =
     (let hydrated = hydrateDelivery db row in
      if dl_storageIntegrityInvalid hydrated
      then reconcile_rows now rows
             (tx_deferAcceptedReconciliation db (dr_id row) (now + 5 * 60000)
               ''outbound_reconciliation_record_invalid''
               ''Provider acceptance is preserved, but the local projection requires audited repair.'')
      else (let (ds, db') = reconcile_rows now rows db in (hydrated # ds, db')))"

definition tx_listUnreconciledAccepted ::
  "outbox_db \<Rightarrow> instant \<Rightarrow> int \<Rightarrow> stored_delivery list \<times> outbox_db" where
  "tx_listUnreconciledAccepted db now limit =
     reconcile_rows now
       (take (clamp_limit limit)
         (sort_key (\<lambda>r. stamp_text (dr_updated_at r)) (filter (row_unreconciled db now) (db_deliveries db))))
       db"

definition row_cancel_pending :: "outbox_db \<Rightarrow> delivery_row \<Rightarrow> bool" where
  "row_cancel_pending db row \<longleftrightarrow>
     dr_status row = ''cancelled'' \<and> email_in_outbox db row \<and>
     dr_last_error_code row \<noteq> Some ''outbound_cancellation_recovery_parked''"

definition tx_listPendingCancellationRecovery ::
  "outbox_db \<Rightarrow> instant \<Rightarrow> int \<Rightarrow> stored_delivery list" where
  "tx_listPendingCancellationRecovery db now limit =
     map (hydrateDelivery db)
       (take (clamp_limit limit)
         (sort_key (\<lambda>r. stamp_text (dr_updated_at r))
           (filter (\<lambda>r. row_cancel_pending db r \<and> retry_due now r) (db_deliveries db))))"

definition RECONCILIATION_CODES :: "string list" where
  "RECONCILIATION_CODES =
     [''outbound_reconciliation_record_invalid'', ''outbound_acceptance_identity_missing'',
      ''outbound_reconciliation_deferred'']"

definition tx_completeAcceptedReconciliation :: "outbox_db \<Rightarrow> string \<Rightarrow> outbox_db" where
  "tx_completeAcceptedReconciliation db deliveryId =
     db\<lparr>db_deliveries := update_where (\<lambda>r. dr_id r = deliveryId \<and> dr_status r = ''sent'')
         (\<lambda>r. (if \<exists>c \<in> set RECONCILIATION_CODES. dr_last_error_code r = Some c
               then r\<lparr>dr_next_attempt_at := None, dr_last_error_code := None,
                      dr_last_error_message := None\<rparr>
               else r\<lparr>dr_next_attempt_at := None\<rparr>)) (db_deliveries db)\<rparr>"

subsection \<open>The next alarm\<close>

definition or_epoch_stamp :: "stamp option \<Rightarrow> stamp" where
  "or_epoch_stamp v = (if isCanonicalUtcTimestamp v then the v else epoch)"

definition row_next_action :: "outbox_db \<Rightarrow> delivery_row \<Rightarrow> stamp option" where
  "row_next_action db row =
     (if dr_status row = ''queued'' then Some (or_epoch_stamp (Some (dr_available_at row)))
      else if dr_status row = ''retrying'' then Some (or_epoch_stamp (dr_next_attempt_at row))
      else if dr_status row = ''sending''
      then Some (if dr_lease_token row = None \<or> list_all (\<lambda>c. c = CHR '' '') (the (dr_lease_token row))
                 then epoch else or_epoch_stamp (dr_lease_expires_at row))
      else if dr_status row = ''sent'' \<and> \<not> in_recovery db row \<and>
              (email_in_outbox db row \<or> source_draft_exists db row) \<or>
              row_cancel_pending db row
      then Some (if dr_next_attempt_at row = None then dr_updated_at row
                 else or_epoch_stamp (dr_next_attempt_at row))
      else None)"

definition tx_findNextActionAt :: "outbox_db \<Rightarrow> stamp option" where
  "tx_findNextActionAt db =
     (case sort_key stamp_text
             (map the (filter (\<lambda>v. v \<noteq> None) (map (row_next_action db) (db_deliveries db)))) of
        [] \<Rightarrow> None | s # _ \<Rightarrow> Some s)"

end
