(* ===== verification/Outbound_Store_Laws.thy ===== *)
theory Outbound_Store_Laws
  imports Outbound_Storage
begin

text \<open>
  What the storage adapter promises the service: an integral delivery reads back as it was written,
  up to the two fields the adapter derives on every read; updates of one delivery or attempt leave
  all others alone; the candidate that is offered for sending is due, clean and the earliest one.
\<close>

subsection \<open>Integral deliveries\<close>

definition valid_delivery :: "stored_delivery \<Rightarrow> bool" where
  "valid_delivery d \<longleftrightarrow>
     0 \<le> dl_attemptCount d \<and> 1 \<le> dl_maxAttempts d \<and> 0 \<le> dl_preflightDeferralCount d \<and>
     0 \<le> dl_cancellationRecoveryAttemptCount d \<and> 0 \<le> dl_acceptedAttemptCount d \<and>
     (dl_retryOriginStatus d \<noteq> None \<longrightarrow> dl_status d \<in> {Queued, Retrying, Sending}) \<and>
     (dl_status d = Sent \<longrightarrow>
        (\<exists>m. dl_sesMessageId d = Some m \<and> js_trim m \<noteq> []) \<and> dl_sentAt d \<noteq> None) \<and>
     valid_draft_reference (dl_draftId d) (dl_draftVersion d) \<and>
     ac_id (dl_actor d) \<noteq> Some [] \<and> \<not> dl_storageIntegrityInvalid d"

definition same_identity :: "stored_delivery \<Rightarrow> stored_delivery \<Rightarrow> bool" where
  "same_identity d e \<longleftrightarrow>
     dl_id d = dl_id e \<and> dl_emailId d = dl_emailId e \<and> dl_draftId d = dl_draftId e \<and>
     dl_draftVersion d = dl_draftVersion e \<and> dl_mailboxId d = dl_mailboxId e \<and>
     dl_kind d = dl_kind e \<and> dl_idempotencyKey d = dl_idempotencyKey e \<and>
     dl_commandFingerprint d = dl_commandFingerprint e \<and> dl_source d = dl_source e \<and>
     dl_createdAt d = dl_createdAt e \<and> dl_undoUntil d = dl_undoUntil e"

definition email_folder :: "outbox_db \<Rightarrow> string \<Rightarrow> string option" where
  "email_folder db i = map_option em_folder_id (find_email_row db i)"

text \<open>A delivery as the adapter returns it after it was written.\<close>

definition reloaded :: "outbox_db \<Rightarrow> stored_delivery \<Rightarrow> stored_delivery" where
  "reloaded db d = with_cancel_recovery (email_folder db (dl_emailId d))
     (d\<lparr>dl_cancelRecoveryPending := None, dl_recoveryIntegrityCode := None\<rparr>)"

lemma same_identity_refl [simp]: "same_identity d d"
  by (simp add: same_identity_def)

lemma same_identity_trans: "same_identity a b \<Longrightarrow> same_identity b c \<Longrightarrow> same_identity a c"
  by (simp add: same_identity_def)

lemma with_cancel_recovery_simps [simp]:
  "dl_id (with_cancel_recovery f d) = dl_id d"
  "dl_status (with_cancel_recovery f d) = dl_status d"
  "dl_storageIntegrityInvalid (with_cancel_recovery f d) = dl_storageIntegrityInvalid d"
  "same_identity (with_cancel_recovery f d) e = same_identity d e"
  "same_identity e (with_cancel_recovery f d) = same_identity e d"
  by (simp_all add: with_cancel_recovery_def same_identity_def)

lemma reloaded_simps [simp]:
  "dl_id (reloaded db d) = dl_id d"
  "dl_status (reloaded db d) = dl_status d"
  "dl_storageIntegrityInvalid (reloaded db d) = dl_storageIntegrityInvalid d"
  by (simp_all add: reloaded_def)

text \<open>Every column after an update: the linkage columns are kept, the others are written.\<close>

lemma write_delivery_cols [simp]:
  "dr_id (write_delivery d row) = dr_id row"
  "dr_email_id (write_delivery d row) = dr_email_id row"
  "dr_source_draft_id (write_delivery d row) = dr_source_draft_id row"
  "dr_source_draft_version (write_delivery d row) = dr_source_draft_version row"
  "dr_idempotency_key (write_delivery d row) = dr_idempotency_key row"
  "dr_command_fingerprint (write_delivery d row) = dr_command_fingerprint row"
  "dr_kind (write_delivery d row) = dr_kind row"
  "dr_source (write_delivery d row) = dr_source row"
  "dr_undo_until (write_delivery d row) = dr_undo_until row"
  "dr_created_at (write_delivery d row) = dr_created_at row"
  "dr_actor_kind (write_delivery d row) = actor_kind_text (ac_kind (dl_actor d))"
  "dr_actor_id (write_delivery d row) = ac_id (dl_actor d)"
  "dr_status (write_delivery d row) = status_text (dl_status d)"
  "dr_available_at (write_delivery d row) = Canon (dl_availableAt d)"
  "dr_scheduled_for (write_delivery d row) = map_option Canon (dl_scheduledFor d)"
  "dr_next_attempt_at (write_delivery d row) = map_option Canon (dl_nextAttemptAt d)"
  "dr_attempt_count (write_delivery d row) = JInt (dl_attemptCount d)"
  "dr_max_attempts (write_delivery d row) = JInt (dl_maxAttempts d)"
  "dr_preflight_deferral_count (write_delivery d row) = JInt (dl_preflightDeferralCount d)"
  "dr_cancellation_recovery_attempt_count (write_delivery d row) = JInt (dl_cancellationRecoveryAttemptCount d)"
  "dr_retry_origin_status (write_delivery d row) = map_option origin_text (dl_retryOriginStatus d)"
  "dr_dispatch_phase (write_delivery d row) = map_option phase_text (dl_dispatchPhase d)"
  "dr_active_attempt_id (write_delivery d row) = dl_activeAttemptId d"
  "dr_lease_token (write_delivery d row) = dl_leaseToken d"
  "dr_lease_expires_at (write_delivery d row) = map_option Canon (dl_leaseExpiresAt d)"
  "dr_ses_message_id (write_delivery d row) = dl_sesMessageId d"
  "dr_last_error_code (write_delivery d row) = dl_lastErrorCode d"
  "dr_last_error_message (write_delivery d row) = dl_lastErrorMessage d"
  "dr_updated_at (write_delivery d row) = Canon (dl_updatedAt d)"
  "dr_sent_at (write_delivery d row) = map_option Canon (dl_sentAt d)"
  "dr_failed_at (write_delivery d row) = map_option Canon (dl_failedAt d)"
  "dr_unknown_at (write_delivery d row) = map_option Canon (dl_unknownAt d)"
  "dr_cancelled_at (write_delivery d row) = map_option Canon (dl_cancelledAt d)"
  "dr_accepted_attempt_count (write_delivery d row) = JInt (dl_acceptedAttemptCount d)"
  "dr_duplicate_acceptance_at (write_delivery d row) = map_option Canon (dl_duplicateAcceptanceAt d)"
  by (simp_all add: write_delivery_def)

lemma row_mailbox_write [simp]: "row_mailbox db (write_delivery d row) = row_mailbox db row"
  by (simp add: row_mailbox_def split: option.split)

lemma stamp_columns [simp]:
  "isCanonicalUtcTimestamp (Some (Canon t))"
  "\<not> isCanonicalUtcTimestamp None"
  "stamp_value (Canon t) = t"
  "optional_stamp (map_option Canon v) = v"
  "optional_stamp None = None"
  "isCanonicalUtcTimestamp (map_option Canon v) \<longleftrightarrow> v \<noteq> None"
  by (cases v; simp add: isCanonicalUtcTimestamp_def stamp_value_def optional_stamp_def)+

lemma requiredEnum_Inr [simp]: "requiredEnum f v n = Inr x \<longleftrightarrow> f v = Some x"
  by (simp add: requiredEnum_def split: option.splits)

text \<open>What a successful conversion says about the row.\<close>

lemma deliveryRowToStored_fields:
  assumes "deliveryRowToStored row m = Inr d"
  shows "\<not> core_fields_invalid row"
    and "sourceDraftFromStorage (dr_source_draft_id row) (dr_source_draft_version row)
           = Inr (dl_draftId d, dl_draftVersion d)"
    and "read_kind (dr_kind row) = Some (dl_kind d)"
    and "read_status (dr_status row) = Some (dl_status d)"
    and "read_source (dr_source row) = Some (dl_source d)"
    and "dl_id d = dr_id row" and "dl_emailId d = dr_email_id row" and "dl_mailboxId d = m"
    and "dl_idempotencyKey d = dr_idempotency_key row"
    and "dl_commandFingerprint d = dr_command_fingerprint row"
    and "dl_createdAt d = stamp_value (dr_created_at row)"
    and "dl_undoUntil d = stamp_value (dr_undo_until row)"
    and "\<not> dl_storageIntegrityInvalid d"
  using assms
  by (auto simp: deliveryRowToStored_def bind_result_Inr Let_def split: if_splits)

lemma core_fields_valid_iff:
  "\<not> core_fields_invalid row \<longleftrightarrow>
     (\<forall>v \<in> {dr_created_at row, dr_updated_at row, dr_available_at row, dr_undo_until row}.
        isCanonicalUtcTimestamp (Some v)) \<and>
     (\<forall>v \<in> {dr_scheduled_for row, dr_next_attempt_at row, dr_lease_expires_at row,
        dr_duplicate_acceptance_at row, dr_sent_at row, dr_failed_at row, dr_unknown_at row,
        dr_cancelled_at row}. v = None \<or> isCanonicalUtcTimestamp v) \<and>
     int_at_least 0 (dr_attempt_count row) \<and> int_at_least 1 (dr_max_attempts row) \<and>
     int_at_least 0 (dr_preflight_deferral_count row) \<and>
     int_at_least 0 (dr_cancellation_recovery_attempt_count row) \<and>
     int_at_least 0 (dr_accepted_attempt_count row) \<and>
     (dr_retry_origin_status row = None \<or>
        Option.bind (dr_retry_origin_status row) read_origin \<noteq> None \<and>
        dr_status row \<in> {''queued'', ''retrying'', ''sending''}) \<and>
     (dr_status row = ''sent'' \<longrightarrow>
        (\<exists>m. dr_ses_message_id row = Some m \<and> js_trim m \<noteq> []) \<and>
        isCanonicalUtcTimestamp (dr_sent_at row))"
  unfolding core_fields_invalid_def Let_def
  by (cases "dr_retry_origin_status row"; cases "dr_ses_message_id row";
      cases "Option.bind (dr_retry_origin_status row) read_origin") (simp_all, argo+)

lemma status_text_sets:
  "status_text s \<in> {''queued'', ''retrying'', ''sending''} \<longleftrightarrow> s \<in> {Queued, Retrying, Sending}"
  "status_text s = ''sent'' \<longleftrightarrow> s = Sent"
  "status_text s = ''queued'' \<longleftrightarrow> s = Queued"
  "status_text s = ''retrying'' \<longleftrightarrow> s = Retrying"
  "status_text s = ''sending'' \<longleftrightarrow> s = Sending"
  "status_text s = ''cancelled'' \<longleftrightarrow> s = Cancelled"
  by (cases s; simp)+

lemma none_or_some: "v = None \<or> (\<exists>y. v = Some y)"
  by (cases v) auto

lemma text_columns [simp]:
  "Option.bind (map_option origin_text v) read_origin = v"
  "Option.bind (map_option phase_text p) read_phase = p"
  "phase_integrity (map_option phase_text p) = None"
  by (cases v; cases p; simp add: phase_integrity_def read_origin_text read_phase_text)+

lemma stored_actor_roundtrip: "ac_id a \<noteq> Some [] \<Longrightarrow> stored_actor (ac_kind a) (ac_id a) = a"
  by (cases a; cases "ac_id a") (auto simp: stored_actor_def)

lemma core_fields_write:
  assumes "\<not> core_fields_invalid row" and "valid_delivery d"
  shows "\<not> core_fields_invalid (write_delivery d row)"
  using assms
  unfolding core_fields_valid_iff write_delivery_cols status_text_sets valid_delivery_def
  by (cases "dl_retryOriginStatus d") (simp_all add: none_or_some read_origin_text)

lemma convert_write:
  assumes "deliveryRowToStored row m = Inr d0" and "same_identity d0 d" and "valid_delivery d"
  shows "deliveryRowToStored (write_delivery d row) m
           = Inr (d\<lparr>dl_cancelRecoveryPending := None, dl_recoveryIntegrityCode := None\<rparr>)"
proof -
  note row = deliveryRowToStored_fields [OF assms(1)]
  have core: "\<not> core_fields_invalid (write_delivery d row)"
    using row(1) assms(3) by (rule core_fields_write)
  have enums: "requiredEnum read_kind (dr_kind row) n = Inr (dl_kind d)"
    "requiredEnum read_source (dr_source row) n = Inr (dl_source d)"
    "requiredEnum read_status (status_text s) n = Inr s"
    "requiredEnum read_actor_kind (actor_kind_text k) n = Inr k" for n s k
    using row(3,5) assms(2) by (simp_all add: same_identity_def read_status_text read_actor_kind_text)
  have draft: "sourceDraftFromStorage (dr_source_draft_id row) (dr_source_draft_version row)
      = Inr (dl_draftId d, dl_draftVersion d)"
    using row(2) assms(2) by (simp add: same_identity_def)
  have actor: "stored_actor (ac_kind (dl_actor d)) (ac_id (dl_actor d)) = dl_actor d"
    using assms(3) by (intro stored_actor_roundtrip) (simp add: valid_delivery_def)
  have same: "dr_id row = dl_id d" "dr_email_id row = dl_emailId d" "m = dl_mailboxId d"
    "dr_idempotency_key row = dl_idempotencyKey d"
    "dr_command_fingerprint row = dl_commandFingerprint d"
    "stamp_value (dr_created_at row) = dl_createdAt d"
    "stamp_value (dr_undo_until row) = dl_undoUntil d" "\<not> dl_storageIntegrityInvalid d"
    using row(6-12) assms(2,3) by (simp_all add: same_identity_def valid_delivery_def)
  show ?thesis
    using core
    by (simp add: deliveryRowToStored_def Let_def enums draft actor same)
qed

subsection \<open>Looking up after an update\<close>

lemma hydrate_integral:
  assumes "hydrateDelivery db row = d" and "\<not> dl_storageIntegrityInvalid d"
  obtains m d1 where "row_mailbox db row = Some m" and "deliveryRowToStored row m = Inr d1"
    and "d = with_cancel_recovery (email_folder db (dr_email_id row)) d1"
  using assms
  by (auto simp: hydrateDelivery_def Let_def unreadable_delivery_def email_folder_def
      split: option.splits sum.splits)

lemma hydrate_write:
  assumes "hydrateDelivery db row = d0" and "\<not> dl_storageIntegrityInvalid d0"
    and "same_identity d0 d" and "valid_delivery d"
  shows "hydrateDelivery db (write_delivery d row) = reloaded db d"
proof -
  from assms(1,2) obtain m d1 where m: "row_mailbox db row = Some m"
    and d1: "deliveryRowToStored row m = Inr d1"
    and d0: "d0 = with_cancel_recovery (email_folder db (dr_email_id row)) d1"
    by (rule hydrate_integral)
  have "same_identity d1 d" using assms(3) by (simp add: d0)
  from convert_write [OF d1 this assms(4)]
  have conv: "deliveryRowToStored (write_delivery d row) m
      = Inr (d\<lparr>dl_cancelRecoveryPending := None, dl_recoveryIntegrityCode := None\<rparr>)" .
  moreover have "dr_email_id row = dl_emailId d"
    using deliveryRowToStored_fields(7) [OF d1] \<open>same_identity d1 d\<close> by (simp add: same_identity_def)
  ultimately show ?thesis
    by (simp add: hydrateDelivery_def Let_def m reloaded_def email_folder_def)
qed

text \<open>Only the stored messages matter to hydration.\<close>

lemma find_email_row_emails: "find_email_row db = (\<lambda>i. find (\<lambda>e. em_id e = i) (db_emails db))"
  by (simp add: fun_eq_iff find_email_row_def)

lemma hydrate_db:
  assumes "db_emails db' = db_emails db"
  shows "row_mailbox db' row = row_mailbox db row" and "hydrateDelivery db' row = hydrateDelivery db row"
    and "reloaded db' d = reloaded db d" and "tx_getSnapshot db' i = tx_getSnapshot db i"
proof -
  have find: "find_email_row db' = find_email_row db"
    unfolding find_email_row_emails assms ..
  then have snap: "tx_getSnapshot db' j = tx_getSnapshot db j" for j by (simp add: tx_getSnapshot_def)
  then show "tx_getSnapshot db' i = tx_getSnapshot db i" .
  show box: "row_mailbox db' row = row_mailbox db row" unfolding row_mailbox_def snap find ..
  show "hydrateDelivery db' row = hydrateDelivery db row" unfolding hydrateDelivery_def box find ..
  show "reloaded db' d = reloaded db d" unfolding reloaded_def email_folder_def find ..
qed

lemma tx_updateDelivery_simps [simp]:
  "db_emails (tx_updateDelivery db d) = db_emails db"
  "db_attempts (tx_updateDelivery db d) = db_attempts db"
  "db_attachments (tx_updateDelivery db d) = db_attachments db"
  "db_recovery (tx_updateDelivery db d) = db_recovery db"
  "map dr_id (db_deliveries (tx_updateDelivery db d)) = map dr_id (db_deliveries db)"
  by (simp_all add: tx_updateDelivery_def keys_update_where)

lemma tx_updateAttempt_simps [simp]:
  "db_emails (tx_updateAttempt db a) = db_emails db"
  "db_deliveries (tx_updateAttempt db a) = db_deliveries db"
  "db_attachments (tx_updateAttempt db a) = db_attachments db"
  "db_recovery (tx_updateAttempt db a) = db_recovery db"
  by (simp_all add: tx_updateAttempt_def)

lemma hydrate_update [simp]:
  "hydrateDelivery (tx_updateDelivery db d) = hydrateDelivery db"
  "hydrateDelivery (tx_updateAttempt db a) = hydrateDelivery db"
  "reloaded (tx_updateDelivery db d) = reloaded db"
  "reloaded (tx_updateAttempt db a) = reloaded db"
  "tx_getSnapshot (tx_updateDelivery db d) = tx_getSnapshot db"
  "tx_getSnapshot (tx_updateAttempt db a) = tx_getSnapshot db"
  by (rule ext, rule hydrate_db, simp)+

lemma find_delivery_row_id: "find_delivery_row db i = Some r \<Longrightarrow> dr_id r = i \<and> r \<in> set (db_deliveries db)"
  unfolding find_delivery_row_def by (rule find_key_Some)

lemma find_delivery_row_update:
  "find_delivery_row (tx_updateDelivery db d) i =
     (if i = dl_id d then map_option (write_delivery d) (find_delivery_row db i)
      else find_delivery_row db i)"
proof -
  have "find_delivery_row (tx_updateDelivery db d) i =
      map_option (\<lambda>r. if dr_id r = dl_id d then write_delivery d r else r) (find_delivery_row db i)"
    by (simp add: find_delivery_row_def tx_updateDelivery_def find_update_where)
  then show ?thesis
    by (cases "find_delivery_row db i") (auto dest: find_delivery_row_id)
qed

lemma tx_getDelivery_update_same:
  assumes "tx_getDelivery db (dl_id d) = Some d0" and "\<not> dl_storageIntegrityInvalid d0"
    and "same_identity d0 d" and "valid_delivery d"
  shows "tx_getDelivery (tx_updateDelivery db d) (dl_id d) = Some (reloaded db d)"
proof -
  from assms(1) obtain row where row: "find_delivery_row db (dl_id d) = Some row"
    and d0: "hydrateDelivery db row = d0"
    by (auto simp: tx_getDelivery_def)
  then show ?thesis
    using find_delivery_row_id [OF row] hydrate_write [OF d0 assms(2-4)]
    by (simp add: tx_getDelivery_def find_delivery_row_update)
qed

lemma tx_getDelivery_update_other [simp]:
  "i \<noteq> dl_id d \<Longrightarrow> tx_getDelivery (tx_updateDelivery db d) i = tx_getDelivery db i"
  by (simp add: tx_getDelivery_def find_delivery_row_update)

lemma tx_getDelivery_updateAttempt [simp]: "tx_getDelivery (tx_updateAttempt db a) i = tx_getDelivery db i"
  by (simp add: tx_getDelivery_def find_delivery_row_def)

lemma hydrate_id [simp]: "dl_id (hydrateDelivery db row) = dr_id row"
proof -
  have "deliveryRowToStored row m = Inr d \<Longrightarrow> dl_id d = dr_id row" for m d
    by (rule deliveryRowToStored_fields(6))
  then show ?thesis
    by (auto simp: hydrateDelivery_def Let_def unreadable_delivery_def split: option.splits sum.splits)
qed

lemma tx_getDelivery_id: "tx_getDelivery db i = Some d \<Longrightarrow> dl_id d = i"
  by (auto simp: tx_getDelivery_def dest: find_delivery_row_id)

subsection \<open>What a read delivery satisfies\<close>

lemma sourceDraftFromStorage_valid:
  "sourceDraftFromStorage i v = Inr (i', v') \<Longrightarrow> valid_draft_reference i' v'"
  by (cases i; cases v; cases "the v")
    (auto simp: sourceDraftFromStorage_def valid_draft_reference_def split: if_splits)

lemma read_status_inverse: "read_status t = Some s \<longleftrightarrow> t = status_text s"
proof
  assume "read_status t = Some s"
  then show "t = status_text s" unfolding read_status_def by (drule_tac find_key_Some) simp
qed (simp add: read_status_text)

text \<open>Every delivery the adapter hands out without an integrity mark is valid.\<close>

lemma deliveryRowToStored_valid:
  assumes "deliveryRowToStored row m = Inr d"
  shows "valid_delivery d"
proof -
  note row = deliveryRowToStored_fields [OF assms]
  have counts: "dl_attemptCount d = int_value (dr_attempt_count row)"
    "dl_maxAttempts d = int_value (dr_max_attempts row)"
    "dl_preflightDeferralCount d = int_value (dr_preflight_deferral_count row)"
    "dl_cancellationRecoveryAttemptCount d = int_value (dr_cancellation_recovery_attempt_count row)"
    "dl_acceptedAttemptCount d = int_value (dr_accepted_attempt_count row)"
    "dl_retryOriginStatus d = Option.bind (dr_retry_origin_status row) read_origin"
    "dl_sesMessageId d = dr_ses_message_id row"
    "dl_sentAt d = optional_stamp (dr_sent_at row)"
    using assms by (auto simp: deliveryRowToStored_def bind_result_Inr Let_def split: if_splits)
  have actor: "ac_id (dl_actor d) \<noteq> Some []"
    using assms
    by (auto simp: deliveryRowToStored_def bind_result_Inr Let_def stored_actor_def split: if_splits)
  have val: "int_at_least k n \<Longrightarrow> k \<le> int_value n" for k n
    by (cases n) simp_all
  have status: "dr_status row = status_text (dl_status d)"
    using row(4) by (simp add: read_status_inverse)
  have sent: "isCanonicalUtcTimestamp v \<Longrightarrow> optional_stamp v \<noteq> None" for v
    by (cases v; cases "the v") (auto simp: isCanonicalUtcTimestamp_def optional_stamp_def)
  note core = row(1) [unfolded core_fields_valid_iff status status_text_sets]
  have "dl_retryOriginStatus d \<noteq> None \<longrightarrow> dl_status d \<in> {Queued, Retrying, Sending}"
    unfolding counts using core by (cases "dr_retry_origin_status row") simp_all
  moreover have "dl_status d = Sent \<longrightarrow>
      (\<exists>m. dl_sesMessageId d = Some m \<and> js_trim m \<noteq> []) \<and> dl_sentAt d \<noteq> None"
    unfolding counts using core sent by blast
  moreover have "0 \<le> dl_attemptCount d" and "1 \<le> dl_maxAttempts d"
    and "0 \<le> dl_preflightDeferralCount d" and "0 \<le> dl_cancellationRecoveryAttemptCount d"
    and "0 \<le> dl_acceptedAttemptCount d"
    unfolding counts using core by (blast intro: val)+
  ultimately show ?thesis
    using sourceDraftFromStorage_valid [OF row(2)] actor row(13) by (simp add: valid_delivery_def)
qed

lemma hydrate_valid: "\<not> dl_storageIntegrityInvalid (hydrateDelivery db row) \<Longrightarrow> valid_delivery (hydrateDelivery db row)"
  by (erule hydrate_integral [OF refl])
    (auto dest!: deliveryRowToStored_valid simp: valid_delivery_def with_cancel_recovery_def)

lemma tx_getDelivery_valid:
  "tx_getDelivery db i = Some d \<Longrightarrow> \<not> dl_storageIntegrityInvalid d \<Longrightarrow> valid_delivery d"
  by (auto simp: tx_getDelivery_def hydrate_valid)

end
