(* ===== verification/Outbound_Service.thy ===== *)
theory Outbound_Service
  imports Outbound_Store_Laws
begin

text \<open>
  \<^verbatim>\<open>TruthfulOutboxService\<close> of \<^verbatim>\<open>workers/lib/outbound-delivery-service.ts\<close>, every command as one
  transaction over the storage adapter. A command that throws leaves the store as it was, so its
  result is an error or a value together with the new store. Identifiers the service asks its
  \<^verbatim>\<open>createId\<close> option for are arguments, and so are the callbacks a caller may pass; a callback may
  throw, which undoes the command.
\<close>

type_synonym 'a tx_result = "outbox_error + ('a \<times> outbox_db)"

record enqueued_delivery =
  eq_delivery :: stored_delivery
  eq_snapshot :: message_snapshot
  eq_replayed :: bool
  eq_outcome :: enqueue_outcome

record claimed_preflight =
  cl_delivery :: stored_delivery
  cl_snapshot :: message_snapshot

record claimed_delivery =
  cd_delivery :: stored_delivery
  cd_attempt :: delivery_attempt
  cd_snapshot :: message_snapshot

record finalized_attempt =
  fa_delivery :: stored_delivery
  fa_attempt :: delivery_attempt
  fa_sourceDraftAction :: draft_action

record mutation_result =
  mu_delivery :: stored_delivery
  mu_actor :: delivery_actor
  mu_sourceDraftAction :: draft_action
  mu_retryCancellationRestored :: bool

record preflight_result =
  pr_delivery :: stored_delivery
  pr_sourceDraftAction :: draft_action

record retryable_details =
  rd_at :: instant
  rd_retryAt :: instant
  rd_code :: string
  rd_message :: "string option"
  rd_httpStatus :: "js_number option"

record failure_details =
  fd_at :: instant
  fd_code :: string
  fd_message :: "string option"
  fd_httpStatus :: "js_number option"

datatype recovered_lease =
  Recovered_preflight stored_delivery
| Recovered_provider stored_delivery "delivery_attempt option"

definition defaultMaxAttempts :: int where "defaultMaxAttempts = 4"

definition MAX_PREFLIGHT_INTEGRITY_FAILURES_PER_CLAIM :: nat where
  "MAX_PREFLIGHT_INTEGRITY_FAILURES_PER_CLAIM = 25"

subsection \<open>Enqueueing\<close>

definition replay_existing ::
  "enqueue_command \<Rightarrow> outbox_db \<Rightarrow> stored_delivery \<Rightarrow> outbox_error + enqueued_delivery" where
  "replay_existing command db existing =
     bind_result (assertReplayFingerprint existing command) (\<lambda>_.
       case tx_getSnapshot db (dl_emailId existing) of
         None \<Rightarrow> Inl (PlainError (''Missing outbox snapshot for '' @ dl_id existing))
       | Some snapshot \<Rightarrow>
           Inr \<lparr>eq_delivery = existing, eq_snapshot = snapshot, eq_replayed = True,
                eq_outcome = outboundEnqueueOutcome (dl_status existing) True\<rparr>)"

definition new_delivery ::
  "string \<Rightarrow> string \<Rightarrow> string option \<times> int option \<Rightarrow> enqueue_command \<Rightarrow> stored_delivery" where
  "new_delivery deliveryId emailId sourceDraft command =
     \<lparr>dl_id = deliveryId, dl_emailId = emailId,
      dl_draftId = fst sourceDraft, dl_draftVersion = snd sourceDraft,
      dl_mailboxId = sn_mailboxId (cm_snapshot command), dl_kind = sn_kind (cm_snapshot command),
      dl_status = Queued, dl_idempotencyKey = cm_idempotencyKey command,
      dl_commandFingerprint = Some (cm_commandFingerprint command),
      dl_source = cm_source command, dl_actor = cm_actor command,
      dl_createdAt = cm_requestedAt command, dl_updatedAt = cm_requestedAt command,
      dl_availableAt = computeAvailableAt (cm_undoUntil command) (cm_scheduledFor command),
      dl_undoUntil = cm_undoUntil command, dl_scheduledFor = cm_scheduledFor command,
      dl_nextAttemptAt = None, dl_attemptCount = 0, dl_maxAttempts = defaultMaxAttempts,
      dl_preflightDeferralCount = 0, dl_cancellationRecoveryAttemptCount = 0,
      dl_retryOriginStatus = None, dl_dispatchPhase = None, dl_activeAttemptId = None,
      dl_acceptedAttemptCount = 0, dl_duplicateAcceptanceAt = None, dl_leaseToken = None,
      dl_leaseExpiresAt = None, dl_sesMessageId = None, dl_lastErrorCode = None,
      dl_lastErrorMessage = None, dl_sentAt = None, dl_failedAt = None, dl_unknownAt = None,
      dl_cancelledAt = None, dl_cancelRecoveryPending = None, dl_recoveryIntegrityCode = None,
      dl_storageIntegrityInvalid = False\<rparr>"

definition check_source_draft :: "outbox_db \<Rightarrow> string option \<times> int option \<Rightarrow> outbox_error + unit" where
  "check_source_draft db sourceDraft =
     (case sourceDraft of
        (Some i, Some v) \<Rightarrow>
          (case tx_assertSourceDraftVersion db i v of
             Draft_valid \<Rightarrow> Inr ()
           | Draft_invalid reason \<Rightarrow> Inl (SourceDraftConflict i reason))
      | _ \<Rightarrow> Inr ())"

definition delivery_of_draft :: "outbox_db \<Rightarrow> string option \<times> int option \<Rightarrow> stored_delivery option" where
  "delivery_of_draft db sourceDraft =
     (case sourceDraft of
        (Some i, Some v) \<Rightarrow> tx_findDeliveryBySourceDraft db i v
      | _ \<Rightarrow> None)"

definition enqueue_fresh ::
  "string \<Rightarrow> string \<Rightarrow> pending_attachment list \<Rightarrow> enqueue_command \<Rightarrow>
     string option \<times> int option \<Rightarrow> outbox_db \<Rightarrow> enqueued_delivery tx_result" where
  "enqueue_fresh deliveryId emailId pending command sourceDraft db =
     bind_result (check_source_draft db sourceDraft) (\<lambda>_.
     bind_result (tx_insertSnapshot db emailId (cm_snapshot command) pending) (\<lambda>db1.
     (let delivery = new_delivery deliveryId emailId sourceDraft command in
      bind_result (tx_insertDelivery db1 delivery) (\<lambda>db2.
        Inr (\<lparr>eq_delivery = delivery, eq_snapshot = cm_snapshot command, eq_replayed = False,
              eq_outcome = Enqueued\<rparr>, db2)))))"

definition enqueue ::
  "(enqueued_delivery \<Rightarrow> outbox_error + unit) \<Rightarrow> string \<Rightarrow> string \<Rightarrow> pending_attachment list \<Rightarrow>
     enqueue_command \<Rightarrow> outbox_db \<Rightarrow> enqueued_delivery tx_result" where
  "enqueue onCommitted deliveryId emailId pending command db =
     bind_result (assertOutboundCommandFingerprint (cm_commandFingerprint command)) (\<lambda>_.
     bind_result
       (case tx_findDeliveryByIdempotencyKey db (cm_idempotencyKey command) of
          Some existing \<Rightarrow> bind_result (replay_existing command db existing) (\<lambda>r. Inr (r, db))
        | None \<Rightarrow>
            bind_result (validateSourceDraftReference (cm_snapshot command)) (\<lambda>sourceDraft.
              case delivery_of_draft db sourceDraft of
                Some sameDraft \<Rightarrow> bind_result (replay_existing command db sameDraft) (\<lambda>r. Inr (r, db))
              | None \<Rightarrow> enqueue_fresh deliveryId emailId pending command sourceDraft db))
       (\<lambda>(result, db'). bind_result (onCommitted result) (\<lambda>_. Inr (result, db'))))"

subsection \<open>Reading and reconciliation\<close>

definition service_list :: "outbox_db \<Rightarrow> stored_delivery list" where
  "service_list = tx_listDeliveries"

definition service_get :: "outbox_db \<Rightarrow> string \<Rightarrow> stored_delivery option" where
  "service_get = tx_getDelivery"

definition getByIdempotencyKey :: "outbox_db \<Rightarrow> string \<Rightarrow> stored_delivery option" where
  "getByIdempotencyKey = tx_findDeliveryByIdempotencyKey"

definition getBySourceDraft :: "outbox_db \<Rightarrow> string \<Rightarrow> int \<Rightarrow> stored_delivery option" where
  "getBySourceDraft = tx_findDeliveryBySourceDraft"

definition getBySesMessageId :: "outbox_db \<Rightarrow> string \<Rightarrow> stored_delivery option" where
  "getBySesMessageId = tx_findDeliveryBySesMessageId"

definition listByStatuses :: "outbox_db \<Rightarrow> delivery_status list \<Rightarrow> stored_delivery list" where
  "listByStatuses = tx_listDeliveriesByStatuses"

definition listUnreconciledAccepted ::
  "instant \<Rightarrow> int \<Rightarrow> outbox_db \<Rightarrow> stored_delivery list \<times> outbox_db" where
  "listUnreconciledAccepted now limit db = tx_listUnreconciledAccepted db now limit"

definition listPendingCancellationRecovery ::
  "instant \<Rightarrow> int \<Rightarrow> outbox_db \<Rightarrow> stored_delivery list" where
  "listPendingCancellationRecovery now limit db = tx_listPendingCancellationRecovery db now limit"

definition deferAcceptedReconciliation ::
  "string \<Rightarrow> instant \<Rightarrow> string \<Rightarrow> string \<Rightarrow> outbox_db \<Rightarrow> outbox_db" where
  "deferAcceptedReconciliation deliveryId retryAt code message db =
     tx_deferAcceptedReconciliation db deliveryId retryAt code message"

definition completeAcceptedReconciliation :: "string \<Rightarrow> outbox_db \<Rightarrow> outbox_db" where
  "completeAcceptedReconciliation deliveryId db = tx_completeAcceptedReconciliation db deliveryId"

definition nextActionAt :: "outbox_db \<Rightarrow> stamp option" where
  "nextActionAt = tx_findNextActionAt"

subsection \<open>Leases\<close>

definition clear_lease :: "stored_delivery \<Rightarrow> stored_delivery" where
  "clear_lease d = d\<lparr>dl_dispatchPhase := None, dl_activeAttemptId := None,
                    dl_leaseToken := None, dl_leaseExpiresAt := None\<rparr>"

definition hasUnsafeProviderAttempt :: "outbox_db \<Rightarrow> string \<Rightarrow> string \<Rightarrow> bool" where
  "hasUnsafeProviderAttempt db deliveryId leaseToken \<longleftrightarrow>
     list_ex (\<lambda>a. at_storageIntegrityInvalid a \<or> at_leaseToken a = leaseToken \<or>
                  at_status a = Att_sending \<or> at_status a = Att_accepted)
       (tx_listAttemptsByDelivery db deliveryId)"

definition requirePreflightLease ::
  "outbox_db \<Rightarrow> string \<Rightarrow> string \<Rightarrow> outbox_error + stored_delivery" where
  "requirePreflightLease db deliveryId leaseToken =
     (case tx_getDelivery db deliveryId of
        None \<Rightarrow> Inl (DeliveryLease deliveryId)
      | Some d \<Rightarrow>
          if dl_status d \<noteq> Sending \<or> dl_dispatchPhase d \<noteq> Some Preflight \<or>
             dl_leaseToken d \<noteq> Some leaseToken \<or> dl_activeAttemptId d \<noteq> None
          then Inl (DeliveryLease deliveryId) else Inr d)"

definition requireLease ::
  "outbox_db \<Rightarrow> string \<Rightarrow> string \<Rightarrow> outbox_error + (stored_delivery \<times> delivery_attempt)" where
  "requireLease db deliveryId leaseToken =
     (case tx_getDelivery db deliveryId of
        None \<Rightarrow> Inl (DeliveryLease deliveryId)
      | Some d \<Rightarrow>
          if dl_status d \<noteq> Sending \<or> dl_leaseToken d \<noteq> Some leaseToken \<or>
             dl_dispatchPhase d \<noteq> Some Provider \<or> dl_activeAttemptId d = None
          then Inl (DeliveryLease deliveryId)
          else (case filter (\<lambda>a. \<not> at_storageIntegrityInvalid a \<and> at_leaseToken a = leaseToken \<and>
                              at_status a = Att_sending)
                       (tx_listAttemptsByDelivery db deliveryId) of
                  [attempt] \<Rightarrow>
                    if dl_activeAttemptId d \<noteq> Some (at_id attempt) then Inl (DeliveryLease deliveryId)
                    else Inr (d, attempt)
                | _ \<Rightarrow> Inl (DeliveryLease deliveryId)))"

definition require_delivery :: "outbox_db \<Rightarrow> string \<Rightarrow> outbox_error + stored_delivery" where
  "require_delivery db deliveryId =
     (case tx_getDelivery db deliveryId of
        None \<Rightarrow> Inl (OutboundDeliveryNotFound deliveryId)
      | Some d \<Rightarrow> bind_result (assertDeliveryStorageIntegrity d) (\<lambda>_. Inr d))"

subsection \<open>Cancelling\<close>

text \<open>What a delivery was before a retry was started on it.\<close>

primrec origin_status :: "retry_origin \<Rightarrow> delivery_status" where
  "origin_status Origin_failed = Failed"
| "origin_status Origin_unknown = Unknown"

definition or_else :: "'a option \<Rightarrow> 'a \<Rightarrow> 'a option" where
  "or_else v x = (case v of None \<Rightarrow> Some x | Some y \<Rightarrow> Some y)"

definition restored_delivery ::
  "delivery_actor \<Rightarrow> instant \<Rightarrow> retry_origin \<Rightarrow> stored_delivery \<Rightarrow> stored_delivery" where
  "restored_delivery actor at origin d = (clear_lease d)
     \<lparr>dl_actor := actor, dl_status := origin_status origin, dl_retryOriginStatus := None,
      dl_nextAttemptAt := None,
      dl_failedAt := (if origin = Origin_failed then or_else (dl_failedAt d) at else None),
      dl_unknownAt := (if origin = Origin_unknown then or_else (dl_unknownAt d) at else None),
      dl_cancelledAt := None,
      dl_lastErrorCode := Some (''outbound_retry_cancelled_restored_'' @ origin_text origin),
      dl_lastErrorMessage := Some
        (if origin = Origin_unknown
         then ''The retry was cancelled. The prior provider outcome remains unknown.''
         else ''The retry was cancelled. The prior failed outcome remains authoritative.''),
      dl_updatedAt := at\<rparr>"

definition cancelled_delivery ::
  "delivery_actor \<Rightarrow> instant \<Rightarrow> delivery_status \<Rightarrow> stored_delivery \<Rightarrow> stored_delivery" where
  "cancelled_delivery actor at status d = d
     \<lparr>dl_actor := actor, dl_status := status, dl_nextAttemptAt := Some at,
      dl_cancellationRecoveryAttemptCount := 0, dl_cancelledAt := Some at, dl_updatedAt := at\<rparr>"

datatype cancel_outcome = Delivery_cancelled | Retry_restored

definition cancel ::
  "(stored_delivery \<Rightarrow> cancel_outcome \<Rightarrow> outbox_error + unit) \<Rightarrow> string \<Rightarrow> delivery_actor \<Rightarrow> instant \<Rightarrow> outbox_db \<Rightarrow>
     mutation_result tx_result" where
  "cancel onCommitted deliveryId actor at db =
     bind_result (require_delivery db deliveryId) (\<lambda>d.
       if \<not> canCancelDelivery (dl_status d)
       then Inl (InvalidDeliveryTransition (dl_status d) Cancel)
       else case dl_retryOriginStatus d of
         Some origin \<Rightarrow>
           (let restored = restored_delivery actor at origin d in
            bind_result (onCommitted restored Retry_restored) (\<lambda>_.
            Inr (\<lparr>mu_delivery = restored, mu_actor = actor,
                  mu_sourceDraftAction = sourceDraftAction restored Draft_retain,
                  mu_retryCancellationRestored = True\<rparr>, tx_updateDelivery db restored)))
       | None \<Rightarrow>
           bind_result (transitionDelivery (dl_status d) Cancel) (\<lambda>status.
           (let cancelled = cancelled_delivery actor at status d in
            bind_result (onCommitted cancelled Delivery_cancelled) (\<lambda>_.
            Inr (\<lparr>mu_delivery = cancelled, mu_actor = actor,
                  mu_sourceDraftAction = sourceDraftAction cancelled Draft_retain,
                  mu_retryCancellationRestored = False\<rparr>, tx_updateDelivery db cancelled)))))"

subsection \<open>Claiming the next delivery\<close>

text \<open>The outcome when a delivery cannot go on: a retry of an unknown outcome stays unknown.\<close>

definition snapshot_missing_failure :: "instant \<Rightarrow> stored_delivery \<Rightarrow> stored_delivery" where
  "snapshot_missing_failure now d =
     (let unknown = (dl_retryOriginStatus d = Some Origin_unknown) in
      (clear_lease d)
        \<lparr>dl_status := (if unknown then Unknown else Failed), dl_retryOriginStatus := None,
         dl_nextAttemptAt := None,
         dl_failedAt := (if unknown then None else Some now),
         dl_unknownAt := (if unknown then or_else (dl_unknownAt d) now else None),
         dl_lastErrorCode := Some (if unknown then ''outbound_retry_failed_original_unknown''
                                   else ''outbound_snapshot_invalid''),
         dl_lastErrorMessage := Some
           (if unknown
            then ''The retry could not run, but an earlier provider outcome remains unknown.''
            else ''The immutable outbound snapshot is unavailable or invalid.''),
         dl_updatedAt := now\<rparr>)"

definition ready_status :: "delivery_status \<Rightarrow> outbox_error + delivery_status" where
  "ready_status s = (if s = Retrying then transitionDelivery s Retry_ready else Inr s)"

definition claimed_delivery_of ::
  "delivery_status \<Rightarrow> string \<Rightarrow> instant \<Rightarrow> instant \<Rightarrow> stored_delivery \<Rightarrow> stored_delivery" where
  "claimed_delivery_of status leaseToken leaseExpiresAt now d = d
     \<lparr>dl_status := status, dl_dispatchPhase := Some Preflight, dl_activeAttemptId := None,
      dl_nextAttemptAt := None, dl_leaseToken := Some leaseToken,
      dl_leaseExpiresAt := Some leaseExpiresAt, dl_updatedAt := now\<rparr>"

definition lease_delivery ::
  "string \<Rightarrow> instant \<Rightarrow> int \<Rightarrow> stored_delivery \<Rightarrow> message_snapshot \<Rightarrow> outbox_db \<Rightarrow>
     claimed_preflight option tx_result" where
  "lease_delivery leaseToken now leaseDurationMs d snapshot db =
     bind_result (ready_status (dl_status d)) (\<lambda>readyStatus.
     bind_result (transitionDelivery readyStatus Start_sending) (\<lambda>status.
     (let claimed = claimed_delivery_of status leaseToken (now + leaseDurationMs) now d in
      Inr (Some \<lparr>cl_delivery = claimed, cl_snapshot = snapshot\<rparr>, tx_updateDelivery db claimed))))"

primrec claim_loop ::
  "nat \<Rightarrow> string \<Rightarrow> instant \<Rightarrow> int \<Rightarrow> outbox_db \<Rightarrow> claimed_preflight option tx_result" where
  "claim_loop 0 leaseToken now leaseDurationMs db = Inr (None, db)"
| "claim_loop (Suc n) leaseToken now leaseDurationMs db =
     (case tx_findNextDispatchableCandidate db now of
        None \<Rightarrow> Inr (None, db)
      | Some (Cand_integrity_failure i status outcome) \<Rightarrow>
          bind_result (tx_failDispatchableIntegrity db i status outcome now) (\<lambda>db'.
            claim_loop n leaseToken now leaseDurationMs db')
      | Some (Cand_ready d) \<Rightarrow>
          (case tx_getSnapshot db (dl_emailId d) of
            None \<Rightarrow> claim_loop n leaseToken now leaseDurationMs
                      (tx_updateDelivery db (snapshot_missing_failure now d))
          | Some snapshot \<Rightarrow> lease_delivery leaseToken now leaseDurationMs d snapshot db))"

definition claimNextForPreflight ::
  "string \<Rightarrow> instant \<Rightarrow> int \<Rightarrow> outbox_db \<Rightarrow> claimed_preflight option tx_result" where
  "claimNextForPreflight leaseToken now leaseDurationMs db =
     claim_loop MAX_PREFLIGHT_INTEGRITY_FAILURES_PER_CLAIM leaseToken now leaseDurationMs db"

subsection \<open>Preflight\<close>

definition deferred_delivery :: "retryable_details \<Rightarrow> delivery_status \<Rightarrow> stored_delivery \<Rightarrow> stored_delivery" where
  "deferred_delivery details status d = (clear_lease d)
     \<lparr>dl_status := status, dl_nextAttemptAt := Some (rd_retryAt details),
      dl_preflightDeferralCount := dl_preflightDeferralCount d + 1,
      dl_lastErrorCode := Some (rd_code details), dl_lastErrorMessage := rd_message details,
      dl_updatedAt := rd_at details\<rparr>"

definition deferPreflight ::
  "string \<Rightarrow> string \<Rightarrow> retryable_details \<Rightarrow> outbox_db \<Rightarrow> preflight_result tx_result" where
  "deferPreflight deliveryId leaseToken details db =
     bind_result (requirePreflightLease db deliveryId leaseToken) (\<lambda>d.
       if hasUnsafeProviderAttempt db deliveryId leaseToken then Inl (DeliveryLease deliveryId)
       else bind_result (transitionDelivery (dl_status d) Schedule_retry) (\<lambda>status.
         (let deferred = deferred_delivery details status d in
          Inr (\<lparr>pr_delivery = deferred,
                pr_sourceDraftAction = sourceDraftAction deferred Draft_retain\<rparr>,
               tx_updateDelivery db deferred))))"

definition failed_delivery ::
  "string \<Rightarrow> failure_details \<Rightarrow> stored_delivery \<Rightarrow> stored_delivery" where
  "failed_delivery unknownMessage details d =
     (let unknown = (dl_retryOriginStatus d = Some Origin_unknown) in
      (clear_lease d)
        \<lparr>dl_status := (if unknown then Unknown else Failed), dl_retryOriginStatus := None,
         dl_failedAt := (if unknown then None else Some (fd_at details)),
         dl_unknownAt := (if unknown then or_else (dl_unknownAt d) (fd_at details) else None),
         dl_lastErrorCode := Some (if unknown then ''outbound_retry_failed_original_unknown''
                                   else fd_code details),
         dl_lastErrorMessage := (if unknown then Some unknownMessage else fd_message details),
         dl_updatedAt := fd_at details\<rparr>)"

definition failPreflight ::
  "string \<Rightarrow> string \<Rightarrow> failure_details \<Rightarrow> outbox_db \<Rightarrow> preflight_result tx_result" where
  "failPreflight deliveryId leaseToken details db =
     bind_result (requirePreflightLease db deliveryId leaseToken) (\<lambda>d.
       if hasUnsafeProviderAttempt db deliveryId leaseToken then Inl (DeliveryLease deliveryId)
       else
         (let failed = failed_delivery
                ''The retry failed before provider acceptance, but an earlier provider outcome remains unknown.''
                details d
          in Inr (\<lparr>pr_delivery = failed,
                   pr_sourceDraftAction = sourceDraftAction failed Draft_retain\<rparr>,
                  tx_updateDelivery db failed)))"

subsection \<open>The provider attempt\<close>

definition new_attempt :: "string \<Rightarrow> string \<Rightarrow> string \<Rightarrow> instant \<Rightarrow> int \<Rightarrow> delivery_attempt" where
  "new_attempt attemptId deliveryId leaseToken at number =
     \<lparr>at_id = attemptId, at_deliveryId = deliveryId, at_attemptNumber = JInt number,
      at_status = Att_sending, at_leaseToken = leaseToken, at_startedAt = Canon at,
      at_finishedAt = None, at_sesMessageId = None, at_httpStatus = None, at_errorCode = None,
      at_errorMessage = None, at_providerState = Prov_none, at_providerEventAt = None,
      at_providerEventId = None, at_storageIntegrityInvalid = False\<rparr>"

definition dispatching_delivery ::
  "string \<Rightarrow> instant \<Rightarrow> int \<Rightarrow> stored_delivery \<Rightarrow> stored_delivery" where
  "dispatching_delivery attemptId at durationMs d = d
     \<lparr>dl_attemptCount := dl_attemptCount d + 1, dl_dispatchPhase := Some Provider,
      dl_activeAttemptId := Some attemptId, dl_leaseExpiresAt := Some (at + durationMs),
      dl_updatedAt := at\<rparr>"

definition beginProviderAttempt ::
  "string \<Rightarrow> string \<Rightarrow> string \<Rightarrow> instant \<Rightarrow> int \<Rightarrow> outbox_db \<Rightarrow> claimed_delivery tx_result" where
  "beginProviderAttempt deliveryId leaseToken attemptId at providerLeaseDurationMs db =
     bind_result (requirePreflightLease db deliveryId leaseToken) (\<lambda>d.
       if hasUnsafeProviderAttempt db deliveryId leaseToken then Inl (DeliveryLease deliveryId)
       else if (case dl_leaseExpiresAt d of None \<Rightarrow> True | Some expires \<Rightarrow> at \<ge> expires) \<or>
               js_trim attemptId = [] \<or> providerLeaseDurationMs \<le> 0
       then Inl (DeliveryLease deliveryId)
       else case tx_getSnapshot db (dl_emailId d) of
         None \<Rightarrow> Inl (PlainError (''Missing outbox snapshot for '' @ dl_id d))
       | Some snapshot \<Rightarrow>
           (let attempt = new_attempt attemptId deliveryId leaseToken at (dl_attemptCount d + 1);
                dispatching = dispatching_delivery attemptId at providerLeaseDurationMs d
            in bind_result (tx_insertAttempt (tx_updateDelivery db dispatching) attempt) (\<lambda>db'.
                 Inr (\<lparr>cd_delivery = dispatching, cd_attempt = attempt, cd_snapshot = snapshot\<rparr>, db'))))"

definition retry_finalized_delivery ::
  "bool \<Rightarrow> delivery_status \<Rightarrow> retryable_details \<Rightarrow> stored_delivery \<Rightarrow> stored_delivery" where
  "retry_finalized_delivery exhausted status details d =
     (let unknown = (dl_retryOriginStatus d = Some Origin_unknown) in
      (clear_lease d)
        \<lparr>dl_status := status,
         dl_retryOriginStatus := (if exhausted then None else dl_retryOriginStatus d),
         dl_nextAttemptAt := (if exhausted then None else Some (rd_retryAt details)),
         dl_failedAt := (if exhausted \<and> \<not> unknown then Some (rd_at details) else dl_failedAt d),
         dl_unknownAt := (if exhausted \<and> \<not> unknown then None else dl_unknownAt d),
         dl_lastErrorCode := Some (if exhausted \<and> unknown then ''outbound_retry_failed_original_unknown''
                                   else rd_code details),
         dl_lastErrorMessage :=
           (if exhausted \<and> unknown
            then Some ''The retry was rejected, but an earlier provider outcome remains unknown.''
            else rd_message details),
         dl_updatedAt := rd_at details\<rparr>)"

definition finalizeRetryableFailure ::
  "string \<Rightarrow> string \<Rightarrow> retryable_details \<Rightarrow> outbox_db \<Rightarrow> finalized_attempt tx_result" where
  "finalizeRetryableFailure deliveryId leaseToken details db =
     bind_result (requireLease db deliveryId leaseToken) (\<lambda>(d, attempt).
       (let exhausted = (dl_attemptCount d \<ge> dl_maxAttempts d) in
        bind_result
          (if exhausted \<and> dl_retryOriginStatus d = Some Origin_unknown then Inr Unknown
           else transitionDelivery (dl_status d) (if exhausted then Exhaust_retries else Schedule_retry))
          (\<lambda>status.
            (let finalizedDelivery = retry_finalized_delivery exhausted status details d;
                 finalizedAttempt = attempt
                   \<lparr>at_status := Att_rejected_retryable, at_finishedAt := Some (Canon (rd_at details)),
                    at_httpStatus := rd_httpStatus details, at_errorCode := Some (rd_code details),
                    at_errorMessage := rd_message details\<rparr>
             in Inr (\<lparr>fa_delivery = finalizedDelivery, fa_attempt = finalizedAttempt,
                      fa_sourceDraftAction = sourceDraftAction finalizedDelivery Draft_retain\<rparr>,
                     tx_updateAttempt (tx_updateDelivery db finalizedDelivery) finalizedAttempt)))))"

definition finalizeDefinitiveFailure ::
  "string \<Rightarrow> string \<Rightarrow> failure_details \<Rightarrow> outbox_db \<Rightarrow> finalized_attempt tx_result" where
  "finalizeDefinitiveFailure deliveryId leaseToken details db =
     bind_result (requireLease db deliveryId leaseToken) (\<lambda>(d, attempt).
       (let failedDelivery = failed_delivery
              ''The retry was rejected, but an earlier provider outcome remains unknown.'' details d;
            failedAttempt = attempt
              \<lparr>at_status := Att_rejected_permanent, at_finishedAt := Some (Canon (fd_at details)),
               at_httpStatus := fd_httpStatus details, at_errorCode := Some (fd_code details),
               at_errorMessage := fd_message details\<rparr>
        in Inr (\<lparr>fa_delivery = failedDelivery, fa_attempt = failedAttempt,
                 fa_sourceDraftAction = sourceDraftAction failedDelivery Draft_retain\<rparr>,
                tx_updateAttempt (tx_updateDelivery db failedDelivery) failedAttempt)))"

definition unknown_delivery ::
  "delivery_status \<Rightarrow> instant \<Rightarrow> string \<Rightarrow> string option \<Rightarrow> stored_delivery \<Rightarrow> stored_delivery" where
  "unknown_delivery status at code message d = (clear_lease d)
     \<lparr>dl_status := status, dl_retryOriginStatus := None, dl_unknownAt := Some at,
      dl_failedAt := None, dl_lastErrorCode := Some code, dl_lastErrorMessage := message,
      dl_updatedAt := at\<rparr>"

text \<open>\<^verbatim>\<open>finalizeUnknown\<close> ignores the HTTP status its caller's details may carry.\<close>

definition finalizeUnknown ::
  "string \<Rightarrow> string \<Rightarrow> failure_details \<Rightarrow> outbox_db \<Rightarrow> finalized_attempt tx_result" where
  "finalizeUnknown deliveryId leaseToken details db =
     bind_result (requireLease db deliveryId leaseToken) (\<lambda>(d, attempt).
     bind_result (transitionDelivery (dl_status d) Ambiguous_outcome) (\<lambda>status.
       (let unknownDelivery =
              unknown_delivery status (fd_at details) (fd_code details) (fd_message details) d;
            unknownAttempt = attempt
              \<lparr>at_status := Att_unknown, at_finishedAt := Some (Canon (fd_at details)),
               at_errorCode := Some (fd_code details), at_errorMessage := fd_message details\<rparr>
        in Inr (\<lparr>fa_delivery = unknownDelivery, fa_attempt = unknownAttempt,
                 fa_sourceDraftAction = sourceDraftAction unknownDelivery Draft_retain\<rparr>,
                tx_updateAttempt (tx_updateDelivery db unknownDelivery) unknownAttempt))))"

definition sent_delivery :: "delivery_status \<Rightarrow> string \<Rightarrow> instant \<Rightarrow> stored_delivery \<Rightarrow> stored_delivery" where
  "sent_delivery status sesMessageId at d = (clear_lease d)
     \<lparr>dl_status := status, dl_retryOriginStatus := None, dl_sesMessageId := Some sesMessageId,
      dl_sentAt := Some at, dl_failedAt := None, dl_unknownAt := None, dl_lastErrorCode := None,
      dl_lastErrorMessage := None, dl_updatedAt := at\<rparr>"

definition finalizeAccepted ::
  "string \<Rightarrow> string \<Rightarrow> string \<Rightarrow> instant \<Rightarrow> outbox_db \<Rightarrow> finalized_attempt tx_result" where
  "finalizeAccepted deliveryId leaseToken sesMessageId at db =
     (if js_trim sesMessageId = [] then Inl (PlainError ''SES acceptance requires a MessageId'')
      else bind_result (requireLease db deliveryId leaseToken) (\<lambda>(d, attempt).
        bind_result (transitionDelivery (dl_status d) Provider_accepted) (\<lambda>status.
          (let sentDelivery = sent_delivery status sesMessageId at d;
               acceptedAttempt = attempt
                 \<lparr>at_status := Att_accepted, at_finishedAt := Some (Canon at),
                  at_sesMessageId := Some sesMessageId\<rparr>
           in bind_result
                (tx_recordAcceptedRecovery
                  (tx_updateAttempt (tx_updateDelivery db sentDelivery) acceptedAttempt)
                  sentDelivery acceptedAttempt)
                (\<lambda>db'. Inr (\<lparr>fa_delivery = sentDelivery, fa_attempt = acceptedAttempt,
                   fa_sourceDraftAction = sourceDraftAction sentDelivery Draft_consume\<rparr>, db'))))))"

subsection \<open>Retrying, bounces and lost leases\<close>

definition requeued_delivery ::
  "delivery_actor \<Rightarrow> instant \<Rightarrow> retry_origin \<Rightarrow> delivery_status \<Rightarrow> stored_delivery \<Rightarrow> stored_delivery" where
  "requeued_delivery actor at origin status d = d
     \<lparr>dl_actor := actor, dl_status := status, dl_retryOriginStatus := Some origin,
      dl_availableAt := at, dl_lastErrorCode := None, dl_lastErrorMessage := None,
      dl_updatedAt := at\<rparr>"

definition requeue_result ::
  "delivery_actor \<Rightarrow> stored_delivery \<Rightarrow> mutation_result" where
  "requeue_result actor queued =
     \<lparr>mu_delivery = queued, mu_actor = actor,
      mu_sourceDraftAction = sourceDraftAction queued Draft_retain,
      mu_retryCancellationRestored = False\<rparr>"

definition retryFailed ::
  "(stored_delivery \<Rightarrow> outbox_error + unit) \<Rightarrow> string \<Rightarrow> delivery_actor \<Rightarrow> instant \<Rightarrow> outbox_db \<Rightarrow>
     mutation_result tx_result" where
  "retryFailed assertRetryAllowed deliveryId actor at db =
     bind_result (require_delivery db deliveryId) (\<lambda>d.
       if \<not> canRetryFailedDelivery (dl_lastErrorCode d)
       then Inl (OutboundDeliveryNotRetryable deliveryId)
       else bind_result (transitionDelivery (dl_status d) Retry_failed) (\<lambda>status.
         (let queued = (requeued_delivery actor at Origin_failed status d)\<lparr>dl_nextAttemptAt := None\<rparr> in
          bind_result (assertRetryAllowed d) (\<lambda>_.
            Inr (requeue_result actor queued, tx_updateDelivery db queued)))))"

definition retryUnknown ::
  "(stored_delivery \<Rightarrow> outbox_error + unit) \<Rightarrow> string \<Rightarrow> delivery_actor \<Rightarrow> bool \<Rightarrow> instant \<Rightarrow>
     outbox_db \<Rightarrow> mutation_result tx_result" where
  "retryUnknown assertRetryAllowed deliveryId actor acknowledgeDuplicateRisk at db =
     (if \<not> acknowledgeDuplicateRisk then Inl (DuplicateRiskAcknowledgementRequired deliveryId)
      else bind_result (require_delivery db deliveryId) (\<lambda>d.
        bind_result (transitionDelivery (dl_status d) Force_retry_unknown) (\<lambda>status.
          (let queued = requeued_delivery actor at Origin_unknown status d in
           bind_result (assertRetryAllowed d) (\<lambda>_.
             Inr (requeue_result actor queued, tx_updateDelivery db queued))))))"

record bounce_details =
  bd_at :: instant
  bd_code :: string
  bd_message :: "string option"
  bd_sesMessageId :: "string option"

definition bounced_delivery :: "delivery_status \<Rightarrow> bounce_details \<Rightarrow> stored_delivery \<Rightarrow> stored_delivery" where
  "bounced_delivery status details d = d
     \<lparr>dl_status := status, dl_retryOriginStatus := None,
      dl_sesMessageId := (case bd_sesMessageId details of None \<Rightarrow> dl_sesMessageId d | Some m \<Rightarrow> Some m),
      dl_failedAt := None, dl_unknownAt := None, dl_lastErrorCode := Some (bd_code details),
      dl_lastErrorMessage := bd_message details, dl_updatedAt := bd_at details\<rparr>"

definition markBounced :: "string \<Rightarrow> bounce_details \<Rightarrow> outbox_db \<Rightarrow> stored_delivery tx_result" where
  "markBounced deliveryId details db =
     bind_result (require_delivery db deliveryId) (\<lambda>d.
     bind_result (transitionDelivery (dl_status d) Provider_bounced) (\<lambda>status.
       (let bounced = bounced_delivery status details d
        in Inr (bounced, tx_updateDelivery db bounced))))"

text \<open>One expired lease. \<open>None\<close> is a delivery the loop skips.\<close>

definition unsafe_attempts :: "stored_delivery \<Rightarrow> delivery_attempt list \<Rightarrow> delivery_attempt list" where
  "unsafe_attempts d attempts =
     filter (\<lambda>a. at_storageIntegrityInvalid a \<or>
                 truthy (dl_leaseToken d) \<and> dl_leaseToken d = Some (at_leaseToken a) \<or>
                 at_status a = Att_sending \<or> at_status a = Att_accepted) attempts"

definition lease_still_held :: "instant \<Rightarrow> stored_delivery \<Rightarrow> bool" where
  "lease_still_held now d \<longleftrightarrow>
     dl_recoveryIntegrityCode d = None \<and>
     (\<not> truthy (dl_leaseToken d) \<or>
      (case dl_leaseExpiresAt d of None \<Rightarrow> True | Some expires \<Rightarrow> expires > now))"

definition recovery_code :: "stored_delivery \<Rightarrow> delivery_attempt list \<Rightarrow> string" where
  "recovery_code d unsafe =
     (case dl_recoveryIntegrityCode d of
        Some c \<Rightarrow> recovery_integrity_text c
      | None \<Rightarrow> if unsafe \<noteq> [] then ''lease_expired'' else ''provider_attempt_integrity_missing'')"

definition recovery_message :: "stored_delivery \<Rightarrow> delivery_attempt list \<Rightarrow> string" where
  "recovery_message d unsafe =
     (if dl_recoveryIntegrityCode d \<noteq> None
      then ''The provider result is ambiguous because dispatch metadata is invalid.''
      else if unsafe \<noteq> []
      then ''The provider result is ambiguous because the send lease expired.''
      else ''The provider result is ambiguous because its attempt record is unavailable.'')"

definition expired_preflight :: "instant \<Rightarrow> delivery_status \<Rightarrow> stored_delivery \<Rightarrow> stored_delivery" where
  "expired_preflight now status d = (clear_lease d)
     \<lparr>dl_status := status, dl_nextAttemptAt := Some now,
      dl_preflightDeferralCount := dl_preflightDeferralCount d + 1, dl_updatedAt := now,
      dl_lastErrorCode := Some ''preflight_lease_expired'',
      dl_lastErrorMessage := Some ''Local preflight lease expired before provider dispatch.''\<rparr>"

definition mark_attempt_unknown :: "instant \<Rightarrow> string \<Rightarrow> delivery_attempt \<Rightarrow> delivery_attempt" where
  "mark_attempt_unknown now code a = a
     \<lparr>at_status := Att_unknown, at_finishedAt := Some (Canon now), at_errorCode := Some code\<rparr>"

definition recover_expired ::
  "instant \<Rightarrow> stored_delivery \<Rightarrow> outbox_db \<Rightarrow> recovered_lease option tx_result" where
  "recover_expired now d db =
     (if dl_status d \<noteq> Sending \<or> lease_still_held now d then Inr (None, db)
      else
        (let unsafe = unsafe_attempts d (tx_listAttemptsByDelivery db (dl_id d)) in
         if dl_dispatchPhase d = Some Preflight \<and> dl_recoveryIntegrityCode d = None \<and> unsafe = []
         then bind_result (transitionDelivery (dl_status d) Schedule_retry) (\<lambda>status.
           (let retrying = expired_preflight now status d
            in Inr (Some (Recovered_preflight retrying), tx_updateDelivery db retrying)))
         else bind_result (transitionDelivery (dl_status d) Lease_expired) (\<lambda>status.
           (let code = recovery_code d unsafe;
                unknownDelivery = unknown_delivery status now code (Some (recovery_message d unsafe)) d;
                unknownAttempts = map (mark_attempt_unknown now code)
                  (filter (\<lambda>a. at_status a \<noteq> Att_accepted) unsafe);
                reported = (case unknownAttempts of a # _ \<Rightarrow> Some a
                            | [] \<Rightarrow> (case unsafe of a # _ \<Rightarrow> Some a | [] \<Rightarrow> None))
            in Inr (Some (Recovered_provider unknownDelivery reported),
                    fold (\<lambda>a s. tx_updateAttempt s a) unknownAttempts
                      (tx_updateDelivery db unknownDelivery))))))"

primrec recover_loop ::
  "instant \<Rightarrow> stored_delivery list \<Rightarrow> outbox_db \<Rightarrow> recovered_lease list tx_result" where
  "recover_loop now [] db = Inr ([], db)"
| "recover_loop now (d # ds) db =
     bind_result (recover_expired now d db) (\<lambda>(r, db').
     bind_result (recover_loop now ds db') (\<lambda>(rs, db'').
       Inr ((case r of None \<Rightarrow> rs | Some x \<Rightarrow> x # rs), db'')))"

definition recoverExpiredLeases :: "instant \<Rightarrow> outbox_db \<Rightarrow> recovered_lease list tx_result" where
  "recoverExpiredLeases now db = recover_loop now (tx_listExpiredSending db now) db"

end
