(* ===== verification/Keyed_Machine.thy ===== *)
theory Keyed_Machine
  imports Portal_Prelude
begin

text \<open>
  The interface between a store of keyed records and the life cycle its records follow. A store
  implements a life cycle when each of its steps, seen through the view of its records, is a sequence
  of single-record moves; then every property of the life cycle of one record holds of the store.
\<close>

definition one_key ::
  "('v \<Rightarrow> 'v \<Rightarrow> bool) \<Rightarrow> ('v \<Rightarrow> bool) \<Rightarrow> ('k \<Rightarrow> 'v option) \<Rightarrow> ('k \<Rightarrow> 'v option) \<Rightarrow> bool" where
  "one_key move born m m' \<longleftrightarrow>
     (\<exists>k v'. m' = m(k \<mapsto> v') \<and> (case m k of None \<Rightarrow> born v' | Some v \<Rightarrow> move v v'))"

lemma one_key_move: "m k = Some v \<Longrightarrow> move v v' \<Longrightarrow> one_key move born m (m(k \<mapsto> v'))"
  unfolding one_key_def by (intro exI [of _ k] exI [of _ v']) simp

lemma one_key_born: "m k = None \<Longrightarrow> born v \<Longrightarrow> one_key move born m (m(k \<mapsto> v))"
  unfolding one_key_def by (intro exI [of _ k] exI [of _ v]) simp

lemma one_key_at: "one_key move born m m' \<Longrightarrow> m k = Some v \<Longrightarrow> \<exists>v'. m' k = Some v' \<and> move\<^sup>*\<^sup>* v v'"
  by (auto simp: one_key_def split: option.splits)

lemma one_key_run:
  "(one_key move born)\<^sup>*\<^sup>* m m' \<Longrightarrow> m k = Some v \<Longrightarrow> \<exists>v'. m' k = Some v' \<and> move\<^sup>*\<^sup>* v v'"
proof (induction rule: rtranclp_induct)
  case (step m1 m2)
  then obtain v1 where "m1 k = Some v1" and "move\<^sup>*\<^sup>* v v1" by blast
  with one_key_at [OF step.hyps(2)] show ?case by (meson rtranclp_trans)
qed auto

lemma rtranclp_stable:
  assumes "move\<^sup>*\<^sup>* v v'" and "\<And>v v'. move v v' \<Longrightarrow> P v \<Longrightarrow> P v'" and "P v"
  shows "P v'"
  using assms(1,3) by induction (auto intro: assms(2))

locale keyed_machine =
  fixes view :: "'s \<Rightarrow> 'k \<Rightarrow> 'v option"
    and sound :: "'s \<Rightarrow> bool"
    and step :: "'s \<Rightarrow> 's \<Rightarrow> bool"
    and move :: "'v \<Rightarrow> 'v \<Rightarrow> bool"
    and born :: "'v \<Rightarrow> bool"
  assumes sound_step: "sound s \<Longrightarrow> step s s' \<Longrightarrow> sound s'"
    and refines: "sound s \<Longrightarrow> step s s' \<Longrightarrow> (one_key move born)\<^sup>*\<^sup>* (view s) (view s')"
begin

lemma run_sound: "step\<^sup>*\<^sup>* s s' \<Longrightarrow> sound s \<Longrightarrow> sound s'"
  by (induction rule: rtranclp_induct) (auto intro: sound_step)

lemma run_refines: "step\<^sup>*\<^sup>* s s' \<Longrightarrow> sound s \<Longrightarrow> (one_key move born)\<^sup>*\<^sup>* (view s) (view s')"
proof (induction rule: rtranclp_induct)
  case (step s1 s2)
  then have "(one_key move born)\<^sup>*\<^sup>* (view s1) (view s2)"
    using refines run_sound by blast
  with step show ?case by (meson rtranclp_trans)
qed simp

lemma run_key:
  "step\<^sup>*\<^sup>* s s' \<Longrightarrow> sound s \<Longrightarrow> view s k = Some v \<Longrightarrow> \<exists>v'. view s' k = Some v' \<and> move\<^sup>*\<^sup>* v v'"
  using run_refines one_key_run by fast

text \<open>What no move of a record destroys, no step of the store destroys.\<close>

lemma run_stable:
  assumes "step\<^sup>*\<^sup>* s s'" and "sound s" and "view s k = Some v" and "P v"
    and "\<And>v v'. move v v' \<Longrightarrow> P v \<Longrightarrow> P v'"
  shows "\<exists>v'. view s' k = Some v' \<and> P v'"
  using run_key [OF assms(1-3)] rtranclp_stable [where P = P] assms(4,5) by metis

end

end
