(* ===== verification/Outbound_Lifecycle.thy ===== *)
theory Outbound_Lifecycle
  imports Outbound_Service Keyed_Machine
begin

text \<open>
  The life cycle of one outgoing message, abstracted from the columns of its row, and the proof that
  every command of the outbox service moves the messages it touches along that life cycle and leaves
  the others where they are.
\<close>

subsection \<open>The life cycle\<close>

text \<open>
  A message waits to be sent (with what it was before a retry was started, if one was), is checked
  under a lease, is in flight with a lease and a provider attempt, or is closed with a status. A row
  that is marked as sending without a consistent lease is broken.
\<close>

datatype delivery_view =
  Waiting "retry_origin option"
| Checking string "retry_origin option"
| In_flight string string "retry_origin option"
| Closed delivery_status
| Broken

text \<open>A refused message is failed, unless an earlier attempt on it may have been accepted.\<close>

definition refusal :: "retry_origin option \<Rightarrow> delivery_status \<Rightarrow> bool" where
  "refusal origin s \<longleftrightarrow> s = Unknown \<or> s = Failed \<and> origin \<noteq> Some Origin_unknown"

inductive auto_step :: "delivery_view \<Rightarrow> delivery_view \<Rightarrow> bool" where
  claim: "auto_step (Waiting o1) (Checking t o1)"
| park: "refusal o1 s \<Longrightarrow> auto_step (Waiting o1) (Closed s)"
| cancel: "auto_step (Waiting None) (Closed Cancelled)"
| dispatch: "auto_step (Checking t o1) (In_flight t a o1)"
| release: "auto_step (Checking t o1) (Waiting o1)"
| refuse_check: "refusal o1 s \<Longrightarrow> auto_step (Checking t o1) (Closed s)"
| refuse: "refusal o1 s \<Longrightarrow> auto_step (In_flight t a o1) (Closed s)"
| retry_later: "auto_step (In_flight t a o1) (Waiting o1)"
| accept: "auto_step (In_flight t a o1) (Closed Sent)"
| lose: "auto_step Broken (Closed Unknown)"
| retry_failed: "auto_step (Closed Failed) (Waiting (Some Origin_failed))"
| bounce: "s \<in> {Sent, Unknown} \<Longrightarrow> auto_step (Closed s) (Closed Bounced)"

text \<open>An unknown outcome is sent again only when a person accepts the risk of a duplicate.\<close>

inductive delivery_step :: "delivery_view \<Rightarrow> delivery_view \<Rightarrow> bool" where
  auto: "auto_step v v' \<Longrightarrow> delivery_step v v'"
| acknowledged_retry: "delivery_step (Closed Unknown) (Waiting (Some Origin_unknown))"

inductive_simps auto_step_simps [simp]:
  "auto_step (Waiting o1) v" "auto_step (Checking t o1) v" "auto_step (In_flight t a o1) v"
  "auto_step (Closed s) v" "auto_step Broken v"

inductive_cases auto_step_cases: "auto_step v v'"
inductive_cases delivery_step_cases: "delivery_step v v'"

definition newborn :: "delivery_view \<Rightarrow> bool" where
  "newborn v \<longleftrightarrow> v = Waiting None"

subsection \<open>The view of a row\<close>

definition view_fields ::
  "delivery_status \<Rightarrow> retry_origin option \<Rightarrow> dispatch_phase option \<Rightarrow> string option \<Rightarrow>
     string option \<Rightarrow> delivery_view" where
  "view_fields status origin phase leaseToken active =
     (case status of
        Queued \<Rightarrow> Waiting origin
      | Retrying \<Rightarrow> Waiting origin
      | Sending \<Rightarrow>
          (case (phase, leaseToken, active) of
             (Some Preflight, Some t, None) \<Rightarrow> Checking t origin
           | (Some Provider, Some t, Some a) \<Rightarrow> In_flight t a origin
           | _ \<Rightarrow> Broken)
      | s \<Rightarrow> Closed s)"

definition view_of :: "stored_delivery \<Rightarrow> delivery_view" where
  "view_of d = view_fields (dl_status d) (dl_retryOriginStatus d) (dl_dispatchPhase d)
     (dl_leaseToken d) (dl_activeAttemptId d)"

definition view_row :: "delivery_row \<Rightarrow> delivery_view" where
  "view_row row =
     (case read_status (dr_status row) of
        None \<Rightarrow> Broken
      | Some s \<Rightarrow> view_fields s (Option.bind (dr_retry_origin_status row) read_origin)
          (Option.bind (dr_dispatch_phase row) read_phase) (dr_lease_token row)
          (dr_active_attempt_id row))"

definition ledger_view :: "outbox_db \<Rightarrow> string \<Rightarrow> delivery_view option" where
  "ledger_view db i = map_option view_row (find_delivery_row db i)"

definition keys_ok :: "outbox_db \<Rightarrow> bool" where
  "keys_ok db \<longleftrightarrow> distinct (map dr_id (db_deliveries db))"

lemma view_write [simp]: "view_row (write_delivery d row) = view_of d"
  by (simp add: view_row_def view_of_def read_status_text)

lemma view_of_with_cancel_recovery [simp]: "view_of (with_cancel_recovery f d) = view_of d"
  by (simp add: view_of_def with_cancel_recovery_def)

lemma deliveryRowToStored_view: "deliveryRowToStored row m = Inr d \<Longrightarrow> view_row row = view_of d"
  by (auto simp: deliveryRowToStored_def bind_result_Inr Let_def view_row_def view_of_def
      split: if_splits)

lemma hydrate_view: "\<not> dl_storageIntegrityInvalid (hydrateDelivery db row) \<Longrightarrow>
    view_row row = view_of (hydrateDelivery db row)"
  by (erule hydrate_integral [OF refl]) (simp add: deliveryRowToStored_view)

lemma ledger_view_get:
  "tx_getDelivery db i = Some d \<Longrightarrow> \<not> dl_storageIntegrityInvalid d \<Longrightarrow> ledger_view db i = Some (view_of d)"
  by (auto simp: tx_getDelivery_def ledger_view_def hydrate_view)

lemma ledger_view_update:
  "ledger_view db (dl_id d) \<noteq> None \<Longrightarrow>
     ledger_view (tx_updateDelivery db d) = (ledger_view db)(dl_id d \<mapsto> view_of d)"
  by (rule ext) (auto simp: ledger_view_def find_delivery_row_update option.map_comp comp_def)

lemma ledger_view_deliveries:
  "db_deliveries db' = db_deliveries db \<Longrightarrow> ledger_view db' = ledger_view db"
  by (rule ext) (simp add: ledger_view_def find_delivery_row_def)

lemma ledger_view_updateAttempt [simp]: "ledger_view (tx_updateAttempt db a) = ledger_view db"
  by (rule ledger_view_deliveries) simp

text \<open>Only a delivery shown as unknown can be an unreadable one.\<close>

lemma hydrate_readable: "dl_status (hydrateDelivery db row) \<noteq> Unknown \<Longrightarrow>
    \<not> dl_storageIntegrityInvalid (hydrateDelivery db row)"
  by (auto simp: hydrateDelivery_def Let_def unreadable_delivery_def with_cancel_recovery_def
      dest: deliveryRowToStored_fields(13) split: option.splits sum.splits)

lemma get_readable: "tx_getDelivery db i = Some d \<Longrightarrow> dl_status d \<noteq> Unknown \<Longrightarrow> \<not> dl_storageIntegrityInvalid d"
  by (auto simp: tx_getDelivery_def hydrate_readable)

text \<open>The step every command takes: a readable delivery is read, changed and written back.\<close>

lemma rewrite_step:
  assumes "tx_getDelivery db i = Some d" and "\<not> dl_storageIntegrityInvalid d"
    and "dl_id d' = dl_id d" and "move (view_of d) (view_of d')"
  shows "one_key move born (ledger_view db) (ledger_view (tx_updateDelivery db d'))"
proof -
  have "ledger_view db (dl_id d') = Some (view_of d)"
    using ledger_view_get [OF assms(1,2)] tx_getDelivery_id [OF assms(1)] assms(3) by simp
  with assms(4) show ?thesis by (simp add: ledger_view_update one_key_move)
qed

subsection \<open>What the guards establish\<close>

lemma requirePreflightLease_Inr:
  "requirePreflightLease db i t = Inr d \<longleftrightarrow>
     tx_getDelivery db i = Some d \<and> dl_status d = Sending \<and> dl_dispatchPhase d = Some Preflight \<and>
     dl_leaseToken d = Some t \<and> dl_activeAttemptId d = None"
  by (auto simp: requirePreflightLease_def split: option.splits if_splits)

lemma requireLease_Inr:
  "requireLease db i t = Inr (d, a) \<longleftrightarrow>
     tx_getDelivery db i = Some d \<and> dl_status d = Sending \<and> dl_dispatchPhase d = Some Provider \<and>
     dl_leaseToken d = Some t \<and> dl_activeAttemptId d = Some (at_id a) \<and>
     filter (\<lambda>a. \<not> at_storageIntegrityInvalid a \<and> at_leaseToken a = t \<and> at_status a = Att_sending)
       (tx_listAttemptsByDelivery db i) = [a]"
  by (auto simp: requireLease_def split: option.splits if_splits list.splits)

lemma require_delivery_Inr:
  "require_delivery db i = Inr d \<longleftrightarrow> tx_getDelivery db i = Some d \<and> \<not> dl_storageIntegrityInvalid d"
  by (auto simp: require_delivery_def assertDeliveryStorageIntegrity_def bind_result_Inr
      split: option.splits)

lemmas guard_facts = requirePreflightLease_Inr requireLease_Inr require_delivery_Inr bind_result_Inr

lemmas delivery_edits = clear_lease_def restored_delivery_def cancelled_delivery_def
  snapshot_missing_failure_def claimed_delivery_of_def deferred_delivery_def failed_delivery_def
  dispatching_delivery_def retry_finalized_delivery_def unknown_delivery_def sent_delivery_def
  requeued_delivery_def bounced_delivery_def expired_preflight_def

lemma dl_id_edits [simp]:
  "dl_id (restored_delivery actor at o1 d) = dl_id d"
  "dl_id (cancelled_delivery actor at s d) = dl_id d"
  "dl_id (snapshot_missing_failure at d) = dl_id d"
  "dl_id (claimed_delivery_of s t e at d) = dl_id d"
  "dl_id (deferred_delivery rd s d) = dl_id d"
  "dl_id (failed_delivery m fd d) = dl_id d"
  "dl_id (dispatching_delivery a at k d) = dl_id d"
  "dl_id (retry_finalized_delivery b s rd d) = dl_id d"
  "dl_id (unknown_delivery s at c msg d) = dl_id d"
  "dl_id (sent_delivery s ses at d) = dl_id d"
  "dl_id (requeued_delivery actor at o1 s d) = dl_id d"
  "dl_id (bounced_delivery s bd d) = dl_id d"
  "dl_id (expired_preflight at s d) = dl_id d"
  by (simp_all add: delivery_edits Let_def)

text \<open>The views of the edited deliveries.\<close>

lemma view_edits [simp]:
  "view_of (restored_delivery actor at o1 d) = Closed (origin_status o1)"
  "view_of (cancelled_delivery actor at Cancelled d) = Closed Cancelled"
  "view_of (snapshot_missing_failure at d) =
     Closed (if dl_retryOriginStatus d = Some Origin_unknown then Unknown else Failed)"
  "view_of (claimed_delivery_of Sending t e at d) = Checking t (dl_retryOriginStatus d)"
  "view_of (deferred_delivery rd Retrying d) = Waiting (dl_retryOriginStatus d)"
  "view_of (failed_delivery m fd d) =
     Closed (if dl_retryOriginStatus d = Some Origin_unknown then Unknown else Failed)"
  "view_of (unknown_delivery Unknown at c msg d) = Closed Unknown"
  "view_of (sent_delivery Sent ses at d) = Closed Sent"
  "view_of (requeued_delivery actor at o1 Queued d) = Waiting (Some o1)"
  "view_of (bounced_delivery Bounced bd d) = Closed Bounced"
  "view_of (expired_preflight at Retrying d) = Waiting (dl_retryOriginStatus d)"
  by (cases o1; simp add: delivery_edits view_of_def view_fields_def Let_def)+

lemma view_waiting: "canCancelDelivery (dl_status d) \<Longrightarrow> view_of d = Waiting (dl_retryOriginStatus d)"
  by (auto simp: canCancelDelivery_def view_of_def view_fields_def)

lemma view_checking:
  "dl_status d = Sending \<Longrightarrow> dl_dispatchPhase d = Some Preflight \<Longrightarrow> dl_leaseToken d = Some t \<Longrightarrow>
     dl_activeAttemptId d = None \<Longrightarrow> view_of d = Checking t (dl_retryOriginStatus d)"
  by (simp add: view_of_def view_fields_def)

lemma view_in_flight:
  "dl_status d = Sending \<Longrightarrow> dl_dispatchPhase d = Some Provider \<Longrightarrow> dl_leaseToken d = Some t \<Longrightarrow>
     dl_activeAttemptId d = Some a \<Longrightarrow> view_of d = In_flight t a (dl_retryOriginStatus d)"
  by (simp add: view_of_def view_fields_def)

lemma view_closed: "dl_status d \<notin> {Queued, Retrying, Sending} \<Longrightarrow> view_of d = Closed (dl_status d)"
  by (cases "dl_status d") (simp_all add: view_of_def view_fields_def)

lemma TRANSITIONS_from:
  "TRANSITIONS s Cancel = Some s' \<Longrightarrow> canCancelDelivery s \<and> s' = Cancelled"
  "TRANSITIONS s Retry_failed = Some s' \<Longrightarrow> s = Failed \<and> s' = Queued"
  "TRANSITIONS s Force_retry_unknown = Some s' \<Longrightarrow> s = Unknown \<and> s' = Queued"
  "TRANSITIONS s Provider_bounced = Some s' \<Longrightarrow> s \<in> {Sent, Unknown} \<and> s' = Bounced"
  by (cases s; simp add: canCancelDelivery_def)+

subsection \<open>Every command is a step\<close>

lemma cancel_step:
  assumes "cancel cb i actor at db = Inr (r, db')"
  shows "one_key auto_step newborn (ledger_view db) (ledger_view db')"
proof -
  from assms obtain d where d: "tx_getDelivery db i = Some d" "\<not> dl_storageIntegrityInvalid d"
    and can: "canCancelDelivery (dl_status d)"
    and edit: "(\<exists>o1. dl_retryOriginStatus d = Some o1 \<and> db' = tx_updateDelivery db (restored_delivery actor at o1 d)) \<or>
       dl_retryOriginStatus d = None \<and> db' = tx_updateDelivery db (cancelled_delivery actor at Cancelled d)"
    by (auto simp: cancel_def guard_facts Let_def split: if_splits option.splits dest: TRANSITIONS_from)
  from edit show ?thesis
  proof (elim disjE exE conjE)
    fix o1 assume o1: "dl_retryOriginStatus d = Some o1"
      and db': "db' = tx_updateDelivery db (restored_delivery actor at o1 d)"
    have "refusal (Some o1) (origin_status o1)" by (cases o1) (simp_all add: refusal_def)
    then show ?thesis
      unfolding db' using view_waiting [OF can] o1 by (intro rewrite_step [OF d]) simp_all
  next
    assume "dl_retryOriginStatus d = None"
      and db': "db' = tx_updateDelivery db (cancelled_delivery actor at Cancelled d)"
    then show ?thesis
      unfolding db' using view_waiting [OF can] by (intro rewrite_step [OF d]) simp_all
  qed
qed

lemma refusal_unless_unknown: "refusal o1 (if o1 = Some Origin_unknown then Unknown else Failed)"
  by (simp add: refusal_def)

lemma deferPreflight_step:
  assumes "deferPreflight i t details db = Inr (r, db')"
  shows "one_key auto_step newborn (ledger_view db) (ledger_view db')"
proof -
  from assms obtain d where d: "tx_getDelivery db i = Some d" and "dl_status d = Sending"
    and view: "view_of d = Checking t (dl_retryOriginStatus d)"
    and db': "db' = tx_updateDelivery db (deferred_delivery details Retrying d)"
    by (auto simp: deferPreflight_def guard_facts view_checking Let_def split: if_splits)
  then show ?thesis
    unfolding db' by (intro rewrite_step [OF d] get_readable [OF d]) (simp_all add: view)
qed

lemma failPreflight_step:
  assumes "failPreflight i t details db = Inr (r, db')"
  shows "one_key auto_step newborn (ledger_view db) (ledger_view db')"
proof -
  from assms obtain d m where d: "tx_getDelivery db i = Some d" and "dl_status d = Sending"
    and view: "view_of d = Checking t (dl_retryOriginStatus d)"
    and db': "db' = tx_updateDelivery db (failed_delivery m details d)"
    by (auto simp: failPreflight_def guard_facts view_checking Let_def split: if_splits)
  then show ?thesis
    unfolding db'
    by (intro rewrite_step [OF d] get_readable [OF d]) (simp_all add: view refusal_unless_unknown)
qed

lemma tx_insertAttempt_deliveries:
  "tx_insertAttempt db a = Inr db' \<Longrightarrow> db_deliveries db' = db_deliveries db \<and> db_emails db' = db_emails db"
  by (auto simp: tx_insertAttempt_def split: if_splits)

lemma tx_recordAcceptedRecovery_deliveries:
  "tx_recordAcceptedRecovery db d a = Inr db' \<Longrightarrow>
     db_deliveries db' = db_deliveries db \<and> db_emails db' = db_emails db \<and> db_attempts db' = db_attempts db"
  by (auto simp: tx_recordAcceptedRecovery_def split: if_splits option.splits)

lemma beginProviderAttempt_cases:
  assumes "beginProviderAttempt i t a at k db = Inr (r, db')"
  obtains d s e where "requirePreflightLease db i t = Inr d" and "\<not> hasUnsafeProviderAttempt db i t"
    and "dl_leaseExpiresAt d = Some e" and "at < e" and "js_trim a \<noteq> []" and "0 < k"
    and "tx_getSnapshot db (dl_emailId d) = Some s"
    and "r = \<lparr>cd_delivery = dispatching_delivery a at k d,
             cd_attempt = new_attempt a i t at (dl_attemptCount d + 1), cd_snapshot = s\<rparr>"
    and "tx_insertAttempt (tx_updateDelivery db (dispatching_delivery a at k d))
           (new_attempt a i t at (dl_attemptCount d + 1)) = Inr db'"
proof -
  from assms obtain d where lease: "requirePreflightLease db i t = Inr d"
    by (cases "requirePreflightLease db i t") (simp_all add: beginProviderAttempt_def)
  with assms have ok: "\<not> hasUnsafeProviderAttempt db i t" "js_trim a \<noteq> []" "0 < k"
    by (simp_all add: beginProviderAttempt_def split: if_splits)
  obtain e where e: "dl_leaseExpiresAt d = Some e" "at < e"
    using assms lease by (cases "dl_leaseExpiresAt d") (simp_all add: beginProviderAttempt_def split: if_splits)
  obtain s where s: "tx_getSnapshot db (dl_emailId d) = Some s"
    using assms lease ok e
    by (cases "tx_getSnapshot db (dl_emailId d)") (simp_all add: beginProviderAttempt_def)
  define d' where "d' = dispatching_delivery a at k d"
  define a' where "a' = new_attempt a i t at (dl_attemptCount d + 1)"
  have "bind_result (tx_insertAttempt (tx_updateDelivery db d') a')
      (\<lambda>db'. Inr (\<lparr>cd_delivery = d', cd_attempt = a', cd_snapshot = s\<rparr>, db')) = Inr (r, db')"
    using assms e(2) ok(3) by (simp add: beginProviderAttempt_def lease ok(1,2) e(1) s Let_def d'_def a'_def)
  then have "r = \<lparr>cd_delivery = d', cd_attempt = a', cd_snapshot = s\<rparr>"
    and "tx_insertAttempt (tx_updateDelivery db d') a' = Inr db'"
    by (auto simp only: bind_result_Inr sum.inject prod.inject)
  then show ?thesis by (intro that [OF lease ok(1) e ok(2,3) s]) (simp_all only: d'_def a'_def)
qed

lemma beginProviderAttempt_step:
  assumes "beginProviderAttempt i t a at k db = Inr (r, db')"
  shows "one_key auto_step newborn (ledger_view db) (ledger_view db')"
  using assms
proof (rule beginProviderAttempt_cases)
  fix d e assume lease: "requirePreflightLease db i t = Inr d"
    and "tx_insertAttempt (tx_updateDelivery db (dispatching_delivery a at k d))
           (new_attempt a i t at (dl_attemptCount d + 1)) = Inr db'"
  then have d: "tx_getDelivery db i = Some d" and s: "dl_status d = Sending"
    and token: "dl_leaseToken d = Some t" and view: "view_of d = Checking t (dl_retryOriginStatus d)"
    and ins: "tx_insertAttempt (tx_updateDelivery db (dispatching_delivery a at k d))
           (new_attempt a i t at (dl_attemptCount d + 1)) = Inr db'"
    by (simp_all add: requirePreflightLease_Inr view_checking)
  have db': "ledger_view db' = ledger_view (tx_updateDelivery db (dispatching_delivery a at k d))"
    using tx_insertAttempt_deliveries [OF ins] by (intro ledger_view_deliveries) simp
  have "view_of (dispatching_delivery a at k d) = In_flight t a (dl_retryOriginStatus d)"
    by (simp add: delivery_edits s token view_of_def view_fields_def)
  then show ?thesis
    unfolding db' using s
    by (intro rewrite_step [OF d] get_readable [OF d]) (simp_all add: view)
qed

text \<open>The four ways a provider attempt ends, each by the holder of the lease.\<close>

definition settles :: "outbox_db \<Rightarrow> string \<Rightarrow> string \<Rightarrow> outbox_db \<Rightarrow> bool" where
  "settles db i t db' \<longleftrightarrow>
     (\<exists>a o1 v. ledger_view db i = Some (In_flight t a o1) \<and> auto_step (In_flight t a o1) v \<and>
              ledger_view db' = (ledger_view db)(i \<mapsto> v))"

lemma settles_step: "settles db i t db' \<Longrightarrow> one_key auto_step newborn (ledger_view db) (ledger_view db')"
  unfolding settles_def by (elim exE conjE) (simp only: one_key_move)

lemma finalize_settles:
  assumes "requireLease db i t = Inr (d, a)" and "dl_id d' = dl_id d"
    and "auto_step (In_flight t (at_id a) (dl_retryOriginStatus d)) (view_of d')"
    and "db_deliveries db' = db_deliveries (tx_updateDelivery db d')"
  shows "settles db i t db'"
proof -
  from assms(1) have d: "tx_getDelivery db i = Some d" and s: "dl_status d = Sending"
    and view: "view_of d = In_flight t (at_id a) (dl_retryOriginStatus d)"
    by (simp_all add: requireLease_Inr view_in_flight)
  have at_i: "ledger_view db i = Some (In_flight t (at_id a) (dl_retryOriginStatus d))"
    using ledger_view_get [OF d get_readable [OF d]] s view by simp
  moreover have "ledger_view db' = (ledger_view db)(i \<mapsto> view_of d')"
    unfolding ledger_view_deliveries [OF assms(4)]
    using tx_getDelivery_id [OF d] assms(2) at_i ledger_view_update [of db d'] by simp
  ultimately show ?thesis using assms(3) unfolding settles_def by blast
qed

lemma finalizeRetryableFailure_settles:
  assumes "finalizeRetryableFailure i t details db = Inr (r, db')"
  shows "settles db i t db'"
proof -
  from assms obtain d a status a' where lease: "requireLease db i t = Inr (d, a)"
    and status: "(if dl_attemptCount d \<ge> dl_maxAttempts d \<and> dl_retryOriginStatus d = Some Origin_unknown
        then Inr Unknown
        else transitionDelivery (dl_status d)
          (if dl_attemptCount d \<ge> dl_maxAttempts d then Exhaust_retries else Schedule_retry)) = Inr status"
    and db': "db' = tx_updateAttempt (tx_updateDelivery db
        (retry_finalized_delivery (dl_attemptCount d \<ge> dl_maxAttempts d) status details d)) a'"
    by (auto simp: finalizeRetryableFailure_def bind_result_Inr Let_def)
  have "dl_status d = Sending" using lease by (simp add: requireLease_Inr)
  then have "auto_step (In_flight t (at_id a) (dl_retryOriginStatus d))
      (view_of (retry_finalized_delivery (dl_attemptCount d \<ge> dl_maxAttempts d) status details d))"
    using status
    by (auto simp: delivery_edits view_of_def view_fields_def refusal_def Let_def split: if_splits)
  then show ?thesis by (rule finalize_settles [OF lease, rotated]) (simp_all add: db')
qed

lemma finalizeDefinitiveFailure_settles:
  assumes "finalizeDefinitiveFailure i t details db = Inr (r, db')"
  shows "settles db i t db'"
proof -
  from assms obtain d a a' m where lease: "requireLease db i t = Inr (d, a)"
    and db': "db' = tx_updateAttempt (tx_updateDelivery db (failed_delivery m details d)) a'"
    by (auto simp: finalizeDefinitiveFailure_def bind_result_Inr Let_def)
  show ?thesis
    by (rule finalize_settles [OF lease]) (auto simp: db' refusal_unless_unknown)
qed

lemma finalizeUnknown_settles:
  assumes "finalizeUnknown i t details db = Inr (r, db')"
  shows "settles db i t db'"
proof -
  from assms obtain d a a' at c msg where lease: "requireLease db i t = Inr (d, a)"
    and db': "db' = tx_updateAttempt (tx_updateDelivery db (unknown_delivery Unknown at c msg d)) a'"
    by (auto simp: finalizeUnknown_def bind_result_Inr Let_def requireLease_Inr)
  show ?thesis
    by (rule finalize_settles [OF lease]) (auto simp: db' refusal_def)
qed

lemma finalizeAccepted_cases:
  assumes "finalizeAccepted i t ses at db = Inr (r, db')"
  obtains d a where "requireLease db i t = Inr (d, a)" and "js_trim ses \<noteq> []"
    and "r = \<lparr>fa_delivery = sent_delivery Sent ses at d,
             fa_attempt = a\<lparr>at_status := Att_accepted, at_finishedAt := Some (Canon at),
                           at_sesMessageId := Some ses\<rparr>,
             fa_sourceDraftAction = sourceDraftAction d Draft_consume\<rparr>"
    and "tx_recordAcceptedRecovery
           (tx_updateAttempt (tx_updateDelivery db (sent_delivery Sent ses at d)) (fa_attempt r))
           (fa_delivery r) (fa_attempt r) = Inr db'"
proof -
  have trim: "js_trim ses \<noteq> []" using assms by (simp add: finalizeAccepted_def split: if_splits)
  with assms obtain d a where lease: "requireLease db i t = Inr (d, a)"
    by (cases "requireLease db i t") (auto simp: finalizeAccepted_def)
  then have sending: "dl_status d = Sending" by (simp add: requireLease_Inr)
  have draft: "sourceDraftAction (sent_delivery Sent ses at d) Draft_consume = sourceDraftAction d Draft_consume"
    by (simp add: sourceDraftAction_def sent_delivery_def clear_lease_def)
  define a' where "a' = a\<lparr>at_status := Att_accepted, at_finishedAt := Some (Canon at), at_sesMessageId := Some ses\<rparr>"
  define d' where "d' = sent_delivery Sent ses at d"
  have "bind_result (tx_recordAcceptedRecovery (tx_updateAttempt (tx_updateDelivery db d') a') d' a')
      (\<lambda>db'. Inr (\<lparr>fa_delivery = d', fa_attempt = a',
        fa_sourceDraftAction = sourceDraftAction d Draft_consume\<rparr>, db')) = Inr (r, db')"
    using assms
    by (simp add: finalizeAccepted_def lease trim sending transitionDelivery_def Let_def draft a'_def d'_def)
  then have "r = \<lparr>fa_delivery = d', fa_attempt = a', fa_sourceDraftAction = sourceDraftAction d Draft_consume\<rparr>"
    and "tx_recordAcceptedRecovery (tx_updateAttempt (tx_updateDelivery db d') a') d' a' = Inr db'"
    by (simp_all add: bind_result_Inr)
  then show ?thesis
    by (intro that [OF lease trim]) (simp_all only: a'_def d'_def finalized_attempt.simps)
qed

lemma finalizeAccepted_settles:
  assumes "finalizeAccepted i t ses at db = Inr (r, db')"
  shows "settles db i t db'"
  using assms
proof (rule finalizeAccepted_cases)
  fix d a assume lease: "requireLease db i t = Inr (d, a)"
    and "tx_recordAcceptedRecovery
           (tx_updateAttempt (tx_updateDelivery db (sent_delivery Sent ses at d)) (fa_attempt r))
           (fa_delivery r) (fa_attempt r) = Inr db'"
  then have "db_deliveries db' = db_deliveries (tx_updateDelivery db (sent_delivery Sent ses at d))"
    by (simp add: tx_recordAcceptedRecovery_deliveries)
  then show ?thesis by (intro finalize_settles [OF lease]) auto
qed

lemma retryFailed_step:
  assumes "retryFailed cb i actor at db = Inr (r, db')"
  shows "one_key auto_step newborn (ledger_view db) (ledger_view db')"
proof -
  from assms obtain d where d: "tx_getDelivery db i = Some d" "\<not> dl_storageIntegrityInvalid d"
    and "dl_status d = Failed"
    and db': "db' = tx_updateDelivery db
          ((requeued_delivery actor at Origin_failed Queued d)\<lparr>dl_nextAttemptAt := None\<rparr>)"
    by (auto simp: retryFailed_def guard_facts Let_def split: if_splits dest: TRANSITIONS_from)
  moreover have "view_of (e\<lparr>dl_nextAttemptAt := None\<rparr>) = view_of e" for e by (simp add: view_of_def)
  ultimately show ?thesis
    unfolding db' by (intro rewrite_step [OF d]) (simp_all add: view_closed)
qed

lemma retryUnknown_cases:
  assumes "retryUnknown cb i actor ack at db = Inr (r, db')"
  shows "ack \<and> (\<exists>d. tx_getDelivery db i = Some d \<and> \<not> dl_storageIntegrityInvalid d \<and>
      dl_status d = Unknown \<and>
      db' = tx_updateDelivery db (requeued_delivery actor at Origin_unknown Queued d))"
  using assms
  by (auto simp: retryUnknown_def guard_facts Let_def split: if_splits dest: TRANSITIONS_from)

lemma retryUnknown_step:
  assumes "retryUnknown cb i actor ack at db = Inr (r, db')"
  shows "one_key delivery_step newborn (ledger_view db) (ledger_view db')"
  using retryUnknown_cases [OF assms]
  by (auto intro!: rewrite_step simp: view_closed delivery_step.acknowledged_retry)

lemma markBounced_step:
  assumes "markBounced i details db = Inr (r, db')"
  shows "one_key auto_step newborn (ledger_view db) (ledger_view db')"
proof -
  from assms obtain d where d: "tx_getDelivery db i = Some d" "\<not> dl_storageIntegrityInvalid d"
    and "dl_status d \<in> {Sent, Unknown}"
    and db': "db' = tx_updateDelivery db (bounced_delivery Bounced details d)"
    by (auto simp: markBounced_def guard_facts Let_def dest!: TRANSITIONS_from(4))
  then show ?thesis
    unfolding db' by (intro rewrite_step [OF d]) (auto simp: view_closed)
qed

subsection \<open>Claiming and recovering as runs of steps\<close>

lemma find_delivery_row_distinct:
  "keys_ok db \<Longrightarrow> row \<in> set (db_deliveries db) \<Longrightarrow> find_delivery_row db (dr_id row) = Some row"
  unfolding keys_ok_def find_delivery_row_def by (rule find_key_distinct)

lemma findNextDispatchableRow_Some:
  assumes "findNextDispatchableRow db now = Some r"
  shows "r \<in> set (db_deliveries db)" and "row_dispatchable now r"
    and "r' \<in> set (db_deliveries db) \<Longrightarrow> row_dispatchable now r' \<Longrightarrow>
      (dispatch_order r, stamp_text (dr_created_at r), dr_id r)
        \<le> (dispatch_order r', stamp_text (dr_created_at r'), dr_id r')"
proof -
  let ?key = "\<lambda>r. (dispatch_order r, stamp_text (dr_created_at r), dr_id r)"
  let ?due = "filter (row_dispatchable now) (db_deliveries db)"
  from assms obtain rs where rs: "sort_key ?key ?due = r # rs"
    by (auto simp: findNextDispatchableRow_def split: list.splits)
  then have "r \<in> set ?due" by (metis list.set_intros(1) set_sort)
  then show "r \<in> set (db_deliveries db)" "row_dispatchable now r" by simp_all
  assume "r' \<in> set (db_deliveries db)" and "row_dispatchable now r'"
  then have "r' \<in> set (sort_key ?key ?due)" by simp
  moreover have "sorted (map ?key (sort_key ?key ?due))" by (rule sorted_sort_key)
  ultimately show "?key r \<le> ?key r'" unfolding rs by auto
qed

lemma classify_ready:
  assumes "classify_dispatchable db row = Cand_ready d" and "row_dispatchable now row"
  shows "d = hydrateDelivery db row" and "\<not> dl_storageIntegrityInvalid d"
    and "canCancelDelivery (dl_status d)"
    and "dl_status d = Queued \<longrightarrow> dl_availableAt d \<le> now"
    and "dl_status d = Retrying \<longrightarrow> (\<exists>t. dl_nextAttemptAt d = Some t \<and> t \<le> now)"
proof -
  show d: "d = hydrateDelivery db row" and ok: "\<not> dl_storageIntegrityInvalid d"
    using assms(1) by (auto simp: classify_dispatchable_def Let_def split: if_splits)
  from assms(1) have at: "isCanonicalUtcTimestamp
      (if dr_status row = ''queued'' then Some (dr_available_at row) else dr_next_attempt_at row)"
    by (auto simp: classify_dispatchable_def Let_def split: if_splits)
  from ok obtain m d1 where conv: "deliveryRowToStored row m = Inr d1"
    and d1: "d = with_cancel_recovery (email_folder db (dr_email_id row)) d1"
    by (rule hydrate_integral [OF d [symmetric]])
  have status: "dr_status row = status_text (dl_status d)"
    using deliveryRowToStored_fields(4) [OF conv] by (simp add: d1 read_status_inverse)
  then show "canCancelDelivery (dl_status d)"
    using assms(2) by (auto simp: row_dispatchable_def canCancelDelivery_def status_text_sets)
  have times: "dl_availableAt d = stamp_value (dr_available_at row)"
    "dl_nextAttemptAt d = optional_stamp (dr_next_attempt_at row)"
    using conv
    by (auto simp: d1 with_cancel_recovery_def deliveryRowToStored_def bind_result_Inr Let_def split: if_splits)
  show "dl_status d = Queued \<longrightarrow> dl_availableAt d \<le> now"
    using at assms(2) times(1) status
    by (cases "dr_available_at row") (auto simp: row_dispatchable_def isCanonicalUtcTimestamp_def)
  show "dl_status d = Retrying \<longrightarrow> (\<exists>t. dl_nextAttemptAt d = Some t \<and> t \<le> now)"
    using at assms(2) times(2) status
    by (cases "dr_next_attempt_at row"; cases "the (dr_next_attempt_at row)")
      (auto simp: row_dispatchable_def isCanonicalUtcTimestamp_def optional_stamp_def)
qed

lemma candidate_ready:
  assumes "tx_findNextDispatchableCandidate db now = Some (Cand_ready d)" and "keys_ok db"
  shows "tx_getDelivery db (dl_id d) = Some d" and "\<not> dl_storageIntegrityInvalid d"
    and "canCancelDelivery (dl_status d)"
    and "dl_status d = Queued \<longrightarrow> dl_availableAt d \<le> now"
    and "dl_status d = Retrying \<longrightarrow> (\<exists>t. dl_nextAttemptAt d = Some t \<and> t \<le> now)"
proof -
  from assms(1) obtain row where row: "findNextDispatchableRow db now = Some row"
    and "classify_dispatchable db row = Cand_ready d"
    by (auto simp: tx_findNextDispatchableCandidate_def)
  note ready = classify_ready [OF this(2) findNextDispatchableRow_Some(2) [OF row]]
  from ready show "\<not> dl_storageIntegrityInvalid d" "canCancelDelivery (dl_status d)"
    "dl_status d = Queued \<longrightarrow> dl_availableAt d \<le> now"
    "dl_status d = Retrying \<longrightarrow> (\<exists>t. dl_nextAttemptAt d = Some t \<and> t \<le> now)" by blast+
  show "tx_getDelivery db (dl_id d) = Some d"
    using ready(1) find_delivery_row_distinct [OF assms(2) findNextDispatchableRow_Some(1) [OF row]]
    by (simp add: tx_getDelivery_def)
qed

lemma read_origin_unknown: "read_origin t = Some Origin_unknown \<Longrightarrow> t = ''unknown''"
  by (auto simp: read_origin_def split: if_splits)

lemma classify_failure:
  assumes "classify_dispatchable db row = Cand_integrity_failure i status outcome"
  shows "i = dr_id row" and "status = dr_status row"
    and "refusal (Option.bind (dr_retry_origin_status row) read_origin) outcome"
proof -
  from assms obtain s where "i = dr_id row" "status = dr_status row" "s \<in> {Unknown, Failed}"
    and out: "outcome = preserveUnknownRetryOrigin row s"
    by (auto simp: classify_dispatchable_def Let_def split: if_splits)
  then show "i = dr_id row" "status = dr_status row"
    and "refusal (Option.bind (dr_retry_origin_status row) read_origin) outcome"
    by (cases "dr_retry_origin_status row";
        auto simp: preserveUnknownRetryOrigin_def refusal_def dest: read_origin_unknown)+
qed

lemma view_repaired:
  "refusal o1 s \<Longrightarrow> view_row (repair_dispatch_row s now row) = Closed s"
  by (auto simp: view_row_def repair_dispatch_row_def refusal_def read_status_text view_fields_def)

lemma read_status_consts [simp]:
  "read_status ''queued'' = Some Queued" "read_status ''retrying'' = Some Retrying"
  "read_status ''sending'' = Some Sending" "read_status ''sent'' = Some Sent"
  by (simp_all add: read_status_def)

lemma row_dispatchable_view:
  "row_dispatchable now row \<Longrightarrow> view_row row = Waiting (Option.bind (dr_retry_origin_status row) read_origin)"
  by (auto simp: row_dispatchable_def view_row_def view_fields_def)

lemma tx_failDispatchableIntegrity_Inr:
  assumes "tx_failDispatchableIntegrity db i status outcome now = Inr db'"
  shows "db' = db\<lparr>db_deliveries := update_where (\<lambda>r. dr_id r = i \<and> dr_status r = status)
            (repair_dispatch_row outcome now) (db_deliveries db)\<rparr>"
  using assms by (simp add: tx_failDispatchableIntegrity_def Let_def split: if_splits)

lemma dr_id_repair [simp]: "dr_id (repair_dispatch_row s now row) = dr_id row"
  by (simp add: repair_dispatch_row_def)

lemma repair_step:
  assumes "tx_findNextDispatchableCandidate db now = Some (Cand_integrity_failure i status outcome)"
    and "keys_ok db" and "tx_failDispatchableIntegrity db i status outcome now = Inr db'"
  shows "one_key auto_step newborn (ledger_view db) (ledger_view db')" and "keys_ok db'"
proof -
  from assms(1) obtain row where row: "findNextDispatchableRow db now = Some row"
    and cls: "classify_dispatchable db row = Cand_integrity_failure i status outcome"
    by (auto simp: tx_findNextDispatchableCandidate_def)
  note db' = tx_failDispatchableIntegrity_Inr [OF assms(3)]
  note fail = classify_failure [OF cls]
  show "keys_ok db'" using assms(2) by (simp add: db' keys_ok_def keys_update_where)
  note at_row = find_delivery_row_distinct [OF assms(2) findNextDispatchableRow_Some(1) [OF row]]
  have "find_delivery_row db' j = (if j = i then Some (repair_dispatch_row outcome now row)
      else find_delivery_row db j)" for j
  proof -
    have "find_delivery_row db' j = map_option
        (\<lambda>r. if dr_id r = i \<and> dr_status r = status then repair_dispatch_row outcome now r else r)
        (find_delivery_row db j)"
      unfolding db' find_delivery_row_def by (simp add: find_update_where)
    then show ?thesis
      using at_row fail(1,2) by (cases "find_delivery_row db j") (auto dest: find_delivery_row_id)
  qed
  then have "ledger_view db' = (ledger_view db)(i \<mapsto> Closed outcome)"
    by (intro ext) (simp add: ledger_view_def view_repaired [OF fail(3)])
  moreover have "ledger_view db i = Some (Waiting (Option.bind (dr_retry_origin_status row) read_origin))"
    using at_row fail(1) row_dispatchable_view [OF findNextDispatchableRow_Some(2) [OF row]]
    by (simp add: ledger_view_def)
  ultimately show "one_key auto_step newborn (ledger_view db) (ledger_view db')"
    using fail(3) by (simp add: one_key_move)
qed

text \<open>One pass of the claim, then the loop.\<close>

lemma keys_ok_update [simp]: "keys_ok (tx_updateDelivery db d) = keys_ok db"
  by (simp add: keys_ok_def)

lemma lease_delivery_Inr:
  assumes "lease_delivery t now k d s db = Inr (r, db')" and "canCancelDelivery (dl_status d)"
  shows "r = Some \<lparr>cl_delivery = claimed_delivery_of Sending t (now + k) now d, cl_snapshot = s\<rparr>"
    and "db' = tx_updateDelivery db (claimed_delivery_of Sending t (now + k) now d)"
  using assms
  by (auto simp: lease_delivery_def ready_status_def canCancelDelivery_def transitionDelivery_def Let_def)

lemma claim_loop_step:
  assumes "claim_loop n t now k db = Inr (r, db')" and "keys_ok db"
  shows "(one_key auto_step newborn)\<^sup>*\<^sup>* (ledger_view db) (ledger_view db') \<and> keys_ok db'"
  using assms
proof (induction n arbitrary: db)
  case (Suc n)
  show ?case
  proof (cases "tx_findNextDispatchableCandidate db now")
    case None
    with Suc.prems show ?thesis by simp
  next
    case (Some c)
    show ?thesis
    proof (cases c)
      case (Cand_integrity_failure i status outcome)
      with Some Suc.prems(1) obtain db1 where rep: "tx_failDispatchableIntegrity db i status outcome now = Inr db1"
        and rest: "claim_loop n t now k db1 = Inr (r, db')"
        by (auto simp: bind_result_Inr)
      note step = repair_step [OF Some [unfolded Cand_integrity_failure] Suc.prems(2) rep]
      from Suc.IH [OF rest step(2)] step(1) show ?thesis
        by (meson converse_rtranclp_into_rtranclp)
    next
      case (Cand_ready d)
      note ready = candidate_ready [OF Some [unfolded Cand_ready] Suc.prems(2)]
      note waiting = view_waiting [OF ready(3)]
      show ?thesis
      proof (cases "tx_getSnapshot db (dl_emailId d)")
        case None
        have "one_key auto_step newborn (ledger_view db)
            (ledger_view (tx_updateDelivery db (snapshot_missing_failure now d)))"
          by (intro rewrite_step [OF ready(1,2)]) (simp_all add: waiting refusal_unless_unknown)
        moreover have "claim_loop n t now k (tx_updateDelivery db (snapshot_missing_failure now d)) = Inr (r, db')"
          using Suc.prems(1) Some Cand_ready None by simp
        ultimately show ?thesis
          using Suc.IH Suc.prems(2) by (meson converse_rtranclp_into_rtranclp keys_ok_update)
      next
        case (Some s)
        with Suc.prems(1) \<open>tx_findNextDispatchableCandidate db now = Some c\<close> Cand_ready
        have "lease_delivery t now k d s db = Inr (r, db')" by simp
        note leased = lease_delivery_Inr [OF this ready(3)]
        have "one_key auto_step newborn (ledger_view db) (ledger_view db')"
          unfolding leased(2) by (intro rewrite_step [OF ready(1,2)]) (simp_all add: waiting)
        then show ?thesis using Suc.prems(2) leased(2) by auto
      qed
    qed
  qed
qed simp

text \<open>Expired leases: the row that was listed is still as it was when its turn comes.\<close>

lemma hydrateExpired_cases:
  "dl_status (hydrateExpiredDelivery db row) = dl_status (hydrateDelivery db row)"
  "dl_id (hydrateExpiredDelivery db row) = dr_id row"
  "dl_recoveryIntegrityCode (hydrateExpiredDelivery db row) = None \<Longrightarrow>
     hydrateExpiredDelivery db row = hydrateDelivery db row \<and> phaseMetadataValid row"
  by (cases "dl_storageIntegrityInvalid (hydrateDelivery db row)"; cases "phaseMetadataValid row";
      cases "leaseMetadataValid row"; simp add: hydrateExpiredDelivery_def Let_def)+

lemma view_sending:
  "dl_status (hydrateDelivery db row) = Sending \<Longrightarrow> auto_step (view_row row) (Closed Unknown)"
proof -
  assume sending: "dl_status (hydrateDelivery db row) = Sending"
  then have "view_row row = view_of (hydrateDelivery db row)"
    by (intro hydrate_view hydrate_readable) simp
  with sending show ?thesis
    by (simp add: view_of_def view_fields_def refusal_def split: option.split dispatch_phase.split)
qed

lemma fold_updateAttempt [simp]:
  "db_deliveries (fold (\<lambda>a s. tx_updateAttempt s (f a)) as db) = db_deliveries db"
  "db_emails (fold (\<lambda>a s. tx_updateAttempt s (f a)) as db) = db_emails db"
  by (induction as arbitrary: db) simp_all

lemma row_rewrite_step:
  assumes "find_delivery_row db (dl_id d) = Some row" and "move (view_row row) (view_of d)"
    and "db_deliveries db' = db_deliveries (tx_updateDelivery db d)"
  shows "one_key move born (ledger_view db) (ledger_view db')"
  unfolding ledger_view_deliveries [OF assms(3)]
  using assms(1,2) by (subst ledger_view_update) (auto simp: ledger_view_def intro!: one_key_move)

definition expired_rewrite :: "outbox_db \<Rightarrow> delivery_row \<Rightarrow> outbox_db \<Rightarrow> bool" where
  "expired_rewrite db row db' \<longleftrightarrow> db_emails db' = db_emails db \<and>
     (db_deliveries db' = db_deliveries db \<or>
      (\<exists>d. dl_id d = dr_id row \<and> auto_step (view_row row) (view_of d) \<and>
           db_deliveries db' = db_deliveries (tx_updateDelivery db d)))"

lemma recover_expired_rewrite:
  assumes "find_delivery_row db (dr_id row) = Some row"
    and "recover_expired now (hydrateExpiredDelivery db row) db = Inr (r, db')"
  shows "expired_rewrite db row db'"
proof -
  define d where "d = hydrateExpiredDelivery db row"
  define unsafe where "unsafe = unsafe_attempts d (tx_listAttemptsByDelivery db (dl_id d))"
  consider (skip) "dl_status d \<noteq> Sending \<or> lease_still_held now d"
    | (preflight) "dl_status d = Sending" "\<not> lease_still_held now d"
        "dl_dispatchPhase d = Some Preflight" "dl_recoveryIntegrityCode d = None" "unsafe = []"
    | (lost) "dl_status d = Sending" "\<not> lease_still_held now d"
        "\<not> (dl_dispatchPhase d = Some Preflight \<and> dl_recoveryIntegrityCode d = None \<and> unsafe = [])"
    by argo
  then show ?thesis
  proof cases
    case skip
    then show ?thesis using assms(2) by (auto simp: recover_expired_def d_def expired_rewrite_def)
  next
    case preflight
    from preflight(4) have h: "d = hydrateDelivery db row"
      and phase: "dr_dispatch_phase row = Some ''preflight'' \<longrightarrow> dr_active_attempt_id row = None"
      using hydrateExpired_cases(3) [of db row] by (auto simp: d_def phaseMetadataValid_def)
    have ok: "\<not> dl_storageIntegrityInvalid d" using hydrate_readable preflight(1) h by simp
    have cols: "dl_dispatchPhase d = Option.bind (dr_dispatch_phase row) read_phase"
      "dl_activeAttemptId d = dr_active_attempt_id row"
      by (rule hydrate_integral [OF h [symmetric] ok],
          auto simp: with_cancel_recovery_def deliveryRowToStored_def bind_result_Inr Let_def
          split: if_splits)+
    have "dr_dispatch_phase row = Some ''preflight''"
      using cols(1) preflight(3) by (cases "dr_dispatch_phase row") (auto simp: read_phase_def split: if_splits)
    then have "dl_activeAttemptId d = None" using phase cols(2) by simp
    moreover obtain t where "dl_leaseToken d = Some t"
      using preflight(2,4) by (cases "dl_leaseToken d") (auto simp: lease_still_held_def)
    ultimately have "view_row row = Checking t (dl_retryOriginStatus d)"
      using hydrate_view [of db row] ok h preflight(1,3) by (simp add: view_checking)
    moreover have "db' = tx_updateDelivery db (expired_preflight now Retrying d)"
      using assms(2) preflight
      by (auto simp: recover_expired_def d_def [symmetric] unsafe_def [symmetric] transitionDelivery_def Let_def)
    ultimately show ?thesis
      by (auto simp: expired_rewrite_def d_def hydrateExpired_cases(2)
          intro!: exI [of _ "expired_preflight now Retrying d"])
  next
    case lost
    let ?d = "unknown_delivery Unknown now (recovery_code d unsafe) (Some (recovery_message d unsafe)) d"
    have "db' = fold (\<lambda>a s. tx_updateAttempt s a)
        (map (mark_attempt_unknown now (recovery_code d unsafe)) (filter (\<lambda>a. at_status a \<noteq> Att_accepted) unsafe))
        (tx_updateDelivery db ?d)"
      using assms(2) lost
      by (auto simp: recover_expired_def d_def [symmetric] unsafe_def [symmetric] transitionDelivery_def Let_def)
    then have "db_deliveries db' = db_deliveries (tx_updateDelivery db ?d)" and "db_emails db' = db_emails db"
      by (simp_all add: fold_map comp_def)
    moreover have "auto_step (view_row row) (view_of ?d)"
      using view_sending lost(1) by (simp add: d_def hydrateExpired_cases(1))
    ultimately show ?thesis
      by (auto simp: expired_rewrite_def d_def hydrateExpired_cases(2) intro!: exI [of _ ?d])
  qed
qed

lemma expired_rewrite_frame:
  assumes "expired_rewrite db row db'" and "find_delivery_row db (dr_id row) = Some row" and "keys_ok db"
  shows "(one_key auto_step newborn)\<^sup>*\<^sup>* (ledger_view db) (ledger_view db')" and "keys_ok db'"
    and "i \<noteq> dr_id row \<Longrightarrow> find_delivery_row db' i = find_delivery_row db i"
proof -
  from assms(1) consider (same) "db_deliveries db' = db_deliveries db"
    | (moved) d where "dl_id d = dr_id row" "auto_step (view_row row) (view_of d)"
        "db_deliveries db' = db_deliveries (tx_updateDelivery db d)"
    by (auto simp: expired_rewrite_def)
  then show "(one_key auto_step newborn)\<^sup>*\<^sup>* (ledger_view db) (ledger_view db')"
  proof cases
    case same
    show ?thesis unfolding ledger_view_deliveries [OF same] by simp
  next
    case moved
    then show ?thesis
      using row_rewrite_step [where d = d] assms(2) by (intro r_into_rtranclp) simp
  qed
  from assms(1) have ids: "map dr_id (db_deliveries db') = map dr_id (db_deliveries db)"
    by (auto simp: expired_rewrite_def)
  with assms(3) show "keys_ok db'" unfolding keys_ok_def by simp
  assume "i \<noteq> dr_id row"
  with assms(1) show "find_delivery_row db' i = find_delivery_row db i"
    by (auto simp: expired_rewrite_def find_delivery_row_def [of db']
        find_delivery_row_def [of "tx_updateDelivery db d" for d, symmetric] find_delivery_row_update
        find_delivery_row_def [of db, symmetric])
qed

lemma recover_loop_step:
  assumes "recover_loop now (map (hydrateExpiredDelivery db) rows) db = Inr (r, db')" and "keys_ok db"
    and "distinct (map dr_id rows)" and "\<And>row. row \<in> set rows \<Longrightarrow> find_delivery_row db (dr_id row) = Some row"
  shows "(one_key auto_step newborn)\<^sup>*\<^sup>* (ledger_view db) (ledger_view db') \<and> keys_ok db'"
  using assms
proof (induction rows arbitrary: db r)
  case (Cons row rows)
  from Cons.prems(1) obtain r1 rs db1 where one: "recover_expired now (hydrateExpiredDelivery db row) db = Inr (r1, db1)"
    and rest: "recover_loop now (map (hydrateExpiredDelivery db) rows) db1 = Inr (rs, db')"
    by (auto simp: bind_result_Inr)
  have row: "find_delivery_row db (dr_id row) = Some row" using Cons.prems(4) by simp
  note rw = recover_expired_rewrite [OF row one]
  note frame = expired_rewrite_frame [OF rw row Cons.prems(2)]
  have "db_emails db1 = db_emails db" using rw by (simp add: expired_rewrite_def)
  then have "hydrateExpiredDelivery db1 = hydrateExpiredDelivery db"
    unfolding hydrateExpiredDelivery_def by (simp add: hydrate_db(2) [of db1 db])
  with rest have "recover_loop now (map (hydrateExpiredDelivery db1) rows) db1 = Inr (rs, db')" by simp
  moreover have "find_delivery_row db1 (dr_id r') = Some r'" if "r' \<in> set rows" for r'
  proof -
    have "dr_id r' \<noteq> dr_id row" using that Cons.prems(3) by (simp, metis imageI)
    then show ?thesis using frame(3) Cons.prems(4) that by simp
  qed
  ultimately have "(one_key auto_step newborn)\<^sup>*\<^sup>* (ledger_view db1) (ledger_view db') \<and> keys_ok db'"
    using Cons.IH [OF _ frame(2)] Cons.prems(3) by simp
  with frame(1) show ?case by auto
qed simp

lemma recoverExpiredLeases_step:
  assumes "recoverExpiredLeases now db = Inr (r, db')" and "keys_ok db"
  shows "(one_key auto_step newborn)\<^sup>*\<^sup>* (ledger_view db) (ledger_view db') \<and> keys_ok db'"
proof (rule recover_loop_step)
  let ?rows = "filter (\<lambda>r. dr_status r = ''sending'' \<and> lease_expired_or_odd now r) (db_deliveries db)"
  show "recover_loop now (map (hydrateExpiredDelivery db) ?rows) db = Inr (r, db')"
    using assms(1) by (simp add: recoverExpiredLeases_def tx_listExpiredSending_def)
  show "distinct (map dr_id ?rows)" using assms(2) by (simp add: keys_ok_def distinct_map_filter)
  show "find_delivery_row db (dr_id row) = Some row" if "row \<in> set ?rows" for row
    using that find_delivery_row_distinct [OF assms(2)] by simp
qed (rule assms(2))

subsection \<open>Commands that change no status\<close>

lemma ledger_view_update_where:
  assumes "\<And>r. P r \<Longrightarrow> dr_id (f r) = dr_id r" and "\<And>r. P r \<Longrightarrow> view_row (f r) = view_row r"
  shows "ledger_view (db\<lparr>db_deliveries := update_where P f (db_deliveries db)\<rparr>) = ledger_view db"
  by (rule ext)
    (auto simp: ledger_view_def find_delivery_row_def find_update_where assms
      option.map_comp intro!: map_option_cong split: option.splits)

lemma deferAccepted_view [simp]:
  "ledger_view (tx_deferAcceptedReconciliation db i at c m) = ledger_view db"
  "keys_ok (tx_deferAcceptedReconciliation db i at c m) = keys_ok db"
  unfolding tx_deferAcceptedReconciliation_def
  by (rule ledger_view_update_where; simp add: view_row_def) (simp add: keys_ok_def keys_update_where)

lemma completeAccepted_view [simp]:
  "ledger_view (tx_completeAcceptedReconciliation db i) = ledger_view db"
  "keys_ok (tx_completeAcceptedReconciliation db i) = keys_ok db"
  unfolding tx_completeAcceptedReconciliation_def
  by (rule ledger_view_update_where; simp add: view_row_def) (simp add: keys_ok_def keys_update_where)

lemma reconcile_rows_view:
  "reconcile_rows now rows db = (ds, db') \<Longrightarrow> ledger_view db' = ledger_view db \<and> keys_ok db' = keys_ok db"
  by (induction now rows db arbitrary: ds rule: reconcile_rows.induct)
    (auto simp: Let_def split: if_splits prod.splits)

lemma listUnreconciledAccepted_view:
  "listUnreconciledAccepted now limit db = (ds, db') \<Longrightarrow> ledger_view db' = ledger_view db \<and> keys_ok db' = keys_ok db"
  unfolding listUnreconciledAccepted_def tx_listUnreconciledAccepted_def by (rule reconcile_rows_view)

subsection \<open>Enqueueing is a birth\<close>

lemma replay_existing_Inr:
  "replay_existing c db d = Inr r \<Longrightarrow>
     eq_delivery r = d \<and> eq_replayed r \<and> dl_commandFingerprint d = Some (cm_commandFingerprint c) \<and>
     tx_getSnapshot db (dl_emailId d) = Some (eq_snapshot r)"
  by (auto simp: replay_existing_def bind_result_Inr dest: assertReplayFingerprint_Inr split: option.splits)

lemma enqueue_cases:
  assumes "enqueue cb di ei pend c db = Inr (r, db')"
  obtains (replay) d where "db' = db" and "eq_replayed r" and "eq_delivery r = d"
      and "dl_commandFingerprint d = Some (cm_commandFingerprint c)"
      and "tx_findDeliveryByIdempotencyKey db (cm_idempotencyKey c) = Some d \<or>
           (\<exists>i v. sn_draftId (cm_snapshot c) = Some i \<and> sn_draftVersion (cm_snapshot c) = Some v \<and>
                  tx_findDeliveryBySourceDraft db i v = Some d)"
  | (fresh) sd where "tx_findDeliveryByIdempotencyKey db (cm_idempotencyKey c) = None"
      and "validateSourceDraftReference (cm_snapshot c) = Inr sd" and "delivery_of_draft db sd = None"
      and "enqueue_fresh di ei pend c sd db = Inr (r, db')"
proof -
  from assms have run: "(case tx_findDeliveryByIdempotencyKey db (cm_idempotencyKey c) of
          Some existing \<Rightarrow> bind_result (replay_existing c db existing) (\<lambda>r. Inr (r, db))
        | None \<Rightarrow>
            bind_result (validateSourceDraftReference (cm_snapshot c)) (\<lambda>sourceDraft.
              case delivery_of_draft db sourceDraft of
                Some sameDraft \<Rightarrow> bind_result (replay_existing c db sameDraft) (\<lambda>r. Inr (r, db))
              | None \<Rightarrow> enqueue_fresh di ei pend c sourceDraft db)) = Inr (r, db')"
    by (auto simp: enqueue_def bind_result_Inr)
  show ?thesis
  proof (cases "tx_findDeliveryByIdempotencyKey db (cm_idempotencyKey c)")
    case (Some d)
    with run have "replay_existing c db d = Inr r" and "db' = db" by (auto simp: bind_result_Inr)
    with Some show ?thesis by (intro replay [of d]) (auto dest: replay_existing_Inr)
  next
    case None
    with run obtain sd where sd: "validateSourceDraftReference (cm_snapshot c) = Inr sd"
      and rest: "(case delivery_of_draft db sd of
                Some sameDraft \<Rightarrow> bind_result (replay_existing c db sameDraft) (\<lambda>r. Inr (r, db))
              | None \<Rightarrow> enqueue_fresh di ei pend c sd db) = Inr (r, db')"
      by (auto simp: bind_result_Inr)
    show ?thesis
    proof (cases "delivery_of_draft db sd")
      case None
      with rest \<open>tx_findDeliveryByIdempotencyKey db (cm_idempotencyKey c) = None\<close> sd
      show ?thesis by (intro fresh) simp_all
    next
      case (Some d)
      with rest have "replay_existing c db d = Inr r" and "db' = db" by (auto simp: bind_result_Inr)
      moreover obtain i v where "sn_draftId (cm_snapshot c) = Some i" "sn_draftVersion (cm_snapshot c) = Some v"
          "tx_findDeliveryBySourceDraft db i v = Some d"
        using Some validateSourceDraftReference_Inr [of "cm_snapshot c" "fst sd" "snd sd"] sd
        by (auto simp: delivery_of_draft_def split: prod.splits option.splits)
      ultimately show ?thesis by (intro replay [of d]) (auto dest: replay_existing_Inr)
    qed
  qed
qed

lemma tx_insertSnapshot_Inr:
  assumes "tx_insertSnapshot db e s pend = Inr db1"
  obtains rows raw where "pendingAttachmentsToRows e s pend = Inr rows"
    and "serializeOutboundSnapshot s = Inr raw" and "find_email_row db e = None"
    and "db1 = db\<lparr>db_emails := db_emails db @ [snapshot_email_row e s raw],
                 db_attachments := db_attachments db @ rows\<rparr>"
  using assms
  by (auto simp: tx_insertSnapshot_def bind_result_Inr find_email_row_def find_None_iff split: if_splits)

lemma tx_insertDelivery_Inr:
  assumes "tx_insertDelivery db d = Inr db'"
  shows "find_delivery_row db (dl_id d) = None" and "find_email_row db (dl_emailId d) \<noteq> None"
    and "\<And>r. r \<in> set (db_deliveries db) \<Longrightarrow>
      dr_id r \<noteq> dl_id d \<and> dr_email_id r \<noteq> dl_emailId d \<and> dr_idempotency_key r \<noteq> dl_idempotencyKey d"
    and "db' = db\<lparr>db_deliveries := db_deliveries db @ [delivery_to_row d],
             db_emails := update_where (\<lambda>e. em_id e = dl_emailId d)
               (\<lambda>e. e\<lparr>em_date := Some (Canon (dl_createdAt d))\<rparr>) (db_emails db)\<rparr>"
  using assms
  by (auto simp: tx_insertDelivery_def find_delivery_row_def find_None_iff split: if_splits)

lemma enqueue_fresh_Inr:
  assumes "enqueue_fresh di ei pend c sd db = Inr (r, db')"
  obtains db1 where "check_source_draft db sd = Inr ()"
    and "tx_insertSnapshot db ei (cm_snapshot c) pend = Inr db1"
    and "tx_insertDelivery db1 (new_delivery di ei sd c) = Inr db'"
    and "r = \<lparr>eq_delivery = new_delivery di ei sd c, eq_snapshot = cm_snapshot c,
             eq_replayed = False, eq_outcome = Enqueued\<rparr>"
  using assms by (auto simp: enqueue_fresh_def bind_result_Inr Let_def)

lemma new_delivery_keys [simp]:
  "dl_id (new_delivery di ei sd c) = di" "dl_emailId (new_delivery di ei sd c) = ei"
  "dl_idempotencyKey (new_delivery di ei sd c) = cm_idempotencyKey c"
  by (simp_all add: new_delivery_def)

lemma delivery_to_row_keys [simp]:
  "dr_id (delivery_to_row d) = dl_id d" "dr_email_id (delivery_to_row d) = dl_emailId d"
  "dr_idempotency_key (delivery_to_row d) = dl_idempotencyKey d"
  by (simp_all add: delivery_to_row_def)

lemma view_new: "view_row (delivery_to_row (new_delivery di ei sd c)) = Waiting None"
  by (simp add: view_row_def delivery_to_row_def new_delivery_def view_fields_def)

lemma enqueue_step:
  assumes "enqueue cb di ei pend c db = Inr (r, db')" and "keys_ok db"
  shows "(one_key auto_step newborn)\<^sup>*\<^sup>* (ledger_view db) (ledger_view db') \<and> keys_ok db'"
  using assms(1)
proof (cases rule: enqueue_cases)
  case (fresh sd)
  from fresh(4) show ?thesis
  proof (rule enqueue_fresh_Inr)
    fix db1
    assume snap: "tx_insertSnapshot db ei (cm_snapshot c) pend = Inr db1"
      and ins: "tx_insertDelivery db1 (new_delivery di ei sd c) = Inr db'"
    from snap have dels: "db_deliveries db1 = db_deliveries db" by (rule tx_insertSnapshot_Inr) simp
    note ins = tx_insertDelivery_Inr [OF ins]
    have fresh: "find_delivery_row db di = None" using ins(1) dels by (simp add: find_delivery_row_def)
    have "find_delivery_row db' i = (if i = di then Some (delivery_to_row (new_delivery di ei sd c))
        else find_delivery_row db i)" for i
      using fresh dels ins(4) by (auto simp: find_delivery_row_def find_append split: option.splits)
    then have "ledger_view db' = (ledger_view db)(di \<mapsto> Waiting None)"
      by (intro ext) (simp add: ledger_view_def view_new)
    moreover have "ledger_view db di = None" using fresh by (simp add: ledger_view_def)
    ultimately have "one_key auto_step newborn (ledger_view db) (ledger_view db')"
      by (simp add: one_key_born newborn_def)
    moreover have "keys_ok db'"
      using assms(2) ins(3,4) dels by (fastforce simp: keys_ok_def)
    ultimately show ?thesis by blast
  qed
qed (use assms(2) in auto)

end
