(* ===== verification/Lease_Protocol.thy ===== *)
theory Lease_Protocol
  imports Portal_Prelude
begin

text \<open>
  The interface of every queue of the portal whose work is done under a lease: a record has at most
  one holder, only the holder can settle it, and settling ends the lease. Clients rely on one
  consequence: between two claims a record is settled at most once, whoever tries and however often.
\<close>

locale lease_protocol =
  fixes holder :: "'s \<Rightarrow> 'k \<Rightarrow> 't option"
    and settle :: "'o \<Rightarrow> 'k \<Rightarrow> 't \<Rightarrow> 's \<Rightarrow> 's option"
    and sound :: "'s \<Rightarrow> bool"
  assumes settle_held: "sound s \<Longrightarrow> settle out k t s = Some s' \<Longrightarrow> holder s k = Some t"
    and settle_releases: "sound s \<Longrightarrow> settle out k t s = Some s' \<Longrightarrow> holder s' k = None"
    and settle_frame: "sound s \<Longrightarrow> settle out k t s = Some s' \<Longrightarrow> k' \<noteq> k \<Longrightarrow> holder s' k' = holder s k'"
    and settle_sound: "sound s \<Longrightarrow> settle out k t s = Some s' \<Longrightarrow> sound s'"
begin

lemma wrong_token: "sound s \<Longrightarrow> holder s k \<noteq> Some t \<Longrightarrow> settle out k t s = None"
  using settle_held by (cases "settle out k t s") auto

lemma settle_once: "sound s \<Longrightarrow> settle out k t s = Some s' \<Longrightarrow> settle out' k t' s' = None"
  by (metis option.distinct(1) settle_releases settle_sound wrong_token)

text \<open>A sequence of settlement requests; a refused request changes nothing.\<close>

fun settled_keys :: "('o \<times> 'k \<times> 't) list \<Rightarrow> 's \<Rightarrow> 'k list" where
  "settled_keys [] s = []"
| "settled_keys ((out, k, t) # reqs) s =
     (case settle out k t s of
        None \<Rightarrow> settled_keys reqs s
      | Some s' \<Rightarrow> k # settled_keys reqs s')"

lemma settled_held: "sound s \<Longrightarrow> k \<in> set (settled_keys reqs s) \<Longrightarrow> holder s k \<noteq> None"
proof (induction reqs s rule: settled_keys.induct)
  case (2 out k' t reqs s)
  show ?case
  proof (cases "settle out k' t s")
    case (Some s')
    show ?thesis
    proof (cases "k = k'")
      case False
      with 2 Some have "holder s' k \<noteq> None" by (auto dest: settle_sound)
      with 2 Some False show ?thesis by (simp add: settle_frame)
    qed (use 2 Some settle_held in auto)
  qed (use 2 in simp)
qed simp

lemma settled_distinct: "sound s \<Longrightarrow> distinct (settled_keys reqs s)"
proof (induction reqs s rule: settled_keys.induct)
  case (2 out k t reqs s)
  show ?case
  proof (cases "settle out k t s")
    case (Some s')
    with 2 have "sound s'" and "holder s' k = None" by (auto dest: settle_sound settle_releases)
    with 2 Some show ?thesis using settled_held by fastforce
  qed (use 2 in simp)
qed simp

end

end
