(* ===== verification/Outbound_Machine.thy ===== *)
theory Outbound_Machine
  imports Outbound_Lifecycle Lease_Protocol
begin

text \<open>
  Every command the portal issues to the outbox as one operation type, the state machine they make,
  and the guarantees that hold of every sequence of commands. A command that throws is a command that
  changed nothing.
\<close>

datatype settlement =
  Settle_retryable retryable_details
| Settle_definitive failure_details
| Settle_unknown failure_details
| Settle_accepted string instant

definition settle_attempt ::
  "settlement \<Rightarrow> string \<Rightarrow> string \<Rightarrow> outbox_db \<Rightarrow> finalized_attempt tx_result" where
  "settle_attempt out i t db =
     (case out of
        Settle_retryable rd \<Rightarrow> finalizeRetryableFailure i t rd db
      | Settle_definitive fd \<Rightarrow> finalizeDefinitiveFailure i t fd db
      | Settle_unknown fd \<Rightarrow> finalizeUnknown i t fd db
      | Settle_accepted ses at \<Rightarrow> finalizeAccepted i t ses at db)"

datatype outbox_op =
  Op_enqueue "enqueued_delivery \<Rightarrow> outbox_error + unit" string string "pending_attachment list" enqueue_command
| Op_cancel "stored_delivery \<Rightarrow> cancel_outcome \<Rightarrow> outbox_error + unit" string delivery_actor instant
| Op_claim string instant int
| Op_defer_preflight string string retryable_details
| Op_fail_preflight string string failure_details
| Op_begin_attempt string string string instant int
| Op_settle settlement string string
| Op_retry_failed "stored_delivery \<Rightarrow> outbox_error + unit" string delivery_actor instant
| Op_retry_unknown "stored_delivery \<Rightarrow> outbox_error + unit" string delivery_actor bool instant
| Op_bounce string bounce_details
| Op_recover_leases instant
| Op_list_unreconciled instant int
| Op_defer_reconciliation string instant string string
| Op_complete_reconciliation string

definition commit :: "outbox_db \<Rightarrow> 'a tx_result \<Rightarrow> outbox_db" where
  "commit db r = (case r of Inl e \<Rightarrow> db | Inr (x, db') \<Rightarrow> db')"

primrec run_op :: "outbox_op \<Rightarrow> outbox_db \<Rightarrow> outbox_db" where
  "run_op (Op_enqueue cb di ei pend c) db = commit db (enqueue cb di ei pend c db)"
| "run_op (Op_cancel cb i actor at) db = commit db (cancel cb i actor at db)"
| "run_op (Op_claim t now k) db = commit db (claimNextForPreflight t now k db)"
| "run_op (Op_defer_preflight i t rd) db = commit db (deferPreflight i t rd db)"
| "run_op (Op_fail_preflight i t fd) db = commit db (failPreflight i t fd db)"
| "run_op (Op_begin_attempt i t a at k) db = commit db (beginProviderAttempt i t a at k db)"
| "run_op (Op_settle out i t) db = commit db (settle_attempt out i t db)"
| "run_op (Op_retry_failed cb i actor at) db = commit db (retryFailed cb i actor at db)"
| "run_op (Op_retry_unknown cb i actor ack at) db = commit db (retryUnknown cb i actor ack at db)"
| "run_op (Op_bounce i bd) db = commit db (markBounced i bd db)"
| "run_op (Op_recover_leases now) db = commit db (recoverExpiredLeases now db)"
| "run_op (Op_list_unreconciled now limit) db = snd (listUnreconciledAccepted now limit db)"
| "run_op (Op_defer_reconciliation i at c m) db = deferAcceptedReconciliation i at c m db"
| "run_op (Op_complete_reconciliation i) db = completeAcceptedReconciliation i db"

fun acknowledged :: "outbox_op \<Rightarrow> bool" where
  "acknowledged (Op_retry_unknown cb i actor ack at) = ack"
| "acknowledged _ = False"

inductive outbox_step :: "outbox_db \<Rightarrow> outbox_db \<Rightarrow> bool" where
  run: "outbox_step db (run_op op1 db)"

text \<open>Steps in which nobody accepts the risk of a duplicate.\<close>

inductive unattended_step :: "outbox_db \<Rightarrow> outbox_db \<Rightarrow> bool" where
  run: "\<not> acknowledged op1 \<Longrightarrow> unattended_step db (run_op op1 db)"

inductive_cases outbox_step_cases: "outbox_step db db'"
inductive_cases unattended_step_cases: "unattended_step db db'"

subsection \<open>The machine refines the life cycle\<close>

lemma keys_ok_deliveries:
  "map dr_id (db_deliveries db') = map dr_id (db_deliveries db) \<Longrightarrow> keys_ok db' = keys_ok db"
  by (simp add: keys_ok_def)

lemma settle_attempt_settles: "settle_attempt out i t db = Inr (r, db') \<Longrightarrow> settles db i t db'"
  by (cases out) (auto simp: settle_attempt_def intro: finalizeRetryableFailure_settles
      finalizeDefinitiveFailure_settles finalizeUnknown_settles finalizeAccepted_settles)

lemmas settle_attempt_step = settles_step [OF settle_attempt_settles]

text \<open>The commands that touch one delivery keep every key.\<close>

lemma settle_attempt_ids:
  assumes "settle_attempt out i t db = Inr (r, db')"
  shows "map dr_id (db_deliveries db') = map dr_id (db_deliveries db)"
proof (cases out)
  case (Settle_accepted ses at)
  with assms have "finalizeAccepted i t ses at db = Inr (r, db')" by (simp add: settle_attempt_def)
  then show ?thesis by (rule finalizeAccepted_cases) (simp add: tx_recordAcceptedRecovery_deliveries)
qed (use assms in \<open>auto simp: settle_attempt_def finalizeRetryableFailure_def
    finalizeDefinitiveFailure_def finalizeUnknown_def bind_result_Inr Let_def split: if_splits\<close>)

lemma single_ids:
  "cancel cb i actor at db = Inr (r1, db') \<Longrightarrow> map dr_id (db_deliveries db') = map dr_id (db_deliveries db)"
  "deferPreflight i t rd db = Inr (r2, db') \<Longrightarrow> map dr_id (db_deliveries db') = map dr_id (db_deliveries db)"
  "failPreflight i t fd db = Inr (r3, db') \<Longrightarrow> map dr_id (db_deliveries db') = map dr_id (db_deliveries db)"
  "retryFailed cb2 i actor at db = Inr (r5, db') \<Longrightarrow> map dr_id (db_deliveries db') = map dr_id (db_deliveries db)"
  "retryUnknown cb2 i actor ack at db = Inr (r6, db') \<Longrightarrow> map dr_id (db_deliveries db') = map dr_id (db_deliveries db)"
  "markBounced i bd db = Inr (r7, db') \<Longrightarrow> map dr_id (db_deliveries db') = map dr_id (db_deliveries db)"
  by (auto simp: cancel_def deferPreflight_def failPreflight_def retryFailed_def retryUnknown_def
      markBounced_def bind_result_Inr Let_def split: if_splits option.splits)

lemma begin_ids:
  "beginProviderAttempt i t a at k db = Inr (r, db') \<Longrightarrow>
     map dr_id (db_deliveries db') = map dr_id (db_deliveries db)"
  by (erule beginProviderAttempt_cases) (simp add: tx_insertAttempt_deliveries)

definition machine_step :: "outbox_db \<Rightarrow> outbox_db \<Rightarrow> bool" where
  "machine_step db db' \<longleftrightarrow> (one_key auto_step newborn)\<^sup>*\<^sup>* (ledger_view db) (ledger_view db') \<and> keys_ok db'"

lemma machine_stepI:
  "keys_ok db \<Longrightarrow> one_key auto_step newborn (ledger_view db) (ledger_view db') \<Longrightarrow>
     map dr_id (db_deliveries db') = map dr_id (db_deliveries db) \<Longrightarrow> machine_step db db'"
  unfolding machine_step_def keys_ok_def by simp

lemma machine_stay: "keys_ok db \<Longrightarrow> machine_step db db"
  by (simp add: machine_step_def)

lemma machine_commit:
  assumes "keys_ok db" and "\<And>x db'. r = Inr (x, db') \<Longrightarrow> machine_step db db'"
  shows "machine_step db (commit db r)"
  using assms machine_stay by (auto simp: commit_def split: sum.split)

lemma run_op_auto:
  assumes "keys_ok db" and "\<not> acknowledged op1"
  shows "machine_step db (run_op op1 db)"
proof (cases op1)
  case (Op_enqueue cb di ei pend c)
  show ?thesis
    unfolding Op_enqueue run_op.simps
    using enqueue_step assms(1) by (intro machine_commit) (auto simp: machine_step_def)
next
  case (Op_cancel cb i actor at)
  show ?thesis
    unfolding Op_cancel run_op.simps
    using cancel_step single_ids(1) by (intro machine_commit machine_stepI assms(1))
next
  case (Op_claim t now k)
  show ?thesis
    unfolding Op_claim run_op.simps claimNextForPreflight_def
    using claim_loop_step assms(1) by (intro machine_commit) (auto simp: machine_step_def)
next
  case (Op_defer_preflight i t rd)
  show ?thesis
    unfolding Op_defer_preflight run_op.simps
    using deferPreflight_step single_ids(2) by (intro machine_commit machine_stepI assms(1))
next
  case (Op_fail_preflight i t fd)
  show ?thesis
    unfolding Op_fail_preflight run_op.simps
    using failPreflight_step single_ids(3) by (intro machine_commit machine_stepI assms(1))
next
  case (Op_begin_attempt i t a at k)
  show ?thesis
    unfolding Op_begin_attempt run_op.simps
    using beginProviderAttempt_step begin_ids by (intro machine_commit machine_stepI assms(1))
next
  case (Op_settle out i t)
  show ?thesis
    unfolding Op_settle run_op.simps
    using settle_attempt_step settle_attempt_ids by (intro machine_commit machine_stepI assms(1))
next
  case (Op_retry_failed cb i actor at)
  show ?thesis
    unfolding Op_retry_failed run_op.simps
    using retryFailed_step single_ids(4) by (intro machine_commit machine_stepI assms(1))
next
  case (Op_retry_unknown cb i actor ack at)
  then show ?thesis using assms machine_stay by (simp add: retryUnknown_def commit_def)
next
  case (Op_bounce i bd)
  show ?thesis
    unfolding Op_bounce run_op.simps
    using markBounced_step single_ids(6) by (intro machine_commit machine_stepI assms(1))
next
  case (Op_recover_leases now)
  show ?thesis
    unfolding Op_recover_leases run_op.simps
    using recoverExpiredLeases_step assms(1) by (intro machine_commit) (auto simp: machine_step_def)
next
  case (Op_list_unreconciled now limit)
  then show ?thesis
    using listUnreconciledAccepted_view [of now limit db "fst (listUnreconciledAccepted now limit db)"] assms(1)
    by (simp add: machine_step_def)
qed (use assms(1) in \<open>simp_all add: machine_step_def deferAcceptedReconciliation_def
    completeAcceptedReconciliation_def\<close>)

lemma auto_step_le: "auto_step \<le> delivery_step"
  by (auto intro: delivery_step.auto)

lemma one_key_mono: "move \<le> move' \<Longrightarrow> one_key move born \<le> one_key move' born"
proof (intro predicate2I)
  fix m m' assume le: "move \<le> move'" and "one_key move born m m'"
  then obtain k v' where "m' = m(k \<mapsto> v')" and "case m k of None \<Rightarrow> born v' | Some v \<Rightarrow> move v v'"
    by (auto simp: one_key_def)
  then show "one_key move' born m m'"
    using predicate2D [OF le] by (cases "m k") (simp_all add: one_key_born one_key_move)
qed

lemma run_op_any:
  assumes "keys_ok db"
  shows "(one_key delivery_step newborn)\<^sup>*\<^sup>* (ledger_view db) (ledger_view (run_op op1 db)) \<and>
     keys_ok (run_op op1 db)"
proof (cases "acknowledged op1")
  case False
  from run_op_auto [OF assms False] rtranclp_mono [OF one_key_mono [OF auto_step_le]] show ?thesis
    unfolding machine_step_def by blast
next
  case True
  then obtain cb i actor at where op1: "op1 = Op_retry_unknown cb i actor True at" by (cases op1) auto
  show ?thesis
  proof (cases "retryUnknown cb i actor True at db")
    case (Inr p)
    then obtain r db' where ok: "retryUnknown cb i actor True at db = Inr (r, db')" by (cases p) simp
    then have "keys_ok db'" using single_ids(5) [OF ok] keys_ok_deliveries assms by blast
    with ok retryUnknown_step [OF ok] show ?thesis by (auto simp: op1 commit_def)
  qed (use assms in \<open>simp add: op1 commit_def\<close>)
qed

interpretation outbox: keyed_machine ledger_view keys_ok outbox_step delivery_step newborn
  by unfold_locales (auto elim!: outbox_step_cases simp: run_op_any)

interpretation unattended: keyed_machine ledger_view keys_ok unattended_step auto_step newborn
  by unfold_locales (auto elim!: unattended_step_cases dest: run_op_auto simp: machine_step_def)

subsection \<open>Leases\<close>

definition lease_holder :: "outbox_db \<Rightarrow> string \<Rightarrow> string option" where
  "lease_holder db i = (case ledger_view db i of Some (In_flight t a o1) \<Rightarrow> Some t | _ \<Rightarrow> None)"

definition try_settle :: "settlement \<Rightarrow> string \<Rightarrow> string \<Rightarrow> outbox_db \<Rightarrow> outbox_db option" where
  "try_settle out i t db = (case settle_attempt out i t db of Inl e \<Rightarrow> None | Inr (r, db') \<Rightarrow> Some db')"

lemma try_settle_Some: "try_settle out i t db = Some db' \<longleftrightarrow> (\<exists>r. settle_attempt out i t db = Inr (r, db'))"
  by (auto simp: try_settle_def split: sum.splits)

lemma settles_holder:
  assumes "settles db i t db'"
  shows "lease_holder db i = Some t" and "lease_holder db' i = None"
    and "j \<noteq> i \<Longrightarrow> lease_holder db' j = lease_holder db j"
  using assms by (auto simp: settles_def lease_holder_def)

interpretation outbox_lease: lease_protocol lease_holder try_settle keys_ok
proof
  fix out k t and db db' :: outbox_db
  assume "keys_ok db" and "try_settle out k t db = Some db'"
  then obtain r where r: "settle_attempt out k t db = Inr (r, db')" by (auto simp: try_settle_Some)
  then have s: "settles db k t db'" by (rule settle_attempt_settles)
  show "lease_holder db k = Some t" "lease_holder db' k = None"
    and "k' \<noteq> k \<Longrightarrow> lease_holder db' k' = lease_holder db k'" for k'
    using settles_holder [OF s] by simp_all
  show "keys_ok db'" using settle_attempt_ids [OF r] keys_ok_deliveries \<open>keys_ok db\<close> by blast
qed

subsection \<open>What holds of every run\<close>

text \<open>
  By the commands of the service alone a sent message is never queued, leased or sent again: from then on
  it is sent or bounced, whatever commands run and in whatever order.
\<close>
theorem sent_is_final:
  assumes "outbox_step\<^sup>*\<^sup>* db db'" and "keys_ok db" and "ledger_view db i = Some (Closed Sent)"
  shows "ledger_view db' i \<in> {Some (Closed Sent), Some (Closed Bounced)}"
proof -
  have "\<exists>v. ledger_view db' i = Some v \<and> v \<in> {Closed Sent, Closed Bounced}"
    using assms by (rule outbox.run_stable) (auto elim!: delivery_step_cases)
  then show ?thesis by auto
qed

text \<open>
  A cancelled message stays cancelled: no command, retry or recovered lease sends it.
\<close>
theorem cancelled_is_final:
  assumes "outbox_step\<^sup>*\<^sup>* db db'" and "keys_ok db" and "ledger_view db i = Some (Closed Cancelled)"
  shows "ledger_view db' i = Some (Closed Cancelled)"
proof -
  have "\<exists>v. ledger_view db' i = Some v \<and> v = Closed Cancelled"
    using assms by (rule outbox.run_stable [where P = "\<lambda>v. v = Closed Cancelled"])
      (auto elim!: delivery_step_cases)
  then show ?thesis by simp
qed

text \<open>
  C4: While nobody acknowledges the risk of a duplicate, a message whose outcome is unknown is not
  sent again: no sequence of claims, retries, cancellations and lease recoveries queues it.
\<close>
theorem unknown_needs_acknowledgement:
  assumes "unattended_step\<^sup>*\<^sup>* db db'" and "keys_ok db" and "ledger_view db i = Some (Closed Unknown)"
  shows "ledger_view db' i \<in> {Some (Closed Unknown), Some (Closed Bounced)}"
proof -
  have "\<exists>v. ledger_view db' i = Some v \<and> v \<in> {Closed Unknown, Closed Bounced}"
    using assms by (rule unattended.run_stable) auto
  then show ?thesis by auto
qed

definition maybe_accepted :: "delivery_view \<Rightarrow> bool" where
  "maybe_accepted v \<longleftrightarrow>
     v \<in> {Closed Unknown, Closed Sent, Closed Bounced, Waiting (Some Origin_unknown)} \<or>
     (\<exists>t. v = Checking t (Some Origin_unknown)) \<or> (\<exists>t a. v = In_flight t a (Some Origin_unknown))"

text \<open>
  An outcome that was once unknown is never forgotten: even after an acknowledged retry the
  message is never shown as failed (which would allow a retry without acknowledgement) nor as
  cancelled.
\<close>
theorem unknown_is_never_forgotten:
  assumes "outbox_step\<^sup>*\<^sup>* db db'" and "keys_ok db" and "ledger_view db i = Some (Closed Unknown)"
  shows "ledger_view db' i \<notin> {Some (Closed Failed), Some (Closed Cancelled), Some (Waiting None)}"
proof -
  have "\<exists>v. ledger_view db' i = Some v \<and> maybe_accepted v"
    using assms
    by (rule outbox.run_stable) (auto simp: maybe_accepted_def refusal_def elim!: delivery_step_cases)
  then show ?thesis by (auto simp: maybe_accepted_def)
qed

text \<open>
  C1: One provider attempt has one outcome: among any settlement requests, by anyone, with any tokens
  and outcomes, at most one per message succeeds before the message is leased again, and only for a
  message that was in flight.
\<close>
theorem one_outcome_per_lease:
  assumes "keys_ok db"
  shows "distinct (outbox_lease.settled_keys reqs db) \<and>
     (\<forall>i \<in> set (outbox_lease.settled_keys reqs db). \<exists>t a o1. ledger_view db i = Some (In_flight t a o1))"
proof -
  have "\<exists>t a o1. ledger_view db i = Some (In_flight t a o1)" if "lease_holder db i \<noteq> None" for i
    using that by (simp add: lease_holder_def split: option.splits delivery_view.splits)
  then show ?thesis
    using outbox_lease.settled_distinct [OF assms] outbox_lease.settled_held [OF assms] by blast
qed

end
