(* ===== verification/Keyed_Store.thy ===== *)
theory Keyed_Store
  imports Portal_Prelude
begin

text \<open>
  The interface between a service and the store it keeps its records in: a record that is read, changed
  within what the store may change and written back reads as it was written, up to what the store
  itself derives on reading; other records are not touched.
\<close>

locale keyed_store =
  fixes get :: "'s \<Rightarrow> 'k \<Rightarrow> 'v option"
    and put :: "'s \<Rightarrow> 'v \<Rightarrow> 's"
    and key :: "'v \<Rightarrow> 'k"
    and readable :: "'v \<Rightarrow> bool"
    and fits :: "'v \<Rightarrow> 'v \<Rightarrow> bool"
    and shown :: "'s \<Rightarrow> 'v \<Rightarrow> 'v"
  assumes get_key: "get s k = Some v \<Longrightarrow> key v = k"
    and get_put: "get s (key v) = Some v0 \<Longrightarrow> readable v0 \<Longrightarrow> fits v0 v \<Longrightarrow>
      get (put s v) (key v) = Some (shown s v)"
    and get_put_other: "k \<noteq> key v \<Longrightarrow> get (put s v) k = get s k"
    and shown_put: "shown (put s v) w = shown s w"
    and fits_readable: "fits v0 v \<Longrightarrow> readable v0 \<Longrightarrow> readable (shown s v)"
    and fits_shown: "fits v w \<Longrightarrow> fits v0 v \<Longrightarrow> readable v0 \<Longrightarrow> fits (shown s v) w"
begin

text \<open>Two writes in a row: the second one wins, and two writes to different records commute.\<close>

lemma get_put_twice:
  assumes "get s (key v) = Some v0" and "readable v0" and "fits v0 v" and "fits v w" and "key w = key v"
  shows "get (put (put s v) w) (key w) = Some (shown s w)"
proof -
  have "get (put s v) (key w) = Some (shown s v)" using assms by (simp add: get_put)
  moreover have "readable (shown s v)" using assms by (blast intro: fits_readable)
  moreover have "fits (shown s v) w" using assms by (blast intro: fits_shown)
  ultimately have "get (put (put s v) w) (key w) = Some (shown (put s v) w)" by (rule get_put)
  then show ?thesis by (simp add: shown_put)
qed

lemma get_puts_commute:
  assumes "get s (key v) = Some v0" and "readable v0" and "fits v0 v"
    and "get s (key w) = Some w0" and "readable w0" and "fits w0 w" and "key v \<noteq> key w"
  shows "get (put (put s v) w) k = get (put (put s w) v) k"
  using assms
  by (cases "k = key v"; cases "k = key w") (simp_all add: get_put get_put_other shown_put)

end

end
