(* ===== verification/Outbound_Guarantees.thy ===== *)
theory Outbound_Guarantees
  imports Outbound_Machine Keyed_Store
begin

text \<open>
  What the commands of the outbox service do to the delivery they are asked about, stated over what a
  caller can read back: enqueueing is idempotent, a lease leads to exactly one settled attempt, a claim
  takes what is due, and recovery never queues a message that a provider may have seen.
\<close>

subsection \<open>The adapter as a keyed store\<close>

definition fits_delivery :: "stored_delivery \<Rightarrow> stored_delivery \<Rightarrow> bool" where
  "fits_delivery d0 d \<longleftrightarrow> same_identity d0 d \<and> valid_delivery d"

lemma same_identity_reloaded [simp]: "same_identity (reloaded db d) e = same_identity d e"
  by (simp add: reloaded_def same_identity_def [of "d\<lparr>dl_cancelRecoveryPending := None, dl_recoveryIntegrityCode := None\<rparr>"]
      same_identity_def [of d])

interpretation delivery_store: keyed_store tx_getDelivery tx_updateDelivery dl_id
  "\<lambda>d. \<not> dl_storageIntegrityInvalid d" fits_delivery reloaded
proof
  fix db k d d0 w
  show "tx_getDelivery db k = Some d \<Longrightarrow> dl_id d = k" by (rule tx_getDelivery_id)
  show "tx_getDelivery db (dl_id d) = Some d0 \<Longrightarrow> \<not> dl_storageIntegrityInvalid d0 \<Longrightarrow>
      fits_delivery d0 d \<Longrightarrow> tx_getDelivery (tx_updateDelivery db d) (dl_id d) = Some (reloaded db d)"
    by (simp add: fits_delivery_def tx_getDelivery_update_same)
  show "k \<noteq> dl_id d \<Longrightarrow> tx_getDelivery (tx_updateDelivery db d) k = tx_getDelivery db k"
    by (rule tx_getDelivery_update_other)
  show "reloaded (tx_updateDelivery db d) w = reloaded db w" by simp
  show "fits_delivery d0 d \<Longrightarrow> \<not> dl_storageIntegrityInvalid d0 \<Longrightarrow>
      \<not> dl_storageIntegrityInvalid (reloaded db d)"
    by (simp add: fits_delivery_def valid_delivery_def)
  show "fits_delivery d w \<Longrightarrow> fits_delivery d0 d \<Longrightarrow> \<not> dl_storageIntegrityInvalid d0 \<Longrightarrow>
      fits_delivery (reloaded db d) w"
    by (simp add: fits_delivery_def)
qed

text \<open>The edits the commands make are within what the adapter stores faithfully.\<close>

lemma same_identity_edits [simp]:
  "same_identity d (restored_delivery actor at o1 d)"
  "same_identity d (cancelled_delivery actor at s d)"
  "same_identity d (snapshot_missing_failure at d)"
  "same_identity d (claimed_delivery_of s t e at d)"
  "same_identity d (deferred_delivery rd s d)"
  "same_identity d (failed_delivery m fd d)"
  "same_identity d (dispatching_delivery a at k d)"
  "same_identity d (retry_finalized_delivery b s rd d)"
  "same_identity d (unknown_delivery s at c msg d)"
  "same_identity d (sent_delivery s ses at d)"
  "same_identity d (requeued_delivery actor at o1 s d)"
  "same_identity d (expired_preflight at s d)"
  by (simp_all add: delivery_edits same_identity_def Let_def)

lemma valid_edits:
  assumes "valid_delivery d"
  shows "dl_status d = Sending \<Longrightarrow> valid_delivery (dispatching_delivery a at k d)"
    and "js_trim ses \<noteq> [] \<Longrightarrow> valid_delivery (sent_delivery Sent ses at d)"
    and "valid_delivery (failed_delivery m fd d)"
    and "valid_delivery (unknown_delivery Unknown at c msg d)"
    and "canCancelDelivery (dl_status d) \<Longrightarrow> valid_delivery (claimed_delivery_of Sending t e at d)"
    and "dl_status d = Sending \<Longrightarrow> valid_delivery (deferred_delivery rd Retrying d)"
    and "dl_status d = Sending \<Longrightarrow> valid_delivery (expired_preflight at Retrying d)"
    and "ac_id actor \<noteq> Some [] \<Longrightarrow> valid_delivery (restored_delivery actor at o1 d)"
    and "ac_id actor \<noteq> Some [] \<Longrightarrow> dl_retryOriginStatus d = None \<Longrightarrow>
      valid_delivery (cancelled_delivery actor at Cancelled d)"
    and "ac_id actor \<noteq> Some [] \<Longrightarrow> valid_delivery (requeued_delivery actor at o1 Queued d)"
  using assms
  by (cases o1; auto simp: valid_delivery_def delivery_edits Let_def canCancelDelivery_def)+

subsection \<open>Attempts\<close>

lemma filter_sort_desc: "filter P (sort_desc k xs) = sort_desc k (filter P xs)"
  by (simp add: sort_desc_def rev_filter filter_sort [symmetric])

lemma set_sort_desc [simp]: "set (sort_desc k xs) = set xs"
  by (simp add: sort_desc_def)

lemma sort_desc_single [simp]: "sort_desc k [x] = [x]" "sort_desc k [] = []"
  by (simp_all add: sort_desc_def)

lemma set_listAttempts:
  "set (tx_listAttemptsByDelivery db i) =
     attemptRowToStored ` {r \<in> set (db_attempts db). ar_delivery_id r = i}"
  by (auto simp: tx_listAttemptsByDelivery_def)

lemma attempt_row_new:
  assumes "a \<noteq> []" and "i \<noteq> []" and "t \<noteq> []" and "1 \<le> n"
  shows "attemptRowToStored (attempt_to_row (new_attempt a i t at n)) = new_attempt a i t at n"
  using assms
  by (simp add: attemptRowToStored_def attempt_to_row_def new_attempt_def Let_def
      isCanonicalUtcTimestamp_def read_attempt_status_def read_provider_state_def)

text \<open>A lease that led to a provider attempt: exactly that attempt is the one to settle.\<close>

lemma begin_listAttempts:
  assumes "beginProviderAttempt i t a at k db = Inr (r, db')" and "i \<noteq> []" and "t \<noteq> []"
  shows "filter (\<lambda>x. \<not> at_storageIntegrityInvalid x \<and> at_leaseToken x = t \<and> at_status x = Att_sending)
           (tx_listAttemptsByDelivery db' i) = [cd_attempt r]"
  using assms(1)
proof (rule beginProviderAttempt_cases)
  fix d s
  assume lease: "requirePreflightLease db i t = Inr d" and safe: "\<not> hasUnsafeProviderAttempt db i t"
    and trim: "js_trim a \<noteq> []"
    and r: "r = \<lparr>cd_delivery = dispatching_delivery a at k d,
             cd_attempt = new_attempt a i t at (dl_attemptCount d + 1), cd_snapshot = s\<rparr>"
    and ins: "tx_insertAttempt (tx_updateDelivery db (dispatching_delivery a at k d))
           (new_attempt a i t at (dl_attemptCount d + 1)) = Inr db'"
  from lease have d: "tx_getDelivery db i = Some d" and "dl_status d = Sending"
    by (simp_all add: requirePreflightLease_Inr)
  moreover from this have "\<not> dl_storageIntegrityInvalid d" using get_readable by simp
  ultimately have "valid_delivery d" using tx_getDelivery_valid by blast
  then have n: "1 \<le> dl_attemptCount d + 1" by (simp add: valid_delivery_def)
  have a: "a \<noteq> []" using trim by (auto simp: js_trim_def)
  let ?P = "\<lambda>x. \<not> at_storageIntegrityInvalid x \<and> at_leaseToken x = t \<and> at_status x = Att_sending"
  let ?row = "attempt_to_row (new_attempt a i t at (dl_attemptCount d + 1))"
  have rows: "db_attempts db' = db_attempts db @ [?row]"
    using ins by (simp add: tx_insertAttempt_def split: if_splits) auto
  have old: "\<not> ?P (attemptRowToStored x)" if "x \<in> set (db_attempts db)" "ar_delivery_id x = i" for x
    using safe that by (auto simp: hasUnsafeProviderAttempt_def list_ex_iff set_listAttempts)
  have "filter ?P (tx_listAttemptsByDelivery db' i) = map attemptRowToStored
      (sort_desc (\<lambda>r. number_order (ar_attempt_number r))
        (filter (?P \<circ> attemptRowToStored) (filter (\<lambda>r. ar_delivery_id r = i) (db_attempts db @ [?row]))))"
    unfolding tx_listAttemptsByDelivery_def rows filter_map filter_sort_desc ..
  also have "filter (?P \<circ> attemptRowToStored) (filter (\<lambda>r. ar_delivery_id r = i) (db_attempts db @ [?row])) = [?row]"
  proof -
    have "filter (?P \<circ> attemptRowToStored) (filter (\<lambda>r. ar_delivery_id r = i) (db_attempts db)) = []"
      using old by (auto simp: filter_empty_conv)
    moreover have "ar_delivery_id ?row = i" by (simp add: attempt_to_row_def new_attempt_def)
    ultimately show ?thesis
      using attempt_row_new [OF a assms(2,3) n] by (simp add: new_attempt_def)
  qed
  finally show ?thesis
    using attempt_row_new [OF a assms(2,3) n] by (simp add: r)
qed

lemma begin_getDelivery:
  assumes "beginProviderAttempt i t a at k db = Inr (r, db')"
  shows "tx_getDelivery db' i = Some (reloaded db (cd_delivery r))"
    and "valid_delivery (cd_delivery r)" and "dl_id (cd_delivery r) = i"
    and "view_of (cd_delivery r) = In_flight t a (dl_retryOriginStatus (cd_delivery r))"
    and "at_id (cd_attempt r) = a" and "db_emails db' = db_emails db"
    and "dl_status (cd_delivery r) = Sending \<and> dl_dispatchPhase (cd_delivery r) = Some Provider \<and>
      dl_leaseToken (cd_delivery r) = Some t \<and> dl_activeAttemptId (cd_delivery r) = Some a"
proof -
  from assms obtain d where lease: "requirePreflightLease db i t = Inr d"
    and r: "cd_delivery r = dispatching_delivery a at k d"
      "cd_attempt r = new_attempt a i t at (dl_attemptCount d + 1)"
    and ins: "tx_insertAttempt (tx_updateDelivery db (dispatching_delivery a at k d))
           (new_attempt a i t at (dl_attemptCount d + 1)) = Inr db'"
    by (rule beginProviderAttempt_cases) simp
  from lease have d: "tx_getDelivery db i = Some d" and s: "dl_status d = Sending" "dl_leaseToken d = Some t"
    by (simp_all add: requirePreflightLease_Inr)
  then have ok: "\<not> dl_storageIntegrityInvalid d" using get_readable by simp
  then have v: "valid_delivery d" using d tx_getDelivery_valid by blast
  show id: "dl_id (cd_delivery r) = i" using d by (simp add: r tx_getDelivery_id)
  show valid: "valid_delivery (cd_delivery r)" using v s(1) unfolding r(1) by (rule valid_edits(1))
  have "tx_getDelivery (tx_updateDelivery db (cd_delivery r)) (dl_id (cd_delivery r)) = Some (reloaded db (cd_delivery r))"
  proof (rule delivery_store.get_put)
    show "tx_getDelivery db (dl_id (cd_delivery r)) = Some d" using d id by simp
    show "fits_delivery d (cd_delivery r)"
      unfolding fits_delivery_def using valid by (simp add: r(1))
  qed (rule ok)
  then show "tx_getDelivery db' i = Some (reloaded db (cd_delivery r))"
    using tx_insertAttempt_deliveries [OF ins] id hydrate_db(2) [of db' "tx_updateDelivery db (cd_delivery r)"]
    by (simp add: tx_getDelivery_def find_delivery_row_def r(1))
  show "db_emails db' = db_emails db" using tx_insertAttempt_deliveries [OF ins] by simp
  show "at_id (cd_attempt r) = a" by (simp add: r new_attempt_def)
  show fields: "dl_status (cd_delivery r) = Sending \<and> dl_dispatchPhase (cd_delivery r) = Some Provider \<and>
      dl_leaseToken (cd_delivery r) = Some t \<and> dl_activeAttemptId (cd_delivery r) = Some a"
    using s by (simp add: r dispatching_delivery_def)
  then show "view_of (cd_delivery r) = In_flight t a (dl_retryOriginStatus (cd_delivery r))"
    by (simp add: view_in_flight)
qed

lemma reloaded_fields [simp]:
  "dl_dispatchPhase (reloaded db d) = dl_dispatchPhase d"
  "dl_leaseToken (reloaded db d) = dl_leaseToken d"
  "dl_activeAttemptId (reloaded db d) = dl_activeAttemptId d"
  "dl_retryOriginStatus (reloaded db d) = dl_retryOriginStatus d"
  "dl_sesMessageId (reloaded db d) = dl_sesMessageId d"
  "dl_sentAt (reloaded db d) = dl_sentAt d"
  by (simp_all add: reloaded_def with_cancel_recovery_def)

text \<open>The holder of a lease that led to an attempt is accepted as such.\<close>

lemma begin_requireLease:
  assumes "beginProviderAttempt i t a at k db = Inr (r, db')" and "i \<noteq> []" and "t \<noteq> []"
  shows "requireLease db' i t = Inr (reloaded db (cd_delivery r), cd_attempt r)"
  using begin_getDelivery [OF assms(1)] begin_listAttempts [OF assms]
  by (simp add: requireLease_Inr)

subsection \<open>Settling\<close>

lemma requireLease_valid:
  assumes "requireLease db i t = Inr (d, a)"
  shows "tx_getDelivery db i = Some d" and "dl_status d = Sending" and "valid_delivery d"
proof -
  from assms show d: "tx_getDelivery db i = Some d" and s: "dl_status d = Sending"
    by (simp_all add: requireLease_Inr)
  then show "valid_delivery d" by (intro tx_getDelivery_valid get_readable) simp_all
qed

lemma recordAccepted_ok:
  assumes "at_finishedAt a = Some f" and "truthy (at_sesMessageId a)"
  shows "\<exists>db'. tx_recordAcceptedRecovery db d a = Inr db'"
  using assms by (simp add: tx_recordAcceptedRecovery_def)

lemma finalizeAccepted_ok:
  assumes "requireLease db i t = Inr (d, a)" and "js_trim ses \<noteq> []"
  shows "\<exists>r db'. finalizeAccepted i t ses at db = Inr (r, db')"
proof -
  have "ses \<noteq> []" using assms(2) by (auto simp: js_trim_def)
  moreover have "dl_status d = Sending" using assms(1) by (simp add: requireLease_Inr)
  moreover obtain db' where "tx_recordAcceptedRecovery
      (tx_updateAttempt (tx_updateDelivery db (sent_delivery Sent ses at d))
        (a\<lparr>at_status := Att_accepted, at_finishedAt := Some (Canon at), at_sesMessageId := Some ses\<rparr>))
      (sent_delivery Sent ses at d)
      (a\<lparr>at_status := Att_accepted, at_finishedAt := Some (Canon at), at_sesMessageId := Some ses\<rparr>) = Inr db'"
    using recordAccepted_ok \<open>ses \<noteq> []\<close> by fastforce
  ultimately show ?thesis
    using assms by (simp add: finalizeAccepted_def transitionDelivery_def Let_def)
qed

definition settleable :: "settlement \<Rightarrow> bool" where
  "settleable out \<longleftrightarrow> (case out of Settle_accepted ses at \<Rightarrow> js_trim ses \<noteq> [] | _ \<Rightarrow> True)"

lemma holder_settles:
  assumes "requireLease db i t = Inr (d, a)" and "settleable out"
  shows "\<exists>r db'. settle_attempt out i t db = Inr (r, db')"
proof (cases out)
  case (Settle_accepted ses at)
  then show ?thesis
    using finalizeAccepted_ok [OF assms(1)] assms(2) by (simp add: settle_attempt_def settleable_def)
qed (use requireLease_valid(2) [OF assms(1)] in \<open>simp_all add: settle_attempt_def
      finalizeRetryableFailure_def Let_def finalizeDefinitiveFailure_def finalizeUnknown_def
      transitionDelivery_def assms(1)\<close>)

text \<open>
  Whoever began a provider attempt can report how it ended: the lease is accepted for every
  outcome (an acceptance needs a message id), a stale or foreign token is refused, and after the
  report the same lease is refused too.
\<close>
theorem begun_attempt_settles_once:
  assumes "beginProviderAttempt i t a at k db = Inr (r, db')" and "keys_ok db" and "i \<noteq> []"
    and "t \<noteq> []" and "settleable out"
  shows "\<exists>r' db2. settle_attempt out i t db' = Inr (r', db2) \<and>
      (\<forall>out' t'. try_settle out' i t' db2 = None) \<and>
      (\<forall>out' t'. t' \<noteq> t \<longrightarrow> try_settle out' i t' db' = None)"
proof -
  note lease = begin_requireLease [OF assms(1,3,4)]
  have keys: "keys_ok db'" using begin_ids [OF assms(1)] keys_ok_deliveries assms(2) by blast
  obtain r' db2 where r': "settle_attempt out i t db' = Inr (r', db2)"
    using holder_settles [OF lease assms(5)] by blast
  then have "try_settle out i t db' = Some db2" by (auto simp: try_settle_Some)
  note once = outbox_lease.settle_once [OF keys this]
  have "lease_holder db' i = Some t"
    using settles_holder(1) [OF settle_attempt_settles [OF r']] .
  then have "try_settle out' i t' db' = None" if "t' \<noteq> t" for out' t'
    using outbox_lease.wrong_token [OF keys] that by simp
  with once r' show ?thesis by blast
qed

lemma finalize_getDelivery:
  assumes "requireLease db i t = Inr (d, a)" and "same_identity d d'" and "valid_delivery d'"
    and "db_deliveries db' = db_deliveries (tx_updateDelivery db d')" and "db_emails db' = db_emails db"
  shows "tx_getDelivery db' i = Some (reloaded db d')"
proof -
  from assms(1) have d: "tx_getDelivery db i = Some d" and "dl_status d = Sending"
    by (simp_all add: requireLease_Inr)
  then have ok: "\<not> dl_storageIntegrityInvalid d" using get_readable by simp
  have i: "dl_id d' = i" using assms(2) tx_getDelivery_id [OF d] by (simp add: same_identity_def)
  have "tx_getDelivery (tx_updateDelivery db d') (dl_id d') = Some (reloaded db d')"
    by (rule delivery_store.get_put [OF _ ok]) (simp_all add: i d fits_delivery_def assms(2,3))
  then show ?thesis
    using assms(4,5) hydrate_db(2) [of db' "tx_updateDelivery db d'"]
    by (simp add: tx_getDelivery_def find_delivery_row_def i)
qed

text \<open>
  After the provider accepted a message, reading it back shows it sent, with the provider's
  message id and the time of acceptance, without a lease, and its source draft is to be consumed.
\<close>
theorem accepted_reads_back:
  assumes "finalizeAccepted i t ses at db = Inr (r, db')"
  shows "\<exists>d. tx_getDelivery db' i = Some d \<and> dl_status d = Sent \<and> dl_sesMessageId d = Some ses \<and>
     dl_sentAt d = Some at \<and> dl_leaseToken d = None \<and> dl_activeAttemptId d = None \<and>
     dl_retryOriginStatus d = None \<and>
     fa_sourceDraftAction r = (if dl_draftId d = None then Draft_none else Draft_consume)"
  using assms
proof (rule finalizeAccepted_cases)
  fix d a
  assume lease: "requireLease db i t = Inr (d, a)" and ses: "js_trim ses \<noteq> []"
    and r: "r = \<lparr>fa_delivery = sent_delivery Sent ses at d,
             fa_attempt = a\<lparr>at_status := Att_accepted, at_finishedAt := Some (Canon at),
                           at_sesMessageId := Some ses\<rparr>,
             fa_sourceDraftAction = sourceDraftAction d Draft_consume\<rparr>"
    and rec: "tx_recordAcceptedRecovery
           (tx_updateAttempt (tx_updateDelivery db (sent_delivery Sent ses at d)) (fa_attempt r))
           (fa_delivery r) (fa_attempt r) = Inr db'"
  note valid = requireLease_valid(3) [OF lease]
  have "tx_getDelivery db' i = Some (reloaded db (sent_delivery Sent ses at d))"
    using tx_recordAcceptedRecovery_deliveries [OF rec] ses
    by (intro finalize_getDelivery [OF lease]) (simp_all add: valid_edits(2) [OF valid])
  moreover have "dl_draftId (reloaded db (sent_delivery Sent ses at d)) = dl_draftId d"
    by (simp add: reloaded_def with_cancel_recovery_def sent_delivery_def clear_lease_def)
  ultimately show ?thesis
    by (simp add: r sourceDraftAction_def sent_delivery_def clear_lease_def)
qed

text \<open>
  C10: A rejected attempt is scheduled again only while attempts are left; the last rejection closes the
  message as failed, or as unknown when the message was being retried after an unknown outcome.
\<close>
theorem rejection_is_bounded:
  assumes "finalizeRetryableFailure i t rd db = Inr (r, db')"
  shows "\<exists>d d'. tx_getDelivery db i = Some d \<and> tx_getDelivery db' i = Some d' \<and>
     dl_leaseToken d' = None \<and> dl_attemptCount d' = dl_attemptCount d \<and>
     (if dl_attemptCount d < dl_maxAttempts d
      then dl_status d' = Retrying \<and> dl_nextAttemptAt d' = Some (rd_retryAt rd) \<and>
           dl_retryOriginStatus d' = dl_retryOriginStatus d
      else dl_status d' = (if dl_retryOriginStatus d = Some Origin_unknown then Unknown else Failed) \<and>
           dl_nextAttemptAt d' = None)"
proof -
  from assms obtain d a where lease: "requireLease db i t = Inr (d, a)"
    by (cases "requireLease db i t") (auto simp: finalizeRetryableFailure_def)
  note valid = requireLease_valid [OF lease]
  define ex where "ex = (dl_attemptCount d \<ge> dl_maxAttempts d)"
  define status where "status = (if ex then if dl_retryOriginStatus d = Some Origin_unknown then Unknown
      else Failed else Retrying)"
  define d' where "d' = retry_finalized_delivery ex status rd d"
  have "\<exists>a'. db' = tx_updateAttempt (tx_updateDelivery db d') a'"
    using assms valid(2)
    by (cases ex; cases "dl_retryOriginStatus d = Some Origin_unknown")
      (auto simp: finalizeRetryableFailure_def lease Let_def transitionDelivery_def ex_def [symmetric]
        status_def d'_def)
  moreover have "valid_delivery d'"
    using valid(2,3) by (auto simp: d'_def valid_delivery_def delivery_edits Let_def status_def)
  ultimately have "tx_getDelivery db' i = Some (reloaded db d')"
    by (intro finalize_getDelivery [OF lease]) (auto simp: d'_def)
  moreover have "dl_status (reloaded db d') = status" "dl_leaseToken (reloaded db d') = None"
    "dl_attemptCount (reloaded db d') = dl_attemptCount d"
    "dl_nextAttemptAt (reloaded db d') = (if ex then None else Some (rd_retryAt rd))"
    "dl_retryOriginStatus (reloaded db d') = (if ex then None else dl_retryOriginStatus d)"
    by (simp_all add: d'_def reloaded_def with_cancel_recovery_def delivery_edits Let_def)
  ultimately show ?thesis
    using valid(1) by (auto simp: status_def ex_def)
qed

subsection \<open>Cancelling\<close>

text \<open>
  A message can be cancelled exactly while it is queued or waiting for a retry and its record is
  sound; a retry of a failed or unknown message is undone by restoring that outcome instead. In every
  other case the command reports why and changes nothing.
\<close>
theorem cancel_outcome:
  assumes "ac_id actor \<noteq> Some []"
  shows "case tx_getDelivery db i of
      None \<Rightarrow> cancel (\<lambda>_ _. Inr ()) i actor at db = Inl (OutboundDeliveryNotFound i)
    | Some d \<Rightarrow>
        if dl_storageIntegrityInvalid d
        then cancel (\<lambda>_ _. Inr ()) i actor at db = Inl (OutboundDeliveryIntegrity i)
        else if \<not> canCancelDelivery (dl_status d)
        then cancel (\<lambda>_ _. Inr ()) i actor at db = Inl (InvalidDeliveryTransition (dl_status d) Cancel)
        else \<exists>r db' d'. cancel (\<lambda>_ _. Inr ()) i actor at db = Inr (r, db') \<and>
          tx_getDelivery db' i = Some d' \<and> dl_actor d' = actor \<and>
          dl_status d' = (case dl_retryOriginStatus d of None \<Rightarrow> Cancelled | Some o1 \<Rightarrow> origin_status o1)"
proof (cases "tx_getDelivery db i")
  case None
  then show ?thesis by (simp add: cancel_def require_delivery_def)
next
  case (Some d)
  have id: "dl_id d = i" using Some by (rule tx_getDelivery_id)
  show ?thesis
  proof (cases "dl_storageIntegrityInvalid d \<or> \<not> canCancelDelivery (dl_status d)")
    case True
    then show ?thesis
      using Some id
      by (auto simp: cancel_def require_delivery_def assertDeliveryStorageIntegrity_def guard_result_def)
  next
    case False
    then have ok: "\<not> dl_storageIntegrityInvalid d" and can: "canCancelDelivery (dl_status d)" by simp_all
    have valid: "valid_delivery d" using Some ok by (rule tx_getDelivery_valid)
    have req: "require_delivery db i = Inr d" using Some ok by (simp add: require_delivery_Inr)
    define d' where "d' = (case dl_retryOriginStatus d of None \<Rightarrow> cancelled_delivery actor at Cancelled d
        | Some o1 \<Rightarrow> restored_delivery actor at o1 d)"
    have "\<exists>r. cancel (\<lambda>_ _. Inr ()) i actor at db = Inr (r, tx_updateDelivery db d')"
    proof (cases "dl_retryOriginStatus d")
      case None
      have "transitionDelivery (dl_status d) Cancel = Inr Cancelled"
        using can by (auto simp: canCancelDelivery_def)
      then show ?thesis using None can by (simp add: cancel_def req d'_def Let_def transitionDelivery_def)
    qed (simp add: cancel_def req can d'_def Let_def)
    moreover have "fits_delivery d d'"
      using valid valid_edits(8,9) [OF valid] assms
      by (cases "dl_retryOriginStatus d") (simp_all add: fits_delivery_def d'_def)
    then have "tx_getDelivery (tx_updateDelivery db d') (dl_id d') = Some (reloaded db d')"
      using delivery_store.get_put [of db d' d] Some ok id by (simp add: fits_delivery_def same_identity_def)
    moreover have "dl_id d' = i" "dl_actor (reloaded db d') = actor"
      "dl_status d' = (case dl_retryOriginStatus d of None \<Rightarrow> Cancelled | Some o1 \<Rightarrow> origin_status o1)"
      using id by (cases "dl_retryOriginStatus d";
          simp add: d'_def reloaded_def with_cancel_recovery_def delivery_edits)+
    ultimately show ?thesis using Some ok can by auto
  qed
qed

subsection \<open>Claiming\<close>

text \<open>
  The delivery offered for sending is due, carries no trace of an earlier lease, and no other due
  delivery comes before it in dispatch order.
\<close>
theorem candidate_is_first_due:
  assumes "tx_findNextDispatchableCandidate db now = Some (Cand_ready d)" and "keys_ok db"
  shows "tx_getDelivery db (dl_id d) = Some d \<and>
     (dl_status d = Queued \<and> dl_availableAt d \<le> now \<or>
      dl_status d = Retrying \<and> (\<exists>t. dl_nextAttemptAt d = Some t \<and> t \<le> now)) \<and>
     (\<exists>row \<in> set (db_deliveries db). dr_id row = dl_id d \<and> dr_lease_token row = None \<and>
        dr_active_attempt_id row = None \<and>
        (\<forall>row' \<in> set (db_deliveries db). row_dispatchable now row' \<longrightarrow>
           dispatch_order row \<le> dispatch_order row'))"
proof -
  note ready = candidate_ready [OF assms]
  from assms(1) obtain row where row: "findNextDispatchableRow db now = Some row"
    and cls: "classify_dispatchable db row = Cand_ready d"
    by (auto simp: tx_findNextDispatchableCandidate_def)
  note found = findNextDispatchableRow_Some [OF row]
  have "dispatch_order row \<le> dispatch_order row'"
    if "row' \<in> set (db_deliveries db)" "row_dispatchable now row'" for row'
    using found(3) [OF that] by auto
  moreover have "dr_lease_token row = None" "dr_active_attempt_id row = None"
    using cls by (auto simp: classify_dispatchable_def Let_def split: if_splits)
  moreover have "dr_id row = dl_id d" using classify_ready(1) [OF cls found(2)] by simp
  ultimately show ?thesis
    using ready found(1) by (auto simp: canCancelDelivery_def)
qed

definition due :: "instant \<Rightarrow> stored_delivery \<Rightarrow> bool" where
  "due now d \<longleftrightarrow>
     dl_status d = Queued \<and> dl_availableAt d \<le> now \<or>
     dl_status d = Retrying \<and> (\<exists>t. dl_nextAttemptAt d = Some t \<and> t \<le> now)"

lemma repair_other:
  assumes "tx_findNextDispatchableCandidate db now = Some (Cand_integrity_failure i status outcome)"
    and "keys_ok db" and "tx_failDispatchableIntegrity db i status outcome now = Inr db'"
  shows "db_emails db' = db_emails db" and "j \<noteq> i \<Longrightarrow> tx_getDelivery db' j = tx_getDelivery db j"
    and "tx_getDelivery db' i = Some d \<Longrightarrow> \<not> canCancelDelivery (dl_status d)"
proof -
  note db' = tx_failDispatchableIntegrity_Inr [OF assms(3)]
  show em: "db_emails db' = db_emails db" by (simp add: db')
  have row: "find_delivery_row db' j = map_option
      (\<lambda>r. if dr_id r = i \<and> dr_status r = status then repair_dispatch_row outcome now r else r)
      (find_delivery_row db j)" for j
    unfolding db' find_delivery_row_def by (simp add: find_update_where)
  show "tx_getDelivery db' j = tx_getDelivery db j" if "j \<noteq> i"
    using that hydrate_db(2) [OF em]
    by (cases "find_delivery_row db j") (auto simp: tx_getDelivery_def row dest: find_delivery_row_id)
  assume d: "tx_getDelivery db' i = Some d"
  show "\<not> canCancelDelivery (dl_status d)"
  proof
    assume can: "canCancelDelivery (dl_status d)"
    then have "ledger_view db' i = Some (Waiting (dl_retryOriginStatus d))"
      using ledger_view_get [OF d get_readable [OF d]] view_waiting [OF can] by (auto simp: canCancelDelivery_def)
    moreover obtain row s where "ledger_view db' i = Some (Closed s)"
    proof -
      from assms(1) obtain row where fnd: "findNextDispatchableRow db now = Some row"
        and cls: "classify_dispatchable db row = Cand_integrity_failure i status outcome"
        by (auto simp: tx_findNextDispatchableCandidate_def)
      note fail = classify_failure [OF cls]
      have "find_delivery_row db i = Some row"
        using find_delivery_row_distinct [OF assms(2) findNextDispatchableRow_Some(1) [OF fnd]] fail(1) by simp
      then show ?thesis
        using that fail(1,2) view_repaired [OF fail(3)] by (simp add: ledger_view_def row)
    qed
    ultimately show False by simp
  qed
qed

text \<open>
  C8: A claim takes one message that was waiting and due, under the token it was given: the message as
  it was stored before, with its snapshot, is now being sent and leased until the given time.
\<close>
theorem claim_takes_due:
  assumes "claimNextForPreflight t now k db = Inr (Some c, db')" and "keys_ok db"
  shows "\<exists>d. tx_getDelivery db (dl_id d) = Some d \<and> due now d \<and>
     tx_getSnapshot db (dl_emailId d) = Some (cl_snapshot c) \<and>
     cl_delivery c = claimed_delivery_of Sending t (now + k) now d \<and>
     tx_getDelivery db' (dl_id d) = Some (reloaded db (cl_delivery c))"
proof -
  have "\<exists>d. tx_getDelivery db (dl_id d) = Some d \<and> due now d \<and>
     tx_getSnapshot db (dl_emailId d) = Some (cl_snapshot c) \<and>
     cl_delivery c = claimed_delivery_of Sending t (now + k) now d \<and>
     tx_getDelivery db' (dl_id d) = Some (reloaded db (cl_delivery c))"
    if "claim_loop n t now k db = Inr (Some c, db')" "keys_ok db" for n
    using that
  proof (induction n arbitrary: db)
    case (Suc n)
    then obtain x where x: "tx_findNextDispatchableCandidate db now = Some x"
      by (cases "tx_findNextDispatchableCandidate db now") auto
    show ?case
    proof (cases x)
      case (Cand_integrity_failure i status outcome)
      with x Suc.prems(1) obtain db1 where rep: "tx_failDispatchableIntegrity db i status outcome now = Inr db1"
        and rest: "claim_loop n t now k db1 = Inr (Some c, db')"
        by (auto simp: bind_result_Inr)
      note x = x [unfolded Cand_integrity_failure]
      note other = repair_other [OF x Suc.prems(2) rep]
      from Suc.IH [OF rest repair_step(2) [OF x Suc.prems(2) rep]] obtain d where
        d: "tx_getDelivery db1 (dl_id d) = Some d" "due now d"
        "tx_getSnapshot db1 (dl_emailId d) = Some (cl_snapshot c)"
        "cl_delivery c = claimed_delivery_of Sending t (now + k) now d"
        "tx_getDelivery db' (dl_id d) = Some (reloaded db1 (cl_delivery c))" by blast
      have "dl_id d \<noteq> i" using d(1,2) other(3) by (auto simp: due_def canCancelDelivery_def)
      with d other(2) hydrate_db(3,4) [OF other(1)] show ?thesis by (intro exI [of _ d]) simp
    next
      case (Cand_ready d)
      note ready = candidate_ready [OF x [unfolded Cand_ready] Suc.prems(2)]
      have now_due: "due now d" using ready(3-5) by (auto simp: due_def canCancelDelivery_def)
      show ?thesis
      proof (cases "tx_getSnapshot db (dl_emailId d)")
        case None
        let ?f = "snapshot_missing_failure now d"
        have "claim_loop n t now k (tx_updateDelivery db ?f) = Inr (Some c, db')"
          using Suc.prems(1) x Cand_ready None by simp
        from Suc.IH [OF this] Suc.prems(2) obtain e where
          e: "tx_getDelivery (tx_updateDelivery db ?f) (dl_id e) = Some e" "due now e"
          "tx_getSnapshot db (dl_emailId e) = Some (cl_snapshot c)"
          "cl_delivery c = claimed_delivery_of Sending t (now + k) now e"
          "tx_getDelivery db' (dl_id e) = Some (reloaded db (cl_delivery c))" by auto
        have "dl_id e \<noteq> dl_id d"
        proof
          assume same: "dl_id e = dl_id d"
          have "canCancelDelivery (dl_status e)" using e(2) by (auto simp: due_def canCancelDelivery_def)
          then have "ledger_view (tx_updateDelivery db ?f) (dl_id d) = Some (Waiting (dl_retryOriginStatus e))"
            using ledger_view_get [OF e(1) get_readable [OF e(1)]] view_waiting same
            by (auto simp: canCancelDelivery_def)
          moreover have "ledger_view db (dl_id d) \<noteq> None" using ledger_view_get [OF ready(1,2)] by simp
          ultimately show False using ledger_view_update [of db ?f] by (simp split: if_splits)
        qed
        with e show ?thesis by (intro exI [of _ e]) simp
      next
        case (Some s)
        with Suc.prems(1) x Cand_ready have "lease_delivery t now k d s db = Inr (Some c, db')" by simp
        note leased = lease_delivery_Inr [OF this ready(3)]
        have "valid_delivery d" using ready(1,2) by (rule tx_getDelivery_valid)
        then have "tx_getDelivery db' (dl_id d) = Some (reloaded db (cl_delivery c))"
          using delivery_store.get_put [of db "claimed_delivery_of Sending t (now + k) now d" d] ready leased
          by (simp add: fits_delivery_def valid_edits(5))
        then show ?thesis using ready(1) now_due Some leased(1) by (intro exI [of _ d]) simp
      qed
    qed
  qed simp
  from this [OF assms(1) [unfolded claimNextForPreflight_def] assms(2)] show ?thesis .
qed

subsection \<open>The alarm\<close>

text \<open>
  While any message is queued, waiting for a retry or being sent, an alarm is due no later than the
  time that message needs attention, so no message waits for an unrelated event.
\<close>
theorem alarm_covers_every_row:
  assumes "row \<in> set (db_deliveries db)" and "dr_status row \<in> {''queued'', ''retrying'', ''sending''}"
  shows "\<exists>s due_at. nextActionAt db = Some s \<and> row_next_action db row = Some due_at \<and>
     stamp_text s \<le> stamp_text due_at"
proof -
  obtain at where at: "row_next_action db row = Some at"
    using assms(2) by (auto simp: row_next_action_def)
  let ?xs = "map the (filter (\<lambda>v. v \<noteq> None) (map (row_next_action db) (db_deliveries db)))"
  have mem: "at \<in> set (sort_key stamp_text ?xs)" using assms(1) at by (force simp: image_iff)
  then have "sort_key stamp_text ?xs \<noteq> []" by (metis empty_iff list.set(1))
  then obtain s ss where ss: "sort_key stamp_text ?xs = s # ss" by (meson neq_Nil_conv)
  have "sorted (map stamp_text (s # ss))" unfolding ss [symmetric] by (rule sorted_sort_key)
  moreover have "at \<in> set (s # ss)" using mem unfolding ss .
  ultimately have "stamp_text s \<le> stamp_text at" by auto
  moreover have "nextActionAt db = Some s"
    unfolding nextActionAt_def tx_findNextActionAt_def ss by simp
  ultimately show ?thesis using at by blast
qed

end
