(* ===== verification/Outbound_Recovery.thy ===== *)
theory Outbound_Recovery
  imports Outbound_Guarantees
begin

text \<open>
  What \<^verbatim>\<open>recoverExpiredLeases\<close> achieves for a whole mailbox: it never fails, every readable message
  whose lease ran out leaves the sending state, and only a message no provider can have seen is queued
  again. A row whose record is unreadable is left as it is.
\<close>

definition attempt_keys_ok :: "outbox_db \<Rightarrow> bool" where
  "attempt_keys_ok db \<longleftrightarrow> distinct (map ar_id (db_attempts db))"

definition attempts_of :: "outbox_db \<Rightarrow> string \<Rightarrow> attempt_row list" where
  "attempts_of db i = filter (\<lambda>r. ar_delivery_id r = i) (db_attempts db)"

lemma tx_listAttempts_of:
  "tx_listAttemptsByDelivery db i =
     map attemptRowToStored (sort_desc (\<lambda>r. number_order (ar_attempt_number r)) (attempts_of db i))"
  by (simp add: tx_listAttemptsByDelivery_def attempts_of_def)

lemma write_attempt_keys [simp]:
  "ar_id (write_attempt a r) = ar_id r" "ar_delivery_id (write_attempt a r) = ar_delivery_id r"
  by (simp_all add: write_attempt_def)

lemma attemptRowToStored_keys [simp]:
  "at_id (attemptRowToStored r) = ar_id r" "at_deliveryId (attemptRowToStored r) = ar_delivery_id r"
  by (simp_all add: attemptRowToStored_def Let_def)

text \<open>Updating an attempt of one delivery leaves the attempts of the others alone.\<close>

lemma updateAttempt_keys [simp]: "attempt_keys_ok (tx_updateAttempt db a) = attempt_keys_ok db"
  by (simp add: attempt_keys_ok_def tx_updateAttempt_def keys_update_where)

lemma updateAttempt_other:
  assumes "attempt_keys_ok db" and "r \<in> set (attempts_of db i)" and "at_id a = ar_id r" and "j \<noteq> i"
  shows "attempts_of (tx_updateAttempt db a) j = attempts_of db j"
proof -
  have "\<not> ar_id x = at_id a" if "x \<in> set (attempts_of db j)" for x
  proof
    assume "ar_id x = at_id a"
    moreover have "x \<in> set (db_attempts db)" "r \<in> set (db_attempts db)"
      using that assms(2) by (simp_all add: attempts_of_def)
    ultimately have "x = r"
      using assms(1,3) unfolding attempt_keys_ok_def distinct_map by (auto dest: inj_onD)
    then show False using that assms(2,4) by (simp add: attempts_of_def)
  qed
  then have "update_where (\<lambda>r. ar_id r = at_id a) (write_attempt a) (attempts_of db j) = attempts_of db j"
    by (rule update_where_none)
  then show ?thesis
    by (simp add: attempts_of_def tx_updateAttempt_def filter_update_where)
qed

lemma updateAttempt_ids: "ar_id ` set (attempts_of (tx_updateAttempt db a) i) = ar_id ` set (attempts_of db i)"
proof -
  have "map ar_id (attempts_of (tx_updateAttempt db a) i) = map ar_id (attempts_of db i)"
    by (simp add: attempts_of_def tx_updateAttempt_def filter_update_where keys_update_where)
  then show ?thesis by (metis set_map)
qed

lemma fold_updateAttempt_other:
  assumes "attempt_keys_ok db" and "\<forall>a \<in> set as. at_id (f a) \<in> ar_id ` set (attempts_of db i)" and "j \<noteq> i"
  shows "attempts_of (fold (\<lambda>a s. tx_updateAttempt s (f a)) as db) j = attempts_of db j \<and>
     attempt_keys_ok (fold (\<lambda>a s. tx_updateAttempt s (f a)) as db)"
  using assms(1,2)
proof (induction as arbitrary: db)
  case (Cons a as)
  then obtain r where r: "r \<in> set (attempts_of db i)" "at_id (f a) = ar_id r" by auto
  have "\<forall>x \<in> set as. at_id (f x) \<in> ar_id ` set (attempts_of (tx_updateAttempt db (f a)) i)"
    using Cons.prems(2) by (simp add: updateAttempt_ids)
  with Cons.IH [of "tx_updateAttempt db (f a)"] Cons.prems(1) updateAttempt_other [OF Cons.prems(1) r assms(3)]
  show ?case by simp
qed simp

lemma tx_updateDelivery_attempts [simp]:
  "attempts_of (tx_updateDelivery db d) = attempts_of db"
  "attempt_keys_ok (tx_updateDelivery db d) = attempt_keys_ok db"
  by (simp_all add: attempts_of_def attempt_keys_ok_def fun_eq_iff)

text \<open>One expired lease.\<close>

lemma recover_expired_total: "\<exists>x db'. recover_expired now d db = Inr (x, db')"
  by (simp add: recover_expired_def Let_def transitionDelivery_def)

lemma mark_attempt_unknown_id [simp]: "at_id (mark_attempt_unknown now c a) = at_id a"
  by (simp add: mark_attempt_unknown_def)

lemma recover_expired_attempts:
  assumes "recover_expired now d db = Inr (x, db')" and "attempt_keys_ok db"
  shows "attempt_keys_ok db'" and "j \<noteq> dl_id d \<Longrightarrow> attempts_of db' j = attempts_of db j"
proof -
  define unsafe where "unsafe = unsafe_attempts d (tx_listAttemptsByDelivery db (dl_id d))"
  define as where "as = filter (\<lambda>a. at_status a \<noteq> Att_accepted) unsafe"
  consider "db' = db" | e where "db' = tx_updateDelivery db e"
    | e code where "db' = fold (\<lambda>a s. tx_updateAttempt s (mark_attempt_unknown now code a)) as (tx_updateDelivery db e)"
    using assms(1)
    by (auto simp: recover_expired_def Let_def transitionDelivery_def unsafe_def [symmetric]
        as_def [symmetric] fold_map comp_def split: if_splits)
  then have "attempt_keys_ok db' \<and> (j \<noteq> dl_id d \<longrightarrow> attempts_of db' j = attempts_of db j)" for j
  proof cases
    case (3 e code)
    have ids: "at_id a \<in> ar_id ` set (attempts_of db (dl_id d))" if "a \<in> set as" for a
      using that by (auto simp: as_def unsafe_def unsafe_attempts_def tx_listAttempts_of)
    then have "\<forall>a \<in> set as. at_id (mark_attempt_unknown now code a)
        \<in> ar_id ` set (attempts_of (tx_updateDelivery db e) (dl_id d))" by simp
    note other = fold_updateAttempt_other [OF _ this]
    have "attempt_keys_ok db'"
      using other [of "''x'' @ dl_id d"] assms(2) 3 by simp
    moreover have "attempts_of db' j = attempts_of db j" if "j \<noteq> dl_id d" for j
      using other that assms(2) 3 by simp
    ultimately show ?thesis by simp
  qed (use assms(2) in auto)
  then show "attempt_keys_ok db'" "j \<noteq> dl_id d \<Longrightarrow> attempts_of db' j = attempts_of db j" by blast+
qed

text \<open>
  Where a message goes whose lease ran out: back to waiting when it was in preflight, its lease and phase
  columns are consistent and no attempt of it is unsafe, that is recorded as sending or accepted, recorded
  under this lease, or unreadable.
\<close>

definition recovered_view :: "outbox_db \<Rightarrow> delivery_row \<Rightarrow> delivery_view" where
  "recovered_view db row =
     (if dl_dispatchPhase (hydrateDelivery db row) = Some Preflight \<and> phaseMetadataValid row \<and>
         leaseMetadataValid row \<and>
         unsafe_attempts (hydrateDelivery db row) (tx_listAttemptsByDelivery db (dr_id row)) = []
      then Waiting (dl_retryOriginStatus (hydrateDelivery db row)) else Closed Unknown)"

definition recovered_ok :: "outbox_db \<Rightarrow> delivery_row \<Rightarrow> outbox_db \<Rightarrow> bool" where
  "recovered_ok db row db' \<longleftrightarrow> ledger_view db' (dr_id row) = Some (recovered_view db row)"

lemma hydrate_lease_columns:
  assumes "\<not> dl_storageIntegrityInvalid (hydrateDelivery db row)"
  shows "dl_leaseToken (hydrateDelivery db row) = dr_lease_token row"
    and "dl_leaseExpiresAt (hydrateDelivery db row) = optional_stamp (dr_lease_expires_at row)"
proof -
  obtain m d1 where conv: "deliveryRowToStored row m = Inr d1"
    and h: "hydrateDelivery db row = with_cancel_recovery (email_folder db (dr_email_id row)) d1"
    using hydrate_integral [OF refl assms] .
  have "dl_leaseToken d1 = dr_lease_token row" "dl_leaseExpiresAt d1 = optional_stamp (dr_lease_expires_at row)"
    using conv by (auto simp: deliveryRowToStored_def bind_result_Inr Let_def split: if_splits)
  then show "dl_leaseToken (hydrateDelivery db row) = dr_lease_token row"
    "dl_leaseExpiresAt (hydrateDelivery db row) = optional_stamp (dr_lease_expires_at row)"
    by (simp_all add: h with_cancel_recovery_def)
qed

lemma hydrate_integrity_code:
  assumes "\<not> dl_storageIntegrityInvalid (hydrateDelivery db row)"
  shows "dl_recoveryIntegrityCode (hydrateDelivery db row) = phase_integrity (dr_dispatch_phase row)"
proof (rule hydrate_integral [OF refl assms])
  fix m d1
  assume "deliveryRowToStored row m = Inr d1"
    and h: "hydrateDelivery db row = with_cancel_recovery (email_folder db (dr_email_id row)) d1"
  then have "dl_recoveryIntegrityCode d1 = phase_integrity (dr_dispatch_phase row)"
    by (auto simp: deliveryRowToStored_def bind_result_Inr Let_def split: if_splits)
  then show ?thesis by (simp add: h with_cancel_recovery_def)
qed

lemma leaseMetadataValid_cases:
  assumes "leaseMetadataValid row"
  obtains t e where "dr_lease_token row = Some t" and "js_trim t \<noteq> []"
    and "dr_lease_expires_at row = Some (Canon e)"
  using assms
  by (auto simp: leaseMetadataValid_def isCanonicalUtcTimestamp_def canonical_stamp_iff split: option.splits)

lemma expired_not_held:
  assumes "lease_expired_or_odd now row" and "\<not> dl_storageIntegrityInvalid (hydrateDelivery db row)"
  shows "\<not> lease_still_held now (hydrateExpiredDelivery db row)"
proof (cases "phaseMetadataValid row \<and> leaseMetadataValid row")
  case True
  then have h: "hydrateExpiredDelivery db row = hydrateDelivery db row"
    using assms(2) by (simp add: hydrateExpiredDelivery_def Let_def)
  from True obtain t e where t: "dr_lease_token row = Some t" "js_trim t \<noteq> []"
    and e: "dr_lease_expires_at row = Some (Canon e)"
    using leaseMetadataValid_cases by blast
  have "\<not> list_all (\<lambda>c. c = CHR '' '') t"
  proof
    have blank: "js_space (CHR '' '')" by (simp add: js_space_def)
    assume "list_all (\<lambda>c. c = CHR '' '') t"
    then have "js_blank t"
      unfolding js_blank_def by (rule list.pred_mono_strong) (simp only: blank)
    then show False using t(2) by (simp add: js_trim_Nil_iff)
  qed
  then have "e \<le> now" using assms(1) t e by (simp add: lease_expired_or_odd_def)
  moreover have "dl_leaseToken (hydrateDelivery db row) = Some t"
    and "dl_leaseExpiresAt (hydrateDelivery db row) = Some e"
    using hydrate_lease_columns [OF assms(2)] t(1) e by (simp_all add: optional_stamp_def)
  moreover have "t \<noteq> []" using t(2) by (auto simp: js_trim_def)
  ultimately show ?thesis by (simp add: lease_still_held_def h)
next
  case False
  then have "dl_recoveryIntegrityCode (hydrateExpiredDelivery db row) \<noteq> None"
    using assms(2)
    by (cases "phaseMetadataValid row"; cases "leaseMetadataValid row"; simp add: hydrateExpiredDelivery_def Let_def)
  then show ?thesis by (simp add: lease_still_held_def)
qed

lemma recover_expired_ok:
  assumes "find_delivery_row db (dr_id row) = Some row"
    and "dl_status (hydrateDelivery db row) = Sending" and "lease_expired_or_odd now row"
    and "recover_expired now (hydrateExpiredDelivery db row) db = Inr (x, db')"
  shows "recovered_ok db row db'"
proof -
  define d where "d = hydrateExpiredDelivery db row"
  define unsafe where "unsafe = unsafe_attempts d (tx_listAttemptsByDelivery db (dl_id d))"
  have id: "dl_id d = dr_id row" and s: "dl_status d = Sending"
    using assms(2) by (simp_all add: d_def hydrateExpired_cases)
  have readable: "\<not> dl_storageIntegrityInvalid (hydrateDelivery db row)"
    using assms(2) by (intro hydrate_readable) simp
  have held: "\<not> lease_still_held now d"
    using expired_not_held [OF assms(3) readable] by (simp add: d_def)
  have d: "d = (if phaseMetadataValid row \<and> leaseMetadataValid row then hydrateDelivery db row
      else if phaseMetadataValid row
      then (hydrateDelivery db row)\<lparr>dl_recoveryIntegrityCode := Some Outbound_sending_lease_invalid\<rparr>
      else (hydrateDelivery db row)\<lparr>dl_dispatchPhase := None, dl_activeAttemptId := None,
        dl_recoveryIntegrityCode := Some Outbound_dispatch_phase_invalid\<rparr>)"
    using readable by (simp add: d_def hydrateExpiredDelivery_def Let_def)
  have whole: "hydrateDelivery db row = d" "phaseMetadataValid row" "leaseMetadataValid row"
    if "dl_recoveryIntegrityCode d = None"
  proof -
    show both: "phaseMetadataValid row" "leaseMetadataValid row"
      using that by (simp_all add: d split: if_split_asm)
    show "hydrateDelivery db row = d" unfolding d if_P [OF conjI [OF both]] ..
  qed
  have code: "dl_recoveryIntegrityCode d = None" "hydrateDelivery db row = d"
    if "phaseMetadataValid row" "leaseMetadataValid row"
  proof -
    have "phase_integrity (dr_dispatch_phase row) = None"
      using that(1) by (auto simp: phaseMetadataValid_def phase_integrity_def read_phase_def)
    then show "dl_recoveryIntegrityCode d = None"
      using that hydrate_integrity_code [OF readable] by (simp add: d)
    show "hydrateDelivery db row = d" unfolding d if_P [OF conjI [OF that]] ..
  qed
  have known: "ledger_view db (dr_id row) \<noteq> None" using assms(1) by (simp add: ledger_view_def)
  show ?thesis
  proof (cases "dl_dispatchPhase d = Some Preflight \<and> dl_recoveryIntegrityCode d = None \<and> unsafe = []")
    case True
    have "db' = tx_updateDelivery db (expired_preflight now Retrying d)"
      using assms(4) True s held
      by (simp add: recover_expired_def d_def [symmetric] unsafe_def [symmetric] transitionDelivery_def Let_def)
    then have "ledger_view db' (dr_id row) = Some (Waiting (dl_retryOriginStatus d))"
      using ledger_view_update [of db "expired_preflight now Retrying d"] known id by simp
    then show ?thesis
      using True readable by (simp add: recovered_ok_def recovered_view_def whole unsafe_def id)
  next
    case False
    let ?d = "unknown_delivery Unknown now (recovery_code d unsafe) (Some (recovery_message d unsafe)) d"
    have "db' = fold (\<lambda>a s. tx_updateAttempt s a)
        (map (mark_attempt_unknown now (recovery_code d unsafe)) (filter (\<lambda>a. at_status a \<noteq> Att_accepted) unsafe))
        (tx_updateDelivery db ?d)"
      using assms(4) False s held
      by (auto simp: recover_expired_def d_def [symmetric] unsafe_def [symmetric] transitionDelivery_def Let_def)
    then have "db_deliveries db' = db_deliveries (tx_updateDelivery db ?d)"
      by (simp add: fold_map comp_def)
    then have "ledger_view db' = ledger_view (tx_updateDelivery db ?d)" by (rule ledger_view_deliveries)
    then have "ledger_view db' (dr_id row) = Some (Closed Unknown)"
      using ledger_view_update [of db ?d] known id by simp
    moreover have "recovered_view db row = Closed Unknown"
      using False code by (auto simp: recovered_view_def unsafe_def id)
    ultimately show ?thesis by (simp add: recovered_ok_def)
  qed
qed

text \<open>What an iteration may do to the rest: other rows and other deliveries' attempts stay.\<close>

lemma recover_expired_frame:
  assumes "recover_expired now (hydrateExpiredDelivery db row) db = Inr (x, db')"
    and "find_delivery_row db (dr_id row) = Some row" and "keys_ok db" and "attempt_keys_ok db"
  shows "keys_ok db'" and "attempt_keys_ok db'" and "hydrateDelivery db' = hydrateDelivery db"
    and "hydrateExpiredDelivery db' = hydrateExpiredDelivery db"
    and "i \<noteq> dr_id row \<Longrightarrow> find_delivery_row db' i = find_delivery_row db i"
    and "i \<noteq> dr_id row \<Longrightarrow> ledger_view db' i = ledger_view db i"
    and "i \<noteq> dr_id row \<Longrightarrow> tx_listAttemptsByDelivery db' i = tx_listAttemptsByDelivery db i"
proof -
  note rw = recover_expired_rewrite [OF assms(2,1)]
  note frame = expired_rewrite_frame [OF rw assms(2,3)]
  note att = recover_expired_attempts [OF assms(1,4)]
  show "keys_ok db'" "attempt_keys_ok db'" by (rule frame(2), rule att(1))
  show "i \<noteq> dr_id row \<Longrightarrow> find_delivery_row db' i = find_delivery_row db i" by (rule frame(3))
  then show "i \<noteq> dr_id row \<Longrightarrow> ledger_view db' i = ledger_view db i" by (simp add: ledger_view_def)
  show "i \<noteq> dr_id row \<Longrightarrow> tx_listAttemptsByDelivery db' i = tx_listAttemptsByDelivery db i"
    using att(2) by (simp add: tx_listAttempts_of hydrateExpired_cases(2))
  have em: "db_emails db' = db_emails db" using rw by (simp add: expired_rewrite_def)
  show h: "hydrateDelivery db' = hydrateDelivery db" using hydrate_db(2) [OF em] by (simp add: fun_eq_iff)
  show "hydrateExpiredDelivery db' = hydrateExpiredDelivery db" unfolding hydrateExpiredDelivery_def h ..
qed

lemma recover_loop_ok:
  assumes "keys_ok db" and "attempt_keys_ok db" and "distinct (map dr_id rows)"
    and "\<And>row. row \<in> set rows \<Longrightarrow> find_delivery_row db (dr_id row) = Some row"
    and "\<And>row. row \<in> set rows \<Longrightarrow> lease_expired_or_odd now row"
  shows "\<exists>rs db'. recover_loop now (map (hydrateExpiredDelivery db) rows) db = Inr (rs, db') \<and>
     (\<forall>i. i \<notin> dr_id ` set rows \<longrightarrow>
        find_delivery_row db' i = find_delivery_row db i \<and> ledger_view db' i = ledger_view db i) \<and>
     (\<forall>row \<in> set rows.
        if dl_status (hydrateDelivery db row) = Sending then recovered_ok db row db'
        else find_delivery_row db' (dr_id row) = Some row)"
  using assms
proof (induction rows arbitrary: db)
  case (Cons row rows)
  have row: "find_delivery_row db (dr_id row) = Some row" and exp: "lease_expired_or_odd now row"
    using Cons.prems(4,5) by simp_all
  obtain x db1 where one: "recover_expired now (hydrateExpiredDelivery db row) db = Inr (x, db1)"
    using recover_expired_total by blast
  note frame = recover_expired_frame [OF one row Cons.prems(1,2)]
  have other: "dr_id r \<noteq> dr_id row" if "r \<in> set rows" for r
    using that Cons.prems(3) by (simp, metis imageI)
  have fresh: "dr_id row \<notin> dr_id ` set rows" and dist: "distinct (map dr_id rows)"
    using Cons.prems(3) by simp_all
  have "find_delivery_row db1 (dr_id r) = Some r" "lease_expired_or_odd now r" if "r \<in> set rows" for r
    using that other frame(5) Cons.prems(4,5) by simp_all
  from Cons.IH [OF frame(1,2) dist this] obtain rs db' where
    rest: "recover_loop now (map (hydrateExpiredDelivery db) rows) db1 = Inr (rs, db')"
    and keep: "i \<notin> dr_id ` set rows \<Longrightarrow>
        find_delivery_row db' i = find_delivery_row db1 i \<and> ledger_view db' i = ledger_view db1 i"
    and finished: "r \<in> set rows \<Longrightarrow>
        if dl_status (hydrateDelivery db r) = Sending then recovered_ok db1 r db'
        else find_delivery_row db' (dr_id r) = Some r" for i r
    unfolding frame(3,4) by blast
  have "recover_loop now (map (hydrateExpiredDelivery db) (row # rows)) db =
      Inr ((case x of None \<Rightarrow> rs | Some y \<Rightarrow> y # rs), db')"
    by (simp add: one rest)
  moreover have "find_delivery_row db' i = find_delivery_row db i \<and> ledger_view db' i = ledger_view db i"
    if "i \<notin> dr_id ` set (row # rows)" for i
    using that keep [of i] frame(5,6) by simp
  moreover have "if dl_status (hydrateDelivery db r) = Sending then recovered_ok db r db'
      else find_delivery_row db' (dr_id r) = Some r" if r: "r \<in> set (row # rows)" for r
  proof (cases "r = row")
    case True
    show ?thesis
    proof (cases "dl_status (hydrateDelivery db row) = Sending")
      case sending: True
      have "recovered_ok db row db1" by (rule recover_expired_ok [OF row sending exp one])
      then show ?thesis using keep [OF fresh] True sending by (simp add: recovered_ok_def)
    next
      case False
      then have "db1 = db" using one by (simp add: recover_expired_def hydrateExpired_cases(1))
      then show ?thesis using keep [OF fresh] True False row by simp
    qed
  next
    case False
    then have "r \<in> set rows" using r by simp
    then show ?thesis
      using finished [OF \<open>r \<in> set rows\<close>] other [OF \<open>r \<in> set rows\<close>] frame(3) frame(7) [of "dr_id r"]
      by (simp add: recovered_ok_def recovered_view_def split: if_splits)
  qed
  ultimately show ?case by blast
qed simp

lemma recoverExpiredLeases_ok:
  assumes "keys_ok db" and "attempt_keys_ok db"
  shows "\<exists>rs db'. recoverExpiredLeases now db = Inr (rs, db') \<and>
     (\<forall>row \<in> set (db_deliveries db). dr_status row = ''sending'' \<longrightarrow> lease_expired_or_odd now row \<longrightarrow>
        (if dl_status (hydrateDelivery db row) = Sending then recovered_ok db row db'
         else find_delivery_row db' (dr_id row) = Some row))"
proof -
  let ?rows = "filter (\<lambda>r. dr_status r = ''sending'' \<and> lease_expired_or_odd now r) (db_deliveries db)"
  have "distinct (map dr_id ?rows)" using assms(1) by (simp add: keys_ok_def distinct_map_filter)
  then show ?thesis
    using recover_loop_ok [OF assms, of ?rows now] find_delivery_row_distinct [OF assms(1)]
    unfolding recoverExpiredLeases_def tx_listExpiredSending_def by fastforce
qed

lemma readable_sending:
  assumes "\<not> dl_storageIntegrityInvalid (hydrateDelivery db row)" and "dr_status row = ''sending''"
  shows "dl_status (hydrateDelivery db row) = Sending"
proof (rule hydrate_integral [OF refl assms(1)])
  fix m d1
  assume "deliveryRowToStored row m = Inr d1"
    and h: "hydrateDelivery db row = with_cancel_recovery (email_folder db (dr_email_id row)) d1"
  then have "read_status (dr_status row) = Some (dl_status d1)" by (intro deliveryRowToStored_fields(4))
  then show ?thesis using assms(2) h by simp
qed

text \<open>
  C5: Recovering expired leases always succeeds, and every readable message whose lease ran out stops
  being marked as sending. It waits to be sent again exactly when it was still in preflight, its lease
  and phase columns are consistent, and every attempt on it is readable, was made under another lease
  and is recorded as neither sending nor accepted; otherwise its outcome is unknown. (An earlier attempt
  whose outcome is recorded as unknown does not keep it from being queued: someone has accepted that
  risk by retrying it, and it keeps the mark of that retry.)
\<close>
theorem recovery_releases_expired:
  assumes "keys_ok db" and "attempt_keys_ok db" and "row \<in> set (db_deliveries db)"
    and "dr_status row = ''sending''" and "lease_expired_or_odd now row"
    and "\<not> dl_storageIntegrityInvalid (hydrateDelivery db row)"
  shows "\<exists>rs db'. recoverExpiredLeases now db = Inr (rs, db') \<and>
     ledger_view db' (dr_id row) = Some
       (if dl_dispatchPhase (hydrateDelivery db row) = Some Preflight \<and>
           phaseMetadataValid row \<and> leaseMetadataValid row \<and>
           (\<forall>a \<in> set (tx_listAttemptsByDelivery db (dr_id row)).
              \<not> at_storageIntegrityInvalid a \<and> dr_lease_token row \<noteq> Some (at_leaseToken a) \<and>
              at_status a \<noteq> Att_sending \<and> at_status a \<noteq> Att_accepted)
        then Waiting (dl_retryOriginStatus (hydrateDelivery db row)) else Closed Unknown)"
proof -
  have token: "truthy (dl_leaseToken (hydrateDelivery db row)) \<and> dl_leaseToken (hydrateDelivery db row) = dr_lease_token row"
    if "leaseMetadataValid row"
  proof (rule leaseMetadataValid_cases [OF that])
    fix t e
    assume "dr_lease_token row = Some t" and "js_trim t \<noteq> []"
    moreover from this have "t \<noteq> []" by (auto simp: js_trim_def)
    ultimately show ?thesis using hydrate_lease_columns(1) [OF assms(6)] by simp
  qed
  have unsafe: "unsafe_attempts (hydrateDelivery db row) as = [] \<longleftrightarrow>
      (\<forall>a \<in> set as. \<not> at_storageIntegrityInvalid a \<and> dr_lease_token row \<noteq> Some (at_leaseToken a) \<and>
         at_status a \<noteq> Att_sending \<and> at_status a \<noteq> Att_accepted)"
    if "leaseMetadataValid row" for as
    unfolding unsafe_attempts_def filter_empty_conv using token [OF that] by (metis (full_types))
  obtain rs db' where run: "recoverExpiredLeases now db = Inr (rs, db')" and "recovered_ok db row db'"
    using recoverExpiredLeases_ok [OF assms(1,2), of now] assms(3-5) readable_sending [OF assms(6,4)] by auto
  then have "ledger_view db' (dr_id row) = Some (recovered_view db row)" by (simp only: recovered_ok_def)
  with run show ?thesis
    by (cases "leaseMetadataValid row") (simp_all add: recovered_view_def unsafe)
qed

text \<open>
  C12: A row marked as sending whose record cannot be read is never recovered. Recovery lists it as
  expired, but skips it because it is shown as unknown, so it is found unchanged after every recovery; it
  is listed again by the next one, and the mailbox is asked for an alarm at a time that has passed.
\<close>
theorem unreadable_sending_is_never_recovered:
  assumes "keys_ok db" and "attempt_keys_ok db" and "row \<in> set (db_deliveries db)" and "0 \<le> now"
    and "dr_status row = ''sending''" and "lease_expired_or_odd now row"
    and "dl_storageIntegrityInvalid (hydrateDelivery db row)"
  shows "\<exists>rs db'. recoverExpiredLeases now db = Inr (rs, db') \<and>
     find_delivery_row db' (dr_id row) = Some row \<and>
     hydrateExpiredDelivery db' row \<in> set (tx_listExpiredSending db' now) \<and>
     (\<exists>at due. nextActionAt db' = Some at \<and> stamp_text at \<le> iso_text due \<and> due \<le> now)"
proof -
  have "dl_status (hydrateDelivery db row) = Unknown" using assms(7) hydrate_readable by blast
  with recoverExpiredLeases_ok [OF assms(1,2), of now] assms(3,5,6) obtain rs db'
    where run: "recoverExpiredLeases now db = Inr (rs, db')" and row: "find_delivery_row db' (dr_id row) = Some row"
    by fastforce
  have mem: "row \<in> set (db_deliveries db')" using row by (auto simp: find_delivery_row_def find_Some_iff)
  obtain at due_at where alarm: "nextActionAt db' = Some at" "row_next_action db' row = Some due_at"
    "stamp_text at \<le> stamp_text due_at"
    using alarm_covers_every_row [OF mem] assms(5) by auto
  have "\<exists>due. due_at = Canon due \<and> due \<le> now"
    using alarm(2) assms(4-6)
    by (cases "dr_lease_expires_at row")
      (auto simp: row_next_action_def lease_expired_or_odd_def or_epoch_stamp_def epoch_def isCanonicalUtcTimestamp_def
        canonical_stamp_iff split: if_splits option.splits elim!: due_or_odd.elims)
  then show ?thesis
    using run row alarm mem assms(5,6) by (fastforce simp: tx_listExpiredSending_def)
qed

end
