(* ===== verification/Outbound_Enqueue.thy ===== *)
theory Outbound_Enqueue
  imports Outbound_Guarantees
begin

text \<open>
  Enqueueing: what a new message looks like when it is read back, that repeating the same command is
  answered with the same message and stores nothing, and that a different command under the same
  idempotency key is refused.
\<close>

subsection \<open>A new row reads back\<close>

lemma sourceDraft_roundtrip:
  "valid_draft_reference i v \<Longrightarrow> sourceDraftFromStorage i (map_option JInt v) = Inr (i, v)"
  by (cases i; cases v) (auto simp: valid_draft_reference_def sourceDraftFromStorage_def)

lemma core_fields_fresh:
  assumes "valid_delivery d"
  shows "\<not> core_fields_invalid (delivery_to_row d)"
  using assms
  unfolding core_fields_valid_iff delivery_to_row_def delivery_row.simps status_text_sets valid_delivery_def
  by (cases "dl_retryOriginStatus d") (simp_all add: none_or_some read_origin_text)

lemma convert_fresh:
  assumes "valid_delivery d"
  shows "deliveryRowToStored (delivery_to_row d) (dl_mailboxId d)
           = Inr (d\<lparr>dl_cancelRecoveryPending := None, dl_recoveryIntegrityCode := None\<rparr>)"
proof -
  have draft: "sourceDraftFromStorage (dl_draftId d) (map_option JInt (dl_draftVersion d))
      = Inr (dl_draftId d, dl_draftVersion d)"
    using assms by (intro sourceDraft_roundtrip) (simp add: valid_delivery_def)
  have actor: "stored_actor (ac_kind (dl_actor d)) (ac_id (dl_actor d)) = dl_actor d"
    using assms by (intro stored_actor_roundtrip) (simp add: valid_delivery_def)
  have enums: "requiredEnum read_kind (kind_text k) n = Inr k"
    "requiredEnum read_source (source_text c) n = Inr c"
    "requiredEnum read_status (status_text s) n = Inr s"
    "requiredEnum read_actor_kind (actor_kind_text x) n = Inr x" for n k c s x
    by (simp_all add: text_simps)
  have "\<not> dl_storageIntegrityInvalid d" using assms by (simp add: valid_delivery_def)
  then show ?thesis
    using core_fields_fresh [OF assms]
    unfolding deliveryRowToStored_def Let_def
    by (simp add: delivery_to_row_def enums draft actor)
qed

lemma new_delivery_valid:
  assumes "validateSourceDraftReference s = Inr sd" and "ac_id (cm_actor c) \<noteq> Some []"
  shows "valid_delivery (new_delivery di ei sd c)"
proof -
  have "valid_draft_reference (fst sd) (snd sd)"
    using validateSourceDraftReference_Inr [of s "fst sd" "snd sd"] assms(1)
    by (cases "sn_draftId s"; cases "sn_draftVersion s") (auto simp: valid_draft_reference_def)
  then show ?thesis
    using assms(2) by (simp add: valid_delivery_def new_delivery_def defaultMaxAttempts_def)
qed

text \<open>The store after a fresh enqueue.\<close>

lemma enqueue_fresh_store:
  assumes "enqueue_fresh di ei pend c sd db = Inr (r, db')" and "valid_snapshot (cm_snapshot c)"
    and "validateSourceDraftReference (cm_snapshot c) = Inr sd" and "ac_id (cm_actor c) \<noteq> Some []"
  shows "eq_delivery r = new_delivery di ei sd c" and "eq_snapshot r = cm_snapshot c"
    and "\<not> eq_replayed r"
    and "db_deliveries db' = db_deliveries db @ [delivery_to_row (eq_delivery r)]"
    and "\<And>row. row \<in> set (db_deliveries db) \<Longrightarrow>
      dr_id row \<noteq> di \<and> dr_idempotency_key row \<noteq> cm_idempotencyKey c"
    and "tx_getSnapshot db' ei = Some (cm_snapshot c)"
    and "hydrateDelivery db' (delivery_to_row (eq_delivery r)) = eq_delivery r"
proof -
  from assms(1) obtain db1 where snap: "tx_insertSnapshot db ei (cm_snapshot c) pend = Inr db1"
    and ins: "tx_insertDelivery db1 (new_delivery di ei sd c) = Inr db'"
    and r: "r = \<lparr>eq_delivery = new_delivery di ei sd c, eq_snapshot = cm_snapshot c,
             eq_replayed = False, eq_outcome = Enqueued\<rparr>"
    by (rule enqueue_fresh_Inr)
  from snap obtain rows raw where raw: "serializeOutboundSnapshot (cm_snapshot c) = Inr raw"
    and none: "find_email_row db ei = None"
    and db1: "db1 = db\<lparr>db_emails := db_emails db @ [snapshot_email_row ei (cm_snapshot c) raw],
                 db_attachments := db_attachments db @ rows\<rparr>"
    by (rule tx_insertSnapshot_Inr)
  note ins = tx_insertDelivery_Inr [OF ins]
  show "eq_delivery r = new_delivery di ei sd c" "eq_snapshot r = cm_snapshot c" "\<not> eq_replayed r"
    by (simp_all add: r)
  show "db_deliveries db' = db_deliveries db @ [delivery_to_row (eq_delivery r)]"
    by (simp add: ins(4) db1 r)
  show "row \<in> set (db_deliveries db) \<Longrightarrow> dr_id row \<noteq> di \<and> dr_idempotency_key row \<noteq> cm_idempotencyKey c" for row
    using ins(3) [of row] by (simp add: db1)
  have "find_email_row db1 ei = Some (snapshot_email_row ei (cm_snapshot c) raw)"
    using none by (simp add: db1 find_email_row_def find_append snapshot_email_row_def)
  moreover have "find_email_row db' ei = map_option (\<lambda>e. if em_id e = ei
      then e\<lparr>em_date := Some (Canon (cm_requestedAt c))\<rparr> else e) (find_email_row db1 ei)"
    unfolding ins(4) find_email_row_def by (simp add: find_update_where new_delivery_def)
  ultimately have "Option.bind (find_email_row db' ei) em_raw_headers = Some raw"
    by (simp add: snapshot_email_row_def)
  then show snapshot: "tx_getSnapshot db' ei = Some (cm_snapshot c)"
    using deserialize_serialize [OF assms(2) raw] by (simp add: tx_getSnapshot_def)
  let ?d = "new_delivery di ei sd c"
  have "deliveryRowToStored (delivery_to_row ?d) (sn_mailboxId (cm_snapshot c)) = Inr ?d"
    using convert_fresh [OF new_delivery_valid [OF assms(3,4), of di ei]] by (simp add: new_delivery_def)
  moreover have "row_mailbox db' (delivery_to_row ?d) = Some (sn_mailboxId (cm_snapshot c))"
    by (simp add: row_mailbox_def snapshot)
  ultimately show "hydrateDelivery db' (delivery_to_row (eq_delivery r)) = eq_delivery r"
    by (simp add: hydrateDelivery_def Let_def r with_cancel_recovery_def) (simp add: new_delivery_def)
qed

text \<open>
  C7: A message that was newly enqueued reads back exactly as it was returned, with the submitted
  snapshot; it is queued and does not become available before the end of the undo window or its
  scheduled time.
  This holds for a command whose snapshot satisfies the checks of the snapshot reader (\<open>valid_snapshot\<close>:
  normalised addresses, a recipient, the sender's mailbox, non-empty reply, reference and thread ids, and
  distinct attachment ids with an exact byte manifest) and whose actor does not have the empty id;
  enqueueing itself checks neither.
\<close>
theorem enqueued_reads_back:
  assumes "enqueue cb di ei pend c db = Inr (r, db')" and "\<not> eq_replayed r"
    and "valid_snapshot (cm_snapshot c)" and "ac_id (cm_actor c) \<noteq> Some []"
  shows "service_get db' di = Some (eq_delivery r) \<and> tx_getSnapshot db' ei = Some (cm_snapshot c) \<and>
     dl_status (eq_delivery r) = Queued \<and> cm_undoUntil c \<le> dl_availableAt (eq_delivery r) \<and>
     (\<forall>t. cm_scheduledFor c = Some t \<longrightarrow> t \<le> dl_availableAt (eq_delivery r))"
  using assms(1)
proof (cases rule: enqueue_cases)
  case (fresh sd)
  note store = enqueue_fresh_store [OF fresh(4) assms(3) fresh(2) assms(4)]
  have "find_delivery_row db' di = Some (delivery_to_row (eq_delivery r))"
    using store(1,4,5) by (simp add: find_delivery_row_def find_append)
      (auto simp: find_None_iff split: option.splits dest!: find_key_Some)
  then have "tx_getDelivery db' di = Some (eq_delivery r)"
    using store(7) by (simp add: tx_getDelivery_def)
  moreover have "dl_status (eq_delivery r) = Queued"
    and "dl_availableAt (eq_delivery r) = computeAvailableAt (cm_undoUntil c) (cm_scheduledFor c)"
    by (simp_all add: store(1) new_delivery_def)
  ultimately show ?thesis
    using store(6) by (simp add: service_get_def computeAvailableAt_max split: option.splits)
qed (use assms(2) in simp)

subsection \<open>Replays\<close>

lemma enqueue_replay_again:
  assumes "enqueue cb di ei pend c db = Inr (r, db')" and "eq_replayed r"
  shows "db' = db \<and> enqueue cb' di' ei' pend' c db = bind_result (cb' r) (\<lambda>_. Inr (r, db))"
proof -
  from assms(1) have fp: "assertOutboundCommandFingerprint (cm_commandFingerprint c) = Inr ()"
    by (auto simp: enqueue_def bind_result_Inr)
  from assms(1) show ?thesis
  proof (cases rule: enqueue_cases)
    case (fresh sd)
    then show ?thesis using assms(2) by (auto elim!: enqueue_fresh_Inr)
  next
    case (replay d)
    show ?thesis
    proof (cases "tx_findDeliveryByIdempotencyKey db (cm_idempotencyKey c)")
      case (Some e)
      then show ?thesis
        using assms(1) fp replay(1) by (auto simp: enqueue_def bind_result_Inr)
    next
      case None
      from assms(1) None fp obtain sd where sd: "validateSourceDraftReference (cm_snapshot c) = Inr sd"
        by (auto simp: enqueue_def bind_result_Inr)
      show ?thesis
      proof (cases "delivery_of_draft db sd")
        case (Some e)
        then show ?thesis
          using assms(1) fp replay(1) None sd by (auto simp: enqueue_def bind_result_Inr)
      next
        case no_draft: None
        then have "enqueue_fresh di ei pend c sd db = Inr (r, db')"
          using assms(1) fp None sd by (auto simp: enqueue_def bind_result_Inr)
        then show ?thesis using assms(2) by (auto elim!: enqueue_fresh_Inr)
      qed
    qed
  qed
qed

text \<open>
  C6: Enqueueing is idempotent: issuing the same command again, under whatever fresh ids and with whatever
  callback, stores nothing, and is answered with the message of the first call unless the callback itself
  throws.
  This holds for a command whose snapshot satisfies the checks of the snapshot reader (\<open>valid_snapshot\<close>:
  normalised addresses, a recipient, the sender's mailbox, non-empty reply, reference and thread ids, and
  distinct attachment ids with an exact byte manifest) and whose actor does not have the empty id;
  enqueueing itself checks neither.
\<close>
theorem enqueue_is_idempotent:
  assumes "enqueue cb di ei pend c db = Inr (r, db')" and "valid_snapshot (cm_snapshot c)"
    and "ac_id (cm_actor c) \<noteq> Some []"
  shows "\<exists>r'. eq_replayed r' \<and> eq_delivery r' = eq_delivery r \<and> eq_snapshot r' = eq_snapshot r \<and>
     (\<forall>cb' di' ei' pend'. enqueue cb' di' ei' pend' c db' = bind_result (cb' r') (\<lambda>_. Inr (r', db')))"
proof (cases "eq_replayed r")
  case True
  then show ?thesis using enqueue_replay_again [OF assms(1)] by blast
next
  case False
  let ?again = "\<lparr>eq_delivery = eq_delivery r, eq_snapshot = eq_snapshot r, eq_replayed = True,
    eq_outcome = outboundEnqueueOutcome (dl_status (eq_delivery r)) True\<rparr>"
  from assms(1) have fp: "assertOutboundCommandFingerprint (cm_commandFingerprint c) = Inr ()"
    by (auto simp: enqueue_def bind_result_Inr)
  from assms(1) show ?thesis
  proof (cases rule: enqueue_cases)
    case (fresh sd)
    note store = enqueue_fresh_store [OF fresh(4) assms(2) fresh(2) assms(3)]
    have "find (\<lambda>r. dr_idempotency_key r = cm_idempotencyKey c) (db_deliveries db') =
        Some (delivery_to_row (eq_delivery r))"
      using store(1,4,5) by (simp add: find_append)
        (auto simp: find_None_iff split: option.splits dest!: find_key_Some)
    then have found: "tx_findDeliveryByIdempotencyKey db' (cm_idempotencyKey c) = Some (eq_delivery r)"
      using store(7) by (simp add: tx_findDeliveryByIdempotencyKey_def)
    have "hex64 (cm_commandFingerprint c)"
      using fp by (simp add: assertOutboundCommandFingerprint_def)
    then have "assertReplayFingerprint (eq_delivery r) c = Inr ()"
      by (auto simp: store(1) assertReplayFingerprint_def classifyOutboundReplay_def new_delivery_def hex64_def)
    moreover have "dl_emailId (eq_delivery r) = ei" by (simp add: store(1))
    ultimately have "replay_existing c db' (eq_delivery r) = Inr ?again"
      using store(2,6) by (simp add: replay_existing_def)
    then have "enqueue cb' di' ei' pend' c db' = bind_result (cb' ?again) (\<lambda>_. Inr (?again, db'))"
      for cb' di' ei' pend'
      using fp found by (simp add: enqueue_def)
    then show ?thesis by (intro exI [of _ ?again]) simp
  qed (use False in simp)
qed

text \<open>
  C11: An idempotency key belongs to one command: a command with another fingerprint is refused with the
  reason, and nothing is stored.
\<close>
theorem reused_key_is_refused:
  assumes "hex64 (cm_commandFingerprint c)"
    and "getByIdempotencyKey db (cm_idempotencyKey c) = Some d"
    and "dl_commandFingerprint d \<noteq> Some (cm_commandFingerprint c)"
  shows "enqueue cb di ei pend c db = Inl (OutboundIdempotencyConflict
     (if truthy (dl_commandFingerprint d) then Command_mismatch else Legacy_idempotency_unverifiable))"
  using assms
  by (simp add: enqueue_def assertOutboundCommandFingerprint_def guard_result_def getByIdempotencyKey_def
      replay_existing_def assertReplayFingerprint_def classifyOutboundReplay_def)

text \<open>
  A message linked to a draft is only enqueued against the draft version it was composed from: if
  the draft is gone, is no draft any more or has been edited, the command is refused with that reason.
\<close>
theorem stale_draft_is_refused:
  assumes "enqueue cb di ei pend c db = Inr (r, db')" and "\<not> eq_replayed r"
    and "sn_draftId (cm_snapshot c) = Some i"
  shows "\<exists>e v. find_email_row db i = Some e \<and> em_folder_id e = DRAFT \<and>
     sn_draftVersion (cm_snapshot c) = Some v \<and> em_draft_version e = v \<and>
     tx_findDeliveryBySourceDraft db i v = None"
  using assms(1)
proof (cases rule: enqueue_cases)
  case (fresh sd)
  then obtain v where sd: "sd = (Some i, Some v)" and v: "sn_draftVersion (cm_snapshot c) = Some v"
    using validateSourceDraftReference_Inr [of "cm_snapshot c" "fst sd" "snd sd"] assms(3)
    by (cases sd) auto
  from fresh(4) have "check_source_draft db sd = Inr ()" by (rule enqueue_fresh_Inr)
  then show ?thesis
    using fresh(3) v
    by (auto simp: sd check_source_draft_def delivery_of_draft_def tx_assertSourceDraftVersion_def
        split: option.splits if_splits draft_assertion.splits)
qed (use assms(2) in simp)

end
