(* ===== verification/Outbound_Samples.thy ===== *)
theory Outbound_Samples
  imports Outbound_Recovery Outbound_Enqueue
begin

text \<open>
  A small mailbox run through the outbox: one message from its enqueueing to its acceptance, and the
  stores in between. The guarantees of the outbox are applied to these stores.
\<close>

definition sample_snapshot :: message_snapshot where
  "sample_snapshot = \<lparr>sn_mailboxId = ''a@x.io'', sn_draftId = None, sn_draftVersion = None,
     sn_kind = Compose, sn_to = [''b@y.io''], sn_cc = [], sn_bcc = [], sn_from = ''a@x.io'',
     sn_subject = ''Hi'', sn_html = None, sn_text = Some ''Hello'', sn_inReplyTo = None,
     sn_references = None, sn_threadId = ''t1'', sn_attachmentIds = [],
     sn_attachmentByteIdentities = Some [], sn_sourceDraftAttachmentIds = None\<rparr>"

definition sample_user :: delivery_actor where
  "sample_user = \<lparr>ac_kind = ActUser, ac_id = Some ''u1''\<rparr>"

definition sample_command :: enqueue_command where
  "sample_command = \<lparr>cm_idempotencyKey = ''k1'', cm_commandFingerprint = replicate 64 (CHR ''a''),
     cm_source = SrcUi, cm_actor = sample_user, cm_snapshot = sample_snapshot,
     cm_requestedAt = 0, cm_undoUntil = 10000, cm_scheduledFor = None\<rparr>"

definition empty_outbox :: outbox_db where
  "empty_outbox = \<lparr>db_deliveries = [], db_attempts = [], db_emails = [], db_attachments = [], db_recovery = []\<rparr>"

definition sample_row :: delivery_row where
  "sample_row =
     \<lparr>dr_id = ''d1'', dr_email_id = ''e1'', dr_source_draft_id = None,
      dr_source_draft_version = None, dr_idempotency_key = ''k1'',
      dr_command_fingerprint = Some (replicate 64 (CHR ''a'')),
      dr_kind = ''compose'', dr_source = ''ui'', dr_actor_kind = ''user'', dr_actor_id = Some ''u1'',
      dr_status = ''queued'', dr_available_at = Canon 10000, dr_undo_until = Canon 10000,
      dr_scheduled_for = None, dr_next_attempt_at = None, dr_attempt_count = JInt 0,
      dr_max_attempts = JInt 4, dr_preflight_deferral_count = JInt 0,
      dr_cancellation_recovery_attempt_count = JInt 0, dr_retry_origin_status = None,
      dr_dispatch_phase = None, dr_active_attempt_id = None, dr_lease_token = None,
      dr_lease_expires_at = None, dr_ses_message_id = None, dr_last_error_code = None,
      dr_last_error_message = None, dr_created_at = Canon 0, dr_updated_at = Canon 0,
      dr_sent_at = None, dr_failed_at = None, dr_unknown_at = None, dr_cancelled_at = None,
      dr_accepted_attempt_count = JInt 0, dr_duplicate_acceptance_at = None\<rparr>"

definition sample_attempt_row :: attempt_row where
  "sample_attempt_row =
     \<lparr>ar_id = ''a1'', ar_delivery_id = ''d1'', ar_attempt_number = JInt 1, ar_status = ''sending'',
      ar_lease_token = ''l1'', ar_started_at = Canon 30000, ar_finished_at = None,
      ar_ses_message_id = None, ar_http_status = None, ar_error_code = None, ar_error_message = None,
      ar_provider_state = ''none'', ar_provider_event_at = None, ar_provider_event_id = None\<rparr>"

definition sample_email :: email_row where
  "sample_email =
     \<lparr>em_id = ''e1'', em_folder_id = ''outbox'', em_subject = Some ''Hi'',
      em_sender = Some ''a@x.io'', em_recipient = Some ''b@y.io'', em_cc = None, em_bcc = None,
      em_date = Some (Canon 0), em_read = 1, em_starred = 0, em_body = Some ''Hello'',
      em_in_reply_to = None, em_email_references = None, em_thread_id = Some ''t1'',
      em_message_id = None,
      em_raw_headers = Some (Json_text (JObj
        [(''kind'', JStr ''mail-portal/outbound-snapshot''), (''version'', JNum (JInt 2)),
         (''snapshot'', JObj
           [(''mailboxId'', JStr ''a@x.io''), (''kind'', JStr ''compose''),
            (''to'', JArr [JStr ''b@y.io'']), (''cc'', JArr []), (''bcc'', JArr []),
            (''from'', JStr ''a@x.io''), (''subject'', JStr ''Hi''), (''text'', JStr ''Hello''),
            (''threadId'', JStr ''t1''), (''attachmentIds'', JArr []),
            (''attachmentByteIdentities'', JArr [])])])),
      em_draft_version = 1\<rparr>"

definition sample_store :: "delivery_row \<Rightarrow> attempt_row list \<Rightarrow> outbox_db" where
  "sample_store row attempts =
     \<lparr>db_deliveries = [row], db_attempts = attempts, db_emails = [sample_email],
      db_attachments = [], db_recovery = []\<rparr>"

definition sample_queued :: outbox_db where
  "sample_queued = sample_store sample_row []"

definition sample_leased_row :: delivery_row where
  "sample_leased_row = sample_row\<lparr>dr_status := ''sending'', dr_dispatch_phase := Some ''preflight'',
     dr_lease_token := Some ''l1'', dr_lease_expires_at := Some (Canon 80000),
     dr_updated_at := Canon 20000\<rparr>"

definition sample_leased :: outbox_db where
  "sample_leased = sample_store sample_leased_row []"

definition sample_in_flight :: outbox_db where
  "sample_in_flight = sample_store
     (sample_leased_row\<lparr>dr_attempt_count := JInt 1, dr_dispatch_phase := Some ''provider'',
        dr_active_attempt_id := Some ''a1'', dr_lease_expires_at := Some (Canon 90000),
        dr_updated_at := Canon 30000\<rparr>) [sample_attempt_row]"

definition sample_sent_row :: delivery_row where
  "sample_sent_row = sample_row\<lparr>dr_status := ''sent'', dr_attempt_count := JInt 1,
     dr_ses_message_id := Some ''m1'', dr_updated_at := Canon 40000, dr_sent_at := Some (Canon 40000)\<rparr>"

definition sample_sent :: outbox_db where
  "sample_sent = (sample_store sample_sent_row
     [sample_attempt_row\<lparr>ar_status := ''accepted'', ar_finished_at := Some (Canon 40000),
        ar_ses_message_id := Some ''m1''\<rparr>])
     \<lparr>db_recovery := [\<lparr>rc_delivery_id = ''d1'', rc_email_id = ''e1'', rc_attempt_id = Some ''a1'',
        rc_ses_message_id = Some ''m1'', rc_accepted_at = Some (Canon 40000),
        rc_source_draft_id = None, rc_source_draft_version = None, rc_actor_kind = ''user'',
        rc_actor_id = Some ''u1'', rc_state = ''pending'', rc_generation = 0, rc_attempt_count = 0,
        rc_next_attempt_at = Some (Canon 40000), rc_message_projected_at = None, rc_draft_consumed_at = None,
        rc_last_error_code = None, rc_created_at = Canon 40000, rc_updated_at = Canon 40000,
        rc_completed_at = None\<rparr>]\<rparr>"

definition sample_failure :: failure_details where
  "sample_failure = \<lparr>fd_at = 40000, fd_code = ''timeout'', fd_message = None, fd_httpStatus = None\<rparr>"

definition sample_unknown :: outbox_db where
  "sample_unknown = sample_store
     (sample_row\<lparr>dr_status := ''unknown'', dr_attempt_count := JInt 1, dr_updated_at := Canon 40000,
        dr_unknown_at := Some (Canon 40000), dr_last_error_code := Some ''timeout''\<rparr>)
     [sample_attempt_row\<lparr>ar_status := ''unknown'', ar_finished_at := Some (Canon 40000),
        ar_error_code := Some ''timeout''\<rparr>]"

definition sample_cancelled :: outbox_db where
  "sample_cancelled = sample_store
     (sample_row\<lparr>dr_status := ''cancelled'', dr_next_attempt_at := Some (Canon 5000),
        dr_cancelled_at := Some (Canon 5000), dr_updated_at := Canon 5000\<rparr>) []"

text \<open>The samples are what the commands produce, one after the other.\<close>

lemma run_sample_enqueue:
  "run_op (Op_enqueue (\<lambda>_. Inr ()) ''d1'' ''e1'' [] sample_command) empty_outbox = sample_queued"
  by code_simp

lemma run_sample_claim: "run_op (Op_claim ''l1'' 20000 60000) sample_queued = sample_leased"
  by code_simp

lemma run_sample_begin:
  "run_op (Op_begin_attempt ''d1'' ''l1'' ''a1'' 30000 60000) sample_leased = sample_in_flight"
  by code_simp

lemma run_sample_accept:
  "run_op (Op_settle (Settle_accepted ''m1'' 40000) ''d1'' ''l1'') sample_in_flight = sample_sent"
  by code_simp

lemma run_sample_unknown:
  "run_op (Op_settle (Settle_unknown sample_failure) ''d1'' ''l1'') sample_in_flight = sample_unknown"
  by code_simp

lemma run_sample_cancel:
  "run_op (Op_cancel (\<lambda>_ _. Inr ()) ''d1'' sample_user 5000) sample_queued = sample_cancelled"
  by code_simp

lemma sample_keys [simp]:
  "keys_ok sample_queued" "keys_ok sample_leased" "keys_ok sample_in_flight" "keys_ok sample_sent"
  "keys_ok sample_unknown" "keys_ok sample_cancelled"
  by (simp_all add: keys_ok_def sample_store_def sample_queued_def sample_leased_def
      sample_in_flight_def sample_sent_def sample_unknown_def sample_cancelled_def)

lemma sample_views [simp]:
  "ledger_view sample_queued ''d1'' = Some (Waiting None)"
  "ledger_view sample_leased ''d1'' = Some (Checking ''l1'' None)"
  "ledger_view sample_in_flight ''d1'' = Some (In_flight ''l1'' ''a1'' None)"
  "ledger_view sample_sent ''d1'' = Some (Closed Sent)"
  "ledger_view sample_unknown ''d1'' = Some (Closed Unknown)"
  "ledger_view sample_cancelled ''d1'' = Some (Closed Cancelled)"
  by code_simp+

end
