(* ===== verification/Outbound_Provider.thy ===== *)
theory Outbound_Provider
  imports Outbound_Machine
begin

text \<open>
  What the mailbox itself writes to its outgoing messages (\<^verbatim>\<open>workers/durableObject/index.ts\<close>), beside the
  commands of the outbox service: the provider's delivery reports, the outcome of an attempt that a
  report overtook, the repair of a message from the evidence of its accepted attempts, and the
  bookkeeping of cancelled messages. The activity log these write is not modelled.
\<close>

subsection \<open>Delivery reports\<close>

datatype report_class = Report_delivery | Report_bounce | Report_complaint

primrec report_class_text :: "report_class \<Rightarrow> string" where
  "report_class_text Report_delivery = ''delivery''"
| "report_class_text Report_bounce = ''bounce''"
| "report_class_text Report_complaint = ''complaint''"

record report_row =
  pe_id :: string
  pe_attempt_id :: string
  pe_ses_message_id :: string
  pe_event_class :: string
  pe_recipient_hashes_json :: raw_text
  pe_occurred_at :: stamp
  pe_received_at :: stamp

record mailbox_outbox =
  mo_outbox :: outbox_db
  mo_reports :: "report_row list"

record ses_report =
  sr_eventId :: string
  sr_deliveryId :: string
  sr_attemptId :: string
  sr_sesMessageId :: string
  sr_eventType :: report_class
  sr_recipientHashes :: "string list"
  sr_occurredAt :: stamp
  sr_receivedAt :: stamp

text \<open>The digest is an argument; addresses are compared in lower case and without surrounding blanks.\<close>

definition privacySafeRecipientHash :: "(string \<Rightarrow> string) \<Rightarrow> string \<Rightarrow> string" where
  "privacySafeRecipientHash sha256 address = sha256 (js_lower (js_trim address))"

definition intendedRecipientHashes :: "(string \<Rightarrow> string) \<Rightarrow> outbox_db \<Rightarrow> string \<Rightarrow> string list" where
  "intendedRecipientHashes sha256 db deliveryId =
     (case Option.bind (find_delivery_row db deliveryId) (\<lambda>row. tx_getSnapshot db (dr_email_id row)) of
        None \<Rightarrow> []
      | Some s \<Rightarrow> map (privacySafeRecipientHash sha256) (sn_to s @ sn_cc s @ sn_bcc s))"

definition hashesFor :: "report_row \<Rightarrow> string list" where
  "hashesFor e =
     (case pe_recipient_hashes_json e of
        Json_text (JArr xs) \<Rightarrow> filter hex64 (concat (map (\<lambda>x. case x of JStr h \<Rightarrow> [h] | _ \<Rightarrow> []) xs))
      | _ \<Rightarrow> [])"

definition is_report :: "report_class \<Rightarrow> report_row \<Rightarrow> bool" where
  "is_report k e \<longleftrightarrow> pe_event_class e = report_class_text k"

datatype attempt_outcome = Outcome_successful | Outcome_bounced | Outcome_unknown

definition attemptOutcome :: "string list \<Rightarrow> report_row list \<Rightarrow> attempt_outcome" where
  "attemptOutcome intended events =
     (if events = [] \<or> list_ex (\<lambda>e. is_report Report_delivery e \<or> is_report Report_complaint e) events
      then Outcome_successful
      else
        (let bounced = concat (map hashesFor (filter (is_report Report_bounce) events))
         in if bounced = [] \<or> intended = [] then Outcome_unknown
            else if list_all (\<lambda>h. h \<in> set bounced) intended then Outcome_bounced else Outcome_successful))"

definition outcome_state :: "attempt_outcome \<Rightarrow> string" where
  "outcome_state x = (case x of Outcome_successful \<Rightarrow> ''delivered''
     | Outcome_unknown \<Rightarrow> ''bounce_scope_unknown'' | Outcome_bounced \<Rightarrow> ''bounced'')"

definition report_provider_state :: "string list \<Rightarrow> report_row list \<Rightarrow> string" where
  "report_provider_state intended events =
     (if list_ex (is_report Report_complaint) events then ''complained''
      else outcome_state (attemptOutcome intended events))"

text \<open>The attempt's report that counts: a complaint before a delivery before a bounce, the latest first.\<close>

definition first_some :: "'a option \<Rightarrow> 'a option \<Rightarrow> 'a option" where
  "first_some x y = (case x of None \<Rightarrow> y | Some _ \<Rightarrow> x)"

definition authoritativeReport :: "report_row list \<Rightarrow> report_row option" where
  "authoritativeReport events =
     first_some (find (is_report Report_complaint) events)
       (first_some (find (is_report Report_delivery) events) (find (is_report Report_bounce) events))"

definition truth_status :: "provider_truth \<Rightarrow> delivery_status" where
  "truth_status t = (case t of Truth_sent \<Rightarrow> Sent | Truth_bounced \<Rightarrow> Bounced | Truth_unknown \<Rightarrow> Unknown)"

definition attempts_by_number :: "string \<Rightarrow> outbox_db \<Rightarrow> attempt_row list" where
  "attempts_by_number deliveryId db =
     sort_desc (\<lambda>r. number_order (ar_attempt_number r)) (filter (\<lambda>r. ar_delivery_id r = deliveryId) (db_attempts db))"

definition find_attempt_row :: "string \<Rightarrow> string \<Rightarrow> outbox_db \<Rightarrow> attempt_row option" where
  "find_attempt_row attemptId deliveryId db =
     find (\<lambda>r. ar_id r = attemptId \<and> ar_delivery_id r = deliveryId) (db_attempts db)"

definition edit_attempt :: "string \<Rightarrow> (attempt_row \<Rightarrow> attempt_row) \<Rightarrow> outbox_db \<Rightarrow> outbox_db" where
  "edit_attempt i f db = db\<lparr>db_attempts := update_where (\<lambda>r. ar_id r = i) f (db_attempts db)\<rparr>"

definition edit_delivery :: "string \<Rightarrow> (delivery_row \<Rightarrow> delivery_row) \<Rightarrow> outbox_db \<Rightarrow> outbox_db" where
  "edit_delivery i f db = db\<lparr>db_deliveries := update_where (\<lambda>r. dr_id r = i) f (db_deliveries db)\<rparr>"

text \<open>The recovery row of a message: written anew, or started over.\<close>

definition upsert_recovery ::
  "delivery_row \<Rightarrow> string \<Rightarrow> string \<Rightarrow> stamp \<Rightarrow> stamp \<Rightarrow> outbox_db \<Rightarrow> outbox_db" where
  "upsert_recovery d attemptId sesMessageId acceptedAt at db =
     (if list_ex (\<lambda>r. rc_delivery_id r = dr_id d) (db_recovery db)
      then db\<lparr>db_recovery := update_where (\<lambda>r. rc_delivery_id r = dr_id d)
        (\<lambda>r. r\<lparr>rc_attempt_id := Some attemptId, rc_ses_message_id := Some sesMessageId,
           rc_accepted_at := Some acceptedAt, rc_state := ''pending'', rc_generation := rc_generation r + 1,
           rc_attempt_count := 0, rc_next_attempt_at := Some at, rc_message_projected_at := None,
           rc_last_error_code := None, rc_updated_at := at, rc_completed_at := None\<rparr>) (db_recovery db)\<rparr>
      else db\<lparr>db_recovery := db_recovery db @
        [\<lparr>rc_delivery_id = dr_id d, rc_email_id = dr_email_id d, rc_attempt_id = Some attemptId,
          rc_ses_message_id = Some sesMessageId, rc_accepted_at = Some acceptedAt,
          rc_source_draft_id = dr_source_draft_id d, rc_source_draft_version = dr_source_draft_version d,
          rc_actor_kind = dr_actor_kind d, rc_actor_id = dr_actor_id d, rc_state = ''pending'',
          rc_generation = 0, rc_attempt_count = 0, rc_next_attempt_at = Some at,
          rc_message_projected_at = None, rc_draft_consumed_at = None, rc_last_error_code = None,
          rc_created_at = at, rc_updated_at = at, rc_completed_at = None\<rparr>]\<rparr>)"

text \<open>What every report and every overtaken outcome writes to the message.\<close>

definition unleased :: "delivery_row \<Rightarrow> delivery_row" where
  "unleased d = d\<lparr>dr_dispatch_phase := None, dr_active_attempt_id := None, dr_lease_token := None,
     dr_lease_expires_at := None, dr_next_attempt_at := None, dr_failed_at := None,
     dr_last_error_message := None\<rparr>"

definition settled_by_truth ::
  "provider_truth \<Rightarrow> string option \<Rightarrow> stamp option \<Rightarrow> stamp \<Rightarrow> attempt_row list \<Rightarrow> stamp option \<Rightarrow> string option \<Rightarrow>
     delivery_row \<Rightarrow> delivery_row" where
  "settled_by_truth truth sesMessageId sentAt at accepted duplicateAt errorCode d =
     (unleased d)\<lparr>dr_status := status_text (truth_status truth), dr_retry_origin_status := None,
       dr_ses_message_id := sesMessageId, dr_sent_at := sentAt,
       dr_unknown_at := (if truth = Truth_unknown then Some at else None),
       dr_accepted_attempt_count := JInt (int (length accepted)), dr_duplicate_acceptance_at := duplicateAt,
       dr_last_error_code := errorCode, dr_updated_at := at\<rparr>"

definition duplicate_at :: "attempt_row list \<Rightarrow> delivery_row \<Rightarrow> stamp \<Rightarrow> stamp option" where
  "duplicate_at accepted d at =
     (if length accepted > 1 then first_some (dr_duplicate_acceptance_at d) (Some at)
      else dr_duplicate_acceptance_at d)"

definition reported_attempt ::
  "ses_report \<Rightarrow> string \<Rightarrow> report_row option \<Rightarrow> attempt_row \<Rightarrow> attempt_row" where
  "reported_attempt input state report a =
     a\<lparr>ar_status := ''accepted'', ar_finished_at := first_some (ar_finished_at a) (Some (sr_occurredAt input)),
       ar_ses_message_id := Some (sr_sesMessageId input), ar_provider_state := state,
       ar_provider_event_at := map_option pe_occurred_at report, ar_provider_event_id := map_option pe_id report\<rparr>"

definition report_error :: "report_row list \<Rightarrow> provider_truth \<Rightarrow> string option" where
  "report_error events truth =
     (if list_ex (is_report Report_complaint) events then Some ''ses_complaint''
      else if truth = Truth_unknown then Some ''ses_bounce_scope_unknown''
      else if truth = Truth_bounced then Some ''ses_bounce''
      else if list_ex (is_report Report_bounce) events then Some ''ses_partial_bounce'' else None)"

text \<open>The message and its recovery row, from the reports on all its accepted attempts.\<close>

definition settle_by_reports ::
  "string list \<Rightarrow> ses_report \<Rightarrow> delivery_row \<Rightarrow> attempt_row \<Rightarrow> mailbox_outbox \<Rightarrow> mailbox_outbox" where
  "settle_by_reports intended input d a s =
     (let accepted = filter (\<lambda>r. ar_status r = ''accepted'') (attempts_by_number (sr_deliveryId input) (mo_outbox s));
          acceptedEvents = filter (\<lambda>e. pe_attempt_id e \<in> ar_id ` set accepted) (mo_reports s);
          outcome = (\<lambda>r. attemptOutcome intended (filter (\<lambda>e. pe_attempt_id e = ar_id r) acceptedEvents));
          truth = aggregateAcceptedAttemptProviderTruth (map (\<lambda>r. outcome_state (outcome r)) accepted);
          best = (case first_some (find (\<lambda>r. outcome r = Outcome_successful) accepted)
              (first_some (find (\<lambda>r. outcome r = Outcome_unknown) accepted) (find (\<lambda>r. True) accepted)) of
            None \<Rightarrow> a | Some r \<Rightarrow> r);
          ses = (case ar_ses_message_id best of None \<Rightarrow> sr_sesMessageId input | Some m \<Rightarrow> m);
          at = (case ar_finished_at best of None \<Rightarrow> sr_occurredAt input | Some t \<Rightarrow> t)
      in s\<lparr>mo_outbox := upsert_recovery d (ar_id best) ses at (sr_receivedAt input)
            (edit_delivery (sr_deliveryId input)
              (settled_by_truth truth (Some ses) (Some at) (sr_receivedAt input) accepted
                (duplicate_at accepted d (sr_occurredAt input)) (report_error acceptedEvents truth)) (mo_outbox s))\<rparr>)"

datatype report_reply =
  Report_recorded | Report_already_recorded | Report_not_found | Report_invalid_correlation

definition new_report :: "ses_report \<Rightarrow> string list \<Rightarrow> report_row" where
  "new_report input hashes =
     \<lparr>pe_id = sr_eventId input, pe_attempt_id = sr_attemptId input, pe_ses_message_id = sr_sesMessageId input,
      pe_event_class = report_class_text (sr_eventType input),
      pe_recipient_hashes_json = Json_text (jstrings hashes),
      pe_occurred_at = sr_occurredAt input, pe_received_at = sr_receivedAt input\<rparr>"

definition same_report :: "report_row \<Rightarrow> report_row \<Rightarrow> bool" where
  "same_report e e' \<longleftrightarrow> pe_attempt_id e = pe_attempt_id e' \<and> pe_ses_message_id e = pe_ses_message_id e' \<and>
     pe_event_class e = pe_event_class e' \<and> pe_recipient_hashes_json e = pe_recipient_hashes_json e'"

text \<open>
  The transaction of \<^verbatim>\<open>recordSesProviderEvent\<close>. The hashes of the recipients were computed before it
  began; what the mailbox does afterwards (filing the message, deleting its draft) are commands of its own.
\<close>

definition recordSesProviderEvent ::
  "string list \<Rightarrow> ses_report \<Rightarrow> mailbox_outbox \<Rightarrow> report_reply \<times> mailbox_outbox" where
  "recordSesProviderEvent intended input s =
     (let hashes = sort (remdups (sr_recipientHashes input)); db = mo_outbox s;
          e = new_report input hashes
      in if length hashes \<noteq> length (sr_recipientHashes input) \<or> list_ex (\<lambda>h. \<not> hex64 h) hashes
         then (Report_invalid_correlation, s)
         else case (find_delivery_row db (sr_deliveryId input), find_attempt_row (sr_attemptId input) (sr_deliveryId input) db) of
           (Some d, Some a) \<Rightarrow>
             if ar_ses_message_id a \<noteq> None \<and> ar_ses_message_id a \<noteq> Some (sr_sesMessageId input)
             then (Report_invalid_correlation, s)
             else (case find (\<lambda>p. pe_id p = sr_eventId input) (mo_reports s) of
                 Some p \<Rightarrow> (if same_report p e then Report_already_recorded else Report_invalid_correlation, s)
               | None \<Rightarrow>
                   let reports = mo_reports s @ [e];
                       mine = sort_desc (\<lambda>p. stamp_text (pe_occurred_at p))
                         (filter (\<lambda>p. pe_attempt_id p = sr_attemptId input) reports);
                       db1 = edit_attempt (sr_attemptId input)
                         (reported_attempt input (report_provider_state intended mine) (authoritativeReport mine)) db
                   in (Report_recorded, settle_by_reports intended input d a \<lparr>mo_outbox = db1, mo_reports = reports\<rparr>))
         | _ \<Rightarrow> (Report_not_found, s))"

subsection \<open>Outcomes that a report overtook\<close>

text \<open>
  An attempt is under way and a report has already settled its message: the attempt's own outcome is
  recorded beside it. The answer says whether the outcome is now recorded.
\<close>

record overtaken =
  ov_deliveryId :: string
  ov_attemptId :: string
  ov_leaseToken :: string
  ov_at :: instant

definition accepted_of :: "string \<Rightarrow> outbox_db \<Rightarrow> attempt_row list" where
  "accepted_of deliveryId db =
     filter (\<lambda>r. ar_delivery_id r = deliveryId \<and> ar_status r = ''accepted'') (db_attempts db)"

definition recordConcurrentAcceptedProviderOutcome :: "overtaken \<Rightarrow> string \<Rightarrow> outbox_db \<Rightarrow> bool \<times> outbox_db" where
  "recordConcurrentAcceptedProviderOutcome input sesMessageId db =
     (case (find_delivery_row db (ov_deliveryId input), find_attempt_row (ov_attemptId input) (ov_deliveryId input) db) of
        (Some d, Some a) \<Rightarrow>
          if ar_status a = ''accepted'' then (ar_ses_message_id a = Some sesMessageId, db)
          else if ar_status a \<noteq> ''sending'' \<or> ar_lease_token a \<noteq> ov_leaseToken input then (False, db)
          else
            (let at = Canon (ov_at input);
                 db1 = edit_attempt (ov_attemptId input)
                   (\<lambda>r. r\<lparr>ar_status := ''accepted'', ar_finished_at := Some at,
                      ar_ses_message_id := Some sesMessageId\<rparr>) db;
                 accepted = accepted_of (ov_deliveryId input) db1;
                 partial_failure = list_ex (\<lambda>r. ar_provider_state r \<in>
                   {''bounced'', ''complained'', ''bounce_scope_unknown''}) accepted;
                 truth = aggregateAcceptedAttemptProviderTruth (map ar_provider_state accepted)
             in (True, upsert_recovery d (ov_attemptId input) sesMessageId at at
                  (edit_delivery (ov_deliveryId input)
                    (settled_by_truth truth (Some sesMessageId) (Some at) at accepted (duplicate_at accepted d at)
                      (if partial_failure then Some ''ses_duplicate_attempt_partial_failure'' else None)) db1)))
      | _ \<Rightarrow> (False, db))"

datatype refused_outcome = Outcome_lost string | Outcome_rejected string bool "int option"

definition refused_status :: "refused_outcome \<Rightarrow> string" where
  "refused_status x = (case x of Outcome_lost code \<Rightarrow> ''unknown''
     | Outcome_rejected code retry_later http \<Rightarrow>
         if retry_later then ''rejected_retryable'' else ''rejected_permanent'')"

definition refused_code :: "refused_outcome \<Rightarrow> string" where
  "refused_code x = (case x of Outcome_lost code \<Rightarrow> code | Outcome_rejected code r http \<Rightarrow> code)"

definition refused_http :: "refused_outcome \<Rightarrow> int option" where
  "refused_http x = (case x of Outcome_lost code \<Rightarrow> None | Outcome_rejected code r http \<Rightarrow> http)"

definition is_lost :: "refused_outcome \<Rightarrow> bool" where
  "is_lost x = (case x of Outcome_lost code \<Rightarrow> True | Outcome_rejected code r http \<Rightarrow> False)"

definition next_status :: "provider_truth option \<Rightarrow> refused_outcome \<Rightarrow> delivery_row \<Rightarrow> string" where
  "next_status acceptedTruth outcome d =
     (if acceptedTruth = Some Truth_sent then ''sent''
      else if acceptedTruth = Some Truth_unknown \<or> is_lost outcome then ''unknown''
      else if acceptedTruth = Some Truth_bounced then ''bounced'' else dr_status d)"

definition refused_delivery ::
  "provider_truth option \<Rightarrow> refused_outcome \<Rightarrow> stamp \<Rightarrow> delivery_row \<Rightarrow> delivery_row" where
  "refused_delivery acceptedTruth outcome at d =
     (let status = next_status acceptedTruth outcome d
      in (unleased d)\<lparr>dr_status := status,
           dr_retry_origin_status :=
             (if status \<in> {''queued'', ''retrying'', ''sending''} then dr_retry_origin_status d else None),
           dr_unknown_at := (if status = ''unknown'' then Some at else None),
           dr_last_error_code := Some
             (if is_lost outcome \<and> acceptedTruth = Some Truth_sent then ''ses_duplicate_attempt_outcome_unknown''
              else if acceptedTruth = Some Truth_unknown then ''ses_bounce_scope_unknown''
              else refused_code outcome),
           dr_updated_at := at\<rparr>)"

definition recordConcurrentNonAcceptedProviderOutcome ::
  "overtaken \<Rightarrow> refused_outcome \<Rightarrow> outbox_db \<Rightarrow> bool \<times> outbox_db" where
  "recordConcurrentNonAcceptedProviderOutcome input outcome db =
     (case (find_delivery_row db (ov_deliveryId input), find_attempt_row (ov_attemptId input) (ov_deliveryId input) db) of
        (Some d, Some a) \<Rightarrow>
          if ar_status a \<noteq> ''sending'' \<or> ar_lease_token a \<noteq> ov_leaseToken input then (ar_status a \<noteq> ''sending'', db)
          else
            (let at = Canon (ov_at input);
                 db1 = edit_attempt (ov_attemptId input)
                   (\<lambda>r. r\<lparr>ar_status := refused_status outcome, ar_finished_at := Some at,
                      ar_error_code := Some (refused_code outcome),
                      ar_http_status := map_option JInt (refused_http outcome)\<rparr>) db;
                 accepted = accepted_of (ov_deliveryId input) db1;
                 acceptedTruth = (if accepted = [] then None
                   else Some (aggregateAcceptedAttemptProviderTruth (map ar_provider_state accepted)))
             in (True, edit_delivery (ov_deliveryId input) (refused_delivery acceptedTruth outcome at) db1))
      | _ \<Rightarrow> (False, db))"

subsection \<open>Repair from the evidence of the accepted attempts\<close>

definition provider_evidence_valid :: "report_row list \<Rightarrow> attempt_row \<Rightarrow> bool" where
  "provider_evidence_valid events a \<longleftrightarrow>
     (if ar_provider_state a = ''none'' then ar_provider_event_at a = None \<and> ar_provider_event_id a = None
      else truthy (ar_provider_event_id a) \<and>
        (case find (\<lambda>e. Some (pe_id e) = ar_provider_event_id a) events of
           None \<Rightarrow> False
         | Some e \<Rightarrow>
             isCanonicalUtcTimestamp (ar_provider_event_at a) \<and> pe_attempt_id e = ar_id a \<and>
             Some (pe_ses_message_id e) = ar_ses_message_id a \<and> Some (pe_occurred_at e) = ar_provider_event_at a \<and>
             (if ar_provider_state a = ''complained'' then is_report Report_complaint e
              else if ar_provider_state a = ''delivered''
              then is_report Report_delivery e \<or> is_report Report_bounce e else is_report Report_bounce e)))"

definition attempt_evidence_valid :: "report_row list \<Rightarrow> attempt_row \<Rightarrow> bool" where
  "attempt_evidence_valid events a \<longleftrightarrow>
     ar_id a \<noteq> [] \<and> int_at_least 1 (ar_attempt_number a) \<and> ar_lease_token a \<noteq> [] \<and>
     (case ar_ses_message_id a of None \<Rightarrow> False | Some m \<Rightarrow> js_trim m \<noteq> []) \<and>
     isCanonicalUtcTimestamp (Some (ar_started_at a)) \<and> isCanonicalUtcTimestamp (ar_finished_at a) \<and>
     (case ar_http_status a of None \<Rightarrow> True | Some h \<Rightarrow> int_at_least 100 h \<and> int_value h \<le> 599) \<and>
     read_provider_state (ar_provider_state a) \<noteq> None \<and> provider_evidence_valid events a"

record evidence =
  ed_attempts :: "attempt_row list"
  ed_events :: "report_row list"
  ed_truth :: provider_truth
  ed_best :: attempt_row

definition supports_truth :: "provider_truth \<Rightarrow> attempt_row \<Rightarrow> bool" where
  "supports_truth truth a \<longleftrightarrow> (case truth of
      Truth_sent \<Rightarrow> ar_provider_state a \<in> {''none'', ''delivered'', ''complained''}
    | Truth_unknown \<Rightarrow> ar_provider_state a = ''bounce_scope_unknown''
    | Truth_bounced \<Rightarrow> ar_provider_state a = ''bounced'')"

text \<open>No evidence when no attempt was accepted or the record of one is invalid.\<close>

definition acceptedOutboundProviderEvidence :: "mailbox_outbox \<Rightarrow> string \<Rightarrow> evidence option" where
  "acceptedOutboundProviderEvidence s deliveryId =
     (let attempts = filter (\<lambda>r. ar_status r = ''accepted'') (attempts_by_number deliveryId (mo_outbox s));
          events = filter (\<lambda>e. pe_attempt_id e \<in> ar_id ` set attempts) (mo_reports s);
          truth = aggregateAcceptedAttemptProviderTruth (map ar_provider_state attempts)
      in if attempts = [] \<or> \<not> list_all (attempt_evidence_valid events) attempts then None
         else Some \<lparr>ed_attempts = attempts, ed_events = events, ed_truth = truth,
           ed_best = (case find (supports_truth truth) attempts of None \<Rightarrow> hd attempts | Some a \<Rightarrow> a)\<rparr>)"

definition recovery_due :: "instant \<Rightarrow> recovery_row \<Rightarrow> bool" where
  "recovery_due now c \<longleftrightarrow> rc_state c \<in> {''pending'', ''retrying''} \<and>
     (rc_next_attempt_at c = None \<or> due_or_odd now (rc_next_attempt_at c))"

definition recovery_matches :: "recovery_row \<Rightarrow> delivery_row \<Rightarrow> bool" where
  "recovery_matches c d \<longleftrightarrow> dr_email_id d = rc_email_id c \<and> dr_source_draft_id d = rc_source_draft_id c \<and>
     dr_source_draft_version d = rc_source_draft_version c \<and> dr_actor_kind d = rc_actor_kind c \<and>
     dr_actor_id d = rc_actor_id c \<and> read_actor_kind (rc_actor_kind c) \<noteq> None \<and>
     (rc_source_draft_id c = None \<and> rc_source_draft_version c = None \<or>
      truthy (rc_source_draft_id c) \<and>
        (case rc_source_draft_version c of None \<Rightarrow> False | Some v \<Rightarrow> int_at_least 1 v))"

fun number_after :: "js_number \<Rightarrow> js_number \<Rightarrow> bool" where
  "number_after (JInt a) (JInt b) = (b < a)"
| "number_after _ _ = False"

definition newer_ambiguous :: "string \<Rightarrow> attempt_row \<Rightarrow> outbox_db \<Rightarrow> bool" where
  "newer_ambiguous deliveryId best db \<longleftrightarrow> list_ex (\<lambda>a. ar_delivery_id a = deliveryId \<and> ar_status a = ''unknown'' \<and>
     number_after (ar_attempt_number a) (ar_attempt_number best)) (db_attempts db)"

definition repaired_truth :: "evidence \<Rightarrow> bool \<Rightarrow> provider_truth" where
  "repaired_truth ev ambiguous =
     (if ed_truth ev = Truth_sent then Truth_sent
      else if ed_truth ev = Truth_unknown \<or> ambiguous then Truth_unknown else Truth_bounced)"

definition repaired_error :: "evidence \<Rightarrow> bool \<Rightarrow> delivery_row \<Rightarrow> string option" where
  "repaired_error ev ambiguous d =
     (let truth = repaired_truth ev ambiguous
      in if list_ex (is_report Report_complaint) (ed_events ev) then Some ''ses_complaint''
         else if truth = Truth_unknown \<and> ed_truth ev = Truth_unknown then Some ''ses_bounce_scope_unknown''
         else if truth = Truth_bounced then Some ''ses_bounce''
         else if truth = Truth_sent \<and> list_ex (is_report Report_bounce) (ed_events ev)
         then Some ''ses_partial_bounce''
         else if truth = Truth_sent \<and> list_ex (\<lambda>a. ar_provider_state a \<in> {''bounced'', ''bounce_scope_unknown''})
                (ed_attempts ev)
         then Some ''ses_duplicate_attempt_partial_failure''
         else if truth = Truth_unknown
         then (if ambiguous then Some ''ses_duplicate_attempt_outcome_unknown''
               else first_some (dr_last_error_code d) (Some ''ses_duplicate_attempt_outcome_unknown''))
         else None)"

definition repaired_duplicate :: "evidence \<Rightarrow> delivery_row \<Rightarrow> stamp option" where
  "repaired_duplicate ev d =
     (if length (ed_attempts ev) > 1
      then (if isCanonicalUtcTimestamp (dr_duplicate_acceptance_at d) then dr_duplicate_acceptance_at d
            else ar_finished_at (ed_attempts ev ! (length (ed_attempts ev) - 2)))
      else None)"

definition repaired_delivery :: "evidence \<Rightarrow> bool \<Rightarrow> stamp \<Rightarrow> delivery_row \<Rightarrow> delivery_row" where
  "repaired_delivery ev ambiguous now d =
     (settled_by_truth (repaired_truth ev ambiguous) (ar_ses_message_id (ed_best ev)) (ar_finished_at (ed_best ev))
        now (ed_attempts ev) (repaired_duplicate ev d) (repaired_error ev ambiguous d) d)\<lparr>dr_cancelled_at := None\<rparr>"

text \<open>The row already says what the evidence says, whenever it was written.\<close>

definition preserves_truth :: "evidence \<Rightarrow> bool \<Rightarrow> delivery_row \<Rightarrow> bool" where
  "preserves_truth ev ambiguous d \<longleftrightarrow>
     (let r = repaired_delivery ev ambiguous (dr_updated_at d) d
      in d = r\<lparr>dr_unknown_at := dr_unknown_at d\<rparr> \<and>
         (if repaired_truth ev ambiguous = Truth_unknown then isCanonicalUtcTimestamp (dr_unknown_at d)
          else dr_unknown_at d = None))"

text \<open>
  One recovery row of \<^verbatim>\<open>processOutboundAcceptanceRecovery\<close>: a message that does not say what the evidence
  says is rewritten. Parking the row and filing the message leave the message's record alone.
\<close>

definition repairOutboundAcceptance :: "instant \<Rightarrow> recovery_row \<Rightarrow> mailbox_outbox \<Rightarrow> mailbox_outbox" where
  "repairOutboundAcceptance now c s =
     (case (find_delivery_row (mo_outbox s) (rc_delivery_id c), acceptedOutboundProviderEvidence s (rc_delivery_id c)) of
        (Some d, Some ev) \<Rightarrow>
          let ambiguous = newer_ambiguous (rc_delivery_id c) (ed_best ev) (mo_outbox s); best = ed_best ev
          in if \<not> recovery_matches c d \<or> \<not> list_ex (\<lambda>a. Some (ar_id a) = rc_attempt_id c) (ed_attempts ev) then s
             else if preserves_truth ev ambiguous d \<and> rc_attempt_id c = Some (ar_id best) \<and>
                     rc_accepted_at c = ar_finished_at best \<and> rc_ses_message_id c = ar_ses_message_id best then s
             else
               let db1 = edit_delivery (rc_delivery_id c) (repaired_delivery ev ambiguous (Canon now)) (mo_outbox s)
               in s\<lparr>mo_outbox := db1\<lparr>db_recovery := update_where (\<lambda>r. rc_delivery_id r = rc_delivery_id c)
                    (\<lambda>r. r\<lparr>rc_attempt_id := Some (ar_id best), rc_ses_message_id := ar_ses_message_id best,
                       rc_accepted_at := ar_finished_at best, rc_next_attempt_at := Some (Canon now),
                       rc_last_error_code := None, rc_updated_at := Canon now\<rparr>) (db_recovery db1)\<rparr>\<rparr>
      | _ \<Rightarrow> s)"


subsection \<open>Bookkeeping of cancelled messages\<close>

definition CANCELLATION_CODES :: "string list" where
  "CANCELLATION_CODES = [''outbound_cancellation_recovery_deferred'', ''outbound_cancellation_recovery_parked'']"

definition completeCancelledOutboundRecovery :: "string \<Rightarrow> outbox_db \<Rightarrow> outbox_db" where
  "completeCancelledOutboundRecovery deliveryId = edit_delivery deliveryId
     (\<lambda>d. let ours = (\<exists>c \<in> set CANCELLATION_CODES. dr_last_error_code d = Some c)
      in d\<lparr>dr_next_attempt_at := None, dr_cancellation_recovery_attempt_count := JInt 0,
           dr_last_error_code := (if ours then None else dr_last_error_code d),
           dr_last_error_message := (if ours then None else dr_last_error_message d)\<rparr>)"

text \<open>The sixth failure parks the recovery; before, it is tried again after a growing delay.\<close>

definition deferCancelledOutboundRecovery :: "string \<Rightarrow> instant \<Rightarrow> outbox_db \<Rightarrow> outbox_db" where
  "deferCancelledOutboundRecovery deliveryId now db =
     (let attempts = max 0 (case find_delivery_row db deliveryId of None \<Rightarrow> 0
            | Some d \<Rightarrow> int_value (dr_cancellation_recovery_attempt_count d)) + 1
      in if attempts \<ge> 6
         then edit_delivery deliveryId (\<lambda>d. d\<lparr>dr_next_attempt_at := None,
           dr_cancellation_recovery_attempt_count := JInt attempts,
           dr_last_error_code := Some ''outbound_cancellation_recovery_parked'',
           dr_last_error_message := Some
             ''Cancellation is committed, but draft recovery requires explicit repair.''\<rparr>) db
         else edit_delivery deliveryId (\<lambda>d. if dr_status d \<noteq> ''cancelled'' then d
           else d\<lparr>dr_next_attempt_at := Some (Canon (now + min (60 * 60000) (30000 * 2 ^ nat (min (attempts - 1) 7)))),
             dr_cancellation_recovery_attempt_count := JInt attempts,
             dr_last_error_code := Some ''outbound_cancellation_recovery_deferred'',
             dr_last_error_message := Some
               ''Cancellation is committed. Draft recovery remains safely pending.''\<rparr>) db)"

subsection \<open>The machine of all writers\<close>

datatype mailbox_op =
  Mo_command outbox_op
| Mo_report "string list" ses_report
| Mo_overtaken_accepted overtaken string
| Mo_overtaken_refused overtaken refused_outcome
| Mo_repair instant recovery_row
| Mo_cancellation_done string
| Mo_cancellation_deferred string instant

definition on_outbox :: "(outbox_db \<Rightarrow> outbox_db) \<Rightarrow> mailbox_outbox \<Rightarrow> mailbox_outbox" where
  "on_outbox f s = s\<lparr>mo_outbox := f (mo_outbox s)\<rparr>"

primrec run_mailbox_op :: "mailbox_op \<Rightarrow> mailbox_outbox \<Rightarrow> mailbox_outbox" where
  "run_mailbox_op (Mo_command c) s = on_outbox (run_op c) s"
| "run_mailbox_op (Mo_report intended input) s = snd (recordSesProviderEvent intended input s)"
| "run_mailbox_op (Mo_overtaken_accepted input m) s =
     on_outbox (\<lambda>db. snd (recordConcurrentAcceptedProviderOutcome input m db)) s"
| "run_mailbox_op (Mo_overtaken_refused input out) s =
     on_outbox (\<lambda>db. snd (recordConcurrentNonAcceptedProviderOutcome input out db)) s"
| "run_mailbox_op (Mo_repair now c) s =
     (if c \<in> set (db_recovery (mo_outbox s)) \<and> recovery_due now c then repairOutboundAcceptance now c s else s)"
| "run_mailbox_op (Mo_cancellation_done i) s = on_outbox (completeCancelledOutboundRecovery i) s"
| "run_mailbox_op (Mo_cancellation_deferred i now) s = on_outbox (deferCancelledOutboundRecovery i now) s"

fun risk_accepted :: "mailbox_op \<Rightarrow> bool" where
  "risk_accepted (Mo_command c) = acknowledged c"
| "risk_accepted _ = False"

inductive mailbox_step :: "mailbox_outbox \<Rightarrow> mailbox_outbox \<Rightarrow> bool" where
  run: "\<not> risk_accepted op1 \<Longrightarrow> mailbox_step s (run_mailbox_op op1 s)"

inductive_cases mailbox_step_cases: "mailbox_step s s'"

text \<open>
  The life cycle with reports: beside the moves of the service, a report closes a message as sent,
  bounced or unknown wherever it is, and an overtaken refusal can take the lease off one.
\<close>

inductive reported_step :: "delivery_view \<Rightarrow> delivery_view \<Rightarrow> bool" where
  auto: "auto_step v v' \<Longrightarrow> reported_step v v'"
| report: "s \<in> {Sent, Bounced, Unknown} \<Longrightarrow> reported_step v (Closed s)"
| unlease: "v \<notin> range Closed \<Longrightarrow> reported_step v Broken"

inductive_cases reported_step_cases: "reported_step v v'"

lemma edit_delivery_keys: "(\<And>r. dr_id (f r) = dr_id r) \<Longrightarrow> keys_ok (edit_delivery i f db) = keys_ok db"
  by (simp add: keys_ok_def edit_delivery_def keys_update_where)

lemma edit_delivery_find:
  assumes "\<And>r. dr_id (f r) = dr_id r"
  shows "find_delivery_row (edit_delivery i f db) j =
     map_option (\<lambda>r. if j = i then f r else r) (find_delivery_row db j)"
proof -
  have "find (\<lambda>r. dr_id r = j) (update_where (\<lambda>r. dr_id r = i) f rs) =
      map_option (\<lambda>r. if j = i then f r else r) (find (\<lambda>r. dr_id r = j) rs)" for rs
    by (induction rs) (auto simp: assms)
  then show ?thesis by (simp add: find_delivery_row_def edit_delivery_def)
qed

lemma ledger_view_edit:
  assumes "\<And>r. dr_id (f r) = dr_id r"
  shows "ledger_view (edit_delivery i f db) = (case find_delivery_row db i of
      None \<Rightarrow> ledger_view db | Some r \<Rightarrow> (ledger_view db)(i \<mapsto> view_row (f r)))"
  by (rule ext) (auto simp: ledger_view_def edit_delivery_find [OF assms] option.map_ident map_option_case
      split: option.splits)

lemma ledger_view_edit_attempt [simp]: "ledger_view (edit_attempt i f db) = ledger_view db"
  by (rule ledger_view_deliveries) (simp add: edit_attempt_def)

lemma ledger_view_upsert [simp]: "ledger_view (upsert_recovery d a m t at db) = ledger_view db"
  by (rule ledger_view_deliveries) (simp add: upsert_recovery_def)

lemma keys_ok_others [simp]:
  "keys_ok (edit_attempt i f db) = keys_ok db" "keys_ok (upsert_recovery d a m t at db) = keys_ok db"
  by (simp_all add: keys_ok_def edit_attempt_def upsert_recovery_def)

lemma view_settled:
  "view_row (settled_by_truth truth m sent at acc dup e d) = Closed (truth_status truth)"
  by (cases truth) (simp_all add: settled_by_truth_def unleased_def view_row_def truth_status_def
      view_fields_def read_status_text del: status_text.simps)

text \<open>The view looks at five columns only.\<close>

lemma view_row_other [simp]:
  "view_row (d\<lparr>dr_cancelled_at := c\<rparr>) = view_row d"
  "view_row (d\<lparr>dr_next_attempt_at := at\<rparr>) = view_row d"
  "view_row (d\<lparr>dr_cancellation_recovery_attempt_count := n\<rparr>) = view_row d"
  "view_row (d\<lparr>dr_last_error_code := e\<rparr>) = view_row d"
  "view_row (d\<lparr>dr_last_error_message := m\<rparr>) = view_row d"
  by (simp_all add: view_row_def split: option.split)

lemma truth_status_final: "truth_status truth \<in> {Sent, Bounced, Unknown}"
  by (cases truth) (simp_all add: truth_status_def)

definition reported :: "outbox_db \<Rightarrow> outbox_db \<Rightarrow> bool" where
  "reported db db' \<longleftrightarrow> (one_key reported_step newborn)\<^sup>*\<^sup>* (ledger_view db) (ledger_view db') \<and> (keys_ok db \<longrightarrow> keys_ok db')"

lemma reported_same: "ledger_view db' = ledger_view db \<Longrightarrow> keys_ok db' = keys_ok db \<Longrightarrow> reported db db'"
  by (simp add: reported_def)

lemma reported_edit:
  assumes "\<And>r. dr_id (f r) = dr_id r"
    and "\<And>r. find_delivery_row db i = Some r \<Longrightarrow> view_row (f r) = view_row r \<or> reported_step (view_row r) (view_row (f r))"
    and "ledger_view db' = ledger_view (edit_delivery i f db)" and "keys_ok db' = keys_ok (edit_delivery i f db)"
  shows "reported db db'"
proof (cases "find_delivery_row db i")
  case None
  then show ?thesis
    using assms(3,4) by (simp add: reported_def ledger_view_edit [OF assms(1)] edit_delivery_keys [OF assms(1)])
next
  case (Some r)
  then have v: "ledger_view db i = Some (view_row r)" by (simp add: ledger_view_def)
  have "(one_key reported_step newborn)\<^sup>*\<^sup>* (ledger_view db) ((ledger_view db)(i \<mapsto> view_row (f r)))"
    using assms(2) [OF Some]
  proof
    assume "view_row (f r) = view_row r"
    then have "(ledger_view db)(i \<mapsto> view_row (f r)) = ledger_view db" using v by (auto simp: fun_upd_idem)
    then show ?thesis by simp
  next
    assume "reported_step (view_row r) (view_row (f r))"
    then show ?thesis by (intro r_into_rtranclp one_key_move [where k = i]) (rule v)
  qed
  then show ?thesis
    using assms(3,4) Some by (simp add: reported_def ledger_view_edit [OF assms(1)] edit_delivery_keys [OF assms(1)])
qed

lemma settled_reports: "reported_step v (view_row (settled_by_truth truth m sent at acc dup e d))"
  unfolding view_settled by (rule reported_step.report [OF truth_status_final])

lemma dr_id_settled [simp]: "dr_id (settled_by_truth truth m sent at acc dup e d) = dr_id d"
  by (simp add: settled_by_truth_def unleased_def)

lemma edit_after_attempt:
  "ledger_view (edit_delivery i f (edit_attempt j g db)) = ledger_view (edit_delivery i f db)"
  "keys_ok (edit_delivery i f (edit_attempt j g db)) = keys_ok (edit_delivery i f db)"
  by (rule ledger_view_deliveries) (simp_all add: edit_delivery_def edit_attempt_def keys_ok_def)

text \<open>An attempt is edited, its message settled and the recovery row written: the shape of a report.\<close>

lemma settled_reported:
  "reported db (upsert_recovery d i m t at (edit_delivery j (settled_by_truth truth m' t' at' acc dup e) (edit_attempt k g db)))"
  by (rule reported_edit [where i = j and f = "settled_by_truth truth m' t' at' acc dup e"])
    (simp_all add: edit_after_attempt settled_reports)

lemma report_reported: "reported (mo_outbox s) (mo_outbox (snd (recordSesProviderEvent intended input s)))"
proof -
  have settle: "reported (mo_outbox s) (mo_outbox (settle_by_reports intended input d a
      \<lparr>mo_outbox = edit_attempt k g (mo_outbox s), mo_reports = rs\<rparr>))" for d a k g rs
    by (simp add: settle_by_reports_def Let_def settled_reported)
  have stay: "reported (mo_outbox s) (mo_outbox s)" by (simp add: reported_same)
  show ?thesis
    unfolding recordSesProviderEvent_def Let_def
    by (simp only: stay settle snd_conv if_True if_False simp_thms if_distrib [where f = snd] if_distrib [where f = mo_outbox]
        split: option.split prod.split if_split)
qed

lemma overtaken_accepted_reported:
  "reported db (snd (recordConcurrentAcceptedProviderOutcome input m db))"
  by (simp add: recordConcurrentAcceptedProviderOutcome_def Let_def settled_reported reported_same
      split: option.split)

text \<open>An overtaken refusal leaves a waiting or closed message where it is, or closes it by what its other attempts say.\<close>

lemma view_unleased_waiting:
  "read_status (dr_status d) \<noteq> Some Sending \<Longrightarrow> dr_status r = dr_status d \<Longrightarrow>
     dr_retry_origin_status r = (if dr_status d \<in> {''queued'', ''retrying'', ''sending''} then dr_retry_origin_status d else None) \<Longrightarrow>
     view_row r = view_row d"
  by (auto simp: view_row_def view_fields_def read_status_def split: option.split delivery_status.split if_splits)

lemma view_unleased_sending:
  "dr_status d = ''sending'' \<Longrightarrow> dr_status r = dr_status d \<Longrightarrow> dr_lease_token r = None \<Longrightarrow>
     dr_dispatch_phase r = None \<Longrightarrow> view_row r = Broken \<and> view_row d \<notin> range Closed"
  by (auto simp: view_row_def view_fields_def read_status_def split: option.splits dispatch_phase.splits prod.splits)

lemma refused_view:
  "view_row (refused_delivery truth out at d) = view_row d \<or>
     reported_step (view_row d) (view_row (refused_delivery truth out at d))"
proof -
  let ?r = "refused_delivery truth out at d"
  have "dr_status ?r = next_status truth out d" by (simp add: refused_delivery_def unleased_def Let_def)
  moreover have "next_status truth out d = dr_status d \<or> next_status truth out d \<in> {''sent'', ''unknown'', ''bounced''}"
    unfolding next_status_def by simp
  ultimately consider (same) "dr_status ?r = dr_status d" | (closed) "dr_status ?r \<in> {''sent'', ''unknown'', ''bounced''}"
    by metis
  then show ?thesis
  proof cases
    case same
    show ?thesis
    proof (cases "dr_status d = ''sending''")
      case True
      then show ?thesis
        using view_unleased_sending [OF True same] reported_step.unlease
        by (simp add: refused_delivery_def unleased_def Let_def)
    next
      case False
      then have "view_row ?r = view_row d"
        using same by (intro view_unleased_waiting) (auto simp: refused_delivery_def Let_def read_status_def split: if_splits)
      then show ?thesis ..
    qed
  next
    case closed
    then have "dr_status ?r \<in> status_text ` {Sent, Unknown, Bounced}" by simp
    then obtain s where "s \<in> {Sent, Unknown, Bounced}" and "dr_status ?r = status_text s" by blast
    then have "\<exists>s \<in> {Sent, Unknown, Bounced}. view_row ?r = Closed s"
      by (auto simp: view_row_def view_fields_def read_status_text simp del: status_text.simps)
    then show ?thesis by (auto intro: reported_step.report)
  qed
qed

lemma dr_id_refused [simp]: "dr_id (refused_delivery truth out at d) = dr_id d"
  by (simp add: refused_delivery_def unleased_def Let_def)

lemma overtaken_refused_reported:
  "reported db (snd (recordConcurrentNonAcceptedProviderOutcome input out db))"
proof -
  have "reported db (edit_delivery i (refused_delivery truth out at) (edit_attempt k g db))" for i truth at k g
    by (rule reported_edit [where i = i and f = "refused_delivery truth out at"])
      (simp_all add: edit_after_attempt refused_view)
  then show ?thesis
    by (simp add: recordConcurrentNonAcceptedProviderOutcome_def Let_def reported_same split: option.split)
qed

lemma repair_reported: "reported (mo_outbox s) (mo_outbox (repairOutboundAcceptance now c s))"
proof -
  have "reported db (edit_delivery i (repaired_delivery ev amb at) db\<lparr>db_recovery := rs\<rparr>)" for db i ev amb at rs
  proof (rule reported_edit [where i = i and f = "repaired_delivery ev amb at"])
    show "view_row (repaired_delivery ev amb at r) = view_row r \<or>
        reported_step (view_row r) (view_row (repaired_delivery ev amb at r))" for r
    proof -
      have "view_row (repaired_delivery ev amb at r) = Closed (truth_status (repaired_truth ev amb))"
        by (simp add: repaired_delivery_def view_settled)
      then show ?thesis using truth_status_final by (auto intro: reported_step.report)
    qed
    show "ledger_view (edit_delivery i (repaired_delivery ev amb at) db\<lparr>db_recovery := rs\<rparr>) =
        ledger_view (edit_delivery i (repaired_delivery ev amb at) db)"
      by (rule ledger_view_deliveries) simp
  qed (simp_all add: repaired_delivery_def keys_ok_def)
  then show ?thesis by (simp add: repairOutboundAcceptance_def Let_def reported_same split: option.split)
qed

lemma same_view_reported:
  assumes "\<And>r. dr_id (f r) = dr_id r" and "\<And>r. view_row (f r) = view_row r"
  shows "reported db (edit_delivery i f db)"
  by (rule reported_edit [where i = i and f = f]) (simp_all add: assms)

lemma cancellation_reported:
  "reported db (completeCancelledOutboundRecovery i db)" "reported db (deferCancelledOutboundRecovery i now db)"
  unfolding completeCancelledOutboundRecovery_def deferCancelledOutboundRecovery_def Let_def
  by (auto intro!: same_view_reported split: if_split)

lemma command_reported:
  assumes "keys_ok db" and "\<not> acknowledged c"
  shows "reported db (run_op c db)"
proof -
  have "one_key auto_step newborn \<le> one_key reported_step newborn"
    by (rule one_key_mono) (auto intro: reported_step.auto)
  from run_op_auto [OF assms] rtranclp_mono [OF this] show ?thesis
    unfolding machine_step_def reported_def by blast
qed

lemma mailbox_op_reported:
  assumes "keys_ok (mo_outbox s)" and "\<not> risk_accepted op1"
  shows "reported (mo_outbox s) (mo_outbox (run_mailbox_op op1 s))"
  using assms
  by (cases op1) (simp_all add: on_outbox_def command_reported report_reported overtaken_accepted_reported
      overtaken_refused_reported repair_reported cancellation_reported reported_same)

interpretation mailbox: keyed_machine "\<lambda>s. ledger_view (mo_outbox s)" "\<lambda>s. keys_ok (mo_outbox s)"
  mailbox_step reported_step newborn
  using mailbox_op_reported by unfold_locales (auto elim!: mailbox_step_cases simp: reported_def)

text \<open>
  C2: Once a message is sent, bounced or of unknown outcome it stays one of these, and is never queued,
  leased or sent again, whatever the mailbox does to it in whatever order: commands of the outbox
  service, delivery reports of the provider, outcomes that a report overtook, repairs from the
  evidence of its attempts and the bookkeeping of cancellations. Only a person's acknowledged retry,
  which these runs leave out, sends such a message again.
\<close>
theorem accepted_is_not_resent:
  assumes "mailbox_step\<^sup>*\<^sup>* s s'" and "keys_ok (mo_outbox s)"
    and "ledger_view (mo_outbox s) i = Some (Closed x)" and "x \<in> {Sent, Bounced, Unknown}"
  shows "ledger_view (mo_outbox s') i \<in> {Some (Closed Sent), Some (Closed Bounced), Some (Closed Unknown)}"
proof -
  have "\<exists>v. ledger_view (mo_outbox s') i = Some v \<and> v \<in> {Closed Sent, Closed Bounced, Closed Unknown}"
    using assms(1,2,3) by (rule mailbox.run_stable) (use assms(4) in \<open>auto elim!: reported_step_cases\<close>)
  then show ?thesis by auto
qed

end
