(* ===== verification/Outbound_Witnesses.thy ===== *)
theory Outbound_Witnesses
  imports Outbound_Samples Outbound_Provider
begin

text \<open>Each guarantee of the outbox at work on the sample mailbox.\<close>

lemma sample_sound [simp]:
  "attempt_keys_ok sample_leased" "attempt_keys_ok sample_in_flight"
  by (simp_all add: attempt_keys_ok_def sample_leased_def sample_in_flight_def sample_store_def)

definition sample_bounce :: ses_report where
  "sample_bounce = \<lparr>sr_eventId = ''ev1'', sr_deliveryId = ''d1'', sr_attemptId = ''a1'', sr_sesMessageId = ''m1'',
     sr_eventType = Report_bounce, sr_recipientHashes = [replicate 64 (CHR ''a'')],
     sr_occurredAt = Canon 45000, sr_receivedAt = Canon 46000\<rparr>"

abbreviation sample_bounced :: mailbox_outbox where
  "sample_bounced \<equiv>
     run_mailbox_op (Mo_report [replicate 64 (CHR ''a'')] sample_bounce) \<lparr>mo_outbox = sample_sent, mo_reports = []\<rparr>"

lemma sample_bounce_recorded: "ledger_view (mo_outbox sample_bounced) ''d1'' = Some (Closed Bounced)"
  by code_simp

lemma accepted_is_not_resent_witness:
  "ledger_view (mo_outbox (run_mailbox_op (Mo_command (Op_claim ''l2'' 90000 60000)) sample_bounced)) ''d1''
     \<in> {Some (Closed Sent), Some (Closed Bounced), Some (Closed Unknown)}"
proof (rule accepted_is_not_resent [of "\<lparr>mo_outbox = sample_sent, mo_reports = []\<rparr>" _ "''d1''" Sent])
  have "mailbox_step \<lparr>mo_outbox = sample_sent, mo_reports = []\<rparr> sample_bounced"
    and "mailbox_step sample_bounced (run_mailbox_op (Mo_command (Op_claim ''l2'' 90000 60000)) sample_bounced)"
    by (rule mailbox_step.run, simp)+
  then show "mailbox_step\<^sup>*\<^sup>* \<lparr>mo_outbox = sample_sent, mo_reports = []\<rparr>
      (run_mailbox_op (Mo_command (Op_claim ''l2'' 90000 60000)) sample_bounced)"
    by (rule converse_rtranclp_into_rtranclp [OF _ r_into_rtranclp])
qed simp_all

lemma cancelled_is_final_witness:
  "ledger_view (run_op (Op_claim ''l2'' 90000 60000) sample_cancelled) ''d1'' = Some (Closed Cancelled)"
  by (rule cancelled_is_final [of sample_cancelled]) (simp_all add: r_into_rtranclp outbox_step.run del: run_op.simps)

lemma unknown_needs_acknowledgement_witness:
  "ledger_view (run_op (Op_retry_failed (\<lambda>_. Inr ()) ''d1'' sample_user 50000) sample_unknown) ''d1''
     \<in> {Some (Closed Unknown), Some (Closed Bounced)}"
  by (rule unknown_needs_acknowledgement [of sample_unknown])
    (simp_all add: r_into_rtranclp unattended_step.run del: run_op.simps)

lemma unknown_is_never_forgotten_witness:
  "ledger_view (run_op (Op_retry_unknown (\<lambda>_. Inr ()) ''d1'' sample_user True 50000) sample_unknown) ''d1''
     \<notin> {Some (Closed Failed), Some (Closed Cancelled), Some (Waiting None)}"
  by (rule unknown_is_never_forgotten [of sample_unknown])
    (simp_all add: r_into_rtranclp outbox_step.run del: run_op.simps)

lemma one_outcome_per_lease_witness:
  "distinct (outbox_lease.settled_keys
      [(Settle_accepted ''m1'' 40000, ''d1'', ''l1''), (Settle_unknown sample_failure, ''d1'', ''l1'')]
      sample_in_flight)"
  using one_outcome_per_lease [OF sample_keys(3)] by blast

subsection \<open>Commands that succeed on the samples\<close>

definition succeeds :: "'e + 'a \<Rightarrow> bool" where
  "succeeds r = (case r of Inl e \<Rightarrow> False | Inr x \<Rightarrow> True)"

lemma succeeds_tx: "succeeds r \<Longrightarrow> \<exists>x db'. r = Inr (x, db')"
  by (cases r) (auto simp: succeeds_def)

lemma sample_claims:
  "case claimNextForPreflight ''l1'' 20000 60000 sample_queued of
     Inr (Some c, db') \<Rightarrow> True | _ \<Rightarrow> False"
  by code_simp

lemma claim_takes_due_witness:
  "\<exists>c db' d. claimNextForPreflight ''l1'' 20000 60000 sample_queued = Inr (Some c, db') \<and>
     tx_getDelivery sample_queued (dl_id d) = Some d \<and> due 20000 d \<and>
     cl_delivery c = claimed_delivery_of Sending ''l1'' 80000 20000 d"
proof -
  obtain c db' where "claimNextForPreflight ''l1'' 20000 60000 sample_queued = Inr (Some c, db')"
    using sample_claims by (auto split: sum.splits prod.splits option.splits)
  with claim_takes_due [OF this] show ?thesis by fastforce
qed

lemma sample_begins: "succeeds (beginProviderAttempt ''d1'' ''l1'' ''a1'' 30000 60000 sample_leased)"
  by code_simp

lemma begun_attempt_settles_once_witness:
  "\<exists>r db' r' db2. beginProviderAttempt ''d1'' ''l1'' ''a1'' 30000 60000 sample_leased = Inr (r, db') \<and>
     settle_attempt (Settle_accepted ''m1'' 40000) ''d1'' ''l1'' db' = Inr (r', db2) \<and>
     (\<forall>out' t'. try_settle out' ''d1'' t' db2 = None)"
proof -
  obtain r db' where begun: "beginProviderAttempt ''d1'' ''l1'' ''a1'' 30000 60000 sample_leased = Inr (r, db')"
    using succeeds_tx [OF sample_begins] by blast
  have "settleable (Settle_accepted ''m1'' 40000)" by code_simp
  with begun begun_attempt_settles_once [OF begun] show ?thesis by fastforce
qed

lemma sample_accepts: "succeeds (finalizeAccepted ''d1'' ''l1'' ''m1'' 40000 sample_in_flight)"
  by code_simp

lemma accepted_reads_back_witness:
  "\<exists>r db' d. finalizeAccepted ''d1'' ''l1'' ''m1'' 40000 sample_in_flight = Inr (r, db') \<and>
     tx_getDelivery db' ''d1'' = Some d \<and> dl_status d = Sent \<and> dl_sesMessageId d = Some ''m1''"
proof -
  obtain r db' where acc: "finalizeAccepted ''d1'' ''l1'' ''m1'' 40000 sample_in_flight = Inr (r, db')"
    using succeeds_tx [OF sample_accepts] by blast
  with accepted_reads_back [OF acc] show ?thesis by blast
qed

definition sample_rejection :: retryable_details where
  "sample_rejection = \<lparr>rd_at = 40000, rd_retryAt = 70000, rd_code = ''ses_http_429'', rd_message = None,
     rd_httpStatus = Some (JInt 429)\<rparr>"

lemma sample_rejects: "succeeds (finalizeRetryableFailure ''d1'' ''l1'' sample_rejection sample_in_flight)"
  by code_simp

lemma rejection_is_bounded_witness:
  "\<exists>r db' d d'. finalizeRetryableFailure ''d1'' ''l1'' sample_rejection sample_in_flight = Inr (r, db') \<and>
     tx_getDelivery sample_in_flight ''d1'' = Some d \<and> tx_getDelivery db' ''d1'' = Some d' \<and>
     dl_attemptCount d' = dl_attemptCount d \<and> dl_leaseToken d' = None"
proof -
  obtain r db' where rej: "finalizeRetryableFailure ''d1'' ''l1'' sample_rejection sample_in_flight = Inr (r, db')"
    using succeeds_tx [OF sample_rejects] by blast
  with rejection_is_bounded [OF rej] show ?thesis by blast
qed

lemma cancel_outcome_witness:
  "case tx_getDelivery sample_sent ''d1'' of
     None \<Rightarrow> False
   | Some d \<Rightarrow> cancel (\<lambda>_ _. Inr ()) ''d1'' sample_user 50000 sample_sent
       = Inl (InvalidDeliveryTransition Sent Cancel)"
proof -
  have "ac_id sample_user \<noteq> Some []" by code_simp
  moreover have "map_option (\<lambda>d. (dl_status d, dl_storageIntegrityInvalid d)) (tx_getDelivery sample_sent ''d1'')
      = Some (Sent, False)" by code_simp
  ultimately show ?thesis
    using cancel_outcome [where actor = sample_user and i = "''d1''" and at = 50000 and db = sample_sent]
    by (auto simp: canCancelDelivery_def split: option.splits)
qed

lemma candidate_is_first_due_witness:
  "\<exists>d. tx_findNextDispatchableCandidate sample_queued 20000 = Some (Cand_ready d) \<and>
     tx_getDelivery sample_queued (dl_id d) = Some d"
proof -
  have "case tx_findNextDispatchableCandidate sample_queued 20000 of
      Some (Cand_ready d) \<Rightarrow> True | _ \<Rightarrow> False" by code_simp
  then obtain d where "tx_findNextDispatchableCandidate sample_queued 20000 = Some (Cand_ready d)"
    by (auto split: option.splits dispatch_candidate.splits)
  with candidate_is_first_due [OF this] show ?thesis by simp
qed

lemma alarm_covers_every_row_witness: "\<exists>s. nextActionAt sample_queued = Some s"
proof -
  have "sample_row \<in> set (db_deliveries sample_queued)" by (simp add: sample_queued_def sample_store_def)
  moreover have "dr_status sample_row \<in> {''queued'', ''retrying'', ''sending''}"
    by (simp add: sample_row_def)
  ultimately show ?thesis using alarm_covers_every_row [of sample_row sample_queued] by blast
qed

subsection \<open>Recovery\<close>

lemma recovery_releases_expired_witness:
  "\<exists>rs db'. recoverExpiredLeases 90000 sample_leased = Inr (rs, db') \<and> ledger_view db' ''d1'' = Some (Waiting None)"
proof -
  have "sample_leased_row \<in> set (db_deliveries sample_leased)" and id: "dr_id sample_leased_row = ''d1''"
    and "dr_status sample_leased_row = ''sending''"
    by (simp_all add: sample_leased_def sample_store_def sample_leased_row_def sample_row_def)
  moreover have "lease_expired_or_odd 90000 sample_leased_row"
    and "\<not> dl_storageIntegrityInvalid (hydrateDelivery sample_leased sample_leased_row)" by code_simp+
  moreover have "dl_dispatchPhase (hydrateDelivery sample_leased sample_leased_row) = Some Preflight"
    and "phaseMetadataValid sample_leased_row" and "leaseMetadataValid sample_leased_row"
    and "tx_listAttemptsByDelivery sample_leased ''d1'' = []"
    and "dl_retryOriginStatus (hydrateDelivery sample_leased sample_leased_row) = None" by code_simp+
  ultimately show ?thesis
    using recovery_releases_expired [of sample_leased sample_leased_row 90000] by (simp add: id)
qed

definition sample_broken_row :: delivery_row where
  "sample_broken_row = sample_leased_row\<lparr>dr_updated_at := Odd ''yesterday''\<rparr>"

definition sample_broken :: outbox_db where
  "sample_broken = sample_store sample_broken_row []"

lemma unreadable_sending_is_never_recovered_witness:
  "\<exists>rs db' at due. recoverExpiredLeases 90000 sample_broken = Inr (rs, db') \<and>
     find_delivery_row db' ''d1'' = Some sample_broken_row \<and> dr_status sample_broken_row = ''sending'' \<and>
     nextActionAt db' = Some at \<and> stamp_text at \<le> iso_text due \<and> due \<le> 90000"
proof -
  have "sample_broken_row \<in> set (db_deliveries sample_broken)" and id: "dr_id sample_broken_row = ''d1''"
    and status: "dr_status sample_broken_row = ''sending''" and "keys_ok sample_broken" "attempt_keys_ok sample_broken"
    by (simp_all add: sample_broken_def sample_store_def sample_broken_row_def sample_leased_row_def
        sample_row_def keys_ok_def attempt_keys_ok_def)
  moreover have "lease_expired_or_odd 90000 sample_broken_row"
    and "dl_storageIntegrityInvalid (hydrateDelivery sample_broken sample_broken_row)" by code_simp+
  moreover have "(0::int) \<le> 90000" by simp
  ultimately show ?thesis
    using unreadable_sending_is_never_recovered [of sample_broken sample_broken_row 90000] unfolding id by blast
qed

subsection \<open>Enqueueing\<close>

lemma sample_enqueues: "succeeds (enqueue (\<lambda>_. Inr ()) ''d1'' ''e1'' [] sample_command empty_outbox)"
  by code_simp

lemma sample_command_ok:
  "valid_snapshot (cm_snapshot sample_command)" "ac_id (cm_actor sample_command) \<noteq> Some []"
  "hex64 (cm_commandFingerprint sample_command)"
  by (simp_all add: sample_command_def sample_user_def hex64_def valid_snapshot_def sample_snapshot_def
      valid_draft_reference_def hasExactAttachmentByteManifest_def) code_simp+

lemma enqueued_reads_back_witness:
  "\<exists>r db'. enqueue (\<lambda>_. Inr ()) ''d1'' ''e1'' [] sample_command empty_outbox = Inr (r, db') \<and>
     service_get db' ''d1'' = Some (eq_delivery r) \<and> 10000 \<le> dl_availableAt (eq_delivery r)"
proof -
  have fresh: "case enqueue (\<lambda>_. Inr ()) ''d1'' ''e1'' [] sample_command empty_outbox of
      Inr (r, db') \<Rightarrow> \<not> eq_replayed r | _ \<Rightarrow> False" by code_simp
  obtain r db' where run: "enqueue (\<lambda>_. Inr ()) ''d1'' ''e1'' [] sample_command empty_outbox = Inr (r, db')"
    using succeeds_tx [OF sample_enqueues] by blast
  with fresh have "\<not> eq_replayed r" by simp
  from run enqueued_reads_back [OF run this sample_command_ok(1,2)] show ?thesis
    by (auto simp: sample_command_def)
qed

lemma enqueue_is_idempotent_witness:
  "\<exists>r db' r'. enqueue (\<lambda>_. Inr ()) ''d1'' ''e1'' [] sample_command empty_outbox = Inr (r, db') \<and>
     enqueue (\<lambda>_. Inr ()) ''d2'' ''e2'' [] sample_command db' = Inr (r', db') \<and>
     eq_delivery r' = eq_delivery r \<and>
     enqueue (\<lambda>_. Inl (InvalidDeliveryTransition Sent Cancel)) ''d2'' ''e2'' [] sample_command db'
       = Inl (InvalidDeliveryTransition Sent Cancel)"
proof -
  obtain r db' where run: "enqueue (\<lambda>_. Inr ()) ''d1'' ''e1'' [] sample_command empty_outbox = Inr (r, db')"
    using succeeds_tx [OF sample_enqueues] by blast
  from enqueue_is_idempotent [OF run sample_command_ok(1,2)] obtain r' where
    "eq_delivery r' = eq_delivery r"
    and again: "enqueue cb' di' ei' pend' sample_command db' = bind_result (cb' r') (\<lambda>_. Inr (r', db'))"
    for cb' di' ei' pend' by blast
  with run again [of "\<lambda>_. Inr ()"] again [of "\<lambda>_. Inl (InvalidDeliveryTransition Sent Cancel)"]
  show ?thesis by auto
qed

lemma reused_key_is_refused_witness:
  "enqueue (\<lambda>_. Inr ()) ''d2'' ''e2'' []
     (sample_command\<lparr>cm_commandFingerprint := replicate 64 (CHR ''b'')\<rparr>) sample_queued
     = Inl (OutboundIdempotencyConflict Command_mismatch)"
proof -
  let ?c = "sample_command\<lparr>cm_commandFingerprint := replicate 64 (CHR ''b'')\<rparr>"
  have "map_option dl_commandFingerprint (getByIdempotencyKey sample_queued (cm_idempotencyKey ?c))
      = Some (Some (replicate 64 (CHR ''a'')))" by code_simp
  then obtain d where "getByIdempotencyKey sample_queued (cm_idempotencyKey ?c) = Some d"
    and "dl_commandFingerprint d = Some (replicate 64 (CHR ''a''))" by auto
  moreover have "hex64 (cm_commandFingerprint ?c)" by code_simp
  ultimately show ?thesis
    using reused_key_is_refused [of ?c sample_queued d "\<lambda>_. Inr ()" "''d2''" "''e2''" "[]"]
    by (simp add: replicate_eq_replicate)
qed

definition sample_draft :: email_row where
  "sample_draft = sample_email\<lparr>em_id := ''dr1'', em_folder_id := ''draft'', em_raw_headers := None,
     em_draft_version := 3\<rparr>"

definition sample_draft_command :: enqueue_command where
  "sample_draft_command = sample_command\<lparr>cm_snapshot :=
     sample_snapshot\<lparr>sn_draftId := Some ''dr1'', sn_draftVersion := Some 3\<rparr>\<rparr>"

definition sample_draft_outbox :: outbox_db where
  "sample_draft_outbox = empty_outbox\<lparr>db_emails := [sample_draft]\<rparr>"

lemma stale_draft_is_refused_witness:
  "\<exists>r db' e. enqueue (\<lambda>_. Inr ()) ''d1'' ''e1'' [] sample_draft_command sample_draft_outbox = Inr (r, db') \<and>
     find_email_row sample_draft_outbox ''dr1'' = Some e \<and> em_draft_version e = 3"
proof -
  have "case enqueue (\<lambda>_. Inr ()) ''d1'' ''e1'' [] sample_draft_command sample_draft_outbox of
      Inr (r, db') \<Rightarrow> \<not> eq_replayed r | _ \<Rightarrow> False" by code_simp
  then obtain r db' where run: "enqueue (\<lambda>_. Inr ()) ''d1'' ''e1'' [] sample_draft_command sample_draft_outbox
      = Inr (r, db')" and "\<not> eq_replayed r"
    by (auto split: sum.splits prod.splits)
  moreover have "sn_draftId (cm_snapshot sample_draft_command) = Some ''dr1''"
    "sn_draftVersion (cm_snapshot sample_draft_command) = Some 3"
    by (simp_all add: sample_draft_command_def)
  ultimately show ?thesis using stale_draft_is_refused [OF run] by fastforce
qed

end
