(* ===== verification/Login_Throttle.thy ===== *)
theory Login_Throttle
  imports Portal_Prelude
begin

text \<open>
  The login throttle: \<^verbatim>\<open>workers/lib/login-throttle.ts\<close> (which buckets an attempt falls into and what the
  caller is told) over \<^verbatim>\<open>workers/lib/login-throttle-d1.ts\<close> (the SQL that admits, finishes and prunes).
  Times are milliseconds. The keyed hash that hides addresses in the database is an argument.
\<close>

definition WINDOW_MS :: int where "WINDOW_MS = 15 * 60 * 1000"
definition LOCK_MS :: int where "LOCK_MS = 15 * 60 * 1000"
definition ACCOUNT_MAX_FAILURES :: int where "ACCOUNT_MAX_FAILURES = 5"
definition IP_MAX_FAILURES :: int where "IP_MAX_FAILURES = 20"
definition ATTEMPT_LEASE_MS :: int where "ATTEMPT_LEASE_MS = 60 * 1000"
definition DAY_MS :: int where "DAY_MS = 24 * 60 * 60 * 1000"

record throttle_row =
  tr_key :: string
  tr_failureCount :: int
  tr_windowStartedAt :: int
  tr_lockedUntil :: int
  tr_updatedAt :: int
  tr_maxFailures :: int

record lease_row =
  lr_attemptId :: string
  lr_key :: string
  lr_maxFailures :: int
  lr_acquiredAt :: int
  lr_expiresAt :: int

record throttle_db =
  td_throttles :: "throttle_row list"
  td_leases :: "lease_row list"

record login_identity =
  li_email :: string
  li_ip :: string

record throttle_bucket =
  tb_key :: string
  tb_maxFailures :: int

definition bucketsFor :: "(string \<Rightarrow> string) \<Rightarrow> login_identity \<Rightarrow> throttle_bucket list" where
  "bucketsFor opaqueKey identity =
     (let email = js_lower (js_trim (li_email identity));
          ip = (if js_trim (li_ip identity) = [] then ''unknown'' else js_trim (li_ip identity))
      in [\<lparr>tb_key = opaqueKey (''login:account:'' @ email), tb_maxFailures = ACCOUNT_MAX_FAILURES\<rparr>,
          \<lparr>tb_key = opaqueKey (''login:ip:'' @ ip), tb_maxFailures = IP_MAX_FAILURES\<rparr>])"

subsection \<open>The SQL store\<close>

datatype throttle_error = Buckets_required | Lease_constraint

definition find_throttle :: "throttle_db \<Rightarrow> string \<Rightarrow> throttle_row option" where
  "find_throttle db key = find (\<lambda>r. tr_key r = key) (td_throttles db)"

definition counted_failures :: "throttle_db \<Rightarrow> string \<Rightarrow> int \<Rightarrow> int" where
  "counted_failures db key windowCutoff =
     (case find_throttle db key of
        None \<Rightarrow> 0
      | Some r \<Rightarrow> if tr_windowStartedAt r \<le> windowCutoff then 0 else tr_failureCount r)"

definition locked_until :: "throttle_db \<Rightarrow> string \<Rightarrow> int" where
  "locked_until db key = (case find_throttle db key of None \<Rightarrow> 0 | Some r \<Rightarrow> tr_lockedUntil r)"

definition active_leases :: "throttle_db \<Rightarrow> string \<Rightarrow> int \<Rightarrow> int" where
  "active_leases db key now =
     int (count_where (\<lambda>l. lr_key l = key \<and> lr_expiresAt l > now) (td_leases db))"

definition bucket_full :: "throttle_db \<Rightarrow> int \<Rightarrow> int \<Rightarrow> throttle_bucket \<Rightarrow> bool" where
  "bucket_full db now windowCutoff b \<longleftrightarrow>
     locked_until db (tb_key b) > now \<or>
     counted_failures db (tb_key b) windowCutoff + active_leases db (tb_key b) now \<ge> tb_maxFailures b"

definition bucket_lease :: "string \<Rightarrow> int \<Rightarrow> int \<Rightarrow> throttle_bucket \<Rightarrow> lease_row" where
  "bucket_lease attemptId now expiresAt b =
     \<lparr>lr_attemptId = attemptId, lr_key = tb_key b, lr_maxFailures = tb_maxFailures b,
      lr_acquiredAt = now, lr_expiresAt = expiresAt\<rparr>"

definition retry_at :: "throttle_db \<Rightarrow> string list \<Rightarrow> int \<Rightarrow> int" where
  "retry_at db keys now =
     (let locked = fold max (map (locked_until db) keys) 0;
          expiries = map lr_expiresAt (filter (\<lambda>l. lr_key l \<in> set keys \<and> lr_expiresAt l > now) (td_leases db));
          leaseExpiresAt = (case expiries of [] \<Rightarrow> 0 | e # es \<Rightarrow> fold min es e)
      in max locked (max leaseExpiresAt (now + 1000)))"

text \<open>The first statement of the batch removes expired leases; a violated key rolls the batch back.\<close>

definition drop_expired_leases :: "int \<Rightarrow> throttle_db \<Rightarrow> throttle_db" where
  "drop_expired_leases now db = db\<lparr>td_leases := filter (\<lambda>l. \<not> lr_expiresAt l \<le> now) (td_leases db)\<rparr>"

definition store_admit ::
  "string \<Rightarrow> throttle_bucket list \<Rightarrow> int \<Rightarrow> int \<Rightarrow> int \<Rightarrow> throttle_db \<Rightarrow>
     throttle_error + ((bool \<times> int) \<times> throttle_db)" where
  "store_admit attemptId buckets now windowMs leaseMs db =
     (if length buckets \<noteq> 2 then Inl Buckets_required
      else
        (let db1 = drop_expired_leases now db;
             leases = map (bucket_lease attemptId now (now + leaseMs)) buckets
         in if list_ex (bucket_full db1 now (now - windowMs)) buckets
            then Inr ((False, retry_at db1 (map tb_key buckets) now - now), db1)
            else if \<not> distinct (map (\<lambda>l. (lr_attemptId l, lr_key l)) (td_leases db1 @ leases))
            then Inl Lease_constraint
            else Inr ((True, 0), db1\<lparr>td_leases := td_leases db1 @ leases\<rparr>)))"

text \<open>One failed attempt in one bucket: \<^verbatim>\<open>INSERT ... ON CONFLICT DO UPDATE\<close>.\<close>

definition new_throttle :: "int \<Rightarrow> int \<Rightarrow> lease_row \<Rightarrow> throttle_row" where
  "new_throttle now lockMs l =
     \<lparr>tr_key = lr_key l, tr_failureCount = 1, tr_windowStartedAt = now,
      tr_lockedUntil = (if 1 \<ge> lr_maxFailures l then now + lockMs else 0),
      tr_updatedAt = now, tr_maxFailures = lr_maxFailures l\<rparr>"

definition count_failure :: "int \<Rightarrow> int \<Rightarrow> int \<Rightarrow> lease_row \<Rightarrow> throttle_row \<Rightarrow> throttle_row" where
  "count_failure now windowCutoff lockMs l r =
     (let stale = (tr_windowStartedAt r \<le> windowCutoff);
          failures = (if stale then 1 else tr_failureCount r + 1)
      in r\<lparr>tr_failureCount := failures,
           tr_windowStartedAt := (if stale then now else tr_windowStartedAt r),
           tr_lockedUntil := (if tr_lockedUntil r > now then tr_lockedUntil r
                              else if failures \<ge> lr_maxFailures l then now + lockMs else 0),
           tr_updatedAt := now, tr_maxFailures := lr_maxFailures l\<rparr>)"

definition upsert_failure :: "int \<Rightarrow> int \<Rightarrow> int \<Rightarrow> lease_row \<Rightarrow> throttle_row list \<Rightarrow> throttle_row list" where
  "upsert_failure now windowCutoff lockMs l rows =
     (if \<exists>r \<in> set rows. tr_key r = lr_key l
      then update_where (\<lambda>r. tr_key r = lr_key l) (count_failure now windowCutoff lockMs l) rows
      else rows @ [new_throttle now lockMs l])"

datatype attempt_outcome = Attempt_success | Attempt_failure

definition release_attempt :: "string \<Rightarrow> throttle_db \<Rightarrow> throttle_db" where
  "release_attempt attemptId db = db\<lparr>td_leases := filter (\<lambda>l. lr_attemptId l \<noteq> attemptId) (td_leases db)\<rparr>"

definition store_finish ::
  "string \<Rightarrow> attempt_outcome \<Rightarrow> int \<Rightarrow> int \<Rightarrow> int \<Rightarrow> throttle_db \<Rightarrow> throttle_db" where
  "store_finish attemptId outcome now windowMs lockMs db =
     (case outcome of
        Attempt_success \<Rightarrow> release_attempt attemptId db
      | Attempt_failure \<Rightarrow> release_attempt attemptId
          (db\<lparr>td_throttles := fold (upsert_failure now (now - windowMs) lockMs)
                (filter (\<lambda>l. lr_attemptId l = attemptId) (td_leases db)) (td_throttles db)\<rparr>))"

definition store_prune :: "int \<Rightarrow> throttle_db \<Rightarrow> throttle_db" where
  "store_prune olderThan db =
     (let doomed = map tr_key (take 100
            (sort_key tr_updatedAt (filter (\<lambda>r. tr_updatedAt r < olderThan) (td_throttles db))))
      in db\<lparr>td_leases := filter (\<lambda>l. \<not> lr_expiresAt l < olderThan + DAY_MS) (td_leases db),
            td_throttles := filter (\<lambda>r. tr_key r \<notin> set doomed) (td_throttles db)\<rparr>)"

subsection \<open>The throttle\<close>

datatype admission = Admitted string | Refused int

definition ceil_seconds :: "int \<Rightarrow> int" where
  "ceil_seconds ms = - ((- ms) div 1000)"

definition throttle_admit ::
  "(string \<Rightarrow> string) \<Rightarrow> string \<Rightarrow> login_identity \<Rightarrow> int \<Rightarrow> throttle_db \<Rightarrow>
     throttle_error + (admission \<times> throttle_db)" where
  "throttle_admit opaqueKey attemptId identity now db =
     bind_result (store_admit attemptId (bucketsFor opaqueKey identity) now WINDOW_MS ATTEMPT_LEASE_MS
                    (store_prune (now - DAY_MS) db))
       (\<lambda>((allowed, retryAfterMs), db').
          Inr (if allowed then Admitted attemptId else Refused (max 1 (ceil_seconds retryAfterMs)), db'))"

definition recordFailure :: "string \<Rightarrow> int \<Rightarrow> throttle_db \<Rightarrow> throttle_db" where
  "recordFailure attemptId now db = store_finish attemptId Attempt_failure now WINDOW_MS LOCK_MS db"

definition recordSuccess :: "string \<Rightarrow> int \<Rightarrow> throttle_db \<Rightarrow> throttle_db" where
  "recordSuccess attemptId now db = store_finish attemptId Attempt_success now WINDOW_MS LOCK_MS db"

text \<open>
  A login request as the throttle sees it, with the clock reading it was made at. An admission that
  throws leaves the store as pruning left it, because the two are separate statements.
\<close>

datatype throttle_op =
  Op_admit string login_identity
| Op_failure string
| Op_success string

definition run_throttle ::
  "(string \<Rightarrow> string) \<Rightarrow> int \<Rightarrow> throttle_op \<Rightarrow> throttle_db \<Rightarrow> throttle_db" where
  "run_throttle opaqueKey now op1 db =
     (case op1 of
        Op_admit a identity \<Rightarrow>
          (case throttle_admit opaqueKey a identity now db of
             Inl e \<Rightarrow> store_prune (now - DAY_MS) db
           | Inr (r, db') \<Rightarrow> db')
      | Op_failure a \<Rightarrow> recordFailure a now db
      | Op_success a \<Rightarrow> recordSuccess a now db)"

fun run_throttles ::
  "(string \<Rightarrow> string) \<Rightarrow> (int \<times> throttle_op) list \<Rightarrow> throttle_db \<Rightarrow> throttle_db" where
  "run_throttles opaqueKey [] db = db"
| "run_throttles opaqueKey ((now, op1) # ops) db =
     run_throttles opaqueKey ops (run_throttle opaqueKey now op1 db)"

end
