(* ===== verification/Login_Throttle_Laws.thy ===== *)
theory Login_Throttle_Laws
  imports Login_Throttle
begin

text \<open>
  What the login throttle guarantees: the guesses that count against a bucket, recorded and pending
  together, never exceed its limit within a window, and a locked bucket admits nobody until the lock
  ends, whatever requests arrive in between.
\<close>

definition throttle_ok :: "throttle_db \<Rightarrow> bool" where
  "throttle_ok db \<longleftrightarrow>
     distinct (map tr_key (td_throttles db)) \<and> (\<forall>r \<in> set (td_throttles db). 0 \<le> tr_failureCount r) \<and>
     distinct (map (\<lambda>l. (lr_attemptId l, lr_key l)) (td_leases db))"

definition pending_leases :: "throttle_db \<Rightarrow> string \<Rightarrow> int" where
  "pending_leases db key = int (count_where (\<lambda>l. lr_key l = key) (td_leases db))"

text \<open>Failures that still count at a time, and attempts that may still become failures.\<close>

definition guess_load :: "throttle_db \<Rightarrow> string \<Rightarrow> int \<Rightarrow> int" where
  "guess_load db key now = counted_failures db key (now - WINDOW_MS) + pending_leases db key"

subsection \<open>Counting\<close>

lemma count_where_filter_le: "count_where P (filter Q xs) \<le> count_where P xs"
  by (induction xs) (auto simp: count_where_def)

lemma count_where_append [simp]: "count_where P (xs @ ys) = count_where P xs + count_where P ys"
  by (simp add: count_where_def)

lemma count_where_Nil [simp]: "count_where P [] = 0"
  by (simp add: count_where_def)

lemma count_where_Cons [simp]: "count_where P (x # xs) = (if P x then 1 else 0) + count_where P xs"
  by (simp add: count_where_def)

lemma find_throttle_member: "find_throttle db key = Some r \<Longrightarrow> tr_key r = key \<and> r \<in> set (td_throttles db)"
  unfolding find_throttle_def by (rule find_key_Some)

lemma counted_failures_nonneg: "throttle_ok db \<Longrightarrow> 0 \<le> counted_failures db key c"
  by (auto simp: counted_failures_def throttle_ok_def dest: find_throttle_member split: option.splits)

lemma counted_failures_mono: "throttle_ok db \<Longrightarrow> c \<le> c' \<Longrightarrow> counted_failures db key c' \<le> counted_failures db key c"
  by (auto simp: counted_failures_def throttle_ok_def dest: find_throttle_member split: option.splits)

lemma guess_load_mono: "throttle_ok db \<Longrightarrow> t \<le> t' \<Longrightarrow> guess_load db key t' \<le> guess_load db key t"
  by (simp add: guess_load_def counted_failures_mono)

lemma counted_failures_throttles:
  "td_throttles db' = td_throttles db \<Longrightarrow> counted_failures db' key c = counted_failures db key c"
  by (simp add: counted_failures_def find_throttle_def)

lemma distinct_map_filter': "distinct (map f xs) \<Longrightarrow> distinct (map f (filter P xs))"
  by (rule distinct_map_filter)

subsection \<open>Pruning\<close>

lemma find_filter_key:
  "find (\<lambda>r. key r = k) (filter (\<lambda>r. key r \<notin> D) xs) = (if k \<in> D then None else find (\<lambda>r. key r = k) xs)"
  by (induction xs) auto

lemma prune_ok: "throttle_ok db \<Longrightarrow> throttle_ok (store_prune t db)"
  by (auto simp: throttle_ok_def store_prune_def Let_def distinct_map_filter)

lemma prune_load: "throttle_ok db \<Longrightarrow> guess_load (store_prune t db) key now \<le> guess_load db key now"
proof -
  assume ok: "throttle_ok db"
  have "counted_failures (store_prune t db) key c \<le> counted_failures db key c" for c
    using counted_failures_nonneg [OF ok, of key c]
    by (simp add: counted_failures_def find_throttle_def store_prune_def Let_def find_filter_key
        split: option.splits)
  moreover have "pending_leases (store_prune t db) key \<le> pending_leases db key"
    by (simp add: pending_leases_def store_prune_def Let_def count_where_filter_le)
  ultimately show ?thesis by (simp add: guess_load_def add_mono)
qed

subsection \<open>Admission\<close>

lemma drop_expired_ok: "throttle_ok db \<Longrightarrow> throttle_ok (drop_expired_leases now db)"
  by (auto simp: throttle_ok_def drop_expired_leases_def distinct_map_filter)

lemma drop_expired_load: "guess_load (drop_expired_leases now db) key t \<le> guess_load db key t"
  by (simp add: guess_load_def drop_expired_leases_def pending_leases_def count_where_filter_le
      counted_failures_def find_throttle_def)

lemma drop_expired_active:
  "active_leases (drop_expired_leases now db) key now = pending_leases (drop_expired_leases now db) key"
  by (induction "td_leases db")
    (auto simp: active_leases_def pending_leases_def drop_expired_leases_def count_where_def
      intro!: arg_cong [of _ _ length] filter_cong)

text \<open>What an admission does to the store.\<close>

lemma store_admit_cases:
  assumes "store_admit a bs now w k db = Inr ((allowed, ms), db')"
  obtains (refused) "\<not> allowed" and "db' = drop_expired_leases now db"
      and "list_ex (bucket_full (drop_expired_leases now db) now (now - w)) bs"
      and "ms = retry_at (drop_expired_leases now db) (map tb_key bs) now - now"
  | (admitted) "allowed" and "\<not> list_ex (bucket_full (drop_expired_leases now db) now (now - w)) bs"
      and "db' = (drop_expired_leases now db)\<lparr>td_leases :=
             td_leases (drop_expired_leases now db) @ map (bucket_lease a now (now + k)) bs\<rparr>"
      and "distinct (map (\<lambda>l. (lr_attemptId l, lr_key l)) (td_leases db'))"
  using assms by (auto simp: store_admit_def Let_def split: if_splits)

lemma store_admit_ok:
  assumes "store_admit a bs now w k db = Inr ((allowed, ms), db')" and "throttle_ok db"
  shows "throttle_ok db'"
  using assms(1)
proof (cases rule: store_admit_cases)
  case admitted
  then show ?thesis using drop_expired_ok [OF assms(2)] by (simp add: throttle_ok_def)
qed (use drop_expired_ok [OF assms(2)] in simp)

lemma count_bucket_leases:
  "count_where (\<lambda>l. lr_key l = key) (map (bucket_lease a now e) bs) = count_where (\<lambda>b. tb_key b = key) bs"
  by (induction bs) (auto simp: bucket_lease_def)

lemma store_admit_load:
  assumes "store_admit a bs now WINDOW_MS k db = Inr ((allowed, ms), db')"
    and "guess_load db key now \<le> m"
    and "\<forall>b \<in> set bs. tb_key b = key \<longrightarrow> tb_maxFailures b = m" and "count_where (\<lambda>b. tb_key b = key) bs \<le> 1"
  shows "guess_load db' key now \<le> m"
  using assms(1)
proof (cases rule: store_admit_cases)
  case refused
  then show ?thesis using drop_expired_load assms(2) by (metis order_trans)
next
  case admitted
  let ?db1 = "drop_expired_leases now db"
  have load: "guess_load db' key now = guess_load ?db1 key now + int (count_where (\<lambda>b. tb_key b = key) bs)"
    by (simp add: admitted(3) guess_load_def pending_leases_def counted_failures_def find_throttle_def
        count_bucket_leases)
  show ?thesis
  proof (cases "\<exists>b \<in> set bs. tb_key b = key")
    case True
    then obtain b where b: "b \<in> set bs" "tb_key b = key" by blast
    with admitted(2) have "\<not> bucket_full ?db1 now (now - WINDOW_MS) b" by (auto simp: list_ex_iff)
    with b(2) have "counted_failures ?db1 key (now - WINDOW_MS) + active_leases ?db1 key now < tb_maxFailures b"
      by (auto simp: bucket_full_def)
    moreover have "tb_maxFailures b = m" using assms(3) b by blast
    ultimately have "guess_load ?db1 key now < m" by (simp add: guess_load_def drop_expired_active)
    then show ?thesis using load assms(4) by linarith
  next
    case False
    then have "count_where (\<lambda>b. tb_key b = key) bs = 0" by (auto simp: count_where_def filter_empty_conv)
    then show ?thesis using load drop_expired_load [of now db key now] assms(2) by linarith
  qed
qed

subsection \<open>A failed attempt\<close>

lemma upsert_keys: "distinct (map tr_key rows) \<Longrightarrow> distinct (map tr_key (upsert_failure now c k l rows))"
  by (auto simp: upsert_failure_def keys_update_where count_failure_def Let_def new_throttle_def)

lemma upsert_nonneg:
  "(\<forall>r \<in> set rows. 0 \<le> tr_failureCount r) \<Longrightarrow>
     (\<forall>r \<in> set (upsert_failure now c k l rows). 0 \<le> tr_failureCount r)"
  by (auto simp: upsert_failure_def set_update_where count_failure_def Let_def new_throttle_def)

lemma find_upsert:
  "find (\<lambda>r. tr_key r = key) (upsert_failure now c k l rows) =
     (if lr_key l = key
      then Some (case find (\<lambda>r. tr_key r = key) rows of
                   None \<Rightarrow> new_throttle now k l | Some r \<Rightarrow> count_failure now c k l r)
      else find (\<lambda>r. tr_key r = key) rows)"
proof -
  have keep: "tr_key (count_failure now c k l r) = tr_key r" for r
    by (simp add: count_failure_def Let_def)
  show ?thesis
  proof (cases "\<exists>r \<in> set rows. tr_key r = lr_key l")
    case True
    then have "find (\<lambda>r. tr_key r = lr_key l) rows \<noteq> None" by (auto simp: find_None_iff)
    then obtain r where r: "find (\<lambda>r. tr_key r = lr_key l) rows = Some r" by blast
    have "find (\<lambda>r. tr_key r = key) (upsert_failure now c k l rows) =
        map_option (\<lambda>r. if tr_key r = lr_key l then count_failure now c k l r else r)
          (find (\<lambda>r. tr_key r = key) rows)"
      using True by (simp add: upsert_failure_def find_update_where keep)
    then show ?thesis
      using r by (cases "find (\<lambda>r. tr_key r = key) rows") (auto dest: find_key_Some)
  next
    case False
    then have "find (\<lambda>r. tr_key r = lr_key l) rows = None" by (auto simp: find_None_iff)
    then show ?thesis
      using False
      by (auto simp: upsert_failure_def find_append new_throttle_def split: option.splits)
  qed
qed

definition row_failures :: "throttle_row list \<Rightarrow> string \<Rightarrow> int \<Rightarrow> int" where
  "row_failures rows key c =
     (case find (\<lambda>r. tr_key r = key) rows of
        None \<Rightarrow> 0 | Some r \<Rightarrow> if tr_windowStartedAt r \<le> c then 0 else tr_failureCount r)"

lemma counted_row_failures: "counted_failures db key c = row_failures (td_throttles db) key c"
  by (simp add: counted_failures_def row_failures_def find_throttle_def)

lemma upsert_counts:
  assumes "c < now"
  shows "row_failures (upsert_failure now c k l rows) key c =
     row_failures rows key c + (if lr_key l = key then 1 else 0)"
  using assms
  by (auto simp: row_failures_def find_upsert new_throttle_def count_failure_def Let_def split: option.splits)

lemma fold_upsert_counts:
  assumes "c < now"
  shows "row_failures (fold (upsert_failure now c k) ls rows) key c =
     row_failures rows key c + int (count_where (\<lambda>l. lr_key l = key) ls)"
  using assms by (induction ls arbitrary: rows) (simp_all add: upsert_counts)

lemma fold_upsert_ok:
  "distinct (map tr_key rows) \<Longrightarrow> (\<forall>r \<in> set rows. 0 \<le> tr_failureCount r) \<Longrightarrow>
     distinct (map tr_key (fold (upsert_failure now c k) ls rows)) \<and>
     (\<forall>r \<in> set (fold (upsert_failure now c k) ls rows). 0 \<le> tr_failureCount r)"
proof (induction ls arbitrary: rows)
  case (Cons l ls)
  from Cons.IH [OF upsert_keys [OF Cons.prems(1)] upsert_nonneg [OF Cons.prems(2)]]
  show ?case by simp
qed simp

lemma finish_ok: "throttle_ok db \<Longrightarrow> throttle_ok (store_finish a out now w k db)"
  using fold_upsert_ok
  by (cases out) (auto simp: store_finish_def release_attempt_def throttle_ok_def distinct_map_filter)

lemma count_where_partition:
  "count_where P xs = count_where P (filter Q xs) + count_where P (filter (\<lambda>x. \<not> Q x) xs)"
  by (induction xs) auto

text \<open>A failure moves an attempt from the pending ones to the recorded ones; a success only frees it.\<close>

lemma finish_failure_load:
  "guess_load (recordFailure a now db) key now = guess_load db key now"
proof -
  have "now - WINDOW_MS < now" by (simp add: WINDOW_MS_def)
  then show ?thesis
    using count_where_partition [of "\<lambda>l. lr_key l = key" "td_leases db" "\<lambda>l. lr_attemptId l = a"]
    by (simp add: guess_load_def recordFailure_def store_finish_def release_attempt_def
        counted_row_failures pending_leases_def fold_upsert_counts)
qed

lemma finish_success_load:
  "guess_load (recordSuccess a now db) key now \<le> guess_load db key now"
  by (simp add: guess_load_def recordSuccess_def store_finish_def release_attempt_def pending_leases_def
      count_where_filter_le counted_row_failures)

subsection \<open>Every run\<close>

text \<open>
  The bucket of an account is only used for that account: the keyed hash does not map an address
  bucket to it. The hash is an HMAC, for which a collision is infeasible to find.
\<close>

definition account_key :: "(string \<Rightarrow> string) \<Rightarrow> string \<Rightarrow> string" where
  "account_key opaqueKey email = opaqueKey (''login:account:'' @ js_lower (js_trim email))"

lemma buckets_of_account:
  assumes "\<forall>ip. opaqueKey (''login:ip:'' @ ip) \<noteq> account_key opaqueKey email"
  shows "\<forall>b \<in> set (bucketsFor opaqueKey identity). tb_key b = account_key opaqueKey email \<longrightarrow>
           tb_maxFailures b = ACCOUNT_MAX_FAILURES"
    and "count_where (\<lambda>b. tb_key b = account_key opaqueKey email) (bucketsFor opaqueKey identity) \<le> 1"
  using assms by (auto simp: bucketsFor_def Let_def count_where_def)

lemma run_throttle_ok: "throttle_ok db \<Longrightarrow> throttle_ok (run_throttle opaqueKey now op1 db)"
  by (cases op1)
    (auto simp: run_throttle_def throttle_admit_def recordFailure_def recordSuccess_def finish_ok
      prune_ok bind_result_Inr dest: store_admit_ok split: sum.splits)

lemma run_throttle_load:
  assumes "\<forall>ip. opaqueKey (''login:ip:'' @ ip) \<noteq> account_key opaqueKey email" and "throttle_ok db"
    and "guess_load db (account_key opaqueKey email) now \<le> ACCOUNT_MAX_FAILURES"
  shows "guess_load (run_throttle opaqueKey now op1 db) (account_key opaqueKey email) now \<le> ACCOUNT_MAX_FAILURES"
proof (cases op1)
  case (Op_admit a identity)
  let ?db = "store_prune (now - DAY_MS) db"
  have load: "guess_load ?db (account_key opaqueKey email) now \<le> ACCOUNT_MAX_FAILURES"
    using prune_load [OF assms(2)] assms(3) by (rule order_trans)
  show ?thesis
  proof (cases "store_admit a (bucketsFor opaqueKey identity) now WINDOW_MS ATTEMPT_LEASE_MS ?db")
    case (Inl e)
    then show ?thesis using load Op_admit by (simp add: run_throttle_def throttle_admit_def)
  next
    case (Inr p)
    then obtain allowed ms db' where p: "store_admit a (bucketsFor opaqueKey identity) now WINDOW_MS
        ATTEMPT_LEASE_MS ?db = Inr ((allowed, ms), db')" by (metis prod.collapse)
    from store_admit_load [OF p load buckets_of_account [OF assms(1)]] p Op_admit show ?thesis
      by (simp add: run_throttle_def throttle_admit_def)
  qed
next
  case (Op_failure a)
  then show ?thesis using assms(3) by (simp add: run_throttle_def finish_failure_load)
next
  case (Op_success a)
  then show ?thesis
    using finish_success_load [of a now db] assms(3) order_trans by (fastforce simp: run_throttle_def)
qed

definition empty_throttle :: throttle_db where
  "empty_throttle = \<lparr>td_throttles = [], td_leases = []\<rparr>"

text \<open>
  C3: However login requests, failures and successes for any accounts and addresses are interleaved,
  the wrong passwords recorded against an account in the current window together with the attempts
  still being checked never exceed five.
\<close>
theorem account_guesses_are_bounded:
  assumes "\<forall>ip. opaqueKey (''login:ip:'' @ ip) \<noteq> account_key opaqueKey email"
    and "sorted (map fst ops)" and "\<forall>(t, op1) \<in> set ops. t \<le> now"
  shows "counted_failures (run_throttles opaqueKey ops empty_throttle) (account_key opaqueKey email)
       (now - WINDOW_MS)
     + pending_leases (run_throttles opaqueKey ops empty_throttle) (account_key opaqueKey email)
     \<le> ACCOUNT_MAX_FAILURES"
proof -
  have run: "throttle_ok (run_throttles opaqueKey ops db) \<and>
      guess_load (run_throttles opaqueKey ops db) (account_key opaqueKey email) now \<le> ACCOUNT_MAX_FAILURES"
    if "throttle_ok db" "guess_load db (account_key opaqueKey email) t0 \<le> ACCOUNT_MAX_FAILURES"
      "\<forall>(t, op1) \<in> set ops. t0 \<le> t \<and> t \<le> now" "t0 \<le> now" "sorted (map fst ops)" for db t0 ops
    using that
  proof (induction ops arbitrary: db t0)
    case Nil
    then show ?case
      using guess_load_mono [of db t0 now "account_key opaqueKey email"] by simp
  next
    case (Cons x ops)
    obtain t op1 where x: "x = (t, op1)" by fastforce
    have "guess_load db (account_key opaqueKey email) t \<le> ACCOUNT_MAX_FAILURES"
      using guess_load_mono [OF Cons.prems(1), of t0 t "account_key opaqueKey email"] Cons.prems(2,3) x
      by fastforce
    then have step: "guess_load (run_throttle opaqueKey t op1 db) (account_key opaqueKey email) t
        \<le> ACCOUNT_MAX_FAILURES"
      by (rule run_throttle_load [OF assms(1) Cons.prems(1)])
    have "\<forall>(t', op1) \<in> set ops. t \<le> t' \<and> t' \<le> now" "t \<le> now" "sorted (map fst ops)"
      using Cons.prems(3,5) x by force+
    from Cons.IH [OF run_throttle_ok [OF Cons.prems(1)] step this] show ?case by (simp add: x)
  qed
  show ?thesis
  proof (cases ops)
    case Nil
    then show ?thesis
      by (simp add: counted_failures_def pending_leases_def empty_throttle_def find_throttle_def
          ACCOUNT_MAX_FAILURES_def)
  next
    case (Cons x xs)
    have "throttle_ok empty_throttle" by (simp add: throttle_ok_def empty_throttle_def)
    moreover have "guess_load empty_throttle (account_key opaqueKey email) (fst x) \<le> ACCOUNT_MAX_FAILURES"
      by (simp add: guess_load_def counted_failures_def pending_leases_def empty_throttle_def
          find_throttle_def ACCOUNT_MAX_FAILURES_def)
    moreover have "\<forall>(t, op1) \<in> set ops. fst x \<le> t \<and> t \<le> now" "fst x \<le> now"
      using assms(2,3) Cons by force+
    ultimately show ?thesis using run [OF _ _ _ _ assms(2)] by (simp add: guess_load_def)
  qed
qed

subsection \<open>Locks\<close>

definition locked_row :: "throttle_row list \<Rightarrow> string \<Rightarrow> int \<Rightarrow> bool" where
  "locked_row rows key lockEnd \<longleftrightarrow>
     (\<exists>r. find (\<lambda>r. tr_key r = key) rows = Some r \<and> tr_lockedUntil r = lockEnd \<and>
          lockEnd - LOCK_MS \<le> tr_updatedAt r)"

lemma locked_row_upsert:
  assumes "locked_row rows key lockEnd" and "lockEnd - LOCK_MS \<le> now" and "now < lockEnd"
  shows "locked_row (upsert_failure now c k l rows) key lockEnd"
  using assms by (auto simp: locked_row_def find_upsert count_failure_def Let_def)

lemma locked_row_fold:
  assumes "locked_row rows key lockEnd" and "lockEnd - LOCK_MS \<le> now" and "now < lockEnd"
  shows "locked_row (fold (upsert_failure now c k) ls rows) key lockEnd"
  using assms by (induction ls arbitrary: rows) (simp_all add: locked_row_upsert)

lemma locked_row_prune:
  assumes "locked_row (td_throttles db) key lockEnd" and "throttle_ok db" and "now < lockEnd"
  shows "locked_row (td_throttles (store_prune (now - DAY_MS) db)) key lockEnd"
proof -
  from assms(1) obtain r where r: "find (\<lambda>r. tr_key r = key) (td_throttles db) = Some r"
    "tr_lockedUntil r = lockEnd" "lockEnd - LOCK_MS \<le> tr_updatedAt r"
    by (auto simp: locked_row_def)
  have young: "\<not> tr_updatedAt r < now - DAY_MS"
    using r(3) assms(3) by (simp add: LOCK_MS_def DAY_MS_def)
  let ?old = "filter (\<lambda>r. tr_updatedAt r < now - DAY_MS) (td_throttles db)"
  have "key \<notin> tr_key ` set ?old"
  proof
    assume "key \<in> tr_key ` set ?old"
    then obtain r' where "r' \<in> set (td_throttles db)" "tr_key r' = key" "tr_updatedAt r' < now - DAY_MS" by auto
    moreover have "r \<in> set (td_throttles db)" "tr_key r = key" using find_key_Some [OF r(1)] by simp_all
    ultimately have "r' = r" using assms(2) by (auto simp: throttle_ok_def distinct_map dest: inj_onD)
    with young \<open>tr_updatedAt r' < now - DAY_MS\<close> show False by simp
  qed
  then have "key \<notin> set (map tr_key (take 100 (sort_key tr_updatedAt ?old)))"
    using set_take_subset [of 100 "sort_key tr_updatedAt ?old"] by auto
  then show ?thesis
    using r by (simp add: locked_row_def store_prune_def Let_def find_filter_key)
qed

lemma store_admit_throttles:
  "store_admit a bs now w k db = Inr (r, db') \<Longrightarrow> td_throttles db' = td_throttles db"
  by (auto simp: store_admit_def Let_def drop_expired_leases_def split: if_splits)

lemma locked_row_run:
  assumes "locked_row (td_throttles db) key lockEnd" and "throttle_ok db"
    and "lockEnd - LOCK_MS \<le> now" and "now < lockEnd"
  shows "locked_row (td_throttles (run_throttle opaqueKey now op1 db)) key lockEnd"
proof (cases op1)
  case (Op_admit a identity)
  then show ?thesis
    using locked_row_prune [OF assms(1,2,4)]
    by (auto simp: run_throttle_def throttle_admit_def bind_result_Inr dest: store_admit_throttles
        split: sum.splits)
qed (use assms locked_row_fold in \<open>simp_all add: run_throttle_def recordFailure_def recordSuccess_def
    store_finish_def release_attempt_def\<close>)

lemma locked_row_until: "locked_row (td_throttles db) key lockEnd \<Longrightarrow> locked_until db key = lockEnd"
  by (auto simp: locked_row_def locked_until_def find_throttle_def)

text \<open>
  C9: Once a bucket is locked, every login in it is refused until the lock ends: other logins, further
  failures, successes and pruning in between neither shorten nor lift the lock.
\<close>
theorem lock_is_enforced:
  assumes "throttle_ok db" and "locked_row (td_throttles db) key lockEnd"
    and "\<forall>(t, op1) \<in> set ops. lockEnd - LOCK_MS \<le> t \<and> t < lockEnd"
    and "now < lockEnd" and "b \<in> set (bucketsFor opaqueKey identity)" and "tb_key b = key"
  shows "\<exists>seconds db'. throttle_admit opaqueKey a identity now (run_throttles opaqueKey ops db)
           = Inr (Refused seconds, db') \<and> 1 \<le> seconds"
proof -
  have run: "throttle_ok (run_throttles opaqueKey ops db) \<and>
      locked_row (td_throttles (run_throttles opaqueKey ops db)) key lockEnd"
    using assms(1-3)
  proof (induction ops arbitrary: db)
    case (Cons x ops)
    obtain t op1 where x: "x = (t, op1)" by fastforce
    then have "lockEnd - LOCK_MS \<le> t" "t < lockEnd" using Cons.prems(3) by auto
    note step = locked_row_run [OF Cons.prems(2,1) this, of opaqueKey op1]
    have "\<forall>(t, op1) \<in> set ops. lockEnd - LOCK_MS \<le> t \<and> t < lockEnd" using Cons.prems(3) by simp
    from Cons.IH [OF run_throttle_ok [OF Cons.prems(1)] step this] show ?case by (simp add: x)
  qed simp
  let ?db = "store_prune (now - DAY_MS) (run_throttles opaqueKey ops db)"
  have "locked_row (td_throttles ?db) key lockEnd" using run assms(4) by (intro locked_row_prune) simp_all
  then have "locked_row (td_throttles (drop_expired_leases now ?db)) key lockEnd"
    by (simp add: drop_expired_leases_def)
  then have "locked_until (drop_expired_leases now ?db) key > now"
    using assms(4) by (simp add: locked_row_until)
  then have "list_ex (bucket_full (drop_expired_leases now ?db) now (now - WINDOW_MS)) (bucketsFor opaqueKey identity)"
    using assms(5,6) by (auto simp: list_ex_iff bucket_full_def)
  moreover have "length (bucketsFor opaqueKey identity) = 2" by (simp add: bucketsFor_def Let_def)
  ultimately show ?thesis
    by (simp add: throttle_admit_def store_admit_def Let_def)
qed

text \<open>
  A failed attempt counts once against each bucket it was admitted to, starts a new window when the
  old one is over, and locks a bucket for a quarter of an hour when its limit is reached; a successful
  attempt changes no count and lifts no lock.
\<close>
theorem failure_counts_and_locks:
  assumes "throttle_ok db" and "l \<in> set (td_leases db)" and "lr_attemptId l = a" and "lr_key l = key"
    and "0 \<le> now"
  shows "(\<exists>r. find_throttle (recordFailure a now db) key = Some r \<and>
      tr_failureCount r = counted_failures db key (now - WINDOW_MS) + 1 \<and>
      (counted_failures db key (now - WINDOW_MS) + 1 \<ge> lr_maxFailures l \<longrightarrow>
         tr_lockedUntil r = (if locked_until db key > now then locked_until db key else now + LOCK_MS))) \<and>
    (\<forall>l' \<in> set (td_leases (recordFailure a now db)). lr_attemptId l' \<noteq> a) \<and>
    td_throttles (recordSuccess a now db) = td_throttles db"
proof -
  let ?ls = "filter (\<lambda>l. lr_attemptId l = a) (td_leases db)"
  have dist: "distinct (map (\<lambda>l. (lr_attemptId l, lr_key l)) ?ls)"
    using assms(1) by (simp add: throttle_ok_def distinct_map_filter)
  have uniq: "l' = l" if "l' \<in> set ?ls" "lr_key l' = key" for l'
    using that assms dist by (auto simp: distinct_map inj_on_def)
  have effect: "find (\<lambda>r. tr_key r = key) (fold (upsert_failure now c k) ls rows) =
      (if l \<in> set ls then Some (case find (\<lambda>r. tr_key r = key) rows of
          None \<Rightarrow> new_throttle now k l | Some r \<Rightarrow> count_failure now c k l r)
       else find (\<lambda>r. tr_key r = key) rows)"
    if "set ls \<subseteq> set ?ls" "distinct ls" for c k ls rows
    using that
  proof (induction ls arbitrary: rows)
    case (Cons x xs)
    then show ?case
      using uniq [of x] assms(4) by (auto simp: find_upsert)
  qed simp
  have "distinct ?ls" using dist by (simp add: distinct_map)
  then have row: "find_throttle (recordFailure a now db) key = Some (case find_throttle db key of
      None \<Rightarrow> new_throttle now LOCK_MS l | Some r \<Rightarrow> count_failure now (now - WINDOW_MS) LOCK_MS l r)"
    using effect [of ?ls "now - WINDOW_MS" LOCK_MS "td_throttles db"] assms(2,3)
    by (simp add: find_throttle_def recordFailure_def store_finish_def release_attempt_def)
  show ?thesis
    using row assms(5)
    by (auto simp: counted_failures_def locked_until_def new_throttle_def count_failure_def Let_def
        recordFailure_def recordSuccess_def store_finish_def release_attempt_def split: option.splits)
qed

end
