(* ===== verification/Login_Witnesses.thy ===== *)
theory Login_Witnesses
  imports Login_Throttle_Laws
begin

text \<open>
  The guarantees of the login throttle at concrete stores, with an injective stand-in for the keyed
  hash the bucket keys are made with.
\<close>

definition sample_login :: login_identity where
  "sample_login = \<lparr>li_email = ''Ann@example.com'', li_ip = ''192.0.2.7''\<rparr>"

definition sample_bucket :: string where
  "sample_bucket = account_key (\<lambda>s. s) (li_email sample_login)"

definition sample_locked :: throttle_db where
  "sample_locked =
     \<lparr>td_throttles = [\<lparr>tr_key = sample_bucket, tr_failureCount = 5, tr_windowStartedAt = 1000,
        tr_lockedUntil = 901000, tr_updatedAt = 1000, tr_maxFailures = 5\<rparr>],
      td_leases = []\<rparr>"

definition sample_attempting :: throttle_db where
  "sample_attempting =
     \<lparr>td_throttles = [\<lparr>tr_key = sample_bucket, tr_failureCount = 4, tr_windowStartedAt = 1000,
        tr_lockedUntil = 0, tr_updatedAt = 1000, tr_maxFailures = 5\<rparr>],
      td_leases = [\<lparr>lr_attemptId = ''a'', lr_key = sample_bucket, lr_maxFailures = 5,
        lr_acquiredAt = 2000, lr_expiresAt = 62000\<rparr>]\<rparr>"

lemma sample_separate: "\<forall>ip. ''login:ip:'' @ ip \<noteq> account_key (\<lambda>s. s) email"
  by (simp add: account_key_def)

lemma sample_locked_ok: "throttle_ok sample_locked"
  "locked_row (td_throttles sample_locked) sample_bucket 901000"
  by (simp_all add: throttle_ok_def locked_row_def sample_locked_def LOCK_MS_def)

lemma account_guesses_are_bounded_witness:
  "counted_failures (run_throttles (\<lambda>s. s)
       [(1000, Op_admit ''a'' sample_login), (2000, Op_failure ''a''), (3000, Op_admit ''b'' sample_login)]
       empty_throttle) (account_key (\<lambda>s. s) ''ann@example.com'') (4000 - WINDOW_MS)
   + pending_leases (run_throttles (\<lambda>s. s)
       [(1000, Op_admit ''a'' sample_login), (2000, Op_failure ''a''), (3000, Op_admit ''b'' sample_login)]
       empty_throttle) (account_key (\<lambda>s. s) ''ann@example.com'')
   \<le> ACCOUNT_MAX_FAILURES"
  by (rule account_guesses_are_bounded [OF sample_separate]) simp_all

lemma lock_is_enforced_witness:
  "\<exists>seconds db'. throttle_admit (\<lambda>s. s) ''b'' sample_login 900500
       (run_throttles (\<lambda>s. s) [(2000, Op_admit ''a'' sample_login), (3000, Op_success ''a'')] sample_locked)
     = Inr (Refused seconds, db') \<and> 1 \<le> seconds"
  by (rule lock_is_enforced [OF sample_locked_ok,
        of _ _ "\<lparr>tb_key = sample_bucket, tb_maxFailures = 5\<rparr>"])
    (simp_all add: LOCK_MS_def bucketsFor_def sample_bucket_def account_key_def Let_def
      ACCOUNT_MAX_FAILURES_def)

lemma failure_counts_and_locks_witness:
  "\<exists>r. find_throttle (recordFailure ''a'' 3000 sample_attempting) sample_bucket = Some r \<and>
     tr_failureCount r = counted_failures sample_attempting sample_bucket (3000 - WINDOW_MS) + 1"
  using failure_counts_and_locks [of sample_attempting
      "\<lparr>lr_attemptId = ''a'', lr_key = sample_bucket, lr_maxFailures = 5,
        lr_acquiredAt = 2000, lr_expiresAt = 62000\<rparr>" "''a''" sample_bucket 3000]
  by (auto simp: sample_attempting_def throttle_ok_def)

end
