(* ===== verification/Push_Payload.thy ===== *)
theory Push_Payload
  imports Outbound_Snapshot
begin

text \<open>
  \<^verbatim>\<open>workers/lib/push/types.ts\<close> and \<^verbatim>\<open>workers/lib/push/classify.ts\<close>: the check every stored push
  payload must pass before it is enqueued and again before it is sent, and what a push service's
  status code means. On characters below 256 Unicode normalisation changes nothing.
\<close>

definition char_in :: "nat \<Rightarrow> nat \<Rightarrow> char \<Rightarrow> bool" where
  "char_in lo hi c \<longleftrightarrow> lo \<le> of_char c \<and> of_char c \<le> hi"

definition alnum :: "char \<Rightarrow> bool" where
  "alnum c \<longleftrightarrow> char_in 48 57 c \<or> char_in 65 90 c \<or> char_in 97 122 c"

definition unsafe_push_char :: "char \<Rightarrow> bool" where
  "unsafe_push_char c \<longleftrightarrow> char_in 0 31 c \<or> char_in 127 159 c"

definition safeText :: "nat \<Rightarrow> nat \<Rightarrow> json \<Rightarrow> string option" where
  "safeText minimum maximum value =
     (case value of
        JStr s \<Rightarrow> if minimum \<le> length s \<and> length s \<le> maximum \<and> js_trim s = s \<and>
                     \<not> list_ex unsafe_push_char s then Some s else None
      | _ \<Rightarrow> None)"

definition asset_char :: "char \<Rightarrow> bool" where
  "asset_char c \<longleftrightarrow> alnum c \<or> c \<in> set ''._/-''"

definition safeAssetPath :: "json \<Rightarrow> string option" where
  "safeAssetPath value =
     (case safeText 2 200 value of
        None \<Rightarrow> None
      | Some s \<Rightarrow>
          if hd s = CHR ''/'' \<and> s ! 1 \<noteq> CHR ''/'' \<and> list_all asset_char (tl s) \<and>
             ''..'' \<notin> set (split_on (CHR ''/'') s)
          then Some s else None)"

subsection \<open>URL components and JSON texts\<close>

definition hex_digit :: "nat \<Rightarrow> char" where
  "hex_digit n = ''0123456789ABCDEF'' ! n"

definition percent :: "nat \<Rightarrow> string" where
  "percent n = [CHR ''%'', hex_digit (n div 16), hex_digit (n mod 16)]"

definition encodeURIComponent :: "string \<Rightarrow> string" where
  "encodeURIComponent s = concat (map (\<lambda>c.
     (let n = (of_char c :: nat)
      in if alnum c \<or> c \<in> set ''-_.!~*()'' \<or> n = 39 then [c]
         else if n < 128 then percent n
         else percent (192 + n div 64) @ percent (128 + n mod 64))) s)"

definition lower_hex_digit :: "nat \<Rightarrow> char" where
  "lower_hex_digit n = ''0123456789abcdef'' ! n"

definition json_char :: "char \<Rightarrow> string" where
  "json_char c =
     (let n = (of_char c :: nat)
      in if n = 34 \<or> n = 92 then [char_of (92 :: nat), c]
         else if n = 8 then [char_of (92 :: nat), CHR ''b'']
         else if n = 9 then [char_of (92 :: nat), CHR ''t'']
         else if n = 10 then [char_of (92 :: nat), CHR ''n'']
         else if n = 12 then [char_of (92 :: nat), CHR ''f'']
         else if n = 13 then [char_of (92 :: nat), CHR ''r'']
         else if n < 32 then [char_of (92 :: nat)] @ ''u00'' @ [lower_hex_digit (n div 16), lower_hex_digit (n mod 16)]
         else [c])"

definition json_string :: "string \<Rightarrow> string" where
  "json_string s = [char_of (34 :: nat)] @ concat (map json_char s) @ [char_of (34 :: nat)]"

definition joined :: "string list \<Rightarrow> string" where
  "joined xs = (case xs of [] \<Rightarrow> [] | y # ys \<Rightarrow> y @ concat (map (\<lambda>x. CHR '','' # x) ys))"

text \<open>The text of a value without numbers, which no valid payload has.\<close>

fun json_text :: "json \<Rightarrow> string" where
  "json_text JNull = ''null''"
| "json_text (JBool b) = (if b then ''true'' else ''false'')"
| "json_text (JNum n) = (case n of JInt k \<Rightarrow> int_text k | JOther \<Rightarrow> ''null'')"
| "json_text (JStr s) = json_string s"
| "json_text (JArr js) = [CHR ''['' ] @ joined (map json_text js) @ [CHR '']'']"
| "json_text (JObj fs) =
     [CHR ''{''] @ joined (map (\<lambda>(k, j). json_string k @ CHR '':'' # json_text j) fs) @ [CHR ''}'']"

definition utf8_length :: "string \<Rightarrow> nat" where
  "utf8_length s = sum_list (map (\<lambda>c. if (of_char c :: nat) < 128 then 1 else 2) s)"

subsection \<open>The payload check\<close>

definition PUSH_PAYLOAD_KEYS :: "string list" where
  "PUSH_PAYLOAD_KEYS = [''title'', ''body'', ''icon'', ''badge'', ''clickUrl'', ''data'']"

fun object_keys :: "json \<Rightarrow> string list option" where
  "object_keys (JObj fs) = Some (map fst fs)"
| "object_keys _ = None"

definition same_keys :: "string list \<Rightarrow> string list \<Rightarrow> bool" where
  "same_keys xs ys \<longleftrightarrow> joined (sort xs) = joined (sort ys)"

definition expected_click :: "string \<Rightarrow> string \<Rightarrow> string" where
  "expected_click mailboxId emailId =
     ''/mailbox/'' @ encodeURIComponent mailboxId @ ''/open/'' @ encodeURIComponent emailId"

definition validateStoredPushPayload :: "json \<Rightarrow> string \<Rightarrow> string \<Rightarrow> bool" where
  "validateStoredPushPayload payload emailId rawMailboxId \<longleftrightarrow>
     (let mailboxId = js_lower (js_trim rawMailboxId) in
      case (object_keys payload, jget ''data'' payload) of
        (Some keys, Some data) \<Rightarrow>
          (case object_keys data of
             None \<Rightarrow> False
           | Some data_keys \<Rightarrow>
               same_keys keys PUSH_PAYLOAD_KEYS \<and>
               joined (sort data_keys) = ''emailId,mailboxId'' \<and>
               jget ''emailId'' data = Some (JStr emailId) \<and>
               jget ''mailboxId'' data = Some (JStr mailboxId) \<and>
               Option.bind (jget ''title'' payload) (safeText 1 120) \<noteq> None \<and>
               Option.bind (jget ''body'' payload) (safeText 1 400) \<noteq> None \<and>
               Option.bind (jget ''icon'' payload) safeAssetPath \<noteq> None \<and>
               Option.bind (jget ''badge'' payload) safeAssetPath \<noteq> None \<and>
               jget ''clickUrl'' payload = Some (JStr (expected_click mailboxId emailId)) \<and>
               utf8_length (json_text payload) \<le> 3993)
      | _ \<Rightarrow> False)"

subsection \<open>What a status code means\<close>

datatype push_failure_reason =
  PERMISSION_REVOKED | CONFIG_ERROR | PAYLOAD_TOO_LARGE | RATE_LIMITED | SERVICE_UNAVAILABLE | SEND_FAILED

definition classifyPushStatus :: "int option \<Rightarrow> push_failure_reason \<times> bool" where
  "classifyPushStatus statusCode =
     (if statusCode = Some 404 \<or> statusCode = Some 410 then (PERMISSION_REVOKED, True)
      else if statusCode = Some 401 \<or> statusCode = Some 403 then (CONFIG_ERROR, False)
      else if statusCode = Some 413 then (PAYLOAD_TOO_LARGE, False)
      else if statusCode = Some 429 then (RATE_LIMITED, False)
      else case statusCode of
        Some s \<Rightarrow> if 500 \<le> s \<and> s \<le> 599 then (SERVICE_UNAVAILABLE, False) else (SEND_FAILED, False)
      | None \<Rightarrow> (SEND_FAILED, False))"

text \<open>A payload that passes names exactly the message and mailbox it was stored for.\<close>

lemma valid_payload_target:
  assumes "validateStoredPushPayload payload emailId mailboxId"
  shows "\<exists>data. jget ''data'' payload = Some data \<and> jget ''emailId'' data = Some (JStr emailId) \<and>
     jget ''mailboxId'' data = Some (JStr (js_lower (js_trim mailboxId))) \<and>
     jget ''clickUrl'' payload = Some (JStr (expected_click (js_lower (js_trim mailboxId)) emailId))"
  using assms
  by (auto simp: validateStoredPushPayload_def Let_def split: option.splits)

end
