(* ===== verification/Push_Outbox.thy ===== *)
theory Push_Outbox
  imports Push_Payload "HOL-Library.List_Lexorder" "HOL-Library.Char_ord" "HOL-Library.Product_Lexorder"
begin

text \<open>
  The tables of the durable push outbox and the statements \<^verbatim>\<open>workers/lib/push/outbox.ts\<close> runs on
  them: enqueueing, recovery of lost leases, expiry, pruning, claiming, and the ways a claim is given
  back. Every instant the outbox compares was written by it in the fixed-width UTC format, whose
  textual order is the order of the instants.
\<close>

subsection \<open>Limits\<close>

definition expiryMs :: int where "expiryMs = 5 * 60000"
definition retentionMs :: int where "retentionMs = 7 * 24 * 60 * 60000"
definition leaseMs :: int where "leaseMs = 30000"
definition batchSize :: nat where "batchSize = 10"
definition batchWallMs :: int where "batchWallMs = 20000"
definition sendBudgetMs :: int where "sendBudgetMs = 8000"
definition finalizationBudgetMs :: int where "finalizationBudgetMs = 500"
definition maxAttempts :: int where "maxAttempts = 4"
definition pruneLimit :: nat where "pruneLimit = 100"
definition retryMs :: "int list" where "retryMs = [10000, 30000, 120000]"

subsection \<open>Tables\<close>

datatype push_status = Push_pending | Push_sending | Push_retrying | Push_accepted | Push_terminal

datatype push_state = Note_pending | Note_completed | Note_no_targets | Note_expired

datatype push_reason =
  Temporary_issue | Permission_revoked | Payload_defect | Configuration_issue
| Authorization_revoked | Subscription_removed | Service_unavailable | Attempts_exhausted | Reason_expired

record push_notification =
  pn_id :: string
  pn_email_id :: string
  pn_mailbox_id :: string
  pn_payload_json :: raw_text
  pn_state :: push_state
  pn_target_count :: int
  pn_created_at :: instant
  pn_expires_at :: instant
  pn_completed_at :: "instant option"

record push_delivery =
  pd_notification_id :: string
  pd_subscription_id :: string
  pd_target_user_id :: string
  pd_status :: push_status
  pd_attempt_count :: int
  pd_next_attempt_at :: instant
  pd_lease_token :: "string option"
  pd_lease_expires_at :: "instant option"
  pd_attempted_generation :: "int option"
  pd_last_reason :: "push_reason option"
  pd_last_http_status :: "int option"
  pd_created_at :: instant
  pd_updated_at :: instant
  pd_accepted_at :: "instant option"
  pd_terminal_at :: "instant option"

record push_subscription =
  ps_id :: string
  ps_user_id :: "string option"
  ps_endpoint :: string
  ps_p256dh :: string
  ps_auth :: string
  ps_user_agent :: "string option"
  ps_device_label :: "string option"
  ps_created_at :: instant
  ps_last_seen_at :: instant
  ps_generation :: int
  ps_last_attempt_at :: "instant option"
  ps_last_accepted_at :: "instant option"
  ps_last_failure_at :: "instant option"
  ps_last_failure_reason :: "push_reason option"
  ps_failures :: int

record push_db =
  pb_notifications :: "push_notification list"
  pb_deliveries :: "push_delivery list"
  pb_subscriptions :: "push_subscription list"

definition waiting :: "push_status \<Rightarrow> bool" where
  "waiting s \<longleftrightarrow> s = Push_pending \<or> s = Push_retrying"

definition active :: "push_status \<Rightarrow> bool" where
  "active s \<longleftrightarrow> s = Push_pending \<or> s = Push_retrying \<or> s = Push_sending"

definition delivery_key :: "push_delivery \<Rightarrow> string \<times> string" where
  "delivery_key d = (pd_notification_id d, pd_subscription_id d)"

definition has_active :: "push_db \<Rightarrow> string \<Rightarrow> bool" where
  "has_active db notificationId \<longleftrightarrow>
     list_ex (\<lambda>d. pd_notification_id d = notificationId \<and> active (pd_status d)) (pb_deliveries db)"

subsection \<open>Enqueueing\<close>

datatype push_error = Invalid_payload | Invalid_timestamp | Push_constraint

definition fresh_delivery :: "string \<Rightarrow> instant \<Rightarrow> push_subscription \<Rightarrow> push_delivery" where
  "fresh_delivery notificationId now s =
     \<lparr>pd_notification_id = notificationId, pd_subscription_id = ps_id s,
      pd_target_user_id = the (ps_user_id s), pd_status = Push_pending, pd_attempt_count = 0,
      pd_next_attempt_at = now, pd_lease_token = None, pd_lease_expires_at = None,
      pd_attempted_generation = None, pd_last_reason = None, pd_last_http_status = None,
      pd_created_at = now, pd_updated_at = now, pd_accepted_at = None, pd_terminal_at = None\<rparr>"

definition fresh_deliveries :: "string \<Rightarrow> instant \<Rightarrow> push_db \<Rightarrow> push_delivery list" where
  "fresh_deliveries notificationId now db =
     map (fresh_delivery notificationId now) (filter (\<lambda>s. ps_user_id s \<noteq> None) (pb_subscriptions db))"

definition notification_of :: "string \<Rightarrow> string \<Rightarrow> json \<Rightarrow> instant \<Rightarrow> int \<Rightarrow> push_notification" where
  "notification_of emailId mailboxId payload now targetCount =
     \<lparr>pn_id = ''push:'' @ emailId, pn_email_id = emailId, pn_mailbox_id = js_lower (js_trim mailboxId),
      pn_payload_json = Json_text payload,
      pn_state = (if targetCount = 0 then Note_no_targets else Note_pending),
      pn_target_count = targetCount, pn_created_at = now, pn_expires_at = now + expiryMs,
      pn_completed_at = (if targetCount = 0 then Some now else None)\<rparr>"

text \<open>
  The insertions and the count run inside the transaction that stores the message, so the notification
  is seen with its final state only. A violated key undoes that transaction.
\<close>

definition enqueuePushNotification ::
  "string \<Rightarrow> string \<Rightarrow> json \<Rightarrow> stamp \<Rightarrow> push_db \<Rightarrow> push_error + ((string \<times> int) \<times> push_db)" where
  "enqueuePushNotification emailId mailboxId payload now db =
     (if \<not> validateStoredPushPayload payload emailId mailboxId then Inl Invalid_payload
      else case stamp_instant now of
        None \<Rightarrow> Inl Invalid_timestamp
      | Some nowMs \<Rightarrow>
          (let notificationId = ''push:'' @ emailId;
               fresh = fresh_deliveries notificationId nowMs db
           in if list_ex (\<lambda>n. pn_id n = notificationId \<or> pn_email_id n = emailId) (pb_notifications db) \<or>
                 \<not> distinct (map delivery_key (pb_deliveries db @ fresh))
              then Inl Push_constraint
              else
                (let deliveries = pb_deliveries db @ fresh;
                     targetCount = int (count_where (\<lambda>d. pd_notification_id d = notificationId) deliveries)
                 in Inr ((notificationId, targetCount),
                      db\<lparr>pb_notifications := pb_notifications db @
                            [notification_of emailId mailboxId payload nowMs targetCount],
                          pb_deliveries := deliveries\<rparr>))))"

subsection \<open>Recovery, expiry and pruning\<close>

text \<open>What a failed delivery leaves on the device it was for.\<close>

definition device_failed :: "instant \<Rightarrow> push_reason \<Rightarrow> push_subscription \<Rightarrow> push_subscription" where
  "device_failed now reason s = s
     \<lparr>ps_last_attempt_at := Some now, ps_last_failure_at := Some now,
      ps_last_failure_reason := Some reason, ps_failures := ps_failures s + 1\<rparr>"

definition end_delivery :: "instant \<Rightarrow> push_reason \<Rightarrow> push_delivery \<Rightarrow> push_delivery" where
  "end_delivery now reason d = d
     \<lparr>pd_status := Push_terminal, pd_terminal_at := Some now, pd_updated_at := now,
      pd_lease_token := None, pd_lease_expires_at := None, pd_last_reason := Some reason\<rparr>"

definition delivery_for :: "push_delivery \<Rightarrow> push_subscription \<Rightarrow> bool" where
  "delivery_for d s \<longleftrightarrow> pd_subscription_id d = ps_id s \<and> Some (pd_target_user_id d) = ps_user_id s"

definition finish_note :: "push_state \<Rightarrow> instant \<Rightarrow> push_notification \<Rightarrow> push_notification" where
  "finish_note state now n = n
     \<lparr>pn_state := state,
      pn_completed_at := (case pn_completed_at n of None \<Rightarrow> Some now | Some t \<Rightarrow> Some t)\<rparr>"

definition note_expired :: "push_db \<Rightarrow> instant \<Rightarrow> string \<Rightarrow> bool" where
  "note_expired db now notificationId \<longleftrightarrow>
     list_ex (\<lambda>n. pn_id n = notificationId \<and> pn_expires_at n \<le> now) (pb_notifications db)"

definition mark_expired_devices :: "instant \<Rightarrow> push_db \<Rightarrow> push_db" where
  "mark_expired_devices now db = db\<lparr>pb_subscriptions := update_where
     (\<lambda>s. list_ex (\<lambda>d. delivery_for d s \<and> active (pd_status d) \<and>
                       note_expired db now (pd_notification_id d)) (pb_deliveries db))
     (device_failed now Reason_expired) (pb_subscriptions db)\<rparr>"

definition lease_lost :: "instant \<Rightarrow> push_delivery \<Rightarrow> bool" where
  "lease_lost now d \<longleftrightarrow> pd_status d = Push_sending \<and>
     (case pd_lease_expires_at d of None \<Rightarrow> False | Some t \<Rightarrow> t \<le> now)"

definition end_exhausted_leases :: "instant \<Rightarrow> push_db \<Rightarrow> push_db" where
  "end_exhausted_leases now db = db\<lparr>pb_deliveries := update_where
     (\<lambda>d. lease_lost now d \<and> pd_attempt_count d \<ge> maxAttempts)
     (end_delivery now Attempts_exhausted) (pb_deliveries db)\<rparr>"

definition retry_lost_leases :: "instant \<Rightarrow> push_db \<Rightarrow> push_db" where
  "retry_lost_leases now db = db\<lparr>pb_deliveries := update_where
     (\<lambda>d. lease_lost now d \<and> pd_attempt_count d < maxAttempts)
     (\<lambda>d. d\<lparr>pd_status := Push_retrying, pd_next_attempt_at := now, pd_lease_token := None,
            pd_lease_expires_at := None, pd_last_reason := Some Temporary_issue,
            pd_updated_at := now\<rparr>) (pb_deliveries db)\<rparr>"

definition end_expired_deliveries :: "instant \<Rightarrow> push_db \<Rightarrow> push_db" where
  "end_expired_deliveries now db = db\<lparr>pb_deliveries := update_where
     (\<lambda>d. active (pd_status d) \<and> note_expired db now (pd_notification_id d))
     (end_delivery now Reason_expired) (pb_deliveries db)\<rparr>"

definition expire_notes :: "instant \<Rightarrow> push_db \<Rightarrow> push_db" where
  "expire_notes now db = db\<lparr>pb_notifications := update_where
     (\<lambda>n. pn_state n = Note_pending \<and> pn_expires_at n \<le> now)
     (finish_note Note_expired now) (pb_notifications db)\<rparr>"

definition complete_notes :: "instant \<Rightarrow> push_db \<Rightarrow> push_db" where
  "complete_notes now db = db\<lparr>pb_notifications := update_where
     (\<lambda>n. pn_state n = Note_pending \<and> \<not> has_active db (pn_id n))
     (finish_note Note_completed now) (pb_notifications db)\<rparr>"

definition recoverAndExpire :: "instant \<Rightarrow> push_db \<Rightarrow> push_db" where
  "recoverAndExpire now db =
     complete_notes now (expire_notes now (end_expired_deliveries now
       (retry_lost_leases now (end_exhausted_leases now (mark_expired_devices now db)))))"

definition finished_at :: "push_notification \<Rightarrow> instant" where
  "finished_at n = (case pn_completed_at n of None \<Rightarrow> pn_created_at n | Some t \<Rightarrow> t)"

definition prunable :: "instant \<Rightarrow> push_notification \<Rightarrow> bool" where
  "prunable before n \<longleftrightarrow> pn_state n \<noteq> Note_pending \<and> finished_at n \<le> before"

text \<open>Deleting a notification deletes its deliveries with it.\<close>

definition prune :: "instant \<Rightarrow> push_db \<Rightarrow> push_db" where
  "prune before db =
     (let doomed = set (map pn_id (take pruneLimit
            (sort_key (\<lambda>n. (finished_at n, pn_id n)) (filter (prunable before) (pb_notifications db)))))
      in db\<lparr>pb_notifications := filter (\<lambda>n. pn_id n \<notin> doomed) (pb_notifications db),
            pb_deliveries := filter (\<lambda>d. pd_notification_id d \<notin> doomed) (pb_deliveries db)\<rparr>)"

text \<open>
  What the deletion of a message does to these tables: its notification references it with
  \<^verbatim>\<open>ON DELETE CASCADE\<close>, and so do the deliveries their notification.
\<close>

definition forgetEmail :: "string \<Rightarrow> push_db \<Rightarrow> push_db" where
  "forgetEmail emailId db =
     (let doomed = set (map pn_id (filter (\<lambda>n. pn_email_id n = emailId) (pb_notifications db)))
      in db\<lparr>pb_notifications := filter (\<lambda>n. pn_id n \<notin> doomed) (pb_notifications db),
            pb_deliveries := filter (\<lambda>d. pd_notification_id d \<notin> doomed) (pb_deliveries db)\<rparr>)"

subsection \<open>Claiming\<close>

record push_claim =
  pc_notification_id :: string
  pc_subscription_id :: string
  pc_target_user_id :: string
  pc_attempt_count :: int
  pc_payload_json :: raw_text
  pc_expires_at :: instant
  pc_email_id :: string
  pc_mailbox_id :: string
  pc_lease_expires_at :: instant

definition claim_key :: "push_claim \<Rightarrow> string \<times> string" where
  "claim_key row = (pc_notification_id row, pc_subscription_id row)"

text \<open>The deliveries joined with their notifications, in the order the query lists them.\<close>

definition due_deliveries :: "instant \<Rightarrow> push_db \<Rightarrow> (push_delivery \<times> push_notification) list" where
  "due_deliveries now db =
     sort_key (\<lambda>(d, n). (pd_next_attempt_at d, pd_notification_id d, pd_subscription_id d))
       (filter (\<lambda>(d, n). pn_id n = pd_notification_id d \<and> waiting (pd_status d) \<and>
                        pd_next_attempt_at d \<le> now \<and> pn_state n = Note_pending \<and> pn_expires_at n > now)
         (List.product (pb_deliveries db) (pb_notifications db)))"

definition claim_row :: "instant \<Rightarrow> push_delivery \<times> push_notification \<Rightarrow> push_claim" where
  "claim_row now dn =
     (let (d, n) = dn
      in \<lparr>pc_notification_id = pd_notification_id d, pc_subscription_id = pd_subscription_id d,
          pc_target_user_id = pd_target_user_id d, pc_attempt_count = pd_attempt_count d + 1,
          pc_payload_json = pn_payload_json n, pc_expires_at = pn_expires_at n,
          pc_email_id = pn_email_id n, pc_mailbox_id = pn_mailbox_id n,
          pc_lease_expires_at = now + leaseMs\<rparr>)"

definition lease_push :: "string \<Rightarrow> instant \<Rightarrow> push_claim \<Rightarrow> push_db \<Rightarrow> push_db" where
  "lease_push token now row db = db\<lparr>pb_deliveries := update_where
     (\<lambda>d. delivery_key d = claim_key row \<and> waiting (pd_status d))
     (\<lambda>d. d\<lparr>pd_status := Push_sending, pd_attempt_count := pd_attempt_count d + 1,
            pd_lease_token := Some token, pd_lease_expires_at := Some (pc_lease_expires_at row),
            pd_updated_at := now\<rparr>) (pb_deliveries db)\<rparr>"

definition claimNext :: "instant \<Rightarrow> string \<Rightarrow> push_db \<Rightarrow> push_claim option \<times> push_db" where
  "claimNext now token db =
     (case due_deliveries now db of
        [] \<Rightarrow> (None, db)
      | dn # _ \<Rightarrow> (let row = claim_row now dn in (Some row, lease_push token now row db)))"

subsection \<open>Who a delivery is for\<close>

record subscription_identity =
  si_id :: string
  si_userId :: string
  si_generation :: int

record subscription_capability = subscription_identity +
  sc_endpoint :: string
  sc_p256dh :: string
  sc_auth :: string

definition identity :: "push_db \<Rightarrow> string \<Rightarrow> subscription_identity option" where
  "identity db subscriptionId =
     map_option (\<lambda>s. \<lparr>si_id = ps_id s, si_userId = the (ps_user_id s), si_generation = ps_generation s\<rparr>)
       (find (\<lambda>s. ps_id s = subscriptionId \<and> ps_user_id s \<noteq> None) (pb_subscriptions db))"

definition capability :: "push_db \<Rightarrow> string \<Rightarrow> string \<Rightarrow> subscription_capability option" where
  "capability db subscriptionId targetUserId =
     map_option (\<lambda>s. \<lparr>si_id = ps_id s, si_userId = the (ps_user_id s), si_generation = ps_generation s,
                      sc_endpoint = ps_endpoint s, sc_p256dh = ps_p256dh s, sc_auth = ps_auth s\<rparr>)
       (find (\<lambda>s. ps_id s = subscriptionId \<and> ps_user_id s = Some targetUserId) (pb_subscriptions db))"

definition same_binding :: "subscription_identity \<Rightarrow> push_subscription \<Rightarrow> bool" where
  "same_binding i s \<longleftrightarrow>
     ps_id s = si_id i \<and> ps_user_id s = Some (si_userId i) \<and> ps_generation s = si_generation i"

definition same_capability :: "subscription_capability \<Rightarrow> push_subscription \<Rightarrow> bool" where
  "same_capability c s \<longleftrightarrow>
     ps_id s = si_id c \<and> ps_user_id s = Some (si_userId c) \<and> ps_generation s = si_generation c \<and>
     ps_endpoint s = sc_endpoint c \<and> ps_p256dh s = sc_p256dh c \<and> ps_auth s = sc_auth c"

subsection \<open>Giving a claim back\<close>

definition held_by :: "push_claim \<Rightarrow> string \<Rightarrow> push_delivery \<Rightarrow> bool" where
  "held_by row token d \<longleftrightarrow>
     delivery_key d = claim_key row \<and> pd_status d = Push_sending \<and> pd_lease_token d = Some token"

definition ownsLease :: "push_db \<Rightarrow> push_claim \<Rightarrow> string \<Rightarrow> bool" where
  "ownsLease db row token \<longleftrightarrow> list_ex (held_by row token) (pb_deliveries db)"

definition expireNotification :: "string \<Rightarrow> instant \<Rightarrow> push_db \<Rightarrow> push_db" where
  "expireNotification notificationId now db = db
     \<lparr>pb_subscriptions := update_where
        (\<lambda>s. list_ex (\<lambda>d. pd_notification_id d = notificationId \<and> delivery_for d s \<and> active (pd_status d))
               (pb_deliveries db))
        (device_failed now Reason_expired) (pb_subscriptions db),
      pb_deliveries := update_where
        (\<lambda>d. pd_notification_id d = notificationId \<and> active (pd_status d))
        (end_delivery now Reason_expired) (pb_deliveries db),
      pb_notifications := update_where
        (\<lambda>n. pn_id n = notificationId \<and> pn_state n = Note_pending)
        (finish_note Note_expired now) (pb_notifications db)\<rparr>"

definition completeNotification :: "string \<Rightarrow> instant \<Rightarrow> push_db \<Rightarrow> push_db" where
  "completeNotification notificationId now db =
     (if has_active db notificationId then db
      else db\<lparr>pb_notifications := update_where
        (\<lambda>n. pn_id n = notificationId \<and> pn_state n = Note_pending)
        (\<lambda>n. n\<lparr>pn_state := (if pn_expires_at n \<le> now then Note_expired else Note_completed),
               pn_completed_at := Some now\<rparr>) (pb_notifications db)\<rparr>)"

definition deferClaim :: "push_claim \<Rightarrow> string \<Rightarrow> instant \<Rightarrow> push_db \<Rightarrow> push_db" where
  "deferClaim row token now db = db\<lparr>pb_deliveries := update_where (held_by row token)
     (\<lambda>d. d\<lparr>pd_status := Push_pending,
            pd_attempt_count := (if pd_attempt_count d > 0 then pd_attempt_count d - 1 else 0),
            pd_next_attempt_at := now, pd_updated_at := now, pd_lease_token := None,
            pd_lease_expires_at := None\<rparr>) (pb_deliveries db)\<rparr>"

definition terminal ::
  "push_claim \<Rightarrow> string \<Rightarrow> instant \<Rightarrow> push_reason \<Rightarrow> int option \<Rightarrow> push_db \<Rightarrow> push_db" where
  "terminal row token now reason httpStatus db =
     completeNotification (pc_notification_id row) now
       (db\<lparr>pb_deliveries := update_where (held_by row token)
          (\<lambda>d. (end_delivery now reason d)\<lparr>pd_last_http_status := httpStatus\<rparr>) (pb_deliveries db)\<rparr>)"

definition retry_delay :: "push_claim \<Rightarrow> int" where
  "retry_delay row = retryMs ! nat (min (pc_attempt_count row - 1) (int (length retryMs) - 1))"

definition retry :: "push_claim \<Rightarrow> string \<Rightarrow> instant \<Rightarrow> push_reason \<Rightarrow> push_db \<Rightarrow> push_db" where
  "retry row token nowMs reason db =
     (if pc_attempt_count row \<ge> maxAttempts \<or> nowMs \<ge> pc_expires_at row
      then terminal row token nowMs
             (if pc_attempt_count row \<ge> maxAttempts then Attempts_exhausted else Reason_expired) None db
      else db\<lparr>pb_deliveries := update_where (held_by row token)
        (\<lambda>d. d\<lparr>pd_status := Push_retrying,
               pd_next_attempt_at := min (nowMs + retry_delay row) (pc_expires_at row),
               pd_updated_at := nowMs, pd_last_reason := Some reason, pd_lease_token := None,
               pd_lease_expires_at := None\<rparr>) (pb_deliveries db)\<rparr>)"

definition accept :: "push_claim \<Rightarrow> string \<Rightarrow> instant \<Rightarrow> push_db \<Rightarrow> push_db" where
  "accept row token now db = db\<lparr>pb_deliveries := update_where (held_by row token)
     (\<lambda>d. d\<lparr>pd_status := Push_accepted, pd_accepted_at := Some now, pd_updated_at := now,
            pd_last_reason := None, pd_last_http_status := None, pd_lease_token := None,
            pd_lease_expires_at := None\<rparr>) (pb_deliveries db)\<rparr>"

definition mark_generation :: "push_claim \<Rightarrow> string \<Rightarrow> int \<Rightarrow> push_db \<Rightarrow> push_db" where
  "mark_generation row token generation db = db\<lparr>pb_deliveries := update_where
     (\<lambda>d. delivery_key d = claim_key row \<and> pd_lease_token d = Some token)
     (\<lambda>d. d\<lparr>pd_attempted_generation := Some generation\<rparr>) (pb_deliveries db)\<rparr>"

subsection \<open>What an answer does to the device\<close>

definition updateDeviceFailure ::
  "subscription_capability \<Rightarrow> instant \<Rightarrow> push_reason \<Rightarrow> push_db \<Rightarrow> push_db" where
  "updateDeviceFailure c now reason db =
     db\<lparr>pb_subscriptions := update_where (same_capability c) (device_failed now reason) (pb_subscriptions db)\<rparr>"

definition updateDeviceFailureByIdentity ::
  "subscription_identity \<Rightarrow> instant \<Rightarrow> push_reason \<Rightarrow> push_db \<Rightarrow> push_db" where
  "updateDeviceFailureByIdentity i now reason db =
     db\<lparr>pb_subscriptions := update_where (same_binding i) (device_failed now reason) (pb_subscriptions db)\<rparr>"

definition device_accepted :: "subscription_capability \<Rightarrow> instant \<Rightarrow> push_db \<Rightarrow> push_db" where
  "device_accepted c now db = db\<lparr>pb_subscriptions := update_where (same_capability c)
     (\<lambda>s. s\<lparr>ps_last_attempt_at := Some now, ps_last_accepted_at := Some now, ps_last_failure_at := None,
            ps_last_failure_reason := None, ps_failures := 0\<rparr>) (pb_subscriptions db)\<rparr>"

definition drop_binding :: "subscription_identity \<Rightarrow> push_db \<Rightarrow> push_db" where
  "drop_binding i db = db\<lparr>pb_subscriptions := filter (\<lambda>s. \<not> same_binding i s) (pb_subscriptions db)\<rparr>"

definition drop_capability :: "subscription_capability \<Rightarrow> push_db \<Rightarrow> push_db" where
  "drop_capability c db = db\<lparr>pb_subscriptions := filter (\<lambda>s. \<not> same_capability c s) (pb_subscriptions db)\<rparr>"

subsection \<open>Registering and removing devices\<close>

record subscription_input =
  in_userId :: string
  in_endpoint :: string
  in_p256dh :: string
  in_auth :: string
  in_userAgent :: "string option"
  in_deviceLabel :: string

definition new_subscription :: "string \<Rightarrow> subscription_input \<Rightarrow> instant \<Rightarrow> push_subscription" where
  "new_subscription i input seen =
     \<lparr>ps_id = i, ps_user_id = Some (in_userId input), ps_endpoint = in_endpoint input,
      ps_p256dh = in_p256dh input, ps_auth = in_auth input, ps_user_agent = in_userAgent input,
      ps_device_label = Some (in_deviceLabel input), ps_created_at = seen, ps_last_seen_at = seen,
      ps_generation = 1, ps_last_attempt_at = None, ps_last_accepted_at = None,
      ps_last_failure_at = None, ps_last_failure_reason = None, ps_failures = 0\<rparr>"

text \<open>The label and user agent of a device seen again stay as they were first stored.\<close>

definition rebind :: "subscription_input \<Rightarrow> instant \<Rightarrow> push_subscription \<Rightarrow> push_subscription" where
  "rebind input seen s =
     (let changed = (ps_user_id s \<noteq> Some (in_userId input) \<or> ps_p256dh s \<noteq> in_p256dh input \<or>
                     ps_auth s \<noteq> in_auth input)
      in s\<lparr>ps_user_id := Some (in_userId input), ps_p256dh := in_p256dh input, ps_auth := in_auth input,
           ps_generation := ps_generation s + 1,
           ps_last_attempt_at := (if changed then None else ps_last_attempt_at s),
           ps_last_accepted_at := (if changed then None else ps_last_accepted_at s),
           ps_last_failure_at := (if changed then None else ps_last_failure_at s),
           ps_last_failure_reason := (if changed then None else ps_last_failure_reason s),
           ps_failures := (if changed then 0 else ps_failures s), ps_last_seen_at := seen\<rparr>)"

definition upsertPushSubscription :: "string \<Rightarrow> subscription_input \<Rightarrow> instant \<Rightarrow> push_db \<Rightarrow> push_error + push_db" where
  "upsertPushSubscription i input seen db =
     (if list_ex (\<lambda>s. ps_endpoint s = in_endpoint input) (pb_subscriptions db)
      then Inr (db\<lparr>pb_subscriptions := update_where (\<lambda>s. ps_endpoint s = in_endpoint input)
                    (rebind input seen) (pb_subscriptions db)\<rparr>)
      else if list_ex (\<lambda>s. ps_id s = i) (pb_subscriptions db) then Inl Push_constraint
      else Inr (db\<lparr>pb_subscriptions := pb_subscriptions db @ [new_subscription i input seen]\<rparr>))"

definition deletePushSubscription ::
  "string \<Rightarrow> string \<Rightarrow> int option \<Rightarrow> push_db \<Rightarrow> bool \<times> push_db" where
  "deletePushSubscription i userId expectedGeneration db =
     (let hit = (\<lambda>s. ps_id s = i \<and> ps_user_id s = Some userId \<and>
                     (case expectedGeneration of None \<Rightarrow> True | Some g \<Rightarrow> ps_generation s = g))
      in if list_ex hit (pb_subscriptions db)
         then (True, db\<lparr>pb_subscriptions := filter (\<lambda>s. \<not> hit s) (pb_subscriptions db)\<rparr>)
         else (False, db))"

definition removePushSubscriptionsForUser :: "string \<Rightarrow> push_db \<Rightarrow> push_db" where
  "removePushSubscriptionsForUser userId db =
     db\<lparr>pb_subscriptions := filter (\<lambda>s. ps_user_id s \<noteq> Some userId) (pb_subscriptions db)\<rparr>"

end
