(* ===== verification/Push_Worker.thy ===== *)
theory Push_Worker
  imports Push_Outbox
begin

text \<open>
  \<^verbatim>\<open>processPushOutbox\<close> of \<^verbatim>\<open>workers/lib/push/outbox.ts\<close>: one alarm's work on the push outbox, and the
  health report of a user's devices. Whatever the outside does during a batch is data: the clock
  readings, in the order the code takes them, the answers of the alarm, the access check and the push
  service, and what other events of the Durable Object do to the tables while an answer is awaited.
\<close>

subsection \<open>The outside\<close>

datatype send_result = Send_ok | Send_failed push_failure_reason bool "int option"

text \<open>What ends the wait for the push service: its answer, an exception, or the deadline.\<close>

datatype send_race = Send_answered send_result | Send_rejected | Send_timed_out

record push_deps =
  pw_vapidConfigured :: bool
  pw_scheduleAlarm :: bool

record push_env =
  pi_guard :: instant
  pi_now :: instant
  pi_token :: string
  pi_boundary :: instant
  pi_alarm_from :: instant
  pi_alarm :: bool
  pi_alarm_failed :: instant
  pi_access_from :: instant
  pi_access :: "string \<Rightarrow> string \<Rightarrow> bool option"
  pi_access_failed :: instant
  pi_denied :: instant
  pi_missing :: instant
  pi_before_send :: instant
  pi_send_from :: instant
  pi_send :: send_race
  pi_rebound :: instant
  pi_finished :: instant
  pi_retry :: instant
  pi_during_alarm :: "push_db \<Rightarrow> push_db"
  pi_during_access :: "push_db \<Rightarrow> push_db"
  pi_during_send :: "push_db \<Rightarrow> push_db"

text \<open>A request made to a push service, with the claim it was made for.\<close>

record push_send =
  se_claim :: push_claim
  se_capability :: subscription_capability
  se_payload :: json
  se_deadline :: instant

datatype control = Batch_continue | Batch_break

type_synonym push_outcome = "control \<times> push_send list \<times> push_db"

subsection \<open>Deadlines\<close>

definition batchSendDeadline :: "instant \<Rightarrow> instant" where
  "batchSendDeadline startedAt = startedAt + batchWallMs - finalizationBudgetMs"

definition expirySendDeadline :: "push_claim \<Rightarrow> instant" where
  "expirySendDeadline row = pc_expires_at row - finalizationBudgetMs"

definition latestBatchSendStart :: "instant \<Rightarrow> instant" where
  "latestBatchSendStart startedAt = batchSendDeadline startedAt - sendBudgetMs"

definition latestExpirySendStart :: "push_claim \<Rightarrow> instant" where
  "latestExpirySendStart row = expirySendDeadline row - sendBudgetMs"

definition latestSendStart :: "instant \<Rightarrow> push_claim \<Rightarrow> instant" where
  "latestSendStart startedAt row = min (latestBatchSendStart startedAt) (latestExpirySendStart row)"

definition sendDeadline :: "instant \<Rightarrow> push_claim \<Rightarrow> instant" where
  "sendDeadline startedAt row = min (batchSendDeadline startedAt) (expirySendDeadline row)"

datatype boundary = Boundary_batch | Boundary_expired

definition releaseAtBoundary ::
  "instant \<Rightarrow> push_claim \<Rightarrow> string \<Rightarrow> instant \<Rightarrow> push_db \<Rightarrow> boundary option \<times> push_db" where
  "releaseAtBoundary startedAt row token boundaryMs db =
     (if boundaryMs \<ge> latestExpirySendStart row
      then (Some Boundary_expired, expireNotification (pc_notification_id row) boundaryMs db)
      else if boundaryMs \<ge> latestBatchSendStart startedAt
      then (Some Boundary_batch, deferClaim row token boundaryMs db)
      else (None, db))"

text \<open>The three lines that follow every use of it.\<close>

definition unless_boundary ::
  "instant \<Rightarrow> push_claim \<Rightarrow> string \<Rightarrow> instant \<Rightarrow> (push_db \<Rightarrow> push_outcome) \<Rightarrow> push_db \<Rightarrow> push_outcome" where
  "unless_boundary startedAt row token boundaryMs continue db =
     (case releaseAtBoundary startedAt row token boundaryMs db of
        (Some Boundary_batch, db') \<Rightarrow> (Batch_break, [], db')
      | (Some Boundary_expired, db') \<Rightarrow> (Batch_continue, [], db')
      | (None, db') \<Rightarrow> continue db')"

subsection \<open>After the push service answered\<close>

definition settle_response ::
  "push_claim \<Rightarrow> string \<Rightarrow> subscription_capability \<Rightarrow> send_result \<Rightarrow> instant \<Rightarrow> instant \<Rightarrow> push_db \<Rightarrow> push_db" where
  "settle_response row token c result finishedAt retryAt db =
     (case result of
        Send_ok \<Rightarrow>
          completeNotification (pc_notification_id row) finishedAt
            (device_accepted c finishedAt (accept row token finishedAt db))
      | Send_failed _ _ status \<Rightarrow>
          if status = Some 404 \<or> status = Some 410
          then drop_capability c (terminal row token finishedAt Permission_revoked status db)
          else if status = Some 413
          then updateDeviceFailure c finishedAt Payload_defect
                 (terminal row token finishedAt Payload_defect status db)
          else if (case status of None \<Rightarrow> False | Some s \<Rightarrow> s \<ge> 400 \<and> s < 500 \<and> s \<noteq> 429)
          then updateDeviceFailure c finishedAt Configuration_issue
                 (terminal row token finishedAt Configuration_issue status db)
          else retry row token retryAt Temporary_issue
                 (updateDeviceFailure c finishedAt Temporary_issue db))"

definition still_bound :: "push_db \<Rightarrow> push_claim \<Rightarrow> subscription_capability \<Rightarrow> bool" where
  "still_bound db row c \<longleftrightarrow>
     (case identity db (pc_subscription_id row) of
        None \<Rightarrow> False
      | Some after \<Rightarrow> si_userId after = pc_target_user_id row \<and> si_generation after = si_generation c)"

definition after_send ::
  "instant \<Rightarrow> push_env \<Rightarrow> push_claim \<Rightarrow> subscription_capability \<Rightarrow> send_result \<times> bool \<Rightarrow> push_db \<Rightarrow>
     control \<times> push_db" where
  "after_send startedAt env row c outcome db =
     (let (result, timedOut) = outcome; token = pi_token env; finishedAt = pi_finished env
      in if \<not> ownsLease db row token then (Batch_continue, db)
         else if \<not> still_bound db row c
         then (Batch_continue, retry row token (pi_rebound env) Temporary_issue db)
         else if finishedAt \<ge> expirySendDeadline row \<or>
                 (timedOut \<and> expirySendDeadline row \<le> batchSendDeadline startedAt)
         then (Batch_continue, expireNotification (pc_notification_id row) finishedAt db)
         else if finishedAt \<ge> batchSendDeadline startedAt \<or> timedOut
         then (Batch_break, retry row token finishedAt Temporary_issue
                 (updateDeviceFailure c finishedAt Temporary_issue db))
         else (Batch_continue, settle_response row token c result finishedAt (pi_retry env) db))"

subsection \<open>The send\<close>

definition PUSH_SEND_TIMEOUT_RESULT :: send_result where
  "PUSH_SEND_TIMEOUT_RESULT = Send_failed SEND_FAILED False None"

text \<open>Whether the request was made at all, what came of it, and whether the deadline ended it.\<close>

definition sendPushBeforeDeadline :: "instant \<Rightarrow> instant \<Rightarrow> send_race \<Rightarrow> bool \<times> send_result \<times> bool" where
  "sendPushBeforeDeadline deadlineMs now race =
     (if deadlineMs - now \<le> 0 then (False, PUSH_SEND_TIMEOUT_RESULT, True)
      else case race of
        Send_answered result \<Rightarrow> (True, result, False)
      | Send_rejected \<Rightarrow> (True, PUSH_SEND_TIMEOUT_RESULT, False)
      | Send_timed_out \<Rightarrow> (True, PUSH_SEND_TIMEOUT_RESULT, True))"

definition send_claim ::
  "instant \<Rightarrow> push_env \<Rightarrow> push_claim \<Rightarrow> json \<Rightarrow> subscription_capability \<Rightarrow> push_db \<Rightarrow> push_outcome" where
  "send_claim startedAt env row payload c db =
     (let db1 = mark_generation row (pi_token env) (si_generation c) db;
          (requested, outcome) =
            sendPushBeforeDeadline (sendDeadline startedAt row) (pi_send_from env) (pi_send env);
          db2 = (if requested then pi_during_send env db1 else db1);
          (control, db3) = after_send startedAt env row c outcome db2
      in (control,
          if requested
          then [\<lparr>se_claim = row, se_capability = c, se_payload = payload, se_deadline = sendDeadline startedAt row\<rparr>]
          else [], db3))"

subsection \<open>The checks before it\<close>

text \<open>
  \<^verbatim>\<open>awaitBeforeDeadline\<close>: an answer that is awaited for no time at all is a failure, and then nothing
  else happens meanwhile.
\<close>

definition awaitBeforeDeadline ::
  "'a option \<Rightarrow> int \<Rightarrow> (push_db \<Rightarrow> push_db) \<Rightarrow> push_db \<Rightarrow> 'a option \<times> push_db" where
  "awaitBeforeDeadline answer remainingMs meanwhile db =
     (if remainingMs \<le> 0 then (None, db) else (answer, meanwhile db))"

definition authorized_send ::
  "instant \<Rightarrow> push_env \<Rightarrow> push_claim \<Rightarrow> json \<Rightarrow> push_db \<Rightarrow> push_outcome" where
  "authorized_send startedAt env row payload db =
     (case capability db (pc_subscription_id row) (pc_target_user_id row) of
        None \<Rightarrow> (Batch_continue, [], terminal row (pi_token env) (pi_missing env) Subscription_removed None db)
      | Some c \<Rightarrow>
          unless_boundary startedAt row (pi_token env) (pi_before_send env)
            (send_claim startedAt env row payload c) db)"

definition check_access ::
  "instant \<Rightarrow> push_env \<Rightarrow> push_claim \<Rightarrow> json \<Rightarrow> subscription_identity \<Rightarrow> push_db \<Rightarrow> push_outcome" where
  "check_access startedAt env row payload i db =
     (let token = pi_token env
      in case awaitBeforeDeadline (pi_access env (pc_target_user_id row) (pc_mailbox_id row))
                (latestSendStart startedAt row - pi_access_from env) (pi_during_access env) db of
        (None, db') \<Rightarrow>
          unless_boundary startedAt row token (pi_access_failed env)
            (\<lambda>db'. (Batch_continue, [],
               retry row token (pi_access_failed env) Service_unavailable
                 (updateDeviceFailureByIdentity i (pi_access_failed env) Service_unavailable db'))) db'
      | (Some authorized, db') \<Rightarrow>
          if \<not> ownsLease db' row token then (Batch_continue, [], db')
          else if \<not> authorized
          then (Batch_continue, [],
                drop_binding i (terminal row token (pi_denied env) Authorization_revoked None db'))
          else authorized_send startedAt env row payload db')"

definition check_payload :: "push_claim \<Rightarrow> json option" where
  "check_payload row =
     (case pc_payload_json row of
        Json_text payload \<Rightarrow>
          if validateStoredPushPayload payload (pc_email_id row) (pc_mailbox_id row) then Some payload else None
      | Not_json _ \<Rightarrow> None)"

definition check_claim ::
  "push_deps \<Rightarrow> instant \<Rightarrow> push_env \<Rightarrow> push_claim \<Rightarrow> push_db \<Rightarrow> push_outcome" where
  "check_claim deps startedAt env row db =
     (let token = pi_token env; now = pi_now env
      in case check_payload row of
        None \<Rightarrow> (Batch_continue, [], terminal row token now Payload_defect None db)
      | Some payload \<Rightarrow>
          if \<not> pw_vapidConfigured deps
          then (Batch_continue, [], terminal row token now Service_unavailable None db)
          else case identity db (pc_subscription_id row) of
            None \<Rightarrow> (Batch_continue, [], terminal row token now Subscription_removed None db)
          | Some i \<Rightarrow>
              if si_userId i \<noteq> pc_target_user_id row
              then (Batch_continue, [], terminal row token now Subscription_removed None db)
              else check_access startedAt env row payload i db)"

definition alarm_failed ::
  "instant \<Rightarrow> push_env \<Rightarrow> push_claim \<Rightarrow> push_db \<Rightarrow> push_outcome" where
  "alarm_failed startedAt env row db =
     (let failedAt = pi_alarm_failed env
      in unless_boundary startedAt row (pi_token env) failedAt
        (\<lambda>db'. (Batch_continue, [],
           retry row (pi_token env) failedAt Service_unavailable
             (case identity db' (pc_subscription_id row) of
                None \<Rightarrow> db'
              | Some i \<Rightarrow> if si_userId i = pc_target_user_id row
                           then updateDeviceFailureByIdentity i failedAt Service_unavailable db' else db'))) db)"

definition work_claim ::
  "push_deps \<Rightarrow> instant \<Rightarrow> push_env \<Rightarrow> push_claim \<Rightarrow> push_db \<Rightarrow> push_outcome" where
  "work_claim deps startedAt env row db =
     (if \<not> pw_scheduleAlarm deps then check_claim deps startedAt env row db
      else case awaitBeforeDeadline (if pi_alarm env then Some () else None)
                  (latestSendStart startedAt row - pi_alarm_from env) (pi_during_alarm env) db of
        (None, db') \<Rightarrow> alarm_failed startedAt env row db'
      | (Some _, db') \<Rightarrow> check_claim deps startedAt env row db')"

subsection \<open>The batch\<close>

definition process_one :: "push_deps \<Rightarrow> instant \<Rightarrow> push_env \<Rightarrow> push_db \<Rightarrow> push_outcome" where
  "process_one deps startedAt env db =
     (if pi_guard env - startedAt \<ge> batchWallMs - sendBudgetMs - finalizationBudgetMs
      then (Batch_break, [], db)
      else case claimNext (pi_now env) (pi_token env) db of
        (None, db') \<Rightarrow> (Batch_break, [], db')
      | (Some row, db') \<Rightarrow>
          unless_boundary startedAt row (pi_token env) (pi_boundary env)
            (work_claim deps startedAt env row) db')"

text \<open>The \<open>n\<close> iterations that are left; the outside of an iteration is indexed by how many are left after it.\<close>

primrec process_batch ::
  "nat \<Rightarrow> push_deps \<Rightarrow> instant \<Rightarrow> (nat \<Rightarrow> push_env) \<Rightarrow> push_db \<Rightarrow> push_send list \<times> push_db" where
  "process_batch 0 deps startedAt envs db = ([], db)"
| "process_batch (Suc n) deps startedAt envs db =
     (case process_one deps startedAt (envs n) db of
        (Batch_break, sent, db') \<Rightarrow> (sent, db')
      | (Batch_continue, sent, db') \<Rightarrow>
          (let (more, db'') = process_batch n deps startedAt envs db' in (sent @ more, db'')))"

definition due_times :: "push_db \<Rightarrow> instant list" where
  "due_times db =
     map pd_next_attempt_at (filter (\<lambda>d. waiting (pd_status d)) (pb_deliveries db)) @
     map (\<lambda>d. the (pd_lease_expires_at d))
       (filter (\<lambda>d. pd_status d = Push_sending \<and> pd_lease_expires_at d \<noteq> None) (pb_deliveries db)) @
     map (\<lambda>n. finished_at n + retentionMs) (filter (\<lambda>n. pn_state n \<noteq> Note_pending) (pb_notifications db))"

definition next_due :: "push_db \<Rightarrow> instant option" where
  "next_due db = (case due_times db of [] \<Rightarrow> None | t # ts \<Rightarrow> Some (fold min ts t))"

definition processPushOutbox ::
  "push_deps \<Rightarrow> instant \<Rightarrow> (nat \<Rightarrow> push_env) \<Rightarrow> instant \<Rightarrow> push_db \<Rightarrow>
     instant option \<times> push_send list \<times> push_db" where
  "processPushOutbox deps startedAt envs finishedAt db =
     (let db1 = prune (startedAt - retentionMs) (recoverAndExpire startedAt db);
          (sent, db2) = process_batch batchSize deps startedAt envs db1;
          db3 = recoverAndExpire finishedAt db2
      in (next_due db3, sent, db3))"

subsection \<open>Health\<close>

datatype device_health = Never_attempted | Health_accepted | Health_temporary_issue | Reenable_required

datatype push_health = Not_configured | No_devices | Healthy | Health_retrying | Degraded

definition deviceHealth :: "push_subscription \<Rightarrow> device_health" where
  "deviceHealth s =
     (case ps_last_attempt_at s of
        None \<Rightarrow> Never_attempted
      | Some _ \<Rightarrow>
          if (case ps_last_accepted_at s of
                None \<Rightarrow> False
              | Some accepted \<Rightarrow>
                  (case ps_last_failure_at s of None \<Rightarrow> True | Some failed \<Rightarrow> accepted \<ge> failed))
          then Health_accepted
          else if ps_last_failure_reason s \<in>
                  {Some Permission_revoked, Some Authorization_revoked, Some Subscription_removed}
          then Reenable_required else Health_temporary_issue)"

record device_report =
  de_id :: string
  de_label :: string
  de_registeredAt :: instant
  de_lastAttemptAt :: "instant option"
  de_lastAcceptedAt :: "instant option"
  de_health :: device_health
  de_consecutiveFailures :: int

definition report_device :: "push_subscription \<Rightarrow> device_report" where
  "report_device s =
     \<lparr>de_id = ps_id s,
      de_label = take 100 (case map_option js_trim (ps_device_label s) of
         None \<Rightarrow> ''This device'' | Some l \<Rightarrow> if l = [] then ''This device'' else l),
      de_registeredAt = ps_created_at s, de_lastAttemptAt = ps_last_attempt_at s,
      de_lastAcceptedAt = ps_last_accepted_at s, de_health = deviceHealth s,
      de_consecutiveFailures = max 0 (ps_failures s)\<rparr>"

record health_report =
  hr_state :: push_health
  hr_pendingCount :: int
  hr_refreshedAt :: instant
  hr_devices :: "device_report list"

definition pending_for_user :: "push_db \<Rightarrow> string \<Rightarrow> int" where
  "pending_for_user db userId =
     int (count_where (\<lambda>d. pd_target_user_id d = userId \<and> active (pd_status d) \<and>
            list_ex (delivery_for d) (pb_subscriptions db)) (pb_deliveries db))"

definition readPushHealth :: "string \<Rightarrow> bool \<Rightarrow> instant \<Rightarrow> push_db \<Rightarrow> health_report" where
  "readPushHealth userId configured now db =
     (let devices = map report_device (take 50
            (sort_key (\<lambda>s. (- ps_created_at s, ps_id s))
              (filter (\<lambda>s. ps_user_id s = Some userId) (pb_subscriptions db))));
          pendingCount = pending_for_user db userId
      in \<lparr>hr_state =
            (if \<not> configured then Not_configured
             else if devices = [] then No_devices
             else if pendingCount > 0 then Health_retrying
             else if list_ex (\<lambda>d. de_health d = Health_temporary_issue \<or> de_health d = Reenable_required) devices
             then Degraded else Healthy),
          hr_pendingCount = (if configured then pendingCount else 0),
          hr_refreshedAt = now, hr_devices = devices\<rparr>)"

end
