(* ===== verification/Push_Machine.thy ===== *)
theory Push_Machine
  imports Push_Worker
begin

text \<open>
  The push outbox as a machine of atomic steps. Beside the tables, a world keeps a ledger of the claims
  that were handed out, under their tokens, and of the tokens a request was made with. A token is a
  random UUID: a claim draws one that was never drawn before. The steps keep the well-formedness of the
  tables and the accounts that bound the requests made for a delivery.
\<close>

subsection \<open>Well-formed tables\<close>

definition delivery_ok :: "push_delivery \<Rightarrow> bool" where
  "delivery_ok d \<longleftrightarrow>
     0 \<le> pd_attempt_count d \<and> pd_attempt_count d \<le> maxAttempts \<and>
     (waiting (pd_status d) \<longrightarrow> pd_attempt_count d < maxAttempts) \<and>
     (pd_lease_token d \<noteq> None \<longleftrightarrow> pd_status d = Push_sending) \<and>
     (pd_lease_expires_at d \<noteq> None \<longleftrightarrow> pd_status d = Push_sending) \<and>
     (pd_status d = Push_sending \<longrightarrow> 1 \<le> pd_attempt_count d)"

definition notes_ok :: "push_db \<Rightarrow> bool" where
  "notes_ok db \<longleftrightarrow> distinct (map pn_id (pb_notifications db)) \<and>
     (\<forall>n \<in> set (pb_notifications db). pn_state n \<noteq> Note_pending \<longrightarrow> \<not> has_active db (pn_id n)) \<and>
     (\<forall>d \<in> set (pb_deliveries db). pd_notification_id d \<in> pn_id ` set (pb_notifications db))"

definition devices_ok :: "push_db \<Rightarrow> bool" where
  "devices_ok db \<longleftrightarrow> distinct (map ps_id (pb_subscriptions db)) \<and>
     distinct (map ps_endpoint (pb_subscriptions db))"

definition push_sound :: "push_db \<Rightarrow> bool" where
  "push_sound db \<longleftrightarrow> distinct (map delivery_key (pb_deliveries db)) \<and>
     (\<forall>d \<in> set (pb_deliveries db). delivery_ok d) \<and> notes_ok db \<and> devices_ok db"

subsection \<open>Worlds\<close>

record push_world =
  wo_db :: push_db
  wo_claims :: "(string \<times> push_claim) list"
  wo_spent :: "string list"

definition claim_of :: "push_world \<Rightarrow> string \<Rightarrow> push_claim \<Rightarrow> bool" where
  "claim_of w token row \<longleftrightarrow> (token, row) \<in> set (wo_claims w)"

text \<open>The requests made for one delivery.\<close>

definition requests :: "push_world \<Rightarrow> string \<times> string \<Rightarrow> nat" where
  "requests w k = length (filter (\<lambda>t. \<exists>row. claim_of w t row \<and> claim_key row = k) (wo_spent w))"

definition unspent :: "push_world \<Rightarrow> push_delivery \<Rightarrow> int" where
  "unspent w d = (if pd_status d = Push_sending \<and> the (pd_lease_token d) \<notin> set (wo_spent w) then 1 else 0)"

text \<open>A lease is held under a claim that was handed out for it and counted its attempt.\<close>

definition lease_claimed :: "push_world \<Rightarrow> push_delivery \<Rightarrow> bool" where
  "lease_claimed w d \<longleftrightarrow> (pd_status d = Push_sending \<longrightarrow>
     (\<exists>row. claim_of w (the (pd_lease_token d)) row \<and> claim_key row = delivery_key d \<and>
            pc_attempt_count row = pd_attempt_count d))"

definition delivery_fits :: "push_world \<Rightarrow> push_delivery \<Rightarrow> bool" where
  "delivery_fits w d \<longleftrightarrow> delivery_ok d \<and> lease_claimed w d \<and>
     int (requests w (delivery_key d)) + unspent w d \<le> pd_attempt_count d"

definition ledger_ok :: "push_world \<Rightarrow> bool" where
  "ledger_ok w \<longleftrightarrow> distinct (map fst (wo_claims w)) \<and> set (wo_spent w) \<subseteq> fst ` set (wo_claims w) \<and>
     (\<forall>k. int (requests w k) \<le> maxAttempts)"

definition world_ok :: "push_world \<Rightarrow> bool" where
  "world_ok w \<longleftrightarrow> distinct (map delivery_key (pb_deliveries (wo_db w))) \<and>
     (\<forall>d \<in> set (pb_deliveries (wo_db w)). delivery_fits w d) \<and> notes_ok (wo_db w) \<and>
     devices_ok (wo_db w) \<and> ledger_ok w"

lemma world_sound: "world_ok w \<Longrightarrow> push_sound (wo_db w)"
  by (auto simp: world_ok_def push_sound_def delivery_fits_def)

subsection \<open>Steps\<close>

datatype device_op =
  Device_delete string string "int option"
| Device_remove_user string
| Device_failure subscription_capability instant push_reason
| Device_failure_by_identity subscription_identity instant push_reason
| Device_accepted subscription_capability instant
| Device_drop_binding subscription_identity
| Device_drop_capability subscription_capability

primrec run_device :: "device_op \<Rightarrow> push_db \<Rightarrow> push_db" where
  "run_device (Device_delete i u g) db = snd (deletePushSubscription i u g db)"
| "run_device (Device_remove_user u) db = removePushSubscriptionsForUser u db"
| "run_device (Device_failure c now reason) db = updateDeviceFailure c now reason db"
| "run_device (Device_failure_by_identity i now reason) db = updateDeviceFailureByIdentity i now reason db"
| "run_device (Device_accepted c now) db = device_accepted c now db"
| "run_device (Device_drop_binding i) db = drop_binding i db"
| "run_device (Device_drop_capability c) db = drop_capability c db"

datatype claim_op =
  Claim_terminal instant push_reason "int option"
| Claim_retry instant push_reason
| Claim_accept instant
| Claim_mark int

primrec run_claim_op :: "claim_op \<Rightarrow> push_claim \<Rightarrow> string \<Rightarrow> push_db \<Rightarrow> push_db" where
  "run_claim_op (Claim_terminal now reason http) row token db = terminal row token now reason http db"
| "run_claim_op (Claim_retry now reason) row token db = retry row token now reason db"
| "run_claim_op (Claim_accept now) row token db = accept row token now db"
| "run_claim_op (Claim_mark g) row token db = mark_generation row token g db"

text \<open>
  Steps that use no token of \<open>own\<close>: what others do while the holder of these tokens waits. A message id
  is never used for a second message, so nothing is enqueued for a notification that was claimed before.
\<close>

inductive push_step :: "string set \<Rightarrow> push_world \<Rightarrow> push_world \<Rightarrow> bool" for own where
  enqueue: "enqueuePushNotification e m payload now (wo_db w) = Inr (r, db') \<Longrightarrow>
     (\<forall>(t, row) \<in> set (wo_claims w). pc_notification_id row \<noteq> ''push:'' @ e) \<Longrightarrow>
     push_step own w (w\<lparr>wo_db := db'\<rparr>)"
| upsert: "upsertPushSubscription i input seen (wo_db w) = Inr db' \<Longrightarrow> push_step own w (w\<lparr>wo_db := db'\<rparr>)"
| device: "push_step own w (w\<lparr>wo_db := run_device op1 (wo_db w)\<rparr>)"
| recover: "push_step own w (w\<lparr>wo_db := recoverAndExpire now (wo_db w)\<rparr>)"
| prune: "push_step own w (w\<lparr>wo_db := prune before (wo_db w)\<rparr>)"
| forget: "push_step own w (w\<lparr>wo_db := forgetEmail e (wo_db w)\<rparr>)"
| expire: "push_step own w (w\<lparr>wo_db := expireNotification i now (wo_db w)\<rparr>)"
| complete: "push_step own w (w\<lparr>wo_db := completeNotification i now (wo_db w)\<rparr>)"
| claim: "claimNext now token (wo_db w) = (Some row, db') \<Longrightarrow> token \<notin> own \<Longrightarrow>
     token \<notin> fst ` set (wo_claims w) \<Longrightarrow>
     push_step own w (w\<lparr>wo_db := db', wo_claims := (token, row) # wo_claims w\<rparr>)"
| settle: "claim_of w token row \<Longrightarrow> token \<notin> own \<Longrightarrow>
     push_step own w (w\<lparr>wo_db := run_claim_op op2 row token (wo_db w)\<rparr>)"
| give_back: "claim_of w token row \<Longrightarrow> token \<notin> own \<Longrightarrow> token \<notin> set (wo_spent w) \<Longrightarrow>
     push_step own w (w\<lparr>wo_db := deferClaim row token now (wo_db w)\<rparr>)"
| request: "claim_of w token row \<Longrightarrow> token \<notin> own \<Longrightarrow> token \<notin> set (wo_spent w) \<Longrightarrow> ownsLease (wo_db w) row token \<Longrightarrow>
     push_step own w (w\<lparr>wo_spent := token # wo_spent w\<rparr>)"

inductive_cases push_step_cases: "push_step own w w'"

lemma push_step_mono: "push_step own w w' \<Longrightarrow> own' \<subseteq> own \<Longrightarrow> push_step own' w w'"
  by (induction rule: push_step.induct) (blast intro: push_step.intros)+

subsection \<open>Updates of the deliveries\<close>

text \<open>The ledger does not look at the tables.\<close>

lemma ledger_db [simp]:
  "claim_of (w\<lparr>wo_db := db\<rparr>) t row = claim_of w t row"
  "requests (w\<lparr>wo_db := db\<rparr>) k = requests w k"
  "unspent (w\<lparr>wo_db := db\<rparr>) d = unspent w d"
  "lease_claimed (w\<lparr>wo_db := db\<rparr>) d = lease_claimed w d"
  "delivery_fits (w\<lparr>wo_db := db\<rparr>) d = delivery_fits w d"
  "ledger_ok (w\<lparr>wo_db := db\<rparr>) = ledger_ok w"
  by (simp_all add: claim_of_def requests_def unspent_def lease_claimed_def delivery_fits_def ledger_ok_def)

lemma has_active_iff:
  "has_active db i \<longleftrightarrow> (\<exists>d \<in> set (pb_deliveries db). pd_notification_id d = i \<and> active (pd_status d))"
  by (auto simp: has_active_def list_ex_iff)

text \<open>An edit of deliveries keeps their keys and wakes up nothing that had come to rest.\<close>

definition settling :: "(push_delivery \<Rightarrow> bool) \<Rightarrow> (push_delivery \<Rightarrow> push_delivery) \<Rightarrow> bool" where
  "settling P f \<longleftrightarrow> (\<forall>d. P d \<longrightarrow> delivery_key (f d) = delivery_key d \<and>
     (active (pd_status (f d)) \<longrightarrow> active (pd_status d)))"

lemma settling_has_active:
  assumes "settling P f" and "has_active (db\<lparr>pb_deliveries := update_where P f (pb_deliveries db)\<rparr>) i"
  shows "has_active db i"
  using assms by (fastforce simp: has_active_iff set_update_where settling_def delivery_key_def split: if_splits)

lemma settling_notes_ok:
  assumes "settling P f" and "notes_ok db"
  shows "notes_ok (db\<lparr>pb_deliveries := update_where P f (pb_deliveries db)\<rparr>)"
proof -
  have "pd_notification_id (f d) = pd_notification_id d" if "P d" for d
    using assms(1) that by (simp add: settling_def delivery_key_def)
  then show ?thesis
    using assms settling_has_active [OF assms(1)]
    by (auto simp: notes_ok_def set_update_where)
qed

lemma settling_keys:
  assumes "settling P f"
  shows "map delivery_key (update_where P f ds) = map delivery_key ds"
  using assms by (intro keys_update_where) (simp add: settling_def)

lemma edit_deliveries_ok:
  assumes "world_ok w" and "settling P f"
    and "\<And>d. d \<in> set (pb_deliveries (wo_db w)) \<Longrightarrow> delivery_fits w d \<Longrightarrow> P d \<Longrightarrow> delivery_fits w (f d)"
  shows "world_ok (w\<lparr>wo_db := (wo_db w)\<lparr>pb_deliveries := update_where P f (pb_deliveries (wo_db w))\<rparr>\<rparr>)"
proof -
  have "delivery_fits w d" if "d \<in> set (update_where P f (pb_deliveries (wo_db w)))" for d
    using that assms(1,3) by (auto simp: set_update_where world_ok_def)
  moreover have "devices_ok ((wo_db w)\<lparr>pb_deliveries := ds\<rparr>) = devices_ok (wo_db w)" for ds
    by (simp add: devices_ok_def)
  ultimately show ?thesis
    using assms(1) settling_notes_ok [OF assms(2)] by (simp add: world_ok_def settling_keys [OF assms(2)])
qed

text \<open>Ending a delivery, or sending it back to wait for a retry it still has.\<close>

lemma end_delivery_fits:
  assumes "delivery_fits w d"
  shows "delivery_fits w (end_delivery now reason d)"
    and "delivery_fits w ((end_delivery now reason d)\<lparr>pd_last_http_status := http\<rparr>)"
  using assms
  by (auto simp: delivery_fits_def delivery_ok_def lease_claimed_def unspent_def end_delivery_def
      delivery_key_def waiting_def split: if_splits)

lemma end_delivery_settling:
  "settling P (end_delivery now reason)"
  "settling P (\<lambda>d. (end_delivery now reason d)\<lparr>pd_last_http_status := http\<rparr>)"
  by (simp_all add: settling_def end_delivery_def delivery_key_def active_def)

lemma rest_fits:
  assumes "delivery_fits w d" and "pd_attempt_count d' = pd_attempt_count d" and "delivery_key d' = delivery_key d"
    and "pd_status d' \<noteq> Push_sending" and "pd_lease_token d' = None" and "pd_lease_expires_at d' = None"
    and "waiting (pd_status d') \<Longrightarrow> pd_attempt_count d < maxAttempts"
  shows "delivery_fits w d'"
  using assms by (auto simp: delivery_fits_def delivery_ok_def lease_claimed_def unspent_def split: if_splits)

subsection \<open>Updates of the notifications and the devices\<close>

text \<open>Only notifications without active deliveries may be closed.\<close>

lemma edit_notes_ok:
  assumes "world_ok w" and "\<And>n. pn_id (f n) = pn_id n"
    and "\<And>n. n \<in> set (pb_notifications (wo_db w)) \<Longrightarrow> P n \<Longrightarrow> \<not> has_active (wo_db w) (pn_id n)"
  shows "world_ok (w\<lparr>wo_db := (wo_db w)\<lparr>pb_notifications := update_where P f (pb_notifications (wo_db w))\<rparr>\<rparr>)"
proof -
  let ?db = "(wo_db w)\<lparr>pb_notifications := update_where P f (pb_notifications (wo_db w))\<rparr>"
  have keys: "map pn_id (update_where P f ns) = map pn_id ns" for ns
    using assms(2) by (intro keys_update_where)
  have "pn_id ` set (update_where P f ns) = pn_id ` set ns" for ns
    using keys by (metis list.set_map)
  moreover have "has_active ?db i = has_active (wo_db w) i" for i
    by (simp add: has_active_def)
  ultimately have "notes_ok ?db"
    using assms keys by (auto simp: notes_ok_def world_ok_def set_update_where split: if_splits)
  then show ?thesis using assms(1) by (simp add: world_ok_def devices_ok_def)
qed

lemma edit_devices_ok:
  assumes "world_ok w" and "pb_deliveries db' = pb_deliveries (wo_db w)"
    and "pb_notifications db' = pb_notifications (wo_db w)" and "devices_ok db'"
  shows "world_ok (w\<lparr>wo_db := db'\<rparr>)"
proof -
  have "has_active db' i = has_active (wo_db w) i" for i using assms(2) by (simp add: has_active_def)
  then show ?thesis using assms by (simp add: world_ok_def notes_ok_def)
qed

lemma devices_update:
  assumes "devices_ok db" and "\<And>s. ps_id (f s) = ps_id s" and "\<And>s. ps_endpoint (f s) = ps_endpoint s"
  shows "devices_ok (db\<lparr>pb_subscriptions := update_where P f (pb_subscriptions db)\<rparr>)"
  using assms by (simp add: devices_ok_def keys_update_where)

lemma devices_filter:
  "devices_ok db \<Longrightarrow> devices_ok (db\<lparr>pb_subscriptions := filter P (pb_subscriptions db)\<rparr>)"
  by (simp add: devices_ok_def distinct_map_filter)

lemma run_device_frame [simp]:
  "pb_deliveries (run_device op1 db) = pb_deliveries db"
  "pb_notifications (run_device op1 db) = pb_notifications db"
  by (cases op1; simp add: deletePushSubscription_def removePushSubscriptionsForUser_def Let_def
      updateDeviceFailure_def updateDeviceFailureByIdentity_def device_accepted_def drop_binding_def
      drop_capability_def)+

lemma run_device_ok: "devices_ok db \<Longrightarrow> devices_ok (run_device op1 db)"
  by (cases op1)
    (simp_all add: deletePushSubscription_def removePushSubscriptionsForUser_def Let_def
      updateDeviceFailure_def updateDeviceFailureByIdentity_def device_accepted_def drop_binding_def
      drop_capability_def devices_filter devices_update device_failed_def)

lemma upsert_frame:
  assumes "upsertPushSubscription i input seen db = Inr db'"
  shows "pb_deliveries db' = pb_deliveries db" and "pb_notifications db' = pb_notifications db"
  using assms by (auto simp: upsertPushSubscription_def split: if_splits)

lemma upsert_ok:
  assumes "upsertPushSubscription i input seen db = Inr db'" and "devices_ok db"
  shows "devices_ok db'"
proof (cases "list_ex (\<lambda>s. ps_endpoint s = in_endpoint input) (pb_subscriptions db)")
  case True
  with assms show ?thesis
    by (auto simp: upsertPushSubscription_def rebind_def Let_def intro!: devices_update)
next
  case False
  then have "in_endpoint input \<notin> ps_endpoint ` set (pb_subscriptions db)"
    by (auto simp: list_ex_iff)
  with assms False show ?thesis
    by (auto simp: upsertPushSubscription_def devices_ok_def new_subscription_def list_ex_iff split: if_splits)
qed

lemma device_step_ok: "world_ok w \<Longrightarrow> world_ok (w\<lparr>wo_db := run_device op1 (wo_db w)\<rparr>)"
  by (intro edit_devices_ok) (simp_all add: run_device_ok world_ok_def)

lemma upsert_step_ok:
  "upsertPushSubscription i input seen (wo_db w) = Inr db' \<Longrightarrow> world_ok w \<Longrightarrow> world_ok (w\<lparr>wo_db := db'\<rparr>)"
  using upsert_frame upsert_ok by (intro edit_devices_ok) (auto simp: world_ok_def)

subsection \<open>Operations on the deliveries\<close>

lemma complete_ok: "world_ok w \<Longrightarrow> world_ok (w\<lparr>wo_db := completeNotification i now (wo_db w)\<rparr>)"
  unfolding completeNotification_def
  by (cases "has_active (wo_db w) i") (auto intro!: edit_notes_ok)

lemma ended_ok:
  "world_ok w \<Longrightarrow> world_ok (w\<lparr>wo_db := (wo_db w)\<lparr>pb_deliveries :=
     update_where P (end_delivery now reason) (pb_deliveries (wo_db w))\<rparr>\<rparr>)"
  by (intro edit_deliveries_ok end_delivery_settling end_delivery_fits)

lemma terminal_ok: "world_ok w \<Longrightarrow> world_ok (w\<lparr>wo_db := terminal row token now reason http (wo_db w)\<rparr>)"
proof -
  assume ok: "world_ok w"
  let ?db = "(wo_db w)\<lparr>pb_deliveries := update_where (held_by row token)
    (\<lambda>d. (end_delivery now reason d)\<lparr>pd_last_http_status := http\<rparr>) (pb_deliveries (wo_db w))\<rparr>"
  have "world_ok (w\<lparr>wo_db := ?db\<rparr>)"
    using ok by (intro edit_deliveries_ok end_delivery_settling end_delivery_fits)
  from complete_ok [OF this] show ?thesis by (simp add: terminal_def)
qed

lemma accept_ok: "world_ok w \<Longrightarrow> world_ok (w\<lparr>wo_db := accept row token now (wo_db w)\<rparr>)"
  unfolding accept_def
  by (erule edit_deliveries_ok, simp add: settling_def delivery_key_def active_def, erule rest_fits)
    (simp_all add: delivery_key_def waiting_def)

lemma mark_ok: "world_ok w \<Longrightarrow> world_ok (w\<lparr>wo_db := mark_generation row token g (wo_db w)\<rparr>)"
  unfolding mark_generation_def
  by (intro edit_deliveries_ok)
    (auto simp: settling_def delivery_key_def active_def delivery_fits_def delivery_ok_def lease_claimed_def
      unspent_def)

text \<open>The holder of a lease is the claim that counted the attempt.\<close>

lemma claim_unique: "ledger_ok w \<Longrightarrow> claim_of w t row \<Longrightarrow> claim_of w t row' \<Longrightarrow> row' = row"
  by (auto simp: ledger_ok_def claim_of_def dest: eq_key_imp_eq_value)

lemma held_attempts:
  assumes "world_ok w" and "claim_of w token row" and "d \<in> set (pb_deliveries (wo_db w))" and "held_by row token d"
  shows "pd_attempt_count d = pc_attempt_count row"
proof -
  from assms(1,3) have "lease_claimed w d" by (simp add: world_ok_def delivery_fits_def)
  with assms(4) obtain row' where row': "claim_of w token row'" "pc_attempt_count row' = pd_attempt_count d"
    by (auto simp: lease_claimed_def held_by_def)
  have "row' = row"
    using assms(1) by (intro claim_unique [OF _ assms(2) row'(1)]) (simp add: world_ok_def)
  with row'(2) show ?thesis by simp
qed

lemma retry_fits:
  assumes "delivery_fits w d" and "pd_attempt_count d < maxAttempts"
  shows "delivery_fits w (d\<lparr>pd_status := Push_retrying, pd_next_attempt_at := t, pd_updated_at := now,
    pd_last_reason := reason, pd_lease_token := None, pd_lease_expires_at := None\<rparr>)"
  by (rule rest_fits [OF assms(1)]) (simp_all add: delivery_key_def assms(2))

lemma retry_ok:
  assumes "world_ok w" and "claim_of w token row"
  shows "world_ok (w\<lparr>wo_db := retry row token now reason (wo_db w)\<rparr>)"
proof (cases "pc_attempt_count row \<ge> maxAttempts \<or> now \<ge> pc_expires_at row")
  case True
  then show ?thesis using assms(1) by (simp add: retry_def terminal_ok)
next
  case False
  have "settling (held_by row token) (\<lambda>d. d\<lparr>pd_status := Push_retrying,
      pd_next_attempt_at := min (now + retry_delay row) (pc_expires_at row),
      pd_updated_at := now, pd_last_reason := Some reason, pd_lease_token := None,
      pd_lease_expires_at := None\<rparr>)"
    by (simp add: settling_def delivery_key_def active_def held_by_def)
  then have "world_ok (w\<lparr>wo_db := (wo_db w)\<lparr>pb_deliveries := update_where (held_by row token)
      (\<lambda>d. d\<lparr>pd_status := Push_retrying,
        pd_next_attempt_at := min (now + retry_delay row) (pc_expires_at row),
        pd_updated_at := now, pd_last_reason := Some reason, pd_lease_token := None,
        pd_lease_expires_at := None\<rparr>) (pb_deliveries (wo_db w))\<rparr>\<rparr>)"
    using held_attempts [OF assms] False by (intro edit_deliveries_ok [OF assms(1)] retry_fits) simp_all
  then show ?thesis using False by (simp add: retry_def)
qed

lemma defer_ok:
  assumes "world_ok w" and "claim_of w token row" and "token \<notin> set (wo_spent w)"
  shows "world_ok (w\<lparr>wo_db := deferClaim row token now (wo_db w)\<rparr>)"
  unfolding deferClaim_def
proof (rule edit_deliveries_ok [OF assms(1)])
  show "settling (held_by row token) (\<lambda>d. d\<lparr>pd_status := Push_pending,
      pd_attempt_count := (if pd_attempt_count d > 0 then pd_attempt_count d - 1 else 0),
      pd_next_attempt_at := now, pd_updated_at := now, pd_lease_token := None,
      pd_lease_expires_at := None\<rparr>)"
    by (auto simp: settling_def delivery_key_def active_def held_by_def)
next
  fix d assume "delivery_fits w d" and "held_by row token d"
  then show "delivery_fits w (d\<lparr>pd_status := Push_pending,
      pd_attempt_count := (if pd_attempt_count d > 0 then pd_attempt_count d - 1 else 0),
      pd_next_attempt_at := now, pd_updated_at := now, pd_lease_token := None,
      pd_lease_expires_at := None\<rparr>)"
    using assms(3)
    by (auto simp: delivery_fits_def delivery_ok_def lease_claimed_def unspent_def held_by_def
        delivery_key_def waiting_def)
qed

lemma claim_op_ok:
  "world_ok w \<Longrightarrow> claim_of w token row \<Longrightarrow> world_ok (w\<lparr>wo_db := run_claim_op op2 row token (wo_db w)\<rparr>)"
  by (cases op2) (simp_all add: terminal_ok retry_ok accept_ok mark_ok)

subsection \<open>Expiry, recovery and pruning\<close>

lemma fold_world_db: "w\<lparr>wo_db := a\<rparr>\<lparr>wo_db := b\<rparr> = w\<lparr>wo_db := b\<rparr>"
  by simp

lemma not_active_ended:
  assumes "P i"
  shows "\<not> has_active (db\<lparr>pb_deliveries := update_where
      (\<lambda>d. P (pd_notification_id d) \<and> active (pd_status d)) (end_delivery now reason) (pb_deliveries db)\<rparr>) i"
  using assms by (auto simp: has_active_iff set_update_where end_delivery_def active_def split: if_splits)

lemma mark_devices_ok:
  assumes "world_ok w"
  shows "world_ok (w\<lparr>wo_db := (wo_db w)\<lparr>pb_subscriptions :=
    update_where P (device_failed now reason) (pb_subscriptions (wo_db w))\<rparr>\<rparr>)"
  using assms
  by (intro edit_devices_ok)
    (simp_all add: world_ok_def devices_ok_def keys_update_where device_failed_def)

lemma expire_ok:
  assumes "world_ok w"
  shows "world_ok (w\<lparr>wo_db := expireNotification i now (wo_db w)\<rparr>)"
proof -
  let ?P = "\<lambda>s. list_ex (\<lambda>d. pd_notification_id d = i \<and> delivery_for d s \<and> active (pd_status d))
    (pb_deliveries (wo_db w))"
  define w1 where "w1 = w\<lparr>wo_db := (wo_db w)\<lparr>pb_subscriptions :=
    update_where ?P (device_failed now Reason_expired) (pb_subscriptions (wo_db w))\<rparr>\<rparr>"
  define w2 where "w2 = w1\<lparr>wo_db := (wo_db w1)\<lparr>pb_deliveries :=
    update_where (\<lambda>d. pd_notification_id d = i \<and> active (pd_status d))
      (end_delivery now Reason_expired) (pb_deliveries (wo_db w1))\<rparr>\<rparr>"
  have "world_ok w1" unfolding w1_def by (rule mark_devices_ok [OF assms])
  then have w2: "world_ok w2" unfolding w2_def by (rule ended_ok)
  have "\<not> has_active (wo_db w2) i"
    using not_active_ended [where P = "\<lambda>j. j = i" and i = i and db = "wo_db w1"] by (simp add: w2_def)
  then have "world_ok (w2\<lparr>wo_db := (wo_db w2)\<lparr>pb_notifications :=
      update_where (\<lambda>n. pn_id n = i \<and> pn_state n = Note_pending) (finish_note Note_expired now)
        (pb_notifications (wo_db w2))\<rparr>\<rparr>)"
    by (intro edit_notes_ok [OF w2]) (auto simp: finish_note_def)
  then show ?thesis by (simp add: w1_def w2_def expireNotification_def)
qed

lemma lost_fits:
  assumes "delivery_fits w d" and "pd_attempt_count d < maxAttempts"
  shows "delivery_fits w (d\<lparr>pd_status := Push_retrying, pd_next_attempt_at := now, pd_lease_token := None,
            pd_lease_expires_at := None, pd_last_reason := reason, pd_updated_at := now\<rparr>)"
  by (rule rest_fits [OF assms(1)]) (simp_all add: delivery_key_def assms(2))

lemma lost_leases_ok:
  assumes "world_ok w"
  shows "world_ok (w\<lparr>wo_db := retry_lost_leases now (wo_db w)\<rparr>)"
proof -
  have "settling (\<lambda>d. lease_lost now d \<and> pd_attempt_count d < maxAttempts)
     (\<lambda>d. d\<lparr>pd_status := Push_retrying, pd_next_attempt_at := now, pd_lease_token := None,
            pd_lease_expires_at := None, pd_last_reason := Some Temporary_issue, pd_updated_at := now\<rparr>)"
    by (simp add: settling_def delivery_key_def active_def lease_lost_def)
  then show ?thesis
    unfolding retry_lost_leases_def by (intro edit_deliveries_ok [OF assms] lost_fits) simp_all
qed

lemma recover_ok:
  assumes "world_ok w"
  shows "world_ok (w\<lparr>wo_db := recoverAndExpire now (wo_db w)\<rparr>)"
proof -
  define w1 where "w1 = w\<lparr>wo_db := mark_expired_devices now (wo_db w)\<rparr>"
  define w2 where "w2 = w1\<lparr>wo_db := end_exhausted_leases now (wo_db w1)\<rparr>"
  define w3 where "w3 = w2\<lparr>wo_db := retry_lost_leases now (wo_db w2)\<rparr>"
  define w4 where "w4 = w3\<lparr>wo_db := end_expired_deliveries now (wo_db w3)\<rparr>"
  define w5 where "w5 = w4\<lparr>wo_db := expire_notes now (wo_db w4)\<rparr>"
  have "world_ok w1" unfolding w1_def mark_expired_devices_def by (rule mark_devices_ok [OF assms])
  then have "world_ok w2" unfolding w2_def end_exhausted_leases_def by (rule ended_ok)
  then have "world_ok w3" unfolding w3_def by (rule lost_leases_ok)
  then have w4: "world_ok w4" unfolding w4_def end_expired_deliveries_def by (rule ended_ok)
  have "pb_notifications (wo_db w4) = pb_notifications (wo_db w3)"
    by (simp add: w4_def end_expired_deliveries_def)
  then have "\<not> has_active (wo_db w4) (pn_id n)"
    if "n \<in> set (pb_notifications (wo_db w4))" "pn_expires_at n \<le> now" for n
    using that not_active_ended [where P = "note_expired (wo_db w3) now" and i = "pn_id n" and db = "wo_db w3"]
    by (auto simp: w4_def end_expired_deliveries_def note_expired_def list_ex_iff conj_commute)
  then have w5: "world_ok w5"
    unfolding w5_def expire_notes_def by (intro edit_notes_ok [OF w4]) (auto simp: finish_note_def)
  have "world_ok (w5\<lparr>wo_db := complete_notes now (wo_db w5)\<rparr>)"
    unfolding complete_notes_def by (intro edit_notes_ok [OF w5]) (auto simp: finish_note_def)
  then show ?thesis
    by (simp add: recoverAndExpire_def w1_def w2_def w3_def w4_def w5_def)
qed

text \<open>A notification goes with its deliveries, by retention or with its message.\<close>

lemma drop_notes_ok:
  assumes "world_ok w"
    and p: "db' = (wo_db w)
     \<lparr>pb_notifications := filter (\<lambda>n. pn_id n \<notin> doomed) (pb_notifications (wo_db w)),
      pb_deliveries := filter (\<lambda>d. pd_notification_id d \<notin> doomed) (pb_deliveries (wo_db w))\<rparr>"
  shows "world_ok (w\<lparr>wo_db := db'\<rparr>)"
proof -
  have "has_active db' i \<Longrightarrow> has_active (wo_db w) i" for i
    by (auto simp: p has_active_iff)
  with assms show ?thesis
    by (auto simp: world_ok_def notes_ok_def devices_ok_def distinct_map_filter)
qed

lemma push_prune_ok: "world_ok w \<Longrightarrow> world_ok (w\<lparr>wo_db := prune before (wo_db w)\<rparr>)"
  by (erule drop_notes_ok) (simp add: prune_def Let_def)

lemma forget_ok: "world_ok w \<Longrightarrow> world_ok (w\<lparr>wo_db := forgetEmail e (wo_db w)\<rparr>)"
  by (erule drop_notes_ok) (simp add: forgetEmail_def Let_def)

subsection \<open>Enqueueing, claiming and requesting\<close>

lemma enqueue_ok:
  assumes "enqueuePushNotification e m payload now (wo_db w) = Inr (r, db')" and "world_ok w"
    and "\<forall>(t, row) \<in> set (wo_claims w). pc_notification_id row \<noteq> ''push:'' @ e"
  shows "world_ok (w\<lparr>wo_db := db'\<rparr>)"
proof -
  let ?i = "''push:'' @ e" and ?db = "wo_db w"
  from assms(1) obtain t where t: "stamp_instant now = Some t"
    by (auto simp: enqueuePushNotification_def split: if_splits option.splits)
  define fresh where "fresh = fresh_deliveries ?i t ?db"
  define count where "count = int (count_where (\<lambda>d. pd_notification_id d = ?i) (pb_deliveries ?db @ fresh))"
  have db': "db' = ?db\<lparr>pb_notifications := pb_notifications ?db @ [notification_of e m payload t count],
      pb_deliveries := pb_deliveries ?db @ fresh\<rparr>"
    and new: "\<forall>n \<in> set (pb_notifications ?db). pn_id n \<noteq> ?i"
    and keys: "distinct (map delivery_key (pb_deliveries ?db @ fresh))"
    using assms(1) t unfolding count_def fresh_def
    by (simp_all add: enqueuePushNotification_def Let_def list_ex_iff split: if_splits)
  have fresh_id: "pd_notification_id d = ?i" if "d \<in> set fresh" for d
    using that by (auto simp: fresh_def fresh_deliveries_def fresh_delivery_def)
  have old_id: "pd_notification_id d \<noteq> ?i" if "d \<in> set (pb_deliveries ?db)" for d
    using that new assms(2) by (auto simp: world_ok_def notes_ok_def)
  have "requests w (delivery_key d) = 0" if "d \<in> set fresh" for d
    using assms(3) fresh_id [OF that]
    by (auto simp: requests_def claim_of_def claim_key_def delivery_key_def filter_empty_conv)
  then have "delivery_fits w d" if "d \<in> set fresh" for d
    using that by (auto simp: fresh_def fresh_deliveries_def fresh_delivery_def delivery_fits_def delivery_ok_def
        lease_claimed_def unspent_def waiting_def maxAttempts_def)
  moreover have "count = 0 \<Longrightarrow> fresh = []"
    using fresh_id by (simp add: count_def count_where_def add_nonneg_eq_0_iff)
  then have "notes_ok db'"
    using assms(2) new fresh_id old_id
    by (auto simp: world_ok_def notes_ok_def db' has_active_iff notification_of_def)
  ultimately show ?thesis
    using assms(2) keys by (auto simp: world_ok_def db' devices_ok_def)
qed

lemma claim_ledger:
  assumes "ledger_ok w" and "token \<notin> fst ` set (wo_claims w)"
  shows "requests (w\<lparr>wo_db := db', wo_claims := (token, row) # wo_claims w\<rparr>) k = requests w k"
proof -
  have "t \<noteq> token" if "t \<in> set (wo_spent w)" for t
    using that assms by (auto simp: ledger_ok_def)
  then have "filter (\<lambda>t. \<exists>row'. (t = token \<and> row' = row \<or> claim_of w t row') \<and> claim_key row' = k) (wo_spent w) =
      filter (\<lambda>t. \<exists>row'. claim_of w t row' \<and> claim_key row' = k) (wo_spent w)"
    by (intro filter_cong) auto
  then show ?thesis by (simp add: requests_def claim_of_def)
qed

lemma claimNext_row:
  assumes "claimNext now token db = (Some row, db')"
  shows "\<exists>d n. d \<in> set (pb_deliveries db) \<and> n \<in> set (pb_notifications db) \<and> row = claim_row now (d, n) \<and>
    waiting (pd_status d) \<and> pd_next_attempt_at d \<le> now \<and> pn_id n = pd_notification_id d \<and>
    pn_state n = Note_pending \<and> now < pn_expires_at n \<and> db' = lease_push token now row db"
proof -
  from assms obtain dn rest where due: "due_deliveries now db = dn # rest"
    and row: "row = claim_row now dn" "db' = lease_push token now row db"
    by (auto simp: claimNext_def Let_def split: list.splits)
  then have "dn \<in> set (due_deliveries now db)" by simp
  with row show ?thesis by (auto simp: due_deliveries_def)
qed

lemma claim_ok:
  assumes "claimNext now token (wo_db w) = (Some row, db')" and "world_ok w"
    and "token \<notin> fst ` set (wo_claims w)"
  shows "world_ok (w\<lparr>wo_db := db', wo_claims := (token, row) # wo_claims w\<rparr>)"
proof -
  let ?w = "w\<lparr>wo_db := db', wo_claims := (token, row) # wo_claims w\<rparr>"
  let ?P = "\<lambda>d. delivery_key d = claim_key row \<and> waiting (pd_status d)"
  let ?f = "\<lambda>d. d\<lparr>pd_status := Push_sending, pd_attempt_count := pd_attempt_count d + 1,
            pd_lease_token := Some token, pd_lease_expires_at := Some (pc_lease_expires_at row),
            pd_updated_at := now\<rparr>"
  from claimNext_row [OF assms(1)] obtain d0 n where d0: "d0 \<in> set (pb_deliveries (wo_db w))"
    "row = claim_row now (d0, n)" "waiting (pd_status d0)" "db' = lease_push token now row (wo_db w)"
    by blast
  have key: "claim_key row = delivery_key d0" and count: "pc_attempt_count row = pd_attempt_count d0 + 1"
    by (simp_all add: d0(2) claim_row_def claim_key_def delivery_key_def)
  have dist: "distinct (map delivery_key (pb_deliveries (wo_db w)))" and ledger: "ledger_ok w"
    and fits: "\<forall>d \<in> set (pb_deliveries (wo_db w)). delivery_fits w d"
    using assms(2) by (simp_all add: world_ok_def)
  have only: "d = d0" if "d \<in> set (pb_deliveries (wo_db w))" "?P d" for d
    using that d0(1) key dist by (metis distinct_map inj_onD)
  have settling: "settling ?P ?f"
    by (auto simp: settling_def delivery_key_def active_def waiting_def)
  have db': "db' = (wo_db w)\<lparr>pb_deliveries := update_where ?P ?f (pb_deliveries (wo_db w))\<rparr>"
    by (simp add: d0(4) lease_push_def)
  have unspent: "token \<notin> set (wo_spent w)" using ledger assms(3) by (auto simp: ledger_ok_def)
  have req: "requests ?w k = requests w k" for k by (rule claim_ledger [OF ledger assms(3)])
  have "delivery_fits ?w d" if "delivery_fits w d" for d
    using that req
    by (auto simp: delivery_fits_def lease_claimed_def claim_of_def unspent_def split: if_splits)
  moreover have "delivery_fits ?w (?f d0)"
    using fits d0(1,3) key count req unspent
    by (auto simp: delivery_fits_def delivery_ok_def lease_claimed_def claim_of_def unspent_def
        delivery_key_def waiting_def)
  ultimately have "\<forall>d \<in> set (pb_deliveries db'). delivery_fits ?w d"
    using fits only by (auto simp: db' set_update_where)
  moreover have "ledger_ok ?w"
    using ledger assms(3) req by (auto simp: ledger_ok_def)
  moreover have "notes_ok db'"
    using assms(2) unfolding db' by (intro settling_notes_ok [OF settling]) (simp add: world_ok_def)
  ultimately show ?thesis
    using assms(2) by (simp add: world_ok_def db' devices_ok_def settling_keys [OF settling] del: lease_push_def)
qed

lemma requests_spend:
  assumes "ledger_ok w" and "claim_of w token row"
  shows "requests (w\<lparr>wo_spent := token # wo_spent w\<rparr>) k =
    (if k = claim_key row then Suc (requests w k) else requests w k)"
proof -
  have "(\<exists>row'. claim_of w token row' \<and> claim_key row' = k) \<longleftrightarrow> k = claim_key row"
    using assms claim_unique by blast
  then show ?thesis by (simp add: requests_def claim_of_def)
qed

lemma request_ok:
  assumes "world_ok w" and "claim_of w token row" and "token \<notin> set (wo_spent w)"
    and "ownsLease (wo_db w) row token"
  shows "world_ok (w\<lparr>wo_spent := token # wo_spent w\<rparr>)"
proof -
  let ?w = "w\<lparr>wo_spent := token # wo_spent w\<rparr>"
  have ledger: "ledger_ok w" and dist: "distinct (map delivery_key (pb_deliveries (wo_db w)))"
    and fits: "\<forall>d \<in> set (pb_deliveries (wo_db w)). delivery_fits w d"
    using assms(1) by (simp_all add: world_ok_def)
  note req = requests_spend [OF ledger assms(2)]
  from assms(4) obtain d0 where d0: "d0 \<in> set (pb_deliveries (wo_db w))" "held_by row token d0"
    by (auto simp: ownsLease_def list_ex_iff)
  with fits have d0_fits: "delivery_fits w d0" by blast
  have d0_unspent: "unspent w d0 = 1" "delivery_key d0 = claim_key row"
    using d0(2) assms(3) by (simp_all add: unspent_def held_by_def)
  have lease: "lease_claimed ?w d = lease_claimed w d" for d
    by (simp add: lease_claimed_def claim_of_def)
  have fits': "delivery_fits ?w d" if "d \<in> set (pb_deliveries (wo_db w))" for d
  proof (cases "d = d0")
    case True
    then show ?thesis
      using d0_fits d0_unspent d0(2) lease by (simp add: delivery_fits_def req unspent_def held_by_def)
  next
    case False
    then have "delivery_key d \<noteq> claim_key row"
      using that d0 d0_unspent(2) dist by (metis distinct_map inj_onD)
    moreover have "unspent ?w d \<le> unspent w d" by (simp add: unspent_def)
    ultimately show ?thesis
      using fits that lease by (fastforce simp: delivery_fits_def req)
  qed
  have "int (requests w k) \<le> maxAttempts" for k
    using ledger unfolding ledger_ok_def by blast
  moreover have "int (requests w (claim_key row)) + 1 \<le> maxAttempts"
    using d0_fits d0_unspent unfolding delivery_fits_def delivery_ok_def by simp
  ultimately have "int (requests ?w k) \<le> maxAttempts" for k by (simp add: req)
  then have "ledger_ok ?w"
    using ledger assms(2) by (force simp: ledger_ok_def claim_of_def)
  with fits' show ?thesis using assms(1) by (simp add: world_ok_def)
qed

subsection \<open>Every step keeps the world in order\<close>

theorem push_step_ok: "push_step own w w' \<Longrightarrow> world_ok w \<Longrightarrow> world_ok w'"
proof (induction rule: push_step.induct)
  case (enqueue e m payload now w r db')
  then show ?case using enqueue_ok by blast
qed (auto intro: upsert_step_ok device_step_ok recover_ok push_prune_ok forget_ok expire_ok complete_ok claim_ok
    claim_op_ok defer_ok request_ok)

lemma push_steps_ok: "(push_step own)\<^sup>*\<^sup>* w w' \<Longrightarrow> world_ok w \<Longrightarrow> world_ok w'"
  by (induction rule: rtranclp_induct) (auto intro: push_step_ok)

text \<open>The ledger only grows, and never by a token of \<open>own\<close>.\<close>

lemma push_step_ledger:
  assumes "push_step own w w'" and "world_ok w"
  shows "set (wo_claims w) \<subseteq> set (wo_claims w') \<and> requests w k \<le> requests w' k \<and>
    fst ` set (wo_claims w') \<inter> own = fst ` set (wo_claims w) \<inter> own \<and>
    set (wo_spent w') \<inter> own = set (wo_spent w) \<inter> own"
  using assms
proof (induction rule: push_step.induct)
  case (claim now token w row db')
  then have "ledger_ok w" by (simp add: world_ok_def)
  then have req: "requests (w\<lparr>wo_db := db', wo_claims := (token, row) # wo_claims w\<rparr>) k = requests w k"
    using claim.hyps(3) by (rule claim_ledger)
  show ?case using claim.hyps(2) by (auto simp: req)
next
  case (request w token row)
  then show ?case by (auto simp: requests_def claim_of_def)
qed simp_all

lemma push_steps_ledger:
  assumes "(push_step own)\<^sup>*\<^sup>* w w'" and "world_ok w"
  shows "set (wo_claims w) \<subseteq> set (wo_claims w') \<and> requests w k \<le> requests w' k \<and>
    fst ` set (wo_claims w') \<inter> own = fst ` set (wo_claims w) \<inter> own \<and>
    set (wo_spent w') \<inter> own = set (wo_spent w) \<inter> own"
  using assms
proof (induction rule: rtranclp_induct)
  case (step w1 w2)
  then have "world_ok w1" using push_steps_ok by blast
  note last = push_step_ledger [OF step.hyps(2) this, of k]
  with step.IH [OF step.prems] have "requests w k \<le> requests w2 k" by linarith
  with last step.IH [OF step.prems] show ?case by auto
qed simp

lemma push_steps_mono: "(push_step own)\<^sup>*\<^sup>* w w' \<Longrightarrow> (push_step {})\<^sup>*\<^sup>* w w'"
  using push_step_mono by (metis empty_subsetI mono_rtranclp)

end
