(* ===== verification/Push_Simulation.thy ===== *)
theory Push_Simulation
  imports Push_Machine
begin

text \<open>
  The batch loop of \<^verbatim>\<open>processPushOutbox\<close> as a run of atomic steps. What other events do while the worker
  waits is any sequence of steps that uses none of the worker's tokens; every branch of the loop is then
  a sequence of steps of the machine, and every request it makes to a push service is one of them.
\<close>

definition interferes :: "string set \<Rightarrow> (push_db \<Rightarrow> push_db) \<Rightarrow> bool" where
  "interferes own f \<longleftrightarrow>
     (\<forall>w. world_ok w \<longrightarrow> (\<exists>w'. (push_step own)\<^sup>*\<^sup>* w w' \<and> wo_db w' = f (wo_db w)))"

definition env_ok :: "string set \<Rightarrow> push_env \<Rightarrow> bool" where
  "env_ok own env \<longleftrightarrow> pi_token env \<in> own \<and> interferes own (pi_during_alarm env) \<and>
     interferes own (pi_during_access env) \<and> interferes own (pi_during_send env)"

definition sent_for :: "string \<times> string \<Rightarrow> push_send list \<Rightarrow> nat" where
  "sent_for k sent = length (filter (\<lambda>s. claim_key (se_claim s) = k) sent)"

text \<open>
  On the way from \<open>w\<close> to \<open>w'\<close> the request \<open>s\<close> is a step of its own, under a claim for it that was handed out,
  whose token made no request before and holds the lease of the delivery at that moment.
\<close>

definition request_made :: "push_world \<Rightarrow> push_send \<Rightarrow> push_world \<Rightarrow> bool" where
  "request_made w s w' \<longleftrightarrow> (\<exists>w1 token. (push_step {})\<^sup>*\<^sup>* w w1 \<and> claim_of w1 token (se_claim s) \<and>
     token \<notin> set (wo_spent w1) \<and> ownsLease (wo_db w1) (se_claim s) token \<and>
     (push_step {})\<^sup>*\<^sup>* (w1\<lparr>wo_spent := token # wo_spent w1\<rparr>) w')"

lemma request_made_later: "request_made w s w1 \<Longrightarrow> (push_step {})\<^sup>*\<^sup>* w1 w2 \<Longrightarrow> request_made w s w2"
  unfolding request_made_def by (meson rtranclp_trans)

lemma request_made_earlier: "(push_step {})\<^sup>*\<^sup>* w w1 \<Longrightarrow> request_made w1 s w2 \<Longrightarrow> request_made w s w2"
  unfolding request_made_def by (meson rtranclp_trans)

lemma requests_made_trans:
  assumes "(push_step {})\<^sup>*\<^sup>* w w1" and "(push_step {})\<^sup>*\<^sup>* w1 w2"
    and "\<forall>s \<in> set sent. request_made w s w1" and "\<forall>s \<in> set sent'. request_made w1 s w2"
  shows "\<forall>s \<in> set (sent @ sent'). request_made w s w2"
  using assms request_made_later request_made_earlier by fastforce

text \<open>Work that draws no token, makes the requests \<open>sent\<close> and leaves these tables.\<close>

definition worked :: "string set \<Rightarrow> push_world \<Rightarrow> push_send list \<Rightarrow> push_db \<Rightarrow> push_world \<Rightarrow> bool" where
  "worked own w sent db w' \<longleftrightarrow>
     (push_step {})\<^sup>*\<^sup>* w w' \<and> world_ok w' \<and> set (wo_claims w) \<subseteq> set (wo_claims w') \<and>
     fst ` set (wo_claims w') \<inter> own = fst ` set (wo_claims w) \<inter> own \<and>
     (\<forall>k. requests w k + sent_for k sent \<le> requests w' k) \<and>
     (\<forall>s \<in> set sent. request_made w s w') \<and> wo_db w' = db"

lemma worked_stay: "world_ok w \<Longrightarrow> worked own w [] (wo_db w) w"
  by (simp add: worked_def sent_for_def)

lemma worked_trans:
  assumes "worked own w sent db w1" and "worked own w1 sent' db' w2"
  shows "worked own w (sent @ sent') db' w2"
proof -
  have "requests w k + sent_for k (sent @ sent') \<le> requests w2 k" for k
  proof -
    have "requests w k + sent_for k sent \<le> requests w1 k" "requests w1 k + sent_for k sent' \<le> requests w2 k"
      using assms unfolding worked_def by blast+
    then show ?thesis by (simp add: sent_for_def)
  qed
  moreover have "\<forall>s \<in> set (sent @ sent'). request_made w s w2"
    using assms unfolding worked_def by (intro requests_made_trans [of w w1 w2]) blast+
  ultimately show ?thesis using assms unfolding worked_def by auto
qed

lemmas worked_then = worked_trans [where sent = "[]", simplified]

text \<open>One step that only edits the tables.\<close>

lemma worked_step:
  assumes "world_ok w" and "push_step {} w (w\<lparr>wo_db := db\<rparr>)"
  shows "worked own w [] db (w\<lparr>wo_db := db\<rparr>)"
  using push_step_ok [OF assms(2,1)] assms(2) by (auto simp: worked_def sent_for_def)

lemma worked_others:
  assumes "world_ok w" and "(push_step own)\<^sup>*\<^sup>* w w'"
  shows "worked own w [] (wo_db w') w'"
  using push_steps_ledger [OF assms(2,1)] push_steps_ok [OF assms(2,1)] push_steps_mono [OF assms(2)]
  by (simp add: worked_def sent_for_def)

text \<open>
  A stage of the loop: whenever it starts with a claim of its own that made no request yet, on tables
  that satisfy \<open>P\<close>, it ends as a run of steps.
\<close>

definition stage_runs ::
  "string set \<Rightarrow> string \<Rightarrow> push_claim \<Rightarrow> (push_db \<Rightarrow> bool) \<Rightarrow> (push_db \<Rightarrow> push_outcome) \<Rightarrow> bool" where
  "stage_runs own token row P stage \<longleftrightarrow>
     (\<forall>w. world_ok w \<longrightarrow> claim_of w token row \<longrightarrow> token \<notin> set (wo_spent w) \<longrightarrow> P (wo_db w) \<longrightarrow>
        (\<exists>w'. worked own w (fst (snd (stage (wo_db w)))) (snd (snd (stage (wo_db w)))) w'))"

lemma stage_runsI:
  assumes "\<And>w. world_ok w \<Longrightarrow> claim_of w token row \<Longrightarrow> token \<notin> set (wo_spent w) \<Longrightarrow> P (wo_db w) \<Longrightarrow>
    \<exists>w'. worked own w (fst (snd (stage (wo_db w)))) (snd (snd (stage (wo_db w)))) w'"
  shows "stage_runs own token row P stage"
  using assms by (simp add: stage_runs_def)

lemma stage_runsD:
  assumes "stage_runs own token row P stage" and "world_ok w" and "claim_of w token row"
    and "token \<notin> set (wo_spent w)" and "P (wo_db w)"
  shows "\<exists>w'. worked own w (fst (snd (stage (wo_db w)))) (snd (snd (stage (wo_db w)))) w'"
  using assms by (simp add: stage_runs_def)

lemma worked_claim: "worked own w sent db w' \<Longrightarrow> claim_of w token row \<Longrightarrow> claim_of w' token row"
  by (auto simp: worked_def claim_of_def)

lemma worked_ok: "worked own w sent db w' \<Longrightarrow> world_ok w' \<and> wo_db w' = db"
  by (simp add: worked_def)

subsection \<open>Steps of the worker\<close>

lemma runs_device:
  assumes "worked own w sent db w1"
  shows "\<exists>w2. worked own w sent (run_device act db) w2"
proof -
  from worked_ok [OF assms] have ok: "world_ok w1" "wo_db w1 = db" by simp_all
  have "worked own w1 [] (run_device act db) (w1\<lparr>wo_db := run_device act db\<rparr>)"
    using push_step.device [of "{}" w1 act] ok by (intro worked_step) simp_all
  from worked_trans [OF assms this] show ?thesis by auto
qed

lemma runs_claim_op:
  assumes "worked own w sent db w1" and "claim_of w token row"
  shows "\<exists>w2. worked own w sent (run_claim_op oper row token db) w2"
proof -
  from worked_ok [OF assms(1)] have ok: "world_ok w1" "wo_db w1 = db" by simp_all
  have "worked own w1 [] (run_claim_op oper row token db) (w1\<lparr>wo_db := run_claim_op oper row token db\<rparr>)"
    using push_step.settle [OF worked_claim [OF assms], of "{}" oper] ok by (intro worked_step) simp_all
  from worked_trans [OF assms(1) this] show ?thesis by auto
qed

lemma runs_expire:
  assumes "worked own w sent db w1"
  shows "\<exists>w2. worked own w sent (expireNotification i now db) w2"
proof -
  from worked_ok [OF assms] have ok: "world_ok w1" "wo_db w1 = db" by simp_all
  have "worked own w1 [] (expireNotification i now db) (w1\<lparr>wo_db := expireNotification i now db\<rparr>)"
    using push_step.expire [of "{}" w1 i now] ok by (intro worked_step) simp_all
  from worked_trans [OF assms this] show ?thesis by auto
qed

lemma runs_complete:
  assumes "worked own w sent db w1"
  shows "\<exists>w2. worked own w sent (completeNotification i now db) w2"
proof -
  from worked_ok [OF assms] have ok: "world_ok w1" "wo_db w1 = db" by simp_all
  have "worked own w1 [] (completeNotification i now db) (w1\<lparr>wo_db := completeNotification i now db\<rparr>)"
    using push_step.complete [of "{}" w1 i now] ok by (intro worked_step) simp_all
  from worked_trans [OF assms this] show ?thesis by auto
qed

text \<open>The same, for the operations the loop calls by name.\<close>

lemmas runs_terminal = runs_claim_op [where oper = "Claim_terminal now reason http" for now reason http, simplified]
lemmas runs_retry = runs_claim_op [where oper = "Claim_retry now reason" for now reason, simplified]
lemmas runs_accept = runs_claim_op [where oper = "Claim_accept now" for now, simplified]
lemmas runs_mark = runs_claim_op [where oper = "Claim_mark g" for g, simplified]
lemmas runs_failure = runs_device [where act = "Device_failure c now reason" for c now reason, simplified]
lemmas runs_failure_by_identity =
  runs_device [where act = "Device_failure_by_identity i now reason" for i now reason, simplified]
lemmas runs_accepted = runs_device [where act = "Device_accepted c now" for c now, simplified]
lemmas runs_drop_binding = runs_device [where act = "Device_drop_binding i" for i, simplified]
lemmas runs_drop_capability = runs_device [where act = "Device_drop_capability c" for c, simplified]

subsection \<open>The stages\<close>

lemma boundary_runs:
  assumes "stage_runs own token row P continue"
  shows "stage_runs own token row P (unless_boundary startedAt row token boundaryMs continue)"
proof (rule stage_runsI)
  fix w :: push_world
  assume ok: "world_ok w" and claim: "claim_of w token row" and free: "token \<notin> set (wo_spent w)"
    and P: "P (wo_db w)"
  let ?stage = "unless_boundary startedAt row token boundaryMs continue"
  consider "boundaryMs \<ge> latestExpirySendStart row"
    | "boundaryMs < latestExpirySendStart row" "boundaryMs \<ge> latestBatchSendStart startedAt"
    | "boundaryMs < latestExpirySendStart row" "boundaryMs < latestBatchSendStart startedAt" by linarith
  then show "\<exists>w'. worked own w (fst (snd (?stage (wo_db w)))) (snd (snd (?stage (wo_db w)))) w'"
  proof cases
    case 1
    with runs_expire [OF worked_stay [OF ok]] show ?thesis
      by (simp add: unless_boundary_def releaseAtBoundary_def)
  next
    case 2
    have "worked own w [] (deferClaim row token boundaryMs (wo_db w))
        (w\<lparr>wo_db := deferClaim row token boundaryMs (wo_db w)\<rparr>)"
      using push_step.give_back [OF claim _ free, of "{}" boundaryMs] ok by (intro worked_step) simp_all
    with 2 show ?thesis by (auto simp: unless_boundary_def releaseAtBoundary_def)
  next
    case 3
    with stage_runsD [OF assms ok claim free P] show ?thesis
      by (simp add: unless_boundary_def releaseAtBoundary_def)
  qed
qed

lemma response_runs:
  assumes "worked own w sent db w1" and "claim_of w token row"
  shows "\<exists>w2. worked own w sent (settle_response row token c result finishedAt retryAt db) w2"
proof (cases result)
  case Send_ok
  from runs_accept [OF assms] obtain w2 where "worked own w sent (accept row token finishedAt db) w2" ..
  from runs_accepted [OF this] obtain w3
    where "worked own w sent (device_accepted c finishedAt (accept row token finishedAt db)) w3" ..
  from runs_complete [OF this] Send_ok show ?thesis by (simp add: settle_response_def)
next
  case (Send_failed reason delete status)
  have ended: "\<exists>w2. worked own w sent (terminal row token finishedAt r status db) w2" for r
    using runs_terminal [OF assms] .
  have failed: "\<exists>w2. worked own w sent (updateDeviceFailure c finishedAt r
      (terminal row token finishedAt r status db)) w2" for r
    using ended runs_failure by blast
  have dropped: "\<exists>w2. worked own w sent (drop_capability c (terminal row token finishedAt r status db)) w2" for r
    using ended runs_drop_capability by blast
  have "\<exists>w2. worked own w sent (retry row token retryAt Temporary_issue
      (updateDeviceFailure c finishedAt Temporary_issue db)) w2"
    using runs_failure [OF assms(1)] runs_retry assms(2) by blast
  then show ?thesis
    unfolding settle_response_def Send_failed send_result.case
    using failed dropped by (cases "status = Some 404 \<or> status = Some 410"; cases "status = Some 413") auto
qed

lemma after_send_runs:
  assumes "worked own w sent db w1" and "claim_of w (pi_token env) row"
  shows "\<exists>w2. worked own w sent (snd (after_send startedAt env row c outcome db)) w2"
proof -
  obtain result timedOut where outcome: "outcome = (result, timedOut)" by (cases outcome)
  have "\<exists>w2. worked own w sent (retry row (pi_token env) t Temporary_issue
      (updateDeviceFailure c t Temporary_issue db)) w2" for t
    using runs_failure [OF assms(1)] runs_retry assms(2) by blast
  with assms runs_retry [OF assms] runs_expire [OF assms(1)] response_runs [OF assms] show ?thesis
    by (auto simp: after_send_def outcome Let_def)
qed

lemma mark_lease: "ownsLease (mark_generation row token g db) row token = ownsLease db row token"
proof -
  have "held_by row token (d\<lparr>pd_attempted_generation := Some g\<rparr>) = held_by row token d" for d
    by (simp add: held_by_def delivery_key_def)
  then show ?thesis
    by (simp add: ownsLease_def mark_generation_def update_where_def list_ex_iff if_distrib
        del: if_image_distrib cong: if_cong)
qed

text \<open>The request itself, made while the lease is held.\<close>

lemma worked_request:
  assumes "world_ok w" and "claim_of w token row" and "token \<notin> set (wo_spent w)" and "ownsLease (wo_db w) row token"
    and "se_claim s = row"
  shows "worked own w [s] (wo_db w) (w\<lparr>wo_spent := token # wo_spent w\<rparr>)"
proof -
  have "push_step {} w (w\<lparr>wo_spent := token # wo_spent w\<rparr>)"
    using assms by (intro push_step.request) simp_all
  moreover have "requests w k + sent_for k [s] \<le> requests (w\<lparr>wo_spent := token # wo_spent w\<rparr>) k" for k
    using requests_spend [of w token row] assms(1,2,5) by (simp add: world_ok_def sent_for_def)
  moreover have "request_made w s (w\<lparr>wo_spent := token # wo_spent w\<rparr>)"
    unfolding request_made_def using assms(2-5) by blast
  ultimately show ?thesis
    using request_ok [OF assms(1-4)] by (auto simp: worked_def)
qed

lemma interferes_worked:
  assumes "interferes own f" and "worked own w sent db w1"
  shows "\<exists>w2. worked own w sent (f db) w2"
proof -
  from worked_ok [OF assms(2)] assms(1) obtain w2
    where "(push_step own)\<^sup>*\<^sup>* w1 w2" "wo_db w2 = f db" by (auto simp: interferes_def)
  with worked_others [of w1 own w2] worked_ok [OF assms(2)] have "worked own w1 [] (f db) w2" by simp
  from worked_trans [OF assms(2) this] show ?thesis by auto
qed

lemma send_claim_runs:
  assumes "env_ok own env"
  shows "stage_runs own (pi_token env) row (\<lambda>db. ownsLease db row (pi_token env))
    (send_claim startedAt env row payload c)"
proof (rule stage_runsI)
  fix w :: push_world
  let ?t = "pi_token env" and ?db = "mark_generation row (pi_token env) (si_generation c) (wo_db w)"
  let ?s = "\<lparr>se_claim = row, se_capability = c, se_payload = payload, se_deadline = sendDeadline startedAt row\<rparr>"
  assume ok: "world_ok w" and claim: "claim_of w ?t row" and free: "?t \<notin> set (wo_spent w)"
    and lease: "ownsLease (wo_db w) row ?t"
  have marked: "worked own w [] ?db (w\<lparr>wo_db := ?db\<rparr>)"
    using push_step.settle [OF claim, of "{}" "Claim_mark (si_generation c)"] ok by (intro worked_step) simp_all
  obtain requested outcome where
    race: "sendPushBeforeDeadline (sendDeadline startedAt row) (pi_send_from env) (pi_send env) = (requested, outcome)"
    by (cases "sendPushBeforeDeadline (sendDeadline startedAt row) (pi_send_from env) (pi_send env)")
  show "\<exists>w'. worked own w (fst (snd (send_claim startedAt env row payload c (wo_db w))))
      (snd (snd (send_claim startedAt env row payload c (wo_db w)))) w'"
  proof (cases requested)
    case True
    have "worked own (w\<lparr>wo_db := ?db\<rparr>) [?s] ?db (w\<lparr>wo_db := ?db, wo_spent := ?t # wo_spent w\<rparr>)"
      using worked_request [of "w\<lparr>wo_db := ?db\<rparr>" ?t row ?s own] worked_ok [OF marked] claim free lease
      by (simp add: mark_lease)
    then have "worked own w [?s] ?db (w\<lparr>wo_db := ?db, wo_spent := ?t # wo_spent w\<rparr>)"
      by (rule worked_then [OF marked])
    from interferes_worked [OF _ this] assms obtain w2 where "worked own w [?s] (pi_during_send env ?db) w2"
      by (auto simp: env_ok_def)
    from after_send_runs [OF this claim] True race show ?thesis
      by (simp add: send_claim_def Let_def case_prod_beta)
  next
    case False
    from after_send_runs [OF marked claim] False race show ?thesis
      by (simp add: send_claim_def Let_def case_prod_beta)
  qed
qed

lemma authorized_runs:
  assumes "env_ok own env"
  shows "stage_runs own (pi_token env) row (\<lambda>db. ownsLease db row (pi_token env))
    (authorized_send startedAt env row payload)"
proof (rule stage_runsI)
  fix w :: push_world
  assume start: "world_ok w" "claim_of w (pi_token env) row" "pi_token env \<notin> set (wo_spent w)"
    "ownsLease (wo_db w) row (pi_token env)"
  show "\<exists>w'. worked own w (fst (snd (authorized_send startedAt env row payload (wo_db w))))
      (snd (snd (authorized_send startedAt env row payload (wo_db w)))) w'"
    using runs_terminal [OF worked_stay [OF start(1)] start(2)]
      stage_runsD [OF boundary_runs [OF send_claim_runs [OF assms]] start]
    by (cases "capability (wo_db w) (pc_subscription_id row) (pc_target_user_id row)")
      (simp_all add: authorized_send_def)
qed

text \<open>After a wait the claim is still there and has still made no request.\<close>

lemma wait_runs:
  assumes "interferes own f" and "world_ok w" and "claim_of w token row" and "token \<notin> set (wo_spent w)"
    and "token \<in> own"
    and "\<And>w1. world_ok w1 \<Longrightarrow> claim_of w1 token row \<Longrightarrow> token \<notin> set (wo_spent w1) \<Longrightarrow>
      wo_db w1 = f (wo_db w) \<Longrightarrow> \<exists>w'. worked own w1 sent db w'"
  shows "\<exists>w'. worked own w sent db w'"
proof -
  from assms(1,2) obtain w1 where steps: "(push_step own)\<^sup>*\<^sup>* w w1" and db: "wo_db w1 = f (wo_db w)"
    by (auto simp: interferes_def)
  have worked: "worked own w [] (f (wo_db w)) w1" using worked_others [OF assms(2) steps] db by simp
  have "token \<notin> set (wo_spent w1)"
    using push_steps_ledger [OF steps assms(2), of "(token, token)"] assms(4,5) by blast
  from assms(6) [OF _ worked_claim [OF worked assms(3)] this db] worked_ok [OF worked]
  obtain w' where "worked own w1 sent db w'" by auto
  from worked_then [OF worked this] show ?thesis ..
qed

lemma await_runs:
  assumes "interferes own f" and "token \<in> own"
    and "\<And>a. stage_runs own token row (\<lambda>_. True) (k a)"
  shows "stage_runs own token row (\<lambda>_. True) (\<lambda>db. case awaitBeforeDeadline answer remaining f db of (a, db') \<Rightarrow> k a db')"
proof (rule stage_runsI)
  fix w :: push_world
  assume start: "world_ok w" "claim_of w token row" "token \<notin> set (wo_spent w)"
  note run = stage_runsD [OF assms(3), simplified]
  show "\<exists>w'. worked own w (fst (snd (case awaitBeforeDeadline answer remaining f (wo_db w) of (a, db') \<Rightarrow> k a db')))
      (snd (snd (case awaitBeforeDeadline answer remaining f (wo_db w) of (a, db') \<Rightarrow> k a db'))) w'"
  proof (cases "remaining \<le> 0")
    case True
    with run [OF start] show ?thesis by (simp add: awaitBeforeDeadline_def)
  next
    case False
    have "\<exists>w'. worked own w (fst (snd (k answer (f (wo_db w))))) (snd (snd (k answer (f (wo_db w))))) w'"
      by (rule wait_runs [OF assms(1) start assms(2)]) (metis run)
    with False show ?thesis by (simp add: awaitBeforeDeadline_def)
  qed
qed

lemma stage_const:
  assumes "\<And>w. world_ok w \<Longrightarrow> claim_of w token row \<Longrightarrow> \<exists>w'. worked own w [] (f (wo_db w)) w'"
  shows "stage_runs own token row P (\<lambda>db. (c, [], f db))"
  using assms by (intro stage_runsI) simp

lemma stage_retry_identity:
  "stage_runs own token row P
     (\<lambda>db. (c, [], retry row token t reason (updateDeviceFailureByIdentity i t' reason' db)))"
proof (rule stage_const)
  fix w :: push_world assume ok: "world_ok w" and claim: "claim_of w token row"
  from runs_failure_by_identity [OF worked_stay [OF ok]] runs_retry claim
  show "\<exists>w'. worked own w [] (retry row token t reason (updateDeviceFailureByIdentity i t' reason' (wo_db w))) w'"
    by blast
qed

lemma stage_terminal: "stage_runs own token row P (\<lambda>db. (c, [], terminal row token t reason http db))"
  by (rule stage_const) (rule runs_terminal [OF worked_stay])

lemma check_access_runs:
  assumes "env_ok own env"
  shows "stage_runs own (pi_token env) row (\<lambda>_. True) (check_access startedAt env row payload i)"
proof -
  let ?t = "pi_token env"
  define k where "k = (\<lambda>answer db'. case answer of
        None \<Rightarrow> unless_boundary startedAt row ?t (pi_access_failed env)
            (\<lambda>db'. (Batch_continue, [],
               retry row ?t (pi_access_failed env) Service_unavailable
                 (updateDeviceFailureByIdentity i (pi_access_failed env) Service_unavailable db'))) db'
      | Some authorized \<Rightarrow>
          if \<not> ownsLease db' row ?t then (Batch_continue, [], db')
          else if \<not> authorized
          then (Batch_continue, [], drop_binding i (terminal row ?t (pi_denied env) Authorization_revoked None db'))
          else authorized_send startedAt env row payload db')"
  have "stage_runs own ?t row (\<lambda>_. True) (k answer)" for answer
  proof (cases answer)
    case None
    then show ?thesis
      unfolding k_def option.case using boundary_runs [OF stage_retry_identity, of own ?t row "\<lambda>_. True"] by simp
  next
    case (Some authorized)
    show ?thesis
    proof (rule stage_runsI)
      fix w :: push_world
      assume start: "world_ok w" "claim_of w ?t row" "?t \<notin> set (wo_spent w)"
      from runs_terminal [OF worked_stay [OF start(1)] start(2)] runs_drop_binding
      have denied: "\<exists>w'. worked own w [] (drop_binding i
          (terminal row ?t (pi_denied env) Authorization_revoked None (wo_db w))) w'" by blast
      show "\<exists>w'. worked own w (fst (snd (k answer (wo_db w)))) (snd (snd (k answer (wo_db w)))) w'"
        using denied worked_stay [OF start(1)] stage_runsD [OF authorized_runs [OF assms] start]
        by (auto simp: k_def Some)
    qed
  qed
  from await_runs [where k = k, OF _ _ this, of "pi_during_access env"
      "pi_access env (pc_target_user_id row) (pc_mailbox_id row)"
      "latestSendStart startedAt row - pi_access_from env"] assms
  have "stage_runs own ?t row (\<lambda>_. True) (\<lambda>db. case awaitBeforeDeadline
      (pi_access env (pc_target_user_id row) (pc_mailbox_id row)) (latestSendStart startedAt row - pi_access_from env) (pi_during_access env) db of (a, db') \<Rightarrow> k a db')"
    by (simp add: env_ok_def)
  moreover have "check_access startedAt env row payload i = (\<lambda>db. case awaitBeforeDeadline
      (pi_access env (pc_target_user_id row) (pc_mailbox_id row)) (latestSendStart startedAt row - pi_access_from env) (pi_during_access env) db of (a, db') \<Rightarrow> k a db')"
    by (intro ext) (simp add: check_access_def k_def Let_def split: option.split prod.split)
  ultimately show ?thesis by simp
qed

lemma check_claim_runs:
  assumes "env_ok own env"
  shows "stage_runs own (pi_token env) row (\<lambda>_. True) (check_claim deps startedAt env row)"
proof (rule stage_runsI)
  fix w :: push_world
  let ?out = "check_claim deps startedAt env row (wo_db w)"
  assume start: "world_ok w" "claim_of w (pi_token env) row" "pi_token env \<notin> set (wo_spent w)"
  note ended = runs_terminal [OF worked_stay [OF start(1)] start(2), of own]
  note access = stage_runsD [OF check_access_runs [OF assms] start, simplified]
  show "\<exists>w'. worked own w (fst (snd ?out)) (snd (snd ?out)) w'"
    using ended access by (auto simp: check_claim_def Let_def split: option.split)
qed

lemma alarm_failed_runs:
  "stage_runs own (pi_token env) row P (alarm_failed startedAt env row)"
proof -
  let ?t = "pi_token env" and ?at = "pi_alarm_failed env"
  let ?f = "\<lambda>db'. retry row ?t ?at Service_unavailable
     (case identity db' (pc_subscription_id row) of
        None \<Rightarrow> db'
      | Some i \<Rightarrow> if si_userId i = pc_target_user_id row
                   then updateDeviceFailureByIdentity i ?at Service_unavailable db' else db')"
  have "stage_runs own ?t row P (\<lambda>db'. (Batch_continue, [], ?f db'))"
  proof (rule stage_const)
    fix w :: push_world assume ok: "world_ok w" and claim: "claim_of w ?t row"
    from runs_failure_by_identity [OF worked_stay [OF ok]] runs_retry claim
    have "\<exists>w'. worked own w [] (retry row ?t ?at Service_unavailable
      (updateDeviceFailureByIdentity i ?at Service_unavailable (wo_db w))) w'" for i by blast
    then show "\<exists>w'. worked own w [] (?f (wo_db w)) w'"
      using runs_retry [OF worked_stay [OF ok] claim] by (auto split: option.split)
  qed
  from boundary_runs [OF this] show ?thesis unfolding alarm_failed_def Let_def .
qed

lemma work_claim_runs:
  assumes "env_ok own env"
  shows "stage_runs own (pi_token env) row (\<lambda>_. True) (work_claim deps startedAt env row)"
proof (cases "pw_scheduleAlarm deps")
  case True
  define k where "k = (\<lambda>(answer :: unit option) db'. case answer of
      None \<Rightarrow> alarm_failed startedAt env row db' | Some _ \<Rightarrow> check_claim deps startedAt env row db')"
  have "stage_runs own (pi_token env) row (\<lambda>_. True) (k answer)" for answer
    using alarm_failed_runs check_claim_runs [OF assms] by (cases answer) (auto simp: k_def)
  from await_runs [where k = k, OF _ _ this] assms
  have "stage_runs own (pi_token env) row (\<lambda>_. True) (\<lambda>db. case awaitBeforeDeadline
      (if pi_alarm env then Some () else None) (latestSendStart startedAt row - pi_alarm_from env)
      (pi_during_alarm env) db of (a, db') \<Rightarrow> k a db')"
    by (simp add: env_ok_def)
  moreover have "work_claim deps startedAt env row = (\<lambda>db. case awaitBeforeDeadline
      (if pi_alarm env then Some () else None) (latestSendStart startedAt row - pi_alarm_from env)
      (pi_during_alarm env) db of (a, db') \<Rightarrow> k a db')"
    by (intro ext) (simp add: work_claim_def k_def True split: option.split prod.split)
  ultimately show ?thesis by simp
next
  case False
  then have "work_claim deps startedAt env row = check_claim deps startedAt env row"
    by (intro ext) (simp add: work_claim_def)
  then show ?thesis using check_claim_runs [OF assms] by simp
qed

subsection \<open>The batch\<close>

text \<open>Work that may draw the tokens \<open>used\<close>.\<close>

definition ran ::
  "string set \<Rightarrow> string set \<Rightarrow> push_world \<Rightarrow> push_send list \<Rightarrow> push_db \<Rightarrow> push_world \<Rightarrow> bool" where
  "ran own used w sent db w' \<longleftrightarrow>
     (push_step {})\<^sup>*\<^sup>* w w' \<and> world_ok w' \<and>
     fst ` set (wo_claims w') \<inter> own \<subseteq> fst ` set (wo_claims w) \<inter> own \<union> used \<and>
     (\<forall>k. requests w k + sent_for k sent \<le> requests w' k) \<and>
     (\<forall>s \<in> set sent. request_made w s w') \<and> wo_db w' = db"

lemma worked_ran: "worked own w sent db w' \<Longrightarrow> ran own used w sent db w'"
  by (auto simp: worked_def ran_def)

lemma ran_trans:
  assumes "ran own used w sent db w1" and "ran own used' w1 sent' db' w2"
  shows "ran own (used \<union> used') w (sent @ sent') db' w2"
proof -
  have "requests w k + sent_for k (sent @ sent') \<le> requests w2 k" for k
  proof -
    have "requests w k + sent_for k sent \<le> requests w1 k" "requests w1 k + sent_for k sent' \<le> requests w2 k"
      using assms unfolding ran_def by blast+
    then show ?thesis by (simp add: sent_for_def)
  qed
  moreover have "fst ` set (wo_claims w2) \<inter> own \<subseteq> fst ` set (wo_claims w) \<inter> own \<union> (used \<union> used')"
    using assms unfolding ran_def by blast
  moreover have "(push_step {})\<^sup>*\<^sup>* w w2"
    using assms unfolding ran_def by (blast intro: rtranclp_trans)
  moreover have "\<forall>s \<in> set (sent @ sent'). request_made w s w2"
    using assms unfolding ran_def by (intro requests_made_trans [of w w1 w2]) blast+
  ultimately show ?thesis using assms(2) unfolding ran_def by blast
qed

lemma ran_own: "ran own used w sent db w' \<Longrightarrow> used \<subseteq> used' \<Longrightarrow> ran own used' w sent db w'"
  unfolding ran_def by blast

lemma process_one_runs:
  assumes "env_ok own env" and "world_ok w" and "pi_token env \<notin> fst ` set (wo_claims w)"
  shows "\<exists>w'. ran own {pi_token env} w (fst (snd (process_one deps startedAt env (wo_db w))))
    (snd (snd (process_one deps startedAt env (wo_db w)))) w'"
proof (cases "pi_guard env - startedAt \<ge> batchWallMs - sendBudgetMs - finalizationBudgetMs")
  case True
  with worked_ran [OF worked_stay [OF assms(2)]] show ?thesis by (auto simp: process_one_def)
next
  case on_time: False
  obtain claimed db1 where attempt: "claimNext (pi_now env) (pi_token env) (wo_db w) = (claimed, db1)"
    by (cases "claimNext (pi_now env) (pi_token env) (wo_db w)")
  show ?thesis
  proof (cases claimed)
    case None
    with attempt have "db1 = wo_db w" by (auto simp: claimNext_def Let_def split: list.splits)
    with None attempt on_time worked_ran [OF worked_stay [OF assms(2)]] show ?thesis
      by (auto simp: process_one_def)
  next
    case (Some row)
    let ?t = "pi_token env"
    let ?w1 = "w\<lparr>wo_db := db1, wo_claims := (?t, row) # wo_claims w\<rparr>"
    let ?stage = "unless_boundary startedAt row ?t (pi_boundary env) (work_claim deps startedAt env row)"
    from attempt Some have claim: "claimNext (pi_now env) ?t (wo_db w) = (Some row, db1)" by simp
    have ledger: "ledger_ok w" using assms(2) by (simp add: world_ok_def)
    have ok1: "world_ok ?w1" by (rule claim_ok [OF claim assms(2,3)])
    have "?t \<notin> set (wo_spent w)" using ledger assms(3) by (auto simp: ledger_ok_def)
    then have "\<exists>w'. worked own ?w1 (fst (snd (?stage (wo_db ?w1)))) (snd (snd (?stage (wo_db ?w1)))) w'"
      using ok1 by (intro stage_runsD [OF boundary_runs [OF work_claim_runs [OF assms(1)]]])
        (simp_all add: claim_of_def)
    then obtain w' where "worked own ?w1 (fst (snd (?stage db1))) (snd (snd (?stage db1))) w'" by auto
    from worked_ran [OF this] have "ran own {} ?w1 (fst (snd (?stage db1))) (snd (snd (?stage db1))) w'" .
    moreover have "ran own {?t} w [] db1 ?w1"
      using push_step.claim [OF claim _ assms(3), of "{}"] ok1 claim_ledger [OF ledger assms(3)]
      by (auto simp: ran_def sent_for_def)
    ultimately have "ran own {?t} w (fst (snd (?stage db1))) (snd (snd (?stage db1))) w'"
      using ran_trans by fastforce
    then show ?thesis using on_time attempt Some by (auto simp: process_one_def)
  qed
qed

lemma process_batch_runs:
  assumes "\<forall>m < n. env_ok own (envs m)" and "world_ok w" and "inj_on (\<lambda>m. pi_token (envs m)) {..<n}"
    and "\<forall>m < n. pi_token (envs m) \<notin> fst ` set (wo_claims w)"
  shows "\<exists>w'. ran own ((\<lambda>m. pi_token (envs m)) ` {..<n}) w
    (fst (process_batch n deps startedAt envs (wo_db w)))
    (snd (process_batch n deps startedAt envs (wo_db w))) w'"
  using assms
proof (induction n arbitrary: w)
  case 0
  with worked_ran [OF worked_stay] show ?case by auto
next
  case (Suc n)
  let ?one = "process_one deps startedAt (envs n) (wo_db w)"
  let ?tokens = "\<lambda>n. (\<lambda>m. pi_token (envs m)) ` {..<n}"
  from Suc.prems obtain w1 where
    one: "ran own {pi_token (envs n)} w (fst (snd ?one)) (snd (snd ?one)) w1"
    using process_one_runs [of own "envs n" w deps startedAt] by auto
  show ?case
  proof (cases "fst ?one")
    case Batch_break
    have "ran own (?tokens (Suc n)) w (fst (snd ?one)) (snd (snd ?one)) w1"
      by (rule ran_own [OF one]) auto
    with Batch_break show ?thesis by (auto simp: split: prod.splits control.splits)
  next
    case Batch_continue
    from one have w1: "world_ok w1" "wo_db w1 = snd (snd ?one)" by (simp_all add: ran_def)
    have "pi_token (envs m) \<notin> fst ` set (wo_claims w1)" if "m < n" for m
    proof -
      have "pi_token (envs m) \<in> own" using Suc.prems(1) that by (simp add: env_ok_def)
      moreover have "pi_token (envs m) \<noteq> pi_token (envs n)"
        using Suc.prems(3) that by (force dest: inj_onD)
      moreover have "pi_token (envs m) \<notin> fst ` set (wo_claims w)" using Suc.prems(4) that by simp
      ultimately show ?thesis using one by (auto simp: ran_def)
    qed
    moreover have "inj_on (\<lambda>m. pi_token (envs m)) {..<n}"
      using Suc.prems(3) by (rule inj_on_subset) auto
    ultimately obtain w2 where
      rest: "ran own (?tokens n) w1 (fst (process_batch n deps startedAt envs (snd (snd ?one))))
        (snd (process_batch n deps startedAt envs (snd (snd ?one)))) w2"
      using Suc.IH [of w1] Suc.prems(1) w1 by auto
    have "ran own (?tokens (Suc n)) w
        (fst (snd ?one) @ fst (process_batch n deps startedAt envs (snd (snd ?one))))
        (snd (process_batch n deps startedAt envs (snd (snd ?one)))) w2"
      using ran_own [OF ran_trans [OF one rest]] by (auto simp: lessThan_Suc)
    with Batch_continue show ?thesis by (auto simp: Let_def split: prod.splits control.splits)
  qed
qed

lemma ran_step:
  assumes "world_ok w" and "push_step {} w (w\<lparr>wo_db := db\<rparr>)"
  shows "ran own {} w [] db (w\<lparr>wo_db := db\<rparr>)"
  by (rule worked_ran [OF worked_step [OF assms]])

lemma outbox_runs:
  assumes "\<forall>m < batchSize. env_ok own (envs m)" and "world_ok w"
    and "inj_on (\<lambda>m. pi_token (envs m)) {..<batchSize}"
    and "\<forall>m < batchSize. pi_token (envs m) \<notin> fst ` set (wo_claims w)"
    and "processPushOutbox deps startedAt envs finishedAt (wo_db w) = (due, sent, db')"
  shows "\<exists>w' used. ran own used w sent db' w'"
proof -
  let ?db1 = "recoverAndExpire startedAt (wo_db w)"
  let ?db2 = "prune (startedAt - retentionMs) ?db1"
  let ?w1 = "w\<lparr>wo_db := ?db1\<rparr>" and ?w2 = "w\<lparr>wo_db := ?db2\<rparr>"
  let ?batch = "process_batch batchSize deps startedAt envs ?db2"
  have one: "ran own {} w [] ?db1 ?w1" by (rule ran_step [OF assms(2) push_step.recover])
  then have "world_ok ?w1" by (simp add: ran_def)
  from ran_step [OF this, of ?db2] push_step.prune [of "{}" ?w1 "startedAt - retentionMs"]
  have two: "ran own {} ?w1 [] ?db2 ?w2" by simp
  then have "world_ok ?w2" by (simp add: ran_def)
  with process_batch_runs [of batchSize own envs ?w2 deps startedAt] assms(1,3,4)
  obtain w3 used where three: "ran own used ?w2 (fst ?batch) (snd ?batch) w3" by auto
  then have w3: "world_ok w3" "wo_db w3 = snd ?batch" by (simp_all add: ran_def)
  from ran_step [OF w3(1) push_step.recover, of own finishedAt]
  have four: "ran own {} w3 [] (recoverAndExpire finishedAt (snd ?batch))
      (w3\<lparr>wo_db := recoverAndExpire finishedAt (wo_db w3)\<rparr>)" by (simp add: w3(2))
  from ran_trans [OF ran_trans [OF ran_trans [OF one two] three] four] assms(5) show ?thesis
    by (auto simp: processPushOutbox_def Let_def case_prod_beta)
qed

end
