(* ===== verification/Push_Guarantees.thy ===== *)
theory Push_Guarantees
  imports Push_Simulation Lease_Protocol
begin

text \<open>
  What the push outbox promises: a bounded number of requests per device and message, requests only on
  valid claims, answers that settle a claim once and never touch a device that was registered anew,
  and tables in which nothing is forgotten.
\<close>

subsection \<open>The batch as a run of the machine\<close>

text \<open>
  C14: One alarm's work on the push outbox is a sequence of atomic steps of the outbox machine, whatever
  other events of the mailbox do while it waits for the access check, the alarm or the push service,
  as long as they use none of its tokens: registrations, other batches, or the deletion of the messages
  themselves, which deletes their notifications and deliveries. Each request it makes is a step of its
  own on that way, under a claim that still owns the lease of its delivery and has made no request yet.
\<close>
theorem push_batch_refines_steps:
  assumes "world_ok w" and "\<forall>m < batchSize. env_ok own (envs m)"
    and "inj_on (\<lambda>m. pi_token (envs m)) {..<batchSize}"
    and "\<forall>m < batchSize. pi_token (envs m) \<notin> fst ` set (wo_claims w)"
    and "processPushOutbox deps startedAt envs finishedAt (wo_db w) = (due, sent, db')"
  shows "\<exists>w'. (push_step {})\<^sup>*\<^sup>* w w' \<and> wo_db w' = db' \<and>
    (\<forall>s \<in> set sent. request_made w s w') \<and> (\<forall>k. requests w k + sent_for k sent \<le> requests w' k)"
  using outbox_runs [OF assms(2,1,3-5)] unfolding ran_def by blast

text \<open>
  C13: A device is asked at most four times per message: the requests already made for a delivery and the
  ones a batch makes together never exceed the limit, however often leases are lost, claims are given
  back and batches run.
\<close>
theorem push_requests_are_bounded:
  assumes "world_ok w" and "\<forall>m < batchSize. env_ok own (envs m)"
    and "inj_on (\<lambda>m. pi_token (envs m)) {..<batchSize}"
    and "\<forall>m < batchSize. pi_token (envs m) \<notin> fst ` set (wo_claims w)"
    and "processPushOutbox deps startedAt envs finishedAt (wo_db w) = (due, sent, db')"
  shows "int (requests w k + sent_for k sent) \<le> maxAttempts"
proof -
  from outbox_runs [OF assms(2,1,3-5)] obtain w' used where run: "ran own used w sent db' w'" by blast
  then have "requests w k + sent_for k sent \<le> requests w' k" unfolding ran_def by blast
  moreover have "int (requests w' k) \<le> maxAttempts"
    using run unfolding ran_def world_ok_def ledger_ok_def by blast
  ultimately show ?thesis by linarith
qed

text \<open>
  C15: After every batch the tables are in order: each delivery has made at most four attempts, one that
  waits has an attempt left, a lease is held exactly while a delivery is being sent, and a notification
  that is completed, expired or had no targets has no delivery left to send.
\<close>
theorem push_tables_stay_in_order:
  assumes "world_ok w" and "\<forall>m < batchSize. env_ok own (envs m)"
    and "inj_on (\<lambda>m. pi_token (envs m)) {..<batchSize}"
    and "\<forall>m < batchSize. pi_token (envs m) \<notin> fst ` set (wo_claims w)"
    and "processPushOutbox deps startedAt envs finishedAt (wo_db w) = (due, sent, db')"
  shows "(\<forall>d \<in> set (pb_deliveries db').
       pd_attempt_count d \<le> maxAttempts \<and>
       (waiting (pd_status d) \<longrightarrow> pd_attempt_count d < maxAttempts) \<and>
       (pd_lease_token d \<noteq> None \<longleftrightarrow> pd_status d = Push_sending)) \<and>
    (\<forall>n \<in> set (pb_notifications db'). pn_state n \<noteq> Note_pending \<longrightarrow>
       (\<forall>d \<in> set (pb_deliveries db'). pd_notification_id d = pn_id n \<longrightarrow> \<not> active (pd_status d)))"
proof -
  from outbox_runs [OF assms(2,1,3-5)] obtain w' where "world_ok w'" "wo_db w' = db'"
    unfolding ran_def by blast
  then have "push_sound db'" using world_sound by blast
  then show ?thesis
    by (auto simp: push_sound_def delivery_ok_def notes_ok_def has_active_iff)
qed

subsection \<open>Requests\<close>

lemma unless_boundary_sent:
  "s \<in> set (fst (snd (unless_boundary startedAt row token t continue db))) \<Longrightarrow>
     t < latestExpirySendStart row \<and> t < latestBatchSendStart startedAt \<and>
     s \<in> set (fst (snd (continue db)))"
  by (auto simp: unless_boundary_def releaseAtBoundary_def split: if_splits)

lemma send_claim_sent:
  "s \<in> set (fst (snd (send_claim startedAt env row payload c db))) \<Longrightarrow>
     s = \<lparr>se_claim = row, se_capability = c, se_payload = payload, se_deadline = sendDeadline startedAt row\<rparr>"
  by (auto simp: send_claim_def Let_def case_prod_beta split: if_splits)

text \<open>What holds of every request, and of the readings and answers it followed.\<close>

definition rightful :: "push_deps \<Rightarrow> instant \<Rightarrow> push_env \<Rightarrow> push_send \<Rightarrow> bool" where
  "rightful deps startedAt env s \<longleftrightarrow>
     pw_vapidConfigured deps \<and>
     pi_access env (pc_target_user_id (se_claim s)) (pc_mailbox_id (se_claim s)) = Some True \<and>
     (\<exists>db db'. claimNext (pi_now env) (pi_token env) db = (Some (se_claim s), db')) \<and>
     (\<exists>db. capability db (pc_subscription_id (se_claim s)) (pc_target_user_id (se_claim s)) = Some (se_capability s)) \<and>
     validateStoredPushPayload (se_payload s) (pc_email_id (se_claim s)) (pc_mailbox_id (se_claim s)) \<and>
     si_id (se_capability s) = pc_subscription_id (se_claim s) \<and>
     si_userId (se_capability s) = pc_target_user_id (se_claim s) \<and>
     pi_before_send env + sendBudgetMs < se_deadline s \<and>
     se_deadline s \<le> pc_expires_at (se_claim s) - finalizationBudgetMs \<and>
     se_deadline s \<le> startedAt + batchWallMs - finalizationBudgetMs"

lemma authorized_sent:
  assumes "s \<in> set (fst (snd (authorized_send startedAt env row payload db)))"
  shows "se_claim s = row \<and> se_payload s = payload \<and> si_id (se_capability s) = pc_subscription_id row \<and>
    si_userId (se_capability s) = pc_target_user_id row \<and>
    (\<exists>db. capability db (pc_subscription_id row) (pc_target_user_id row) = Some (se_capability s)) \<and>
    se_deadline s = sendDeadline startedAt row \<and>
    pi_before_send env < latestExpirySendStart row \<and> pi_before_send env < latestBatchSendStart startedAt"
proof (cases "capability db (pc_subscription_id row) (pc_target_user_id row)")
  case (Some c)
  then have "si_id c = pc_subscription_id row" "si_userId c = pc_target_user_id row"
    by (auto simp: capability_def find_Some_iff)
  with assms Some show ?thesis
    by (auto simp: authorized_send_def dest!: unless_boundary_sent send_claim_sent)
qed (use assms in \<open>simp add: authorized_send_def\<close>)

lemma check_access_sent:
  assumes "s \<in> set (fst (snd (check_access startedAt env row payload i db)))"
  shows "pi_access env (pc_target_user_id row) (pc_mailbox_id row) = Some True \<and>
    (\<exists>db'. s \<in> set (fst (snd (authorized_send startedAt env row payload db'))))"
  using assms
  by (auto simp: check_access_def awaitBeforeDeadline_def Let_def
      dest!: unless_boundary_sent split: option.splits if_splits)

lemma check_claim_sent:
  assumes "s \<in> set (fst (snd (check_claim deps startedAt env row db)))"
  shows "pw_vapidConfigured deps \<and> (\<exists>payload i db'. check_payload row = Some payload \<and>
    s \<in> set (fst (snd (check_access startedAt env row payload i db'))))"
  using assms by (auto simp: check_claim_def Let_def split: option.splits if_splits)

lemma work_claim_sent:
  assumes "s \<in> set (fst (snd (work_claim deps startedAt env row db)))"
  shows "\<exists>db'. s \<in> set (fst (snd (check_claim deps startedAt env row db')))"
  using assms
  by (auto simp: work_claim_def awaitBeforeDeadline_def alarm_failed_def Let_def
      dest!: unless_boundary_sent split: option.splits if_splits)

lemma process_one_sent:
  assumes "s \<in> set (fst (snd (process_one deps startedAt env db)))"
  shows "rightful deps startedAt env s"
proof -
  from assms obtain row db1 where claimed: "claimNext (pi_now env) (pi_token env) db = (Some row, db1)"
    and worked: "s \<in> set (fst (snd (work_claim deps startedAt env row db1)))"
    by (auto simp: process_one_def dest!: unless_boundary_sent split: if_splits prod.splits option.splits)
  from work_claim_sent [OF worked] obtain db2
    where "s \<in> set (fst (snd (check_claim deps startedAt env row db2)))" ..
  from check_claim_sent [OF this] obtain payload i db3
    where "pw_vapidConfigured deps" "check_payload row = Some payload"
      and access: "s \<in> set (fst (snd (check_access startedAt env row payload i db3)))" by blast
  moreover from check_access_sent [OF access] obtain db4
    where "pi_access env (pc_target_user_id row) (pc_mailbox_id row) = Some True"
      and sent: "s \<in> set (fst (snd (authorized_send startedAt env row payload db4)))" by blast
  moreover from calculation(2) have "validateStoredPushPayload payload (pc_email_id row) (pc_mailbox_id row)"
    by (auto simp: check_payload_def split: raw_text.splits if_splits)
  ultimately show ?thesis
    using authorized_sent [OF sent] claimed
    by (auto simp: rightful_def sendDeadline_def latestExpirySendStart_def latestBatchSendStart_def
        batchSendDeadline_def expirySendDeadline_def)
qed

lemma process_batch_sent:
  "s \<in> set (fst (process_batch n deps startedAt envs db)) \<Longrightarrow> \<exists>m < n. rightful deps startedAt (envs m) s"
proof (induction n arbitrary: db)
  case (Suc n)
  from Suc.prems consider "s \<in> set (fst (snd (process_one deps startedAt (envs n) db)))"
    | db' where "s \<in> set (fst (process_batch n deps startedAt envs db'))"
    by (cases "process_one deps startedAt (envs n) db"; cases "fst (process_one deps startedAt (envs n) db)")
      (auto simp: Let_def case_prod_beta)
  then show ?case
  proof cases
    case 1
    then show ?thesis using process_one_sent by blast
  next
    case 2
    then show ?thesis using Suc.IH less_Suc_eq by blast
  qed
qed simp

text \<open>
  C16: A push service is only asked when push is configured and for a claim taken in this iteration of
  the batch, after the access check of this iteration said that the claim's user may still read the
  claim's mailbox, with a payload that names the message and mailbox it was stored for, on the device
  the delivery was meant for, read as this user's, and with at least the send budget left before the
  deadline of the batch and the expiry of the notification.
\<close>
theorem push_requests_are_rightful:
  assumes "processPushOutbox deps startedAt envs finishedAt db = (due, sent, db')" and "s \<in> set sent"
  shows "pw_vapidConfigured deps \<and> (\<exists>m < batchSize.
       (\<exists>db1 db2. claimNext (pi_now (envs m)) (pi_token (envs m)) db1 = (Some (se_claim s), db2)) \<and>
       pi_access (envs m) (pc_target_user_id (se_claim s)) (pc_mailbox_id (se_claim s)) = Some True \<and>
       pi_before_send (envs m) + sendBudgetMs < se_deadline s) \<and>
    validateStoredPushPayload (se_payload s) (pc_email_id (se_claim s)) (pc_mailbox_id (se_claim s)) \<and>
    si_id (se_capability s) = pc_subscription_id (se_claim s) \<and>
    si_userId (se_capability s) = pc_target_user_id (se_claim s) \<and>
    (\<exists>db. capability db (pc_subscription_id (se_claim s)) (pc_target_user_id (se_claim s)) = Some (se_capability s)) \<and>
    se_deadline s \<le> pc_expires_at (se_claim s) - finalizationBudgetMs \<and>
    se_deadline s \<le> startedAt + batchWallMs - finalizationBudgetMs"
proof -
  from assms have "s \<in> set (fst (process_batch batchSize deps startedAt envs
      (prune (startedAt - retentionMs) (recoverAndExpire startedAt db))))"
    by (auto simp: processPushOutbox_def Let_def case_prod_beta)
  from process_batch_sent [OF this] show ?thesis by (auto simp: rightful_def)
qed

subsection \<open>Answers\<close>

lemma terminal_devices [simp]: "pb_subscriptions (terminal row token now reason http db) = pb_subscriptions db"
  by (simp add: terminal_def completeNotification_def)

lemma retry_devices [simp]: "pb_subscriptions (retry row token now reason db) = pb_subscriptions db"
  by (simp add: retry_def)

lemma capability_row:
  assumes "capability db i u = Some c"
  shows "\<exists>s \<in> set (pb_subscriptions db). same_capability c s \<and> ps_id s = i \<and> si_id c = i"
  using assms by (auto simp: capability_def same_capability_def find_Some_iff)

lemma upserted_binding:
  assumes "upsertPushSubscription i input seen db = Inr db'" and "devices_ok db"
    and "capability db subscription u = Some c" and "in_endpoint input = sc_endpoint c"
    and "s \<in> set (pb_subscriptions db')" and "ps_id s = subscription"
  shows "ps_generation s = si_generation c + 1"
proof -
  from capability_row [OF assms(3)] obtain s0 where s0: "s0 \<in> set (pb_subscriptions db)"
    "same_capability c s0" "ps_id s0 = subscription" by blast
  then have hit: "ps_endpoint s0 = in_endpoint input" using assms(4) by (simp add: same_capability_def)
  with s0(1) have "list_ex (\<lambda>s. ps_endpoint s = in_endpoint input) (pb_subscriptions db)"
    by (auto simp: list_ex_iff)
  with assms(1) have db': "db' = db\<lparr>pb_subscriptions := update_where
      (\<lambda>s. ps_endpoint s = in_endpoint input) (rebind input seen) (pb_subscriptions db)\<rparr>"
    by (simp add: upsertPushSubscription_def)
  from assms(5) obtain s1 where s1: "s1 \<in> set (pb_subscriptions db)"
    "s = (if ps_endpoint s1 = in_endpoint input then rebind input seen s1 else s1)"
    by (auto simp: db' set_update_where)
  then have "ps_id s1 = ps_id s0" using assms(6) s0(3) by (simp add: rebind_def Let_def split: if_splits)
  then have "s1 = s0" using s0(1) s1(1) assms(2) by (auto simp: devices_ok_def distinct_map inj_on_def)
  with s1(2) hit s0(2) show ?thesis by (simp add: rebind_def Let_def same_capability_def)
qed

text \<open>
  An answer of the push service never acts on a device that was registered anew while the request
  was under way: whatever the answer, the device stays registered with its new keys and its health
  record is not touched, and the delivery is left to a later attempt.
\<close>
theorem rebound_device_is_untouched:
  assumes "devices_ok db" and "capability db (pc_subscription_id row) (pc_target_user_id row) = Some c"
    and "upsertPushSubscription i input seen db = Inr db1" and "in_endpoint input = sc_endpoint c"
    and "ownsLease db1 row (pi_token env)"
  shows "after_send startedAt env row c outcome db1 =
      (Batch_continue, retry row (pi_token env) (pi_rebound env) Temporary_issue db1) \<and>
    pb_subscriptions (snd (after_send startedAt env row c outcome db1)) = pb_subscriptions db1"
proof -
  have "\<not> still_bound db1 row c"
    using upserted_binding [OF assms(3,1,2,4)]
    by (auto simp: still_bound_def identity_def find_Some_iff split: option.split)
  with assms(5) show ?thesis by (cases outcome) (simp add: after_send_def Let_def)
qed

lemma same_capability_failed [simp]: "same_capability c (device_failed now reason s) = same_capability c s"
  by (simp add: same_capability_def device_failed_def)

text \<open>
  The outbox and the classifier of push answers agree on which devices are gone: an unsuccessful
  answer removes the device it was sent to exactly when the classifier says its status means that the
  subscription is dead.
\<close>
theorem dead_devices_are_the_classified_ones:
  assumes "classifyPushStatus status = (reason, shouldDelete)"
  shows "(\<exists>s \<in> set (pb_subscriptions
            (settle_response row token c (Send_failed reason shouldDelete status) finishedAt retryAt db)).
          same_capability c s) \<longleftrightarrow>
    \<not> shouldDelete \<and> (\<exists>s \<in> set (pb_subscriptions db). same_capability c s)"
proof -
  have gone: "shouldDelete \<longleftrightarrow> status = Some 404 \<or> status = Some 410"
    using assms by (auto simp: classifyPushStatus_def split: if_splits option.splits)
  have "(\<exists>s \<in> set (update_where (same_capability c) (device_failed t r) ss). same_capability c s) \<longleftrightarrow>
      (\<exists>s \<in> set ss. same_capability c s)" for t r ss
    by (induction ss) auto
  then show ?thesis
    unfolding gone by (auto simp: settle_response_def updateDeviceFailure_def drop_capability_def)
qed

subsection \<open>One settlement per claim\<close>

definition push_holder :: "push_db \<Rightarrow> string \<times> string \<Rightarrow> string option" where
  "push_holder db k =
     (case find (\<lambda>d. delivery_key d = k) (pb_deliveries db) of
        Some d \<Rightarrow> if pd_status d = Push_sending then pd_lease_token d else None
      | None \<Rightarrow> None)"

datatype push_verdict =
  Verdict_terminal instant push_reason "int option"
| Verdict_retry instant push_reason
| Verdict_accept instant
| Verdict_defer instant

primrec give_verdict :: "push_verdict \<Rightarrow> push_claim \<Rightarrow> string \<Rightarrow> push_db \<Rightarrow> push_db" where
  "give_verdict (Verdict_terminal now reason http) row token db = terminal row token now reason http db"
| "give_verdict (Verdict_retry now reason) row token db = retry row token now reason db"
| "give_verdict (Verdict_accept now) row token db = accept row token now db"
| "give_verdict (Verdict_defer now) row token db = deferClaim row token now db"

text \<open>A verdict by somebody who does not own the lease reaches no delivery.\<close>

definition try_verdict ::
  "push_verdict \<times> push_claim \<Rightarrow> string \<times> string \<Rightarrow> string \<Rightarrow> push_db \<Rightarrow> push_db option" where
  "try_verdict verdict k token db =
     (if claim_key (snd verdict) = k \<and> ownsLease db (snd verdict) token
      then Some (give_verdict (fst verdict) (snd verdict) token db) else None)"

definition keyed :: "push_db \<Rightarrow> bool" where
  "keyed db \<longleftrightarrow> distinct (map delivery_key (pb_deliveries db))"

lemma verdict_without_lease:
  assumes "\<not> ownsLease db row token"
  shows "pb_deliveries (give_verdict v row token db) = pb_deliveries db"
proof -
  have "update_where (held_by row token) f (pb_deliveries db) = pb_deliveries db" for f
    using assms by (intro update_where_none) (auto simp: ownsLease_def list_ex_iff)
  then show ?thesis
    by (cases v) (simp_all add: terminal_def retry_def accept_def deferClaim_def completeNotification_def)
qed

lemma verdict_deliveries:
  "\<exists>f. pb_deliveries (give_verdict v row token db) = update_where (held_by row token) f (pb_deliveries db) \<and>
     (\<forall>d. delivery_key (f d) = delivery_key d \<and> pd_status (f d) \<noteq> Push_sending)"
proof (cases v)
  case (Verdict_terminal now reason http)
  then show ?thesis
    by (intro exI [of _ "\<lambda>d. (end_delivery now reason d)\<lparr>pd_last_http_status := http\<rparr>"])
      (simp add: terminal_def completeNotification_def end_delivery_def delivery_key_def)
next
  case (Verdict_retry now reason)
  show ?thesis
  proof (cases "pc_attempt_count row \<ge> maxAttempts \<or> now \<ge> pc_expires_at row")
    case True
    with Verdict_retry show ?thesis
      by (intro exI [of _ "\<lambda>d. (end_delivery now (if pc_attempt_count row \<ge> maxAttempts
          then Attempts_exhausted else Reason_expired) d)\<lparr>pd_last_http_status := None\<rparr>"])
        (simp add: retry_def terminal_def completeNotification_def end_delivery_def delivery_key_def)
  next
    case False
    with Verdict_retry show ?thesis
      by (intro exI [of _ "\<lambda>d. d\<lparr>pd_status := Push_retrying,
               pd_next_attempt_at := min (now + retry_delay row) (pc_expires_at row),
               pd_updated_at := now, pd_last_reason := Some reason, pd_lease_token := None,
               pd_lease_expires_at := None\<rparr>"]) (simp add: retry_def delivery_key_def)
  qed
next
  case (Verdict_accept now)
  then show ?thesis
    by (intro exI [of _ "\<lambda>d. d\<lparr>pd_status := Push_accepted, pd_accepted_at := Some now, pd_updated_at := now,
            pd_last_reason := None, pd_last_http_status := None, pd_lease_token := None,
            pd_lease_expires_at := None\<rparr>"]) (simp add: accept_def delivery_key_def)
next
  case (Verdict_defer now)
  then show ?thesis
    by (intro exI [of _ "\<lambda>d. d\<lparr>pd_status := Push_pending,
            pd_attempt_count := (if pd_attempt_count d > 0 then pd_attempt_count d - 1 else 0),
            pd_next_attempt_at := now, pd_updated_at := now, pd_lease_token := None,
            pd_lease_expires_at := None\<rparr>"]) (simp add: deferClaim_def delivery_key_def)
qed

lemma owned_delivery:
  assumes "keyed db" and "ownsLease db row token"
  shows "\<exists>d. find (\<lambda>d. delivery_key d = claim_key row) (pb_deliveries db) = Some d \<and> held_by row token d"
proof -
  from assms(2) obtain d where d: "d \<in> set (pb_deliveries db)" "held_by row token d"
    by (auto simp: ownsLease_def list_ex_iff)
  then have "find (\<lambda>d'. delivery_key d' = claim_key row) (pb_deliveries db) = Some d"
    using find_key_distinct [of delivery_key "pb_deliveries db" d] assms(1)
    by (simp add: held_by_def keyed_def)
  with d(2) show ?thesis by blast
qed

lemma owns_holder:
  assumes "keyed db" and "ownsLease db row token"
  shows "push_holder db (claim_key row) = Some token"
  using owned_delivery [OF assms] by (auto simp: push_holder_def held_by_def)

lemma verdict_holder:
  assumes "keyed db" and "ownsLease db row token"
  shows "push_holder (give_verdict v row token db) k = (if k = claim_key row then None else push_holder db k)"
    and "keyed (give_verdict v row token db)"
proof -
  obtain f where f: "pb_deliveries (give_verdict v row token db) =
      update_where (held_by row token) f (pb_deliveries db)"
    "\<And>d. delivery_key (f d) = delivery_key d" "\<And>d. pd_status (f d) \<noteq> Push_sending"
    using verdict_deliveries by blast
  have found: "find (\<lambda>d. delivery_key d = k) (pb_deliveries (give_verdict v row token db)) =
      map_option (\<lambda>d. if held_by row token d then f d else d) (find (\<lambda>d. delivery_key d = k) (pb_deliveries db))"
    unfolding f(1) using f(2) by (intro find_update_where)
  show "push_holder (give_verdict v row token db) k = (if k = claim_key row then None else push_holder db k)"
  proof (cases "k = claim_key row")
    case True
    with owned_delivery [OF assms] f(3) found show ?thesis by (auto simp: push_holder_def)
  next
    case False
    then have "\<not> held_by row token d" if "find (\<lambda>d. delivery_key d = k) (pb_deliveries db) = Some d" for d
      using that by (auto simp: held_by_def find_Some_iff)
    with False show ?thesis by (auto simp: push_holder_def found split: option.split)
  qed
  show "keyed (give_verdict v row token db)"
    using assms(1) f(2) by (simp add: keyed_def f(1) keys_update_where)
qed

lemma try_verdict_Some:
  assumes "try_verdict verdict k token db = Some db'"
  obtains v row where "verdict = (v, row)" and "k = claim_key row" and "ownsLease db row token"
    and "db' = give_verdict v row token db"
  using assms by (cases verdict) (auto simp: try_verdict_def split: if_splits)

interpretation push_lease: lease_protocol push_holder try_verdict keyed
  by unfold_locales (erule try_verdict_Some; simp add: owns_holder verdict_holder)+

text \<open>
  A claim is settled once: among any verdicts, by anyone, with any tokens and in any order, at most
  one ever reaches a delivery between two claims, and a verdict under a token that does not own the
  lease changes no delivery.
\<close>
theorem one_verdict_per_push_claim:
  assumes "distinct (map delivery_key (pb_deliveries db))"
  shows "distinct (push_lease.settled_keys verdicts db) \<and>
    (\<not> ownsLease db row token \<longrightarrow> pb_deliveries (give_verdict v row token db) = pb_deliveries db)"
  using assms push_lease.settled_distinct verdict_without_lease by (simp add: keyed_def)

end
