(* ===== verification/Push_Recovery.thy ===== *)
theory Push_Recovery
  imports Push_Guarantees
begin

text \<open>
  What the table operations of the push outbox promise on their own: enqueueing reaches every device,
  recovery leaves nothing overdue, pruning forgets nothing that is still to be sent, and the alarm time
  a batch returns covers whatever is left.
\<close>

subsection \<open>Enqueueing\<close>

lemma fresh_deliveries_note: "d \<in> set (fresh_deliveries i now db) \<Longrightarrow> pd_notification_id d = i"
  by (auto simp: fresh_deliveries_def fresh_delivery_def)

lemma fresh_keys_distinct:
  assumes "notes_ok db" and "devices_ok db" and "distinct (map delivery_key (pb_deliveries db))"
    and "\<not> list_ex (\<lambda>n. pn_id n = i) (pb_notifications db)"
  shows "distinct (map delivery_key (pb_deliveries db @ fresh_deliveries i now db))"
proof -
  have "distinct (map delivery_key (fresh_deliveries i now db))"
  proof -
    have "map delivery_key (fresh_deliveries i now db) =
        map (Pair i) (map ps_id (filter (\<lambda>s. ps_user_id s \<noteq> None) (pb_subscriptions db)))"
      by (simp add: fresh_deliveries_def fresh_delivery_def delivery_key_def)
    moreover have "distinct (map ps_id (filter (\<lambda>s. ps_user_id s \<noteq> None) (pb_subscriptions db)))"
      using assms(2) by (simp add: devices_ok_def distinct_map_filter)
    ultimately show ?thesis by (simp add: distinct_map inj_on_def)
  qed
  moreover have "pd_notification_id d \<noteq> i" if "d \<in> set (pb_deliveries db)" for d
    using assms(1,4) that by (fastforce simp: notes_ok_def list_ex_iff)
  ultimately show ?thesis
    using assms(3) by (fastforce simp: delivery_key_def dest: fresh_deliveries_note)
qed

lemma old_deliveries_other:
  assumes "notes_ok db" and "\<not> list_ex (\<lambda>n. pn_id n = i) (pb_notifications db)"
  shows "filter (\<lambda>d. pd_notification_id d = i) (pb_deliveries db) = []"
  using assms by (fastforce simp: filter_empty_conv notes_ok_def list_ex_iff)

lemma no_note:
  "\<not> list_ex (\<lambda>n. pn_id n = i \<or> pn_email_id n = e) ns \<Longrightarrow> \<not> list_ex (\<lambda>n. pn_id n = i) ns"
  by (auto simp: list_ex_iff)

lemma enqueue_succeeds:
  assumes "push_sound db"
  shows "(\<exists>r. enqueuePushNotification e m payload now db = Inr r) \<longleftrightarrow>
    validateStoredPushPayload payload e m \<and> canonical_stamp now \<and>
    \<not> list_ex (\<lambda>n. pn_id n = ''push:'' @ e \<or> pn_email_id n = e) (pb_notifications db)"
proof -
  have ok: "notes_ok db" "devices_ok db" "distinct (map delivery_key (pb_deliveries db))"
    using assms by (simp_all add: push_sound_def)
  have "distinct (map delivery_key (pb_deliveries db @ fresh_deliveries (''push:'' @ e) t db))"
    if "\<not> list_ex (\<lambda>n. pn_id n = ''push:'' @ e \<or> pn_email_id n = e) (pb_notifications db)" for t
    using fresh_keys_distinct [OF ok no_note [OF that]] .
  then show ?thesis
    by (cases now) (auto simp del: map_append append_Cons distinct_append simp: enqueuePushNotification_def Let_def)
qed

lemma enqueued_deliveries:
  assumes "push_sound db" and "now = Canon t"
    and "enqueuePushNotification e m payload now db = Inr ((i, count), db')"
  shows "filter (\<lambda>d. pd_notification_id d = i) (pb_deliveries db') =
      map (fresh_delivery i t) (filter (\<lambda>s. ps_user_id s \<noteq> None) (pb_subscriptions db)) \<and>
    filter (\<lambda>d. pd_notification_id d \<noteq> i) (pb_deliveries db') = pb_deliveries db \<and>
    count = int (count_where (\<lambda>s. ps_user_id s \<noteq> None) (pb_subscriptions db)) \<and>
    map pn_target_count (filter (\<lambda>n. pn_id n = i) (pb_notifications db')) = [count]"
proof -
  from assms(2,3) have i: "i = ''push:'' @ e"
    and fresh: "\<not> list_ex (\<lambda>n. pn_id n = i \<or> pn_email_id n = e) (pb_notifications db)"
    and db': "pb_deliveries db' = pb_deliveries db @ fresh_deliveries i t db"
    and count: "count = int (count_where (\<lambda>d. pd_notification_id d = i) (pb_deliveries db @ fresh_deliveries i t db))"
    and rows: "pb_notifications db' = pb_notifications db @ [notification_of e m payload t count]"
    by (auto simp: enqueuePushNotification_def Let_def split: if_splits)
  have old: "filter (\<lambda>d. pd_notification_id d = i) (pb_deliveries db) = []"
    using assms(1) by (intro old_deliveries_other no_note [OF fresh]) (simp add: push_sound_def)
  have mine: "filter (\<lambda>d. pd_notification_id d = i) (fresh_deliveries i t db) = fresh_deliveries i t db"
    and others: "filter (\<lambda>d. pd_notification_id d \<noteq> i) (fresh_deliveries i t db) = []"
    by (auto simp: filter_id_conv filter_empty_conv dest: fresh_deliveries_note)
  have "filter (\<lambda>d. pd_notification_id d \<noteq> i) (pb_deliveries db) = pb_deliveries db"
    using old by (auto simp: filter_id_conv filter_empty_conv)
  moreover have "filter (\<lambda>n. pn_id n = i) (pb_notifications db) = []"
    using no_note [OF fresh] by (auto simp: filter_empty_conv list_ex_iff)
  moreover have "length (fresh_deliveries i t db) = count_where (\<lambda>s. ps_user_id s \<noteq> None) (pb_subscriptions db)"
    by (simp add: fresh_deliveries_def count_where_def)
  moreover have "pn_id (notification_of e m payload t c) = i" "pn_target_count (notification_of e m payload t c) = c" for c
    by (simp_all add: notification_of_def i)
  ultimately show ?thesis
    using old mine others unfolding db' rows count by (simp add: count_where_def fresh_deliveries_def)
qed

text \<open>
  A message's notification is enqueued exactly when its payload is valid, its timestamp is canonical
  and the message has none yet. It then has one pending delivery for each registered device, due at once
  and never attempted, and the count it returns and stores is the number of these devices; the
  deliveries of other messages stay as they were.
\<close>
theorem enqueue_reaches_every_device:
  assumes "push_sound db"
  shows "((\<exists>r. enqueuePushNotification e m payload now db = Inr r) \<longleftrightarrow>
      validateStoredPushPayload payload e m \<and> canonical_stamp now \<and>
      \<not> list_ex (\<lambda>n. pn_id n = ''push:'' @ e \<or> pn_email_id n = e) (pb_notifications db)) \<and>
    (\<forall>t i count db'. now = Canon t \<longrightarrow>
      enqueuePushNotification e m payload now db = Inr ((i, count), db') \<longrightarrow>
      filter (\<lambda>d. pd_notification_id d = i) (pb_deliveries db') =
        map (fresh_delivery i t) (filter (\<lambda>s. ps_user_id s \<noteq> None) (pb_subscriptions db)) \<and>
      filter (\<lambda>d. pd_notification_id d \<noteq> i) (pb_deliveries db') = pb_deliveries db \<and>
      count = int (count_where (\<lambda>s. ps_user_id s \<noteq> None) (pb_subscriptions db)) \<and>
      map pn_target_count (filter (\<lambda>n. pn_id n = i) (pb_notifications db')) = [count])"
  using enqueue_succeeds [OF assms] enqueued_deliveries [OF assms] by blast

subsection \<open>Recovery\<close>

lemma note_expired_cong:
  "map (\<lambda>n. (pn_id n, pn_expires_at n)) (pb_notifications db) =
     map (\<lambda>n. (pn_id n, pn_expires_at n)) (pb_notifications db') \<Longrightarrow> note_expired db = note_expired db'"
proof -
  have "note_expired db t i =
      list_ex (\<lambda>(j, e). j = i \<and> e \<le> t) (map (\<lambda>n. (pn_id n, pn_expires_at n)) (pb_notifications db))" for db t i
    by (simp add: note_expired_def list_ex_iff case_prod_beta)
  then show "?thesis" if "map (\<lambda>n. (pn_id n, pn_expires_at n)) (pb_notifications db) =
     map (\<lambda>n. (pn_id n, pn_expires_at n)) (pb_notifications db')"
    using that by (simp add: fun_eq_iff)
qed

lemma note_expired_ops [simp]:
  "note_expired (complete_notes now db) = note_expired db"
  "note_expired (expire_notes now db) = note_expired db"
  "note_expired (end_expired_deliveries now db) = note_expired db"
  "note_expired (retry_lost_leases now db) = note_expired db"
  "note_expired (end_exhausted_leases now db) = note_expired db"
  "note_expired (mark_expired_devices now db) = note_expired db"
  by (rule note_expired_cong; simp add: keys_update_where finish_note_def complete_notes_def
      expire_notes_def end_expired_deliveries_def retry_lost_leases_def end_exhausted_leases_def
      mark_expired_devices_def)+

lemma expired_after_recovery: "note_expired (recoverAndExpire now db) = note_expired db"
  by (simp add: recoverAndExpire_def)

lemma complete_notes_pending:
  "n \<in> set (pb_notifications (complete_notes now db)) \<Longrightarrow> pn_state n = Note_pending \<Longrightarrow>
     has_active db (pn_id n) \<and> n \<in> set (pb_notifications db)"
  by (auto simp: complete_notes_def set_update_where finish_note_def split: if_splits)

lemma expire_notes_pending:
  "n \<in> set (pb_notifications (expire_notes now db)) \<Longrightarrow> pn_state n = Note_pending \<Longrightarrow> now < pn_expires_at n"
  by (auto simp: expire_notes_def set_update_where finish_note_def split: if_splits)

lemma leases_after_recovery:
  assumes "d \<in> set (pb_deliveries (recoverAndExpire now db))"
  shows "\<not> lease_lost now d"
    and "active (pd_status d) \<Longrightarrow> \<not> note_expired db now (pd_notification_id d)"
proof -
  define db1 where "db1 = retry_lost_leases now (end_exhausted_leases now (mark_expired_devices now db))"
  have lost: "\<not> lease_lost now d1" if "d1 \<in> set (pb_deliveries db1)" for d1
    using that
    by (auto simp: db1_def retry_lost_leases_def end_exhausted_leases_def set_update_where lease_lost_def
        end_delivery_def split: if_splits option.splits)
  have same: "note_expired db1 = note_expired db"
    by (simp add: db1_def)
  from assms obtain d1 where d1: "d1 \<in> set (pb_deliveries db1)" and
    d: "d = (if active (pd_status d1) \<and> note_expired db now (pd_notification_id d1)
             then end_delivery now Reason_expired d1 else d1)"
    by (auto simp: recoverAndExpire_def complete_notes_def expire_notes_def end_expired_deliveries_def
        set_update_where same db1_def [symmetric])
  show "\<not> lease_lost now d" using lost [OF d1] d by (simp add: lease_lost_def end_delivery_def)
  show "active (pd_status d) \<Longrightarrow> \<not> note_expired db now (pd_notification_id d)"
    using d by (auto simp: end_delivery_def active_def split: if_splits)
qed

lemma pending_after_recovery:
  assumes "n \<in> set (pb_notifications (recoverAndExpire now db))" and "pn_state n = Note_pending"
  shows "now < pn_expires_at n" and "has_active (recoverAndExpire now db) (pn_id n)"
proof -
  have "has_active (complete_notes now db') = has_active db'" for db'
    by (simp add: complete_notes_def has_active_def fun_eq_iff)
  then show "now < pn_expires_at n" and "has_active (recoverAndExpire now db) (pn_id n)"
    using assms by (auto simp: recoverAndExpire_def dest!: complete_notes_pending dest: expire_notes_pending)
qed

text \<open>
  C17: Recovery leaves nothing overdue: afterwards no lease is past its end, no delivery of an expired
  notification is still to be sent, and every notification that is pending has not expired and has a
  delivery that is still to be sent.
\<close>
theorem recovery_leaves_nothing_overdue:
  "\<not> list_ex (lease_lost now) (pb_deliveries (recoverAndExpire now db)) \<and>
   \<not> list_ex (\<lambda>d. active (pd_status d) \<and> note_expired (recoverAndExpire now db) now (pd_notification_id d))
      (pb_deliveries (recoverAndExpire now db)) \<and>
   \<not> list_ex (\<lambda>n. pn_state n = Note_pending \<and>
        (pn_expires_at n \<le> now \<or> \<not> has_active (recoverAndExpire now db) (pn_id n)))
      (pb_notifications (recoverAndExpire now db))"
  using leases_after_recovery pending_after_recovery
  by (simp add: list_ex_iff expired_after_recovery) (meson not_less)

subsection \<open>Pruning\<close>

text \<open>
  Pruning forgets nothing that is still to be sent: every delivery that is pending, retrying or being
  sent stays, every pending notification stays, what goes was finished by the given time, and at most a
  hundred notifications go at once.
\<close>
theorem prune_keeps_what_is_active:
  assumes "push_sound db"
  shows "filter (\<lambda>d. active (pd_status d)) (pb_deliveries (prune before db)) =
      filter (\<lambda>d. active (pd_status d)) (pb_deliveries db) \<and>
    filter (\<lambda>n. \<not> prunable before n) (pb_notifications (prune before db)) =
      filter (\<lambda>n. \<not> prunable before n) (pb_notifications db) \<and>
    length (pb_notifications db) \<le> length (pb_notifications (prune before db)) + pruneLimit"
proof -
  define gone where "gone = take pruneLimit
    (sort_key (\<lambda>n. (finished_at n, pn_id n)) (filter (prunable before) (pb_notifications db)))"
  have gone: "n \<in> set (pb_notifications db) \<and> prunable before n" if "n \<in> set gone" for n
    using set_take_subset [of pruneLimit] that unfolding gone_def by fastforce
  have ids: "distinct (map pn_id (pb_notifications db))"
    using assms by (simp add: push_sound_def notes_ok_def)
  have prune: "pb_notifications (prune before db) = filter (\<lambda>n. pn_id n \<notin> pn_id ` set gone) (pb_notifications db)"
    "pb_deliveries (prune before db) = filter (\<lambda>d. pd_notification_id d \<notin> pn_id ` set gone) (pb_deliveries db)"
    by (simp_all add: prune_def gone_def)
  have quiet: "\<not> active (pd_status d)" if "d \<in> set (pb_deliveries db)" "pd_notification_id d \<in> pn_id ` set gone" for d
    using assms that gone by (auto simp: push_sound_def notes_ok_def prunable_def has_active_iff)
  then have active: "filter (\<lambda>d. active (pd_status d)) (pb_deliveries (prune before db)) =
      filter (\<lambda>d. active (pd_status d)) (pb_deliveries db)"
    unfolding prune filter_filter by (intro filter_cong) auto
  have self: "n \<in> set gone" if "n \<in> set (pb_notifications db)" "pn_id n \<in> pn_id ` set gone" for n
    using that gone ids by (auto simp: distinct_map inj_on_def)
  have kept: "filter (\<lambda>n. \<not> prunable before n) (pb_notifications (prune before db)) =
      filter (\<lambda>n. \<not> prunable before n) (pb_notifications db)"
    unfolding prune filter_filter using self gone by (intro filter_cong) auto
  have "length (filter (\<lambda>n. pn_id n \<in> pn_id ` set gone) (pb_notifications db)) \<le> pruneLimit"
  proof -
    have "distinct (filter (\<lambda>n. pn_id n \<in> pn_id ` set gone) (pb_notifications db))"
      using ids by (simp add: distinct_map)
    then have "length (filter (\<lambda>n. pn_id n \<in> pn_id ` set gone) (pb_notifications db)) =
        card {n \<in> set (pb_notifications db). pn_id n \<in> pn_id ` set gone}"
      by (simp add: distinct_card [symmetric])
    also have "\<dots> \<le> card (set gone)" using self by (intro card_mono) auto
    also have "\<dots> \<le> length gone" by (rule card_length)
    finally show ?thesis by (simp add: gone_def)
  qed
  then have "length (pb_notifications db) \<le> length (pb_notifications (prune before db)) + pruneLimit"
    using sum_length_filter_compl [of "\<lambda>n. pn_id n \<in> pn_id ` set gone" "pb_notifications db"]
    by (simp add: prune)
  with active kept show ?thesis by blast
qed

subsection \<open>The next alarm\<close>

lemma fold_min: "t \<in> set ts \<union> {t0} \<Longrightarrow> fold min ts t0 \<le> (t :: int)"
proof (induction ts arbitrary: t t0)
  case (Cons x xs)
  show ?case
  proof (cases "t \<in> set xs")
    case False
    with Cons.prems have "min x t0 \<le> t" by auto
    moreover have "fold min xs (min x t0) \<le> min x t0" using Cons.IH by blast
    ultimately show ?thesis by auto
  qed (use Cons.IH in simp)
qed simp

lemma next_due_covers: "t \<in> set (due_times db) \<Longrightarrow> \<exists>t0. next_due db = Some t0 \<and> t0 \<le> t"
  using fold_min by (cases "due_times db") (auto simp: next_due_def)

text \<open>
  The time a batch asks to be run again covers everything that is left: no later than the next
  attempt of each waiting delivery, the end of the lease of each delivery that is being sent, and the
  retention of each finished notification; and while a notification is pending there is such a time.
\<close>
theorem alarm_covers_the_outbox:
  assumes "world_ok w" and "\<forall>m < batchSize. env_ok own (envs m)"
    and "inj_on (\<lambda>m. pi_token (envs m)) {..<batchSize}"
    and "\<forall>m < batchSize. pi_token (envs m) \<notin> fst ` set (wo_claims w)"
    and "processPushOutbox deps startedAt envs finishedAt (wo_db w) = (due, sent, db')"
  shows "(\<forall>d \<in> set (pb_deliveries db').
       (waiting (pd_status d) \<longrightarrow> (\<exists>t. due = Some t \<and> t \<le> pd_next_attempt_at d)) \<and>
       (pd_status d = Push_sending \<longrightarrow> (\<exists>t. due = Some t \<and> t \<le> the (pd_lease_expires_at d)))) \<and>
    (\<forall>n \<in> set (pb_notifications db').
       (pn_state n = Note_pending \<longrightarrow> due \<noteq> None) \<and>
       (pn_state n \<noteq> Note_pending \<longrightarrow> (\<exists>t. due = Some t \<and> t \<le> finished_at n + retentionMs)))"
proof -
  from outbox_runs [OF assms(2,1,3-5)] obtain w' where "world_ok w'" "wo_db w' = db'"
    unfolding ran_def by blast
  then have ok: "delivery_ok d" if "d \<in> set (pb_deliveries db')" for d
    using world_sound that by (auto simp: push_sound_def)
  from assms(5) obtain db2 where db': "db' = recoverAndExpire finishedAt db2" and due: "due = next_due db'"
    by (auto simp: processPushOutbox_def Let_def case_prod_beta)
  have wait: "\<exists>t. due = Some t \<and> t \<le> pd_next_attempt_at d"
    if "d \<in> set (pb_deliveries db')" "waiting (pd_status d)" for d
    unfolding due using that by (intro next_due_covers) (auto simp: due_times_def)
  have sending: "\<exists>t. due = Some t \<and> t \<le> the (pd_lease_expires_at d)"
    if "d \<in> set (pb_deliveries db')" "pd_status d = Push_sending" for d
    unfolding due using that ok by (intro next_due_covers) (auto simp: due_times_def delivery_ok_def)
  have finished: "\<exists>t. due = Some t \<and> t \<le> finished_at n + retentionMs"
    if "n \<in> set (pb_notifications db')" "pn_state n \<noteq> Note_pending" for n
    unfolding due using that by (intro next_due_covers) (auto simp: due_times_def)
  have pending: "due \<noteq> None" if "n \<in> set (pb_notifications db')" "pn_state n = Note_pending" for n
  proof -
    have "has_active db' (pn_id n)"
      using pending_after_recovery(2) that unfolding db' by blast
    then obtain d where "d \<in> set (pb_deliveries db')" "active (pd_status d)"
      by (auto simp: has_active_def list_ex_iff)
    with wait sending show ?thesis by (auto simp: active_def waiting_def)
  qed
  show ?thesis using wait sending finished pending by blast
qed

end
