(* ===== verification/Push_Witnesses.thy ===== *)
theory Push_Witnesses
  imports Push_Recovery
begin

text \<open>A message with one registered device, and each guarantee of the push outbox at work on it.\<close>

subsection \<open>The sample\<close>

definition sample_payload :: json where
  "sample_payload = JObj
     [(''title'', JStr ''Ada''), (''body'', JStr ''Hello''), (''icon'', JStr ''/icon.png''),
      (''badge'', JStr ''/badge.png''), (''clickUrl'', JStr ''/mailbox/m/open/e1''),
      (''data'', JObj [(''emailId'', JStr ''e1''), (''mailboxId'', JStr ''m'')])]"

definition sample_device :: push_subscription where
  "sample_device = new_subscription ''s1''
     \<lparr>in_userId = ''u1'', in_endpoint = ''https://push/1'', in_p256dh = ''key'', in_auth = ''auth'',
      in_userAgent = None, in_deviceLabel = ''Phone''\<rparr> 0"

definition sample_note :: push_notification where
  "sample_note = notification_of ''e1'' ''m'' sample_payload 1000 1"

definition sample_push :: push_db where
  "sample_push = \<lparr>pb_notifications = [sample_note],
     pb_deliveries = [fresh_delivery (pn_id sample_note) 1000 sample_device],
     pb_subscriptions = [sample_device]\<rparr>"

definition sample_world :: push_world where
  "sample_world = \<lparr>wo_db = sample_push, wo_claims = [], wo_spent = []\<rparr>"

text \<open>The service accepts; while the access check is awaited, another user signs out.\<close>

definition sample_env :: "nat \<Rightarrow> push_env" where
  "sample_env m =
     \<lparr>pi_guard = 2000, pi_now = 2000, pi_token = replicate (Suc m) (CHR ''t''), pi_boundary = 2000,
      pi_alarm_from = 2000, pi_alarm = True, pi_alarm_failed = 2000, pi_access_from = 2000,
      pi_access = (\<lambda>user mailbox. Some True), pi_access_failed = 2000, pi_denied = 2000, pi_missing = 2000,
      pi_before_send = 2000, pi_send_from = 2000, pi_send = Send_answered Send_ok, pi_rebound = 2000,
      pi_finished = 2500, pi_retry = 2500, pi_during_alarm = (\<lambda>db. db),
      pi_during_access = removePushSubscriptionsForUser ''u2'', pi_during_send = (\<lambda>db. db)\<rparr>"

definition sample_deps :: push_deps where
  "sample_deps = \<lparr>pw_vapidConfigured = True, pw_scheduleAlarm = True\<rparr>"

lemmas sample_push_defs = sample_push_def sample_note_def sample_device_def notification_of_def
  new_subscription_def fresh_delivery_def

lemma sample_push_sound: "push_sound sample_push"
  by (simp add: push_sound_def sample_push_defs delivery_ok_def waiting_def maxAttempts_def notes_ok_def
      devices_ok_def)

lemma sample_world_ok: "world_ok sample_world"
  by (simp add: world_ok_def sample_world_def delivery_fits_def lease_claimed_def requests_def unspent_def
      ledger_ok_def sample_push_defs delivery_ok_def waiting_def maxAttempts_def notes_ok_def devices_ok_def)

lemma interferes_idle: "interferes own (\<lambda>db. db)"
  by (auto simp: interferes_def)

lemma interferes_sign_out: "interferes own (removePushSubscriptionsForUser u)"
  unfolding interferes_def
proof (intro allI impI)
  fix w :: push_world
  have "push_step own w (w\<lparr>wo_db := run_device (Device_remove_user u) (wo_db w)\<rparr>)"
    by (rule push_step.device)
  then show "\<exists>w'. (push_step own)\<^sup>*\<^sup>* w w' \<and> wo_db w' = removePushSubscriptionsForUser u (wo_db w)"
    by (intro exI conjI) (erule r_into_rtranclp, simp)
qed

lemma sample_env_ok: "\<forall>m < batchSize. env_ok UNIV (sample_env m)"
  by (simp add: env_ok_def sample_env_def interferes_idle interferes_sign_out)

lemma sample_tokens: "inj_on (\<lambda>m. pi_token (sample_env m)) {..<batchSize}"
  by (rule inj_onI) (metis sample_env_def push_env.select_convs(3) length_replicate Suc_inject)

lemma sample_fresh: "\<forall>m < batchSize. pi_token (sample_env m) \<notin> fst ` set (wo_claims sample_world)"
  by (simp add: sample_world_def)

lemma sample_batch:
  "\<exists>due s db'. processPushOutbox sample_deps 2000 sample_env 3000 (wo_db sample_world) = (due, [s], db') \<and>
     claim_key (se_claim s) = (''push:e1'', ''s1'')"
proof -
  have "case processPushOutbox sample_deps 2000 sample_env 3000 (wo_db sample_world) of
      (due, [s], db') \<Rightarrow> claim_key (se_claim s) = (''push:e1'', ''s1'') | _ \<Rightarrow> False"
    by code_simp
  then show ?thesis by (auto split: prod.splits list.splits)
qed

subsection \<open>Witnesses\<close>

lemma push_batch_refines_steps_witness:
  "\<exists>due sent db' w'. processPushOutbox sample_deps 2000 sample_env 3000 (wo_db sample_world) = (due, sent, db') \<and>
     (push_step {})\<^sup>*\<^sup>* sample_world w' \<and> wo_db w' = db' \<and> 1 \<le> requests w' (''push:e1'', ''s1'')"
proof -
  obtain due s db' where run: "processPushOutbox sample_deps 2000 sample_env 3000 (wo_db sample_world) = (due, [s], db')"
    and s: "claim_key (se_claim s) = (''push:e1'', ''s1'')"
    using sample_batch by blast
  from push_batch_refines_steps [OF sample_world_ok sample_env_ok sample_tokens sample_fresh run]
  obtain w' where "(push_step {})\<^sup>*\<^sup>* sample_world w'" "wo_db w' = db'"
    and count: "\<forall>k. requests sample_world k + sent_for k [s] \<le> requests w' k" by blast
  moreover from count have "requests sample_world (''push:e1'', ''s1'') + sent_for (''push:e1'', ''s1'') [s]
      \<le> requests w' (''push:e1'', ''s1'')" by blast
  then have "1 \<le> requests w' (''push:e1'', ''s1'')" using s by (simp add: sent_for_def)
  ultimately show ?thesis using run by blast
qed

lemma push_requests_are_bounded_witness:
  "\<exists>due sent db'. processPushOutbox sample_deps 2000 sample_env 3000 (wo_db sample_world) = (due, sent, db') \<and>
     int (requests sample_world (''push:e1'', ''s1'') + sent_for (''push:e1'', ''s1'') sent) \<le> maxAttempts"
  using sample_batch push_requests_are_bounded [OF sample_world_ok sample_env_ok sample_tokens sample_fresh]
  by blast

lemma push_tables_stay_in_order_witness:
  "\<exists>due sent db'. processPushOutbox sample_deps 2000 sample_env 3000 (wo_db sample_world) = (due, sent, db') \<and>
     (\<forall>d \<in> set (pb_deliveries db'). pd_attempt_count d \<le> maxAttempts)"
  using sample_batch push_tables_stay_in_order [OF sample_world_ok sample_env_ok sample_tokens sample_fresh]
  by blast

lemma alarm_covers_the_outbox_witness:
  "\<exists>due sent db'. processPushOutbox sample_deps 2000 sample_env 3000 (wo_db sample_world) = (due, sent, db') \<and>
     (\<forall>n \<in> set (pb_notifications db'). pn_state n = Note_pending \<longrightarrow> due \<noteq> None)"
  using sample_batch alarm_covers_the_outbox [OF sample_world_ok sample_env_ok sample_tokens sample_fresh]
  by blast

lemma push_requests_are_rightful_witness:
  "\<exists>due s db'. processPushOutbox sample_deps 2000 sample_env 3000 (wo_db sample_world) = (due, [s], db') \<and>
     validateStoredPushPayload (se_payload s) (pc_email_id (se_claim s)) (pc_mailbox_id (se_claim s))"
proof -
  obtain due s db' where run: "processPushOutbox sample_deps 2000 sample_env 3000 (wo_db sample_world) = (due, [s], db')"
    using sample_batch by blast
  from push_requests_are_rightful [OF run, of s] run show ?thesis by auto
qed

lemma prune_keeps_what_is_active_witness:
  "filter (\<lambda>d. active (pd_status d)) (pb_deliveries (prune 5000 sample_push)) =
     filter (\<lambda>d. active (pd_status d)) (pb_deliveries sample_push)"
  using prune_keeps_what_is_active [OF sample_push_sound] by blast

definition no_notes :: push_db where
  "no_notes = sample_push\<lparr>pb_notifications := [], pb_deliveries := []\<rparr>"

lemma enqueue_reaches_every_device_witness:
  "\<exists>r. enqueuePushNotification ''e1'' ''m'' sample_payload (Canon 1000) no_notes = Inr r"
proof -
  have "push_sound no_notes"
    by (simp add: push_sound_def no_notes_def sample_push_defs notes_ok_def devices_ok_def)
  moreover have "validateStoredPushPayload sample_payload ''e1'' ''m''" by code_simp
  moreover have "\<not> list_ex (\<lambda>n. pn_id n = ''push:e1'' \<or> pn_email_id n = ''e1'') (pb_notifications no_notes)"
    by (simp add: no_notes_def)
  ultimately show ?thesis
    using enqueue_reaches_every_device [of no_notes "''e1''" "''m''" sample_payload "Canon 1000"] by simp
qed

lemma dead_devices_are_the_classified_ones_witness:
  "\<forall>row c. \<not> (\<exists>s \<in> set (pb_subscriptions (settle_response row ''t'' c
         (Send_failed PERMISSION_REVOKED True (Some 410)) 2500 2500 sample_push)).
       same_capability c s)"
  using dead_devices_are_the_classified_ones [of "Some 410" PERMISSION_REVOKED True]
  by (simp add: classifyPushStatus_def)

subsection \<open>A device registered anew while the request was under way\<close>

definition sample_input :: subscription_input where
  "sample_input = \<lparr>in_userId = ''u1'', in_endpoint = ''https://push/1'', in_p256dh = ''key2'', in_auth = ''auth2'',
     in_userAgent = None, in_deviceLabel = ''Phone''\<rparr>"

definition sample_claim :: push_claim where
  "sample_claim = claim_row 2000 (fresh_delivery (pn_id sample_note) 1000 sample_device, sample_note)"

definition sample_claimed :: push_db where
  "sample_claimed = lease_push ''t'' 2000 sample_claim sample_push"

lemma rebound_device_is_untouched_witness:
  "\<exists>c db1. upsertPushSubscription ''s2'' sample_input 2200 sample_claimed = Inr db1 \<and>
     pb_subscriptions (snd (after_send 2000 (sample_env 0) sample_claim c (Send_ok, False) db1)) =
       pb_subscriptions db1"
proof -
  have "case (upsertPushSubscription ''s2'' sample_input 2200 sample_claimed,
        capability sample_claimed (pc_subscription_id sample_claim) (pc_target_user_id sample_claim)) of
      (Inr db1, Some c) \<Rightarrow> in_endpoint sample_input = sc_endpoint c \<and>
        ownsLease db1 sample_claim (pi_token (sample_env 0))
    | _ \<Rightarrow> False"
    by code_simp
  then obtain db1 c where up: "upsertPushSubscription ''s2'' sample_input 2200 sample_claimed = Inr db1"
    and cap: "capability sample_claimed (pc_subscription_id sample_claim) (pc_target_user_id sample_claim) = Some c"
    and same: "in_endpoint sample_input = sc_endpoint c"
    and own: "ownsLease db1 sample_claim (pi_token (sample_env 0))"
    by (auto split: sum.splits option.splits)
  have "devices_ok sample_claimed"
    by (simp add: sample_claimed_def lease_push_def devices_ok_def sample_push_def)
  from rebound_device_is_untouched [OF this cap up same own] up show ?thesis by blast
qed

lemma recovery_leaves_nothing_overdue_witness:
  "\<not> list_ex (lease_lost 90000) (pb_deliveries (recoverAndExpire 90000 sample_claimed)) \<and>
     list_ex (lease_lost 90000) (pb_deliveries sample_claimed)"
proof -
  have "list_ex (lease_lost 90000) (pb_deliveries sample_claimed)" by code_simp
  with recovery_leaves_nothing_overdue [of 90000 sample_claimed] show ?thesis by blast
qed

lemma one_verdict_per_push_claim_witness:
  "distinct (push_lease.settled_keys
     [((Verdict_accept 2500, sample_claim), claim_key sample_claim, ''t''),
      ((Verdict_retry 2600 Temporary_issue, sample_claim), claim_key sample_claim, ''t'')] sample_claimed)"
proof -
  have "distinct (map delivery_key (pb_deliveries sample_claimed))"
    by (simp add: sample_claimed_def lease_push_def sample_push_def)
  from one_verdict_per_push_claim [OF this] show ?thesis by blast
qed

end
