(* ===== verification/AI_Ledger.thy ===== *)
theory AI_Ledger
  imports Outbound_Snapshot Iso_Date
begin

text \<open>
  The AI usage ledger in D1: the tables and triggers of \<^verbatim>\<open>migrations/0004_create_ai_cost_controls.sql\<close>
  and the store \<^verbatim>\<open>workers/lib/ai-cost-control-d1.ts\<close> that writes them. A batch is one transaction: an
  error in it leaves the tables as they were. Amounts are micro-dollars. The default budget of a new
  month is the review threshold, which is positive, so its check never fails.
\<close>

subsection \<open>Values\<close>

datatype model_tier = Tier_cheap | Tier_strong

datatype requested_tier = Requested_auto | Requested_cheap | Requested_strong

datatype usage_state =
  Usage_reserved | Usage_completed | Usage_failed | Usage_blocked | Usage_cache_hit | Usage_deterministic

datatype usage_error =
  Strong_tier_requires_reason | Strong_tier_not_allowed_for_feature | Strong_tier_paused_at_alert_threshold
| Admin_review_required | Invalid_request | Reservation_expired | Reported_error string

record usage_identity =
  ui_id :: string
  ui_environment :: string
  ui_monthKey :: string
  ui_feature :: string
  ui_actorUserId :: "string option"
  ui_mailboxId :: "string option"
  ui_requestedTier :: requested_tier
  ui_selectedTier :: model_tier
  ui_model :: string
  ui_cacheKey :: "string option"
  ui_escalationReason :: "string option"
  ui_createdAt :: instant

text \<open>A row of \<^verbatim>\<open>ai_usage_events\<close>.\<close>

record usage_event =
  ue_identity :: usage_identity
  ue_state :: usage_state
  ue_estimated :: int
  ue_limit :: "int option"
  ue_expires_at :: "instant option"
  ue_started_at :: "instant option"
  ue_actual :: int
  ue_prompt_tokens :: int
  ue_completion_tokens :: int
  ue_error :: "usage_error option"
  ue_completed_at :: "instant option"

record month_row =
  mr_environment :: string
  mr_month_key :: string
  mr_spent :: int
  mr_reserved :: int
  mr_approved :: int
  mr_alert_at :: "instant option"
  mr_updated_at :: instant

record review_row =
  rv_id :: string
  rv_environment :: string
  rv_month_key :: string
  rv_previous :: int
  rv_approved :: int
  rv_reviewed_by :: string
  rv_reason :: string
  rv_reviewed_at :: instant

record cache_row =
  ch_key :: string
  ch_environment :: string
  ch_mailbox :: "string option"
  ch_scope :: string
  ch_feature :: string
  ch_value :: raw_text
  ch_created_at :: instant
  ch_expires_at :: instant

record ai_db =
  ad_months :: "month_row list"
  ad_events :: "usage_event list"
  ad_reviews :: "review_row list"
  ad_cache :: "cache_row list"

abbreviation ue_id :: "usage_event \<Rightarrow> string" where
  "ue_id e \<equiv> ui_id (ue_identity e)"

definition event_month :: "usage_event \<Rightarrow> string \<times> string" where
  "event_month e = (ui_environment (ue_identity e), ui_monthKey (ue_identity e))"

definition month_of :: "month_row \<Rightarrow> string \<times> string" where
  "month_of m = (mr_environment m, mr_month_key m)"

datatype ledger_error = Ledger_constraint | Ledger_unavailable | Budget_not_raised

type_synonym 'a ledger_result = "(ledger_error + 'a) \<times> ai_db"

subsection \<open>Statements and triggers\<close>

definition ensureMonth :: "string \<Rightarrow> string \<Rightarrow> instant \<Rightarrow> int \<Rightarrow> ai_db \<Rightarrow> ai_db" where
  "ensureMonth environment monthKey updatedAt approvedBudgetMicros db =
     (if list_ex (\<lambda>m. month_of m = (environment, monthKey)) (ad_months db) then db
      else db\<lparr>ad_months := ad_months db @
        [\<lparr>mr_environment = environment, mr_month_key = monthKey, mr_spent = 0, mr_reserved = 0,
          mr_approved = approvedBudgetMicros, mr_alert_at = None, mr_updated_at = updatedAt\<rparr>]\<rparr>)"

text \<open>The checks of the table on a row.\<close>

definition event_checks :: "usage_event \<Rightarrow> bool" where
  "event_checks e \<longleftrightarrow> 0 \<le> ue_estimated e \<and> (case ue_limit e of None \<Rightarrow> True | Some l \<Rightarrow> 0 < l) \<and>
     0 \<le> ue_actual e \<and> 0 \<le> ue_prompt_tokens e \<and> 0 \<le> ue_completion_tokens e"

definition reserve_month :: "usage_event \<Rightarrow> month_row \<Rightarrow> month_row" where
  "reserve_month e m =
     m\<lparr>mr_reserved := mr_reserved m + ue_estimated e, mr_updated_at := ui_createdAt (ue_identity e)\<rparr>"

text \<open>An insertion with the trigger that reserves.\<close>

definition insert_event :: "usage_event \<Rightarrow> ai_db \<Rightarrow> ledger_error + ai_db" where
  "insert_event e db =
     (if list_ex (\<lambda>e'. ue_id e' = ue_id e) (ad_events db) \<or> \<not> event_checks e \<or>
         \<not> list_ex (\<lambda>m. month_of m = event_month e) (ad_months db)
      then Inl Ledger_constraint
      else Inr (db\<lparr>ad_events := ad_events db @ [e],
                   ad_months := (if ue_state e = Usage_reserved
                     then update_where (\<lambda>m. month_of m = event_month e) (reserve_month e) (ad_months db)
                     else ad_months db)\<rparr>))"

definition settle_month :: "usage_event \<Rightarrow> usage_event \<Rightarrow> month_row \<Rightarrow> month_row" where
  "settle_month old new m =
     m\<lparr>mr_reserved := max 0 (mr_reserved m - ue_estimated old),
       mr_spent := mr_spent m + ue_actual new,
       mr_updated_at := (case ue_completed_at new of Some t \<Rightarrow> t | None \<Rightarrow> ui_createdAt (ue_identity new))\<rparr>"

definition charge :: "usage_event \<Rightarrow> usage_event \<Rightarrow> month_row list \<Rightarrow> month_row list" where
  "charge old new months =
     (if ue_state old = Usage_reserved \<and> (ue_state new = Usage_completed \<or> ue_state new = Usage_failed)
      then update_where (\<lambda>m. month_of m = event_month new) (settle_month old new) months
      else months)"

text \<open>An update with the triggers that settle, one row after the other.\<close>

definition update_events :: "(usage_event \<Rightarrow> bool) \<Rightarrow> (usage_event \<Rightarrow> usage_event) \<Rightarrow> ai_db \<Rightarrow> ledger_error + ai_db" where
  "update_events P f db =
     (if list_ex (\<lambda>e. \<not> event_checks (f e)) (filter P (ad_events db)) then Inl Ledger_constraint
      else Inr (db\<lparr>ad_events := update_where P f (ad_events db),
                   ad_months := fold (\<lambda>e. charge e (f e)) (filter P (ad_events db)) (ad_months db)\<rparr>))"

definition transacted :: "ai_db \<Rightarrow> ledger_error + ('a \<times> ai_db) \<Rightarrow> 'a ledger_result" where
  "transacted db r = (case r of Inl e \<Rightarrow> (Inl e, db) | Inr (x, db') \<Rightarrow> (Inr x, db'))"

subsection \<open>The store\<close>

definition getMonth :: "string \<Rightarrow> string \<Rightarrow> ai_db \<Rightarrow> month_row option" where
  "getMonth environment monthKey db = find (\<lambda>m. month_of m = (environment, monthKey)) (ad_months db)"

definition requiredMonth :: "string \<Rightarrow> string \<Rightarrow> ai_db \<Rightarrow> month_row ledger_result" where
  "requiredMonth environment monthKey db =
     (case getMonth environment monthKey db of
        None \<Rightarrow> (Inl Ledger_unavailable, db) | Some m \<Rightarrow> (Inr m, db))"

definition find_event :: "string \<Rightarrow> ai_db \<Rightarrow> usage_event option" where
  "find_event i db = find (\<lambda>e. ue_id e = i) (ad_events db)"

definition monthForEvent :: "string \<Rightarrow> ai_db \<Rightarrow> month_row ledger_result" where
  "monthForEvent eventId db =
     (case Option.bind (find_event eventId db)
        (\<lambda>e. find (\<lambda>m. month_of m = event_month e) (ad_months db)) of
        None \<Rightarrow> (Inl Ledger_unavailable, db) | Some m \<Rightarrow> (Inr m, db))"

definition reservation_over :: "instant \<Rightarrow> usage_event \<Rightarrow> bool" where
  "reservation_over now e \<longleftrightarrow> ue_state e = Usage_reserved \<and>
     (case ue_expires_at e of None \<Rightarrow> False | Some t \<Rightarrow> t \<le> now)"

definition expire_event :: "instant \<Rightarrow> usage_event \<Rightarrow> usage_event" where
  "expire_event now e = e
     \<lparr>ue_state := Usage_failed, ue_error := Some Reservation_expired,
      ue_actual := (if ue_started_at e = None then 0 else ue_estimated e),
      ue_completed_at := Some now\<rparr>"

definition reapExpiredReservations :: "instant \<Rightarrow> ai_db \<Rightarrow> unit ledger_result" where
  "reapExpiredReservations now db =
     transacted db (bind_result (update_events (reservation_over now) (expire_event now) db)
       (\<lambda>db'. Inr ((), db')))"

definition plain_event ::
  "usage_identity \<Rightarrow> usage_state \<Rightarrow> int \<Rightarrow> usage_error option \<Rightarrow> usage_event" where
  "plain_event identity state estimated errorCode =
     \<lparr>ue_identity = identity, ue_state = state, ue_estimated = estimated, ue_limit = None,
      ue_expires_at = None, ue_started_at = None, ue_actual = 0, ue_prompt_tokens = 0,
      ue_completion_tokens = 0, ue_error = errorCode, ue_completed_at = Some (ui_createdAt identity)\<rparr>"

definition recordEvent :: "int \<Rightarrow> usage_event \<Rightarrow> ai_db \<Rightarrow> unit ledger_result" where
  "recordEvent defaultApprovedBudgetMicros event db =
     transacted db (bind_result
       (insert_event event (ensureMonth (ui_environment (ue_identity event)) (ui_monthKey (ue_identity event))
          (ui_createdAt (ue_identity event)) defaultApprovedBudgetMicros db))
       (\<lambda>db'. Inr ((), db')))"

definition reservation_event :: "usage_identity \<Rightarrow> int \<Rightarrow> int \<Rightarrow> instant \<Rightarrow> usage_event" where
  "reservation_event identity estimated maximumTotalMicros expiresAt =
     \<lparr>ue_identity = identity, ue_state = Usage_reserved, ue_estimated = estimated,
      ue_limit = Some maximumTotalMicros, ue_expires_at = Some expiresAt, ue_started_at = None,
      ue_actual = 0, ue_prompt_tokens = 0, ue_completion_tokens = 0, ue_error = None,
      ue_completed_at = None\<rparr>"

text \<open>The batch of \<^verbatim>\<open>tryReserve\<close>; the month it returns beside is read afterwards.\<close>

definition tryReserve ::
  "usage_identity \<Rightarrow> int \<Rightarrow> instant \<Rightarrow> int \<Rightarrow> int \<Rightarrow> ai_db \<Rightarrow> bool ledger_result" where
  "tryReserve identity estimated expiresAt maximumTotalMicros defaultApprovedBudgetMicros db =
     transacted db
       (let db1 = ensureMonth (ui_environment identity) (ui_monthKey identity) (ui_createdAt identity)
                    defaultApprovedBudgetMicros db
        in case getMonth (ui_environment identity) (ui_monthKey identity) db1 of
             None \<Rightarrow> Inr (False, db1)
           | Some m \<Rightarrow>
               if mr_spent m + mr_reserved m + estimated \<le> maximumTotalMicros
               then bind_result (insert_event (reservation_event identity estimated maximumTotalMicros expiresAt) db1)
                      (\<lambda>db2. Inr (True, db2))
               else Inr (False, db1))"

definition open_reservation :: "string \<Rightarrow> usage_event \<Rightarrow> bool" where
  "open_reservation i e \<longleftrightarrow> ue_id e = i \<and> ue_state e = Usage_reserved"

definition emit_alert :: "string \<Rightarrow> int \<Rightarrow> instant \<Rightarrow> ai_db \<Rightarrow> bool \<times> ai_db" where
  "emit_alert reservationId alertThresholdMicros completedAt db =
     (let hit = (\<lambda>m. mr_alert_at m = None \<and> mr_spent m \<ge> alertThresholdMicros \<and>
                     Some (month_of m) = map_option event_month (find_event reservationId db))
      in (list_ex hit (ad_months db),
          db\<lparr>ad_months := update_where hit
            (\<lambda>m. m\<lparr>mr_alert_at := Some completedAt, mr_updated_at := completedAt\<rparr>) (ad_months db)\<rparr>))"

definition completeReservation ::
  "string \<Rightarrow> int \<Rightarrow> int \<Rightarrow> int \<Rightarrow> int \<Rightarrow> instant \<Rightarrow> ai_db \<Rightarrow> (bool \<times> bool) ledger_result" where
  "completeReservation reservationId actualCostMicros promptTokens completionTokens
       alertThresholdMicros completedAt db =
     transacted db (bind_result
       (update_events (open_reservation reservationId)
          (\<lambda>e. e\<lparr>ue_state := Usage_completed, ue_actual := actualCostMicros,
                 ue_prompt_tokens := promptTokens, ue_completion_tokens := completionTokens,
                 ue_completed_at := Some completedAt\<rparr>) db)
       (\<lambda>db1. let (emitAlert, db2) = emit_alert reservationId alertThresholdMicros completedAt db1
              in Inr ((list_ex (open_reservation reservationId) (ad_events db), emitAlert), db2)))"

definition markReservationStarted :: "string \<Rightarrow> instant \<Rightarrow> ai_db \<Rightarrow> bool ledger_result" where
  "markReservationStarted reservationId startedAt db =
     (Inr (list_ex (open_reservation reservationId) (ad_events db)),
      db\<lparr>ad_events := update_where (open_reservation reservationId)
        (\<lambda>e. e\<lparr>ue_started_at := (case ue_started_at e of None \<Rightarrow> Some startedAt | Some t \<Rightarrow> Some t)\<rparr>)
        (ad_events db)\<rparr>)"

text \<open>A failure with an observed cost is charged that; without one, a call that started is charged its estimate.\<close>

record usage_failure =
  uf_errorCode :: "usage_error option"
  uf_failedAt :: instant
  uf_observed :: "int option"
  uf_promptTokens :: int
  uf_completionTokens :: int

definition fail_event :: "usage_failure \<Rightarrow> usage_event \<Rightarrow> usage_event" where
  "fail_event failure e = e
     \<lparr>ue_state := Usage_failed, ue_error := uf_errorCode failure,
      ue_actual := (case uf_observed failure of
         Some cost \<Rightarrow> cost
       | None \<Rightarrow> if ue_started_at e \<noteq> None then ue_estimated e else 0),
      ue_prompt_tokens := uf_promptTokens failure, ue_completion_tokens := uf_completionTokens failure,
      ue_completed_at := Some (uf_failedAt failure)\<rparr>"

definition failReservation :: "string \<Rightarrow> usage_failure \<Rightarrow> ai_db \<Rightarrow> bool ledger_result" where
  "failReservation reservationId failure db =
     transacted db (bind_result (update_events (open_reservation reservationId) (fail_event failure) db)
       (\<lambda>db'. Inr (list_ex (open_reservation reservationId) (ad_events db), db')))"

record budget_approval =
  ba_environment :: string
  ba_monthKey :: string
  ba_newApproved :: int
  ba_reviewedBy :: string
  ba_reason :: string
  ba_reviewedAt :: instant
  ba_reviewId :: string

definition insert_review :: "budget_approval \<Rightarrow> month_row \<Rightarrow> ai_db \<Rightarrow> ledger_error + ai_db" where
  "insert_review input m db =
     (if list_ex (\<lambda>r. rv_id r = ba_reviewId input) (ad_reviews db) \<or> mr_approved m \<le> 0 \<or> ba_newApproved input \<le> 0
      then Inl Ledger_constraint
      else Inr (db\<lparr>ad_reviews := ad_reviews db @
              [\<lparr>rv_id = ba_reviewId input, rv_environment = mr_environment m, rv_month_key = mr_month_key m,
                rv_previous = mr_approved m, rv_approved = ba_newApproved input,
                rv_reviewed_by = ba_reviewedBy input, rv_reason = ba_reason input,
                rv_reviewed_at = ba_reviewedAt input\<rparr>],
            ad_months := update_where (\<lambda>m'. month_of m' = month_of m)
              (\<lambda>m'. m'\<lparr>mr_approved := ba_newApproved input, mr_updated_at := ba_reviewedAt input\<rparr>)
              (ad_months db)\<rparr>))"

definition approveBudget :: "int \<Rightarrow> budget_approval \<Rightarrow> ai_db \<Rightarrow> unit ledger_result" where
  "approveBudget defaultApprovedBudgetMicros input db =
     (let db1 = ensureMonth (ba_environment input) (ba_monthKey input) (ba_reviewedAt input)
                  defaultApprovedBudgetMicros db
      in case getMonth (ba_environment input) (ba_monthKey input) db1 of
           None \<Rightarrow> (Inl Budget_not_raised, db1)
         | Some m \<Rightarrow>
             if ba_newApproved input > mr_approved m \<and> ba_newApproved input > mr_spent m + mr_reserved m
             then transacted db (bind_result (insert_review input m db1) (\<lambda>db2. Inr ((), db2)))
             else (Inl Budget_not_raised, db1))"

end
