(* ===== verification/AI_Cost.thy ===== *)
theory AI_Cost
  imports AI_Ledger
begin

text \<open>
  \<^verbatim>\<open>workers/lib/ai-cost-control.ts\<close>: the configuration, the decision whether a model may be called,
  and what is reported afterwards. A call of the store can fail before it reaches the database, or after
  it was committed there; what other workers do between two calls is an argument.
\<close>

subsection \<open>Configuration and prices\<close>

record ai_config =
  ac_environment :: string
  ac_alertThresholdMicros :: int
  ac_reviewThresholdMicros :: int
  ac_cheapModel :: string
  ac_strongModel :: string

definition DEFAULT_AI_COST_CONFIG :: ai_config where
  "DEFAULT_AI_COST_CONFIG =
     \<lparr>ac_environment = ''default'', ac_alertThresholdMicros = 25000000,
      ac_reviewThresholdMicros = 50000000,
      ac_cheapModel = ''@cf/meta/llama-4-scout-17b-16e-instruct'',
      ac_strongModel = ''@cf/meta/llama-3.3-70b-instruct-fp8-fast''\<rparr>"

definition AI_USAGE_RESERVATION_TTL_MS :: int where
  "AI_USAGE_RESERVATION_TTL_MS = 15 * 60 * 1000"

text \<open>Prompt and completion price of a million tokens.\<close>

primrec MODEL_PRICE_MICROS_PER_MILLION_TOKENS :: "model_tier \<Rightarrow> int \<times> int" where
  "MODEL_PRICE_MICROS_PER_MILLION_TOKENS Tier_cheap = (270000, 850000)"
| "MODEL_PRICE_MICROS_PER_MILLION_TOKENS Tier_strong = (293000, 2253000)"

fun nonnegativeInteger :: "js_number option \<Rightarrow> int" where
  "nonnegativeInteger (Some (JInt n)) = (if is_safe_integer (JInt n) \<and> n \<ge> 0 then n else 0)"
| "nonnegativeInteger _ = 0"

definition calculateAiUsageCostMicros :: "model_tier \<Rightarrow> js_number \<Rightarrow> js_number \<Rightarrow> int" where
  "calculateAiUsageCostMicros tier promptTokens completionTokens =
     (let (prompt, completion) = MODEL_PRICE_MICROS_PER_MILLION_TOKENS tier
      in - ((- (nonnegativeInteger (Some promptTokens) * prompt +
                nonnegativeInteger (Some completionTokens) * completion)) div 1000000))"

definition valid_config :: "ai_config \<Rightarrow> bool" where
  "valid_config c \<longleftrightarrow>
     is_safe_integer (JInt (ac_alertThresholdMicros c)) \<and> is_safe_integer (JInt (ac_reviewThresholdMicros c)) \<and>
     ac_alertThresholdMicros c > 0 \<and> ac_reviewThresholdMicros c > ac_alertThresholdMicros c"

definition cleanOptional :: "string option \<Rightarrow> string option" where
  "cleanOptional v =
     (case v of None \<Rightarrow> None | Some s \<Rightarrow> if js_trim s = [] then None else Some (js_trim s))"

text \<open>
  A dollar amount is given by what \<^verbatim>\<open>Math.round(dollars * 1000000)\<close> makes of it; an absent or empty one is \<open>None\<close>.
\<close>

fun dollarsToMicros :: "js_number option \<Rightarrow> int \<Rightarrow> int" where
  "dollarsToMicros (Some (JInt micros)) fallback =
     (if is_safe_integer (JInt micros) \<and> micros > 0 then micros else fallback)"
| "dollarsToMicros _ fallback = fallback"

record ai_environment =
  an_brand :: "string option"
  an_environment :: "string option"
  an_alert :: "js_number option"
  an_review :: "js_number option"
  an_cheap_model :: "string option"
  an_strong_model :: "string option"

definition or_default :: "'a option \<Rightarrow> 'a \<Rightarrow> 'a" where
  "or_default v d = (case v of None \<Rightarrow> d | Some x \<Rightarrow> x)"

definition resolveAiCostControlConfig :: "ai_environment \<Rightarrow> ai_config" where
  "resolveAiCostControlConfig env =
     (let alert = dollarsToMicros (an_alert env) (ac_alertThresholdMicros DEFAULT_AI_COST_CONFIG);
          given = dollarsToMicros (an_review env) (ac_reviewThresholdMicros DEFAULT_AI_COST_CONFIG);
          review = (if given \<le> alert
                    then max (ac_reviewThresholdMicros DEFAULT_AI_COST_CONFIG) (alert + 1000000) else given)
      in \<lparr>ac_environment =
            or_default (cleanOptional (an_environment env))
              (or_default (map_option js_lower (cleanOptional (an_brand env)))
                (ac_environment DEFAULT_AI_COST_CONFIG)),
          ac_alertThresholdMicros = alert, ac_reviewThresholdMicros = review,
          ac_cheapModel = or_default (cleanOptional (an_cheap_model env)) (ac_cheapModel DEFAULT_AI_COST_CONFIG),
          ac_strongModel = or_default (cleanOptional (an_strong_model env)) (ac_strongModel DEFAULT_AI_COST_CONFIG)\<rparr>)"

subsection \<open>Requests\<close>

definition STRONG_TIER_FEATURES :: "string list" where
  "STRONG_TIER_FEATURES =
     [''assistant_chat'', ''compose_draft'', ''global_today_brief'', ''reply_draft'', ''relationship_insight'']"

definition MIN_ESCALATION_REASON_LENGTH :: nat where "MIN_ESCALATION_REASON_LENGTH = 20"

definition feature_head :: "char \<Rightarrow> bool" where
  "feature_head c \<longleftrightarrow> CHR ''a'' \<le> c \<and> c \<le> CHR ''z''"

definition feature_char :: "char \<Rightarrow> bool" where
  "feature_char c \<longleftrightarrow> feature_head c \<or> CHR ''0'' \<le> c \<and> c \<le> CHR ''9'' \<or> c = CHR ''_''"

definition normalizeFeature :: "string \<Rightarrow> string option" where
  "normalizeFeature feature =
     (let normalized = js_lower (js_trim feature)
      in if 2 \<le> length normalized \<and> length normalized \<le> 64 \<and> feature_head (hd normalized) \<and>
            list_all feature_char (tl normalized) then Some normalized else None)"

definition utcMonthKey :: "instant \<Rightarrow> string" where
  "utcMonthKey t = take 7 (iso_text t)"

record begin_input =
  bi_feature :: string
  bi_actorUserId :: "string option"
  bi_mailboxId :: "string option"
  bi_requestedTier :: "requested_tier option"
  bi_escalationReason :: "string option"
  bi_estimatedCostMicros :: js_number
  bi_cacheKey :: "string option"
  bi_cacheHit :: bool

datatype usage_mode = Mode_paid | Mode_cached | Mode_deterministic

datatype block_reason = Blocked_for usage_error | Blocked_ledger_unavailable

datatype usage_decision =
  Usage_allow usage_mode model_tier string "string option" bool
| Usage_block block_reason bool model_tier string bool

subsection \<open>The database as the controller meets it\<close>

text \<open>A call is answered, never arrives, or is carried out without its answer arriving.\<close>

datatype call_fate = Call_answered | Call_failed | Call_lost

primrec d1_call :: "call_fate \<Rightarrow> (ai_db \<Rightarrow> 'a ledger_result) \<Rightarrow> ai_db \<Rightarrow> 'a option \<times> ai_db" where
  "d1_call Call_answered op db = (case op db of (Inr x, db') \<Rightarrow> (Some x, db') | (Inl _, db') \<Rightarrow> (None, db'))"
| "d1_call Call_failed op db = (None, db)"
| "d1_call Call_lost op db = (None, snd (op db))"

record begin_env =
  be_now :: instant
  be_id :: string
  be_reap :: call_fate
  be_get :: call_fate
  be_reserve :: call_fate
  be_month :: call_fate
  be_record :: call_fate
  be_before_get :: "ai_db \<Rightarrow> ai_db"
  be_before_reserve :: "ai_db \<Rightarrow> ai_db"
  be_before_month :: "ai_db \<Rightarrow> ai_db"
  be_before_record :: "ai_db \<Rightarrow> ai_db"

definition recordBestEffort :: "ai_config \<Rightarrow> begin_env \<Rightarrow> usage_event \<Rightarrow> ai_db \<Rightarrow> bool \<times> ai_db" where
  "recordBestEffort c env event db =
     (case d1_call (be_record env) (recordEvent (ac_reviewThresholdMicros c) event) (be_before_record env db) of
        (r, db') \<Rightarrow> (r \<noteq> None, db'))"

definition blocked ::
  "ai_config \<Rightarrow> begin_env \<Rightarrow> usage_identity \<Rightarrow> usage_error \<Rightarrow> bool \<Rightarrow> js_number \<Rightarrow> ai_db \<Rightarrow>
     usage_decision \<times> ai_db" where
  "blocked c env identity reason reviewRequired estimated db =
     (case recordBestEffort c env
        (plain_event identity Usage_blocked
          (case estimated of JInt n \<Rightarrow> if is_safe_integer (JInt n) then max 0 n else 0 | JOther \<Rightarrow> 0)
          (Some reason)) db of
        (recorded, db') \<Rightarrow>
          (Usage_block (Blocked_for reason) reviewRequired (ui_selectedTier identity) (ui_model identity) recorded,
           db'))"

definition unavailable :: "usage_identity \<Rightarrow> usage_decision" where
  "unavailable identity =
     Usage_block Blocked_ledger_unavailable False (ui_selectedTier identity) (ui_model identity) False"

definition emptyMonth :: "string \<Rightarrow> string \<Rightarrow> int \<Rightarrow> month_row" where
  "emptyMonth environment monthKey approvedBudgetMicros =
     \<lparr>mr_environment = environment, mr_month_key = monthKey, mr_spent = 0, mr_reserved = 0,
      mr_approved = approvedBudgetMicros, mr_alert_at = None, mr_updated_at = 0\<rparr>"

subsection \<open>Beginning\<close>

definition requested :: "begin_input \<Rightarrow> requested_tier" where
  "requested input = or_default (bi_requestedTier input) Requested_auto"

definition selected :: "begin_input \<Rightarrow> model_tier" where
  "selected input = (if requested input = Requested_strong then Tier_strong else Tier_cheap)"

definition identity_of :: "ai_config \<Rightarrow> begin_env \<Rightarrow> begin_input \<Rightarrow> string \<Rightarrow> usage_identity" where
  "identity_of c env input feature =
     \<lparr>ui_id = be_id env, ui_environment = ac_environment c, ui_monthKey = utcMonthKey (be_now env),
      ui_feature = feature, ui_actorUserId = cleanOptional (bi_actorUserId input),
      ui_mailboxId = map_option js_lower (cleanOptional (bi_mailboxId input)),
      ui_requestedTier = requested input, ui_selectedTier = selected input,
      ui_model = (if selected input = Tier_strong then ac_strongModel c else ac_cheapModel c),
      ui_cacheKey = cleanOptional (bi_cacheKey input),
      ui_escalationReason = map_option (take 500) (cleanOptional (bi_escalationReason input)),
      ui_createdAt = be_now env\<rparr>"

text \<open>The reservation, once the month was read and left room for it.\<close>

definition reserve_paid ::
  "ai_config \<Rightarrow> begin_env \<Rightarrow> usage_identity \<Rightarrow> int \<Rightarrow> int \<Rightarrow> ai_db \<Rightarrow> usage_decision \<times> ai_db" where
  "reserve_paid c env identity estimated approvedLimit db =
     (let tier = ui_selectedTier identity;
          maximumTotalMicros =
            (if tier = Tier_strong then min approvedLimit (ac_alertThresholdMicros c) else approvedLimit)
      in case d1_call (be_reserve env)
           (tryReserve identity estimated (be_now env + AI_USAGE_RESERVATION_TTL_MS) maximumTotalMicros
              (ac_reviewThresholdMicros c)) (be_before_reserve env db) of
           (None, db1) \<Rightarrow> (unavailable identity, db1)
         | (Some reserved, db1) \<Rightarrow>
             (case d1_call (be_month env) (requiredMonth (ui_environment identity) (ui_monthKey identity))
                (be_before_month env db1) of
                (None, db2) \<Rightarrow> (unavailable identity, db2)
              | (Some month, db2) \<Rightarrow>
                  if reserved
                  then (Usage_allow Mode_paid tier (ui_model identity) (Some (ui_id identity)) True, db2)
                  else if tier = Tier_strong \<and> mr_spent month + mr_reserved month < approvedLimit
                  then blocked c env identity Strong_tier_paused_at_alert_threshold False (JInt estimated) db2
                  else blocked c env identity Admin_review_required True (JInt estimated) db2))"

definition decide_paid ::
  "ai_config \<Rightarrow> begin_env \<Rightarrow> usage_identity \<Rightarrow> int \<Rightarrow> month_row \<Rightarrow> ai_db \<Rightarrow> usage_decision \<times> ai_db" where
  "decide_paid c env identity estimated month db =
     (let currentTotal = mr_spent month + mr_reserved month;
          approvedLimit = max (mr_approved month) (ac_reviewThresholdMicros c)
      in if currentTotal \<ge> approvedLimit \<or> currentTotal + estimated > approvedLimit
         then blocked c env identity Admin_review_required True (JInt estimated) db
         else if ui_selectedTier identity = Tier_strong \<and>
                 (currentTotal \<ge> ac_alertThresholdMicros c \<or>
                  currentTotal + estimated > ac_alertThresholdMicros c)
         then blocked c env identity Strong_tier_paused_at_alert_threshold False (JInt estimated) db
         else reserve_paid c env identity estimated approvedLimit db)"

definition begin_paid ::
  "ai_config \<Rightarrow> begin_env \<Rightarrow> usage_identity \<Rightarrow> int \<Rightarrow> ai_db \<Rightarrow> usage_decision \<times> ai_db" where
  "begin_paid c env identity estimated db =
     (case d1_call (be_reap env) (reapExpiredReservations (be_now env)) db of
        (None, db1) \<Rightarrow> (unavailable identity, db1)
      | (Some _, db1) \<Rightarrow>
          (case d1_call (be_get env) (\<lambda>db. (Inr (getMonth (ui_environment identity) (ui_monthKey identity) db), db))
             (be_before_get env db1) of
             (None, db2) \<Rightarrow> (unavailable identity, db2)
           | (Some found, db2) \<Rightarrow>
               decide_paid c env identity estimated
                 (or_default found
                   (emptyMonth (ui_environment identity) (ui_monthKey identity) (ac_reviewThresholdMicros c))) db2))"

definition begin_free ::
  "ai_config \<Rightarrow> begin_env \<Rightarrow> usage_identity \<Rightarrow> bool \<Rightarrow> ai_db \<Rightarrow> usage_decision \<times> ai_db" where
  "begin_free c env identity cacheHit db =
     (case recordBestEffort c env
        (plain_event identity (if cacheHit then Usage_cache_hit else Usage_deterministic) 0 None) db of
        (recorded, db') \<Rightarrow>
          (Usage_allow (if cacheHit then Mode_cached else Mode_deterministic) (ui_selectedTier identity)
             (ui_model identity) None recorded, db'))"

text \<open>An invalid feature name is an exception.\<close>

definition beginUsage ::
  "ai_config \<Rightarrow> begin_env \<Rightarrow> begin_input \<Rightarrow> ai_db \<Rightarrow> usage_decision option \<times> ai_db" where
  "beginUsage c env input db =
     (case normalizeFeature (bi_feature input) of
        None \<Rightarrow> (None, db)
      | Some feature \<Rightarrow>
          (let identity = identity_of c env input feature;
               estimate = (if bi_cacheHit input then JInt 0 else bi_estimatedCostMicros input);
               (decision, db') =
                 (case estimate of
                    JOther \<Rightarrow> blocked c env identity Invalid_request False (bi_estimatedCostMicros input) db
                  | JInt estimated \<Rightarrow>
                      if \<not> is_safe_integer (JInt estimated) \<or> estimated < 0
                      then blocked c env identity Invalid_request False (bi_estimatedCostMicros input) db
                      else if \<not> bi_cacheHit input \<and> selected input = Tier_strong \<and>
                              feature \<notin> set STRONG_TIER_FEATURES
                      then blocked c env identity Strong_tier_not_allowed_for_feature False (JInt estimated) db
                      else if \<not> bi_cacheHit input \<and> selected input = Tier_strong \<and>
                              (case ui_escalationReason identity of
                                 None \<Rightarrow> True | Some r \<Rightarrow> length r < MIN_ESCALATION_REASON_LENGTH)
                      then blocked c env identity Strong_tier_requires_reason False (JInt estimated) db
                      else if bi_cacheHit input \<or> estimated = 0
                      then begin_free c env identity (bi_cacheHit input) db
                      else begin_paid c env identity estimated db)
           in (Some decision, db')))"

subsection \<open>Afterwards\<close>

definition completeUsage ::
  "ai_config \<Rightarrow> string \<Rightarrow> js_number \<Rightarrow> js_number option \<Rightarrow> js_number option \<Rightarrow> instant \<Rightarrow> ai_db \<Rightarrow>
     (bool \<times> bool) ledger_result option" where
  "completeUsage c reservationId actualCostMicros promptTokens completionTokens now db =
     (case actualCostMicros of
        JInt actual \<Rightarrow>
          if reservationId = [] \<or> \<not> is_safe_integer (JInt actual) \<or> actual < 0 then None
          else Some (completeReservation reservationId actual (nonnegativeInteger promptTokens)
                 (nonnegativeInteger completionTokens) (ac_alertThresholdMicros c) now db)
      | JOther \<Rightarrow> None)"

definition startUsage :: "string \<Rightarrow> instant \<Rightarrow> ai_db \<Rightarrow> bool ledger_result option" where
  "startUsage reservationId now db =
     (if reservationId = [] then None else Some (markReservationStarted reservationId now db))"

fun observed_cost :: "js_number option \<Rightarrow> int option" where
  "observed_cost (Some (JInt n)) = (if is_safe_integer (JInt n) \<and> n > 0 then Some n else None)"
| "observed_cost _ = None"

definition failUsage ::
  "string \<Rightarrow> string option \<Rightarrow> js_number option \<Rightarrow> js_number option \<Rightarrow> js_number option \<Rightarrow> instant \<Rightarrow> ai_db \<Rightarrow>
     bool ledger_result" where
  "failUsage reservationId errorCode actualCostMicros promptTokens completionTokens now db =
     failReservation reservationId
       \<lparr>uf_errorCode = map_option (\<lambda>s. Reported_error (take 100 s)) (cleanOptional errorCode),
        uf_failedAt = now, uf_observed = observed_cost actualCostMicros,
        uf_promptTokens = nonnegativeInteger promptTokens,
        uf_completionTokens = nonnegativeInteger completionTokens\<rparr> db"

datatype approval_error = Review_required | Cap_below_usage | Approval_store ledger_error

text \<open>The arguments after the configuration are the clock, the id drawn and what others do between the calls.\<close>

definition approveMonthlyBudget ::
  "ai_config \<Rightarrow> instant \<Rightarrow> string \<Rightarrow> (ai_db \<Rightarrow> ai_db) \<Rightarrow> (ai_db \<Rightarrow> ai_db) \<Rightarrow>
     js_number \<Rightarrow> string option \<Rightarrow> string option \<Rightarrow> ai_db \<Rightarrow> (approval_error + unit) \<times> ai_db" where
  "approveMonthlyBudget c reviewedAt reviewId before_get before_approve newApproved reviewedBy reason db =
     (case (newApproved, cleanOptional reviewedBy, cleanOptional reason) of
        (JInt budget, Some who, Some why) \<Rightarrow>
          if \<not> is_safe_integer (JInt budget) \<or> budget \<le> ac_reviewThresholdMicros c then (Inl Review_required, db)
          else (case reapExpiredReservations reviewedAt db of
              (Inl e, db1) \<Rightarrow> (Inl (Approval_store e), db1)
            | (Inr _, db1) \<Rightarrow>
                (let db2 = before_get db1;
                     currentTotal =
                       (case getMonth (ac_environment c) (utcMonthKey reviewedAt) db2 of
                          None \<Rightarrow> 0 | Some m \<Rightarrow> mr_spent m + mr_reserved m)
                 in if budget \<le> currentTotal then (Inl Cap_below_usage, db2)
                    else (case approveBudget (ac_reviewThresholdMicros c)
                        \<lparr>ba_environment = ac_environment c, ba_monthKey = utcMonthKey reviewedAt,
                         ba_newApproved = budget, ba_reviewedBy = who, ba_reason = take 500 why,
                         ba_reviewedAt = reviewedAt, ba_reviewId = reviewId\<rparr> (before_approve db2) of
                        (Inl e, db3) \<Rightarrow> (Inl (Approval_store e), db3)
                      | (Inr _, db3) \<Rightarrow> (Inr (), db3))))
      | _ \<Rightarrow> (Inl Review_required, db))"

definition getCurrentMonth :: "ai_config \<Rightarrow> instant \<Rightarrow> ai_db \<Rightarrow> month_row ledger_result" where
  "getCurrentMonth c now db =
     (case reapExpiredReservations now db of
        (Inl e, db1) \<Rightarrow> (Inl e, db1)
      | (Inr _, db1) \<Rightarrow>
          (Inr (or_default (getMonth (ac_environment c) (utcMonthKey now) db1)
             (emptyMonth (ac_environment c) (utcMonthKey now) (ac_reviewThresholdMicros c))), db1))"

end
