(* ===== verification/AI_Budget.thy ===== *)
theory AI_Budget
  imports AI_Cost
begin

text \<open>
  The ledger as a machine whose steps are the calls of the store, by any number of workers. The
  aggregates of a month are the sums over its events, and what is spent and reserved stays within the
  approved budget, up to what calls cost beyond their estimates.
\<close>

subsection \<open>Steps\<close>

definition approved_now :: "ai_config \<Rightarrow> string \<times> string \<Rightarrow> ai_db \<Rightarrow> int" where
  "approved_now c k db = max (ac_reviewThresholdMicros c)
     (case find (\<lambda>m. month_of m = k) (ad_months db) of
        None \<Rightarrow> ac_reviewThresholdMicros c | Some m \<Rightarrow> mr_approved m)"

inductive ai_step :: "ai_config \<Rightarrow> ai_db \<Rightarrow> ai_db \<Rightarrow> bool" for c where
  reap: "ai_step c db (snd (reapExpiredReservations now db))"
| log: "state \<noteq> Usage_reserved \<Longrightarrow>
     ai_step c db (snd (recordEvent (ac_reviewThresholdMicros c) (plain_event identity state estimated err) db))"
| reserve: "limit \<le> approved_now c (ui_environment identity, ui_monthKey identity) db \<Longrightarrow>
     ai_step c db (snd (tryReserve identity estimated expiresAt limit (ac_reviewThresholdMicros c) db))"
| complete: "ai_step c db (snd (completeReservation i actual prompt completion alert now db))"
| start: "ai_step c db (snd (markReservationStarted i now db))"
| failed: "ai_step c db (snd (failReservation i failure db))"
| approve: "ac_reviewThresholdMicros c < ba_newApproved input \<Longrightarrow>
     ai_step c db (snd (approveBudget (ac_reviewThresholdMicros c) input db))"

inductive_cases ai_step_cases: "ai_step c db db'"

subsection \<open>Sums over the events of a month\<close>

definition month_sum :: "(usage_event \<Rightarrow> int) \<Rightarrow> string \<times> string \<Rightarrow> usage_event list \<Rightarrow> int" where
  "month_sum g k es = sum_list (map g (filter (\<lambda>e. event_month e = k) es))"

definition held :: "usage_event \<Rightarrow> int" where
  "held e = (if ue_state e = Usage_reserved then ue_estimated e else 0)"

definition overrun :: "usage_event \<Rightarrow> int" where
  "overrun e = (if ue_state e = Usage_reserved then 0 else max 0 (ue_actual e - ue_estimated e))"

lemma month_sum_simps [simp]:
  "month_sum g k [] = 0"
  "month_sum g k (e # es) = (if event_month e = k then g e else 0) + month_sum g k es"
  "month_sum g k (es @ es') = month_sum g k es + month_sum g k es'"
  by (simp_all add: month_sum_def)

lemma month_sum_update:
  assumes "\<And>e. e \<in> set es \<Longrightarrow> P e \<Longrightarrow> event_month (f e) = event_month e"
  shows "month_sum g k (update_where P f es) =
    month_sum g k es - month_sum g k (filter P es) + month_sum (\<lambda>e. g (f e)) k (filter P es)"
  using assms by (induction es) auto

lemma month_sum_mono: "(\<And>e. e \<in> set es \<Longrightarrow> g e \<le> h e) \<Longrightarrow> month_sum g k es \<le> month_sum h k es"
  by (induction es) (auto simp: add_mono)

lemma month_sum_cong: "(\<And>e. e \<in> set es \<Longrightarrow> g e = h e) \<Longrightarrow> month_sum g k es = month_sum h k es"
  by (induction es) auto

lemma month_sum_diff: "month_sum (\<lambda>e. g e - h e) k es = month_sum g k es - month_sum h k es"
  by (induction es) auto

lemma month_sum_filter_le: "(\<And>e. e \<in> set es \<Longrightarrow> 0 \<le> g e) \<Longrightarrow> month_sum g k (filter P es) \<le> month_sum g k es"
  by (induction es) (auto simp: add_increasing)

lemma month_sum_zero [simp]: "month_sum (\<lambda>e. 0) k es = 0"
  by (induction es) auto

subsection \<open>Balanced books\<close>

text \<open>What the budget depends on in a row of the months.\<close>

definition figures :: "month_row \<Rightarrow> (string \<times> string) \<times> int \<times> int \<times> int" where
  "figures m = (month_of m, mr_reserved m, mr_spent m, mr_approved m)"

definition event_ok :: "usage_event \<Rightarrow> bool" where
  "event_ok e \<longleftrightarrow> 0 \<le> ue_estimated e \<and> 0 \<le> ue_actual e \<and> (ue_state e = Usage_reserved \<longrightarrow> ue_actual e = 0)"

definition figures_ok :: "ai_config \<Rightarrow> usage_event list \<Rightarrow> (string \<times> string) \<times> int \<times> int \<times> int \<Rightarrow> bool" where
  "figures_ok c es fig = (case fig of (k, reserved, spent, approved) \<Rightarrow>
     reserved = month_sum held k es \<and> spent = month_sum ue_actual k es \<and>
     ac_reviewThresholdMicros c \<le> approved \<and> spent + reserved \<le> approved + month_sum overrun k es)"

definition books :: "ai_config \<Rightarrow> ((string \<times> string) \<times> int \<times> int \<times> int) list \<Rightarrow> usage_event list \<Rightarrow> bool" where
  "books c figs es \<longleftrightarrow> distinct (map fst figs) \<and> distinct (map ue_id es) \<and>
     (\<forall>e \<in> set es. event_ok e \<and> event_month e \<in> set (map fst figs)) \<and>
     (\<forall>fig \<in> set figs. figures_ok c es fig)"

definition books_ok :: "ai_config \<Rightarrow> ai_db \<Rightarrow> bool" where
  "books_ok c db \<longleftrightarrow> books c (map figures (ad_months db)) (ad_events db)"

lemma fst_figures [simp]: "fst (figures m) = month_of m"
  by (simp add: figures_def)

subsection \<open>Settlements\<close>

definition settling_edit :: "(usage_event \<Rightarrow> bool) \<Rightarrow> (usage_event \<Rightarrow> usage_event) \<Rightarrow> bool" where
  "settling_edit P f \<longleftrightarrow> (\<forall>e. P e \<longrightarrow> ue_state e = Usage_reserved \<and>
     (ue_state (f e) = Usage_completed \<or> ue_state (f e) = Usage_failed) \<and>
     ue_identity (f e) = ue_identity e \<and> ue_estimated (f e) = ue_estimated e)"

lemma settling_editD:
  "settling_edit P f \<Longrightarrow> P e \<Longrightarrow> ue_state e = Usage_reserved"
  "settling_edit P f \<Longrightarrow> P e \<Longrightarrow> ue_state (f e) = Usage_completed \<or> ue_state (f e) = Usage_failed"
  "settling_edit P f \<Longrightarrow> P e \<Longrightarrow> ue_identity (f e) = ue_identity e"
  "settling_edit P f \<Longrightarrow> P e \<Longrightarrow> event_month (f e) = event_month e"
  "settling_edit P f \<Longrightarrow> P e \<Longrightarrow> ue_estimated (f e) = ue_estimated e"
  by (auto simp: settling_edit_def event_month_def)

text \<open>The triggers, run row by row, add the row's cost and take its estimate back.\<close>

definition settled_figures ::
  "(usage_event \<Rightarrow> usage_event) \<Rightarrow> usage_event list \<Rightarrow> (string \<times> string) \<times> int \<times> int \<times> int \<Rightarrow>
     (string \<times> string) \<times> int \<times> int \<times> int" where
  "settled_figures f es fig = (case fig of (k, reserved, spent, approved) \<Rightarrow>
     (k, reserved - month_sum ue_estimated k es, spent + month_sum (\<lambda>e. ue_actual (f e)) k es, approved))"

lemma charge_figures:
  assumes "ue_state e = Usage_reserved" and "ue_state e' = Usage_completed \<or> ue_state e' = Usage_failed"
    and "event_month e' = event_month e"
    and "\<And>m. m \<in> set ms \<Longrightarrow> month_of m = event_month e \<Longrightarrow> ue_estimated e \<le> mr_reserved m"
  shows "map figures (charge e e' ms) =
    map (\<lambda>m. if month_of m = event_month e
             then (month_of m, mr_reserved m - ue_estimated e, mr_spent m + ue_actual e', mr_approved m)
             else figures m) ms"
  using assms
  by (auto simp: charge_def update_where_def figures_def settle_month_def month_of_def)

lemma fold_charge_figures:
  assumes "\<And>e. e \<in> set es \<Longrightarrow> P e" and "settling_edit P f"
    and "\<And>e. e \<in> set es \<Longrightarrow> 0 \<le> ue_estimated e"
    and "\<And>m. m \<in> set ms \<Longrightarrow> month_sum ue_estimated (month_of m) es \<le> mr_reserved m"
  shows "map figures (fold (\<lambda>e. charge e (f e)) es ms) = map (\<lambda>m. settled_figures f es (figures m)) ms"
  using assms(1,3,4)
proof (induction es arbitrary: ms)
  case (Cons e es)
  have "0 \<le> month_sum ue_estimated k es" for k
    using Cons.prems(2) month_sum_mono [of es "\<lambda>e. 0" ue_estimated k] by simp
  then have room: "ue_estimated e \<le> mr_reserved m" if "m \<in> set ms" "month_of m = event_month e" for m
    using Cons.prems(3) [OF that(1)] that(2) by simp (smt (verit, best))
  have figs: "map figures (charge e (f e) ms) =
      map (\<lambda>m. if month_of m = event_month e
               then (month_of m, mr_reserved m - ue_estimated e, mr_spent m + ue_actual (f e), mr_approved m)
               else figures m) ms"
    using assms(2) Cons.prems(1) [of e] settling_editD [OF assms(2), of e] room
    by (intro charge_figures) auto
  have later: "month_sum ue_estimated (month_of m') es \<le> mr_reserved m'"
    if "m' \<in> set (charge e (f e) ms)" for m'
  proof -
    from that have "figures m' \<in> set (map figures (charge e (f e) ms))" by simp
    then obtain m where "m \<in> set ms" and "figures m' = (if month_of m = event_month e
        then (month_of m, mr_reserved m - ue_estimated e, mr_spent m + ue_actual (f e), mr_approved m)
        else figures m)" unfolding figs by auto
    with Cons.prems(3) [of m] show ?thesis by (auto simp: figures_def split: if_splits)
  qed
  have "map figures (fold (\<lambda>e. charge e (f e)) (e # es) ms) =
      map (settled_figures f es) (map figures (charge e (f e) ms))"
    using Cons.IH [OF _ _ later] Cons.prems(1,2) by simp
  also have "\<dots> = map (\<lambda>m. settled_figures f (e # es) (figures m)) ms"
    unfolding figs by (auto simp: settled_figures_def figures_def)
  finally show ?case .
qed (simp add: settled_figures_def case_prod_beta)

lemma ids_update:
  "settling_edit P f \<Longrightarrow> map ue_id (update_where P f es) = map ue_id es"
  by (induction es) (auto dest: settling_editD)

lemma fst_settled_figures [simp]: "fst (settled_figures f es fig) = fst fig"
  by (simp add: settled_figures_def case_prod_beta)

lemma settled_sums:
  assumes "\<And>e. e \<in> set es \<Longrightarrow> P e \<and> event_ok e" and "settling_edit P f"
  shows "month_sum held k es = month_sum ue_estimated k es" and "month_sum ue_actual k es = 0"
    and "month_sum overrun k es = 0" and "month_sum (\<lambda>e. held (f e)) k es = 0"
    and "month_sum (\<lambda>e. ue_actual (f e)) k es - month_sum ue_estimated k es \<le> month_sum (\<lambda>e. overrun (f e)) k es"
proof -
  have *: "ue_state e = Usage_reserved" "ue_state (f e) \<noteq> Usage_reserved" "ue_actual e = 0"
    "ue_estimated (f e) = ue_estimated e" if "e \<in> set es" for e
    using settling_editD [OF assms(2), of e] assms(1) [OF that] by (auto simp: event_ok_def)
  have zero: "month_sum g k es = 0" if "\<And>e. e \<in> set es \<Longrightarrow> g e = 0" for g
    using month_sum_cong [of es g "\<lambda>e. 0" k] that by simp
  show "month_sum held k es = month_sum ue_estimated k es"
    by (rule month_sum_cong) (simp add: held_def *)
  show "month_sum ue_actual k es = 0" "month_sum overrun k es = 0" "month_sum (\<lambda>e. held (f e)) k es = 0"
    by (rule zero; simp add: overrun_def held_def *)+
  show "month_sum (\<lambda>e. ue_actual (f e)) k es - month_sum ue_estimated k es \<le> month_sum (\<lambda>e. overrun (f e)) k es"
    unfolding month_sum_diff [symmetric] by (rule month_sum_mono) (simp add: overrun_def *)
qed

lemma settled_books:
  assumes "books_ok c db" and "settling_edit P f"
    and "\<And>e. P e \<Longrightarrow> e \<in> set (ad_events db) \<Longrightarrow> 0 \<le> ue_actual (f e)"
  shows "books_ok c (db\<lparr>ad_events := update_where P f (ad_events db),
    ad_months := fold (\<lambda>e. charge e (f e)) (filter P (ad_events db)) (ad_months db)\<rparr>)"
proof -
  let ?es = "filter P (ad_events db)" and ?figs = "map figures (ad_months db)"
  have books: "books c ?figs (ad_events db)" using assms(1) by (simp add: books_ok_def)
  then have ok: "event_ok e" "event_month e \<in> set (map fst ?figs)" if "e \<in> set (ad_events db)" for e
    using that by (auto simp: books_def)
  have es: "P e \<and> event_ok e" if "e \<in> set ?es" for e using that ok by auto
  have sums: "month_sum held k ?es = month_sum ue_estimated k ?es" "month_sum ue_actual k ?es = 0"
    "month_sum overrun k ?es = 0" "month_sum (\<lambda>e. held (f e)) k ?es = 0"
    "month_sum (\<lambda>e. ue_actual (f e)) k ?es - month_sum ue_estimated k ?es \<le> month_sum (\<lambda>e. overrun (f e)) k ?es" for k
    using settled_sums [OF _ assms(2), of ?es] es by blast+
  have update: "month_sum g k (update_where P f (ad_events db)) =
      month_sum g k (ad_events db) - month_sum g k ?es + month_sum (\<lambda>e. g (f e)) k ?es" for g k
    using settling_editD(4) [OF assms(2)] by (intro month_sum_update) auto
  have figs: "map figures (fold (\<lambda>e. charge e (f e)) ?es (ad_months db)) = map (settled_figures f ?es) ?figs"
  proof -
    have room: "month_sum ue_estimated (month_of m) ?es \<le> mr_reserved m" if "m \<in> set (ad_months db)" for m
    proof -
      have "mr_reserved m = month_sum held (month_of m) (ad_events db)"
        using books that by (auto simp: books_def figures_ok_def figures_def)
      moreover have "month_sum held (month_of m) ?es \<le> month_sum held (month_of m) (ad_events db)"
        using ok(1) by (intro month_sum_filter_le) (auto simp: held_def event_ok_def)
      ultimately show ?thesis using sums(1) by simp
    qed
    have "map figures (fold (\<lambda>e. charge e (f e)) ?es (ad_months db)) =
        map (\<lambda>m. settled_figures f ?es (figures m)) (ad_months db)"
      using es assms(2) room by (intro fold_charge_figures [where P = P]) (auto simp: event_ok_def)
    then show ?thesis by simp
  qed
  have "event_ok (f e) \<and> event_month (f e) = event_month e" if "P e" "e \<in> set (ad_events db)" for e
    using settling_editD [OF assms(2) that(1)] ok(1) [OF that(2)] assms(3) [OF that] by (auto simp: event_ok_def)
  with ok have events: "event_ok e \<and> event_month e \<in> set (map fst ?figs)"
    if "e \<in> set (update_where P f (ad_events db))" for e
    using that by (auto simp: set_update_where)
  have "figures_ok c (update_where P f (ad_events db)) (settled_figures f ?es fig)" if "fig \<in> set ?figs" for fig
  proof -
    obtain k reserved spent approved where fig: "fig = (k, reserved, spent, approved)" by (cases fig)
    have "figures_ok c (ad_events db) fig" using books that unfolding books_def by blast
    then show ?thesis
      using sums(5) [of k] by (simp add: figures_ok_def settled_figures_def update sums(1-4) fig)
  qed
  with books events show ?thesis
    unfolding books_ok_def by (simp add: figs ids_update [OF assms(2)] books_def comp_def)
qed

subsection \<open>Every step keeps the books\<close>

lemma booksD:
  assumes "books c figs es"
  shows "distinct (map fst figs)" and "distinct (map ue_id es)" and "e \<in> set es \<Longrightarrow> event_ok e"
    and "e \<in> set es \<Longrightarrow> event_month e \<in> set (map fst figs)" and "fig \<in> set figs \<Longrightarrow> figures_ok c es fig"
  using assms unfolding books_def by blast+

lemma month_sum_none: "(\<And>e. e \<in> set es \<Longrightarrow> event_month e \<noteq> k) \<Longrightarrow> month_sum g k es = 0"
  by (induction es) auto

lemma ensure_books:
  assumes "books_ok c db" and "0 \<le> ac_reviewThresholdMicros c"
  shows "books_ok c (ensureMonth environment monthKey t (ac_reviewThresholdMicros c) db)"
proof (cases "list_ex (\<lambda>m. month_of m = (environment, monthKey)) (ad_months db)")
  case False
  let ?k = "(environment, monthKey)" and ?figs = "map figures (ad_months db)"
  have new: "?k \<notin> set (map fst ?figs)" using False by (force simp: list_ex_iff)
  have books: "books c ?figs (ad_events db)" using assms by (simp add: books_ok_def)
  then have "month_sum g ?k (ad_events db) = 0" for g
    using new by (intro month_sum_none) (auto dest: booksD(4))
  then have "figures_ok c (ad_events db) (?k, 0, 0, ac_reviewThresholdMicros c)"
    using assms(2) by (simp add: figures_ok_def)
  with books new have "books c (?figs @ [(?k, 0, 0, ac_reviewThresholdMicros c)]) (ad_events db)"
    unfolding books_def by auto
  with False show ?thesis
    by (simp add: books_ok_def ensureMonth_def) (simp add: figures_def month_of_def)
qed (use assms in \<open>simp add: ensureMonth_def\<close>)

lemma books_snoc:
  assumes "books c figs es" and "e \<notin> set es" and "ue_id e \<notin> ue_id ` set es" and "event_ok e"
    and "event_month e \<in> set (map fst figs)" and "overrun e = 0" and "ue_actual e = 0"
    and "\<And>reserved spent approved. (event_month e, reserved, spent, approved) \<in> set figs \<Longrightarrow>
      spent + reserved + held e \<le> approved \<or> held e = 0"
  shows "books c (map (\<lambda>(k, reserved, spent, approved).
    (k, if k = event_month e then reserved + held e else reserved, spent, approved)) figs) (es @ [e])"
proof -
  have over: "0 \<le> month_sum overrun k es" for k
    using month_sum_mono [of es "\<lambda>e. 0" overrun k] by (simp add: overrun_def)
  have "figures_ok c (es @ [e]) (k, if k = event_month e then reserved + held e else reserved, spent, approved)"
    if "(k, reserved, spent, approved) \<in> set figs" for k reserved spent approved
    using over [of k] booksD(5) [OF assms(1) that] assms(6,7) assms(8) [of reserved spent approved] that
    by (cases "k = event_month e") (auto simp: figures_ok_def)
  then have "figures_ok c (es @ [e]) fig"
    if "fig \<in> set (map (\<lambda>(k, reserved, spent, approved).
      (k, if k = event_month e then reserved + held e else reserved, spent, approved)) figs)" for fig
    using that by auto
  moreover have keys: "map fst (map (\<lambda>(k, reserved, spent, approved).
      (k, if k = event_month e then reserved + held e else reserved, spent, approved)) figs) = map fst figs"
    by (simp add: case_prod_beta comp_def)
  moreover have "distinct (map ue_id (es @ [e]))" using assms(1,3) by (simp add: books_def)
  moreover have "event_ok e' \<and> event_month e' \<in> set (map fst figs)" if "e' \<in> set (es @ [e])" for e'
    using that assms(4,5) booksD(3,4) [OF assms(1)] by auto
  ultimately show ?thesis
    unfolding books_def keys using booksD(1) [OF assms(1)] by blast
qed

lemma insert_books:
  assumes "books_ok c db" and "insert_event e db = Inr db'" and "ue_actual e = 0"
    and "\<And>m. m \<in> set (ad_months db) \<Longrightarrow> month_of m = event_month e \<Longrightarrow>
      mr_spent m + mr_reserved m + held e \<le> mr_approved m \<or> held e = 0"
  shows "books_ok c db'"
proof -
  from assms(2) have new: "ue_id e \<notin> ue_id ` set (ad_events db)" and checks: "event_checks e"
    and month: "event_month e \<in> set (map fst (map figures (ad_months db)))"
    and db': "db' = db\<lparr>ad_events := ad_events db @ [e],
       ad_months := (if ue_state e = Usage_reserved
         then update_where (\<lambda>m. month_of m = event_month e) (reserve_month e) (ad_months db)
         else ad_months db)\<rparr>"
    by (auto simp: insert_event_def list_ex_iff intro: rev_image_eqI split: if_splits)
  have "map figures (ad_months db') = map (\<lambda>(k, reserved, spent, approved).
      (k, if k = event_month e then reserved + held e else reserved, spent, approved)) (map figures (ad_months db))"
    by (auto simp: db' update_where_def figures_def reserve_month_def month_of_def held_def)
  moreover have "books c (map (\<lambda>(k, reserved, spent, approved).
      (k, if k = event_month e then reserved + held e else reserved, spent, approved)) (map figures (ad_months db)))
      (ad_events db @ [e])"
    using assms(1,3,4) new checks month
    by (intro books_snoc) (auto simp: books_ok_def event_ok_def event_checks_def overrun_def figures_def)
  ultimately show ?thesis by (simp add: books_ok_def db')
qed

lemma transacted_books:
  "books_ok c db \<Longrightarrow> (\<And>x db'. r = Inr (x, db') \<Longrightarrow> books_ok c db') \<Longrightarrow> books_ok c (snd (transacted db r))"
  by (auto simp: transacted_def split: sum.split)

lemma update_books:
  assumes "books_ok c db" and "settling_edit P f" and "update_events P f db = Inr db'"
  shows "books_ok c db'"
proof -
  from assms(3) have "0 \<le> ue_actual (f e)" if "P e" "e \<in> set (ad_events db)" for e
    using that by (auto simp: update_events_def list_ex_iff event_checks_def split: if_splits)
  with settled_books [OF assms(1,2)] assms(3) show ?thesis
    by (simp add: update_events_def split: if_splits)
qed

lemma edits_settle [simp]:
  "settling_edit (reservation_over now) (expire_event now)"
  "settling_edit (open_reservation i) (fail_event failure)"
  "settling_edit (open_reservation i) (\<lambda>e. e\<lparr>ue_state := Usage_completed, ue_actual := actual,
     ue_prompt_tokens := prompt, ue_completion_tokens := completion, ue_completed_at := Some now\<rparr>)"
  by (simp_all add: settling_edit_def reservation_over_def expire_event_def open_reservation_def fail_event_def)

lemma alert_figures:
  "map figures (ad_months (snd (emit_alert i alert now db))) = map figures (ad_months db)"
  by (simp add: emit_alert_def Let_def update_where_def figures_def month_of_def)

lemma alert_events: "ad_events (snd (emit_alert i alert now db)) = ad_events db"
  by (simp add: emit_alert_def Let_def)

lemma start_books:
  assumes "books_ok c db"
  shows "books_ok c (snd (markReservationStarted i now db))"
proof -
  let ?f = "\<lambda>e. e\<lparr>ue_started_at := (case ue_started_at e of None \<Rightarrow> Some now | Some t \<Rightarrow> Some t)\<rparr>"
  let ?es = "update_where (open_reservation i) ?f (ad_events db)"
  have same: "event_month (?f e) = event_month e" "held (?f e) = held e" "overrun (?f e) = overrun e"
    "event_ok (?f e) = event_ok e" for e
    by (simp_all add: event_month_def held_def overrun_def event_ok_def)
  have sums: "month_sum g k ?es = month_sum g k (ad_events db)" if "\<And>e. g (?f e) = g e" for g k
    using same(1) that by (subst month_sum_update) auto
  have "figures_ok c ?es fig = figures_ok c (ad_events db) fig" for fig
    using same sums by (simp add: figures_ok_def)
  moreover have "map ue_id ?es = map ue_id (ad_events db)" by (simp add: keys_update_where)
  moreover have "event_ok e \<and> event_month e \<in> set (map fst (map figures (ad_months db)))" if "e \<in> set ?es" for e
    using that assms same by (auto simp: set_update_where books_ok_def dest: booksD(3,4) split: if_splits)
  ultimately show ?thesis
    using assms by (simp add: books_ok_def markReservationStarted_def books_def)
qed

lemma plain_event_simps [simp]:
  "ue_actual (plain_event identity state estimated err) = 0"
  "held (plain_event identity state estimated err) = (if state = Usage_reserved then estimated else 0)"
  "event_month (plain_event identity state estimated err) = (ui_environment identity, ui_monthKey identity)"
  "ue_identity (plain_event identity state estimated err) = identity"
  by (simp_all add: plain_event_def held_def event_month_def)

lemma reservation_event_simps [simp]:
  "ue_actual (reservation_event identity estimated limit t) = 0"
  "held (reservation_event identity estimated limit t) = estimated"
  "event_month (reservation_event identity estimated limit t) = (ui_environment identity, ui_monthKey identity)"
  "ue_identity (reservation_event identity estimated limit t) = identity"
  "ue_state (reservation_event identity estimated limit t) = Usage_reserved"
  by (simp_all add: reservation_event_def held_def event_month_def)

lemma record_books:
  assumes "books_ok c db" and "0 \<le> ac_reviewThresholdMicros c" and "state \<noteq> Usage_reserved"
  shows "books_ok c (snd (recordEvent (ac_reviewThresholdMicros c) (plain_event identity state estimated err) db))"
  unfolding recordEvent_def
proof (intro transacted_books [OF assms(1)])
  fix x db'
  let ?e = "plain_event identity state estimated err"
  assume "bind_result (insert_event ?e (ensureMonth (ui_environment (ue_identity ?e)) (ui_monthKey (ue_identity ?e))
      (ui_createdAt (ue_identity ?e)) (ac_reviewThresholdMicros c) db)) (\<lambda>db'. Inr ((), db')) = Inr (x, db')"
  then have insert: "insert_event ?e (ensureMonth (ui_environment (ue_identity ?e)) (ui_monthKey (ue_identity ?e))
      (ui_createdAt (ue_identity ?e)) (ac_reviewThresholdMicros c) db) = Inr db'"
    by (auto simp: bind_result_Inr)
  show "books_ok c db'"
    by (rule insert_books [OF ensure_books [OF assms(1,2)] insert]) (use assms(3) in simp_all)
qed

lemma getMonth_member:
  "getMonth environment monthKey db = Some m \<Longrightarrow> m \<in> set (ad_months db) \<and> month_of m = (environment, monthKey)"
  by (auto simp: getMonth_def dest: find_key_Some)

lemma books_month_unique:
  assumes "books_ok c db" and "m \<in> set (ad_months db)" and "m' \<in> set (ad_months db)" and "month_of m = month_of m'"
  shows "m = m'"
  using assms by (auto simp: books_ok_def books_def comp_def distinct_map inj_on_def)

lemma books_approved:
  "books_ok c db \<Longrightarrow> m \<in> set (ad_months db) \<Longrightarrow> ac_reviewThresholdMicros c \<le> mr_approved m"
  by (auto simp: books_ok_def books_def figures_ok_def figures_def)

text \<open>A month that a batch has just made sure of is the one it found, or a fresh one.\<close>

lemma ensured_month:
  assumes "getMonth environment monthKey (ensureMonth environment monthKey t budget db) = Some m"
  shows "getMonth environment monthKey db = Some m \<or>
    getMonth environment monthKey db = None \<and> mr_approved m = budget"
proof (cases "list_ex (\<lambda>m. month_of m = (environment, monthKey)) (ad_months db)")
  case False
  then have "getMonth environment monthKey db = None" by (auto simp: getMonth_def list_ex_iff find_None_iff)
  with False assms show ?thesis
    by (auto simp: getMonth_def ensureMonth_def find_append month_of_def)
qed (use assms in \<open>simp add: ensureMonth_def\<close>)

lemma approved_ensured:
  assumes "books_ok c db" and "0 \<le> ac_reviewThresholdMicros c"
    and "getMonth environment monthKey
      (ensureMonth environment monthKey t (ac_reviewThresholdMicros c) db) = Some m"
  shows "approved_now c (environment, monthKey) db = mr_approved m"
proof (cases "getMonth environment monthKey db")
  case None
  then show ?thesis using ensured_month [OF assms(3)] by (simp add: approved_now_def getMonth_def)
next
  case (Some m')
  with ensured_month [OF assms(3)] have "m' = m" by simp
  moreover have "ac_reviewThresholdMicros c \<le> mr_approved m'"
    using getMonth_member [OF Some] books_approved [OF assms(1)] by blast
  ultimately show ?thesis using Some by (simp add: approved_now_def getMonth_def)
qed

lemma reserve_books:
  assumes "books_ok c db" and "0 \<le> ac_reviewThresholdMicros c"
    and "limit \<le> approved_now c (ui_environment identity, ui_monthKey identity) db"
  shows "books_ok c (snd (tryReserve identity estimated t limit (ac_reviewThresholdMicros c) db))"
proof -
  let ?db = "ensureMonth (ui_environment identity) (ui_monthKey identity) (ui_createdAt identity)
    (ac_reviewThresholdMicros c) db"
  have ensured: "books_ok c ?db" by (rule ensure_books [OF assms(1,2)])
  show ?thesis
    unfolding tryReserve_def Let_def
  proof (intro transacted_books)
    fix x db'
    assume res: "(case getMonth (ui_environment identity) (ui_monthKey identity) ?db of
        None \<Rightarrow> Inr (False, ?db)
      | Some m \<Rightarrow> if mr_spent m + mr_reserved m + estimated \<le> limit
          then bind_result (insert_event (reservation_event identity estimated limit t) ?db) (\<lambda>db2. Inr (True, db2))
          else Inr (False, ?db)) = Inr (x, db')"
    show "books_ok c db'"
    proof (cases "getMonth (ui_environment identity) (ui_monthKey identity) ?db")
      case (Some m)
      show ?thesis
      proof (cases "mr_spent m + mr_reserved m + estimated \<le> limit")
        case True
        with res Some have insert: "insert_event (reservation_event identity estimated limit t) ?db = Inr db'"
          by (auto simp: bind_result_Inr)
        have room: "mr_spent m + mr_reserved m + estimated \<le> mr_approved m"
          using True assms(3) approved_ensured [OF assms(1,2) Some] by simp
        have "mr_spent m' + mr_reserved m' + estimated \<le> mr_approved m'"
          if "m' \<in> set (ad_months ?db)" "month_of m' = (ui_environment identity, ui_monthKey identity)" for m'
          using room books_month_unique [OF ensured that(1)] getMonth_member [OF Some] that(2) by fastforce
        then show ?thesis by (intro insert_books [OF ensured insert]) simp_all
      qed (use res Some ensured in simp)
    qed (use res ensured in simp)
  qed (rule assms(1))
qed

lemma complete_books:
  assumes "books_ok c db"
  shows "books_ok c (snd (completeReservation i actual prompt completion alert now db))"
  unfolding completeReservation_def
proof (intro transacted_books [OF assms])
  fix x db'
  let ?f = "\<lambda>e. e\<lparr>ue_state := Usage_completed, ue_actual := actual, ue_prompt_tokens := prompt,
    ue_completion_tokens := completion, ue_completed_at := Some now\<rparr>"
  assume "bind_result (update_events (open_reservation i) ?f db)
    (\<lambda>db1. let (emitAlert, db2) = emit_alert i alert now db1
           in Inr ((list_ex (open_reservation i) (ad_events db), emitAlert), db2)) = Inr (x, db')"
  then obtain db1 where db1: "update_events (open_reservation i) ?f db = Inr db1"
    and db': "db' = snd (emit_alert i alert now db1)"
    by (auto simp: bind_result_Inr case_prod_beta)
  have "books_ok c db1" by (rule update_books [OF assms _ db1]) simp
  then show "books_ok c db'" by (simp add: books_ok_def db' alert_figures alert_events del: map_map)
qed

lemma approve_books:
  assumes "books_ok c db" and "0 \<le> ac_reviewThresholdMicros c" and "ac_reviewThresholdMicros c < ba_newApproved input"
  shows "books_ok c (snd (approveBudget (ac_reviewThresholdMicros c) input db))"
proof -
  let ?db = "ensureMonth (ba_environment input) (ba_monthKey input) (ba_reviewedAt input)
    (ac_reviewThresholdMicros c) db"
  have ensured: "books_ok c ?db" by (rule ensure_books [OF assms(1,2)])
  have "books_ok c db2" if raised: "ba_newApproved input > mr_approved m" and insert: "insert_review input m ?db = Inr db2"
    and m: "m \<in> set (ad_months ?db)" for m db2
  proof -
    let ?raise = "\<lambda>(k, reserved, spent, approved).
      (k, reserved, spent, if k = month_of m then ba_newApproved input else approved)"
    have "map figures (ad_months db2) = map ?raise (map figures (ad_months ?db))"
      and events: "ad_events db2 = ad_events ?db"
      using insert by (auto simp: insert_review_def figures_def update_where_def month_of_def split: if_splits)
    moreover have "figures_ok c (ad_events ?db) (?raise fig)" if "fig \<in> set (map figures (ad_months ?db))" for fig
    proof -
      have "figures_ok c (ad_events ?db) fig" using ensured that unfolding books_ok_def by (rule booksD(5))
      moreover have "snd (snd (snd fig)) = mr_approved m" if "fst fig = month_of m"
      proof -
        from \<open>fig \<in> set _\<close> obtain m' where m': "m' \<in> set (ad_months ?db)" "fig = figures m'" by auto
        with that books_month_unique [OF ensured m'(1) m] show ?thesis by (simp add: figures_def)
      qed
      ultimately show ?thesis using raised assms(3) by (cases fig) (auto simp: figures_ok_def)
    qed
    moreover have "map fst (map ?raise figs) = map fst figs" for figs :: "((string \<times> string) \<times> int \<times> int \<times> int) list"
      by (simp add: case_prod_beta comp_def)
    ultimately show ?thesis
      using ensured unfolding books_ok_def books_def events by (simp only: set_map ball_simps) simp
  qed
  note review = this
  show ?thesis
  proof (cases "getMonth (ba_environment input) (ba_monthKey input) ?db")
    case (Some m)
    show ?thesis
    proof (cases "ba_newApproved input > mr_approved m \<and> ba_newApproved input > mr_spent m + mr_reserved m")
      case True
      have "books_ok c (snd (transacted db (bind_result (insert_review input m ?db) (\<lambda>db2. Inr ((), db2)))))"
        using True getMonth_member [OF Some]
        by (intro transacted_books [OF assms(1)]) (auto simp: bind_result_Inr intro: review)
      with Some True show ?thesis by (simp add: approveBudget_def Let_def)
    next
      case False
      then have "snd (approveBudget (ac_reviewThresholdMicros c) input db) = ?db"
        using Some by (auto simp: approveBudget_def Let_def)
      with ensured show ?thesis by simp
    qed
  qed (use ensured in \<open>simp add: approveBudget_def Let_def\<close>)
qed

lemma ai_step_books:
  assumes "ai_step c db db'" and "books_ok c db" and "0 \<le> ac_reviewThresholdMicros c"
  shows "books_ok c db'"
  using assms(1)
proof cases
  case (reap now)
  show ?thesis
    unfolding reap reapExpiredReservations_def
    by (intro transacted_books [OF assms(2)])
      (auto simp: bind_result_Inr intro: update_books [OF assms(2) edits_settle(1)])
next
  case (failed i failure)
  show ?thesis
    unfolding failed failReservation_def
    by (intro transacted_books [OF assms(2)])
      (auto simp: bind_result_Inr intro: update_books [OF assms(2) edits_settle(2)])
next
  case log
  then show ?thesis using record_books [OF assms(2,3)] by simp
next
  case reserve
  then show ?thesis using reserve_books [OF assms(2,3)] by simp
next
  case complete
  then show ?thesis using complete_books [OF assms(2)] by simp
next
  case start
  then show ?thesis using start_books [OF assms(2)] by simp
next
  case approve
  then show ?thesis using approve_books [OF assms(2,3)] by simp
qed

lemma ai_steps_books:
  assumes "(ai_step c)\<^sup>*\<^sup>* db db'" and "books_ok c db" and "0 \<le> ac_reviewThresholdMicros c"
  shows "books_ok c db'"
  using assms by (induction rule: rtranclp_induct) (auto intro: ai_step_books)

end
