(* ===== verification/AI_Guarantees.thy ===== *)
theory AI_Guarantees
  imports AI_Budget
begin

text \<open>What the cost control promises: books that balance, a budget that is kept, and a reservation behind every paid call.\<close>

definition empty_ai_db :: ai_db where
  "empty_ai_db = \<lparr>ad_months = [], ad_events = [], ad_reviews = [], ad_cache = []\<rparr>"

lemma empty_books: "books_ok c empty_ai_db"
  by (simp add: books_ok_def books_def empty_ai_db_def)

lemma valid_config_review: "valid_config c \<Longrightarrow> 0 \<le> ac_reviewThresholdMicros c"
  by (simp add: valid_config_def)

lemma reached_figures:
  assumes "valid_config c" and "(ai_step c)\<^sup>*\<^sup>* empty_ai_db db" and "m \<in> set (ad_months db)"
  shows "figures_ok c (ad_events db) (figures m)"
  using ai_steps_books [OF assms(2) empty_books valid_config_review [OF assms(1)]] assms(3)
  by (auto simp: books_ok_def intro: booksD(5))

text \<open>
  C19: The ledger balances: whatever calls any number of workers make of the store, in any order, the
  amount a month has reserved is the sum of the estimates of its open reservations, and the amount it
  has spent is the sum of what its events cost.
\<close>
theorem ai_ledger_balances:
  assumes "valid_config c" and "(ai_step c)\<^sup>*\<^sup>* empty_ai_db db" and "m \<in> set (ad_months db)"
  shows "mr_reserved m = month_sum held (month_of m) (ad_events db) \<and>
    mr_spent m = month_sum ue_actual (month_of m) (ad_events db)"
  using reached_figures [OF assms] by (simp add: figures_ok_def figures_def)

text \<open>
  C18: The budget is kept: what a month has spent and reserved never exceeds the budget approved for it by
  more than finished calls cost above their estimates; so with estimates that are never too low it never
  exceeds the budget at all.
\<close>
theorem ai_budget_is_kept:
  assumes "valid_config c" and "(ai_step c)\<^sup>*\<^sup>* empty_ai_db db" and "m \<in> set (ad_months db)"
  shows "mr_spent m + mr_reserved m \<le> mr_approved m + month_sum overrun (month_of m) (ad_events db) \<and>
    ((\<forall>e \<in> set (ad_events db). ue_actual e \<le> ue_estimated e) \<longrightarrow> mr_spent m + mr_reserved m \<le> mr_approved m)"
proof -
  have kept: "mr_spent m + mr_reserved m \<le> mr_approved m + month_sum overrun (month_of m) (ad_events db)"
    using reached_figures [OF assms] by (simp add: figures_ok_def figures_def)
  moreover have "month_sum overrun (month_of m) (ad_events db) = 0"
    if "\<forall>e \<in> set (ad_events db). ue_actual e \<le> ue_estimated e"
    using month_sum_cong [of "ad_events db" overrun "\<lambda>e. 0" "month_of m"] that by (simp add: overrun_def)
  ultimately show ?thesis by auto
qed

subsection \<open>Settled once\<close>

lemma insert_keeps:
  "insert_event e db = Inr db' \<Longrightarrow> set (ad_events db) \<subseteq> set (ad_events db')"
  by (auto simp: insert_event_def split: if_splits)

lemma update_keeps:
  assumes "update_events P f db = Inr db'" and "settling_edit P f"
    and "e \<in> set (ad_events db)" and "ue_state e \<noteq> Usage_reserved"
  shows "e \<in> set (ad_events db')"
proof -
  have "\<not> P e" using assms(2,4) settling_editD(1) by blast
  with assms(1,3) show ?thesis
    by (auto simp: update_events_def set_update_where split: if_splits)
qed

lemma ensure_events [simp]: "ad_events (ensureMonth environment monthKey t budget db) = ad_events db"
  by (simp add: ensureMonth_def)

lemma transacted_keeps:
  "e \<in> set (ad_events db) \<Longrightarrow> (\<And>x db'. r = Inr (x, db') \<Longrightarrow> e \<in> set (ad_events db')) \<Longrightarrow>
     e \<in> set (ad_events (snd (transacted db r)))"
  by (auto simp: transacted_def split: sum.split)

lemma ai_step_keeps:
  assumes "ai_step c db db'" and "e \<in> set (ad_events db)" and "ue_state e \<noteq> Usage_reserved"
  shows "e \<in> set (ad_events db')"
  using assms(1)
proof cases
  case (reap now)
  show ?thesis
    unfolding reap reapExpiredReservations_def
    by (intro transacted_keeps [OF assms(2)])
      (auto simp: bind_result_Inr intro: update_keeps [OF _ edits_settle(1) assms(2,3)])
next
  case (failed i failure)
  show ?thesis
    unfolding failed failReservation_def
    by (intro transacted_keeps [OF assms(2)])
      (auto simp: bind_result_Inr intro: update_keeps [OF _ edits_settle(2) assms(2,3)])
next
  case (complete i actual prompt completion alert now)
  show ?thesis
    unfolding complete completeReservation_def
    by (intro transacted_keeps [OF assms(2)])
      (auto simp: bind_result_Inr case_prod_beta alert_events intro: update_keeps [OF _ edits_settle(3) assms(2,3)])
next
  case log
  then show ?thesis
    unfolding log recordEvent_def
    using assms(2) by (intro transacted_keeps) (auto simp: bind_result_Inr dest!: insert_keeps)
next
  case reserve
  then show ?thesis
    unfolding reserve tryReserve_def Let_def
    using assms(2)
    by (intro transacted_keeps) (auto simp: bind_result_Inr split: option.splits if_splits dest!: insert_keeps)
next
  case start
  then show ?thesis
    using assms(2,3) by (auto simp: markReservationStarted_def set_update_where open_reservation_def)
next
  case (approve input)
  have "ad_events db2 = ad_events db1" if "insert_review i m db1 = Inr db2" for i m db1 db2
    using that by (auto simp: insert_review_def split: if_splits)
  then show ?thesis
    unfolding approve approveBudget_def Let_def transacted_def
    using assms(2) by (auto simp: bind_result_Inr split: option.splits sum.splits)
qed

text \<open>
  A paid call is charged once: after its reservation was completed, failed or expired, its entry of
  the ledger never changes again, whatever reports arrive late or twice and whatever other calls do.
\<close>
theorem settled_usage_is_final:
  assumes "(ai_step c)\<^sup>*\<^sup>* db db'" and "e \<in> set (ad_events db)" and "ue_state e \<noteq> Usage_reserved"
  shows "e \<in> set (ad_events db')"
  using assms by (induction rule: rtranclp_induct) (auto intro: ai_step_keeps)

subsection \<open>The configuration\<close>

text \<open>
  C22: The configuration resolved from the environment is one the controller accepts, whatever is set in
  the environment, except when the alert threshold lies within a dollar of the largest safe integer and
  no higher review threshold is given.
\<close>
theorem resolved_config_is_accepted:
  "valid_config (resolveAiCostControlConfig env) \<longleftrightarrow>
     dollarsToMicros (an_alert env) 25000000 + 1000000 \<le> max_safe_integer \<or>
     dollarsToMicros (an_alert env) 25000000 < dollarsToMicros (an_review env) 50000000"
proof -
  have amount: "0 < dollarsToMicros v d \<and> dollarsToMicros v d \<le> max_safe_integer"
    if "0 < d" "d \<le> max_safe_integer" for v d
    using that by (cases "(v, d)" rule: dollarsToMicros.cases) auto
  have "0 < dollarsToMicros (an_alert env) 25000000 \<and> dollarsToMicros (an_alert env) 25000000 \<le> max_safe_integer"
    "0 < dollarsToMicros (an_review env) 50000000 \<and> dollarsToMicros (an_review env) 50000000 \<le> max_safe_integer"
    by (rule amount; simp add: max_safe_integer_def)+
  then show ?thesis
    by (auto simp: valid_config_def resolveAiCostControlConfig_def DEFAULT_AI_COST_CONFIG_def Let_def
        max_safe_integer_def)
qed

subsection \<open>Beginning a call\<close>

definition ai_interferes :: "ai_config \<Rightarrow> (ai_db \<Rightarrow> ai_db) \<Rightarrow> bool" where
  "ai_interferes c f \<longleftrightarrow> (\<forall>db. (ai_step c)\<^sup>*\<^sup>* db (f db))"

definition begin_env_ok :: "ai_config \<Rightarrow> begin_env \<Rightarrow> bool" where
  "begin_env_ok c env \<longleftrightarrow> ai_interferes c (be_before_get env) \<and> ai_interferes c (be_before_reserve env) \<and>
     ai_interferes c (be_before_month env) \<and> ai_interferes c (be_before_record env)"

text \<open>The approved budget of a month is only ever raised.\<close>

definition approvals :: "ai_db \<Rightarrow> ((string \<times> string) \<times> int) list" where
  "approvals db = map (\<lambda>m. (month_of m, mr_approved m)) (ad_months db)"

lemma approved_now_alt:
  "approved_now c k db =
     max (ac_reviewThresholdMicros c) (or_default (map_of (approvals db) k) (ac_reviewThresholdMicros c))"
proof -
  have "map_of (map (\<lambda>m. (month_of m, mr_approved m)) ms) k = map_option mr_approved (find (\<lambda>m. month_of m = k) ms)" for ms
    by (induction ms) auto
  then show ?thesis by (simp add: approved_now_def approvals_def or_default_def split: option.split)
qed

lemma month_edits [simp]:
  "month_of (settle_month e e' m) = month_of m" "mr_approved (settle_month e e' m) = mr_approved m"
  "month_of (reserve_month e m) = month_of m" "mr_approved (reserve_month e m) = mr_approved m"
  "month_of (m\<lparr>mr_alert_at := a, mr_updated_at := t\<rparr>) = month_of m"
  by (simp_all add: month_of_def settle_month_def reserve_month_def)

lemma approvals_update:
  "(\<And>m. P m \<Longrightarrow> month_of (g m) = month_of m \<and> mr_approved (g m) = mr_approved m) \<Longrightarrow>
     map (\<lambda>m. (month_of m, mr_approved m)) (update_where P g ms) = map (\<lambda>m. (month_of m, mr_approved m)) ms"
  by (simp add: keys_update_where)

lemma approvals_charge:
  "map (\<lambda>m. (month_of m, mr_approved m)) (fold (\<lambda>e. charge e (f e)) es ms) = map (\<lambda>m. (month_of m, mr_approved m)) ms"
proof (induction es arbitrary: ms)
  case (Cons e es)
  have "map (\<lambda>m. (month_of m, mr_approved m)) (charge e (f e) ms) = map (\<lambda>m. (month_of m, mr_approved m)) ms"
    unfolding charge_def by (auto intro!: approvals_update)
  with Cons.IH show ?case by simp
qed simp

lemma update_approvals: "update_events P f db = Inr db' \<Longrightarrow> approvals db' = approvals db"
  by (auto simp: update_events_def approvals_def approvals_charge split: if_splits)

lemma insert_approvals: "insert_event e db = Inr db' \<Longrightarrow> approvals db' = approvals db"
  by (auto simp: insert_event_def approvals_def split: if_splits intro!: approvals_update)

lemma alert_approvals: "approvals (snd (emit_alert i alert now db)) = approvals db"
  by (auto simp: emit_alert_def Let_def approvals_def intro!: approvals_update)

lemma ensure_approved:
  "approved_now c k (ensureMonth environment monthKey t (ac_reviewThresholdMicros c) db) = approved_now c k db"
proof (cases "list_ex (\<lambda>m. month_of m = (environment, monthKey)) (ad_months db)")
  case False
  then have "map_of (approvals db) (environment, monthKey) = None"
    by (auto simp: approvals_def map_of_eq_None_iff list_ex_iff)
  moreover have "approvals (ensureMonth environment monthKey t (ac_reviewThresholdMicros c) db) =
      approvals db @ [((environment, monthKey), ac_reviewThresholdMicros c)]"
    using False by (simp add: ensureMonth_def approvals_def month_of_def)
  ultimately show ?thesis
    by (auto simp: approved_now_alt or_default_def map_add_def split: option.split)
qed (simp add: ensureMonth_def)

lemma review_approved:
  assumes "insert_review input m db = Inr db'" and "find (\<lambda>m'. month_of m' = month_of m) (ad_months db) = Some m"
    and "mr_approved m < ba_newApproved input"
  shows "approved_now c k db \<le> approved_now c k db'"
proof -
  have "ad_months db' = update_where (\<lambda>m'. month_of m' = month_of m)
      (\<lambda>m'. m'\<lparr>mr_approved := ba_newApproved input, mr_updated_at := ba_reviewedAt input\<rparr>) (ad_months db)"
    using assms(1) by (auto simp: insert_review_def split: if_splits)
  then have "find (\<lambda>m'. month_of m' = k) (ad_months db') =
      map_option (\<lambda>m'. if month_of m' = month_of m
        then m'\<lparr>mr_approved := ba_newApproved input, mr_updated_at := ba_reviewedAt input\<rparr> else m')
        (find (\<lambda>m'. month_of m' = k) (ad_months db))"
    by (simp add: month_of_def find_update_where)
  with assms(2,3) show ?thesis
    by (cases "k = month_of m") (auto simp: approved_now_def dest: find_key_Some split: option.splits)
qed

lemma transacted_approved:
  "(\<And>x db'. r = Inr (x, db') \<Longrightarrow> approved_now c k db \<le> approved_now c k db') \<Longrightarrow>
     approved_now c k db \<le> approved_now c k (snd (transacted db r))"
  by (auto simp: transacted_def split: sum.split)

lemma same_approved: "approvals db' = approvals db \<Longrightarrow> approved_now c k db' = approved_now c k db"
  by (simp add: approved_now_alt)

lemma kept_approved:
  "update_events P f db = Inr db' \<Longrightarrow> approved_now c k db \<le> approved_now c k db'"
  "insert_event e db = Inr db' \<Longrightarrow> approved_now c k db \<le> approved_now c k db'"
  "approved_now c k (snd (emit_alert i alert now db)) = approved_now c k db"
  using same_approved update_approvals insert_approvals alert_approvals by (metis order_refl)+

lemma ai_step_approved:
  assumes "ai_step c db db'"
  shows "approved_now c k db \<le> approved_now c k db'"
  using assms
proof cases
  case (reap now)
  then show ?thesis
    unfolding reap reapExpiredReservations_def
    by (intro transacted_approved) (auto simp: bind_result_Inr intro: kept_approved)
next
  case (failed i failure)
  then show ?thesis
    unfolding failed failReservation_def
    by (intro transacted_approved) (auto simp: bind_result_Inr intro: kept_approved)
next
  case complete
  then show ?thesis
    unfolding complete completeReservation_def
    by (intro transacted_approved)
      (auto simp: bind_result_Inr case_prod_beta kept_approved(3) intro: kept_approved(1))
next
  case log
  show ?thesis
    unfolding log recordEvent_def
    by (intro transacted_approved) (auto simp: bind_result_Inr dest!: kept_approved(2) [of _ _ _ c k] simp: ensure_approved)
next
  case reserve
  show ?thesis
    unfolding reserve tryReserve_def Let_def
    by (intro transacted_approved)
      (auto simp: bind_result_Inr ensure_approved split: option.splits if_splits dest!: kept_approved(2) [of _ _ _ c k])
next
  case start
  then show ?thesis by (simp add: markReservationStarted_def approved_now_def)
next
  case (approve input)
  let ?db = "ensureMonth (ba_environment input) (ba_monthKey input) (ba_reviewedAt input)
    (ac_reviewThresholdMicros c) db"
  have "approved_now c k ?db \<le> approved_now c k db2"
    if "getMonth (ba_environment input) (ba_monthKey input) ?db = Some m" "mr_approved m < ba_newApproved input"
      "insert_review input m ?db = Inr db2" for m db2
    using review_approved [OF that(3) _ that(2)] that(1) getMonth_member [OF that(1)] by (simp add: getMonth_def)
  then show ?thesis
    unfolding approve approveBudget_def Let_def
    by (auto simp: ensure_approved transacted_def bind_result_Inr split: option.split sum.split)
qed

lemma ai_steps_approved: "(ai_step c)\<^sup>*\<^sup>* db db' \<Longrightarrow> approved_now c k db \<le> approved_now c k db'"
  by (induction rule: rtranclp_induct) (auto intro: order_trans ai_step_approved)

lemma approved_month:
  "getMonth environment monthKey db = Some m \<Longrightarrow>
     approved_now c (environment, monthKey) db = max (mr_approved m) (ac_reviewThresholdMicros c)"
  "getMonth environment monthKey db = None \<Longrightarrow>
     approved_now c (environment, monthKey) db = ac_reviewThresholdMicros c"
  by (simp_all add: approved_now_def getMonth_def max.commute)

text \<open>Events are never deleted, and keep their identity and estimate.\<close>

definition recorded_as :: "ai_db \<Rightarrow> usage_identity \<Rightarrow> int \<Rightarrow> bool" where
  "recorded_as db identity estimated \<longleftrightarrow>
     (\<exists>e \<in> set (ad_events db). ue_identity e = identity \<and> ue_estimated e = estimated)"

lemma recorded_as_map:
  "recorded_as db identity estimated \<longleftrightarrow>
     (identity, estimated) \<in> set (map (\<lambda>e. (ue_identity e, ue_estimated e)) (ad_events db))"
  by (auto simp: recorded_as_def)

lemma update_recorded:
  assumes "update_events P f db = Inr db'" and "settling_edit P f" and "recorded_as db identity estimated"
  shows "recorded_as db' identity estimated"
proof -
  from assms(3) obtain e where e: "e \<in> set (ad_events db)" "ue_identity e = identity" "ue_estimated e = estimated"
    by (auto simp: recorded_as_def)
  with assms(1) have "(if P e then f e else e) \<in> set (ad_events db')"
    by (auto simp: update_events_def set_update_where split: if_splits)
  moreover have "ue_identity (if P e then f e else e) = identity \<and> ue_estimated (if P e then f e else e) = estimated"
    using e(2,3) settling_editD(3,5) [OF assms(2)] by simp
  ultimately show ?thesis unfolding recorded_as_def by blast
qed

lemma insert_recorded:
  "insert_event e db = Inr db' \<Longrightarrow> recorded_as db identity estimated \<Longrightarrow> recorded_as db' identity estimated"
  using insert_keeps by (fastforce simp: recorded_as_def)

lemma transacted_recorded:
  "recorded_as db identity estimated \<Longrightarrow>
     (\<And>x db'. r = Inr (x, db') \<Longrightarrow> recorded_as db' identity estimated) \<Longrightarrow>
     recorded_as (snd (transacted db r)) identity estimated"
  by (auto simp: transacted_def split: sum.split)

lemma ensure_recorded [simp]:
  "recorded_as (ensureMonth environment monthKey t budget db) identity estimated = recorded_as db identity estimated"
  by (simp add: recorded_as_def)

lemma ai_step_recorded:
  assumes "ai_step c db db'" and "recorded_as db identity estimated"
  shows "recorded_as db' identity estimated"
  using assms(1)
proof cases
  case (reap now)
  show ?thesis
    unfolding reap reapExpiredReservations_def
    by (intro transacted_recorded [OF assms(2)])
      (auto simp: bind_result_Inr intro: update_recorded [OF _ edits_settle(1) assms(2)])
next
  case (failed i failure)
  show ?thesis
    unfolding failed failReservation_def
    by (intro transacted_recorded [OF assms(2)])
      (auto simp: bind_result_Inr intro: update_recorded [OF _ edits_settle(2) assms(2)])
next
  case (complete i actual prompt completion alert now)
  have "recorded_as (snd (emit_alert i alert now db1)) identity estimated = recorded_as db1 identity estimated" for db1
    by (simp add: recorded_as_def alert_events)
  then show ?thesis
    unfolding complete completeReservation_def
    by (intro transacted_recorded [OF assms(2)])
      (auto simp: bind_result_Inr case_prod_beta intro: update_recorded [OF _ edits_settle(3) assms(2)])
next
  case log
  show ?thesis
    unfolding log recordEvent_def
    using assms(2) by (intro transacted_recorded) (auto simp: bind_result_Inr dest!: insert_recorded)
next
  case reserve
  show ?thesis
    unfolding reserve tryReserve_def Let_def
    using assms(2)
    by (intro transacted_recorded)
      (auto simp: bind_result_Inr split: option.splits if_splits dest!: insert_recorded)
next
  case (start i now)
  have "map (\<lambda>e. (ue_identity e, ue_estimated e)) (ad_events db') = map (\<lambda>e. (ue_identity e, ue_estimated e)) (ad_events db)"
    unfolding start by (simp add: markReservationStarted_def keys_update_where)
  then show ?thesis using assms(2) by (simp add: recorded_as_map)
next
  case (approve input)
  have "ad_events db2 = ad_events db1" if "insert_review i m db1 = Inr db2" for i m db1 db2
    using that by (auto simp: insert_review_def split: if_splits)
  then show ?thesis
    unfolding approve approveBudget_def Let_def transacted_def
    using assms(2) by (auto simp: recorded_as_def bind_result_Inr split: option.splits sum.splits)
qed

lemma ai_steps_recorded:
  "(ai_step c)\<^sup>*\<^sup>* db db' \<Longrightarrow> recorded_as db identity estimated \<Longrightarrow> recorded_as db' identity estimated"
  by (induction rule: rtranclp_induct) (auto intro: ai_step_recorded)

subsection \<open>Its stages as steps\<close>

lemma d1_call_steps:
  "(ai_step c)\<^sup>*\<^sup>* db (snd (op db)) \<Longrightarrow> (ai_step c)\<^sup>*\<^sup>* db (snd (d1_call fate op db))"
  by (cases fate) (auto split: prod.split sum.split)

lemma d1_call_Some: "d1_call fate op db = (Some x, db') \<Longrightarrow> op db = (Inr x, db')"
  by (cases fate) (auto split: prod.splits sum.splits)

lemma interferes_steps: "ai_interferes c f \<Longrightarrow> (ai_step c)\<^sup>*\<^sup>* db (f db)"
  by (simp add: ai_interferes_def)

lemma best_effort_steps:
  assumes "begin_env_ok c env" and "state \<noteq> Usage_reserved"
  shows "(ai_step c)\<^sup>*\<^sup>* db (snd (recordBestEffort c env (plain_event identity state estimated err) db))"
proof -
  have "(ai_step c)\<^sup>*\<^sup>* db (be_before_record env db)"
    using assms(1) by (simp add: begin_env_ok_def ai_interferes_def)
  also have "(ai_step c)\<^sup>*\<^sup>* (be_before_record env db) (snd (d1_call (be_record env)
      (recordEvent (ac_reviewThresholdMicros c) (plain_event identity state estimated err)) (be_before_record env db)))"
    using assms(2) by (intro d1_call_steps r_into_rtranclp ai_step.log)
  finally show ?thesis by (simp add: recordBestEffort_def case_prod_beta)
qed

lemma blocked_steps:
  "begin_env_ok c env \<Longrightarrow> (ai_step c)\<^sup>*\<^sup>* db (snd (blocked c env identity reason review estimated db))"
  using best_effort_steps by (simp add: blocked_def case_prod_beta)

lemma blocked_blocks: "\<exists>r b t m w. fst (blocked c env identity reason review estimated db) = Usage_block r b t m w"
  by (simp add: blocked_def case_prod_beta)

text \<open>A paid decision comes from a reservation that succeeded on the way.\<close>

definition paid_by ::
  "ai_config \<Rightarrow> usage_identity \<Rightarrow> int \<Rightarrow> int \<Rightarrow> ai_db \<Rightarrow> ai_db \<Rightarrow> bool" where
  "paid_by c identity estimated limit db db' \<longleftrightarrow>
     (\<exists>db1 db2 t. (ai_step c)\<^sup>*\<^sup>* db db1 \<and>
        tryReserve identity estimated t limit (ac_reviewThresholdMicros c) db1 = (Inr True, db2) \<and>
        limit \<le> approved_now c (ui_environment identity, ui_monthKey identity) db1 \<and>
        ai_step c db1 db2 \<and> (ai_step c)\<^sup>*\<^sup>* db2 db')"

definition paid_limit :: "ai_config \<Rightarrow> usage_identity \<Rightarrow> int \<Rightarrow> int" where
  "paid_limit c identity approvedLimit =
     (if ui_selectedTier identity = Tier_strong then min approvedLimit (ac_alertThresholdMicros c) else approvedLimit)"

lemma reserve_paid_runs:
  assumes "begin_env_ok c env" and "approvedLimit \<le> approved_now c (ui_environment identity, ui_monthKey identity) db"
    and "reserve_paid c env identity estimated approvedLimit db = (d, db')"
  shows "(ai_step c)\<^sup>*\<^sup>* db db'"
    and "d = Usage_allow Mode_paid tier model i recorded \<Longrightarrow>
      tier = ui_selectedTier identity \<and> i = Some (ui_id identity) \<and>
      paid_by c identity estimated (paid_limit c identity approvedLimit) db db'"
proof -
  let ?limit = "paid_limit c identity approvedLimit"
  let ?op = "tryReserve identity estimated (be_now env + AI_USAGE_RESERVATION_TTL_MS) ?limit (ac_reviewThresholdMicros c)"
  let ?read = "requiredMonth (ui_environment identity) (ui_monthKey identity)"
  define db0 where "db0 = be_before_reserve env db"
  obtain r1 db1 where call1: "d1_call (be_reserve env) ?op db0 = (r1, db1)" by (cases "d1_call (be_reserve env) ?op db0")
  define db2 where "db2 = be_before_month env db1"
  obtain r2 db3 where call2: "d1_call (be_month env) ?read db2 = (r2, db3)" by (cases "d1_call (be_month env) ?read db2")
  have s0: "(ai_step c)\<^sup>*\<^sup>* db db0" and s2: "(ai_step c)\<^sup>*\<^sup>* db1 db2"
    using assms(1) by (simp_all add: begin_env_ok_def ai_interferes_def db0_def db2_def)
  have room: "?limit \<le> approved_now c (ui_environment identity, ui_monthKey identity) db0"
    using order_trans [OF assms(2) ai_steps_approved [OF s0]] by (auto simp: paid_limit_def)
  then have reserved: "ai_step c db0 (snd (?op db0))" by (rule ai_step.reserve)
  then have s1: "(ai_step c)\<^sup>*\<^sup>* db0 db1"
    using d1_call_steps [OF r_into_rtranclp, of c db0 ?op "be_reserve env"] call1 by simp
  have "snd (?read db) = db" for db by (simp add: requiredMonth_def split: option.split)
  then have s3: "(ai_step c)\<^sup>*\<^sup>* db2 db3"
    using d1_call_steps [of c db2 ?read "be_month env"] call2 by simp
  have to1: "(ai_step c)\<^sup>*\<^sup>* db db1" and to3: "(ai_step c)\<^sup>*\<^sup>* db db3" and from1: "(ai_step c)\<^sup>*\<^sup>* db1 db3"
    using s0 s1 s2 s3 by (meson rtranclp_trans)+
  have run: "reserve_paid c env identity estimated approvedLimit db =
      (case r1 of None \<Rightarrow> (unavailable identity, db1)
       | Some reserved \<Rightarrow>
           (case r2 of None \<Rightarrow> (unavailable identity, db3)
            | Some month \<Rightarrow>
                if reserved then (Usage_allow Mode_paid (ui_selectedTier identity) (ui_model identity) (Some (ui_id identity)) True, db3)
                else if ui_selectedTier identity = Tier_strong \<and> mr_spent month + mr_reserved month < approvedLimit
                then blocked c env identity Strong_tier_paused_at_alert_threshold False (JInt estimated) db3
                else blocked c env identity Admin_review_required True (JInt estimated) db3))"
    using call1 call2
    by (simp add: reserve_paid_def Let_def paid_limit_def db0_def [symmetric] db2_def [symmetric] split: option.split)
  have block: "(ai_step c)\<^sup>*\<^sup>* db (snd (blocked c env identity reason review est db3))" for reason review est
    using to3 blocked_steps [OF assms(1)] by (rule rtranclp_trans)
  have "db' = snd (reserve_paid c env identity estimated approvedLimit db)" using assms(3) by simp
  also have "(ai_step c)\<^sup>*\<^sup>* db \<dots>" unfolding run using to1 to3 block by (auto split: option.split)
  finally show "(ai_step c)\<^sup>*\<^sup>* db db'" .
  assume paid: "d = Usage_allow Mode_paid tier model i recorded"
  then have "fst (reserve_paid c env identity estimated approvedLimit db) = Usage_allow Mode_paid tier model i recorded"
    using assms(3) by simp
  moreover have "fst (blocked c env identity reason review est db3) \<noteq> Usage_allow Mode_paid tier model i recorded"
    for reason review est
    using blocked_blocks [of c env identity reason review est db3] by auto
  ultimately have "r1 = Some True" "r2 \<noteq> None" "tier = ui_selectedTier identity" "i = Some (ui_id identity)"
    unfolding run unavailable_def by (cases r1; cases r2; simp split: if_splits)+
  moreover from this have "db' = db3" using assms(3) unfolding run by auto
  moreover have "?op db0 = (Inr True, db1)"
    by (rule d1_call_Some [where fate = "be_reserve env"]) (use call1 \<open>r1 = Some True\<close> in simp)
  then have "paid_by c identity estimated ?limit db db3"
    unfolding paid_by_def using s0 reserved room from1 by (metis snd_conv)
  ultimately show "tier = ui_selectedTier identity \<and> i = Some (ui_id identity) \<and> paid_by c identity estimated ?limit db db'"
    by simp
qed

lemma decide_paid_runs:
  assumes "begin_env_ok c env" and "decide_paid c env identity estimated month db = (d, db')"
    and "max (mr_approved month) (ac_reviewThresholdMicros c) \<le>
      approved_now c (ui_environment identity, ui_monthKey identity) db"
  shows "(ai_step c)\<^sup>*\<^sup>* db db'"
    and "d = Usage_allow Mode_paid tier model i recorded \<Longrightarrow>
      tier = ui_selectedTier identity \<and> i = Some (ui_id identity) \<and>
      (\<exists>approvedLimit. paid_by c identity estimated (paid_limit c identity approvedLimit) db db')"
proof -
  have or: "reserve_paid c env identity estimated (max (mr_approved month) (ac_reviewThresholdMicros c)) db = (d, db') \<or>
      (\<exists>reason review est. blocked c env identity reason review est db = (d, db'))"
    using assms(2) by (auto simp: decide_paid_def Let_def split: if_splits)
  then show "(ai_step c)\<^sup>*\<^sup>* db db'"
    using reserve_paid_runs(1) [OF assms(1,3)] blocked_steps [OF assms(1)] by (metis snd_conv)
  assume "d = Usage_allow Mode_paid tier model i recorded"
  with or show "tier = ui_selectedTier identity \<and> i = Some (ui_id identity) \<and>
      (\<exists>approvedLimit. paid_by c identity estimated (paid_limit c identity approvedLimit) db db')"
    using reserve_paid_runs(2) [OF assms(1,3)] blocked_blocks
    by (metis fst_conv usage_decision.distinct(1))
qed

lemma begin_paid_runs:
  assumes "begin_env_ok c env" and "begin_paid c env identity estimated db = (d, db')"
  shows "(ai_step c)\<^sup>*\<^sup>* db db'"
    and "d = Usage_allow Mode_paid tier model i recorded \<Longrightarrow>
      tier = ui_selectedTier identity \<and> i = Some (ui_id identity) \<and>
      (\<exists>approvedLimit. paid_by c identity estimated (paid_limit c identity approvedLimit) db db')"
proof -
  let ?k = "(ui_environment identity, ui_monthKey identity)"
  let ?read = "\<lambda>db. (Inr (getMonth (ui_environment identity) (ui_monthKey identity) db), db)"
  let ?empty = "emptyMonth (ui_environment identity) (ui_monthKey identity) (ac_reviewThresholdMicros c)"
  obtain r1 db1 where call1: "d1_call (be_reap env) (reapExpiredReservations (be_now env)) db = (r1, db1)"
    by (cases "d1_call (be_reap env) (reapExpiredReservations (be_now env)) db")
  obtain r2 db2 where call2: "d1_call (be_get env) ?read (be_before_get env db1) = (r2, db2)"
    by (cases "d1_call (be_get env) ?read (be_before_get env db1)")
  have s1: "(ai_step c)\<^sup>*\<^sup>* db db1"
    using d1_call_steps [of c db "reapExpiredReservations (be_now env)" "be_reap env"] call1
    by (simp add: r_into_rtranclp ai_step.reap)
  have "(ai_step c)\<^sup>*\<^sup>* db1 (be_before_get env db1)"
    using assms(1) by (simp add: begin_env_ok_def ai_interferes_def)
  moreover have "(ai_step c)\<^sup>*\<^sup>* (be_before_get env db1) db2"
    using d1_call_steps [of c "be_before_get env db1" ?read "be_get env"] call2 by simp
  ultimately have s2: "(ai_step c)\<^sup>*\<^sup>* db db2" using s1 by (meson rtranclp_trans)
  have limit: "max (mr_approved (or_default found ?empty)) (ac_reviewThresholdMicros c) \<le> approved_now c ?k db2"
    if "r2 = Some found" for found
  proof -
    have "getMonth (ui_environment identity) (ui_monthKey identity) db2 = found"
      using d1_call_Some [OF call2 [unfolded that]] by auto
    then show ?thesis by (cases found) (simp_all add: approved_month or_default_def emptyMonth_def)
  qed
  consider "db' = db1" "d = unavailable identity" | "db' = db2" "d = unavailable identity"
    | found where "r2 = Some found" "decide_paid c env identity estimated (or_default found ?empty) db2 = (d, db')"
    using assms(2) call1 call2 by (auto simp: begin_paid_def split: option.splits)
  then have "(ai_step c)\<^sup>*\<^sup>* db db' \<and> (d = Usage_allow Mode_paid tier model i recorded \<longrightarrow>
      tier = ui_selectedTier identity \<and> i = Some (ui_id identity) \<and>
      (\<exists>approvedLimit. paid_by c identity estimated (paid_limit c identity approvedLimit) db db'))"
  proof cases
    case 3
    note runs = decide_paid_runs [OF assms(1) 3(2) limit [OF 3(1)]]
    have "paid_by c identity estimated l db db'" if "paid_by c identity estimated l db2 db'" for l
      using that s2 unfolding paid_by_def by (meson rtranclp_trans)
    with runs(2) have "tier = ui_selectedTier identity \<and> i = Some (ui_id identity) \<and>
        (\<exists>approvedLimit. paid_by c identity estimated (paid_limit c identity approvedLimit) db db')"
      if "d = Usage_allow Mode_paid tier model i recorded"
      using that by metis
    with rtranclp_trans [OF s2 runs(1)] show ?thesis by simp
  qed (use s1 s2 in \<open>simp_all add: unavailable_def\<close>)
  then show "(ai_step c)\<^sup>*\<^sup>* db db'"
    and "d = Usage_allow Mode_paid tier model i recorded \<Longrightarrow>
      tier = ui_selectedTier identity \<and> i = Some (ui_id identity) \<and>
      (\<exists>approvedLimit. paid_by c identity estimated (paid_limit c identity approvedLimit) db db')"
    by simp_all
qed

lemma begin_free_runs:
  assumes "begin_env_ok c env"
  shows "(ai_step c)\<^sup>*\<^sup>* db (snd (begin_free c env identity hit db))"
    and "fst (begin_free c env identity hit db) \<noteq> Usage_allow Mode_paid tier model i recorded"
  using best_effort_steps [OF assms] by (simp_all add: begin_free_def case_prod_beta)

text \<open>The reservation and the month it was made in, just after it was made.\<close>

lemma tryReserve_True:
  assumes "tryReserve identity estimated t limit budget db = (Inr True, db')"
  shows "recorded_as db' identity estimated"
    and "\<forall>e \<in> set (ad_events db). ue_id e \<noteq> ui_id identity"
    and "\<exists>e \<in> set (ad_events db'). ue_identity e = identity \<and> ue_estimated e = estimated \<and> ue_state e = Usage_reserved"
    and "\<exists>m \<in> set (ad_months db'). month_of m = (ui_environment identity, ui_monthKey identity) \<and>
      mr_spent m + mr_reserved m \<le> limit"
proof -
  let ?db = "ensureMonth (ui_environment identity) (ui_monthKey identity) (ui_createdAt identity) budget db"
  let ?e = "reservation_event identity estimated limit t"
  from assms obtain m where m: "getMonth (ui_environment identity) (ui_monthKey identity) ?db = Some m"
    and room: "mr_spent m + mr_reserved m + estimated \<le> limit" and insert: "insert_event ?e ?db = Inr db'"
    by (auto simp: tryReserve_def transacted_def Let_def bind_result_Inr split: option.splits if_splits sum.splits)
  then have db': "ad_events db' = ad_events ?db @ [?e]"
    "ad_months db' = update_where (\<lambda>m. month_of m = event_month ?e) (reserve_month ?e) (ad_months ?db)"
    by (auto simp: insert_event_def split: if_splits)
  show "recorded_as db' identity estimated" by (simp add: recorded_as_def db' reservation_event_def)
  show "\<forall>e \<in> set (ad_events db). ue_id e \<noteq> ui_id identity"
    using insert by (auto simp: insert_event_def list_ex_iff split: if_splits)
  show "\<exists>e \<in> set (ad_events db'). ue_identity e = identity \<and> ue_estimated e = estimated \<and> ue_state e = Usage_reserved"
    by (simp add: db' reservation_event_def)
  have "reserve_month ?e m \<in> set (ad_months db')"
    using getMonth_member [OF m] by (auto simp: db' set_update_where)
  moreover have "mr_spent (reserve_month ?e m) + mr_reserved (reserve_month ?e m) \<le> limit"
    using room by (simp add: reserve_month_def reservation_event_def)
  ultimately show "\<exists>m \<in> set (ad_months db'). month_of m = (ui_environment identity, ui_monthKey identity) \<and>
      mr_spent m + mr_reserved m \<le> limit"
    using getMonth_member [OF m] month_edits(3) [of ?e m] by metis
qed

lemma beginUsage_cases:
  assumes "begin_env_ok c env" and "beginUsage c env input db = (d, db')"
  shows "(ai_step c)\<^sup>*\<^sup>* db db'"
    and "d = Some (Usage_allow Mode_paid tier model i recorded) \<Longrightarrow>
      \<exists>feature estimated. normalizeFeature (bi_feature input) = Some feature \<and> bi_estimatedCostMicros input = JInt estimated \<and>
        begin_paid c env (identity_of c env input feature) estimated db = (Usage_allow Mode_paid tier model i recorded, db') \<and>
        (selected input = Tier_strong \<longrightarrow> feature \<in> set STRONG_TIER_FEATURES \<and>
          (\<exists>r. ui_escalationReason (identity_of c env input feature) = Some r \<and> MIN_ESCALATION_REASON_LENGTH \<le> length r))"
proof -
  have "(ai_step c)\<^sup>*\<^sup>* db (snd (beginUsage c env input db)) \<and>
    (fst (beginUsage c env input db) = Some (Usage_allow Mode_paid tier model i recorded) \<longrightarrow>
      (\<exists>feature estimated. normalizeFeature (bi_feature input) = Some feature \<and> bi_estimatedCostMicros input = JInt estimated \<and>
        begin_paid c env (identity_of c env input feature) estimated db =
          (Usage_allow Mode_paid tier model i recorded, snd (beginUsage c env input db)) \<and>
        (selected input = Tier_strong \<longrightarrow> feature \<in> set STRONG_TIER_FEATURES \<and>
          (\<exists>r. ui_escalationReason (identity_of c env input feature) = Some r \<and> MIN_ESCALATION_REASON_LENGTH \<le> length r))))"
  proof (cases "normalizeFeature (bi_feature input)")
    case (Some feature)
    have not_paid: "fst (blocked c env identity reason review est db) \<noteq> Usage_allow Mode_paid tier model i recorded"
      for identity reason review est
      using blocked_blocks [of c env identity reason review est db] by auto
    have paid: "(ai_step c)\<^sup>*\<^sup>* db (snd (begin_paid c env identity est db))" for identity est
      using begin_paid_runs(1) [OF assms(1)] by (metis prod.collapse)
    show ?thesis
      unfolding beginUsage_def Let_def Some
      using blocked_steps [OF assms(1)] not_paid begin_free_runs [OF assms(1)] paid
      by (auto simp: case_prod_beta prod_eq_iff not_less split: js_number.splits option.splits)
  qed (simp add: beginUsage_def)
  with assms(2) show "(ai_step c)\<^sup>*\<^sup>* db db'"
    and "d = Some (Usage_allow Mode_paid tier model i recorded) \<Longrightarrow>
      \<exists>feature estimated. normalizeFeature (bi_feature input) = Some feature \<and> bi_estimatedCostMicros input = JInt estimated \<and>
        begin_paid c env (identity_of c env input feature) estimated db = (Usage_allow Mode_paid tier model i recorded, db') \<and>
        (selected input = Tier_strong \<longrightarrow> feature \<in> set STRONG_TIER_FEATURES \<and>
          (\<exists>r. ui_escalationReason (identity_of c env input feature) = Some r \<and> MIN_ESCALATION_REASON_LENGTH \<le> length r))"
    by simp_all
qed

text \<open>
  C20: Beginning a call is a sequence of store calls, whatever other workers do between them and whichever
  of its own calls fail or lose their answer. A call that may be paid for has its reservation in the
  ledger, with the estimate it announced, and for the strong model the feature must be one that may use it
  and give a reason of at least twenty characters. In the very step that put the reservation into the
  ledger, the month's total with it was within the budget approved at that moment, and for the strong
  model within the alert threshold, whatever others had reserved since the month was read.
\<close>
theorem paid_use_is_reserved:
  assumes "begin_env_ok c env" and "beginUsage c env input db = (d, db')"
  shows "(ai_step c)\<^sup>*\<^sup>* db db' \<and>
    (\<forall>tier model i recorded. d = Some (Usage_allow Mode_paid tier model i recorded) \<longrightarrow>
      i = Some (be_id env) \<and> tier = selected input \<and>
      (\<exists>e \<in> set (ad_events db'). ue_id e = be_id env \<and> JInt (ue_estimated e) = bi_estimatedCostMicros input) \<and>
      (tier = Tier_strong \<longrightarrow>
        (\<exists>feature \<in> set STRONG_TIER_FEATURES. normalizeFeature (bi_feature input) = Some feature) \<and>
        (\<exists>r. cleanOptional (bi_escalationReason input) = Some r \<and> MIN_ESCALATION_REASON_LENGTH \<le> length r)) \<and>
      (\<exists>db1 db2 m. (ai_step c)\<^sup>*\<^sup>* db db1 \<and> ai_step c db1 db2 \<and> (ai_step c)\<^sup>*\<^sup>* db2 db' \<and>
        (\<forall>e \<in> set (ad_events db1). ue_id e \<noteq> be_id env) \<and>
        (\<exists>e \<in> set (ad_events db2). ue_id e = be_id env \<and> ue_state e = Usage_reserved \<and>
          JInt (ue_estimated e) = bi_estimatedCostMicros input) \<and>
        m \<in> set (ad_months db2) \<and> month_of m = (ac_environment c, utcMonthKey (be_now env)) \<and>
        mr_spent m + mr_reserved m \<le> approved_now c (month_of m) db1 \<and>
        (tier = Tier_strong \<longrightarrow> mr_spent m + mr_reserved m \<le> ac_alertThresholdMicros c)))"
proof (intro conjI allI impI)
  show "(ai_step c)\<^sup>*\<^sup>* db db'" by (rule beginUsage_cases(1) [OF assms])
  fix tier model i recorded
  assume "d = Some (Usage_allow Mode_paid tier model i recorded)"
  from beginUsage_cases(2) [OF assms this] obtain feature estimated
    where feature: "normalizeFeature (bi_feature input) = Some feature"
      and estimated: "bi_estimatedCostMicros input = JInt estimated"
      and begin_run: "begin_paid c env (identity_of c env input feature) estimated db =
        (Usage_allow Mode_paid tier model i recorded, db')"
      and strong: "selected input = Tier_strong \<longrightarrow> feature \<in> set STRONG_TIER_FEATURES \<and>
        (\<exists>r. ui_escalationReason (identity_of c env input feature) = Some r \<and> MIN_ESCALATION_REASON_LENGTH \<le> length r)"
    by blast
  let ?id = "identity_of c env input feature"
  from begin_paid_runs(2) [OF assms(1) begin_run refl] obtain approvedLimit
    where tier: "tier = selected input" and i: "i = Some (be_id env)"
      and paid: "paid_by c ?id estimated (paid_limit c ?id approvedLimit) db db'"
    by (auto simp: identity_of_def)
  from paid obtain db1 db2 t where before: "(ai_step c)\<^sup>*\<^sup>* db db1" and step: "ai_step c db1 db2"
    and room: "paid_limit c ?id approvedLimit \<le> approved_now c (ui_environment ?id, ui_monthKey ?id) db1"
    and reserve: "tryReserve ?id estimated t (paid_limit c ?id approvedLimit) (ac_reviewThresholdMicros c) db1 = (Inr True, db2)"
    and "after": "(ai_step c)\<^sup>*\<^sup>* db2 db'"
    unfolding paid_by_def by blast
  show "i = Some (be_id env)" and "tier = selected input" by (fact i, fact tier)
  have "recorded_as db' ?id estimated"
    using ai_steps_recorded [OF "after" tryReserve_True(1) [OF reserve]] .
  then show "\<exists>e \<in> set (ad_events db'). ue_id e = be_id env \<and> JInt (ue_estimated e) = bi_estimatedCostMicros input"
    unfolding recorded_as_def estimated by (metis usage_identity.select_convs(1) identity_of_def)
  let ?k = "(ac_environment c, utcMonthKey (be_now env))"
  have id: "ui_id ?id = be_id env" "(ui_environment ?id, ui_monthKey ?id) = ?k" by (simp_all add: identity_of_def)
  from tryReserve_True(4) [OF reserve] obtain m where m: "m \<in> set (ad_months db2)" "month_of m = ?k"
    "mr_spent m + mr_reserved m \<le> paid_limit c ?id approvedLimit" unfolding id by blast
  have strong_limit: "tier = Tier_strong \<Longrightarrow> paid_limit c ?id approvedLimit \<le> ac_alertThresholdMicros c"
    using tier by (simp add: paid_limit_def identity_of_def)
  have new: "\<exists>e \<in> set (ad_events db2). ue_id e = be_id env \<and> ue_state e = Usage_reserved \<and>
      JInt (ue_estimated e) = bi_estimatedCostMicros input"
    using tryReserve_True(3) [OF reserve] unfolding estimated id(1) [symmetric] by metis
  have "mr_spent m + mr_reserved m \<le> approved_now c (month_of m) db1"
    using m(3) order_trans room unfolding id m(2) by blast
  moreover have "tier = Tier_strong \<longrightarrow> mr_spent m + mr_reserved m \<le> ac_alertThresholdMicros c"
    using m(3) strong_limit by linarith
  ultimately show "\<exists>db1 db2 m. (ai_step c)\<^sup>*\<^sup>* db db1 \<and> ai_step c db1 db2 \<and> (ai_step c)\<^sup>*\<^sup>* db2 db' \<and>
      (\<forall>e \<in> set (ad_events db1). ue_id e \<noteq> be_id env) \<and>
      (\<exists>e \<in> set (ad_events db2). ue_id e = be_id env \<and> ue_state e = Usage_reserved \<and>
        JInt (ue_estimated e) = bi_estimatedCostMicros input) \<and>
      m \<in> set (ad_months db2) \<and> month_of m = ?k \<and>
      mr_spent m + mr_reserved m \<le> approved_now c (month_of m) db1 \<and>
      (tier = Tier_strong \<longrightarrow> mr_spent m + mr_reserved m \<le> ac_alertThresholdMicros c)"
    using before step "after" new m(1,2) tryReserve_True(2) [OF reserve] unfolding id(1) by blast
  assume "tier = Tier_strong"
  with tier strong feature show "\<exists>feature \<in> set STRONG_TIER_FEATURES. normalizeFeature (bi_feature input) = Some feature"
    and "\<exists>r. cleanOptional (bi_escalationReason input) = Some r \<and> MIN_ESCALATION_REASON_LENGTH \<le> length r"
    by (auto simp: identity_of_def)
qed

end
