(* ===== verification/AI_Cache.thy ===== *)
theory AI_Cache
  imports AI_Cost Push_Payload "HOL-Library.Multiset" "HOL-Library.Product_Lexorder"
begin

text \<open>
  The cache of model answers: the key, which names the question independently of the order its fields
  are given in, and the rows of \<^verbatim>\<open>ai_response_cache\<close>, which are kept apart by environment and scope.
  The digest in the key is an argument.
\<close>

subsection \<open>Keys\<close>

text \<open>
  Fields are rendered and then sorted by their names, which is the order the program renders them in.
  A field whose value is \<^verbatim>\<open>undefined\<close> is left out before, and numbers are integers.
\<close>

fun stableSerialize :: "json \<Rightarrow> string" where
  "stableSerialize (JArr js) = [CHR ''[''] @ joined (map stableSerialize js) @ [CHR '']'']"
| "stableSerialize (JObj fs) =
     [CHR ''{''] @
     joined (map snd (sort_key fst (map (\<lambda>(k, j). (k, json_string k @ CHR '':'' # stableSerialize j)) fs))) @
     [CHR ''}'']"
| "stableSerialize j = json_text j"

primrec tier_text :: "model_tier \<Rightarrow> string" where
  "tier_text Tier_cheap = ''cheap''"
| "tier_text Tier_strong = ''strong''"

record cache_key_input =
  ck_feature :: string
  ck_tier :: model_tier
  ck_model :: string
  ck_promptVersion :: string
  ck_sourceVersion :: string
  ck_mailboxId :: "string option"
  ck_input :: json

definition cache_question :: "cache_key_input \<Rightarrow> string \<Rightarrow> json" where
  "cache_question input feature = JObj
     [(''feature'', JStr feature), (''tier'', JStr (tier_text (ck_tier input))),
      (''model'', JStr (ck_model input)), (''promptVersion'', JStr (ck_promptVersion input)),
      (''sourceVersion'', JStr (ck_sourceVersion input)),
      (''mailboxId'', (case ck_mailboxId input of None \<Rightarrow> JNull | Some m \<Rightarrow> JStr (js_lower (js_trim m)))),
      (''input'', ck_input input)]"

definition buildAiCacheKey :: "(string \<Rightarrow> string) \<Rightarrow> cache_key_input \<Rightarrow> string option" where
  "buildAiCacheKey sha256_hex input =
     (case normalizeFeature (ck_feature input) of
        None \<Rightarrow> None
      | Some feature \<Rightarrow>
          Some (''aic:v1:'' @ feature @ '':'' @ tier_text (ck_tier input) @ '':'' @
            sha256_hex (stableSerialize (cache_question input feature))))"

text \<open>The same value with the fields of its objects in any order.\<close>

inductive reordered :: "json \<Rightarrow> json \<Rightarrow> bool" where
  same: "reordered j j"
| arr: "list_all2 reordered js js' \<Longrightarrow> reordered (JArr js) (JArr js')"
| obj: "map fst fs = map fst gs \<Longrightarrow> list_all2 reordered (map snd fs) (map snd gs) \<Longrightarrow>
     mset gs = mset hs \<Longrightarrow> distinct (map fst fs) \<Longrightarrow> reordered (JObj fs) (JObj hs)"

lemma sort_key_permuted:
  assumes "mset xs = mset ys" and "distinct (map f xs)"
  shows "sort_key f xs = sort_key f ys"
  using assms by (intro sort_key_inj_key_eq) (auto simp: distinct_map)

lemma map_fields:
  "map (\<lambda>(k, j). (k, json_string k @ CHR '':'' # stableSerialize j)) fs =
     map2 (\<lambda>k s. (k, json_string k @ CHR '':'' # s)) (map fst fs) (map stableSerialize (map snd fs))"
  by (induction fs) auto

lemma reordered_serialize: "reordered j j' \<Longrightarrow> stableSerialize j = stableSerialize j'"
proof (induction rule: reordered.induct)
  case (arr js js')
  then have "map stableSerialize js = map stableSerialize js'"
    by (induction rule: list_all2_induct) auto
  then show ?case by simp
next
  case (obj fs gs hs)
  let ?field = "\<lambda>(k, j). (k, json_string k @ CHR '':'' # stableSerialize j)"
  have "map stableSerialize (map snd fs) = map stableSerialize (map snd gs)"
    using obj.IH by (induction rule: list_all2_induct) auto
  with obj.hyps(1) have fields: "map ?field fs = map ?field gs" by (simp only: map_fields)
  have "mset (map ?field gs) = mset (map ?field hs)" using obj.hyps(2) by (simp add: mset_map)
  moreover have "distinct (map fst (map ?field gs))"
    using obj.hyps(1,3) by (simp add: comp_def case_prod_beta)
  ultimately have "sort_key fst (map ?field gs) = sort_key fst (map ?field hs)" by (rule sort_key_permuted)
  then show ?case by (simp add: fields)
qed simp

text \<open>
  C21: A cache key depends on what is asked and not on how it is written down: two inputs that differ
  only in the order of object fields, at any depth, in the case or surrounding blanks of the feature and
  of the mailbox have the same key.
\<close>
theorem cache_key_is_canonical:
  assumes "reordered (ck_input a) (ck_input b)"
    and "js_lower (js_trim (ck_feature a)) = js_lower (js_trim (ck_feature b))"
    and "map_option (\<lambda>m. js_lower (js_trim m)) (ck_mailboxId a) = map_option (\<lambda>m. js_lower (js_trim m)) (ck_mailboxId b)"
    and "ck_tier a = ck_tier b" and "ck_model a = ck_model b"
    and "ck_promptVersion a = ck_promptVersion b" and "ck_sourceVersion a = ck_sourceVersion b"
  shows "buildAiCacheKey sha256_hex a = buildAiCacheKey sha256_hex b"
proof -
  have mailbox: "(case ck_mailboxId a of None \<Rightarrow> JNull | Some m \<Rightarrow> JStr (js_lower (js_trim m))) =
      (case ck_mailboxId b of None \<Rightarrow> JNull | Some m \<Rightarrow> JStr (js_lower (js_trim m)))"
    using assms(3) by (cases "ck_mailboxId a"; cases "ck_mailboxId b") auto
  have "reordered (cache_question a feature) (cache_question b feature)" for feature
    unfolding cache_question_def mailbox assms(4-7)
    by (rule reordered.obj [OF _ _ refl]) (simp_all add: assms(1) reordered.same)
  then have "stableSerialize (cache_question a feature) = stableSerialize (cache_question b feature)" for feature
    by (rule reordered_serialize)
  then show ?thesis
    by (simp add: buildAiCacheKey_def normalizeFeature_def Let_def assms(2,4))
qed

subsection \<open>Rows\<close>

text \<open>An invalid scope is an exception.\<close>

definition cacheScope :: "string option \<Rightarrow> string option \<Rightarrow> string option" where
  "cacheScope mailboxId scope =
     (case scope of
        Some given \<Rightarrow>
          (let s = js_lower (js_trim given) in if s = [] \<or> length s > 1000 then None else Some s)
      | None \<Rightarrow> Some (case mailboxId of None \<Rightarrow> [] | Some m \<Rightarrow> js_lower m))"

definition cache_slot :: "cache_row \<Rightarrow> string \<times> string \<times> string" where
  "cache_slot r = (ch_environment r, ch_key r, ch_scope r)"

fun parsed :: "raw_text \<Rightarrow> json option" where
  "parsed (Json_text j) = Some j"
| "parsed (Not_json s) = None"

definition getCachedAiResponse ::
  "string \<Rightarrow> string \<Rightarrow> string option \<Rightarrow> string option \<Rightarrow> instant \<Rightarrow> ai_db \<Rightarrow> json option option" where
  "getCachedAiResponse environment cacheKey mailboxId scope now db =
     (case cacheScope mailboxId scope of
        None \<Rightarrow> None
      | Some mailboxScope \<Rightarrow>
          Some (Option.bind
            (find (\<lambda>r. cache_slot r = (environment, cacheKey, mailboxScope) \<and> ch_expires_at r > now) (ad_cache db))
            (\<lambda>r. parsed (ch_value r))))"

definition getLatestCachedAiResponseForScope ::
  "string \<Rightarrow> string \<Rightarrow> string \<Rightarrow> instant \<Rightarrow> ai_db \<Rightarrow> (string \<times> instant \<times> json) option option" where
  "getLatestCachedAiResponseForScope environment scope feature now db =
     (case cacheScope None (Some scope) of
        None \<Rightarrow> None
      | Some mailboxScope \<Rightarrow>
          Some (case sort_key (\<lambda>r. (- ch_created_at r, ch_key r))
                  (filter (\<lambda>r. ch_environment r = environment \<and> ch_scope r = mailboxScope \<and>
                     ch_feature r = feature \<and> ch_expires_at r > now) (ad_cache db)) of
             [] \<Rightarrow> None
           | r # _ \<Rightarrow> map_option (\<lambda>j. (ch_key r, ch_created_at r, j)) (parsed (ch_value r))))"

definition cache_ttl :: int where "cache_ttl = 30 * 24 * 60 * 60 * 1000"

definition putCachedAiResponse ::
  "string \<Rightarrow> string \<Rightarrow> string option \<Rightarrow> string option \<Rightarrow> string \<Rightarrow> json \<Rightarrow> int option \<Rightarrow> instant \<Rightarrow> ai_db \<Rightarrow> ai_db option" where
  "putCachedAiResponse environment cacheKey mailboxId scope feature value_json ttlMs now db =
     (case cacheScope mailboxId scope of
        None \<Rightarrow> None
      | Some mailboxScope \<Rightarrow>
          (let slot = (environment, cacheKey, mailboxScope); expires = now + or_default ttlMs cache_ttl
           in Some (db\<lparr>ad_cache :=
                if list_ex (\<lambda>r. cache_slot r = slot) (ad_cache db)
                then update_where (\<lambda>r. cache_slot r = slot)
                  (\<lambda>r. r\<lparr>ch_feature := feature, ch_value := Json_text value_json, ch_created_at := now,
                         ch_expires_at := expires\<rparr>) (ad_cache db)
                else ad_cache db @
                  [\<lparr>ch_key = cacheKey, ch_environment = environment, ch_mailbox = map_option js_lower mailboxId,
                    ch_scope = mailboxScope, ch_feature = feature, ch_value = Json_text value_json,
                    ch_created_at = now, ch_expires_at = expires\<rparr>]\<rparr>)))"

lemma find_slot_update:
  assumes "list_ex (\<lambda>r. key r = k) rs" and "\<And>r. key r = k \<Longrightarrow> key (f r) = k \<and> Q (f r) \<and> v (f r) = x"
  shows "\<exists>r. find (\<lambda>r. key r = k \<and> Q r) (update_where (\<lambda>r. key r = k) f rs) = Some r \<and> v r = x"
  using assms by (induction rs) auto

lemma find_slot_other:
  assumes "k' \<noteq> k" and "\<And>r. key r = k \<Longrightarrow> key (f r) = k"
  shows "find (\<lambda>r. key r = k' \<and> Q r) (update_where (\<lambda>r. key r = k) f rs) = find (\<lambda>r. key r = k' \<and> Q r) rs"
  using assms by (induction rs) auto

text \<open>
  An answer put into the cache reads back until it expires, and only there: what is stored for
  another key, another environment or the scope of another mailbox reads as before.
\<close>
theorem cached_answer_reads_back:
  assumes "putCachedAiResponse environment cacheKey mailboxId scope feature value_json ttl t db = Some db'"
  shows "(now < t + or_default ttl cache_ttl \<longrightarrow>
      getCachedAiResponse environment cacheKey mailboxId scope now db' = Some (Some value_json)) \<and>
    ((environment', cacheKey', cacheScope mailboxId' scope') \<noteq> (environment, cacheKey, cacheScope mailboxId scope) \<longrightarrow>
      getCachedAiResponse environment' cacheKey' mailboxId' scope' now db' =
      getCachedAiResponse environment' cacheKey' mailboxId' scope' now db)"
proof -
  from assms obtain s where s: "cacheScope mailboxId scope = Some s"
    by (auto simp: putCachedAiResponse_def split: option.splits)
  let ?slot = "(environment, cacheKey, s)"
  let ?edit = "\<lambda>r. r\<lparr>ch_feature := feature, ch_value := Json_text value_json, ch_created_at := t,
    ch_expires_at := t + or_default ttl cache_ttl\<rparr>"
  let ?new = "\<lparr>ch_key = cacheKey, ch_environment = environment, ch_mailbox = map_option js_lower mailboxId,
    ch_scope = s, ch_feature = feature, ch_value = Json_text value_json, ch_created_at = t,
    ch_expires_at = t + or_default ttl cache_ttl\<rparr>"
  have rows: "ad_cache db' = (if list_ex (\<lambda>r. cache_slot r = ?slot) (ad_cache db)
      then update_where (\<lambda>r. cache_slot r = ?slot) ?edit (ad_cache db) else ad_cache db @ [?new])"
    using assms s by (auto simp: putCachedAiResponse_def Let_def)
  have edit: "cache_slot (?edit r) = cache_slot r" for r by (simp add: cache_slot_def)
  have new: "cache_slot ?new = ?slot" by (simp add: cache_slot_def)
  have "\<exists>r. find (\<lambda>r. cache_slot r = ?slot \<and> ch_expires_at r > now) (ad_cache db') = Some r \<and>
      ch_value r = Json_text value_json" if "now < t + or_default ttl cache_ttl"
  proof (cases "list_ex (\<lambda>r. cache_slot r = ?slot) (ad_cache db)")
    case True
    with that show ?thesis by (simp add: rows find_slot_update edit del: cache_slot_def)
  next
    case False
    then have "find (\<lambda>r. cache_slot r = ?slot \<and> ch_expires_at r > now) (ad_cache db) = None"
      by (auto simp: find_None_iff list_ex_iff)
    with False that new show ?thesis by (simp add: rows find_append)
  qed
  moreover have "find (\<lambda>r. cache_slot r = k \<and> ch_expires_at r > now) (ad_cache db') =
      find (\<lambda>r. cache_slot r = k \<and> ch_expires_at r > now) (ad_cache db)" if "k \<noteq> ?slot" for k
    using that new find_slot_other [of k ?slot cache_slot ?edit] edit
    by (auto simp: rows find_append split: option.split)
  ultimately show ?thesis
    by (auto simp: getCachedAiResponse_def s split: option.split)
qed

end
