(* ===== verification/AI_Witnesses.thy ===== *)
theory AI_Witnesses
  imports AI_Guarantees AI_Cache
begin

text \<open>A strong call on an empty ledger, and each guarantee of the cost control at work on it.\<close>

definition sample_begin :: begin_env where
  "sample_begin = \<lparr>be_now = 1709210096123, be_id = ''aiuse_1'', be_reap = Call_answered, be_get = Call_answered,
     be_reserve = Call_answered, be_month = Call_answered, be_record = Call_answered,
     be_before_get = (\<lambda>db. db), be_before_reserve = (\<lambda>db. db), be_before_month = (\<lambda>db. db),
     be_before_record = (\<lambda>db. db)\<rparr>"

definition sample_question :: begin_input where
  "sample_question = \<lparr>bi_feature = ''Reply_Draft '', bi_actorUserId = Some ''u1'', bi_mailboxId = Some ''A@B'',
     bi_requestedTier = Some Requested_strong, bi_escalationReason = Some ''long thread with attachments'',
     bi_estimatedCostMicros = JInt 4000, bi_cacheKey = None, bi_cacheHit = False\<rparr>"

lemma sample_begin_ok: "begin_env_ok c sample_begin"
  by (simp add: begin_env_ok_def ai_interferes_def sample_begin_def)

definition sample_reserved :: ai_db where
  "sample_reserved = snd (beginUsage DEFAULT_AI_COST_CONFIG sample_begin sample_question empty_ai_db)"

definition sample_completed :: ai_db where
  "sample_completed = snd (completeReservation ''aiuse_1'' 5000 10 20 25000000 1709210097000 sample_reserved)"

lemma default_valid: "valid_config DEFAULT_AI_COST_CONFIG"
  by (simp add: valid_config_def DEFAULT_AI_COST_CONFIG_def max_safe_integer_def)

lemma sample_allowed:
  "\<exists>model recorded. beginUsage DEFAULT_AI_COST_CONFIG sample_begin sample_question empty_ai_db =
     (Some (Usage_allow Mode_paid Tier_strong model (Some ''aiuse_1'') recorded), sample_reserved)"
proof -
  have "case fst (beginUsage DEFAULT_AI_COST_CONFIG sample_begin sample_question empty_ai_db) of
      Some (Usage_allow Mode_paid Tier_strong model (Some i) recorded) \<Rightarrow> i = ''aiuse_1'' | _ \<Rightarrow> False"
    by code_simp
  then show ?thesis
    by (cases "beginUsage DEFAULT_AI_COST_CONFIG sample_begin sample_question empty_ai_db")
      (auto simp: sample_reserved_def split: option.splits usage_decision.splits usage_mode.splits model_tier.splits)
qed

lemma paid_use_is_reserved_witness:
  "(\<exists>e \<in> set (ad_events sample_reserved). ue_id e = ''aiuse_1'' \<and> ue_estimated e = 4000) \<and>
   (ai_step DEFAULT_AI_COST_CONFIG)\<^sup>*\<^sup>* empty_ai_db sample_reserved"
proof -
  obtain model recorded where run: "beginUsage DEFAULT_AI_COST_CONFIG sample_begin sample_question empty_ai_db =
     (Some (Usage_allow Mode_paid Tier_strong model (Some ''aiuse_1'') recorded), sample_reserved)"
    using sample_allowed by blast
  from paid_use_is_reserved [OF sample_begin_ok run] show ?thesis
    by (auto simp: sample_begin_def sample_question_def)
qed

lemma sample_steps: "(ai_step DEFAULT_AI_COST_CONFIG)\<^sup>*\<^sup>* empty_ai_db sample_completed"
proof -
  obtain d where "beginUsage DEFAULT_AI_COST_CONFIG sample_begin sample_question empty_ai_db = (d, sample_reserved)"
    using sample_allowed by blast
  then have "(ai_step DEFAULT_AI_COST_CONFIG)\<^sup>*\<^sup>* empty_ai_db sample_reserved"
    by (rule beginUsage_cases(1) [OF sample_begin_ok])
  moreover have "ai_step DEFAULT_AI_COST_CONFIG sample_reserved sample_completed"
    unfolding sample_completed_def by (rule ai_step.complete)
  ultimately show ?thesis by (rule rtranclp.rtrancl_into_rtrancl)
qed

lemma sample_month: "\<exists>m \<in> set (ad_months sample_completed). mr_spent m = 5000"
proof -
  have "list_ex (\<lambda>m. mr_spent m = 5000) (ad_months sample_completed)" by code_simp
  then show ?thesis by (simp add: list_ex_iff)
qed

lemma ai_ledger_balances_witness:
  "\<exists>m \<in> set (ad_months sample_completed). mr_spent m = 5000 \<and>
     month_sum ue_actual (month_of m) (ad_events sample_completed) = 5000"
  using sample_month ai_ledger_balances [OF default_valid sample_steps] by fastforce

lemma ai_budget_is_kept_witness:
  "\<exists>m \<in> set (ad_months sample_completed). mr_spent m = 5000 \<and>
     mr_spent m + mr_reserved m \<le> mr_approved m + month_sum overrun (month_of m) (ad_events sample_completed)"
  using sample_month ai_budget_is_kept [OF default_valid sample_steps] by blast

lemma settled_usage_is_final_witness:
  "\<exists>e \<in> set (ad_events sample_completed). ue_state e = Usage_completed \<and>
     e \<in> set (ad_events (snd (failReservation ''aiuse_1''
       \<lparr>uf_errorCode = None, uf_failedAt = 0, uf_observed = Some 7, uf_promptTokens = 0, uf_completionTokens = 0\<rparr>
       sample_completed)))"
proof -
  have "list_ex (\<lambda>e. ue_state e = Usage_completed) (ad_events sample_completed)" by code_simp
  then obtain e where e: "e \<in> set (ad_events sample_completed)" "ue_state e = Usage_completed"
    by (auto simp: list_ex_iff)
  have "(ai_step DEFAULT_AI_COST_CONFIG)\<^sup>*\<^sup>* sample_completed (snd (failReservation ''aiuse_1''
       \<lparr>uf_errorCode = None, uf_failedAt = 0, uf_observed = Some 7, uf_promptTokens = 0, uf_completionTokens = 0\<rparr>
       sample_completed))"
    by (intro r_into_rtranclp ai_step.failed)
  from settled_usage_is_final [OF this e(1)] e show ?thesis by auto
qed

lemma resolved_config_is_accepted_witness:
  "valid_config (resolveAiCostControlConfig \<lparr>an_brand = None, an_environment = None, an_alert = Some (JInt 9000000),
     an_review = Some (JInt 5000000), an_cheap_model = None, an_strong_model = None\<rparr>)"
  unfolding resolved_config_is_accepted by (simp add: max_safe_integer_def)

definition sample_key :: "json \<Rightarrow> cache_key_input" where
  "sample_key j = \<lparr>ck_feature = ''reply_draft'', ck_tier = Tier_cheap, ck_model = ''m'', ck_promptVersion = ''1'',
     ck_sourceVersion = ''1'', ck_mailboxId = None, ck_input = j\<rparr>"

lemma cache_key_is_canonical_witness:
  "buildAiCacheKey (\<lambda>s. s) (sample_key (JObj [(''a'', JNull), (''b'', JBool True)])) =
   buildAiCacheKey (\<lambda>s. s) (sample_key (JObj [(''b'', JBool True), (''a'', JNull)]))"
proof (rule cache_key_is_canonical)
  show "reordered (ck_input (sample_key (JObj [(''a'', JNull), (''b'', JBool True)])))
      (ck_input (sample_key (JObj [(''b'', JBool True), (''a'', JNull)])))"
    unfolding sample_key_def cache_key_input.select_convs
    by (rule reordered.obj [where gs = "[(''a'', JNull), (''b'', JBool True)]"])
      (simp_all add: reordered.same add_mset_commute)
qed (simp_all add: sample_key_def)

lemma cached_answer_reads_back_witness:
  "\<exists>db'. putCachedAiResponse ''e'' ''k'' (Some ''m'') None ''f'' JNull None 0 empty_ai_db = Some db' \<and>
     getCachedAiResponse ''e'' ''k'' (Some ''m'') None 5 db' = Some (Some JNull)"
proof -
  obtain db' where put: "putCachedAiResponse ''e'' ''k'' (Some ''m'') None ''f'' JNull None 0 empty_ai_db = Some db'"
    by (auto simp: putCachedAiResponse_def cacheScope_def Let_def)
  from cached_answer_reads_back [OF put] show ?thesis
    by (auto simp: put or_default_def cache_ttl_def)
qed

end
