(* ===== verification/Portal_Tables.thy ===== *)
theory Portal_Tables
  imports Portal_Prelude
begin

text \<open>
  The accounts database (D1): the tables of \<^verbatim>\<open>workers/db/users-schema.ts\<close> and the migrations 0001, 0003,
  0005, 0006, 0010, 0012 and 0013 that hold users, mailboxes, memberships, agent connection
  revocations and credential recovery, with their constraints, cascades and triggers. A column the
  program only writes 0 or 1 to is a truth value; an encrypted payload, whose three columns are NULL
  together, is one optional value. The retired column \<^verbatim>\<open>recovery_email\<close> is always NULL and left out.
\<close>

subsection \<open>Rows\<close>

datatype user_role = Role_agent | Role_admin

record user_row =
  us_id :: string
  us_email :: string
  us_password_hash :: string
  us_password_salt :: string
  us_session_version :: int
  us_role :: user_role
  us_is_active :: bool
  us_mailbox_address :: string
  us_mcp_token_hash :: "string option"
  us_ownership_confirmed_at :: "instant option"
  us_created_at :: instant
  us_updated_at :: instant

datatype mailbox_type = Personal_mailbox | Shared_mailbox

record mailbox_row =
  mb_id :: string
  mb_address :: string
  mb_type :: mailbox_type
  mb_owner_user_id :: "string option"
  mb_is_active :: bool
  mb_created_at :: instant
  mb_updated_at :: instant

record membership_row =
  mm_mailbox_id :: string
  mm_user_id :: string
  mm_created_at :: instant

datatype revocation_scope = Scope_actor | Scope_mailbox

record revocation_row =
  av_id :: string
  av_scope :: revocation_scope
  av_mailbox_id :: string
  av_user_id :: "string option"
  av_attempt_count :: int
  av_next_attempt_at :: instant
  av_lease_token :: "string option"
  av_lease_expires_at :: "instant option"
  av_last_error_code :: "string option"
  av_created_at :: instant
  av_updated_at :: instant

record sealed_payload =
  sl_keyVersion :: int
  sl_iv :: string
  sl_ciphertext :: string

datatype recovery_purpose = Purpose_setup | Purpose_recovery

record token_row =
  tk_id :: string
  tk_user_id :: string
  tk_token_hash :: string
  tk_expires_at :: instant
  tk_consumed_at :: "instant option"
  tk_consumption_nonce :: "string option"
  tk_purpose :: recovery_purpose
  tk_issued_by :: "string option"
  tk_created_at :: instant

datatype audit_event =
  Setup_issued | Ownership_confirmed | Recovery_issued | Credentials_recovered | Account_deactivated

record audit_row =
  au_id :: string
  au_user_id :: string
  au_event_type :: audit_event
  au_actor_user_id :: "string option"
  au_created_at :: instant

datatype recovery_state =
  Rs_pending | Rs_leased | Rs_dispatching | Rs_accepted | Rs_cancelled | Rs_expired | Rs_parked

record recovery_delivery =
  rl_id :: string
  rl_token_id :: string
  rl_payload :: "sealed_payload option"
  rl_state :: recovery_state
  rl_attempt_count :: int
  rl_next_attempt_at :: instant
  rl_lease_token :: "string option"
  rl_lease_expires_at :: "instant option"
  rl_dispatch_started_at :: "instant option"
  rl_provider_message_id :: "string option"
  rl_accepted_attempt_id :: "string option"
  rl_provider_event :: "(string \<times> instant) option"
  rl_last_error_code :: "string option"
  rl_ambiguous_dispatch_count :: int
  rl_last_ambiguity_at :: "instant option"
  rl_cancellation_reason :: "string option"
  rl_cancellation_observed_at :: "instant option"
  rl_accepted_at :: "instant option"
  rl_completed_at :: "instant option"
  rl_created_at :: instant
  rl_updated_at :: instant

datatype dispatch_state = Ds_dispatching | Ds_ambiguous | Ds_http_rejected | Ds_accepted

record dispatch_attempt =
  da_attempt_id :: string
  da_outbox_id :: string
  da_state :: dispatch_state
  da_provider_message_id :: "string option"
  da_dispatch_started_at :: instant
  da_resolved_at :: "instant option"
  da_created_at :: instant
  da_updated_at :: instant

record provider_event =
  pv_event_id :: string
  pv_outbox_id :: string
  pv_attempt_id :: string
  pv_provider_message_id :: string
  pv_event_type :: string
  pv_occurred_at :: instant
  pv_recorded_at :: instant

datatype job_state =
  Js_pending | Js_leased | Js_completed | Js_suppressed | Js_expired | Js_parked

record request_job =
  jb_id :: string
  jb_account_ref :: string
  jb_payload :: "sealed_payload option"
  jb_state :: job_state
  jb_attempt_count :: int
  jb_next_attempt_at :: instant
  jb_lease_token :: "string option"
  jb_lease_expires_at :: "instant option"
  jb_last_error_code :: "string option"
  jb_completed_at :: "instant option"
  jb_created_at :: instant
  jb_updated_at :: instant

record request_limit =
  lm_throttle_key :: string
  lm_request_count :: int
  lm_window_started_at :: instant
  lm_updated_at :: instant

text \<open>
  The database. \<open>pt_random\<close> is the sequence of values \<^verbatim>\<open>randomblob\<close> returns inside triggers and \<open>pt_draws\<close>
  how many have been drawn; \<open>pt_unixepoch\<close> is the database's clock in seconds; \<open>pt_control\<close> is the value
  of \<^verbatim>\<open>enabled\<close> in the control row \<^verbatim>\<open>global\<close>, when there is one.
\<close>

record portal_db =
  pt_users :: "user_row list"
  pt_mailboxes :: "mailbox_row list"
  pt_memberships :: "membership_row list"
  pt_revocations :: "revocation_row list"
  pt_tokens :: "token_row list"
  pt_audit :: "audit_row list"
  pt_deliveries :: "recovery_delivery list"
  pt_attempts :: "dispatch_attempt list"
  pt_events :: "provider_event list"
  pt_jobs :: "request_job list"
  pt_limits :: "request_limit list"
  pt_control :: "int option"
  pt_random :: "nat \<Rightarrow> string"
  pt_draws :: nat
  pt_unixepoch :: int

subsection \<open>Revocations enqueued by triggers\<close>

definition revocation_of ::
  "revocation_scope \<Rightarrow> string \<Rightarrow> string option \<Rightarrow> string \<Rightarrow> instant \<Rightarrow> revocation_row" where
  "revocation_of scope mailbox user i at =
     \<lparr>av_id = ''acr_'' @ i, av_scope = scope, av_mailbox_id = mailbox, av_user_id = user,
      av_attempt_count = 0, av_next_attempt_at = at, av_lease_token = None, av_lease_expires_at = None,
      av_last_error_code = None, av_created_at = at, av_updated_at = at\<rparr>"

definition add_revocation ::
  "revocation_scope \<Rightarrow> string \<Rightarrow> string option \<Rightarrow> portal_db \<Rightarrow> portal_db" where
  "add_revocation scope mailbox user db =
     db\<lparr>pt_revocations := pt_revocations db @
          [revocation_of scope mailbox user (pt_random db (pt_draws db)) (pt_unixepoch db * 1000)],
        pt_draws := Suc (pt_draws db)\<rparr>"

text \<open>\<^verbatim>\<open>users_enqueue_agent_connection_reconciliation\<close>, as migration 0013 left it.\<close>

definition user_mailboxes :: "user_row \<Rightarrow> user_row \<Rightarrow> portal_db \<Rightarrow> string list" where
  "user_mailboxes old new db = remdups
     (map mb_id (filter (\<lambda>m. mb_owner_user_id m = Some (us_id new)) (pt_mailboxes db)) @
      map mm_mailbox_id (filter (\<lambda>mm. mm_user_id mm = us_id new) (pt_memberships db)) @
      map mb_id (filter (\<lambda>m. mb_is_active m \<and> (us_role new = Role_admin \<or> us_role old = Role_admin))
        (pt_mailboxes db)))"

definition user_trigger :: "user_row \<Rightarrow> user_row \<Rightarrow> portal_db \<Rightarrow> portal_db" where
  "user_trigger old new db =
     (if us_session_version new \<noteq> us_session_version old \<or> us_is_active old \<and> \<not> us_is_active new \<or>
         us_role old = Role_admin \<and> us_role new \<noteq> Role_admin
      then fold (\<lambda>m. add_revocation Scope_actor m (Some (us_id new))) (user_mailboxes old new db) db
      else db)"

text \<open>\<^verbatim>\<open>UPDATE users SET ... WHERE id = ?\<close> with the trigger it fires.\<close>

definition update_user :: "string \<Rightarrow> (user_row \<Rightarrow> user_row) \<Rightarrow> portal_db \<Rightarrow> portal_db" where
  "update_user i f db =
     (case find (\<lambda>u. us_id u = i) (pt_users db) of
        None \<Rightarrow> db
      | Some old \<Rightarrow>
          user_trigger old (f old) (db\<lparr>pt_users := update_where (\<lambda>u. us_id u = i) f (pt_users db)\<rparr>))"

text \<open>\<^verbatim>\<open>mailboxes_enqueue_agent_connection_reconciliation\<close>, and an update of mailboxes.\<close>

definition mailbox_trigger :: "mailbox_row \<Rightarrow> mailbox_row \<Rightarrow> portal_db \<Rightarrow> portal_db" where
  "mailbox_trigger old new db =
     (if mb_is_active old \<and> \<not> mb_is_active new then add_revocation Scope_mailbox (mb_id new) None db else db)"

definition update_mailboxes ::
  "(mailbox_row \<Rightarrow> bool) \<Rightarrow> (mailbox_row \<Rightarrow> mailbox_row) \<Rightarrow> portal_db \<Rightarrow> portal_db" where
  "update_mailboxes P f db =
     fold (\<lambda>old. mailbox_trigger old (f old)) (filter P (pt_mailboxes db))
       (db\<lparr>pt_mailboxes := update_where P f (pt_mailboxes db)\<rparr>)"

text \<open>\<^verbatim>\<open>mailbox_memberships_enqueue_agent_connection_reconciliation\<close>, and a deletion of memberships.\<close>

definition delete_memberships :: "(membership_row \<Rightarrow> bool) \<Rightarrow> portal_db \<Rightarrow> portal_db" where
  "delete_memberships P db =
     fold (\<lambda>mm. add_revocation Scope_actor (mm_mailbox_id mm) (Some (mm_user_id mm)))
       (filter P (pt_memberships db))
       (db\<lparr>pt_memberships := filter (\<lambda>mm. \<not> P mm) (pt_memberships db)\<rparr>)"

subsection \<open>Constraints on inserted rows\<close>

definition mailbox_checks :: "mailbox_row \<Rightarrow> bool" where
  "mailbox_checks m \<longleftrightarrow> (mb_type m = Personal_mailbox) = (mb_owner_user_id m \<noteq> None)"

definition user_conflict :: "user_row \<Rightarrow> portal_db \<Rightarrow> bool" where
  "user_conflict u db \<longleftrightarrow> list_ex (\<lambda>v. us_id v = us_id u \<or> us_email v = us_email u \<or>
     us_mailbox_address v = us_mailbox_address u) (pt_users db)"

definition mailbox_conflict :: "mailbox_row \<Rightarrow> portal_db \<Rightarrow> bool" where
  "mailbox_conflict m db \<longleftrightarrow> list_ex (\<lambda>n. mb_id n = mb_id m \<or> mb_address n = mb_address m \<or>
     mb_type n = Personal_mailbox \<and> mb_type m = Personal_mailbox \<and>
     mb_owner_user_id n = mb_owner_user_id m) (pt_mailboxes db)"

definition user_known :: "string \<Rightarrow> portal_db \<Rightarrow> bool" where
  "user_known i db \<longleftrightarrow> list_ex (\<lambda>u. us_id u = i) (pt_users db)"

definition mailbox_known :: "string \<Rightarrow> portal_db \<Rightarrow> bool" where
  "mailbox_known i db \<longleftrightarrow> list_ex (\<lambda>m. mb_id m = i) (pt_mailboxes db)"

text \<open>
  Deleting mailboxes takes their memberships along. Deleting a user takes the mailboxes it owns, its
  memberships and its recovery tokens along; it is refused when an audit row mentions the user, since
  the audit table admits neither deletion nor change, or when a delivery still refers to a token of it.
\<close>

definition delete_mailboxes :: "(mailbox_row \<Rightarrow> bool) \<Rightarrow> portal_db \<Rightarrow> portal_db" where
  "delete_mailboxes P db =
     (let gone = map mb_id (filter P (pt_mailboxes db))
      in delete_memberships (\<lambda>mm. mm_mailbox_id mm \<in> set gone)
           (db\<lparr>pt_mailboxes := filter (\<lambda>m. \<not> P m) (pt_mailboxes db)\<rparr>))"

definition delete_user_row :: "string \<Rightarrow> portal_db \<Rightarrow> portal_db option" where
  "delete_user_row i db =
     (if user_known i db then
        if list_ex (\<lambda>a. au_user_id a = i \<or> au_actor_user_id a = Some i) (pt_audit db) \<or>
           list_ex (\<lambda>d. list_ex (\<lambda>t. tk_user_id t = i \<and> tk_id t = rl_token_id d) (pt_tokens db))
             (pt_deliveries db)
        then None
        else Some (delete_memberships (\<lambda>mm. mm_user_id mm = i)
               (delete_mailboxes (\<lambda>m. mb_owner_user_id m = Some i)
                 (db\<lparr>pt_users := filter (\<lambda>u. us_id u \<noteq> i) (pt_users db),
                     pt_tokens := map (\<lambda>t. if tk_issued_by t = Some i then t\<lparr>tk_issued_by := None\<rparr> else t)
                       (filter (\<lambda>t. tk_user_id t \<noteq> i) (pt_tokens db))\<rparr>)))
      else Some db)"

subsection \<open>Statements several operations share\<close>

text \<open>
  Whatever ends the validity of recovery tokens also ends their mails: a delivery that waits or is
  leased is cancelled and its payload scrubbed, one in flight only remembers why it lost its purpose.
\<close>

definition cancelled_fields :: "string \<Rightarrow> instant \<Rightarrow> recovery_delivery \<Rightarrow> recovery_delivery" where
  "cancelled_fields reason at d =
     d\<lparr>rl_state := Rs_cancelled, rl_lease_token := None, rl_lease_expires_at := None, rl_payload := None,
       rl_completed_at := Some at, rl_updated_at := at, rl_last_error_code := Some reason,
       rl_cancellation_reason := Some reason, rl_cancellation_observed_at := Some at\<rparr>"

definition coalesce :: "'a option \<Rightarrow> 'a \<Rightarrow> 'a option" where
  "coalesce x y = (case x of None \<Rightarrow> Some y | Some z \<Rightarrow> Some z)"

definition noted_fields :: "string \<Rightarrow> instant \<Rightarrow> recovery_delivery \<Rightarrow> recovery_delivery" where
  "noted_fields reason at d =
     d\<lparr>rl_cancellation_reason := coalesce (rl_cancellation_reason d) reason,
       rl_cancellation_observed_at := coalesce (rl_cancellation_observed_at d) at, rl_updated_at := at\<rparr>"

definition cancel_deliveries ::
  "string \<Rightarrow> instant \<Rightarrow> (recovery_delivery \<Rightarrow> bool) \<Rightarrow> recovery_delivery list \<Rightarrow> recovery_delivery list" where
  "cancel_deliveries reason at P ds =
     update_where (\<lambda>d. P d \<and> rl_state d = Rs_dispatching) (noted_fields reason at)
       (update_where (\<lambda>d. P d \<and> rl_state d \<in> {Rs_pending, Rs_leased}) (cancelled_fields reason at) ds)"

definition token_of_user :: "portal_db \<Rightarrow> string \<Rightarrow> recovery_delivery \<Rightarrow> bool" where
  "token_of_user db userId d \<longleftrightarrow>
     list_ex (\<lambda>t. tk_id t = rl_token_id d \<and> tk_user_id t = userId) (pt_tokens db)"

definition consume_tokens :: "instant \<Rightarrow> string \<Rightarrow> token_row list \<Rightarrow> token_row list" where
  "consume_tokens at userId =
     update_where (\<lambda>t. tk_user_id t = userId \<and> tk_consumed_at t = None) (\<lambda>t. t\<lparr>tk_consumed_at := Some at\<rparr>)"

text \<open>The two updates together, as the credential and account operations issue them.\<close>

definition void_recovery :: "string \<Rightarrow> instant \<Rightarrow> string \<Rightarrow> portal_db \<Rightarrow> portal_db" where
  "void_recovery reason at userId db =
     db\<lparr>pt_tokens := consume_tokens at userId (pt_tokens db),
        pt_deliveries := cancel_deliveries reason at (token_of_user db userId) (pt_deliveries db)\<rparr>"

subsection \<open>Calls to the database\<close>

text \<open>
  A worker that calls the database several times: \<open>ce_others n\<close> is what other requests do before the
  n-th call, \<open>ce_fault n\<close> says that this call throws, in which case it has no effect.
\<close>

record call_env =
  ce_others :: "nat \<Rightarrow> portal_db \<Rightarrow> portal_db"
  ce_fault :: "nat \<Rightarrow> bool"

type_synonym db_at = "nat \<times> portal_db"

definition db_call ::
  "'x call_env_scheme \<Rightarrow> (portal_db \<Rightarrow> 'a \<times> portal_db) \<Rightarrow> db_at \<Rightarrow> 'a option \<times> db_at" where
  "db_call env stmt s =
     (case s of (n, db0) \<Rightarrow>
        let db = ce_others env n db0
        in if ce_fault env n then (None, (Suc n, db))
           else case stmt db of (x, db') \<Rightarrow> (Some x, (Suc n, db')))"

text \<open>Statements in sequence; the first one that throws ends the sequence.\<close>

definition and_then ::
  "'a option \<times> 's \<Rightarrow> ('a \<Rightarrow> 's \<Rightarrow> 'b option \<times> 's) \<Rightarrow> 'b option \<times> 's" where
  "and_then r f = (case r of (None, s) \<Rightarrow> (None, s) | (Some x, s) \<Rightarrow> f x s)"

subsection \<open>What every reachable database satisfies\<close>

text \<open>The keys, checks and references of the accounts tables; mailbox ids are in lower case.\<close>

definition accounts_ok :: "portal_db \<Rightarrow> bool" where
  "accounts_ok db \<longleftrightarrow>
     distinct (map us_id (pt_users db)) \<and> distinct (map us_email (pt_users db)) \<and>
     distinct (map us_mailbox_address (pt_users db)) \<and>
     distinct (map mb_id (pt_mailboxes db)) \<and> distinct (map mb_address (pt_mailboxes db)) \<and>
     distinct (map mb_owner_user_id (filter (\<lambda>m. mb_type m = Personal_mailbox) (pt_mailboxes db))) \<and>
     distinct (map (\<lambda>mm. (mm_mailbox_id mm, mm_user_id mm)) (pt_memberships db)) \<and>
     (\<forall>m\<in>set (pt_mailboxes db). mailbox_checks m \<and> js_lower (mb_id m) = mb_id m \<and>
        (\<forall>i\<in>set_option (mb_owner_user_id m). user_known i db)) \<and>
     (\<forall>mm\<in>set (pt_memberships db). mailbox_known (mm_mailbox_id mm) db \<and> user_known (mm_user_id mm) db)"

text \<open>
  The keys and checks of the revocations table: ids are fresh random values, so no two rows share one,
  a row names a user exactly when its scope is one actor, and a lease has a token and an end together.
\<close>

definition revocation_checks :: "revocation_row \<Rightarrow> bool" where
  "revocation_checks r \<longleftrightarrow>
     (av_scope r = Scope_actor) = (av_user_id r \<noteq> None) \<and>
     (av_lease_token r = None) = (av_lease_expires_at r = None) \<and> 0 \<le> av_attempt_count r"

definition revocations_ok :: "portal_db \<Rightarrow> bool" where
  "revocations_ok db \<longleftrightarrow> inj (pt_random db) \<and>
     distinct (map av_id (pt_revocations db)) \<and>
     (\<forall>r\<in>set (pt_revocations db). revocation_checks r \<and>
        (\<exists>n<pt_draws db. av_id r = ''acr_'' @ pt_random db n))"

end
