(* ===== verification/Mailbox_Access.thy ===== *)
theory Mailbox_Access
  imports Portal_Tables
begin

text \<open>
  Who may use a mailbox: the access rules and management operations of \<^verbatim>\<open>workers/lib/mailbox-access.ts\<close>,
  the access predicate of \<^verbatim>\<open>live-mailbox-access-sql.ts\<close>, the queries of \<^verbatim>\<open>live-mailbox-authorization.ts\<close>,
  the reads they guard (\<^verbatim>\<open>live-authorized-read.ts\<close>) and \<^verbatim>\<open>live-session.ts\<close>. An operation that calls the
  database several times takes what other requests did before its n-th call as an argument \<open>others n\<close>;
  a read takes the database each of its statements sees.
\<close>

subsection \<open>The D1 store\<close>

definition get_user :: "string \<Rightarrow> portal_db \<Rightarrow> user_row option" where
  "get_user userId db = find (\<lambda>u. us_id u = userId) (pt_users db)"

definition get_mailbox :: "string \<Rightarrow> portal_db \<Rightarrow> mailbox_row option" where
  "get_mailbox mailboxId db = find (\<lambda>m. mb_id m = mailboxId) (pt_mailboxes db)"

text \<open>A mailbox joined with the membership of one user, when there is one.\<close>

record access_row =
  ax_mailbox :: mailbox_row
  ax_membership_user_id :: "string option"

definition join_membership :: "string \<Rightarrow> portal_db \<Rightarrow> mailbox_row \<Rightarrow> access_row list" where
  "join_membership userId db m =
     (case filter (\<lambda>mm. mm_mailbox_id mm = mb_id m \<and> mm_user_id mm = userId) (pt_memberships db) of
        [] \<Rightarrow> [\<lparr>ax_mailbox = m, ax_membership_user_id = None\<rparr>]
      | mms \<Rightarrow> map (\<lambda>mm. \<lparr>ax_mailbox = m, ax_membership_user_id = Some (mm_user_id mm)\<rparr>) mms)"

definition access_where :: "string \<Rightarrow> access_row \<Rightarrow> bool" where
  "access_where userId r \<longleftrightarrow> mb_is_active (ax_mailbox r) \<and>
     (mb_type (ax_mailbox r) = Personal_mailbox \<and> mb_owner_user_id (ax_mailbox r) = Some userId \<or>
      mb_type (ax_mailbox r) = Shared_mailbox \<and> ax_membership_user_id r = Some userId)"

definition listMailboxAccessRows :: "string \<Rightarrow> portal_db \<Rightarrow> access_row list" where
  "listMailboxAccessRows userId db =
     filter (access_where userId) (concat (map (join_membership userId db) (pt_mailboxes db)))"

definition getMailboxAccessRow :: "string \<Rightarrow> string \<Rightarrow> portal_db \<Rightarrow> access_row option" where
  "getMailboxAccessRow userId mailboxId db =
     find (\<lambda>r. mb_id (ax_mailbox r) = mailboxId \<and> access_where userId r)
       (concat (map (join_membership userId db) (pt_mailboxes db)))"

record mailbox_member =
  me_id :: string
  me_email :: string
  me_role :: user_role
  me_is_active :: bool

definition member_of_user :: "user_row \<Rightarrow> mailbox_member" where
  "member_of_user u = \<lparr>me_id = us_id u, me_email = us_email u, me_role = us_role u, me_is_active = us_is_active u\<rparr>"

definition listMailboxMembers :: "string \<Rightarrow> portal_db \<Rightarrow> mailbox_member list" where
  "listMailboxMembers mailboxId db =
     concat (map (\<lambda>mm. map member_of_user (filter (\<lambda>u. us_id u = mm_user_id mm) (pt_users db)))
       (filter (\<lambda>mm. mm_mailbox_id mm = mailboxId) (pt_memberships db)))"

definition addMailbox :: "mailbox_row \<Rightarrow> portal_db \<Rightarrow> bool \<times> portal_db" where
  "addMailbox m db =
     (if mailbox_conflict m db then (False, db)
      else (True, db\<lparr>pt_mailboxes := pt_mailboxes db @ [m]\<rparr>))"

definition setMailboxActive :: "string \<Rightarrow> bool \<Rightarrow> instant \<Rightarrow> portal_db \<Rightarrow> bool \<times> portal_db" where
  "setMailboxActive mailboxId isActive now db =
     (mailbox_known mailboxId db,
      update_mailboxes (\<lambda>m. mb_id m = mailboxId)
        (\<lambda>m. m\<lparr>mb_is_active := isActive, mb_updated_at := now\<rparr>) db)"

text \<open>A membership of an unknown mailbox or user breaks a foreign key and throws.\<close>

definition addMembership :: "string \<Rightarrow> string \<Rightarrow> instant \<Rightarrow> portal_db \<Rightarrow> bool option \<times> portal_db" where
  "addMembership mailboxId userId now db =
     (if list_ex (\<lambda>mm. mm_mailbox_id mm = mailboxId \<and> mm_user_id mm = userId) (pt_memberships db)
      then (Some False, db)
      else if mailbox_known mailboxId db \<and> user_known userId db
      then (Some True, db\<lparr>pt_memberships := pt_memberships db @
        [\<lparr>mm_mailbox_id = mailboxId, mm_user_id = userId, mm_created_at = now\<rparr>]\<rparr>)
      else (None, db))"

definition removeMembership :: "string \<Rightarrow> string \<Rightarrow> portal_db \<Rightarrow> bool \<times> portal_db" where
  "removeMembership mailboxId userId db =
     (list_ex (\<lambda>mm. mm_mailbox_id mm = mailboxId \<and> mm_user_id mm = userId) (pt_memberships db),
      delete_memberships (\<lambda>mm. mm_mailbox_id mm = mailboxId \<and> mm_user_id mm = userId) db)"

subsection \<open>The access rules\<close>

definition rowGrantsAccess :: "access_row \<Rightarrow> string \<Rightarrow> bool" where
  "rowGrantsAccess r userId =
     (if \<not> mb_is_active (ax_mailbox r) then False
      else if mb_type (ax_mailbox r) = Personal_mailbox then mb_owner_user_id (ax_mailbox r) = Some userId
      else ax_membership_user_id r = Some userId)"

text \<open>\<open>dbu\<close> is the database the user is read from, \<open>dbm\<close> the one the mailboxes are read from.\<close>

definition listAccessibleMailboxes :: "portal_db \<Rightarrow> portal_db \<Rightarrow> string \<Rightarrow> mailbox_row list" where
  "listAccessibleMailboxes dbu dbm userId =
     (case get_user userId dbu of
        None \<Rightarrow> []
      | Some u \<Rightarrow>
          if \<not> us_is_active u then []
          else if us_role u = Role_admin then filter mb_is_active (pt_mailboxes dbm)
          else map ax_mailbox (filter (\<lambda>r. rowGrantsAccess r userId) (listMailboxAccessRows userId dbm)))"

definition canAccessMailbox :: "portal_db \<Rightarrow> portal_db \<Rightarrow> string \<Rightarrow> string \<Rightarrow> bool" where
  "canAccessMailbox dbu dbm userId mailboxId =
     (case get_user userId dbu of
        None \<Rightarrow> False
      | Some u \<Rightarrow>
          if \<not> us_is_active u then False
          else if us_role u = Role_admin
          then (case get_mailbox mailboxId dbm of None \<Rightarrow> False | Some m \<Rightarrow> mb_is_active m)
          else (case getMailboxAccessRow userId mailboxId dbm of
                  None \<Rightarrow> False
                | Some r \<Rightarrow> rowGrantsAccess r userId))"

text \<open>\<^verbatim>\<open>canManageAutomationRules\<close> and \<^verbatim>\<open>canManageMailboxSettings\<close> have the same body.\<close>

definition can_manage :: "user_row option \<Rightarrow> mailbox_row option \<Rightarrow> string \<Rightarrow> bool" where
  "can_manage user mailbox userId =
     (case (user, mailbox) of
        (Some u, Some m) \<Rightarrow>
          if \<not> us_is_active u \<or> \<not> mb_is_active m then False
          else us_role u = Role_admin \<or>
            mb_type m = Personal_mailbox \<and> mb_owner_user_id m = Some userId
      | _ \<Rightarrow> False)"

definition canManageAutomationRules :: "portal_db \<Rightarrow> portal_db \<Rightarrow> string \<Rightarrow> string \<Rightarrow> bool" where
  "canManageAutomationRules dbu dbm userId mailboxId =
     can_manage (get_user userId dbu) (get_mailbox (js_lower mailboxId) dbm) userId"

definition canManageMailboxSettings :: "portal_db \<Rightarrow> portal_db \<Rightarrow> string \<Rightarrow> string \<Rightarrow> bool" where
  "canManageMailboxSettings dbu dbm userId mailboxId =
     can_manage (get_user userId dbu) (get_mailbox (js_lower mailboxId) dbm) userId"

subsection \<open>Managing shared mailboxes\<close>

datatype access_error = Access_forbidden | Access_not_found | Access_conflict | Access_storage

type_synonym 'a access_result = "(access_error + 'a) \<times> portal_db"

definition requireActiveAdmin :: "string \<Rightarrow> portal_db \<Rightarrow> access_error + unit" where
  "requireActiveAdmin adminUserId db = guard_result
     (case get_user adminUserId db of
        None \<Rightarrow> False
      | Some a \<Rightarrow> us_is_active a \<and> us_role a = Role_admin) Access_forbidden"

definition requireSharedMailbox :: "string \<Rightarrow> portal_db \<Rightarrow> access_error + mailbox_row" where
  "requireSharedMailbox mailboxId db =
     (case get_mailbox (js_lower mailboxId) db of
        None \<Rightarrow> Inl Access_not_found
      | Some m \<Rightarrow> if mb_type m = Shared_mailbox then Inr m else Inl Access_conflict)"

fun fold_count :: "string list \<Rightarrow> (string \<Rightarrow> nat option) \<Rightarrow> (string \<Rightarrow> nat option)" where
  "fold_count [] counts = counts"
| "fold_count (i # ids) counts =
     fold_count ids (counts(i := Some ((case counts i of None \<Rightarrow> 0 | Some n \<Rightarrow> n) + 1)))"

definition listManagedMailboxes ::
  "(nat \<Rightarrow> portal_db \<Rightarrow> portal_db) \<Rightarrow> string \<Rightarrow> portal_db \<Rightarrow> (mailbox_row \<times> nat) list access_result" where
  "listManagedMailboxes others adminUserId db =
     (let db0 = others 0 db in
      case requireActiveAdmin adminUserId db0 of
        Inl e \<Rightarrow> (Inl e, db0)
      | Inr _ \<Rightarrow>
          let db1 = others 1 db0; db2 = others 2 db1;
              counts = fold_count (map mm_mailbox_id (pt_memberships db2)) (\<lambda>i. None)
          in (Inr (map (\<lambda>m. (m, case counts (mb_id m) of None \<Rightarrow> 0 | Some n \<Rightarrow> n)) (pt_mailboxes db1)), db2))"

definition registerSharedMailbox ::
  "(nat \<Rightarrow> portal_db \<Rightarrow> portal_db) \<Rightarrow> instant \<Rightarrow> string \<Rightarrow> string \<Rightarrow> portal_db \<Rightarrow> mailbox_row access_result" where
  "registerSharedMailbox others now adminUserId address db =
     (let db0 = others 0 db in
      case requireActiveAdmin adminUserId db0 of
        Inl e \<Rightarrow> (Inl e, db0)
      | Inr _ \<Rightarrow>
          let normalized = js_lower address;
              row = \<lparr>mb_id = normalized, mb_address = normalized, mb_type = Shared_mailbox,
                mb_owner_user_id = None, mb_is_active = True, mb_created_at = now, mb_updated_at = now\<rparr>;
              (added, db1) = addMailbox row (others 1 db0)
          in if added then (Inr row, db1) else (Inl Access_conflict, db1))"

definition deactivateMailbox ::
  "(nat \<Rightarrow> portal_db \<Rightarrow> portal_db) \<Rightarrow> instant \<Rightarrow> string \<Rightarrow> string \<Rightarrow> portal_db \<Rightarrow> unit access_result" where
  "deactivateMailbox others now adminUserId mailboxId db =
     (let db0 = others 0 db in
      case requireActiveAdmin adminUserId db0 of
        Inl e \<Rightarrow> (Inl e, db0)
      | Inr _ \<Rightarrow>
          let (found, db1) = setMailboxActive (js_lower mailboxId) False now (others 1 db0)
          in if found then (Inr (), db1) else (Inl Access_not_found, db1))"

definition listSharedMailboxMembers ::
  "(nat \<Rightarrow> portal_db \<Rightarrow> portal_db) \<Rightarrow> string \<Rightarrow> string \<Rightarrow> portal_db \<Rightarrow> mailbox_member list access_result" where
  "listSharedMailboxMembers others adminUserId mailboxId db =
     (let db0 = others 0 db; db1 = others 1 db0; db2 = others 2 db1 in
      case requireActiveAdmin adminUserId db0 of
        Inl e \<Rightarrow> (Inl e, db0)
      | Inr _ \<Rightarrow>
          case requireSharedMailbox mailboxId db1 of
            Inl e \<Rightarrow> (Inl e, db1)
          | Inr m \<Rightarrow> (Inr (listMailboxMembers (mb_id m) db2), db2))"

definition addSharedMailboxMember ::
  "(nat \<Rightarrow> portal_db \<Rightarrow> portal_db) \<Rightarrow> instant \<Rightarrow> string \<Rightarrow> string \<Rightarrow> string \<Rightarrow> portal_db \<Rightarrow>
     mailbox_member access_result" where
  "addSharedMailboxMember others now adminUserId mailboxId memberUserId db =
     (let db0 = others 0 db; db1 = others 1 db0; db2 = others 2 db1; db3 = others 3 db2 in
      case requireActiveAdmin adminUserId db0 of
        Inl e \<Rightarrow> (Inl e, db0)
      | Inr _ \<Rightarrow>
          case requireSharedMailbox mailboxId db1 of
            Inl e \<Rightarrow> (Inl e, db1)
          | Inr m \<Rightarrow>
              case get_user memberUserId db2 of
                None \<Rightarrow> (Inl Access_not_found, db2)
              | Some u \<Rightarrow>
                  if \<not> us_is_active u then (Inl Access_conflict, db2)
                  else case addMembership (mb_id m) memberUserId now db3 of
                      (None, db4) \<Rightarrow> (Inl Access_storage, db4)
                    | (Some False, db4) \<Rightarrow> (Inl Access_conflict, db4)
                    | (Some True, db4) \<Rightarrow> (Inr (member_of_user u), db4))"

definition removeSharedMailboxMember ::
  "(nat \<Rightarrow> portal_db \<Rightarrow> portal_db) \<Rightarrow> string \<Rightarrow> string \<Rightarrow> string \<Rightarrow> portal_db \<Rightarrow> unit access_result" where
  "removeSharedMailboxMember others adminUserId mailboxId memberUserId db =
     (let db0 = others 0 db; db1 = others 1 db0; db2 = others 2 db1 in
      case requireActiveAdmin adminUserId db0 of
        Inl e \<Rightarrow> (Inl e, db0)
      | Inr _ \<Rightarrow>
          case requireSharedMailbox mailboxId db1 of
            Inl e \<Rightarrow> (Inl e, db1)
          | Inr m \<Rightarrow>
              let (removed, db3) = removeMembership (mb_id m) memberUserId db2
              in if removed then (Inr (), db3) else (Inl Access_not_found, db3))"

definition unregisterMailbox :: "string \<Rightarrow> portal_db \<Rightarrow> portal_db" where
  "unregisterMailbox mailboxId = delete_mailboxes (\<lambda>m. mb_id m = js_lower mailboxId)"

subsection \<open>Live access\<close>

text \<open>The condition the queries share: an administrator, the owner of a personal mailbox, a member of a shared one.\<close>

definition grants :: "portal_db \<Rightarrow> user_row \<Rightarrow> mailbox_row \<Rightarrow> bool" where
  "grants db u m \<longleftrightarrow> us_role u = Role_admin \<or>
     mb_type m = Personal_mailbox \<and> mb_owner_user_id m = Some (us_id u) \<or>
     mb_type m = Shared_mailbox \<and>
       list_ex (\<lambda>mm. mm_mailbox_id mm = mb_id m \<and> mm_user_id mm = us_id u) (pt_memberships db)"

definition liveMailboxAccess :: "portal_db \<Rightarrow> string \<Rightarrow> string \<Rightarrow> bool" where
  "liveMailboxAccess db mailboxId userId =
     list_ex (\<lambda>u. list_ex (\<lambda>m. mb_id m = mailboxId \<and> us_id u = userId \<and> us_is_active u \<and>
       mb_is_active m \<and> grants db u m) (pt_mailboxes db)) (pt_users db)"

definition hasExactLiveMailboxAccess :: "portal_db \<Rightarrow> string \<Rightarrow> string \<Rightarrow> int option \<Rightarrow> bool" where
  "hasExactLiveMailboxAccess db mailboxId userId sessionVersion =
     (case sessionVersion of
        None \<Rightarrow> False
      | Some v \<Rightarrow>
          list_ex (\<lambda>u. list_ex (\<lambda>m. mb_id m = js_lower mailboxId \<and> us_id u = userId \<and> us_is_active u \<and>
            us_session_version u = v \<and> mb_is_active m \<and> grants db u m) (pt_mailboxes db)) (pt_users db))"

text \<open>
  The left join of the roster query has a row for each accessible mailbox and user, and one row without
  a mailbox for a user that has none.
\<close>

definition roster_rows :: "portal_db \<Rightarrow> string \<Rightarrow> int \<Rightarrow> string option list" where
  "roster_rows db userId v =
     concat (map (\<lambda>u. case filter (\<lambda>m. mb_is_active m \<and> grants db u m) (pt_mailboxes db) of
           [] \<Rightarrow> [None]
         | ms \<Rightarrow> map (\<lambda>m. Some (mb_id m)) ms)
       (filter (\<lambda>u. us_id u = userId \<and> us_is_active u \<and> us_session_version u = v) (pt_users db)))"

definition loadExactLiveMailboxRoster :: "portal_db \<Rightarrow> string \<Rightarrow> int option \<Rightarrow> string list option" where
  "loadExactLiveMailboxRoster db userId sessionVersion =
     (case sessionVersion of
        None \<Rightarrow> None
      | Some v \<Rightarrow>
          (case roster_rows db userId v of
             [] \<Rightarrow> None
           | rows \<Rightarrow> Some (sort (remdups (List.map_filter (\<lambda>r. r) rows)))))"

definition listExactLiveMailboxes :: "portal_db \<Rightarrow> string \<Rightarrow> int option \<Rightarrow> mailbox_row list" where
  "listExactLiveMailboxes db userId sessionVersion =
     (case sessionVersion of
        None \<Rightarrow> []
      | Some v \<Rightarrow>
          sort_key mb_address
            (concat (map (\<lambda>u. filter (\<lambda>m. mb_is_active m \<and> grants db u m) (pt_mailboxes db))
              (filter (\<lambda>u. us_id u = userId \<and> us_is_active u \<and> us_session_version u = v) (pt_users db)))))"

definition listStableLiveMailboxes :: "portal_db \<Rightarrow> portal_db \<Rightarrow> string \<Rightarrow> int option \<Rightarrow> mailbox_row list" where
  "listStableLiveMailboxes db1 db2 userId sessionVersion =
     (let listed = listExactLiveMailboxes db1 userId sessionVersion;
          currentIds = map mb_id (listExactLiveMailboxes db2 userId sessionVersion)
      in filter (\<lambda>m. mb_id m \<in> set currentIds) listed)"

definition currentAgentActorSessionVersion :: "portal_db \<Rightarrow> string \<Rightarrow> string \<Rightarrow> int option" where
  "currentAgentActorSessionVersion db mailboxId userId =
     (case get_user userId db of
        None \<Rightarrow> None
      | Some u \<Rightarrow>
          (case get_mailbox (js_lower mailboxId) db of
             None \<Rightarrow> None
           | Some m \<Rightarrow>
               if us_is_active u \<and> mb_is_active m \<and> grants db u m then Some (us_session_version u) else None))"

definition isAgentMailboxActive :: "portal_db \<Rightarrow> string \<Rightarrow> bool" where
  "isAgentMailboxActive db mailboxId =
     (case get_mailbox (js_lower mailboxId) db of None \<Rightarrow> False | Some m \<Rightarrow> mb_is_active m)"

text \<open>A cookie session names its user and the credential generation; a cookie without one means generation 1.\<close>

definition sessionMatchesUserVersion :: "int option \<Rightarrow> user_row \<Rightarrow> bool" where
  "sessionMatchesUserVersion sessionVersion u \<longleftrightarrow>
     (case sessionVersion of None \<Rightarrow> 1 | Some v \<Rightarrow> v) = us_session_version u"

definition resolveLiveSessionUser :: "portal_db \<Rightarrow> string \<Rightarrow> int option \<Rightarrow> user_row option" where
  "resolveLiveSessionUser db sub sessionVersion =
     (case get_user sub db of
        None \<Rightarrow> None
      | Some u \<Rightarrow> if us_is_active u \<and> sessionMatchesUserVersion sessionVersion u then Some u else None)"

subsection \<open>Reads under live authorization\<close>

text \<open>An authorization check answers or throws (\<open>None\<close>); the guarded read returns or throws \<open>'e\<close>.\<close>

datatype 'e live_error = Live_revoked | Live_session_gone | Live_unavailable | Live_read_failed 'e

definition checkAuthorization :: "bool option \<Rightarrow> 'e live_error + unit" where
  "checkAuthorization answer =
     (case answer of
        None \<Rightarrow> Inl Live_unavailable
      | Some authorized \<Rightarrow> guard_result authorized Live_revoked)"

definition read_outcome :: "'e + 'a \<Rightarrow> 'e live_error + 'a" where
  "read_outcome r = (case r of Inl e \<Rightarrow> Inl (Live_read_failed e) | Inr x \<Rightarrow> Inr x)"

definition runLiveAuthorizedRead :: "bool option \<Rightarrow> 'e + 'a \<Rightarrow> bool option \<Rightarrow> 'e live_error + 'a" where
  "runLiveAuthorizedRead before outcome later =
     bind_result (checkAuthorization before)
       (\<lambda>_. bind_result (checkAuthorization later) (\<lambda>_. read_outcome outcome))"

definition checkSnapshot :: "'s option option \<Rightarrow> 'e live_error + 's" where
  "checkSnapshot answer =
     (case answer of
        None \<Rightarrow> Inl Live_unavailable
      | Some None \<Rightarrow> Inl Live_session_gone
      | Some (Some s) \<Rightarrow> Inr s)"

definition runLiveAuthorizedSnapshotRead ::
  "'s option option \<Rightarrow> ('s \<Rightarrow> 's \<Rightarrow> bool) \<Rightarrow> 'e + 'a \<Rightarrow> 's option option \<Rightarrow> 'e live_error + 'a" where
  "runLiveAuthorizedSnapshotRead before isSameSnapshot outcome later =
     bind_result (checkSnapshot before)
       (\<lambda>b. bind_result (checkSnapshot later)
         (\<lambda>a. bind_result (guard_result (isSameSnapshot b a) Live_revoked) (\<lambda>_. read_outcome outcome)))"

definition runLiveAuthorizedMutation ::
  "bool option \<Rightarrow> ('s \<Rightarrow> ('e + 'a) \<times> 's) \<Rightarrow> 's \<Rightarrow> ('e live_error + 'a) \<times> 's" where
  "runLiveAuthorizedMutation answer mutate s =
     (case checkAuthorization answer of
        Inl e \<Rightarrow> (Inl e, s)
      | Inr _ \<Rightarrow> (case mutate s of (r, s') \<Rightarrow> (read_outcome r, s')))"

record live_identity =
  id_mailboxId :: string
  id_userId :: string
  id_sessionVersion :: "int option"

definition runLiveMailboxAuthorizedRead ::
  "portal_db \<Rightarrow> live_identity \<Rightarrow> 'e + 'a \<Rightarrow> portal_db \<Rightarrow> 'e live_error + 'a" where
  "runLiveMailboxAuthorizedRead db identity outcome db' = runLiveAuthorizedRead
     (Some (hasExactLiveMailboxAccess db (id_mailboxId identity) (id_userId identity) (id_sessionVersion identity)))
     outcome
     (Some (hasExactLiveMailboxAccess db' (id_mailboxId identity) (id_userId identity) (id_sessionVersion identity)))"

definition sameExactRoster :: "string list \<Rightarrow> string list \<Rightarrow> bool" where
  "sameExactRoster before later \<longleftrightarrow> length before = length later \<and> list_all2 (=) before later"

definition runExactLiveMailboxRosterRead ::
  "portal_db \<Rightarrow> live_identity \<Rightarrow> 'e + 'a \<Rightarrow> portal_db \<Rightarrow> 'e live_error + 'a" where
  "runExactLiveMailboxRosterRead db identity outcome db' = runLiveAuthorizedSnapshotRead
     (Some (loadExactLiveMailboxRoster db (id_userId identity) (id_sessionVersion identity)))
     sameExactRoster outcome
     (Some (loadExactLiveMailboxRoster db' (id_userId identity) (id_sessionVersion identity)))"

end
