(* ===== verification/Access_Laws.thy ===== *)
theory Access_Laws
  imports Mailbox_Access
begin

text \<open>
  The access rule is written down several times in the program, over different queries. All of them
  mean the same on a database that satisfies its constraints.
\<close>

subsection \<open>Looking rows up by key\<close>

lemma get_user_iff:
  "accounts_ok db \<Longrightarrow> get_user i db = Some u \<longleftrightarrow> u \<in> set (pt_users db) \<and> us_id u = i"
  by (auto simp: get_user_def accounts_ok_def dest: find_key_Some find_key_distinct)

lemma get_mailbox_iff:
  "accounts_ok db \<Longrightarrow> get_mailbox i db = Some m \<longleftrightarrow> m \<in> set (pt_mailboxes db) \<and> mb_id m = i"
  by (auto simp: get_mailbox_def accounts_ok_def dest: find_key_Some find_key_distinct)

lemma get_user_None: "get_user i db = None \<longleftrightarrow> \<not> user_known i db"
  by (auto simp: get_user_def user_known_def find_None_iff list_ex_iff)

lemma get_mailbox_None: "get_mailbox i db = None \<longleftrightarrow> \<not> mailbox_known i db"
  by (auto simp: get_mailbox_def mailbox_known_def find_None_iff list_ex_iff)

lemma accounts_checks:
  "accounts_ok db \<Longrightarrow> m \<in> set (pt_mailboxes db) \<Longrightarrow>
     mb_type m = Personal_mailbox \<longleftrightarrow> mb_owner_user_id m \<noteq> None"
  by (auto simp: accounts_ok_def mailbox_checks_def)

subsection \<open>The access rule\<close>

text \<open>The rule in one place: user and mailbox exist, both are active, and the user's grant covers the mailbox.\<close>

definition may_use :: "portal_db \<Rightarrow> string \<Rightarrow> string \<Rightarrow> bool" where
  "may_use db userId mailboxId =
     (case (get_user userId db, get_mailbox mailboxId db) of
        (Some u, Some m) \<Rightarrow> us_is_active u \<and> mb_is_active m \<and> grants db u m
      | _ \<Rightarrow> False)"

definition live_version :: "portal_db \<Rightarrow> string \<Rightarrow> int option" where
  "live_version db userId =
     (case get_user userId db of
        None \<Rightarrow> None
      | Some u \<Rightarrow> if us_is_active u then Some (us_session_version u) else None)"

lemma may_use_get:
  "may_use db i k \<longleftrightarrow> (\<exists>u m. get_user i db = Some u \<and> get_mailbox k db = Some m \<and>
     us_is_active u \<and> mb_is_active m \<and> grants db u m)"
  by (auto simp: may_use_def split: option.splits)

lemma live_version_get:
  "live_version db i = Some v \<longleftrightarrow> (\<exists>u. get_user i db = Some u \<and> us_is_active u \<and> us_session_version u = v)"
  by (auto simp: live_version_def split: option.splits)

lemma may_use_iff:
  "accounts_ok db \<Longrightarrow> may_use db i k \<longleftrightarrow>
     (\<exists>u m. u \<in> set (pt_users db) \<and> us_id u = i \<and> m \<in> set (pt_mailboxes db) \<and> mb_id m = k \<and>
        us_is_active u \<and> mb_is_active m \<and> grants db u m)"
  by (auto simp: may_use_get get_user_iff get_mailbox_iff)

lemma live_version_iff:
  "accounts_ok db \<Longrightarrow> live_version db i = Some v \<longleftrightarrow>
     (\<exists>u\<in>set (pt_users db). us_id u = i \<and> us_is_active u \<and> us_session_version u = v)"
  by (auto simp: live_version_get get_user_iff)

lemma set_join: "r \<in> set (join_membership i db m) \<Longrightarrow> ax_mailbox r = m"
  by (auto simp: join_membership_def split: list.splits)

lemma join_granted:
  "(\<exists>r\<in>set (join_membership i db m). access_where i r) \<longleftrightarrow>
     mb_is_active m \<and> (mb_type m = Personal_mailbox \<and> mb_owner_user_id m = Some i \<or>
       mb_type m = Shared_mailbox \<and>
         list_ex (\<lambda>mm. mm_mailbox_id mm = mb_id m \<and> mm_user_id mm = i) (pt_memberships db))"
proof (cases "filter (\<lambda>mm. mm_mailbox_id mm = mb_id m \<and> mm_user_id mm = i) (pt_memberships db)")
  case Nil
  then have "\<not> list_ex (\<lambda>mm. mm_mailbox_id mm = mb_id m \<and> mm_user_id mm = i) (pt_memberships db)"
    by (auto simp: list_ex_iff filter_empty_conv)
  with Nil show ?thesis by (simp add: join_membership_def access_where_def)
next
  case (Cons mm mms)
  have all: "\<forall>x\<in>set (mm # mms). x \<in> set (pt_memberships db) \<and> mm_mailbox_id x = mb_id m \<and> mm_user_id x = i"
    unfolding Cons [symmetric] by auto
  then have "list_ex (\<lambda>mm. mm_mailbox_id mm = mb_id m \<and> mm_user_id mm = i) (pt_memberships db)"
    by (auto simp: list_ex_iff)
  with all Cons show ?thesis by (auto simp: join_membership_def access_where_def)
qed

lemma where_grants: "access_where i r \<Longrightarrow> rowGrantsAccess r i"
  by (auto simp: access_where_def rowGrantsAccess_def)

lemma set_access_rows:
  "r \<in> set (concat (map (join_membership i db) (pt_mailboxes db))) \<longleftrightarrow>
     (\<exists>m\<in>set (pt_mailboxes db). r \<in> set (join_membership i db m))"
  by auto

lemma access_rows_granted:
  assumes "us_role u \<noteq> Role_admin" and "us_id u = i" and "m \<in> set (pt_mailboxes db)"
  shows "(\<exists>r\<in>set (listMailboxAccessRows i db). ax_mailbox r = m) \<longleftrightarrow> mb_is_active m \<and> grants db u m"
proof -
  have "(\<exists>r\<in>set (listMailboxAccessRows i db). ax_mailbox r = m) \<longleftrightarrow>
      (\<exists>r\<in>set (join_membership i db m). access_where i r)"
    using assms(3) set_join unfolding listMailboxAccessRows_def by fastforce
  with assms(1,2) show ?thesis unfolding join_granted grants_def by auto
qed

lemma access_row_granted:
  assumes ok: "accounts_ok db" and u: "us_role u \<noteq> Role_admin" "us_id u = i"
  shows "(\<exists>r. getMailboxAccessRow i k db = Some r \<and> rowGrantsAccess r i) \<longleftrightarrow>
     (\<exists>m. get_mailbox k db = Some m \<and> mb_is_active m \<and> grants db u m)"
proof -
  have "(\<exists>r. getMailboxAccessRow i k db = Some r \<and> rowGrantsAccess r i) \<longleftrightarrow>
      (\<exists>r. getMailboxAccessRow i k db = Some r)"
    by (auto simp: getMailboxAccessRow_def find_Some_iff intro: where_grants)
  also have "\<dots> \<longleftrightarrow> (\<exists>r\<in>set (listMailboxAccessRows i db). mb_id (ax_mailbox r) = k)"
    unfolding not_None_eq [symmetric] getMailboxAccessRow_def listMailboxAccessRows_def
    by (auto simp: find_None_iff)
  also have "\<dots> \<longleftrightarrow> (\<exists>m\<in>set (pt_mailboxes db). mb_id m = k \<and> mb_is_active m \<and> grants db u m)"
  proof -
    have "ax_mailbox r \<in> set (pt_mailboxes db)" if "r \<in> set (listMailboxAccessRows i db)" for r
      using that set_join unfolding listMailboxAccessRows_def by fastforce
    then show ?thesis using access_rows_granted [OF u] by metis
  qed
  finally show ?thesis using get_mailbox_iff [OF ok] by auto
qed

lemma can_access_iff:
  assumes "accounts_ok db"
  shows "canAccessMailbox db db i k \<longleftrightarrow> may_use db i k"
proof (cases "get_user i db")
  case (Some u)
  then have i: "us_id u = i" using get_user_iff [OF assms] by auto
  show ?thesis
  proof (cases "us_role u = Role_admin")
    case True
    then show ?thesis
      using Some by (auto simp: canAccessMailbox_def may_use_def grants_def split: option.splits)
  next
    case False
    have "may_use db i k \<longleftrightarrow> us_is_active u \<and> (\<exists>m. get_mailbox k db = Some m \<and> mb_is_active m \<and> grants db u m)"
      using Some by (auto simp: may_use_def split: option.splits)
    also have "\<dots> \<longleftrightarrow> us_is_active u \<and> (\<exists>r. getMailboxAccessRow i k db = Some r \<and> rowGrantsAccess r i)"
      unfolding access_row_granted [OF assms False i] ..
    also have "\<dots> \<longleftrightarrow> canAccessMailbox db db i k"
      using Some False by (auto simp: canAccessMailbox_def split: option.splits)
    finally show ?thesis by simp
  qed
qed (simp add: canAccessMailbox_def may_use_def)

lemma accessible_iff:
  assumes "accounts_ok db"
  shows "k \<in> mb_id ` set (listAccessibleMailboxes db db i) \<longleftrightarrow> may_use db i k"
proof (cases "get_user i db")
  case (Some u)
  then have i: "us_id u = i" using get_user_iff [OF assms] by auto
  have mem: "ax_mailbox r \<in> set (pt_mailboxes db)" if "r \<in> set (listMailboxAccessRows i db)" for r
    using that set_join unfolding listMailboxAccessRows_def by fastforce
  have granted: "rowGrantsAccess r i" if "r \<in> set (listMailboxAccessRows i db)" for r
    using that where_grants unfolding listMailboxAccessRows_def by auto
  have "may_use db i k \<longleftrightarrow>
      us_is_active u \<and> (\<exists>m\<in>set (pt_mailboxes db). mb_id m = k \<and> mb_is_active m \<and> grants db u m)"
    using Some by (auto simp: may_use_get get_mailbox_iff [OF assms])
  also have "\<dots> \<longleftrightarrow> k \<in> mb_id ` set (listAccessibleMailboxes db db i)"
  proof (cases "us_role u = Role_admin")
    case False
    then show ?thesis
      using Some access_rows_granted [OF False i] mem granted
      by (auto simp: listAccessibleMailboxes_def image_iff)
  qed (use Some in \<open>auto simp: listAccessibleMailboxes_def grants_def\<close>)
  finally show ?thesis by simp
qed (simp add: listAccessibleMailboxes_def may_use_def)

lemma live_access_iff: "accounts_ok db \<Longrightarrow> liveMailboxAccess db k i \<longleftrightarrow> may_use db i k"
  by (auto simp: liveMailboxAccess_def may_use_iff list_ex_iff)

lemma exact_access_iff:
  "accounts_ok db \<Longrightarrow> hasExactLiveMailboxAccess db k i (Some v) \<longleftrightarrow>
     may_use db i (js_lower k) \<and> live_version db i = Some v"
proof -
  assume ok: "accounts_ok db"
  have "u = u'" if "u \<in> set (pt_users db)" "u' \<in> set (pt_users db)" "us_id u = us_id u'" for u u'
    using ok that get_user_iff by (metis option.inject)
  with ok show ?thesis
    by (auto simp: hasExactLiveMailboxAccess_def may_use_iff live_version_iff list_ex_iff)
qed

lemma agent_version_iff:
  "currentAgentActorSessionVersion db k i =
     (if may_use db i (js_lower k) then live_version db i else None)"
  by (auto simp: currentAgentActorSessionVersion_def may_use_def live_version_def split: option.splits)

text \<open>The users a roster query selects: at most one.\<close>

lemma selected_user:
  assumes "accounts_ok db"
  shows "filter (\<lambda>u. us_id u = i \<and> us_is_active u \<and> us_session_version u = v) (pt_users db) =
    (case get_user i db of
       None \<Rightarrow> []
     | Some u \<Rightarrow> if us_is_active u \<and> us_session_version u = v then [u] else [])"
proof -
  have one: "distinct (map us_id us) \<Longrightarrow>
      filter (\<lambda>u. us_id u = i \<and> us_is_active u \<and> us_session_version u = v) us =
        (case find (\<lambda>u. us_id u = i) us of
           None \<Rightarrow> []
         | Some u \<Rightarrow> if us_is_active u \<and> us_session_version u = v then [u] else [])" for us
  proof (induction us)
    case (Cons u us)
    then have "us_id w \<noteq> us_id u" if "w \<in> set us" for w using that by (metis (no_types) Cons.prems distinct.simps(2) image_eqI list.set_map list.simps(9))
    then have "filter (\<lambda>w. us_id w = us_id u \<and> us_is_active w \<and> us_session_version w = v) us = []"
      by (auto simp: filter_empty_conv)
    with Cons show ?case by (cases "us_id u = i") auto
  qed simp
  have "distinct (map us_id (pt_users db))" using assms by (simp add: accounts_ok_def)
  from one [OF this] show ?thesis unfolding get_user_def .
qed

lemma map_filter_Some: "List.map_filter (\<lambda>r. r) (map (\<lambda>x. Some (f x)) xs) = map f xs"
  by (induction xs) (simp_all add: List.map_filter_simps)

lemma roster_iff:
  assumes ok: "accounts_ok db"
  shows "loadExactLiveMailboxRoster db i (Some v) =
    (if live_version db i = Some v
     then Some (sort (filter (may_use db i) (map mb_id (pt_mailboxes db)))) else None)"
proof (cases "live_version db i = Some v")
  case True
  then obtain u where u: "get_user i db = Some u" "us_is_active u" "us_session_version u = v"
    by (auto simp: live_version_def split: option.splits if_splits)
  have "filter (\<lambda>m. mb_is_active m \<and> grants db u m) (pt_mailboxes db) =
      filter (\<lambda>m. may_use db i (mb_id m)) (pt_mailboxes db)"
  proof (rule filter_cong)
    fix m assume "m \<in> set (pt_mailboxes db)"
    then have "get_mailbox (mb_id m) db = Some m" using ok by (simp add: get_mailbox_iff)
    with u show "mb_is_active m \<and> grants db u m \<longleftrightarrow> may_use db i (mb_id m)" by (simp add: may_use_def)
  qed simp
  moreover have "distinct (filter (may_use db i) (map mb_id (pt_mailboxes db)))"
    using ok by (simp add: accounts_ok_def)
  moreover have ids: "filter (may_use db i) (map mb_id (pt_mailboxes db)) =
      map mb_id (filter (\<lambda>m. may_use db i (mb_id m)) (pt_mailboxes db))"
    by (simp add: filter_map comp_def)
  ultimately have "remdups (List.map_filter (\<lambda>r. r) (roster_rows db i v)) =
        filter (may_use db i) (map mb_id (pt_mailboxes db)) \<and> roster_rows db i v \<noteq> []"
    using u by (cases "filter (\<lambda>m. may_use db i (mb_id m)) (pt_mailboxes db)")
      (simp_all add: roster_rows_def selected_user [OF ok] map_filter_Some List.map_filter_simps
        distinct_remdups_id ids)
  then show ?thesis
    using True by (cases "roster_rows db i v")
      (simp_all add: loadExactLiveMailboxRoster_def del: List.map_filter_simps)
next
  case False
  then show ?thesis
    by (auto simp: loadExactLiveMailboxRoster_def roster_rows_def selected_user [OF ok] live_version_def
        split: option.splits)
qed

lemma exact_list_iff:
  assumes ok: "accounts_ok db" and k: "js_lower k = k"
  shows "k \<in> mb_id ` set (listExactLiveMailboxes db i (Some v)) \<longleftrightarrow>
    hasExactLiveMailboxAccess db k i (Some v)"
proof (cases "get_user i db")
  case (Some u)
  then show ?thesis
    by (auto simp: listExactLiveMailboxes_def selected_user [OF ok] may_use_get live_version_get
        get_mailbox_iff [OF ok] exact_access_iff [OF ok] k)
qed (simp add: listExactLiveMailboxes_def selected_user [OF ok] may_use_def exact_access_iff [OF ok])

text \<open>
  C29: The access rule, written down separately in seven places (the row check behind the session
  routes, the listing of a user's mailboxes, the SQL predicate other statements embed, the exact check
  of live reads, the roster of global reads, the listing of live mailboxes and the agent's own query),
  is one rule: on a database that satisfies its constraints they all grant a user the same mailboxes,
  and the exact forms grant them exactly to the current credential generation of an active user.
\<close>

theorem access_formulations_agree:
  assumes "accounts_ok db" and "js_lower k = k"
  shows "canAccessMailbox db db i k = may_use db i k \<and>
    k \<in> mb_id ` set (listAccessibleMailboxes db db i) = may_use db i k \<and>
    liveMailboxAccess db k i = may_use db i k \<and>
    hasExactLiveMailboxAccess db k i (Some v) = (may_use db i k \<and> live_version db i = Some v) \<and>
    currentAgentActorSessionVersion db k i = (if may_use db i k then live_version db i else None) \<and>
    loadExactLiveMailboxRoster db i (Some v) =
      (if live_version db i = Some v
       then Some (sort (filter (may_use db i) (map mb_id (pt_mailboxes db)))) else None) \<and>
    k \<in> mb_id ` set (listExactLiveMailboxes db i (Some v)) = (may_use db i k \<and> live_version db i = Some v)"
proof (intro conjI)
  show "k \<in> mb_id ` set (listExactLiveMailboxes db i (Some v)) =
      (may_use db i k \<and> live_version db i = Some v)"
    unfolding exact_list_iff [OF assms] exact_access_iff [OF assms(1)] assms(2) ..
qed (use assms in \<open>simp_all add: can_access_iff accessible_iff live_access_iff exact_access_iff
  agent_version_iff roster_iff\<close>)

end
