(* ===== verification/Account_Lifecycle.thy ===== *)
theory Account_Lifecycle
  imports Mailbox_Access
begin

text \<open>
  Accounts: the users table (\<^verbatim>\<open>workers/lib/users.ts\<close>), provisioning (\<^verbatim>\<open>account-provisioning.ts\<close>) and the
  deactivation and reactivation of accounts (\<^verbatim>\<open>account-lifecycle.ts\<close>, \<^verbatim>\<open>account-lifecycle-runtime.ts\<close>). A D1
  batch is one transaction. Passwords appear only as the hashes and salts they are stored as.
\<close>

subsection \<open>Users\<close>

definition getUserByEmail :: "string \<Rightarrow> portal_db \<Rightarrow> user_row option" where
  "getUserByEmail email db = find (\<lambda>u. us_email u = js_lower email) (pt_users db)"

definition getUserByMcpTokenHash :: "string \<Rightarrow> portal_db \<Rightarrow> user_row option" where
  "getUserByMcpTokenHash tokenHash db = find (\<lambda>u. us_mcp_token_hash u = Some tokenHash) (pt_users db)"

definition canonical_mailbox :: "user_row \<Rightarrow> mailbox_row \<Rightarrow> bool" where
  "canonical_mailbox u m \<longleftrightarrow> mb_owner_user_id m = Some (us_id u) \<and> mb_type m = Personal_mailbox \<and>
     mb_id m = us_mailbox_address u \<and> mb_address m = us_mailbox_address u"

definition listUsers :: "portal_db \<Rightarrow> user_row list" where
  "listUsers db = sort_key us_email
     (filter (\<lambda>u. us_is_active u \<or> list_ex (canonical_mailbox u) (pt_mailboxes db)) (pt_users db))"

definition countUsers :: "portal_db \<Rightarrow> nat" where
  "countUsers db = length (map us_id (pt_users db))"

record create_user_input =
  ci_email :: string
  ci_passwordHash :: string
  ci_passwordSalt :: string
  ci_role :: user_role
  ci_mailboxAddress :: string
  ci_mcpTokenHash :: "string option"
  ci_ownershipConfirmedAt :: "instant option"

definition new_user :: "string \<Rightarrow> instant \<Rightarrow> create_user_input \<Rightarrow> user_row" where
  "new_user uuid now i =
     \<lparr>us_id = ''usr_'' @ uuid, us_email = js_lower (ci_email i), us_password_hash = ci_passwordHash i,
      us_password_salt = ci_passwordSalt i, us_session_version = 1, us_role = ci_role i, us_is_active = True,
      us_mailbox_address = js_lower (ci_mailboxAddress i), us_mcp_token_hash = ci_mcpTokenHash i,
      us_ownership_confirmed_at = ci_ownershipConfirmedAt i, us_created_at = now, us_updated_at = now\<rparr>"

definition personal_mailbox :: "user_row \<Rightarrow> mailbox_row" where
  "personal_mailbox u =
     \<lparr>mb_id = us_mailbox_address u, mb_address = us_mailbox_address u, mb_type = Personal_mailbox,
      mb_owner_user_id = Some (us_id u), mb_is_active = True, mb_created_at = us_created_at u,
      mb_updated_at = us_created_at u\<rparr>"

text \<open>\<open>None\<close> is the thrown constraint violation, which rolls the batch back.\<close>

definition createUser :: "string \<Rightarrow> instant \<Rightarrow> create_user_input \<Rightarrow> portal_db \<Rightarrow> user_row option \<times> portal_db" where
  "createUser uuid now i db =
     (let u = new_user uuid now i; m = personal_mailbox u
      in if user_conflict u db \<or> mailbox_conflict m db then (None, db)
         else (Some u, db\<lparr>pt_users := pt_users db @ [u], pt_mailboxes := pt_mailboxes db @ [m]\<rparr>))"

definition new_password :: "string \<Rightarrow> string \<Rightarrow> bool \<Rightarrow> instant \<Rightarrow> user_row \<Rightarrow> user_row" where
  "new_password passwordHash passwordSalt confirmOwnership now u =
     u\<lparr>us_password_hash := passwordHash, us_password_salt := passwordSalt, us_mcp_token_hash := None,
       us_session_version := us_session_version u + 1,
       us_ownership_confirmed_at :=
         (if confirmOwnership then coalesce (us_ownership_confirmed_at u) now else us_ownership_confirmed_at u),
       us_updated_at := now\<rparr>"

definition replaceUserCredentials ::
  "instant \<Rightarrow> string \<Rightarrow> string \<Rightarrow> string \<Rightarrow> bool \<Rightarrow> portal_db \<Rightarrow> portal_db" where
  "replaceUserCredentials now i passwordHash passwordSalt confirmOwnership db =
     void_recovery ''CREDENTIALS_REVOKED'' now i
       (update_user i (new_password passwordHash passwordSalt confirmOwnership now) db)"

definition revokeUserCredentials :: "instant \<Rightarrow> string \<Rightarrow> string \<Rightarrow> string \<Rightarrow> portal_db \<Rightarrow> portal_db" where
  "revokeUserCredentials now i passwordHash passwordSalt =
     replaceUserCredentials now i passwordHash passwordSalt False"

definition setUserPassword :: "instant \<Rightarrow> string \<Rightarrow> string \<Rightarrow> string \<Rightarrow> portal_db \<Rightarrow> portal_db" where
  "setUserPassword now i passwordHash passwordSalt =
     replaceUserCredentials now i passwordHash passwordSalt True"

definition deleteUser :: "string \<Rightarrow> portal_db \<Rightarrow> bool \<times> portal_db" where
  "deleteUser i db = (case delete_user_row i db of None \<Rightarrow> (False, db) | Some db' \<Rightarrow> (True, db'))"

subsection \<open>Provisioning\<close>

datatype provision_error = Provision_not_created | Provision_mailbox_failed | Provision_rollback_failed

text \<open>\<open>provisioned\<close> says whether \<^verbatim>\<open>provisionMailbox\<close>, which writes to the object store, succeeded.\<close>

definition provisionAccount ::
  "(nat \<Rightarrow> portal_db \<Rightarrow> portal_db) \<Rightarrow> string \<Rightarrow> instant \<Rightarrow> bool \<Rightarrow> create_user_input \<Rightarrow> portal_db \<Rightarrow>
     (provision_error + user_row) \<times> portal_db" where
  "provisionAccount others uuid now provisioned i db =
     (case createUser uuid now i (others 0 db) of
        (None, db1) \<Rightarrow> (Inl Provision_not_created, db1)
      | (Some u, db1) \<Rightarrow>
          let db2 = others 1 db1
          in if provisioned then (Inr u, db2)
             else (case deleteUser (us_id u) db2 of
                 (True, db3) \<Rightarrow> (Inl Provision_mailbox_failed, db3)
               | (False, db3) \<Rightarrow> (Inl Provision_rollback_failed, db3)))"

subsection \<open>Deactivation and activation\<close>

text \<open>The mailboxes whose connections and devices a deactivation cleans up.\<close>

definition affected_mailboxes :: "string \<Rightarrow> portal_db \<Rightarrow> string list" where
  "affected_mailboxes userId db = remdups (map mb_address (filter (\<lambda>m.
     mb_owner_user_id m = Some userId \<or>
     list_ex (\<lambda>mm. mm_mailbox_id mm = mb_id m \<and> mm_user_id mm = userId) (pt_memberships db) \<or>
     mb_is_active m \<and> list_ex (\<lambda>u. us_id u = userId \<and> us_role u = Role_admin) (pt_users db))
     (pt_mailboxes db)))"

definition deactivated_user :: "string \<Rightarrow> string \<Rightarrow> instant \<Rightarrow> user_row \<Rightarrow> user_row" where
  "deactivated_user passwordHash passwordSalt at u =
     u\<lparr>us_is_active := False, us_password_hash := passwordHash, us_password_salt := passwordSalt,
       us_mcp_token_hash := None, us_session_version := us_session_version u + 1, us_updated_at := at\<rparr>"

definition audit_deactivation :: "string \<Rightarrow> string \<Rightarrow> instant \<Rightarrow> portal_db \<Rightarrow> portal_db" where
  "audit_deactivation auditId userId at db =
     (if user_known userId db
      then db\<lparr>pt_audit := pt_audit db @ [\<lparr>au_id = auditId, au_user_id = userId,
        au_event_type = Account_deactivated, au_actor_user_id = None, au_created_at = at\<rparr>]\<rparr>
      else db)"

definition deactivate_batch ::
  "string \<Rightarrow> string \<Rightarrow> string \<Rightarrow> string \<Rightarrow> instant \<Rightarrow> portal_db \<Rightarrow> portal_db" where
  "deactivate_batch auditId userId passwordHash passwordSalt at db =
     audit_deactivation auditId userId at
       (void_recovery ''ACCOUNT_DEACTIVATED'' at userId
         (update_mailboxes (\<lambda>m. mb_owner_user_id m = Some userId)
           (\<lambda>m. m\<lparr>mb_is_active := False, mb_updated_at := at\<rparr>)
           (update_user userId (deactivated_user passwordHash passwordSalt at) db)))"

datatype lifecycle_error =
  Lifecycle_user_not_found | Lifecycle_agents_not_revoked "string list" | Lifecycle_not_reactivated
| Lifecycle_storage

definition store_deactivate ::
  "(nat \<Rightarrow> portal_db \<Rightarrow> portal_db) \<Rightarrow> string \<Rightarrow> string \<Rightarrow> string \<Rightarrow> string \<Rightarrow> instant \<Rightarrow> portal_db \<Rightarrow>
     (lifecycle_error + string list) \<times> portal_db" where
  "store_deactivate others auditUuid userId passwordHash passwordSalt at db =
     (let db0 = others 0 db; mailboxIds = affected_mailboxes userId db0; db1 = others 1 db0;
          auditId = ''audit_'' @ auditUuid
      in if list_ex (\<lambda>a. au_id a = auditId) (pt_audit db1) then (Inl Lifecycle_storage, db1)
         else let db2 = deactivate_batch auditId userId passwordHash passwordSalt at db1
           in if user_known userId db1 then (Inr mailboxIds, db2) else (Inl Lifecycle_user_not_found, db2))"

text \<open>
  After the transaction the agents and devices of every mailbox are cleaned up independently; a failed
  agent makes the call fail, a failed device cleanup is reported. \<open>disconnectAgent\<close> and \<open>purgePush\<close> say
  which of these calls succeed.
\<close>

definition lifecycle_deactivate ::
  "(nat \<Rightarrow> portal_db \<Rightarrow> portal_db) \<Rightarrow> (string \<Rightarrow> bool) \<Rightarrow> (string \<Rightarrow> bool) \<Rightarrow> string \<Rightarrow> string \<Rightarrow> string \<Rightarrow>
     string \<Rightarrow> instant \<Rightarrow> portal_db \<Rightarrow> (lifecycle_error + string list \<times> string list) \<times> portal_db" where
  "lifecycle_deactivate others disconnectAgent purgePush auditUuid userId passwordHash passwordSalt at db =
     (case store_deactivate others auditUuid userId passwordHash passwordSalt at db of
        (Inl e, db') \<Rightarrow> (Inl e, db')
      | (Inr mailboxIds, db') \<Rightarrow>
          let agentFailures = filter (\<lambda>m. \<not> disconnectAgent m) mailboxIds
          in if agentFailures \<noteq> [] then (Inl (Lifecycle_agents_not_revoked agentFailures), db')
             else (Inr (mailboxIds, filter (\<lambda>m. \<not> purgePush m) mailboxIds), db'))"

text \<open>
  Reactivation: both updates are committed before their row counts are looked at, so the second one
  stands even when the call then fails.
\<close>

definition lifecycle_activate :: "instant \<Rightarrow> string \<Rightarrow> portal_db \<Rightarrow> (lifecycle_error + unit) \<times> portal_db" where
  "lifecycle_activate now userId db =
     (let eligible = list_ex (\<lambda>u. us_id u = userId \<and> list_ex (canonical_mailbox u) (pt_mailboxes db)) (pt_users db);
          db1 = (if eligible then update_user userId (\<lambda>u. u\<lparr>us_is_active := True, us_updated_at := now\<rparr>) db else db);
          owned = (\<lambda>m. mb_owner_user_id m = Some userId \<and> mb_type m = Personal_mailbox \<and> mb_id m = mb_address m);
          db2 = update_mailboxes owned (\<lambda>m. m\<lparr>mb_is_active := True, mb_updated_at := now\<rparr>) db1
      in (guard_result (eligible \<and> count_where owned (pt_mailboxes db1) = 1) Lifecycle_not_reactivated, db2))"

end
