(* ===== verification/Agent_Outbox.thy ===== *)
theory Agent_Outbox
  imports Account_Lifecycle "HOL-Library.Product_Lexorder"
begin

text \<open>
  The outbox of agent connection revocations (\<^verbatim>\<open>workers/lib/agent-connection-revocation-outbox.ts\<close>):
  rows the database triggers wrote are claimed in batches under a lease, each is handed to the agent of
  its mailbox (\<^verbatim>\<open>agent-connection-revocation.ts\<close>) and deleted when that call has succeeded.
\<close>

subsection \<open>Limits and targets\<close>

definition revocation_batch_size :: nat where "revocation_batch_size = 25"
definition revocation_max_batches :: nat where "revocation_max_batches = 4"
definition revocation_lease_ms :: int where "revocation_lease_ms = 60000"

definition retryDelayMs :: "int \<Rightarrow> int" where
  "retryDelayMs attemptCount = min (60000 * 2 ^ nat (max 0 (attemptCount - 1))) (60 * 60000)"

record revocation_target =
  rg_mailboxId :: "string option"
  rg_userId :: "string option"
  rg_scope :: "revocation_scope option"

definition targets :: "revocation_target \<Rightarrow> revocation_row \<Rightarrow> bool" where
  "targets t r \<longleftrightarrow>
     (truthy (rg_mailboxId t) \<longrightarrow> map_option js_lower (rg_mailboxId t) = Some (av_mailbox_id r)) \<and>
     (truthy (rg_userId t) \<longrightarrow> rg_userId t = av_user_id r) \<and>
     (rg_scope t \<noteq> None \<longrightarrow> rg_scope t = Some (av_scope r))"

definition lease_free :: "instant \<Rightarrow> revocation_row \<Rightarrow> bool" where
  "lease_free now r \<longleftrightarrow> (case av_lease_token r of None \<Rightarrow> True | Some _ \<Rightarrow>
     (case av_lease_expires_at r of None \<Rightarrow> False | Some e \<Rightarrow> e \<le> now))"

definition revocation_due :: "revocation_target \<Rightarrow> instant \<Rightarrow> revocation_row \<Rightarrow> bool" where
  "revocation_due t now r \<longleftrightarrow> av_next_attempt_at r \<le> now \<and> lease_free now r \<and> targets t r"

subsection \<open>Statements\<close>

definition leased_revocation :: "string \<Rightarrow> instant \<Rightarrow> revocation_row \<Rightarrow> revocation_row" where
  "leased_revocation token now r =
     r\<lparr>av_lease_token := Some token, av_lease_expires_at := Some (now + revocation_lease_ms),
       av_attempt_count := av_attempt_count r + 1, av_updated_at := now\<rparr>"

definition edit_revocations ::
  "(revocation_row \<Rightarrow> bool) \<Rightarrow> (revocation_row \<Rightarrow> revocation_row) \<Rightarrow> portal_db \<Rightarrow> portal_db" where
  "edit_revocations P f db = db\<lparr>pt_revocations := update_where P f (pt_revocations db)\<rparr>"

definition claimBatch ::
  "revocation_target \<Rightarrow> instant \<Rightarrow> string \<Rightarrow> portal_db \<Rightarrow> revocation_row list \<times> portal_db" where
  "claimBatch t now token db =
     (let due = filter (revocation_due t now) (pt_revocations db);
          ids = map av_id (take revocation_batch_size
            (sort_key (\<lambda>r. (av_next_attempt_at r, av_created_at r, av_id r)) due));
          taken = (\<lambda>r. av_id r \<in> set ids \<and> lease_free now r)
      in (map (leased_revocation token now) (filter taken (pt_revocations db)),
          edit_revocations taken (leased_revocation token now) db))"

definition holds_revocation :: "revocation_row \<Rightarrow> string \<Rightarrow> revocation_row \<Rightarrow> bool" where
  "holds_revocation row token r \<longleftrightarrow> av_id r = av_id row \<and> av_lease_token r = Some token"

definition renewLease :: "revocation_row \<Rightarrow> string \<Rightarrow> instant \<Rightarrow> portal_db \<Rightarrow> bool \<times> portal_db" where
  "renewLease row token now db =
     (let mine = (\<lambda>r. holds_revocation row token r \<and>
            (case av_lease_expires_at r of None \<Rightarrow> False | Some e \<Rightarrow> now < e))
      in (count_where mine (pt_revocations db) = 1,
          edit_revocations mine
            (\<lambda>r. r\<lparr>av_lease_expires_at := Some (now + revocation_lease_ms), av_updated_at := now\<rparr>) db))"

definition complete_revocation :: "revocation_row \<Rightarrow> string \<Rightarrow> portal_db \<Rightarrow> bool \<times> portal_db" where
  "complete_revocation row token db =
     (count_where (holds_revocation row token) (pt_revocations db) = 1,
      db\<lparr>pt_revocations := filter (\<lambda>r. \<not> holds_revocation row token r) (pt_revocations db)\<rparr>)"

definition retry_revocation ::
  "revocation_row \<Rightarrow> string \<Rightarrow> instant \<Rightarrow> string \<Rightarrow> portal_db \<Rightarrow> portal_db" where
  "retry_revocation row token now errorCode =
     edit_revocations (holds_revocation row token)
       (\<lambda>r. r\<lparr>av_next_attempt_at := now + retryDelayMs (av_attempt_count row), av_lease_token := None,
          av_lease_expires_at := None, av_last_error_code := Some errorCode, av_updated_at := now\<rparr>)"

definition hasDueWork :: "revocation_target \<Rightarrow> instant \<Rightarrow> portal_db \<Rightarrow> bool" where
  "hasDueWork t now db = list_ex (revocation_due t now) (pt_revocations db)"

definition hasOutstandingWork :: "revocation_target \<Rightarrow> portal_db \<Rightarrow> bool" where
  "hasOutstandingWork t db = list_ex (targets t) (pt_revocations db)"

subsection \<open>Draining\<close>

text \<open>
  The surroundings of one drain, besides the calls to the database: the clock, the lease tokens and the
  agents' answers, each numbered by the database calls made so far.
\<close>

record drain_env = call_env +
  dn_now :: "nat \<Rightarrow> instant"
  dn_token :: "nat \<Rightarrow> string"
  dn_agent :: "nat \<Rightarrow> bool"

record drain_state =
  dn_at :: db_at
  dn_claimed :: nat
  dn_delivered :: nat
  dn_failed :: nat

definition drain_call ::
  "drain_env \<Rightarrow> (portal_db \<Rightarrow> 'a \<times> portal_db) \<Rightarrow> drain_state \<Rightarrow> 'a option \<times> drain_state" where
  "drain_call env stmt s = (case db_call env stmt (dn_at s) of (x, a) \<Rightarrow> (x, s\<lparr>dn_at := a\<rparr>))"

abbreviation dn_calls :: "drain_state \<Rightarrow> nat" where
  "dn_calls s \<equiv> fst (dn_at s)"

text \<open>A failed row is scheduled for a retry; when that statement throws, the whole drain throws (\<open>False\<close>).\<close>

definition reschedule ::
  "drain_env \<Rightarrow> revocation_row \<Rightarrow> string \<Rightarrow> string \<Rightarrow> drain_state \<Rightarrow> bool \<times> drain_state" where
  "reschedule env row token stage s =
     (let s1 = s\<lparr>dn_failed := Suc (dn_failed s)\<rparr> in
      case drain_call env (\<lambda>db. ((), retry_revocation row token (dn_now env (dn_calls s)) stage db)) s1 of
        (None, s2) \<Rightarrow> (False, s2)
      | (Some _, s2) \<Rightarrow> (True, s2))"

definition row_lease_lost :: "drain_state \<Rightarrow> bool \<times> drain_state" where
  "row_lease_lost s = (True, s\<lparr>dn_failed := Suc (dn_failed s)\<rparr>)"

text \<open>\<^verbatim>\<open>reconcile\<close>: a row of one actor without a user is invalid; otherwise the agent's answer decides.\<close>

definition reconcile_row :: "drain_env \<Rightarrow> revocation_row \<Rightarrow> nat \<Rightarrow> bool" where
  "reconcile_row env row n =
     (if av_scope row = Scope_actor \<and> \<not> truthy (av_user_id row) then False else dn_agent env n)"

definition drain_row :: "drain_env \<Rightarrow> string \<Rightarrow> revocation_row \<Rightarrow> drain_state \<Rightarrow> bool \<times> drain_state" where
  "drain_row env token row s =
     (case drain_call env (renewLease row token (dn_now env (dn_calls s))) s of
        (None, s1) \<Rightarrow> reschedule env row token ''agent_rpc_failed'' s1
      | (Some False, s1) \<Rightarrow> row_lease_lost s1
      | (Some True, s1) \<Rightarrow>
          if \<not> reconcile_row env row (dn_calls s1) then reschedule env row token ''agent_rpc_failed'' s1
          else case drain_call env (complete_revocation row token) s1 of
              (None, s2) \<Rightarrow> reschedule env row token ''completion_failed'' s2
            | (Some False, s2) \<Rightarrow> row_lease_lost s2
            | (Some True, s2) \<Rightarrow> (True, s2\<lparr>dn_delivered := Suc (dn_delivered s2)\<rparr>))"

fun drain_rows :: "drain_env \<Rightarrow> string \<Rightarrow> revocation_row list \<Rightarrow> drain_state \<Rightarrow> bool \<times> drain_state" where
  "drain_rows env token [] s = (True, s)"
| "drain_rows env token (row # rows) s =
     (case drain_row env token row s of
        (True, s1) \<Rightarrow> drain_rows env token rows s1
      | (False, s1) \<Rightarrow> (False, s1))"

text \<open>The loop over batches; its first argument counts the batches left.\<close>

fun drain_batches :: "nat \<Rightarrow> drain_env \<Rightarrow> revocation_target \<Rightarrow> drain_state \<Rightarrow> bool \<times> drain_state" where
  "drain_batches 0 env t s = (True, s)"
| "drain_batches (Suc k) env t s =
     (let token = dn_token env (dn_calls s) in
      case drain_call env (claimBatch t (dn_now env (dn_calls s)) token) s of
        (None, s1) \<Rightarrow> (False, s1)
      | (Some rows, s1) \<Rightarrow>
          (case drain_rows env token rows (s1\<lparr>dn_claimed := dn_claimed s1 + length rows\<rparr>) of
             (False, s2) \<Rightarrow> (False, s2)
           | (True, s2) \<Rightarrow>
               if length rows < revocation_batch_size then (True, s2) else drain_batches k env t s2))"

definition drain_start :: "portal_db \<Rightarrow> drain_state" where
  "drain_start db = \<lparr>dn_at = (0, db), dn_claimed = 0, dn_delivered = 0, dn_failed = 0\<rparr>"

text \<open>The result: \<open>None\<close> when a statement outside the rows' own error handling threw.\<close>

definition drainAgentConnectionRevocations ::
  "drain_env \<Rightarrow> revocation_target \<Rightarrow> nat option \<Rightarrow> portal_db \<Rightarrow> bool option \<times> drain_state" where
  "drainAgentConnectionRevocations env t maxBatches db =
     (let batches = max 1 (min (case maxBatches of None \<Rightarrow> revocation_max_batches | Some n \<Rightarrow> n)
            revocation_max_batches) in
      case drain_batches batches env t (drain_start db) of
        (False, s) \<Rightarrow> (None, s)
      | (True, s) \<Rightarrow> drain_call env (\<lambda>db. (hasDueWork t (dn_now env (dn_calls s)) db, db)) s)"

definition requireAgentConnectionReconciliation ::
  "drain_env \<Rightarrow> revocation_target \<Rightarrow> portal_db \<Rightarrow> bool \<times> drain_state" where
  "requireAgentConnectionReconciliation env t db =
     (case drainAgentConnectionRevocations env t None db of
        (None, s) \<Rightarrow> (False, s)
      | (Some hasMore, s) \<Rightarrow>
          (case drain_call env (\<lambda>db. (hasOutstandingWork t db, db)) s of
             (None, s1) \<Rightarrow> (False, s1)
           | (Some outstanding, s1) \<Rightarrow> (dn_failed s1 = 0 \<and> \<not> hasMore \<and> \<not> outstanding, s1)))"

end
