(* ===== verification/Recovery_Tokens.thy ===== *)
theory Recovery_Tokens
  imports Account_Lifecycle
begin

text \<open>
  Credential recovery: issuing and consuming single-use tokens (\<^verbatim>\<open>workers/lib/credential-recovery.ts\<close>,
  \<^verbatim>\<open>credential-recovery-d1.ts\<close>). A batch evaluates the condition of each of its statements on the tables
  the previous statements left. The recovery link appears in the parts the platform's URL parser
  returns, the payload as the ciphertext the encryption returned.
\<close>

definition recovery_ttl_ms :: int where "recovery_ttl_ms = 24 * 60 * 60 * 1000"
definition issue_window_ms :: int where "issue_window_ms = 15 * 60 * 1000"
definition job_max_age_ms :: int where "job_max_age_ms = 24 * 60 * 60 * 1000"

subsection \<open>Conditions\<close>

record recovery_issue =
  is_id :: string
  is_userId :: string
  is_tokenHash :: string
  is_expiresAt :: instant
  is_issuedBy :: "string option"
  is_purpose :: recovery_purpose
  is_createdAt :: instant

record request_lease =
  ql_jobId :: string
  ql_leaseToken :: string

text \<open>A setup token is for an account nobody has claimed, a recovery token for a claimed one.\<close>

definition purpose_fits :: "recovery_purpose \<Rightarrow> user_row \<Rightarrow> bool" where
  "purpose_fits p u \<longleftrightarrow> p = Purpose_setup \<and> us_ownership_confirmed_at u = None \<or>
     p = Purpose_recovery \<and> us_ownership_confirmed_at u \<noteq> None"

definition eligible :: "string \<Rightarrow> recovery_purpose \<Rightarrow> portal_db \<Rightarrow> bool" where
  "eligible userId p db = list_ex (\<lambda>u. us_id u = userId \<and> us_is_active u \<and> purpose_fits p u) (pt_users db)"

definition recent_tokens :: "string \<Rightarrow> instant \<Rightarrow> portal_db \<Rightarrow> nat" where
  "recent_tokens userId since db =
     count_where (\<lambda>t. tk_user_id t = userId \<and> tk_created_at t > since) (pt_tokens db)"

definition rate_ok :: "recovery_issue \<Rightarrow> portal_db \<Rightarrow> bool" where
  "rate_ok r db \<longleftrightarrow> recent_tokens (is_userId r) (is_createdAt r - issue_window_ms) db < 3 \<or>
     list_ex (\<lambda>t. tk_id t = is_id r) (pt_tokens db)"

definition held_job :: "request_lease \<Rightarrow> request_job \<Rightarrow> bool" where
  "held_job q j \<longleftrightarrow> jb_id j = ql_jobId q \<and> jb_state j = Js_leased \<and> jb_lease_token j = Some (ql_leaseToken q)"

definition lease_ok :: "request_lease option \<Rightarrow> instant \<Rightarrow> portal_db \<Rightarrow> bool" where
  "lease_ok lease createdAt db =
     (case lease of
        None \<Rightarrow> True
      | Some q \<Rightarrow> list_ex (\<lambda>j. held_job q j \<and> jb_created_at j > createdAt - job_max_age_ms) (pt_jobs db))"

definition issue_condition :: "recovery_issue \<Rightarrow> request_lease option \<Rightarrow> portal_db \<Rightarrow> bool" where
  "issue_condition r lease db \<longleftrightarrow>
     lease_ok lease (is_createdAt r) db \<and> eligible (is_userId r) (is_purpose r) db \<and> rate_ok r db"

subsection \<open>Issuing\<close>

definition new_token :: "recovery_issue \<Rightarrow> token_row" where
  "new_token r =
     \<lparr>tk_id = is_id r, tk_user_id = is_userId r, tk_token_hash = is_tokenHash r, tk_expires_at = is_expiresAt r,
      tk_consumed_at = None, tk_consumption_nonce = None, tk_purpose = is_purpose r,
      tk_issued_by = is_issuedBy r, tk_created_at = is_createdAt r\<rparr>"

definition issue_audit :: "string \<Rightarrow> recovery_issue \<Rightarrow> audit_row" where
  "issue_audit auditId r =
     \<lparr>au_id = auditId, au_user_id = is_userId r,
      au_event_type = (if is_purpose r = Purpose_setup then Setup_issued else Recovery_issued),
      au_actor_user_id = is_issuedBy r, au_created_at = is_createdAt r\<rparr>"

definition new_recovery_delivery :: "string \<Rightarrow> sealed_payload \<Rightarrow> recovery_issue \<Rightarrow> recovery_delivery" where
  "new_recovery_delivery deliveryId encrypted r =
     \<lparr>rl_id = deliveryId, rl_token_id = is_id r, rl_payload = Some encrypted, rl_state = Rs_pending,
      rl_attempt_count = 0, rl_next_attempt_at = is_createdAt r, rl_lease_token = None,
      rl_lease_expires_at = None, rl_dispatch_started_at = None, rl_provider_message_id = None,
      rl_accepted_attempt_id = None, rl_provider_event = None, rl_last_error_code = None,
      rl_ambiguous_dispatch_count = 0, rl_last_ambiguity_at = None, rl_cancellation_reason = None,
      rl_cancellation_observed_at = None, rl_accepted_at = None, rl_completed_at = None,
      rl_created_at = is_createdAt r, rl_updated_at = is_createdAt r\<rparr>"

text \<open>A statement of the batch runs when the condition holds of the tables it sees.\<close>

definition when_issuing ::
  "recovery_issue \<Rightarrow> request_lease option \<Rightarrow> (portal_db \<Rightarrow> portal_db) \<Rightarrow> portal_db \<Rightarrow> portal_db" where
  "when_issuing r lease stmt db = (if issue_condition r lease db then stmt db else db)"

definition supersede_tokens :: "recovery_issue \<Rightarrow> portal_db \<Rightarrow> portal_db" where
  "supersede_tokens r db = db\<lparr>pt_tokens := consume_tokens (is_createdAt r) (is_userId r) (pt_tokens db)\<rparr>"

definition supersede_waiting :: "recovery_issue \<Rightarrow> portal_db \<Rightarrow> portal_db" where
  "supersede_waiting r db = db\<lparr>pt_deliveries :=
     update_where (\<lambda>d. token_of_user db (is_userId r) d \<and> rl_state d \<in> {Rs_pending, Rs_leased})
       (cancelled_fields ''SUPERSEDED'' (is_createdAt r)) (pt_deliveries db)\<rparr>"

definition supersede_dispatching :: "recovery_issue \<Rightarrow> portal_db \<Rightarrow> portal_db" where
  "supersede_dispatching r db = db\<lparr>pt_deliveries :=
     update_where (\<lambda>d. token_of_user db (is_userId r) d \<and> rl_state d = Rs_dispatching)
       (noted_fields ''SUPERSEDED'' (is_createdAt r)) (pt_deliveries db)\<rparr>"

definition issue_statements ::
  "string \<Rightarrow> string \<Rightarrow> sealed_payload \<Rightarrow> recovery_issue \<Rightarrow> request_lease option \<Rightarrow> portal_db \<Rightarrow> portal_db" where
  "issue_statements auditId deliveryId encrypted r lease db =
     when_issuing r lease (\<lambda>db. db\<lparr>pt_deliveries := pt_deliveries db @ [new_recovery_delivery deliveryId encrypted r]\<rparr>)
      (when_issuing r lease (\<lambda>db. db\<lparr>pt_audit := pt_audit db @ [issue_audit auditId r]\<rparr>)
       (when_issuing r lease (\<lambda>db. db\<lparr>pt_tokens := pt_tokens db @ [new_token r]\<rparr>)
        (when_issuing r lease (supersede_dispatching r)
         (when_issuing r lease (supersede_waiting r)
          (when_issuing r lease (supersede_tokens r) db)))))"

text \<open>
  How a leased request ends: completed when the token was issued, suppressed when the account is not
  eligible, expired when the request is too old, and back to waiting when the account has had too many.
\<close>

definition end_job ::
  "job_state \<Rightarrow> string option \<Rightarrow> instant \<Rightarrow> request_job \<Rightarrow> request_job" where
  "end_job state errorCode at j =
     j\<lparr>jb_state := state, jb_lease_token := None, jb_lease_expires_at := None, jb_payload := None,
       jb_completed_at := Some at, jb_updated_at := at, jb_last_error_code := errorCode\<rparr>"

definition edit_jobs :: "(request_job \<Rightarrow> bool) \<Rightarrow> (request_job \<Rightarrow> request_job) \<Rightarrow> portal_db \<Rightarrow> nat \<times> portal_db" where
  "edit_jobs P f db = (count_where P (pt_jobs db), db\<lparr>pt_jobs := update_where P f (pt_jobs db)\<rparr>)"

definition next_issue_at :: "recovery_issue \<Rightarrow> portal_db \<Rightarrow> instant" where
  "next_issue_at r db =
     (case map tk_created_at (filter (\<lambda>t. tk_user_id t = is_userId r \<and>
             tk_created_at t > is_createdAt r - issue_window_ms) (pt_tokens db)) of
        [] \<Rightarrow> is_createdAt r + issue_window_ms
      | t # ts \<Rightarrow> fold min ts t + issue_window_ms)"

definition complete_request :: "recovery_issue \<Rightarrow> request_lease \<Rightarrow> portal_db \<Rightarrow> nat \<times> portal_db" where
  "complete_request r q db = edit_jobs (\<lambda>j. held_job q j \<and> issue_condition r (Some q) db)
     (end_job Js_completed None (is_createdAt r)) db"

definition suppress_request :: "recovery_issue \<Rightarrow> request_lease \<Rightarrow> portal_db \<Rightarrow> nat \<times> portal_db" where
  "suppress_request r q db = edit_jobs (\<lambda>j. held_job q j \<and> \<not> eligible (is_userId r) (is_purpose r) db)
     (end_job Js_suppressed None (is_createdAt r)) db"

definition expire_request :: "recovery_issue \<Rightarrow> request_lease \<Rightarrow> portal_db \<Rightarrow> nat \<times> portal_db" where
  "expire_request r q = edit_jobs (\<lambda>j. held_job q j \<and> jb_created_at j \<le> is_createdAt r - job_max_age_ms)
     (end_job Js_expired (Some ''REQUEST_LIFETIME_EXPIRED'') (is_createdAt r))"

definition delay_request :: "recovery_issue \<Rightarrow> request_lease \<Rightarrow> portal_db \<Rightarrow> nat \<times> portal_db" where
  "delay_request r q db = edit_jobs
     (\<lambda>j. held_job q j \<and> eligible (is_userId r) (is_purpose r) db \<and>
        recent_tokens (is_userId r) (is_createdAt r - issue_window_ms) db \<ge> 3 \<and>
        \<not> list_ex (\<lambda>t. tk_id t = is_id r) (pt_tokens db))
     (\<lambda>j. j\<lparr>jb_state := Js_pending, jb_lease_token := None, jb_lease_expires_at := None,
        jb_next_attempt_at := next_issue_at r db, jb_updated_at := is_createdAt r,
        jb_last_error_code := Some ''ISSUE_RATE_LIMITED''\<rparr>) db"

text \<open>What makes the batch throw: a taken key or a reference to an unknown user.\<close>

definition issue_violates :: "string \<Rightarrow> string \<Rightarrow> recovery_issue \<Rightarrow> portal_db \<Rightarrow> bool" where
  "issue_violates auditId deliveryId r db \<longleftrightarrow>
     list_ex (\<lambda>t. tk_id t = is_id r \<or> tk_token_hash t = is_tokenHash r) (pt_tokens db) \<or>
     list_ex (\<lambda>a. au_id a = auditId) (pt_audit db) \<or>
     list_ex (\<lambda>d. rl_id d = deliveryId \<or> rl_token_id d = is_id r) (pt_deliveries db) \<or>
     (case is_issuedBy r of None \<Rightarrow> False | Some i \<Rightarrow> \<not> user_known i db)"

datatype issuance = Issued | Issue_suppressed | Issue_rate_limited | Issue_expired | Issue_lost

datatype issue_error = Issue_target_invalid | Issue_constraint | Issue_request_unsettled

record recovery_url =
  ru_origin :: string
  ru_pathname :: string
  ru_token :: "string option"
  ru_username :: string
  ru_password :: string
  ru_hash :: string

definition valid_target :: "string \<Rightarrow> recovery_url \<Rightarrow> bool" where
  "valid_target mailOrigin url \<longleftrightarrow> ru_origin url = mailOrigin \<and> ru_pathname url = ''/account/recover'' \<and>
     truthy (ru_token url) \<and> ru_username url = [] \<and> ru_password url = [] \<and> ru_hash url = []"

text \<open>\<open>later\<close> is the database the last query sees, when there is no lease to tell the reason.\<close>

definition issue_token ::
  "string \<Rightarrow> recovery_url \<Rightarrow> instant \<Rightarrow> string \<Rightarrow> string \<Rightarrow> sealed_payload \<Rightarrow> recovery_issue \<Rightarrow>
     request_lease option \<Rightarrow> (portal_db \<Rightarrow> portal_db) \<Rightarrow> portal_db \<Rightarrow> (issue_error + issuance) \<times> portal_db" where
  "issue_token mailOrigin url expiresAt auditUuid deliveryUuid encrypted r lease later db =
     (if \<not> valid_target mailOrigin url \<or> expiresAt \<noteq> is_expiresAt r then (Inl Issue_target_invalid, db)
      else
        let auditId = ''audit_'' @ auditUuid; deliveryId = ''recovery_delivery_'' @ deliveryUuid;
            issued = issue_condition r lease db;
            db1 = issue_statements auditId deliveryId encrypted r lease db
        in if issued \<and> issue_violates auditId deliveryId r db then (Inl Issue_constraint, db)
           else case lease of
             None \<Rightarrow>
               if issued then (Inr Issued, db1)
               else let db2 = later db1
                 in (Inr (case get_user (is_userId r) db2 of
                        None \<Rightarrow> Issue_suppressed
                      | Some u \<Rightarrow>
                          if \<not> us_is_active u \<or>
                             (is_purpose r = Purpose_setup) \<noteq> (us_ownership_confirmed_at u = None)
                          then Issue_suppressed else Issue_rate_limited), db2)
           | Some q \<Rightarrow>
               let (completed, db2) = complete_request r q db1;
                   (suppressed, db3) = suppress_request r q db2;
                   (expired, db4) = expire_request r q db3;
                   (delayed, db5) = delay_request r q db4
               in (if issued then (if completed = 1 then Inr Issued else Inl Issue_request_unsettled)
                   else if suppressed = 1 then Inr Issue_suppressed
                   else if expired = 1 then Inr Issue_expired
                   else if delayed = 1 then Inr Issue_rate_limited
                   else Inr Issue_lost, db5))"

text \<open>The workflow builds the link from a fresh token and lets it live for a day.\<close>

record issue_input =
  ii_userId :: string
  ii_issuedBy :: "string option"
  ii_origin :: string
  ii_purpose :: recovery_purpose
  ii_requestLease :: "request_lease option"

definition workflow_issue ::
  "string \<Rightarrow> string \<Rightarrow> string \<Rightarrow> (string \<Rightarrow> string) \<Rightarrow> instant \<Rightarrow> string \<Rightarrow> string \<Rightarrow> sealed_payload \<Rightarrow> issue_input \<Rightarrow>
     (portal_db \<Rightarrow> portal_db) \<Rightarrow> portal_db \<Rightarrow> (issue_error + issuance) \<times> portal_db" where
  "workflow_issue mailOrigin token tokenUuid hashToken createdAt auditUuid deliveryUuid encrypted i later db =
     (let expiresAt = createdAt + recovery_ttl_ms;
          url = \<lparr>ru_origin = ii_origin i, ru_pathname = ''/account/recover'', ru_token = Some token,
            ru_username = [], ru_password = [], ru_hash = []\<rparr>;
          r = \<lparr>is_id = ''recovery_'' @ tokenUuid, is_userId = ii_userId i, is_tokenHash = hashToken token,
            is_expiresAt = expiresAt, is_issuedBy = ii_issuedBy i, is_purpose = ii_purpose i,
            is_createdAt = createdAt\<rparr>
      in issue_token mailOrigin url expiresAt auditUuid deliveryUuid encrypted r (ii_requestLease i) later db)"

subsection \<open>Consuming\<close>

record consume_input =
  cs_tokenHash :: string
  cs_now :: instant
  cs_passwordHash :: string
  cs_passwordSalt :: string
  cs_mcpTokenHash :: "string option"

datatype consume_outcome = Claimed | Recovered

definition usable_token :: "consume_input \<Rightarrow> portal_db \<Rightarrow> token_row \<Rightarrow> bool" where
  "usable_token i db t \<longleftrightarrow> tk_token_hash t = cs_tokenHash i \<and> tk_consumed_at t = None \<and>
     cs_now i < tk_expires_at t \<and> user_known (tk_user_id t) db"

definition spend_token :: "consume_input \<Rightarrow> string \<Rightarrow> string \<Rightarrow> portal_db \<Rightarrow> nat \<times> portal_db" where
  "spend_token i tokenId nonce db =
     (let mine = (\<lambda>t. tk_id t = tokenId \<and> tk_consumed_at t = None \<and> cs_now i < tk_expires_at t \<and>
            eligible (tk_user_id t) (tk_purpose t) db)
      in (count_where mine (pt_tokens db),
          db\<lparr>pt_tokens := update_where mine
            (\<lambda>t. t\<lparr>tk_consumed_at := Some (cs_now i), tk_consumption_nonce := Some nonce\<rparr>) (pt_tokens db)\<rparr>))"

definition spent_with :: "string \<Rightarrow> string \<Rightarrow> portal_db \<Rightarrow> bool" where
  "spent_with tokenId nonce db =
     list_ex (\<lambda>t. tk_id t = tokenId \<and> tk_consumption_nonce t = Some nonce) (pt_tokens db)"

definition recovered_user :: "consume_input \<Rightarrow> user_row \<Rightarrow> user_row" where
  "recovered_user i u =
     u\<lparr>us_password_hash := cs_passwordHash i, us_password_salt := cs_passwordSalt i,
       us_mcp_token_hash := cs_mcpTokenHash i, us_session_version := us_session_version u + 1,
       us_ownership_confirmed_at := coalesce (us_ownership_confirmed_at u) (cs_now i), us_updated_at := cs_now i\<rparr>"

definition consume_batch ::
  "consume_input \<Rightarrow> string \<Rightarrow> string \<Rightarrow> token_row \<Rightarrow> portal_db \<Rightarrow> bool \<times> portal_db" where
  "consume_batch i nonce auditId t db =
     (let (spent, db1) = spend_token i (tk_id t) nonce db;
          holds = spent_with (tk_id t) nonce db1;
          active = list_ex (\<lambda>u. us_id u = tk_user_id t \<and> us_is_active u) (pt_users db1);
          db2 = (if holds \<and> active then update_user (tk_user_id t) (recovered_user i) db1 else db1);
          db3 = (if holds then db2\<lparr>pt_audit := pt_audit db2 @ [\<lparr>au_id = auditId, au_user_id = tk_user_id t,
              au_event_type = (if tk_purpose t = Purpose_setup then Ownership_confirmed else Credentials_recovered),
              au_actor_user_id = None, au_created_at = cs_now i\<rparr>]\<rparr> else db2);
          db4 = (if holds then db3\<lparr>pt_deliveries := cancel_deliveries ''TOKEN_CONSUMED'' (cs_now i)
              (\<lambda>d. rl_token_id d = tk_id t) (pt_deliveries db3)\<rparr> else db3)
      in (spent = 1 \<and> holds \<and> active, db4))"

text \<open>
  \<open>db\<close> is what the first query sees, \<open>later\<close> what happens before the batch. The result is the user and
  how the token was used, nothing when the token is not usable, or a thrown constraint violation.
\<close>

definition consume_token ::
  "string \<Rightarrow> string \<Rightarrow> (portal_db \<Rightarrow> portal_db) \<Rightarrow> consume_input \<Rightarrow> portal_db \<Rightarrow>
     (string \<times> string \<times> consume_outcome) option option \<times> portal_db" where
  "consume_token nonce auditUuid later i db =
     (case find (usable_token i db) (pt_tokens db) of
        None \<Rightarrow> (Some None, db)
      | Some t \<Rightarrow>
          let email = (case get_user (tk_user_id t) db of None \<Rightarrow> [] | Some u \<Rightarrow> us_email u);
              db1 = later db; auditId = ''audit_'' @ auditUuid;
              (ok, db2) = consume_batch i nonce auditId t db1
          in if list_ex (\<lambda>a. au_id a = auditId) (pt_audit db1) \<and> spent_with (tk_id t) nonce (snd (spend_token i (tk_id t) nonce db1))
             then (None, db1)
             else (Some (if ok then Some (tk_user_id t, email,
                 if tk_purpose t = Purpose_setup then Claimed else Recovered) else None), db2))"

end
