(* ===== verification/Recovery_Requests.thy ===== *)
theory Recovery_Requests
  imports Recovery_Tokens Push_Payload "HOL-Library.Product_Lexorder"
begin

text \<open>
  Requests for account recovery: intake and the job queue (\<^verbatim>\<open>credential-recovery-request-jobs.ts\<close>), the
  operator's directory of external addresses (\<^verbatim>\<open>recovery-directory.ts\<close>) and the worker that turns jobs
  into tokens (\<^verbatim>\<open>recovery-request-runtime.ts\<close>). The keyed hashes of account and address and the
  encryption are arguments.
\<close>

definition request_batch_size :: nat where "request_batch_size = 8"
definition request_lease_ms :: int where "request_lease_ms = 60000"
definition request_max_attempts :: int where "request_max_attempts = 12"
definition request_expiry_batch :: nat where "request_expiry_batch = 100"
definition account_max_requests :: int where "account_max_requests = 3"
definition ip_max_requests :: int where "ip_max_requests = 10"
definition max_email_bytes :: nat where "max_email_bytes = 254"
definition request_window_ms :: int where "request_window_ms = 15 * 60 * 1000"

subsection \<open>Intake\<close>

definition counted_limit :: "instant \<Rightarrow> request_limit \<Rightarrow> request_limit" where
  "counted_limit now l =
     (let old = lm_window_started_at l \<le> now - request_window_ms
      in l\<lparr>lm_request_count := (if old then 1 else lm_request_count l + 1),
           lm_window_started_at := (if old then now else lm_window_started_at l),
           lm_updated_at := now\<rparr>)"

definition upsert_limit :: "instant \<Rightarrow> string \<Rightarrow> request_limit list \<Rightarrow> request_limit list" where
  "upsert_limit now key ls =
     (if list_ex (\<lambda>l. lm_throttle_key l = key) ls
      then update_where (\<lambda>l. lm_throttle_key l = key) (counted_limit now) ls
      else ls @ [\<lparr>lm_throttle_key = key, lm_request_count = 1, lm_window_started_at = now, lm_updated_at = now\<rparr>])"

definition limit_count :: "string \<Rightarrow> int \<Rightarrow> request_limit list \<Rightarrow> int" where
  "limit_count key absent ls =
     (case find (\<lambda>l. lm_throttle_key l = key) ls of None \<Rightarrow> absent | Some l \<Rightarrow> lm_request_count l)"

definition new_job :: "string \<Rightarrow> string \<Rightarrow> sealed_payload \<Rightarrow> instant \<Rightarrow> request_job" where
  "new_job i accountRef encrypted now =
     \<lparr>jb_id = i, jb_account_ref = accountRef, jb_payload = Some encrypted, jb_state = Js_pending,
      jb_attempt_count = 0, jb_next_attempt_at = now, jb_lease_token = None, jb_lease_expires_at = None,
      jb_last_error_code = None, jb_completed_at = None, jb_created_at = now, jb_updated_at = now\<rparr>"

text \<open>
  \<open>accountRef\<close> and \<open>ipRef\<close> are the keyed hashes of the address and of the client's network address. The
  answer is the job's id, or nothing when the request is suppressed; \<open>None\<close> is a thrown key violation.
\<close>

definition enqueueCredentialRecoveryRequest ::
  "string \<Rightarrow> (string \<Rightarrow> string) \<Rightarrow> string \<Rightarrow> sealed_payload \<Rightarrow> string \<Rightarrow> instant \<Rightarrow> portal_db \<Rightarrow>
     string option option \<times> portal_db" where
  "enqueueCredentialRecoveryRequest uuid accountRefOf ipRef encrypted email now db =
     (case normalizeMailAddress email of
        None \<Rightarrow> (Some None, db)
      | Some address \<Rightarrow>
          if utf8_length address > max_email_bytes then (Some None, db)
          else
            let i = ''recovery_request_'' @ uuid; accountRef = accountRefOf address;
                limits = upsert_limit now ipRef (upsert_limit now accountRef
                  (filter (\<lambda>l. \<not> lm_updated_at l < now - 24 * 60 * 60 * 1000) (pt_limits db)));
                admitted = limit_count accountRef (account_max_requests + 1) limits \<le> account_max_requests \<and>
                  limit_count ipRef (ip_max_requests + 1) limits \<le> ip_max_requests;
                db1 = db\<lparr>pt_limits := limits\<rparr>
            in if \<not> admitted then (Some None, db1)
               else if list_ex (\<lambda>j. jb_id j = i) (pt_jobs db) then (None, db)
               else (Some (Some i), db1\<lparr>pt_jobs := pt_jobs db @ [new_job i accountRef encrypted now]\<rparr>))"

subsection \<open>The queue\<close>

definition job_waiting :: "instant \<Rightarrow> request_job \<Rightarrow> bool" where
  "job_waiting now j \<longleftrightarrow> jb_state j = Js_pending \<and> jb_next_attempt_at j \<le> now \<or>
     jb_state j = Js_leased \<and> (case jb_lease_expires_at j of None \<Rightarrow> False | Some e \<Rightarrow> e \<le> now)"

definition job_due :: "instant \<Rightarrow> request_job \<Rightarrow> bool" where
  "job_due now j \<longleftrightarrow> jb_created_at j > now - job_max_age_ms \<and> job_waiting now j"

definition due_jobs :: "instant \<Rightarrow> portal_db \<Rightarrow> string list" where
  "due_jobs now db = map jb_id (take request_batch_size
     (sort_key (\<lambda>j. (jb_next_attempt_at j, jb_created_at j, jb_id j)) (filter (job_due now) (pt_jobs db))))"

definition claim_job :: "instant \<Rightarrow> string \<Rightarrow> string \<Rightarrow> portal_db \<Rightarrow> bool \<times> portal_db" where
  "claim_job now token i db =
     (let P = (\<lambda>j. jb_id j = i \<and> job_due now j)
      in (count_where P (pt_jobs db) = 1,
          db\<lparr>pt_jobs := update_where P (\<lambda>j. j\<lparr>jb_state := Js_leased, jb_lease_token := Some token,
            jb_lease_expires_at := Some (now + request_lease_ms), jb_updated_at := now\<rparr>) (pt_jobs db)\<rparr>))"

record leased_request =
  lq_id :: string
  lq_leaseToken :: string
  lq_attemptCount :: int
  lq_createdAt :: instant
  lq_encrypted :: "sealed_payload option"

definition lease_of :: "leased_request \<Rightarrow> request_lease" where
  "lease_of l = \<lparr>ql_jobId = lq_id l, ql_leaseToken = lq_leaseToken l\<rparr>"

definition leased_job :: "string \<Rightarrow> string \<Rightarrow> portal_db \<Rightarrow> leased_request option" where
  "leased_job i token db =
     map_option (\<lambda>j. \<lparr>lq_id = jb_id j, lq_leaseToken = token, lq_attemptCount = jb_attempt_count j,
         lq_createdAt = jb_created_at j, lq_encrypted = jb_payload j\<rparr>)
       (find (held_job \<lparr>ql_jobId = i, ql_leaseToken = token\<rparr>) (pt_jobs db))"

text \<open>Leasing: the candidates are claimed one by one, each with a token of its own.\<close>

fun lease_each ::
  "'x call_env_scheme \<Rightarrow> (nat \<Rightarrow> string) \<Rightarrow> instant \<Rightarrow> string list \<Rightarrow> db_at \<Rightarrow> leased_request list option \<times> db_at" where
  "lease_each env tokens now [] s = (Some [], s)"
| "lease_each env tokens now (i # is) s =
     (let token = tokens (fst s) in
      and_then (db_call env (claim_job now token i) s) (\<lambda>claimed s1.
        if \<not> claimed then lease_each env tokens now is s1
        else and_then (db_call env (\<lambda>db. (leased_job i token db, db)) s1) (\<lambda>job s2.
          and_then (lease_each env tokens now is s2) (\<lambda>jobs s3.
            (Some ((case job of None \<Rightarrow> [] | Some j \<Rightarrow> [j]) @ jobs), s3)))))"

definition leaseCredentialRecoveryRequestJobs ::
  "'x call_env_scheme \<Rightarrow> (nat \<Rightarrow> string) \<Rightarrow> instant \<Rightarrow> db_at \<Rightarrow> leased_request list option \<times> db_at" where
  "leaseCredentialRecoveryRequestJobs env tokens now s =
     and_then (db_call env (\<lambda>db. (due_jobs now db, db)) s) (lease_each env tokens now)"

datatype request_end = End_suppressed | End_expired | End_parked

definition completeCredentialRecoveryRequest ::
  "request_lease \<Rightarrow> request_end \<Rightarrow> string option \<Rightarrow> instant \<Rightarrow> portal_db \<Rightarrow> bool \<times> portal_db" where
  "completeCredentialRecoveryRequest q e errorCode now db =
     (case edit_jobs (held_job q)
          (\<lambda>j. (end_job (case e of End_suppressed \<Rightarrow> Js_suppressed | End_expired \<Rightarrow> Js_expired | End_parked \<Rightarrow> Js_parked)
              errorCode now j)\<lparr>jb_payload := (if e = End_parked then jb_payload j else None)\<rparr>) db of
        (n, db') \<Rightarrow> (n = 1, db'))"

datatype retry_outcome = Retry_retried | Retry_expired | Retry_parked | Retry_lost

definition retryCredentialRecoveryRequest ::
  "leased_request \<Rightarrow> string \<Rightarrow> instant \<Rightarrow> portal_db \<Rightarrow> retry_outcome \<times> portal_db" where
  "retryCredentialRecoveryRequest l errorCode now db =
     (let attemptCount = lq_attemptCount l + 1;
          expired = lq_createdAt l \<le> now - job_max_age_ms;
          exhausted = request_max_attempts \<le> attemptCount;
          delay = min (60 * 60000) (30000 * 2 ^ nat (min (attemptCount - 1) 7));
          f = (\<lambda>j. j\<lparr>jb_state := (if expired then Js_expired else if exhausted then Js_parked else Js_pending),
             jb_attempt_count := attemptCount,
             jb_next_attempt_at := (if expired \<or> exhausted then now else now + delay),
             jb_lease_token := None, jb_lease_expires_at := None, jb_updated_at := now,
             jb_completed_at := (if expired \<or> exhausted then Some now else None),
             jb_payload := (if expired then None else jb_payload j),
             jb_last_error_code := Some (if expired then ''REQUEST_LIFETIME_EXPIRED''
               else if exhausted then take 64 (errorCode @ ''_EXHAUSTED'') else errorCode)\<rparr>)
      in case edit_jobs (held_job (lease_of l)) f db of
           (n, db') \<Rightarrow> (if n \<noteq> 1 then Retry_lost else if expired then Retry_expired
             else if exhausted then Retry_parked else Retry_retried, db'))"

definition job_overdue :: "instant \<Rightarrow> request_job \<Rightarrow> bool" where
  "job_overdue now j \<longleftrightarrow> jb_created_at j \<le> now - job_max_age_ms \<and>
     (jb_state j = Js_pending \<or>
      jb_state j = Js_leased \<and> (case jb_lease_expires_at j of None \<Rightarrow> False | Some e \<Rightarrow> e \<le> now))"

definition expireCredentialRecoveryRequestJobs :: "instant \<Rightarrow> portal_db \<Rightarrow> nat \<times> portal_db" where
  "expireCredentialRecoveryRequestJobs now db =
     (let ids = map jb_id (take request_expiry_batch
            (sort_key (\<lambda>j. (jb_created_at j, jb_id j)) (filter (job_overdue now) (pt_jobs db))))
      in edit_jobs (\<lambda>j. jb_id j \<in> set ids)
           (end_job Js_expired (Some ''REQUEST_LIFETIME_EXPIRED'') now) db)"

subsection \<open>The directory of external addresses\<close>

datatype directory_error = Directory_unmapped | Directory_invalid_config

definition bounded_address :: "string \<Rightarrow> bool" where
  "bounded_address s \<longleftrightarrow> utf8_length s \<le> 254"

text \<open>One entry: its normalised portal address and external address, if both are acceptable.\<close>

definition directory_entry :: "string option \<Rightarrow> string \<times> json \<Rightarrow> (string \<times> string) option" where
  "directory_entry domains e =
     (case e of (portal, external) \<Rightarrow>
        let key = (if portal = ''*'' then Some portal else normalizeMailAddress portal);
            addr = (case external of JStr s \<Rightarrow> normalizeMailAddress s | _ \<Rightarrow> None)
        in case (key, addr) of
             (Some k, Some a) \<Rightarrow>
               if k = [] \<or> a = [] \<or> \<not> bounded_address k \<or> \<not> bounded_address a \<or>
                  isAddressInConfiguredMailDomains a domains
               then None else Some (k, a)
           | _ \<Rightarrow> None)"

fun directory_map :: "string option \<Rightarrow> (string \<times> json) list \<Rightarrow> (string \<Rightarrow> string option) \<Rightarrow>
    (string \<Rightarrow> string option) option" where
  "directory_map domains [] m = Some m"
| "directory_map domains (e # es) m =
     (case directory_entry domains e of
        None \<Rightarrow> None
      | Some (k, a) \<Rightarrow> if m k \<noteq> None then None else directory_map domains es (m(k := Some a)))"

text \<open>\<open>rawDirectory\<close> is the secret with its size in bytes and what \<^verbatim>\<open>JSON.parse\<close> makes of it.\<close>

definition recoveryAddressFor ::
  "(nat \<times> raw_text) option \<Rightarrow> string \<Rightarrow> string option \<Rightarrow> directory_error + string" where
  "recoveryAddressFor rawDirectory portalEmail domains =
     (case normalizeMailAddress portalEmail of
        None \<Rightarrow> Inl Directory_unmapped
      | Some portal \<Rightarrow>
          if portal = [] \<or> \<not> bounded_address portal then Inl Directory_unmapped
          else case rawDirectory of
              None \<Rightarrow> Inl Directory_invalid_config
            | Some (bytes, raw) \<Rightarrow>
                if bytes = 0 \<or> bytes > 64 * 1024 then Inl Directory_invalid_config
                else case raw of
                    Json_text (JObj entries) \<Rightarrow>
                      if length entries > 1024 then Inl Directory_invalid_config
                      else (case directory_map domains entries (\<lambda>k. None) of
                          None \<Rightarrow> Inl Directory_invalid_config
                        | Some m \<Rightarrow>
                            (case m portal of
                               Some a \<Rightarrow> Inr a
                             | None \<Rightarrow> (case m ''*'' of Some a \<Rightarrow> Inr a | None \<Rightarrow> Inl Directory_unmapped)))
                  | _ \<Rightarrow> Inl Directory_invalid_config)"

subsection \<open>The worker\<close>

text \<open>A decrypted payload, or why there is none; a payload of another shape counts as corrupt.\<close>

datatype 'a opened = Opened 'a | Key_unavailable | Payload_corrupt

definition request_email :: "json opened \<Rightarrow> string opened" where
  "request_email p =
     (case p of
        Opened (JObj [(k, JStr email)]) \<Rightarrow>
          if k = ''email'' \<and> normalizeMailAddress email = Some email \<and> utf8_length email \<le> max_email_bytes
          then Opened email else Payload_corrupt
      | Opened _ \<Rightarrow> Payload_corrupt
      | Key_unavailable \<Rightarrow> Key_unavailable
      | Payload_corrupt \<Rightarrow> Payload_corrupt)"

text \<open>
  The surroundings of one drain: random values and new secrets numbered by the database calls made so
  far, decryption of a payload for a job, encryption of a new one (\<open>None\<close> when it throws), and the
  configuration.
\<close>

record request_env = call_env +
  rq_lease :: "nat \<Rightarrow> string"
  rq_uuid :: "nat \<Rightarrow> string"
  rq_secret :: "nat \<Rightarrow> string"
  rq_open :: "string \<Rightarrow> sealed_payload option \<Rightarrow> json opened"
  rq_seal :: "nat \<Rightarrow> sealed_payload option"
  rq_hashToken :: "string \<Rightarrow> string"
  rq_directory :: "(nat \<times> raw_text) option"
  rq_domains :: "string option"
  rq_mailOrigin :: string

record request_counts =
  ct_issued :: nat
  ct_retry :: nat
  ct_expired :: nat
  ct_parked :: nat
  ct_failed :: nat

definition count_retry :: "retry_outcome option \<Rightarrow> request_counts \<Rightarrow> request_counts" where
  "count_retry r c =
     (case r of
        None \<Rightarrow> c\<lparr>ct_failed := Suc (ct_failed c)\<rparr>
      | Some Retry_retried \<Rightarrow> c\<lparr>ct_retry := Suc (ct_retry c)\<rparr>
      | Some Retry_expired \<Rightarrow> c\<lparr>ct_expired := Suc (ct_expired c)\<rparr>
      | Some Retry_parked \<Rightarrow> c\<lparr>ct_parked := Suc (ct_parked c), ct_failed := Suc (ct_failed c)\<rparr>
      | Some Retry_lost \<Rightarrow> c\<lparr>ct_failed := Suc (ct_failed c)\<rparr>)"

definition retry_job ::
  "request_env \<Rightarrow> instant \<Rightarrow> leased_request \<Rightarrow> string \<Rightarrow> request_counts \<times> db_at \<Rightarrow> request_counts \<times> db_at" where
  "retry_job env now l errorCode cs =
     (case db_call env (retryCredentialRecoveryRequest l errorCode now) (snd cs) of
        (r, s) \<Rightarrow> (count_retry r (fst cs), s))"

definition park_job ::
  "request_env \<Rightarrow> instant \<Rightarrow> leased_request \<Rightarrow> request_counts \<times> db_at \<Rightarrow> request_counts \<times> db_at" where
  "park_job env now l cs =
     (case db_call env (completeCredentialRecoveryRequest (lease_of l) End_parked
          (Some ''PAYLOAD_DECRYPT_OR_VALIDATION_FAILED'') now) (snd cs) of
        (r, s) \<Rightarrow>
          let c = fst cs; c1 = (if r = Some True then c\<lparr>ct_parked := Suc (ct_parked c)\<rparr> else c)
          in (c1\<lparr>ct_failed := Suc (ct_failed c1)\<rparr>, s))"

text \<open>
  Issuing under a lease is a single batch; a failed encryption or a thrown batch leaves the job to the
  retry of the caller (\<open>None\<close>). The link is built for the brand's own origin.
\<close>

definition issue_for_job ::
  "request_env \<Rightarrow> instant \<Rightarrow> leased_request \<Rightarrow> user_row \<Rightarrow> db_at \<Rightarrow> issuance option \<times> db_at" where
  "issue_for_job env now l u s =
     (let n = fst s in
      case rq_seal env n of
        None \<Rightarrow> (None, s)
      | Some encrypted \<Rightarrow>
          and_then (db_call env (workflow_issue (rq_mailOrigin env) (rq_secret env n) (rq_uuid env (3 * n))
              (rq_hashToken env) now (rq_uuid env (3 * n + 1)) (rq_uuid env (3 * n + 2)) encrypted
              \<lparr>ii_userId = us_id u, ii_issuedBy = None, ii_origin = rq_mailOrigin env,
               ii_purpose = Purpose_recovery, ii_requestLease = Some (lease_of l)\<rparr> (\<lambda>db. db)) s)
            (\<lambda>r s1. (case r of Inl e \<Rightarrow> None | Inr i \<Rightarrow> Some i, s1)))"

definition count_issuance :: "issuance \<Rightarrow> request_counts \<Rightarrow> request_counts" where
  "count_issuance i c =
     (case i of
        Issued \<Rightarrow> c\<lparr>ct_issued := Suc (ct_issued c)\<rparr>
      | Issue_expired \<Rightarrow> c\<lparr>ct_expired := Suc (ct_expired c)\<rparr>
      | Issue_lost \<Rightarrow> c\<lparr>ct_failed := Suc (ct_failed c)\<rparr>
      | _ \<Rightarrow> c)"

definition suppress_job ::
  "request_env \<Rightarrow> instant \<Rightarrow> leased_request \<Rightarrow> request_counts \<times> db_at \<Rightarrow> request_counts \<times> db_at" where
  "suppress_job env now l cs =
     (case db_call env (completeCredentialRecoveryRequest (lease_of l) End_suppressed None now) (snd cs) of
        (None, s) \<Rightarrow> retry_job env now l ''REQUEST_PROCESSING_FAILED'' (fst cs, s)
      | (Some True, s) \<Rightarrow> (fst cs, s)
      | (Some False, s) \<Rightarrow> ((fst cs)\<lparr>ct_failed := Suc (ct_failed (fst cs))\<rparr>, s))"

definition process_request ::
  "request_env \<Rightarrow> instant \<Rightarrow> leased_request \<Rightarrow> request_counts \<times> db_at \<Rightarrow> request_counts \<times> db_at" where
  "process_request env now l cs =
     (case request_email (rq_open env (lq_id l) (lq_encrypted l)) of
        Key_unavailable \<Rightarrow> retry_job env now l ''PAYLOAD_KEY_UNAVAILABLE'' cs
      | Payload_corrupt \<Rightarrow> park_job env now l cs
      | Opened email \<Rightarrow>
          (case db_call env (\<lambda>db. (find (\<lambda>u. us_email u = email) (pt_users db), db)) (snd cs) of
             (None, s) \<Rightarrow> retry_job env now l ''REQUEST_PROCESSING_FAILED'' (fst cs, s)
           | (Some user, s) \<Rightarrow>
               (case user of
                  Some u \<Rightarrow>
                    if us_ownership_confirmed_at u \<noteq> None \<and> us_is_active u
                    then (case recoveryAddressFor (rq_directory env) (us_email u) (rq_domains env) of
                        Inl Directory_unmapped \<Rightarrow> retry_job env now l ''RECOVERY_DIRECTORY_UNMAPPED'' (fst cs, s)
                      | Inl Directory_invalid_config \<Rightarrow>
                          retry_job env now l ''RECOVERY_DIRECTORY_INVALID_CONFIG'' (fst cs, s)
                      | Inr address \<Rightarrow>
                          (case issue_for_job env now l u s of
                             (None, s1) \<Rightarrow> retry_job env now l ''REQUEST_PROCESSING_FAILED'' (fst cs, s1)
                           | (Some i, s1) \<Rightarrow> (count_issuance i (fst cs), s1)))
                    else suppress_job env now l (fst cs, s)
                | None \<Rightarrow> suppress_job env now l (fst cs, s))))"

text \<open>The drain: overdue jobs are expired, then due ones are leased and processed in turn.\<close>

definition drainCredentialRecoveryRequests ::
  "request_env \<Rightarrow> instant \<Rightarrow> portal_db \<Rightarrow> (request_counts \<times> bool) option \<times> db_at" where
  "drainCredentialRecoveryRequests env now db =
     and_then (db_call env (expireCredentialRecoveryRequestJobs now) (0, db)) (\<lambda>expiredAtStart s1.
       and_then (leaseCredentialRecoveryRequestJobs env (rq_lease env) now s1) (\<lambda>jobs s2.
         case fold (process_request env now) jobs
             (\<lparr>ct_issued = 0, ct_retry = 0, ct_expired = expiredAtStart, ct_parked = 0, ct_failed = 0\<rparr>, s2) of
           (counts, s3) \<Rightarrow>
             (Some (counts, length jobs = request_batch_size \<or> request_expiry_batch \<le> expiredAtStart), s3)))"

end
