(* ===== verification/Recovery_Delivery.thy ===== *)
theory Recovery_Delivery
  imports Recovery_Requests Outbound_Contract
begin

text \<open>
  The outbox of recovery mails (\<^verbatim>\<open>workers/lib/credential-recovery-delivery-outbox.ts\<close>): a delivery is
  leased, checked, decrypted and prepared, then fenced immediately before the provider is called, and
  settled by the provider's answer, a later provider event (\<^verbatim>\<open>workers/routes/ses-events.ts\<close>) or the
  recovery of an expired dispatch. Retention is \<^verbatim>\<open>credential-recovery-retention.ts\<close>.
\<close>

definition delivery_batch_size :: nat where "delivery_batch_size = 8"
definition preflight_lease_ms :: int where "preflight_lease_ms = 30000"
definition dispatch_lease_ms :: int where "dispatch_lease_ms = 45000"
definition minimum_validity_ms :: int where "minimum_validity_ms = 60000"

subsection \<open>Leasing\<close>

definition lease_expired :: "instant \<Rightarrow> recovery_delivery \<Rightarrow> bool" where
  "lease_expired now d \<longleftrightarrow> (case rl_lease_expires_at d of None \<Rightarrow> False | Some e \<Rightarrow> e \<le> now)"

definition delivery_due :: "instant \<Rightarrow> recovery_delivery \<Rightarrow> bool" where
  "delivery_due now d \<longleftrightarrow> rl_state d = Rs_pending \<and> rl_next_attempt_at d \<le> now \<or>
     rl_state d = Rs_leased \<and> lease_expired now d"

definition due_mails :: "instant \<Rightarrow> nat \<Rightarrow> portal_db \<Rightarrow> string list" where
  "due_mails now limit db = map rl_id (take limit
     (sort_key (\<lambda>d. (rl_next_attempt_at d, rl_created_at d, rl_id d)) (filter (delivery_due now) (pt_deliveries db))))"

definition edit_deliveries ::
  "(recovery_delivery \<Rightarrow> bool) \<Rightarrow> (recovery_delivery \<Rightarrow> recovery_delivery) \<Rightarrow> portal_db \<Rightarrow> nat \<times> portal_db" where
  "edit_deliveries P f db =
     (count_where P (pt_deliveries db), db\<lparr>pt_deliveries := update_where P f (pt_deliveries db)\<rparr>)"

definition leased_fields :: "instant \<Rightarrow> string \<Rightarrow> recovery_delivery \<Rightarrow> recovery_delivery" where
  "leased_fields now token d =
     d\<lparr>rl_state := Rs_leased, rl_lease_token := Some token, rl_lease_expires_at := Some (now + preflight_lease_ms),
       rl_updated_at := now\<rparr>"

definition claim_delivery :: "instant \<Rightarrow> string \<Rightarrow> string \<Rightarrow> portal_db \<Rightarrow> bool \<times> portal_db" where
  "claim_delivery now token i db =
     (case edit_deliveries (\<lambda>d. rl_id d = i \<and> delivery_due now d) (leased_fields now token) db of
        (n, db') \<Rightarrow> (n = 1, db'))"

record leased_delivery =
  ld_id :: string
  ld_tokenId :: string
  ld_leaseToken :: string
  ld_attemptCount :: int
  ld_encrypted :: "sealed_payload option"

definition holds_delivery :: "leased_delivery \<Rightarrow> recovery_state \<Rightarrow> recovery_delivery \<Rightarrow> bool" where
  "holds_delivery l state d \<longleftrightarrow>
     rl_id d = ld_id l \<and> rl_state d = state \<and> rl_lease_token d = Some (ld_leaseToken l)"

definition read_leased :: "string \<Rightarrow> string \<Rightarrow> portal_db \<Rightarrow> leased_delivery option" where
  "read_leased i token db =
     map_option (\<lambda>d. \<lparr>ld_id = rl_id d, ld_tokenId = rl_token_id d, ld_leaseToken = token,
         ld_attemptCount = rl_attempt_count d, ld_encrypted = rl_payload d\<rparr>)
       (find (\<lambda>d. rl_id d = i \<and> rl_state d = Rs_leased \<and> rl_lease_token d = Some token) (pt_deliveries db))"

fun lease_deliveries ::
  "'x call_env_scheme \<Rightarrow> (nat \<Rightarrow> string) \<Rightarrow> instant \<Rightarrow> string list \<Rightarrow> db_at \<Rightarrow> leased_delivery list option \<times> db_at" where
  "lease_deliveries env tokens now [] s = (Some [], s)"
| "lease_deliveries env tokens now (i # is) s =
     (let token = tokens (fst s) in
      and_then (db_call env (claim_delivery now token i) s) (\<lambda>claimed s1.
        if \<not> claimed then lease_deliveries env tokens now is s1
        else and_then (db_call env (\<lambda>db. (read_leased i token db, db)) s1) (\<lambda>row s2.
          and_then (lease_deliveries env tokens now is s2) (\<lambda>rows s3.
            (Some ((case row of None \<Rightarrow> [] | Some l \<Rightarrow> [l]) @ rows), s3)))))"

definition leaseCredentialRecoveryDeliveries ::
  "'x call_env_scheme \<Rightarrow> (nat \<Rightarrow> string) \<Rightarrow> instant \<Rightarrow> nat \<Rightarrow> db_at \<Rightarrow> leased_delivery list option \<times> db_at" where
  "leaseCredentialRecoveryDeliveries env tokens now limit s =
     and_then (db_call env (\<lambda>db. (due_mails now limit db, db)) s) (lease_deliveries env tokens now)"

subsection \<open>Ending a leased delivery\<close>

definition finished_fields ::
  "recovery_state \<Rightarrow> string \<Rightarrow> instant \<Rightarrow> recovery_delivery \<Rightarrow> recovery_delivery" where
  "finished_fields state errorCode now d =
     d\<lparr>rl_state := state, rl_lease_token := None, rl_lease_expires_at := None,
       rl_payload := (if state = Rs_parked then rl_payload d else None),
       rl_last_error_code := Some errorCode, rl_completed_at := Some now, rl_updated_at := now,
       rl_cancellation_reason := (if state = Rs_cancelled then Some errorCode else rl_cancellation_reason d),
       rl_cancellation_observed_at :=
         (if state = Rs_cancelled then Some now else rl_cancellation_observed_at d)\<rparr>"

definition finishLeasedDelivery ::
  "leased_delivery \<Rightarrow> recovery_state \<Rightarrow> string \<Rightarrow> instant \<Rightarrow> portal_db \<Rightarrow> bool \<times> portal_db" where
  "finishLeasedDelivery l state errorCode now db =
     (case edit_deliveries (holds_delivery l Rs_leased) (finished_fields state errorCode now) db of
        (n, db') \<Rightarrow> (n = 1, db'))"

definition parkCredentialRecoveryDelivery ::
  "leased_delivery \<Rightarrow> string \<Rightarrow> instant \<Rightarrow> portal_db \<Rightarrow> bool \<times> portal_db" where
  "parkCredentialRecoveryDelivery l errorCode now = finishLeasedDelivery l Rs_parked errorCode now"

text \<open>A delivery with the token and the user it is about, as the left joins read them.\<close>

record delivery_context =
  dc_delivery :: recovery_delivery
  dc_token :: "token_row option"
  dc_user :: "user_row option"

definition context_of :: "portal_db \<Rightarrow> recovery_delivery \<Rightarrow> delivery_context" where
  "context_of db d =
     (let token = find (\<lambda>t. tk_id t = rl_token_id d) (pt_tokens db)
      in \<lparr>dc_delivery = d, dc_token = token,
          dc_user = (case token of None \<Rightarrow> None | Some t \<Rightarrow> get_user (tk_user_id t) db)\<rparr>)"

definition context_eligible :: "delivery_context \<Rightarrow> bool" where
  "context_eligible c \<longleftrightarrow>
     (case (dc_token c, dc_user c) of
        (Some t, Some u) \<Rightarrow> us_is_active u \<and> purpose_fits (tk_purpose t) u
      | _ \<Rightarrow> False)"

definition context_consumed :: "delivery_context \<Rightarrow> bool" where
  "context_consumed c \<longleftrightarrow> (case dc_token c of None \<Rightarrow> False | Some t \<Rightarrow> tk_consumed_at t \<noteq> None)"

definition context_expires :: "delivery_context \<Rightarrow> instant option" where
  "context_expires c = map_option tk_expires_at (dc_token c)"

definition short_lived :: "instant \<Rightarrow> delivery_context \<Rightarrow> bool" where
  "short_lived now c \<longleftrightarrow>
     (case context_expires c of None \<Rightarrow> True | Some e \<Rightarrow> e \<le> now + minimum_validity_ms)"

subsection \<open>Preflight and fence\<close>

datatype preflight = Preflight_ready | Preflight_terminal | Preflight_lost

definition ended :: "bool option \<times> db_at \<Rightarrow> preflight option \<times> db_at" where
  "ended r = (case r of
      (None, s) \<Rightarrow> (None, s)
    | (Some True, s) \<Rightarrow> (Some Preflight_terminal, s)
    | (Some False, s) \<Rightarrow> (Some Preflight_lost, s))"

definition preflight_row :: "leased_delivery \<Rightarrow> portal_db \<Rightarrow> delivery_context option" where
  "preflight_row l db =
     (case find (\<lambda>d. holds_delivery l Rs_leased d \<and> rl_token_id d = ld_tokenId l) (pt_deliveries db) of
        None \<Rightarrow> None
      | Some d \<Rightarrow>
          let c = context_of db d
          in if dc_token c = None \<or> dc_user c = None then None else Some c)"

definition preflightCredentialRecoveryDelivery ::
  "'x call_env_scheme \<Rightarrow> leased_delivery \<Rightarrow> instant \<Rightarrow> db_at \<Rightarrow> preflight option \<times> db_at" where
  "preflightCredentialRecoveryDelivery env l now s =
     and_then (db_call env (\<lambda>db. (preflight_row l db, db)) s) (\<lambda>row s1.
       case row of
         None \<Rightarrow> (Some Preflight_lost, s1)
       | Some c \<Rightarrow>
           if lease_expired now (dc_delivery c) then (Some Preflight_lost, s1)
           else if context_consumed c \<or> \<not> context_eligible c
           then ended (db_call env (finishLeasedDelivery l Rs_cancelled ''TOKEN_INVALID'' now) s1)
           else if short_lived now c
           then ended (db_call env (finishLeasedDelivery l Rs_expired ''TOKEN_EXPIRED'' now) s1)
           else (Some Preflight_ready, s1))"

definition fence_admits :: "leased_delivery \<Rightarrow> instant \<Rightarrow> instant \<Rightarrow> portal_db \<Rightarrow> recovery_delivery \<Rightarrow> bool" where
  "fence_admits l payloadExpiresAt now db d \<longleftrightarrow>
     holds_delivery l Rs_leased d \<and> rl_token_id d = ld_tokenId l \<and> \<not> lease_expired now d \<and>
     rl_lease_expires_at d \<noteq> None \<and> pt_control db = Some 1 \<and>
     list_ex (\<lambda>t. tk_id t = rl_token_id d \<and> tk_consumed_at t = None \<and>
       tk_expires_at t = payloadExpiresAt \<and> now + minimum_validity_ms < tk_expires_at t \<and>
       eligible (tk_user_id t) (tk_purpose t) db) (pt_tokens db)"

definition dispatching_fields :: "instant \<Rightarrow> recovery_delivery \<Rightarrow> recovery_delivery" where
  "dispatching_fields now d =
     d\<lparr>rl_state := Rs_dispatching, rl_dispatch_started_at := Some now,
       rl_lease_expires_at := Some (now + dispatch_lease_ms), rl_updated_at := now\<rparr>"

definition new_dispatch_attempt :: "instant \<Rightarrow> recovery_delivery \<Rightarrow> dispatch_attempt list" where
  "new_dispatch_attempt now d =
     (case (rl_lease_token d, rl_dispatch_started_at d) of
        (Some token, Some started) \<Rightarrow>
          [\<lparr>da_attempt_id = token, da_outbox_id = rl_id d, da_state = Ds_dispatching,
            da_provider_message_id = None, da_dispatch_started_at = started, da_resolved_at = None,
            da_created_at = now, da_updated_at = now\<rparr>]
      | _ \<Rightarrow> [])"

text \<open>
  The fence is one transaction: the delivery enters dispatching and the attempt is recorded. The attempt
  is keyed by the lease token, so a second one under the same lease violates its key and rolls back.
\<close>

definition fence_batch :: "leased_delivery \<Rightarrow> instant \<Rightarrow> instant \<Rightarrow> portal_db \<Rightarrow> bool option \<times> portal_db" where
  "fence_batch l payloadExpiresAt now db =
     (case edit_deliveries (fence_admits l payloadExpiresAt now db) (dispatching_fields now) db of
        (n, db1) \<Rightarrow>
          let attempts = concat (map (new_dispatch_attempt now) (filter (\<lambda>d. holds_delivery l Rs_dispatching d \<and>
                rl_dispatch_started_at d = Some now) (pt_deliveries db1)))
          in if list_ex (\<lambda>a. list_ex (\<lambda>b. da_attempt_id a = da_attempt_id b) (pt_attempts db)) attempts
             then (None, db)
             else (Some (n = 1 \<and> length attempts = 1), db1\<lparr>pt_attempts := pt_attempts db1 @ attempts\<rparr>))"

datatype fence_result = Fence_dispatching | Fence_terminal | Fence_lost

text \<open>After a refused fence: why, from a fresh read.\<close>

definition fence_refusal :: "leased_delivery \<Rightarrow> instant \<Rightarrow> instant \<Rightarrow> portal_db \<Rightarrow> (recovery_state \<times> string) option" where
  "fence_refusal l payloadExpiresAt now db =
     (case find (\<lambda>d. rl_id d = ld_id l) (pt_deliveries db) of
        None \<Rightarrow> None
      | Some d \<Rightarrow>
          let c = context_of db d
          in if \<not> holds_delivery l Rs_leased d \<or> rl_lease_expires_at d = None \<or> lease_expired now d then None
             else if context_expires c \<noteq> Some payloadExpiresAt then Some (Rs_parked, ''PAYLOAD_EXPIRY_MISMATCH'')
             else if short_lived now c then Some (Rs_expired, ''TOKEN_INVALID_AT_FENCE'')
             else if context_consumed c \<or> \<not> context_eligible c then Some (Rs_cancelled, ''TOKEN_INVALID_AT_FENCE'')
             else None)"

definition fenceCredentialRecoveryDeliveryDispatch ::
  "'x call_env_scheme \<Rightarrow> leased_delivery \<Rightarrow> instant \<Rightarrow> instant \<Rightarrow> db_at \<Rightarrow> fence_result option \<times> db_at" where
  "fenceCredentialRecoveryDeliveryDispatch env l payloadExpiresAt now s =
     and_then (db_call env (fence_batch l payloadExpiresAt now) s) (\<lambda>fenced s1.
       case fenced of
         None \<Rightarrow> (None, s1)
       | Some True \<Rightarrow> (Some Fence_dispatching, s1)
       | Some False \<Rightarrow>
           and_then (db_call env (\<lambda>db. (fence_refusal l payloadExpiresAt now db, db)) s1) (\<lambda>refusal s2.
             case refusal of
               None \<Rightarrow> (Some Fence_lost, s2)
             | Some (state, errorCode) \<Rightarrow>
                 and_then (db_call env (finishLeasedDelivery l state errorCode now) s2) (\<lambda>settled s3.
                   (Some (if settled then Fence_terminal else Fence_lost), s3))))"

subsection \<open>Settlement\<close>

definition edit_attempts ::
  "(dispatch_attempt \<Rightarrow> bool) \<Rightarrow> (dispatch_attempt \<Rightarrow> dispatch_attempt) \<Rightarrow> portal_db \<Rightarrow> nat \<times> portal_db" where
  "edit_attempts P f db =
     (count_where P (pt_attempts db), db\<lparr>pt_attempts := update_where P f (pt_attempts db)\<rparr>)"

definition accepted_fields :: "string \<Rightarrow> string \<Rightarrow> instant \<Rightarrow> recovery_delivery \<Rightarrow> recovery_delivery" where
  "accepted_fields messageId attemptId now d =
     d\<lparr>rl_state := Rs_accepted, rl_lease_token := None, rl_lease_expires_at := None, rl_payload := None,
       rl_provider_message_id := Some messageId, rl_accepted_attempt_id := Some attemptId,
       rl_accepted_at := Some now, rl_completed_at := Some now, rl_updated_at := now,
       rl_last_error_code := None\<rparr>"

definition resolved_attempt :: "dispatch_state \<Rightarrow> string option \<Rightarrow> instant \<Rightarrow> dispatch_attempt \<Rightarrow> dispatch_attempt" where
  "resolved_attempt state messageId now a =
     a\<lparr>da_state := state, da_provider_message_id := messageId, da_resolved_at := Some now, da_updated_at := now\<rparr>"

definition open_attempt :: "dispatch_state set \<Rightarrow> string \<Rightarrow> string \<Rightarrow> dispatch_attempt \<Rightarrow> bool" where
  "open_attempt states attemptId outboxId a \<longleftrightarrow>
     da_attempt_id a = attemptId \<and> da_outbox_id a = outboxId \<and> da_state a \<in> states"

definition delivery_accepted :: "string \<Rightarrow> portal_db \<Rightarrow> bool" where
  "delivery_accepted i db = list_ex (\<lambda>d. rl_id d = i \<and> rl_state d = Rs_accepted) (pt_deliveries db)"

definition accept_batch :: "leased_delivery \<Rightarrow> string \<Rightarrow> instant \<Rightarrow> portal_db \<Rightarrow> bool \<times> portal_db" where
  "accept_batch l messageId now db =
     (let mine = open_attempt {Ds_dispatching} (ld_leaseToken l) (ld_id l);
          (_, db1) = edit_deliveries (\<lambda>d. holds_delivery l Rs_dispatching d \<and> list_ex mine (pt_attempts db))
            (accepted_fields messageId (ld_leaseToken l) now) db;
          (n, db2) = edit_attempts (\<lambda>a. mine a \<and> delivery_accepted (ld_id l) db1)
            (resolved_attempt Ds_accepted (Some messageId) now) db1
      in (n = 1, db2))"

definition already_accepted :: "leased_delivery \<Rightarrow> string \<Rightarrow> portal_db \<Rightarrow> bool" where
  "already_accepted l messageId db \<longleftrightarrow> delivery_accepted (ld_id l) db \<and>
     list_ex (\<lambda>a. open_attempt {Ds_accepted} (ld_leaseToken l) (ld_id l) a \<and>
       da_provider_message_id a = Some messageId) (pt_attempts db)"

definition markCredentialRecoveryAccepted ::
  "'x call_env_scheme \<Rightarrow> leased_delivery \<Rightarrow> string \<Rightarrow> instant \<Rightarrow> db_at \<Rightarrow> bool option \<times> db_at" where
  "markCredentialRecoveryAccepted env l messageId now s =
     (let bounded = js_trim messageId in
      if bounded = [] \<or> length bounded > 255 then (Some False, s)
      else and_then (db_call env (accept_batch l bounded now) s) (\<lambda>settled s1.
        if settled then (Some True, s1)
        else db_call env (\<lambda>db. (already_accepted l bounded db, db)) s1))"

text \<open>
  A failure is settled from a context read before: the delivery goes back to waiting while its token is
  usable for long enough, and ends as expired or cancelled otherwise.
\<close>

definition settle_context ::
  "leased_delivery \<Rightarrow> recovery_state \<Rightarrow> instant \<Rightarrow> bool \<Rightarrow> portal_db \<Rightarrow> delivery_context option" where
  "settle_context l fromState now allowExpiredLease db =
     (case find (\<lambda>d. rl_id d = ld_id l) (pt_deliveries db) of
        None \<Rightarrow> None
      | Some d \<Rightarrow>
          if \<not> holds_delivery l fromState d \<or>
             \<not> allowExpiredLease \<and> (rl_lease_expires_at d = None \<or> lease_expired now d)
          then None else Some (context_of db d))"

definition context_retryable :: "instant \<Rightarrow> delivery_context \<Rightarrow> bool" where
  "context_retryable now c \<longleftrightarrow> \<not> context_consumed c \<and> context_eligible c \<and> \<not> short_lived now c"

definition settled_fields ::
  "bool \<Rightarrow> recovery_state \<Rightarrow> int \<Rightarrow> string \<Rightarrow> bool \<Rightarrow> instant \<Rightarrow> recovery_delivery \<Rightarrow> recovery_delivery" where
  "settled_fields retryable terminalState nextAttemptCount errorCode ambiguous now d =
     d\<lparr>rl_state := (if retryable then Rs_pending else terminalState),
       rl_attempt_count := nextAttemptCount,
       rl_next_attempt_at :=
         (if retryable then now + min (60 * 60000) (30000 * 2 ^ nat (min (nextAttemptCount - 1) 7)) else now),
       rl_lease_token := None, rl_lease_expires_at := None,
       rl_payload := (if retryable then rl_payload d else None),
       rl_completed_at := (if retryable then None else Some now), rl_updated_at := now,
       rl_last_error_code := Some errorCode,
       rl_ambiguous_dispatch_count := rl_ambiguous_dispatch_count d + (if ambiguous then 1 else 0),
       rl_last_ambiguity_at := (if ambiguous then Some now else rl_last_ambiguity_at d),
       rl_cancellation_reason :=
         (if retryable \<or> terminalState \<noteq> Rs_cancelled then rl_cancellation_reason d
          else coalesce (rl_cancellation_reason d) errorCode),
       rl_cancellation_observed_at :=
         (if retryable \<or> terminalState \<noteq> Rs_cancelled then rl_cancellation_observed_at d
          else coalesce (rl_cancellation_observed_at d) now)\<rparr>"

definition settle_batch ::
  "leased_delivery \<Rightarrow> recovery_state \<Rightarrow> string \<Rightarrow> bool \<Rightarrow> instant \<Rightarrow> delivery_context \<Rightarrow> portal_db \<Rightarrow> bool \<times> portal_db" where
  "settle_batch l fromState errorCode ambiguous now c db =
     (let (attempts, db1) =
            (if fromState = Rs_dispatching
             then edit_attempts (open_attempt {Ds_dispatching} (ld_leaseToken l) (ld_id l))
               (\<lambda>a. a\<lparr>da_state := (if ambiguous then Ds_ambiguous else Ds_http_rejected),
                  da_resolved_at := Some now, da_updated_at := now\<rparr>) db
             else (1, db));
          terminalState = (if short_lived now c then Rs_expired else Rs_cancelled);
          (n, db2) = edit_deliveries (holds_delivery l fromState)
            (settled_fields (context_retryable now c) terminalState (ld_attemptCount l + 1) errorCode ambiguous now) db1
      in (n = 1 \<and> attempts = 1, db2))"

definition settleCredentialRecoveryDeliveryFailure ::
  "'x call_env_scheme \<Rightarrow> leased_delivery \<Rightarrow> recovery_state \<Rightarrow> string \<Rightarrow> bool \<Rightarrow> instant \<Rightarrow> bool \<Rightarrow> db_at \<Rightarrow>
     bool option \<times> db_at" where
  "settleCredentialRecoveryDeliveryFailure env l fromState errorCode ambiguous now allowExpiredLease s =
     and_then (db_call env (\<lambda>db. (settle_context l fromState now allowExpiredLease db, db)) s) (\<lambda>c s1.
       case c of
         None \<Rightarrow> (Some False, s1)
       | Some c \<Rightarrow> db_call env (settle_batch l fromState errorCode ambiguous now c) s1)"

definition retryCredentialRecoveryDelivery ::
  "'x call_env_scheme \<Rightarrow> leased_delivery \<Rightarrow> string \<Rightarrow> instant \<Rightarrow> db_at \<Rightarrow> bool option \<times> db_at" where
  "retryCredentialRecoveryDelivery env l errorCode now =
     settleCredentialRecoveryDeliveryFailure env l Rs_dispatching errorCode
       (errorCode = ''SES_TRANSPORT_AMBIGUOUS'' \<or> errorCode = ''SES_INVALID_SUCCESS_RESPONSE'' \<or>
        errorCode = ''DISPATCH_THROWN'') now False"

text \<open>Dispatches whose lease has run out are settled as ambiguous.\<close>

definition expired_dispatches :: "instant \<Rightarrow> nat \<Rightarrow> portal_db \<Rightarrow> leased_delivery list" where
  "expired_dispatches now limit db =
     map (\<lambda>d. \<lparr>ld_id = rl_id d, ld_tokenId = rl_token_id d,
         ld_leaseToken = (case rl_lease_token d of None \<Rightarrow> [] | Some t \<Rightarrow> t),
         ld_attemptCount = rl_attempt_count d, ld_encrypted = None\<rparr>)
       (take limit (sort_key (\<lambda>d. (case rl_lease_expires_at d of None \<Rightarrow> 0 | Some e \<Rightarrow> e, rl_id d))
         (filter (\<lambda>d. rl_state d = Rs_dispatching \<and> lease_expired now d) (pt_deliveries db))))"

fun recover_each :: "'x call_env_scheme \<Rightarrow> instant \<Rightarrow> leased_delivery list \<Rightarrow> db_at \<Rightarrow> nat option \<times> db_at" where
  "recover_each env now [] s = (Some 0, s)"
| "recover_each env now (l # ls) s =
     and_then (settleCredentialRecoveryDeliveryFailure env l Rs_dispatching ''DISPATCH_LEASE_EXPIRED'' True now True s)
       (\<lambda>settled s1. and_then (recover_each env now ls s1) (\<lambda>n s2.
          (Some (if settled then Suc n else n), s2)))"

definition recoverExpiredCredentialRecoveryDispatches ::
  "'x call_env_scheme \<Rightarrow> instant \<Rightarrow> nat \<Rightarrow> db_at \<Rightarrow> nat option \<times> db_at" where
  "recoverExpiredCredentialRecoveryDispatches env now limit s =
     and_then (db_call env (\<lambda>db. (expired_dispatches now limit db, db)) s) (recover_each env now)"

end
