(* ===== verification/Recovery_Worker.thy ===== *)
theory Recovery_Worker
  imports Recovery_Delivery
begin

text \<open>
  The worker that sends recovery mails, the provider's events about them and the retention of their
  history: the second half of \<^verbatim>\<open>credential-recovery-delivery-outbox.ts\<close>, the credential recovery part of
  \<^verbatim>\<open>workers/routes/ses-events.ts\<close> and \<^verbatim>\<open>credential-recovery-retention.ts\<close>.
\<close>

subsection \<open>The payload\<close>

record mail_payload =
  mp_to :: string
  mp_loginEmail :: string
  mp_recoveryUrl :: string
  mp_expiresAt :: int

text \<open>What the URL parser returns for a link: its parts, and how many parameters it has and are called token.\<close>

type_synonym parsed_url = "recovery_url \<times> nat \<times> nat"

definition address_ok :: "string \<Rightarrow> bool" where
  "address_ok s \<longleftrightarrow> normalizeMailAddress s = Some s \<and> utf8_length s \<le> 254"

definition delivery_payload ::
  "(string \<Rightarrow> parsed_url option) \<Rightarrow> string \<Rightarrow> json \<Rightarrow> mail_payload option" where
  "delivery_payload parseUrl canonicalOrigin j =
     (case j of
        JObj fs \<Rightarrow>
          if sort (map fst fs) \<noteq> [''expiresAt'', ''loginEmail'', ''recoveryUrl'', ''to''] then None
          else (case (map_of fs ''to'', map_of fs ''loginEmail'', map_of fs ''recoveryUrl'', map_of fs ''expiresAt'') of
              (Some (JStr to), Some (JStr login), Some (JStr link), Some (JNum (JInt expires))) \<Rightarrow>
                if address_ok to \<and> address_ok login \<and> is_safe_integer (JInt expires) \<and> utf8_length link \<le> 2048 \<and>
                   (case parseUrl link of
                      None \<Rightarrow> False
                    | Some (url, params, tokens) \<Rightarrow>
                        valid_target canonicalOrigin url \<and> params = 1 \<and> tokens = 1)
                then Some \<lparr>mp_to = to, mp_loginEmail = login, mp_recoveryUrl = link, mp_expiresAt = expires\<rparr>
                else None
            | _ \<Rightarrow> None)
      | _ \<Rightarrow> None)"

subsection \<open>One delivery\<close>

text \<open>
  The surroundings of one delivery: the clock by database calls, decryption, preparation of the message
  (\<open>None\<close> when it is ready to go) and the provider (\<open>None\<close> when the call throws).
\<close>

record send_env = call_env +
  sv_now :: "nat \<Rightarrow> instant"
  sv_open :: "leased_delivery \<Rightarrow> json opened"
  sv_parseUrl :: "string \<Rightarrow> parsed_url option"
  sv_origin :: string
  sv_prepare :: "mail_payload \<Rightarrow> ses_observed option"
  sv_dispatch :: "mail_payload \<Rightarrow> ses_observed option"

definition decryptCredentialRecoveryDelivery :: "send_env \<Rightarrow> leased_delivery \<Rightarrow> mail_payload opened" where
  "decryptCredentialRecoveryDelivery env l =
     (case sv_open env l of
        Opened j \<Rightarrow> (case delivery_payload (sv_parseUrl env) (sv_origin env) j of
            None \<Rightarrow> Payload_corrupt
          | Some p \<Rightarrow> Opened p)
      | Key_unavailable \<Rightarrow> Key_unavailable
      | Payload_corrupt \<Rightarrow> Payload_corrupt)"

fun recoveryDeliveryErrorCode :: "ses_observed \<Rightarrow> string" where
  "recoveryDeliveryErrorCode (Ses_accepted _) = ''ACCEPTED''"
| "recoveryDeliveryErrorCode Ses_not_dispatched = ''SES_NOT_DISPATCHED''"
| "recoveryDeliveryErrorCode (Ses_http_error status) = ''SES_HTTP_'' @ int_text status"
| "recoveryDeliveryErrorCode Ses_transport_ambiguous = ''SES_TRANSPORT_AMBIGUOUS''"
| "recoveryDeliveryErrorCode Ses_invalid_success_response = ''SES_INVALID_SUCCESS_RESPONSE''"

text \<open>
  How a delivery ends for the drain: accepted, settled otherwise, or failed; a throw is a failure. The
  second component of a result holds the mails handed to the provider on the way.
\<close>

datatype item_result = Item_accepted | Item_settled | Item_failed

type_synonym item_end = "item_result \<times> mail_payload list \<times> db_at"

definition settled_item :: "bool option \<times> db_at \<Rightarrow> item_end" where
  "settled_item r = (if fst r = Some True then Item_settled else Item_failed, [], snd r)"

definition resolve_delivery ::
  "send_env \<Rightarrow> leased_delivery \<Rightarrow> recovery_state \<Rightarrow> string \<Rightarrow> bool \<Rightarrow> db_at \<Rightarrow> item_end" where
  "resolve_delivery env l state errorCode ambiguous s = settled_item
     (settleCredentialRecoveryDeliveryFailure env l state errorCode ambiguous (sv_now env (fst s)) False s)"

definition ambiguous_outcome :: "ses_observed \<Rightarrow> bool" where
  "ambiguous_outcome x \<longleftrightarrow> x = Ses_transport_ambiguous \<or> x = Ses_invalid_success_response"

definition commit_outcome :: "send_env \<Rightarrow> leased_delivery \<Rightarrow> ses_observed \<Rightarrow> db_at \<Rightarrow> item_end" where
  "commit_outcome env l x s =
     (case x of
        Ses_accepted messageId \<Rightarrow>
          (case markCredentialRecoveryAccepted env l messageId (sv_now env (fst s)) s of
             (r, s1) \<Rightarrow> (if r = Some True then Item_accepted else Item_failed, [], s1))
      | _ \<Rightarrow> resolve_delivery env l Rs_dispatching (recoveryDeliveryErrorCode x) (ambiguous_outcome x) s)"

text \<open>The provider is called in one place only: after the fence has put the delivery into dispatching.\<close>

definition call_provider :: "send_env \<Rightarrow> leased_delivery \<Rightarrow> mail_payload \<Rightarrow> db_at \<Rightarrow> item_end" where
  "call_provider env l payload s =
     (case commit_outcome env l
         (case sv_dispatch env payload of None \<Rightarrow> Ses_transport_ambiguous | Some x \<Rightarrow> x) s of
        (r, sent, s1) \<Rightarrow> (r, payload # sent, s1))"

definition send_delivery :: "send_env \<Rightarrow> leased_delivery \<Rightarrow> mail_payload \<Rightarrow> db_at \<Rightarrow> item_end" where
  "send_delivery env l payload s =
     (case fenceCredentialRecoveryDeliveryDispatch env l (mp_expiresAt payload) (sv_now env (fst s)) s of
        (None, s1) \<Rightarrow> (Item_failed, [], s1)
      | (Some Fence_terminal, s1) \<Rightarrow> (Item_settled, [], s1)
      | (Some Fence_lost, s1) \<Rightarrow> (Item_failed, [], s1)
      | (Some Fence_dispatching, s1) \<Rightarrow> call_provider env l payload s1)"

definition drainCredentialRecoveryDelivery ::
  "send_env \<Rightarrow> instant \<Rightarrow> leased_delivery \<Rightarrow> db_at \<Rightarrow> item_end" where
  "drainCredentialRecoveryDelivery env startedAt l s =
     (case preflightCredentialRecoveryDelivery env l startedAt s of
        (None, s1) \<Rightarrow> (Item_failed, [], s1)
      | (Some Preflight_lost, s1) \<Rightarrow> (Item_failed, [], s1)
      | (Some Preflight_terminal, s1) \<Rightarrow> (Item_settled, [], s1)
      | (Some Preflight_ready, s1) \<Rightarrow>
          (case decryptCredentialRecoveryDelivery env l of
             Key_unavailable \<Rightarrow> resolve_delivery env l Rs_leased ''PAYLOAD_KEY_UNAVAILABLE'' False s1
           | Payload_corrupt \<Rightarrow>
               (Item_failed, [], snd (db_call env
                  (parkCredentialRecoveryDelivery l ''PAYLOAD_CORRUPT'' (sv_now env (fst s1))) s1))
           | Opened payload \<Rightarrow>
               (case sv_prepare env payload of
                  Some x \<Rightarrow> resolve_delivery env l Rs_leased (recoveryDeliveryErrorCode x) False s1
                | None \<Rightarrow> send_delivery env l payload s1)))"

text \<open>
  The drain. The deliveries of a batch are worked on concurrently; here they follow one another, and
  what the others do meanwhile is part of \<open>ce_others\<close> of each.
\<close>

fun drain_items ::
  "send_env \<Rightarrow> instant \<Rightarrow> leased_delivery list \<Rightarrow> db_at \<Rightarrow> item_result list \<times> mail_payload list \<times> db_at" where
  "drain_items env startedAt [] s = ([], [], s)"
| "drain_items env startedAt (l # ls) s =
     (case drainCredentialRecoveryDelivery env startedAt l s of
        (r, sent, s1) \<Rightarrow>
          (case drain_items env startedAt ls s1 of (rs, sents, s2) \<Rightarrow> (r # rs, sent @ sents, s2)))"

definition drainCredentialRecoveryDeliveries ::
  "send_env \<Rightarrow> (nat \<Rightarrow> string) \<Rightarrow> instant \<Rightarrow> portal_db \<Rightarrow> (nat \<times> nat \<times> bool) option \<times> db_at" where
  "drainCredentialRecoveryDeliveries env tokens startedAt db =
     and_then (recoverExpiredCredentialRecoveryDispatches env startedAt delivery_batch_size (0, db))
       (\<lambda>recovered s1.
         and_then (leaseCredentialRecoveryDeliveries env tokens startedAt (delivery_batch_size - recovered) s1)
           (\<lambda>ls s2. case drain_items env startedAt ls s2 of
              (rs, sent, s3) \<Rightarrow> (Some (count_where (\<lambda>r. r = Item_accepted) rs, count_where (\<lambda>r. r = Item_failed) rs,
                recovered + length ls = delivery_batch_size), s3)))"

subsection \<open>Provider events\<close>

record recovery_event =
  rn_eventId :: string
  rn_outboxId :: string
  rn_attemptId :: string
  rn_providerMessageId :: string
  rn_eventType :: string
  rn_occurredAt :: instant
  rn_receivedAt :: instant

definition unresolved_states :: "dispatch_state set" where
  "unresolved_states = {Ds_dispatching, Ds_ambiguous, Ds_http_rejected}"

text \<open>Acceptance established by the event, on the delivery and on the attempt it names.\<close>

definition event_accepts :: "recovery_event \<Rightarrow> portal_db \<Rightarrow> portal_db" where
  "event_accepts e db =
     (let named = open_attempt unresolved_states (rn_attemptId e) (rn_outboxId e);
          (_, db1) = edit_deliveries
            (\<lambda>d. rl_id d = rn_outboxId e \<and> rl_state d \<noteq> Rs_accepted \<and> list_ex named (pt_attempts db))
            (accepted_fields (rn_providerMessageId e) (rn_attemptId e) (rn_receivedAt e)) db;
          (_, db2) = edit_attempts (\<lambda>a. named a \<and> delivery_accepted (rn_outboxId e) db1)
            (resolved_attempt Ds_accepted (Some (rn_providerMessageId e)) (rn_receivedAt e)) db1
      in db2)"

definition event_correlates :: "recovery_event \<Rightarrow> portal_db \<Rightarrow> bool" where
  "event_correlates e db \<longleftrightarrow> delivery_accepted (rn_outboxId e) db \<and>
     list_ex (\<lambda>a. open_attempt {Ds_accepted} (rn_attemptId e) (rn_outboxId e) a \<and>
       da_provider_message_id a = Some (rn_providerMessageId e)) (pt_attempts db)"

definition event_row :: "recovery_event \<Rightarrow> provider_event" where
  "event_row e =
     \<lparr>pv_event_id = rn_eventId e, pv_outbox_id = rn_outboxId e, pv_attempt_id = rn_attemptId e,
      pv_provider_message_id = rn_providerMessageId e, pv_event_type = rn_eventType e,
      pv_occurred_at = rn_occurredAt e, pv_recorded_at = rn_receivedAt e\<rparr>"

definition event_insert :: "recovery_event \<Rightarrow> portal_db \<Rightarrow> portal_db" where
  "event_insert e db =
     (if event_correlates e db \<and> \<not> list_ex (\<lambda>v. pv_event_id v = rn_eventId e) (pt_events db)
      then db\<lparr>pt_events := pt_events db @ [event_row e]\<rparr> else db)"

definition same_event :: "recovery_event \<Rightarrow> provider_event \<Rightarrow> bool" where
  "same_event e v \<longleftrightarrow> pv_event_id v = rn_eventId e \<and> pv_outbox_id v = rn_outboxId e \<and>
     pv_attempt_id v = rn_attemptId e \<and> pv_provider_message_id v = rn_providerMessageId e"

definition event_project :: "recovery_event \<Rightarrow> portal_db \<Rightarrow> portal_db" where
  "event_project e db = snd (edit_deliveries
     (\<lambda>d. rl_id d = rn_outboxId e \<and> rl_state d = Rs_accepted \<and>
        rl_accepted_attempt_id d = Some (rn_attemptId e) \<and>
        rl_provider_message_id d = Some (rn_providerMessageId e) \<and>
        (case rl_provider_event d of None \<Rightarrow> True | Some (_, at) \<Rightarrow> at \<le> rn_occurredAt e) \<and>
        list_ex (\<lambda>v. same_event e v \<and> pv_event_type v = rn_eventType e) (pt_events db))
     (\<lambda>d. d\<lparr>rl_provider_event := Some (rn_eventType e, rn_occurredAt e), rl_updated_at := rn_receivedAt e\<rparr>) db)"

datatype event_reply = Event_recorded | Event_invalid | Event_not_ready

definition event_answer :: "recovery_event \<Rightarrow> portal_db \<Rightarrow> event_reply" where
  "event_answer e db =
     (case find (same_event e) (pt_events db) of
        None \<Rightarrow> if list_ex (\<lambda>d. rl_id d = rn_outboxId e) (pt_deliveries db) then Event_invalid else Event_not_ready
      | Some v \<Rightarrow> if pv_event_type v = rn_eventType e then Event_recorded else Event_invalid)"

definition event_bounds :: "recovery_event \<Rightarrow> bool" where
  "event_bounds e \<longleftrightarrow> list_all (\<lambda>v. 0 < length v \<and> length v \<le> 255)
     [rn_eventId e, rn_outboxId e, rn_attemptId e, rn_providerMessageId e]"

definition recordCredentialRecoveryEvent :: "recovery_event \<Rightarrow> portal_db \<Rightarrow> event_reply \<times> portal_db" where
  "recordCredentialRecoveryEvent e db =
     (if \<not> event_bounds e then (Event_invalid, db)
      else let db1 = event_project e (event_insert e (event_accepts e db)) in (event_answer e db1, db1))"

subsection \<open>Retention\<close>

definition day_ms :: int where "day_ms = 24 * 60 * 60 * 1000"
definition retention_batch :: nat where "retention_batch = 100"

definition oldest :: "('r \<Rightarrow> instant \<times> string) \<Rightarrow> ('r \<Rightarrow> bool) \<Rightarrow> 'r list \<Rightarrow> string list" where
  "oldest key P rs = map (snd \<circ> key) (take retention_batch (sort_key key (filter P rs)))"

definition before :: "instant option \<Rightarrow> instant \<Rightarrow> bool" where
  "before t limit \<longleftrightarrow> (case t of None \<Rightarrow> False | Some x \<Rightarrow> x < limit)"

definition or_zero :: "instant option \<Rightarrow> instant" where
  "or_zero t = (case t of None \<Rightarrow> 0 | Some x \<Rightarrow> x)"

definition scrub_jobs :: "instant \<Rightarrow> portal_db \<Rightarrow> nat \<times> portal_db" where
  "scrub_jobs now db =
     (let ids = oldest (\<lambda>j. (or_zero (jb_completed_at j), jb_id j))
            (\<lambda>j. jb_state j = Js_parked \<and> jb_payload j \<noteq> None \<and> before (jb_completed_at j) (now - 7 * day_ms))
            (pt_jobs db)
      in edit_jobs (\<lambda>j. jb_id j \<in> set ids) (\<lambda>j. j\<lparr>jb_payload := None, jb_updated_at := now\<rparr>) db)"

definition scrub_deliveries :: "instant \<Rightarrow> portal_db \<Rightarrow> nat \<times> portal_db" where
  "scrub_deliveries now db =
     (let ids = oldest (\<lambda>d. (or_zero (rl_completed_at d), rl_id d))
            (\<lambda>d. rl_state d = Rs_parked \<and> rl_payload d \<noteq> None \<and> before (rl_completed_at d) (now - 7 * day_ms))
            (pt_deliveries db)
      in edit_deliveries (\<lambda>d. rl_id d \<in> set ids) (\<lambda>d. d\<lparr>rl_payload := None, rl_updated_at := now\<rparr>) db)"

definition prune_jobs :: "instant \<Rightarrow> portal_db \<Rightarrow> nat \<times> portal_db" where
  "prune_jobs now db =
     (let ids = oldest (\<lambda>j. (or_zero (jb_completed_at j), jb_id j))
            (\<lambda>j. jb_state j \<in> {Js_completed, Js_suppressed, Js_expired, Js_parked} \<and>
               before (jb_completed_at j) (now - 90 * day_ms)) (pt_jobs db)
      in (count_where (\<lambda>j. jb_id j \<in> set ids) (pt_jobs db),
          db\<lparr>pt_jobs := filter (\<lambda>j. jb_id j \<notin> set ids) (pt_jobs db)\<rparr>))"

definition prune_events :: "instant \<Rightarrow> portal_db \<Rightarrow> nat \<times> portal_db" where
  "prune_events now db =
     (let ids = oldest (\<lambda>v. (pv_recorded_at v, pv_event_id v)) (\<lambda>v. pv_recorded_at v < now - 365 * day_ms) (pt_events db)
      in (count_where (\<lambda>v. pv_event_id v \<in> set ids) (pt_events db),
          db\<lparr>pt_events := filter (\<lambda>v. pv_event_id v \<notin> set ids) (pt_events db)\<rparr>))"

definition terminal_state :: "recovery_state \<Rightarrow> bool" where
  "terminal_state s \<longleftrightarrow> s \<in> {Rs_accepted, Rs_cancelled, Rs_expired, Rs_parked}"

definition prune_attempts :: "instant \<Rightarrow> portal_db \<Rightarrow> nat \<times> portal_db" where
  "prune_attempts now db =
     (let ids = oldest (\<lambda>a. (da_updated_at a, da_attempt_id a))
            (\<lambda>a. da_updated_at a < now - 365 * day_ms \<and>
               list_ex (\<lambda>d. rl_id d = da_outbox_id a \<and> terminal_state (rl_state d)) (pt_deliveries db) \<and>
               \<not> list_ex (\<lambda>v. pv_attempt_id v = da_attempt_id a) (pt_events db)) (pt_attempts db)
      in (count_where (\<lambda>a. da_attempt_id a \<in> set ids) (pt_attempts db),
          db\<lparr>pt_attempts := filter (\<lambda>a. da_attempt_id a \<notin> set ids) (pt_attempts db)\<rparr>))"

definition prune_deliveries :: "instant \<Rightarrow> portal_db \<Rightarrow> nat \<times> portal_db" where
  "prune_deliveries now db =
     (let ids = oldest (\<lambda>d. (or_zero (rl_completed_at d), rl_id d))
            (\<lambda>d. (rl_state d \<in> {Rs_cancelled, Rs_expired, Rs_parked} \<and> before (rl_completed_at d) (now - 90 * day_ms) \<or>
                rl_state d = Rs_accepted \<and> before (rl_completed_at d) (now - 365 * day_ms)) \<and>
               \<not> list_ex (\<lambda>v. pv_outbox_id v = rl_id d) (pt_events db) \<and>
               \<not> list_ex (\<lambda>a. da_outbox_id a = rl_id d) (pt_attempts db)) (pt_deliveries db)
      in (count_where (\<lambda>d. rl_id d \<in> set ids) (pt_deliveries db),
          db\<lparr>pt_deliveries := filter (\<lambda>d. rl_id d \<notin> set ids) (pt_deliveries db)\<rparr>))"

definition prune_tokens :: "instant \<Rightarrow> portal_db \<Rightarrow> nat \<times> portal_db" where
  "prune_tokens now db =
     (let ids = oldest (\<lambda>t. (tk_created_at t, tk_id t))
            (\<lambda>t. (tk_consumed_at t \<noteq> None \<or> tk_expires_at t < now) \<and> tk_created_at t < now - 365 * day_ms \<and>
               \<not> list_ex (\<lambda>d. rl_token_id d = tk_id t) (pt_deliveries db)) (pt_tokens db)
      in (count_where (\<lambda>t. tk_id t \<in> set ids) (pt_tokens db),
          db\<lparr>pt_tokens := filter (\<lambda>t. tk_id t \<notin> set ids) (pt_tokens db)\<rparr>))"

definition pruneCredentialRecoveryHistory :: "instant \<Rightarrow> portal_db \<Rightarrow> (nat \<times> nat \<times> bool) \<times> portal_db" where
  "pruneCredentialRecoveryHistory now db =
     (let (n1, db1) = scrub_jobs now db; (n2, db2) = scrub_deliveries now db1;
          (n3, db3) = prune_jobs now db2; (n4, db4) = prune_events now db3;
          (n5, db5) = prune_attempts now db4; (n6, db6) = prune_deliveries now db5;
          (n7, db7) = prune_tokens now db6
      in ((n1 + n2, n3 + n4 + n5 + n6 + n7,
           list_ex (\<lambda>n. retention_batch \<le> n) [n1, n2, n3, n4, n5, n6, n7]), db7))"

end
