(* ===== verification/Portal_Steps.thy ===== *)
theory Portal_Steps
  imports Access_Laws Agent_Outbox Recovery_Worker
begin

text \<open>
  The transactions of the accounts database. Each statement or batch the program sends is one operation;
  a run of the system is a sequence of them, in whatever order concurrent requests issue them. The rows
  the triggers write are given in closed form.
\<close>

subsection \<open>Operations\<close>

datatype recovery_op =
  Rop_issue string recovery_url instant string string sealed_payload recovery_issue "request_lease option"
| Rop_request string "string \<Rightarrow> string" string sealed_payload string instant
| Rop_claim_job instant string string
| Rop_complete_job request_lease request_end "string option" instant
| Rop_retry_job leased_request string instant
| Rop_expire_jobs instant
| Rop_claim_delivery instant string string
| Rop_finish leased_delivery recovery_state string instant
| Rop_fence leased_delivery instant instant
| Rop_accept leased_delivery string instant
| Rop_settle leased_delivery recovery_state string bool instant delivery_context
| Rop_event recovery_event
| Rop_prune instant
| Rop_control "int option"

fun run_recovery :: "recovery_op \<Rightarrow> portal_db \<Rightarrow> portal_db" where
  "run_recovery (Rop_issue origin url expires audit delivery sealed r lease) db =
     snd (issue_token origin url expires audit delivery sealed r lease (\<lambda>db. db) db)"
| "run_recovery (Rop_request uuid refOf ipRef sealed email now) db =
     snd (enqueueCredentialRecoveryRequest uuid refOf ipRef sealed email now db)"
| "run_recovery (Rop_claim_job now token i) db = snd (claim_job now token i db)"
| "run_recovery (Rop_complete_job q e err now) db = snd (completeCredentialRecoveryRequest q e err now db)"
| "run_recovery (Rop_retry_job l err now) db = snd (retryCredentialRecoveryRequest l err now db)"
| "run_recovery (Rop_expire_jobs now) db = snd (expireCredentialRecoveryRequestJobs now db)"
| "run_recovery (Rop_claim_delivery now token i) db = snd (claim_delivery now token i db)"
| "run_recovery (Rop_finish l state err now) db =
     (if state \<in> {Rs_cancelled, Rs_expired, Rs_parked} then snd (finishLeasedDelivery l state err now db) else db)"
| "run_recovery (Rop_fence l expires now) db = snd (fence_batch l expires now db)"
| "run_recovery (Rop_accept l messageId now) db = snd (accept_batch l messageId now db)"
| "run_recovery (Rop_settle l from err amb now c) db =
     (if from \<in> {Rs_leased, Rs_dispatching} then snd (settle_batch l from err amb now c db) else db)"
| "run_recovery (Rop_event e) db = snd (recordCredentialRecoveryEvent e db)"
| "run_recovery (Rop_prune now) db = snd (pruneCredentialRecoveryHistory now db)"
| "run_recovery (Rop_control x) db = db\<lparr>pt_control := x\<rparr>"

datatype portal_op =
  Op_create string instant create_user_input
| Op_delete_user string
| Op_password instant string string string bool
| Op_deactivate string string string string instant
| Op_activate instant string
| Op_consume consume_input string string token_row
| Op_register string instant
| Op_set_mailbox string bool instant
| Op_add_member string string instant
| Op_remove_member string string
| Op_unregister string
| Op_claim revocation_target instant string
| Op_renew revocation_row string instant
| Op_complete revocation_row string
| Op_retry revocation_row string instant string
| Op_recovery recovery_op
| Op_tick int

definition shared_row :: "string \<Rightarrow> instant \<Rightarrow> mailbox_row" where
  "shared_row address now =
     \<lparr>mb_id = js_lower address, mb_address = js_lower address, mb_type = Shared_mailbox,
      mb_owner_user_id = None, mb_is_active = True, mb_created_at = now, mb_updated_at = now\<rparr>"

definition audit_taken :: "string \<Rightarrow> portal_db \<Rightarrow> bool" where
  "audit_taken auditId db \<longleftrightarrow> list_ex (\<lambda>a. au_id a = auditId) (pt_audit db)"

fun run_op :: "portal_op \<Rightarrow> portal_db \<Rightarrow> portal_db" where
  "run_op (Op_create uuid now i) db = snd (createUser uuid now i db)"
| "run_op (Op_delete_user i) db = snd (deleteUser i db)"
| "run_op (Op_password now i h s confirm) db = replaceUserCredentials now i h s confirm db"
| "run_op (Op_deactivate audit i h s at) db =
     (if audit_taken audit db then db else deactivate_batch audit i h s at db)"
| "run_op (Op_activate now i) db = snd (lifecycle_activate now i db)"
| "run_op (Op_consume i nonce audit t) db =
     (if audit_taken audit db then db else snd (consume_batch i nonce audit t db))"
| "run_op (Op_register address now) db = snd (addMailbox (shared_row address now) db)"
| "run_op (Op_set_mailbox m active now) db = snd (setMailboxActive m active now db)"
| "run_op (Op_add_member m u now) db = snd (addMembership m u now db)"
| "run_op (Op_remove_member m u) db = snd (removeMembership m u db)"
| "run_op (Op_unregister m) db = unregisterMailbox m db"
| "run_op (Op_claim t now token) db = snd (claimBatch t now token db)"
| "run_op (Op_renew row token now) db = snd (renewLease row token now db)"
| "run_op (Op_complete row token) db = snd (complete_revocation row token db)"
| "run_op (Op_retry row token now err) db = retry_revocation row token now err db"
| "run_op (Op_recovery r) db = run_recovery r db"
| "run_op (Op_tick t) db = db\<lparr>pt_unixepoch := t\<rparr>"

definition run_ops :: "portal_op list \<Rightarrow> portal_db \<Rightarrow> portal_db" where
  "run_ops ops db = fold run_op ops db"

lemma run_ops_simps [simp]:
  "run_ops [] db = db"
  "run_ops (op # ops) db = run_ops ops (run_op op db)"
  "run_ops (ops @ ops') db = run_ops ops' (run_ops ops db)"
  by (simp_all add: run_ops_def)

lemma run_ops_invariant:
  assumes "\<And>op db. op \<in> set ops \<Longrightarrow> P db \<Longrightarrow> P (run_op op db)" and "P db"
  shows "P (run_ops ops db)"
  using assms by (induction ops arbitrary: db) auto

subsection \<open>The rows the triggers write\<close>

type_synonym revocation_key = "revocation_scope \<times> string \<times> string option"

definition revocation_key :: "revocation_row \<Rightarrow> revocation_key" where
  "revocation_key r = (av_scope r, av_mailbox_id r, av_user_id r)"

definition enqueued :: "revocation_key list \<Rightarrow> portal_db \<Rightarrow> portal_db" where
  "enqueued ks db = fold (\<lambda>(scope, mailbox, user). add_revocation scope mailbox user) ks db"

fun rows_from :: "(nat \<Rightarrow> string) \<Rightarrow> instant \<Rightarrow> nat \<Rightarrow> revocation_key list \<Rightarrow> revocation_row list" where
  "rows_from rand at n [] = []"
| "rows_from rand at n ((scope, mailbox, user) # ks) =
     revocation_of scope mailbox user (rand n) at # rows_from rand at (Suc n) ks"

definition trigger_rows :: "revocation_key list \<Rightarrow> portal_db \<Rightarrow> revocation_row list" where
  "trigger_rows ks db = rows_from (pt_random db) (pt_unixepoch db * 1000) (pt_draws db) ks"

lemma enqueued_closed:
  "enqueued ks db =
     db\<lparr>pt_revocations := pt_revocations db @ trigger_rows ks db, pt_draws := pt_draws db + length ks\<rparr>"
proof (induction ks arbitrary: db)
  case (Cons k ks)
  obtain s m u where k: "k = (s, m, u)" by (cases k)
  show ?case
    unfolding enqueued_def fold_simps comp_def k case_prod_conv
    unfolding enqueued_def [symmetric] Cons.IH
    by (simp add: add_revocation_def trigger_rows_def)
qed (simp add: enqueued_def trigger_rows_def)

lemma rows_from_keys: "map revocation_key (rows_from rand at n ks) = ks"
  by (induction rand at n ks rule: rows_from.induct) (simp_all add: revocation_key_def revocation_of_def)

lemma rows_from_ids: "map av_id (rows_from rand at n ks) = map (\<lambda>n. ''acr_'' @ rand n) [n..<n + length ks]"
proof (induction rand at n ks rule: rows_from.induct)
  case (2 rand at n scope mailbox user ks)
  have "[n..<n + length ((scope, mailbox, user) # ks)] = n # [Suc n..<Suc n + length ks]"
    by (simp add: upt_conv_Cons del: upt_Suc)
  with 2 show ?case by (simp add: revocation_of_def del: upt_Suc)
qed simp

lemma rows_from_free:
  "r \<in> set (rows_from rand at n ks) \<Longrightarrow>
     av_lease_token r = None \<and> av_lease_expires_at r = None \<and> av_attempt_count r = 0"
  by (induction rand at n ks rule: rows_from.induct) (auto simp: revocation_of_def)

lemma trigger_keys: "map revocation_key (trigger_rows ks db) = ks"
  by (simp add: trigger_rows_def rows_from_keys)

lemma trigger_ids:
  "map av_id (trigger_rows ks db) = map (\<lambda>n. ''acr_'' @ pt_random db n) [pt_draws db..<pt_draws db + length ks]"
  by (simp only: trigger_rows_def rows_from_ids)

lemma trigger_free: "r \<in> set (trigger_rows ks db) \<Longrightarrow> av_lease_token r = None \<and> av_lease_expires_at r = None \<and>
    av_attempt_count r = 0"
  using rows_from_free by (simp add: trigger_rows_def)

definition user_keys :: "user_row \<Rightarrow> user_row \<Rightarrow> portal_db \<Rightarrow> revocation_key list" where
  "user_keys old new db =
     (if us_session_version new \<noteq> us_session_version old \<or> us_is_active old \<and> \<not> us_is_active new \<or>
         us_role old = Role_admin \<and> us_role new \<noteq> Role_admin
      then map (\<lambda>m. (Scope_actor, m, Some (us_id new))) (user_mailboxes old new db) else [])"

lemma user_trigger_enqueued: "user_trigger old new db = enqueued (user_keys old new db) db"
  by (simp add: user_trigger_def user_keys_def enqueued_def fold_map comp_def)

definition mailbox_keys ::
  "(mailbox_row \<Rightarrow> bool) \<Rightarrow> (mailbox_row \<Rightarrow> mailbox_row) \<Rightarrow> portal_db \<Rightarrow> revocation_key list" where
  "mailbox_keys P f db = map (\<lambda>m. (Scope_mailbox, mb_id (f m), None))
     (filter (\<lambda>m. P m \<and> mb_is_active m \<and> \<not> mb_is_active (f m)) (pt_mailboxes db))"

lemma update_mailboxes_enqueued:
  "update_mailboxes P f db = enqueued (mailbox_keys P f db) (db\<lparr>pt_mailboxes := update_where P f (pt_mailboxes db)\<rparr>)"
proof -
  have "fold (\<lambda>old. mailbox_trigger old (f old)) (filter P ms) db' =
      enqueued (map (\<lambda>m. (Scope_mailbox, mb_id (f m), None))
        (filter (\<lambda>m. P m \<and> mb_is_active m \<and> \<not> mb_is_active (f m)) ms)) db'" for ms db'
    by (induction ms arbitrary: db') (simp_all add: enqueued_def mailbox_trigger_def)
  then show ?thesis by (simp add: update_mailboxes_def mailbox_keys_def)
qed

definition membership_keys :: "(membership_row \<Rightarrow> bool) \<Rightarrow> portal_db \<Rightarrow> revocation_key list" where
  "membership_keys P db = map (\<lambda>mm. (Scope_actor, mm_mailbox_id mm, Some (mm_user_id mm)))
     (filter P (pt_memberships db))"

lemma delete_memberships_enqueued:
  "delete_memberships P db =
     enqueued (membership_keys P db) (db\<lparr>pt_memberships := filter (\<lambda>mm. \<not> P mm) (pt_memberships db)\<rparr>)"
  by (simp add: delete_memberships_def membership_keys_def enqueued_def fold_map comp_def)

lemma update_user_enqueued:
  "update_user i f db =
     (case get_user i db of
        None \<Rightarrow> db
      | Some old \<Rightarrow> enqueued (user_keys old (f old) (db\<lparr>pt_users := update_where (\<lambda>u. us_id u = i) f (pt_users db)\<rparr>))
          (db\<lparr>pt_users := update_where (\<lambda>u. us_id u = i) f (pt_users db)\<rparr>))"
  by (simp add: update_user_def get_user_def user_trigger_enqueued split: option.split)

text \<open>The keys a trigger writes name a user exactly when their scope is one actor.\<close>

definition key_ok :: "revocation_key \<Rightarrow> bool" where
  "key_ok k \<longleftrightarrow> (case k of (scope, _, user) \<Rightarrow> (scope = Scope_actor) = (user \<noteq> None))"

lemma keys_ok:
  "list_all key_ok (user_keys old new db)" "list_all key_ok (mailbox_keys P f db)"
  "list_all key_ok (membership_keys Q db)"
  by (auto simp: user_keys_def mailbox_keys_def membership_keys_def key_ok_def list_all_iff)

lemma enqueued_ok:
  assumes "revocations_ok db" and "list_all key_ok ks"
  shows "revocations_ok (enqueued ks db)"
proof -
  let ?rows = "trigger_rows ks db"
  from assms have inj: "inj (pt_random db)" and old: "distinct (map av_id (pt_revocations db))"
    and ids: "\<And>r. r \<in> set (pt_revocations db) \<Longrightarrow> revocation_checks r \<and>
      (\<exists>n<pt_draws db. av_id r = ''acr_'' @ pt_random db n)"
    by (auto simp: revocations_ok_def)
  have inj': "inj (\<lambda>n. ''acr_'' @ pt_random db n)" using inj by (auto simp: inj_def)
  then have new: "distinct (map av_id ?rows)"
    unfolding trigger_ids distinct_map using inj_on_subset [OF inj'] by simp
  have set_new: "av_id r \<in> (\<lambda>n. ''acr_'' @ pt_random db n) ` {pt_draws db..<pt_draws db + length ks}"
    if "r \<in> set ?rows" for r
    using arg_cong [OF trigger_ids [of ks db], of set] that by (auto simp: image_iff set_eq_iff)
  have "av_id r \<noteq> av_id r'" if "r \<in> set (pt_revocations db)" "r' \<in> set ?rows" for r r'
    using ids [OF that(1)] set_new [OF that(2)] inj_eq [OF inj] by auto
  then have "distinct (map av_id (pt_revocations db @ ?rows))" using old new by auto
  moreover have "revocation_checks r" if "r \<in> set ?rows" for r
  proof -
    have "revocation_key r \<in> set ks"
      using arg_cong [OF trigger_keys [of ks db], of set] that by auto
    then have "key_ok (revocation_key r)" using assms(2) by (auto simp: list_all_iff)
    then show ?thesis
      using trigger_free [OF that] by (auto simp: revocation_checks_def revocation_key_def key_ok_def)
  qed
  moreover have "\<exists>n<pt_draws db + length ks. av_id r = ''acr_'' @ pt_random db n"
    if "r \<in> set (pt_revocations db) \<union> set ?rows" for r
    using that
  proof
    assume "r \<in> set (pt_revocations db)"
    with ids obtain n where "n < pt_draws db" "av_id r = ''acr_'' @ pt_random db n" by blast
    then show ?thesis by (intro exI [of _ n]) simp
  next
    assume "r \<in> set ?rows"
    from set_new [OF this] show ?thesis by auto
  qed
  ultimately show ?thesis using inj ids by (auto simp: enqueued_closed revocations_ok_def)
qed

lemma enqueued_tables [simp]:
  "pt_users (enqueued ks db) = pt_users db" "pt_mailboxes (enqueued ks db) = pt_mailboxes db"
  "pt_memberships (enqueued ks db) = pt_memberships db" "pt_tokens (enqueued ks db) = pt_tokens db"
  "pt_audit (enqueued ks db) = pt_audit db" "pt_deliveries (enqueued ks db) = pt_deliveries db"
  "pt_attempts (enqueued ks db) = pt_attempts db" "pt_events (enqueued ks db) = pt_events db"
  "pt_jobs (enqueued ks db) = pt_jobs db" "pt_limits (enqueued ks db) = pt_limits db"
  "pt_random (enqueued ks db) = pt_random db" "pt_control (enqueued ks db) = pt_control db"
  "pt_revocations (enqueued ks db) = pt_revocations db @ trigger_rows ks db"
  "pt_draws (enqueued ks db) = pt_draws db + length ks"
  by (simp_all add: enqueued_closed)

lemmas portal_triggers = update_user_enqueued update_mailboxes_enqueued delete_memberships_enqueued

end
