(* ===== verification/Accounts_Invariant.thy ===== *)
theory Accounts_Invariant
  imports Portal_Steps
begin

text \<open>
  Every transaction keeps the constraints of the accounts tables and of the revocations table, so no
  statement of the program runs into one of them.
\<close>

subsection \<open>What each transaction leaves alone\<close>

text \<open>Two databases with the same accounts tables; recovery transactions never change those.\<close>

definition same_accounts :: "portal_db \<Rightarrow> portal_db \<Rightarrow> bool" where
  "same_accounts db db' \<longleftrightarrow> pt_users db' = pt_users db \<and> pt_mailboxes db' = pt_mailboxes db \<and>
     pt_memberships db' = pt_memberships db"

definition same_revocations :: "portal_db \<Rightarrow> portal_db \<Rightarrow> bool" where
  "same_revocations db db' \<longleftrightarrow> pt_revocations db' = pt_revocations db \<and> pt_random db' = pt_random db \<and>
     pt_draws db' = pt_draws db"

lemma same_accounts_refl [simp]: "same_accounts db db"
  by (simp add: same_accounts_def)

lemma same_revocations_refl [simp]: "same_revocations db db"
  by (simp add: same_revocations_def)

lemma same_accounts_ok: "same_accounts db db' \<Longrightarrow> accounts_ok db \<Longrightarrow> accounts_ok db'"
  by (simp add: same_accounts_def accounts_ok_def user_known_def mailbox_known_def)

lemma same_revocations_ok: "same_revocations db db' \<Longrightarrow> revocations_ok db \<Longrightarrow> revocations_ok db'"
  by (simp add: same_revocations_def revocations_ok_def)

lemmas edit_defs = edit_jobs_def edit_deliveries_def edit_attempts_def

lemma recovery_same: "same_accounts db (run_recovery op db) \<and> same_revocations db (run_recovery op db)"
proof (cases op)
  case (Rop_issue origin url expires audit delivery sealed r lease)
  have "same_accounts db (issue_statements a d s r lease db) \<and> same_revocations db (issue_statements a d s r lease db)"
    for a d s lease
    by (simp add: issue_statements_def when_issuing_def supersede_tokens_def supersede_waiting_def
        supersede_dispatching_def same_accounts_def same_revocations_def)
  then show ?thesis unfolding Rop_issue
    by (simp add: issue_token_def complete_request_def suppress_request_def expire_request_def
        delay_request_def edit_defs Let_def same_accounts_def same_revocations_def split: option.split)
next
  case (Rop_request uuid refOf ipRef sealed email now)
  show ?thesis unfolding Rop_request
    by (simp add: enqueueCredentialRecoveryRequest_def Let_def same_accounts_def same_revocations_def
        split: option.split)
next
  case (Rop_event e)
  show ?thesis unfolding Rop_event
    by (simp add: recordCredentialRecoveryEvent_def event_project_def event_insert_def event_accepts_def
        edit_defs Let_def same_accounts_def same_revocations_def)
next
  case (Rop_prune now)
  show ?thesis unfolding Rop_prune
    by (simp add: pruneCredentialRecoveryHistory_def scrub_jobs_def scrub_deliveries_def prune_jobs_def
        prune_events_def prune_attempts_def prune_deliveries_def prune_tokens_def edit_defs Let_def
        same_accounts_def same_revocations_def split: prod.split)
next
  case (Rop_settle l state err amb now c)
  show ?thesis unfolding Rop_settle
    by (simp add: settle_batch_def edit_defs Let_def same_accounts_def same_revocations_def split: if_split)
qed (simp_all add: claim_job_def completeCredentialRecoveryRequest_def retryCredentialRecoveryRequest_def
  expireCredentialRecoveryRequestJobs_def claim_delivery_def finishLeasedDelivery_def fence_batch_def
  accept_batch_def edit_defs Let_def same_accounts_def same_revocations_def)

subsection \<open>The accounts tables\<close>

lemma user_known_ids: "user_known i db \<longleftrightarrow> i \<in> set (map us_id (pt_users db))"
  by (auto simp: user_known_def list_ex_iff)

lemma mailbox_known_ids: "mailbox_known i db \<longleftrightarrow> i \<in> set (map mb_id (pt_mailboxes db))"
  by (auto simp: mailbox_known_def list_ex_iff)

lemma known_update:
  "(\<And>u. us_id (f u) = us_id u) \<Longrightarrow>
     user_known i (db\<lparr>pt_users := update_where P f (pt_users db)\<rparr>) = user_known i db"
  by (auto simp: user_known_def list_ex_iff set_update_where)

lemma map_update_same:
  "(\<And>r. P r \<Longrightarrow> k (f r) = k r) \<Longrightarrow> map k (update_where P f rs) = map k rs"
  by (induction rs) auto

definition keeps_user :: "(user_row \<Rightarrow> user_row) \<Rightarrow> bool" where
  "keeps_user f \<longleftrightarrow> (\<forall>u. us_id (f u) = us_id u \<and> us_email (f u) = us_email u \<and>
     us_mailbox_address (f u) = us_mailbox_address u \<and> us_role (f u) = us_role u)"

definition keeps_mailbox :: "(mailbox_row \<Rightarrow> mailbox_row) \<Rightarrow> bool" where
  "keeps_mailbox f \<longleftrightarrow> (\<forall>m. mb_id (f m) = mb_id m \<and> mb_address (f m) = mb_address m \<and>
     mb_type (f m) = mb_type m \<and> mb_owner_user_id (f m) = mb_owner_user_id m)"

lemma keeps_user_edits [simp]:
  "keeps_user (new_password h s c now)" "keeps_user (deactivated_user h s at)"
  "keeps_user (recovered_user i)" "keeps_user (\<lambda>u. u\<lparr>us_is_active := b, us_updated_at := now\<rparr>)"
  by (simp_all add: keeps_user_def new_password_def deactivated_user_def recovered_user_def)

lemma keeps_mailbox_edit [simp]: "keeps_mailbox (\<lambda>m. m\<lparr>mb_is_active := b, mb_updated_at := at\<rparr>)"
  by (simp add: keeps_mailbox_def)

lemma users_edit_ok:
  assumes "accounts_ok db" and "keeps_user f"
  shows "accounts_ok (db\<lparr>pt_users := update_where P f (pt_users db)\<rparr>)"
  using assms
  by (simp add: accounts_ok_def keeps_user_def map_update_same known_update mailbox_known_def)

lemma mailboxes_edit_ok:
  assumes "accounts_ok db" and "keeps_mailbox f"
  shows "accounts_ok (db\<lparr>pt_mailboxes := update_where P f (pt_mailboxes db)\<rparr>)"
proof -
  have same: "mb_id (f m) = mb_id m" "mb_address (f m) = mb_address m" "mb_type (f m) = mb_type m"
    "mb_owner_user_id (f m) = mb_owner_user_id m" "mailbox_checks (f m) = mailbox_checks m" for m
    using assms(2) by (simp_all add: keeps_mailbox_def mailbox_checks_def)
  have "map mb_owner_user_id (filter (\<lambda>m. mb_type m = Personal_mailbox) (update_where P f ms)) =
      map mb_owner_user_id (filter (\<lambda>m. mb_type m = Personal_mailbox) ms)" for ms
    by (induction ms) (simp_all add: same)
  moreover have "mailbox_known i (db\<lparr>pt_mailboxes := update_where P f (pt_mailboxes db)\<rparr>) = mailbox_known i db" for i
    using map_update_same [where k = mb_id and f = f, OF same(1)] unfolding mailbox_known_ids by simp
  ultimately show ?thesis
    using assms(1)
    by (auto simp: accounts_ok_def map_update_same same user_known_def set_update_where)
qed

lemma memberships_filter_ok:
  "accounts_ok db \<Longrightarrow> accounts_ok (db\<lparr>pt_memberships := filter P (pt_memberships db)\<rparr>)"
  by (auto simp: accounts_ok_def user_known_def mailbox_known_def distinct_map_filter)

lemma enqueued_accounts [simp]: "accounts_ok (enqueued ks db) = accounts_ok db"
  by (simp add: accounts_ok_def user_known_def mailbox_known_def)

lemma update_user_ok: "accounts_ok db \<Longrightarrow> keeps_user f \<Longrightarrow> accounts_ok (update_user i f db)"
  by (simp add: portal_triggers users_edit_ok split: option.split)

lemma update_mailboxes_ok: "accounts_ok db \<Longrightarrow> keeps_mailbox f \<Longrightarrow> accounts_ok (update_mailboxes P f db)"
  by (simp add: portal_triggers mailboxes_edit_ok)

lemma delete_memberships_ok: "accounts_ok db \<Longrightarrow> accounts_ok (delete_memberships P db)"
  by (simp add: portal_triggers memberships_filter_ok)

lemma void_recovery_same:
  "same_accounts db (void_recovery reason at i db) \<and> same_revocations db (void_recovery reason at i db)"
  by (simp add: void_recovery_def same_accounts_def same_revocations_def)

lemma void_recovery_ok: "accounts_ok db \<Longrightarrow> accounts_ok (void_recovery reason at i db)"
  using void_recovery_same same_accounts_ok by blast

lemma create_ok: "accounts_ok db \<Longrightarrow> accounts_ok (snd (createUser uuid now i db))"
proof -
  assume ok: "accounts_ok db"
  let ?u = "new_user uuid now i" and ?m = "personal_mailbox (new_user uuid now i)"
  show ?thesis
  proof (cases "user_conflict ?u db \<or> mailbox_conflict ?m db")
    case False
    then have u: "us_id ?u \<notin> us_id ` set (pt_users db)" "us_email ?u \<notin> us_email ` set (pt_users db)"
      "us_mailbox_address ?u \<notin> us_mailbox_address ` set (pt_users db)"
      and m: "mb_id ?m \<notin> mb_id ` set (pt_mailboxes db)" "mb_address ?m \<notin> mb_address ` set (pt_mailboxes db)"
      by (auto simp: user_conflict_def mailbox_conflict_def list_ex_iff)
    have "mb_owner_user_id ?m \<notin> mb_owner_user_id ` set (pt_mailboxes db)"
    proof
      assume "mb_owner_user_id ?m \<in> mb_owner_user_id ` set (pt_mailboxes db)"
      then obtain m where "m \<in> set (pt_mailboxes db)" "mb_owner_user_id m = Some (us_id ?u)"
        by (auto simp: personal_mailbox_def)
      then have "user_known (us_id ?u) db" using ok by (auto simp: accounts_ok_def)
      then show False using u(1) by (simp add: user_known_ids)
    qed
    moreover have "mailbox_checks ?m" "js_lower (mb_id ?m) = mb_id ?m" "mb_owner_user_id ?m = Some (us_id ?u)"
      by (simp_all add: mailbox_checks_def personal_mailbox_def new_user_def)
    ultimately show ?thesis
      using ok u m False
      by (auto simp: createUser_def Let_def accounts_ok_def user_known_def mailbox_known_def)
  qed (use ok in \<open>simp add: createUser_def Let_def\<close>)
qed

lemma add_mailbox_ok: "accounts_ok db \<Longrightarrow> accounts_ok (snd (addMailbox (shared_row address now) db))"
  by (auto simp: addMailbox_def mailbox_conflict_def shared_row_def accounts_ok_def mailbox_checks_def
      user_known_def mailbox_known_def list_ex_iff)

lemma add_membership_ok: "accounts_ok db \<Longrightarrow> accounts_ok (snd (addMembership m u now db))"
  by (auto simp: addMembership_def accounts_ok_def user_known_def mailbox_known_def list_ex_iff)

lemma kept_mailbox:
  assumes "mailbox_known i db" and "i \<notin> mb_id ` set (filter P (pt_mailboxes db))"
  shows "i \<in> mb_id ` set (filter (\<lambda>m. \<not> P m) (pt_mailboxes db))"
  using assms by (auto simp: mailbox_known_ids)

lemma mailboxes_removed_ok:
  assumes "accounts_ok db" and "set (map mm_mailbox_id (pt_memberships db)) \<inter> mb_id ` set (filter P (pt_mailboxes db)) = {}"
  shows "accounts_ok (db\<lparr>pt_mailboxes := filter (\<lambda>m. \<not> P m) (pt_mailboxes db)\<rparr>)" (is "accounts_ok ?db")
proof -
  let ?keep = "filter (\<lambda>m. \<not> P m) (pt_mailboxes db)"
  have "filter (\<lambda>m. mb_type m = Personal_mailbox) ?keep =
      filter (\<lambda>m. \<not> P m) (filter (\<lambda>m. mb_type m = Personal_mailbox) (pt_mailboxes db))"
    by (simp add: conj_commute)
  then have "distinct (map mb_owner_user_id (filter (\<lambda>m. mb_type m = Personal_mailbox) ?keep))"
    using assms(1) by (metis accounts_ok_def distinct_map_filter)
  moreover have "mailbox_known (mm_mailbox_id mm) ?db" if "mm \<in> set (pt_memberships db)" for mm
  proof -
    have "mailbox_known (mm_mailbox_id mm) db" using assms(1) that by (simp add: accounts_ok_def)
    moreover have "mm_mailbox_id mm \<notin> mb_id ` set (filter P (pt_mailboxes db))" using assms(2) that by auto
    ultimately have "mm_mailbox_id mm \<in> mb_id ` set ?keep" by (rule kept_mailbox)
    then show ?thesis by (simp add: mailbox_known_ids)
  qed
  moreover have "user_known i ?db = user_known i db" for i by (simp add: user_known_def)
  ultimately show ?thesis using assms(1) by (auto simp: accounts_ok_def distinct_map_filter)
qed

lemma user_removed_ok:
  assumes "accounts_ok db" and "\<forall>m\<in>set (pt_mailboxes db). mb_owner_user_id m \<noteq> Some i"
    and "\<forall>mm\<in>set (pt_memberships db). mm_user_id mm \<noteq> i"
  shows "accounts_ok (db\<lparr>pt_users := filter (\<lambda>u. us_id u \<noteq> i) (pt_users db)\<rparr>)" (is "accounts_ok ?db")
proof -
  have known: "user_known k ?db" if "user_known k db" "k \<noteq> i" for k
    using that by (auto simp: user_known_def list_ex_iff)
  have "\<forall>k\<in>set_option (mb_owner_user_id m). user_known k ?db" if "m \<in> set (pt_mailboxes db)" for m
    using assms(1,2) that known by (auto simp: accounts_ok_def)
  moreover have "user_known (mm_user_id mm) ?db" if "mm \<in> set (pt_memberships db)" for mm
    using assms(1,3) that known by (auto simp: accounts_ok_def)
  moreover have "mailbox_known k ?db = mailbox_known k db" for k by (simp add: mailbox_known_def)
  ultimately show ?thesis using assms(1) by (simp add: accounts_ok_def distinct_map_filter)
qed

lemma delete_mailboxes_ok:
  assumes "accounts_ok db"
  shows "accounts_ok (delete_mailboxes P db)"
proof -
  let ?gone = "mb_id ` set (filter P (pt_mailboxes db))"
  let ?db1 = "db\<lparr>pt_memberships := filter (\<lambda>mm. mm_mailbox_id mm \<notin> ?gone) (pt_memberships db)\<rparr>"
  have "accounts_ok ?db1" using assms by (rule memberships_filter_ok)
  then have "accounts_ok (?db1\<lparr>pt_mailboxes := filter (\<lambda>m. \<not> P m) (pt_mailboxes ?db1)\<rparr>)"
    by (rule mailboxes_removed_ok) auto
  then show ?thesis
    by (rule same_accounts_ok [rotated]) (simp add: delete_mailboxes_def portal_triggers Let_def same_accounts_def)
qed

lemma delete_user_ok:
  assumes ok: "accounts_ok db" and del: "delete_user_row i db = Some db'"
  shows "accounts_ok db'"
proof (cases "user_known i db")
  case True
  let ?db1 = "delete_mailboxes (\<lambda>m. mb_owner_user_id m = Some i) db"
  let ?db2 = "?db1\<lparr>pt_memberships := filter (\<lambda>mm. mm_user_id mm \<noteq> i) (pt_memberships ?db1)\<rparr>"
  have "accounts_ok ?db2" using ok by (intro memberships_filter_ok delete_mailboxes_ok)
  then have "accounts_ok (?db2\<lparr>pt_users := filter (\<lambda>u. us_id u \<noteq> i) (pt_users ?db2)\<rparr>)"
    by (rule user_removed_ok) (simp_all add: delete_mailboxes_def portal_triggers Let_def)
  moreover have "same_accounts (?db2\<lparr>pt_users := filter (\<lambda>u. us_id u \<noteq> i) (pt_users ?db2)\<rparr>) db'"
    using del True
    by (auto simp: delete_user_row_def delete_mailboxes_def portal_triggers Let_def same_accounts_def
        split: if_splits)
  ultimately show ?thesis by (blast intro: same_accounts_ok)
qed (use assms in \<open>simp add: delete_user_row_def\<close>)

lemma revocation_edit_accounts: "same_accounts db (edit_revocations P f db)"
  by (simp add: edit_revocations_def same_accounts_def)

lemma consume_parts:
  "\<exists>db1 db2. same_accounts db db1 \<and> same_revocations db db1 \<and>
     (db2 = db1 \<or> db2 = update_user (tk_user_id t) (recovered_user i) db1) \<and>
     same_accounts db2 (snd (consume_batch i nonce audit t db)) \<and>
     same_revocations db2 (snd (consume_batch i nonce audit t db))"
proof -
  let ?db1 = "snd (spend_token i (tk_id t) nonce db)"
  let ?db2 = "if spent_with (tk_id t) nonce ?db1 \<and> list_ex (\<lambda>u. us_id u = tk_user_id t \<and> us_is_active u) (pt_users ?db1)
    then update_user (tk_user_id t) (recovered_user i) ?db1 else ?db1"
  have "same_accounts db ?db1 \<and> same_revocations db ?db1"
    by (simp add: spend_token_def Let_def same_accounts_def same_revocations_def)
  moreover have "same_accounts ?db2 (snd (consume_batch i nonce audit t db)) \<and>
      same_revocations ?db2 (snd (consume_batch i nonce audit t db))"
    by (simp add: consume_batch_def Let_def same_accounts_def same_revocations_def split: prod.split)
  ultimately show ?thesis by (intro exI [of _ ?db1] exI [of _ ?db2]) auto
qed

lemma consume_ok: "accounts_ok db \<Longrightarrow> accounts_ok (snd (consume_batch i nonce audit t db))"
  using consume_parts [of db t i nonce audit] update_user_ok [OF _ keeps_user_edits(3)] same_accounts_ok by metis

lemma deactivate_ok: "accounts_ok db \<Longrightarrow> accounts_ok (deactivate_batch audit i h s at db)"
proof -
  assume "accounts_ok db"
  then have "accounts_ok (void_recovery r at i (update_mailboxes P (\<lambda>m. m\<lparr>mb_is_active := b, mb_updated_at := at\<rparr>)
      (update_user i (deactivated_user h s at) db)))" for r P b
    by (intro void_recovery_ok update_mailboxes_ok update_user_ok) simp_all
  moreover have "same_accounts db' (audit_deactivation audit i at db')" for db'
    by (simp add: audit_deactivation_def same_accounts_def)
  ultimately show ?thesis unfolding deactivate_batch_def using same_accounts_ok by blast
qed

lemma accounts_op_ok: "accounts_ok db \<Longrightarrow> accounts_ok (run_op op db)"
proof (cases op)
  case (Op_delete_user i)
  assume "accounts_ok db"
  then show ?thesis unfolding Op_delete_user
    by (auto simp: deleteUser_def split: option.split intro: delete_user_ok)
next
  case (Op_activate now i)
  assume "accounts_ok db"
  then show ?thesis unfolding Op_activate
    by (auto simp: lifecycle_activate_def Let_def intro!: update_mailboxes_ok update_user_ok)
next
  case (Op_recovery r)
  assume "accounts_ok db"
  then show ?thesis unfolding Op_recovery using recovery_same same_accounts_ok by auto
next
  case (Op_complete row token)
  assume "accounts_ok db"
  then show ?thesis unfolding Op_complete
    by (auto simp: complete_revocation_def same_accounts_def intro: same_accounts_ok [rotated])
next
  case (Op_tick t)
  assume "accounts_ok db"
  then show ?thesis unfolding Op_tick
    by (auto simp: same_accounts_def intro: same_accounts_ok [rotated])
qed (auto simp: create_ok replaceUserCredentials_def setMailboxActive_def removeMembership_def
  unregisterMailbox_def claimBatch_def Let_def renewLease_def retry_revocation_def add_mailbox_ok
  intro!: void_recovery_ok update_user_ok update_mailboxes_ok deactivate_ok consume_ok add_membership_ok
    delete_memberships_ok delete_mailboxes_ok
  intro: same_accounts_ok [OF revocation_edit_accounts])

lemma accounts_run_ok: "accounts_ok db \<Longrightarrow> accounts_ok (run_ops ops db)"
  by (rule run_ops_invariant) (rule accounts_op_ok)

end
