(* ===== verification/Access_Revocation.thy ===== *)
theory Access_Revocation
  imports Accounts_Invariant
begin

text \<open>
  Whatever takes live access away leaves a revocation in the outbox: the triggers cover every way a
  user can lose a mailbox, administrators' access by role included. Only the rollback of a failed
  provisioning deletes rows without one.
\<close>

subsection \<open>Keeping the revocations table in order\<close>

definition edits_revocation :: "(revocation_row \<Rightarrow> revocation_row) \<Rightarrow> bool" where
  "edits_revocation f \<longleftrightarrow> (\<forall>r. av_id (f r) = av_id r \<and> revocation_key (f r) = revocation_key r \<and>
     (revocation_checks r \<longrightarrow> revocation_checks (f r)))"

lemma edits_revocation_fields [simp]:
  "edits_revocation (leased_revocation token now)"
  "edits_revocation (\<lambda>r. r\<lparr>av_next_attempt_at := t, av_lease_token := None, av_lease_expires_at := None,
     av_last_error_code := e, av_updated_at := now\<rparr>)"
  by (auto simp: edits_revocation_def leased_revocation_def revocation_key_def revocation_checks_def)

lemma edit_revocations_ok:
  assumes "revocations_ok db" and "\<And>r. P r \<Longrightarrow> av_id (f r) = av_id r \<and> (revocation_checks r \<longrightarrow> revocation_checks (f r))"
  shows "revocations_ok (edit_revocations P f db)"
  using assms by (auto simp: revocations_ok_def edit_revocations_def map_update_same set_update_where)

lemma holds_lease: "holds_revocation row token r \<Longrightarrow> av_lease_token r = Some token"
  by (simp add: holds_revocation_def)

lemma filter_revocations_ok:
  "revocations_ok db \<Longrightarrow> revocations_ok (db\<lparr>pt_revocations := filter P (pt_revocations db)\<rparr>)"
  by (auto simp: revocations_ok_def distinct_map_filter)

lemma rest_revocations_ok:
  "revocations_ok db \<Longrightarrow> pt_revocations db' = pt_revocations db \<Longrightarrow> pt_random db' = pt_random db \<Longrightarrow>
     pt_draws db' = pt_draws db \<Longrightarrow> revocations_ok db'"
  by (rule same_revocations_ok) (simp_all add: same_revocations_def)

lemma trigger_ops_ok:
  assumes "revocations_ok db"
  shows "revocations_ok (update_user i f db)" "revocations_ok (update_mailboxes P g db)"
    "revocations_ok (delete_memberships Q db)"
  unfolding portal_triggers
  by (auto split: option.split intro!: enqueued_ok keys_ok intro: rest_revocations_ok [OF assms] assms)

lemma delete_mailboxes_revocations_ok: "revocations_ok db \<Longrightarrow> revocations_ok (delete_mailboxes P db)"
  unfolding delete_mailboxes_def Let_def by (rule trigger_ops_ok) (rule rest_revocations_ok, simp_all)

lemma delete_user_revocations_ok:
  assumes "revocations_ok db" and "delete_user_row i db = Some db'"
  shows "revocations_ok db'"
  using assms
  by (auto simp: delete_user_row_def split: if_splits
      intro!: trigger_ops_ok delete_mailboxes_revocations_ok intro: rest_revocations_ok)

lemma deactivate_parts:
  "\<exists>db1. db1 = update_mailboxes (\<lambda>m. mb_owner_user_id m = Some i) (\<lambda>m. m\<lparr>mb_is_active := False, mb_updated_at := at\<rparr>)
       (update_user i (deactivated_user h s at) db) \<and>
     same_accounts db1 (deactivate_batch audit i h s at db) \<and> same_revocations db1 (deactivate_batch audit i h s at db)"
  by (simp add: deactivate_batch_def audit_deactivation_def void_recovery_def same_accounts_def same_revocations_def)

lemma revocations_op_ok: "revocations_ok db \<Longrightarrow> revocations_ok (run_op op db)"
proof (cases op)
  case (Op_delete_user i)
  assume "revocations_ok db"
  then show ?thesis unfolding Op_delete_user
    by (auto simp: deleteUser_def split: option.split intro: delete_user_revocations_ok)
next
  case (Op_deactivate audit i h s at)
  assume "revocations_ok db"
  then show ?thesis unfolding Op_deactivate
    using deactivate_parts [of i at h s db audit]
    by (auto intro: same_revocations_ok trigger_ops_ok)
next
  case (Op_consume i nonce audit t)
  assume "revocations_ok db"
  then show ?thesis unfolding Op_consume
    using consume_parts [of db t i nonce audit] trigger_ops_ok(1) same_revocations_ok by (cases "audit_taken audit db") (simp, simp, metis)
next
  case (Op_recovery r)
  assume "revocations_ok db"
  then show ?thesis unfolding Op_recovery using recovery_same same_revocations_ok by auto
next
  case (Op_claim t now token)
  assume "revocations_ok db"
  then show ?thesis unfolding Op_claim
    by (auto simp: claimBatch_def Let_def leased_revocation_def revocation_checks_def intro!: edit_revocations_ok)
next
  case (Op_renew row token now)
  assume "revocations_ok db"
  then show ?thesis unfolding Op_renew
    by (auto simp: renewLease_def Let_def revocation_checks_def dest: holds_lease intro!: edit_revocations_ok)
next
  case (Op_retry row token now err)
  assume "revocations_ok db"
  then show ?thesis unfolding Op_retry
    by (auto simp: retry_revocation_def revocation_checks_def intro!: edit_revocations_ok)
next
  case (Op_complete row token)
  assume "revocations_ok db"
  then show ?thesis unfolding Op_complete by (simp add: complete_revocation_def filter_revocations_ok)
next
  case (Op_activate now i)
  assume "revocations_ok db"
  then show ?thesis unfolding Op_activate
    by (auto simp: lifecycle_activate_def Let_def intro!: trigger_ops_ok)
qed (auto simp: createUser_def replaceUserCredentials_def void_recovery_def addMailbox_def addMembership_def
  setMailboxActive_def removeMembership_def unregisterMailbox_def Let_def
  intro!: trigger_ops_ok delete_mailboxes_revocations_ok intro: rest_revocations_ok)

subsection \<open>Lost access\<close>

text \<open>A row covers a user's access to a mailbox when its reconciliation looks at that user's sockets there.\<close>

definition covers :: "revocation_row \<Rightarrow> string \<Rightarrow> string \<Rightarrow> bool" where
  "covers r mailboxId userId \<longleftrightarrow> av_mailbox_id r = mailboxId \<and>
     (av_scope r = Scope_mailbox \<or> av_user_id r = Some userId)"

definition fresh_since :: "portal_db \<Rightarrow> revocation_row \<Rightarrow> bool" where
  "fresh_since db r \<longleftrightarrow> (\<exists>n\<ge>pt_draws db. av_id r = ''acr_'' @ pt_random db n)"

text \<open>From \<open>db\<close> to \<open>db'\<close>: rows stay, and every access that was lost has a new row.\<close>

definition rows_stay :: "portal_db \<Rightarrow> portal_db \<Rightarrow> bool" where
  "rows_stay db db' \<longleftrightarrow> (\<forall>r\<in>set (pt_revocations db). \<exists>r'\<in>set (pt_revocations db').
     av_id r' = av_id r \<and> revocation_key r' = revocation_key r)"

definition losses_queued :: "portal_db \<Rightarrow> portal_db \<Rightarrow> bool" where
  "losses_queued db db' \<longleftrightarrow> pt_random db' = pt_random db \<and> pt_draws db \<le> pt_draws db' \<and>
     (\<forall>k i v. js_lower k = k \<and> hasExactLiveMailboxAccess db k i (Some v) \<and>
        \<not> hasExactLiveMailboxAccess db' k i (Some v) \<longrightarrow>
        (\<exists>r\<in>set (pt_revocations db'). covers r k i \<and> fresh_since db r))"

text \<open>A row of \<open>db'\<close> comes from one of \<open>db\<close> or is new.\<close>

definition rows_derive :: "portal_db \<Rightarrow> portal_db \<Rightarrow> bool" where
  "rows_derive db db' \<longleftrightarrow> (\<forall>r'\<in>set (pt_revocations db'). fresh_since db r' \<or>
     (\<exists>r\<in>set (pt_revocations db). av_id r = av_id r' \<and> revocation_key r = revocation_key r'))"

lemma rows_derive_refl [simp]: "rows_derive db db"
  by (auto simp: rows_derive_def)

lemma fresh_since_mono:
  assumes "fresh_since b r" and "losses_queued a b"
  shows "fresh_since a r"
proof -
  from assms(1) obtain n where "pt_draws b \<le> n" "av_id r = ''acr_'' @ pt_random b n" by (auto simp: fresh_since_def)
  moreover have "pt_random b = pt_random a" "pt_draws a \<le> pt_draws b" using assms(2) by (auto simp: losses_queued_def)
  ultimately show ?thesis unfolding fresh_since_def by (intro exI [of _ n]) simp
qed

lemma fresh_since_id: "av_id r = av_id r' \<Longrightarrow> fresh_since db r = fresh_since db r'"
  by (simp add: fresh_since_def)

lemma rows_derive_trans:
  assumes "rows_derive a b" and "rows_derive b c" and "losses_queued a b"
  shows "rows_derive a c"
  unfolding rows_derive_def
proof
  fix r'' assume "r'' \<in> set (pt_revocations c)"
  with assms(2) consider "fresh_since b r''"
    | r' where "r' \<in> set (pt_revocations b)" "av_id r' = av_id r''" "revocation_key r' = revocation_key r''"
    unfolding rows_derive_def by blast
  then show "fresh_since a r'' \<or> (\<exists>r\<in>set (pt_revocations a). av_id r = av_id r'' \<and> revocation_key r = revocation_key r'')"
  proof cases
    case 1
    then show ?thesis using fresh_since_mono [OF _ assms(3)] by blast
  next
    case (2 r')
    from assms(1) 2(1) consider "fresh_since a r'"
      | r where "r \<in> set (pt_revocations a)" "av_id r = av_id r'" "revocation_key r = revocation_key r'"
      unfolding rows_derive_def by blast
    then show ?thesis using 2(2,3) fresh_since_id [OF 2(2), of a] by cases auto
  qed
qed

lemma covers_key: "revocation_key r' = revocation_key r \<Longrightarrow> covers r' k i = covers r k i"
  by (simp add: covers_def revocation_key_def)

lemma rows_stay_refl [simp]: "rows_stay db db"
  by (auto simp: rows_stay_def)

lemma rows_stay_trans: "rows_stay a b \<Longrightarrow> rows_stay b c \<Longrightarrow> rows_stay a c"
  unfolding rows_stay_def by metis

lemma losses_queuedD:
  assumes "losses_queued db db'" and "js_lower k = k" and "hasExactLiveMailboxAccess db k i (Some v)"
    and "\<not> hasExactLiveMailboxAccess db' k i (Some v)"
  obtains r where "r \<in> set (pt_revocations db')" "covers r k i" "fresh_since db r"
  using assms(1) [unfolded losses_queued_def, THEN conjunct2, THEN conjunct2, rule_format, OF conjI [OF assms(2) conjI [OF assms(3,4)]]]
  by (elim bexE conjE) (rule that)

lemma losses_queued_trans:
  assumes ab: "losses_queued a b" and bc: "losses_queued b c" and stay: "rows_stay b c"
  shows "losses_queued a c"
  unfolding losses_queued_def
proof (intro conjI allI impI)
  show "pt_random c = pt_random a" and "pt_draws a \<le> pt_draws c" using ab bc by (auto simp: losses_queued_def)
  fix k i v
  assume *: "js_lower k = k \<and> hasExactLiveMailboxAccess a k i (Some v) \<and> \<not> hasExactLiveMailboxAccess c k i (Some v)"
  show "\<exists>r\<in>set (pt_revocations c). covers r k i \<and> fresh_since a r"
  proof (cases "hasExactLiveMailboxAccess b k i (Some v)")
    case True
    with * obtain r where "r \<in> set (pt_revocations c)" "covers r k i" "fresh_since b r"
      using losses_queuedD [OF bc, of k i v] by metis
    then show ?thesis using fresh_since_mono [OF _ ab] by blast
  next
    case False
    with * obtain r where r: "r \<in> set (pt_revocations b)" "covers r k i" "fresh_since a r"
      using losses_queuedD [OF ab, of k i v] by metis
    with stay obtain r' where r': "r' \<in> set (pt_revocations c)" "av_id r' = av_id r" "revocation_key r' = revocation_key r"
      unfolding rows_stay_def by blast
    have "covers r' k i" "fresh_since a r'" using r(2,3) by (simp_all only: covers_key [OF r'(3)] fresh_since_def r'(2))
    with r'(1) show ?thesis by blast
  qed
qed

text \<open>One statement keeps the rows and queues the losses.\<close>

definition accounted :: "portal_db \<Rightarrow> portal_db \<Rightarrow> bool" where
  "accounted db db' \<longleftrightarrow> rows_stay db db' \<and> rows_derive db db' \<and> losses_queued db db'"

lemma accounted_trans: "accounted a b \<Longrightarrow> accounted b c \<Longrightarrow> accounted a c"
  unfolding accounted_def by (blast intro: rows_stay_trans rows_derive_trans losses_queued_trans)

lemma exact_iff:
  "js_lower k = k \<Longrightarrow> hasExactLiveMailboxAccess db k i (Some v) \<longleftrightarrow>
     (\<exists>u\<in>set (pt_users db). \<exists>m\<in>set (pt_mailboxes db). mb_id m = k \<and> us_id u = i \<and> us_is_active u \<and>
        us_session_version u = v \<and> mb_is_active m \<and> grants db u m)"
  by (simp add: hasExactLiveMailboxAccess_def list_ex_iff)

lemma same_accounts_exact:
  "same_accounts db db' \<Longrightarrow> hasExactLiveMailboxAccess db' k i v = hasExactLiveMailboxAccess db k i v"
  by (simp add: same_accounts_def hasExactLiveMailboxAccess_def grants_def split: option.split)

lemma same_accounted: "same_accounts db db' \<Longrightarrow> same_revocations db db' \<Longrightarrow> accounted db db'"
  by (simp add: accounted_def rows_stay_def rows_derive_def losses_queued_def same_accounts_exact)
    (auto simp: same_revocations_def)

lemma edit_accounted:
  assumes "\<And>r. P r \<Longrightarrow> av_id (f r) = av_id r \<and> revocation_key (f r) = revocation_key r"
  shows "accounted db (edit_revocations P f db)"
proof -
  have "\<exists>r'\<in>set (update_where P f rs). av_id r' = av_id r \<and> revocation_key r' = revocation_key r"
    if "r \<in> set rs" for r rs
    using that assms by (intro bexI [of _ "if P r then f r else r"]) (auto simp: update_where_def)
  moreover have "\<exists>r\<in>set rs. av_id r = av_id r' \<and> revocation_key r = revocation_key r'"
    if "r' \<in> set (update_where P f rs)" for r' rs
    using that assms by (force simp: update_where_def split: if_splits)
  moreover have "pt_draws db \<le> pt_draws (edit_revocations P f db) \<and> pt_random (edit_revocations P f db) = pt_random db"
    by (simp add: edit_revocations_def)
  ultimately show ?thesis
    by (simp add: accounted_def rows_stay_def rows_derive_def losses_queued_def
        same_accounts_exact [OF revocation_edit_accounts]) (simp add: edit_revocations_def)
qed

lemma more_access_accounted:
  assumes "same_revocations db db'" and "set (pt_users db) \<subseteq> set (pt_users db')"
    and "set (pt_mailboxes db) \<subseteq> set (pt_mailboxes db')" and "set (pt_memberships db) \<subseteq> set (pt_memberships db')"
  shows "accounted db db'"
proof -
  have "grants db' u m" if "grants db u m" for u m
    using that assms(4) by (auto simp: grants_def list_ex_iff)
  then have "hasExactLiveMailboxAccess db' k i (Some v)" if "js_lower k = k" "hasExactLiveMailboxAccess db k i (Some v)" for k i v
    using that assms(2,3) unfolding exact_iff [OF that(1)] by blast
  then show ?thesis using assms(1) by (auto simp: accounted_def rows_stay_def rows_derive_def losses_queued_def same_revocations_def)
qed

text \<open>New rows with the keys of a trigger.\<close>

lemma enqueued_stay: "rows_stay db db' \<Longrightarrow> rows_stay db (enqueued ks db')"
  by (auto simp: rows_stay_def)

lemma enqueued_fresh:
  assumes "k \<in> set ks"
  shows "\<exists>r\<in>set (pt_revocations (enqueued ks db)). revocation_key r = k \<and> fresh_since db r"
proof -
  from assms have "k \<in> set (map revocation_key (trigger_rows ks db))" by (simp add: trigger_keys)
  then obtain r where r: "r \<in> set (trigger_rows ks db)" "revocation_key r = k" by auto
  from r(1) have "av_id r \<in> set (map av_id (trigger_rows ks db))" by simp
  then have "fresh_since db r" unfolding trigger_ids by (auto simp: fresh_since_def)
  with r show ?thesis by auto
qed

lemma enqueued_accounted:
  assumes "same_revocations db db1"
    and "\<And>k i v. js_lower k = k \<Longrightarrow> hasExactLiveMailboxAccess db k i (Some v) \<Longrightarrow>
      \<not> hasExactLiveMailboxAccess db1 k i (Some v) \<Longrightarrow>
      (Scope_actor, k, Some i) \<in> set ks \<or> (Scope_mailbox, k, None) \<in> set ks"
  shows "accounted db (enqueued ks db1)"
proof -
  have stay: "rows_stay db (enqueued ks db1)"
    using assms(1) by (intro enqueued_stay) (auto simp: rows_stay_def same_revocations_def)
  have "fresh_since db1 r" if "r \<in> set (trigger_rows ks db1)" for r
  proof -
    have "av_id r \<in> set (map av_id (trigger_rows ks db1))" using that by simp
    then show ?thesis unfolding trigger_ids by (auto simp: fresh_since_def)
  qed
  then have derive: "rows_derive db (enqueued ks db1)"
    using assms(1) by (auto simp: rows_derive_def same_revocations_def fresh_since_def)
  have acc: "hasExactLiveMailboxAccess (enqueued ks db1) k i v = hasExactLiveMailboxAccess db1 k i v" for k i v
    by (rule same_accounts_exact) (simp add: same_accounts_def)
  have "\<exists>r\<in>set (pt_revocations (enqueued ks db1)). covers r k i \<and> fresh_since db r"
    if "js_lower k = k" "hasExactLiveMailboxAccess db k i (Some v)" "\<not> hasExactLiveMailboxAccess db1 k i (Some v)" for k i v
  proof -
    from assms(2) [OF that] obtain key where key: "key \<in> set ks"
      "key = (Scope_actor, k, Some i) \<or> key = (Scope_mailbox, k, None)" by blast
    from enqueued_fresh [OF key(1), of db1] obtain r where
      r: "r \<in> set (pt_revocations (enqueued ks db1))" "revocation_key r = key" "fresh_since db1 r" by blast
    moreover have "covers r k i" using r(2) key(2) by (auto simp: covers_def revocation_key_def)
    moreover have "fresh_since db r" using r(3) assms(1) by (simp add: fresh_since_def same_revocations_def)
    ultimately show ?thesis by blast
  qed
  then have "losses_queued db (enqueued ks db1)"
    using assms(1) by (auto simp: losses_queued_def acc same_revocations_def)
  with stay derive show ?thesis by (simp add: accounted_def)
qed

lemma update_user_accounted:
  assumes ok: "accounts_ok db" and f: "keeps_user f"
  shows "accounted db (update_user i f db)"
proof (cases "get_user i db")
  case None
  then show ?thesis by (simp add: portal_triggers same_accounted)
next
  case (Some old)
  let ?db1 = "db\<lparr>pt_users := update_where (\<lambda>u. us_id u = i) f (pt_users db)\<rparr>"
  have "(Scope_actor, k, Some j) \<in> set (user_keys old (f old) ?db1)"
    if k: "js_lower k = k" and was: "hasExactLiveMailboxAccess db k j (Some v)"
      and gone: "\<not> hasExactLiveMailboxAccess ?db1 k j (Some v)" for k j v
  proof -
    from was obtain u m where um: "u \<in> set (pt_users db)" "m \<in> set (pt_mailboxes db)" "mb_id m = k" "us_id u = j"
      "us_is_active u" "us_session_version u = v" "mb_is_active m" "grants db u m" unfolding exact_iff [OF k] by blast
    have g: "grants ?db1 (f u) m" "grants ?db1 u m" using um(8) f by (auto simp: grants_def keeps_user_def)
    have j: "j = i"
    proof (rule ccontr)
      assume "j \<noteq> i"
      then have "u \<in> set (pt_users ?db1)" using um(1,4) by (auto simp: set_update_where)
      with um g(2) gone show False unfolding exact_iff [OF k] by auto
    qed
    have "get_user j db = Some u" using um(1,4) by (simp add: get_user_iff [OF ok])
    then have u: "u = old" using Some j by simp
    have fu: "f u \<in> set (pt_users ?db1)" "us_id (f u) = j" using um(1,4) j f by (auto simp: set_update_where keeps_user_def)
    have lost: "us_session_version (f old) \<noteq> us_session_version old \<or> us_is_active old \<and> \<not> us_is_active (f old)"
    proof (rule ccontr)
      assume "\<not> ?thesis"
      with u um(5) have "us_is_active (f u)" "us_session_version (f u) = v" using um(6) by auto
      with fu um(2,3,7) g(1) gone show False unfolding exact_iff [OF k] by auto
    qed
    have "k \<in> set (user_mailboxes old (f old) ?db1)"
      using um f unfolding u grants_def keeps_user_def user_mailboxes_def by (auto simp: list_ex_iff image_iff)
    with lost fu(2) show ?thesis unfolding user_keys_def u by auto
  qed
  then show ?thesis
    unfolding portal_triggers Some option.case by (intro enqueued_accounted) (auto simp: same_revocations_def)
qed

lemma update_mailboxes_accounted:
  assumes f: "keeps_mailbox f"
  shows "accounted db (update_mailboxes P f db)"
proof -
  let ?db1 = "db\<lparr>pt_mailboxes := update_where P f (pt_mailboxes db)\<rparr>"
  have "(Scope_mailbox, k, None) \<in> set (mailbox_keys P f db)"
    if k: "js_lower k = k" and was: "hasExactLiveMailboxAccess db k j (Some v)"
      and gone: "\<not> hasExactLiveMailboxAccess ?db1 k j (Some v)" for k j v
  proof -
    from was obtain u m where um: "u \<in> set (pt_users db)" "m \<in> set (pt_mailboxes db)" "mb_id m = k" "us_id u = j"
      "us_is_active u" "us_session_version u = v" "mb_is_active m" "grants db u m" unfolding exact_iff [OF k] by blast
    have g: "grants ?db1 u (f m)" "grants ?db1 u m" using um(8) f by (auto simp: grants_def keeps_mailbox_def)
    have "P m"
    proof (rule ccontr)
      assume "\<not> P m"
      then have "m \<in> set (pt_mailboxes ?db1)" using um(2) by (auto simp: set_update_where)
      with um g(2) gone show False unfolding exact_iff [OF k] by auto
    qed
    moreover from this have fm: "f m \<in> set (pt_mailboxes ?db1)" "mb_id (f m) = k"
      using um(2,3) f by (auto simp: set_update_where keeps_mailbox_def)
    moreover have "\<not> mb_is_active (f m)"
      using fm um g(1) gone unfolding exact_iff [OF k] by auto
    ultimately show ?thesis using um(2,7) by (auto simp: mailbox_keys_def image_iff intro!: bexI [of _ m])
  qed
  then show ?thesis unfolding portal_triggers by (intro enqueued_accounted) (auto simp: same_revocations_def)
qed

lemma delete_memberships_accounted: "accounted db (delete_memberships P db)"
proof -
  let ?db1 = "db\<lparr>pt_memberships := filter (\<lambda>mm. \<not> P mm) (pt_memberships db)\<rparr>"
  have "(Scope_actor, k, Some j) \<in> set (membership_keys P db)"
    if k: "js_lower k = k" and was: "hasExactLiveMailboxAccess db k j (Some v)"
      and gone: "\<not> hasExactLiveMailboxAccess ?db1 k j (Some v)" for k j v
  proof -
    from was obtain u m where um: "u \<in> set (pt_users db)" "m \<in> set (pt_mailboxes db)" "mb_id m = k" "us_id u = j"
      "us_is_active u" "us_session_version u = v" "mb_is_active m" "grants db u m" unfolding exact_iff [OF k] by blast
    with gone have "\<not> grants ?db1 u m" unfolding exact_iff [OF k] by auto
    with um(8) obtain mm where "mm \<in> set (pt_memberships db)" "P mm" "mm_mailbox_id mm = k" "mm_user_id mm = j"
      using um(3,4) by (auto simp: grants_def list_ex_iff)
    then show ?thesis by (force simp: membership_keys_def)
  qed
  then show ?thesis unfolding portal_triggers by (intro enqueued_accounted) (auto simp: same_revocations_def)
qed

text \<open>The two rollbacks, which delete a mailbox or a user, and the completion of a row are the exceptions.\<close>

fun rollback :: "portal_op \<Rightarrow> bool" where
  "rollback (Op_delete_user _) = True"
| "rollback (Op_unregister _) = True"
| "rollback _ = False"

fun completes :: "portal_op \<Rightarrow> bool" where
  "completes (Op_complete _ _) = True"
| "completes _ = False"

lemma void_recovery_accounted: "accounted db (void_recovery reason at i db)"
  using void_recovery_same by (blast intro: same_accounted)

lemma op_accounted:
  assumes ok: "accounts_ok db" and "\<not> rollback op" and "\<not> completes op"
  shows "accounted db (run_op op db)"
proof (cases op)
  case (Op_create uuid now i)
  show ?thesis unfolding Op_create
    by (auto simp: createUser_def Let_def same_accounted same_revocations_def intro!: more_access_accounted)
next
  case (Op_password now i h s confirm)
  show ?thesis unfolding Op_password run_op.simps replaceUserCredentials_def
    by (rule accounted_trans [OF update_user_accounted void_recovery_accounted]) (simp_all add: ok)
next
  case (Op_deactivate audit i h s at)
  have "accounted db (update_mailboxes (\<lambda>m. mb_owner_user_id m = Some i)
      (\<lambda>m. m\<lparr>mb_is_active := False, mb_updated_at := at\<rparr>) (update_user i (deactivated_user h s at) db))"
    by (rule accounted_trans [OF update_user_accounted update_mailboxes_accounted]) (simp_all add: ok)
  then show ?thesis unfolding Op_deactivate
    using deactivate_parts [of i at h s db audit]
    by (auto simp: same_accounted intro: accounted_trans [OF _ same_accounted])
next
  case (Op_activate now i)
  show ?thesis unfolding Op_activate
    by (auto simp: lifecycle_activate_def Let_def ok
        intro!: accounted_trans [OF update_user_accounted update_mailboxes_accounted] update_mailboxes_accounted)
next
  case (Op_consume i nonce audit t)
  obtain db1 db2 where parts: "same_accounts db db1" "same_revocations db db1"
    "db2 = db1 \<or> db2 = update_user (tk_user_id t) (recovered_user i) db1"
    "same_accounts db2 (snd (consume_batch i nonce audit t db))"
    "same_revocations db2 (snd (consume_batch i nonce audit t db))"
    using consume_parts [of db t i nonce audit] by blast
  have "accounted db1 db2"
    using parts(3) update_user_accounted [OF same_accounts_ok [OF parts(1) ok], of "recovered_user i"]
    by (auto simp: same_accounted)
  then have "accounted db (snd (consume_batch i nonce audit t db))"
    using parts by (blast intro: accounted_trans same_accounted)
  then show ?thesis unfolding Op_consume by (simp add: same_accounted)
next
  case (Op_register address now)
  show ?thesis unfolding Op_register
    by (auto simp: addMailbox_def same_accounted same_revocations_def intro!: more_access_accounted)
next
  case (Op_add_member m u now)
  show ?thesis unfolding Op_add_member
    by (auto simp: addMembership_def same_accounted same_revocations_def intro!: more_access_accounted)
next
  case (Op_claim t now token)
  show ?thesis unfolding Op_claim
    by (auto simp: claimBatch_def Let_def leased_revocation_def revocation_key_def intro!: edit_accounted)
next
  case (Op_renew row token now)
  show ?thesis unfolding Op_renew
    by (auto simp: renewLease_def Let_def revocation_key_def intro!: edit_accounted)
next
  case (Op_retry row token now err)
  show ?thesis unfolding Op_retry
    by (auto simp: retry_revocation_def revocation_key_def intro!: edit_accounted)
next
  case (Op_recovery r)
  show ?thesis unfolding Op_recovery using recovery_same by (auto intro: same_accounted)
next
  case (Op_tick t)
  show ?thesis unfolding Op_tick by (rule same_accounted) (simp_all add: same_accounts_def same_revocations_def)
qed (use assms in \<open>auto simp: setMailboxActive_def removeMembership_def
  intro!: update_mailboxes_accounted delete_memberships_accounted\<close>)

end
