(* ===== verification/Agent_Sockets.thy ===== *)
theory Agent_Sockets
  imports Mailbox_Access
begin

text \<open>
  The sockets of a mailbox's agent (\<^verbatim>\<open>workers/lib/agent-frame-authorization.ts\<close>, the handlers in
  \<^verbatim>\<open>workers/agent/index.ts\<close>) and the model runs they started (\<^verbatim>\<open>agent-active-runs.ts\<close>). A list of
  connections holds the open ones; closing a connection removes it.
\<close>

subsection \<open>Connections\<close>

record agent_conn =
  cn_id :: string
  cn_actorUserId :: "string option"
  cn_actorSessionVersion :: "int option"
  cn_liveAuthorized :: bool

text \<open>The header a connection is admitted with: a positive integer, or nothing.\<close>

definition parseBoundSessionVersion :: "js_number option \<Rightarrow> int option" where
  "parseBoundSessionVersion v =
     (case v of Some (JInt n) \<Rightarrow> if 1 \<le> n then Some n else None | _ \<Rightarrow> None)"

definition hasLiveAgentMailboxAccess :: "portal_db \<Rightarrow> string \<Rightarrow> agent_conn \<Rightarrow> bool" where
  "hasLiveAgentMailboxAccess db mailboxId c =
     (if \<not> truthy (cn_actorUserId c) \<or> cn_actorSessionVersion c = None then False
      else hasExactLiveMailboxAccess db mailboxId (the (cn_actorUserId c)) (cn_actorSessionVersion c))"

definition unauthorizedAgentConnectionIds :: "agent_conn list \<Rightarrow> string list \<Rightarrow> string list" where
  "unauthorizedAgentConnectionIds conns alreadyExcluded =
     remdups (alreadyExcluded @ map cn_id (filter (\<lambda>c. \<not> cn_liveAuthorized c) conns))"

text \<open>\<^verbatim>\<open>broadcast\<close> reaches every connection that is not excluded.\<close>

definition broadcast_receivers :: "agent_conn list \<Rightarrow> string list \<Rightarrow> agent_conn list" where
  "broadcast_receivers conns without =
     filter (\<lambda>c. cn_id c \<notin> set (unauthorizedAgentConnectionIds conns without)) conns"

definition agentConnectionIdsToReconcile :: "agent_conn list \<Rightarrow> string \<Rightarrow> int option \<Rightarrow> string list" where
  "agentConnectionIdsToReconcile conns userId currentSessionVersion =
     map cn_id (filter (\<lambda>c. cn_actorUserId c = Some userId \<and>
       (currentSessionVersion = None \<or> cn_actorSessionVersion c \<noteq> currentSessionVersion)) conns)"

text \<open>
  Both reconciliations first take the authorization of the connections they look at away, remembering
  which had it, then ask the database, close the stale connections and give the others theirs back.
\<close>

definition suspend :: "(agent_conn \<Rightarrow> bool) \<Rightarrow> agent_conn list \<Rightarrow> agent_conn list" where
  "suspend P conns = map (\<lambda>c. if P c then c\<lparr>cn_liveAuthorized := False\<rparr> else c) conns"

definition previously :: "(agent_conn \<Rightarrow> bool) \<Rightarrow> agent_conn list \<Rightarrow> string list" where
  "previously P conns = map cn_id (filter (\<lambda>c. P c \<and> cn_liveAuthorized c) conns)"

definition resume :: "(agent_conn \<Rightarrow> bool) \<Rightarrow> string list \<Rightarrow> string list \<Rightarrow> agent_conn list \<Rightarrow> agent_conn list" where
  "resume P stale previous conns =
     map (\<lambda>c. if P c \<and> cn_id c \<in> set previous then c\<lparr>cn_liveAuthorized := True\<rparr> else c)
       (filter (\<lambda>c. \<not> (P c \<and> cn_id c \<in> set stale)) conns)"

definition of_actor :: "string \<Rightarrow> agent_conn \<Rightarrow> bool" where
  "of_actor userId c \<longleftrightarrow> cn_actorUserId c = Some userId"

definition actor_end :: "string \<Rightarrow> string list \<Rightarrow> int option \<Rightarrow> agent_conn list \<Rightarrow> agent_conn list" where
  "actor_end userId previous currentSessionVersion conns =
     resume (of_actor userId)
       (agentConnectionIdsToReconcile (filter (of_actor userId) conns) userId currentSessionVersion)
       previous conns"

text \<open>\<open>answer\<close> is what the version query returned, \<open>None\<close> when it threw.\<close>

definition reconcileAgentActorConnections ::
  "int option option \<Rightarrow> string \<Rightarrow> agent_conn list \<Rightarrow> bool \<times> agent_conn list" where
  "reconcileAgentActorConnections answer userId conns =
     (let previous = previously (of_actor userId) conns; suspended = suspend (of_actor userId) conns
      in case answer of
           None \<Rightarrow> (False, suspended)
         | Some currentSessionVersion \<Rightarrow> (True, actor_end userId previous currentSessionVersion suspended))"

text \<open>
  The mailbox reconciliation asks whether the mailbox is active and then for the current version of
  every user that has a connection; \<open>versions\<close> are those answers.
\<close>

definition authorized_ids :: "(string \<Rightarrow> int option) \<Rightarrow> agent_conn list \<Rightarrow> string list" where
  "authorized_ids versions conns = map cn_id (filter (\<lambda>c. truthy (cn_actorUserId c) \<and>
     cn_actorSessionVersion c \<noteq> None \<and>
     cn_actorSessionVersion c = versions (the (cn_actorUserId c))) conns)"

definition mailbox_end :: "string list \<Rightarrow> string list \<Rightarrow> agent_conn list \<Rightarrow> agent_conn list" where
  "mailbox_end authorized previous conns =
     resume (\<lambda>_. True) (filter (\<lambda>i. i \<notin> set authorized) (map cn_id conns)) previous conns"

definition reconcileAgentMailboxConnections ::
  "bool option \<Rightarrow> (string \<Rightarrow> int option option) \<Rightarrow> agent_conn list \<Rightarrow> bool \<times> agent_conn list" where
  "reconcileAgentMailboxConnections active versions conns =
     (let previous = previously (\<lambda>_. True) conns; suspended = suspend (\<lambda>_. True) conns;
          users = remdups (List.map_filter cn_actorUserId (filter (\<lambda>c. truthy (cn_actorUserId c)) conns))
      in case active of
           None \<Rightarrow> (False, suspended)
         | Some False \<Rightarrow> (True, mailbox_end [] previous suspended)
         | Some True \<Rightarrow>
             if list_ex (\<lambda>u. versions u = None) users then (False, suspended)
             else (True, mailbox_end (authorized_ids (\<lambda>u. the (versions u)) suspended) previous suspended))"

subsection \<open>Frames and admission\<close>

text \<open>What an incoming frame leads to: whether it is delegated, and the connection afterwards, if still open.\<close>

datatype frame_end = Frame_delegated | Frame_closed int

definition runAuthorizedAgentFrame :: "bool option \<Rightarrow> agent_conn \<Rightarrow> frame_end \<times> agent_conn option" where
  "runAuthorizedAgentFrame answer c =
     (let c1 = c\<lparr>cn_liveAuthorized := False\<rparr>
      in case answer of
           None \<Rightarrow> (Frame_closed 1011, None)
         | Some False \<Rightarrow> (Frame_closed 4403, None)
         | Some True \<Rightarrow> (Frame_delegated, Some (c1\<lparr>cn_liveAuthorized := True\<rparr>)))"

text \<open>
  Admission holds the connection's output back: it is released once the check has passed on both sides
  of the framework's own connect handler, and discarded otherwise. \<open>outcome\<close> is that handler's.
\<close>

definition runAuthorizedAgentAdmission ::
  "bool option \<Rightarrow> 'e + unit \<Rightarrow> bool option \<Rightarrow> agent_conn \<Rightarrow> bool \<times> frame_end \<times> agent_conn option" where
  "runAuthorizedAgentAdmission before outcome later c =
     (case runLiveAuthorizedRead before outcome later of
        Inr _ \<Rightarrow> (True, Frame_delegated, Some (c\<lparr>cn_liveAuthorized := True\<rparr>))
      | Inl Live_revoked \<Rightarrow> (False, Frame_closed 4403, None)
      | Inl Live_session_gone \<Rightarrow> (False, Frame_closed 4403, None)
      | Inl Live_unavailable \<Rightarrow> (False, Frame_closed 1011, None)
      | Inl (Live_read_failed e) \<Rightarrow> (False, Frame_closed 1011, None))"

text \<open>The quarantine: messages are kept, up to 64 of them and 256 KiB in all; one more throws.\<close>

record quarantine =
  qu_pending :: "string list"
  qu_bytes :: nat

definition quarantined_send :: "string \<Rightarrow> nat \<Rightarrow> quarantine \<Rightarrow> bool \<times> quarantine" where
  "quarantined_send message bytes q =
     (let q1 = q\<lparr>qu_bytes := qu_bytes q + bytes\<rparr>
      in if length (qu_pending q1) \<ge> 64 \<or> qu_bytes q1 > 256 * 1024 then (False, q1)
         else (True, q1\<lparr>qu_pending := qu_pending q1 @ [message]\<rparr>))"

subsection \<open>Active runs\<close>

text \<open>
  A run knows the connection, user and version it was admitted with; \<open>rn_abortSource\<close> is set when its
  signal is aborted. A handle names one run, also after the registry has replaced it.
\<close>

datatype abort_source = Abort_client | Abort_revocation

record active_run =
  rn_handle :: nat
  rn_requestId :: string
  rn_connectionId :: string
  rn_actorUserId :: string
  rn_actorSessionVersion :: int
  rn_abortSource :: "abort_source option"

text \<open>The registry's map, and the runs it has replaced or finished, which still have their signals.\<close>

record run_registry =
  rr_runs :: "active_run list"
  rr_others :: "active_run list"

definition abort_run :: "abort_source \<Rightarrow> active_run \<Rightarrow> active_run" where
  "abort_run source r = (if rn_abortSource r = None then r\<lparr>rn_abortSource := Some source\<rparr> else r)"

definition same_key :: "active_run \<Rightarrow> active_run \<Rightarrow> bool" where
  "same_key r r' \<longleftrightarrow> rn_connectionId r = rn_connectionId r' \<and> rn_requestId r = rn_requestId r'"

definition begin_run :: "active_run \<Rightarrow> bool \<Rightarrow> run_registry \<Rightarrow> run_registry" where
  "begin_run run clientAborted rr =
     (let run0 = run\<lparr>rn_abortSource := (if clientAborted then Some Abort_client else None)\<rparr>
      in \<lparr>rr_runs = filter (\<lambda>r. \<not> same_key run r) (rr_runs rr) @ [run0],
          rr_others = rr_others rr @ map (abort_run Abort_client) (filter (same_key run) (rr_runs rr))\<rparr>)"

definition finish_run :: "nat \<Rightarrow> run_registry \<Rightarrow> run_registry" where
  "finish_run handle rr =
     \<lparr>rr_runs = filter (\<lambda>r. rn_handle r \<noteq> handle) (rr_runs rr),
      rr_others = rr_others rr @ filter (\<lambda>r. rn_handle r = handle) (rr_runs rr)\<rparr>"

text \<open>The client's own signal aborts the run it was registered with, until that run is finished.\<close>

definition client_abort :: "nat \<Rightarrow> run_registry \<Rightarrow> run_registry" where
  "client_abort handle rr =
     rr\<lparr>rr_runs := update_where (\<lambda>r. rn_handle r = handle) (abort_run Abort_client) (rr_runs rr)\<rparr>"

definition abort_where :: "(active_run \<Rightarrow> bool) \<Rightarrow> run_registry \<Rightarrow> run_registry" where
  "abort_where P rr = rr\<lparr>rr_runs := update_where P (abort_run Abort_revocation) (rr_runs rr)\<rparr>"

definition abortStaleActorRuns :: "string \<Rightarrow> int option \<Rightarrow> run_registry \<Rightarrow> run_registry" where
  "abortStaleActorRuns actorUserId currentSessionVersion = abort_where (\<lambda>r.
     rn_actorUserId r = actorUserId \<and>
     (case currentSessionVersion of None \<Rightarrow> True | Some v \<Rightarrow> rn_actorSessionVersion r \<noteq> v))"

definition abortActorRuns :: "string \<Rightarrow> run_registry \<Rightarrow> run_registry" where
  "abortActorRuns actorUserId = abort_where (\<lambda>r. rn_actorUserId r = actorUserId)"

definition abortUnauthorizedConnectionRuns :: "string list \<Rightarrow> run_registry \<Rightarrow> run_registry" where
  "abortUnauthorizedConnectionRuns authorizedConnectionIds =
     abort_where (\<lambda>r. rn_connectionId r \<notin> set authorizedConnectionIds)"

definition abortAll :: "run_registry \<Rightarrow> run_registry" where
  "abortAll = abort_where (\<lambda>_. True)"

end
