(* ===== verification/Agent_System.thy ===== *)
theory Agent_System
  imports Access_Revocation Agent_Sockets
begin

text \<open>
  The accounts database, the agents with their sockets and the workers that drain the revocation outbox,
  as one system. Each event is something that happens without interruption: a transaction, the answer of
  the database to a query, a message delivered to an agent. A reconciliation runs under
  \<^verbatim>\<open>blockConcurrencyWhile\<close>, so an agent runs one at a time and takes no other message meanwhile; the answer
  of a check that was asked before can still be on its way.
\<close>

subsection \<open>State\<close>

text \<open>A reconciliation under way: the row it was called for, and the answers it has so far.\<close>

record reconciliation =
  rc_row :: revocation_row
  rc_previous :: "string list"
  rc_users :: "string list"
  rc_active :: "bool option"
  rc_versions :: "string \<Rightarrow> int option option"

text \<open>
  \<open>ay_granted\<close> holds the connections a check has answered yes for while the answer is not delivered yet,
  \<open>ay_hand\<close> the rows claims have returned, \<open>ay_done\<close> the ids of rows whose agent call has succeeded.
\<close>

record agent_system =
  ay_db :: portal_db
  ay_conns :: "string \<Rightarrow> agent_conn list"
  ay_granted :: "string \<Rightarrow> string list"
  ay_task :: "string \<Rightarrow> reconciliation option"
  ay_hand :: "revocation_row list"
  ay_done :: "string list"

definition rc_actor :: "reconciliation \<Rightarrow> string option" where
  "rc_actor t = (if av_scope (rc_row t) = Scope_actor then av_user_id (rc_row t) else None)"

definition concerns :: "reconciliation \<Rightarrow> agent_conn \<Rightarrow> bool" where
  "concerns t c = (case rc_actor t of None \<Rightarrow> True | Some u \<Rightarrow> of_actor u c)"

definition begun :: "revocation_row \<Rightarrow> agent_conn list \<Rightarrow> reconciliation" where
  "begun row conns =
     (let t = \<lparr>rc_row = row, rc_previous = [], rc_users = [], rc_active = None, rc_versions = (\<lambda>u. None)\<rparr>
      in t\<lparr>rc_previous := previously (concerns t) conns,
           rc_users := (case rc_actor t of
              Some u \<Rightarrow> [u]
            | None \<Rightarrow> remdups (List.map_filter cn_actorUserId (filter (\<lambda>c. truthy (cn_actorUserId c)) conns)))\<rparr>)"

text \<open>The connections after the reconciliation, once it has all the answers it waits for.\<close>

definition reconciled :: "reconciliation \<Rightarrow> agent_conn list \<Rightarrow> agent_conn list option" where
  "reconciled t conns =
     (case rc_actor t of
        Some u \<Rightarrow> map_option (\<lambda>v. actor_end u (rc_previous t) v conns) (rc_versions t u)
      | None \<Rightarrow>
          (case rc_active t of
             None \<Rightarrow> None
           | Some False \<Rightarrow> Some (mailbox_end [] (rc_previous t) conns)
           | Some True \<Rightarrow>
               if list_ex (\<lambda>u. rc_versions t u = None) (rc_users t) then None
               else Some (mailbox_end (authorized_ids (\<lambda>u. the (rc_versions t u)) conns) (rc_previous t) conns)))"

subsection \<open>Events\<close>

datatype agent_event =
  Ae_op portal_op
| Ae_connect string agent_conn
| Ae_frame string string
| Ae_grant string string
| Ae_mark string string
| Ae_close string string
| Ae_start string revocation_row
| Ae_active string
| Ae_version string string
| Ae_finish string
| Ae_abort string

definition set_live :: "bool \<Rightarrow> string \<Rightarrow> agent_conn list \<Rightarrow> agent_conn list" where
  "set_live b i = update_where (\<lambda>c. cn_id c = i) (\<lambda>c. c\<lparr>cn_liveAuthorized := b\<rparr>)"

fun claimed_rows :: "portal_op \<Rightarrow> portal_db \<Rightarrow> revocation_row list" where
  "claimed_rows (Op_claim t now token) db = fst (claimBatch t now token db)"
| "claimed_rows _ _ = []"

text \<open>
  Rollbacks of a failed provisioning are left out, and a worker only completes a row whose agent call
  has succeeded.
\<close>

definition admitted_op :: "string list \<Rightarrow> portal_op \<Rightarrow> bool" where
  "admitted_op finished op \<longleftrightarrow> \<not> rollback op \<and>
     (case op of Op_complete row token \<Rightarrow> av_id row \<in> set finished | _ \<Rightarrow> True)"

text \<open>An event that is not possible leaves the system as it is.\<close>

fun agent_step :: "agent_event \<Rightarrow> agent_system \<Rightarrow> agent_system" where
  "agent_step (Ae_op op) s =
     (if admitted_op (ay_done s) op
      then s\<lparr>ay_db := run_op op (ay_db s), ay_hand := ay_hand s @ claimed_rows op (ay_db s)\<rparr> else s)"
| "agent_step (Ae_connect m c) s =
     (if ay_task s m = None \<and> cn_id c \<notin> set (map cn_id (ay_conns s m)) \<union> set (ay_granted s m)
      then s\<lparr>ay_conns := (ay_conns s)(m := ay_conns s m @ [c\<lparr>cn_liveAuthorized := False\<rparr>])\<rparr> else s)"
| "agent_step (Ae_frame m i) s =
     (if ay_task s m = None then s\<lparr>ay_conns := (ay_conns s)(m := set_live False i (ay_conns s m))\<rparr> else s)"
| "agent_step (Ae_grant m i) s =
     (if list_ex (\<lambda>c. cn_id c = i \<and> hasLiveAgentMailboxAccess (ay_db s) m c) (ay_conns s m)
      then s\<lparr>ay_granted := (ay_granted s)(m := i # ay_granted s m)\<rparr> else s)"
| "agent_step (Ae_mark m i) s =
     (if ay_task s m = None \<and> i \<in> set (ay_granted s m)
      then s\<lparr>ay_conns := (ay_conns s)(m := set_live True i (ay_conns s m)),
             ay_granted := (ay_granted s)(m := filter (\<lambda>j. j \<noteq> i) (ay_granted s m))\<rparr> else s)"
| "agent_step (Ae_close m i) s =
     s\<lparr>ay_conns := (ay_conns s)(m := filter (\<lambda>c. cn_id c \<noteq> i) (ay_conns s m))\<rparr>"
| "agent_step (Ae_start m row) s =
     (if ay_task s m = None \<and> row \<in> set (ay_hand s) \<and> av_mailbox_id row = m \<and>
         (av_scope row = Scope_actor \<longrightarrow> truthy (av_user_id row))
      then let t = begun row (ay_conns s m)
           in s\<lparr>ay_task := (ay_task s)(m := Some t),
                ay_conns := (ay_conns s)(m := suspend (concerns t) (ay_conns s m))\<rparr> else s)"
| "agent_step (Ae_active m) s =
     (case ay_task s m of
        None \<Rightarrow> s
      | Some t \<Rightarrow>
          if rc_actor t = None \<and> rc_active t = None
          then s\<lparr>ay_task := (ay_task s)(m := Some (t\<lparr>rc_active := Some (isAgentMailboxActive (ay_db s) m)\<rparr>))\<rparr> else s)"
| "agent_step (Ae_version m u) s =
     (case ay_task s m of
        None \<Rightarrow> s
      | Some t \<Rightarrow>
          if rc_versions t u = None \<and> u \<in> set (rc_users t) \<and> (rc_actor t = None \<longrightarrow> rc_active t = Some True)
          then s\<lparr>ay_task := (ay_task s)(m := Some (t\<lparr>rc_versions :=
              (rc_versions t)(u := Some (currentAgentActorSessionVersion (ay_db s) m u))\<rparr>))\<rparr> else s)"
| "agent_step (Ae_finish m) s =
     (case ay_task s m of
        None \<Rightarrow> s
      | Some t \<Rightarrow>
          (case reconciled t (ay_conns s m) of
             None \<Rightarrow> s
           | Some conns \<Rightarrow>
               s\<lparr>ay_task := (ay_task s)(m := None), ay_conns := (ay_conns s)(m := conns),
                 ay_done := av_id (rc_row t) # ay_done s\<rparr>))"
| "agent_step (Ae_abort m) s =
     (case ay_task s m of
        None \<Rightarrow> s
      | Some t \<Rightarrow> if reconciled t (ay_conns s m) = None then s\<lparr>ay_task := (ay_task s)(m := None)\<rparr> else s)"

definition agent_run :: "agent_event list \<Rightarrow> agent_system \<Rightarrow> agent_system" where
  "agent_run es s = fold agent_step es s"

definition agents_start :: "portal_db \<Rightarrow> agent_system" where
  "agents_start db =
     \<lparr>ay_db = db, ay_conns = (\<lambda>m. []), ay_granted = (\<lambda>m. []), ay_task = (\<lambda>m. None), ay_hand = [], ay_done = []\<rparr>"

lemma concerns_cases: "concerns t = (case rc_actor t of None \<Rightarrow> (\<lambda>_. True) | Some u \<Rightarrow> of_actor u)"
  by (auto simp: concerns_def fun_eq_iff split: option.split)

text \<open>Without anything in between, these events are the reconciliation as it is called.\<close>

lemma uninterrupted_actor:
  assumes "av_scope row = Scope_actor" and "av_user_id row = Some u"
  shows "reconciled ((begun row conns)\<lparr>rc_versions := (\<lambda>_. None)(u := Some v)\<rparr>) (suspend (of_actor u) conns) =
    Some (snd (reconcileAgentActorConnections (Some v) u conns))"
  using assms
  by (simp add: reconciled_def begun_def rc_actor_def reconcileAgentActorConnections_def concerns_cases Let_def)

lemma uninterrupted_mailbox:
  assumes "av_scope row = Scope_mailbox" and "fst (reconcileAgentMailboxConnections (Some b) versions conns)"
  shows "reconciled ((begun row conns)\<lparr>rc_active := Some b, rc_versions := versions\<rparr>) (suspend (\<lambda>_. True) conns) =
    Some (snd (reconcileAgentMailboxConnections (Some b) versions conns))"
  using assms
  by (cases b) (auto simp: reconciled_def begun_def rc_actor_def reconcileAgentMailboxConnections_def concerns_cases Let_def
      split: if_splits)

end
