(* ===== verification/Agent_Revocation.thy ===== *)
theory Agent_Revocation
  imports Agent_System
begin

text \<open>
  No agent keeps a socket whose access is gone without a row of the outbox that will close it. The
  invariant of the system of \<^verbatim>\<open>Agent_System\<close>, one lemma per event, and what it means for the calls that
  wait for a reconciliation.
\<close>

subsection \<open>The invariant\<close>

definition rightful :: "agent_system \<Rightarrow> string \<Rightarrow> agent_conn \<Rightarrow> bool" where
  "rightful s m c \<longleftrightarrow> hasLiveAgentMailboxAccess (ay_db s) m c"

text \<open>A connection that receives broadcasts, or will again without a new check.\<close>

definition held :: "agent_system \<Rightarrow> string \<Rightarrow> agent_conn \<Rightarrow> bool" where
  "held s m c \<longleftrightarrow> cn_liveAuthorized c \<or> cn_id c \<in> set (ay_granted s m) \<or>
     (\<exists>t. ay_task s m = Some t \<and> cn_id c \<in> set (rc_previous t))"

text \<open>The task has read what it needs to know about a user.\<close>

definition judged :: "reconciliation \<Rightarrow> string \<Rightarrow> bool" where
  "judged t u \<longleftrightarrow> rc_versions t u \<noteq> None"

text \<open>The task will close the connection, going by the answers it has.\<close>

definition condemned :: "reconciliation \<Rightarrow> agent_conn \<Rightarrow> bool" where
  "condemned t c \<longleftrightarrow> concerns t c \<and>
     (rc_actor t = None \<and> rc_active t = Some False \<or>
      (\<exists>u v. cn_actorUserId c = Some u \<and> rc_versions t u = Some v \<and> (v = None \<or> cn_actorSessionVersion c \<noteq> v)))"

definition doomed :: "agent_system \<Rightarrow> string \<Rightarrow> agent_conn \<Rightarrow> bool" where
  "doomed s m c \<longleftrightarrow> (\<exists>t. ay_task s m = Some t \<and> condemned t c)"

text \<open>A row whose agent call has not succeeded yet; and one whose call has not read about the user yet.\<close>

definition queued :: "agent_system \<Rightarrow> string \<Rightarrow> agent_conn \<Rightarrow> (revocation_row \<Rightarrow> bool) \<Rightarrow> bool" where
  "queued s m c P \<longleftrightarrow> (\<exists>u r. cn_actorUserId c = Some u \<and> u \<noteq> [] \<and> r \<in> set (pt_revocations (ay_db s)) \<and> covers r m u \<and>
     av_id r \<notin> set (ay_done s) \<and> P r)"

definition unread :: "agent_system \<Rightarrow> string \<Rightarrow> agent_conn \<Rightarrow> revocation_row \<Rightarrow> bool" where
  "unread s m c r \<longleftrightarrow> (\<forall>t. ay_task s m = Some t \<and> av_id (rc_row t) = av_id r \<longrightarrow> \<not> judged t (the (cn_actorUserId c)))"

definition guarded :: "agent_system \<Rightarrow> string \<Rightarrow> agent_conn \<Rightarrow> bool" where
  "guarded s m c \<longleftrightarrow> (rightful s m c \<or> queued s m c (\<lambda>r. True)) \<and>
     (\<not> doomed s m c \<longrightarrow> rightful s m c \<or> queued s m c (unread s m c))"

definition drawn :: "portal_db \<Rightarrow> string \<Rightarrow> bool" where
  "drawn db i \<longleftrightarrow> (\<exists>n<pt_draws db. i = ''acr_'' @ pt_random db n)"

text \<open>What is in the workers' hands are rows the table had.\<close>

definition hands_ok :: "agent_system \<Rightarrow> bool" where
  "hands_ok s \<longleftrightarrow>
     (\<forall>h\<in>set (ay_hand s). drawn (ay_db s) (av_id h) \<and>
        (\<forall>r\<in>set (pt_revocations (ay_db s)). av_id r = av_id h \<longrightarrow> revocation_key r = revocation_key h)) \<and>
     (\<forall>i\<in>set (ay_done s). drawn (ay_db s) i) \<and>
     (\<forall>m t. ay_task s m = Some t \<longrightarrow> rc_row t \<in> set (ay_hand s) \<and> av_mailbox_id (rc_row t) = m)"

text \<open>Connections have ids of their own, and a task asks about the users of all of them.\<close>

definition conns_ok :: "agent_system \<Rightarrow> bool" where
  "conns_ok s \<longleftrightarrow> (\<forall>m. distinct (map cn_id (ay_conns s m)) \<and>
     (\<forall>t. ay_task s m = Some t \<longrightarrow> (\<forall>c\<in>set (ay_conns s m). concerns t c \<longrightarrow>
        \<not> cn_liveAuthorized c \<and> (truthy (cn_actorUserId c) \<longrightarrow> the (cn_actorUserId c) \<in> set (rc_users t)))))"

definition system_ok :: "agent_system \<Rightarrow> bool" where
  "system_ok s \<longleftrightarrow> accounts_ok (ay_db s) \<and> revocations_ok (ay_db s) \<and> hands_ok s \<and> conns_ok s \<and>
     (\<forall>m c. js_lower m = m \<and> c \<in> set (ay_conns s m) \<and> held s m c \<longrightarrow> guarded s m c)"

lemma system_okD:
  assumes "system_ok s"
  shows "accounts_ok (ay_db s)" "revocations_ok (ay_db s)" "hands_ok s" "conns_ok s"
  using assms by (auto simp: system_ok_def)

lemma conn_ids: "system_ok s \<Longrightarrow> distinct (map cn_id (ay_conns s m))"
  using system_okD(4) unfolding conns_ok_def by blast

subsection \<open>What the invariant depends on\<close>

lemma guarded_cong:
  assumes "ay_db s' = ay_db s" "ay_done s' = ay_done s" "ay_task s' m = ay_task s m"
  shows "guarded s' m c = guarded s m c"
  using assms by (simp add: guarded_def rightful_def queued_def doomed_def unread_def [abs_def])

lemma rightful_conn:
  "cn_actorUserId c' = cn_actorUserId c \<Longrightarrow> cn_actorSessionVersion c' = cn_actorSessionVersion c \<Longrightarrow>
     rightful s m c' = rightful s m c"
  by (simp add: rightful_def hasLiveAgentMailboxAccess_def)

lemma guarded_conn:
  assumes "cn_actorUserId c' = cn_actorUserId c" and "cn_actorSessionVersion c' = cn_actorSessionVersion c"
  shows "guarded s m c' = guarded s m c"
  using assms
  by (simp add: guarded_def rightful_conn [OF assms] queued_def doomed_def condemned_def unread_def [abs_def]
      concerns_def of_actor_def cong: option.case_cong)

lemma rightful_guarded: "rightful s m c \<Longrightarrow> guarded s m c"
  by (simp add: guarded_def)

lemma unread_idle: "ay_task s m = None \<Longrightarrow> unread s m c = (\<lambda>r. True)"
  by (auto simp: unread_def)

lemma guarded_idle:
  "ay_task s m = None \<Longrightarrow> guarded s m c \<longleftrightarrow> rightful s m c \<or> queued s m c (\<lambda>r. True)"
  by (auto simp: guarded_def doomed_def unread_idle)

text \<open>An event at one agent leaves the others alone.\<close>

definition elsewhere :: "string \<Rightarrow> agent_system \<Rightarrow> agent_system \<Rightarrow> bool" where
  "elsewhere m s s' \<longleftrightarrow> ay_db s' = ay_db s \<and> ay_hand s' = ay_hand s \<and>
     (\<forall>k. k \<noteq> m \<longrightarrow> ay_conns s' k = ay_conns s k \<and> ay_granted s' k = ay_granted s k \<and> ay_task s' k = ay_task s k)"

lemma held_elsewhere: "elsewhere m s s' \<Longrightarrow> k \<noteq> m \<Longrightarrow> held s' k c = held s k c"
  by (simp add: elsewhere_def held_def)

text \<open>
  The shape of most events: the database stays, one agent changes, and each of its connections comes from
  one of before that was held if it is held now.
\<close>

lemma local_event:
  assumes ok: "system_ok s" and else: "elsewhere m s s'" and fin: "ay_done s' = ay_done s"
    and conns: "conns_ok s'"
    and task: "\<And>t. ay_task s' m = Some t \<Longrightarrow> rc_row t \<in> set (ay_hand s) \<and> av_mailbox_id (rc_row t) = m"
    and held: "\<And>c'. js_lower m = m \<Longrightarrow> c' \<in> set (ay_conns s' m) \<Longrightarrow> held s' m c' \<Longrightarrow> guarded s' m c'"
  shows "system_ok s'"
proof -
  have "hands_ok s'"
  proof -
    have h: "hands_ok s" using ok by (simp add: system_ok_def)
    have "rc_row t \<in> set (ay_hand s) \<and> av_mailbox_id (rc_row t) = k" if "ay_task s' k = Some t" for k t
      using h else task [of t] that by (cases "k = m") (auto simp: hands_ok_def elsewhere_def)
    then show ?thesis using h else fin by (simp add: hands_ok_def elsewhere_def)
  qed
  moreover have "guarded s' k c" if "js_lower k = k" "c \<in> set (ay_conns s' k)" "held s' k c" for k c
  proof (cases "k = m")
    case True
    with that held show ?thesis by blast
  next
    case False
    have "held s k c" "c \<in> set (ay_conns s k)" using held_elsewhere [OF else False] that else False by (auto simp: elsewhere_def)
    with ok that(1) have "guarded s k c" unfolding system_ok_def by blast
    moreover have "guarded s' k c = guarded s k c" using else fin False by (intro guarded_cong) (auto simp: elsewhere_def)
    ultimately show ?thesis by simp
  qed
  ultimately show ?thesis using ok else conns by (simp add: system_ok_def elsewhere_def)
qed

definition descends :: "agent_system \<Rightarrow> string \<Rightarrow> agent_conn \<Rightarrow> bool" where
  "descends s m c' \<longleftrightarrow> rightful s m c' \<or>
     (\<exists>c\<in>set (ay_conns s m). held s m c \<and> cn_actorUserId c' = cn_actorUserId c \<and>
        cn_actorSessionVersion c' = cn_actorSessionVersion c)"

lemma descends_self: "c \<in> set (ay_conns s m) \<Longrightarrow> held s m c \<Longrightarrow> descends s m c"
  unfolding descends_def by blast

lemma descends_live: "c \<in> set (ay_conns s m) \<Longrightarrow> held s m c \<Longrightarrow> descends s m (c\<lparr>cn_liveAuthorized := b\<rparr>)"
  unfolding descends_def by force

lemma same_task_event:
  assumes ok: "system_ok s" and else: "elsewhere m s s'" and fin: "ay_done s' = ay_done s"
    and task: "ay_task s' m = ay_task s m" and conns: "conns_ok s'"
    and held: "\<And>c'. c' \<in> set (ay_conns s' m) \<Longrightarrow> held s' m c' \<Longrightarrow>
      descends s m c'"
  shows "system_ok s'"
proof (rule local_event [OF ok else fin conns])
  show "rc_row t \<in> set (ay_hand s) \<and> av_mailbox_id (rc_row t) = m" if "ay_task s' m = Some t" for t
    using ok that task by (auto simp: system_ok_def hands_ok_def)
next
  fix c' assume low: "js_lower m = m" and c': "c' \<in> set (ay_conns s' m)" "held s' m c'"
  have eq: "guarded s' m c' = guarded s m c'" using else fin task by (intro guarded_cong) (simp_all add: elsewhere_def)
  consider "rightful s m c'" | c where "c \<in> set (ay_conns s m)" "held s m c" "cn_actorUserId c' = cn_actorUserId c"
    "cn_actorSessionVersion c' = cn_actorSessionVersion c"
    using held [OF c'] unfolding descends_def by blast
  then show "guarded s' m c'"
  proof cases
    case 1
    then show ?thesis using eq rightful_guarded by simp
  next
    case (2 c)
    with ok low have "guarded s m c" unfolding system_ok_def by blast
    then show ?thesis using eq guarded_conn [OF 2(3,4)] by simp
  qed
qed

lemma conns_ok_idle:
  "conns_ok s \<Longrightarrow> ay_task s m = None \<Longrightarrow> ay_task s' = ay_task s \<Longrightarrow> (\<And>k. k \<noteq> m \<Longrightarrow> ay_conns s' k = ay_conns s k) \<Longrightarrow>
     distinct (map cn_id (ay_conns s' m)) \<Longrightarrow> conns_ok s'"
proof -
  assume a: "conns_ok s" "ay_task s m = None" "ay_task s' = ay_task s" "\<And>k. k \<noteq> m \<Longrightarrow> ay_conns s' k = ay_conns s k"
    "distinct (map cn_id (ay_conns s' m))"
  have "distinct (map cn_id (ay_conns s' k)) \<and>
     (\<forall>t. ay_task s' k = Some t \<longrightarrow> (\<forall>c\<in>set (ay_conns s' k). concerns t c \<longrightarrow>
        \<not> cn_liveAuthorized c \<and> (truthy (cn_actorUserId c) \<longrightarrow> the (cn_actorUserId c) \<in> set (rc_users t))))" for k
    using a by (cases "k = m") (simp_all add: conns_ok_def)
  then show ?thesis unfolding conns_ok_def by blast
qed

subsection \<open>Events at the sockets\<close>

lemma map_set_live: "map cn_id (set_live b i cs) = map cn_id cs"
  by (simp add: set_live_def update_where_def comp_def)

lemma in_set_live:
  "c' \<in> set (set_live b i cs) \<longleftrightarrow> (\<exists>c\<in>set cs. c' = (if cn_id c = i then c\<lparr>cn_liveAuthorized := b\<rparr> else c))"
proof -
  have "c' \<in> set (map f cs) \<longleftrightarrow> (\<exists>c\<in>set cs. c' = f c)" for f :: "agent_conn \<Rightarrow> agent_conn" by auto
  then show ?thesis by (simp only: set_live_def update_where_def)
qed

lemma connect_ok: "system_ok s \<Longrightarrow> system_ok (agent_step (Ae_connect m c) s)"
proof -
  assume ok: "system_ok s"
  show ?thesis
  proof (cases "ay_task s m = None \<and> cn_id c \<notin> set (map cn_id (ay_conns s m)) \<union> set (ay_granted s m)")
    case True
    let ?s = "s\<lparr>ay_conns := (ay_conns s)(m := ay_conns s m @ [c\<lparr>cn_liveAuthorized := False\<rparr>])\<rparr>"
    have "system_ok ?s"
    proof (rule same_task_event [OF ok, of m])
      show "conns_ok ?s"
        using conn_ids [OF ok, of m] True by (intro conns_ok_idle [OF system_okD(4) [OF ok], of m]) auto
      show "descends s m c'"
        if "c' \<in> set (ay_conns ?s m)" "held ?s m c'" for c'
      proof -
        have "c' \<in> set (ay_conns s m)" using that True by (auto simp: held_def)
        moreover have "held s m c'" using that(2) by (simp add: held_def)
        ultimately show ?thesis by (rule descends_self)
      qed
    qed (auto simp: elsewhere_def)
    then show ?thesis using True by simp
  qed (use ok in auto)
qed

lemma frame_ok: "system_ok s \<Longrightarrow> system_ok (agent_step (Ae_frame m i) s)"
proof -
  assume ok: "system_ok s"
  show ?thesis
  proof (cases "ay_task s m = None")
    case True
    let ?s = "s\<lparr>ay_conns := (ay_conns s)(m := set_live False i (ay_conns s m))\<rparr>"
    have "system_ok ?s"
    proof (rule same_task_event [OF ok, of m])
      show "conns_ok ?s"
        using conn_ids [OF ok, of m] True
        by (intro conns_ok_idle [OF system_okD(4) [OF ok], of m]) (auto simp: map_set_live)
      show "descends s m c'"
        if "c' \<in> set (ay_conns ?s m)" "held ?s m c'" for c'
      proof -
        have "c' \<in> set (set_live False i (ay_conns s m))" using that(1) by simp
        then obtain c where c: "c \<in> set (ay_conns s m)"
          "c' = (if cn_id c = i then c\<lparr>cn_liveAuthorized := False\<rparr> else c)" unfolding in_set_live by blast
        then have "held s m c" using that(2) True by (cases "cn_id c = i") (auto simp: held_def)
        with c show ?thesis by (auto intro: descends_live descends_self)
      qed
    qed (auto simp: elsewhere_def)
    then show ?thesis using True by simp
  qed (use ok in auto)
qed

lemma grant_ok: "system_ok s \<Longrightarrow> system_ok (agent_step (Ae_grant m i) s)"
proof -
  assume ok: "system_ok s"
  show ?thesis
  proof (cases "list_ex (\<lambda>c. cn_id c = i \<and> hasLiveAgentMailboxAccess (ay_db s) m c) (ay_conns s m)")
    case True
    then obtain g where g: "g \<in> set (ay_conns s m)" "cn_id g = i" "rightful s m g"
      by (auto simp: list_ex_iff rightful_def)
    let ?s = "s\<lparr>ay_granted := (ay_granted s)(m := i # ay_granted s m)\<rparr>"
    have dist: "distinct (map cn_id (ay_conns s m))" by (rule conn_ids [OF ok])
    have "system_ok ?s"
    proof (rule same_task_event [OF ok, of m])
      show "conns_ok ?s" using system_okD(4) [OF ok] by (simp add: conns_ok_def)
      show "descends s m c'"
        if "c' \<in> set (ay_conns ?s m)" "held ?s m c'" for c'
      proof (cases "cn_id c' = i")
        case True
        then have "c' = g" using that(1) g(1,2) dist by (auto simp: distinct_map dest: inj_onD)
        then show ?thesis using g(3) by (simp add: descends_def)
      next
        case False
        then have "held s m c'" using that(2) by (simp add: held_def)
        then show ?thesis using that(1) by (simp add: descends_self)
      qed
    qed (auto simp: elsewhere_def)
    then show ?thesis using True by simp
  qed (use ok in auto)
qed

lemma marks_ok: "system_ok s \<Longrightarrow> system_ok (agent_step (Ae_mark m i) s)"
proof -
  assume ok: "system_ok s"
  show ?thesis
  proof (cases "ay_task s m = None \<and> i \<in> set (ay_granted s m)")
    case True
    let ?s = "s\<lparr>ay_conns := (ay_conns s)(m := set_live True i (ay_conns s m)),
             ay_granted := (ay_granted s)(m := filter (\<lambda>j. j \<noteq> i) (ay_granted s m))\<rparr>"
    have "system_ok ?s"
    proof (rule same_task_event [OF ok, of m])
      show "conns_ok ?s"
        using conn_ids [OF ok, of m] True
        by (intro conns_ok_idle [OF system_okD(4) [OF ok], of m]) (auto simp: map_set_live)
      show "descends s m c'"
        if "c' \<in> set (ay_conns ?s m)" "held ?s m c'" for c'
      proof -
        have "c' \<in> set (set_live True i (ay_conns s m))" using that(1) by simp
        then obtain c where c: "c \<in> set (ay_conns s m)"
          "c' = (if cn_id c = i then c\<lparr>cn_liveAuthorized := True\<rparr> else c)" unfolding in_set_live by blast
        then have "held s m c" using that(2) True by (cases "cn_id c = i") (auto simp: held_def)
        with c show ?thesis by (auto intro: descends_live descends_self)
      qed
    qed (auto simp: elsewhere_def)
    then show ?thesis using True by simp
  qed (use ok in auto)
qed

lemma close_ok: "system_ok s \<Longrightarrow> system_ok (agent_step (Ae_close m i) s)"
proof -
  assume ok: "system_ok s"
  let ?s = "s\<lparr>ay_conns := (ay_conns s)(m := filter (\<lambda>c. cn_id c \<noteq> i) (ay_conns s m))\<rparr>"
  have "system_ok ?s"
  proof (rule same_task_event [OF ok, of m])
    show "conns_ok ?s"
      using system_okD(4) [OF ok] by (auto simp: conns_ok_def distinct_map_filter)
    show "descends s m c'"
      if "c' \<in> set (ay_conns ?s m)" "held ?s m c'" for c'
      using that by (intro descends_self) (auto simp: held_def)
  qed (auto simp: elsewhere_def)
  then show ?thesis by simp
qed

subsection \<open>Events of a reconciliation\<close>

text \<open>Nothing is known at the start, so no connection is condemned and every row still counts.\<close>

lemma begun_fields [simp]:
  "rc_row (begun row cs) = row" "rc_versions (begun row cs) = (\<lambda>u. None)" "rc_active (begun row cs) = None"
  by (simp_all add: begun_def Let_def)

lemma begun_actor: "rc_actor (begun row cs) = (if av_scope row = Scope_actor then av_user_id row else None)"
  by (simp add: rc_actor_def)

lemma concerns_row: "rc_row t = rc_row t' \<Longrightarrow> concerns t = concerns t'"
  by (simp add: concerns_cases rc_actor_def)

lemma begun_previous: "rc_previous (begun row cs) = previously (concerns (begun row cs)) cs"
proof -
  have "rc_previous (begun row cs) = previously (concerns
      \<lparr>rc_row = row, rc_previous = [], rc_users = [], rc_active = None, rc_versions = (\<lambda>u. None)\<rparr>) cs"
    by (simp add: begun_def Let_def)
  then show ?thesis using concerns_row [of "\<lparr>rc_row = row, rc_previous = [], rc_users = [], rc_active = None,
    rc_versions = (\<lambda>u. None)\<rparr>" "begun row cs"] by simp
qed

lemma begun_users_eq:
  "rc_users (begun row cs) =
     (case rc_actor (begun row cs) of
        Some u \<Rightarrow> [u]
      | None \<Rightarrow> remdups (List.map_filter cn_actorUserId (filter (\<lambda>c. truthy (cn_actorUserId c)) cs)))"
  unfolding begun_actor by (simp add: begun_def Let_def rc_actor_def)

lemma begun_users:
  assumes "c \<in> set cs" and "concerns (begun row cs) c" and "truthy (cn_actorUserId c)"
  shows "the (cn_actorUserId c) \<in> set (rc_users (begun row cs))"
proof (cases "rc_actor (begun row cs)")
  case None
  then have "rc_users (begun row cs) =
      remdups (List.map_filter cn_actorUserId (filter (\<lambda>c. truthy (cn_actorUserId c)) cs))"
    by (simp add: begun_users_eq)
  moreover obtain u where "cn_actorUserId c = Some u" using assms(3) by (cases "cn_actorUserId c") auto
  ultimately show ?thesis using assms(1,3) by (force simp: List.map_filter_def)
next
  case (Some u)
  then have "rc_users (begun row cs) = [u]" by (simp add: begun_users_eq)
  moreover have "cn_actorUserId c = Some u" using assms(2) Some by (simp add: concerns_def of_actor_def)
  ultimately show ?thesis by simp
qed

lemma begun_innocent: "\<not> condemned (begun row cs) c" "\<not> judged (begun row cs) u"
  by (simp_all add: condemned_def judged_def)

lemma in_suspend:
  "c' \<in> set (suspend P cs) \<longleftrightarrow> (\<exists>c\<in>set cs. c' = (if P c then c\<lparr>cn_liveAuthorized := False\<rparr> else c))"
proof -
  have "c' \<in> set (map f cs) \<longleftrightarrow> (\<exists>c\<in>set cs. c' = f c)" for f :: "agent_conn \<Rightarrow> agent_conn" by auto
  then show ?thesis by (simp only: suspend_def)
qed

lemma concerns_live [simp]: "concerns t (c\<lparr>cn_liveAuthorized := b\<rparr>) = concerns t c"
  by (simp add: concerns_def of_actor_def cong: option.case_cong)

lemma start_ok: "system_ok s \<Longrightarrow> system_ok (agent_step (Ae_start m row) s)"
proof -
  assume ok: "system_ok s"
  show ?thesis
  proof (cases "ay_task s m = None \<and> row \<in> set (ay_hand s) \<and> av_mailbox_id row = m \<and>
         (av_scope row = Scope_actor \<longrightarrow> truthy (av_user_id row))")
    case True
    let ?t = "begun row (ay_conns s m)"
    let ?s = "s\<lparr>ay_task := (ay_task s)(m := Some ?t),
                ay_conns := (ay_conns s)(m := suspend (concerns ?t) (ay_conns s m))\<rparr>"
    have dist: "distinct (map cn_id (suspend (concerns ?t) (ay_conns s m)))"
      using conn_ids [OF ok, of m] by (simp add: suspend_def comp_def if_distrib cong: if_cong)
    have "\<not> cn_liveAuthorized c' \<and> (truthy (cn_actorUserId c') \<longrightarrow> the (cn_actorUserId c') \<in> set (rc_users ?t))"
      if "c' \<in> set (suspend (concerns ?t) (ay_conns s m))" "concerns ?t c'" for c'
    proof -
      from that(1) obtain c where c: "c \<in> set (ay_conns s m)"
        "c' = (if concerns ?t c then c\<lparr>cn_liveAuthorized := False\<rparr> else c)" unfolding in_suspend by blast
      then have "concerns ?t c" using that(2) by (cases "concerns ?t c") auto
      with c begun_users [OF c(1)] show ?thesis by simp
    qed
    then have conns: "conns_ok ?s"
      using system_okD(4) [OF ok] dist by (auto simp: conns_ok_def)
    have "system_ok ?s"
    proof (rule local_event [OF ok _ _ conns, of m])
      fix c' assume low: "js_lower m = m" and c': "c' \<in> set (ay_conns ?s m)" "held ?s m c'"
      have "c' \<in> set (suspend (concerns ?t) (ay_conns s m))" using c'(1) by simp
      then obtain c where c: "c \<in> set (ay_conns s m)"
        "c' = (if concerns ?t c then c\<lparr>cn_liveAuthorized := False\<rparr> else c)" unfolding in_suspend by blast
      have prev: "cn_id c \<in> set (rc_previous ?t) \<Longrightarrow> cn_liveAuthorized c"
        using conn_ids [OF ok, of m] c(1) unfolding begun_previous previously_def
        by (auto simp: distinct_map dest: inj_onD)
      have same: "cn_id c' = cn_id c" "cn_actorUserId c' = cn_actorUserId c"
        "cn_actorSessionVersion c' = cn_actorSessionVersion c" "cn_liveAuthorized c' \<Longrightarrow> cn_liveAuthorized c"
        using c(2) by (auto split: if_splits)
      have "held s m c" using c'(2) prev same by (auto simp: held_def)
      with ok low c(1) have "guarded s m c" unfolding system_ok_def by blast
      then have "rightful s m c \<or> queued s m c (\<lambda>r. True)" by (simp add: guarded_def)
      moreover have "rightful ?s m c' = rightful s m c" using same by (simp add: rightful_def hasLiveAgentMailboxAccess_def)
      moreover have "queued ?s m c' (\<lambda>r. True) = queued s m c (\<lambda>r. True)" using same by (simp add: queued_def)
      moreover have "unread ?s m c' = (\<lambda>r. True)" by (auto simp: unread_def begun_innocent)
      ultimately show "guarded ?s m c'" by (simp add: guarded_def)
    qed (use True in \<open>auto simp: elsewhere_def\<close>)
    then show ?thesis using True by (simp add: Let_def)
  qed (use ok in auto)
qed

lemma abort_ok: "system_ok s \<Longrightarrow> system_ok (agent_step (Ae_abort m) s)"
proof -
  assume ok: "system_ok s"
  have "system_ok (s\<lparr>ay_task := (ay_task s)(m := None)\<rparr>)" (is "system_ok ?s")
  proof (rule local_event [OF ok, of m])
    show "conns_ok ?s" using system_okD(4) [OF ok] by (simp add: conns_ok_def)
    fix c assume low: "js_lower m = m" and c: "c \<in> set (ay_conns ?s m)" "held ?s m c"
    then have "c \<in> set (ay_conns s m)" "held s m c" by (auto simp: held_def)
    with ok low have "guarded s m c" unfolding system_ok_def by blast
    then have "rightful s m c \<or> queued s m c (\<lambda>r. True)" by (simp add: guarded_def)
    moreover have "rightful ?s m c = rightful s m c" "queued ?s m c = queued s m c"
      by (simp_all add: rightful_def queued_def fun_eq_iff)
    ultimately show "guarded ?s m c" by (simp add: guarded_idle)
  qed (auto simp: elsewhere_def)
  then show ?thesis using ok by (auto split: option.split)
qed

text \<open>An answer arrives: the task changes, and with it what is condemned and which rows still count.\<close>

lemma answer_ok:
  assumes ok: "system_ok s" and t: "ay_task s m = Some t" and t': "rc_row t' = rc_row t" "rc_previous t' = rc_previous t"
      "rc_users t' = rc_users t"
    and worse: "\<And>c. condemned t c \<Longrightarrow> condemned t' c"
    and fresh: "\<And>c u. judged t' u \<Longrightarrow> \<not> judged t u \<Longrightarrow> cn_actorUserId c = Some u \<Longrightarrow> u \<noteq> [] \<Longrightarrow>
      \<not> condemned t' c \<Longrightarrow> covers (rc_row t) m u \<Longrightarrow> rightful s m c"
  shows "system_ok (s\<lparr>ay_task := (ay_task s)(m := Some t')\<rparr>)" (is "system_ok ?s")
proof (rule local_event [OF ok, of m])
  have "concerns t' = concerns t" by (rule concerns_row) (rule t'(1))
  then show "conns_ok ?s" using system_okD(4) [OF ok] t t'(3) by (simp add: conns_ok_def)
  show "rc_row t'' \<in> set (ay_hand s) \<and> av_mailbox_id (rc_row t'') = m" if "ay_task ?s m = Some t''" for t''
    using that system_okD(3) [OF ok] t t'(1) by (auto simp: hands_ok_def)
  fix c assume low: "js_lower m = m" and c: "c \<in> set (ay_conns ?s m)" "held ?s m c"
  then have cs: "c \<in> set (ay_conns s m)" "held s m c" using t t'(2) by (auto simp: held_def)
  with ok low have g: "guarded s m c" unfolding system_ok_def by blast
  have same: "rightful ?s m c = rightful s m c" "queued ?s m c = queued s m c"
    by (simp_all add: rightful_def queued_def fun_eq_iff)
  have "rightful s m c \<or> queued s m c (unread ?s m c)" if "\<not> doomed ?s m c"
  proof -
    from that have innocent: "\<not> condemned t' c" by (simp add: doomed_def)
    then have "\<not> doomed s m c" using t worse by (auto simp: doomed_def)
    with g consider "rightful s m c" | "queued s m c (unread s m c)" by (auto simp: guarded_def)
    then show ?thesis
    proof cases
      case 2
      then obtain u r where r: "cn_actorUserId c = Some u" "u \<noteq> []" "r \<in> set (pt_revocations (ay_db s))" "covers r m u"
        "av_id r \<notin> set (ay_done s)" "unread s m c r" by (auto simp: queued_def)
      show ?thesis
      proof (cases "av_id (rc_row t) = av_id r \<and> judged t' u")
        case False
        then have "unread ?s m c r" using r(1) t'(1) by (auto simp: unread_def)
        then show ?thesis using r by (auto simp: queued_def)
      next
        case True
        then have "\<not> judged t u" using r(1,6) t by (auto simp: unread_def)
        moreover have "revocation_key r = revocation_key (rc_row t)"
          using True r(3) t system_okD(3) [OF ok] unfolding hands_ok_def by metis
        then have "covers (rc_row t) m u" using r(4) covers_key by metis
        ultimately show ?thesis using fresh [of u c] True r(1,2) innocent by blast
      qed
    qed blast
  qed
  then show "guarded ?s m c" using g same by (auto simp: guarded_def)
qed (auto simp: elsewhere_def)

lemma active_ok: "system_ok s \<Longrightarrow> system_ok (agent_step (Ae_active m) s)"
proof -
  assume ok: "system_ok s"
  have "system_ok (s\<lparr>ay_task := (ay_task s)(m := Some (t\<lparr>rc_active := Some b\<rparr>))\<rparr>)"
    if t: "ay_task s m = Some t" "rc_active t = None" for t b
  proof (rule answer_ok [OF ok t(1)])
    show "condemned (t\<lparr>rc_active := Some b\<rparr>) c" if "condemned t c" for c
      using that t(2) concerns_row [of "t\<lparr>rc_active := Some b\<rparr>" t] by (auto simp: condemned_def)
  qed (auto simp: judged_def)
  then show ?thesis using ok by (auto split: option.split)
qed

lemma concerns_covers: "covers (rc_row t) m u \<Longrightarrow> cn_actorUserId c = Some u \<Longrightarrow> concerns t c"
  by (auto simp: covers_def concerns_def rc_actor_def of_actor_def split: option.split)

lemma answered_rightful:
  assumes "accounts_ok (ay_db s)" and "cn_actorUserId c = Some u" and "u \<noteq> []"
    and "currentAgentActorSessionVersion (ay_db s) m u = Some v" and "cn_actorSessionVersion c = Some v"
  shows "rightful s m c"
proof -
  have "may_use (ay_db s) u (js_lower m) \<and> live_version (ay_db s) u = Some v"
    using assms(4) by (auto simp: agent_version_iff split: if_splits)
  then have "hasExactLiveMailboxAccess (ay_db s) m u (Some v)" by (simp add: exact_access_iff [OF assms(1)])
  then show ?thesis using assms(2,3,5) by (simp add: rightful_def hasLiveAgentMailboxAccess_def)
qed

lemma version_ok: "system_ok s \<Longrightarrow> system_ok (agent_step (Ae_version m u) s)"
proof -
  assume ok: "system_ok s"
  have "system_ok (s\<lparr>ay_task := (ay_task s)(m := Some (t\<lparr>rc_versions :=
      (rc_versions t)(u := Some (currentAgentActorSessionVersion (ay_db s) m u))\<rparr>))\<rparr>)" (is "system_ok (s\<lparr>ay_task := (ay_task s)(m := Some ?t)\<rparr>)")
    if t: "ay_task s m = Some t" "rc_versions t u = None" for t
  proof (rule answer_ok [OF ok t(1)])
    have con: "concerns ?t = concerns t" by (rule concerns_row) simp
    have act: "rc_actor ?t = rc_actor t" by (simp add: rc_actor_def)
    show "condemned ?t c" if "condemned t c" for c
    proof -
      have "rc_versions ?t u' = Some v" if "rc_versions t u' = Some v" for u' v
        using that t(2) by (cases "u' = u") simp_all
      moreover have "rc_active ?t = rc_active t" by simp
      ultimately show ?thesis using that unfolding condemned_def con act by metis
    qed
    fix c u' assume new: "judged ?t u'" "\<not> judged t u'" and c: "cn_actorUserId c = Some u'" "u' \<noteq> []"
      and innocent: "\<not> condemned ?t c" and row: "covers (rc_row t) m u'"
    from new have u': "u' = u" by (auto simp: judged_def split: if_splits)
    have "concerns ?t c" using concerns_covers [OF row c(1)] con by simp
    with innocent c(1) u' obtain v where "currentAgentActorSessionVersion (ay_db s) m u = Some v"
      "cn_actorSessionVersion c = Some v" by (auto simp: condemned_def)
    then show "rightful s m c" using answered_rightful [OF system_okD(1) [OF ok]] c u' by blast
  qed auto
  then show ?thesis using ok by (auto split: option.split)
qed

lemma in_resume:
  assumes "c' \<in> set (resume P stale previous cs)"
  obtains c where "c \<in> set cs" "P c \<longrightarrow> cn_id c \<notin> set stale"
    "c' = (if P c \<and> cn_id c \<in> set previous then c\<lparr>cn_liveAuthorized := True\<rparr> else c)"
proof -
  have "c' \<in> (\<lambda>c. if P c \<and> cn_id c \<in> set previous then c\<lparr>cn_liveAuthorized := True\<rparr> else c) `
      set (filter (\<lambda>c. \<not> (P c \<and> cn_id c \<in> set stale)) cs)"
    using assms unfolding resume_def set_map .
  then show ?thesis by (elim imageE) (rule that, simp_all)
qed

lemma resume_ids: "distinct (map cn_id cs) \<Longrightarrow> distinct (map cn_id (resume P stale previous cs))"
proof -
  have "map cn_id (resume P stale previous cs) = map cn_id (filter (\<lambda>c. \<not> (P c \<and> cn_id c \<in> set stale)) cs)"
    by (simp add: resume_def)
  then show "distinct (map cn_id cs) \<Longrightarrow> ?thesis" by (simp add: distinct_map_filter)
qed

lemma same_id: "distinct (map cn_id cs) \<Longrightarrow> c \<in> set cs \<Longrightarrow> d \<in> set cs \<Longrightarrow> cn_id c = cn_id d \<Longrightarrow> c = d"
  by (auto simp: distinct_map dest: inj_onD)

text \<open>What is left after a reconciliation was looked at by it, and not found stale.\<close>

definition survives :: "reconciliation \<Rightarrow> agent_conn \<Rightarrow> agent_conn \<Rightarrow> bool" where
  "survives t c c' \<longleftrightarrow> cn_id c' = cn_id c \<and> cn_actorUserId c' = cn_actorUserId c \<and>
     cn_actorSessionVersion c' = cn_actorSessionVersion c \<and>
     (cn_liveAuthorized c' \<longrightarrow> cn_liveAuthorized c \<or> cn_id c \<in> set (rc_previous t)) \<and> \<not> condemned t c \<and>
     (concerns t c \<and> truthy (cn_actorUserId c) \<and> the (cn_actorUserId c) \<in> set (rc_users t) \<longrightarrow>
        judged t (the (cn_actorUserId c)))"

lemma reconciled_conns:
  assumes rec: "reconciled t cs = Some cs'" and dist: "distinct (map cn_id cs)" and c': "c' \<in> set cs'"
  shows "\<exists>c\<in>set cs. survives t c c'"
proof (cases "rc_actor t")
  case (Some u)
  then obtain v where v: "rc_versions t u = Some v" "cs' = actor_end u (rc_previous t) v cs"
    using rec by (auto simp: reconciled_def)
  then obtain c where c: "c \<in> set cs"
    "of_actor u c \<longrightarrow> cn_id c \<notin> set (agentConnectionIdsToReconcile (filter (of_actor u) cs) u v)"
    "c' = (if of_actor u c \<and> cn_id c \<in> set (rc_previous t) then c\<lparr>cn_liveAuthorized := True\<rparr> else c)"
    using in_resume [OF c' [unfolded v(2) actor_end_def]] by blast
  have "\<not> (v = None \<or> cn_actorSessionVersion c \<noteq> v)" if "of_actor u c"
    using that c(1,2) by (auto simp: agentConnectionIdsToReconcile_def of_actor_def)
  then have "\<not> condemned t c" using Some v(1) by (auto simp: condemned_def concerns_def of_actor_def)
  moreover have "judged t (the (cn_actorUserId c))" if "concerns t c"
    using that Some v(1) by (simp add: concerns_def of_actor_def judged_def)
  ultimately show ?thesis using c(1,3) by (intro bexI [of _ c]) (auto simp: survives_def split: if_splits)
next
  case None
  then obtain b where b: "rc_active t = Some b" using rec by (auto simp: reconciled_def split: option.splits)
  show ?thesis
  proof (cases b)
    case False
    then have "cs' = mailbox_end [] (rc_previous t) cs" using rec None b by (simp add: reconciled_def)
    then have "cs' = []" by (auto simp: mailbox_end_def resume_def)
    then show ?thesis using c' by simp
  next
    case True
    let ?auth = "authorized_ids (\<lambda>u. the (rc_versions t u)) cs"
    from rec None b True have all: "\<not> list_ex (\<lambda>u. rc_versions t u = None) (rc_users t)"
      and cs': "cs' = mailbox_end ?auth (rc_previous t) cs"
      by (auto simp: reconciled_def split: if_splits)
    obtain c where c: "c \<in> set cs" "cn_id c \<notin> set (filter (\<lambda>i. i \<notin> set ?auth) (map cn_id cs))"
      "c' = (if cn_id c \<in> set (rc_previous t) then c\<lparr>cn_liveAuthorized := True\<rparr> else c)"
      using in_resume [OF c' [unfolded cs' mailbox_end_def]] by auto
    have "cn_id c \<in> set ?auth" using c(1,2) by auto
    then have "\<exists>d. cn_id d = cn_id c \<and> d \<in> set cs \<and> truthy (cn_actorUserId d) \<and> cn_actorSessionVersion d \<noteq> None \<and>
      cn_actorSessionVersion d = the (rc_versions t (the (cn_actorUserId d)))"
      unfolding authorized_ids_def set_map set_filter image_iff by (elim bexE) (intro exI, auto)
    then obtain d where d: "d \<in> set cs" "cn_id d = cn_id c" "truthy (cn_actorUserId d)" "cn_actorSessionVersion d \<noteq> None"
      "cn_actorSessionVersion d = the (rc_versions t (the (cn_actorUserId d)))" by blast
    have "d = c" by (rule same_id [OF dist d(1) c(1) d(2)])
    then have "\<not> condemned t c" using d(4,5) b True by (auto simp: condemned_def)
    moreover have "judged t u" if "u \<in> set (rc_users t)" for u
      using all that by (auto simp: judged_def list_ex_iff)
    ultimately show ?thesis using c(1,3) by (intro bexI [of _ c]) (auto simp: survives_def split: if_splits)
  qed
qed

lemma reconciled_ids: "reconciled t cs = Some cs' \<Longrightarrow> distinct (map cn_id cs) \<Longrightarrow> distinct (map cn_id cs')"
  by (auto simp: reconciled_def actor_end_def mailbox_end_def resume_ids split: option.splits if_splits bool.splits)

lemma conns_ok_at:
  "conns_ok s \<Longrightarrow> ay_task s m = Some t \<Longrightarrow> c \<in> set (ay_conns s m) \<Longrightarrow> concerns t c \<Longrightarrow> truthy (cn_actorUserId c) \<Longrightarrow>
     the (cn_actorUserId c) \<in> set (rc_users t)"
  by (simp add: conns_ok_def)

lemma task_key:
  assumes "hands_ok s" and "ay_task s m = Some t" and "r \<in> set (pt_revocations (ay_db s))" and "av_id r = av_id (rc_row t)"
  shows "revocation_key r = revocation_key (rc_row t) \<and> av_mailbox_id (rc_row t) = m"
  using assms unfolding hands_ok_def by blast

lemma finishes_ok: "system_ok s \<Longrightarrow> system_ok (agent_step (Ae_finish m) s)"
proof -
  assume ok: "system_ok s"
  have "system_ok (s\<lparr>ay_task := (ay_task s)(m := None), ay_conns := (ay_conns s)(m := cs'),
      ay_done := av_id (rc_row t) # ay_done s\<rparr>)" (is "system_ok ?s")
    if t: "ay_task s m = Some t" and rec: "reconciled t (ay_conns s m) = Some cs'" for t cs'
  proof -
    note hands = system_okD(3) [OF ok]
    have "rc_row t \<in> set (ay_hand s)" using hands t by (auto simp: hands_ok_def)
    then have "hands_ok ?s" using hands by (auto simp: hands_ok_def)
    moreover have "conns_ok ?s"
      using system_okD(4) [OF ok] reconciled_ids [OF rec conn_ids [OF ok]] by (auto simp: conns_ok_def)
    moreover have "guarded ?s k c'" if k: "js_lower k = k" "c' \<in> set (ay_conns ?s k)" "held ?s k c'" for k c'
    proof (cases "k = m")
      case False
      then have "c' \<in> set (ay_conns s k)" "held s k c'" using k by (auto simp: held_def)
      with ok k(1) have g: "guarded s k c'" unfolding system_ok_def by blast
      have same: "rightful ?s k c' = rightful s k c'" "doomed ?s k c' = doomed s k c'" "unread ?s k c' = unread s k c'"
        using False by (auto simp: rightful_def doomed_def unread_def)
      have "queued ?s k c' P" if q: "queued s k c' P" for P
      proof -
        from q obtain u r where r: "cn_actorUserId c' = Some u" "u \<noteq> []" "r \<in> set (pt_revocations (ay_db s))"
          "covers r k u" "av_id r \<notin> set (ay_done s)" "P r" by (auto simp: queued_def)
        have "av_id r \<noteq> av_id (rc_row t)"
          using task_key [OF hands t r(3)] r(4) False by (auto simp: covers_def revocation_key_def)
        with r show ?thesis by (auto simp: queued_def)
      qed
      then show ?thesis using g same by (auto simp: guarded_def)
    next
      case True
      with k(2) have "c' \<in> set cs'" by simp
      then obtain c where c: "c \<in> set (ay_conns s m)" and surv: "survives t c c'"
        using reconciled_conns [OF rec conn_ids [OF ok]] by blast
      have "held s m c" using k(3) surv True t by (auto simp: held_def survives_def)
      with ok k(1) c True have "guarded s m c" unfolding system_ok_def by blast
      moreover have "\<not> doomed s m c" using surv t by (auto simp: doomed_def survives_def)
      ultimately have "rightful s m c \<or> queued s m c (unread s m c)" by (auto simp: guarded_def)
      then have "rightful ?s m c' \<or> queued ?s m c' (\<lambda>r. True)"
      proof
        assume "rightful s m c"
        moreover have "rightful ?s m c' = rightful s m c"
          using surv by (simp add: rightful_def hasLiveAgentMailboxAccess_def survives_def)
        ultimately show ?thesis by simp
      next
        assume "queued s m c (unread s m c)"
        then obtain u r where r: "cn_actorUserId c = Some u" "u \<noteq> []" "r \<in> set (pt_revocations (ay_db s))"
          "covers r m u" "av_id r \<notin> set (ay_done s)" "unread s m c r" by (auto simp: queued_def)
        have "av_id r \<noteq> av_id (rc_row t)"
        proof
          assume same: "av_id r = av_id (rc_row t)"
          then have "covers (rc_row t) m u" using task_key [OF hands t r(3)] covers_key r(4) by metis
          then have con: "concerns t c" using concerns_covers r(1) by blast
          then have "the (cn_actorUserId c) \<in> set (rc_users t)"
            using conns_ok_at [OF system_okD(4) [OF ok] t c] r(1,2) by simp
          then have "judged t u" using surv con r(1,2) by (simp add: survives_def)
          then show False using r(1,6) t same by (simp add: unread_def)
        qed
        with r surv show ?thesis by (auto simp: queued_def survives_def)
      qed
      then show ?thesis using True by (simp add: guarded_idle)
    qed
    ultimately show ?thesis using ok by (simp add: system_ok_def)
  qed
  then show ?thesis using ok by (auto split: option.split)
qed

subsection \<open>Operations on the database\<close>

lemma fresh_not_drawn: "inj (pt_random db) \<Longrightarrow> fresh_since db r \<Longrightarrow> drawn db (av_id r) \<Longrightarrow> False"
proof -
  assume inj: "inj (pt_random db)" and "fresh_since db r" "drawn db (av_id r)"
  then obtain n n' where "pt_draws db \<le> n" "n' < pt_draws db" "pt_random db n = pt_random db n'"
    by (auto simp: fresh_since_def drawn_def)
  with injD [OF inj, of n n'] show False by simp
qed

lemma drawn_mono: "losses_queued db db' \<Longrightarrow> drawn db i \<Longrightarrow> drawn db' i"
proof -
  assume "losses_queued db db'" and "drawn db i"
  then obtain n where "n < pt_draws db" "i = ''acr_'' @ pt_random db n" "pt_random db' = pt_random db"
    "pt_draws db \<le> pt_draws db'" by (auto simp: losses_queued_def drawn_def)
  then show ?thesis unfolding drawn_def by (intro exI [of _ n]) simp
qed

lemma claimed_rows_known:
  assumes "h \<in> set (claimed_rows op db)"
  shows "\<exists>r\<in>set (pt_revocations db). av_id r = av_id h \<and> revocation_key r = revocation_key h"
  using assms by (cases "(op, db)" rule: claimed_rows.cases)
    (auto simp: claimBatch_def Let_def leased_revocation_def revocation_key_def)

lemma accounted_ok:
  assumes ok: "system_ok s" and acc: "accounted (ay_db s) db'" and db': "accounts_ok db'" "revocations_ok db'"
    and hand: "\<And>h. h \<in> set new \<Longrightarrow> \<exists>r\<in>set (pt_revocations (ay_db s)). av_id r = av_id h \<and> revocation_key r = revocation_key h"
  shows "system_ok (s\<lparr>ay_db := db', ay_hand := ay_hand s @ new\<rparr>)" (is "system_ok ?s")
proof -
  let ?db = "ay_db s"
  have stay: "rows_stay ?db db'" and derive: "rows_derive ?db db'" and lost: "losses_queued ?db db'"
    using acc by (auto simp: accounted_def)
  note hands = system_okD(3) [OF ok] and rows = system_okD(2) [OF ok, unfolded revocations_ok_def]
  have known: "drawn ?db (av_id r)" if "r \<in> set (pt_revocations ?db)" for r
    using rows that by (auto simp: drawn_def)
  have key: "drawn ?db (av_id h) \<and> (\<forall>r\<in>set (pt_revocations ?db). av_id r = av_id h \<longrightarrow> revocation_key r = revocation_key h)"
    if "h \<in> set (ay_hand s @ new)" for h
  proof (cases "h \<in> set (ay_hand s)")
    case True
    then show ?thesis using hands by (auto simp: hands_ok_def)
  next
    case False
    with that hand obtain r where r: "r \<in> set (pt_revocations ?db)" "av_id r = av_id h" "revocation_key r = revocation_key h"
      by auto
    have "r' = r" if r': "r' \<in> set (pt_revocations ?db)" "av_id r' = av_id h" for r'
    proof (rule inj_onD)
      show "inj_on av_id (set (pt_revocations ?db))" using rows by (simp add: distinct_map)
    qed (simp_all only: r' r)
    then have "revocation_key r' = revocation_key h" if "r' \<in> set (pt_revocations ?db)" "av_id r' = av_id h" for r'
      using r(3) that by blast
    moreover have "drawn ?db (av_id h)" using known [OF r(1)] by (simp only: r(2))
    ultimately show ?thesis by blast
  qed
  have "revocation_key r = revocation_key h"
    if h: "h \<in> set (ay_hand s @ new)" and r: "r \<in> set (pt_revocations db')" "av_id r = av_id h" for h r
  proof -
    from derive r(1) consider "fresh_since ?db r"
      | r0 where "r0 \<in> set (pt_revocations ?db)" "av_id r0 = av_id r" "revocation_key r0 = revocation_key r"
      unfolding rows_derive_def by blast
    then show ?thesis
    proof cases
      case 1
      then show ?thesis using fresh_not_drawn [of ?db r] rows key [OF h] r(2) by auto
    next
      case (2 r0)
      then show ?thesis using key [OF h] r(2) by auto
    qed
  qed
  moreover have "drawn db' (av_id h)" if "h \<in> set (ay_hand s @ new)" for h
    using key [OF that] drawn_mono [OF lost] by blast
  ultimately have "hands_ok ?s"
    using hands drawn_mono [OF lost] by (auto simp: hands_ok_def)
  moreover have "guarded ?s k c" if k: "js_lower k = k" "c \<in> set (ay_conns s k)" "held s k c" for k c
  proof -
    have g: "guarded s k c" using ok k unfolding system_ok_def by blast
    have same: "doomed ?s k c = doomed s k c" "unread ?s k c = unread s k c" by (auto simp: doomed_def unread_def)
    have loss: "queued ?s k c (\<lambda>r. True) \<and> queued ?s k c (unread s k c)" if was: "rightful s k c" "\<not> rightful ?s k c"
    proof -
      from was obtain u v where u: "cn_actorUserId c = Some u" "u \<noteq> []" "cn_actorSessionVersion c = Some v"
        "hasExactLiveMailboxAccess ?db k u (Some v)" "\<not> hasExactLiveMailboxAccess db' k u (Some v)"
        by (cases "cn_actorUserId c") (auto simp: rightful_def hasLiveAgentMailboxAccess_def split: if_splits)
      obtain r where r: "r \<in> set (pt_revocations db')" "covers r k u" "fresh_since ?db r"
        using losses_queuedD [OF lost k(1) u(4,5)] .
      have "\<not> drawn ?db (av_id r)" using fresh_not_drawn r(3) rows by blast
      moreover have "drawn ?db (av_id (rc_row t))" if "ay_task s k = Some t" for t
        using hands that unfolding hands_ok_def by blast
      ultimately have "unread s k c r" unfolding unread_def by metis
      moreover have "av_id r \<notin> set (ay_done s)" using hands \<open>\<not> drawn ?db (av_id r)\<close> by (auto simp: hands_ok_def)
      ultimately show ?thesis using r u by (auto simp: queued_def)
    qed
    have keep: "queued ?s k c P" if q: "queued s k c P" and P: "\<And>r r'. av_id r = av_id r' \<Longrightarrow> P r \<Longrightarrow> P r'" for P
    proof -
      from q obtain u r where r: "cn_actorUserId c = Some u" "u \<noteq> []" "r \<in> set (pt_revocations ?db)"
        "covers r k u" "av_id r \<notin> set (ay_done s)" "P r" by (auto simp: queued_def)
      from stay r(3) obtain r' where r': "r' \<in> set (pt_revocations db')" "av_id r' = av_id r"
        "revocation_key r' = revocation_key r" unfolding rows_stay_def by blast
      have "covers r' k u" using r(4) covers_key [OF r'(3)] by simp
      moreover have "P r'" using P [OF r'(2) [symmetric] r(6)] .
      moreover have "av_id r' \<notin> set (ay_done s)" using r(5) unfolding r'(2) .
      ultimately show ?thesis using r(1,2) r'(1) unfolding queued_def by auto
    qed
    have "queued ?s k c (unread s k c)" if "queued s k c (unread s k c)"
      by (rule keep [OF that]) (simp add: unread_def)
    moreover have "queued ?s k c (\<lambda>r. True)" if "queued s k c (\<lambda>r. True)" by (rule keep [OF that])
    ultimately show ?thesis using g loss unfolding guarded_def same by blast
  qed
  moreover have "conns_ok ?s" using system_okD(4) [OF ok] by (simp add: conns_ok_def)
  moreover have "held ?s k c = held s k c" for k c by (simp add: held_def)
  ultimately show ?thesis using db' by (simp add: system_ok_def)
qed

lemma completes_ok:
  assumes ok: "system_ok s" and fin: "av_id row \<in> set (ay_done s)"
  shows "system_ok (s\<lparr>ay_db := snd (complete_revocation row token (ay_db s))\<rparr>)" (is "system_ok ?s")
proof -
  let ?db = "ay_db s" and ?db' = "snd (complete_revocation row token (ay_db s))"
  have sub: "set (pt_revocations ?db') = set (pt_revocations ?db) \<inter> {r. \<not> holds_revocation row token r}"
    by (auto simp: complete_revocation_def)
  have rest: "pt_draws ?db' = pt_draws ?db" "pt_random ?db' = pt_random ?db" "same_accounts ?db ?db'"
    by (simp_all add: complete_revocation_def same_accounts_def)
  have "accounts_ok ?db'" using same_accounts_ok [OF rest(3)] system_okD(1) [OF ok] by blast
  moreover have "revocations_ok ?db'"
    using system_okD(2) [OF ok] by (simp add: complete_revocation_def filter_revocations_ok)
  moreover have "hands_ok ?s"
    using system_okD(3) [OF ok] sub rest by (auto simp: hands_ok_def drawn_def)
  moreover have "conns_ok ?s" using system_okD(4) [OF ok] by (simp add: conns_ok_def)
  moreover have "guarded ?s k c = guarded s k c" for k c
  proof -
    have "rightful ?s k c = rightful s k c"
      by (simp add: rightful_def hasLiveAgentMailboxAccess_def same_accounts_exact [OF rest(3)])
    moreover have "queued ?s k c P = queued s k c P" for P
    proof -
      have "\<not> holds_revocation row token r" if "av_id r \<notin> set (ay_done s)" for r
        using fin that by (auto simp: holds_revocation_def)
      then have "r \<in> set (pt_revocations ?db') \<longleftrightarrow> r \<in> set (pt_revocations ?db)" if "av_id r \<notin> set (ay_done s)" for r
        using that by (simp add: sub)
      moreover have "ay_db ?s = ?db'" "ay_done ?s = ay_done s" by simp_all
      ultimately show ?thesis unfolding queued_def by (simp cong: conj_cong) blast
    qed
    moreover have "doomed ?s k c = doomed s k c" "unread ?s k c = unread s k c" by (auto simp: doomed_def unread_def)
    ultimately show ?thesis by (simp add: guarded_def)
  qed
  moreover have "held ?s k c = held s k c" for k c by (simp add: held_def)
  ultimately show ?thesis using ok by (simp add: system_ok_def)
qed

lemma op_ok: "system_ok s \<Longrightarrow> system_ok (agent_step (Ae_op op) s)"
proof -
  assume ok: "system_ok s"
  show ?thesis
  proof (cases "admitted_op (ay_done s) op")
    case True
    show ?thesis
    proof (cases "completes op")
      case True
      then obtain row token where op: "op = Op_complete row token" by (cases op) auto
      then show ?thesis using \<open>admitted_op _ _\<close> completes_ok [OF ok, of row token] by (simp add: admitted_op_def)
    next
      case False
      have "accounted (ay_db s) (run_op op (ay_db s))"
        using True False by (intro op_accounted system_okD(1) [OF ok]) (auto simp: admitted_op_def)
      then have "system_ok (s\<lparr>ay_db := run_op op (ay_db s), ay_hand := ay_hand s @ claimed_rows op (ay_db s)\<rparr>)"
        using claimed_rows_known
        by (intro accounted_ok [OF ok] accounts_op_ok revocations_op_ok system_okD(1,2) [OF ok]) auto
      then show ?thesis using True by simp
    qed
  qed (use ok in simp)
qed

lemmas agent_events_ok = op_ok connect_ok frame_ok grant_ok marks_ok close_ok start_ok active_ok version_ok
  finishes_ok abort_ok

lemma agent_step_ok: "system_ok s \<Longrightarrow> system_ok (agent_step e s)"
  by (cases e) (simp_all only: agent_events_ok)

lemma agent_run_ok: "system_ok s \<Longrightarrow> system_ok (agent_run es s)"
  unfolding agent_run_def by (induction es arbitrary: s) (simp_all add: agent_step_ok del: agent_step.simps)

lemma start_system_ok: "accounts_ok db \<Longrightarrow> revocations_ok db \<Longrightarrow> system_ok (agents_start db)"
  by (simp add: system_ok_def agents_start_def hands_ok_def conns_ok_def)

lemma receivers_live: "distinct (map cn_id cs) \<Longrightarrow> c \<in> set (broadcast_receivers cs without) \<Longrightarrow> c \<in> set cs \<and> cn_liveAuthorized c"
  by (auto simp: broadcast_receivers_def unauthorizedAgentConnectionIds_def)

subsection \<open>The properties\<close>

text \<open>
  C28: No socket outlives its access unnoticed. Whatever sequence of account operations, logins, frames,
  checks, reconciliations and outbox statements has happened, every socket that a broadcast of a
  mailbox's agent reaches belongs to a user who may still use the mailbox with the session it was opened
  with, or the outbox has a revocation for that user or that mailbox, whose processing looks at it. Two
  operations are not among these (\<open>admitted_op\<close>): the rollbacks of a failed provisioning, which delete the
  user just created or unregister the mailbox just registered and write no revocation. A row of the
  outbox is completed only after its agent call has succeeded.
\<close>

theorem no_socket_outlives_its_access:
  assumes "accounts_ok db" and "revocations_ok db" and "js_lower m = m"
    and "s = agent_run es (agents_start db)" and "c \<in> set (broadcast_receivers (ay_conns s m) without)"
  shows "hasLiveAgentMailboxAccess (ay_db s) m c \<or>
    (\<exists>r\<in>set (pt_revocations (ay_db s)). av_mailbox_id r = m \<and>
       (av_scope r = Scope_mailbox \<or> av_user_id r = cn_actorUserId c))"
proof -
  have ok: "system_ok s" using assms(1,2,4) agent_run_ok start_system_ok by blast
  from receivers_live [OF conn_ids [OF ok] assms(5)] have c: "c \<in> set (ay_conns s m)" "held s m c" by (auto simp: held_def)
  then have "guarded s m c" using ok assms(3) unfolding system_ok_def by blast
  then show ?thesis by (auto simp: guarded_def rightful_def queued_def covers_def)
qed

text \<open>
  A call that waited for the reconciliation of a mailbox and was told that nothing is outstanding can
  rely on it: as long as the outbox has no row for the mailbox, every broadcast of its agent reaches only
  sockets of users who may use it now.
\<close>

theorem settled_mailbox_has_rightful_sockets:
  assumes "accounts_ok db" and "revocations_ok db" and "js_lower m = m" and "m \<noteq> []"
    and "s = agent_run es (agents_start db)"
    and "\<not> hasOutstandingWork \<lparr>rg_mailboxId = Some m, rg_userId = None, rg_scope = None\<rparr> (ay_db s)"
  shows "list_all (hasLiveAgentMailboxAccess (ay_db s) m) (broadcast_receivers (ay_conns s m) without)"
proof -
  have "hasLiveAgentMailboxAccess (ay_db s) m c" if c: "c \<in> set (broadcast_receivers (ay_conns s m) without)" for c
  proof -
    have ok: "system_ok s" using assms(1,2,5) agent_run_ok start_system_ok by blast
    from receivers_live [OF conn_ids [OF ok] c] have "c \<in> set (ay_conns s m)" "held s m c" by (auto simp: held_def)
    then have "guarded s m c" using ok assms(3) unfolding system_ok_def by blast
    moreover have "\<not> queued s m c (\<lambda>r. True)"
    proof
      assume "queued s m c (\<lambda>r. True)"
      then obtain r where r: "r \<in> set (pt_revocations (ay_db s))" "av_mailbox_id r = m"
        by (auto simp: queued_def covers_def)
      then have "targets \<lparr>rg_mailboxId = Some m, rg_userId = None, rg_scope = None\<rparr> r"
        using assms(3) by (simp add: targets_def)
      with r(1) assms(6) show False by (auto simp: hasOutstandingWork_def list_ex_iff)
    qed
    ultimately show ?thesis by (simp add: guarded_def rightful_def)
  qed
  then show ?thesis by (simp add: list_all_iff)
qed

end
