(* ===== verification/Row_Edits.thy ===== *)
theory Row_Edits
  imports Portal_Prelude
begin

text \<open>How a row of an edited table came about; the lemmas the invariants of the tables share.\<close>

lemma update_whereE:
  assumes "r' \<in> set (update_where P f rs)"
  obtains (changed) r where "r \<in> set rs" "P r" "r' = f r" | (kept) "r' \<in> set rs" "\<not> P r'"
proof -
  have "r' \<in> f ` (set rs \<inter> {r. P r}) \<or> r' \<in> set rs \<inter> {r. \<not> P r}"
    using assms by (simp add: set_update_where)
  then show ?thesis by (elim disjE imageE IntE CollectE) (rule changed, assumption+, rule kept)
qed

lemma update_where_all:
  assumes "\<And>r. r \<in> set rs \<Longrightarrow> P r \<Longrightarrow> Q (f r)" and "\<And>r. r \<in> set rs \<Longrightarrow> \<not> P r \<Longrightarrow> Q r"
  shows "\<forall>r\<in>set (update_where P f rs). Q r"
  using assms by (auto elim!: update_whereE)

lemma update_where_keys:
  "(\<And>r. r \<in> set rs \<Longrightarrow> P r \<Longrightarrow> k (f r) = k r) \<Longrightarrow> map k (update_where P f rs) = map k rs"
  by (induction rs) auto

end
