(* ===== verification/Account_Guarantees.thy ===== *)
theory Account_Guarantees
  imports Access_Revocation Row_Edits
begin

text \<open>
  What happens to one user along a run of operations: its session version only grows, and once
  deactivated it stays so until somebody activates it again.
\<close>

subsection \<open>One user along a run\<close>

lemma find_update:
  assumes "\<And>u. us_id (f u) = us_id u"
  shows "find (\<lambda>u. us_id u = i) (update_where (\<lambda>u. us_id u = j) f us) =
    map_option (\<lambda>u. if i = j then f u else u) (find (\<lambda>u. us_id u = i) us)"
  by (induction us) (auto simp: assms)

lemma get_user_update:
  assumes "keeps_user f"
  shows "get_user i (update_user j f db) = map_option (\<lambda>u. if i = j then f u else u) (get_user i db)"
proof -
  have keep: "us_id (f u) = us_id u" for u using assms by (simp add: keeps_user_def)
  have "get_user i (update_user j f db) = find (\<lambda>u. us_id u = i) (update_where (\<lambda>u. us_id u = j) f (pt_users db))"
    if "get_user j db \<noteq> None" using that by (auto simp: update_user_enqueued get_user_def)
  moreover have "update_user j f db = db" "get_user i db = map_option (\<lambda>u. if i = j then f u else u) (get_user i db)"
    if "get_user j db = None" using that by (cases "get_user i db"; auto simp: update_user_enqueued)+
  ultimately show ?thesis using find_update [where f = f, OF keep] by (cases "get_user j db = None") (auto simp: get_user_def)
qed

lemma get_user_same: "pt_users db' = pt_users db \<Longrightarrow> get_user i db' = get_user i db"
  by (simp add: get_user_def)

lemma update_mailboxes_users [simp]: "pt_users (update_mailboxes P f db) = pt_users db"
  by (simp add: portal_triggers)

lemma delete_memberships_users [simp]: "pt_users (delete_memberships P db) = pt_users db"
  by (simp add: portal_triggers)

lemma delete_mailboxes_users [simp]: "pt_users (delete_mailboxes P db) = pt_users db"
  by (simp add: delete_mailboxes_def Let_def)

lemma void_recovery_users [simp]: "pt_users (void_recovery reason at i db) = pt_users db"
  by (simp add: void_recovery_def)

lemma edit_revocations_users [simp]: "pt_users (edit_revocations P f db) = pt_users db"
  by (simp add: edit_revocations_def)

lemma find_filter_other: "i \<noteq> j \<Longrightarrow> find (\<lambda>u. us_id u = i) (filter (\<lambda>u. us_id u \<noteq> j) us) = find (\<lambda>u. us_id u = i) us"
  by (induction us) auto

fun deletes_user :: "string \<Rightarrow> portal_op \<Rightarrow> bool" where
  "deletes_user i (Op_delete_user j) = (i = j)"
| "deletes_user i _ = False"

fun activates :: "string \<Rightarrow> portal_op \<Rightarrow> bool" where
  "activates i (Op_activate now j) = (i = j)"
| "activates i _ = False"

definition progressed :: "bool \<Rightarrow> user_row option \<Rightarrow> user_row option \<Rightarrow> bool" where
  "progressed activated u u' \<longleftrightarrow> (case u of None \<Rightarrow> True | Some u \<Rightarrow>
     (\<exists>u1. u' = Some u1 \<and> us_session_version u \<le> us_session_version u1 \<and>
        (us_is_active u1 \<longrightarrow> us_is_active u \<or> activated)))"

lemma progressed_refl [simp]: "progressed b u u"
  by (simp add: progressed_def split: option.split)

lemma progressed_trans: "progressed b u u1 \<Longrightarrow> progressed b u1 u2 \<Longrightarrow> progressed b u u2"
  by (fastforce simp: progressed_def split: option.splits)

lemma progressed_update:
  assumes "keeps_user f" and "\<And>u. us_session_version u \<le> us_session_version (f u)"
    and "\<And>u. us_is_active (f u) \<Longrightarrow> us_is_active u \<or> b \<or> i \<noteq> j"
  shows "progressed b (get_user i db) (get_user i (update_user j f db))"
  using assms(2,3) by (auto simp: get_user_update [OF assms(1)] progressed_def split: option.split)

lemma op_progress:
  assumes "\<not> deletes_user i op"
  shows "progressed (activates i op) (get_user i db) (get_user i (run_op op db))"
proof (cases op)
  case (Op_create uuid now inp)
  show ?thesis unfolding Op_create
    by (auto simp: createUser_def Let_def get_user_def progressed_def find_append split: option.split)
next
  case (Op_delete_user j)
  then have "i \<noteq> j" using assms by auto
  then show ?thesis unfolding Op_delete_user
    by (auto simp: deleteUser_def delete_user_row_def get_user_def find_filter_other split: option.split)
next
  case (Op_password now j h s confirm)
  have "progressed False (get_user i db) (get_user i (update_user j (new_password h s confirm now) db))"
    by (rule progressed_update) (simp_all add: new_password_def)
  then show ?thesis unfolding Op_password by (simp add: replaceUserCredentials_def get_user_same [OF void_recovery_users])
next
  case (Op_deactivate audit j h s at)
  have "progressed False (get_user i db) (get_user i (update_user j (deactivated_user h s at) db))"
    by (rule progressed_update) (simp_all add: deactivated_user_def)
  moreover have "pt_users (deactivate_batch audit j h s at db) = pt_users (update_user j (deactivated_user h s at) db)"
    by (simp add: deactivate_batch_def audit_deactivation_def)
  ultimately have "progressed False (get_user i db) (get_user i (deactivate_batch audit j h s at db))"
    by (simp only: get_user_same [of "deactivate_batch audit j h s at db" "update_user j (deactivated_user h s at) db"])
  then show ?thesis unfolding Op_deactivate by simp
next
  case (Op_activate now j)
  have "progressed (i = j) (get_user i db) (get_user i (update_user j (\<lambda>u. u\<lparr>us_is_active := True, us_updated_at := now\<rparr>) db))"
    by (rule progressed_update) auto
  then show ?thesis unfolding Op_activate
    by (simp add: lifecycle_activate_def Let_def get_user_same [OF update_mailboxes_users])
next
  case (Op_consume inp nonce audit t)
  obtain db1 db2 where parts: "same_accounts db db1"
    "db2 = db1 \<or> db2 = update_user (tk_user_id t) (recovered_user inp) db1"
    "same_accounts db2 (snd (consume_batch inp nonce audit t db))"
    using consume_parts [of db t inp nonce audit] by blast
  have "progressed False (get_user i db1) (get_user i (update_user (tk_user_id t) (recovered_user inp) db1))"
    by (rule progressed_update) (simp_all add: recovered_user_def)
  then have "progressed False (get_user i db) (get_user i (snd (consume_batch inp nonce audit t db)))"
    using parts by (auto simp: same_accounts_def get_user_def)
  then show ?thesis unfolding Op_consume by simp
next
  case (Op_recovery r)
  show ?thesis unfolding Op_recovery using recovery_same [of db r] by (simp add: same_accounts_def get_user_def)
qed (simp_all add: addMailbox_def addMembership_def setMailboxActive_def removeMembership_def unregisterMailbox_def
  claimBatch_def renewLease_def complete_revocation_def retry_revocation_def Let_def get_user_def)

lemma run_progress:
  assumes "\<And>op. op \<in> set ops \<Longrightarrow> \<not> deletes_user i op" and "\<And>op. op \<in> set ops \<Longrightarrow> activates i op \<Longrightarrow> b"
  shows "progressed b (get_user i db) (get_user i (run_ops ops db))"
  using assms
proof (induction ops arbitrary: db)
  case (Cons op ops)
  have "progressed (activates i op) (get_user i db) (get_user i (run_op op db))"
    by (rule op_progress) (simp add: Cons.prems)
  moreover have "activates i op \<Longrightarrow> b" using Cons.prems(2) [of op] by simp
  ultimately have "progressed b (get_user i db) (get_user i (run_op op db))"
    by (auto simp: progressed_def split: option.splits)
  moreover have "progressed b (get_user i (run_op op db)) (get_user i (run_ops ops (run_op op db)))"
    by (rule Cons.IH) (use Cons.prems in auto)
  ultimately show ?case by (auto intro: progressed_trans)
qed simp

lemma consume_tokens_spent:
  "t \<in> set (consume_tokens at i ts) \<Longrightarrow> tk_user_id t = i \<Longrightarrow> tk_consumed_at t \<noteq> None"
  unfolding consume_tokens_def by (elim update_whereE) auto

subsection \<open>The properties\<close>

text \<open>
  The operations that change a user's credentials: a password is set or revoked, a recovery link is used
  successfully, the account is deactivated.
\<close>

fun changes_credentials :: "string \<Rightarrow> portal_op \<Rightarrow> portal_db \<Rightarrow> bool" where
  "changes_credentials i (Op_password now j h s confirm) db = (i = j)"
| "changes_credentials i (Op_deactivate audit j h s at) db = (i = j \<and> \<not> audit_taken audit db)"
| "changes_credentials i (Op_consume inp nonce audit t) db =
     (i = tk_user_id t \<and> \<not> audit_taken audit db \<and> fst (consume_batch inp nonce audit t db))"
| "changes_credentials i _ db = False"

lemma credential_change_raises:
  assumes "changes_credentials i op db" and "get_user i db = Some u"
  shows "\<exists>u'. get_user i (run_op op db) = Some u' \<and> us_session_version u' = us_session_version u + 1"
  using assms(1)
proof (cases op)
  case (Op_password now j h s confirm)
  have "get_user i (update_user i (new_password h s confirm now) db) = Some (new_password h s confirm now u)"
    using assms(2) by (simp add: get_user_update)
  then show ?thesis
    using assms(1) by (simp add: Op_password replaceUserCredentials_def get_user_same [OF void_recovery_users] new_password_def)
next
  case (Op_deactivate audit j h s at)
  have "get_user i (deactivate_batch audit i h s at db) = get_user i (update_user i (deactivated_user h s at) db)"
    by (rule get_user_same) (simp add: deactivate_batch_def audit_deactivation_def)
  also have "\<dots> = Some (deactivated_user h s at u)"
    using assms(2) by (simp add: get_user_update)
  finally have "get_user i (deactivate_batch audit i h s at db) = Some (deactivated_user h s at u)" .
  moreover have "i = j" "\<not> audit_taken audit db" using assms(1) by (simp_all add: Op_deactivate)
  ultimately show ?thesis by (simp add: Op_deactivate deactivated_user_def)
next
  case (Op_consume inp nonce audit t)
  let ?db1 = "snd (spend_token inp (tk_id t) nonce db)"
  have i: "i = tk_user_id t" and "\<not> audit_taken audit db" and ok: "fst (consume_batch inp nonce audit t db)"
    using assms(1) by (simp_all add: Op_consume)
  have "pt_users ?db1 = pt_users db" by (simp add: spend_token_def Let_def)
  then have "get_user i ?db1 = Some u" using assms(2) get_user_same by metis
  moreover have "pt_users (snd (consume_batch inp nonce audit t db)) = pt_users (update_user i (recovered_user inp) ?db1)"
    using ok by (simp add: consume_batch_def split_beta Let_def i)
  moreover have "get_user i (update_user i (recovered_user inp) ?db1) = map_option (recovered_user inp) (get_user i ?db1)"
    by (simp add: get_user_update)
  ultimately have "get_user i (snd (consume_batch inp nonce audit t db)) = Some (recovered_user inp u)"
    using get_user_same by (metis option.simps(9))
  then show ?thesis using \<open>\<not> audit_taken audit db\<close> by (simp add: Op_consume recovered_user_def)
qed simp_all

text \<open>
  C30: A session from before a credential change never works again. Changing or revoking a password, using
  a recovery link and deactivating the account all raise the session version above every version handed
  out before, and no operation lowers it; so whatever happens afterwards (short of deleting the user),
  reactivation included, a session of the version the user had, or of an older one, is refused by the
  session check, by the live check of every mailbox and by the roster.
\<close>

theorem old_session_never_returns:
  assumes "accounts_ok db" and "get_user i db = Some u" and "changes_credentials i op db"
    and "v \<le> us_session_version u" and "list_all (\<lambda>op. \<not> deletes_user i op) ops"
  shows "resolveLiveSessionUser (run_ops ops (run_op op db)) i (Some v) = None \<and>
    \<not> hasExactLiveMailboxAccess (run_ops ops (run_op op db)) k i (Some v) \<and>
    loadExactLiveMailboxRoster (run_ops ops (run_op op db)) i (Some v) = None"
proof -
  let ?db = "run_ops ops (run_op op db)"
  have ok: "accounts_ok ?db" using accounts_run_ok [of db "op # ops"] assms(1) by simp
  from credential_change_raises [OF assms(3,2)] obtain u1
    where u1: "get_user i (run_op op db) = Some u1" "us_session_version u1 = us_session_version u + 1" by blast
  have "progressed True (get_user i (run_op op db)) (get_user i ?db)"
    using assms(5) by (intro run_progress) (auto simp: list_all_iff)
  then obtain u' where u': "get_user i ?db = Some u'" "us_session_version u1 \<le> us_session_version u'"
    using u1(1) by (auto simp: progressed_def)
  then have newer: "v < us_session_version u'" using u1(2) assms(4) by simp
  then have "live_version ?db i \<noteq> Some v" using u'(1) by (auto simp: live_version_get)
  then show ?thesis
    using u' newer by (simp add: resolveLiveSessionUser_def sessionMatchesUserVersion_def exact_access_iff [OF ok]
        roster_iff [OF ok])
qed

text \<open>
  A deactivated account is shut out until it is activated again: from the moment the deactivation
  answers, whatever other operations follow, no session of the user is accepted, no form of the access
  check lets it into a mailbox, its recovery links can be neither issued nor used, and no link issued
  before is left.
\<close>

theorem deactivated_account_is_shut_out:
  assumes "accounts_ok db" and "\<And>n db. accounts_ok db \<Longrightarrow> accounts_ok (others n db)"
    and "store_deactivate others uuid i h s at db = (Inr ids, db1)"
    and "list_all (\<lambda>op. \<not> deletes_user i op \<and> \<not> activates i op) ops"
  shows "(\<forall>t\<in>set (pt_tokens db1). tk_user_id t = i \<longrightarrow> tk_consumed_at t \<noteq> None) \<and>
    resolveLiveSessionUser (run_ops ops db1) i v = None \<and> \<not> canAccessMailbox (run_ops ops db1) (run_ops ops db1) i k \<and>
    \<not> hasExactLiveMailboxAccess (run_ops ops db1) k i v \<and> \<not> eligible i purpose (run_ops ops db1)"
proof -
  let ?base = "others 1 (others 0 db)" and ?db = "run_ops ops db1"
  have ok0: "accounts_ok ?base" by (intro assms(1,2))
  have db1: "db1 = deactivate_batch (''audit_'' @ uuid) i h s at ?base" and known: "user_known i ?base"
    using assms(3) by (auto simp: store_deactivate_def Let_def split: if_splits)
  have ok1: "accounts_ok db1" unfolding db1 by (rule deactivate_ok) (rule ok0)
  then have ok: "accounts_ok ?db" by (rule accounts_run_ok)
  from known obtain u0 where "get_user i ?base = Some u0" using get_user_None by (cases "get_user i ?base") auto
  moreover have "get_user i db1 = get_user i (update_user i (deactivated_user h s at) ?base)"
    unfolding db1 by (rule get_user_same) (simp add: deactivate_batch_def audit_deactivation_def)
  ultimately have "get_user i db1 = Some (deactivated_user h s at u0)" by (simp add: get_user_update)
  moreover have "progressed False (get_user i db1) (get_user i ?db)"
    using assms(4) by (intro run_progress) (auto simp: list_all_iff)
  ultimately obtain u where u: "get_user i ?db = Some u" "\<not> us_is_active u"
    by (auto simp: progressed_def deactivated_user_def)
  have "\<not> may_use ?db i k" for k using u by (auto simp: may_use_get)
  then have "\<not> canAccessMailbox ?db ?db i k" "\<not> hasExactLiveMailboxAccess ?db k i v"
    using can_access_iff [OF ok] exact_access_iff [OF ok] by (auto simp: hasExactLiveMailboxAccess_def split: option.split)
  moreover have "\<not> eligible i purpose ?db"
  proof
    assume "eligible i purpose ?db"
    then obtain w where "w \<in> set (pt_users ?db)" "us_id w = i" "us_is_active w" by (auto simp: eligible_def list_ex_iff)
    then show False using u get_user_iff [OF ok, of i w] by simp
  qed
  moreover have "\<forall>t\<in>set (pt_tokens db1). tk_user_id t = i \<longrightarrow> tk_consumed_at t \<noteq> None"
  proof
    fix t assume t: "t \<in> set (pt_tokens db1)"
    obtain ts where "pt_tokens db1 = consume_tokens at i ts"
      unfolding db1 by (simp add: deactivate_batch_def audit_deactivation_def void_recovery_def)
    with t show "tk_user_id t = i \<longrightarrow> tk_consumed_at t \<noteq> None" using consume_tokens_spent by metis
  qed
  ultimately show ?thesis using u by (simp add: resolveLiveSessionUser_def)
qed

text \<open>
  Managing mailboxes takes an active administrator. To anybody else (an unknown user, an inactive
  one, an agent) every management operation answers FORBIDDEN, and the database is what the other
  requests made of it: nothing was read out of it and nothing was written.
\<close>

theorem management_takes_an_admin:
  assumes "case get_user a (others 0 db) of None \<Rightarrow> True | Some u \<Rightarrow> \<not> us_is_active u \<or> us_role u \<noteq> Role_admin"
  shows "listManagedMailboxes others a db = (Inl Access_forbidden, others 0 db) \<and>
    registerSharedMailbox others now a address db = (Inl Access_forbidden, others 0 db) \<and>
    deactivateMailbox others now a m db = (Inl Access_forbidden, others 0 db) \<and>
    listSharedMailboxMembers others a m db = (Inl Access_forbidden, others 0 db) \<and>
    addSharedMailboxMember others now a m i db = (Inl Access_forbidden, others 0 db) \<and>
    removeSharedMailboxMember others a m i db = (Inl Access_forbidden, others 0 db)"
proof -
  have "requireActiveAdmin a (others 0 db) = Inl Access_forbidden"
    using assms by (auto simp: requireActiveAdmin_def guard_result_def split: option.splits)
  then show ?thesis
    by (simp add: listManagedMailboxes_def registerSharedMailbox_def deactivateMailbox_def
        listSharedMailboxMembers_def addSharedMailboxMember_def removeSharedMailboxMember_def Let_def)
qed

end
