(* ===== verification/Access_Witnesses.thy ===== *)
theory Access_Witnesses
  imports Agent_Revocation Account_Guarantees
begin

text \<open>Concrete runs on which the hypotheses of the access and account properties hold.\<close>

definition sample_user :: "string \<Rightarrow> user_role \<Rightarrow> user_row" where
  "sample_user i role =
     \<lparr>us_id = i, us_email = i @ ''@x'', us_password_hash = ''h'', us_password_salt = ''s'',
      us_session_version = 1, us_role = role, us_is_active = True, us_mailbox_address = i @ ''@x'',
      us_mcp_token_hash = None, us_ownership_confirmed_at = Some 1, us_created_at = 0, us_updated_at = 0\<rparr>"

definition sample_mailbox :: mailbox_row where
  "sample_mailbox =
     \<lparr>mb_id = ''team@x'', mb_address = ''team@x'', mb_type = Shared_mailbox, mb_owner_user_id = None,
      mb_is_active = True, mb_created_at = 0, mb_updated_at = 0\<rparr>"

text \<open>An administrator, an agent, and a shared mailbox the agent is a member of.\<close>

definition sample_portal :: portal_db where
  "sample_portal =
     \<lparr>pt_users = [sample_user ''a'' Role_admin, sample_user ''u'' Role_agent], pt_mailboxes = [sample_mailbox],
      pt_memberships = [\<lparr>mm_mailbox_id = ''team@x'', mm_user_id = ''u'', mm_created_at = 0\<rparr>],
      pt_revocations = [], pt_tokens = [], pt_audit = [], pt_deliveries = [], pt_attempts = [], pt_events = [],
      pt_jobs = [], pt_limits = [], pt_control = Some 1, pt_random = (\<lambda>n. replicate n CHR ''0''), pt_draws = 0,
      pt_unixepoch = 100\<rparr>"

lemma sample_portal_ok: "accounts_ok sample_portal" "revocations_ok sample_portal"
proof -
  show "accounts_ok sample_portal"
    by (simp add: accounts_ok_def sample_portal_def sample_user_def sample_mailbox_def mailbox_checks_def
        user_known_def mailbox_known_def) code_simp
  have "inj (\<lambda>n. replicate n CHR ''0'')" by (rule injI) (metis length_replicate)
  then show "revocations_ok sample_portal" by (simp add: revocations_ok_def sample_portal_def)
qed

lemma access_formulations_agree_witness:
  "canAccessMailbox sample_portal sample_portal ''u'' ''team@x'' = may_use sample_portal ''u'' ''team@x'' \<and>
   may_use sample_portal ''u'' ''team@x''"
proof -
  have low: "js_lower ''team@x'' = ''team@x''" by code_simp
  have "may_use sample_portal ''u'' ''team@x''" by code_simp
  then show ?thesis using access_formulations_agree [OF sample_portal_ok(1) low, of "''u''"] by blast
qed

text \<open>
  The member connects, is admitted, loses its membership, the outbox row is claimed and the agent
  reconciles; before the end the row is there, after the row's completion the socket is closed.
\<close>

definition sample_conn :: agent_conn where
  "sample_conn = \<lparr>cn_id = ''c1'', cn_actorUserId = Some ''u'', cn_actorSessionVersion = Some 1,
     cn_liveAuthorized = False\<rparr>"

definition sample_events :: "agent_event list" where
  "sample_events =
     [Ae_connect ''team@x'' sample_conn, Ae_grant ''team@x'' ''c1'', Ae_mark ''team@x'' ''c1'',
      Ae_op (Op_remove_member ''team@x'' ''u'')]"

definition sample_revoked :: agent_system where
  "sample_revoked = agent_run sample_events (agents_start sample_portal)"

lemma no_socket_outlives_its_access_witness:
  "\<not> hasLiveAgentMailboxAccess (ay_db sample_revoked) ''team@x'' (sample_conn\<lparr>cn_liveAuthorized := True\<rparr>) \<and>
   (\<exists>r\<in>set (pt_revocations (ay_db sample_revoked)). av_mailbox_id r = ''team@x'' \<and>
      (av_scope r = Scope_mailbox \<or> av_user_id r = Some ''u''))"
proof -
  have low: "js_lower ''team@x'' = ''team@x''" by code_simp
  have reached: "sample_conn\<lparr>cn_liveAuthorized := True\<rparr> \<in> set (broadcast_receivers (ay_conns sample_revoked ''team@x'') [])"
    by code_simp
  have gone: "\<not> hasLiveAgentMailboxAccess (ay_db sample_revoked) ''team@x'' (sample_conn\<lparr>cn_liveAuthorized := True\<rparr>)"
    by code_simp
  show ?thesis
    using no_socket_outlives_its_access [OF sample_portal_ok low sample_revoked_def reached] gone
    by (simp add: sample_conn_def)
qed

lemma settled_mailbox_has_rightful_sockets_witness:
  "list_all (hasLiveAgentMailboxAccess (ay_db (agent_run (take 3 sample_events) (agents_start sample_portal))) ''team@x'')
     (broadcast_receivers (ay_conns (agent_run (take 3 sample_events) (agents_start sample_portal)) ''team@x'') []) \<and>
   broadcast_receivers (ay_conns (agent_run (take 3 sample_events) (agents_start sample_portal)) ''team@x'') [] \<noteq> []"
proof -
  let ?s = "agent_run (take 3 sample_events) (agents_start sample_portal)"
  have low: "js_lower ''team@x'' = ''team@x''" by code_simp
  have idle: "\<not> hasOutstandingWork \<lparr>rg_mailboxId = Some ''team@x'', rg_userId = None, rg_scope = None\<rparr> (ay_db ?s)"
    by code_simp
  have "broadcast_receivers (ay_conns ?s ''team@x'') [] \<noteq> []" by code_simp
  then show ?thesis
    using settled_mailbox_has_rightful_sockets [OF sample_portal_ok low _ refl idle, of "[]"] by simp
qed

lemma old_session_never_returns_witness:
  "\<not> hasExactLiveMailboxAccess
     (run_ops [Op_activate 9 ''u''] (run_op (Op_password 5 ''u'' ''h2'' ''s2'' False) sample_portal)) ''team@x'' ''u'' (Some 1)"
proof -
  let ?op = "Op_password 5 ''u'' ''h2'' ''s2'' False"
  obtain u where u: "get_user ''u'' sample_portal = Some u" "1 \<le> us_session_version u"
  proof -
    have "case get_user ''u'' sample_portal of None \<Rightarrow> False | Some u \<Rightarrow> 1 \<le> us_session_version u" by code_simp
    then show ?thesis using that by (auto split: option.splits)
  qed
  have "changes_credentials ''u'' ?op sample_portal" by simp
  from old_session_never_returns [OF sample_portal_ok(1) u(1) this u(2), of "[Op_activate 9 ''u'']"]
  show ?thesis by simp
qed

lemma deactivated_account_is_shut_out_witness:
  "resolveLiveSessionUser (run_ops [Op_password 7 ''u'' ''h2'' ''s2'' True]
     (snd (store_deactivate (\<lambda>n db. db) ''x'' ''u'' ''h'' ''s'' 5 sample_portal))) ''u'' (Some 2) = None"
proof -
  obtain ids db1 where run: "store_deactivate (\<lambda>n db. db) ''x'' ''u'' ''h'' ''s'' 5 sample_portal = (Inr ids, db1)"
  proof -
    have "case fst (store_deactivate (\<lambda>n db. db) ''x'' ''u'' ''h'' ''s'' 5 sample_portal) of Inl _ \<Rightarrow> False | Inr _ \<Rightarrow> True"
      by code_simp
    then show ?thesis using that by (cases "store_deactivate (\<lambda>n db. db) ''x'' ''u'' ''h'' ''s'' 5 sample_portal")
      (auto split: sum.splits)
  qed
  show ?thesis
    using deactivated_account_is_shut_out [OF sample_portal_ok(1) _ run, of "[Op_password 7 ''u'' ''h2'' ''s2'' True]"] run
    by simp
qed

lemma management_takes_an_admin_witness:
  "deactivateMailbox (\<lambda>n db. db) 5 ''u'' ''team@x'' sample_portal = (Inl Access_forbidden, sample_portal)"
proof -
  have "case get_user ''u'' ((\<lambda>n db. db) (0::nat) sample_portal) of None \<Rightarrow> True
    | Some u \<Rightarrow> \<not> us_is_active u \<or> us_role u \<noteq> Role_admin" by code_simp
  from management_takes_an_admin [of "''u''" "\<lambda>n db. db" sample_portal, OF this, of 5 "''x''" "''team@x''" "''i''"] show ?thesis by simp
qed

end
