(* ===== verification/Recovery_Invariant.thy ===== *)
theory Recovery_Invariant
  imports Account_Guarantees
begin

text \<open>
  The constraints of the recovery tables (migrations 0006 and 0012) and that every transaction keeps
  them: keys, references, the checks of requests, deliveries and attempts, and at most one unused token
  per user. A statement that broke one of them would throw, and a retention batch that did would never
  get past it.
\<close>

subsection \<open>The constraints\<close>

definition lease_checks :: "recovery_delivery \<Rightarrow> bool" where
  "lease_checks d \<longleftrightarrow>
     (rl_state d \<in> {Rs_leased, Rs_dispatching}) = (rl_lease_token d \<noteq> None) \<and>
     (rl_lease_token d = None) = (rl_lease_expires_at d = None) \<and>
     (rl_state d = Rs_dispatching \<longrightarrow> rl_dispatch_started_at d \<noteq> None)"

definition outcome_checks :: "recovery_delivery \<Rightarrow> bool" where
  "outcome_checks d \<longleftrightarrow>
     terminal_state (rl_state d) = (rl_completed_at d \<noteq> None) \<and>
     (rl_state d = Rs_accepted) = (rl_provider_message_id d \<noteq> None) \<and>
     (rl_state d = Rs_accepted) = (rl_accepted_attempt_id d \<noteq> None) \<and>
     (rl_state d = Rs_accepted) = (rl_accepted_at d \<noteq> None) \<and>
     (\<not> terminal_state (rl_state d) \<longrightarrow> rl_payload d \<noteq> None) \<and>
     (rl_state d \<in> {Rs_accepted, Rs_cancelled, Rs_expired} \<longrightarrow> rl_payload d = None)"

definition note_checks :: "recovery_delivery \<Rightarrow> bool" where
  "note_checks d \<longleftrightarrow>
     0 \<le> rl_attempt_count d \<and> 0 \<le> rl_ambiguous_dispatch_count d \<and>
     (rl_last_ambiguity_at d = None) = (rl_ambiguous_dispatch_count d = 0) \<and>
     (rl_cancellation_reason d = None) = (rl_cancellation_observed_at d = None)"

definition delivery_checks :: "recovery_delivery \<Rightarrow> bool" where
  "delivery_checks d \<longleftrightarrow> lease_checks d \<and> outcome_checks d \<and> note_checks d"

definition attempt_checks :: "dispatch_attempt \<Rightarrow> bool" where
  "attempt_checks a \<longleftrightarrow> (da_state a = Ds_accepted) = (da_provider_message_id a \<noteq> None) \<and>
     (da_state a = Ds_accepted \<longrightarrow> da_resolved_at a \<noteq> None)"

definition job_checks :: "request_job \<Rightarrow> bool" where
  "job_checks j \<longleftrightarrow>
     (jb_state j = Js_leased) = (jb_lease_token j \<noteq> None) \<and>
     (jb_lease_token j = None) = (jb_lease_expires_at j = None) \<and>
     (jb_state j \<in> {Js_completed, Js_suppressed, Js_expired, Js_parked}) = (jb_completed_at j \<noteq> None) \<and>
     (jb_state j \<in> {Js_pending, Js_leased} \<longrightarrow> jb_payload j \<noteq> None) \<and>
     (jb_state j \<in> {Js_completed, Js_suppressed, Js_expired} \<longrightarrow> jb_payload j = None) \<and>
     0 \<le> jb_attempt_count j"

definition unused :: "token_row \<Rightarrow> bool" where
  "unused t \<longleftrightarrow> tk_consumed_at t = None"

definition tokens_ok :: "token_row list \<Rightarrow> bool" where
  "tokens_ok ts \<longleftrightarrow> distinct (map tk_id ts) \<and> distinct (map tk_token_hash ts) \<and>
     distinct (map tk_user_id (filter unused ts))"

definition deliveries_ok :: "portal_db \<Rightarrow> bool" where
  "deliveries_ok db \<longleftrightarrow>
     distinct (map rl_id (pt_deliveries db)) \<and> distinct (map rl_token_id (pt_deliveries db)) \<and>
     (\<forall>d\<in>set (pt_deliveries db). delivery_checks d \<and> rl_token_id d \<in> tk_id ` set (pt_tokens db))"

definition attempts_ok :: "portal_db \<Rightarrow> bool" where
  "attempts_ok db \<longleftrightarrow> distinct (map da_attempt_id (pt_attempts db)) \<and>
     (\<forall>a\<in>set (pt_attempts db). attempt_checks a \<and> da_outbox_id a \<in> rl_id ` set (pt_deliveries db))"

definition events_ok :: "portal_db \<Rightarrow> bool" where
  "events_ok db \<longleftrightarrow> distinct (map pv_event_id (pt_events db)) \<and>
     (\<forall>v\<in>set (pt_events db). pv_outbox_id v \<in> rl_id ` set (pt_deliveries db) \<and>
        pv_attempt_id v \<in> da_attempt_id ` set (pt_attempts db))"

definition jobs_ok :: "portal_db \<Rightarrow> bool" where
  "jobs_ok db \<longleftrightarrow> distinct (map jb_id (pt_jobs db)) \<and> (\<forall>j\<in>set (pt_jobs db). job_checks j) \<and>
     distinct (map lm_throttle_key (pt_limits db))"

definition recovery_ok :: "portal_db \<Rightarrow> bool" where
  "recovery_ok db \<longleftrightarrow> tokens_ok (pt_tokens db) \<and> deliveries_ok db \<and> attempts_ok db \<and> events_ok db \<and> jobs_ok db"

lemma recovery_okI:
  "tokens_ok (pt_tokens db) \<Longrightarrow> deliveries_ok db \<Longrightarrow> attempts_ok db \<Longrightarrow> events_ok db \<Longrightarrow> jobs_ok db \<Longrightarrow> recovery_ok db"
  by (simp add: recovery_ok_def)

lemma recovery_okD:
  assumes "recovery_ok db"
  shows "tokens_ok (pt_tokens db)" "deliveries_ok db" "attempts_ok db" "events_ok db" "jobs_ok db"
  using assms by (simp_all add: recovery_ok_def)

text \<open>Only these tables matter.\<close>

definition same_recovery :: "portal_db \<Rightarrow> portal_db \<Rightarrow> bool" where
  "same_recovery db db' \<longleftrightarrow> pt_tokens db' = pt_tokens db \<and> pt_deliveries db' = pt_deliveries db \<and>
     pt_attempts db' = pt_attempts db \<and> pt_events db' = pt_events db \<and> pt_jobs db' = pt_jobs db \<and>
     pt_limits db' = pt_limits db"

lemma same_recovery_ok: "same_recovery db db' \<Longrightarrow> recovery_ok db \<Longrightarrow> recovery_ok db'"
  by (simp add: same_recovery_def recovery_ok_def deliveries_ok_def attempts_ok_def events_ok_def jobs_ok_def)

subsection \<open>Edits of one table\<close>

lemma deliveries_edit_ok:
  assumes ok: "recovery_ok db"
    and f: "\<And>d. d \<in> set (pt_deliveries db) \<Longrightarrow> P d \<Longrightarrow> delivery_checks d \<Longrightarrow>
      rl_id (f d) = rl_id d \<and> rl_token_id (f d) = rl_token_id d \<and> delivery_checks (f d)"
  shows "recovery_ok (db\<lparr>pt_deliveries := update_where P f (pt_deliveries db)\<rparr>)" (is "recovery_ok ?db")
proof -
  note D = recovery_okD [OF ok]
  have good: "rl_id (f d) = rl_id d" "rl_token_id (f d) = rl_token_id d" "delivery_checks (f d)"
    if "d \<in> set (pt_deliveries db)" "P d" for d
    using f [OF that] D(2) that by (auto simp: deliveries_ok_def)
  have ids: "map rl_id (pt_deliveries ?db) = map rl_id (pt_deliveries db)"
    "map rl_token_id (pt_deliveries ?db) = map rl_token_id (pt_deliveries db)"
    using good by (simp_all add: update_where_keys)
  have set_ids: "rl_id ` set (pt_deliveries ?db) = rl_id ` set (pt_deliveries db)"
    using arg_cong [OF ids(1), of set] unfolding list.set_map .
  have "\<forall>d\<in>set (pt_deliveries ?db). delivery_checks d \<and> rl_token_id d \<in> tk_id ` set (pt_tokens db)"
  proof
    fix d' assume "d' \<in> set (pt_deliveries ?db)"
    then have "d' \<in> set (update_where P f (pt_deliveries db))" by simp
    then show "delivery_checks d' \<and> rl_token_id d' \<in> tk_id ` set (pt_tokens db)"
    proof (cases rule: update_whereE)
      case (changed d)
      then show ?thesis using good [OF changed(1,2)] D(2) by (auto simp: deliveries_ok_def)
    next
      case kept
      then show ?thesis using D(2) by (auto simp: deliveries_ok_def)
    qed
  qed
  then have "deliveries_ok ?db" using D(2) unfolding deliveries_ok_def ids by simp
  moreover have "attempts_ok ?db" using D(3) unfolding attempts_ok_def set_ids by simp
  moreover have "events_ok ?db" using D(4) unfolding events_ok_def set_ids by simp
  moreover have "jobs_ok ?db" using D(5) by (simp add: jobs_ok_def)
  ultimately show ?thesis using D(1) by (simp add: recovery_ok_def)
qed

lemma attempts_edit_ok:
  assumes ok: "recovery_ok db"
    and f: "\<And>a. a \<in> set (pt_attempts db) \<Longrightarrow> P a \<Longrightarrow> attempt_checks a \<Longrightarrow>
      da_attempt_id (f a) = da_attempt_id a \<and> da_outbox_id (f a) = da_outbox_id a \<and> attempt_checks (f a)"
  shows "recovery_ok (db\<lparr>pt_attempts := update_where P f (pt_attempts db)\<rparr>)" (is "recovery_ok ?db")
proof -
  note D = recovery_okD [OF ok]
  have good: "da_attempt_id (f a) = da_attempt_id a" "da_outbox_id (f a) = da_outbox_id a" "attempt_checks (f a)"
    if "a \<in> set (pt_attempts db)" "P a" for a
    using f [OF that] D(3) that by (auto simp: attempts_ok_def)
  have ids: "map da_attempt_id (pt_attempts ?db) = map da_attempt_id (pt_attempts db)"
    using good by (simp add: update_where_keys)
  have set_ids: "da_attempt_id ` set (pt_attempts ?db) = da_attempt_id ` set (pt_attempts db)"
    using arg_cong [OF ids, of set] unfolding list.set_map .
  have "\<forall>a\<in>set (pt_attempts ?db). attempt_checks a \<and> da_outbox_id a \<in> rl_id ` set (pt_deliveries db)"
  proof
    fix a' assume "a' \<in> set (pt_attempts ?db)"
    then have "a' \<in> set (update_where P f (pt_attempts db))" by simp
    then show "attempt_checks a' \<and> da_outbox_id a' \<in> rl_id ` set (pt_deliveries db)"
    proof (cases rule: update_whereE)
      case (changed a)
      then show ?thesis using good [OF changed(1,2)] D(3) by (auto simp: attempts_ok_def)
    next
      case kept
      then show ?thesis using D(3) by (auto simp: attempts_ok_def)
    qed
  qed
  then have "attempts_ok ?db" using D(3) unfolding attempts_ok_def ids by simp
  moreover have "events_ok ?db" using D(4) unfolding events_ok_def set_ids by simp
  moreover have "deliveries_ok ?db" "jobs_ok ?db" using D(2,5) by (simp_all add: jobs_ok_def deliveries_ok_def)
  ultimately show ?thesis using D(1) by (simp add: recovery_ok_def)
qed

lemma jobs_edit_ok:
  assumes ok: "recovery_ok db"
    and f: "\<And>j. j \<in> set (pt_jobs db) \<Longrightarrow> P j \<Longrightarrow> job_checks j \<Longrightarrow> jb_id (f j) = jb_id j \<and> job_checks (f j)"
  shows "recovery_ok (db\<lparr>pt_jobs := update_where P f (pt_jobs db)\<rparr>)" (is "recovery_ok ?db")
proof -
  note D = recovery_okD [OF ok]
  have good: "jb_id (f j) = jb_id j" "job_checks (f j)" if "j \<in> set (pt_jobs db)" "P j" for j
    using f [OF that] D(5) that by (auto simp: jobs_ok_def)
  have ids: "map jb_id (pt_jobs ?db) = map jb_id (pt_jobs db)" using good by (simp add: update_where_keys)
  have "\<forall>j\<in>set (pt_jobs ?db). job_checks j"
    using good D(5) by (auto simp: jobs_ok_def elim!: update_whereE)
  then have "jobs_ok ?db" using D(5) unfolding jobs_ok_def ids by simp
  then show ?thesis using D by (simp add: recovery_ok_def deliveries_ok_def attempts_ok_def events_ok_def)
qed

lemma tokens_edit_ok:
  assumes ok: "recovery_ok db" and tokens: "tokens_ok ts" and ids: "tk_id ` set (pt_tokens db) \<subseteq> tk_id ` set ts"
  shows "recovery_ok (db\<lparr>pt_tokens := ts\<rparr>)"
  using recovery_okD [OF ok] tokens ids
  by (auto simp: recovery_ok_def deliveries_ok_def attempts_ok_def events_ok_def jobs_ok_def)

end
