(* ===== verification/Recovery_Preserved.thy ===== *)
theory Recovery_Preserved
  imports Recovery_Invariant
begin

text \<open>
  Every transaction keeps the constraints of the recovery tables: first what a statement does to one row,
  then the insertions and deletions, then one lemma per transaction.
\<close>

subsection \<open>One row\<close>

lemma cancelled_checks:
  assumes "delivery_checks d" and "rl_state d = Rs_pending \<or> rl_state d = Rs_leased"
  shows "delivery_checks (cancelled_fields reason at d)"
  using assms unfolding delivery_checks_def
  by (elim conjE; intro conjI)
    (auto simp: lease_checks_def cancelled_fields_def,
     auto simp: outcome_checks_def terminal_state_def cancelled_fields_def,
     auto simp: note_checks_def cancelled_fields_def)

lemma noted_checks:
  assumes "delivery_checks d" and "rl_state d = Rs_dispatching"
  shows "delivery_checks (noted_fields reason at d)"
  using assms unfolding delivery_checks_def
  by (elim conjE; intro conjI)
    (auto simp: lease_checks_def noted_fields_def coalesce_def,
     auto simp: outcome_checks_def terminal_state_def noted_fields_def coalesce_def,
     auto simp: note_checks_def noted_fields_def coalesce_def)

lemma leased_checks:
  assumes "delivery_checks d" and "rl_state d = Rs_pending \<or> rl_state d = Rs_leased"
  shows "delivery_checks (leased_fields now token d)"
  using assms unfolding delivery_checks_def
  by (elim conjE; intro conjI)
    (auto simp: lease_checks_def leased_fields_def,
     auto simp: outcome_checks_def terminal_state_def leased_fields_def,
     auto simp: note_checks_def leased_fields_def)

lemma finished_checks:
  assumes "delivery_checks d" and "rl_state d = Rs_leased" and "state = Rs_cancelled \<or> state = Rs_expired \<or> state = Rs_parked"
  shows "delivery_checks (finished_fields state err now d)"
  using assms unfolding delivery_checks_def
  by (elim conjE; intro conjI)
    (auto simp: lease_checks_def finished_fields_def,
     auto simp: outcome_checks_def terminal_state_def finished_fields_def,
     auto simp: note_checks_def finished_fields_def)

lemma dispatching_checks:
  assumes "delivery_checks d" and "rl_state d = Rs_leased"
  shows "delivery_checks (dispatching_fields now d)"
  using assms unfolding delivery_checks_def
  by (elim conjE; intro conjI)
    (auto simp: lease_checks_def dispatching_fields_def,
     auto simp: outcome_checks_def terminal_state_def dispatching_fields_def,
     auto simp: note_checks_def dispatching_fields_def)

lemma accepted_checks:
  assumes "delivery_checks d"
  shows "delivery_checks (accepted_fields m i now d)"
  using assms
  by (simp add: delivery_checks_def lease_checks_def outcome_checks_def note_checks_def terminal_state_def
      accepted_fields_def)

lemma settled_checks:
  assumes "delivery_checks d" and "rl_state d = Rs_leased \<or> rl_state d = Rs_dispatching" and "0 \<le> n"
    and "state = Rs_expired \<or> state = Rs_cancelled"
  shows "delivery_checks (settled_fields retryable state n err ambiguous now d)" (is "delivery_checks ?d")
proof -
  from assms(1) have old: "lease_checks d" "outcome_checks d" "note_checks d" by (simp_all add: delivery_checks_def)
  have "lease_checks ?d" using assms(4) by (auto simp: lease_checks_def settled_fields_def)
  moreover have "outcome_checks ?d"
    using assms(2,4) old(2) by (elim disjE; simp add: outcome_checks_def terminal_state_def settled_fields_def)
  moreover have "note_checks ?d"
    using assms(3) old(3) by (auto simp: note_checks_def settled_fields_def coalesce_def split: option.split)
  ultimately show ?thesis by (simp add: delivery_checks_def)
qed

lemma new_delivery_checks: "delivery_checks (new_recovery_delivery i sealed r)"
  by (simp add: delivery_checks_def lease_checks_def outcome_checks_def note_checks_def terminal_state_def
      new_recovery_delivery_def)

lemma resolved_checks: "attempt_checks (resolved_attempt Ds_accepted (Some m) now a)"
  by (simp add: attempt_checks_def resolved_attempt_def)

lemma ended_job_checks:
  "job_checks j \<Longrightarrow> state \<in> {Js_completed, Js_suppressed, Js_expired} \<Longrightarrow> job_checks (end_job state err at j)"
  by (auto simp: job_checks_def end_job_def)

lemmas row_checks = cancelled_checks noted_checks leased_checks finished_checks dispatching_checks
  accepted_checks settled_checks new_delivery_checks resolved_checks ended_job_checks

lemma row_keys [simp]:
  "rl_id (cancelled_fields reason at d) = rl_id d" "rl_token_id (cancelled_fields reason at d) = rl_token_id d"
  "rl_id (noted_fields reason at d) = rl_id d" "rl_token_id (noted_fields reason at d) = rl_token_id d"
  "rl_id (leased_fields now token d) = rl_id d" "rl_token_id (leased_fields now token d) = rl_token_id d"
  "rl_id (finished_fields s err now d) = rl_id d" "rl_token_id (finished_fields s err now d) = rl_token_id d"
  "rl_id (dispatching_fields now d) = rl_id d" "rl_token_id (dispatching_fields now d) = rl_token_id d"
  "rl_id (accepted_fields m i now d) = rl_id d" "rl_token_id (accepted_fields m i now d) = rl_token_id d"
  "rl_id (settled_fields b s n err amb now d) = rl_id d"
  "rl_token_id (settled_fields b s n err amb now d) = rl_token_id d"
  "da_attempt_id (resolved_attempt st mo now a) = da_attempt_id a"
  "da_outbox_id (resolved_attempt st mo now a) = da_outbox_id a"
  "jb_id (end_job js eo at j) = jb_id j"
  by (simp_all add: cancelled_fields_def noted_fields_def leased_fields_def finished_fields_def
      dispatching_fields_def accepted_fields_def settled_fields_def resolved_attempt_def end_job_def)

subsection \<open>Tokens\<close>

lemma unused_edit:
  assumes "\<And>t. P t \<Longrightarrow> tk_user_id (f t) = tk_user_id t \<and> (unused (f t) \<longrightarrow> unused t)"
  shows "set (map tk_user_id (filter unused (update_where P f ts))) \<subseteq> set (map tk_user_id (filter unused ts)) \<and>
    (distinct (map tk_user_id (filter unused ts)) \<longrightarrow> distinct (map tk_user_id (filter unused (update_where P f ts))))"
proof (induction ts)
  case (Cons t ts)
  then show ?case using assms [of t] by auto
qed simp

lemma tokens_ok_edit:
  assumes "tokens_ok ts" and f: "\<And>t. P t \<Longrightarrow> tk_id (f t) = tk_id t \<and> tk_token_hash (f t) = tk_token_hash t \<and>
      tk_user_id (f t) = tk_user_id t \<and> (unused (f t) \<longrightarrow> unused t)"
  shows "tokens_ok (update_where P f ts)"
proof -
  have "map tk_id (update_where P f ts) = map tk_id ts" "map tk_token_hash (update_where P f ts) = map tk_token_hash ts"
    using f by (simp_all add: update_where_keys)
  then show ?thesis using assms(1) unused_edit [of P f ts] f by (simp add: tokens_ok_def)
qed

lemma consume_tokens_ok: "tokens_ok ts \<Longrightarrow> tokens_ok (consume_tokens at i ts)"
  unfolding consume_tokens_def by (rule tokens_ok_edit) (auto simp: unused_def)

lemma consume_tokens_ids: "map tk_id (consume_tokens at i ts) = map tk_id ts"
  unfolding consume_tokens_def by (rule update_where_keys) simp

lemma consume_tokens_id_set: "tk_id ` set (consume_tokens at i ts) = tk_id ` set ts"
  using arg_cong [OF consume_tokens_ids [of at i ts], of set] unfolding list.set_map .

lemma consume_tokens_hashes: "map tk_token_hash (consume_tokens at i ts) = map tk_token_hash ts"
  unfolding consume_tokens_def by (rule update_where_keys) simp

lemma tokens_ok_filter: "tokens_ok ts \<Longrightarrow> tokens_ok (filter P ts)"
proof -
  have swap: "filter unused (filter P ts) = filter P (filter unused ts)" by (simp add: conj_commute)
  show "tokens_ok ts \<Longrightarrow> tokens_ok (filter P ts)"
    unfolding tokens_ok_def swap by (elim conjE) (intro conjI; rule distinct_map_filter; assumption)
qed

lemma spent_unused:
  "i \<notin> set (map tk_user_id (filter unused (consume_tokens at i ts)))"
  by (induction ts) (auto simp: consume_tokens_def unused_def)

lemma issue_tokens_ok:
  assumes "tokens_ok ts" and "tk_id t \<notin> tk_id ` set ts" and "tk_token_hash t \<notin> tk_token_hash ` set ts"
  shows "tokens_ok (consume_tokens at (tk_user_id t) ts @ [t])"
proof -
  let ?ts = "consume_tokens at (tk_user_id t) ts"
  have "tk_token_hash ` set ?ts = tk_token_hash ` set ts"
    using arg_cong [OF consume_tokens_hashes, of set] unfolding list.set_map .
  then have "tk_id t \<notin> set (map tk_id ?ts)" "tk_token_hash t \<notin> set (map tk_token_hash ?ts)"
    using assms(2,3) consume_tokens_id_set by auto
  moreover have "tokens_ok ?ts" using assms(1) by (rule consume_tokens_ok)
  ultimately show ?thesis using spent_unused [of "tk_user_id t" at ts] by (auto simp: tokens_ok_def)
qed

subsection \<open>Insertions and deletions\<close>

lemma delivery_insert_ok:
  assumes ok: "recovery_ok db" and "delivery_checks d" and "rl_id d \<notin> rl_id ` set (pt_deliveries db)"
    and "rl_token_id d \<notin> rl_token_id ` set (pt_deliveries db)" and "rl_token_id d \<in> tk_id ` set (pt_tokens db)"
  shows "recovery_ok (db\<lparr>pt_deliveries := pt_deliveries db @ [d]\<rparr>)"
  using assms(2-) recovery_okD [OF ok]
  by (auto simp: recovery_ok_def deliveries_ok_def attempts_ok_def events_ok_def jobs_ok_def)

lemma attempts_insert_ok:
  assumes ok: "recovery_ok db" and "distinct (map da_attempt_id new)"
    and "\<And>a. a \<in> set new \<Longrightarrow> attempt_checks a \<and> da_outbox_id a \<in> rl_id ` set (pt_deliveries db) \<and>
      da_attempt_id a \<notin> da_attempt_id ` set (pt_attempts db)"
  shows "recovery_ok (db\<lparr>pt_attempts := pt_attempts db @ new\<rparr>)"
proof -
  note D = recovery_okD [OF ok]
  have new: "\<forall>a\<in>set new. attempt_checks a \<and> da_outbox_id a \<in> rl_id ` set (pt_deliveries db) \<and>
      da_attempt_id a \<notin> da_attempt_id ` set (pt_attempts db)"
    by (intro ballI) (rule assms(3))
  have "x \<notin> da_attempt_id ` set (pt_attempts db)" if "x \<in> da_attempt_id ` set new" for x
    using that by (elim imageE) (metis new)
  then have "da_attempt_id ` set (pt_attempts db) \<inter> da_attempt_id ` set new = {}" unfolding disjoint_iff by blast
  moreover have "\<forall>a\<in>set new. attempt_checks a \<and> da_outbox_id a \<in> rl_id ` set (pt_deliveries db)"
    using new by simp
  ultimately have "attempts_ok (db\<lparr>pt_attempts := pt_attempts db @ new\<rparr>)"
    using D(3) assms(2) by (simp add: attempts_ok_def ball_Un)
  then show ?thesis using D by (auto simp: recovery_ok_def deliveries_ok_def events_ok_def jobs_ok_def)
qed

lemma event_insert_row_ok:
  assumes ok: "recovery_ok db" and "pv_event_id v \<notin> pv_event_id ` set (pt_events db)"
    and "pv_outbox_id v \<in> rl_id ` set (pt_deliveries db)" and "pv_attempt_id v \<in> da_attempt_id ` set (pt_attempts db)"
  shows "recovery_ok (db\<lparr>pt_events := pt_events db @ [v]\<rparr>)"
  using assms(2-) recovery_okD [OF ok]
  by (auto simp: recovery_ok_def deliveries_ok_def attempts_ok_def events_ok_def jobs_ok_def)

lemma oldest_rows: "i \<in> set (oldest key P rs) \<Longrightarrow> \<exists>r\<in>set rs. P r \<and> snd (key r) = i"
  unfolding oldest_def by (auto dest!: in_set_takeD)

text \<open>A row is deleted only when nothing refers to it, so what is referred to stays.\<close>

lemma kept_ids:
  assumes "x \<in> k ` set rs" and "x \<notin> X"
  shows "x \<in> k ` set (filter (\<lambda>r. k r \<notin> X) rs)"
  using assms by auto

lemma events_filter_ok: "recovery_ok db \<Longrightarrow> recovery_ok (db\<lparr>pt_events := filter P (pt_events db)\<rparr>)"
  by (auto simp: recovery_ok_def deliveries_ok_def attempts_ok_def events_ok_def jobs_ok_def distinct_map_filter)

lemma jobs_filter_ok: "recovery_ok db \<Longrightarrow> recovery_ok (db\<lparr>pt_jobs := filter P (pt_jobs db)\<rparr>)"
  by (auto simp: recovery_ok_def deliveries_ok_def attempts_ok_def events_ok_def jobs_ok_def distinct_map_filter)

lemma attempts_delete_ok:
  assumes ok: "recovery_ok db" and free: "\<And>v. v \<in> set (pt_events db) \<Longrightarrow> pv_attempt_id v \<notin> X"
  shows "recovery_ok (db\<lparr>pt_attempts := filter (\<lambda>a. da_attempt_id a \<notin> X) (pt_attempts db)\<rparr>)" (is "recovery_ok ?db")
proof -
  note D = recovery_okD [OF ok]
  have "events_ok ?db" using D(4) free by (fastforce simp: events_ok_def)
  then show ?thesis using D by (auto simp: recovery_ok_def deliveries_ok_def attempts_ok_def jobs_ok_def distinct_map_filter)
qed

lemma deliveries_delete_ok:
  assumes ok: "recovery_ok db" and "\<And>v. v \<in> set (pt_events db) \<Longrightarrow> pv_outbox_id v \<notin> X"
    and "\<And>a. a \<in> set (pt_attempts db) \<Longrightarrow> da_outbox_id a \<notin> X"
  shows "recovery_ok (db\<lparr>pt_deliveries := filter (\<lambda>d. rl_id d \<notin> X) (pt_deliveries db)\<rparr>)" (is "recovery_ok ?db")
proof -
  note D = recovery_okD [OF ok]
  have "events_ok ?db" using D(4) assms(2) by (fastforce simp: events_ok_def)
  moreover have "attempts_ok ?db" using D(3) assms(3) by (fastforce simp: attempts_ok_def)
  moreover have "deliveries_ok ?db" using D(2) by (auto simp: deliveries_ok_def distinct_map_filter)
  ultimately show ?thesis using D by (auto simp: recovery_ok_def jobs_ok_def)
qed

lemma tokens_delete_ok:
  assumes ok: "recovery_ok db" and "tokens_ok ts"
    and "\<And>d. d \<in> set (pt_deliveries db) \<Longrightarrow> rl_token_id d \<in> tk_id ` set ts"
  shows "recovery_ok (db\<lparr>pt_tokens := ts\<rparr>)"
  using recovery_okD [OF ok] assms(2,3)
  by (auto simp: recovery_ok_def deliveries_ok_def attempts_ok_def events_ok_def jobs_ok_def)

subsection \<open>Voiding and issuing\<close>

lemma cancel_deliveries_ok:
  assumes "recovery_ok db"
  shows "recovery_ok (db\<lparr>pt_deliveries := cancel_deliveries reason at P (pt_deliveries db)\<rparr>)"
proof -
  let ?db = "db\<lparr>pt_deliveries := update_where (\<lambda>d. P d \<and> rl_state d \<in> {Rs_pending, Rs_leased})
    (cancelled_fields reason at) (pt_deliveries db)\<rparr>"
  have "recovery_ok ?db" using assms by (rule deliveries_edit_ok) (auto intro: cancelled_checks)
  then have "recovery_ok (?db\<lparr>pt_deliveries := update_where (\<lambda>d. P d \<and> rl_state d = Rs_dispatching)
      (noted_fields reason at) (pt_deliveries ?db)\<rparr>)"
    by (rule deliveries_edit_ok) (auto intro: noted_checks)
  then show ?thesis by (simp add: cancel_deliveries_def)
qed

lemma consume_table_ok: "recovery_ok db \<Longrightarrow> recovery_ok (db\<lparr>pt_tokens := consume_tokens at i (pt_tokens db)\<rparr>)"
  by (rule tokens_edit_ok) (auto simp: consume_tokens_id_set dest: recovery_okD(1) consume_tokens_ok)

lemma void_recovery_keeps: "recovery_ok db \<Longrightarrow> recovery_ok (void_recovery reason at i db)"
  using consume_table_ok [of db at i] cancel_deliveries_ok [of "db\<lparr>pt_tokens := consume_tokens at i (pt_tokens db)\<rparr>"]
  by (simp add: void_recovery_def)

lemma count_where_same: "(\<And>r. P r \<Longrightarrow> Q (f r) = Q r) \<Longrightarrow> count_where Q (update_where P f rs) = count_where Q rs"
  by (induction rs) (auto simp: count_where_def)

lemma list_ex_update_same: "(\<And>r. P r \<Longrightarrow> Q (f r) = Q r) \<Longrightarrow> list_ex Q (update_where P f rs) = list_ex Q rs"
  by (induction rs) auto

lemma token_of_user_consumed:
  "token_of_user (db\<lparr>pt_tokens := consume_tokens at i (pt_tokens db)\<rparr>) = token_of_user db"
  "token_of_user (db\<lparr>pt_tokens := consume_tokens at i (pt_tokens db), pt_deliveries := ds\<rparr>) = token_of_user db"
  by (simp_all add: fun_eq_iff token_of_user_def consume_tokens_def list_ex_update_same)

text \<open>The statements of an issue see the same condition, so they all run or none does.\<close>

lemma condition_consumed [simp]:
  "issue_condition r lease (db\<lparr>pt_tokens := consume_tokens at i (pt_tokens db)\<rparr>) = issue_condition r lease db"
  "issue_condition r lease (db\<lparr>pt_tokens := consume_tokens at i (pt_tokens db), pt_deliveries := ds\<rparr>) =
     issue_condition r lease db"
  by (simp_all add: issue_condition_def lease_ok_def eligible_def rate_ok_def recent_tokens_def consume_tokens_def
      count_where_same list_ex_update_same split: option.split)

lemma condition_inserted:
  assumes "issue_condition r lease db"
  shows "issue_condition r lease (db\<lparr>pt_tokens := ts @ [new_token r]\<rparr>)"
    "issue_condition r lease (db\<lparr>pt_tokens := ts @ [new_token r], pt_audit := as\<rparr>)"
    "issue_condition r lease (db\<lparr>pt_tokens := ts @ [new_token r], pt_deliveries := ds\<rparr>)"
    "issue_condition r lease (db\<lparr>pt_tokens := ts @ [new_token r], pt_deliveries := ds, pt_audit := as\<rparr>)"
  using assms
  by (auto simp: issue_condition_def lease_ok_def eligible_def rate_ok_def new_token_def split: option.splits)

definition issued_tables :: "string \<Rightarrow> string \<Rightarrow> sealed_payload \<Rightarrow> recovery_issue \<Rightarrow> portal_db \<Rightarrow> portal_db" where
  "issued_tables auditId deliveryId sealed r db =
     db\<lparr>pt_tokens := consume_tokens (is_createdAt r) (is_userId r) (pt_tokens db) @ [new_token r],
        pt_audit := pt_audit db @ [issue_audit auditId r],
        pt_deliveries := cancel_deliveries ''SUPERSEDED'' (is_createdAt r) (token_of_user db (is_userId r))
            (pt_deliveries db) @ [new_recovery_delivery deliveryId sealed r]\<rparr>"

lemma issue_statements_run:
  assumes c: "issue_condition r lease db"
  shows "issue_statements auditId deliveryId sealed r lease db = issued_tables auditId deliveryId sealed r db"
proof -
  let ?ts = "consume_tokens (is_createdAt r) (is_userId r) (pt_tokens db)" and ?mine = "token_of_user db (is_userId r)"
  let ?waiting = "update_where (\<lambda>d. ?mine d \<and> rl_state d \<in> {Rs_pending, Rs_leased})
    (cancelled_fields ''SUPERSEDED'' (is_createdAt r)) (pt_deliveries db)"
  let ?ds = "cancel_deliveries ''SUPERSEDED'' (is_createdAt r) ?mine (pt_deliveries db)"
  have s1: "when_issuing r lease (supersede_tokens r) db = db\<lparr>pt_tokens := ?ts\<rparr>"
    using c by (simp add: when_issuing_def supersede_tokens_def)
  have s2: "when_issuing r lease (supersede_waiting r) (db\<lparr>pt_tokens := ?ts\<rparr>) =
      db\<lparr>pt_tokens := ?ts, pt_deliveries := ?waiting\<rparr>"
    using c by (simp add: when_issuing_def supersede_waiting_def token_of_user_consumed)
  have s3: "when_issuing r lease (supersede_dispatching r) (db\<lparr>pt_tokens := ?ts, pt_deliveries := ?waiting\<rparr>) =
      db\<lparr>pt_tokens := ?ts, pt_deliveries := ?ds\<rparr>"
    using c by (simp add: when_issuing_def supersede_dispatching_def token_of_user_consumed cancel_deliveries_def)
  have s4: "when_issuing r lease (\<lambda>db. db\<lparr>pt_tokens := pt_tokens db @ [new_token r]\<rparr>)
      (db\<lparr>pt_tokens := ?ts, pt_deliveries := ?ds\<rparr>) = db\<lparr>pt_tokens := ?ts @ [new_token r], pt_deliveries := ?ds\<rparr>"
    using c by (simp add: when_issuing_def)
  show ?thesis
    unfolding issue_statements_def s1 s2 s3 s4
    by (simp add: when_issuing_def issued_tables_def condition_inserted [OF c])
qed

lemma issue_statements_skip:
  "\<not> issue_condition r lease db \<Longrightarrow> issue_statements auditId deliveryId sealed r lease db = db"
  by (simp add: issue_statements_def when_issuing_def)

lemma issued_tables_ok:
  assumes ok: "recovery_ok db" and free: "\<not> issue_violates auditId deliveryId r db"
  shows "recovery_ok (issued_tables auditId deliveryId sealed r db)"
proof -
  let ?ts = "consume_tokens (is_createdAt r) (is_userId r) (pt_tokens db) @ [new_token r]"
  let ?db1 = "db\<lparr>pt_deliveries := cancel_deliveries ''SUPERSEDED'' (is_createdAt r) (token_of_user db (is_userId r))
    (pt_deliveries db)\<rparr>"
  let ?db2 = "?db1\<lparr>pt_tokens := ?ts\<rparr>" and ?d = "new_recovery_delivery deliveryId sealed r"
  have keys: "map rl_id (pt_deliveries ?db1) = map rl_id (pt_deliveries db)"
    "map rl_token_id (pt_deliveries ?db1) = map rl_token_id (pt_deliveries db)"
    by (simp_all add: cancel_deliveries_def update_where_keys)
  have new: "is_id r \<notin> tk_id ` set (pt_tokens db)" "is_tokenHash r \<notin> tk_token_hash ` set (pt_tokens db)"
    "deliveryId \<notin> rl_id ` set (pt_deliveries db)" "is_id r \<notin> rl_token_id ` set (pt_deliveries db)"
    using free by (auto simp: issue_violates_def list_ex_iff)
  have "tokens_ok ?ts"
    using issue_tokens_ok [of "pt_tokens db" "new_token r" "is_createdAt r"] recovery_okD(1) [OF ok] new(1,2)
    by (simp add: new_token_def)
  moreover have "recovery_ok ?db1" using ok by (rule cancel_deliveries_ok)
  ultimately have "recovery_ok ?db2" by (intro tokens_edit_ok) (auto simp: consume_tokens_id_set)
  then have "recovery_ok (?db2\<lparr>pt_deliveries := pt_deliveries ?db2 @ [?d]\<rparr>)"
  proof (rule delivery_insert_ok)
    show "rl_id ?d \<notin> rl_id ` set (pt_deliveries ?db2)" "rl_token_id ?d \<notin> rl_token_id ` set (pt_deliveries ?db2)"
      using new(3,4) arg_cong [OF keys(1), of set] arg_cong [OF keys(2), of set]
      by (simp_all add: new_recovery_delivery_def)
  qed (simp_all add: new_delivery_checks, simp add: new_recovery_delivery_def new_token_def)
  then show ?thesis
    by (rule same_recovery_ok [rotated]) (simp add: issued_tables_def same_recovery_def)
qed

lemma edit_jobs_ok:
  assumes "recovery_ok db" and "\<And>j. P j \<Longrightarrow> job_checks j \<Longrightarrow> jb_id (f j) = jb_id j \<and> job_checks (f j)"
  shows "recovery_ok (snd (edit_jobs P f db))"
  using jobs_edit_ok [OF assms(1), of P f] assms(2) by (simp add: edit_jobs_def)

lemma end_jobs_ok:
  "recovery_ok db \<Longrightarrow> state \<in> {Js_completed, Js_suppressed, Js_expired} \<Longrightarrow>
     recovery_ok (snd (edit_jobs P (end_job state err at) db))"
  by (rule edit_jobs_ok) (auto intro: ended_job_checks)

lemma delay_request_ok: "recovery_ok db \<Longrightarrow> recovery_ok (snd (delay_request r q db))"
  unfolding delay_request_def by (rule edit_jobs_ok) (auto simp: job_checks_def held_job_def)

lemma settle_request_ok:
  assumes "recovery_ok db"
  shows "recovery_ok (snd (complete_request r q db))" "recovery_ok (snd (suppress_request r q db))"
    "recovery_ok (snd (expire_request r q db))"
  using assms by (simp_all add: complete_request_def suppress_request_def expire_request_def end_jobs_ok)

lemma issue_token_ok:
  assumes "recovery_ok db"
  shows "recovery_ok (snd (issue_token origin url expires audit delivery sealed r lease (\<lambda>db. db) db))"
proof -
  have "recovery_ok (issue_statements (''audit_'' @ audit) (''recovery_delivery_'' @ delivery) sealed r lease db)"
    if "\<not> (issue_condition r lease db \<and> issue_violates (''audit_'' @ audit) (''recovery_delivery_'' @ delivery) r db)"
    using that assms issued_tables_ok issue_statements_run issue_statements_skip by metis
  then show ?thesis
    using assms
    by (auto simp: issue_token_def Let_def split_beta settle_request_ok delay_request_ok split: option.split)
qed

end
