(* ===== verification/Recovery_Constraints.thy ===== *)
theory Recovery_Constraints
  imports Recovery_Preserved
begin

text \<open>One lemma per transaction: it keeps the constraints of the recovery tables.\<close>

lemma distinct_key_eq: "distinct (map k rs) \<Longrightarrow> r \<in> set rs \<Longrightarrow> r' \<in> set rs \<Longrightarrow> k r = k r' \<Longrightarrow> r = r'"
  by (auto simp: distinct_map inj_on_def)

lemma distinct_key_filter:
  "distinct (map k rs) \<Longrightarrow> length (filter (\<lambda>r. k r = x \<and> Q r) rs) \<le> 1"
proof (induction rs)
  case (Cons r rs)
  have "k r = x \<Longrightarrow> filter (\<lambda>r. k r = x \<and> Q r) rs = []"
    using Cons.prems by (auto simp: filter_empty_conv) (metis imageI)
  with Cons show ?case by (cases "k r = x \<and> Q r") simp_all
qed simp

subsection \<open>Requests\<close>

lemma upsert_limit_keys:
  "distinct (map lm_throttle_key ls) \<Longrightarrow> distinct (map lm_throttle_key (upsert_limit now key ls))"
proof -
  have "map lm_throttle_key (update_where P (counted_limit now) ls) = map lm_throttle_key ls" for P
    by (rule update_where_keys) (simp add: counted_limit_def Let_def)
  then show "distinct (map lm_throttle_key ls) \<Longrightarrow> distinct (map lm_throttle_key (upsert_limit now key ls))"
    by (auto simp: upsert_limit_def list_ex_iff)
qed

lemma intake_ok:
  assumes "recovery_ok db"
  shows "recovery_ok (snd (enqueueCredentialRecoveryRequest uuid refOf ipRef sealed email now db))"
proof -
  note D = recovery_okD [OF assms]
  have limits: "recovery_ok (db\<lparr>pt_limits := upsert_limit now b (upsert_limit now a (filter P (pt_limits db)))\<rparr>)"
    for a b P
    using D by (simp add: recovery_ok_def deliveries_ok_def attempts_ok_def events_ok_def jobs_ok_def
        upsert_limit_keys distinct_map_filter)
  have job: "recovery_ok (db'\<lparr>pt_jobs := pt_jobs db' @ [new_job i a sealed now]\<rparr>)"
    if "recovery_ok db'" "\<not> list_ex (\<lambda>j. jb_id j = i) (pt_jobs db')" for db' i a
    using recovery_okD [OF that(1)] that(2)
    by (auto simp: recovery_ok_def deliveries_ok_def attempts_ok_def events_ok_def jobs_ok_def list_ex_iff
        new_job_def job_checks_def)
  show ?thesis
    using assms limits job [OF limits] by (auto simp: enqueueCredentialRecoveryRequest_def Let_def split: option.split)
qed

lemma claimed_job_checks:
  assumes "job_checks j" and "jb_state j = Js_pending \<or> jb_state j = Js_leased"
  shows "job_checks (j\<lparr>jb_state := Js_leased, jb_lease_token := Some t, jb_lease_expires_at := Some e, jb_updated_at := at\<rparr>)"
  using assms by (elim disjE) (simp_all add: job_checks_def)

lemma claim_job_ok: "recovery_ok db \<Longrightarrow> recovery_ok (snd (claim_job now token i db))"
  unfolding claim_job_def Let_def snd_conv
  by (rule jobs_edit_ok) (auto simp: job_due_def job_waiting_def intro: claimed_job_checks)

lemma complete_job_ok: "recovery_ok db \<Longrightarrow> recovery_ok (snd (completeCredentialRecoveryRequest q e err now db))"
  unfolding completeCredentialRecoveryRequest_def split_beta snd_conv
  by (rule edit_jobs_ok) (auto simp: job_checks_def end_job_def held_job_def split: request_end.split)

lemma retry_job_ok:
  "recovery_ok db \<Longrightarrow> 0 \<le> lq_attemptCount l + 1 \<Longrightarrow> recovery_ok (snd (retryCredentialRecoveryRequest l err now db))"
  unfolding retryCredentialRecoveryRequest_def Let_def split_beta snd_conv
  by (rule edit_jobs_ok) (auto simp: job_checks_def held_job_def)

lemma expire_jobs_ok: "recovery_ok db \<Longrightarrow> recovery_ok (snd (expireCredentialRecoveryRequestJobs now db))"
  by (simp add: expireCredentialRecoveryRequestJobs_def Let_def end_jobs_ok)

subsection \<open>Deliveries\<close>

lemma mails_edit_ok:
  assumes "recovery_ok db" and "\<And>d. d \<in> set (pt_deliveries db) \<Longrightarrow> P d \<Longrightarrow> delivery_checks d \<Longrightarrow>
      rl_id (f d) = rl_id d \<and> rl_token_id (f d) = rl_token_id d \<and> delivery_checks (f d)"
  shows "recovery_ok (snd (edit_deliveries P f db))"
  using deliveries_edit_ok [OF assms] by (simp add: edit_deliveries_def)

lemma edit_attempts_ok:
  assumes "recovery_ok db" and "\<And>a. P a \<Longrightarrow> attempt_checks a \<Longrightarrow>
      da_attempt_id (f a) = da_attempt_id a \<and> da_outbox_id (f a) = da_outbox_id a \<and> attempt_checks (f a)"
  shows "recovery_ok (snd (edit_attempts P f db))"
  using attempts_edit_ok [OF assms(1), of P f] assms(2) by (simp add: edit_attempts_def)

lemma claim_delivery_ok: "recovery_ok db \<Longrightarrow> recovery_ok (snd (claim_delivery now token i db))"
  using mails_edit_ok [of db "\<lambda>d. rl_id d = i \<and> delivery_due now d" "leased_fields now token"]
  by (auto simp: claim_delivery_def split_beta delivery_due_def intro: leased_checks)

lemma finish_delivery_ok:
  "recovery_ok db \<Longrightarrow> state \<in> {Rs_cancelled, Rs_expired, Rs_parked} \<Longrightarrow>
     recovery_ok (snd (finishLeasedDelivery l state err now db))"
  using mails_edit_ok [of db "holds_delivery l Rs_leased" "finished_fields state err now"]
  by (auto simp: finishLeasedDelivery_def split_beta holds_delivery_def intro: finished_checks)

lemma new_attempt_of:
  "a \<in> set (new_dispatch_attempt now d) \<Longrightarrow> attempt_checks a \<and> da_outbox_id a = rl_id d"
  by (auto simp: new_dispatch_attempt_def attempt_checks_def split: option.splits)

lemma fence_ok:
  assumes ok: "recovery_ok db"
  shows "recovery_ok (snd (fence_batch l expires now db))"
proof -
  let ?db1 = "snd (edit_deliveries (fence_admits l expires now db) (dispatching_fields now) db)"
  let ?mine = "filter (\<lambda>d. rl_id d = ld_id l \<and> (rl_state d = Rs_dispatching \<and> rl_lease_token d = Some (ld_leaseToken l) \<and>
    rl_dispatch_started_at d = Some now)) (pt_deliveries ?db1)"
  have mine: "filter (\<lambda>d. holds_delivery l Rs_dispatching d \<and> rl_dispatch_started_at d = Some now) (pt_deliveries ?db1) = ?mine"
    by (simp add: holds_delivery_def)
  let ?new = "concat (map (new_dispatch_attempt now) ?mine)"
  have ok1: "recovery_ok ?db1"
    using ok by (rule mails_edit_ok) (auto simp: fence_admits_def holds_delivery_def intro: dispatching_checks)
  then have "length ?mine \<le> 1"
    by (intro distinct_key_filter) (auto simp: recovery_ok_def deliveries_ok_def)
  then have short: "?mine = [] \<or> (\<exists>d. ?mine = [d])" by (cases ?mine) auto
  have one: "distinct (map da_attempt_id ?new)"
    using short by (auto simp: new_dispatch_attempt_def split: option.split)
  have new: "attempt_checks a \<and> da_outbox_id a \<in> rl_id ` set (pt_deliveries ?db1)" if "a \<in> set ?new" for a
  proof -
    from that obtain d where d: "d \<in> set ?mine" "a \<in> set (new_dispatch_attempt now d)"
      unfolding set_concat set_map by blast
    then have "d \<in> set (pt_deliveries ?db1)" by simp
    then show ?thesis using new_attempt_of [OF d(2)] by simp
  qed
  have same: "pt_attempts ?db1 = pt_attempts db" by (simp add: edit_deliveries_def)
  have "recovery_ok (?db1\<lparr>pt_attempts := pt_attempts ?db1 @ ?new\<rparr>)"
    if "\<not> list_ex (\<lambda>a. list_ex (\<lambda>b. da_attempt_id a = da_attempt_id b) (pt_attempts db)) ?new"
    using ok1 one
  proof (rule attempts_insert_ok)
    fix a assume "a \<in> set ?new"
    then show "attempt_checks a \<and> da_outbox_id a \<in> rl_id ` set (pt_deliveries ?db1) \<and>
        da_attempt_id a \<notin> da_attempt_id ` set (pt_attempts ?db1)"
      using new that unfolding same by (auto simp: list_ex_iff)
  qed
  then show ?thesis using ok by (simp add: fence_batch_def split_beta Let_def mine)
qed

lemma acceptance_ok: "recovery_ok db \<Longrightarrow> recovery_ok (snd (accept_batch l messageId now db))"
  unfolding accept_batch_def Let_def
  by (simp add: split_beta, rule edit_attempts_ok, rule mails_edit_ok) (auto simp: accepted_checks resolved_checks)

lemma settle_ok:
  assumes "recovery_ok db" and "from \<in> {Rs_leased, Rs_dispatching}" and "0 \<le> ld_attemptCount l + 1"
  shows "recovery_ok (snd (settle_batch l from err amb now c db))"
proof -
  have "recovery_ok (snd (edit_attempts (open_attempt {Ds_dispatching} (ld_leaseToken l) (ld_id l))
      (\<lambda>a. a\<lparr>da_state := (if amb then Ds_ambiguous else Ds_http_rejected), da_resolved_at := Some now,
        da_updated_at := now\<rparr>) db))"
    using assms(1) by (rule edit_attempts_ok) (auto simp: attempt_checks_def open_attempt_def)
  moreover have "recovery_ok (snd (edit_deliveries (holds_delivery l from)
      (settled_fields b (if short_lived now c then Rs_expired else Rs_cancelled) (ld_attemptCount l + 1) err amb now) db'))"
    if "recovery_ok db'" for db' b
    using that by (rule mails_edit_ok) (use assms in \<open>auto simp: holds_delivery_def intro!: settled_checks\<close>)
  ultimately show ?thesis using assms(1) by (auto simp: settle_batch_def split_beta Let_def)
qed

subsection \<open>Events and retention\<close>

lemma event_accepts_ok: "recovery_ok db \<Longrightarrow> recovery_ok (event_accepts e db)"
  unfolding event_accepts_def Let_def
  by (simp add: split_beta, rule edit_attempts_ok, rule mails_edit_ok) (auto simp: accepted_checks resolved_checks)

lemma event_insert_ok: "recovery_ok db \<Longrightarrow> recovery_ok (event_insert e db)"
  by (auto simp: event_insert_def event_correlates_def delivery_accepted_def open_attempt_def event_row_def list_ex_iff
      intro!: event_insert_row_ok intro: rev_image_eqI)

lemma noted_event_checks: "delivery_checks (d\<lparr>rl_provider_event := e, rl_updated_at := at\<rparr>) = delivery_checks d"
  by (simp add: delivery_checks_def lease_checks_def outcome_checks_def note_checks_def)

lemma event_project_ok: "recovery_ok db \<Longrightarrow> recovery_ok (event_project e db)"
  unfolding event_project_def
  by (rule mails_edit_ok) (simp_all add: noted_event_checks)

lemma record_event_ok: "recovery_ok db \<Longrightarrow> recovery_ok (snd (recordCredentialRecoveryEvent e db))"
  by (simp add: recordCredentialRecoveryEvent_def Let_def event_project_ok event_insert_ok event_accepts_ok)

lemma scrub_jobs_ok: "recovery_ok db \<Longrightarrow> recovery_ok (snd (scrub_jobs now db))"
  unfolding scrub_jobs_def Let_def edit_jobs_def snd_conv
proof (rule jobs_edit_ok)
  fix j assume ok: "recovery_ok db" and j: "j \<in> set (pt_jobs db)" and checks: "job_checks j"
    and "jb_id j \<in> set (oldest (\<lambda>j. (or_zero (jb_completed_at j), jb_id j))
      (\<lambda>j. jb_state j = Js_parked \<and> jb_payload j \<noteq> None \<and> before (jb_completed_at j) (now - 7 * day_ms)) (pt_jobs db))"
  from oldest_rows [OF this(4)] obtain k where "k \<in> set (pt_jobs db)" "jb_state k = Js_parked" "jb_id k = jb_id j" by auto
  moreover from this(1,3) j recovery_okD(5) [OF ok] have "k = j" by (auto simp: jobs_ok_def intro: distinct_key_eq)
  ultimately show "jb_id (j\<lparr>jb_payload := None, jb_updated_at := now\<rparr>) = jb_id j \<and>
      job_checks (j\<lparr>jb_payload := None, jb_updated_at := now\<rparr>)"
    using checks by (simp add: job_checks_def) blast
qed

lemma scrub_deliveries_ok: "recovery_ok db \<Longrightarrow> recovery_ok (snd (scrub_deliveries now db))"
  unfolding scrub_deliveries_def Let_def
proof (rule mails_edit_ok)
  fix d assume ok: "recovery_ok db" and d: "d \<in> set (pt_deliveries db)" and checks: "delivery_checks d"
    and "rl_id d \<in> set (oldest (\<lambda>d. (or_zero (rl_completed_at d), rl_id d))
      (\<lambda>d. rl_state d = Rs_parked \<and> rl_payload d \<noteq> None \<and> before (rl_completed_at d) (now - 7 * day_ms)) (pt_deliveries db))"
  from oldest_rows [OF this(4)] obtain k where "k \<in> set (pt_deliveries db)" "rl_state k = Rs_parked" "rl_id k = rl_id d"
    by auto
  moreover from this(1,3) d recovery_okD(2) [OF ok] have "k = d" by (auto simp: deliveries_ok_def intro: distinct_key_eq)
  ultimately show "rl_id (d\<lparr>rl_payload := None, rl_updated_at := now\<rparr>) = rl_id d \<and>
      rl_token_id (d\<lparr>rl_payload := None, rl_updated_at := now\<rparr>) = rl_token_id d \<and>
      delivery_checks (d\<lparr>rl_payload := None, rl_updated_at := now\<rparr>)"
    using checks by (simp add: delivery_checks_def lease_checks_def outcome_checks_def note_checks_def terminal_state_def)
      blast
qed

lemma prune_rows_ok:
  assumes ok: "recovery_ok db"
  shows "recovery_ok (snd (prune_jobs now db))" "recovery_ok (snd (prune_events now db))"
    "recovery_ok (snd (prune_attempts now db))" "recovery_ok (snd (prune_deliveries now db))"
    "recovery_ok (snd (prune_tokens now db))"
proof -
  show "recovery_ok (snd (prune_jobs now db))" "recovery_ok (snd (prune_events now db))"
    using ok by (simp_all add: prune_jobs_def prune_events_def Let_def jobs_filter_ok events_filter_ok)
  show "recovery_ok (snd (prune_attempts now db))"
    unfolding prune_attempts_def Let_def snd_conv
    using ok by (rule attempts_delete_ok) (auto dest!: oldest_rows simp: list_ex_iff)
  show "recovery_ok (snd (prune_deliveries now db))"
    unfolding prune_deliveries_def Let_def snd_conv
    using ok by (rule deliveries_delete_ok) (auto dest!: oldest_rows simp: list_ex_iff)
  show "recovery_ok (snd (prune_tokens now db))"
    unfolding prune_tokens_def Let_def snd_conv
    using ok
  proof (rule tokens_delete_ok)
    fix d assume d: "d \<in> set (pt_deliveries db)"
    show "rl_token_id d \<in> tk_id ` set (filter (\<lambda>t. tk_id t \<notin> set (oldest (\<lambda>t. (tk_created_at t, tk_id t))
        (\<lambda>t. (tk_consumed_at t \<noteq> None \<or> tk_expires_at t < now) \<and> tk_created_at t < now - 365 * day_ms \<and>
          \<not> list_ex (\<lambda>d. rl_token_id d = tk_id t) (pt_deliveries db)) (pt_tokens db))) (pt_tokens db))"
      using d recovery_okD(2) [OF ok]
      by (intro kept_ids) (auto simp: deliveries_ok_def list_ex_iff dest!: oldest_rows)
  qed (simp add: tokens_ok_filter recovery_okD(1) [OF ok])
qed

lemma retention_ok: "recovery_ok db \<Longrightarrow> recovery_ok (snd (pruneCredentialRecoveryHistory now db))"
  by (simp add: pruneCredentialRecoveryHistory_def split_beta Let_def scrub_jobs_ok scrub_deliveries_ok prune_rows_ok)

subsection \<open>Consumption and deletion\<close>

definition same_links :: "portal_db \<Rightarrow> portal_db \<Rightarrow> bool" where
  "same_links db db' \<longleftrightarrow> same_recovery db db' \<and> pt_control db' = pt_control db"

lemma links_kept [simp]:
  "same_links db (update_user i f db)" "same_links db (update_mailboxes P g db)" "same_links db (delete_memberships Q db)"
  "same_links db (delete_mailboxes P db)" "same_links db (edit_revocations R h db)"
  by (simp_all add: same_links_def same_recovery_def portal_triggers delete_mailboxes_def Let_def edit_revocations_def
      split: option.split)

lemma links_kept_ok: "same_links db db' \<Longrightarrow> recovery_ok db \<Longrightarrow> recovery_ok db'"
  using same_recovery_ok by (auto simp: same_links_def)

lemma consume_keeps: "recovery_ok db \<Longrightarrow> recovery_ok (snd (consume_batch i nonce audit t db))"
proof -
  assume ok: "recovery_ok db"
  have "recovery_ok (snd (spend_token i (tk_id t) nonce db))" (is "recovery_ok ?db1")
    using ok unfolding spend_token_def Let_def snd_conv
  proof (rule tokens_edit_ok)
    let ?mine = "\<lambda>x. tk_id x = tk_id t \<and> tk_consumed_at x = None \<and> cs_now i < tk_expires_at x \<and>
      eligible (tk_user_id x) (tk_purpose x) db"
    let ?f = "\<lambda>x. x\<lparr>tk_consumed_at := Some (cs_now i), tk_consumption_nonce := Some nonce\<rparr>"
    show "tokens_ok (update_where ?mine ?f (pt_tokens db))"
      using recovery_okD(1) [OF ok] by (rule tokens_ok_edit) (auto simp: unused_def)
    have "map tk_id (update_where ?mine ?f (pt_tokens db)) = map tk_id (pt_tokens db)" by (rule update_where_keys) simp
    from arg_cong [OF this, of set]
    show "tk_id ` set (pt_tokens db) \<subseteq> tk_id ` set (update_where ?mine ?f (pt_tokens db))"
      unfolding list.set_map by simp
  qed
  moreover from this have "recovery_ok (update_user (tk_user_id t) (recovered_user i) ?db1)"
    by (rule links_kept_ok [OF links_kept(1)])
  moreover have "recovery_ok (db'\<lparr>pt_audit := as, pt_deliveries := cancel_deliveries r at P (pt_deliveries db')\<rparr>)"
    if "recovery_ok db'" for db' as r at P
  proof -
    have "recovery_ok (db'\<lparr>pt_audit := as\<rparr>)"
      using that by (rule same_recovery_ok [rotated]) (simp add: same_recovery_def)
    from cancel_deliveries_ok [OF this] show ?thesis by simp
  qed
  ultimately show ?thesis
    by (cases "spent_with (tk_id t) nonce ?db1"; cases "list_ex (\<lambda>u. us_id u = tk_user_id t \<and> us_is_active u) (pt_users ?db1)")
      (simp_all add: consume_batch_def split_beta Let_def)
qed

lemma delete_user_keeps: "recovery_ok db \<Longrightarrow> recovery_ok (snd (deleteUser i db))"
proof -
  assume ok: "recovery_ok db"
  let ?ts = "map (\<lambda>t. if tk_issued_by t = Some i then t\<lparr>tk_issued_by := None\<rparr> else t)
    (filter (\<lambda>t. tk_user_id t \<noteq> i) (pt_tokens db))"
  have "recovery_ok (db\<lparr>pt_tokens := ?ts\<rparr>)"
    if free: "\<not> list_ex (\<lambda>d. list_ex (\<lambda>t. tk_user_id t = i \<and> tk_id t = rl_token_id d) (pt_tokens db)) (pt_deliveries db)"
    using ok
  proof (rule tokens_delete_ok)
    have ts: "?ts = update_where (\<lambda>t. tk_issued_by t = Some i) (\<lambda>t. t\<lparr>tk_issued_by := None\<rparr>)
        (filter (\<lambda>t. tk_user_id t \<noteq> i) (pt_tokens db))" by (simp add: update_where_def)
    show "tokens_ok ?ts"
      unfolding ts by (rule tokens_ok_edit) (simp_all add: tokens_ok_filter recovery_okD(1) [OF ok] unused_def)
    fix d assume d: "d \<in> set (pt_deliveries db)"
    then obtain t where t: "t \<in> set (pt_tokens db)" "tk_id t = rl_token_id d"
      using recovery_okD(2) [OF ok] by (auto simp: deliveries_ok_def)
    have "tk_user_id t \<noteq> i" using t d free by (auto simp: list_ex_iff)
    then show "rl_token_id d \<in> tk_id ` set ?ts" using t by (intro image_eqI [of _ _ "if tk_issued_by t = Some i then t\<lparr>tk_issued_by := None\<rparr> else t"]) auto
  qed
  note tokens = this
  have users: "recovery_ok (db\<lparr>pt_users := us, pt_tokens := ?ts\<rparr>)"
    if "\<not> list_ex (\<lambda>d. list_ex (\<lambda>t. tk_user_id t = i \<and> tk_id t = rl_token_id d) (pt_tokens db)) (pt_deliveries db)" for us
    by (rule same_recovery_ok [OF _ tokens [OF that]]) (simp add: same_recovery_def)
  have "recovery_ok db'" if del: "delete_user_row i db = Some db'" for db'
  proof (cases "db' = db")
    case False
    with del have "\<not> list_ex (\<lambda>d. list_ex (\<lambda>t. tk_user_id t = i \<and> tk_id t = rl_token_id d) (pt_tokens db)) (pt_deliveries db)"
      and "db' = delete_memberships (\<lambda>mm. mm_user_id mm = i) (delete_mailboxes (\<lambda>m. mb_owner_user_id m = Some i)
        (db\<lparr>pt_users := filter (\<lambda>u. us_id u \<noteq> i) (pt_users db), pt_tokens := ?ts\<rparr>))"
      by (simp_all add: delete_user_row_def split: if_splits)
    then show ?thesis using users links_kept_ok [OF links_kept(3)] links_kept_ok [OF links_kept(4)] by simp
  qed (simp add: ok)
  then show ?thesis using ok by (auto simp: deleteUser_def split: option.split)
qed

subsection \<open>Every transaction\<close>

text \<open>A caller settles what it read before, so the attempts it counts from are not negative.\<close>

fun sane_op :: "portal_op \<Rightarrow> bool" where
  "sane_op (Op_recovery (Rop_settle l from err amb now c)) = (0 \<le> ld_attemptCount l)"
| "sane_op (Op_recovery (Rop_retry_job l err now)) = (0 \<le> lq_attemptCount l)"
| "sane_op _ = True"

lemma recovery_transaction_ok:
  "recovery_ok db \<Longrightarrow> sane_op (Op_recovery r) \<Longrightarrow> recovery_ok (run_recovery r db)"
  by (cases r) (auto simp: issue_token_ok intake_ok claim_job_ok complete_job_ok retry_job_ok expire_jobs_ok
      claim_delivery_ok finish_delivery_ok fence_ok acceptance_ok settle_ok record_event_ok retention_ok same_recovery_def
      intro: same_recovery_ok [rotated])

lemma recovery_op_ok: "recovery_ok db \<Longrightarrow> sane_op op \<Longrightarrow> recovery_ok (run_op op db)"
proof (cases op)
  case (Op_deactivate audit i h s at)
  assume "recovery_ok db"
  then have void: "recovery_ok (void_recovery r at i (update_mailboxes P f (update_user i g db)))" for r P f g
    by (intro void_recovery_keeps) (simp add: links_kept_ok [OF links_kept(1)] links_kept_ok [OF links_kept(2)])
  have "same_recovery db' (audit_deactivation audit i at db')" for db'
    by (simp add: audit_deactivation_def same_recovery_def)
  from same_recovery_ok [OF this void] have "recovery_ok (deactivate_batch audit i h s at db)"
    unfolding deactivate_batch_def .
  then show ?thesis using \<open>recovery_ok db\<close> unfolding Op_deactivate by simp
next
  case (Op_recovery r)
  assume "recovery_ok db" "sane_op op"
  then show ?thesis unfolding Op_recovery by (simp add: recovery_transaction_ok)
next
  case (Op_activate now i)
  assume "recovery_ok db"
  then show ?thesis unfolding Op_activate
    by (simp add: lifecycle_activate_def Let_def links_kept_ok [OF links_kept(1)] links_kept_ok [OF links_kept(2)])
next
  case (Op_password now i h s confirm)
  assume "recovery_ok db"
  then show ?thesis unfolding Op_password
    by (simp add: replaceUserCredentials_def void_recovery_keeps links_kept_ok [OF links_kept(1)])
next
  case (Op_create uuid now i)
  assume "recovery_ok db"
  then show ?thesis unfolding Op_create
    by (auto simp: createUser_def Let_def same_recovery_def intro: same_recovery_ok [rotated])
next
  case (Op_tick t)
  assume "recovery_ok db"
  then show ?thesis unfolding Op_tick by (auto simp: same_recovery_def intro: same_recovery_ok [rotated])
qed (auto simp: consume_keeps delete_user_keeps addMailbox_def addMembership_def setMailboxActive_def
  removeMembership_def unregisterMailbox_def claimBatch_def renewLease_def complete_revocation_def
  retry_revocation_def Let_def same_recovery_def links_kept_ok [OF links_kept(2)] links_kept_ok [OF links_kept(3)]
  links_kept_ok [OF links_kept(4)] links_kept_ok [OF links_kept(5)] intro: same_recovery_ok [rotated])

lemma recovery_run_ok: "recovery_ok db \<Longrightarrow> list_all sane_op ops \<Longrightarrow> recovery_ok (run_ops ops db)"
  by (rule run_ops_invariant) (auto simp: list_all_iff recovery_op_ok)

end
