(* ===== verification/Recovery_History.thy ===== *)
theory Recovery_History
  imports Recovery_Constraints "HOL-Library.Sublist"
begin

text \<open>
  Where a recovery token of a later state comes from: it is an older token, perhaps consumed meanwhile, or
  one a transaction issued.
\<close>

subsection \<open>Where tokens come from\<close>

definition evolved :: "token_row \<Rightarrow> token_row \<Rightarrow> bool" where
  "evolved t t' \<longleftrightarrow> tk_id t' = tk_id t \<and> tk_user_id t' = tk_user_id t \<and> tk_token_hash t' = tk_token_hash t \<and>
     tk_expires_at t' = tk_expires_at t \<and> tk_purpose t' = tk_purpose t \<and> tk_created_at t' = tk_created_at t \<and>
     (tk_consumed_at t \<noteq> None \<longrightarrow> tk_consumed_at t' \<noteq> None) \<and>
     (tk_consumed_at t \<noteq> None \<longrightarrow> tk_consumption_nonce t' = tk_consumption_nonce t) \<and>
     (tk_issued_by t' = None \<or> tk_issued_by t' = tk_issued_by t)"

text \<open>Whoever issued a token is a user.\<close>

definition issuer_known :: "recovery_issue \<Rightarrow> portal_db \<Rightarrow> bool" where
  "issuer_known r db \<longleftrightarrow> (case is_issuedBy r of None \<Rightarrow> True | Some i \<Rightarrow> user_known i db)"

fun issues :: "string \<Rightarrow> portal_op \<Rightarrow> bool" where
  "issues h (Op_recovery (Rop_issue origin url expires audit delivery sealed r lease)) = (is_tokenHash r = h)"
| "issues h _ = False"

definition derived :: "token_row list \<Rightarrow> token_row list \<Rightarrow> bool" where
  "derived ts ts' \<longleftrightarrow> list_emb (\<lambda>t' t. evolved t t') ts' ts"

lemma evolved_refl [simp]: "evolved t t"
  by (simp add: evolved_def)

lemma derivedD: "derived ts ts' \<Longrightarrow> t' \<in> set ts' \<Longrightarrow> \<exists>t\<in>set ts. evolved t t'"
  unfolding derived_def by (elim list_emb_set) auto

lemma derived_rows: "(\<And>t. evolved t (f t)) \<Longrightarrow> derived ts (map f (filter P ts))"
  by (induction ts) (auto simp: derived_def)

lemma derived_filter: "derived ts (filter P ts)"
  using derived_rows [of "\<lambda>t. t" ts P] by simp

lemma derived_edit: "(\<And>t. P t \<Longrightarrow> evolved t (f t)) \<Longrightarrow> derived ts (update_where P f ts)"
  using derived_rows [of "\<lambda>t. if P t then f t else t" ts "\<lambda>t. True"] by (simp add: update_where_def)

lemma derived_refl [simp]: "derived ts ts"
  using derived_filter [of ts "\<lambda>t. True"] by simp

lemma derived_consume: "derived ts (consume_tokens at i ts)"
  unfolding consume_tokens_def by (rule derived_edit) (simp add: evolved_def)

lemma user_edit_tokens [simp]:
  "pt_tokens (update_user i f db) = pt_tokens db" "pt_tokens (update_mailboxes P g db) = pt_tokens db"
  "pt_tokens (delete_memberships Q db) = pt_tokens db" "pt_tokens (delete_mailboxes P db) = pt_tokens db"
  "pt_tokens (edit_revocations R h db) = pt_tokens db"
  using links_kept [of db] by (auto simp: same_links_def same_recovery_def)

lemma delivery_edit_tokens [simp]:
  "pt_tokens (snd (edit_deliveries P f db)) = pt_tokens db" "pt_tokens (snd (edit_attempts Q g db)) = pt_tokens db"
  "pt_tokens (snd (edit_jobs R h db)) = pt_tokens db"
  by (simp_all add: edit_defs)

lemma consume_batch_tokens:
  "pt_tokens (snd (consume_batch i nonce audit t db)) = pt_tokens (snd (spend_token i (tk_id t) nonce db))"
  by (simp add: consume_batch_def split_beta Let_def)

lemma issue_tokens:
  "pt_tokens (snd (issue_token origin url expires audit delivery sealed r lease (\<lambda>db. db) db)) = pt_tokens db \<or>
   issue_condition r lease db \<and> \<not> list_ex (\<lambda>t. tk_id t = is_id r \<or> tk_token_hash t = is_tokenHash r) (pt_tokens db) \<and> issuer_known r db \<and>
   pt_tokens (snd (issue_token origin url expires audit delivery sealed r lease (\<lambda>db. db) db)) =
     consume_tokens (is_createdAt r) (is_userId r) (pt_tokens db) @ [new_token r]"
proof (cases "issue_condition r lease db")
  case True
  then show ?thesis
    by (auto simp: issue_token_def Let_def split_beta issue_statements_run issued_tables_def issue_violates_def issuer_known_def
        complete_request_def suppress_request_def expire_request_def delay_request_def split: option.split)
next
  case False
  then show ?thesis
    by (auto simp: issue_token_def Let_def split_beta issue_statements_skip
        complete_request_def suppress_request_def expire_request_def delay_request_def split: option.split)
qed

lemma prune_history_tokens: "derived (pt_tokens db) (pt_tokens (snd (pruneCredentialRecoveryHistory now db)))"
  by (simp add: pruneCredentialRecoveryHistory_def split_beta Let_def prune_tokens_def prune_deliveries_def
      prune_attempts_def prune_events_def prune_jobs_def scrub_deliveries_def scrub_jobs_def derived_filter)

text \<open>One transaction: every token is an older one, possibly consumed meanwhile, or the one just issued.\<close>

lemma op_tokens:
  "derived (pt_tokens db) (pt_tokens (run_op op db)) \<or>
   (\<exists>origin url expires audit delivery sealed r lease.
      op = Op_recovery (Rop_issue origin url expires audit delivery sealed r lease) \<and>
      issue_condition r lease db \<and> \<not> list_ex (\<lambda>t. tk_id t = is_id r \<or> tk_token_hash t = is_tokenHash r) (pt_tokens db) \<and> issuer_known r db \<and>
      pt_tokens (run_op op db) = consume_tokens (is_createdAt r) (is_userId r) (pt_tokens db) @ [new_token r])"
proof (cases op)
  case (Op_recovery q)
  show ?thesis
  proof (cases q)
    case (Rop_issue origin url expires audit delivery sealed r lease)
    from issue_tokens [of origin url expires audit delivery sealed r lease db] show ?thesis
    proof
      assume "pt_tokens (snd (issue_token origin url expires audit delivery sealed r lease (\<lambda>db. db) db)) = pt_tokens db"
      then show ?thesis by (simp add: Op_recovery Rop_issue)
    next
      assume "issue_condition r lease db \<and> \<not> list_ex (\<lambda>t. tk_id t = is_id r \<or> tk_token_hash t = is_tokenHash r) (pt_tokens db) \<and> issuer_known r db \<and>
        pt_tokens (snd (issue_token origin url expires audit delivery sealed r lease (\<lambda>db. db) db)) =
          consume_tokens (is_createdAt r) (is_userId r) (pt_tokens db) @ [new_token r]"
      then show ?thesis by (simp add: Op_recovery Rop_issue)
    qed
  next
    case (Rop_prune now)
    show ?thesis unfolding Op_recovery Rop_prune using prune_history_tokens by simp
  next
    case (Rop_request uuid refOf ipRef sealed email now)
    show ?thesis unfolding Op_recovery Rop_request
      by (auto simp: enqueueCredentialRecoveryRequest_def Let_def split: option.split)
  next
    case (Rop_fence l expires now)
    show ?thesis unfolding Op_recovery Rop_fence by (auto simp: fence_batch_def split_beta Let_def)
  qed (simp_all add: Op_recovery claim_job_def completeCredentialRecoveryRequest_def retryCredentialRecoveryRequest_def
    expireCredentialRecoveryRequestJobs_def claim_delivery_def finishLeasedDelivery_def accept_batch_def settle_batch_def
    recordCredentialRecoveryEvent_def event_project_def event_insert_def event_accepts_def split_beta Let_def)
next
  case (Op_delete_user i)
  have "derived (pt_tokens db) (map (\<lambda>t. if tk_issued_by t = Some i then t\<lparr>tk_issued_by := None\<rparr> else t)
      (filter (\<lambda>t. tk_user_id t \<noteq> i) (pt_tokens db)))"
    by (rule derived_rows) (simp add: evolved_def)
  then show ?thesis unfolding Op_delete_user
    by (auto simp: deleteUser_def delete_user_row_def split: option.split)
next
  case (Op_consume i nonce audit t)
  show ?thesis unfolding Op_consume
    by (auto simp: consume_batch_tokens spend_token_def Let_def evolved_def intro!: derived_edit)
qed (simp_all add: createUser_def replaceUserCredentials_def void_recovery_def deactivate_batch_def audit_deactivation_def
  lifecycle_activate_def addMailbox_def addMembership_def setMailboxActive_def removeMembership_def
  unregisterMailbox_def claimBatch_def renewLease_def complete_revocation_def retry_revocation_def
  derived_consume Let_def)

end
