(* ===== verification/Recovery_Sizes.thy ===== *)
theory Recovery_Sizes
  imports Recovery_History
begin

text \<open>
  The remaining constraints of the recovery tables (migrations 0006 and 0012): the lengths of codes, ids
  and sealed payloads, the kinds of events, the counts of the request limits, and the references of
  tokens to users. They hold of what a transaction writes when they hold of what it is given.
\<close>

subsection \<open>The constraints\<close>

definition short_code :: "string option \<Rightarrow> bool" where
  "short_code c \<longleftrightarrow> (case c of None \<Rightarrow> True | Some e \<Rightarrow> length e \<le> 64)"

definition sized_id :: "string \<Rightarrow> bool" where
  "sized_id i \<longleftrightarrow> 1 \<le> length i \<and> length i \<le> 255"

definition sized_opt :: "string option \<Rightarrow> bool" where
  "sized_opt x \<longleftrightarrow> (case x of None \<Rightarrow> True | Some i \<Rightarrow> sized_id i)"

definition sized_payload :: "nat \<Rightarrow> sealed_payload \<Rightarrow> bool" where
  "sized_payload most p \<longleftrightarrow> sl_keyVersion p = 1 \<and> length (sl_iv p) = 16 \<and>
     24 \<le> length (sl_ciphertext p) \<and> length (sl_ciphertext p) \<le> most"

definition sealed_ok :: "nat \<Rightarrow> sealed_payload option \<Rightarrow> bool" where
  "sealed_ok most p \<longleftrightarrow> (case p of None \<Rightarrow> True | Some s \<Rightarrow> sized_payload most s)"

definition event_kinds :: "string list" where
  "event_kinds = [''delivery'', ''bounce'', ''complaint'']"

text \<open>A lease token becomes the id of an attempt, so it has the size of one.\<close>

definition delivery_sizes :: "recovery_delivery \<Rightarrow> bool" where
  "delivery_sizes d \<longleftrightarrow> sealed_ok 8192 (rl_payload d) \<and> sized_opt (rl_provider_message_id d) \<and>
     sized_opt (rl_accepted_attempt_id d) \<and> sized_opt (rl_lease_token d) \<and>
     short_code (rl_last_error_code d) \<and> short_code (rl_cancellation_reason d) \<and>
     (case rl_provider_event d of None \<Rightarrow> True | Some (kind, at) \<Rightarrow> kind \<in> set event_kinds)"

definition attempt_sizes :: "dispatch_attempt \<Rightarrow> bool" where
  "attempt_sizes a \<longleftrightarrow> sized_id (da_attempt_id a) \<and> sized_opt (da_provider_message_id a)"

definition event_sizes :: "provider_event \<Rightarrow> bool" where
  "event_sizes v \<longleftrightarrow> sized_id (pv_event_id v) \<and> sized_id (pv_provider_message_id v) \<and>
     pv_event_type v \<in> set event_kinds"

definition job_sizes :: "request_job \<Rightarrow> bool" where
  "job_sizes j \<longleftrightarrow> length (jb_account_ref j) = 43 \<and> sealed_ok 2048 (jb_payload j) \<and> short_code (jb_last_error_code j)"

definition token_refs :: "portal_db \<Rightarrow> token_row \<Rightarrow> bool" where
  "token_refs db t \<longleftrightarrow> user_known (tk_user_id t) db \<and>
     (case tk_issued_by t of None \<Rightarrow> True | Some i \<Rightarrow> user_known i db)"

definition rows_ok :: "portal_db \<Rightarrow> bool" where
  "rows_ok db \<longleftrightarrow> list_all delivery_sizes (pt_deliveries db) \<and> list_all attempt_sizes (pt_attempts db) \<and>
     list_all event_sizes (pt_events db) \<and> list_all job_sizes (pt_jobs db) \<and>
     list_all (\<lambda>l. 0 < lm_request_count l) (pt_limits db)"

definition sizes_ok :: "portal_db \<Rightarrow> bool" where
  "sizes_ok db \<longleftrightarrow> rows_ok db \<and> list_all (token_refs db) (pt_tokens db)"

text \<open>What a transaction is given: codes, ids and payloads of the sizes the portal makes them in.\<close>

fun fitting_recovery :: "recovery_op \<Rightarrow> bool" where
  "fitting_recovery (Rop_issue origin url expires audit delivery sealed r lease) = sized_payload 8192 sealed"
| "fitting_recovery (Rop_request uuid refOf ipRef sealed email now) = (sized_payload 2048 sealed \<and>
     (case normalizeMailAddress email of None \<Rightarrow> True | Some a \<Rightarrow> length (refOf a) = 43))"
| "fitting_recovery (Rop_complete_job q e err now) = short_code err"
| "fitting_recovery (Rop_retry_job l err now) = (0 \<le> lq_attemptCount l \<and> length err \<le> 64)"
| "fitting_recovery (Rop_claim_delivery now token i) = sized_id token"
| "fitting_recovery (Rop_finish l state err now) = (length err \<le> 64)"
| "fitting_recovery (Rop_accept l messageId now) = sized_id messageId"
| "fitting_recovery (Rop_settle l from err amb now c) = (0 \<le> ld_attemptCount l \<and> length err \<le> 64)"
| "fitting_recovery (Rop_event e) = (rn_eventType e \<in> set event_kinds)"
| "fitting_recovery _ = True"

fun fitting_op :: "portal_op \<Rightarrow> bool" where
  "fitting_op (Op_recovery r) = fitting_recovery r"
| "fitting_op _ = True"

lemma fitting_sane: "fitting_op op \<Longrightarrow> sane_op op"
proof (cases op)
  case (Op_recovery r)
  then show "fitting_op op \<Longrightarrow> sane_op op" by (cases r) simp_all
qed simp_all

subsection \<open>Rows\<close>

lemma list_all_edit:
  "list_all Q rs \<Longrightarrow> (\<And>r. P r \<Longrightarrow> Q r \<Longrightarrow> Q (f r)) \<Longrightarrow> list_all Q (update_where P f rs)"
  by (induction rs) auto

lemma list_all_filter: "list_all Q rs \<Longrightarrow> list_all Q (filter P rs)"
  by (induction rs) auto

lemmas size_defs = short_code_def sized_opt_def sealed_ok_def

lemma rows_edit_deliveries:
  "rows_ok db \<Longrightarrow> (\<And>d. P d \<Longrightarrow> delivery_sizes d \<Longrightarrow> delivery_sizes (f d)) \<Longrightarrow>
     rows_ok (db\<lparr>pt_deliveries := update_where P f (pt_deliveries db)\<rparr>)"
  by (simp add: rows_ok_def list_all_edit)

lemma rows_mails:
  "rows_ok db \<Longrightarrow> (\<And>d. P d \<Longrightarrow> delivery_sizes d \<Longrightarrow> delivery_sizes (f d)) \<Longrightarrow>
     rows_ok (snd (edit_deliveries P f db))"
  by (simp add: edit_deliveries_def rows_edit_deliveries)

lemma rows_attempts:
  "rows_ok db \<Longrightarrow> (\<And>a. P a \<Longrightarrow> attempt_sizes a \<Longrightarrow> attempt_sizes (f a)) \<Longrightarrow>
     rows_ok (snd (edit_attempts P f db))"
  by (simp add: edit_attempts_def rows_ok_def list_all_edit)

lemma rows_jobs:
  "rows_ok db \<Longrightarrow> (\<And>j. P j \<Longrightarrow> job_sizes j \<Longrightarrow> job_sizes (f j)) \<Longrightarrow> rows_ok (snd (edit_jobs P f db))"
  by (simp add: edit_jobs_def rows_ok_def list_all_edit)

lemma same_rows: "same_recovery db db' \<Longrightarrow> rows_ok db \<Longrightarrow> rows_ok db'"
  by (simp add: same_recovery_def rows_ok_def)

lemma rows_tokens [simp]: "rows_ok (db\<lparr>pt_tokens := ts\<rparr>) = rows_ok db"
  "rows_ok (db\<lparr>pt_audit := as\<rparr>) = rows_ok db"
  by (simp_all add: rows_ok_def)

text \<open>What one statement does to the sizes of one row.\<close>

lemma delivery_row_sizes:
  "length reason \<le> 64 \<Longrightarrow> delivery_sizes d \<Longrightarrow> delivery_sizes (cancelled_fields reason at d)"
  "length reason \<le> 64 \<Longrightarrow> delivery_sizes d \<Longrightarrow> delivery_sizes (noted_fields reason at d)"
  "sized_id token \<Longrightarrow> delivery_sizes d \<Longrightarrow> delivery_sizes (leased_fields now token d)"
  "length err \<le> 64 \<Longrightarrow> delivery_sizes d \<Longrightarrow> delivery_sizes (finished_fields state err now d)"
  "delivery_sizes d \<Longrightarrow> delivery_sizes (dispatching_fields now d)"
  "sized_id m \<Longrightarrow> sized_id i \<Longrightarrow> delivery_sizes d \<Longrightarrow> delivery_sizes (accepted_fields m i now d)"
  "length err \<le> 64 \<Longrightarrow> delivery_sizes d \<Longrightarrow> delivery_sizes (settled_fields b state n err amb now d)"
  by (auto simp: delivery_sizes_def size_defs cancelled_fields_def noted_fields_def leased_fields_def
      finished_fields_def dispatching_fields_def accepted_fields_def settled_fields_def coalesce_def split: option.splits)

lemma cancel_rows:
  assumes "rows_ok db" and "length reason \<le> 64"
  shows "rows_ok (db\<lparr>pt_deliveries := cancel_deliveries reason at P (pt_deliveries db)\<rparr>)"
  using assms by (simp add: cancel_deliveries_def rows_ok_def list_all_edit delivery_row_sizes)

lemma void_rows: "rows_ok db \<Longrightarrow> length reason \<le> 64 \<Longrightarrow> rows_ok (void_recovery reason at i db)"
  using cancel_rows [of "db\<lparr>pt_tokens := consume_tokens at i (pt_tokens db)\<rparr>" reason] by (simp add: void_recovery_def)

subsection \<open>Transactions\<close>

lemma end_job_sizes: "short_code err \<Longrightarrow> job_sizes j \<Longrightarrow> job_sizes (end_job state err at j)"
  by (simp add: job_sizes_def end_job_def sealed_ok_def)

lemma request_rows:
  assumes "rows_ok db" and "fitting_recovery (Rop_request uuid refOf ipRef sealed email now)"
  shows "rows_ok (snd (enqueueCredentialRecoveryRequest uuid refOf ipRef sealed email now db))"
proof -
  have counted: "list_all (\<lambda>l. 0 < lm_request_count l) (upsert_limit now key ls)"
    if "list_all (\<lambda>l. 0 < lm_request_count l) ls" for key ls
    using that by (auto simp: upsert_limit_def counted_limit_def Let_def intro: list_all_edit)
  then have limits: "list_all (\<lambda>l. 0 < lm_request_count l) (upsert_limit now a (upsert_limit now b (filter P (pt_limits db))))"
    for a b P
    using assms(1) by (simp add: rows_ok_def list_all_filter)
  show ?thesis
    using assms limits
    by (auto simp: enqueueCredentialRecoveryRequest_def Let_def rows_ok_def new_job_def job_sizes_def size_defs
        split: option.splits)
qed

lemma job_rows:
  assumes "rows_ok db"
  shows "rows_ok (snd (claim_job now token i db))"
    and "short_code err \<Longrightarrow> rows_ok (snd (completeCredentialRecoveryRequest q e err now db))"
    and "length code \<le> 64 \<Longrightarrow> rows_ok (snd (retryCredentialRecoveryRequest l code now db))"
    and "rows_ok (snd (expireCredentialRecoveryRequestJobs now db))"
proof -
  show "rows_ok (snd (claim_job now token i db))"
    using assms by (auto simp: claim_job_def Let_def rows_ok_def job_sizes_def intro!: list_all_edit)
  show "rows_ok (snd (completeCredentialRecoveryRequest q e err now db))" if "short_code err"
    unfolding completeCredentialRecoveryRequest_def split_beta snd_conv
    using assms that by (intro rows_jobs) (auto simp: job_sizes_def end_job_def sealed_ok_def)
  show "rows_ok (snd (retryCredentialRecoveryRequest l code now db))" if "length code \<le> 64"
    unfolding retryCredentialRecoveryRequest_def Let_def split_beta snd_conv
    using assms that by (intro rows_jobs) (auto simp: job_sizes_def size_defs)
  show "rows_ok (snd (expireCredentialRecoveryRequestJobs now db))"
    unfolding expireCredentialRecoveryRequestJobs_def Let_def
    using assms by (intro rows_jobs) (auto intro!: end_job_sizes simp: short_code_def)
qed

lemma issue_rows:
  assumes "rows_ok db" and "sized_payload 8192 sealed"
  shows "rows_ok (snd (issue_token origin url expires audit delivery sealed r lease (\<lambda>db. db) db))"
proof -
  have "rows_ok (issued_tables a d sealed r db)" for a d
    using cancel_rows [OF assms(1), of "''SUPERSEDED''"] assms(2)
    by (simp add: issued_tables_def rows_ok_def new_recovery_delivery_def delivery_sizes_def size_defs)
  then have statements: "rows_ok (issue_statements a d sealed r lease db)" for a d
    using assms(1) issue_statements_run issue_statements_skip by metis
  have delayed: "rows_ok (snd (delay_request r q db'))" if "rows_ok db'" for q db'
    unfolding delay_request_def using that by (rule rows_jobs) (auto simp: job_sizes_def short_code_def)
  have settled: "rows_ok (snd (complete_request r q db'))" "rows_ok (snd (suppress_request r q db'))"
    "rows_ok (snd (expire_request r q db'))" if "rows_ok db'" for q db'
    unfolding complete_request_def suppress_request_def expire_request_def
    using that by (auto intro!: rows_jobs end_job_sizes simp: short_code_def)
  show ?thesis
    using assms(1) statements
    by (auto simp: issue_token_def Let_def split_beta settled delayed split: option.split)
qed

lemma fence_rows: "rows_ok db \<Longrightarrow> rows_ok (snd (fence_batch l expires now db))"
proof -
  assume ok: "rows_ok db"
  let ?db1 = "snd (edit_deliveries (fence_admits l expires now db) (dispatching_fields now) db)"
  have ok1: "rows_ok ?db1" using ok by (rule rows_mails) (rule delivery_row_sizes(5))
  have "list_all attempt_sizes (new_dispatch_attempt now d)" if "d \<in> set (pt_deliveries ?db1)" for d
  proof -
    have "delivery_sizes d" using ok1 that by (simp add: rows_ok_def list_all_iff)
    then show ?thesis
      by (auto simp: new_dispatch_attempt_def attempt_sizes_def delivery_sizes_def sized_opt_def split: option.splits)
  qed
  then have "list_all attempt_sizes (concat (map (new_dispatch_attempt now) (filter P (pt_deliveries ?db1))))" for P
    by (auto simp: list_all_iff)
  then have "rows_ok (?db1\<lparr>pt_attempts := pt_attempts ?db1 @
      concat (map (new_dispatch_attempt now) (filter P (pt_deliveries ?db1)))\<rparr>)" for P
    using ok1 by (simp add: rows_ok_def)
  then show ?thesis using ok by (simp add: fence_batch_def split_beta Let_def)
qed

lemma named_sized: "rows_ok db \<Longrightarrow> list_ex (open_attempt states i o1) (pt_attempts db) \<Longrightarrow> sized_id i"
  by (auto simp: rows_ok_def list_ex_iff list_all_iff open_attempt_def attempt_sizes_def)

lemma resolved_sizes: "sized_id m \<Longrightarrow> attempt_sizes a \<Longrightarrow> attempt_sizes (resolved_attempt state (Some m) now a)"
  by (simp add: attempt_sizes_def resolved_attempt_def sized_opt_def)

lemma accept_rows:
  assumes "rows_ok db" and "sized_id m"
  shows "rows_ok (snd (accept_batch l m now db))"
  unfolding accept_batch_def Let_def split_beta snd_conv
  using assms by (intro rows_attempts rows_mails) (auto intro: delivery_row_sizes(6) resolved_sizes named_sized)

lemma settle_rows:
  assumes "rows_ok db" and "length err \<le> 64"
  shows "rows_ok (snd (settle_batch l from err amb now c db))"
proof -
  have "rows_ok (snd (edit_attempts P (\<lambda>a. a\<lparr>da_state := st, da_resolved_at := Some now, da_updated_at := now\<rparr>) db))"
    for P st
    using assms(1) by (rule rows_attempts) (simp add: attempt_sizes_def)
  moreover have "rows_ok (snd (edit_deliveries P (settled_fields b st n err amb now) db'))" if "rows_ok db'" for P b st n db'
    using that by (rule rows_mails) (rule delivery_row_sizes(7) [OF assms(2)])
  ultimately show ?thesis using assms(1) by (auto simp: settle_batch_def split_beta Let_def)
qed

lemma event_rows:
  assumes "rows_ok db" and "rn_eventType e \<in> set event_kinds"
  shows "rows_ok (snd (recordCredentialRecoveryEvent e db))"
proof (cases "event_bounds e")
  case True
  then have sized: "sized_id (rn_eventId e)" "sized_id (rn_providerMessageId e)"
    by (auto simp: event_bounds_def sized_id_def Suc_le_eq)
  have "rows_ok (event_accepts e db)"
    unfolding event_accepts_def Let_def split_beta snd_conv
    using assms(1) sized(2) by (intro rows_attempts rows_mails) (auto intro: delivery_row_sizes(6) resolved_sizes named_sized)
  then have "rows_ok (event_insert e (event_accepts e db))"
    using assms(2) sized by (simp add: event_insert_def rows_ok_def event_row_def event_sizes_def)
  moreover have "rows_ok (event_project e db')" if "rows_ok db'" for db'
    unfolding event_project_def using that
    by (rule rows_mails) (use assms(2) in \<open>simp add: delivery_sizes_def\<close>)
  ultimately show ?thesis using True by (simp add: recordCredentialRecoveryEvent_def Let_def)
qed (use assms(1) in \<open>simp add: recordCredentialRecoveryEvent_def\<close>)

lemma prune_rows: "rows_ok db \<Longrightarrow> rows_ok (snd (pruneCredentialRecoveryHistory now db))"
proof -
  have "rows_ok (snd (scrub_jobs now db))" "rows_ok (snd (scrub_deliveries now db))" if "rows_ok db" for db
    unfolding scrub_jobs_def scrub_deliveries_def Let_def
    by (rule rows_jobs [OF that], simp add: job_sizes_def sealed_ok_def)
      (rule rows_mails [OF that], simp add: delivery_sizes_def sealed_ok_def)
  moreover have "rows_ok (snd (prune_jobs now db))" "rows_ok (snd (prune_events now db))"
    "rows_ok (snd (prune_attempts now db))" "rows_ok (snd (prune_deliveries now db))" "rows_ok (snd (prune_tokens now db))"
    if "rows_ok db" for db
    using that by (simp_all add: prune_jobs_def prune_events_def prune_attempts_def prune_deliveries_def prune_tokens_def
        Let_def rows_ok_def list_all_filter)
  ultimately show "rows_ok db \<Longrightarrow> rows_ok (snd (pruneCredentialRecoveryHistory now db))"
    by (simp add: pruneCredentialRecoveryHistory_def split_beta Let_def)
qed

lemma recovery_rows: "rows_ok db \<Longrightarrow> fitting_recovery r \<Longrightarrow> rows_ok (run_recovery r db)"
proof (cases r)
  case (Rop_claim_delivery now token i)
  then show "rows_ok db \<Longrightarrow> fitting_recovery r \<Longrightarrow> rows_ok (run_recovery r db)"
    by (simp add: claim_delivery_def split_beta rows_mails delivery_row_sizes(3))
next
  case (Rop_finish l state err now)
  then show "rows_ok db \<Longrightarrow> fitting_recovery r \<Longrightarrow> rows_ok (run_recovery r db)"
    by (simp add: finishLeasedDelivery_def split_beta rows_mails delivery_row_sizes(4))
next
  case (Rop_request uuid refOf ipRef sealed email now)
  then show "rows_ok db \<Longrightarrow> fitting_recovery r \<Longrightarrow> rows_ok (run_recovery r db)" using request_rows by simp
next
  case (Rop_control x)
  then show "rows_ok db \<Longrightarrow> fitting_recovery r \<Longrightarrow> rows_ok (run_recovery r db)" by (simp add: rows_ok_def)
qed (simp_all add: issue_rows job_rows fence_rows accept_rows settle_rows event_rows prune_rows)

lemma op_rows:
  assumes "rows_ok db" and "fitting_op op"
  shows "rows_ok (run_op op db)"
proof (cases op)
  case (Op_recovery r)
  with assms recovery_rows show ?thesis by simp
next
  case (Op_password now i h s confirm)
  have "rows_ok (update_user i (new_password h s confirm now) db)"
    using assms(1) links_kept(1) by (auto simp: same_links_def intro: same_rows [rotated])
  then show ?thesis by (simp add: Op_password replaceUserCredentials_def void_rows)
next
  case (Op_deactivate audit i h s at)
  have "rows_ok (update_mailboxes P g (update_user i f db))" for P g f
    using assms(1) links_kept(1,2) same_rows unfolding same_links_def by metis
  then have void: "rows_ok (void_recovery ''ACCOUNT_DEACTIVATED'' at i (update_mailboxes P g (update_user i f db)))" for P g f
    by (intro void_rows) simp_all
  have "same_recovery db' (audit_deactivation audit i at db')" for db'
    by (simp add: audit_deactivation_def same_recovery_def)
  from same_rows [OF this void] have "rows_ok (deactivate_batch audit i h s at db)"
    unfolding deactivate_batch_def .
  then show ?thesis using assms(1) by (simp add: Op_deactivate)
next
  case (Op_consume i nonce audit t)
  have user: "rows_ok (update_user k f db')" if "rows_ok db'" for k f db'
    using that links_kept(1) same_rows unfolding same_links_def by metis
  have "rows_ok (snd (spend_token i (tk_id t) nonce db))" using assms(1) by (simp add: spend_token_def Let_def)
  moreover have "rows_ok (db'\<lparr>pt_audit := as, pt_deliveries := cancel_deliveries ''TOKEN_CONSUMED'' at P (pt_deliveries db')\<rparr>)"
    if "rows_ok db'" for db' as at P
    using cancel_rows [of "db'\<lparr>pt_audit := as\<rparr>" "''TOKEN_CONSUMED''"] that by simp
  ultimately show ?thesis using assms(1) user by (simp add: Op_consume consume_batch_def split_beta Let_def)
next
  case (Op_delete_user i)
  have "rows_ok (delete_memberships P (delete_mailboxes Q db'))" if "rows_ok db'" for P Q db'
    using that links_kept(3,4) same_rows unfolding same_links_def by metis
  moreover have "rows_ok (db\<lparr>pt_users := us, pt_tokens := ts\<rparr>)" for us ts using assms(1) by (simp add: rows_ok_def)
  ultimately show ?thesis
    using assms(1) by (auto simp: Op_delete_user deleteUser_def delete_user_row_def split: option.split)
next
  case (Op_activate now i)
  have "rows_ok (update_mailboxes P g (update_user i f db))" "rows_ok (update_mailboxes P g db)" for P g f
    using assms(1) links_kept(1,2) same_rows unfolding same_links_def by metis+
  then show ?thesis using assms(1) by (simp add: Op_activate lifecycle_activate_def Let_def)
qed (use assms(1) links_kept same_rows in \<open>auto simp: createUser_def addMailbox_def addMembership_def setMailboxActive_def
  removeMembership_def unregisterMailbox_def claimBatch_def renewLease_def complete_revocation_def
  retry_revocation_def Let_def same_links_def same_recovery_def rows_ok_def\<close>)

subsection \<open>References to users\<close>

lemma known_get: "user_known i db \<longleftrightarrow> get_user i db \<noteq> None"
  by (simp add: get_user_None)

lemma op_known: "\<not> deletes_user i op \<Longrightarrow> user_known i db \<Longrightarrow> user_known i (run_op op db)"
  using op_progress [of i op db] by (auto simp: known_get progressed_def)

lemma known_image: "user_known i db \<longleftrightarrow> i \<in> us_id ` set (pt_users db)"
  by (auto simp: user_known_def list_ex_iff)

lemma ids_without: "us_id ` set (filter (\<lambda>u. us_id u \<noteq> i) us) = us_id ` set us - {i}"
  by auto

lemma op_refs:
  assumes "list_all (token_refs db) (pt_tokens db)"
  shows "list_all (token_refs (run_op op db)) (pt_tokens (run_op op db))"
proof (cases "\<exists>i. op = Op_delete_user i")
  case True
  then obtain i where op: "op = Op_delete_user i" ..
  let ?f = "\<lambda>t. if tk_issued_by t = Some i then t\<lparr>tk_issued_by := None\<rparr> else t"
  have "token_refs db' t'" if "pt_users db' = filter (\<lambda>u. us_id u \<noteq> i) (pt_users db)"
    and "t' \<in> set (map ?f (filter (\<lambda>t. tk_user_id t \<noteq> i) (pt_tokens db)))" for db' t'
  proof -
    have known: "user_known j db' \<longleftrightarrow> user_known j db \<and> j \<noteq> i" for j
      unfolding known_image that(1) ids_without by simp
    from that(2) obtain t where "t \<in> set (pt_tokens db)" "tk_user_id t \<noteq> i" "t' = ?f t" by auto
    then show ?thesis using assms by (auto simp: list_all_iff token_refs_def known split: option.splits)
  qed
  then show ?thesis
    using assms unfolding op list_all_iff
    by (simp add: deleteUser_def delete_user_row_def split: option.split)
next
  case False
  then have known: "user_known j db \<Longrightarrow> user_known j (run_op op db)" for j by (intro op_known) (cases op; simp)
  have old: "token_refs (run_op op db) t'" if "t \<in> set (pt_tokens db)" "evolved t t'" for t t'
    using that assms known by (auto simp: list_all_iff token_refs_def evolved_def split: option.splits)
  from op_tokens [of db op] show ?thesis
  proof
    assume "derived (pt_tokens db) (pt_tokens (run_op op db))"
    then show ?thesis using old derivedD unfolding list_all_iff by blast
  next
    assume "\<exists>origin url expires audit delivery sealed r lease.
      op = Op_recovery (Rop_issue origin url expires audit delivery sealed r lease) \<and> issue_condition r lease db \<and>
      \<not> list_ex (\<lambda>t. tk_id t = is_id r \<or> tk_token_hash t = is_tokenHash r) (pt_tokens db) \<and> issuer_known r db \<and>
      pt_tokens (run_op op db) = consume_tokens (is_createdAt r) (is_userId r) (pt_tokens db) @ [new_token r]"
    then obtain r lease where "issue_condition r lease db" and issuer: "issuer_known r db"
      and ts: "pt_tokens (run_op op db) = consume_tokens (is_createdAt r) (is_userId r) (pt_tokens db) @ [new_token r]"
      by blast
    then have "user_known (is_userId r) db" by (auto simp: issue_condition_def eligible_def user_known_def list_ex_iff)
    then have "token_refs (run_op op db) (new_token r)"
      using issuer known by (auto simp: token_refs_def new_token_def issuer_known_def split: option.splits)
    moreover have "token_refs (run_op op db) t'" if "t' \<in> set (consume_tokens (is_createdAt r) (is_userId r) (pt_tokens db))" for t'
      using derivedD [OF derived_consume that] old by blast
    ultimately show ?thesis unfolding ts list_all_iff by auto
  qed
qed

lemma sizes_run_ok: "sizes_ok db \<Longrightarrow> list_all fitting_op ops \<Longrightarrow> sizes_ok (run_ops ops db)"
  by (rule run_ops_invariant) (simp_all add: sizes_ok_def op_rows op_refs list_all_iff [where P = fitting_op])

end
