(* ===== verification/Recovery_Guarantees.thy ===== *)
theory Recovery_Guarantees
  imports Recovery_Sizes
begin

text \<open>
  What recovery links can and cannot do: a link works once, credential changes void it, there are few of
  them, and a mail with a link leaves the portal only when the link works.
\<close>

subsection \<open>Spent links\<close>

text \<open>All tokens with this hash are consumed.\<close>

definition spent_hash :: "string \<Rightarrow> portal_db \<Rightarrow> bool" where
  "spent_hash h db \<longleftrightarrow> (\<forall>t\<in>set (pt_tokens db). tk_token_hash t = h \<longrightarrow> tk_consumed_at t \<noteq> None)"

text \<open>All tokens with this hash have this id.\<close>

definition hash_of_id :: "string \<Rightarrow> string \<Rightarrow> portal_db \<Rightarrow> bool" where
  "hash_of_id h i db \<longleftrightarrow> (\<forall>t\<in>set (pt_tokens db). tk_token_hash t = h \<longrightarrow> tk_id t = i)"

text \<open>A token of a later state is an older one or the one just issued.\<close>

fun reissues :: "token_row \<Rightarrow> portal_op \<Rightarrow> bool" where
  "reissues t (Op_recovery (Rop_issue origin url expires audit delivery sealed r lease)) =
     (is_tokenHash r = tk_token_hash t \<or> is_id r = tk_id t)"
| "reissues t _ = False"

lemma issues_reissues: "issues (tk_token_hash t) op \<Longrightarrow> reissues t op"
proof (cases op)
  case (Op_recovery r)
  then show "issues (tk_token_hash t) op \<Longrightarrow> reissues t op" by (cases r) simp_all
qed simp_all

lemma old_token:
  assumes "t' \<in> set (pt_tokens (run_op op db))"
  obtains t where "t \<in> set (pt_tokens db)" and "evolved t t'"
  | "issues (tk_token_hash t') op" and "\<And>t. tk_id t = tk_id t' \<Longrightarrow> reissues t op"
proof -
  have "(\<exists>t\<in>set (pt_tokens db). evolved t t') \<or>
      issues (tk_token_hash t') op \<and> (\<forall>t. tk_id t = tk_id t' \<longrightarrow> reissues t op)"
    using op_tokens [of db op]
  proof (elim disjE exE conjE)
    assume "derived (pt_tokens db) (pt_tokens (run_op op db))"
    from derivedD [OF this assms] show ?thesis ..
  next
    fix origin url expires audit delivery sealed r lease
    assume op: "op = Op_recovery (Rop_issue origin url expires audit delivery sealed r lease)"
      and "pt_tokens (run_op op db) = consume_tokens (is_createdAt r) (is_userId r) (pt_tokens db) @ [new_token r]"
    then have "t' \<in> set (consume_tokens (is_createdAt r) (is_userId r) (pt_tokens db)) \<or> t' = new_token r"
      using assms by auto
    then show ?thesis using derivedD [OF derived_consume] by (auto simp: op new_token_def)
  qed
  then show thesis using that by blast
qed

lemma old_hash:
  "\<not> issues h op \<Longrightarrow> t' \<in> set (pt_tokens (run_op op db)) \<Longrightarrow> tk_token_hash t' = h \<Longrightarrow>
     \<exists>t\<in>set (pt_tokens db). evolved t t'"
  by (erule old_token) auto

text \<open>The token with this id is consumed, by the use with this nonce.\<close>

definition spent_by :: "string \<Rightarrow> string \<Rightarrow> portal_db \<Rightarrow> bool" where
  "spent_by k nonce db \<longleftrightarrow> (\<forall>t\<in>set (pt_tokens db). tk_id t = k \<longrightarrow>
     tk_consumed_at t \<noteq> None \<and> tk_consumption_nonce t = Some nonce)"

lemma spent_by_run:
  assumes "list_all (\<lambda>op. \<not> reissues t op) ops" and "spent_by (tk_id t) nonce db"
  shows "spent_by (tk_id t) nonce (run_ops ops db)"
proof (rule run_ops_invariant [where P = "spent_by (tk_id t) nonce", OF _ assms(2)])
  fix op db assume "op \<in> set ops" and old: "spent_by (tk_id t) nonce db"
  with assms(1) have no: "\<not> reissues t op" by (simp add: list_all_iff)
  show "spent_by (tk_id t) nonce (run_op op db)"
    unfolding spent_by_def
  proof (intro ballI impI)
    fix t' assume t': "t' \<in> set (pt_tokens (run_op op db))" "tk_id t' = tk_id t"
    from t'(1) show "tk_consumed_at t' \<noteq> None \<and> tk_consumption_nonce t' = Some nonce"
    proof (cases rule: old_token)
      case (1 t0)
      with old t'(2) show ?thesis by (auto simp: spent_by_def evolved_def)
    qed (use no t'(2) in auto)
  qed
qed

text \<open>A use that comes to its batch after the token was spent by another one changes nothing.\<close>

lemma spent_batch_refused:
  assumes "spent_by (tk_id t) nonce db" and "nonce' \<noteq> nonce"
  shows "consume_batch i nonce' audit t db = (False, db)" and "\<not> spent_with (tk_id t) nonce' (snd (spend_token i (tk_id t) nonce' db))"
proof -
  have "count_where (\<lambda>x. tk_id x = tk_id t \<and> tk_consumed_at x = None \<and> Q x) (pt_tokens db) = 0"
    and same: "update_where (\<lambda>x. tk_id x = tk_id t \<and> tk_consumed_at x = None \<and> Q x) f (pt_tokens db) = pt_tokens db" for Q f
    using assms(1) by (auto simp: spent_by_def count_where_def filter_empty_conv intro!: update_where_none)
  then have spend: "spend_token i (tk_id t) nonce' db = (0, db)" by (simp add: spend_token_def Let_def)
  have "\<not> spent_with (tk_id t) nonce' db" using assms by (auto simp: spent_by_def spent_with_def list_ex_iff)
  then show "consume_batch i nonce' audit t db = (False, db)" and "\<not> spent_with (tk_id t) nonce' (snd (spend_token i (tk_id t) nonce' db))"
    by (simp_all add: consume_batch_def spend)
qed

lemma hash_facts_op:
  assumes "\<not> issues h op"
  shows "spent_hash h db \<Longrightarrow> spent_hash h (run_op op db)" and "hash_of_id h i db \<Longrightarrow> hash_of_id h i (run_op op db)"
  using old_hash [OF assms, of _ db] unfolding spent_hash_def hash_of_id_def evolved_def by metis+

lemma hash_facts_run:
  assumes "list_all (\<lambda>op. \<not> issues h op) ops"
  shows "spent_hash h db \<Longrightarrow> spent_hash h (run_ops ops db)" and "hash_of_id h i db \<Longrightarrow> hash_of_id h i (run_ops ops db)"
  by (rule run_ops_invariant; use assms hash_facts_op in \<open>auto simp: list_all_iff\<close>)+

lemma spent_link_refused:
  "spent_hash (cs_tokenHash i) db \<Longrightarrow> consume_token nonce uuid later i db = (Some None, db)"
proof -
  assume "spent_hash (cs_tokenHash i) db"
  then have "find (usable_token i db) (pt_tokens db) = None"
    by (auto simp: spent_hash_def usable_token_def find_None_iff)
  then show ?thesis by (simp add: consume_token_def)
qed

text \<open>A successful consumption spends the token, and with it its hash.\<close>

lemma spend_success:
  assumes "distinct (map tk_id (pt_tokens db))" and "spend_token i k nonce db = (Suc 0, db')"
  shows "hash_of_id h k db \<Longrightarrow> spent_hash h db'" and "spent_by k nonce db'"
proof -
  let ?mine = "\<lambda>t. tk_id t = k \<and> (tk_consumed_at t = None \<and> cs_now i < tk_expires_at t \<and>
    eligible (tk_user_id t) (tk_purpose t) db)"
  have "count_where ?mine (pt_tokens db) = Suc 0"
    and db': "db' = db\<lparr>pt_tokens := update_where ?mine
        (\<lambda>t. t\<lparr>tk_consumed_at := Some (cs_now i), tk_consumption_nonce := Some nonce\<rparr>) (pt_tokens db)\<rparr>"
    using assms(2) by (auto simp: spend_token_def Let_def)
  then have "filter ?mine (pt_tokens db) \<noteq> []" by (auto simp: count_where_def)
  then obtain t where t: "t \<in> set (pt_tokens db)" "?mine t" unfolding filter_empty_conv by blast
  have mine: "?mine x" if "x \<in> set (pt_tokens db)" "tk_id x = k" for x
    using distinct_key_eq [OF assms(1) that(1) t(1)] t(2) that(2) by simp
  have spent: "tk_consumed_at x \<noteq> None \<and> tk_consumption_nonce x = Some nonce"
    if "x \<in> set (pt_tokens db')" "tk_id x = k" for x
  proof -
    from that(1) have "x \<in> set (update_where ?mine (\<lambda>t. t\<lparr>tk_consumed_at := Some (cs_now i),
        tk_consumption_nonce := Some nonce\<rparr>) (pt_tokens db))" by (simp add: db')
    then show ?thesis by (cases rule: update_whereE) (use mine that(2) in auto)
  qed
  then show "spent_by k nonce db'" by (simp add: spent_by_def)
  assume "hash_of_id h k db"
  then have "tk_id x = k" if "x \<in> set (pt_tokens db')" "tk_token_hash x = h" for x
    using that unfolding db' by (auto simp: hash_of_id_def set_update_where split: if_splits)
  with spent show "spent_hash h db'" by (simp add: spent_hash_def)
qed

text \<open>Voiding a user's links spends all of them.\<close>

fun voids :: "string \<Rightarrow> portal_op \<Rightarrow> portal_db \<Rightarrow> bool" where
  "voids u (Op_password now v h s confirm) db = (u = v)"
| "voids u (Op_deactivate audit v h s at) db = (u = v \<and> \<not> audit_taken audit db)"
| "voids u _ db = False"

lemma voids_tokens:
  assumes "voids u op db"
  shows "\<exists>at. pt_tokens (run_op op db) = consume_tokens at u (pt_tokens db)"
  using assms
  by (cases op) (auto simp: replaceUserCredentials_def void_recovery_def deactivate_batch_def audit_deactivation_def)

lemma voids_spent:
  assumes "voids u op db" and "distinct (map tk_token_hash (pt_tokens db))"
    and "t \<in> set (pt_tokens db)" and "tk_user_id t = u"
  shows "spent_hash (tk_token_hash t) (run_op op db)"
proof -
  from voids_tokens [OF assms(1)] obtain at where ts: "pt_tokens (run_op op db) = consume_tokens at u (pt_tokens db)" ..
  have "tk_consumed_at t' \<noteq> None"
    if "t' \<in> set (consume_tokens at u (pt_tokens db))" "tk_token_hash t' = tk_token_hash t" for t'
  proof -
    from derivedD [OF derived_consume that(1)] obtain t0 where "t0 \<in> set (pt_tokens db)" "evolved t0 t'" ..
    then have "t0 = t" using that(2) distinct_key_eq [OF assms(2) _ assms(3)] by (simp add: evolved_def)
    then have "tk_user_id t' = u" using \<open>evolved t0 t'\<close> assms(4) by (simp add: evolved_def)
    then show ?thesis using consume_tokens_spent [OF that(1)] by simp
  qed
  then show ?thesis by (simp add: spent_hash_def ts)
qed

subsection \<open>How many links there are\<close>

definition links_between :: "string \<Rightarrow> instant \<Rightarrow> token_row list \<Rightarrow> nat" where
  "links_between u x ts =
     count_where (\<lambda>t. tk_user_id t = u \<and> x < tk_created_at t \<and> tk_created_at t \<le> x + issue_window_ms) ts"

definition links_bounded :: "portal_db \<Rightarrow> bool" where
  "links_bounded db \<longleftrightarrow> (\<forall>u x. links_between u x (pt_tokens db) \<le> 3)"

lemma count_where_mono: "(\<And>r. P r \<Longrightarrow> Q r) \<Longrightarrow> count_where P rs \<le> count_where Q rs"
  by (induction rs) (auto simp: count_where_def)

lemma links_between_derived: "derived ts ts' \<Longrightarrow> links_between u x ts' \<le> links_between u x ts"
proof -
  have "list_emb (\<lambda>t' t. evolved t t') ts' ts \<Longrightarrow> links_between u x ts' \<le> links_between u x ts"
    by (induction rule: list_emb.induct) (auto simp: links_between_def count_where_def evolved_def)
  then show "derived ts ts' \<Longrightarrow> links_between u x ts' \<le> links_between u x ts" by (simp add: derived_def)
qed

lemma links_bounded_op:
  assumes ok: "links_bounded db"
  shows "links_bounded (run_op op db)"
proof -
  have "links_bounded (run_op op db)" if "derived (pt_tokens db) (pt_tokens (run_op op db))"
    using ok links_between_derived [OF that] le_trans unfolding links_bounded_def by blast
  moreover have "links_bounded (run_op op db)"
    if issued: "issue_condition r lease db" "\<not> list_ex (\<lambda>t. tk_id t = is_id r \<or> tk_token_hash t = is_tokenHash r) (pt_tokens db)"
      and ts: "pt_tokens (run_op op db) = consume_tokens (is_createdAt r) (is_userId r) (pt_tokens db) @ [new_token r]"
    for r lease
    unfolding links_bounded_def
  proof (intro allI)
    fix u x
    let ?old = "consume_tokens (is_createdAt r) (is_userId r) (pt_tokens db)"
    have old: "links_between u x ?old \<le> links_between u x (pt_tokens db)" for u x
      by (rule links_between_derived) (rule derived_consume)
    have "recent_tokens (is_userId r) (is_createdAt r - issue_window_ms) db < 3"
      using issued by (auto simp: issue_condition_def rate_ok_def list_ex_iff)
    moreover have "links_between u x (pt_tokens db) \<le> recent_tokens u (is_createdAt r - issue_window_ms) db"
      if "is_createdAt r \<le> x + issue_window_ms"
      unfolding links_between_def recent_tokens_def by (rule count_where_mono) (use that in auto)
    moreover have "links_between u x (?old @ [new_token r]) = links_between u x ?old +
        (if is_userId r = u \<and> x < is_createdAt r \<and> is_createdAt r \<le> x + issue_window_ms then 1 else 0)"
      by (simp add: links_between_def count_where_def new_token_def)
    moreover have "links_between u x (pt_tokens db) \<le> 3" using ok by (simp add: links_bounded_def)
    ultimately show "links_between u x (pt_tokens (run_op op db)) \<le> 3"
      using old [of u x] unfolding ts by (auto split: if_splits)
  qed
  ultimately show ?thesis using op_tokens [of db op] by blast
qed

subsection \<open>When a mail leaves\<close>

lemma fence_dispatches:
  assumes "fence_batch l expires now db = (Some True, db')"
  shows "list_ex (fence_admits l expires now db) (pt_deliveries db)"
    "list_ex (open_attempt {Ds_dispatching} (ld_leaseToken l) (ld_id l)) (pt_attempts db')"
    "\<not> list_ex (\<lambda>a. da_attempt_id a = ld_leaseToken l) (pt_attempts db)"
proof -
  let ?db1 = "snd (edit_deliveries (fence_admits l expires now db) (dispatching_fields now) db)"
  let ?new = "concat (map (new_dispatch_attempt now) (filter (\<lambda>d. holds_delivery l Rs_dispatching d \<and>
    rl_dispatch_started_at d = Some now) (pt_deliveries ?db1)))"
  from assms have one: "count_where (fence_admits l expires now db) (pt_deliveries db) = 1" and len: "length ?new = 1"
    and free: "\<not> list_ex (\<lambda>a. list_ex (\<lambda>b. da_attempt_id a = da_attempt_id b) (pt_attempts db)) ?new"
    and db': "db' = ?db1\<lparr>pt_attempts := pt_attempts ?db1 @ ?new\<rparr>"
    by (auto simp: fence_batch_def edit_deliveries_def Let_def split: if_splits)
  from one have "filter (fence_admits l expires now db) (pt_deliveries db) \<noteq> []" by (auto simp: count_where_def)
  then show "list_ex (fence_admits l expires now db) (pt_deliveries db)" by (auto simp: filter_empty_conv list_ex_iff)
  obtain a where a: "?new = [a]" using len by (cases ?new) auto
  then have "a \<in> set ?new" by simp
  then obtain d where "holds_delivery l Rs_dispatching d" "a \<in> set (new_dispatch_attempt now d)"
    unfolding set_concat set_map set_filter by blast
  then have mine: "open_attempt {Ds_dispatching} (ld_leaseToken l) (ld_id l) a"
    by (auto simp: new_dispatch_attempt_def holds_delivery_def open_attempt_def split: option.splits)
  then show "list_ex (open_attempt {Ds_dispatching} (ld_leaseToken l) (ld_id l)) (pt_attempts db')"
    unfolding db' a by simp
  show "\<not> list_ex (\<lambda>a. da_attempt_id a = ld_leaseToken l) (pt_attempts db)"
    using free mine unfolding a by (auto simp: open_attempt_def list_ex_iff)
qed

lemma commit_sends_nothing: "fst (snd (commit_outcome env l x s)) = []"
  by (simp add: commit_outcome_def resolve_delivery_def settled_item_def split: ses_observed.split prod.split)

lemma call_sends_once: "fst (snd (call_provider env l payload s)) = [payload]"
  using commit_sends_nothing [of env l _ s] by (auto simp: call_provider_def split: prod.split) (metis fst_conv snd_conv)

lemma fence_call:
  assumes "fenceCredentialRecoveryDeliveryDispatch env l expires now s = (Some Fence_dispatching, s')"
  shows "\<exists>db'. fence_batch l expires now (ce_others env (fst s) (snd s)) = (Some True, db')"
  using assms
  by (auto simp: fenceCredentialRecoveryDeliveryDispatch_def and_then_def db_call_def Let_def
      split: prod.splits option.splits if_splits bool.splits)

lemma send_fenced:
  assumes "fst (snd (send_delivery env l payload s)) \<noteq> []"
  shows "fst (snd (send_delivery env l payload s)) = [payload] \<and>
    (\<exists>s'. fenceCredentialRecoveryDeliveryDispatch env l (mp_expiresAt payload) (sv_now env (fst s)) s =
      (Some Fence_dispatching, s'))"
  using assms call_sends_once
  by (auto simp: send_delivery_def split: prod.splits option.splits fence_result.splits)

subsection \<open>The properties\<close>

text \<open>
  C23: The transactions of the portal keep the constraints of the recovery tables, and an account has at most
  one live link. Whatever transactions run, in whatever order: keys stay unique; references among the
  tables and of tokens to users resolve; leases come with their ends, terminal rows with their times,
  accepted, cancelled and expired deliveries and finished requests without their payload (a parked row may
  keep it); counts are in range; error codes, ids, sealed payloads and event kinds have the lengths and
  values the migrations check, when what the transactions are given has them; and of the tokens of a user
  at most one is unused. The append-only audit log is not among these tables.
\<close>

theorem recovery_tables_stay_valid:
  assumes "recovery_ok db" and "sizes_ok db" and "list_all fitting_op ops"
  shows "recovery_ok (run_ops ops db) \<and> sizes_ok (run_ops ops db) \<and>
    length (filter (\<lambda>t. tk_user_id t = u \<and> tk_consumed_at t = None) (pt_tokens (run_ops ops db))) \<le> 1"
proof -
  let ?ts = "pt_tokens (run_ops ops db)"
  have "list_all sane_op ops" using assms(3) fitting_sane by (simp add: list_all_iff)
  with assms(1) have ok: "recovery_ok (run_ops ops db)" by (rule recovery_run_ok)
  then have "length (filter (\<lambda>t. tk_user_id t = u \<and> True) (filter unused ?ts)) \<le> 1"
    by (intro distinct_key_filter) (simp add: recovery_ok_def tokens_ok_def)
  then show ?thesis using ok sizes_run_ok [OF assms(2,3)] by (simp add: unused_def conj_commute)
qed

text \<open>
  C24: A recovery link works once. After a link has been used successfully, whatever else happened between
  reading and spending it and whatever happens afterwards (as long as neither the secret nor the id of its
  token is issued again), using it once more answers that it is not valid and changes nothing. That
  includes an overlapping use: one that read the link while it was still good, before or after the first
  use read it, and comes to spend it only now, under a nonce of its own, is refused in the same way.
\<close>

theorem recovery_link_works_once:
  assumes "recovery_ok db" and "t \<in> set (pt_tokens db)" and "tk_token_hash t = cs_tokenHash i"
    and "list_all sane_op (before_read @ meanwhile)"
    and "list_all (\<lambda>op. \<not> reissues t op) (before_read @ meanwhile @ afterwards)"
    and "consume_token nonce uuid (run_ops meanwhile) i (run_ops before_read db) = (Some (Some x), db1)"
    and "cs_tokenHash j = cs_tokenHash i" and "nonce' \<noteq> nonce" and "before_read @ meanwhile = reads @ rest"
  shows "consume_token nonce' uuid' later j (run_ops afterwards db1) = (Some None, run_ops afterwards db1) \<and>
    (\<exists>db2 \<in> {run_ops reads db, run_ops afterwards db1}.
       consume_token nonce' uuid' (\<lambda>_. run_ops afterwards db1) j (run_ops reads db) = (Some None, db2))"
proof -
  let ?h = "cs_tokenHash i" and ?k = "tk_id t" and ?db = "run_ops meanwhile (run_ops before_read db)"
  have "\<not> issues ?h op" if "\<not> reissues t op" for op
    using that issues_reissues [of t op] assms(3) by auto
  then have free: "list_all (\<lambda>op. \<not> issues ?h op) (before_read @ meanwhile @ afterwards)"
    using assms(5) by (simp add: list_all_iff)
  have hashes: "distinct (map tk_token_hash (pt_tokens db))" using recovery_okD(1) [OF assms(1)] by (simp add: tokens_ok_def)
  have "hash_of_id ?h ?k db"
    using distinct_key_eq [OF hashes _ assms(2)] assms(3) by (auto simp: hash_of_id_def)
  then have known: "hash_of_id ?h ?k (run_ops ops db)" if "list_all (\<lambda>op. \<not> issues ?h op) ops" for ops
    using that by (intro hash_facts_run)
  have id: "tk_id t' = ?k" if "find (usable_token j (run_ops ops db)) (pt_tokens (run_ops ops db)) = Some t'"
    and "list_all (\<lambda>op. \<not> issues ?h op) ops" and "cs_tokenHash j = ?h" for j ops t'
    using that(1,3) known [OF that(2)] by (auto simp: find_Some_iff usable_token_def hash_of_id_def)
  from assms(6) obtain t1 where "find (usable_token i (run_ops before_read db)) (pt_tokens (run_ops before_read db)) = Some t1"
    by (auto simp: consume_token_def split: option.splits)
  moreover from id [OF this _ refl] have t1: "tk_id t1 = ?k" using free by simp
  ultimately have "fst (spend_token i ?k nonce ?db) = Suc 0"
    and db1: "db1 = snd (consume_batch i nonce (''audit_'' @ uuid) t1 ?db)"
    using assms(6) by (auto simp: consume_token_def Let_def consume_batch_def split_beta split: if_splits)
  then have spend: "spend_token i ?k nonce ?db = (Suc 0, snd (spend_token i ?k nonce ?db))" by (metis prod.collapse)
  have "recovery_ok (run_ops (before_read @ meanwhile) db)" using assms(1,4) by (rule recovery_run_ok)
  then have "distinct (map tk_id (pt_tokens ?db))" by (simp add: recovery_ok_def tokens_ok_def)
  note spent = spend_success [OF this spend]
  have "pt_tokens db1 = pt_tokens (snd (spend_token i ?k nonce ?db))" by (simp add: db1 consume_batch_tokens t1)
  with spent known [of "before_read @ meanwhile"] free have "spent_hash ?h db1" and mine: "spent_by ?k nonce db1"
    by (simp_all add: spent_hash_def spent_by_def)
  then have "spent_hash (cs_tokenHash j) (run_ops afterwards db1)"
    using free assms(7) hash_facts_run(1) [of ?h afterwards db1] by simp
  then have later_refused: "consume_token nonce' uuid' later j (run_ops afterwards db1) = (Some None, run_ops afterwards db1)"
    by (rule spent_link_refused)
  have later_spent: "spent_by ?k nonce (run_ops afterwards db1)"
    using assms(5) mine by (intro spent_by_run) simp_all
  have "list_all (\<lambda>op. \<not> issues ?h op) (before_read @ meanwhile)" using free by simp
  then have "list_all (\<lambda>op. \<not> issues ?h op) reads" unfolding assms(9) by simp
  then have read_id: "tk_id t' = ?k" if "find (usable_token j (run_ops reads db)) (pt_tokens (run_ops reads db)) = Some t'" for t'
    using id [OF that _ assms(7)] by simp
  then have "\<exists>db2 \<in> {run_ops reads db, run_ops afterwards db1}.
       consume_token nonce' uuid' (\<lambda>_. run_ops afterwards db1) j (run_ops reads db) = (Some None, db2)"
  proof (cases "find (usable_token j (run_ops reads db)) (pt_tokens (run_ops reads db))")
    case (Some t')
    then have "spent_by (tk_id t') nonce (run_ops afterwards db1)" using read_id later_spent by simp
    from spent_batch_refused [OF this assms(8)] Some show ?thesis by (simp add: consume_token_def Let_def)
  qed (simp add: consume_token_def)
  with later_refused show ?thesis by blast
qed

text \<open>
  C25: Changing or revoking a password and deactivating the account void the account's recovery links: a link
  of the user that existed before does not work any more, whatever happens later.
\<close>

theorem changed_credentials_void_links:
  assumes "recovery_ok db" and "t \<in> set (pt_tokens db)" and "voids (tk_user_id t) op db"
    and "list_all (\<lambda>op. \<not> issues (tk_token_hash t) op) ops" and "cs_tokenHash i = tk_token_hash t"
  shows "consume_token nonce uuid later i (run_ops ops (run_op op db)) = (Some None, run_ops ops (run_op op db))"
proof (rule spent_link_refused)
  have "distinct (map tk_token_hash (pt_tokens db))"
    using recovery_okD(1) [OF assms(1)] by (simp add: tokens_ok_def)
  from voids_spent [OF assms(3) this assms(2) refl]
  show "spent_hash (cs_tokenHash i) (run_ops ops (run_op op db))" using assms(4,5) hash_facts_run(1) by simp
qed

text \<open>
  C26: At most three recovery links per account in any quarter of an hour: no interval of that length, wherever
  it starts, contains the creation times of more than three tokens of one user, whatever clocks the issuing
  requests read and in whatever order they come.
\<close>

theorem recovery_links_are_bounded:
  assumes "\<And>u x. links_between u x (pt_tokens db) \<le> 3"
  shows "links_between u x (pt_tokens (run_ops ops db)) \<le> 3"
proof -
  have "links_bounded (run_ops ops db)"
    by (rule run_ops_invariant) (use assms links_bounded_op in \<open>auto simp: links_bounded_def\<close>)
  then show ?thesis by (simp add: links_bounded_def)
qed

text \<open>
  C27: A recovery mail leaves only for a link that works. The worker hands at most one mail to the provider,
  and only when the fence found, in one transaction directly before, that sending is enabled, that the token
  is unused, expires when the mail says and is valid for another minute, that the account is active and in
  the state the purpose needs, and that nothing has been sent under this lease before.
\<close>

theorem recovery_mail_carries_a_live_link:
  assumes "preflightCredentialRecoveryDelivery env l startedAt s = (Some Preflight_ready, s1)"
    and "db = ce_others env (fst s1) (snd s1)" and "fst (snd (drainCredentialRecoveryDelivery env startedAt l s)) \<noteq> []"
  shows "\<exists>payload t. fst (snd (drainCredentialRecoveryDelivery env startedAt l s)) = [payload] \<and>
    decryptCredentialRecoveryDelivery env l = Opened payload \<and> pt_control db = Some 1 \<and>
    t \<in> set (pt_tokens db) \<and> tk_id t = ld_tokenId l \<and> tk_consumed_at t = None \<and>
    tk_expires_at t = mp_expiresAt payload \<and>
    sv_now env (fst s1) + minimum_validity_ms < mp_expiresAt payload \<and>
    eligible (tk_user_id t) (tk_purpose t) db \<and>
    \<not> list_ex (\<lambda>a. da_attempt_id a = ld_leaseToken l) (pt_attempts db)"
proof -
  from assms(1,3) obtain payload where payload: "decryptCredentialRecoveryDelivery env l = Opened payload"
    and same: "drainCredentialRecoveryDelivery env startedAt l s = send_delivery env l payload s1"
    by (auto simp: drainCredentialRecoveryDelivery_def resolve_delivery_def settled_item_def
        split: opened.splits option.splits)
  from send_fenced [of env l payload s1] assms(3) same obtain s2 where
    sent: "fst (snd (send_delivery env l payload s1)) = [payload]" and
    fence: "fenceCredentialRecoveryDeliveryDispatch env l (mp_expiresAt payload) (sv_now env (fst s1)) s1 =
      (Some Fence_dispatching, s2)" by auto
  from fence_call [OF fence] obtain db' where
    "fence_batch l (mp_expiresAt payload) (sv_now env (fst s1)) db = (Some True, db')" using assms(2) by auto
  from fence_dispatches(1,3) [OF this] show ?thesis
    using payload sent same by (auto simp: list_ex_iff fence_admits_def)
qed

end
