(* ===== verification/Recovery_Witnesses.thy ===== *)
theory Recovery_Witnesses
  imports Recovery_Guarantees Access_Witnesses
begin

text \<open>Concrete runs on which the hypotheses of the recovery properties hold.\<close>

definition sample_sealed :: sealed_payload where
  "sample_sealed = \<lparr>sl_keyVersion = 1, sl_iv = ''0123456789abcdef'', sl_ciphertext = ''0123456789abcdef01234567''\<rparr>"

definition sample_link :: recovery_url where
  "sample_link = \<lparr>ru_origin = ''o'', ru_pathname = ''/account/recover'', ru_token = Some ''secret'', ru_username = [],
     ru_password = [], ru_hash = []\<rparr>"

definition sample_issue :: "string \<Rightarrow> string \<Rightarrow> instant \<Rightarrow> portal_op" where
  "sample_issue i h at = Op_recovery (Rop_issue ''o'' sample_link (at + recovery_ttl_ms) i i sample_sealed
     \<lparr>is_id = i, is_userId = ''u'', is_tokenHash = h, is_expiresAt = at + recovery_ttl_ms, is_issuedBy = None,
      is_purpose = Purpose_recovery, is_createdAt = at\<rparr> None)"

text \<open>One link has been issued to the member.\<close>

definition sample_issued :: portal_db where
  "sample_issued = run_op (sample_issue ''t1'' ''h1'' 1000) sample_portal"

lemma sample_portal_tables: "recovery_ok sample_portal"
  by (simp add: recovery_ok_def tokens_ok_def deliveries_ok_def attempts_ok_def events_ok_def jobs_ok_def
      sample_portal_def)

lemma sample_issued_tables: "recovery_ok sample_issued"
  unfolding sample_issued_def by (rule recovery_op_ok [OF sample_portal_tables]) (simp add: sample_issue_def)

lemma recovery_tables_stay_valid_witness:
  "recovery_ok (run_ops [sample_issue ''t1'' ''h1'' 1000, sample_issue ''t2'' ''h2'' 2000] sample_portal) \<and>
   map tk_id (pt_tokens (run_ops [sample_issue ''t1'' ''h1'' 1000, sample_issue ''t2'' ''h2'' 2000] sample_portal)) =
     [''t1'', ''t2'']"
proof -
  have fits: "list_all fitting_op [sample_issue ''t1'' ''h1'' 1000, sample_issue ''t2'' ''h2'' 2000]"
    by (simp add: sample_issue_def sized_payload_def sample_sealed_def)
  have "sizes_ok sample_portal" by (simp add: sizes_ok_def rows_ok_def sample_portal_def)
  from recovery_tables_stay_valid [OF sample_portal_tables this fits, of "''u''"] show ?thesis by (auto) code_simp
qed

definition sample_use :: consume_input where
  "sample_use = \<lparr>cs_tokenHash = ''h1'', cs_now = 5000, cs_passwordHash = ''p'', cs_passwordSalt = ''q'',
     cs_mcpTokenHash = None\<rparr>"

lemma recovery_link_works_once_witness:
  "fst (consume_token ''n'' ''a1'' (run_ops []) sample_use sample_issued) = Some (Some (''u'', ''u@x'', Recovered)) \<and>
   fst (consume_token ''m'' ''a2'' (\<lambda>db. db) sample_use
     (run_ops [Op_tick 7] (snd (consume_token ''n'' ''a1'' (run_ops []) sample_use sample_issued)))) = Some None"
proof -
  have first: "fst (consume_token ''n'' ''a1'' (run_ops []) sample_use sample_issued) =
      Some (Some (''u'', ''u@x'', Recovered))"
    by code_simp
  then have used: "consume_token ''n'' ''a1'' (run_ops []) sample_use sample_issued =
      (Some (Some (''u'', ''u@x'', Recovered)), snd (consume_token ''n'' ''a1'' (run_ops []) sample_use sample_issued))"
    by (metis prod.collapse)
  have t: "hd (pt_tokens sample_issued) \<in> set (pt_tokens sample_issued)"
    "tk_token_hash (hd (pt_tokens sample_issued)) = cs_tokenHash sample_use" by code_simp+
  have free: "list_all sane_op ([] @ [])" "list_all (\<lambda>op. \<not> reissues (hd (pt_tokens sample_issued)) op) ([] @ [] @ [Op_tick 7])"
    by simp_all
  have "consume_token ''n'' ''a1'' (run_ops []) sample_use (run_ops [] sample_issued) =
      (Some (Some (''u'', ''u@x'', Recovered)), snd (consume_token ''n'' ''a1'' (run_ops []) sample_use sample_issued))"
    using used by simp
  from recovery_link_works_once [OF sample_issued_tables t free this refl, of "''m''" "[]" "[]"] first
  show ?thesis by simp
qed

lemma changed_credentials_void_links_witness:
  "fst (consume_token ''n'' ''a1'' (\<lambda>db. db) sample_use
     (run_ops [Op_tick 7] (run_op (Op_password 3000 ''u'' ''x'' ''y'' False) sample_issued))) = Some None"
proof -
  have t: "hd (pt_tokens sample_issued) \<in> set (pt_tokens sample_issued)" by code_simp
  have v: "voids (tk_user_id (hd (pt_tokens sample_issued))) (Op_password 3000 ''u'' ''x'' ''y'' False) sample_issued"
    by code_simp
  have free: "list_all (\<lambda>op. \<not> issues (tk_token_hash (hd (pt_tokens sample_issued))) op) [Op_tick 7]" by simp
  have h: "cs_tokenHash sample_use = tk_token_hash (hd (pt_tokens sample_issued))" by code_simp
  from changed_credentials_void_links [OF sample_issued_tables t v free h] show ?thesis by simp
qed

text \<open>Four requests within the quarter of an hour: the fourth one gets no link.\<close>

definition sample_requests :: "portal_op list" where
  "sample_requests = [sample_issue ''t1'' ''h1'' 1000, sample_issue ''t2'' ''h2'' 2000, sample_issue ''t3'' ''h3'' 3000,
     sample_issue ''t4'' ''h4'' 4000]"

lemma recovery_links_are_bounded_witness:
  "links_between ''u'' 0 (pt_tokens (run_ops sample_requests sample_portal)) \<le> 3 \<and>
   length (pt_tokens (run_ops sample_requests sample_portal)) = 3"
proof -
  have none: "links_between u x (pt_tokens sample_portal) \<le> 3" for u x
    by (simp add: sample_portal_def links_between_def count_where_def)
  have "length (pt_tokens (run_ops sample_requests sample_portal)) = 3" by code_simp
  then show ?thesis using recovery_links_are_bounded [OF none] by blast
qed

text \<open>The mail of the link: leased, checked, decrypted and handed to the provider.\<close>

definition sample_mail :: mail_payload where
  "sample_mail = \<lparr>mp_to = ''e@y'', mp_loginEmail = ''u@x'', mp_recoveryUrl = ''link'', mp_expiresAt = 1000 + recovery_ttl_ms\<rparr>"

definition sample_sender :: send_env where
  "sample_sender = \<lparr>ce_others = (\<lambda>n db. db), ce_fault = (\<lambda>n. False), sv_now = (\<lambda>n. 2000 + int n),
     sv_open = (\<lambda>l. Opened (JObj [(''to'', JStr ''e@y''), (''loginEmail'', JStr ''u@x''), (''recoveryUrl'', JStr ''link''),
        (''expiresAt'', JNum (JInt (1000 + recovery_ttl_ms)))])),
     sv_parseUrl = (\<lambda>s. Some (sample_link, 1, 1)), sv_origin = ''o'', sv_prepare = (\<lambda>p. None),
     sv_dispatch = (\<lambda>p. Some (Ses_accepted ''m1''))\<rparr>"

definition sample_lease :: leased_delivery where
  "sample_lease = \<lparr>ld_id = ''recovery_delivery_t1'', ld_tokenId = ''t1'', ld_leaseToken = ''k1'', ld_attemptCount = 0,
     ld_encrypted = Some sample_sealed\<rparr>"

definition sample_claimed :: db_at where
  "sample_claimed = (0, snd (claim_delivery 2000 ''k1'' ''recovery_delivery_t1'' sample_issued))"

lemma recovery_mail_carries_a_live_link_witness:
  "fst (drainCredentialRecoveryDelivery sample_sender 2000 sample_lease sample_claimed) = Item_accepted \<and>
   (\<exists>t. t \<in> set (pt_tokens (snd (snd (preflightCredentialRecoveryDelivery sample_sender sample_lease 2000 sample_claimed))))
      \<and> tk_id t = ''t1'' \<and> tk_consumed_at t = None)"
proof -
  let ?pre = "preflightCredentialRecoveryDelivery sample_sender sample_lease 2000 sample_claimed"
  have "fst ?pre = Some Preflight_ready" by code_simp
  then have ready: "?pre = (Some Preflight_ready, snd ?pre)" by (metis prod.collapse)
  have sent: "fst (drainCredentialRecoveryDelivery sample_sender 2000 sample_lease sample_claimed) = Item_accepted"
    "fst (snd (drainCredentialRecoveryDelivery sample_sender 2000 sample_lease sample_claimed)) \<noteq> []"
    by code_simp+
  have "ce_others sample_sender n db = db" "ld_tokenId sample_lease = ''t1''" for n db
    by (simp_all add: sample_sender_def sample_lease_def)
  then show ?thesis
    using recovery_mail_carries_a_live_link [OF ready refl sent(2)] sent(1) by fastforce
qed

end
