(* ===== verification/Reminder_Store.thy ===== *)
theory Reminder_Store
  imports Mailbox_Access Iso_Date "HOL-Library.Product_Lexorder"
begin

text \<open>
  Personal follow-up reminders: the two D1 tables of migration 0008 and every statement of
  \<^verbatim>\<open>workers/lib/follow-up-reminders-d1.ts\<close>. A stored result is the JSON text of a reminder; the model keeps the
  reminder itself. Time stamps of a reminder are texts; \<open>dateParse\<close> is \<^verbatim>\<open>Date.parse\<close> on texts that are not
  the canonical rendering of an instant.
\<close>

subsection \<open>Reminders and rows\<close>

datatype reminder_state = Reminder_active | Reminder_completed | Reminder_dismissed

datatype reminder_resolution = Resolved_manual | Resolved_inbound_reply | Resolved_dismissed

record reminder =
  fu_id :: string
  fu_ownerUserId :: string
  fu_mailboxAddress :: string
  fu_conversationKey :: string
  fu_baselineMessageId :: string
  fu_baselineMessageDate :: stamp
  fu_remindAt :: stamp
  fu_state :: reminder_state
  fu_resolutionReason :: "reminder_resolution option"
  fu_version :: int
  fu_createdAt :: instant
  fu_updatedAt :: instant
  fu_resolvedAt :: "instant option"

datatype reminder_action = Act_dismiss | Act_complete | Act_snooze

text \<open>The fingerprints are the JSON texts of these lists.\<close>

type_synonym create_print = "string \<times> string \<times> stamp"
type_synonym operation_print = "string \<times> string \<times> reminder_action \<times> int \<times> stamp option"

record reminder_row =
  rr_id :: string
  rr_owner_user_id :: string
  rr_mailbox_address :: string
  rr_conversation_key :: string
  rr_baseline_message_id :: string
  rr_baseline_message_date :: instant
  rr_remind_at :: instant
  rr_state :: reminder_state
  rr_resolution_reason :: "reminder_resolution option"
  rr_create_idempotency_key :: string
  rr_create_fingerprint :: create_print
  rr_create_result :: reminder
  rr_version :: int
  rr_created_at :: instant
  rr_updated_at :: instant
  rr_resolved_at :: "instant option"

record operation_row =
  ro_id :: string
  ro_owner_user_id :: string
  ro_mailbox_address :: string
  ro_reminder_id :: string
  ro_operation_id :: string
  ro_action :: reminder_action
  ro_payload_fingerprint :: operation_print
  ro_result :: reminder
  ro_created_at :: instant

record reminder_db =
  rd_portal :: portal_db
  rd_rows :: "reminder_row list"
  rd_operations :: "operation_row list"

fun read_stamp :: "(string \<Rightarrow> instant option) \<Rightarrow> stamp \<Rightarrow> instant option" where
  "read_stamp dateParse (Canon t) = Some t"
| "read_stamp dateParse (Odd s) = dateParse s"

definition fromRow :: "reminder_row \<Rightarrow> reminder" where
  "fromRow r =
     \<lparr>fu_id = rr_id r, fu_ownerUserId = rr_owner_user_id r, fu_mailboxAddress = rr_mailbox_address r,
      fu_conversationKey = rr_conversation_key r, fu_baselineMessageId = rr_baseline_message_id r,
      fu_baselineMessageDate = Canon (rr_baseline_message_date r), fu_remindAt = Canon (rr_remind_at r),
      fu_state = rr_state r, fu_resolutionReason = rr_resolution_reason r, fu_version = rr_version r,
      fu_createdAt = rr_created_at r, fu_updatedAt = rr_updated_at r, fu_resolvedAt = rr_resolved_at r\<rparr>"

subsection \<open>Reads\<close>

definition findOperation :: "string \<Rightarrow> string \<Rightarrow> reminder_db \<Rightarrow> operation_row option" where
  "findOperation owner operationId db =
     find (\<lambda>p. ro_owner_user_id p = owner \<and> ro_operation_id p = operationId) (rd_operations db)"

definition getScoped :: "string \<Rightarrow> string \<Rightarrow> string \<Rightarrow> reminder_db \<Rightarrow> reminder option" where
  "getScoped i owner mailbox db = map_option fromRow
     (find (\<lambda>r. rr_id r = i \<and> rr_owner_user_id r = owner \<and> rr_mailbox_address r = mailbox) (rd_rows db))"

definition hasLiveAccess :: "string \<Rightarrow> string \<Rightarrow> reminder_db \<Rightarrow> bool" where
  "hasLiveAccess owner mailbox db = liveMailboxAccess (rd_portal db) mailbox owner"

record reminder_cursor =
  cu_remindAt :: instant
  cu_id :: string

definition due_key :: "reminder_row \<Rightarrow> instant \<times> string" where
  "due_key r = (rr_remind_at r, rr_id r)"

definition listed :: "string \<Rightarrow> string \<Rightarrow> reminder_row \<Rightarrow> bool" where
  "listed owner mailbox r \<longleftrightarrow>
     rr_owner_user_id r = owner \<and> rr_mailbox_address r = mailbox \<and> rr_state r = Reminder_active"

definition after_cursor :: "reminder_cursor option \<Rightarrow> reminder_row \<Rightarrow> bool" where
  "after_cursor c r = (case c of
      None \<Rightarrow> True
    | Some c \<Rightarrow> rr_remind_at r > cu_remindAt c \<or> rr_remind_at r = cu_remindAt c \<and> rr_id r > cu_id c)"

definition store_list ::
  "string \<Rightarrow> string \<Rightarrow> nat \<Rightarrow> reminder_cursor option \<Rightarrow> reminder_db \<Rightarrow> reminder list \<times> reminder_cursor option" where
  "store_list owner mailbox limit cursor db =
     (let result = take (limit + 1) (sort_key due_key
            (filter (\<lambda>r. listed owner mailbox r \<and> after_cursor cursor r) (rd_rows db)));
          hasMore = length result > limit;
          rows = (if hasMore then take limit result else result)
      in (map fromRow rows,
          if hasMore \<and> rows \<noteq> []
          then Some \<lparr>cu_remindAt = rr_remind_at (last rows), cu_id = rr_id (last rows)\<rparr> else None))"

subsection \<open>Creation\<close>

datatype create_reply =
  Reminder_created reminder | Reminder_replayed reminder | Active_conflict reminder
| Create_forbidden | Create_key_conflict

definition key_row :: "string \<Rightarrow> string \<Rightarrow> reminder_db \<Rightarrow> reminder_row option" where
  "key_row owner key db =
     find (\<lambda>r. rr_owner_user_id r = owner \<and> rr_create_idempotency_key r = key) (rd_rows db)"

definition findCreateReplay :: "string \<Rightarrow> string \<Rightarrow> create_print \<Rightarrow> reminder_db \<Rightarrow> create_reply option" where
  "findCreateReplay owner key print db =
     map_option (\<lambda>r. if rr_create_fingerprint r = print then Reminder_replayed (rr_create_result r)
       else Create_key_conflict) (key_row owner key db)"

definition row_of ::
  "(string \<Rightarrow> instant option) \<Rightarrow> reminder \<Rightarrow> string \<Rightarrow> create_print \<Rightarrow> reminder_row option" where
  "row_of dateParse m key print =
     (case (read_stamp dateParse (fu_baselineMessageDate m), read_stamp dateParse (fu_remindAt m)) of
        (Some base, Some due) \<Rightarrow> Some
          \<lparr>rr_id = fu_id m, rr_owner_user_id = fu_ownerUserId m, rr_mailbox_address = fu_mailboxAddress m,
           rr_conversation_key = fu_conversationKey m, rr_baseline_message_id = fu_baselineMessageId m,
           rr_baseline_message_date = base, rr_remind_at = due, rr_state = Reminder_active,
           rr_resolution_reason = None, rr_create_idempotency_key = key, rr_create_fingerprint = print,
           rr_create_result = m, rr_version = fu_version m, rr_created_at = fu_createdAt m,
           rr_updated_at = fu_updatedAt m, rr_resolved_at = None\<rparr>
      | _ \<Rightarrow> None)"

text \<open>The unique keys of the table, and the checks of a row.\<close>

definition clashes :: "reminder_row \<Rightarrow> reminder_row \<Rightarrow> bool" where
  "clashes r q \<longleftrightarrow> rr_id r = rr_id q \<or>
     rr_owner_user_id r = rr_owner_user_id q \<and> rr_create_idempotency_key r = rr_create_idempotency_key q \<or>
     rr_state r = Reminder_active \<and> rr_state q = Reminder_active \<and> rr_owner_user_id r = rr_owner_user_id q \<and>
     rr_mailbox_address r = rr_mailbox_address q \<and> rr_conversation_key r = rr_conversation_key q"

datatype insert_outcome = Inserted | Not_inserted | Insert_unique | Insert_failed

definition insert_reminder ::
  "(string \<Rightarrow> instant option) \<Rightarrow> reminder \<Rightarrow> string \<Rightarrow> create_print \<Rightarrow> reminder_db \<Rightarrow> insert_outcome \<times> reminder_db" where
  "insert_reminder dateParse m key print db =
     (if \<not> hasLiveAccess (fu_ownerUserId m) (fu_mailboxAddress m) db then (Not_inserted, db)
      else case row_of dateParse m key print of
          None \<Rightarrow> (Insert_failed, db)
        | Some r \<Rightarrow>
            if fu_version m < 1 then (Insert_failed, db)
            else if list_ex (clashes r) (rd_rows db) then (Insert_unique, db)
            else (Inserted, db\<lparr>rd_rows := rd_rows db @ [r]\<rparr>))"

text \<open>\<open>others n\<close> is what other requests do before the n-th statement; \<open>None\<close> is a thrown error.\<close>

definition createOrReplay ::
  "(nat \<Rightarrow> reminder_db \<Rightarrow> reminder_db) \<Rightarrow> (string \<Rightarrow> instant option) \<Rightarrow> reminder \<Rightarrow> string \<Rightarrow> create_print \<Rightarrow>
     reminder_db \<Rightarrow> create_reply option \<times> reminder_db" where
  "createOrReplay others dateParse m key print db =
     (let db0 = others 0 db
      in case findCreateReplay (fu_ownerUserId m) key print db0 of
           Some reply \<Rightarrow> (Some reply, db0)
         | None \<Rightarrow>
             (case insert_reminder dateParse m key print (others 1 db0) of
                (Inserted, db1) \<Rightarrow> (Some (Reminder_created m), db1)
              | (Not_inserted, db1) \<Rightarrow> (Some Create_forbidden, db1)
              | (Insert_failed, db1) \<Rightarrow> (None, db1)
              | (Insert_unique, db1) \<Rightarrow>
                  let db2 = others 2 db1
                  in case findCreateReplay (fu_ownerUserId m) key print db2 of
                       Some reply \<Rightarrow> (Some reply, db2)
                     | None \<Rightarrow>
                         let db3 = others 3 db2
                         in (map_option (\<lambda>r. Active_conflict (fromRow r))
                               (find (\<lambda>r. listed (fu_ownerUserId m) (fu_mailboxAddress m) r \<and>
                                  rr_conversation_key r = fu_conversationKey m) (rd_rows db3)), db3)))"

subsection \<open>Operations on a reminder\<close>

record store_operation =
  so_ownerUserId :: string
  so_mailboxAddress :: string
  so_reminderId :: string
  so_operationId :: string
  so_expectedVersion :: int
  so_action :: reminder_action
  so_remindAt :: stamp
  so_fingerprint :: operation_print
  so_occurredAt :: instant

definition action_state :: "reminder_action \<Rightarrow> reminder_state" where
  "action_state a = (case a of Act_snooze \<Rightarrow> Reminder_active | Act_dismiss \<Rightarrow> Reminder_dismissed
     | Act_complete \<Rightarrow> Reminder_completed)"

definition action_reason :: "reminder_action \<Rightarrow> reminder_resolution option" where
  "action_reason a = (case a of Act_snooze \<Rightarrow> None | Act_dismiss \<Rightarrow> Some Resolved_dismissed
     | Act_complete \<Rightarrow> Some Resolved_manual)"

definition nextReminder :: "reminder \<Rightarrow> store_operation \<Rightarrow> reminder" where
  "nextReminder m i =
     (let n = m\<lparr>fu_version := fu_version m + 1, fu_updatedAt := so_occurredAt i\<rparr>
      in if so_action i = Act_snooze then n\<lparr>fu_remindAt := so_remindAt i\<rparr>
         else n\<lparr>fu_state := action_state (so_action i), fu_resolutionReason := action_reason (so_action i),
            fu_resolvedAt := Some (so_occurredAt i)\<rparr>)"

definition operated_row :: "store_operation \<Rightarrow> instant \<Rightarrow> reminder_row \<Rightarrow> reminder_row" where
  "operated_row i due r =
     r\<lparr>rr_remind_at := due, rr_state := action_state (so_action i),
       rr_resolution_reason := action_reason (so_action i), rr_version := rr_version r + 1,
       rr_updated_at := so_occurredAt i,
       rr_resolved_at := (if so_action i = Act_snooze then None else Some (so_occurredAt i))\<rparr>"

definition operation_of :: "string \<Rightarrow> store_operation \<Rightarrow> reminder \<Rightarrow> operation_row" where
  "operation_of uuid i m =
     \<lparr>ro_id = ''reminder_operation_'' @ uuid, ro_owner_user_id = so_ownerUserId i,
      ro_mailbox_address = so_mailboxAddress i, ro_reminder_id = so_reminderId i,
      ro_operation_id = so_operationId i, ro_action = so_action i, ro_payload_fingerprint = so_fingerprint i,
      ro_result = m, ro_created_at = so_occurredAt i\<rparr>"

definition operable :: "store_operation \<Rightarrow> portal_db \<Rightarrow> reminder_row \<Rightarrow> bool" where
  "operable i portal r \<longleftrightarrow> rr_id r = so_reminderId i \<and> rr_owner_user_id r = so_ownerUserId i \<and>
     rr_mailbox_address r = so_mailboxAddress i \<and> rr_state r = Reminder_active \<and>
     rr_version r = so_expectedVersion i \<and> liveMailboxAccess portal (so_mailboxAddress i) (so_ownerUserId i)"

text \<open>
  The batch: the second statement runs when the first one changed one row. \<open>None\<close> is a violated key, which
  rolls both back.
\<close>

definition operation_batch ::
  "string \<Rightarrow> store_operation \<Rightarrow> instant \<Rightarrow> reminder \<Rightarrow> reminder_db \<Rightarrow> bool option \<times> reminder_db" where
  "operation_batch uuid i due next db =
     (let n = count_where (operable i (rd_portal db)) (rd_rows db);
          rows = update_where (operable i (rd_portal db)) (operated_row i due) (rd_rows db);
          op = operation_of uuid i next
      in if n \<noteq> 1 then (Some False, db\<lparr>rd_rows := rows\<rparr>)
         else if list_ex (\<lambda>p. ro_id p = ro_id op \<or>
                ro_owner_user_id p = ro_owner_user_id op \<and> ro_operation_id p = ro_operation_id op) (rd_operations db)
         then (None, db)
         else (Some True, db\<lparr>rd_rows := rows, rd_operations := rd_operations db @ [op]\<rparr>))"

datatype apply_reply =
  Reminder_applied reminder | Operation_replayed reminder | State_conflict reminder
| Apply_forbidden | Apply_not_found | Apply_key_conflict

definition replay_operation :: "store_operation \<Rightarrow> reminder_db \<Rightarrow> apply_reply option" where
  "replay_operation i db =
     map_option (\<lambda>p. if ro_payload_fingerprint p = so_fingerprint i then Operation_replayed (ro_result p)
       else Apply_key_conflict) (findOperation (so_ownerUserId i) (so_operationId i) db)"

definition applyOperation ::
  "(nat \<Rightarrow> reminder_db \<Rightarrow> reminder_db) \<Rightarrow> (string \<Rightarrow> instant option) \<Rightarrow> string \<Rightarrow> store_operation \<Rightarrow>
     reminder_db \<Rightarrow> apply_reply option \<times> reminder_db" where
  "applyOperation others dateParse uuid i db =
     (let db0 = others 0 db
      in case replay_operation i db0 of
           Some reply \<Rightarrow> (Some reply, db0)
         | None \<Rightarrow>
             let db1 = others 1 db0
             in case getScoped (so_reminderId i) (so_ownerUserId i) (so_mailboxAddress i) db1 of
                  None \<Rightarrow> (Some Apply_not_found, db1)
                | Some m \<Rightarrow>
                    if fu_state m \<noteq> Reminder_active \<or> fu_version m \<noteq> so_expectedVersion i
                    then (Some (State_conflict m), db1)
                    else
                      let next = nextReminder m i
                      in case read_stamp dateParse (if so_action i = Act_snooze then so_remindAt i else fu_remindAt m) of
                           None \<Rightarrow> (None, others 2 db1)
                         | Some due \<Rightarrow>
                             (case operation_batch uuid i due next (others 2 db1) of
                                (Some True, db2) \<Rightarrow> (Some (Reminder_applied next), db2)
                              | (_, db2) \<Rightarrow>
                                  let db3 = others 3 db2
                                  in if \<not> hasLiveAccess (so_ownerUserId i) (so_mailboxAddress i) db3
                                     then (Some Apply_forbidden, db3)
                                     else let db4 = others 4 db3
                                       in case replay_operation i db4 of
                                            Some reply \<Rightarrow> (Some reply, db4)
                                          | None \<Rightarrow>
                                              let db5 = others 5 db4
                                              in (Some (case getScoped (so_reminderId i) (so_ownerUserId i)
                                                     (so_mailboxAddress i) db5 of
                                                   Some latest \<Rightarrow> State_conflict latest
                                                 | None \<Rightarrow> Apply_not_found), db5)))"

subsection \<open>Replies that arrive\<close>

record inbound_reply =
  ir_mailboxAddress :: string
  ir_conversationKey :: string
  ir_inboundMessageId :: string
  ir_inboundMessageDate :: stamp
  ir_occurredAt :: instant

definition answered :: "(string \<Rightarrow> instant option) \<Rightarrow> inbound_reply \<Rightarrow> portal_db \<Rightarrow> reminder_row \<Rightarrow> bool" where
  "answered dateParse i portal r \<longleftrightarrow>
     rr_mailbox_address r = ir_mailboxAddress i \<and> rr_conversation_key r = ir_conversationKey i \<and>
     rr_state r = Reminder_active \<and> rr_baseline_message_id r \<noteq> ir_inboundMessageId i \<and>
     (case read_stamp dateParse (ir_inboundMessageDate i) of None \<Rightarrow> False | Some t \<Rightarrow> rr_baseline_message_date r < t) \<and>
     liveMailboxAccess portal (rr_mailbox_address r) (rr_owner_user_id r)"

definition answered_row :: "instant \<Rightarrow> reminder_row \<Rightarrow> reminder_row" where
  "answered_row at r =
     r\<lparr>rr_state := Reminder_completed, rr_resolution_reason := Some Resolved_inbound_reply,
       rr_resolved_at := Some at, rr_updated_at := at, rr_version := rr_version r + 1\<rparr>"

definition store_completeForInboundReply ::
  "(string \<Rightarrow> instant option) \<Rightarrow> inbound_reply \<Rightarrow> reminder_db \<Rightarrow> nat \<times> reminder_db" where
  "store_completeForInboundReply dateParse i db =
     (count_where (answered dateParse i (rd_portal db)) (rd_rows db),
      db\<lparr>rd_rows := update_where (answered dateParse i (rd_portal db)) (answered_row (ir_occurredAt i)) (rd_rows db)\<rparr>)"

end
