(* ===== verification/Reminder_Paging.thy ===== *)
theory Reminder_Paging
  imports Reminder_Store
begin

text \<open>
  Reading a whole list page by page, as the client does with the cursor of each answer, ends and yields the
  list once.
\<close>

subsection \<open>The cursor\<close>

lemma after_cursor_key: "after_cursor (Some c) r \<longleftrightarrow> (cu_remindAt c, cu_id c) < due_key r"
  by (auto simp: after_cursor_def due_key_def)

definition waiting_rows :: "string \<Rightarrow> string \<Rightarrow> reminder_cursor option \<Rightarrow> reminder_db \<Rightarrow> reminder_row list" where
  "waiting_rows owner mailbox cursor db =
     sort_key due_key (filter (\<lambda>r. listed owner mailbox r \<and> after_cursor cursor r) (rd_rows db))"

definition cursor_of :: "reminder_row \<Rightarrow> reminder_cursor" where
  "cursor_of r = \<lparr>cu_remindAt = rr_remind_at r, cu_id = rr_id r\<rparr>"

lemma cursor_of_key: "(cu_remindAt (cursor_of r), cu_id (cursor_of r)) = due_key r"
  by (simp add: cursor_of_def due_key_def)

lemma store_list_waiting:
  "store_list owner mailbox limit cursor db =
     (let S = waiting_rows owner mailbox cursor db
      in if length S > limit then (map fromRow (take limit S),
             if limit = 0 then None else Some (cursor_of (S ! (limit - 1))))
         else (map fromRow S, None))"
proof -
  let ?S = "waiting_rows owner mailbox cursor db"
  have "length (take (limit + 1) ?S) > limit \<longleftrightarrow> length ?S > limit" by auto
  moreover have "take limit (take (limit + 1) ?S) = take limit ?S" by (simp add: min_def)
  moreover have "last (take limit ?S) = ?S ! (limit - 1)" if "length ?S > limit" "limit \<noteq> 0"
    using that by (subst last_conv_nth) auto
  ultimately show ?thesis
    by (auto simp: store_list_def waiting_rows_def [symmetric] Let_def cursor_of_def min_def not_less)
qed

lemma page_cursor:
  assumes "store_list owner mailbox limit cursor db = (rows, Some c)"
  obtains "0 < limit" "limit < length (waiting_rows owner mailbox cursor db)"
    "c = cursor_of (waiting_rows owner mailbox cursor db ! (limit - 1))"
    "rows = map fromRow (take limit (waiting_rows owner mailbox cursor db))"
  using assms by (auto simp: store_list_waiting Let_def split: if_splits)

text \<open>The cursor of a page lies among the rows the page was read from.\<close>

lemma cursor_row:
  assumes "store_list owner mailbox limit cursor db = (rows, Some c)"
  shows "\<exists>r\<in>set (rd_rows db). listed owner mailbox r \<and> after_cursor cursor r \<and> c = cursor_of r"
  using assms
proof (rule page_cursor)
  let ?S = "waiting_rows owner mailbox cursor db"
  assume "limit < length ?S" "c = cursor_of (?S ! (limit - 1))"
  then have "?S ! (limit - 1) \<in> set ?S" by (intro nth_mem) simp
  then show ?thesis using \<open>c = _\<close> by (auto simp: waiting_rows_def)
qed

lemma after_later:
  assumes "after_cursor cursor r" and "after_cursor (Some (cursor_of r)) q"
  shows "after_cursor cursor q"
proof (cases cursor)
  case (Some c)
  then show ?thesis using assms by (auto simp: after_cursor_key cursor_of_key intro: less_trans)
qed (simp add: after_cursor_def)

definition rows_left :: "string \<Rightarrow> string \<Rightarrow> reminder_cursor option \<Rightarrow> reminder_db \<Rightarrow> nat" where
  "rows_left owner mailbox cursor db = count_where (\<lambda>r. listed owner mailbox r \<and> after_cursor cursor r) (rd_rows db)"

lemma count_where_strict:
  assumes "\<And>r. Q r \<Longrightarrow> P r" and "x \<in> set rs" and "P x" and "\<not> Q x"
  shows "count_where Q rs < count_where P rs"
proof -
  have "count_where Q rs \<le> count_where P rs" for rs
    using assms(1) by (induction rs) (auto simp: count_where_def)
  with assms(2-4) show ?thesis by (induction rs) (auto simp: count_where_def le_imp_less_Suc dest: assms(1))
qed

lemma rows_left_less:
  assumes "store_list owner mailbox limit cursor db = (rows, Some c)"
  shows "rows_left owner mailbox (Some c) db < rows_left owner mailbox cursor db"
proof -
  from cursor_row [OF assms] obtain r where r: "r \<in> set (rd_rows db)" "listed owner mailbox r" "after_cursor cursor r"
    "c = cursor_of r" by blast
  show ?thesis
    unfolding rows_left_def
    by (rule count_where_strict [OF _ r(1)]) (use r after_later in \<open>auto simp: after_cursor_key cursor_of_key\<close>)
qed

subsection \<open>All pages\<close>

function all_pages :: "string \<Rightarrow> string \<Rightarrow> nat \<Rightarrow> reminder_cursor option \<Rightarrow> reminder_db \<Rightarrow> reminder list" where
  "all_pages owner mailbox limit cursor db =
     (case store_list owner mailbox limit cursor db of
        (rows, None) \<Rightarrow> rows
      | (rows, Some c) \<Rightarrow> rows @ all_pages owner mailbox limit (Some c) db)"
  by pat_completeness auto

termination
proof (relation "measure (\<lambda>(owner, mailbox, limit, cursor, db). rows_left owner mailbox cursor db)")
  fix owner mailbox limit cursor db rows more c
  assume "(rows, more) = store_list owner mailbox limit cursor db" and "more = Some c"
  then show "((owner, mailbox, limit, Some c, db), owner, mailbox, limit, cursor, db) \<in>
      measure (\<lambda>(owner, mailbox, limit, cursor, db). rows_left owner mailbox cursor db)"
    using rows_left_less [of owner mailbox limit cursor db rows c] by simp
qed simp

declare all_pages.simps [simp del]

lemma filter_after:
  assumes "sorted (map k xs)" and "distinct (map k xs)" and "n < length xs"
  shows "filter (\<lambda>x. k (xs ! n) < k x) xs = drop (Suc n) xs"
proof -
  have "k (xs ! i) \<le> k (xs ! n)" if "i \<le> n" for i
    using assms(1,3) that sorted_nth_mono [of "map k xs" i n] by simp
  then have "filter (\<lambda>x. k (xs ! n) < k x) (take (Suc n) xs) = []"
    using assms(3) by (auto simp: filter_empty_conv in_set_conv_nth not_less less_Suc_eq_le)
  moreover have "k (xs ! n) < k (xs ! i)" if "n < i" "i < length xs" for i
  proof -
    have "k (xs ! n) \<le> k (xs ! i)" using assms(1) that sorted_nth_mono [of "map k xs" n i] by simp
    moreover have "k (xs ! n) \<noteq> k (xs ! i)"
      using assms(2,3) that nth_eq_iff_index_eq [of "map k xs" n i] by simp
    ultimately show ?thesis by simp
  qed
  then have "filter (\<lambda>x. k (xs ! n) < k x) (drop (Suc n) xs) = drop (Suc n) xs"
    by (auto simp: filter_id_conv in_set_conv_nth)
  ultimately show ?thesis
    using filter_append [of "\<lambda>x. k (xs ! n) < k x" "take (Suc n) xs" "drop (Suc n) xs"] by simp
qed

lemma waiting_after:
  assumes ids: "distinct (map rr_id (rd_rows db))" and page: "store_list owner mailbox limit cursor db = (rows, Some c)"
  shows "waiting_rows owner mailbox (Some c) db = drop limit (waiting_rows owner mailbox cursor db)"
  using page
proof (rule page_cursor)
  let ?S = "waiting_rows owner mailbox cursor db" and ?P = "\<lambda>r. listed owner mailbox r \<and> after_cursor cursor r"
  assume n: "0 < limit" "limit < length ?S" and c: "c = cursor_of (?S ! (limit - 1))"
  have "distinct (map due_key (filter ?P (rd_rows db)))"
    using distinct_map_filter [OF ids, of ?P] by (auto simp: distinct_map inj_on_def due_key_def)
  then have "distinct (map due_key ?S)"
    unfolding waiting_rows_def by (auto simp: distinct_map)
  moreover have "sorted (map due_key ?S)" by (simp add: waiting_rows_def)
  ultimately have "filter (\<lambda>r. due_key (?S ! (limit - 1)) < due_key r) ?S = drop limit ?S"
    using filter_after [of due_key ?S "limit - 1"] n by simp
  moreover have "?S ! (limit - 1) \<in> set ?S" using n by (intro nth_mem) simp
  then have "after_cursor cursor (?S ! (limit - 1))" by (simp add: waiting_rows_def)
  then have next_rows: "filter (\<lambda>r. listed owner mailbox r \<and> after_cursor (Some c) r) (rd_rows db) =
      filter (\<lambda>r. due_key (?S ! (limit - 1)) < due_key r) (filter ?P (rd_rows db))"
    using after_later unfolding c by (auto simp: after_cursor_key cursor_of_key intro!: filter_cong)
  have "waiting_rows owner mailbox (Some c) db = filter (\<lambda>r. due_key (?S ! (limit - 1)) < due_key r) ?S"
    unfolding waiting_rows_def [of owner mailbox "Some c"] next_rows
    by (simp only: filter_sort waiting_rows_def)
  ultimately show ?thesis by simp
qed

lemma all_pages_rows:
  assumes "distinct (map rr_id (rd_rows db))" and "0 < limit"
  shows "all_pages owner mailbox limit cursor db = map fromRow (waiting_rows owner mailbox cursor db)"
  using assms
proof (induction owner mailbox limit cursor db rule: all_pages.induct)
  case (1 owner mailbox limit cursor db)
  let ?S = "waiting_rows owner mailbox cursor db"
  show ?case
  proof (cases "snd (store_list owner mailbox limit cursor db)")
    case None
    then have "store_list owner mailbox limit cursor db = (map fromRow ?S, None)"
      using "1.prems"(2) by (auto simp: store_list_waiting Let_def split: if_splits)
    then show ?thesis by (simp add: all_pages.simps [of owner mailbox limit cursor])
  next
    case (Some c)
    then obtain rows where page: "store_list owner mailbox limit cursor db = (rows, Some c)" by (metis prod.collapse)
    then have "rows = map fromRow (take limit ?S)" by (rule page_cursor)
    moreover have "all_pages owner mailbox limit (Some c) db = map fromRow (drop limit ?S)"
      using "1.IH" [OF page [symmetric] refl "1.prems"] waiting_after [OF "1.prems"(1) page] by simp
    ultimately show ?thesis
      using page by (simp add: all_pages.simps [of owner mailbox limit cursor] flip: map_append)
  qed
qed

text \<open>
  C32: Reading reminders page by page ends, and yields the list: the loop that follows the cursor of each answer
  terminates (each page leaves strictly fewer rows behind its cursor), and together the pages are the user's
  active reminders of the mailbox, each once, in the order they are due.
\<close>

theorem reminder_pages_end:
  assumes "distinct (map rr_id (rd_rows db))" and "0 < limit"
  shows "all_pages owner mailbox limit None db =
    map fromRow (sort_key due_key (filter (listed owner mailbox) (rd_rows db)))"
  using all_pages_rows [OF assms, of owner mailbox None] by (simp add: waiting_rows_def after_cursor_def)

end
