(* ===== verification/Reminder_Service.thy ===== *)
theory Reminder_Service
  imports Reminder_Store Outbound_Snapshot
begin

text \<open>
  The reminder service (\<^verbatim>\<open>workers/lib/follow-up-reminders.ts\<close>) and what the worker wraps around it: input
  schemas, list cursors, access checks, anchors and previews of the mailbox, the queue of replies waiting
  to complete reminders, and the grouping the client shows (\<^verbatim>\<open>shared/follow-up-reminders.ts\<close>).
\<close>

subsection \<open>Input\<close>

datatype reminder_error =
  Rem_invalid | Rem_forbidden | Rem_not_found | Rem_active_conflict | Rem_state_conflict
| Rem_idempotency_conflict | Rem_thrown

definition bounded_text :: "nat \<Rightarrow> nat \<Rightarrow> string \<Rightarrow> string option" where
  "bounded_text lo hi s = (let t = js_trim s in if lo \<le> length t \<and> length t \<le> hi then Some t else None)"

definition boundedId :: "string \<Rightarrow> string option" where "boundedId = bounded_text 1 300"
definition operationId :: "string \<Rightarrow> string option" where "operationId = bounded_text 8 200"

definition digit :: "char \<Rightarrow> bool" where
  "digit c \<longleftrightarrow> CHR ''0'' \<le> c \<and> c \<le> CHR ''9''"

text \<open>A template: \<open>d\<close> stands for a digit, every other character for itself.\<close>

definition fits :: "string \<Rightarrow> string \<Rightarrow> bool" where
  "fits template s \<longleftrightarrow> list_all2 (\<lambda>p c. if p = CHR ''d'' then digit c else c = p) template s"

definition zone_shape :: "string \<Rightarrow> bool" where
  "zone_shape s \<longleftrightarrow> s = ''Z'' \<or> fits ''+dd:dd'' s \<or> fits ''-dd:dd'' s"

definition iso_shape :: "string \<Rightarrow> bool" where
  "iso_shape s \<longleftrightarrow> fits ''dddd-dd-ddTdd:dd:dd'' (take 19 s) \<and>
     (let rest = drop 19 s
      in zone_shape rest \<or>
         list_ex (\<lambda>n. fits (CHR ''.'' # replicate n (CHR ''d'')) (take (Suc n) rest) \<and> zone_shape (drop (Suc n) rest))
           [1, 2, 3])"

definition iso_instant :: "(string \<Rightarrow> instant option) \<Rightarrow> string \<Rightarrow> bool" where
  "iso_instant dateParse s \<longleftrightarrow> length s \<le> 40 \<and> iso_shape s \<and> dateParse s \<noteq> None"

text \<open>A text is canonical when it is the rendering of the instant it denotes.\<close>

definition to_stamp :: "(string \<Rightarrow> instant option) \<Rightarrow> string \<Rightarrow> stamp" where
  "to_stamp dateParse s =
     (case dateParse s of None \<Rightarrow> Odd s | Some t \<Rightarrow> if iso_text t = s then Canon t else Odd s)"

definition strict_object :: "string list \<Rightarrow> json \<Rightarrow> (string \<Rightarrow> json option) option" where
  "strict_object keys j =
     (case j of JObj fs \<Rightarrow> if set (map fst fs) \<subseteq> set keys then Some (map_of fs) else None | _ \<Rightarrow> None)"

definition text_field :: "(string \<Rightarrow> 'a option) \<Rightarrow> json option \<Rightarrow> 'a option" where
  "text_field f v = (case v of Some (JStr s) \<Rightarrow> f s | _ \<Rightarrow> None)"

definition instant_field :: "(string \<Rightarrow> instant option) \<Rightarrow> json option \<Rightarrow> stamp option" where
  "instant_field dateParse = text_field (\<lambda>s. if iso_instant dateParse s then Some (to_stamp dateParse s) else None)"

definition version_field :: "json option \<Rightarrow> int option" where
  "version_field v = (case v of
      Some (JNum (JInt n)) \<Rightarrow> if is_safe_integer (JInt n) \<and> 1 \<le> n then Some n else None
    | _ \<Rightarrow> None)"

text \<open>The e-mail id, the time and the idempotency key.\<close>

definition CreateReminderSchema ::
  "(string \<Rightarrow> instant option) \<Rightarrow> json \<Rightarrow> (string \<times> stamp \<times> string) option" where
  "CreateReminderSchema dateParse j = do {
     field \<leftarrow> strict_object [''emailId'', ''remindAt'', ''idempotencyKey''] j;
     emailId \<leftarrow> text_field boundedId (field ''emailId'');
     remindAt \<leftarrow> instant_field dateParse (field ''remindAt'');
     key \<leftarrow> text_field operationId (field ''idempotencyKey'');
     Some (emailId, remindAt, key) }"

text \<open>The operation id, the expected version, the action and the new time of a snooze.\<close>

definition ReminderOperationSchema ::
  "(string \<Rightarrow> instant option) \<Rightarrow> json \<Rightarrow> (string \<times> int \<times> reminder_action \<times> stamp option) option" where
  "ReminderOperationSchema dateParse j =
     (case jget ''action'' j of
        Some (JStr a) \<Rightarrow>
          if a = ''snooze'' then do {
            field \<leftarrow> strict_object [''operationId'', ''expectedVersion'', ''action'', ''remindAt''] j;
            oid \<leftarrow> text_field operationId (field ''operationId'');
            version \<leftarrow> version_field (field ''expectedVersion'');
            remindAt \<leftarrow> instant_field dateParse (field ''remindAt'');
            Some (oid, version, Act_snooze, Some remindAt) }
          else if a = ''dismiss'' \<or> a = ''complete'' then do {
            field \<leftarrow> strict_object [''operationId'', ''expectedVersion'', ''action''] j;
            oid \<leftarrow> text_field operationId (field ''operationId'');
            version \<leftarrow> version_field (field ''expectedVersion'');
            Some (oid, version, if a = ''dismiss'' then Act_dismiss else Act_complete, None) }
          else None
      | _ \<Rightarrow> None)"

subsection \<open>Times\<close>

definition days_of_civil :: "int \<Rightarrow> int \<Rightarrow> int \<Rightarrow> int" where
  "days_of_civil y m d =
     (let y' = (if m \<le> 2 then y - 1 else y);
          era = y' div 400; yoe = y' - era * 400;
          doy = (153 * (if m > 2 then m - 3 else m + 9) + 2) div 5 + d - 1;
          doe = yoe * 365 + yoe div 4 - yoe div 100 + doy
      in era * 146097 + doe - 719468)"

text \<open>\<^verbatim>\<open>setUTCFullYear\<close> with the next year: the 29th of February becomes the 1st of March.\<close>

definition oneYearHorizon :: "instant \<Rightarrow> instant" where
  "oneYearHorizon now =
     (case civil_of_days (now div 86400000) of
        (y, m, d) \<Rightarrow> days_of_civil (y + 1) m d * 86400000 + now mod 86400000)"

definition future_reminder :: "(string \<Rightarrow> instant option) \<Rightarrow> stamp \<Rightarrow> instant \<Rightarrow> bool" where
  "future_reminder dateParse remindAt now =
     (case read_stamp dateParse remindAt of None \<Rightarrow> False | Some due \<Rightarrow> now < due \<and> due \<le> oneYearHorizon now)"

subsection \<open>List cursors\<close>

text \<open>Base64 of bytes; the characters of the alphabet by number.\<close>

definition alphabet64 :: string where
  "alphabet64 = ''ABCDEFGHIJKLMNOPQRSTUVWXYZabcdefghijklmnopqrstuvwxyz0123456789+/''"

fun sextets :: "nat list \<Rightarrow> nat list" where
  "sextets [] = []"
| "sextets [a] = [a div 4, a mod 4 * 16]"
| "sextets [a, b] = [a div 4, a mod 4 * 16 + b div 16, b mod 16 * 4]"
| "sextets (a # b # c # bs) =
     a div 4 # (a mod 4 * 16 + b div 16) # (b mod 16 * 4 + c div 64) # c mod 64 # sextets bs"

definition btoa :: "nat list \<Rightarrow> string" where
  "btoa bs = map (\<lambda>n. alphabet64 ! n) (sextets bs) @ replicate ((3 - length bs mod 3) mod 3) (CHR ''='')"

fun octets :: "nat list \<Rightarrow> nat list option" where
  "octets [] = Some []"
| "octets [p] = None"
| "octets [p, q] = Some [p * 4 + q div 16]"
| "octets [p, q, r] = Some [p * 4 + q div 16, q mod 16 * 16 + r div 4]"
| "octets (p # q # r # s # ss) =
     map_option (\<lambda>bs. (p * 4 + q div 16) # (q mod 16 * 16 + r div 4) # (r mod 4 * 64 + s) # bs) (octets ss)"

fun position :: "char \<Rightarrow> string \<Rightarrow> nat option" where
  "position c [] = None"
| "position c (x # xs) = (if c = x then Some 0 else map_option Suc (position c xs))"

definition strip_padding :: "string \<Rightarrow> string" where
  "strip_padding s =
     (if length s mod 4 \<noteq> 0 then s
      else if length s \<ge> 2 \<and> drop (length s - 2) s = ''=='' then take (length s - 2) s
      else if s \<noteq> [] \<and> last s = CHR ''='' then butlast s else s)"

definition atob :: "string \<Rightarrow> nat list option" where
  "atob s = do { ns \<leftarrow> read_all (\<lambda>c. position c alphabet64) (strip_padding s); octets ns }"

definition url_char :: "char \<Rightarrow> char" where
  "url_char c = (if c = CHR ''+'' then CHR ''-'' else if c = CHR ''/'' then CHR ''_'' else c)"

definition plain_char :: "char \<Rightarrow> char" where
  "plain_char c = (if c = CHR ''-'' then CHR ''+'' else if c = CHR ''_'' then CHR ''/'' else c)"

definition cursor_char :: "char \<Rightarrow> bool" where
  "cursor_char c \<longleftrightarrow> CHR ''A'' \<le> c \<and> c \<le> CHR ''Z'' \<or> CHR ''a'' \<le> c \<and> c \<le> CHR ''z'' \<or> digit c \<or>
     c = CHR ''_'' \<or> c = CHR ''-''"

text \<open>\<open>bytesOf\<close> is \<^verbatim>\<open>JSON.stringify\<close> into UTF-8, \<open>jsonOf\<close> is \<^verbatim>\<open>JSON.parse\<close> of the decoded bytes.\<close>

definition cursor_json :: "reminder_cursor \<Rightarrow> json" where
  "cursor_json c = JObj [(''remindAt'', JNum (JInt (cu_remindAt c))), (''id'', JStr (cu_id c))]"

definition encodeListCursor :: "(json \<Rightarrow> nat list) \<Rightarrow> reminder_cursor option \<Rightarrow> string option" where
  "encodeListCursor bytesOf c =
     map_option (\<lambda>c. rev (dropWhile (\<lambda>x. x = CHR ''='') (rev (map url_char (btoa (bytesOf (cursor_json c))))))) c"

definition ReminderListCursorSchema :: "json \<Rightarrow> reminder_cursor option" where
  "ReminderListCursorSchema j = do {
     field \<leftarrow> strict_object [''remindAt'', ''id''] j;
     at \<leftarrow> (case field ''remindAt'' of
              Some (JNum (JInt n)) \<Rightarrow> if is_safe_integer (JInt n) \<and> 0 \<le> n then Some n else None
            | _ \<Rightarrow> None);
     i \<leftarrow> text_field boundedId (field ''id'');
     Some \<lparr>cu_remindAt = at, cu_id = i\<rparr> }"

definition decodeListCursor ::
  "(nat list \<Rightarrow> json option) \<Rightarrow> string option \<Rightarrow> reminder_error + reminder_cursor option" where
  "decodeListCursor jsonOf cursor =
     (case cursor of
        None \<Rightarrow> Inr None
      | Some s \<Rightarrow>
          if length s < 1 \<or> length s > 2048 \<or> \<not> list_all cursor_char s then Inl Rem_invalid
          else
            let padded = map plain_char s @ replicate ((4 - length s mod 4) mod 4) (CHR ''='')
            in case do { bytes \<leftarrow> atob padded; j \<leftarrow> jsonOf bytes; ReminderListCursorSchema j } of
                 None \<Rightarrow> Inl Rem_invalid
               | Some c \<Rightarrow> Inr (Some c))"

subsection \<open>The mailbox's part\<close>

record mail_row =
  ml_id :: string
  ml_thread_id :: "string option"
  ml_folder_id :: string
  ml_date :: "stamp option"
  ml_subject :: "string option"
  ml_sender :: "string option"
  ml_recipient :: "string option"

definition reminder_folder :: "mail_row \<Rightarrow> bool" where
  "reminder_folder m \<longleftrightarrow> ml_folder_id m \<in> {''inbox'', ''sent'', ''archive'', ''snoozed''}"

record reminder_anchor =
  an_conversationKey :: string
  an_baselineMessageId :: string
  an_baselineMessageDate :: stamp

text \<open>
  \<open>datetime\<close> is SQLite's function of that name on stored dates, in seconds; rows without one come last. The
  order is descending, so the greatest key comes first.
\<close>

definition date_key :: "(stamp \<Rightarrow> int option) \<Rightarrow> mail_row \<Rightarrow> nat \<times> int \<times> string" where
  "date_key datetime m =
     (case ml_date m of
        None \<Rightarrow> (0, 0, ml_id m)
      | Some d \<Rightarrow> (case datetime d of None \<Rightarrow> (0, 0, ml_id m) | Some x \<Rightarrow> (1, x, ml_id m)))"

definition readStoredReminderAnchor ::
  "(string \<Rightarrow> instant option) \<Rightarrow> (stamp \<Rightarrow> int option) \<Rightarrow> string \<Rightarrow> mail_row list \<Rightarrow> reminder_anchor option" where
  "readStoredReminderAnchor dateParse datetime emailId mails =
     (case find (\<lambda>m. ml_id m = emailId \<and> reminder_folder m) mails of
        None \<Rightarrow> None
      | Some selected \<Rightarrow>
          let trimmed = (case ml_thread_id selected of None \<Rightarrow> [] | Some t \<Rightarrow> js_trim t);
              key = (if trimmed = [] then ml_id selected else trimmed);
              mine = filter (\<lambda>m. (ml_thread_id m = Some key \<or> ml_id selected = key \<and> ml_id m = ml_id selected) \<and>
                 reminder_folder m) mails
          in case rev (sort_key (date_key datetime) mine) of
               [] \<Rightarrow> None
             | latest # _ \<Rightarrow>
                 (case ml_date latest of
                    None \<Rightarrow> None
                  | Some d \<Rightarrow>
                      (case (if d = Odd [] then None else read_stamp dateParse d) of
                         None \<Rightarrow> None
                       | Some t \<Rightarrow> Some \<lparr>an_conversationKey = key, an_baselineMessageId = ml_id latest,
                           an_baselineMessageDate = Canon t\<rparr>)))"

record reminder_preview =
  pw_baselineMessageId :: string
  pw_subject :: string
  pw_counterparty :: string

definition or_text :: "string \<Rightarrow> string \<Rightarrow> string" where
  "or_text s fallback = (if s = [] then fallback else s)"

definition or_empty :: "string option \<Rightarrow> string" where
  "or_empty s = (case s of None \<Rightarrow> [] | Some x \<Rightarrow> x)"

text \<open>SQLite's \<^verbatim>\<open>trim\<close> removes spaces, its \<^verbatim>\<open>lower\<close> changes the ASCII letters.\<close>

definition sql_trim :: "string \<Rightarrow> string" where
  "sql_trim s = rev (dropWhile (\<lambda>c. c = CHR '' '') (rev (dropWhile (\<lambda>c. c = CHR '' '') s)))"

definition sql_lower :: "string \<Rightarrow> string" where
  "sql_lower = map (\<lambda>c. if CHR ''A'' \<le> c \<and> c \<le> CHR ''Z'' then char_of ((of_char c :: nat) + 32) else c)"

definition preview_of :: "string \<Rightarrow> mail_row \<Rightarrow> reminder_preview" where
  "preview_of mailbox m =
     (let other = (if sql_lower (or_empty (ml_sender m)) = sql_lower mailbox then or_empty (ml_recipient m)
            else or_empty (ml_sender m))
      in \<lparr>pw_baselineMessageId = ml_id m,
          pw_subject = or_text (js_trim (take 300 (sql_trim (or_empty (ml_subject m))))) ''(No subject)'',
          pw_counterparty = or_text (js_trim (take 500 (sql_trim other))) ''Unknown correspondent''\<rparr>)"

definition readFollowUpReminderPreviews ::
  "string \<Rightarrow> string list \<Rightarrow> mail_row list \<Rightarrow> reminder_preview list option" where
  "readFollowUpReminderPreviews mailbox ids mails =
     (let uniqueIds = rev (remdups (rev ids))
      in if length mailbox < 3 \<or> length mailbox > 320 \<or> length uniqueIds > 100 \<or>
            list_ex (\<lambda>i. length i < 1 \<or> length i > 300) uniqueIds then None
         else if uniqueIds = [] then Some []
         else Some (map (preview_of mailbox)
           (take 100 (filter (\<lambda>m. ml_id m \<in> set uniqueIds \<and> reminder_folder m) mails))))"

end
