(* ===== verification/Reminder_Flow.thy ===== *)
theory Reminder_Flow
  imports Reminder_Service
begin

text \<open>
  The operations of the reminder service with their access checks before and after, the completion of
  reminders by replies and the queue behind it, and the groups the client shows.
\<close>

text \<open>
  The surroundings of one call: what other requests do before each database statement, the clock, a fresh
  id, and the calls to the mailbox. A check of access reads the user and then the mailbox.
\<close>

record reminder_env =
  re_others :: "nat \<Rightarrow> reminder_db \<Rightarrow> reminder_db"
  re_dateParse :: "string \<Rightarrow> instant option"
  re_now :: instant
  re_uuid :: string
  re_anchor :: "string \<Rightarrow> string \<Rightarrow> reminder_anchor option"
  re_previews :: "string list \<Rightarrow> string \<Rightarrow> reminder_preview list option"
  re_bytesOf :: "json \<Rightarrow> nat list"
  re_jsonOf :: "nat list \<Rightarrow> json option"

definition access_at :: "reminder_env \<Rightarrow> nat \<Rightarrow> string \<Rightarrow> string \<Rightarrow> reminder_db \<Rightarrow> bool \<times> reminder_db" where
  "access_at env n user mailbox db =
     (let db0 = re_others env n db; db1 = re_others env (Suc n) db0
      in (canAccessMailbox (rd_portal db0) (rd_portal db1) user mailbox, db1))"

definition checked_after ::
  "reminder_env \<Rightarrow> nat \<Rightarrow> string \<Rightarrow> string \<Rightarrow> (reminder_error + 'a) \<times> reminder_db \<Rightarrow> (reminder_error + 'a) \<times> reminder_db" where
  "checked_after env n user mailbox r =
     (case r of
        (Inl e, db) \<Rightarrow> (Inl e, db)
      | (Inr x, db) \<Rightarrow>
          (case access_at env n user mailbox db of
             (ok, db1) \<Rightarrow> (if ok then Inr x else Inl Rem_forbidden, db1)))"

subsection \<open>Creating\<close>

definition create_answer :: "create_reply \<Rightarrow> reminder_error + reminder" where
  "create_answer r =
     (case r of
        Reminder_created m \<Rightarrow> Inr m
      | Reminder_replayed m \<Rightarrow> Inr m
      | Create_forbidden \<Rightarrow> Inl Rem_forbidden
      | Active_conflict m \<Rightarrow> Inl Rem_active_conflict
      | Create_key_conflict \<Rightarrow> Inl Rem_idempotency_conflict)"

definition iso_stamp :: "(string \<Rightarrow> instant option) \<Rightarrow> stamp \<Rightarrow> bool" where
  "iso_stamp dateParse d \<longleftrightarrow> length (stamp_text d) \<le> 40 \<and> iso_shape (stamp_text d) \<and> read_stamp dateParse d \<noteq> None"

definition anchor_ok :: "(string \<Rightarrow> instant option) \<Rightarrow> instant \<Rightarrow> reminder_anchor \<Rightarrow> bool" where
  "anchor_ok dateParse now a \<longleftrightarrow>
     boundedId (an_conversationKey a) \<noteq> None \<and> boundedId (an_baselineMessageId a) \<noteq> None \<and>
     iso_stamp dateParse (an_baselineMessageDate a) \<and>
     (case read_stamp dateParse (an_baselineMessageDate a) of None \<Rightarrow> False | Some t \<Rightarrow> t \<le> now)"

definition new_reminder :: "reminder_env \<Rightarrow> string \<Rightarrow> string \<Rightarrow> stamp \<Rightarrow> reminder_anchor \<Rightarrow> reminder" where
  "new_reminder env user mailbox remindAt a =
     \<lparr>fu_id = ''reminder_'' @ re_uuid env, fu_ownerUserId = user, fu_mailboxAddress = mailbox,
      fu_conversationKey = an_conversationKey a, fu_baselineMessageId = an_baselineMessageId a,
      fu_baselineMessageDate = an_baselineMessageDate a, fu_remindAt = remindAt, fu_state = Reminder_active,
      fu_resolutionReason = None, fu_version = 1, fu_createdAt = re_now env, fu_updatedAt = re_now env,
      fu_resolvedAt = None\<rparr>"

definition reminder_create ::
  "reminder_env \<Rightarrow> string \<Rightarrow> string \<Rightarrow> json \<Rightarrow> reminder_db \<Rightarrow> (reminder_error + reminder) \<times> reminder_db" where
  "reminder_create env user mailboxAddress input db =
     (let mailbox = js_lower mailboxAddress; (ok, db1) = access_at env 0 user mailbox db
      in if \<not> ok then (Inl Rem_forbidden, db1)
         else case CreateReminderSchema (re_dateParse env) input of
             None \<Rightarrow> (Inl Rem_invalid, db1)
           | Some (emailId, remindAt, key) \<Rightarrow>
               if \<not> future_reminder (re_dateParse env) remindAt (re_now env) then (Inl Rem_invalid, db1)
               else
                 let print = (mailbox, emailId, remindAt); db2 = re_others env 2 db1
                 in case findCreateReplay user key print db2 of
                      Some reply \<Rightarrow> (create_answer reply, db2)
                    | None \<Rightarrow>
                        (case re_anchor env mailbox emailId of
                           None \<Rightarrow> (Inl Rem_not_found, db2)
                         | Some a \<Rightarrow>
                             if \<not> anchor_ok (re_dateParse env) (re_now env) a then (Inl Rem_invalid, db2)
                             else case createOrReplay (\<lambda>n. re_others env (n + 3)) (re_dateParse env)
                                    (new_reminder env user mailbox remindAt a) key print db2 of
                                 (None, db3) \<Rightarrow> (Inl Rem_thrown, db3)
                               | (Some reply, db3) \<Rightarrow> (create_answer reply, db3)))"

definition createReminder ::
  "reminder_env \<Rightarrow> string \<Rightarrow> string \<Rightarrow> json \<Rightarrow> reminder_db \<Rightarrow> (reminder_error + reminder) \<times> reminder_db" where
  "createReminder env user mailboxAddress input db =
     checked_after env 7 user mailboxAddress (reminder_create env user mailboxAddress input db)"

subsection \<open>Applying operations\<close>

definition mapMutation :: "apply_reply \<Rightarrow> reminder_error + reminder" where
  "mapMutation r =
     (case r of
        Reminder_applied m \<Rightarrow> Inr m
      | Operation_replayed m \<Rightarrow> Inr m
      | Apply_not_found \<Rightarrow> Inl Rem_not_found
      | Apply_forbidden \<Rightarrow> Inl Rem_forbidden
      | Apply_key_conflict \<Rightarrow> Inl Rem_idempotency_conflict
      | State_conflict m \<Rightarrow> Inl Rem_state_conflict)"

definition operation_input ::
  "string \<Rightarrow> string \<Rightarrow> string \<Rightarrow> instant \<Rightarrow> string \<times> int \<times> reminder_action \<times> stamp option \<Rightarrow> store_operation" where
  "operation_input user mailbox i now p =
     (case p of (oid, version, action, remindAt) \<Rightarrow>
        \<lparr>so_ownerUserId = user, so_mailboxAddress = mailbox, so_reminderId = i, so_operationId = oid,
         so_expectedVersion = version, so_action = action,
         so_remindAt = (case remindAt of None \<Rightarrow> Odd [] | Some s \<Rightarrow> s),
         so_fingerprint = (mailbox, i, action, version, remindAt), so_occurredAt = now\<rparr>)"

definition reminder_apply ::
  "reminder_env \<Rightarrow> string \<Rightarrow> string \<Rightarrow> string \<Rightarrow> json \<Rightarrow> reminder_db \<Rightarrow> (reminder_error + reminder) \<times> reminder_db" where
  "reminder_apply env user mailboxAddress reminderId input db =
     (let mailbox = js_lower mailboxAddress; (ok, db1) = access_at env 0 user mailbox db
      in if \<not> ok then (Inl Rem_forbidden, db1)
         else case (boundedId reminderId, ReminderOperationSchema (re_dateParse env) input) of
             (Some i, Some p) \<Rightarrow>
               (case p of (oid, version, action, remindAt) \<Rightarrow>
                  if action = Act_snooze \<and>
                     \<not> (case remindAt of None \<Rightarrow> False | Some s \<Rightarrow> future_reminder (re_dateParse env) s (re_now env))
                  then (Inl Rem_invalid, db1)
                  else case applyOperation (\<lambda>n. re_others env (n + 2)) (re_dateParse env) (re_uuid env)
                         (operation_input user mailbox i (re_now env) p) db1 of
                      (None, db2) \<Rightarrow> (Inl Rem_thrown, db2)
                    | (Some reply, db2) \<Rightarrow> (mapMutation reply, db2))
           | _ \<Rightarrow> (Inl Rem_invalid, db1))"

definition applyReminder ::
  "reminder_env \<Rightarrow> string \<Rightarrow> string \<Rightarrow> string \<Rightarrow> json \<Rightarrow> reminder_db \<Rightarrow> (reminder_error + reminder) \<times> reminder_db" where
  "applyReminder env user mailboxAddress reminderId input db =
     checked_after env 8 user mailboxAddress (reminder_apply env user mailboxAddress reminderId input db)"

subsection \<open>Listing\<close>

definition reminder_list ::
  "reminder_env \<Rightarrow> string \<Rightarrow> string \<Rightarrow> int \<Rightarrow> string option \<Rightarrow> reminder_db \<Rightarrow>
     (reminder_error + reminder list \<times> string option) \<times> reminder_db" where
  "reminder_list env user mailboxAddress limit cursor db =
     (let mailbox = js_lower mailboxAddress; (ok, db1) = access_at env 0 user mailbox db
      in if \<not> ok then (Inl Rem_forbidden, db1)
         else if limit < 1 \<or> limit > 100 then (Inl Rem_thrown, db1)
         else case decodeListCursor (re_jsonOf env) cursor of
             Inl e \<Rightarrow> (Inl e, db1)
           | Inr c \<Rightarrow>
               let db2 = re_others env 2 db1; (rows, next) = store_list user mailbox (nat limit) c db2
               in (Inr (rows, encodeListCursor (re_bytesOf env) next), db2))"

type_synonym reminder_view = "reminder \<times> (string \<times> string) option"

definition with_preview :: "reminder_preview list \<Rightarrow> reminder \<Rightarrow> reminder_view" where
  "with_preview previews m =
     (m, map_option (\<lambda>p. (pw_subject p, pw_counterparty p))
       (find (\<lambda>p. pw_baselineMessageId p = fu_baselineMessageId m) (rev previews)))"

definition listReminders ::
  "reminder_env \<Rightarrow> string \<Rightarrow> string \<Rightarrow> int \<Rightarrow> string option \<Rightarrow> reminder_db \<Rightarrow>
     (reminder_error + reminder_view list \<times> string option) \<times> reminder_db" where
  "listReminders env user mailboxAddress limit cursor db =
     checked_after env 3 user mailboxAddress
       (case reminder_list env user mailboxAddress limit cursor db of
          (Inl e, db1) \<Rightarrow> (Inl e, db1)
        | (Inr (rows, next), db1) \<Rightarrow>
            if rows = [] then (Inr ([], next), db1)
            else case re_previews env (map fu_baselineMessageId rows) (js_lower mailboxAddress) of
                None \<Rightarrow> (Inl Rem_thrown, db1)
              | Some previews \<Rightarrow> (Inr (map (with_preview previews) rows, next), db1))"

subsection \<open>Replies\<close>

definition completeForInboundReply ::
  "(string \<Rightarrow> bool) \<Rightarrow> (string \<Rightarrow> instant option) \<Rightarrow> instant \<Rightarrow> string \<Rightarrow> string \<Rightarrow> string \<Rightarrow> string \<Rightarrow>
     reminder_db \<Rightarrow> (reminder_error + nat) \<times> reminder_db" where
  "completeForInboundReply isEmail dateParse now mailboxAddress conversationKey messageId messageDate db =
     (let mailbox = js_trim mailboxAddress
      in case (boundedId conversationKey, boundedId messageId) of
           (Some key, Some i) \<Rightarrow>
             if isEmail mailbox \<and> length mailbox \<le> 320 \<and> iso_instant dateParse messageDate
             then (case store_completeForInboundReply dateParse
                      \<lparr>ir_mailboxAddress = js_lower mailbox, ir_conversationKey = key, ir_inboundMessageId = i,
                       ir_inboundMessageDate = to_stamp dateParse messageDate, ir_occurredAt = now\<rparr> db of
                     (n, db') \<Rightarrow> (Inr n, db'))
             else (Inl Rem_invalid, db)
         | _ \<Rightarrow> (Inl Rem_invalid, db))"

text \<open>The mailbox's queue of replies that still have to complete reminders.\<close>

record reply_item =
  qi_inboundMessageId :: string
  qi_mailboxAddress :: string
  qi_conversationKey :: string
  qi_inboundMessageDate :: stamp
  qi_attempts :: nat
  qi_nextAttemptAt :: instant
  qi_createdAt :: instant
  qi_lastError :: "string option"

definition item_key :: "reply_item \<Rightarrow> instant \<times> string" where
  "item_key q = (qi_nextAttemptAt q, qi_inboundMessageId q)"

definition followUpReplyRetryAt :: "instant \<Rightarrow> nat \<Rightarrow> instant" where
  "followUpReplyRetryAt now attempts = now + min (60 * 60 * 1000) (1000 * 2 ^ min attempts 12)"

definition nextDue :: "instant \<Rightarrow> reply_item list \<Rightarrow> reply_item option" where
  "nextDue now q =
     (case sort_key item_key (filter (\<lambda>x. qi_nextAttemptAt x \<le> now) q) of [] \<Rightarrow> None | x # _ \<Rightarrow> Some x)"

definition nextAttemptAt :: "reply_item list \<Rightarrow> instant option" where
  "nextAttemptAt q = (case sort_key item_key q of [] \<Rightarrow> None | x # _ \<Rightarrow> Some (qi_nextAttemptAt x))"

text \<open>\<open>complete\<close> is the attempt at completing: \<open>None\<close> when it succeeds, otherwise the error's message.\<close>

definition processOneFollowUpReplyCompletion ::
  "(reply_item \<Rightarrow> string option) \<Rightarrow> instant \<Rightarrow> reply_item list \<Rightarrow> instant option \<times> reply_item list" where
  "processOneFollowUpReplyCompletion complete now q =
     (case nextDue now q of
        None \<Rightarrow> (nextAttemptAt q, q)
      | Some x \<Rightarrow>
          let q' = (case complete x of
                None \<Rightarrow> filter (\<lambda>y. qi_inboundMessageId y \<noteq> qi_inboundMessageId x) q
              | Some message \<Rightarrow>
                  update_where (\<lambda>y. qi_inboundMessageId y = qi_inboundMessageId x)
                    (\<lambda>y. y\<lparr>qi_attempts := qi_attempts x + 1,
                       qi_nextAttemptAt := followUpReplyRetryAt now (qi_attempts x + 1),
                       qi_lastError := Some (take 500 message)\<rparr>) q)
          in (nextAttemptAt q', q'))"

definition enqueue_reply :: "reply_item \<Rightarrow> reply_item list \<Rightarrow> reply_item list" where
  "enqueue_reply x q =
     (if list_ex (\<lambda>y. qi_inboundMessageId y = qi_inboundMessageId x) q then q else q @ [x])"

subsection \<open>Groups\<close>

record reminder_groups =
  gr_today :: "reminder list"
  gr_overdue :: "reminder list"
  gr_upcoming :: "reminder list"

text \<open>\<open>idOrder\<close> is the order of \<^verbatim>\<open>localeCompare\<close> on ids, as a sort key.\<close>

definition groupFollowUpReminders ::
  "(string \<Rightarrow> instant option) \<Rightarrow> (string \<Rightarrow> nat) \<Rightarrow> reminder list \<Rightarrow> stamp \<Rightarrow> stamp \<Rightarrow> reminder_groups option" where
  "groupFollowUpReminders dateParse idOrder reminders nowText tomorrowText =
     (case (read_stamp dateParse nowText, read_stamp dateParse tomorrowText) of
        (Some now, Some tomorrow) \<Rightarrow>
          if tomorrow \<le> now then None
          else
            let due = (\<lambda>m. case read_stamp dateParse (fu_remindAt m) of None \<Rightarrow> 0 | Some t \<Rightarrow> t);
                ms = filter (\<lambda>m. fu_state m = Reminder_active \<and> read_stamp dateParse (fu_remindAt m) \<noteq> None) reminders;
                chronological = sort_key (\<lambda>m. (due m, idOrder (fu_id m)))
            in Some \<lparr>gr_today = chronological (filter (\<lambda>m. now \<le> due m \<and> due m < tomorrow) ms),
                 gr_overdue = chronological (filter (\<lambda>m. due m < now) ms),
                 gr_upcoming = chronological (filter (\<lambda>m. tomorrow \<le> due m) ms)\<rparr>
      | _ \<Rightarrow> None)"

end
