(* ===== verification/Reminder_Guarantees.thy ===== *)
theory Reminder_Guarantees
  imports Reminder_Flow Account_Guarantees
begin

text \<open>
  The reminder tables under every sequence of statements: their keys and checks, what becomes of one reminder,
  and that a command takes effect once however often it is sent.
\<close>

subsection \<open>Statements\<close>

datatype reminder_stmt =
  Rq_insert "string \<Rightarrow> instant option" reminder string create_print
| Rq_operate string store_operation instant reminder
| Rq_answer "string \<Rightarrow> instant option" inbound_reply
| Rq_portal portal_op

text \<open>Deleting a user takes its reminders and their operations along.\<close>

definition with_portal :: "portal_db \<Rightarrow> reminder_db \<Rightarrow> reminder_db" where
  "with_portal p db =
     \<lparr>rd_portal = p, rd_rows = filter (\<lambda>r. user_known (rr_owner_user_id r) p) (rd_rows db),
      rd_operations = filter (\<lambda>q. user_known (ro_owner_user_id q) p) (rd_operations db)\<rparr>"

fun run_stmt :: "reminder_stmt \<Rightarrow> reminder_db \<Rightarrow> reminder_db" where
  "run_stmt (Rq_insert dateParse m key print) db = snd (insert_reminder dateParse m key print db)"
| "run_stmt (Rq_operate uuid i due next) db = snd (operation_batch uuid i due next db)"
| "run_stmt (Rq_answer dateParse i) db = snd (store_completeForInboundReply dateParse i db)"
| "run_stmt (Rq_portal op) db = with_portal (run_op op (rd_portal db)) db"

definition run_stmts :: "reminder_stmt list \<Rightarrow> reminder_db \<Rightarrow> reminder_db" where
  "run_stmts ss db = fold run_stmt ss db"

lemma run_stmts_simps [simp]:
  "run_stmts [] db = db" "run_stmts (s # ss) db = run_stmts ss (run_stmt s db)"
  "run_stmts (ss @ ts) db = run_stmts ts (run_stmts ss db)"
  by (simp_all add: run_stmts_def)

lemma run_stmts_invariant:
  assumes "\<And>s db. s \<in> set ss \<Longrightarrow> P db \<Longrightarrow> P (run_stmt s db)" and "P db"
  shows "P (run_stmts ss db)"
  using assms by (induction ss arbitrary: db) auto

subsection \<open>Keys and checks\<close>

definition conversation_of :: "reminder_row \<Rightarrow> string \<times> string \<times> string" where
  "conversation_of r = (rr_owner_user_id r, rr_mailbox_address r, rr_conversation_key r)"

definition active_row :: "reminder_row \<Rightarrow> bool" where
  "active_row r \<longleftrightarrow> rr_state r = Reminder_active"

definition reminder_checks :: "reminder_row \<Rightarrow> bool" where
  "reminder_checks r \<longleftrightarrow> 1 \<le> rr_version r \<and>
     (rr_state r = Reminder_active \<and> rr_resolution_reason r = None \<and> rr_resolved_at r = None \<or>
      rr_state r = Reminder_completed \<and> rr_resolution_reason r \<in> {Some Resolved_manual, Some Resolved_inbound_reply} \<and>
        rr_resolved_at r \<noteq> None \<or>
      rr_state r = Reminder_dismissed \<and> rr_resolution_reason r = Some Resolved_dismissed \<and> rr_resolved_at r \<noteq> None)"

definition reminders_ok :: "reminder_db \<Rightarrow> bool" where
  "reminders_ok db \<longleftrightarrow>
     distinct (map rr_id (rd_rows db)) \<and>
     distinct (map (\<lambda>r. (rr_owner_user_id r, rr_create_idempotency_key r)) (rd_rows db)) \<and>
     distinct (map conversation_of (filter active_row (rd_rows db))) \<and>
     (\<forall>r\<in>set (rd_rows db). reminder_checks r) \<and>
     distinct (map (\<lambda>q. (ro_owner_user_id q, ro_operation_id q)) (rd_operations db)) \<and>
     (\<forall>q\<in>set (rd_operations db). \<exists>r\<in>set (rd_rows db). rr_id r = ro_reminder_id q \<and>
        rr_owner_user_id r = ro_owner_user_id q \<and> rr_mailbox_address r = ro_mailbox_address q)"

text \<open>An edit of rows: keys stay, and a row does not become active again.\<close>

definition same_reminder :: "reminder_row \<Rightarrow> reminder_row \<Rightarrow> bool" where
  "same_reminder r r' \<longleftrightarrow> rr_id r' = rr_id r \<and> rr_owner_user_id r' = rr_owner_user_id r \<and>
     rr_mailbox_address r' = rr_mailbox_address r \<and> rr_conversation_key r' = rr_conversation_key r \<and>
     rr_create_idempotency_key r' = rr_create_idempotency_key r \<and>
     rr_create_fingerprint r' = rr_create_fingerprint r \<and> rr_create_result r' = rr_create_result r \<and>
     rr_baseline_message_id r' = rr_baseline_message_id r \<and>
     rr_baseline_message_date r' = rr_baseline_message_date r \<and> rr_created_at r' = rr_created_at r"

definition stepped_row :: "reminder_row \<Rightarrow> reminder_row \<Rightarrow> bool" where
  "stepped_row r r' \<longleftrightarrow> same_reminder r r' \<and> rr_state r = Reminder_active \<and> rr_version r' = rr_version r + 1 \<and>
     (reminder_checks r \<longrightarrow> reminder_checks r')"

lemma operated_step: "operable i p r \<Longrightarrow> stepped_row r (operated_row i due r)"
  by (auto simp: stepped_row_def same_reminder_def operated_row_def operable_def reminder_checks_def action_state_def
      action_reason_def split: reminder_action.split)

lemma answered_step: "answered dp i p r \<Longrightarrow> stepped_row r (answered_row at r)"
  by (auto simp: stepped_row_def same_reminder_def answered_row_def answered_def reminder_checks_def)

lemma active_edit:
  assumes "\<And>r. P r \<Longrightarrow> stepped_row r (f r)"
  shows "set (map conversation_of (filter active_row (update_where P f rs))) \<subseteq>
      set (map conversation_of (filter active_row rs)) \<and>
    (distinct (map conversation_of (filter active_row rs)) \<longrightarrow>
      distinct (map conversation_of (filter active_row (update_where P f rs))))"
proof (induction rs)
  case (Cons r rs)
  then show ?case
    using assms [of r] by (auto simp: stepped_row_def same_reminder_def conversation_of_def active_row_def)
qed simp

lemma rows_edit_ok:
  assumes ok: "reminders_ok db" and f: "\<And>r. P r \<Longrightarrow> stepped_row r (f r)"
  shows "reminders_ok (db\<lparr>rd_rows := update_where P f (rd_rows db)\<rparr>)" (is "reminders_ok ?db")
proof -
  have same: "P r \<Longrightarrow> same_reminder r (f r)" for r using f by (simp add: stepped_row_def)
  have keys: "map rr_id (rd_rows ?db) = map rr_id (rd_rows db)"
    "map (\<lambda>r. (rr_owner_user_id r, rr_create_idempotency_key r)) (rd_rows ?db) =
       map (\<lambda>r. (rr_owner_user_id r, rr_create_idempotency_key r)) (rd_rows db)"
    using same by (simp_all add: update_where_keys same_reminder_def)
  have "\<forall>r\<in>set (rd_rows ?db). reminder_checks r"
    using ok f by (auto simp: reminders_ok_def stepped_row_def elim!: update_whereE)
  moreover have "\<exists>r\<in>set (rd_rows ?db). rr_id r = i \<and> rr_owner_user_id r = u \<and> rr_mailbox_address r = m"
    if "r \<in> set (rd_rows db)" "rr_id r = i" "rr_owner_user_id r = u" "rr_mailbox_address r = m" for r i u m
    using that same [of r] by (auto simp: set_update_where same_reminder_def)
  moreover have "distinct (map conversation_of (filter active_row (rd_rows ?db)))"
    using active_edit [of P f "rd_rows db", OF f] ok by (simp add: reminders_ok_def)
  ultimately show ?thesis using ok unfolding reminders_ok_def keys by (simp, blast)
qed

lemma insert_ok:
  assumes "reminders_ok db"
  shows "reminders_ok (snd (insert_reminder dateParse m key print db))"
proof -
  have "reminders_ok (db\<lparr>rd_rows := rd_rows db @ [r]\<rparr>)"
    if r: "row_of dateParse m key print = Some r" "\<not> fu_version m < 1" "\<not> list_ex (clashes r) (rd_rows db)" for r
  proof -
    have "rr_state r = Reminder_active" "reminder_checks r"
      using r(1,2) by (auto simp: row_of_def reminder_checks_def split: option.splits)
    then show ?thesis
      using assms r(3)
      by (auto simp: reminders_ok_def list_ex_iff clashes_def conversation_of_def active_row_def)
  qed
  then show ?thesis using assms by (auto simp: insert_reminder_def split: option.split)
qed

lemma operation_ok:
  assumes "reminders_ok db"
  shows "reminders_ok (snd (operation_batch uuid i due next db))"
proof -
  let ?P = "operable i (rd_portal db)" and ?rows = "update_where (operable i (rd_portal db)) (operated_row i due) (rd_rows db)"
  have rows: "reminders_ok (db\<lparr>rd_rows := ?rows\<rparr>)" using assms by (rule rows_edit_ok) (rule operated_step)
  have "reminders_ok (db\<lparr>rd_rows := ?rows, rd_operations := rd_operations db @ [operation_of uuid i next]\<rparr>)"
    if n: "count_where ?P (rd_rows db) = 1"
      and free: "\<not> list_ex (\<lambda>p. ro_id p = ro_id (operation_of uuid i next) \<or>
        ro_owner_user_id p = ro_owner_user_id (operation_of uuid i next) \<and>
        ro_operation_id p = ro_operation_id (operation_of uuid i next)) (rd_operations db)"
  proof -
    have "filter ?P (rd_rows db) \<noteq> []" using n by (auto simp: count_where_def)
    then obtain r where r: "r \<in> set (rd_rows db)" "?P r" by (auto simp: filter_empty_conv)
    then have "operated_row i due r \<in> set ?rows" by (auto simp: set_update_where)
    then have "\<exists>r\<in>set ?rows. rr_id r = so_reminderId i \<and> rr_owner_user_id r = so_ownerUserId i \<and>
        rr_mailbox_address r = so_mailboxAddress i"
      using r(2) by (intro bexI) (auto simp: operated_row_def operable_def)
    then show ?thesis
      using rows free by (auto simp: reminders_ok_def operation_of_def list_ex_iff)
  qed
  then show ?thesis using assms rows by (auto simp: operation_batch_def Let_def)
qed

lemma inbound_answer_ok: "reminders_ok db \<Longrightarrow> reminders_ok (snd (store_completeForInboundReply dateParse i db))"
  unfolding store_completeForInboundReply_def snd_conv by (rule rows_edit_ok) (auto intro: answered_step)

lemma with_portal_ok: "reminders_ok db \<Longrightarrow> reminders_ok (with_portal p db)"
proof -
  assume ok: "reminders_ok db"
  have swap: "filter active_row (filter Q rs) = filter Q (filter active_row rs)" for Q rs by (simp add: conj_commute)
  let ?keep = "\<lambda>r. user_known (rr_owner_user_id r) p"
  have "distinct (map conversation_of (filter active_row (filter ?keep (rd_rows db))))"
    unfolding swap by (rule distinct_map_filter) (use ok in \<open>simp add: reminders_ok_def\<close>)
  moreover have "\<exists>r\<in>set (filter ?keep (rd_rows db)). rr_id r = ro_reminder_id q \<and>
      rr_owner_user_id r = ro_owner_user_id q \<and> rr_mailbox_address r = ro_mailbox_address q"
    if "q \<in> set (rd_operations db)" "user_known (ro_owner_user_id q) p" for q
  proof -
    from ok that(1) obtain r where "r \<in> set (rd_rows db)" "rr_id r = ro_reminder_id q"
      "rr_owner_user_id r = ro_owner_user_id q" "rr_mailbox_address r = ro_mailbox_address q"
      unfolding reminders_ok_def by blast
    then show ?thesis using that(2) by (intro bexI [of _ r]) auto
  qed
  ultimately show ?thesis
    using ok unfolding reminders_ok_def with_portal_def reminder_db.simps
    by (intro conjI) (simp_all add: distinct_map_filter)
qed

lemma stmt_ok: "reminders_ok db \<Longrightarrow> reminders_ok (run_stmt s db)"
  by (cases s) (simp_all add: insert_ok operation_ok inbound_answer_ok with_portal_ok)

lemma stmts_ok: "reminders_ok db \<Longrightarrow> reminders_ok (run_stmts ss db)"
  by (rule run_stmts_invariant) (rule stmt_ok)

subsection \<open>One reminder along a run\<close>

fun inserts :: "string \<Rightarrow> reminder_stmt \<Rightarrow> bool" where
  "inserts i (Rq_insert dateParse m key print) = (fu_id m = i)"
| "inserts i _ = False"

definition later_row :: "reminder_row \<Rightarrow> reminder_row \<Rightarrow> bool" where
  "later_row r r' \<longleftrightarrow> same_reminder r r' \<and>
     (r' = r \<or> rr_state r = Reminder_active \<and> rr_version r < rr_version r')"

lemma later_refl [simp]: "later_row r r"
  by (simp add: later_row_def same_reminder_def)

lemma later_trans: "later_row r r1 \<Longrightarrow> later_row r1 r2 \<Longrightarrow> later_row r r2"
  by (auto simp: later_row_def same_reminder_def)

lemma stepped_later: "stepped_row r r' \<Longrightarrow> later_row r r'"
  by (simp add: stepped_row_def later_row_def)

lemma edited_later:
  assumes "r' \<in> set (update_where P f rs)" and "\<And>r. P r \<Longrightarrow> stepped_row r (f r)"
  shows "\<exists>r\<in>set rs. later_row r r'"
  using assms(1)
proof (cases rule: update_whereE)
  case (changed r)
  then show ?thesis using stepped_later [OF assms(2) [OF changed(2)]] by blast
next
  case kept
  then show ?thesis by (intro bexI [of _ r']) simp_all
qed

lemma stmt_later:
  assumes "r' \<in> set (rd_rows (run_stmt s db))" and "\<not> inserts (rr_id r') s"
  shows "\<exists>r\<in>set (rd_rows db). later_row r r'"
proof (cases s)
  case (Rq_insert dateParse m key print)
  then have "r' \<in> set (rd_rows db)"
    using assms by (auto simp: insert_reminder_def row_of_def split: if_splits option.splits)
  then show ?thesis by (intro bexI [of _ r']) simp_all
next
  case (Rq_operate uuid i due m)
  then have "r' \<in> set (rd_rows db) \<or> r' \<in> set (update_where (operable i (rd_portal db)) (operated_row i due) (rd_rows db))"
    using assms(1) by (auto simp: operation_batch_def Let_def split: if_splits)
  then show ?thesis
  proof
    assume "r' \<in> set (rd_rows db)"
    then show ?thesis by (intro bexI [of _ r']) simp_all
  next
    assume "r' \<in> set (update_where (operable i (rd_portal db)) (operated_row i due) (rd_rows db))"
    then show ?thesis by (rule edited_later) (rule operated_step)
  qed
next
  case (Rq_answer dateParse i)
  then have "r' \<in> set (update_where (answered dateParse i (rd_portal db)) (answered_row (ir_occurredAt i)) (rd_rows db))"
    using assms(1) by (simp add: store_completeForInboundReply_def)
  then show ?thesis by (rule edited_later) (rule answered_step)
next
  case (Rq_portal op)
  then have "r' \<in> set (rd_rows db)" using assms(1) by (simp add: with_portal_def)
  then show ?thesis by (intro bexI [of _ r']) simp_all
qed

lemma stmts_later:
  assumes "list_all (\<lambda>s. \<not> inserts (rr_id r') s) ss" and "r' \<in> set (rd_rows (run_stmts ss db))"
  shows "\<exists>r\<in>set (rd_rows db). later_row r r'"
  using assms
proof (induction ss arbitrary: db)
  case (Cons s ss)
  then obtain r1 where r1: "r1 \<in> set (rd_rows (run_stmt s db))" "later_row r1 r'" by auto
  then have "rr_id r1 = rr_id r'" by (simp add: later_row_def same_reminder_def)
  then have "\<not> inserts (rr_id r1) s" using Cons.prems(1) by simp
  from stmt_later [OF r1(1) this] obtain r where "r \<in> set (rd_rows db)" "later_row r r1" ..
  with later_trans [OF _ r1(2)] show ?case by (intro bexI)
next
  case Nil
  then show ?case by (intro bexI [of _ r']) simp_all
qed

lemma same_reminder_id: "reminders_ok db \<Longrightarrow> r \<in> set (rd_rows db) \<Longrightarrow> r' \<in> set (rd_rows db) \<Longrightarrow> rr_id r = rr_id r' \<Longrightarrow> r = r'"
  by (auto simp: reminders_ok_def distinct_map inj_on_def)

lemma row_later:
  assumes "reminders_ok db" and "r \<in> set (rd_rows db)" and "list_all (\<lambda>s. \<not> inserts (rr_id r) s) ss"
    and "r' \<in> set (rd_rows (run_stmts ss db))" and "rr_id r' = rr_id r"
  shows "later_row r r'"
proof -
  have "list_all (\<lambda>s. \<not> inserts (rr_id r') s) ss" unfolding assms(5) by (rule assms(3))
  from stmts_later [OF this assms(4)] obtain r0 where r0: "r0 \<in> set (rd_rows db)" "later_row r0 r'" ..
  have "rr_id r' = rr_id r0" using r0(2) by (simp add: later_row_def same_reminder_def)
  then have "rr_id r0 = rr_id r" using assms(5) by (rule trans [OF sym])
  from same_reminder_id [OF assms(1) r0(1) assms(2) this] have "r0 = r" .
  then show ?thesis using r0(2) by (rule subst)
qed

text \<open>Recorded operations stay as long as their owner does.\<close>

fun removes :: "string \<Rightarrow> reminder_stmt \<Rightarrow> bool" where
  "removes u (Rq_portal op) = deletes_user u op"
| "removes u _ = False"

lemma known_stays:
  assumes "\<not> deletes_user u op" and "user_known u p"
  shows "user_known u (run_op op p)"
proof -
  obtain r where r: "get_user u p = Some r" using assms(2) get_user_None [of u p] by (metis option.exhaust)
  from op_progress [OF assms(1), of p] have "\<exists>u1. get_user u (run_op op p) = Some u1"
    unfolding r progressed_def option.case by (elim exE conjE) (rule exI)
  then have "get_user u (run_op op p) \<noteq> None" by (elim exE) (erule ssubst, rule option.distinct)
  then show ?thesis using get_user_None [of u "run_op op p"] by metis
qed

lemma stmt_keeps_operation:
  assumes "\<not> removes (ro_owner_user_id q) s" and "user_known (ro_owner_user_id q) (rd_portal db)"
    and "q \<in> set (rd_operations db)"
  shows "q \<in> set (rd_operations (run_stmt s db)) \<and> user_known (ro_owner_user_id q) (rd_portal (run_stmt s db))"
proof (cases s)
  case (Rq_portal op)
  then have "\<not> deletes_user (ro_owner_user_id q) op" using assms(1) by simp
  from known_stays [OF this assms(2)] show ?thesis using Rq_portal assms(3) by (simp add: with_portal_def)
qed (use assms in \<open>auto simp: insert_reminder_def operation_batch_def store_completeForInboundReply_def Let_def
      split: option.split\<close>)

lemma stmts_keep_operation:
  assumes "list_all (\<lambda>s. \<not> removes (ro_owner_user_id q) s) ss" and "user_known (ro_owner_user_id q) (rd_portal db)"
    and "q \<in> set (rd_operations db)"
  shows "q \<in> set (rd_operations (run_stmts ss db)) \<and> user_known (ro_owner_user_id q) (rd_portal (run_stmts ss db))"
  using assms
proof (induction ss arbitrary: db)
  case (Cons s ss)
  then show ?case using stmt_keeps_operation [of q s db] by simp
qed simp

lemma replayed:
  assumes "reminders_ok db" and "q \<in> set (rd_operations db)" and "ro_owner_user_id q = so_ownerUserId i"
    and "ro_operation_id q = so_operationId i" and "ro_payload_fingerprint q = so_fingerprint i"
  shows "replay_operation i db = Some (Operation_replayed (ro_result q))"
proof -
  have "distinct (map (\<lambda>q. (ro_owner_user_id q, ro_operation_id q)) (rd_operations db))"
    using assms(1) by (simp add: reminders_ok_def)
  from find_key_distinct [OF this assms(2)] assms(3,4)
  have "findOperation (so_ownerUserId i) (so_operationId i) db = Some q" by (simp add: findOperation_def)
  then show ?thesis using assms(5) by (simp add: replay_operation_def)
qed

text \<open>Between the steps of an operation there is the run of other statements.\<close>

definition interleaved :: "(nat \<Rightarrow> reminder_stmt list) \<Rightarrow> nat \<Rightarrow> reminder_db \<Rightarrow> reminder_db" where
  "interleaved ss n db = run_stmts (ss n) db"

lemma applied_batch:
  assumes "applyOperation others dp uuid i db = (Some (Reminder_applied m), db1)"
  obtains due before where "operation_batch uuid i due m before = (Some True, db1)"
    "before = others 2 (others 1 (others 0 db))"
  using assms by (auto simp: applyOperation_def replay_operation_def Let_def split: option.splits if_splits prod.splits bool.splits)

lemma batch_recorded:
  assumes "operation_batch uuid i due m db = (Some True, db1)"
  shows "operation_of uuid i m \<in> set (rd_operations db1)" "rd_portal db1 = rd_portal db"
    "\<exists>r\<in>set (rd_rows db). operable i (rd_portal db) r \<and> operated_row i due r \<in> set (rd_rows db1)"
proof -
  have db1: "db1 = db\<lparr>rd_rows := update_where (operable i (rd_portal db)) (operated_row i due) (rd_rows db),
      rd_operations := rd_operations db @ [operation_of uuid i m]\<rparr>" and n: "count_where (operable i (rd_portal db)) (rd_rows db) = 1"
    using assms by (auto simp: operation_batch_def Let_def split: if_splits)
  show "operation_of uuid i m \<in> set (rd_operations db1)" "rd_portal db1 = rd_portal db" unfolding db1 by simp_all
  have "filter (operable i (rd_portal db)) (rd_rows db) \<noteq> []" using n by (auto simp: count_where_def)
  then obtain r where "r \<in> set (rd_rows db)" "operable i (rd_portal db) r" by (auto simp: filter_empty_conv)
  then show "\<exists>r\<in>set (rd_rows db). operable i (rd_portal db) r \<and> operated_row i due r \<in> set (rd_rows db1)"
    unfolding db1 by (intro bexI [of _ r]) (auto simp: set_update_where)
qed

lemma operable_known: "operable i p r \<Longrightarrow> user_known (so_ownerUserId i) p"
  by (auto simp: operable_def liveMailboxAccess_def user_known_def list_ex_iff)

text \<open>The account of the owner exists before and after every statement of the run.\<close>

fun owner_stays :: "string \<Rightarrow> reminder_stmt list \<Rightarrow> reminder_db \<Rightarrow> bool" where
  "owner_stays u [] db = user_known u (rd_portal db)"
| "owner_stays u (s # ss) db = (user_known u (rd_portal db) \<and> owner_stays u ss (run_stmt s db))"

lemma stmt_resolved:
  assumes "r \<in> set (rd_rows db)" and "rr_state r \<noteq> Reminder_active" and "user_known (rr_owner_user_id r) (rd_portal db)"
  shows "r \<in> set (rd_rows (run_stmt s db)) \<longleftrightarrow> user_known (rr_owner_user_id r) (rd_portal (run_stmt s db))"
proof (cases s)
  case (Rq_insert dateParse m key print)
  then show ?thesis using assms by (auto simp: insert_reminder_def split: option.split)
next
  case (Rq_operate uuid i due m)
  have "\<not> operable i p r" for p using assms(2) by (simp add: operable_def)
  then show ?thesis using Rq_operate assms by (auto simp: operation_batch_def Let_def set_update_where)
next
  case (Rq_answer dateParse i)
  have "\<not> answered dateParse i p r" for p using assms(2) by (simp add: answered_def)
  then show ?thesis using Rq_answer assms by (auto simp: store_completeForInboundReply_def set_update_where)
next
  case (Rq_portal op)
  then show ?thesis using assms(1) by (simp add: with_portal_def)
qed

lemma stmts_resolved:
  assumes "reminders_ok db" and "r \<in> set (rd_rows db)" and "rr_state r \<noteq> Reminder_active"
    and "user_known (rr_owner_user_id r) (rd_portal db)" and "list_all (\<lambda>s. \<not> inserts (rr_id r) s) ss"
  shows "r \<in> set (rd_rows (run_stmts ss db)) \<longleftrightarrow> owner_stays (rr_owner_user_id r) ss db"
  using assms
proof (induction ss arbitrary: db)
  case (Cons s ss)
  let ?db = "run_stmt s db"
  have ok: "reminders_ok ?db" using Cons.prems(1) by (rule stmt_ok)
  note stays = stmt_resolved [OF Cons.prems(2-4), of s]
  show ?case
  proof (cases "user_known (rr_owner_user_id r) (rd_portal ?db)")
    case True
    then show ?thesis using Cons.IH [OF ok _ Cons.prems(3) True] Cons.prems(4,5) stays by simp
  next
    case False
    have one: "list_all (\<lambda>s. \<not> inserts (rr_id r) s) [s]" and rest: "list_all (\<lambda>s. \<not> inserts (rr_id r) s) ss"
      using Cons.prems(5) by simp_all
    have "r \<notin> set (rd_rows (run_stmts ss ?db))"
    proof
      assume "r \<in> set (rd_rows (run_stmts ss ?db))"
      from stmts_later [OF rest this] obtain r1 where r1: "r1 \<in> set (rd_rows ?db)" "later_row r1 r" ..
      have "rr_id r1 = rr_id r" using r1(2) by (simp add: later_row_def same_reminder_def)
      moreover have "r1 \<in> set (rd_rows (run_stmts [s] db))" using r1(1) by simp
      ultimately have "later_row r r1" using row_later [OF Cons.prems(1,2) one] by blast
      then have "r1 = r" using Cons.prems(3) by (simp add: later_row_def)
      then show False using r1(1) stays False by simp
    qed
    moreover have "\<not> owner_stays (rr_owner_user_id r) ss ?db" using False by (cases ss) simp_all
    ultimately show ?thesis by simp
  qed
qed simp

text \<open>
  C33: A resolved reminder is final: once a row is completed or dismissed, no statement of any request -- creations,
  operations and replies of anyone, changes of accounts and mailboxes, in any number and order -- changes it. As
  long as the account of its owner exists the row is there, as it was, once; when the account is deleted
  along the way it goes too and does not come back. (The hypotheses say that the owner's account exists at the
  start, a foreign key of the table, and that a created reminder gets an id that is not the row's.)
\<close>

theorem resolved_reminder_is_final:
  assumes "reminders_ok db" and "r \<in> set (rd_rows db)" and "rr_state r \<noteq> Reminder_active"
    and "user_known (rr_owner_user_id r) (rd_portal db)" and "list_all (\<lambda>s. \<not> inserts (rr_id r) s) ss"
  shows "filter (\<lambda>r'. rr_id r' = rr_id r) (rd_rows (run_stmts ss db)) =
    (if owner_stays (rr_owner_user_id r) ss db then [r] else [])"
proof -
  let ?rows = "rd_rows (run_stmts ss db)"
  let ?found = "filter (\<lambda>r'. rr_id r' = rr_id r) ?rows"
  have same: "r' = r" if "r' \<in> set ?rows" "rr_id r' = rr_id r" for r'
    using row_later [OF assms(1,2,5) that] assms(3) by (simp add: later_row_def)
  have "distinct (map rr_id ?rows)" using stmts_ok [OF assms(1)] by (simp add: reminders_ok_def)
  then have "distinct ?found" by (simp add: distinct_map)
  moreover have "set ?found = (if r \<in> set ?rows then {r} else {})" using same by auto
  ultimately have "?found = (if r \<in> set ?rows then [r] else [])"
    by (cases ?found rule: list.exhaust [case_names Nil Cons])
      (auto simp del: filter_eq_Cons_iff simp: subset_singleton_iff split: if_splits)
  then show ?thesis unfolding stmts_resolved [OF assms] .
qed

text \<open>
  C31: A reminder operation takes effect once. When an operation was applied, the reminder carries its state and the
  next version; and however much later, as long as the owner's account exists, sending the same command again
  (same owner, operation id and content) answers with the recorded result and changes nothing, whatever other
  requests do before and between.
\<close>

theorem reminder_operation_applies_once:
  assumes ok: "reminders_ok db" and first: "applyOperation (interleaved ss) dp uuid i db = (Some (Reminder_applied m), db1)"
    and kept: "list_all (\<lambda>s. \<not> removes (so_ownerUserId i) s) (later @ ss' 0)"
    and again: "so_ownerUserId j = so_ownerUserId i" "so_operationId j = so_operationId i" "so_fingerprint j = so_fingerprint i"
  shows "applyOperation (interleaved ss') dp' uuid' j (run_stmts later db1) =
      (Some (Operation_replayed m), run_stmts (ss' 0) (run_stmts later db1)) \<and>
    (\<exists>r\<in>set (rd_rows db1). rr_id r = so_reminderId i \<and> rr_version r = so_expectedVersion i + 1 \<and>
      rr_state r = action_state (so_action i) \<and> rr_updated_at r = so_occurredAt i)"
proof (rule conjI)
  from first obtain due before where batch: "operation_batch uuid i due m before = (Some True, db1)"
    and before: "before = run_stmts (ss 0 @ ss 1 @ ss 2) db"
    by (rule applied_batch) (simp add: interleaved_def)
  note recorded = batch_recorded [OF batch]
  from recorded(3) obtain r where r: "operable i (rd_portal before) r" "operated_row i due r \<in> set (rd_rows db1)" by blast
  show "\<exists>r\<in>set (rd_rows db1). rr_id r = so_reminderId i \<and> rr_version r = so_expectedVersion i + 1 \<and>
      rr_state r = action_state (so_action i) \<and> rr_updated_at r = so_occurredAt i"
    by (rule bexI [OF _ r(2)]) (use r(1) in \<open>simp add: operated_row_def operable_def\<close>)
  let ?q = "operation_of uuid i m" and ?db = "run_stmts (later @ ss' 0) db1"
  have ok1: "reminders_ok db1" using operation_ok [of before uuid i due m, unfolded batch snd_conv] stmts_ok [OF ok] unfolding before by blast
  have "?q \<in> set (rd_operations ?db)"
    using stmts_keep_operation [of ?q "later @ ss' 0" db1] recorded(1,2) operable_known [OF r(1)] kept
    by (simp add: operation_of_def)
  from replayed [OF stmts_ok [OF ok1] this, of j] have "replay_operation j ?db = Some (Operation_replayed m)"
    by (simp add: operation_of_def again)
  then show "applyOperation (interleaved ss') dp' uuid' j (run_stmts later db1) =
      (Some (Operation_replayed m), run_stmts (ss' 0) (run_stmts later db1))"
    by (simp add: applyOperation_def interleaved_def)
qed

end
