(* ===== verification/Reply_Queue.thy ===== *)
theory Reply_Queue
  imports Reminder_Flow
begin

text \<open>The queue of replies under repeated wake-ups of the mailbox: every due item gets its attempt.\<close>

definition due_item :: "instant \<Rightarrow> reply_item \<Rightarrow> bool" where
  "due_item now x \<longleftrightarrow> qi_nextAttemptAt x \<le> now"

definition queue_step :: "(reply_item \<Rightarrow> string option) \<Rightarrow> instant \<Rightarrow> reply_item list \<Rightarrow> reply_item list" where
  "queue_step complete now q = snd (processOneFollowUpReplyCompletion complete now q)"

lemma retry_later: "now + 1000 \<le> followUpReplyRetryAt now n \<and> followUpReplyRetryAt now n \<le> now + 3600000"
proof -
  have "(1::int) \<le> 2 ^ min n 12" by simp
  then show ?thesis unfolding followUpReplyRetryAt_def by (auto simp: min_def)
qed

lemma nextDue_due: "nextDue now q = Some x \<Longrightarrow> x \<in> set q \<and> due_item now x"
proof -
  assume "nextDue now q = Some x"
  then obtain xs where "sort_key item_key (filter (\<lambda>x. qi_nextAttemptAt x \<le> now) q) = x # xs"
    by (auto simp: nextDue_def split: list.splits)
  then have "x \<in> set (sort_key item_key (filter (\<lambda>x. qi_nextAttemptAt x \<le> now) q))" by (simp del: set_sort)
  then show ?thesis by (simp add: due_item_def)
qed

lemma nextDue_None: "nextDue now q = None \<longleftrightarrow> filter (due_item now) q = []"
proof -
  have "nextDue now q = None \<longleftrightarrow> sort_key item_key (filter (due_item now) q) = []"
    by (simp add: nextDue_def due_item_def [abs_def] split: list.split)
  also have "\<dots> \<longleftrightarrow> length (sort_key item_key (filter (due_item now) q)) = 0" by (simp only: length_0_conv)
  finally show ?thesis by (simp only: length_sort length_0_conv)
qed

text \<open>What is left of an item after its attempt.\<close>

definition finished :: "(reply_item \<Rightarrow> string option) \<Rightarrow> instant \<Rightarrow> reply_item \<Rightarrow> bool" where
  "finished complete now x \<longleftrightarrow> due_item now x \<and> complete x = None"

lemma other_items:
  assumes "distinct (map qi_inboundMessageId q)" and "x \<in> set q" and "y \<in> set q"
  shows "qi_inboundMessageId y = qi_inboundMessageId x \<longleftrightarrow> y = x"
  using assms by (auto simp: distinct_map inj_on_def)

lemma queue_step_item:
  assumes d: "distinct (map qi_inboundMessageId q)" and x: "nextDue now q = Some x"
  shows "queue_step complete now q =
    (if complete x = None then filter (\<lambda>y. y \<noteq> x) q
     else map (\<lambda>y. if y = x then y\<lparr>qi_attempts := qi_attempts x + 1,
         qi_nextAttemptAt := followUpReplyRetryAt now (qi_attempts x + 1),
         qi_lastError := Some (take 500 (the (complete x)))\<rparr> else y) q)"
proof -
  have same: "y \<in> set q \<Longrightarrow> qi_inboundMessageId y = qi_inboundMessageId x \<longleftrightarrow> y = x" for y
    using other_items [OF d] nextDue_due [OF x] by blast
  then have "filter (\<lambda>y. qi_inboundMessageId y \<noteq> qi_inboundMessageId x) q = filter (\<lambda>y. y \<noteq> x) q"
    by (intro filter_cong) simp_all
  then show ?thesis
    using same by (auto simp: queue_step_def processOneFollowUpReplyCompletion_def x Let_def update_where_def
        split: option.split)
qed

definition retried :: "(reply_item \<Rightarrow> string option) \<Rightarrow> instant \<Rightarrow> reply_item \<Rightarrow> reply_item" where
  "retried complete now x =
     x\<lparr>qi_attempts := qi_attempts x + 1, qi_nextAttemptAt := followUpReplyRetryAt now (qi_attempts x + 1),
       qi_lastError := Some (take 500 (the (complete x)))\<rparr>"

lemma retried_fields: "qi_inboundMessageId (retried complete now x) = qi_inboundMessageId x"
  "\<not> due_item now (retried complete now x)"
  using retry_later [of now "qi_attempts x + 1"] by (simp_all add: retried_def due_item_def)

lemma queue_step_map:
  assumes "distinct (map qi_inboundMessageId q)" and "nextDue now q = Some x"
  shows "queue_step complete now q =
    (if complete x = None then filter (\<lambda>y. y \<noteq> x) q else map (\<lambda>y. if y = x then retried complete now x else y) q)"
  unfolding queue_step_item [OF assms] retried_def by (auto intro!: map_cong)

lemma queue_step_effects:
  assumes d: "distinct (map qi_inboundMessageId q)" and x: "nextDue now q = Some x"
  shows "distinct (map qi_inboundMessageId (queue_step complete now q))"
    and "filter (due_item now) (queue_step complete now q) = filter (\<lambda>y. y \<noteq> x) (filter (due_item now) q)"
    and "map qi_inboundMessageId (filter (\<lambda>y. \<not> finished complete now y) (queue_step complete now q)) =
      map qi_inboundMessageId (filter (\<lambda>y. \<not> finished complete now y) q)"
proof -
  let ?f = "\<lambda>y. if y = x then retried complete now x else y"
  have ids: "map qi_inboundMessageId (map ?f q) = map qi_inboundMessageId q" by (simp add: retried_fields)
  have due: "due_item now x" using nextDue_due [OF x] by simp
  show "distinct (map qi_inboundMessageId (queue_step complete now q))"
    unfolding queue_step_map [OF d x] if_distrib [of "map qi_inboundMessageId"] ids
    using d by (simp add: distinct_map_filter)
  have "filter (due_item now) (map ?f q) = map ?f (filter (\<lambda>y. due_item now y \<and> y \<noteq> x) q)"
    by (induction q) (simp_all add: retried_fields)
  also have "\<dots> = map id (filter (\<lambda>y. due_item now y \<and> y \<noteq> x) q)" by (rule map_cong) auto
  finally show "filter (due_item now) (queue_step complete now q) = filter (\<lambda>y. y \<noteq> x) (filter (due_item now) q)"
    unfolding queue_step_map [OF d x] by (auto simp: conj_commute)
  show "map qi_inboundMessageId (filter (\<lambda>y. \<not> finished complete now y) (queue_step complete now q)) =
      map qi_inboundMessageId (filter (\<lambda>y. \<not> finished complete now y) q)"
  proof (cases "complete x = None")
    case True
    then have "filter (\<lambda>y. \<not> finished complete now y) (filter (\<lambda>y. y \<noteq> x) q) = filter (\<lambda>y. \<not> finished complete now y) q"
      using due unfolding filter_filter by (intro filter_cong) (auto simp: finished_def)
    then show ?thesis unfolding queue_step_map [OF d x] by (simp only: True simp_thms if_True)
  next
    case False
    then have "\<not> finished complete now (?f y) \<longleftrightarrow> \<not> finished complete now y" for y
      by (simp add: finished_def retried_fields)
    then have "filter (\<lambda>y. \<not> finished complete now y) (map ?f q) = map ?f (filter (\<lambda>y. \<not> finished complete now y) q)"
      by (simp only: filter_map comp_def)
    then show ?thesis
      unfolding queue_step_map [OF d x] if_not_P [OF False] by (simp add: retried_fields)
  qed
qed

lemma distinct_remove1_filter: "distinct xs \<Longrightarrow> filter (\<lambda>y. y \<noteq> x) xs = remove1 x xs"
  by (simp add: distinct_remove1_removeAll removeAll_filter_not_eq eq_commute)

lemma queue_step_shorter:
  assumes "distinct (map qi_inboundMessageId q)" and "nextDue now q = Some x"
  shows "length (filter (due_item now) q) = Suc (length (filter (due_item now) (queue_step complete now q)))"
proof -
  have x: "x \<in> set (filter (due_item now) q)" using nextDue_due [OF assms(2)] by simp
  have "distinct (filter (due_item now) q)" using assms(1) by (simp add: distinct_map)
  then have "length (filter (\<lambda>y. y \<noteq> x) (filter (due_item now) q)) = length (filter (due_item now) q) - 1"
    using x by (simp only: distinct_remove1_filter length_remove1 if_True)
  moreover have "0 < length (filter (due_item now) q)" using x by (rule length_pos_if_in_set)
  ultimately show ?thesis unfolding queue_step_effects(2) [OF assms] by simp
qed

lemma drained:
  assumes "distinct (map qi_inboundMessageId q)" and "length (filter (due_item now) q) = n"
  shows "filter (due_item now) ((queue_step complete now ^^ n) q) = [] \<and>
    map qi_inboundMessageId ((queue_step complete now ^^ n) q) =
    map qi_inboundMessageId (filter (\<lambda>x. \<not> finished complete now x) q)"
  using assms
proof (induction n arbitrary: q)
  case 0
  then have "filter (\<lambda>x. \<not> finished complete now x) q = q"
    by (auto simp: filter_id_conv filter_empty_conv finished_def)
  then show ?case using "0.prems" by simp
next
  case (Suc n)
  then obtain x where x: "nextDue now q = Some x" using nextDue_None [of now q] by fastforce
  have "length (filter (due_item now) (queue_step complete now q)) = n"
    using queue_step_shorter [OF Suc.prems(1) x, of complete] Suc.prems(2) by simp
  from Suc.IH [OF queue_step_effects(1) [OF Suc.prems(1) x] this] show ?case
    unfolding queue_step_effects(3) [OF Suc.prems(1) x] funpow_Suc_right comp_def .
qed

text \<open>
  C34: Replies are not forgotten: if the mailbox wakes once per due item, every due item has had its attempt, none is
  left due, the items whose attempt succeeded are gone and all others are still queued, in their order.
\<close>

theorem reply_queue_drains:
  assumes "distinct (map qi_inboundMessageId q)"
  shows "let q' = (queue_step complete now ^^ length (filter (due_item now) q)) q
    in (\<forall>x\<in>set q'. now < qi_nextAttemptAt x) \<and>
       map qi_inboundMessageId q' = map qi_inboundMessageId (filter (\<lambda>x. \<not> (due_item now x \<and> complete x = None)) q)"
  using drained [OF assms refl, of now complete] unfolding finished_def Let_def
  by (auto simp: filter_empty_conv due_item_def not_le)

end
