(* ===== verification/Reminder_Witnesses.thy ===== *)
theory Reminder_Witnesses
  imports Reminder_Paging Reminder_Guarantees Reply_Queue Access_Witnesses
begin

text \<open>Concrete runs on which the hypotheses of the reminder properties hold.\<close>

definition sample_reminder :: "string \<Rightarrow> string \<Rightarrow> instant \<Rightarrow> reminder" where
  "sample_reminder i conversation due =
     \<lparr>fu_id = i, fu_ownerUserId = ''u'', fu_mailboxAddress = ''team@x'', fu_conversationKey = conversation,
      fu_baselineMessageId = ''b'', fu_baselineMessageDate = Canon 1, fu_remindAt = Canon due,
      fu_state = Reminder_active, fu_resolutionReason = None, fu_version = 1, fu_createdAt = 2, fu_updatedAt = 2,
      fu_resolvedAt = None\<rparr>"

definition sample_row :: "string \<Rightarrow> string \<Rightarrow> instant \<Rightarrow> reminder_state \<Rightarrow> reminder_row" where
  "sample_row i conversation due state =
     \<lparr>rr_id = i, rr_owner_user_id = ''u'', rr_mailbox_address = ''team@x'', rr_conversation_key = conversation,
      rr_baseline_message_id = ''b'', rr_baseline_message_date = 1, rr_remind_at = due, rr_state = state,
      rr_resolution_reason = (if state = Reminder_active then None else Some Resolved_manual),
      rr_create_idempotency_key = i, rr_create_fingerprint = (''team@x'', ''b'', Canon due),
      rr_create_result = sample_reminder i conversation due, rr_version = 1, rr_created_at = 2, rr_updated_at = 2,
      rr_resolved_at = (if state = Reminder_active then None else Some 3)\<rparr>"

text \<open>Two active reminders and a completed one.\<close>

definition sample_reminders :: reminder_db where
  "sample_reminders =
     \<lparr>rd_portal = sample_portal,
      rd_rows = [sample_row ''r2'' ''k2'' 50 Reminder_active, sample_row ''r1'' ''k1'' 40 Reminder_active,
        sample_row ''r3'' ''k1'' 30 Reminder_completed],
      rd_operations = []\<rparr>"

lemma sample_reminders_ok: "reminders_ok sample_reminders"
  by (simp add: reminders_ok_def sample_reminders_def sample_row_def reminder_checks_def active_row_def conversation_of_def)

lemma reminder_pages_end_witness:
  "all_pages ''u'' ''team@x'' 1 None sample_reminders =
     map fromRow [sample_row ''r1'' ''k1'' 40 Reminder_active, sample_row ''r2'' ''k2'' 50 Reminder_active]"
proof -
  have "distinct (map rr_id (rd_rows sample_reminders))" by code_simp
  from reminder_pages_end [OF this, of 1 "''u''" "''team@x''"] show ?thesis
    by (simp add: sample_reminders_def sample_row_def listed_def due_key_def)
qed

definition sample_reply :: inbound_reply where
  "sample_reply = \<lparr>ir_mailboxAddress = ''team@x'', ir_conversationKey = ''k1'', ir_inboundMessageId = ''n'',
     ir_inboundMessageDate = Canon 45, ir_occurredAt = 46\<rparr>"

abbreviation sample_run :: "reminder_stmt list" where
  "sample_run \<equiv> [Rq_answer (\<lambda>_. None) sample_reply, Rq_portal (Op_set_mailbox ''team@x'' False 47)]"

lemma resolved_reminder_is_final_witness:
  "filter (\<lambda>r'. rr_id r' = ''r3'') (rd_rows (run_stmts sample_run sample_reminders)) =
     [sample_row ''r3'' ''k1'' 30 Reminder_completed]"
proof -
  let ?r = "sample_row ''r3'' ''k1'' 30 Reminder_completed"
  have r: "?r \<in> set (rd_rows sample_reminders)" by (simp add: sample_reminders_def)
  have state: "rr_state ?r \<noteq> Reminder_active" by (simp add: sample_row_def)
  have known: "user_known (rr_owner_user_id ?r) (rd_portal sample_reminders)" by code_simp
  have fresh: "list_all (\<lambda>s. \<not> inserts (rr_id ?r) s) sample_run" by simp
  have stays: "owner_stays (rr_owner_user_id ?r) sample_run sample_reminders" by code_simp
  have i: "rr_id ?r = ''r3''" by (simp add: sample_row_def)
  show ?thesis
    using resolved_reminder_is_final [OF sample_reminders_ok r state known fresh] stays unfolding i by simp
qed

definition sample_operation :: store_operation where
  "sample_operation =
     \<lparr>so_ownerUserId = ''u'', so_mailboxAddress = ''team@x'', so_reminderId = ''r1'', so_operationId = ''op'',
      so_expectedVersion = 1, so_action = Act_snooze, so_remindAt = Canon 90,
      so_fingerprint = (''team@x'', ''r1'', Act_snooze, 1, Some (Canon 90)), so_occurredAt = 60\<rparr>"

definition sample_answer :: reminder where
  "sample_answer = nextReminder (fromRow (sample_row ''r1'' ''k1'' 40 Reminder_active)) sample_operation"

lemma reminder_operation_applies_once_witness:
  "let db1 = snd (applyOperation (interleaved (\<lambda>_. [])) (\<lambda>_. None) ''1'' sample_operation sample_reminders);
       later = [Rq_answer (\<lambda>_. None) sample_reply]
   in applyOperation (interleaved (\<lambda>_. [])) (\<lambda>_. None) ''2'' sample_operation (run_stmts later db1) =
        (Some (Operation_replayed sample_answer), run_stmts [] (run_stmts later db1)) \<and>
      (\<exists>r\<in>set (rd_rows db1). rr_id r = ''r1'' \<and> rr_version r = 2 \<and> rr_state r = Reminder_active \<and> rr_updated_at r = 60)"
proof -
  let ?run = "applyOperation (interleaved (\<lambda>_. [])) (\<lambda>_. None) ''1'' sample_operation sample_reminders"
  have "fst ?run = Some (Reminder_applied sample_answer)" by code_simp
  then have run: "?run = (Some (Reminder_applied sample_answer), snd ?run)" by (simp add: prod_eq_iff)
  have fields: "so_reminderId sample_operation = ''r1''" "so_expectedVersion sample_operation + 1 = 2"
    "action_state (so_action sample_operation) = Reminder_active" "so_occurredAt sample_operation = 60"
    by (simp_all add: sample_operation_def action_state_def)
  show ?thesis
    unfolding Let_def fields [symmetric]
    by (rule reminder_operation_applies_once [OF sample_reminders_ok run, where ss' = "\<lambda>_. []"]) simp_all
qed

definition sample_item :: "string \<Rightarrow> instant \<Rightarrow> reply_item" where
  "sample_item i at =
     \<lparr>qi_inboundMessageId = i, qi_mailboxAddress = ''team@x'', qi_conversationKey = ''k1'',
      qi_inboundMessageDate = Canon 45, qi_attempts = 0, qi_nextAttemptAt = at, qi_createdAt = 1, qi_lastError = None\<rparr>"

text \<open>Of two due items one succeeds; a third one is not due yet.\<close>

lemma reply_queue_drains_witness:
  "let q = [sample_item ''n1'' 20, sample_item ''n2'' 10, sample_item ''n3'' 90];
       complete = (\<lambda>x. if qi_inboundMessageId x = ''n1'' then Some ''no network'' else None);
       q' = (queue_step complete 50 ^^ 2) q
   in (\<forall>x\<in>set q'. 50 < qi_nextAttemptAt x) \<and> map qi_inboundMessageId q' = [''n1'', ''n3'']"
proof -
  let ?q = "[sample_item ''n1'' 20, sample_item ''n2'' 10, sample_item ''n3'' 90]"
  have "distinct (map qi_inboundMessageId ?q)" by code_simp
  from reply_queue_drains [OF this, of 50 "\<lambda>x. if qi_inboundMessageId x = ''n1'' then Some ''no network'' else None"]
  show ?thesis by (simp add: Let_def sample_item_def due_item_def numeral_2_eq_2)
qed

end
