(* ===== verification/Mail_Tables.thy ===== *)
theory Mail_Tables
  imports Reminder_Flow
begin

text \<open>
  The part of a mailbox's database that says where its mail is: folders, messages, the deliveries that refer to
  them, the queue of conversations to wake, and the activity log (\<^verbatim>\<open>workers/db/schema.ts\<close>), with the lookups the
  mailbox's operations share (\<^verbatim>\<open>workers/durableObject/index.ts\<close>). A list of rows stands in the order SQLite visits
  them. The random id of an activity is left out.
\<close>

record folder_row =
  fo_id :: string
  fo_name :: string
  fo_is_deletable :: bool

record message_row =
  ms_id :: string
  ms_folder_id :: string
  ms_subject :: "string option"
  ms_thread_id :: "string option"
  ms_date :: "stamp option"
  ms_read :: "bool option"
  ms_starred :: "bool option"
  ms_previous_folder_id :: "string option"
  ms_trashed_at :: "stamp option"
  ms_snooze_source_folder_id :: "string option"
  ms_snoozed_until :: "stamp option"

record outbound_ref =
  ob_id :: string
  ob_email_id :: string
  ob_status :: delivery_status

record wake_row =
  wq_thread_id :: string
  wq_requested_at :: stamp

text \<open>Kind and id of who acted.\<close>

type_synonym mail_actor = "string \<times> string option"

record activity_event =
  ae_actor :: mail_actor
  ae_action :: string
  ae_entity_type :: string
  ae_entity_id :: string
  ae_metadata :: "(string \<times> json) list"
  ae_occurred_at :: stamp

datatype resource_kind = Folder_resource | Label_resource
datatype operation_state = Operation_active | Operation_superseded | Operation_unavailable

record resource_operation =
  rs_operation_key :: string
  rs_resource_kind :: resource_kind
  rs_fingerprint :: string
  rs_resource_id :: string
  rs_state :: operation_state
  rs_updated_at :: stamp

record mailbox_db =
  bx_folders :: "folder_row list"
  bx_messages :: "message_row list"
  bx_outbound :: "outbound_ref list"
  bx_wakes :: "wake_row list"
  bx_replies :: "reply_item list"
  bx_operations :: "resource_operation list"
  bx_activity :: "activity_event list"
  bx_alarm :: "instant option"

definition internal_folder :: "string \<Rightarrow> bool" where
  "internal_folder i \<longleftrightarrow> isInternalFolderId (Some i)"

definition recordActivity ::
  "mail_actor \<Rightarrow> string \<Rightarrow> string \<Rightarrow> string \<Rightarrow> (string \<times> json) list \<Rightarrow> instant \<Rightarrow> mailbox_db \<Rightarrow> mailbox_db" where
  "recordActivity actor action entityType entityId metadata at db =
     db\<lparr>bx_activity := bx_activity db @ [\<lparr>ae_actor = actor, ae_action = action, ae_entity_type = entityType,
       ae_entity_id = entityId, ae_metadata = metadata, ae_occurred_at = Canon at\<rparr>]\<rparr>"

definition folder_exists :: "string \<Rightarrow> mailbox_db \<Rightarrow> bool" where
  "folder_exists i db \<longleftrightarrow> list_ex (\<lambda>f. fo_id f = i) (bx_folders db)"

definition find_message :: "string \<Rightarrow> mailbox_db \<Rightarrow> message_row option" where
  "find_message i db = find (\<lambda>m. ms_id m = i) (bx_messages db)"

definition edit_messages :: "(message_row \<Rightarrow> bool) \<Rightarrow> (message_row \<Rightarrow> message_row) \<Rightarrow> mailbox_db \<Rightarrow> mailbox_db" where
  "edit_messages P f db = db\<lparr>bx_messages := update_where P f (bx_messages db)\<rparr>"

text \<open>
  \<^verbatim>\<open>WHERE id = ? OR name = ? LIMIT 1\<close>: both columns are keys, and SQLite follows the two indexes in the order of
  the terms, so a folder of that id comes before one of that name.
\<close>

definition visibleFolderId :: "string \<Rightarrow> mailbox_db \<Rightarrow> string option" where
  "visibleFolderId reference db =
     (let found = (case find (\<lambda>f. fo_id f = reference) (bx_folders db) of
            Some f \<Rightarrow> Some f
          | None \<Rightarrow> find (\<lambda>f. fo_name f = reference) (bx_folders db))
      in case found of None \<Rightarrow> None | Some f \<Rightarrow> if internal_folder (fo_id f) then None else Some (fo_id f))"

subsection \<open>Conversations\<close>

text \<open>\<^verbatim>\<open>REPLACE\<close> with the empty text, and the subject without the usual reply prefixes.\<close>

fun sql_remove :: "string \<Rightarrow> string \<Rightarrow> string" where
  "sql_remove p [] = []"
| "sql_remove p (c # s) =
     (if p \<noteq> [] \<and> take (length p) (c # s) = p then sql_remove p (drop (length p - 1) s) else c # sql_remove p s)"

definition reply_prefixes :: "string list" where
  "reply_prefixes = [''aw: '', ''wg: '', [CHR ''r'', CHR 0xE9, CHR ''f'', CHR '':'', CHR '' ''], ''sv: '', ''re: '',
     ''fwd: '', ''fw: '']"

definition normalized_subject :: "string option \<Rightarrow> string option" where
  "normalized_subject s = map_option (\<lambda>s. sql_lower (sql_trim (fold sql_remove reply_prefixes (sql_lower s)))) s"

definition raw_thread_id :: "message_row \<Rightarrow> string" where
  "raw_thread_id m = (case ms_thread_id m of None \<Rightarrow> ms_id m | Some t \<Rightarrow> t)"

text \<open>The groups of the folder's mail; the conversation of a group is its raw thread id.\<close>

definition thread_groups :: "message_row list \<Rightarrow> (string \<times> string option \<times> string option) list" where
  "thread_groups ms = remdups (map (\<lambda>m. (raw_thread_id m, normalized_subject (ms_subject m), ms_thread_id m)) ms)"

definition CONVERSATION_ID :: "string \<times> string option \<times> string option \<Rightarrow> string" where
  "CONVERSATION_ID g = fst g"

text \<open>A message is listed once for every group of its thread; the outer join keeps one without a group.\<close>

definition conversationScope :: "string \<Rightarrow> string \<Rightarrow> mailbox_db \<Rightarrow> (string \<times> string list) option" where
  "conversationScope conversationId folderId db =
     (case visibleFolderId folderId db of
        None \<Rightarrow> None
      | Some f \<Rightarrow>
          let folder_emails = filter (\<lambda>m. ms_folder_id m = f) (bx_messages db);
              groups = thread_groups folder_emails;
              joined = concat (map (\<lambda>m. case filter (\<lambda>g. fst g = raw_thread_id m) groups of
                  [] \<Rightarrow> [(m, raw_thread_id m)]
                | gs \<Rightarrow> map (\<lambda>g. (m, CONVERSATION_ID g)) gs) folder_emails)
          in Some (f, map (\<lambda>(m, c). ms_id m) (filter (\<lambda>(m, c). c = conversationId) joined)))"

subsection \<open>Mail that is being sent\<close>

definition sending_soon :: "delivery_status \<Rightarrow> bool" where
  "sending_soon s \<longleftrightarrow> s \<in> {Queued, Sending, Retrying}"

definition hasActiveOutbound :: "string list \<Rightarrow> mailbox_db \<Rightarrow> bool" where
  "hasActiveOutbound ids db \<longleftrightarrow> list_ex (\<lambda>d. ob_email_id d \<in> set ids \<and> sending_soon (ob_status d)) (bx_outbound db)"

definition outboundDeliveryBlocksGenericLifecycle :: "delivery_status \<Rightarrow> bool" where
  "outboundDeliveryBlocksGenericLifecycle s \<longleftrightarrow> s = Queued \<or> s = Sending \<or> s = Retrying \<or> s = Cancelled"

definition activeOutboundDeliveryForEmail :: "string \<Rightarrow> mailbox_db \<Rightarrow> outbound_ref option" where
  "activeOutboundDeliveryForEmail emailId db =
     (case find (\<lambda>d. ob_email_id d = emailId) (bx_outbound db) of
        None \<Rightarrow> None
      | Some d \<Rightarrow> if outboundDeliveryBlocksGenericLifecycle (ob_status d) then Some d else None)"

end
