(* ===== verification/Mail_Snooze.thy ===== *)
theory Mail_Snooze
  imports Mail_Tables
begin

text \<open>
  Snoozing: the requests and plans of \<^verbatim>\<open>workers/lib/snooze.ts\<close>, the two commands of
  \<^verbatim>\<open>workers/durableObject/snooze-state.ts\<close> over the repository the mailbox gives them, and the wake-ups of the
  mailbox (\<^verbatim>\<open>workers/durableObject/index.ts\<close>). Each command is one transaction.
\<close>

subsection \<open>Requests\<close>

datatype snooze_scope = Scope_message string | Scope_conversation string string string

fun scope_email :: "snooze_scope \<Rightarrow> string" where
  "scope_email (Scope_message e) = e"
| "scope_email (Scope_conversation c e f) = e"

definition snooze_id :: "string \<Rightarrow> string option" where "snooze_id = bounded_text 1 256"

definition SnoozeScopeSchema :: "json \<Rightarrow> snooze_scope option" where
  "SnoozeScopeSchema j =
     (case jget ''kind'' j of
        Some (JStr k) \<Rightarrow>
          if k = ''message'' then do {
            field \<leftarrow> strict_object [''kind'', ''emailId''] j;
            e \<leftarrow> text_field snooze_id (field ''emailId'');
            Some (Scope_message e) }
          else if k = ''conversation'' then do {
            field \<leftarrow> strict_object [''kind'', ''conversationId'', ''emailId'', ''folderId''] j;
            c \<leftarrow> text_field snooze_id (field ''conversationId'');
            e \<leftarrow> text_field snooze_id (field ''emailId'');
            f \<leftarrow> text_field (bounded_text 1 128) (field ''folderId'');
            Some (Scope_conversation c e f) }
          else None
      | _ \<Rightarrow> None)"

definition MIN_SNOOZE_DELAY_MS :: int where "MIN_SNOOZE_DELAY_MS = 60000"
definition MAX_SNOOZE_DELAY_MS :: int where "MAX_SNOOZE_DELAY_MS = 365 * 24 * 60 * 60 * 1000"
definition MAX_SNOOZE_TARGETS :: nat where "MAX_SNOOZE_TARGETS = 100"

definition normalizeSnoozeRequest ::
  "(string \<Rightarrow> instant option) \<Rightarrow> instant \<Rightarrow> json \<Rightarrow> (snooze_scope \<times> instant) option" where
  "normalizeSnoozeRequest dateParse now j = do {
     field \<leftarrow> strict_object [''scope'', ''wakeAt''] j;
     scopeJson \<leftarrow> field ''scope'';
     scope \<leftarrow> SnoozeScopeSchema scopeJson;
     wakeAt \<leftarrow> text_field (\<lambda>s. if length s \<le> 40 then Some s else None) (field ''wakeAt'');
     timestamp \<leftarrow> dateParse wakeAt;
     if timestamp < now + MIN_SNOOZE_DELAY_MS \<or> timestamp > now + MAX_SNOOZE_DELAY_MS then None
     else Some (scope, timestamp) }"

subsection \<open>Folders\<close>

definition BLOCKED_SOURCE_FOLDERS :: "string set" where
  "BLOCKED_SOURCE_FOLDERS = {SNOOZED, SENT, DRAFT, OUTBOX, TRASH, SPAM, RETIRED_OUTBOUND}"

definition isSnoozeSourceFolder :: "string option \<Rightarrow> bool" where
  "isSnoozeSourceFolder folderId \<longleftrightarrow>
     (case folderId of None \<Rightarrow> False | Some f \<Rightarrow> f \<noteq> [] \<and> hd f \<noteq> CHR ''_'' \<and> f \<notin> BLOCKED_SOURCE_FOLDERS)"

definition resolveUnsnoozeFolder :: "string option \<Rightarrow> bool \<Rightarrow> string" where
  "resolveUnsnoozeFolder sourceFolderId sourceFolderExists =
     (if sourceFolderExists \<and> isSnoozeSourceFolder sourceFolderId then the sourceFolderId else INBOX)"

definition snoozeBlocksGenericMove :: "message_row \<Rightarrow> bool" where
  "snoozeBlocksGenericMove m \<longleftrightarrow>
     ms_folder_id m = SNOOZED \<or>
     (case ms_snoozed_until m of None \<Rightarrow> False | Some s \<Rightarrow> s \<noteq> Odd []) \<or> truthy (ms_snooze_source_folder_id m)"

definition source_exists :: "message_row \<Rightarrow> mailbox_db \<Rightarrow> bool" where
  "source_exists m db \<longleftrightarrow>
     (case ms_snooze_source_folder_id m of None \<Rightarrow> False | Some f \<Rightarrow> f \<noteq> [] \<and> folder_exists f db)"

definition wake_folder :: "mailbox_db \<Rightarrow> message_row \<Rightarrow> string" where
  "wake_folder db m = resolveUnsnoozeFolder (ms_snooze_source_folder_id m) (source_exists m db)"

definition woken :: "string \<Rightarrow> message_row \<Rightarrow> message_row" where
  "woken folder m = m\<lparr>ms_folder_id := folder, ms_snooze_source_folder_id := None, ms_snoozed_until := None\<rparr>"

definition snoozed_row :: "string \<Rightarrow> instant \<Rightarrow> message_row \<Rightarrow> message_row" where
  "snoozed_row source wakeAt m =
     m\<lparr>ms_folder_id := SNOOZED, ms_snooze_source_folder_id := Some source, ms_snoozed_until := Some (Canon wakeAt),
       ms_previous_folder_id := None, ms_trashed_at := None\<rparr>"

subsection \<open>Commands\<close>

datatype scope_rows = Scope_missing | Scope_too_large | Scope_rows "message_row list"

definition rows_of :: "string list \<Rightarrow> mailbox_db \<Rightarrow> scope_rows" where
  "rows_of ids db =
     (let rows = filter (\<lambda>m. ms_id m \<in> set ids) (bx_messages db)
      in if length rows \<noteq> length ids then Scope_missing else Scope_rows rows)"

definition resolveScope :: "snooze_scope \<Rightarrow> bool \<Rightarrow> mailbox_db \<Rightarrow> scope_rows" where
  "resolveScope scope unsnooze db =
     (case scope of
        Scope_message e \<Rightarrow> rows_of [e] db
      | Scope_conversation c e f \<Rightarrow>
          (case conversationScope c (if unsnooze then SNOOZED else f) db of
             None \<Rightarrow> Scope_missing
           | Some (_, ids) \<Rightarrow>
               if e \<notin> set ids then Scope_missing
               else if length ids > 100 then Scope_too_large
               else rows_of ids db))"

datatype snooze_status =
  Sz_snoozed | Sz_unsnoozed | Sz_not_found | Sz_ineligible | Sz_too_large | Sz_outbound_active

definition scope_entity :: "snooze_scope \<Rightarrow> string \<times> string" where
  "scope_entity scope = (case scope of Scope_message e \<Rightarrow> (''email'', e) | Scope_conversation c e f \<Rightarrow> (''conversation'', c))"

definition snooze_activity ::
  "mail_actor \<Rightarrow> string \<Rightarrow> snooze_scope \<Rightarrow> (string \<times> json) list \<Rightarrow> instant \<Rightarrow> mailbox_db \<Rightarrow> mailbox_db" where
  "snooze_activity actor verb scope metadata at db =
     (case scope_entity scope of (kind, i) \<Rightarrow> recordActivity actor (kind @ verb) kind i metadata at db)"

text \<open>\<open>at\<close> is the time of the activity.\<close>

definition executeSnooze ::
  "snooze_scope \<Rightarrow> instant \<Rightarrow> mail_actor \<Rightarrow> instant \<Rightarrow> mailbox_db \<Rightarrow> (snooze_status \<times> nat) \<times> mailbox_db" where
  "executeSnooze scope wakeAt actor at db =
     (case resolveScope scope False db of
        Scope_too_large \<Rightarrow> ((Sz_too_large, 0), db)
      | Scope_missing \<Rightarrow> ((Sz_not_found, 0), db)
      | Scope_rows [] \<Rightarrow> ((Sz_not_found, 0), db)
      | Scope_rows (r # rs) \<Rightarrow>
          if length (r # rs) > MAX_SNOOZE_TARGETS then ((Sz_too_large, 0), db)
          else
            let source = ms_folder_id r; ids = map ms_id (r # rs)
            in if \<not> isSnoozeSourceFolder (Some source) \<or> list_ex (\<lambda>m. ms_folder_id m \<noteq> source) (r # rs)
               then ((Sz_ineligible, 0), db)
               else if hasActiveOutbound ids db then ((Sz_outbound_active, 0), db)
               else ((Sz_snoozed, length ids),
                 snooze_activity actor ''_snoozed'' scope
                   [(''fromFolderId'', JStr source), (''wakeAt'', JStr (iso_text wakeAt)),
                    (''affectedCount'', JNum (JInt (int (length ids))))] at
                   (edit_messages (\<lambda>m. ms_id m \<in> set ids) (snoozed_row source wakeAt) db)))"

text \<open>Each target is an update of its own.\<close>

definition clearSnooze :: "(string \<times> string) list \<Rightarrow> mailbox_db \<Rightarrow> mailbox_db" where
  "clearSnooze targets db = fold (\<lambda>(i, folder). edit_messages (\<lambda>m. ms_id m = i) (woken folder)) targets db"

definition executeUnsnooze ::
  "snooze_scope \<Rightarrow> mail_actor \<Rightarrow> instant \<Rightarrow> mailbox_db \<Rightarrow> (snooze_status \<times> nat) \<times> mailbox_db" where
  "executeUnsnooze scope actor at db =
     (case resolveScope scope True db of
        Scope_too_large \<Rightarrow> ((Sz_too_large, 0), db)
      | Scope_missing \<Rightarrow> ((Sz_not_found, 0), db)
      | Scope_rows [] \<Rightarrow> ((Sz_not_found, 0), db)
      | Scope_rows (r # rs) \<Rightarrow>
          if length (r # rs) > MAX_SNOOZE_TARGETS then ((Sz_too_large, 0), db)
          else if list_ex (\<lambda>m. ms_folder_id m \<noteq> SNOOZED) (r # rs) then ((Sz_ineligible, 0), db)
          else
            let targets = map (\<lambda>m. (ms_id m, wake_folder db m)) (r # rs)
            in ((Sz_unsnoozed, length targets),
                snooze_activity actor ''_unsnoozed'' scope
                  [(''affectedCount'', JNum (JInt (int (length targets))))] at (clearSnooze targets db)))"

subsection \<open>Alarms\<close>

definition scheduleAlarmAt :: "instant \<Rightarrow> mailbox_db \<Rightarrow> mailbox_db" where
  "scheduleAlarmAt t db =
     (case bx_alarm db of
        None \<Rightarrow> db\<lparr>bx_alarm := Some t\<rparr>
      | Some existing \<Rightarrow> if t < existing then db\<lparr>bx_alarm := Some t\<rparr> else db)"

text \<open>Arming can fail; the failure is logged and the command's result stands.\<close>

definition finalizeCommittedSnooze :: "bool \<Rightarrow> instant \<Rightarrow> mailbox_db \<Rightarrow> mailbox_db" where
  "finalizeCommittedSnooze fails t db = (if fails then db else scheduleAlarmAt t db)"

definition mailbox_snooze ::
  "(string \<Rightarrow> instant option) \<Rightarrow> bool \<Rightarrow> instant \<Rightarrow> json \<Rightarrow> mail_actor \<Rightarrow> mailbox_db \<Rightarrow> (snooze_status \<times> nat) option \<times> mailbox_db" where
  "mailbox_snooze dateParse alarmFails now input actor db =
     (case normalizeSnoozeRequest dateParse now input of
        None \<Rightarrow> (None, db)
      | Some (scope, wakeAt) \<Rightarrow>
          (case executeSnooze scope wakeAt actor now db of
             (result, db') \<Rightarrow>
               (Some result, if fst result = Sz_snoozed then finalizeCommittedSnooze alarmFails wakeAt db' else db')))"

definition mailbox_unsnooze :: "instant \<Rightarrow> json \<Rightarrow> mail_actor \<Rightarrow> mailbox_db \<Rightarrow> (snooze_status \<times> nat) option \<times> mailbox_db" where
  "mailbox_unsnooze now input actor db =
     (case SnoozeScopeSchema input of
        None \<Rightarrow> (None, db)
      | Some scope \<Rightarrow> (case executeUnsnooze scope actor now db of (result, db') \<Rightarrow> (Some result, db')))"

definition earlier :: "instant option \<Rightarrow> instant \<Rightarrow> instant option" where
  "earlier best t = (case best of None \<Rightarrow> Some t | Some b \<Rightarrow> Some (min b t))"

definition earliestMailboxAlarm :: "instant option list \<Rightarrow> instant option" where
  "earliestMailboxAlarm candidates =
     fold (\<lambda>c best. case c of None \<Rightarrow> best | Some t \<Rightarrow> if t < 0 then best else earlier best t) candidates None"

subsection \<open>Waking\<close>

definition wake_time :: "(string \<Rightarrow> instant option) \<Rightarrow> message_row \<Rightarrow> instant option" where
  "wake_time dateParse m = (case ms_snoozed_until m of None \<Rightarrow> None | Some s \<Rightarrow> read_stamp dateParse s)"

definition snooze_due :: "(string \<Rightarrow> instant option) \<Rightarrow> instant \<Rightarrow> message_row \<Rightarrow> bool" where
  "snooze_due dateParse now m \<longleftrightarrow> (case wake_time dateParse m of None \<Rightarrow> True | Some t \<Rightarrow> t \<le> now)"

fun first_wakes :: "(string \<Rightarrow> instant option) \<Rightarrow> instant \<Rightarrow> message_row list \<Rightarrow> instant option \<Rightarrow> instant option" where
  "first_wakes dateParse now [] best = best"
| "first_wakes dateParse now (m # ms) best =
     (case wake_time dateParse m of
        None \<Rightarrow> first_wakes dateParse now ms best
      | Some t \<Rightarrow> first_wakes dateParse now ms (if t \<le> now then best else earlier best t))"

fun overflow_wakes :: "(string \<Rightarrow> instant option) \<Rightarrow> instant \<Rightarrow> message_row list \<Rightarrow> instant option \<Rightarrow> instant option" where
  "overflow_wakes dateParse now [] best = best"
| "overflow_wakes dateParse now (m # ms) best =
     (case wake_time dateParse m of
        None \<Rightarrow> Some now
      | Some t \<Rightarrow> if t \<le> now then Some now else overflow_wakes dateParse now ms (earlier best t))"

definition planDueSnoozeWake ::
  "(string \<Rightarrow> instant option) \<Rightarrow> message_row list \<Rightarrow> instant \<Rightarrow> mailbox_db \<Rightarrow> (string \<times> string) list \<times> instant option" where
  "planDueSnoozeWake dateParse rows now db =
     (let shown = take MAX_SNOOZE_TARGETS rows
      in (map (\<lambda>m. (ms_id m, wake_folder db m)) (filter (snooze_due dateParse now) shown),
          overflow_wakes dateParse now (drop MAX_SNOOZE_TARGETS rows) (first_wakes dateParse now shown None)))"

text \<open>A missing time sorts first.\<close>

definition wake_key :: "message_row \<Rightarrow> (nat \<times> string) \<times> string" where
  "wake_key m = ((case ms_snoozed_until m of None \<Rightarrow> (0, []) | Some s \<Rightarrow> (1, stamp_text s)), ms_id m)"

definition snoozed_rows :: "mailbox_db \<Rightarrow> message_row list" where
  "snoozed_rows db = sort_key wake_key (filter (\<lambda>m. ms_folder_id m = SNOOZED) (bx_messages db))"

definition processDueSnoozeBatch ::
  "(string \<Rightarrow> instant option) \<Rightarrow> instant \<Rightarrow> mailbox_db \<Rightarrow> instant option \<times> mailbox_db" where
  "processDueSnoozeBatch dateParse now db =
     (case planDueSnoozeWake dateParse (take 101 (snoozed_rows db)) now db of
        (wake, nextWakeAt) \<Rightarrow>
          (nextWakeAt,
           if wake = [] then db
           else recordActivity (''system'', None) ''snooze_due_wake_batch'' ''folder'' SNOOZED
             [(''affectedCount'', JNum (JInt (int (length wake))))] now
             (fold (\<lambda>(i, folder). edit_messages (\<lambda>m. ms_id m = i \<and> ms_folder_id m = SNOOZED) (woken folder)) wake db)))"

definition date_text_key :: "message_row \<Rightarrow> (nat \<times> string) \<times> string" where
  "date_text_key m = ((case ms_date m of None \<Rightarrow> (0, []) | Some s \<Rightarrow> (1, stamp_text s)), ms_id m)"

definition processReplyWakeBatch :: "instant \<Rightarrow> mailbox_db \<Rightarrow> bool \<times> mailbox_db" where
  "processReplyWakeBatch at db =
     (case sort_key (\<lambda>w. (stamp_text (wq_requested_at w), wq_thread_id w)) (bx_wakes db) of
        [] \<Rightarrow> (False, db)
      | queued # _ \<Rightarrow>
          let thread = wq_thread_id queued;
              ids = map ms_id (take 100 (sort_key date_text_key
                (filter (\<lambda>m. ms_folder_id m = SNOOZED \<and> ms_thread_id m = Some thread) (bx_messages db))));
              db1 = (if ids = [] then db
                else recordActivity (''system'', None) ''conversation_woken_by_reply'' ''conversation'' thread
                  [(''affectedCount'', JNum (JInt (int (length ids))))] at
                  (edit_messages (\<lambda>m. ms_id m \<in> set ids) (woken INBOX) db));
              db2 = (if list_ex (\<lambda>m. ms_folder_id m = SNOOZED \<and> ms_thread_id m = Some thread) (bx_messages db1) then db1
                else db1\<lparr>bx_wakes := filter (\<lambda>w. wq_thread_id w \<noteq> thread) (bx_wakes db1)\<rparr>)
          in (bx_wakes db2 \<noteq> [], db2))"

text \<open>
  The self-healing before reads, and the snooze lane of the alarm. \<open>complete\<close> is the attempt of the reply queue;
  \<open>at\<close> is the clock of the wake-ups by replies.
\<close>

definition snooze_lane ::
  "(string \<Rightarrow> instant option) \<Rightarrow> (reply_item \<Rightarrow> string option) \<Rightarrow> instant \<Rightarrow> instant \<Rightarrow> mailbox_db \<Rightarrow>
     instant option \<times> mailbox_db" where
  "snooze_lane dateParse complete at now db =
     (let (pending, db1) = processReplyWakeBatch at db;
          (nextDueAt, db2) = processDueSnoozeBatch dateParse now db1;
          (nextFollowUpAt, replies) = processOneFollowUpReplyCompletion complete now (bx_replies db2)
      in (earliestMailboxAlarm [if pending then Some (now + 100) else None, nextDueAt, nextFollowUpAt],
          db2\<lparr>bx_replies := replies\<rparr>))"

definition selfHealSnoozes ::
  "(string \<Rightarrow> instant option) \<Rightarrow> (reply_item \<Rightarrow> string option) \<Rightarrow> bool \<Rightarrow> instant \<Rightarrow> instant \<Rightarrow> mailbox_db \<Rightarrow> mailbox_db" where
  "selfHealSnoozes dateParse complete alarmFails at now db =
     (case snooze_lane dateParse complete at now db of
        (None, db1) \<Rightarrow> db1
      | (Some t, db1) \<Rightarrow> finalizeCommittedSnooze alarmFails (max now t) db1)"

end
