(* ===== verification/Mail_Moves.thy ===== *)
theory Mail_Moves
  imports Mail_Snooze
begin

text \<open>
  The operations that read, move and file mail: flags, single messages, whole conversations, batches
  (\<^verbatim>\<open>workers/durableObject/batch-triage.ts\<close>, \<^verbatim>\<open>shared/batch-triage.ts\<close>) and folders, with the plans of
  \<^verbatim>\<open>workers/lib/email-lifecycle.ts\<close>. \<open>now\<close> is the time an operation writes.
\<close>

subsection \<open>Flags\<close>

definition flag :: "bool option \<Rightarrow> bool" where
  "flag b = (b = Some True)"

text \<open>The new value, when one was asked for and it differs from the stored one.\<close>

definition changed_flag :: "bool option \<Rightarrow> bool option \<Rightarrow> bool option" where
  "changed_flag asked stored =
     (case asked of None \<Rightarrow> None | Some b \<Rightarrow> if flag stored \<noteq> b then Some b else None)"

definition set_flags :: "bool option \<Rightarrow> bool option \<Rightarrow> message_row \<Rightarrow> message_row" where
  "set_flags read starred m =
     m\<lparr>ms_read := (case read of None \<Rightarrow> ms_read m | Some b \<Rightarrow> Some b),
       ms_starred := (case starred of None \<Rightarrow> ms_starred m | Some b \<Rightarrow> Some b)\<rparr>"

definition noted_flag :: "string \<Rightarrow> bool option \<Rightarrow> mail_actor \<Rightarrow> string \<Rightarrow> instant \<Rightarrow> mailbox_db \<Rightarrow> mailbox_db" where
  "noted_flag name value actor i now db =
     (case value of None \<Rightarrow> db
      | Some b \<Rightarrow> recordActivity actor ''email_updated'' ''email'' i [(name, JBool b)] now db)"

text \<open>Whether the message is visible; the message itself is read afterwards, which heals snoozes first.\<close>

definition updateEmail_transaction ::
  "string \<Rightarrow> bool option \<Rightarrow> bool option \<Rightarrow> mail_actor \<Rightarrow> instant \<Rightarrow> mailbox_db \<Rightarrow> bool \<times> mailbox_db" where
  "updateEmail_transaction i read starred actor now db =
     (case find (\<lambda>m. ms_id m = i \<and> ms_folder_id m \<noteq> RETIRED_OUTBOUND) (bx_messages db) of
        None \<Rightarrow> (False, db)
      | Some m \<Rightarrow>
          let r = changed_flag read (ms_read m); s = changed_flag starred (ms_starred m)
          in if r = None \<and> s = None then (True, db)
             else (True, noted_flag ''starred'' s actor i now (noted_flag ''read'' r actor i now
               (edit_messages (\<lambda>m. ms_id m = i \<and> ms_folder_id m \<noteq> RETIRED_OUTBOUND) (set_flags r s) db))))"

definition updateEmail ::
  "(mailbox_db \<Rightarrow> mailbox_db) \<Rightarrow> string \<Rightarrow> bool option \<Rightarrow> bool option \<Rightarrow> mail_actor \<Rightarrow> instant \<Rightarrow> mailbox_db \<Rightarrow>
     bool \<times> mailbox_db" where
  "updateEmail heal i read starred actor now db =
     (if read = None \<and> starred = None then (True, heal db)
      else case updateEmail_transaction i read starred actor now db of
          (visible, db1) \<Rightarrow> (visible, if visible then heal db1 else db1))"

definition markThreadRead :: "string \<Rightarrow> mail_actor \<Rightarrow> instant \<Rightarrow> mailbox_db \<Rightarrow> bool \<times> mailbox_db" where
  "markThreadRead threadId actor now db =
     (let unread = (\<lambda>m. ms_thread_id m = Some threadId \<and> ms_read m = Some False \<and> ms_folder_id m \<noteq> RETIRED_OUTBOUND)
      in if \<not> list_ex unread (bx_messages db) then (False, db)
         else (True, recordActivity actor ''thread_marked_read'' ''thread'' threadId [] now
           (edit_messages unread (\<lambda>m. m\<lparr>ms_read := Some True\<rparr>) db)))"

definition unlike :: "string list \<Rightarrow> bool \<Rightarrow> message_row \<Rightarrow> bool" where
  "unlike ids read m \<longleftrightarrow> ms_id m \<in> set ids \<and> flag (ms_read m) \<noteq> read"

definition setRead :: "string list \<Rightarrow> bool \<Rightarrow> mailbox_db \<Rightarrow> nat \<times> mailbox_db" where
  "setRead ids read db =
     (let changed = map ms_id (filter (unlike ids read) (bx_messages db))
      in if changed = [] then (0, db)
         else (length changed, edit_messages (\<lambda>m. ms_id m \<in> set changed) (\<lambda>m. m\<lparr>ms_read := Some read\<rparr>) db))"

text \<open>\<open>None\<close> is the answer \<^verbatim>\<open>not_found\<close>.\<close>

definition setConversationRead ::
  "string \<Rightarrow> string \<Rightarrow> bool \<Rightarrow> mail_actor \<Rightarrow> instant \<Rightarrow> mailbox_db \<Rightarrow> nat option \<times> mailbox_db" where
  "setConversationRead conversationId folderId read actor now db =
     (case conversationScope conversationId folderId db of
        None \<Rightarrow> (None, db)
      | Some (f, ids) \<Rightarrow>
          if ids = [] then (None, db)
          else case setRead ids read db of
              (n, db1) \<Rightarrow> (Some n,
                if n = 0 then db1
                else recordActivity actor ''conversation_read_state_changed'' ''conversation'' conversationId
                  [(''folderId'', JStr f), (''read'', JBool read), (''affectedCount'', JNum (JInt (int n)))] now db1))"

subsection \<open>Single messages\<close>

definition planTrash :: "string \<Rightarrow> string option" where
  "planTrash folderId = (if folderId = TRASH then None else Some folderId)"

definition resolveRestoreFolder :: "string option \<Rightarrow> bool \<Rightarrow> string" where
  "resolveRestoreFolder previous previousExists =
     (case previous of None \<Rightarrow> INBOX
      | Some f \<Rightarrow> if f \<noteq> [] \<and> f \<noteq> TRASH \<and> previousExists then f else INBOX)"

datatype move_plan = Plan_trash | Plan_move bool

definition planMove :: "string \<Rightarrow> string \<Rightarrow> move_plan" where
  "planMove current target = (if target = TRASH then Plan_trash else Plan_move (current = TRASH))"

definition trashed_row :: "string \<Rightarrow> instant \<Rightarrow> message_row \<Rightarrow> message_row" where
  "trashed_row previous now m =
     m\<lparr>ms_folder_id := TRASH, ms_previous_folder_id := Some previous, ms_trashed_at := Some (Canon now)\<rparr>"

definition filed_row :: "string \<Rightarrow> bool \<Rightarrow> message_row \<Rightarrow> message_row" where
  "filed_row folder clear m =
     m\<lparr>ms_folder_id := folder, ms_previous_folder_id := (if clear then None else ms_previous_folder_id m),
       ms_trashed_at := (if clear then None else ms_trashed_at m)\<rparr>"

datatype trash_status =
  Tr_missing | Tr_protected | Tr_snoozed | Tr_outbound_active string | Tr_already | Tr_trashed

definition trashEmail :: "string \<Rightarrow> mail_actor \<Rightarrow> instant \<Rightarrow> mailbox_db \<Rightarrow> trash_status \<times> mailbox_db" where
  "trashEmail i actor now db =
     (case find_message i db of
        None \<Rightarrow> (Tr_missing, db)
      | Some m \<Rightarrow>
          if internal_folder (ms_folder_id m) then (Tr_protected, db)
          else if snoozeBlocksGenericMove m then (Tr_snoozed, db)
          else case activeOutboundDeliveryForEmail i db of
              Some d \<Rightarrow> (Tr_outbound_active (ob_id d), db)
            | None \<Rightarrow>
                (case planTrash (ms_folder_id m) of
                   None \<Rightarrow> (Tr_already, db)
                 | Some previous \<Rightarrow>
                     (Tr_trashed, recordActivity actor ''email_trashed'' ''email'' i
                       [(''fromFolderId'', JStr (ms_folder_id m))] now
                       (edit_messages (\<lambda>m. ms_id m = i) (trashed_row previous now) db))))"

datatype restore_status = Rs_missing | Rs_not_trashed | Rs_restored string

definition restoreEmail :: "string \<Rightarrow> mail_actor \<Rightarrow> instant \<Rightarrow> mailbox_db \<Rightarrow> restore_status \<times> mailbox_db" where
  "restoreEmail i actor now db =
     (case find_message i db of
        None \<Rightarrow> (Rs_missing, db)
      | Some m \<Rightarrow>
          if ms_folder_id m \<noteq> TRASH then (Rs_not_trashed, db)
          else
            let previous = ms_previous_folder_id m;
                exists = (case previous of None \<Rightarrow> False | Some f \<Rightarrow> f \<noteq> [] \<and> folder_exists f db);
                folder = resolveRestoreFolder previous exists
            in (Rs_restored folder, recordActivity actor ''email_restored'' ''email'' i [(''toFolderId'', JStr folder)] now
                 (edit_messages (\<lambda>m. ms_id m = i) (filed_row folder True) db)))"

datatype move_status =
  Mv_done bool | Mv_snoozed_target | Mv_snoozed | Mv_outbound_active string

definition moveEmail :: "string \<Rightarrow> string \<Rightarrow> mail_actor \<Rightarrow> instant \<Rightarrow> mailbox_db \<Rightarrow> move_status \<times> mailbox_db" where
  "moveEmail i folderId actor now db =
     (if \<not> folder_exists folderId db \<or> internal_folder folderId then (Mv_done False, db)
      else if folderId = SNOOZED then (Mv_snoozed_target, db)
      else case find_message i db of
          None \<Rightarrow> (Mv_done False, db)
        | Some m \<Rightarrow>
            if internal_folder (ms_folder_id m) then (Mv_done False, db)
            else if snoozeBlocksGenericMove m then (Mv_snoozed, db)
            else if folderId = ms_folder_id m \<and> folderId \<noteq> TRASH then (Mv_done True, db)
            else case activeOutboundDeliveryForEmail i db of
                Some d \<Rightarrow> (Mv_outbound_active (ob_id d), db)
              | None \<Rightarrow>
                  (case planMove (ms_folder_id m) folderId of
                     Plan_trash \<Rightarrow>
                       (case trashEmail i actor now db of
                          (Tr_outbound_active d, db1) \<Rightarrow> (Mv_outbound_active d, db1)
                        | (status, db1) \<Rightarrow> (Mv_done (status \<noteq> Tr_missing), db1))
                   | Plan_move clear \<Rightarrow>
                       (Mv_done True, recordActivity actor ''email_moved'' ''email'' i
                         [(''fromFolderId'', JStr (ms_folder_id m)), (''toFolderId'', JStr folderId)] now
                         (edit_messages (\<lambda>m. ms_id m = i) (filed_row folderId clear) db))))"

subsection \<open>Batches\<close>

datatype triage_action = Mark_read | Mark_unread | Archive_action | Trash_action

definition isBatchTriageActionAllowed :: "triage_action \<Rightarrow> string \<Rightarrow> bool" where
  "isBatchTriageActionAllowed action folderId \<longleftrightarrow>
     (if folderId = OUTBOX \<or> folderId = DRAFT then False
      else if action = Mark_read \<or> action = Mark_unread then folderId \<noteq> SENT
      else if action = Archive_action then folderId \<notin> {SENT, TRASH, ARCHIVE, SNOOZED}
      else folderId \<noteq> TRASH \<and> folderId \<noteq> SNOOZED)"

record triage_target =
  tg_emailId :: string
  tg_folderId :: string
  tg_conversationId :: "string option"

definition target_conversation :: "triage_target \<Rightarrow> string option" where
  "target_conversation t = (if truthy (tg_conversationId t) then tg_conversationId t else None)"

datatype triage_status = Tg_updated | Tg_not_found | Tg_invalid_action | Tg_outbound_active

definition resolveTarget :: "triage_target \<Rightarrow> mailbox_db \<Rightarrow> (string list \<times> string) option" where
  "resolveTarget t db =
     (case visibleFolderId (tg_folderId t) db of
        None \<Rightarrow> None
      | Some f \<Rightarrow>
          (case target_conversation t of
             None \<Rightarrow> map_option (\<lambda>m. ([ms_id m], f))
               (find (\<lambda>m. ms_id m = tg_emailId t \<and> ms_folder_id m = f) (bx_messages db))
           | Some c \<Rightarrow>
               (case conversationScope c f db of
                  None \<Rightarrow> None
                | Some (g, ids) \<Rightarrow> if tg_emailId t \<in> set ids then Some (ids, g) else None)))"

definition isTargetStateSatisfied :: "triage_target \<Rightarrow> string \<Rightarrow> mailbox_db \<Rightarrow> bool" where
  "isTargetStateSatisfied t targetFolderId db =
     (case visibleFolderId targetFolderId db of
        None \<Rightarrow> False
      | Some f \<Rightarrow>
          (case target_conversation t of
             None \<Rightarrow> list_ex (\<lambda>m. ms_id m = tg_emailId t \<and> ms_folder_id m = f) (bx_messages db)
           | Some c \<Rightarrow> (case conversationScope c f db of None \<Rightarrow> False | Some (_, ids) \<Rightarrow> tg_emailId t \<in> set ids)))"

definition refile :: "string list \<Rightarrow> string \<Rightarrow> string \<Rightarrow> instant \<Rightarrow> mailbox_db \<Rightarrow> mailbox_db" where
  "refile ids fromFolderId toFolderId now db =
     edit_messages (\<lambda>m. ms_id m \<in> set ids)
       (if toFolderId = TRASH then trashed_row fromFolderId now else filed_row toFolderId True) db"

definition triage_folder :: "triage_action \<Rightarrow> string option" where
  "triage_folder action = (case action of Archive_action \<Rightarrow> Some ARCHIVE | Trash_action \<Rightarrow> Some TRASH | _ \<Rightarrow> None)"

definition action_name :: "triage_action \<Rightarrow> string" where
  "action_name action = (case action of Mark_read \<Rightarrow> ''mark_read'' | Mark_unread \<Rightarrow> ''mark_unread''
     | Archive_action \<Rightarrow> ''archive'' | Trash_action \<Rightarrow> ''trash'')"

definition triage_activity ::
  "triage_action \<Rightarrow> triage_target \<Rightarrow> nat \<Rightarrow> mail_actor \<Rightarrow> instant \<Rightarrow> mailbox_db \<Rightarrow> mailbox_db" where
  "triage_activity action t n actor now db =
     recordActivity actor (''batch_'' @ action_name action)
       (if target_conversation t = None then ''email'' else ''conversation'')
       (case tg_conversationId t of None \<Rightarrow> tg_emailId t | Some c \<Rightarrow> c)
       [(''representativeEmailId'', JStr (tg_emailId t)), (''folderId'', JStr (tg_folderId t)),
        (''affectedCount'', JNum (JInt (int n)))] now db"

definition triage_one ::
  "triage_action \<Rightarrow> mail_actor \<Rightarrow> instant \<Rightarrow> triage_target \<Rightarrow> mailbox_db \<Rightarrow> (triage_status \<times> nat) \<times> mailbox_db" where
  "triage_one action actor now target db =
     (let source = visibleFolderId (tg_folderId target) db;
          policy = (case source of None \<Rightarrow> tg_folderId target | Some f \<Rightarrow> f);
          t = target\<lparr>tg_folderId := policy\<rparr>
      in if \<not> isBatchTriageActionAllowed action policy then ((Tg_invalid_action, 0), db)
         else if (case triage_folder action of None \<Rightarrow> False | Some f \<Rightarrow> isTargetStateSatisfied t f db)
           then ((Tg_updated, 0), db)
         else if source = None then ((Tg_not_found, 0), db)
         else case resolveTarget t db of
             None \<Rightarrow> ((Tg_not_found, 0), db)
           | Some (ids, f) \<Rightarrow>
               if ids = [] then ((Tg_not_found, 0), db)
               else if triage_folder action \<noteq> None \<and> hasActiveOutbound ids db then ((Tg_outbound_active, 0), db)
               else
                 let (n, db1) = (case triage_folder action of
                       None \<Rightarrow> setRead ids (action = Mark_read) db
                     | Some f' \<Rightarrow> (length ids, refile ids f f' now db))
                 in ((Tg_updated, n), if n > 0 then triage_activity action t n actor now db1 else db1))"

fun triage_loop ::
  "triage_action \<Rightarrow> mail_actor \<Rightarrow> instant \<Rightarrow> triage_target list \<Rightarrow> mailbox_db \<Rightarrow> (triage_status \<times> nat) list \<times> mailbox_db" where
  "triage_loop action actor now [] db = ([], db)"
| "triage_loop action actor now (t # ts) db =
     (case triage_one action actor now t db of
        (r, db1) \<Rightarrow> (case triage_loop action actor now ts db1 of (rs, db2) \<Rightarrow> (r # rs, db2)))"

record triage_result =
  tr_requestedCount :: nat
  tr_succeededCount :: nat
  tr_failedCount :: nat
  tr_results :: "(string \<times> triage_status \<times> nat) list"

definition executeBatchTriage ::
  "triage_action \<Rightarrow> triage_target list \<Rightarrow> mail_actor \<Rightarrow> instant \<Rightarrow> mailbox_db \<Rightarrow> triage_result \<times> mailbox_db" where
  "executeBatchTriage action targets actor now db =
     (case triage_loop action actor now targets db of
        (rs, db') \<Rightarrow>
          let succeeded = count_where (\<lambda>r. fst r = Tg_updated) rs
          in (\<lparr>tr_requestedCount = length targets, tr_succeededCount = succeeded,
               tr_failedCount = length rs - succeeded, tr_results = zip (map tg_emailId targets) rs\<rparr>, db'))"

subsection \<open>Conversations\<close>

datatype conversation_status =
  Cv_invalid_action | Cv_not_found | Cv_done | Cv_snoozed | Cv_outbound_active

definition moveConversationInFolder ::
  "string \<Rightarrow> string \<Rightarrow> string \<Rightarrow> string \<Rightarrow> mail_actor \<Rightarrow> instant \<Rightarrow> mailbox_db \<Rightarrow> (conversation_status \<times> nat) \<times> mailbox_db" where
  "moveConversationInFolder conversationId folderId targetFolderId emailId actor now db =
     (let source = visibleFolderId folderId db;
          policy = (case source of None \<Rightarrow> folderId | Some f \<Rightarrow> f);
          action = (if targetFolderId = ARCHIVE then Archive_action else Trash_action)
      in if \<not> isBatchTriageActionAllowed action policy then ((Cv_invalid_action, 0), db)
         else if \<not> folder_exists targetFolderId db \<or> internal_folder targetFolderId then ((Cv_not_found, 0), db)
         else if (case conversationScope conversationId targetFolderId db of None \<Rightarrow> False
                  | Some (_, ids) \<Rightarrow> emailId \<in> set ids) then ((Cv_done, 0), db)
         else case source of
             None \<Rightarrow> ((Cv_not_found, 0), db)
           | Some f \<Rightarrow>
               (case conversationScope conversationId f db of
                  None \<Rightarrow> ((Cv_not_found, 0), db)
                | Some (g, ids) \<Rightarrow>
                    if ids = [] \<or> emailId \<notin> set ids then ((Cv_not_found, 0), db)
                    else if g = SNOOZED \<or>
                        list_ex (\<lambda>m. ms_id m \<in> set ids \<and> (ms_folder_id m = SNOOZED \<or> ms_snoozed_until m \<noteq> None \<or>
                          ms_snooze_source_folder_id m \<noteq> None)) (bx_messages db)
                      then ((Cv_snoozed, 0), db)
                    else if hasActiveOutbound ids db then ((Cv_outbound_active, 0), db)
                    else ((Cv_done, length ids),
                      recordActivity actor
                        (if targetFolderId = TRASH then ''conversation_trashed'' else ''conversation_archived'')
                        ''conversation'' conversationId
                        [(''fromFolderId'', JStr g), (''toFolderId'', JStr targetFolderId),
                         (''affectedCount'', JNum (JInt (int (length ids))))] now
                        (refile ids g targetFolderId now db))))"

definition archiveConversation ::
  "string \<Rightarrow> string \<Rightarrow> string \<Rightarrow> mail_actor \<Rightarrow> instant \<Rightarrow> mailbox_db \<Rightarrow> (conversation_status \<times> nat) \<times> mailbox_db" where
  "archiveConversation conversationId folderId = moveConversationInFolder conversationId folderId ARCHIVE"

definition trashConversation ::
  "string \<Rightarrow> string \<Rightarrow> string \<Rightarrow> mail_actor \<Rightarrow> instant \<Rightarrow> mailbox_db \<Rightarrow> (conversation_status \<times> nat) \<times> mailbox_db" where
  "trashConversation conversationId folderId = moveConversationInFolder conversationId folderId TRASH"

subsection \<open>Folders\<close>

definition createFolder :: "string \<Rightarrow> string \<Rightarrow> bool \<Rightarrow> mailbox_db \<Rightarrow> (string \<times> string) option \<times> mailbox_db" where
  "createFolder i name is_deletable db =
     (if list_ex (\<lambda>f. fo_id f = i \<or> fo_name f = name) (bx_folders db) then (None, db)
      else (Some (i, name),
        db\<lparr>bx_folders := bx_folders db @ [\<lparr>fo_id = i, fo_name = name, fo_is_deletable = is_deletable\<rparr>]\<rparr>))"

definition mark_operations :: "string \<Rightarrow> operation_state list \<Rightarrow> operation_state \<Rightarrow> instant \<Rightarrow> mailbox_db \<Rightarrow> mailbox_db" where
  "mark_operations i froms to now db =
     db\<lparr>bx_operations := update_where (\<lambda>r. rs_resource_kind r = Folder_resource \<and> rs_resource_id r = i \<and> rs_state r \<in> set froms)
       (\<lambda>r. r\<lparr>rs_state := to, rs_updated_at := Canon now\<rparr>) (bx_operations db)\<rparr>"

text \<open>\<open>Inl\<close> is the violated uniqueness of names, which undoes the transaction.\<close>

definition updateFolder ::
  "string \<Rightarrow> string \<Rightarrow> instant \<Rightarrow> mailbox_db \<Rightarrow> (unit + (string \<times> string) option) \<times> mailbox_db" where
  "updateFolder i name now db =
     (if internal_folder i then (Inr None, db)
      else case find (\<lambda>f. fo_id f = i) (bx_folders db) of
          None \<Rightarrow> (Inr None, db)
        | Some f \<Rightarrow>
            if fo_name f = name then (Inr (Some (i, name)), db)
            else if list_ex (\<lambda>f. fo_name f = name) (bx_folders db) then (Inl (), db)
            else (Inr (Some (i, name)),
              mark_operations i [Operation_active] Operation_superseded now
                (db\<lparr>bx_folders := update_where (\<lambda>f. fo_id f = i) (\<lambda>f. f\<lparr>fo_name := name\<rparr>) (bx_folders db)\<rparr>)))"

datatype folder_deletion = Fd_not_found | Fd_protected | Fd_used_by_rules | Fd_not_empty | Fd_deleted

definition deleteFolder ::
  "(string \<Rightarrow> bool) \<Rightarrow> string \<Rightarrow> mail_actor \<Rightarrow> instant \<Rightarrow> mailbox_db \<Rightarrow> folder_deletion \<times> mailbox_db" where
  "deleteFolder usedByRules i actor now db =
     (case find (\<lambda>f. fo_id f = i) (bx_folders db) of
        None \<Rightarrow> (Fd_not_found, db)
      | Some f \<Rightarrow>
          if \<not> fo_is_deletable f then (Fd_protected, db)
          else if usedByRules i then (Fd_used_by_rules, db)
          else if list_ex (\<lambda>m. ms_folder_id m = i) (bx_messages db) then (Fd_not_empty, db)
          else (Fd_deleted,
            recordActivity actor ''folder_deleted'' ''folder'' i [] now
              (mark_operations i [Operation_active, Operation_superseded] Operation_unavailable now
                (db\<lparr>bx_folders := filter (\<lambda>f. fo_id f \<noteq> i) (bx_folders db)\<rparr>))))"

end
