(* ===== verification/Iso_Order.thy ===== *)
theory Iso_Order
  imports Iso_Date "HOL-Library.Product_Lexorder"
begin

text \<open>
  The texts of instants sort as the instants do, in the years 0 to 9999. The program relies on it wherever it
  orders or compares text columns that hold timestamps.
\<close>

subsection \<open>Days\<close>

definition year_of_era :: "int \<Rightarrow> int" where
  "year_of_era doe = (doe - doe div 1460 + doe div 36524 - doe div 146096) div 365"

definition year_start :: "int \<Rightarrow> int" where
  "year_start y = (if y = 400 then 146097 else 365 * y + y div 4 - y div 100)"

text \<open>March is month 0.\<close>

definition month_day :: "int \<Rightarrow> int \<times> int" where
  "month_day doy = (let mp = (5 * doy + 2) div 153 in (mp, doy - (153 * mp + 2) div 5 + 1))"

lemma quotient_step:
  assumes "0 < k" and "a = k * p + r" and "b = k * q + s" and "0 \<le> s" and "r < k" and "p < q"
  shows "a - p \<le> b - (q::int)"
proof -
  have "(k - 1) * 1 \<le> (k - 1) * (q - p)" using assms(1,6) by (intro mult_left_mono) simp_all
  then have "k - 1 \<le> k * q - k * p - q + p" by (simp add: algebra_simps)
  then show ?thesis using assms(2-5) by linarith
qed

lemma quotient_gap:
  assumes "0 < k" and "a \<le> b"
  shows "a - a div k \<le> b - b div (k::int)"
proof (cases "a div k = b div k")
  case False
  have "a div k \<le> b div k" using assms(2,1) by (rule zdiv_mono1)
  then have "a div k < b div k" using False by simp
  then show ?thesis
    using assms(1) by (intro quotient_step [of k a "a div k" "a mod k" b "b div k" "b mod k"]) simp_all
qed (use assms in simp)

lemma year_of_era_mono:
  assumes "a \<le> b"
  shows "year_of_era a \<le> year_of_era b"
proof -
  have quarter: "x div 36524 - x div 146096 = x div 36524 - x div 36524 div 4" for x :: int
    by (simp add: zdiv_zmult2_eq [of 4 x 36524, symmetric])
  have "a - a div 1460 \<le> b - b div 1460" using assms by (intro quotient_gap) simp_all
  moreover have "a div 36524 - a div 146096 \<le> b div 36524 - b div 146096"
    unfolding quarter using assms by (intro quotient_gap zdiv_mono1) simp_all
  ultimately show ?thesis unfolding year_of_era_def by (intro zdiv_mono1) linarith+
qed

lemma year_bounds:
  "list_all (\<lambda>y. year_of_era (year_start y) = y \<and> year_of_era (year_start (y + 1) - 1) = y \<and>
     year_start (y + 1) - year_start y \<le> 366) [0..399]"
  by code_simp

lemma year_bound:
  assumes "0 \<le> y" and "y \<le> 399"
  shows "year_of_era (year_start y) = y" and "year_of_era (year_start (y + 1) - 1) = y"
    and "year_start (y + 1) - year_start y \<le> 366"
  using year_bounds assms unfolding list_all_iff set_upto by simp_all

lemma year_of_era_day:
  assumes "0 \<le> doe" and "doe < 146097"
  shows "0 \<le> year_of_era doe" and "year_of_era doe \<le> 399"
    and "0 \<le> doe - year_start (year_of_era doe)" and "doe - year_start (year_of_era doe) \<le> 365"
proof -
  let ?y = "year_of_era doe"
  have ends: "year_of_era 0 = 0" "year_of_era 146096 = 399" by (simp_all add: year_of_era_def)
  show y0: "0 \<le> ?y" using year_of_era_mono [OF assms(1)] ends by simp
  have "doe \<le> 146096" using assms(2) by simp
  from year_of_era_mono [OF this] show y399: "?y \<le> 399" using ends by simp
  show "0 \<le> doe - year_start ?y"
  proof (rule ccontr)
    assume "\<not> 0 \<le> doe - year_start ?y"
    then have less: "doe \<le> year_start (?y - 1 + 1) - 1" by simp
    have "1 \<le> ?y"
    proof (rule ccontr)
      assume "\<not> 1 \<le> ?y"
      then have "?y = 0" using y0 by simp
      then show False using less assms(1) by (simp add: year_start_def)
    qed
    then have "year_of_era (year_start (?y - 1 + 1) - 1) = ?y - 1" using y399 by (intro year_bound) simp_all
    then show False using year_of_era_mono [OF less] by simp
  qed
  have "doe < year_start (?y + 1)"
  proof (cases "?y = 399")
    case True
    then show ?thesis using assms(2) by (simp add: year_start_def)
  next
    case False
    then have "year_of_era (year_start (?y + 1)) = ?y + 1" using y0 y399 by (intro year_bound) simp_all
    then show ?thesis using year_of_era_mono [of "year_start (?y + 1)" doe] by (rule_tac ccontr) simp
  qed
  then show "doe - year_start ?y \<le> 365" using year_bound(3) [OF y0 y399] by simp
qed

lemma month_days:
  "list_all (\<lambda>n. month_day n < month_day (n + 1) \<and> fst (month_day n) \<in> {0..11} \<and> snd (month_day n) \<in> {1..31}) [0..365]"
  by code_simp

lemma month_day_bounds:
  assumes "0 \<le> n" and "n \<le> 365"
  shows "month_day n < month_day (n + 1)" "0 \<le> fst (month_day n)" "fst (month_day n) \<le> 11"
    "1 \<le> snd (month_day n)" "snd (month_day n) \<le> 31"
  using month_days assms unfolding list_all_iff set_upto by simp_all

lemma month_day_mono:
  assumes "0 \<le> a" and "a < b" and "b \<le> 365"
  shows "month_day a < month_day b"
  using assms(2,3)
proof (induction rule: int_gr_induct)
  case base
  then show ?case using month_day_bounds(1) [of a] assms by simp
next
  case (step i)
  then show ?case using month_day_bounds(1) [of i] assms(1) by (auto intro: less_trans)
qed

text \<open>A date by computational year, month from March and day; and the calendar's date for it.\<close>

definition march_date :: "int \<Rightarrow> int \<times> int \<times> int" where
  "march_date z =
     (let doe = z mod 146097; yoe = year_of_era doe
      in (yoe + z div 146097 * 400, month_day (doe - year_start yoe)))"

definition calendar_date :: "int \<times> int \<times> int \<Rightarrow> int \<times> int \<times> int" where
  "calendar_date m = (case m of (y, mp, d) \<Rightarrow> (y + (if mp < 10 then 0 else 1), (if mp < 10 then mp + 3 else mp - 9), d))"

lemma march_date_bounds:
  "0 \<le> fst (snd (march_date z))" "fst (snd (march_date z)) \<le> 11" "1 \<le> snd (snd (march_date z))" "snd (snd (march_date z)) \<le> 31"
proof -
  have "0 \<le> z mod 146097" "z mod 146097 < 146097" by simp_all
  from month_day_bounds(2-5) [OF year_of_era_day(3,4) [OF this]]
  show "0 \<le> fst (snd (march_date z))" "fst (snd (march_date z)) \<le> 11" "1 \<le> snd (snd (march_date z))"
    "snd (snd (march_date z)) \<le> 31"
    by (simp_all add: march_date_def Let_def)
qed

lemma civil_march: "civil_of_days days = calendar_date (march_date (days + 719468))"
proof -
  define z where "z = days + 719468"
  have doe: "z - z div 146097 * 146097 = z mod 146097" by (rule minus_div_mult_eq_mod)
  have year: "(doe - doe div 1460 + doe div 36524 - doe div 146096) div 365 = year_of_era doe" for doe
    by (simp only: year_of_era_def)
  define yoe where "yoe = year_of_era (z mod 146097)"
  define doy where "doy = z mod 146097 - year_start yoe"
  define mp where "mp = (5 * doy + 2) div 153"
  have "0 \<le> z mod 146097" "z mod 146097 < 146097" by simp_all
  from year_of_era_day(2) [OF this] have "yoe \<noteq> 400" by (simp add: yoe_def)
  then have start: "365 * yoe + yoe div 4 - yoe div 100 = year_start yoe" by (simp add: year_start_def)
  have civil: "civil_of_days days = (yoe + z div 146097 * 400 + (if (if mp < 10 then mp + 3 else mp - 9) \<le> 2 then 1 else 0),
      (if mp < 10 then mp + 3 else mp - 9), doy - (153 * mp + 2) div 5 + 1)"
    unfolding civil_of_days_def Let_def z_def [symmetric] doe year yoe_def [symmetric] start doy_def [symmetric]
      mp_def [symmetric] by (rule refl)
  have march: "march_date z = (yoe + z div 146097 * 400, mp, doy - (153 * mp + 2) div 5 + 1)"
    unfolding march_date_def month_day_def Let_def yoe_def [symmetric] doy_def [symmetric] mp_def [symmetric] by (rule refl)
  have mp: "0 \<le> mp" "mp \<le> 11" using march_date_bounds(1,2) [of z] unfolding march by simp_all
  show ?thesis unfolding civil z_def [symmetric] march calendar_date_def prod.case using mp by (cases "mp < 10") simp_all
qed

lemma march_date_mono:
  assumes "a < b"
  shows "march_date a < march_date b"
proof -
  have day: "0 \<le> x mod 146097" "x mod 146097 < 146097" for x :: int by simp_all
  have order: "a = a div 146097 * 146097 + a mod 146097" "b = b div 146097 * 146097 + b mod 146097" by simp_all
  note bounds = year_of_era_day [OF day]
  have "a div 146097 \<le> b div 146097" using assms by (intro zdiv_mono1) simp_all
  then consider "a div 146097 < b div 146097" | "a div 146097 = b div 146097" by fastforce
  then show ?thesis
  proof cases
    case 1
    then have "year_of_era (a mod 146097) + a div 146097 * 400 < year_of_era (b mod 146097) + b div 146097 * 400"
      using bounds(2) [of a] bounds(1) [of b] by linarith
    then show ?thesis by (simp add: march_date_def Let_def less_prod_simp)
  next
    case 2
    then have doe: "a mod 146097 < b mod 146097" using assms order by linarith
    then have le: "year_of_era (a mod 146097) \<le> year_of_era (b mod 146097)" by (intro year_of_era_mono) simp
    have "month_day (a mod 146097 - year_start (year_of_era (a mod 146097))) <
        month_day (b mod 146097 - year_start (year_of_era (b mod 146097)))"
      if "year_of_era (a mod 146097) = year_of_era (b mod 146097)"
      using that doe bounds(3) [of a] bounds(4) [of b] by (intro month_day_mono) simp_all
    then show ?thesis
      using 2 le unfolding march_date_def Let_def
      by (cases "year_of_era (a mod 146097) = year_of_era (b mod 146097)") (simp_all add: less_prod_simp)
  qed
qed

lemma calendar_date_mono:
  assumes "m < m'" and "0 \<le> fst (snd m)" and "fst (snd m) \<le> 11" and "0 \<le> fst (snd m')" and "fst (snd m') \<le> 11"
  shows "calendar_date m < calendar_date m'"
  using assms by (cases m; cases m') (auto simp: calendar_date_def less_prod_simp less_eq_prod_simp)

lemma civil_mono: "a < b \<Longrightarrow> civil_of_days a < civil_of_days b"
  unfolding civil_march by (rule calendar_date_mono) (simp_all add: march_date_mono march_date_bounds)

subsection \<open>Texts\<close>

lemma append_less:
  "length xs = length ys \<Longrightarrow> xs @ us < ys @ vs \<longleftrightarrow> xs < ys \<or> xs = ys \<and> us < (vs :: 'a :: linorder list)"
  by (induction xs ys rule: list_induct2) auto

fun digits_of :: "nat \<Rightarrow> int \<Rightarrow> string" where
  "digits_of 0 n = []"
| "digits_of (Suc w) n = digits_of w (n div 10) @ [char_of (48 + nat (n mod 10))]"

lemma length_digits_of [simp]: "length (digits_of w n) = w"
  by (induction w arbitrary: n) simp_all

lemma digits_of_zero: "digits_of w 0 = replicate w (CHR ''0'')"
proof (induction w)
  case (Suc w)
  have "char_of (48 :: nat) = CHR ''0''" by code_simp
  then show ?case using Suc by (simp add: replicate_append_same)
qed simp

lemma length_nat_digits: "n < 10 ^ w \<Longrightarrow> 0 < w \<Longrightarrow> length (nat_digits n) \<le> w"
proof (induction w arbitrary: n)
  case (Suc w)
  show ?case
  proof (cases "n < 10")
    case False
    then have "n div 10 < 10 ^ w" using Suc.prems by (simp add: less_mult_imp_div_less)
    moreover have "0 < w" using False Suc.prems by (cases w) simp_all
    ultimately have "length (nat_digits (n div 10)) \<le> w" by (rule Suc.IH)
    then show ?thesis using False by (simp add: nat_digits.simps [of n])
  qed (simp add: nat_digits.simps [of n])
qed simp

lemma pad_nat_digits:
  "n < 10 ^ w \<Longrightarrow> 0 < w \<Longrightarrow> replicate (w - length (nat_digits n)) (CHR ''0'') @ nat_digits n = digits_of w (int n)"
proof (induction w arbitrary: n)
  case (Suc w)
  show ?case
  proof (cases "n < 10")
    case True
    then have "int n div 10 = 0" "nat (int n mod 10) = n" by simp_all
    then show ?thesis using True by (simp add: nat_digits.simps [of n] digits_of_zero)
  next
    case False
    then have small: "n div 10 < 10 ^ w" "0 < w"
      using Suc.prems by (cases w; simp add: less_mult_imp_div_less)+
    have "int n div 10 = int (n div 10)" "nat (int n mod 10) = n mod 10"
      by (simp_all add: zdiv_int nat_mod_distrib)
    then show ?thesis
      using Suc.IH [OF small] length_nat_digits [OF small] False by (simp add: nat_digits.simps [of n])
  qed
qed simp

lemma pad_digits_of: "0 \<le> n \<Longrightarrow> n < 10 ^ w \<Longrightarrow> 0 < w \<Longrightarrow> pad_digits w n = digits_of w n"
  using pad_nat_digits [of "nat n" w] by (simp add: pad_digits_def int_text_def Let_def nat_less_iff)

lemma digit_less: "a < 10 \<Longrightarrow> b < 10 \<Longrightarrow> (char_of (48 + a) :: char) < char_of (48 + b) \<longleftrightarrow> a < (b :: nat)"
  by (simp add: less_char_def)

lemma div_mod_less:
  assumes "0 < k" and "a < (b :: int)"
  shows "a div k < b div k \<or> a div k = b div k \<and> a mod k < b mod k"
proof (cases "a div k = b div k")
  case True
  have "a = a div k * k + a mod k" "b = b div k * k + b mod k" by simp_all
  then have "a mod k < b mod k" using assms(2) unfolding True by linarith
  then show ?thesis using True by simp
next
  case False
  moreover have "a div k \<le> b div k" using assms by (intro zdiv_mono1) simp_all
  ultimately show ?thesis by simp
qed

lemma digits_of_less:
  "0 \<le> a \<Longrightarrow> a < 10 ^ w \<Longrightarrow> 0 \<le> b \<Longrightarrow> b < 10 ^ w \<Longrightarrow> a < b \<Longrightarrow> digits_of w a < digits_of w b"
proof (induction w arbitrary: a b)
  case (Suc w)
  then have small: "a div 10 < 10 ^ w" "b div 10 < 10 ^ w" by (simp_all add: div_less_iff_less_mult)
  from Suc.prems(5) consider "a div 10 < b div 10" | "a div 10 = b div 10" "a mod 10 < b mod 10"
    using div_mod_less [of 10 a b] by fastforce
  then show ?case
  proof cases
    case 1
    then have "digits_of w (a div 10) < digits_of w (b div 10)" using Suc.IH small Suc.prems by simp
    then show ?thesis by (simp add: append_less)
  next
    case 2
    then have "nat (a mod 10) < nat (b mod 10)" "nat (a mod 10) < 10" "nat (b mod 10) < 10" by (simp_all add: nat_less_iff)
    then show ?thesis using 2(1) by (simp add: append_less digit_less)
  qed
qed simp

lemma pad_digits_less:
  assumes "0 \<le> a" "a < 10 ^ w" "0 \<le> b" "b < 10 ^ w" "0 < w" "a < b"
  shows "pad_digits w a < pad_digits w b"
  using assms by (simp add: pad_digits_of digits_of_less)

lemma length_pad_digits: "0 \<le> n \<Longrightarrow> n < 10 ^ w \<Longrightarrow> 0 < w \<Longrightarrow> length (pad_digits w n) = w"
  by (simp add: pad_digits_of)

text \<open>Two texts that start with a number of the same width, or with the same text.\<close>

lemma padded_less:
  assumes "0 \<le> a" "a < 10 ^ w" "0 \<le> b" "b < 10 ^ w" "0 < w" "a < b"
  shows "pad_digits w a @ us < pad_digits w b @ vs"
  using assms pad_digits_less [OF assms(1-6)] by (simp add: append_less length_pad_digits)

lemma same_start_less: "us < vs \<Longrightarrow> xs @ us < xs @ (vs :: string)"
  by (simp add: append_less)

text \<open>The time of day.\<close>

lemma clock_less:
  assumes "0 \<le> a" and "a < b" and "b < 86400000"
  shows "pad_digits 2 (a div 3600000) @ '':'' @ pad_digits 2 (a div 60000 mod 60) @ '':'' @
      pad_digits 2 (a div 1000 mod 60) @ ''.'' @ pad_digits 3 (a mod 1000) @ ''Z''
    < pad_digits 2 (b div 3600000) @ '':'' @ pad_digits 2 (b div 60000 mod 60) @ '':'' @
      pad_digits 2 (b div 1000 mod 60) @ ''.'' @ pad_digits 3 (b mod 1000) @ ''Z''"
proof -
  have range: "0 \<le> x mod 60" "x mod 60 < 10\<^sup>2" "0 \<le> x mod 1000" "x mod 1000 < 10 ^ 3" for x :: int
    using pos_mod_bound [of 60 x] pos_mod_bound [of 1000 x] by simp_all
  have hours: "0 \<le> a div 3600000" "a div 3600000 < 10\<^sup>2" "0 \<le> b div 3600000" "b div 3600000 < 10\<^sup>2"
    using assms by (simp_all add: pos_imp_zdiv_nonneg_iff div_less_iff_less_mult)
  have split: "x div 60000 = x div 1000 div 60" "x div 3600000 = x div 60000 div 60" for x :: int
    by (simp_all add: zdiv_zmult2_eq [symmetric])
  have s1: "a div 1000 < b div 1000 \<or> a div 1000 = b div 1000 \<and> a mod 1000 < b mod 1000"
    by (rule div_mod_less) (simp_all add: assms)
  have s2: "a div 60000 < b div 60000 \<or> a div 60000 = b div 60000 \<and> a div 1000 mod 60 < b div 1000 mod 60"
    if "a div 1000 < b div 1000" unfolding split(1) by (rule div_mod_less) (simp_all add: that)
  have s3: "a div 3600000 < b div 3600000 \<or> a div 3600000 = b div 3600000 \<and> a div 60000 mod 60 < b div 60000 mod 60"
    if "a div 60000 < b div 60000" unfolding split(2) by (rule div_mod_less) (simp_all add: that)
  have same: "a div 1000 = b div 1000 \<Longrightarrow> a div 60000 = b div 60000" "a div 60000 = b div 60000 \<Longrightarrow> a div 3600000 = b div 3600000"
    by (simp_all only: split)
  consider (h) "a div 3600000 < b div 3600000"
    | (m) "a div 3600000 = b div 3600000" "a div 60000 mod 60 < b div 60000 mod 60"
    | (s) "a div 3600000 = b div 3600000" "a div 60000 = b div 60000" "a div 1000 mod 60 < b div 1000 mod 60"
    | (ms) "a div 3600000 = b div 3600000" "a div 60000 = b div 60000" "a div 1000 = b div 1000" "a mod 1000 < b mod 1000"
    using s1 s2 s3 same by blast
  then show ?thesis
  proof cases
    case h
    then show ?thesis by (intro padded_less hours) simp_all
  next
    case m
    show ?thesis unfolding m(1) by (intro same_start_less padded_less range m(2)) simp_all
  next
    case s
    show ?thesis unfolding s(1,2) by (intro same_start_less padded_less range s(3)) simp_all
  next
    case ms
    show ?thesis unfolding ms(1-3) by (intro same_start_less padded_less range ms(4)) simp_all
  qed
qed

definition iso_years :: "instant \<Rightarrow> bool" where
  "iso_years t \<longleftrightarrow> -62167219200000 \<le> t \<and> t < 253402300800000"

lemma iso_years_days:
  assumes "iso_years t"
  shows "-719528 \<le> t div 86400000" and "t div 86400000 \<le> 2932896"
proof -
  have "-62167219200000 div 86400000 \<le> t div 86400000" using assms by (intro zdiv_mono1) (simp_all add: iso_years_def)
  then show "-719528 \<le> t div 86400000" by simp
  have "t div 86400000 \<le> 253402300799999 div 86400000" using assms by (intro zdiv_mono1) (simp_all add: iso_years_def)
  then show "t div 86400000 \<le> 2932896" by simp
qed

lemma civil_range:
  assumes "-719528 \<le> n" and "n \<le> 2932896" and "civil_of_days n = (y, m, d)"
  shows "0 \<le> y" "y < 10 ^ 4" "0 \<le> m" "m < 10\<^sup>2" "0 \<le> d" "d < 10\<^sup>2"
proof -
  have ends: "civil_of_days (-719528) = (0, 1, 1)" "civil_of_days 2932896 = (9999, 12, 31)" by code_simp+
  have "civil_of_days (-719528) \<le> civil_of_days n" "civil_of_days n \<le> civil_of_days 2932896"
    using civil_mono [of "-719528" n] civil_mono [of n 2932896] assms(1,2) by (auto simp: order_le_less)
  then show "0 \<le> y" "y < 10 ^ 4" unfolding ends assms(3) by (auto simp: less_eq_prod_simp)
  have "calendar_date (march_date (n + 719468)) = (y, m, d)" using assms(3) by (simp only: civil_march)
  then show "0 \<le> m" "m < 10\<^sup>2" "0 \<le> d" "d < 10\<^sup>2"
    using march_date_bounds [of "n + 719468"] by (cases "march_date (n + 719468)"; auto simp: calendar_date_def)+
qed

lemma iso_text_less:
  assumes "iso_years t" and "iso_years u" and "t < u"
  shows "iso_text t < iso_text u"
proof -
  obtain y m d where t: "civil_of_days (t div 86400000) = (y, m, d)" by (metis prod_cases3)
  obtain y' m' d' where u: "civil_of_days (u div 86400000) = (y', m', d')" by (metis prod_cases3)
  note rt = civil_range [OF iso_years_days [OF assms(1)] t] and ru = civil_range [OF iso_years_days [OF assms(2)] u]
  from div_mod_less [of 86400000 t u] assms(3)
  consider (day) "t div 86400000 < u div 86400000"
    | (clock) "t div 86400000 = u div 86400000" "t mod 86400000 < u mod 86400000" by fastforce
  then show ?thesis
  proof cases
    case day
    then have "(y, m, d) < (y', m', d')" using civil_mono [OF day] t u by simp
    then consider "y < y'" | "y = y'" "m < m'" | "y = y'" "m = m'" "d < d'" by (fastforce simp: less_prod_simp)
    then show ?thesis
    proof cases
      case 1
      then show ?thesis unfolding iso_text_def t u Let_def prod.case by (intro padded_less rt ru) simp_all
    next
      case 2
      show ?thesis unfolding iso_text_def t u Let_def prod.case 2(1) by (intro same_start_less padded_less rt ru 2(2)) simp_all
    next
      case 3
      show ?thesis
        unfolding iso_text_def t u Let_def prod.case 3(1,2) by (intro same_start_less padded_less rt ru 3(3)) simp_all
    qed
  next
    case clock
    have "0 \<le> t mod 86400000" "u mod 86400000 < 86400000" by simp_all
    note clock_less [OF this(1) clock(2) this(2)]
    then show ?thesis
      unfolding iso_text_def clock(1) u Let_def prod.case by (intro same_start_less)
  qed
qed

lemma iso_text_order:
  assumes "iso_years t" and "iso_years u"
  shows "iso_text t \<le> iso_text u \<longleftrightarrow> t \<le> u"
  using iso_text_less [OF assms] iso_text_less [OF assms(2,1)] by (cases t u rule: linorder_cases) auto

end
