(* ===== verification/Mail_Invariant.thy ===== *)
theory Mail_Invariant
  imports Mail_Moves Iso_Order
begin

text \<open>
  What holds of a mailbox's mail whatever operations run on it: every message is in a folder that exists, only
  snoozed mail carries the marks of a snooze, only trashed mail those of the trash, and the marks name folders a
  message may return to.
\<close>

subsection \<open>The invariant\<close>

definition snooze_marks_ok :: "message_row \<Rightarrow> bool" where
  "snooze_marks_ok m \<longleftrightarrow>
     (if ms_folder_id m = SNOOZED
      then isSnoozeSourceFolder (ms_snooze_source_folder_id m) \<and> (\<exists>t. ms_snoozed_until m = Some (Canon t))
      else ms_snooze_source_folder_id m = None \<and> ms_snoozed_until m = None)"

definition trash_marks_ok :: "message_row \<Rightarrow> bool" where
  "trash_marks_ok m \<longleftrightarrow>
     (if ms_folder_id m = TRASH
      then (\<exists>p. ms_previous_folder_id m = Some p \<and> p \<notin> {TRASH, SNOOZED, RETIRED_OUTBOUND}) \<and> ms_trashed_at m \<noteq> None
      else ms_previous_folder_id m = None \<and> ms_trashed_at m = None)"

definition message_ok :: "mailbox_db \<Rightarrow> message_row \<Rightarrow> bool" where
  "message_ok db m \<longleftrightarrow> folder_exists (ms_folder_id m) db \<and> snooze_marks_ok m \<and> trash_marks_ok m"

definition system_folders :: "mailbox_db \<Rightarrow> bool" where
  "system_folders db \<longleftrightarrow>
     (\<forall>i\<in>{INBOX, SNOOZED, ARCHIVE, TRASH}. \<exists>f\<in>set (bx_folders db). fo_id f = i \<and> \<not> fo_is_deletable f)"

definition mail_ok :: "mailbox_db \<Rightarrow> bool" where
  "mail_ok db \<longleftrightarrow> distinct (map ms_id (bx_messages db)) \<and> distinct (map fo_id (bx_folders db)) \<and>
     system_folders db \<and> (\<forall>m\<in>set (bx_messages db). message_ok db m)"

lemmas folder_names = INBOX_def SENT_def DRAFT_def OUTBOX_def SNOOZED_def ARCHIVE_def TRASH_def SPAM_def RETIRED_OUTBOUND_def

lemma folder_names_differ [simp]:
  "SNOOZED \<noteq> INBOX" "SNOOZED \<noteq> TRASH" "SNOOZED \<noteq> ARCHIVE" "TRASH \<noteq> INBOX" "TRASH \<noteq> ARCHIVE" "INBOX \<noteq> SNOOZED"
  "TRASH \<noteq> SNOOZED" "ARCHIVE \<noteq> SNOOZED" "INBOX \<noteq> TRASH" "ARCHIVE \<noteq> TRASH" "RETIRED_OUTBOUND \<noteq> SNOOZED" "SNOOZED \<noteq> RETIRED_OUTBOUND"
  "RETIRED_OUTBOUND \<noteq> TRASH" "TRASH \<noteq> RETIRED_OUTBOUND" "INBOX \<noteq> RETIRED_OUTBOUND" "ARCHIVE \<noteq> RETIRED_OUTBOUND"
  by (simp_all add: folder_names)

lemma snooze_source [simp]: "isSnoozeSourceFolder None = False"
  "isSnoozeSourceFolder (Some f) \<Longrightarrow> f \<noteq> SNOOZED \<and> f \<noteq> TRASH \<and> f \<noteq> RETIRED_OUTBOUND"
  by (auto simp: isSnoozeSourceFolder_def BLOCKED_SOURCE_FOLDERS_def)

subsection \<open>Edits of messages\<close>

text \<open>What the invariant depends on besides the messages.\<close>

definition same_folders :: "mailbox_db \<Rightarrow> mailbox_db \<Rightarrow> bool" where
  "same_folders db db' \<longleftrightarrow> bx_folders db' = bx_folders db"

lemma message_ok_folders: "bx_folders db' = bx_folders db \<Longrightarrow> message_ok db' m = message_ok db m"
  by (simp add: message_ok_def folder_exists_def)

lemma mail_ok_cong:
  "bx_messages db' = bx_messages db \<Longrightarrow> bx_folders db' = bx_folders db \<Longrightarrow> mail_ok db' = mail_ok db"
  by (simp add: mail_ok_def system_folders_def message_ok_folders [of db' db])

lemma recordActivity_fields [simp]:
  "bx_messages (recordActivity a v k i d t db) = bx_messages db" "bx_folders (recordActivity a v k i d t db) = bx_folders db"
  "bx_outbound (recordActivity a v k i d t db) = bx_outbound db" "bx_wakes (recordActivity a v k i d t db) = bx_wakes db"
  "bx_replies (recordActivity a v k i d t db) = bx_replies db" "bx_alarm (recordActivity a v k i d t db) = bx_alarm db"
  by (simp_all add: recordActivity_def)

lemma recordActivity_ok [simp]: "mail_ok (recordActivity a v k i d t db) = mail_ok db"
  by (rule mail_ok_cong) simp_all

lemma edit_messages_fields [simp]:
  "bx_folders (edit_messages P f db) = bx_folders db" "bx_outbound (edit_messages P f db) = bx_outbound db"
  "bx_messages (edit_messages P f db) = update_where P f (bx_messages db)" "bx_wakes (edit_messages P f db) = bx_wakes db"
  by (simp_all add: edit_messages_def)

lemma edit_messages_ok:
  assumes "mail_ok db" and "\<And>m. m \<in> set (bx_messages db) \<Longrightarrow> P m \<Longrightarrow> message_ok db m \<Longrightarrow> message_ok db (f m)"
    and "\<And>m. P m \<Longrightarrow> ms_id (f m) = ms_id m"
  shows "mail_ok (edit_messages P f db)"
proof -
  have "map ms_id (update_where P f (bx_messages db)) = map ms_id (bx_messages db)"
    using assms(3) by (rule keys_update_where)
  moreover have "\<forall>m\<in>set (update_where P f (bx_messages db)). message_ok db m"
    using assms(1,2) unfolding mail_ok_def by (auto simp: set_update_where)
  ultimately show ?thesis
    using assms(1) by (simp add: mail_ok_def system_folders_def message_ok_folders [of "edit_messages P f db" db])
qed

text \<open>The rows the operations write.\<close>

lemma trashed_ok:
  "message_ok db m \<Longrightarrow> system_folders db \<Longrightarrow> ms_folder_id m \<noteq> SNOOZED \<Longrightarrow> p \<notin> {TRASH, SNOOZED, RETIRED_OUTBOUND} \<Longrightarrow>
     message_ok db (trashed_row p now m)"
  by (auto simp: message_ok_def trashed_row_def snooze_marks_ok_def trash_marks_ok_def system_folders_def folder_exists_def
      list_ex_iff)

lemma filed_ok:
  "message_ok db m \<Longrightarrow> folder_exists f db \<Longrightarrow> ms_folder_id m \<noteq> SNOOZED \<Longrightarrow> f \<notin> {SNOOZED, TRASH} \<Longrightarrow>
     clear \<or> ms_folder_id m \<noteq> TRASH \<Longrightarrow> message_ok db (filed_row f clear m)"
  by (auto simp: message_ok_def filed_row_def snooze_marks_ok_def trash_marks_ok_def)

lemma woken_ok:
  "message_ok db m \<Longrightarrow> ms_folder_id m = SNOOZED \<Longrightarrow> folder_exists f db \<Longrightarrow> f \<notin> {SNOOZED, TRASH} \<Longrightarrow>
     message_ok db (woken f m)"
  by (auto simp: message_ok_def woken_def snooze_marks_ok_def trash_marks_ok_def)

lemma snoozed_ok:
  "message_ok db m \<Longrightarrow> system_folders db \<Longrightarrow> isSnoozeSourceFolder (Some f) \<Longrightarrow> message_ok db (snoozed_row f t m)"
  by (auto simp: message_ok_def snoozed_row_def snooze_marks_ok_def trash_marks_ok_def system_folders_def folder_exists_def
      list_ex_iff)

lemma flags_ok [simp]: "message_ok db (set_flags r s m) = message_ok db m" "message_ok db (m\<lparr>ms_read := b\<rparr>) = message_ok db m"
  by (simp_all add: message_ok_def set_flags_def snooze_marks_ok_def trash_marks_ok_def)

lemma row_ids [simp]: "ms_id (trashed_row p now m) = ms_id m" "ms_id (filed_row f c m) = ms_id m" "ms_id (woken f m) = ms_id m"
  "ms_id (snoozed_row f t m) = ms_id m" "ms_id (set_flags r s m) = ms_id m"
  by (simp_all add: trashed_row_def filed_row_def woken_def snoozed_row_def set_flags_def)

lemma row_folders [simp]: "ms_folder_id (trashed_row p now m) = TRASH" "ms_folder_id (filed_row f c m) = f"
  "ms_folder_id (woken f m) = f" "ms_folder_id (snoozed_row f t m) = SNOOZED" "ms_folder_id (set_flags r s m) = ms_folder_id m"
  by (simp_all add: trashed_row_def filed_row_def woken_def snoozed_row_def set_flags_def)

lemma inbox_exists: "system_folders db \<Longrightarrow> folder_exists INBOX db" "system_folders db \<Longrightarrow> folder_exists ARCHIVE db"
  by (auto simp: system_folders_def folder_exists_def list_ex_iff)

lemma wake_folder_ok:
  assumes "system_folders db"
  shows "folder_exists (wake_folder db m) db" "wake_folder db m \<notin> {SNOOZED, TRASH}"
  using assms inbox_exists(1) [OF assms] snooze_source(2)
  by (auto simp: wake_folder_def resolveUnsnoozeFolder_def source_exists_def split: option.splits)

subsection \<open>Looking messages up\<close>

lemma same_message:
  "mail_ok db \<Longrightarrow> m \<in> set (bx_messages db) \<Longrightarrow> m' \<in> set (bx_messages db) \<Longrightarrow> ms_id m = ms_id m' \<Longrightarrow> m = m'"
  unfolding mail_ok_def distinct_map by (blast dest: inj_onD)

lemma find_message_Some: "find_message i db = Some m \<Longrightarrow> m \<in> set (bx_messages db) \<and> ms_id m = i"
  by (auto simp: find_message_def dest: find_key_Some)

lemma found: "find P xs = Some x \<Longrightarrow> x \<in> set xs \<and> P x"
  by (induction xs) (auto split: if_splits)

lemma visible_folder:
  assumes "visibleFolderId ref db = Some f"
  shows "folder_exists f db" "f \<noteq> RETIRED_OUTBOUND"
  using assms
  by (auto simp: visibleFolderId_def Let_def folder_exists_def list_ex_iff internal_folder_def isInternalFolderId_def
      split: option.splits if_splits dest!: found)

lemma visible_again:
  assumes "visibleFolderId ref db = Some f"
  shows "visibleFolderId f db = Some f"
proof -
  from visible_folder(1) [OF assms] obtain r where r: "find (\<lambda>r. fo_id r = f) (bx_folders db) = Some r"
    by (cases "find (\<lambda>r. fo_id r = f) (bx_folders db)") (auto simp: folder_exists_def list_ex_iff find_None_iff)
  then have "fo_id r = f" using found [OF r] by simp
  then show ?thesis
    using r visible_folder(2) [OF assms] by (simp add: visibleFolderId_def internal_folder_def isInternalFolderId_def)
qed

text \<open>The scope of a conversation lists each message of it in the folder once per group.\<close>

definition conversation_mail :: "string \<Rightarrow> string \<Rightarrow> mailbox_db \<Rightarrow> message_row list" where
  "conversation_mail c f db = filter (\<lambda>m. ms_folder_id m = f \<and> raw_thread_id m = c) (bx_messages db)"

definition conversation_groups :: "string \<Rightarrow> string \<Rightarrow> mailbox_db \<Rightarrow> nat" where
  "conversation_groups c f db =
     length (filter (\<lambda>g. fst g = c) (thread_groups (filter (\<lambda>m. ms_folder_id m = f) (bx_messages db))))"

lemma group_member: "m \<in> set ms \<Longrightarrow> filter (\<lambda>g. fst g = raw_thread_id m) (thread_groups ms) \<noteq> []"
  by (auto simp: thread_groups_def filter_empty_conv)

lemma joined_ids:
  assumes "\<And>m. m \<in> set ms \<Longrightarrow> filter (\<lambda>g. fst g = raw_thread_id m) groups \<noteq> []"
  shows "map (\<lambda>(m, x). ms_id m) (filter (\<lambda>(m, x). x = c) (concat (map (\<lambda>m.
      case filter (\<lambda>g. fst g = raw_thread_id m) groups of [] \<Rightarrow> [(m, raw_thread_id m)]
      | gs \<Rightarrow> map (\<lambda>g. (m, CONVERSATION_ID g)) gs) ms))) =
    concat (map (\<lambda>m. replicate (length (filter (\<lambda>g. fst g = c) groups)) (ms_id m)) (filter (\<lambda>m. raw_thread_id m = c) ms))"
  using assms
proof (induction ms)
  case (Cons m ms)
  let ?gs = "filter (\<lambda>g. fst g = raw_thread_id m) groups"
  have "?gs \<noteq> []" using Cons.prems [of m] by simp
  then have join: "(case ?gs of [] \<Rightarrow> [(m, raw_thread_id m)] | gs \<Rightarrow> map (\<lambda>g. (m, CONVERSATION_ID g)) gs) =
      map (\<lambda>g. (m, CONVERSATION_ID g)) ?gs" by (simp only: neq_Nil_conv) auto
  have "map (\<lambda>(m, x). ms_id m) (filter (\<lambda>(m, x). x = c) (map (\<lambda>g. (m, CONVERSATION_ID g)) ?gs)) =
      (if raw_thread_id m = c then replicate (length (filter (\<lambda>g. fst g = c) groups)) (ms_id m) else [])"
    by (auto simp: filter_map comp_def CONVERSATION_ID_def map_replicate_const conj_commute filter_empty_conv
        cong: conj_cong)
  then show ?case using Cons join by simp
qed simp

lemma conversationScope_eq:
  "conversationScope c ref db = map_option (\<lambda>f. (f, concat (map (\<lambda>m. replicate (conversation_groups c f db) (ms_id m))
     (conversation_mail c f db)))) (visibleFolderId ref db)"
proof (cases "visibleFolderId ref db")
  case (Some f)
  let ?ms = "filter (\<lambda>m. ms_folder_id m = f) (bx_messages db)"
  show ?thesis
    unfolding conversationScope_def Some Let_def option.case option.map conversation_mail_def conversation_groups_def
    by (subst joined_ids [OF group_member]) (simp_all add: conj_commute)
qed (simp add: conversationScope_def)

lemma scope_folder:
  assumes "conversationScope c ref db = Some (f, ids)"
  shows "visibleFolderId ref db = Some f" and "\<And>i. i \<in> set ids \<Longrightarrow> \<exists>m\<in>set (bx_messages db). ms_id m = i \<and> ms_folder_id m = f"
  using assms unfolding conversationScope_eq by (auto simp: conversation_mail_def)

text \<open>All ids of a list belong to messages of one folder.\<close>

definition ids_in :: "string \<Rightarrow> string list \<Rightarrow> mailbox_db \<Rightarrow> bool" where
  "ids_in f ids db \<longleftrightarrow> (\<forall>i\<in>set ids. \<exists>m\<in>set (bx_messages db). ms_id m = i \<and> ms_folder_id m = f)"

lemma ids_inD:
  assumes "mail_ok db" and "ids_in f ids db" and "m \<in> set (bx_messages db)" and "ms_id m \<in> set ids"
  shows "ms_folder_id m = f"
proof -
  from assms(2,4) obtain m' where "m' \<in> set (bx_messages db)" "ms_id m' = ms_id m" "ms_folder_id m' = f"
    unfolding ids_in_def by metis
  with same_message [OF assms(1,3), of m'] show ?thesis by simp
qed

lemma target_ids:
  assumes "resolveTarget t db = Some (ids, f)"
  shows "ids_in f ids db" "folder_exists f db" "f \<noteq> RETIRED_OUTBOUND"
proof -
  from assms obtain g where g: "visibleFolderId (tg_folderId t) db = Some g"
    by (auto simp: resolveTarget_def split: option.splits)
  show "ids_in f ids db"
  proof (cases "target_conversation t")
    case None
    then show ?thesis using assms g by (auto simp: resolveTarget_def ids_in_def dest!: found)
  next
    case (Some c)
    then have "conversationScope c g db = Some (f, ids)"
      using assms g by (auto simp: resolveTarget_def split: option.splits if_splits)
    then show ?thesis using scope_folder(2) by (auto simp: ids_in_def)
  qed
  have "\<exists>ref. visibleFolderId ref db = Some f"
    using assms g by (auto simp: resolveTarget_def split: option.splits if_splits dest!: scope_folder(1))
  then show "folder_exists f db" "f \<noteq> RETIRED_OUTBOUND" using visible_folder by blast+
qed

subsection \<open>Operations\<close>

text \<open>
  One step of a mailbox. Mail arrives in a folder that exists and without marks; deliveries change as the outbox
  decides. A request to wake a conversation comes with mail that arrives in it.
\<close>

datatype mail_op =
  Mo_flags string "bool option" "bool option" mail_actor instant
| Mo_thread_read string mail_actor instant
| Mo_conversation_read string string bool mail_actor instant
| Mo_triage triage_action "triage_target list" mail_actor instant
| Mo_archive string string string mail_actor instant
| Mo_trash_conversation string string string mail_actor instant
| Mo_trash string mail_actor instant
| Mo_restore string mail_actor instant
| Mo_move string string mail_actor instant
| Mo_snooze snooze_scope instant mail_actor instant
| Mo_unsnooze snooze_scope mail_actor instant
| Mo_create_folder string string bool
| Mo_rename_folder string string instant
| Mo_delete_folder "string \<Rightarrow> bool" string mail_actor instant
| Mo_wake_due "string \<Rightarrow> instant option" instant
| Mo_wake_replied instant
| Mo_request_wake wake_row
| Mo_arrive message_row
| Mo_deliveries "outbound_ref list"

fun run_mail_op :: "mail_op \<Rightarrow> mailbox_db \<Rightarrow> mailbox_db" where
  "run_mail_op (Mo_flags i r s a now) db = snd (updateEmail_transaction i r s a now db)"
| "run_mail_op (Mo_thread_read t a now) db = snd (markThreadRead t a now db)"
| "run_mail_op (Mo_conversation_read c f r a now) db = snd (setConversationRead c f r a now db)"
| "run_mail_op (Mo_triage action ts a now) db = snd (executeBatchTriage action ts a now db)"
| "run_mail_op (Mo_archive c f e a now) db = snd (archiveConversation c f e a now db)"
| "run_mail_op (Mo_trash_conversation c f e a now) db = snd (trashConversation c f e a now db)"
| "run_mail_op (Mo_trash i a now) db = snd (trashEmail i a now db)"
| "run_mail_op (Mo_restore i a now) db = snd (restoreEmail i a now db)"
| "run_mail_op (Mo_move i f a now) db = snd (moveEmail i f a now db)"
| "run_mail_op (Mo_snooze s t a now) db = snd (executeSnooze s t a now db)"
| "run_mail_op (Mo_unsnooze s a now) db = snd (executeUnsnooze s a now db)"
| "run_mail_op (Mo_create_folder i n d) db = snd (createFolder i n d db)"
| "run_mail_op (Mo_rename_folder i n now) db = snd (updateFolder i n now db)"
| "run_mail_op (Mo_delete_folder used i a now) db = snd (deleteFolder used i a now db)"
| "run_mail_op (Mo_wake_due dp now) db = snd (processDueSnoozeBatch dp now db)"
| "run_mail_op (Mo_wake_replied now) db = snd (processReplyWakeBatch now db)"
| "run_mail_op (Mo_request_wake w) db = db\<lparr>bx_wakes := filter (\<lambda>v. wq_thread_id v \<noteq> wq_thread_id w) (bx_wakes db) @ [w]\<rparr>"
| "run_mail_op (Mo_arrive m) db =
     (if message_ok db m \<and> ms_folder_id m \<notin> {SNOOZED, TRASH} \<and> ms_id m \<notin> ms_id ` set (bx_messages db)
      then db\<lparr>bx_messages := bx_messages db @ [m]\<rparr> else db)"
| "run_mail_op (Mo_deliveries ds) db = db\<lparr>bx_outbound := ds\<rparr>"

definition run_mail_ops :: "mail_op list \<Rightarrow> mailbox_db \<Rightarrow> mailbox_db" where
  "run_mail_ops ops db = fold run_mail_op ops db"

lemma run_mail_ops_simps [simp]:
  "run_mail_ops [] db = db" "run_mail_ops (op # ops) db = run_mail_ops ops (run_mail_op op db)"
  by (simp_all add: run_mail_ops_def)

text \<open>What a step may do with a message: nothing, change flags, or write one of the rows above where that is safe.\<close>

definition fair_edit :: "mailbox_db \<Rightarrow> (message_row \<Rightarrow> bool) \<Rightarrow> (message_row \<Rightarrow> message_row) \<Rightarrow> bool" where
  "fair_edit db P f \<longleftrightarrow> (\<forall>m\<in>set (bx_messages db). P m \<longrightarrow> message_ok db m \<longrightarrow> message_ok db (f m)) \<and>
     (\<forall>m. ms_id (f m) = ms_id m)"

lemma fair_edit_ok: "mail_ok db \<Longrightarrow> fair_edit db P f \<Longrightarrow> mail_ok (edit_messages P f db)"
  by (rule edit_messages_ok) (auto simp: fair_edit_def)

lemma mail_okD:
  assumes "mail_ok db"
  shows "system_folders db" "\<And>m. m \<in> set (bx_messages db) \<Longrightarrow> message_ok db m"
  using assms by (auto simp: mail_ok_def)

lemma flags_step: "mail_ok db \<Longrightarrow> mail_ok (snd (updateEmail_transaction i r s a now db))"
  by (auto simp: updateEmail_transaction_def noted_flag_def Let_def fair_edit_def intro!: fair_edit_ok split: option.split)

lemma thread_read_step: "mail_ok db \<Longrightarrow> mail_ok (snd (markThreadRead t a now db))"
  by (auto simp: markThreadRead_def Let_def fair_edit_def intro!: fair_edit_ok)

lemma setRead_step: "mail_ok db \<Longrightarrow> mail_ok (snd (setRead ids r db))"
  by (auto simp: setRead_def Let_def fair_edit_def intro!: fair_edit_ok)

lemma conversation_read_step: "mail_ok db \<Longrightarrow> mail_ok (snd (setConversationRead c f r a now db))"
  using setRead_step [of db _ r] by (auto simp: setConversationRead_def split: option.split prod.splits) (metis snd_conv)+

lemma trash_step:
  assumes ok: "mail_ok db"
  shows "mail_ok (snd (trashEmail i a now db))"
proof -
  have "fair_edit db (\<lambda>m. ms_id m = i) (trashed_row (ms_folder_id m) now)"
    if m: "find_message i db = Some m" "\<not> internal_folder (ms_folder_id m)" "\<not> snoozeBlocksGenericMove m" "ms_folder_id m \<noteq> TRASH" for m
  proof -
    have m': "m \<in> set (bx_messages db)" "ms_id m = i" using find_message_Some [OF m(1)] by auto
    have folder: "ms_folder_id m \<notin> {TRASH, SNOOZED, RETIRED_OUTBOUND}"
      using m by (auto simp: snoozeBlocksGenericMove_def internal_folder_def isInternalFolderId_def)
    have "m1 = m" if "m1 \<in> set (bx_messages db)" "ms_id m1 = i" for m1 using same_message [OF ok that(1) m'(1)] that m' by simp
    then show ?thesis
      unfolding fair_edit_def using folder trashed_ok mail_okD(1) [OF ok] by auto
  qed
  then show ?thesis
    using ok by (auto simp: trashEmail_def planTrash_def intro!: fair_edit_ok split: option.split)
qed

lemma restore_step:
  assumes ok: "mail_ok db"
  shows "mail_ok (snd (restoreEmail i a now db))"
proof (cases "find_message i db")
  case (Some m)
  then have m: "m \<in> set (bx_messages db)" "ms_id m = i" using find_message_Some by auto
  let ?folder = "resolveRestoreFolder (ms_previous_folder_id m)
      (case ms_previous_folder_id m of None \<Rightarrow> False | Some f \<Rightarrow> f \<noteq> [] \<and> folder_exists f db)"
  show ?thesis
  proof (cases "ms_folder_id m = TRASH")
    case True
    have "trash_marks_ok m" using mail_okD(2) [OF ok m(1)] by (simp add: message_ok_def)
    then have folder: "folder_exists ?folder db" "?folder \<notin> {SNOOZED, TRASH}"
      using True inbox_exists(1) [OF mail_okD(1) [OF ok]]
      by (auto simp: trash_marks_ok_def resolveRestoreFolder_def split: option.splits)
    have "m1 = m" if "m1 \<in> set (bx_messages db)" "ms_id m1 = i" for m1 using same_message [OF ok that(1) m(1)] that m by simp
    then have "fair_edit db (\<lambda>m. ms_id m = i) (filed_row ?folder True)"
      unfolding fair_edit_def using folder filed_ok True by auto
    from fair_edit_ok [OF ok this] show ?thesis by (simp add: restoreEmail_def Some Let_def True)
  qed (simp add: restoreEmail_def Some ok)
qed (simp add: restoreEmail_def ok)

lemma move_by_trash:
  "snd (case trashEmail i a now db of (Tr_outbound_active d, db1) \<Rightarrow> (Mv_outbound_active d, db1)
      | (status, db1) \<Rightarrow> (Mv_done (status \<noteq> Tr_missing), db1)) = snd (trashEmail i a now db)"
  by (simp split: prod.split trash_status.split)

lemma move_step:
  assumes ok: "mail_ok db"
  shows "mail_ok (snd (moveEmail i f a now db))"
proof -
  have filing: "fair_edit db (\<lambda>m. ms_id m = i) (filed_row f (ms_folder_id m = TRASH))"
    if m: "find_message i db = Some m" "\<not> snoozeBlocksGenericMove m" "folder_exists f db" "f \<noteq> SNOOZED" "f \<noteq> TRASH" for m
  proof -
    have m': "m \<in> set (bx_messages db)" "ms_id m = i" using find_message_Some [OF m(1)] by auto
    have "m1 = m" if "m1 \<in> set (bx_messages db)" "ms_id m1 = i" for m1 using same_message [OF ok that(1) m'(1)] that m' by simp
    moreover have "ms_folder_id m \<noteq> SNOOZED" using m(2) by (simp add: snoozeBlocksGenericMove_def)
    ultimately show ?thesis unfolding fair_edit_def using m filed_ok by auto
  qed
  then show ?thesis
    using ok trash_step [OF ok, of i a now]
    by (auto simp: moveEmail_def planMove_def move_by_trash intro!: fair_edit_ok split: option.split if_splits)
qed

text \<open>Filing a list of messages of one folder.\<close>

lemma refile_ok:
  assumes ok: "mail_ok db" and ids: "ids_in f ids db" and f: "f \<notin> {TRASH, SNOOZED, RETIRED_OUTBOUND}"
    and target: "target = TRASH \<or> target = ARCHIVE"
  shows "mail_ok (refile ids f target now db)"
proof -
  have "ms_folder_id m = f" if "m \<in> set (bx_messages db)" "ms_id m \<in> set ids" for m by (rule ids_inD [OF ok ids that])
  then have "fair_edit db (\<lambda>m. ms_id m \<in> set ids) (if target = TRASH then trashed_row f now else filed_row target True)"
    using target f trashed_ok [OF _ mail_okD(1) [OF ok]] filed_ok inbox_exists(2) [OF mail_okD(1) [OF ok]]
    by (auto simp: fair_edit_def)
  then show ?thesis unfolding refile_def by (rule fair_edit_ok [OF ok])
qed

lemma target_folder:
  assumes "visibleFolderId ref db = Some p" and "resolveTarget (t\<lparr>tg_folderId := p\<rparr>) db = Some (ids, f)"
  shows "f = p"
  using assms(2) visible_again [OF assms(1)] scope_folder(1) by (fastforce simp: resolveTarget_def split: option.splits if_splits)

lemma triage_refile:
  assumes ok: "mail_ok db" and "visibleFolderId ref db = Some p" and "resolveTarget (t\<lparr>tg_folderId := p\<rparr>) db = Some (ids, f)"
    and "isBatchTriageActionAllowed action p" and "triage_folder action = Some f'"
  shows "mail_ok (refile ids f f' now db)"
proof -
  have "f = p" by (rule target_folder [OF assms(2,3)])
  then show ?thesis
    using assms(4,5) target_ids [OF assms(3)]
    by (intro refile_ok ok) (auto simp: triage_folder_def isBatchTriageActionAllowed_def split: triage_action.splits if_splits)
qed

lemma triage_activity_ok [simp]: "mail_ok (triage_activity action t n a now db) = mail_ok db"
  by (simp add: triage_activity_def)

lemma triage_one_step:
  assumes ok: "mail_ok db"
  shows "mail_ok (snd (triage_one action a now t db))"
proof (cases "visibleFolderId (tg_folderId t) db")
  case None
  then show ?thesis using ok by (simp add: triage_one_def Let_def)
next
  case (Some p)
  let ?t = "t\<lparr>tg_folderId := p\<rparr>"
  have "mail_ok (snd (setRead ids r db))" for ids r by (rule setRead_step [OF ok])
  moreover have "mail_ok (refile ids f f' now db)"
    if "resolveTarget ?t db = Some (ids, f)" "isBatchTriageActionAllowed action p" "triage_folder action = Some f'" for ids f f'
    by (rule triage_refile [OF ok Some that])
  ultimately show ?thesis
    using ok unfolding triage_one_def Let_def Some
    by (auto split: option.split prod.split simp: case_prod_beta)
qed

lemma triage_loop_step: "mail_ok db \<Longrightarrow> mail_ok (snd (triage_loop action a now ts db))"
proof (induction ts arbitrary: db)
  case (Cons t ts)
  then have "mail_ok (snd (triage_one action a now t db))" by (intro triage_one_step)
  then show ?case using Cons.IH by (simp add: case_prod_beta)
qed simp

lemma triage_step: "mail_ok db \<Longrightarrow> mail_ok (snd (executeBatchTriage action ts a now db))"
  using triage_loop_step by (simp add: executeBatchTriage_def Let_def case_prod_beta)

lemma conversation_move_step:
  assumes ok: "mail_ok db" and target: "target = TRASH \<or> target = ARCHIVE"
  shows "mail_ok (snd (moveConversationInFolder c ref target e a now db))"
proof (cases "visibleFolderId ref db")
  case (Some p)
  have "mail_ok (refile ids f target now db)"
    if scope: "conversationScope c p db = Some (f, ids)"
      and allowed: "isBatchTriageActionAllowed (if target = ARCHIVE then Archive_action else Trash_action) p" for f ids
  proof -
    have "visibleFolderId p db = Some f" using scope_folder(1) [OF scope] .
    then have "f = p" using visible_again [OF Some] by simp
    moreover have "p \<noteq> RETIRED_OUTBOUND" using visible_folder(2) [OF Some] .
    ultimately show ?thesis
      using scope_folder(2) [OF scope] allowed target
      by (intro refile_ok ok) (auto simp: ids_in_def isBatchTriageActionAllowed_def split: if_splits)
  qed
  then show ?thesis
    using ok unfolding moveConversationInFolder_def Let_def Some by (auto split: option.split prod.split)
qed (simp add: moveConversationInFolder_def Let_def ok)

lemma snooze_activity_fields [simp]:
  "bx_messages (snooze_activity a v s d t db) = bx_messages db" "bx_folders (snooze_activity a v s d t db) = bx_folders db"
  "bx_outbound (snooze_activity a v s d t db) = bx_outbound db" "mail_ok (snooze_activity a v s d t db) = mail_ok db"
  by (simp_all add: snooze_activity_def split: prod.split)

text \<open>The rows a snooze or its end is about are the messages with the listed ids.\<close>

lemma rows_of_rows:
  assumes "rows_of ids db = Scope_rows rows"
  shows "rows = filter (\<lambda>m. ms_id m \<in> set ids) (bx_messages db)" and "length rows = length ids"
  using assms by (auto simp: rows_of_def Let_def split: if_splits)

lemma resolved_rows:
  assumes "resolveScope scope u db = Scope_rows rows"
  obtains ids where "rows_of ids db = Scope_rows rows"
  using assms by (auto simp: resolveScope_def split: snooze_scope.splits option.splits if_splits)

lemma rows_ids:
  assumes "rows_of ids db = Scope_rows rows" and "m \<in> set (bx_messages db)"
  shows "ms_id m \<in> set (map ms_id rows) \<longleftrightarrow> m \<in> set rows"
  using rows_of_rows(1) [OF assms(1)] assms(2) by auto

lemma snooze_step:
  assumes ok: "mail_ok db"
  shows "mail_ok (snd (executeSnooze scope t a now db))"
proof -
  have "mail_ok (edit_messages P (snoozed_row f t) db)" if "isSnoozeSourceFolder (Some f)" for P f
    using snoozed_ok [OF _ mail_okD(1) [OF ok] that] by (intro fair_edit_ok ok) (simp add: fair_edit_def)
  then show ?thesis
    using ok by (auto simp: executeSnooze_def Let_def split: scope_rows.split list.split)
qed

lemma clearSnooze_fields [simp]: "bx_folders (clearSnooze ts db) = bx_folders db" "bx_outbound (clearSnooze ts db) = bx_outbound db"
  by (induction ts arbitrary: db) (auto simp: clearSnooze_def)

lemma clearSnooze_simps [simp]: "clearSnooze [] db = db"
  "clearSnooze ((i, f) # ts) db = clearSnooze ts (edit_messages (\<lambda>m. ms_id m = i) (woken f) db)"
  by (simp_all add: clearSnooze_def)

lemma clearSnooze_ok:
  assumes "mail_ok db" and "\<And>i f. (i, f) \<in> set ts \<Longrightarrow> folder_exists f db \<and> f \<notin> {SNOOZED, TRASH} \<and> ids_in SNOOZED [i] db"
    and "distinct (map fst ts)"
  shows "mail_ok (clearSnooze ts db)"
  using assms
proof (induction ts arbitrary: db)
  case (Cons t ts)
  obtain i f where t: "t = (i, f)" by (metis surj_pair)
  let ?db = "edit_messages (\<lambda>m. ms_id m = i) (woken f) db"
  have head: "folder_exists f db" "f \<notin> {SNOOZED, TRASH}" "ids_in SNOOZED [i] db" using Cons.prems(2) [of i f] t by simp_all
  have "ms_folder_id m = SNOOZED" if "m \<in> set (bx_messages db)" "ms_id m = i" for m
    using ids_inD [OF Cons.prems(1) head(3) that(1)] that(2) by simp
  then have "fair_edit db (\<lambda>m. ms_id m = i) (woken f)"
    unfolding fair_edit_def using woken_ok head(1,2) by auto
  then have "mail_ok ?db" by (rule fair_edit_ok [OF Cons.prems(1)])
  moreover have "folder_exists g ?db \<and> g \<notin> {SNOOZED, TRASH} \<and> ids_in SNOOZED [j] ?db" if "(j, g) \<in> set ts" for j g
  proof -
    have "folder_exists g db \<and> g \<notin> {SNOOZED, TRASH} \<and> ids_in SNOOZED [j] db"
      using Cons.prems(2) [of j g] that t by simp
    moreover have "j \<noteq> i" using Cons.prems(3) that t by (force simp: rev_image_eqI)
    ultimately show ?thesis by (fastforce simp: ids_in_def folder_exists_def set_update_where)
  qed
  ultimately show ?case unfolding t using Cons.IH [of ?db] Cons.prems(3) by (simp add: t)
qed simp

lemma unsnooze_step:
  assumes ok: "mail_ok db"
  shows "mail_ok (snd (executeUnsnooze scope a now db))"
proof -
  have "mail_ok (clearSnooze (map (\<lambda>m. (ms_id m, wake_folder db m)) rows) db)"
    if "resolveScope scope True db = Scope_rows rows" "\<not> list_ex (\<lambda>m. ms_folder_id m \<noteq> SNOOZED) rows" for rows
  proof -
    from that(1) obtain ids where "rows_of ids db = Scope_rows rows" by (rule resolved_rows)
    then have rows: "rows = filter (\<lambda>m. ms_id m \<in> set ids) (bx_messages db)" by (rule rows_of_rows)
    have "distinct (map ms_id rows)" unfolding rows using ok by (simp add: mail_ok_def distinct_map_filter)
    moreover have "ids_in SNOOZED [ms_id m] db" if "m \<in> set rows" for m
      using that \<open>\<not> list_ex _ rows\<close> unfolding rows by (auto simp: ids_in_def list_ex_iff)
    ultimately show ?thesis
      using wake_folder_ok [OF mail_okD(1) [OF ok]] by (intro clearSnooze_ok ok) (auto simp: comp_def)
  qed
  then show ?thesis
    using ok by (auto simp: executeUnsnooze_def Let_def simp del: clearSnooze_simps split: scope_rows.split list.split)
qed

text \<open>Waking by time and by replies.\<close>

lemma wake_fold_ok:
  assumes "mail_ok db" and "\<And>i f. (i, f) \<in> set ts \<Longrightarrow> folder_exists f db \<and> f \<notin> {SNOOZED, TRASH}"
  shows "mail_ok (fold (\<lambda>(i, f). edit_messages (\<lambda>m. ms_id m = i \<and> ms_folder_id m = SNOOZED) (woken f)) ts db)"
  using assms
proof (induction ts arbitrary: db)
  case (Cons t ts)
  obtain i f where t: "t = (i, f)" by (metis surj_pair)
  let ?db = "edit_messages (\<lambda>m. ms_id m = i \<and> ms_folder_id m = SNOOZED) (woken f) db"
  have "folder_exists f db" "f \<notin> {SNOOZED, TRASH}" using Cons.prems(2) [of i f] t by simp_all
  then have "fair_edit db (\<lambda>m. ms_id m = i \<and> ms_folder_id m = SNOOZED) (woken f)"
    unfolding fair_edit_def using woken_ok by auto
  then have "mail_ok ?db" by (rule fair_edit_ok [OF Cons.prems(1)])
  moreover have "folder_exists g ?db \<and> g \<notin> {SNOOZED, TRASH}" if "(j, g) \<in> set ts" for j g
    using Cons.prems(2) [of j g] that by (simp add: folder_exists_def)
  ultimately show ?case unfolding t using Cons.IH [of ?db] by simp
qed simp

lemma wake_due_step:
  assumes ok: "mail_ok db"
  shows "mail_ok (snd (processDueSnoozeBatch dp now db))"
proof -
  have "mail_ok (fold (\<lambda>(i, f). edit_messages (\<lambda>m. ms_id m = i \<and> ms_folder_id m = SNOOZED) (woken f))
      (map (\<lambda>m. (ms_id m, wake_folder db m)) ms) db)" for ms
    using wake_folder_ok [OF mail_okD(1) [OF ok]] by (intro wake_fold_ok ok) auto
  then show ?thesis using ok by (simp add: processDueSnoozeBatch_def planDueSnoozeWake_def Let_def)
qed

lemma wake_replied_step:
  assumes ok: "mail_ok db"
  shows "mail_ok (snd (processReplyWakeBatch now db))"
proof -
  have "mail_ok (edit_messages (\<lambda>m. ms_id m \<in> set (map ms_id (take 100 (sort_key date_text_key
      (filter (\<lambda>m. ms_folder_id m = SNOOZED \<and> ms_thread_id m = Some thread) (bx_messages db)))))) (woken INBOX) db)"
    (is "mail_ok (edit_messages (\<lambda>m. ms_id m \<in> set (map ms_id ?rows)) _ _)") for thread
  proof -
    have rows: "set ?rows \<subseteq> {m \<in> set (bx_messages db). ms_folder_id m = SNOOZED}"
      by (auto dest!: in_set_takeD)
    have "ms_folder_id m = SNOOZED" if m: "m \<in> set (bx_messages db)" "ms_id m \<in> set (map ms_id ?rows)" for m
    proof -
      from m(2) obtain m' where m': "m' \<in> set ?rows" "ms_id m = ms_id m'" unfolding set_map by (elim imageE)
      then have "m' \<in> set (bx_messages db)" "ms_folder_id m' = SNOOZED" using rows by (simp_all only: subset_iff mem_Collect_eq)
      then show ?thesis using same_message [OF ok m(1) _ m'(2)] by simp
    qed
    then have "message_ok db (woken INBOX m)" if "m \<in> set (bx_messages db)" "ms_id m \<in> set (map ms_id ?rows)" for m
      by (intro woken_ok mail_okD(2) [OF ok] inbox_exists(1) [OF mail_okD(1) [OF ok]]) (simp_all only: that, simp)
    then have "fair_edit db (\<lambda>m. ms_id m \<in> set (map ms_id ?rows)) (woken INBOX)" unfolding fair_edit_def by (simp only: row_ids) blast
    then show ?thesis by (rule fair_edit_ok [OF ok])
  qed
  moreover have "mail_ok (db1\<lparr>bx_wakes := ws\<rparr>) = mail_ok db1" for db1 ws by (rule mail_ok_cong) simp_all
  ultimately show ?thesis
    using ok by (simp add: processReplyWakeBatch_def Let_def split: list.split)
qed

text \<open>Folders come and go without taking mail along.\<close>

lemma folders_ok:
  assumes "mail_ok db" and "bx_messages db' = bx_messages db" and "distinct (map fo_id (bx_folders db'))" and "system_folders db'"
    and "\<And>m. m \<in> set (bx_messages db) \<Longrightarrow> folder_exists (ms_folder_id m) db'"
  shows "mail_ok db'"
  using assms by (simp add: mail_ok_def message_ok_def)

lemma create_folder_step: "mail_ok db \<Longrightarrow> mail_ok (snd (createFolder i n d db))"
  by (auto simp: createFolder_def list_ex_iff system_folders_def folder_exists_def mail_ok_def message_ok_def
      intro!: folders_ok)

lemma mark_operations_fields [simp]: "bx_messages (mark_operations i fs t now db) = bx_messages db"
  "bx_folders (mark_operations i fs t now db) = bx_folders db" "bx_outbound (mark_operations i fs t now db) = bx_outbound db"
  by (simp_all add: mark_operations_def)

lemma mark_operations_ok [simp]: "mail_ok (mark_operations i fs t now db) = mail_ok db"
  by (rule mail_ok_cong) simp_all

lemma system_folders_keys:
  "system_folders db \<longleftrightarrow> (\<forall>i\<in>{INBOX, SNOOZED, ARCHIVE, TRASH}. (i, False) \<in> set (map (\<lambda>f. (fo_id f, fo_is_deletable f)) (bx_folders db)))"
  unfolding system_folders_def by (auto simp: image_iff) metis+

lemma folder_exists_keys: "folder_exists i db \<longleftrightarrow> i \<in> set (map fo_id (bx_folders db))"
  by (auto simp: folder_exists_def list_ex_iff)

lemma rename_folder_step:
  assumes ok: "mail_ok db"
  shows "mail_ok (snd (updateFolder i n now db))"
proof -
  let ?fs = "update_where (\<lambda>f. fo_id f = i) (\<lambda>f. f\<lparr>fo_name := n\<rparr>) (bx_folders db)"
  have keys: "map (\<lambda>f. (fo_id f, fo_is_deletable f)) ?fs = map (\<lambda>f. (fo_id f, fo_is_deletable f)) (bx_folders db)"
    "map fo_id ?fs = map fo_id (bx_folders db)"
    by (rule keys_update_where; simp)+
  have fs: "bx_folders (db\<lparr>bx_folders := ?fs\<rparr>) = ?fs" by simp
  have "mail_ok (db\<lparr>bx_folders := ?fs\<rparr>)"
  proof (rule folders_ok [OF ok])
    show "system_folders (db\<lparr>bx_folders := ?fs\<rparr>)"
      using mail_okD(1) [OF ok] unfolding system_folders_keys fs keys .
    show "folder_exists (ms_folder_id m) (db\<lparr>bx_folders := ?fs\<rparr>)" if "m \<in> set (bx_messages db)" for m
      using mail_okD(2) [OF ok that] unfolding message_ok_def folder_exists_keys fs keys by simp
  qed (use ok keys in \<open>simp_all add: mail_ok_def\<close>)
  then show ?thesis using ok by (simp add: updateFolder_def split: option.split)
qed

lemma delete_folder_step: "mail_ok db \<Longrightarrow> mail_ok (snd (deleteFolder used i a now db))"
proof -
  assume ok: "mail_ok db"
  have "mail_ok (db\<lparr>bx_folders := filter (\<lambda>f. fo_id f \<noteq> i) (bx_folders db)\<rparr>)"
    if f: "find (\<lambda>f. fo_id f = i) (bx_folders db) = Some f" "fo_is_deletable f" "\<not> list_ex (\<lambda>m. ms_folder_id m = i) (bx_messages db)" for f
  proof (rule folders_ok [OF ok])
    have f': "f \<in> set (bx_folders db)" "fo_id f = i" using found [OF f(1)] by simp_all
    have "g = f" if "g \<in> set (bx_folders db)" "fo_id g = i" for g
      using ok that f' by (auto simp: mail_ok_def distinct_map inj_on_def)
    then have "\<forall>g\<in>set (bx_folders db). \<not> fo_is_deletable g \<longrightarrow> fo_id g \<noteq> i" using f(2) by blast
    then show "system_folders (db\<lparr>bx_folders := filter (\<lambda>f. fo_id f \<noteq> i) (bx_folders db)\<rparr>)"
      using mail_okD(1) [OF ok] by (fastforce simp: system_folders_def)
    show "distinct (map fo_id (bx_folders (db\<lparr>bx_folders := filter (\<lambda>f. fo_id f \<noteq> i) (bx_folders db)\<rparr>)))"
      using ok by (simp add: mail_ok_def distinct_map_filter)
    show "folder_exists (ms_folder_id m) (db\<lparr>bx_folders := filter (\<lambda>f. fo_id f \<noteq> i) (bx_folders db)\<rparr>)"
      if "m \<in> set (bx_messages db)" for m
      using mail_okD(2) [OF ok that] f(3) that by (fastforce simp: message_ok_def folder_exists_def list_ex_iff)
  qed simp
  then show ?thesis using ok by (simp add: deleteFolder_def split: option.split)
qed

lemma arrive_step: "mail_ok db \<Longrightarrow> message_ok db m \<Longrightarrow> ms_id m \<notin> ms_id ` set (bx_messages db) \<Longrightarrow>
    mail_ok (db\<lparr>bx_messages := bx_messages db @ [m]\<rparr>)"
  using message_ok_folders [of "db\<lparr>bx_messages := bx_messages db @ [m]\<rparr>" db]
  by (auto simp: mail_ok_def system_folders_def)

lemma mail_op_step:
  assumes "mail_ok db"
  shows "mail_ok (run_mail_op op db)"
proof (cases op)
  case (Mo_request_wake w)
  then show ?thesis using assms mail_ok_cong [of "run_mail_op op db" db] by simp
next
  case (Mo_deliveries ds)
  then show ?thesis using assms mail_ok_cong [of "run_mail_op op db" db] by simp
next
  case (Mo_archive c f e a now)
  show ?thesis unfolding Mo_archive run_mail_op.simps archiveConversation_def
    by (rule conversation_move_step [OF assms]) simp
next
  case (Mo_trash_conversation c f e a now)
  show ?thesis unfolding Mo_trash_conversation run_mail_op.simps trashConversation_def
    by (rule conversation_move_step [OF assms]) simp
qed (simp_all add: assms flags_step thread_read_step conversation_read_step triage_step trash_step restore_step move_step
    snooze_step unsnooze_step create_folder_step rename_folder_step delete_folder_step wake_due_step wake_replied_step
    arrive_step)

end
