(* ===== verification/Mail_Guarantees.thy ===== *)
theory Mail_Guarantees
  imports Mail_Invariant
begin

text \<open>
  What users rely on when they file mail: nothing is lost, a message that is about to be sent stays where it is,
  and what is snoozed or trashed comes back as it was.
\<close>

subsection \<open>Order\<close>

lemma run_mail_ops_ok: "mail_ok db \<Longrightarrow> mail_ok (run_mail_ops ops db)"
  by (induction ops arbitrary: db) (simp_all add: mail_op_step)

lemma message_ids_edit [simp]:
  "(\<And>m. ms_id (f m) = ms_id m) \<Longrightarrow> map ms_id (update_where P f ms) = map ms_id ms"
  by (rule keys_update_where)

lemma ids_setRead [simp]: "map ms_id (bx_messages (snd (setRead ids r db))) = map ms_id (bx_messages db)"
  by (simp add: setRead_def Let_def)

lemma ids_refile [simp]: "map ms_id (bx_messages (refile ids f t now db)) = map ms_id (bx_messages db)"
  by (simp add: refile_def)

lemma triage_activity_fields [simp]: "bx_messages (triage_activity action t n a now db) = bx_messages db"
  "bx_outbound (triage_activity action t n a now db) = bx_outbound db"
  by (simp_all add: triage_activity_def)

lemma ids_triage_one [simp]: "map ms_id (bx_messages (snd (triage_one action a now t db))) = map ms_id (bx_messages db)"
  by (simp add: triage_one_def Let_def case_prod_beta split: option.split)

lemma ids_triage_loop [simp]: "map ms_id (bx_messages (snd (triage_loop action a now ts db))) = map ms_id (bx_messages db)"
  by (induction ts arbitrary: db) (simp_all add: case_prod_beta)

lemma ids_trash [simp]: "map ms_id (bx_messages (snd (trashEmail i a now db))) = map ms_id (bx_messages db)"
  by (simp add: trashEmail_def split: option.split)

lemma ids_clearSnooze [simp]: "map ms_id (bx_messages (clearSnooze ts db)) = map ms_id (bx_messages db)"
  by (induction ts arbitrary: db) (auto simp: clearSnooze_def)

lemma ids_wake_fold [simp]: "map ms_id (bx_messages (fold (\<lambda>(i, f). edit_messages (\<lambda>m. ms_id m = i \<and> ms_folder_id m = SNOOZED) (woken f)) ts db)) =
    map ms_id (bx_messages db)"
  by (induction ts arbitrary: db) (auto split: prod.split)

lemma ids_step: "\<exists>new. map ms_id (bx_messages (run_mail_op op db)) = map ms_id (bx_messages db) @ new"
proof (cases op)
  case (Mo_move i f a now)
  then show ?thesis
    by (simp add: moveEmail_def move_by_trash split: option.split move_plan.split)
qed (auto simp: updateEmail_transaction_def noted_flag_def markThreadRead_def setConversationRead_def executeBatchTriage_def
      archiveConversation_def trashConversation_def moveConversationInFolder_def restoreEmail_def executeSnooze_def
      executeUnsnooze_def createFolder_def updateFolder_def deleteFolder_def processDueSnoozeBatch_def
      processReplyWakeBatch_def Let_def case_prod_beta simp del: clearSnooze_simps
      split: option.split scope_rows.split list.split)

text \<open>
  C36: A mailbox's mail stays in order, whatever sequence of operations runs on it -- flags, moves, batches, conversations,
  trash, snoozes and their ends, folders, wake-ups, arriving mail: messages keep distinct ids and lie in folders that
  exist, exactly the snoozed ones have a wake time and a folder to return to, exactly the trashed ones a time and a
  previous folder (never the trash, the snoozed or the internal folder), the system folders stay. And none of these
  operations loses a message.
\<close>

theorem mail_stays_in_order:
  assumes "mail_ok db"
  shows "mail_ok (run_mail_ops ops db) \<and>
    (\<exists>new. map ms_id (bx_messages (run_mail_ops ops db)) = map ms_id (bx_messages db) @ new)"
proof
  show "mail_ok (run_mail_ops ops db)" using assms by (rule run_mail_ops_ok)
  show "\<exists>new. map ms_id (bx_messages (run_mail_ops ops db)) = map ms_id (bx_messages db) @ new"
  proof (induction ops arbitrary: db)
    case (Cons op ops)
    then show ?case using ids_step [of op db] by (metis append.assoc run_mail_ops_simps(2))
  qed simp
qed

subsection \<open>Mail that is being sent\<close>

definition lies_in :: "string \<Rightarrow> string \<Rightarrow> mailbox_db \<Rightarrow> bool" where
  "lies_in e f db \<longleftrightarrow> (\<exists>m. find_message e db = Some m \<and> ms_folder_id m = f)"

definition being_sent :: "string \<Rightarrow> mailbox_db \<Rightarrow> bool" where
  "being_sent e db \<longleftrightarrow> distinct (map ob_email_id (bx_outbound db)) \<and>
     (\<exists>d\<in>set (bx_outbound db). ob_email_id d = e \<and> sending_soon (ob_status d))"

lemma being_sent_active: "being_sent e db \<Longrightarrow> activeOutboundDeliveryForEmail e db \<noteq> None"
  using find_key_distinct [of ob_email_id "bx_outbound db"]
  by (auto simp: being_sent_def activeOutboundDeliveryForEmail_def outboundDeliveryBlocksGenericLifecycle_def sending_soon_def)

lemma being_sent_listed: "being_sent e db \<Longrightarrow> e \<in> set ids \<Longrightarrow> hasActiveOutbound ids db"
  by (auto simp: being_sent_def hasActiveOutbound_def list_ex_iff)

lemma being_sent_outbound: "bx_outbound db' = bx_outbound db \<Longrightarrow> being_sent e db' = being_sent e db"
  by (simp add: being_sent_def)

lemma lies_in_messages: "bx_messages db' = bx_messages db \<Longrightarrow> lies_in e f db' = lies_in e f db"
  by (simp add: lies_in_def find_message_def)

lemma lies_in_activity [simp]: "lies_in e f (recordActivity a v k i d t db) = lies_in e f db"
  "lies_in e f (snooze_activity a v s d t db) = lies_in e f db" "lies_in e f (triage_activity action tg n a t db) = lies_in e f db"
  "lies_in e f (mark_operations i fs st t db) = lies_in e f db"
  by (rule lies_in_messages; simp)+

lemma lies_in_edit:
  assumes "lies_in e f db" and "\<And>m. ms_id (g m) = ms_id m"
    and "\<And>m. ms_id m = e \<Longrightarrow> ms_folder_id m = f \<Longrightarrow> P m \<Longrightarrow> ms_folder_id (g m) = f"
  shows "lies_in e f (edit_messages P g db)"
proof -
  from assms(1) obtain m where m: "find (\<lambda>m. ms_id m = e) (bx_messages db) = Some m" "ms_folder_id m = f"
    by (auto simp: lies_in_def find_message_def)
  have "ms_id m = e" using found [OF m(1)] by simp
  moreover have "find (\<lambda>m. ms_id m = e) (update_where P g (bx_messages db)) = Some (if P m then g m else m)"
    using find_update_where [of P ms_id g e "bx_messages db"] assms(2) m(1) by simp
  ultimately show ?thesis using m(2) assms(3) [of m] by (simp add: lies_in_def find_message_def)
qed

lemma lies_in_setRead: "lies_in e f db \<Longrightarrow> lies_in e f (snd (setRead ids r db))"
  by (auto simp: setRead_def Let_def intro!: lies_in_edit)

lemma lies_in_refile: "lies_in e f db \<Longrightarrow> e \<notin> set ids \<Longrightarrow> lies_in e f (refile ids g t now db)"
  unfolding refile_def by (rule lies_in_edit) auto

lemma outbound_kept [simp]: "bx_outbound (snd (setRead ids r db)) = bx_outbound db" "bx_outbound (refile ids g t now db) = bx_outbound db"
  by (simp_all add: setRead_def refile_def Let_def)

lemma inactive_refile:
  assumes "lies_in e f db" and "being_sent e db" and "\<not> hasActiveOutbound ids db"
  shows "lies_in e f (refile ids g t now db)"
  using being_sent_listed [OF assms(2)] assms(3) by (intro lies_in_refile assms(1)) blast

lemma lies_in_triage_one:
  assumes "lies_in e f db" and "being_sent e db"
  shows "lies_in e f (snd (triage_one action a now t db)) \<and> bx_outbound (snd (triage_one action a now t db)) = bx_outbound db"
  using assms lies_in_setRead [OF assms(1)] inactive_refile [OF assms]
  by (auto simp: triage_one_def Let_def case_prod_beta split: option.split)

lemma lies_in_triage_loop:
  assumes "lies_in e f db" and "being_sent e db"
  shows "lies_in e f (snd (triage_loop action a now ts db)) \<and> bx_outbound (snd (triage_loop action a now ts db)) = bx_outbound db"
  using assms
proof (induction ts arbitrary: db)
  case (Cons t ts)
  let ?db = "snd (triage_one action a now t db)"
  have one: "lies_in e f ?db" "bx_outbound ?db = bx_outbound db" using lies_in_triage_one [OF Cons.prems] by simp_all
  have "being_sent e ?db" using Cons.prems(2) being_sent_outbound [OF one(2)] by simp
  from Cons.IH [OF one(1) this] one(2) show ?case by (simp add: case_prod_beta)
qed simp

lemma lies_in_conversation_move:
  assumes "lies_in e f db" and "being_sent e db"
  shows "lies_in e f (snd (moveConversationInFolder c ref t i a now db)) \<and>
    bx_outbound (snd (moveConversationInFolder c ref t i a now db)) = bx_outbound db"
  using assms inactive_refile [OF assms] by (auto simp: moveConversationInFolder_def Let_def split: option.split)

lemma lies_in_trash:
  assumes "lies_in e f db" and "being_sent e db"
  shows "lies_in e f (snd (trashEmail i a now db)) \<and> bx_outbound (snd (trashEmail i a now db)) = bx_outbound db"
proof (cases "i = e")
  case True
  then show ?thesis using assms being_sent_active [OF assms(2)] by (auto simp: trashEmail_def split: option.split)
next
  case False
  have "lies_in e f (edit_messages (\<lambda>m. ms_id m = i) (trashed_row g now) db)" for g
    using assms(1) by (rule lies_in_edit) (use False in auto)
  then show ?thesis using assms by (auto simp: trashEmail_def split: option.split)
qed

lemma lies_in_restore:
  assumes "lies_in e f db" and "f \<noteq> TRASH"
  shows "lies_in e f (snd (restoreEmail i a now db)) \<and> bx_outbound (snd (restoreEmail i a now db)) = bx_outbound db"
proof (cases "i = e")
  case True
  then show ?thesis using assms by (auto simp: restoreEmail_def lies_in_def)
next
  case False
  have "lies_in e f (edit_messages (\<lambda>m. ms_id m = i) (filed_row g b) db)" for g b
    using assms(1) by (rule lies_in_edit) (use False in auto)
  then show ?thesis using assms by (auto simp: restoreEmail_def Let_def split: option.split)
qed

lemma lies_in_move:
  assumes "lies_in e f db" and "being_sent e db"
  shows "lies_in e f (snd (moveEmail i g a now db)) \<and> bx_outbound (snd (moveEmail i g a now db)) = bx_outbound db"
proof (cases "i = e")
  case True
  then show ?thesis using assms being_sent_active [OF assms(2)] by (auto simp: moveEmail_def split: option.split)
next
  case False
  have "lies_in e f (edit_messages (\<lambda>m. ms_id m = i) (filed_row h b) db)" for h b
    using assms(1) by (rule lies_in_edit) (use False in auto)
  then show ?thesis
    using assms lies_in_trash [OF assms, of i a now] by (simp add: moveEmail_def move_by_trash split: option.split move_plan.split)
qed

lemma lies_in_snooze:
  assumes "lies_in e f db" and "being_sent e db"
  shows "lies_in e f (snd (executeSnooze scope t a now db)) \<and> bx_outbound (snd (executeSnooze scope t a now db)) = bx_outbound db"
proof -
  have "lies_in e f (edit_messages (\<lambda>m. ms_id m \<in> set ids) (snoozed_row g t) db)" if "\<not> hasActiveOutbound ids db" for ids g
    using assms(1) by (rule lies_in_edit) (use being_sent_listed [OF assms(2)] that in auto)
  then show ?thesis
    using assms by (simp add: executeSnooze_def Let_def del: list.map set_map split: scope_rows.split list.split)
qed

lemma lies_in_clearSnooze:
  assumes "lies_in e f db" and "e \<notin> fst ` set ts"
  shows "lies_in e f (clearSnooze ts db)"
  using assms
proof (induction ts arbitrary: db)
  case (Cons t ts)
  obtain i g where t: "t = (i, g)" by (metis surj_pair)
  have "lies_in e f (edit_messages (\<lambda>m. ms_id m = i) (woken g) db)"
    using Cons.prems(1) by (rule lies_in_edit) (use Cons.prems(2) t in auto)
  then show ?case unfolding t clearSnooze_simps by (rule Cons.IH) (use Cons.prems(2) in auto)
qed simp

lemma lies_in_unsnooze:
  assumes ok: "mail_ok db" and e: "lies_in e f db" and f: "f \<noteq> SNOOZED"
  shows "lies_in e f (snd (executeUnsnooze scope a now db)) \<and> bx_outbound (snd (executeUnsnooze scope a now db)) = bx_outbound db"
proof -
  obtain m where m: "m \<in> set (bx_messages db)" "ms_id m = e" "ms_folder_id m = f"
    using e found by (fastforce simp: lies_in_def find_message_def)
  have "lies_in e f (clearSnooze (map (\<lambda>m. (ms_id m, wake_folder db m)) rows) db)"
    if "resolveScope scope True db = Scope_rows rows" "\<not> list_ex (\<lambda>m. ms_folder_id m \<noteq> SNOOZED) rows" for rows
  proof (rule lies_in_clearSnooze [OF e])
    from that(1) obtain ids where "rows_of ids db = Scope_rows rows" by (rule resolved_rows)
    then have rows: "set rows \<subseteq> set (bx_messages db)" using rows_of_rows(1) by fastforce
    have "ms_id m' \<noteq> e" if "m' \<in> set rows" for m'
    proof
      assume "ms_id m' = e"
      then have "m' = m" using same_message [OF ok _ m(1)] m(2) rows that by auto
      then show False using that m(3) f \<open>\<not> list_ex _ rows\<close> by (auto simp: list_ex_iff)
    qed
    then show "e \<notin> fst ` set (map (\<lambda>m. (ms_id m, wake_folder db m)) rows)" by (fastforce simp: image_iff)
  qed
  then show ?thesis
    using e by (auto simp: executeUnsnooze_def Let_def simp del: clearSnooze_simps split: scope_rows.split list.split)
qed

lemma lies_in_wake_fold:
  assumes "lies_in e f db" and "f \<noteq> SNOOZED"
  shows "lies_in e f (fold (\<lambda>(i, g). edit_messages (\<lambda>m. ms_id m = i \<and> ms_folder_id m = SNOOZED) (woken g)) ts db) \<and>
    bx_outbound (fold (\<lambda>(i, g). edit_messages (\<lambda>m. ms_id m = i \<and> ms_folder_id m = SNOOZED) (woken g)) ts db) = bx_outbound db"
  using assms(1)
proof (induction ts arbitrary: db)
  case (Cons t ts)
  obtain i g where t: "t = (i, g)" by (metis surj_pair)
  have "lies_in e f (edit_messages (\<lambda>m. ms_id m = i \<and> ms_folder_id m = SNOOZED) (woken g) db)"
    using Cons.prems by (rule lies_in_edit) (use assms(2) in auto)
  from Cons.IH [OF this] show ?case by (simp add: t)
qed simp

lemma lies_in_wake_due:
  assumes "lies_in e f db" and "f \<noteq> SNOOZED"
  shows "lies_in e f (snd (processDueSnoozeBatch dp now db)) \<and> bx_outbound (snd (processDueSnoozeBatch dp now db)) = bx_outbound db"
  using lies_in_wake_fold [OF assms] assms(1) by (simp add: processDueSnoozeBatch_def case_prod_beta)

lemma lies_in_wake_replied:
  assumes ok: "mail_ok db" and e: "lies_in e f db" and f: "f \<noteq> SNOOZED"
  shows "lies_in e f (snd (processReplyWakeBatch now db)) \<and> bx_outbound (snd (processReplyWakeBatch now db)) = bx_outbound db"
proof -
  obtain m where m: "m \<in> set (bx_messages db)" "ms_id m = e" "ms_folder_id m = f"
    using e found by (fastforce simp: lies_in_def find_message_def)
  have "lies_in e f (edit_messages (\<lambda>m. ms_id m \<in> set (map ms_id (take 100 (sort_key date_text_key
      (filter (\<lambda>m. ms_folder_id m = SNOOZED \<and> ms_thread_id m = Some thread) (bx_messages db)))))) (woken INBOX) db)"
    (is "lies_in e f (edit_messages (\<lambda>m. ms_id m \<in> set (map ms_id ?rows)) _ _)") for thread
  proof -
    have rows: "m' \<in> set (bx_messages db) \<and> ms_folder_id m' = SNOOZED" if "m' \<in> set ?rows" for m'
      using in_set_takeD [OF that] by simp
    have "e \<notin> set (map ms_id ?rows)"
    proof
      assume "e \<in> set (map ms_id ?rows)"
      then obtain m' where m': "m' \<in> set ?rows" "ms_id m' = e" unfolding set_map by (elim imageE) (rule that, simp_all only:)
      then have "m' = m" using same_message [OF ok _ m(1)] m(2) rows [OF m'(1)] by simp
      then show False using rows [OF m'(1)] m(3) f by simp
    qed
    then show ?thesis using e by (intro lies_in_edit) simp_all
  qed
  moreover have "lies_in e f (db1\<lparr>bx_wakes := ws\<rparr>) = lies_in e f db1" for db1 ws by (rule lies_in_messages) simp
  ultimately show ?thesis using e by (simp add: processReplyWakeBatch_def Let_def split: list.split)
qed

fun sets_deliveries :: "mail_op \<Rightarrow> bool" where
  "sets_deliveries (Mo_deliveries ds) = True"
| "sets_deliveries _ = False"

lemma lies_in_step:
  assumes "mail_ok db" and "lies_in e f db" and "being_sent e db" and "f \<notin> {SNOOZED, TRASH}" and "\<not> sets_deliveries op"
  shows "lies_in e f (run_mail_op op db) \<and> bx_outbound (run_mail_op op db) = bx_outbound db"
proof (cases op)
  case (Mo_flags i r s a now)
  have "lies_in e f (edit_messages P (set_flags r s) db)" for P r s using assms(2) by (rule lies_in_edit) simp_all
  then show ?thesis
    using assms(2) unfolding Mo_flags run_mail_op.simps updateEmail_transaction_def noted_flag_def Let_def
    by (auto split: option.split)
next
  case (Mo_thread_read t a now)
  have "lies_in e f (edit_messages P (\<lambda>m. m\<lparr>ms_read := b\<rparr>) db)" for P b using assms(2) by (rule lies_in_edit) simp_all
  then show ?thesis using assms(2) unfolding Mo_thread_read by (simp add: markThreadRead_def Let_def)
next
  case (Mo_conversation_read c g r a now)
  then show ?thesis
    using assms(2) lies_in_setRead [OF assms(2)] by (auto simp: setConversationRead_def case_prod_beta split: option.split)
next
  case (Mo_triage action ts a now)
  then show ?thesis using lies_in_triage_loop [OF assms(2,3)] by (simp add: executeBatchTriage_def case_prod_beta Let_def)
next
  case (Mo_create_folder i n d)
  then show ?thesis using assms(2) lies_in_messages [of "snd (createFolder i n d db)" db] by (simp add: createFolder_def)
next
  case (Mo_rename_folder i n now)
  have "lies_in e f (db\<lparr>bx_folders := fs\<rparr>)" for fs using assms(2) lies_in_messages [of "db\<lparr>bx_folders := fs\<rparr>" db] by simp
  then show ?thesis using assms(2) unfolding Mo_rename_folder by (simp add: updateFolder_def split: option.split)
next
  case (Mo_delete_folder used i a now)
  have "lies_in e f (db\<lparr>bx_folders := fs\<rparr>)" for fs using assms(2) lies_in_messages [of "db\<lparr>bx_folders := fs\<rparr>" db] by simp
  then show ?thesis using assms(2) unfolding Mo_delete_folder by (simp add: deleteFolder_def split: option.split)
next
  case (Mo_request_wake w)
  then show ?thesis using assms(2) lies_in_messages [of "run_mail_op op db" db] by simp
next
  case (Mo_arrive m)
  have "lies_in e f (db\<lparr>bx_messages := bx_messages db @ [m]\<rparr>)"
    using assms(2) by (auto simp: lies_in_def find_message_def find_append)
  then show ?thesis using assms(2) unfolding Mo_arrive by simp
next
  case (Mo_archive c g i a now)
  then show ?thesis using lies_in_conversation_move [OF assms(2,3)] by (simp add: archiveConversation_def)
next
  case (Mo_trash_conversation c g i a now)
  then show ?thesis using lies_in_conversation_move [OF assms(2,3)] by (simp add: trashConversation_def)
qed (use assms lies_in_trash lies_in_restore lies_in_move lies_in_snooze lies_in_unsnooze lies_in_wake_due
    lies_in_wake_replied in simp_all)

text \<open>
  C35: A message that is being sent and lies in neither the trash nor the snoozed folder stays where it is. While
  its delivery is queued, in flight or waiting for a retry, no sequence of single moves, trashings, restores,
  conversation operations, batches, snoozes and wake-ups takes it out of its folder; only the outbox
  itself, by changing the delivery, can release it. (The two folders are excluded because their ways back check no
  delivery: a failed message can be trashed and then retried, and a restore takes it out of the trash again
  while it is queued.)
\<close>

theorem mail_being_sent_stays:
  assumes "mail_ok db" and "distinct (map ob_email_id (bx_outbound db))"
    and "d \<in> set (bx_outbound db)" and "ob_status d \<in> {Queued, Sending, Retrying}"
    and "find_message (ob_email_id d) db = Some m" and "ms_folder_id m \<notin> {SNOOZED, TRASH}"
    and "list_all (\<lambda>op. \<not> sets_deliveries op) ops"
  shows "\<exists>m'. find_message (ob_email_id d) (run_mail_ops ops db) = Some m' \<and> ms_folder_id m' = ms_folder_id m"
proof -
  have "lies_in (ob_email_id d) (ms_folder_id m) (run_mail_ops ops db)"
    if "mail_ok db" "lies_in (ob_email_id d) (ms_folder_id m) db" "being_sent (ob_email_id d) db" for db
    using that assms(7)
  proof (induction ops arbitrary: db)
    case (Cons op ops)
    have op: "\<not> sets_deliveries op" using Cons.prems(4) by simp
    note step = lies_in_step [OF Cons.prems(1-3) assms(6) op]
    have "being_sent (ob_email_id d) (run_mail_op op db)"
      using step Cons.prems(3) being_sent_outbound [of "run_mail_op op db" db] by simp
    from Cons.IH [OF mail_op_step [OF Cons.prems(1)] _ this] step Cons.prems(4) show ?case by simp
  qed simp
  from this [OF assms(1)] show ?thesis using assms(2-5) by (auto simp: lies_in_def being_sent_def sending_soon_def)
qed

end
