(* ===== verification/Mail_Returns.thy ===== *)
theory Mail_Returns
  imports Mail_Invariant
begin

text \<open>Snoozing and trashing are undone exactly; and what a conversation has to look like to be snoozed at all.\<close>

subsection \<open>How often a conversation lists a message\<close>

definition group_key :: "message_row \<Rightarrow> string \<times> string option \<times> string option" where
  "group_key m = (raw_thread_id m, normalized_subject (ms_subject m), ms_thread_id m)"

lemma conversation_groups_keys:
  "conversation_groups c f db = length (remdups (map group_key (conversation_mail c f db)))"
proof -
  have "filter (\<lambda>g. fst g = c) (map group_key ms) = map group_key (filter (\<lambda>m. raw_thread_id m = c) ms)" for ms
    by (simp add: filter_map comp_def group_key_def)
  then show ?thesis
    unfolding conversation_groups_def thread_groups_def conversation_mail_def group_key_def [abs_def, symmetric]
      remdups_filter [symmetric] by (simp add: conj_commute)
qed

definition listed_ids :: "string \<Rightarrow> string \<Rightarrow> mailbox_db \<Rightarrow> string list" where
  "listed_ids c f db = concat (map (\<lambda>m. replicate (conversation_groups c f db) (ms_id m)) (conversation_mail c f db))"

lemma conversationScope_listed: "conversationScope c ref db = map_option (\<lambda>f. (f, listed_ids c f db)) (visibleFolderId ref db)"
  by (simp add: conversationScope_eq listed_ids_def)

lemma length_listed: "length (listed_ids c f db) = conversation_groups c f db * length (conversation_mail c f db)"
  by (induction "conversation_mail c f db" rule: list.induct)
    (simp_all add: listed_ids_def length_concat comp_def sum_list_triv)

lemma groups_positive: "conversation_mail c f db \<noteq> [] \<Longrightarrow> 0 < conversation_groups c f db"
  unfolding conversation_groups_keys length_remdups_card_conv by (simp add: card_gt_0_iff)

lemma set_listed: "set (listed_ids c f db) = ms_id ` set (conversation_mail c f db)"
  using groups_positive [of c f db] by (cases "conversation_mail c f db = []") (auto simp: listed_ids_def)

lemma listed_rows:
  assumes "mail_ok db"
  shows "filter (\<lambda>m. ms_id m \<in> set (listed_ids c f db)) (bx_messages db) = conversation_mail c f db"
  unfolding set_listed conversation_mail_def
  by (rule filter_cong [OF refl]) (use same_message [OF assms] in \<open>fastforce simp: image_iff\<close>)

lemma rows_of_listed:
  assumes "mail_ok db"
  shows "rows_of (listed_ids c f db) db =
    (if conversation_mail c f db = [] \<or> conversation_groups c f db = 1 then Scope_rows (conversation_mail c f db) else Scope_missing)"
  using groups_positive [of c f db] unfolding rows_of_def listed_rows [OF assms] Let_def length_listed
  by (cases "conversation_mail c f db = []") auto

lemma listed_once: "conversation_groups c f db = 1 \<Longrightarrow> listed_ids c f db = map ms_id (conversation_mail c f db)"
  by (simp add: listed_ids_def concat_map_singleton)

text \<open>
  C40: A conversation whose subject was changed cannot be snoozed. The scope of a conversation is computed with a join over
  thread and subject, which lists every message once per subject of its thread; snoozing compares the number of
  listed ids with the number of rows and then answers \<^verbatim>\<open>not_found\<close> (or \<^verbatim>\<open>too_large\<close>) although all messages are there.
\<close>

theorem changed_subject_blocks_snooze:
  assumes ok: "mail_ok db" and folder: "visibleFolderId ref db = Some f"
    and m: "m \<in> set (bx_messages db)" "ms_folder_id m = f" "raw_thread_id m = c"
    and m': "m' \<in> set (bx_messages db)" "ms_folder_id m' = f" "raw_thread_id m' = c"
    and differ: "normalized_subject (ms_subject m) \<noteq> normalized_subject (ms_subject m')"
  shows "executeSnooze (Scope_conversation c e ref) t a now db \<in> {((Sz_not_found, 0), db), ((Sz_too_large, 0), db)}"
proof -
  have mail: "m \<in> set (conversation_mail c f db)" "m' \<in> set (conversation_mail c f db)"
    using m m' by (simp_all add: conversation_mail_def)
  have "card {group_key m, group_key m'} \<le> card (group_key ` set (conversation_mail c f db))"
    using mail by (intro card_mono) auto
  moreover have "card {group_key m, group_key m'} = 2" using differ by (simp add: group_key_def)
  ultimately have "conversation_groups c f db \<noteq> 1" unfolding conversation_groups_keys length_remdups_card_conv by simp
  then have "rows_of (listed_ids c f db) db = Scope_missing" using mail(1) unfolding rows_of_listed [OF ok] by auto
  then show ?thesis by (auto simp: executeSnooze_def resolveScope_def conversationScope_listed folder split: scope_rows.split)
qed

subsection \<open>Snoozing and back\<close>

lemma snoozed_fields [simp]: "raw_thread_id (snoozed_row f t m) = raw_thread_id m" "group_key (snoozed_row f t m) = group_key m"
  by (simp_all add: snoozed_row_def raw_thread_id_def group_key_def split: option.split)

lemma snoozed_woken:
  assumes "message_ok db m" and "ms_folder_id m \<notin> {SNOOZED, TRASH}"
  shows "woken (ms_folder_id m) (snoozed_row (ms_folder_id m) t m) = m"
  using assms by (cases m) (simp add: message_ok_def snooze_marks_ok_def trash_marks_ok_def woken_def snoozed_row_def)

lemma clearSnooze_same:
  "bx_messages (clearSnooze (map (\<lambda>i. (i, f)) ids) db) = update_where (\<lambda>m. ms_id m \<in> set ids) (woken f) (bx_messages db)"
proof (induction ids arbitrary: db)
  case Nil
  then show ?case by (simp add: update_where_none)
next
  case (Cons i ids)
  have twice: "woken f (woken f m) = woken f m" for m by (simp add: woken_def)
  have "update_where (\<lambda>m. ms_id m \<in> set ids) (woken f) (update_where (\<lambda>m. ms_id m = i) (woken f) ms) =
      update_where (\<lambda>m. ms_id m \<in> set (i # ids)) (woken f) ms" for ms
    by (induction ms) (simp_all add: twice)
  then show ?case using Cons by simp
qed

text \<open>The store after a snooze, and its snoozed rows.\<close>

definition put_to_sleep :: "string list \<Rightarrow> string \<Rightarrow> instant \<Rightarrow> mailbox_db \<Rightarrow> message_row list" where
  "put_to_sleep ids f t db = update_where (\<lambda>m. ms_id m \<in> set ids) (snoozed_row f t) (bx_messages db)"

lemma sleeping_rows:
  "filter (\<lambda>m. ms_id m \<in> set ids) (put_to_sleep ids f t db) =
     map (snoozed_row f t) (filter (\<lambda>m. ms_id m \<in> set ids) (bx_messages db))"
  unfolding put_to_sleep_def by (induction "bx_messages db" arbitrary: db rule: list.induct)
    (simp_all add: update_where_def filter_map comp_def)

lemma woken_sleep:
  assumes "\<And>m. m \<in> set (bx_messages db) \<Longrightarrow> ms_id m \<in> set ids \<Longrightarrow> message_ok db m \<and> ms_folder_id m = f" and "f \<notin> {SNOOZED, TRASH}"
  shows "update_where (\<lambda>m. ms_id m \<in> set ids) (woken f) (put_to_sleep ids f t db) = bx_messages db"
proof -
  have "update_where (\<lambda>m. ms_id m \<in> set ids) (woken f) (update_where (\<lambda>m. ms_id m \<in> set ids) (snoozed_row f t) ms) = ms"
    if "set ms \<subseteq> set (bx_messages db)" for ms
    using that
  proof (induction ms)
    case (Cons m ms)
    then show ?case using assms(1) [of m] assms(2) snoozed_woken [of db m t] by auto
  qed simp
  then show ?thesis by (simp add: put_to_sleep_def)
qed

lemma sleeping_conversation:
  assumes ok: "mail_ok db" and new: "conversation_mail c SNOOZED db = []" and f: "f \<noteq> SNOOZED"
    and msgs: "bx_messages db1 = put_to_sleep (map ms_id (conversation_mail c f db)) f t db"
  shows "conversation_mail c SNOOZED db1 = map (snoozed_row f t) (conversation_mail c f db)"
proof -
  let ?ids = "map ms_id (conversation_mail c f db)"
  have mine: "ms_id m \<in> set ?ids \<longleftrightarrow> ms_folder_id m = f \<and> raw_thread_id m = c" if "m \<in> set (bx_messages db)" for m
    using same_message [OF ok that] that by (fastforce simp: conversation_mail_def image_iff)
  have other: "\<not> (ms_folder_id m = SNOOZED \<and> raw_thread_id m = c)" if "m \<in> set (bx_messages db)" for m
    using new that by (auto simp: conversation_mail_def filter_empty_conv)
  have "filter (\<lambda>m. ms_folder_id m = SNOOZED \<and> raw_thread_id m = c) (update_where (\<lambda>m. ms_id m \<in> set ?ids) (snoozed_row f t) ms) =
      map (snoozed_row f t) (filter (\<lambda>m. ms_folder_id m = f \<and> raw_thread_id m = c) ms)"
    if "set ms \<subseteq> set (bx_messages db)" for ms
    using that
  proof (induction ms)
    case (Cons m ms)
    then have m: "m \<in> set (bx_messages db)" by simp
    from Cons show ?case using mine [OF m] other [OF m] f by (simp del: set_map)
  qed simp
  then show ?thesis unfolding conversation_mail_def [of c SNOOZED] msgs put_to_sleep_def by (simp add: conversation_mail_def)
qed

text \<open>What a snooze that succeeds did, and what ends it.\<close>

lemma snooze_taken:
  assumes "executeSnooze scope t a n db = ((Sz_snoozed, k), db1)"
  obtains rows f where "resolveScope scope False db = Scope_rows rows" "rows \<noteq> []" "length rows \<le> 100" "k = length rows"
    "isSnoozeSourceFolder (Some f)" "\<forall>m\<in>set rows. ms_folder_id m = f"
    "bx_messages db1 = put_to_sleep (map ms_id rows) f t db" "bx_folders db1 = bx_folders db"
proof -
  from assms obtain r rs where rows: "resolveScope scope False db = Scope_rows (r # rs)"
    by (auto simp: executeSnooze_def split: scope_rows.splits list.splits)
  note taken = assms [unfolded executeSnooze_def rows Let_def scope_rows.case list.case]
  show ?thesis
  proof (rule that [OF rows])
    show "length (r # rs) \<le> 100" using taken by (simp add: MAX_SNOOZE_TARGETS_def split: if_splits)
    show "k = length (r # rs)" "isSnoozeSourceFolder (Some (ms_folder_id r))" "\<forall>m\<in>set (r # rs). ms_folder_id m = ms_folder_id r"
      "bx_messages db1 = put_to_sleep (map ms_id (r # rs)) (ms_folder_id r) t db" "bx_folders db1 = bx_folders db"
      using taken by (auto simp: list_ex_iff put_to_sleep_def simp del: list.map split: if_splits)
  qed simp
qed

lemma unsnooze_wakes:
  assumes "resolveScope scope True db = Scope_rows rows" and "rows \<noteq> []" and "length rows \<le> 100"
    and "\<forall>m\<in>set rows. ms_folder_id m = SNOOZED" and "\<forall>m\<in>set rows. wake_folder db m = f"
  shows "\<exists>db'. executeUnsnooze scope a n db = ((Sz_unsnoozed, length rows), db') \<and>
    bx_messages db' = update_where (\<lambda>m. ms_id m \<in> ms_id ` set rows) (woken f) (bx_messages db)"
proof -
  obtain r rs where rows: "rows = r # rs" using assms(2) by (cases rows) simp_all
  have targets: "map (\<lambda>m. (ms_id m, wake_folder db m)) (r # rs) = map (\<lambda>i. (i, f)) (map ms_id (r # rs))"
    using assms(5) rows by simp
  have "bx_messages (clearSnooze (map (\<lambda>m. (ms_id m, wake_folder db m)) (r # rs)) db) =
      update_where (\<lambda>m. ms_id m \<in> ms_id ` set (r # rs)) (woken f) (bx_messages db)"
    unfolding targets clearSnooze_same set_map by (rule refl)
  then show ?thesis using assms(1,3,4) unfolding rows executeUnsnooze_def
    by (simp add: MAX_SNOOZE_TARGETS_def list_ex_iff del: list.map list.set image_insert)
qed

text \<open>The rows of a snooze are asleep, and ending the snooze finds exactly them.\<close>

lemma sleeping_scope:
  assumes ok: "mail_ok db" and ok1: "mail_ok db1" and rows: "resolveScope scope False db = Scope_rows rows" "rows \<noteq> []"
    and f: "isSnoozeSourceFolder (Some f)" "\<forall>m\<in>set rows. ms_folder_id m = f"
    and msgs: "bx_messages db1 = put_to_sleep (map ms_id rows) f t db"
    and new: "\<And>c e r. scope = Scope_conversation c e r \<Longrightarrow> conversation_mail c SNOOZED db = []"
  shows "resolveScope scope True db1 = Scope_rows (map (snoozed_row f t) rows)"
proof (cases scope)
  case (Scope_message e)
  then have "rows_of [e] db = Scope_rows rows" using rows(1) by (simp add: resolveScope_def)
  note this' = rows_of_rows [OF this]
  from this'(2) obtain m where m: "rows = [m]" by (auto simp: length_Suc_conv)
  then have e: "ms_id m = e" using this'(1) by (auto simp: filter_eq_Cons_iff)
  then have "map ms_id rows = [e]" using m by simp
  then have "filter (\<lambda>m. ms_id m \<in> set [e]) (bx_messages db1) = map (snoozed_row f t) [m]"
    unfolding msgs m [symmetric] this'(1) by (simp only: sleeping_rows)
  then show ?thesis unfolding Scope_message m by (simp add: resolveScope_def rows_of_def Let_def)
next
  case (Scope_conversation c e r)
  from rows(1) obtain g where g: "visibleFolderId r db = Some g"
    and listed: "e \<in> set (listed_ids c g db)" "length (listed_ids c g db) \<le> 100" "rows_of (listed_ids c g db) db = Scope_rows rows"
    unfolding Scope_conversation resolveScope_def conversationScope_listed
    by (auto split: option.splits if_splits)
  then have mail: "rows = conversation_mail c g db" and once: "conversation_groups c g db = 1"
    using rows(2) unfolding rows_of_listed [OF ok] by (auto split: if_splits)
  have "f = g" using f(2) rows(2) unfolding mail by (cases "conversation_mail c g db") (auto simp: conversation_mail_def filter_eq_Cons_iff)
  then have asleep: "conversation_mail c SNOOZED db1 = map (snoozed_row f t) rows"
    using sleeping_conversation [OF ok new [OF Scope_conversation], of f db1 t] msgs snooze_source(2) [OF f(1)]
    by (simp add: mail \<open>f = g\<close>)
  then have once1: "conversation_groups c SNOOZED db1 = 1"
    using once unfolding conversation_groups_keys mail [symmetric] by (simp add: comp_def)
  have same: "listed_ids c SNOOZED db1 = listed_ids c g db"
    using listed_once [OF once] listed_once [OF once1] asleep mail by (simp add: comp_def)
  have "folder_exists SNOOZED db1" using mail_okD(1) [OF ok1] by (auto simp: system_folders_def folder_exists_def list_ex_iff)
  then obtain x where "find (\<lambda>x. fo_id x = SNOOZED) (bx_folders db1) = Some x" "fo_id x = SNOOZED"
    by (cases "find (\<lambda>x. fo_id x = SNOOZED) (bx_folders db1)") (auto simp: folder_exists_def list_ex_iff find_None_iff dest: found)
  then have "visibleFolderId SNOOZED db1 = Some SNOOZED"
    by (simp add: visibleFolderId_def internal_folder_def isInternalFolderId_def)
  then have "resolveScope scope True db1 = rows_of (listed_ids c SNOOZED db1) db1"
    using listed(1,2) unfolding Scope_conversation by (simp add: resolveScope_def conversationScope_listed same)
  then show ?thesis using once1 asleep by (simp add: rows_of_listed [OF ok1])
qed

text \<open>
  C37: A snooze can be taken back exactly. When a snooze of a message or a conversation succeeds (and the conversation had
  no snoozed mail before), ending it with the same scope succeeds for the same number of messages, and afterwards
  every message is in the folder it was in, with all its fields as before.
\<close>

theorem snooze_returns_mail:
  assumes ok: "mail_ok db" and snooze: "executeSnooze scope t a n db = ((Sz_snoozed, k), db1)"
    and new: "\<And>c e f. scope = Scope_conversation c e f \<Longrightarrow> conversation_mail c SNOOZED db = []"
  shows "\<exists>db2. executeUnsnooze scope a' n' db1 = ((Sz_unsnoozed, k), db2) \<and> bx_messages db2 = bx_messages db"
proof -
  have ok1: "mail_ok db1" using snooze_step [OF ok, of scope t a n] snooze by simp
  obtain rows f where rows: "resolveScope scope False db = Scope_rows rows" "rows \<noteq> []" "length rows \<le> 100" "k = length rows"
    and f: "isSnoozeSourceFolder (Some f)" "\<forall>m\<in>set rows. ms_folder_id m = f"
    and db1: "bx_messages db1 = put_to_sleep (map ms_id rows) f t db" "bx_folders db1 = bx_folders db"
    using snooze_taken [OF snooze] by metis
  obtain ids where "rows_of ids db = Scope_rows rows" using resolved_rows [OF rows(1)] .
  note listed = rows_ids [OF this] rows_of_rows(1) [OF this]
  have mine: "message_ok db m \<and> ms_folder_id m = f" if "m \<in> set (bx_messages db)" "ms_id m \<in> set (map ms_id rows)" for m
    using that listed(1) [of m] f(2) mail_okD(2) [OF ok] by simp
  obtain r where r: "r \<in> set rows" using rows(2) by (cases rows) auto
  then have "message_ok db r" "ms_folder_id r = f" using listed(2) f(2) mail_okD(2) [OF ok] by simp_all
  then have exists: "folder_exists f db" by (simp add: message_ok_def)
  have "wake_folder db1 (snoozed_row f t m) = f" for m
    using f(1) exists snooze_source(2) [OF f(1)] db1(2)
    by (auto simp: wake_folder_def source_exists_def snoozed_row_def resolveUnsnoozeFolder_def folder_exists_def
        isSnoozeSourceFolder_def)
  then have "\<exists>db2. executeUnsnooze scope a' n' db1 = ((Sz_unsnoozed, length (map (snoozed_row f t) rows)), db2) \<and>
      bx_messages db2 = update_where (\<lambda>m. ms_id m \<in> ms_id ` set (map (snoozed_row f t) rows)) (woken f) (bx_messages db1)"
    using rows(2,3) by (intro unsnooze_wakes sleeping_scope [OF ok ok1 rows(1,2) f db1(1) new]) auto
  moreover have "update_where (\<lambda>m. ms_id m \<in> set (map ms_id rows)) (woken f) (put_to_sleep (map ms_id rows) f t db) = bx_messages db"
    using mine snooze_source(2) [OF f(1)] by (intro woken_sleep) auto
  ultimately show ?thesis by (simp add: db1(1) rows(4) image_comp comp_def image_image)
qed

subsection \<open>The trash and back\<close>

lemma trashed_filed:
  assumes "message_ok db m" and "ms_folder_id m \<noteq> TRASH"
  shows "filed_row (ms_folder_id m) True (trashed_row (ms_folder_id m) now m) = m"
  using assms by (cases m) (simp add: message_ok_def trash_marks_ok_def filed_row_def trashed_row_def)

lemma find_updated:
  "find_message i db = Some m \<Longrightarrow> (\<And>m. ms_id (g m) = ms_id m) \<Longrightarrow>
     find_message i (edit_messages (\<lambda>m. ms_id m = i) g db) = Some (g m)"
proof -
  assume "find_message i db = Some m" and keeps: "\<And>m. ms_id (g m) = ms_id m"
  then have "find (\<lambda>m. ms_id m = i) (bx_messages db) = Some m" by (simp add: find_message_def)
  moreover have "find (\<lambda>m. ms_id m = i) ms = Some m \<Longrightarrow>
      find (\<lambda>m. ms_id m = i) (update_where (\<lambda>m. ms_id m = i) g ms) = Some (g m)" for ms
    by (induction ms) (auto simp: keeps split: if_splits)
  ultimately show ?thesis by (simp add: find_message_def)
qed

text \<open>
  C39: The trash can be taken back exactly (no folder has the empty id). A message that was moved to the trash is restored
  to the folder it was in, and every message is then as it was before.
\<close>

theorem trash_restores:
  assumes ok: "mail_ok db" and trash: "trashEmail i a n db = (Tr_trashed, db1)" and "\<not> folder_exists [] db"
  shows "\<exists>m db2. find_message i db = Some m \<and> restoreEmail i a' n' db1 = (Rs_restored (ms_folder_id m), db2) \<and>
    bx_messages db2 = bx_messages db"
proof -
  from trash obtain m where m: "find_message i db = Some m" "ms_folder_id m \<noteq> TRASH"
    and db1: "db1 = recordActivity a ''email_trashed'' ''email'' i [(''fromFolderId'', JStr (ms_folder_id m))] n
      (edit_messages (\<lambda>m. ms_id m = i) (trashed_row (ms_folder_id m) n) db)"
    by (auto simp: trashEmail_def planTrash_def split: option.splits if_splits)
  have mail: "m \<in> set (bx_messages db)" "ms_id m = i" using find_message_Some [OF m(1)] by simp_all
  then have exists: "folder_exists (ms_folder_id m) db" using mail_okD(2) [OF ok] by (simp add: message_ok_def)
  then have named: "ms_folder_id m \<noteq> []" using assms(3) by auto
  have found1: "find_message i db1 = Some (trashed_row (ms_folder_id m) n m)"
    using find_updated [OF m(1), of "trashed_row (ms_folder_id m) n"] unfolding db1 by (simp add: find_message_def)
  have returned: "update_where (\<lambda>m. ms_id m = i) (filed_row (ms_folder_id m) True)
      (update_where (\<lambda>m. ms_id m = i) (trashed_row (ms_folder_id m) n) ms) = ms" if "set ms \<subseteq> set (bx_messages db)" for ms
    using that
  proof (induction ms)
    case (Cons m' ms)
    then have "ms_id m' = i \<Longrightarrow> m' = m" using same_message [OF ok _ mail(1)] mail(2) by simp
    then show ?case using Cons trashed_filed [OF mail_okD(2) [OF ok mail(1)] m(2)] mail(2) by auto
  qed simp
  have "restoreEmail i a' n' db1 = (Rs_restored (ms_folder_id m), recordActivity a' ''email_restored'' ''email'' i
      [(''toFolderId'', JStr (ms_folder_id m))] n' (edit_messages (\<lambda>m. ms_id m = i) (filed_row (ms_folder_id m) True) db1))"
    if "ms_folder_id m \<noteq> []" using that found1 exists m(2)
    by (simp add: restoreEmail_def resolveRestoreFolder_def trashed_row_def db1 folder_exists_def Let_def)
  moreover have "bx_messages db1 = update_where (\<lambda>m. ms_id m = i) (trashed_row (ms_folder_id m) n) (bx_messages db)"
    by (simp add: db1)
  ultimately show ?thesis using m(1) returned [OF order.refl] named by auto
qed

end
