(* ===== verification/Mail_Waking.thy ===== *)
theory Mail_Waking
  imports Mail_Returns "HOL-Library.Multiset"
begin

text \<open>
  Snoozed mail wakes: a batch takes the first hundred due messages, and the alarm it asks for comes no later than
  the time of any message that is still asleep.
\<close>

subsection \<open>Prefixes of sorted lists\<close>

lemma filter_take_downward:
  "sorted_wrt (\<lambda>x y. P y \<longrightarrow> P x) xs \<Longrightarrow> filter P (take n xs) = take n (filter P xs)"
proof (induction xs arbitrary: n)
  case (Cons x xs)
  show ?case
  proof (cases "P x")
    case True
    then show ?thesis using Cons by (cases n) simp_all
  next
    case False
    then have "filter P xs = []" using Cons.prems by (simp add: filter_empty_conv)
    moreover have "filter P (take n (x # xs)) = []"
      using False Cons.prems by (auto simp: filter_empty_conv dest!: in_set_takeD)
    ultimately show ?thesis using False by simp
  qed
qed simp

lemma filter_beyond:
  "distinct (map f xs) \<Longrightarrow> filter (\<lambda>x. f x \<notin> f ` set (take n xs)) xs = drop n xs"
proof (induction xs arbitrary: n)
  case (Cons x xs)
  show ?case
  proof (cases n)
    case (Suc k)
    have "filter (\<lambda>y. f y \<notin> f ` set (take n (x # xs))) xs = filter (\<lambda>y. f y \<notin> f ` set (take k xs)) xs"
      using Cons.prems Suc by (intro filter_cong refl) (auto simp: image_iff)
    then show ?thesis using Cons Suc by simp
  qed simp
qed simp

subsection \<open>The wake-ups of a batch\<close>

definition due_mail :: "(string \<Rightarrow> instant option) \<Rightarrow> instant \<Rightarrow> mailbox_db \<Rightarrow> message_row list" where
  "due_mail dateParse now db = filter (\<lambda>m. ms_folder_id m = SNOOZED \<and> snooze_due dateParse now m) (bx_messages db)"

definition woken_by :: "(string \<times> string) list \<Rightarrow> message_row \<Rightarrow> message_row" where
  "woken_by ts m = (if ms_folder_id m = SNOOZED then (case map_of ts (ms_id m) of None \<Rightarrow> m | Some f \<Rightarrow> woken f m) else m)"

lemma wake_messages:
  assumes "\<And>i f. (i, f) \<in> set ts \<Longrightarrow> f \<noteq> SNOOZED"
  shows "bx_messages (fold (\<lambda>(i, f). edit_messages (\<lambda>m. ms_id m = i \<and> ms_folder_id m = SNOOZED) (woken f)) ts db) =
    map (woken_by ts) (bx_messages db)"
  using assms
proof (induction ts arbitrary: db)
  case Nil
  have "woken_by [] = id" by (rule ext) (simp add: woken_by_def)
  then show ?case by simp
next
  case (Cons t ts)
  obtain i f where t: "t = (i, f)" by (metis surj_pair)
  have f: "f \<noteq> SNOOZED" using Cons.prems [of i f] t by simp
  have "map (woken_by ts) (update_where (\<lambda>m. ms_id m = i \<and> ms_folder_id m = SNOOZED) (woken f) ms) =
      map (woken_by ((i, f) # ts)) ms" for ms
    by (induction ms) (simp_all add: woken_by_def f)
  moreover have "bx_messages (fold (\<lambda>(i, f). edit_messages (\<lambda>m. ms_id m = i \<and> ms_folder_id m = SNOOZED) (woken f)) ts db) =
      map (woken_by ts) (bx_messages db)" for db by (rule Cons.IH) (rule Cons.prems [OF list.set_intros(2)])
  ultimately show ?case by (simp add: t)
qed

lemma still_asleep:
  assumes "\<And>i f. (i, f) \<in> set ts \<Longrightarrow> f \<noteq> SNOOZED"
  shows "filter (\<lambda>m. ms_folder_id m = SNOOZED \<and> P m) (map (woken_by ts) ms) =
    filter (\<lambda>m. ms_id m \<notin> fst ` set ts) (filter (\<lambda>m. ms_folder_id m = SNOOZED \<and> P m) ms)"
proof (induction ms)
  case (Cons m ms)
  have "ms_folder_id (woken_by ts m) = SNOOZED \<longleftrightarrow> ms_folder_id m = SNOOZED \<and> ms_id m \<notin> fst ` set ts"
    using assms by (force simp: woken_by_def map_of_eq_None_iff dest: map_of_SomeD split: option.split)
  moreover have "ms_id m \<notin> fst ` set ts \<Longrightarrow> woken_by ts m = m"
    by (force simp: woken_by_def map_of_eq_None_iff split: option.split dest: map_of_SomeD)
  ultimately show ?case using Cons by auto
qed simp

subsection \<open>The next alarm\<close>

lemma earlier_le: "\<exists>a. earlier b t = Some a \<and> a \<le> t \<and> (\<forall>x. b = Some x \<longrightarrow> a \<le> x)"
  by (cases b) (auto simp: earlier_def)

lemma first_wakes_best:
  "best = Some b \<Longrightarrow> \<exists>a. first_wakes dp now ms best = Some a \<and> a \<le> b"
proof (induction ms arbitrary: best b)
  case (Cons m ms)
  show ?case
  proof (cases "wake_time dp m")
    case (Some t)
    obtain c where c: "earlier best t = Some c" "c \<le> b" using earlier_le [of best t] Cons.prems by auto
    show ?thesis using Some Cons.IH [OF Cons.prems] Cons.IH [OF c(1)] c(2) by (auto intro: order.trans)
  qed (use Cons in simp)
qed simp

lemma first_wakes_member:
  "m \<in> set ms \<Longrightarrow> wake_time dp m = Some t \<Longrightarrow> now < t \<Longrightarrow> \<exists>a. first_wakes dp now ms best = Some a \<and> a \<le> t"
proof (induction ms arbitrary: best)
  case (Cons m' ms)
  show ?case
  proof (cases "m' = m")
    case True
    obtain c where c: "earlier best t = Some c" "c \<le> t" using earlier_le [of best t] by auto
    show ?thesis using first_wakes_best [OF c(1), of dp now ms] c(2) True Cons.prems by auto
  next
    case False
    then show ?thesis using Cons by (auto split: option.split)
  qed
qed simp

lemma overflow_keeps:
  "best = Some b \<Longrightarrow> \<exists>a. overflow_wakes dp now (take (Suc 0) ms) best = Some a \<and> a \<le> max now b"
  using earlier_le [of best] by (cases ms) (fastforce split: option.split)+

lemma overflow_first:
  "wake_time dp m = Some t \<Longrightarrow> \<exists>a. overflow_wakes dp now [m] best = Some a \<and> a \<le> max now t"
  using earlier_le [of best t] by auto

subsection \<open>A batch\<close>

text \<open>The times of snoozed mail as the program writes them.\<close>

definition wake_times_ok :: "mailbox_db \<Rightarrow> bool" where
  "wake_times_ok db \<longleftrightarrow>
     (\<forall>m\<in>set (bx_messages db). ms_folder_id m = SNOOZED \<longrightarrow> (\<exists>t. ms_snoozed_until m = Some (Canon t) \<and> iso_years t))"

lemma wake_order:
  assumes "ms_snoozed_until m = Some (Canon t)" "iso_years t" "ms_snoozed_until m' = Some (Canon t')" "iso_years t'"
    and "wake_key m \<le> wake_key m'"
  shows "t \<le> t'"
proof -
  have "iso_text t \<le> iso_text t'" using assms(1,3,5) by (auto simp: wake_key_def less_eq_prod_simp)
  then show ?thesis by (simp add: iso_text_order [OF assms(2,4)])
qed

lemma snoozed_rows_sorted:
  assumes "wake_times_ok db"
  shows "sorted_wrt (\<lambda>x y. \<forall>u. wake_time dp y = Some u \<longrightarrow> (\<exists>t. wake_time dp x = Some t \<and> t \<le> u)) (snoozed_rows db)"
proof -
  have "sorted_wrt (\<lambda>x y. wake_key x \<le> wake_key y) (snoozed_rows db)"
    using sorted_sort_key [of wake_key] by (simp add: snoozed_rows_def sorted_map)
  then show ?thesis
  proof (rule sorted_wrt_mono_rel [rotated])
    fix x y assume "x \<in> set (snoozed_rows db)" "y \<in> set (snoozed_rows db)" and le: "wake_key x \<le> wake_key y"
    then obtain t where t: "ms_snoozed_until x = Some (Canon t)" "iso_years t"
      using assms by (auto simp: snoozed_rows_def wake_times_ok_def)
    from \<open>y \<in> set (snoozed_rows db)\<close> obtain t' where t': "ms_snoozed_until y = Some (Canon t')" "iso_years t'"
      using assms by (auto simp: snoozed_rows_def wake_times_ok_def)
    from wake_order [OF t t' le] t t'
    show "\<forall>u. wake_time dp y = Some u \<longrightarrow> (\<exists>t. wake_time dp x = Some t \<and> t \<le> u)" by (simp add: wake_time_def)
  qed
qed

lemma due_first:
  assumes "wake_times_ok db"
  shows "filter (snooze_due dp now) (take n (snoozed_rows db)) = take n (filter (snooze_due dp now) (snoozed_rows db))"
proof (rule filter_take_downward)
  have times: "\<exists>t. wake_time dp x = Some t" if "x \<in> set (snoozed_rows db)" for x
    using assms that by (auto simp: snoozed_rows_def wake_times_ok_def wake_time_def)
  show "sorted_wrt (\<lambda>x y. snooze_due dp now y \<longrightarrow> snooze_due dp now x) (snoozed_rows db)"
    using snoozed_rows_sorted [OF assms, of dp]
  proof (rule sorted_wrt_mono_rel [rotated])
    fix x y assume "x \<in> set (snoozed_rows db)" "y \<in> set (snoozed_rows db)"
      and "\<forall>u. wake_time dp y = Some u \<longrightarrow> (\<exists>t. wake_time dp x = Some t \<and> t \<le> u)"
    then show "snooze_due dp now y \<longrightarrow> snooze_due dp now x" using times [of y] by (auto simp: snooze_due_def)
  qed
qed

definition wake_targets :: "(string \<Rightarrow> instant option) \<Rightarrow> instant \<Rightarrow> mailbox_db \<Rightarrow> (string \<times> string) list" where
  "wake_targets dp now db = map (\<lambda>m. (ms_id m, wake_folder db m)) (filter (snooze_due dp now) (take 100 (snoozed_rows db)))"

lemma batch_messages:
  assumes "mail_ok db"
  shows "bx_messages (snd (processDueSnoozeBatch dp now db)) = map (woken_by (wake_targets dp now db)) (bx_messages db)"
proof -
  have "map (woken_by []) ms = ms" for ms by (rule map_idI) (simp add: woken_by_def)
  moreover have "bx_messages (fold (\<lambda>(i, f). edit_messages (\<lambda>m. ms_id m = i \<and> ms_folder_id m = SNOOZED) (woken f))
      (wake_targets dp now db) db) = map (woken_by (wake_targets dp now db)) (bx_messages db)"
    by (rule wake_messages) (use wake_folder_ok(2) [OF mail_okD(1) [OF assms]] in \<open>auto simp: wake_targets_def\<close>)
  ultimately show ?thesis
    by (simp add: processDueSnoozeBatch_def planDueSnoozeWake_def MAX_SNOOZE_TARGETS_def wake_targets_def [symmetric] Let_def)
qed

lemma batch_next:
  "fst (processDueSnoozeBatch dp now db) =
     overflow_wakes dp now (take (Suc 0) (drop 100 (snoozed_rows db))) (first_wakes dp now (take 100 (snoozed_rows db)) None)"
  by (simp add: processDueSnoozeBatch_def planDueSnoozeWake_def MAX_SNOOZE_TARGETS_def drop_take Let_def)

lemma asleep_after:
  assumes "mail_ok db"
  shows "filter (\<lambda>m. ms_folder_id m = SNOOZED \<and> P m) (bx_messages (snd (processDueSnoozeBatch dp now db))) =
    filter (\<lambda>m. ms_id m \<notin> ms_id ` set (filter (snooze_due dp now) (take 100 (snoozed_rows db))))
      (filter (\<lambda>m. ms_folder_id m = SNOOZED \<and> P m) (bx_messages db))"
proof -
  have ids: "fst ` set (wake_targets dp now db) = ms_id ` set (filter (snooze_due dp now) (take 100 (snoozed_rows db)))"
    by (simp add: wake_targets_def image_image)
  show ?thesis unfolding batch_messages [OF assms] ids [symmetric]
    by (rule still_asleep) (use wake_folder_ok(2) [OF mail_okD(1) [OF assms]] in \<open>auto simp: wake_targets_def\<close>)
qed

lemma still_due:
  assumes "mail_ok db"
  shows "due_mail dp now (snd (processDueSnoozeBatch dp now db)) =
    filter (\<lambda>m. ms_id m \<notin> ms_id ` set (filter (snooze_due dp now) (take 100 (snoozed_rows db)))) (due_mail dp now db)"
  unfolding due_mail_def by (rule asleep_after [OF assms])

lemma still_due_length:
  assumes ok: "mail_ok db" and times: "wake_times_ok db"
  shows "length (due_mail dp now (snd (processDueSnoozeBatch dp now db))) = length (due_mail dp now db) - 100"
proof -
  let ?due = "filter (snooze_due dp now) (snoozed_rows db)"
  have perm: "mset ?due = mset (due_mail dp now db)"
    by (simp add: snoozed_rows_def due_mail_def filter_sort conj_commute)
  have "distinct (map ms_id (filter (\<lambda>m. ms_folder_id m = SNOOZED \<and> snooze_due dp now m) (bx_messages db)))"
    using ok by (intro distinct_map_filter) (simp add: mail_ok_def)
  moreover have "mset (map ms_id ?due) = mset (map ms_id (due_mail dp now db))" by (simp only: mset_map perm)
  note mset_eq_imp_distinct_iff [OF this]
  ultimately have dist: "distinct (map ms_id ?due)" by (simp only: due_mail_def)
  let ?woken = "ms_id ` set (take 100 ?due)"
  have "mset (filter (\<lambda>m. ms_id m \<notin> ?woken) (due_mail dp now db)) = mset (filter (\<lambda>m. ms_id m \<notin> ?woken) ?due)"
    unfolding mset_filter [of "\<lambda>m. ms_id m \<notin> ?woken"] perm by (rule refl)
  note mset_eq_length [OF this]
  also have "length (filter (\<lambda>m. ms_id m \<notin> ?woken) ?due) = length (due_mail dp now db) - 100"
    using mset_eq_length [OF perm] unfolding filter_beyond [OF dist] by (simp only: length_drop)
  finally show ?thesis unfolding still_due [OF ok] due_first [OF times] .
qed

text \<open>
  C38: Snoozed mail wakes. One batch of the wake-up takes a hundred due messages out of the snoozed folder, or all that are due when there are
  fewer, and the alarm it asks for comes no later than the wake time of any message still snoozed (or
  at once, when one is due already).
\<close>

theorem due_mail_wakes:
  assumes "mail_ok db" and "wake_times_ok db" and "processDueSnoozeBatch dateParse now db = (upcoming, db')"
  shows "length (due_mail dateParse now db') = length (due_mail dateParse now db) - 100 \<and>
    (\<forall>m\<in>set (bx_messages db'). \<forall>t. ms_folder_id m = SNOOZED \<longrightarrow> wake_time dateParse m = Some t \<longrightarrow>
       (\<exists>a. upcoming = Some a \<and> a \<le> max now t))"
proof (rule conjI)
  show "length (due_mail dateParse now db') = length (due_mail dateParse now db) - 100"
    using still_due_length [OF assms(1,2), of dateParse now] assms(3) by simp
  let ?rows = "snoozed_rows db" and ?best = "first_wakes dateParse now (take 100 (snoozed_rows db)) None"
  have upcoming: "upcoming = overflow_wakes dateParse now (take (Suc 0) (drop 100 ?rows)) ?best"
    using batch_next [of dateParse now db] assms(3) by simp
  show "\<forall>m\<in>set (bx_messages db'). \<forall>t. ms_folder_id m = SNOOZED \<longrightarrow> wake_time dateParse m = Some t \<longrightarrow>
      (\<exists>a. upcoming = Some a \<and> a \<le> max now t)"
  proof (intro ballI allI impI)
    fix m t assume m: "m \<in> set (bx_messages db')" "ms_folder_id m = SNOOZED" and t: "wake_time dateParse m = Some t"
    have "m \<in> set (filter (\<lambda>m. ms_folder_id m = SNOOZED \<and> True) (bx_messages (snd (processDueSnoozeBatch dateParse now db))))"
      using m assms(3) by simp
    then have stays: "m \<in> set ?rows" "ms_id m \<notin> ms_id ` set (filter (snooze_due dateParse now) (take 100 ?rows))"
      unfolding asleep_after [OF assms(1)] by (simp_all add: snoozed_rows_def)
    consider (shown) "m \<in> set (take 100 ?rows)" | (later) "m \<in> set (drop 100 ?rows)"
      using stays(1) by (metis Un_iff append_take_drop_id set_append)
    then show "\<exists>a. upcoming = Some a \<and> a \<le> max now t"
    proof cases
      case shown
      then have "\<not> snooze_due dateParse now m" using stays(2) by auto
      then have "now < t" using t by (simp add: snooze_due_def)
      then obtain b where "?best = Some b" "b \<le> t" using first_wakes_member [OF shown t] by blast
      then show ?thesis using overflow_keeps [of ?best b dateParse now "drop 100 ?rows"] upcoming by fastforce
    next
      case later
      then obtain x xs where x: "drop 100 ?rows = x # xs" by (cases "drop 100 ?rows") auto
      have "sorted_wrt (\<lambda>x y. \<forall>u. wake_time dateParse y = Some u \<longrightarrow> (\<exists>t. wake_time dateParse x = Some t \<and> t \<le> u)) (x # xs)"
        using sorted_wrt_drop [OF snoozed_rows_sorted [OF assms(2), of dateParse], of 100] unfolding x .
      then obtain u where u: "wake_time dateParse x = Some u" "u \<le> t" using later t unfolding x by auto
      show ?thesis using overflow_first [OF u(1), of now ?best] u(2) unfolding upcoming x by fastforce
    qed
  qed
qed

end
