(* ===== verification/Mail_Witnesses.thy ===== *)
theory Mail_Witnesses
  imports Mail_Guarantees Mail_Returns Mail_Waking
begin

text \<open>A small mailbox on which the hypotheses of the mail properties hold.\<close>

definition sample_message :: "string \<Rightarrow> string \<Rightarrow> string \<Rightarrow> string \<Rightarrow> message_row" where
  "sample_message i folder thread subject =
     \<lparr>ms_id = i, ms_folder_id = folder, ms_subject = Some subject, ms_thread_id = Some thread, ms_date = Some (Canon 5),
      ms_read = Some False, ms_starred = Some False, ms_previous_folder_id = None, ms_trashed_at = None,
      ms_snooze_source_folder_id = (if folder = SNOOZED then Some INBOX else None),
      ms_snoozed_until = (if folder = SNOOZED then Some (Canon 50) else None)\<rparr>"

text \<open>A conversation of two messages, one whose subject was changed, a snoozed message and one being sent.\<close>

definition sample_mailbox :: mailbox_db where
  "sample_mailbox =
     \<lparr>bx_folders = map (\<lambda>i. \<lparr>fo_id = i, fo_name = i, fo_is_deletable = False\<rparr>) [INBOX, OUTBOX, SNOOZED, ARCHIVE, TRASH],
      bx_messages = [sample_message ''a'' INBOX ''t1'' ''Hello'', sample_message ''b'' INBOX ''t1'' ''Re: Hello'',
        sample_message ''c'' INBOX ''t2'' ''Plans'', sample_message ''d'' INBOX ''t2'' ''Other plans'',
        sample_message ''s'' SNOOZED ''t3'' ''Later'', sample_message ''o'' OUTBOX ''t4'' ''Offer''],
      bx_outbound = [\<lparr>ob_id = ''q'', ob_email_id = ''o'', ob_status = Queued\<rparr>],
      bx_wakes = [], bx_replies = [], bx_operations = [], bx_activity = [], bx_alarm = None\<rparr>"

definition sample_actor :: mail_actor where
  "sample_actor = (''user'', Some ''u'')"

lemma sample_mail_ok: "mail_ok sample_mailbox"
  by (simp add: mail_ok_def sample_mailbox_def sample_message_def system_folders_def message_ok_def folder_exists_def
      snooze_marks_ok_def trash_marks_ok_def isSnoozeSourceFolder_def BLOCKED_SOURCE_FOLDERS_def folder_names)

text \<open>Trash and restore, file a conversation, and wake what is due.\<close>

definition sample_mail_ops :: "mail_op list" where
  "sample_mail_ops =
     [Mo_trash ''a'' sample_actor 10, Mo_trash ''o'' sample_actor 11, Mo_restore ''a'' sample_actor 12,
      Mo_archive ''t1'' INBOX ''a'' sample_actor 13, Mo_move ''o'' INBOX sample_actor 14, Mo_wake_due (\<lambda>_. None) 60]"

lemma mail_stays_in_order_witness:
  "mail_ok (run_mail_ops sample_mail_ops sample_mailbox) \<and>
   (\<exists>new. map ms_id (bx_messages (run_mail_ops sample_mail_ops sample_mailbox)) =
     map ms_id (bx_messages sample_mailbox) @ new)"
  by (rule mail_stays_in_order [OF sample_mail_ok])

lemma mail_being_sent_stays_witness:
  "\<exists>m'. find_message ''o'' (run_mail_ops sample_mail_ops sample_mailbox) = Some m' \<and> ms_folder_id m' = OUTBOX"
proof -
  have "find_message ''o'' sample_mailbox = Some (sample_message ''o'' OUTBOX ''t4'' ''Offer'')" by code_simp
  then show ?thesis
    using mail_being_sent_stays [OF sample_mail_ok, of "\<lparr>ob_id = ''q'', ob_email_id = ''o'', ob_status = Queued\<rparr>"
        "sample_message ''o'' OUTBOX ''t4'' ''Offer''" sample_mail_ops]
    by (simp add: sample_mailbox_def sample_message_def sample_mail_ops_def folder_names)
qed

lemma changed_subject_blocks_snooze_witness:
  "executeSnooze (Scope_conversation ''t2'' ''c'' INBOX) 100 sample_actor 10 sample_mailbox
     \<in> {((Sz_not_found, 0), sample_mailbox), ((Sz_too_large, 0), sample_mailbox)}"
proof -
  have "visibleFolderId INBOX sample_mailbox = Some INBOX" by code_simp
  moreover have "sample_message ''c'' INBOX ''t2'' ''Plans'' \<in> set (bx_messages sample_mailbox)"
    "sample_message ''d'' INBOX ''t2'' ''Other plans'' \<in> set (bx_messages sample_mailbox)"
    by (simp_all add: sample_mailbox_def)
  moreover have "raw_thread_id (sample_message ''c'' INBOX ''t2'' ''Plans'') = ''t2''"
    "raw_thread_id (sample_message ''d'' INBOX ''t2'' ''Other plans'') = ''t2''" by code_simp+
  moreover have "normalized_subject (ms_subject (sample_message ''c'' INBOX ''t2'' ''Plans'')) \<noteq>
      normalized_subject (ms_subject (sample_message ''d'' INBOX ''t2'' ''Other plans''))" by code_simp
  moreover have "ms_folder_id (sample_message i INBOX t x) = INBOX" for i t x by (simp add: sample_message_def)
  ultimately show ?thesis by (intro changed_subject_blocks_snooze [OF sample_mail_ok])
qed

lemma snooze_returns_mail_witness:
  "\<exists>db2. executeUnsnooze (Scope_conversation ''t1'' ''a'' INBOX) sample_actor 20
       (snd (executeSnooze (Scope_conversation ''t1'' ''a'' INBOX) 100 sample_actor 10 sample_mailbox)) =
     ((Sz_unsnoozed, 2), db2) \<and> bx_messages db2 = bx_messages sample_mailbox"
proof -
  let ?run = "executeSnooze (Scope_conversation ''t1'' ''a'' INBOX) 100 sample_actor 10 sample_mailbox"
  have "fst ?run = (Sz_snoozed, 2)" by code_simp
  then have run: "?run = ((Sz_snoozed, 2), snd ?run)" by (simp add: prod_eq_iff)
  have "conversation_mail ''t1'' SNOOZED sample_mailbox = []" by code_simp
  then have "\<And>c e f. Scope_conversation ''t1'' ''a'' INBOX = Scope_conversation c e f \<Longrightarrow>
      conversation_mail c SNOOZED sample_mailbox = []" by simp
  then show ?thesis by (rule snooze_returns_mail [OF sample_mail_ok run])
qed

lemma trash_restores_witness:
  "\<exists>m db2. find_message ''a'' sample_mailbox = Some m \<and>
     restoreEmail ''a'' sample_actor 20 (snd (trashEmail ''a'' sample_actor 10 sample_mailbox)) =
       (Rs_restored (ms_folder_id m), db2) \<and> bx_messages db2 = bx_messages sample_mailbox"
proof -
  let ?run = "trashEmail ''a'' sample_actor 10 sample_mailbox"
  have "fst ?run = Tr_trashed" by code_simp
  then have "?run = (Tr_trashed, snd ?run)" by (simp add: prod_eq_iff)
  moreover have "\<not> folder_exists [] sample_mailbox" by code_simp
  ultimately show ?thesis by (rule trash_restores [OF sample_mail_ok])
qed

lemma due_mail_wakes_witness:
  "due_mail (\<lambda>_. None) 60 (snd (processDueSnoozeBatch (\<lambda>_. None) 60 sample_mailbox)) = [] \<and>
   fst (processDueSnoozeBatch (\<lambda>_. None) 40 sample_mailbox) = Some 50"
proof
  have times: "wake_times_ok sample_mailbox"
    by (simp add: wake_times_ok_def sample_mailbox_def sample_message_def iso_years_def folder_names)
  have "length (due_mail (\<lambda>_. None) 60 sample_mailbox) = 1" by code_simp
  then show "due_mail (\<lambda>_. None) 60 (snd (processDueSnoozeBatch (\<lambda>_. None) 60 sample_mailbox)) = []"
    using due_mail_wakes [OF sample_mail_ok times, of "\<lambda>_. None" 60] by (metis diff_is_0_eq length_0_conv one_le_numeral prod.collapse)
  show "fst (processDueSnoozeBatch (\<lambda>_. None) 40 sample_mailbox) = Some 50" by code_simp
qed

end
