(* ===== verification/Spec2Isabelle.thy ===== *)
theory Spec2Isabelle
  imports Mail_Address Bulk_Pacing Outbound_Witnesses Login_Witnesses Push_Witnesses AI_Witnesses Access_Witnesses Recovery_Witnesses
    Reminder_Witnesses Mail_Witnesses
begin

text \<open>
  Verification of the mail portal: the server side of a shared mail client that runs on Cloudflare Workers. A worker
  answers requests; every mailbox is a Durable Object with a SQLite database of its own, woken by requests and by
  one alarm; users, mailbox memberships, recovery tokens, login throttles, AI accounts and reminders live in one D1
  database all workers share. Nothing protects the workers from each other but the transactions of the two
  databases, so most of what makes the program correct is said by its SQL: what a statement requires of the row it
  changes, which rows a trigger writes, which lease a later statement asks for. The models follow it statement by
  statement. A transaction is a function on the tables; an operation that sends several statements takes what
  other requests did between two of them as an argument (\<open>others n\<close>, or an explicit list of operations), and the
  guarantees are proved for every such interference.

  Parts of the program, how they interact, and the theories about them.

  \<^descr> Foundations. \<^verbatim>\<open>Portal_Prelude\<close> (instants, JavaScript strings and numbers, tables as lists of rows with the
  statements \<open>find\<close>, \<open>update_where\<close>, \<open>count_where\<close>), \<^verbatim>\<open>Row_Edits\<close> (what an update leaves), \<^verbatim>\<open>Iso_Date\<close>
  (\<^verbatim>\<open>toISOString\<close>), \<^verbatim>\<open>Mail_Address\<close> (\<^verbatim>\<open>workers/lib/mail-address.ts\<close>), and three interfaces: \<^verbatim>\<open>Keyed_Store\<close> (a
  service and the store of its records), \<^verbatim>\<open>Keyed_Machine\<close> (a store whose steps are moves of single records along a
  life cycle), \<^verbatim>\<open>Lease_Protocol\<close> (work under a lease is settled once). Each interface is interpreted on the
  operations of the components below, which is how their guarantees are proved.

  \<^descr> Outbox: outgoing mail. A command enqueues a message with an immutable snapshot; the mailbox's alarm claims what
  is due under a lease, checks it, begins a provider attempt, sends, and records the provider's answer; an answer
  that never comes leaves the message \<open>unknown\<close> until a person decides. \<^verbatim>\<open>Outbound_Contract\<close> (statuses, the
  transition table, classification of answers, quotas, schedules), \<^verbatim>\<open>Bulk_Pacing\<close>, \<^verbatim>\<open>Outbound_Records\<close>,
  \<^verbatim>\<open>Outbound_Snapshot\<close> and \<^verbatim>\<open>Outbound_Storage\<close> (\<^verbatim>\<open>workers/durableObject/outbound-storage.ts\<close>: columns as stored,
  malformed ones included), \<^verbatim>\<open>Outbound_Service\<close> (\<^verbatim>\<open>workers/lib/outbound-delivery-service.ts\<close>, every command as one
  transaction). On top: \<^verbatim>\<open>Outbound_Store_Laws\<close> (the adapter implements the keyed store), \<^verbatim>\<open>Outbound_Lifecycle\<close> (the
  commands refine the life cycle of one message), \<^verbatim>\<open>Outbound_Enqueue\<close>, \<^verbatim>\<open>Outbound_Guarantees\<close>,
  \<^verbatim>\<open>Outbound_Recovery\<close>, \<^verbatim>\<open>Outbound_Machine\<close> (all sequences of the service's commands) and \<^verbatim>\<open>Outbound_Provider\<close> (the
  mailbox's own writers in \<^verbatim>\<open>workers/durableObject/index.ts\<close>: delivery reports, outcomes a report overtook, repairs
  from the evidence of accepted attempts, the bookkeeping of cancellations; and all sequences of commands and these).
  They show that one lease has one outcome, that a message that was or may have been delivered is only sent again
  after an explicit acknowledgement, that repeating a command changes nothing, and that expired leases are released.

  \<^descr> Login throttle. \<^verbatim>\<open>Login_Throttle\<close> (\<^verbatim>\<open>workers/lib/login-throttle.ts\<close> and \<^verbatim>\<open>login-throttle-d1.ts\<close>) and
  \<^verbatim>\<open>Login_Throttle_Laws\<close>: recorded and pending guesses together stay within the limit of a bucket, and a lock admits
  nobody until it ends.

  \<^descr> Push outbox: notifications to devices. \<^verbatim>\<open>Push_Outbox\<close>, \<^verbatim>\<open>Push_Payload\<close> and \<^verbatim>\<open>Push_Worker\<close>
  (\<^verbatim>\<open>workers/lib/push/outbox.ts\<close>, \<^verbatim>\<open>classify.ts\<close>, the tables of the mailbox), \<^verbatim>\<open>Push_Machine\<close> (steps of single
  statements, and the deletion of a mail, which takes its notifications along), \<^verbatim>\<open>Push_Simulation\<close> (a batch
  refines the steps, with any interleaving), \<^verbatim>\<open>Push_Recovery\<close> and \<^verbatim>\<open>Push_Guarantees\<close>: requests per delivery are
  bounded, each is made on a claim and after a positive access check for its user and mailbox, and the alarm
  covers what is due.

  \<^descr> AI cost control: a monthly budget shared by all workers. \<^verbatim>\<open>AI_Ledger\<close> (tables and triggers of migration 0004 and
  \<^verbatim>\<open>ai-cost-control-d1.ts\<close>), \<^verbatim>\<open>AI_Cost\<close> (\<^verbatim>\<open>ai-cost-control.ts\<close>: configuration, prices, the decision to call a model),
  \<^verbatim>\<open>AI_Cache\<close> (the key of the answer cache), \<^verbatim>\<open>AI_Budget\<close> (the ledger as a machine whose monthly sums are those of its
  events) and \<^verbatim>\<open>AI_Guarantees\<close>.

  \<^descr> Accounts and access. \<^verbatim>\<open>Portal_Tables\<close> (users, mailboxes, memberships, the revocation outbox and the recovery
  tables with constraints, cascades and triggers), \<^verbatim>\<open>Mailbox_Access\<close> (every formulation of the access rule),
  \<^verbatim>\<open>Account_Lifecycle\<close> (users, provisioning, deactivation), \<^verbatim>\<open>Portal_Steps\<close> (the transactions as one datatype),
  \<^verbatim>\<open>Access_Laws\<close> (the formulations agree), \<^verbatim>\<open>Accounts_Invariant\<close>, \<^verbatim>\<open>Account_Guarantees\<close> (a credential change
  raises the session version and nothing lowers it; a deactivated account stays shut out) and \<^verbatim>\<open>Access_Revocation\<close> (whatever takes access away leaves a revocation).

  \<^descr> Agent connections. A mailbox's agent keeps sockets whose users may lose access at any time; triggers write
  revocations, workers drain them. \<^verbatim>\<open>Agent_Outbox\<close>, \<^verbatim>\<open>Agent_Sockets\<close>, \<^verbatim>\<open>Agent_System\<close> (database, agents and drains as
  one transition system of uninterrupted events) and \<^verbatim>\<open>Agent_Revocation\<close> (its invariant: a socket without access
  has a revocation that will close it).

  \<^descr> Credential recovery. \<^verbatim>\<open>Recovery_Tokens\<close> (tokens, their consumption, the audit trail), \<^verbatim>\<open>Recovery_Delivery\<close> (the
  e-mail outbox with its fences), \<^verbatim>\<open>Recovery_Requests\<close> (request jobs and limits), \<^verbatim>\<open>Recovery_Worker\<close> (drains, provider
  events, retention), with \<^verbatim>\<open>Recovery_Constraints\<close>, \<^verbatim>\<open>Recovery_Invariant\<close>, \<^verbatim>\<open>Recovery_Preserved\<close>, \<^verbatim>\<open>Recovery_Sizes\<close> (the lengths,
  enumerations and references of the recovery tables), \<^verbatim>\<open>Recovery_History\<close> and \<^verbatim>\<open>Recovery_Guarantees\<close>: links work once, are few, die with the credentials they were issued for, and mail goes
  out only for a live link.

  \<^descr> Follow-up reminders. \<^verbatim>\<open>Reminder_Store\<close> (\<^verbatim>\<open>follow-up-reminders-d1.ts\<close>), \<^verbatim>\<open>Reminder_Service\<close> (schemas, cursors,
  anchors, previews), \<^verbatim>\<open>Reminder_Flow\<close> (the operations with their access checks, the reply queue, the groups),
  \<^verbatim>\<open>Reminder_Guarantees\<close> (any interleaving of statements; an operation applies once; a resolved reminder is final),
  \<^verbatim>\<open>Reminder_Paging\<close> (following the cursors ends and yields the list) and \<^verbatim>\<open>Reply_Queue\<close>.

  \<^descr> Filing mail: the operations of a mailbox that say where its messages lie. \<^verbatim>\<open>Mail_Tables\<close> (folders, messages, deliveries,
  wake queue and activity of \<^verbatim>\<open>workers/db/schema.ts\<close>, the scope of a conversation), \<^verbatim>\<open>Mail_Snooze\<close> (\<^verbatim>\<open>workers/lib/snooze.ts\<close>,
  \<^verbatim>\<open>durableObject/snooze-state.ts\<close>, the wake-ups by time and by reply), \<^verbatim>\<open>Mail_Moves\<close> (flags, trash, moves, folders,
  conversations and \<^verbatim>\<open>durableObject/batch-triage.ts\<close>). \<^verbatim>\<open>Mail_Invariant\<close> (the invariant of a mailbox, and \<open>mail_op\<close>, all operations
  as one datatype), \<^verbatim>\<open>Mail_Guarantees\<close> (mail stays in order, mail being sent stays where it is), \<^verbatim>\<open>Mail_Returns\<close>
  (snoozing and trashing are undone exactly; when the scope of a conversation lists a message twice),
  \<^verbatim>\<open>Mail_Waking\<close> (due mail wakes and the alarm covers the rest, with \<^verbatim>\<open>Iso_Order\<close>: canonical dates
  of the years 0 to 9999 sort like times).

  The theories named \<^verbatim>\<open>*_Witnesses\<close> apply the guarantees to concrete databases and runs, on which the definitions are
  evaluated.

  Reading the models. SQL tables are lists of records in insertion order, one field per column (with the prefix of
  its table); an \<open>UPDATE\<close> is \<open>update_where\<close> with the condition of its \<open>WHERE\<close> clause, \<open>ORDER BY\<close> is \<open>sort_key\<close>, a
  batch is a function on the tables that leaves them alone when it fails, \<open>None\<close> or \<open>Inl\<close> is a thrown error.
  Machine integers: the program counts in JavaScript numbers below \<open>2^53\<close> and in SQLite's 64-bit integers; times
  are milliseconds and amounts micro-dollars, so both are modelled by unbounded integers, and what is read from
  outside is checked for being a safe integer where the code checks it. Randomness, clocks, keyed hashes, encryption,
  \<^verbatim>\<open>Date.parse\<close> on texts that are not canonical and JSON's text form are arguments of the definitions.

  Bounds. Loops of the program are recursion over the rows they visit, or over a counter the code itself has: 25
  integrity failures are stepped over per outbox claim, a push batch takes 10 deliveries of at most 4 attempts, a
  revocation drain claims 4 batches of 25 rows, a recovery request job is tried 12 times and a recovery mail batch
  takes 8 deliveries, at most 3 recovery links are issued per quarter of an hour, reminder pages have at most 100
  rows, retries of the reply queue wait at most an hour, a snooze or a wake-up takes at most 100 messages (a wake-up
  reads one row more). No model runs on fuel: \<open>all_pages\<close>, which follows
  cursors, has a termination proof, and iterations over queues are stated for the number of rows that are due.

  What the machines range over. \<open>outbox_op\<close> is the service's commands, \<open>mailbox_op\<close> of \<^verbatim>\<open>Outbound_Provider\<close> adds
  every other writer of the delivery table. \<open>push_step\<close> is the statements on the push tables and the deletion of
  a mail. \<open>ai_step\<close> is the calls of the ledger by workers that share one configuration. \<open>mail_op\<close> is the filing
  operations it lists; the move of accepted mail out of the outbox, permanent deletion, drafts and the recovery
  of cancelled messages are not among them. The agent system leaves out two rollbacks of provisioning
  (\<open>admitted_op\<close>): deleting a user and unregistering a mailbox, whose statements write no revocation.

  Not modelled, and why.

  \<^item> The dispatch handler of the mailbox, network transports (SES, push services, IMAP imports), R2 and vector
  storage: their code is calls to services; what comes back from them is an argument where a modelled part needs it.
  \<^item> Password hashing, cookies, payload encryption (\<^verbatim>\<open>auth.ts\<close>, \<^verbatim>\<open>credential-recovery-crypto.ts\<close>): Web Crypto.
  \<^item> The mailbox's remaining RPC surface (labels, lists and search, drafts, templates, contacts, permanent deletion)
  and its SQL migrations.
  \<^item> Inbound mail: receipt, MIME splitting, reconciliation and emergency forwarding are streaming I/O around services
  of the platform, and too large for this development.
  \<^item> Prompts and AI features, MCP and OAuth endpoints, HTTP routes: glue that calls the operations above.
  \<^item> The React client, the quiz, scripts and tests.
\<close>

end
